(* ===== verification/Merid_Prelude.thy ===== *)
theory Merid_Prelude
  imports Main "HOL-Library.Word" "HOL-Library.Multiset"
begin

text \<open>
  The prelude of the libMeridian development: the machine types the C++ code uses, the
  two's complement reading of an \<^verbatim>\<open>int\<close> result, the collections of facts the component
  theories fill, and the generic list lemmas they share (a vector's "overwrite with the back,
  then pop" removal, which RingSet.cpp, LatencyCache.cpp and QueryTable.cpp all use).
\<close>

type_synonym u8 = "8 word"
type_synonym u16 = "16 word"
type_synonym u32 = "32 word"
type_synonym u64 = "64 word"

named_theorems wire_simps \<open>evaluation of the packet writers and readers\<close>
named_theorems ring_simps \<open>fields and frame facts of the ring operations\<close>
named_theorems cache_simps \<open>facts of the timeout index, the latency cache and the query table\<close>

definition UINT_MAX :: u32 where
  "UINT_MAX = 4294967295"

lemma unat_UINT_MAX: "unat UINT_MAX = 4294967295"
  by (simp add: UINT_MAX_def)

lemma le_UINT_MAX [simp]: "x \<le> UINT_MAX"
proof -
  have "UINT_MAX = (- 1 :: u32)" by (simp add: UINT_MAX_def)
  then show ?thesis by (metis word_n1_ge)
qed

text \<open>A C \<^verbatim>\<open>int\<close> result: two's complement on 32 bits.\<close>

definition c_int :: "int \<Rightarrow> int" where
  "c_int x = (let y = x mod 4294967296 in if y < 2147483648 then y else y - 4294967296)"

lemma c_int_id [simp]:
  assumes "- 2147483648 \<le> x" "x < 2147483648"
  shows "c_int x = x"
proof (cases "0 \<le> x")
  case True
  with assms show ?thesis by (simp add: c_int_def Let_def)
next
  case False
  have "x mod 4294967296 = (x + 4294967296) mod 4294967296" by simp
  also have "\<dots> = x + 4294967296" using False assms by (intro mod_pos_pos_trivial) auto
  finally show ?thesis using assms False by (simp add: c_int_def Let_def)
qed

lemma c_int_range: "- 2147483648 \<le> c_int x \<and> c_int x < 2147483648"
proof -
  have "0 \<le> x mod 4294967296" "x mod 4294967296 < 4294967296" by simp_all
  then show ?thesis
    by (cases "x mod 4294967296 < 2147483648") (simp_all add: c_int_def Let_def)
qed

subsection \<open>Removal by overwriting with the last element\<close>

text \<open>
  The loop \<^verbatim>\<open>for (i...) if (v[i] == x) { v[i] = v.back(); v.pop_back(); break; }\<close>: the first
  occurrence of \<open>x\<close> is overwritten with the back of the vector, which is then popped.
\<close>

fun find_index :: "'a \<Rightarrow> 'a list \<Rightarrow> nat option" where
  "find_index x [] = None"
| "find_index x (y # ys) = (if y = x then Some 0 else map_option Suc (find_index x ys))"

definition swap_remove :: "'a \<Rightarrow> 'a list \<Rightarrow> 'a list" where
  "swap_remove x xs =
     (case find_index x xs of None \<Rightarrow> xs | Some i \<Rightarrow> butlast (xs[i := last xs]))"

lemma find_index_None [simp]: "find_index x xs = None \<longleftrightarrow> x \<notin> set xs"
  by (induction xs) auto

lemma find_index_Some: "find_index x xs = Some i \<Longrightarrow> i < length xs \<and> xs ! i = x"
  by (induction xs arbitrary: i) (auto split: if_splits)

lemma find_index_memE:
  assumes "x \<in> set xs"
  obtains i where "find_index x xs = Some i" "i < length xs" "xs ! i = x"
  using assms find_index_Some by (metis find_index_None not_None_eq)

lemma mset_butlast_update_last:
  assumes "i < length xs"
  shows "mset (butlast (xs[i := last xs])) = mset xs - {# xs ! i #}"
proof -
  from assms have ne: "xs \<noteq> []" by auto
  have upd: "mset (xs[i := last xs]) = add_mset (last xs) (mset xs - {# xs ! i #})"
    using assms by (simp add: mset_update)
  have "last (xs[i := last xs]) = last xs"
    using ne assms by (auto simp: last_conv_nth nth_list_update)
  then have "mset (xs[i := last xs]) = add_mset (last xs) (mset (butlast (xs[i := last xs])))"
    using ne by (metis append_butlast_last_id list_update_nonempty mset_append
      union_mset_add_mset_right mset.simps(1,2) add.right_neutral)
  with upd show ?thesis by simp
qed

lemma mset_swap_remove: "mset (swap_remove x xs) = mset xs - {# x #}"
proof (cases "find_index x xs")
  case None
  then have "x \<notin> set xs" by simp
  with None show ?thesis
    by (simp add: swap_remove_def diff_single_trivial del: find_index_None)
next
  case (Some i)
  then have "i < length xs" "xs ! i = x" by (simp_all add: find_index_Some)
  then show ?thesis using Some by (simp add: swap_remove_def mset_butlast_update_last)
qed

lemma length_swap_remove: "x \<in> set xs \<Longrightarrow> length (swap_remove x xs) = length xs - 1"
  by (elim find_index_memE) (simp add: swap_remove_def)

lemma swap_remove_absent [simp]:
  assumes "x \<notin> set xs"
  shows "swap_remove x xs = xs"
proof -
  from assms have "find_index x xs = None" by simp
  then show ?thesis by (simp add: swap_remove_def del: find_index_None)
qed

lemma swap_remove_distinct:
  assumes "distinct xs"
  shows "distinct (swap_remove x xs)" and "set (swap_remove x xs) = set xs - {x}"
proof -
  have m: "mset (swap_remove x xs) = mset xs - {# x #}" by (rule mset_swap_remove)
  have c: "\<And>y. count (mset xs) y = (if y \<in> set xs then 1 else 0)"
    using assms by (simp add: distinct_count_atmost_1)
  have d: "\<And>y. count (mset (swap_remove x xs)) y = (if y \<in> set xs - {x} then 1 else 0)"
    unfolding m by (simp add: c)
  show s: "set (swap_remove x xs) = set xs - {x}"
    using d by (metis count_eq_zero_iff set_mset_mset subsetI subset_antisym zero_neq_one)
  show "distinct (swap_remove x xs)"
    unfolding distinct_count_atmost_1 s by (simp add: d)
qed

declare swap_remove_distinct [simp]

end
