(* ===== verification/Floats.thy ===== *)
theory Floats
  imports Merid_Prelude Complex_Main
begin

text \<open>
  The double arithmetic of the program. A value is a real or one of the special values; an
  operation is the exact one followed by a rounding, and \<^verbatim>\<open>log\<close> is the library's approximation
  of the natural logarithm. Both are the parameter \<open>fpu\<close>, so the theorems say which of them they
  need; \<open>ideal_fpu\<close> neither rounds nor approximates and is used to evaluate. A cast of a value
  outside the target type gives the "integer indefinite" value of the x86 conversion.
\<close>

datatype double = Fin real | PInf | NInf | NaN

record fpu =
  rnd :: "real \<Rightarrow> real"
  lg :: "real \<Rightarrow> real"

definition ideal_fpu :: fpu where
  "ideal_fpu = \<lparr>rnd = (\<lambda>x. x), lg = ln\<rparr>"

lemma ideal_fpu_sel [simp]: "rnd ideal_fpu x = x" "lg ideal_fpu x = ln x"
  by (simp_all add: ideal_fpu_def)

fun d_log :: "fpu \<Rightarrow> double \<Rightarrow> double" where
  "d_log F (Fin r) = (if r > 0 then Fin (lg F r) else if r = 0 then NInf else NaN)"
| "d_log F PInf = PInf"
| "d_log F NInf = NaN"
| "d_log F NaN = NaN"

fun d_div :: "fpu \<Rightarrow> double \<Rightarrow> double \<Rightarrow> double" where
  "d_div F (Fin a) (Fin b) =
     (if b \<noteq> 0 then Fin (rnd F (a / b)) else if a > 0 then PInf else if a < 0 then NInf else NaN)"
| "d_div F PInf (Fin b) = (if b < 0 then NInf else PInf)"
| "d_div F NInf (Fin b) = (if b < 0 then PInf else NInf)"
| "d_div F (Fin a) PInf = Fin 0"
| "d_div F (Fin a) NInf = Fin 0"
| "d_div F _ _ = NaN"

fun d_add :: "fpu \<Rightarrow> double \<Rightarrow> double \<Rightarrow> double" where
  "d_add F (Fin a) (Fin b) = Fin (rnd F (a + b))"
| "d_add F NaN _ = NaN"
| "d_add F _ NaN = NaN"
| "d_add F PInf NInf = NaN"
| "d_add F NInf PInf = NaN"
| "d_add F PInf _ = PInf"
| "d_add F NInf _ = NInf"
| "d_add F _ d = d"

fun d_neg :: "double \<Rightarrow> double" where
  "d_neg (Fin a) = Fin (- a)"
| "d_neg PInf = NInf"
| "d_neg NInf = PInf"
| "d_neg NaN = NaN"

fun d_sign :: "double \<Rightarrow> int" where
  "d_sign (Fin a) = (if a < 0 then - 1 else if a = 0 then 0 else 1)"
| "d_sign PInf = 1"
| "d_sign NInf = - 1"
| "d_sign NaN = 0"

fun d_mul :: "fpu \<Rightarrow> double \<Rightarrow> double \<Rightarrow> double" where
  "d_mul F (Fin a) (Fin b) = Fin (rnd F (a * b))"
| "d_mul F a b =
     (let s = d_sign a * d_sign b in
      if a = NaN \<or> b = NaN \<or> s = 0 then NaN else if s > 0 then PInf else NInf)"

fun d_sqrt :: "fpu \<Rightarrow> double \<Rightarrow> double" where
  "d_sqrt F (Fin a) = (if a < 0 then NaN else Fin (rnd F (sqrt a)))"
| "d_sqrt F PInf = PInf"
| "d_sqrt F _ = NaN"

text \<open>Every comparison with a NaN is false.\<close>

fun d_less :: "double \<Rightarrow> double \<Rightarrow> bool" where
  "d_less (Fin a) (Fin b) \<longleftrightarrow> a < b"
| "d_less NInf (Fin b) \<longleftrightarrow> True"
| "d_less NInf PInf \<longleftrightarrow> True"
| "d_less (Fin a) PInf \<longleftrightarrow> True"
| "d_less _ _ \<longleftrightarrow> False"

definition d_le :: "double \<Rightarrow> double \<Rightarrow> bool" where
  "d_le a b \<longleftrightarrow> d_less a b \<or> (a = b \<and> a \<noteq> NaN)"

lemma d_le_Fin [simp]: "d_le (Fin a) (Fin b) \<longleftrightarrow> a \<le> b" and d_le_NaN [simp]: "\<not> d_le NaN d"
  by (auto simp: d_le_def)

definition d_uint :: "u32 \<Rightarrow> double" where
  "d_uint w = Fin (of_int (uint w))"

fun d_floor :: "double \<Rightarrow> double" where
  "d_floor (Fin r) = Fin (of_int \<lfloor>r\<rfloor>)"
| "d_floor d = d"

fun d_ceil :: "double \<Rightarrow> double" where
  "d_ceil (Fin r) = Fin (of_int \<lceil>r\<rceil>)"
| "d_ceil d = d"

definition INT_MIN :: int where "INT_MIN = - 2147483648"

text \<open>\<^verbatim>\<open>(int) d\<close>: truncation towards zero.\<close>

fun d_to_int :: "double \<Rightarrow> int" where
  "d_to_int (Fin r) =
     (let t = (if 0 \<le> r then \<lfloor>r\<rfloor> else \<lceil>r\<rceil>)
      in if INT_MIN \<le> t \<and> t < 2147483648 then t else INT_MIN)"
| "d_to_int _ = INT_MIN"

text \<open>\<^verbatim>\<open>(u_int) d\<close> of a finite value: through a 64-bit conversion, then truncation.\<close>

definition r_to_uint :: "real \<Rightarrow> u32" where
  "r_to_uint r = word_of_int (if 0 \<le> r then \<lfloor>r\<rfloor> else \<lceil>r\<rceil>)"

fun d_to_uint :: "double \<Rightarrow> u32" where
  "d_to_uint (Fin r) = r_to_uint r"
| "d_to_uint _ = 0"

text \<open>\<^verbatim>\<open>llround\<close>: to the nearest integer, halves away from zero.\<close>

definition LLONG_MIN :: int where "LLONG_MIN = - 9223372036854775808"

fun d_llround :: "double \<Rightarrow> int" where
  "d_llround (Fin r) =
     (let k = (if 0 \<le> r then \<lfloor>r + 1 / 2\<rfloor> else \<lceil>r - 1 / 2\<rceil>)
      in if LLONG_MIN \<le> k \<and> k < - LLONG_MIN then k else LLONG_MIN)"
| "d_llround _ = LLONG_MIN"

text \<open>The saturating conversion the handlers write out after \<^verbatim>\<open>llround\<close>.\<close>

definition clamp_uint :: "int \<Rightarrow> u32" where
  "clamp_uint k = (if k > 4294967295 then UINT_MAX else if k < 0 then 0 else word_of_int k)"

lemma r_to_uint_of_int: "r_to_uint (of_int k) = word_of_int k"
  by (simp add: r_to_uint_def)

lemma d_to_int_range: "INT_MIN \<le> d_to_int d \<and> d_to_int d < 2147483648"
  by (cases d) (auto simp: INT_MIN_def Let_def)

lemma d_to_int_ceil:
  assumes "INT_MIN \<le> \<lceil>r\<rceil>" "\<lceil>r\<rceil> < 2147483648"
  shows "d_to_int (d_ceil (Fin r)) = \<lceil>r\<rceil>"
  using assms by (simp add: Let_def)

end
