(* ===== verification/Std_Containers.thy ===== *)
theory Std_Containers
  imports Merid_Prelude
begin

text \<open>
  The ordered containers of the C++ standard library the program uses. A \<^verbatim>\<open>std::map\<close> is its
  sequence of entries in iteration order (strictly increasing keys), a \<^verbatim>\<open>std::set\<close> with a
  comparator on a key is its sequence of elements, strictly increasing in that key, and
  \<^verbatim>\<open>set::insert\<close> keeps the element already there when the keys agree, which is
  \<open>insort_insert_key\<close>. The locale \<open>std_map\<close> is the contract the components rely on; it is
  interpreted on the sorted association lists below.
\<close>

type_synonym ('k, 'v) smap = "('k \<times> 'v) list"

abbreviation sm_find :: "('k, 'v) smap \<Rightarrow> 'k \<Rightarrow> 'v option" where
  "sm_find m k \<equiv> map_of m k"

abbreviation sm_keys :: "('k, 'v) smap \<Rightarrow> 'k list" where
  "sm_keys m \<equiv> map fst m"

fun sm_upd :: "'k::linorder \<Rightarrow> 'v \<Rightarrow> ('k, 'v) smap \<Rightarrow> ('k, 'v) smap" where
  "sm_upd k v [] = [(k, v)]"
| "sm_upd k v ((k', v') # m) =
     (if k < k' then (k, v) # (k', v') # m
      else if k = k' then (k, v) # m
      else (k', v') # sm_upd k v m)"

definition sm_erase :: "'k \<Rightarrow> ('k, 'v) smap \<Rightarrow> ('k, 'v) smap" where
  "sm_erase k m = filter (\<lambda>e. fst e \<noteq> k) m"

definition sm_ok :: "('k::linorder, 'v) smap \<Rightarrow> bool" where
  "sm_ok m \<longleftrightarrow> sorted_wrt (<) (sm_keys m)"

subsection \<open>The contract of an ordered map\<close>

locale std_map =
  fixes ok :: "'m \<Rightarrow> bool"
    and find :: "'m \<Rightarrow> 'k::linorder \<Rightarrow> 'v option"
    and upd :: "'k \<Rightarrow> 'v \<Rightarrow> 'm \<Rightarrow> 'm"
    and erase :: "'k \<Rightarrow> 'm \<Rightarrow> 'm"
    and entries :: "'m \<Rightarrow> ('k \<times> 'v) list"
  assumes find_upd: "find (upd k v m) k' = (if k' = k then Some v else find m k')"
    and find_erase: "find (erase k m) k' = (if k' = k then None else find m k')"
    and ok_upd: "ok m \<Longrightarrow> ok (upd k v m)"
    and ok_erase: "ok m \<Longrightarrow> ok (erase k m)"
    and find_entries: "ok m \<Longrightarrow> find m k = Some v \<longleftrightarrow> (k, v) \<in> set (entries m)"
    and sorted_entries: "ok m \<Longrightarrow> sorted_wrt (<) (map fst (entries m))"
begin

lemma distinct_entries: "ok m \<Longrightarrow> distinct (map fst (entries m))"
  using sorted_entries strict_sorted_iff by blast

lemma keys_dom:
  assumes "ok m"
  shows "set (map fst (entries m)) = {k. find m k \<noteq> None}"
proof -
  have "k \<in> set (map fst (entries m)) \<longleftrightarrow> (\<exists>v. (k, v) \<in> set (entries m))" for k
    by force
  then show ?thesis using find_entries [OF assms] by auto
qed

lemma size_card: "ok m \<Longrightarrow> length (entries m) = card {k. find m k \<noteq> None}"
  by (metis distinct_card distinct_entries keys_dom length_map)

lemma finite_keys: "ok m \<Longrightarrow> finite {k. find m k \<noteq> None}"
  by (metis List.finite_set keys_dom)

lemma size_upd:
  assumes "ok m"
  shows "length (entries (upd k v m)) =
    (if find m k = None then Suc (length (entries m)) else length (entries m))"
proof -
  have eq: "{j. find (upd k v m) j \<noteq> None} = insert k {j. find m j \<noteq> None}"
    by (auto simp: find_upd)
  show ?thesis
    unfolding size_card [OF ok_upd [OF assms]] size_card [OF assms] eq
    using finite_keys [OF assms] by (auto simp: insert_absorb)
qed

lemma size_erase:
  assumes "ok m"
  shows "length (entries (erase k m)) =
    (if find m k = None then length (entries m) else length (entries m) - 1)"
proof -
  have eq: "{j. find (erase k m) j \<noteq> None} = {j. find m j \<noteq> None} - {k}"
    by (auto simp: find_erase)
  show ?thesis
    unfolding size_card [OF ok_erase [OF assms]] size_card [OF assms] eq
    using finite_keys [OF assms] by auto
qed

lemma first_entry_least:
  assumes "ok m" "entries m = (k, v) # es" "find m j = Some w"
  shows "k \<le> j"
proof -
  from assms(3) have "(j, w) \<in> set (entries m)" using assms(1) find_entries by blast
  then have "j = k \<or> j \<in> fst ` set es" using assms(2) by force
  moreover have "\<forall>x \<in> fst ` set es. k < x"
    using sorted_entries [OF assms(1)] assms(2) by simp
  ultimately show ?thesis by auto
qed

end

subsection \<open>Sorted association lists satisfy it\<close>

lemma sm_find_upd: "sm_find (sm_upd k v m) k' = (if k' = k then Some v else sm_find m k')"
  by (induction k v m rule: sm_upd.induct) auto

lemma sm_find_erase: "sm_find (sm_erase k m) k' = (if k' = k then None else sm_find m k')"
  by (induction m) (auto simp: sm_erase_def)

lemma sm_upd_keys: "set (sm_keys (sm_upd k v m)) = insert k (set (sm_keys m))"
  by (induction k v m rule: sm_upd.induct) auto

lemma sm_ok_upd: "sm_ok m \<Longrightarrow> sm_ok (sm_upd k v m)"
proof (induction k v m rule: sm_upd.induct)
  case (2 k v k' v' m)
  then show ?case using sm_upd_keys [of k v m] by (force simp: sm_ok_def)
qed (simp add: sm_ok_def)

lemma sm_ok_erase: "sm_ok m \<Longrightarrow> sm_ok (sm_erase k m)"
  unfolding sm_ok_def sm_erase_def by (induction m) auto

lemma sm_ok_distinct: "sm_ok m \<Longrightarrow> distinct (sm_keys m)"
  unfolding sm_ok_def using strict_sorted_iff by blast

lemma sm_ok_Nil [simp]: "sm_ok []"
  by (simp add: sm_ok_def)

interpretation smap: std_map sm_ok map_of sm_upd sm_erase "\<lambda>m. m"
proof unfold_locales
  fix m :: "('k::linorder, 'v) smap" and k v
  assume "sm_ok m"
  then show "(map_of m k = Some v) = ((k, v) \<in> set m)"
    by (simp add: sm_ok_distinct)
qed (simp_all add: sm_find_upd sm_find_erase sm_ok_upd sm_ok_erase, simp add: sm_ok_def)

declare sm_find_upd [simp] sm_find_erase [simp] sm_ok_upd [simp] sm_ok_erase [simp]

subsection \<open>Sets ordered by a key\<close>

definition ks_ok :: "('a \<Rightarrow> 'k::linorder) \<Rightarrow> 'a list \<Rightarrow> bool" where
  "ks_ok f xs \<longleftrightarrow> sorted_wrt (<) (map f xs)"

definition ks_find :: "('a \<Rightarrow> 'k) \<Rightarrow> 'k \<Rightarrow> 'a list \<Rightarrow> 'a option" where
  "ks_find f k xs = List.find (\<lambda>x. f x = k) xs"

lemma ks_ok_Nil [simp]: "ks_ok f []"
  by (simp add: ks_ok_def)

lemma ks_ok_iff: "ks_ok f xs \<longleftrightarrow> sorted (map f xs) \<and> distinct (map f xs)"
  by (simp add: ks_ok_def strict_sorted_iff)

lemma distinct_map_insort_key:
  "distinct (map f (insort_key f x xs)) \<longleftrightarrow> f x \<notin> f ` set xs \<and> distinct (map f xs)"
  by (induction xs) (auto simp: set_insort_key)

lemma ks_ok_insert [simp]: "ks_ok f xs \<Longrightarrow> ks_ok f (insort_insert_key f x xs)"
  unfolding ks_ok_iff insort_insert_key_def
  by (auto simp: sorted_insort_key distinct_map_insort_key)

end
