(* ===== verification/Node_Types.thy ===== *)
theory Node_Types
  imports Std_Containers
begin

text \<open>
  Marshal.h: the node identifiers that packets and rings carry, and the comparators the
  containers are keyed on. \<^verbatim>\<open>ltNodeIdent\<close> orders by address, then port, and is the linear order
  of the record type. The structs that add fields to (addr, port) are record extensions:
  \<^verbatim>\<open>ltNodeIdentConst\<close> and \<^verbatim>\<open>ltNodeIdentRendv\<close> look at address and port only, which is the order
  of the truncated record. A \<^verbatim>\<open>struct timeval\<close> is a pair of integers with \<^verbatim>\<open>timevalLT\<close> as its
  order (QueryTable.h).
\<close>

record NodeIdent =
  addr :: u32
  port :: u16

record NodeIdentRendv = NodeIdent +
  addrRendv :: u32
  portRendv :: u32

record NodeIdentConst = NodeIdent +
  latencyConstMS :: u32

record NodeIdentLat = NodeIdent +
  latencyUS :: u32

text \<open>The key a comparator sees of any of the structs.\<close>

definition ident :: "'a NodeIdent_scheme \<Rightarrow> NodeIdent" where
  "ident n = \<lparr>addr = addr n, port = port n\<rparr>"

definition ltNodeIdent :: "'a NodeIdent_scheme \<Rightarrow> 'a NodeIdent_scheme \<Rightarrow> bool" where
  "ltNodeIdent s1 s2 \<longleftrightarrow> addr s1 < addr s2 \<or> (addr s1 = addr s2 \<and> port s1 < port s2)"

lemma lex_trans:
  fixes a a' a'' :: "'a::linorder" and b b' b'' :: "'b::linorder" and c c' c'' :: "'c::linorder"
  assumes "(a < a' \<or> a = a' \<and> b < b') \<or> a = a' \<and> b = b' \<and> c < c'"
    and "(a' < a'' \<or> a' = a'' \<and> b' < b'') \<or> a' = a'' \<and> b' = b'' \<and> c' < c''"
  shows "(a < a'' \<or> a = a'' \<and> b < b'') \<or> a = a'' \<and> b = b'' \<and> c < c''"
  using assms by auto

instantiation NodeIdent_ext :: (linorder) linorder
begin

definition less_NodeIdent_ext :: "'a NodeIdent_scheme \<Rightarrow> 'a NodeIdent_scheme \<Rightarrow> bool" where
  "less_NodeIdent_ext s1 s2 \<longleftrightarrow> ltNodeIdent s1 s2 \<or>
     (addr s1 = addr s2 \<and> port s1 = port s2 \<and> NodeIdent.more s1 < NodeIdent.more s2)"

definition less_eq_NodeIdent_ext :: "'a NodeIdent_scheme \<Rightarrow> 'a NodeIdent_scheme \<Rightarrow> bool" where
  "less_eq_NodeIdent_ext s1 s2 \<longleftrightarrow> s1 < s2 \<or> s1 = s2"

instance
proof
  have trans: "a < b \<Longrightarrow> b < c \<Longrightarrow> a < c" for a b c :: "'a NodeIdent_scheme"
    unfolding less_NodeIdent_ext_def ltNodeIdent_def by (rule lex_trans)
  have irrefl: "\<not> a < a" for a :: "'a NodeIdent_scheme"
    by (simp add: less_NodeIdent_ext_def ltNodeIdent_def)
  fix x y z :: "'a NodeIdent_scheme"
  show "(x < y) = (x \<le> y \<and> \<not> y \<le> x)"
    unfolding less_eq_NodeIdent_ext_def using trans irrefl by metis
  show "x \<le> x" by (simp add: less_eq_NodeIdent_ext_def)
  show "x \<le> y \<Longrightarrow> y \<le> z \<Longrightarrow> x \<le> z"
    unfolding less_eq_NodeIdent_ext_def using trans by metis
  show "x \<le> y \<Longrightarrow> y \<le> x \<Longrightarrow> x = y"
    unfolding less_eq_NodeIdent_ext_def using trans irrefl by metis
  have eq: "addr x = addr y \<Longrightarrow> port x = port y \<Longrightarrow>
      NodeIdent.more x = NodeIdent.more y \<Longrightarrow> x = y"
    by simp
  show "x \<le> y \<or> y \<le> x"
    unfolding less_eq_NodeIdent_ext_def less_NodeIdent_ext_def ltNodeIdent_def
    using eq less_linear by metis
qed

end

lemma less_NodeIdent: "(a :: NodeIdent) < b \<longleftrightarrow> ltNodeIdent a b"
  by (simp add: less_NodeIdent_ext_def)

lemma ident_NodeIdent [simp]: "ident (n :: NodeIdent) = n"
  by (simp add: ident_def)

lemma ident_sel [simp]: "addr (ident n) = addr n" "port (ident n) = port n"
  by (simp_all add: ident_def)

lemma ident_eq_iff: "ident a = ident b \<longleftrightarrow> addr a = addr b \<and> port a = port b"
  by (simp add: ident_def)

text \<open>The comparators of the keyed sets are the order of the key.\<close>

lemma ltNodeIdent_ident: "ltNodeIdent a b \<longleftrightarrow> ident a < ident b"
  by (simp add: less_NodeIdent ltNodeIdent_def)

record timeval =
  tv_sec :: int
  tv_usec :: int

definition timevalLT :: "'a timeval_scheme \<Rightarrow> 'a timeval_scheme \<Rightarrow> bool" where
  "timevalLT s1 s2 \<longleftrightarrow>
     tv_sec s1 < tv_sec s2 \<or> (tv_sec s1 = tv_sec s2 \<and> tv_usec s1 < tv_usec s2)"

instantiation timeval_ext :: (linorder) linorder
begin

definition less_timeval_ext :: "'a timeval_scheme \<Rightarrow> 'a timeval_scheme \<Rightarrow> bool" where
  "less_timeval_ext s1 s2 \<longleftrightarrow> timevalLT s1 s2 \<or>
     (tv_sec s1 = tv_sec s2 \<and> tv_usec s1 = tv_usec s2 \<and> timeval.more s1 < timeval.more s2)"

definition less_eq_timeval_ext :: "'a timeval_scheme \<Rightarrow> 'a timeval_scheme \<Rightarrow> bool" where
  "less_eq_timeval_ext s1 s2 \<longleftrightarrow> s1 < s2 \<or> s1 = s2"

instance
proof
  have trans: "a < b \<Longrightarrow> b < c \<Longrightarrow> a < c" for a b c :: "'a timeval_scheme"
    unfolding less_timeval_ext_def timevalLT_def by (rule lex_trans)
  have irrefl: "\<not> a < a" for a :: "'a timeval_scheme"
    by (simp add: less_timeval_ext_def timevalLT_def)
  fix x y z :: "'a timeval_scheme"
  show "(x < y) = (x \<le> y \<and> \<not> y \<le> x)"
    unfolding less_eq_timeval_ext_def using trans irrefl by metis
  show "x \<le> x" by (simp add: less_eq_timeval_ext_def)
  show "x \<le> y \<Longrightarrow> y \<le> z \<Longrightarrow> x \<le> z"
    unfolding less_eq_timeval_ext_def using trans by metis
  show "x \<le> y \<Longrightarrow> y \<le> x \<Longrightarrow> x = y"
    unfolding less_eq_timeval_ext_def using trans irrefl by metis
  have eq: "tv_sec x = tv_sec y \<Longrightarrow> tv_usec x = tv_usec y \<Longrightarrow>
      timeval.more x = timeval.more y \<Longrightarrow> x = y"
    by simp
  show "x \<le> y \<or> y \<le> x"
    unfolding less_eq_timeval_ext_def less_timeval_ext_def timevalLT_def
    using eq less_linear by metis
qed

end

lemma less_timeval: "(a :: timeval) < b \<longleftrightarrow> timevalLT a b"
  by (simp add: less_timeval_ext_def)

lemma le_timeval:
  "(a :: timeval) \<le> b \<longleftrightarrow>
     tv_sec a < tv_sec b \<or> (tv_sec a = tv_sec b \<and> tv_usec a \<le> tv_usec b)"
  by (cases a; cases b) (auto simp: less_eq_timeval_ext_def less_timeval timevalLT_def)

end
