(* ===== verification/Wire_Buffers.thy ===== *)
theory Wire_Buffers
  imports Node_Types
begin

unbundle bit_operations_syntax

text \<open>
  Marshal.h, lines 56-126 and 201-330: the byte level of the protocol. The memory image of an
  integer is little-endian (the hosts the program is built for), \<^verbatim>\<open>htonl\<close> and its kin reverse it,
  \<open>BufferWrapper\<close> reads a received buffer behind a sticky error flag, and \<open>RealPacket\<close> writes into
  a \<^verbatim>\<open>malloc\<close>ed block of fixed size behind a sticky completeness flag. A read outside the caller's
  buffer is undefined behaviour in C++; the model records it in the ghost field \<open>bw_oob\<close>. A write
  past the end of the block makes the block longer than what was allocated, so it shows as a
  violation of \<open>rp_ok\<close>.
\<close>

subsection \<open>Memory images and byte order\<close>

definition u16_bytes :: "u16 \<Rightarrow> u8 list" where
  "u16_bytes v = [ucast v, ucast (drop_bit 8 v)]"

definition u32_bytes :: "u32 \<Rightarrow> u8 list" where
  "u32_bytes v =
     [ucast v, ucast (drop_bit 8 v), ucast (drop_bit 16 v), ucast (drop_bit 24 v)]"

fun bytes_u16 :: "u8 list \<Rightarrow> u16" where
  "bytes_u16 (b0 # b1 # _) = ucast b0 OR push_bit 8 (ucast b1)"
| "bytes_u16 _ = 0"

fun bytes_u32 :: "u8 list \<Rightarrow> u32" where
  "bytes_u32 (b0 # b1 # b2 # b3 # _) =
     ucast b0 OR push_bit 8 (ucast b1) OR push_bit 16 (ucast b2) OR push_bit 24 (ucast b3)"
| "bytes_u32 _ = 0"

definition htonl :: "u32 \<Rightarrow> u32" where
  "htonl v = bytes_u32 (rev (u32_bytes v))"

definition ntohl :: "u32 \<Rightarrow> u32" where
  "ntohl v = bytes_u32 (rev (u32_bytes v))"

definition htons :: "u16 \<Rightarrow> u16" where
  "htons v = bytes_u16 (rev (u16_bytes v))"

definition ntohs :: "u16 \<Rightarrow> u16" where
  "ntohs v = bytes_u16 (rev (u16_bytes v))"

lemma length_u16_bytes [simp]: "length (u16_bytes v) = 2"
  by (simp add: u16_bytes_def)

lemma length_u32_bytes [simp]: "length (u32_bytes v) = 4"
  by (simp add: u32_bytes_def)

lemma bit_word_out [simp]: "LENGTH('a) \<le> n \<Longrightarrow> \<not> bit (w :: 'a::len word) n"
  using bit_imp_le_length leD by blast

lemma bytes_u32_image [simp]: "bytes_u32 (u32_bytes v) = v"
proof (rule bit_word_eqI)
  fix n assume n: "n < LENGTH(32)"
  then consider "n < 8" | "8 \<le> n" "n < 16" | "16 \<le> n" "n < 24" | "24 \<le> n" "n < 32"
    by (simp, linarith)
  then show "bit (bytes_u32 (u32_bytes v)) n = bit v n"
    by cases (auto simp: u32_bytes_def bit_simps)
qed

lemma bytes_u16_image [simp]: "bytes_u16 (u16_bytes v) = v"
  by (rule bit_word_eqI) (auto simp: u16_bytes_def bit_simps)

lemma u32_bytes_of_bytes: "u32_bytes (bytes_u32 [a, b, c, d]) = [a, b, c, d]"
  by (auto simp: u32_bytes_def bit_simps intro!: bit_word_eqI)

lemma u16_bytes_of_bytes: "u16_bytes (bytes_u16 [a, b]) = [a, b]"
  by (auto simp: u16_bytes_def bit_simps intro!: bit_word_eqI)

lemma ntohl_htonl [simp]: "ntohl (htonl v) = v"
proof -
  have "u32_bytes (bytes_u32 (rev (u32_bytes v))) = rev (u32_bytes v)"
    by (simp add: u32_bytes_def [of v] u32_bytes_of_bytes del: bytes_u32.simps)
  then show ?thesis by (simp add: ntohl_def htonl_def del: bytes_u32.simps)
qed

lemma ntohs_htons [simp]: "ntohs (htons v) = v"
proof -
  have "u16_bytes (bytes_u16 (rev (u16_bytes v))) = rev (u16_bytes v)"
    by (simp add: u16_bytes_def [of v] u16_bytes_of_bytes del: bytes_u16.simps)
  then show ?thesis by (simp add: ntohs_def htons_def del: bytes_u16.simps)
qed

lemma htonl_ntohl [simp]: "htonl (ntohl v) = v"
  using ntohl_htonl [of v] by (simp only: htonl_def ntohl_def)

lemma htons_ntohs [simp]: "htons (ntohs v) = v"
  using ntohs_htons [of v] by (simp only: htons_def ntohs_def)

declare bytes_u16.simps [simp del] bytes_u32.simps [simp del]

lemma u32_bytes_split:
  assumes "length bs = 4"
  shows "u32_bytes (bytes_u32 bs) = bs"
proof -
  obtain a b c d where "bs = [a, b, c, d]"
    using assms by (auto simp: length_Suc_conv numeral_eq_Suc)
  then show ?thesis by (simp add: u32_bytes_of_bytes)
qed

lemma u16_bytes_split:
  assumes "length bs = 2"
  shows "u16_bytes (bytes_u16 bs) = bs"
proof -
  obtain a b where "bs = [a, b]"
    using assms by (auto simp: length_Suc_conv numeral_eq_Suc)
  then show ?thesis by (simp add: u16_bytes_of_bytes)
qed

text \<open>What \<^verbatim>\<open>append_uint(htonl(v))\<close> and \<^verbatim>\<open>append_ushort(htons(v))\<close> put on the wire.\<close>

definition net_uint :: "u32 \<Rightarrow> u8 list" where
  "net_uint v = u32_bytes (htonl v)"

definition net_ushort :: "u16 \<Rightarrow> u8 list" where
  "net_ushort v = u16_bytes (htons v)"

lemma length_net [simp]: "length (net_uint v) = 4" "length (net_ushort w) = 2"
  by (simp_all add: net_uint_def net_ushort_def)

lemma net_uint_ntohl: "net_uint (ntohl v) = u32_bytes v"
  by (simp add: net_uint_def)

lemma net_ushort_ntohs: "net_ushort (ntohs v) = u16_bytes v"
  by (simp add: net_ushort_def)

subsection \<open>BufferWrapper\<close>

record BufferWrapper =
  bw_errorFlag :: bool
  bw_buf :: "u8 list"
  bw_bufSize :: int
  bw_counter :: int
  bw_oob :: bool

definition newBufferWrapper :: "u8 list \<Rightarrow> int \<Rightarrow> BufferWrapper" where
  "newBufferWrapper in_buf in_buf_size =
     \<lparr>bw_errorFlag = False, bw_buf = in_buf, bw_bufSize = in_buf_size, bw_counter = 0,
      bw_oob = False\<rparr>"

text \<open>
  The bound check adds two \<^verbatim>\<open>int\<close>s, so the sum is taken in two's complement; the bytes the
  caller then reads are \<open>counter .. counter + n - 1\<close>, and the ghost flag tells whether they lie in
  the buffer.
\<close>

definition retrieve_buf :: "int \<Rightarrow> BufferWrapper \<Rightarrow> u8 list option \<times> BufferWrapper" where
  "retrieve_buf in_buf_size b =
     (if \<not> bw_errorFlag b \<and> 0 \<le> in_buf_size \<and> c_int (bw_counter b + in_buf_size) \<le> bw_bufSize b
      then (Some (take (nat in_buf_size) (drop (nat (bw_counter b)) (bw_buf b))),
            b\<lparr>bw_counter := c_int (bw_counter b + in_buf_size),
              bw_oob := bw_oob b \<or> bw_counter b < 0
                \<or> bw_counter b + in_buf_size > int (length (bw_buf b))\<rparr>)
      else (None, b\<lparr>bw_errorFlag := True\<rparr>))"

definition retrieve_char :: "BufferWrapper \<Rightarrow> u8 \<times> BufferWrapper" where
  "retrieve_char b =
     (case retrieve_buf 1 b of (None, b') \<Rightarrow> (0, b') | (Some bs, b') \<Rightarrow> (hd bs, b'))"

definition retrieve_ushort :: "BufferWrapper \<Rightarrow> u16 \<times> BufferWrapper" where
  "retrieve_ushort b =
     (case retrieve_buf 2 b of (None, b') \<Rightarrow> (0, b') | (Some bs, b') \<Rightarrow> (bytes_u16 bs, b'))"

definition retrieve_uint :: "BufferWrapper \<Rightarrow> u32 \<times> BufferWrapper" where
  "retrieve_uint b =
     (case retrieve_buf 4 b of (None, b') \<Rightarrow> (0, b') | (Some bs, b') \<Rightarrow> (bytes_u32 bs, b'))"

definition retrieve_int :: "BufferWrapper \<Rightarrow> int \<times> BufferWrapper" where
  "retrieve_int b =
     (case retrieve_buf 4 b of (None, b') \<Rightarrow> (0, b') | (Some bs, b') \<Rightarrow> (sint (bytes_u32 bs), b'))"

definition remainBufSize :: "BufferWrapper \<Rightarrow> u32" where
  "remainBufSize b = word_of_int (bw_bufSize b - bw_counter b)"

definition returnPos :: "BufferWrapper \<Rightarrow> u32" where
  "returnPos b = word_of_int (bw_counter b)"

text \<open>The combinations the parsers use.\<close>

definition get_uint :: "BufferWrapper \<Rightarrow> u32 \<times> BufferWrapper" where
  "get_uint b = (case retrieve_uint b of (v, b') \<Rightarrow> (ntohl v, b'))"

definition get_ushort :: "BufferWrapper \<Rightarrow> u16 \<times> BufferWrapper" where
  "get_ushort b = (case retrieve_ushort b of (v, b') \<Rightarrow> (ntohs v, b'))"

subsection \<open>Safe readers\<close>

definition bw_ok :: "BufferWrapper \<Rightarrow> bool" where
  "bw_ok b \<longleftrightarrow> \<not> bw_oob b \<and> 0 \<le> bw_counter b \<and> bw_counter b \<le> bw_bufSize b \<and>
     bw_bufSize b = int (length (bw_buf b)) \<and> length (bw_buf b) < 1073741824"

text \<open>A reader that has consumed \<open>pre\<close>, has \<open>rest\<close> ahead of it and has not failed.\<close>

definition rd :: "u8 list \<Rightarrow> u8 list \<Rightarrow> BufferWrapper" where
  "rd pre rest = \<lparr>bw_errorFlag = False, bw_buf = pre @ rest,
     bw_bufSize = int (length (pre @ rest)), bw_counter = int (length pre), bw_oob = False\<rparr>"

lemma new_rd: "newBufferWrapper buf (int (length buf)) = rd [] buf"
  by (simp add: newBufferWrapper_def rd_def)

lemma rd_sel [simp]: "\<not> bw_errorFlag (rd pre rest)"
  by (simp add: rd_def)

lemma bw_ok_rd [simp]: "bw_ok (rd pre rest) \<longleftrightarrow> length pre + length rest < 1073741824"
  by (simp add: bw_ok_def rd_def)

lemma bw_ok_cases:
  assumes "bw_ok b"
  obtains "bw_errorFlag b" | pre rest where "b = rd pre rest" "length pre + length rest < 1073741824"
proof (cases "bw_errorFlag b")
  case False
  define pre rest where "pre = take (nat (bw_counter b)) (bw_buf b)"
    and "rest = drop (nat (bw_counter b)) (bw_buf b)"
  have "int (length pre) = bw_counter b"
    using assms by (auto simp: pre_def bw_ok_def min_def)
  moreover have "pre @ rest = bw_buf b" by (simp add: pre_def rest_def)
  ultimately have "b = rd pre rest"
    using assms False by (simp add: rd_def bw_ok_def)
  moreover have "length pre + length rest = length (bw_buf b)"
    by (metis \<open>pre @ rest = bw_buf b\<close> length_append)
  ultimately show ?thesis using assms that(2) by (simp add: bw_ok_def)
qed (use that in blast)

lemma retrieve_buf_rd:
  assumes "length pre + length bs + length rest < 1073741824"
  shows "retrieve_buf (int (length bs)) (rd pre (bs @ rest)) = (Some bs, rd (pre @ bs) rest)"
  using assms by (simp add: retrieve_buf_def rd_def)

lemma retrieve_buf_short:
  assumes "length rest < n" "length pre + n < 1073741824"
  shows "retrieve_buf (int n) (rd pre rest) = (None, (rd pre rest)\<lparr>bw_errorFlag := True\<rparr>)"
  using assms by (simp add: retrieve_buf_def rd_def)

lemma retrieve_buf_error [simp]:
  "bw_errorFlag b \<Longrightarrow> retrieve_buf n b = (None, b)"
  by (simp add: retrieve_buf_def)


lemma retrieve_fixed_rd:
  "length pre + 1 + length rest < 1073741824 \<Longrightarrow>
     retrieve_char (rd pre (c # rest)) = (c, rd (pre @ [c]) rest)"
  "length pre + 2 + length rest < 1073741824 \<Longrightarrow>
     retrieve_ushort (rd pre (u16_bytes s @ rest)) = (s, rd (pre @ u16_bytes s) rest)"
  "length pre + 4 + length rest < 1073741824 \<Longrightarrow>
     retrieve_uint (rd pre (u32_bytes v @ rest)) = (v, rd (pre @ u32_bytes v) rest)"
  "length pre + 4 + length rest < 1073741824 \<Longrightarrow>
     retrieve_int (rd pre (u32_bytes v @ rest)) = (sint v, rd (pre @ u32_bytes v) rest)"
  using retrieve_buf_rd [of pre "[c]" rest] retrieve_buf_rd [of pre "u16_bytes s" rest]
    retrieve_buf_rd [of pre "u32_bytes v" rest]
  by (simp_all add: retrieve_char_def retrieve_ushort_def retrieve_uint_def retrieve_int_def)

lemma get_rd [wire_simps]:
  "length pre + 2 + length rest < 1073741824 \<Longrightarrow>
     get_ushort (rd pre (net_ushort s @ rest)) = (s, rd (pre @ net_ushort s) rest)"
  "length pre + 4 + length rest < 1073741824 \<Longrightarrow>
     get_uint (rd pre (net_uint v @ rest)) = (v, rd (pre @ net_uint v) rest)"
  by (simp_all add: get_ushort_def get_uint_def net_ushort_def net_uint_def retrieve_fixed_rd)

declare retrieve_fixed_rd(1) [wire_simps]

text \<open>
  \<open>reads b n bs b'\<close>: the step from \<open>b\<close> to \<open>b'\<close> either failed or consumed exactly the bytes \<open>bs\<close>.
  The flag is sticky, so a step that ends without an error began without one.
\<close>

definition reads :: "BufferWrapper \<Rightarrow> u8 list \<Rightarrow> BufferWrapper \<Rightarrow> bool" where
  "reads b bs b' \<longleftrightarrow> bw_ok b' \<and>
     (bw_errorFlag b' \<or>
       (\<exists>pre rest. b = rd pre (bs @ rest) \<and> b' = rd (pre @ bs) rest))"

lemma reads_ok: "reads b bs b' \<Longrightarrow> bw_ok b'"
  by (simp add: reads_def)

lemma reads_refl:
  assumes "bw_ok b"
  shows "reads b [] b"
  using assms by (cases rule: bw_ok_cases) (use assms in \<open>auto simp: reads_def\<close>)

lemma reads_sticky: "reads b bs b' \<Longrightarrow> bw_errorFlag b \<Longrightarrow> bw_errorFlag b'"
  by (auto simp: reads_def)

lemma rd_append_inj:
  assumes "rd pre rest = rd pre' rest'"
  shows "pre = pre' \<and> rest = rest'"
proof -
  from assms have "pre @ rest = pre' @ rest'" "length pre = length pre'"
    by (simp_all add: rd_def)
  then show ?thesis by simp
qed

lemma reads_trans:
  assumes "reads a xs b" "reads b ys c"
  shows "reads a (xs @ ys) c"
proof (cases "bw_errorFlag c")
  case False
  with assms(2) have nb: "\<not> bw_errorFlag b" using reads_sticky by blast
  then obtain p r where 1: "a = rd p (xs @ r)" "b = rd (p @ xs) r"
    using assms(1) by (auto simp: reads_def)
  from False obtain q s where 2: "b = rd q (ys @ s)" "c = rd (q @ ys) s"
    using assms(2) by (auto simp: reads_def)
  have "p @ xs = q \<and> r = ys @ s" using 1 2 rd_append_inj by metis
  then have "a = rd p ((xs @ ys) @ s)" "c = rd (p @ xs @ ys) s"
    using 1(1) 2(2) append_assoc [of p xs ys] by (metis append_assoc)+
  then show ?thesis using assms(2) unfolding reads_def by blast
qed (use assms in \<open>simp add: reads_def\<close>)

text \<open>Every fixed-size reader consumes the image of the value it returns, or fails.\<close>

lemma retrieve_buf_cases:
  assumes "bw_ok b" "n < 1073741824"
  shows "(\<exists>bs b'. retrieve_buf (int n) b = (Some bs, b') \<and> length bs = n \<and> reads b bs b') \<or>
    (\<exists>b'. retrieve_buf (int n) b = (None, b') \<and> bw_errorFlag b' \<and> bw_ok b')"
  using assms(1)
proof (cases rule: bw_ok_cases)
  case 1
  then show ?thesis using assms by simp
next
  case (2 pre rest)
  show ?thesis
  proof (cases "n \<le> length rest")
    case True
    define bs where "bs = take n rest"
    have split: "rest = bs @ drop n rest" "length bs = n" using True by (simp_all add: bs_def)
    have len: "length pre + length bs + length (drop n rest) < 1073741824"
      using 2 split True by simp
    have "retrieve_buf (int n) b = (Some bs, rd (pre @ bs) (drop n rest))"
      using retrieve_buf_rd [OF len] 2(1) split by metis
    moreover have "reads b bs (rd (pre @ bs) (drop n rest))"
      unfolding reads_def using 2(1) split(1) len
      by (metis add.assoc bw_ok_rd length_append)
    ultimately show ?thesis using split by blast
  next
    case False
    have "retrieve_buf (int n) b = (None, b\<lparr>bw_errorFlag := True\<rparr>)"
      using False 2 assms(2) by (simp add: retrieve_buf_def rd_def)
    then show ?thesis using assms(1) by (simp add: bw_ok_def)
  qed
qed

lemma reads_error: "bw_errorFlag b' \<Longrightarrow> bw_ok b' \<Longrightarrow> reads b bs b'"
  by (simp add: reads_def)

lemma reads_char: "bw_ok b \<Longrightarrow> retrieve_char b = (c, b') \<Longrightarrow> reads b [c] b'"
  using retrieve_buf_cases [of b 1]
  by (auto simp: retrieve_char_def reads_error length_Suc_conv)

lemma reads_ushort: "bw_ok b \<Longrightarrow> retrieve_ushort b = (s, b') \<Longrightarrow> reads b (u16_bytes s) b'"
  using retrieve_buf_cases [of b 2]
  by (auto simp: retrieve_ushort_def reads_error u16_bytes_split)

lemma reads_uint: "bw_ok b \<Longrightarrow> retrieve_uint b = (v, b') \<Longrightarrow> reads b (u32_bytes v) b'"
  using retrieve_buf_cases [of b 4]
  by (auto simp: retrieve_uint_def reads_error u32_bytes_split)

lemma reads_get_ushort: "bw_ok b \<Longrightarrow> get_ushort b = (s, b') \<Longrightarrow> reads b (net_ushort s) b'"
  by (auto simp: get_ushort_def net_ushort_ntohs reads_ushort split: prod.splits)

lemma reads_get_uint: "bw_ok b \<Longrightarrow> get_uint b = (v, b') \<Longrightarrow> reads b (net_uint v) b'"
  by (auto simp: get_uint_def net_uint_ntohl reads_uint split: prod.splits)

text \<open>
  The same facts as introduction rules for a chain of readers: each discharges one step against
  the equation that computed it.
\<close>

lemma reads_bind:
  assumes "bw_ok b"
  shows "retrieve_char b = (c, b1) \<Longrightarrow> (bw_ok b1 \<Longrightarrow> reads b1 ys b2) \<Longrightarrow> reads b (c # ys) b2"
    and "get_uint b = (v, b1) \<Longrightarrow> (bw_ok b1 \<Longrightarrow> reads b1 ys b2) \<Longrightarrow>
      reads b (net_uint v @ ys) b2"
    and "get_ushort b = (s, b1) \<Longrightarrow> (bw_ok b1 \<Longrightarrow> reads b1 ys b2) \<Longrightarrow>
      reads b (net_ushort s @ ys) b2"
    and "retrieve_uint b = (w, b1) \<Longrightarrow> (bw_ok b1 \<Longrightarrow> reads b1 ys b2) \<Longrightarrow>
      reads b (u32_bytes w @ ys) b2"
  using reads_char [OF assms] reads_get_uint [OF assms] reads_get_ushort [OF assms]
    reads_uint [OF assms] reads_ok reads_trans
  by (metis append_Cons append_Nil, metis+)

lemmas reads_last = reads_char reads_get_uint reads_get_ushort reads_uint

lemma reader_ok [wire_simps]:
  assumes "bw_ok b"
  shows "bw_ok (snd (retrieve_char b))" "bw_ok (snd (get_uint b))"
    "bw_ok (snd (get_ushort b))" "bw_ok (snd (retrieve_uint b))"
  using reads_char [OF assms] reads_get_uint [OF assms] reads_get_ushort [OF assms]
    reads_uint [OF assms] reads_ok
  by (metis prod.collapse)+

text \<open>The shape of every parser: it checks, then goes on.\<close>

lemma snd_parse_if: "bw_ok (snd (if c then x else y)) \<longleftrightarrow>
    (if c then bw_ok (snd x) else bw_ok (snd y))"
  by simp

lemma reads_rd:
  assumes "reads (rd [] buf) bs b'" "\<not> bw_errorFlag b'"
  obtains rest where "buf = bs @ rest" "b' = rd bs rest"
proof -
  from assms obtain pre rest where e: "rd [] buf = rd pre (bs @ rest)" "b' = rd (pre @ bs) rest"
    by (auto simp: reads_def)
  then have "pre = [] \<and> buf = bs @ rest" using rd_append_inj by metis
  with e that show ?thesis by simp
qed

lemma reads_soundI:
  assumes "reads (rd [] buf) bs b'" "\<not> bw_errorFlag b'" "\<And>rest. bs @ rest = g rest"
  shows "\<exists>rest. buf = g rest"
  using assms by (metis reads_rd)

subsection \<open>Loops that read entries\<close>

text \<open>
  \<^verbatim>\<open>for (uint32_t i = 0; (!rb.error() && i < numEntry); i++)\<close>: the loop stops at the first
  error, whatever the count in the packet promises.
\<close>

fun read_entries :: "(BufferWrapper \<Rightarrow> 'a \<times> BufferWrapper) \<Rightarrow> nat \<Rightarrow> BufferWrapper
    \<Rightarrow> 'a list \<times> BufferWrapper" where
  "read_entries f 0 b = ([], b)"
| "read_entries f (Suc n) b =
     (if bw_errorFlag b then ([], b)
      else (case f b of (x, b1) \<Rightarrow>
        (case read_entries f n b1 of (xs, b2) \<Rightarrow> (x # xs, b2))))"

lemma length_read_entries: "read_entries f n b = (xs, b') \<Longrightarrow> length xs \<le> n"
proof (induction n arbitrary: b xs)
  case (Suc n)
  then show ?case by (force split: prod.splits if_splits)
qed simp

end
