(* ===== verification/Real_Packets.thy ===== *)
theory Real_Packets
  imports Wire_Buffers
begin

text \<open>
  Marshal.h, lines 201-392: \<open>RealPacket\<close>, the block a packet is written into, the request id and
  header every packet starts with, and the contracts of a packet class: \<open>packet_writer\<close> (what
  \<^verbatim>\<open>createRealPacket\<close> promises), \<open>wire_codec\<close> (that \<^verbatim>\<open>parse\<close> inverts it and stays inside the
  datagram) and \<open>strict_codec\<close> (that \<^verbatim>\<open>parse\<close> accepts nothing else). The packet theories interpret
  them on every class. \<open>magic\<close> stands for \<^verbatim>\<open>MAGIC_NUMBER\<close>, the first word of an MD5 digest
  that the OpenSSL library computes.
\<close>

subsection \<open>RealPacket\<close>

record RealPacket =
  rp_packet :: "u8 list"
  rp_size :: int
  rp_complete :: bool
  rp_dest :: NodeIdentRendv
  rp_maxPacketSize :: u32
  rp_pos :: int

definition MAX_UDP_PACKET_SIZE :: u32 where
  "MAX_UDP_PACKET_SIZE = 1400"

definition newRealPacketRendv :: "NodeIdentRendv \<Rightarrow> u32 \<Rightarrow> RealPacket" where
  "newRealPacketRendv in_dest packetSize =
     \<lparr>rp_packet = replicate (unat packetSize) 0, rp_size = 0, rp_complete = True,
      rp_dest = in_dest, rp_maxPacketSize = packetSize, rp_pos = 0\<rparr>"

definition newRealPacket :: "NodeIdent \<Rightarrow> u32 \<Rightarrow> RealPacket" where
  "newRealPacket in_dest packetSize =
     newRealPacketRendv \<lparr>addr = addr in_dest, port = port in_dest, addrRendv = 0, portRendv = 0\<rparr>
       packetSize"

definition verifySpace :: "RealPacket \<Rightarrow> int \<Rightarrow> bool" where
  "verifySpace p typeSize \<longleftrightarrow>
     \<not> (word_of_int (c_int (rp_size p + typeSize)) :: u32) > rp_maxPacketSize p"

text \<open>\<^verbatim>\<open>memcpy(block + off, bs, n)\<close>; past the end the block grows, which breaks \<open>rp_ok\<close>.\<close>

definition mem_write :: "u8 list \<Rightarrow> nat \<Rightarrow> u8 list \<Rightarrow> u8 list" where
  "mem_write block off bs = take off block @ bs @ drop (off + length bs) block"

definition append_mem :: "u8 list \<Rightarrow> RealPacket \<Rightarrow> RealPacket" where
  "append_mem bs p =
     (if \<not> rp_complete p then p
      else let ok = verifySpace p (int (length bs)); q = p\<lparr>rp_complete := ok\<rparr> in
        if ok then q\<lparr>rp_packet := mem_write (rp_packet q) (nat (rp_size q)) bs,
                     rp_size := rp_size q + int (length bs)\<rparr>
        else q)"

definition append_int :: "int \<Rightarrow> RealPacket \<Rightarrow> RealPacket" where
  "append_int val p = append_mem (u32_bytes (word_of_int val)) p"

definition append_uint :: "u32 \<Rightarrow> RealPacket \<Rightarrow> RealPacket" where
  "append_uint val p = append_mem (u32_bytes val) p"

definition append_ushort :: "u16 \<Rightarrow> RealPacket \<Rightarrow> RealPacket" where
  "append_ushort val p = append_mem (u16_bytes val) p"

definition append_char :: "u8 \<Rightarrow> RealPacket \<Rightarrow> RealPacket" where
  "append_char val p = append_mem [val] p"

definition append_str :: "u8 list \<Rightarrow> int \<Rightarrow> RealPacket \<Rightarrow> RealPacket" where
  "append_str in_str in_size p =
     (if \<not> rp_complete p \<or> in_size \<le> 0 then p else append_mem (take (nat in_size) in_str) p)"

definition getPayLoad :: "RealPacket \<Rightarrow> u8 list" where
  "getPayLoad p = take (nat (rp_size p)) (rp_packet p)"

definition append_packet :: "RealPacket \<Rightarrow> RealPacket \<Rightarrow> RealPacket" where
  "append_packet in_packet p = append_str (rp_packet in_packet) (rp_size in_packet) p"

definition setPayLoadSize :: "int \<Rightarrow> RealPacket \<Rightarrow> RealPacket" where
  "setPayLoadSize val p =
     (if \<not> rp_complete p then p
      else if val < 0 \<or> (word_of_int val :: u32) > rp_maxPacketSize p
      then p\<lparr>rp_complete := False\<rparr>
      else p\<lparr>rp_size := val\<rparr>)"

definition incrPos :: "int \<Rightarrow> RealPacket \<Rightarrow> RealPacket" where
  "incrPos val p = (if val > 0 then p\<lparr>rp_pos := c_int (rp_pos p + val)\<rparr> else p)"

definition rp_ok :: "RealPacket \<Rightarrow> bool" where
  "rp_ok p \<longleftrightarrow> int (length (rp_packet p)) = uint (rp_maxPacketSize p) \<and> 0 \<le> rp_size p \<and>
     rp_size p \<le> uint (rp_maxPacketSize p) \<and> uint (rp_maxPacketSize p) < 1073741824"

lemma rp_ok_new [simp]:
  "uint n < 1073741824 \<Longrightarrow> rp_ok (newRealPacketRendv d n)"
  "uint n < 1073741824 \<Longrightarrow> rp_ok (newRealPacket i n)"
  by (simp_all add: rp_ok_def newRealPacketRendv_def newRealPacket_def)

subsection \<open>What a sequence of appends leaves in the block\<close>

text \<open>
  \<open>writes p p' bs\<close>: the appends from \<open>p\<close> to \<open>p'\<close> stayed inside the block and, unless the flag
  was already down, either put exactly \<open>bs\<close> after the payload or, when that does not fit,
  cleared the flag.
\<close>

definition writes :: "RealPacket \<Rightarrow> RealPacket \<Rightarrow> u8 list \<Rightarrow> bool" where
  "writes p p' bs \<longleftrightarrow> rp_ok p' \<and> rp_maxPacketSize p' = rp_maxPacketSize p \<and>
     rp_dest p' = rp_dest p \<and> rp_pos p' = rp_pos p \<and>
     (rp_complete p' \<longleftrightarrow> rp_complete p \<and>
        rp_size p + int (length bs) \<le> uint (rp_maxPacketSize p)) \<and>
     (rp_complete p' \<longrightarrow> getPayLoad p' = getPayLoad p @ bs \<and>
        rp_size p' = rp_size p + int (length bs))"

lemma writes_ok: "writes p p' bs \<Longrightarrow> rp_ok p'"
  by (simp add: writes_def)

lemma writes_Nil: "rp_ok p \<Longrightarrow> writes p p []"
  by (auto simp: writes_def rp_ok_def)

lemma writes_trans:
  assumes "writes p q as" "writes q r bs"
  shows "writes p r (as @ bs)"
  using assms unfolding writes_def by auto

lemma uint_c_int:
  "0 \<le> k \<Longrightarrow> k < 2147483648 \<Longrightarrow> uint (word_of_int (c_int k) :: u32) = k"
  by (simp add: uint_word_of_int take_bit_eq_mod)

lemma verifySpace_iff:
  assumes "rp_ok p" "n < 1073741824"
  shows "verifySpace p (int n) \<longleftrightarrow> rp_size p + int n \<le> uint (rp_maxPacketSize p)"
proof -
  have "0 \<le> rp_size p + int n" "rp_size p + int n < 2147483648"
    using assms by (auto simp: rp_ok_def)
  then have "uint (word_of_int (c_int (rp_size p + int n)) :: u32) = rp_size p + int n"
    by (rule uint_c_int)
  then show ?thesis
    unfolding verifySpace_def not_less word_le_def by (simp only:)
qed

lemma writes_append_mem:
  assumes "rp_ok p" "length bs < 1073741824"
  shows "writes p (append_mem bs p) bs"
proof (cases "rp_complete p \<and> verifySpace p (int (length bs))")
  case False
  then show ?thesis
    using assms verifySpace_iff [OF assms]
    by (auto simp: append_mem_def writes_def Let_def rp_ok_def)
next
  case True
  then have le: "rp_size p + int (length bs) \<le> uint (rp_maxPacketSize p)"
    using verifySpace_iff [OF assms] by simp
  define m where "m = nat (rp_size p)"
  have m: "rp_size p = int m" using assms by (simp add: m_def rp_ok_def)
  have len: "m + length bs \<le> length (rp_packet p)"
    using le assms m by (simp add: rp_ok_def)
  show ?thesis
    using True assms le len
    by (auto simp: append_mem_def writes_def Let_def rp_ok_def mem_write_def getPayLoad_def m
      nat_int_add)
qed

text \<open>The \<open>writes\<close> facts of the appends, in the form the packet classes use them.\<close>

lemma writes_appends:
  assumes "rp_ok p"
  shows "writes p (append_uint v p) (u32_bytes v)"
    "writes p (append_ushort s p) (u16_bytes s)"
    "writes p (append_char c p) [c]"
    "writes p (append_uint (htonl v) p) (net_uint v)"
    "writes p (append_ushort (htons s) p) (net_ushort s)"
  using assms writes_append_mem
  by (simp_all add: append_uint_def append_ushort_def append_char_def net_uint_def
    net_ushort_def)

lemma writes_append_str:
  assumes "rp_ok p" "in_size = int (length s)" "length s < 1073741824"
  shows "writes p (append_str s in_size p) s"
  using assms writes_append_mem [of p s] writes_Nil [of p]
  by (auto simp: append_str_def writes_def)

lemma writes_step:
  assumes "writes p q as" "\<And>q. rp_ok q \<Longrightarrow> writes q (f q) bs"
  shows "writes p (f q) (as @ bs)"
  using assms writes_trans writes_ok by blast

lemma writes_fold:
  assumes "\<And>x q. rp_ok q \<Longrightarrow> writes q (f x q) (enc x)" "rp_ok p"
  shows "writes p (fold f xs p) (concat (map enc xs))"
  using assms(2)
proof (induction xs arbitrary: p)
  case (Cons x xs)
  then have "writes p (f x p) (enc x)" using assms(1) by blast
  with Cons.IH [OF writes_ok [OF this]] writes_trans show ?case by fastforce
qed (simp add: writes_Nil)

lemma rp_ok_setPayLoadSize:
  assumes "rp_ok p" "n < 2147483648"
  shows "rp_ok (setPayLoadSize n p)"
proof (cases "0 \<le> n")
  case True
  then have "uint (word_of_int n :: u32) = n"
    using assms(2) by (simp add: uint_word_of_int take_bit_eq_mod)
  then show ?thesis
    using assms True by (auto simp: setPayLoadSize_def rp_ok_def word_less_def)
qed (use assms in \<open>simp add: setPayLoadSize_def rp_ok_def\<close>)

subsection \<open>Request ids and headers\<close>

definition to64 :: "u32 \<Rightarrow> u32 \<Rightarrow> u64" where
  "to64 id_1 id_2 = (let tmp = ucast id_1; tmp = push_bit 32 tmp in tmp OR ucast id_2)"

definition to32 :: "u64 \<Rightarrow> u32 \<times> u32" where
  "to32 id0 = (ucast (drop_bit 32 id0), ucast (id0 AND 0xFFFFFFFF))"

lemma mask32: "(0xFFFFFFFF :: u64) = mask 32"
  by (simp add: mask_eq_exp_minus_1)

lemma to32_to64 [simp]: "to32 (to64 a b) = (a, b)"
  unfolding to32_def mask32
  by (auto simp: to64_def Let_def bit_simps intro!: bit_word_eqI)

lemma to64_to32 [simp]:
  assumes "to32 v = (a, b)"
  shows "to64 a b = v"
proof -
  have ab: "a = ucast (drop_bit 32 v)" "b = ucast (v AND mask 32)"
    using assms by (simp_all add: to32_def mask32)
  show ?thesis
    unfolding ab by (rule bit_word_eqI) (auto simp: to64_def Let_def bit_simps)
qed

text \<open>The headers of the packet classes; a subclass is the record with its type code.\<close>

record Packet =
  req_id_1 :: u32
  req_id_2 :: u32

record RendvHeaderPacket = Packet +
  rendv_addr :: u32
  rendv_port :: u16

definition retReqID :: "'a Packet_scheme \<Rightarrow> u64" where
  "retReqID pk = to64 (req_id_1 pk) (req_id_2 pk)"

definition write_id :: "u32 \<Rightarrow> 'a Packet_scheme \<Rightarrow> RealPacket \<Rightarrow> RealPacket" where
  "write_id magic pk inPacket =
     append_uint (htonl magic)
       (append_uint (htonl (req_id_2 pk))
         (append_uint (htonl (req_id_1 pk)) inPacket))"

definition write_rendv :: "'a RendvHeaderPacket_scheme \<Rightarrow> RealPacket \<Rightarrow> RealPacket" where
  "write_rendv pk inPacket =
     append_ushort (htons (rendv_port pk)) (append_uint (htonl (rendv_addr pk)) inPacket)"

text \<open>\<^verbatim>\<open>Packet::parseHeader\<close>: the return value, the type, the id and the reader.\<close>

definition parseHeader :: "u32 \<Rightarrow> BufferWrapper \<Rightarrow> int \<times> u8 \<times> u64 \<times> BufferWrapper" where
  "parseHeader magic rb =
     (case retrieve_char rb of (queryType, rb) \<Rightarrow>
      case get_uint rb of (queryID_1, rb) \<Rightarrow>
      case get_uint rb of (queryID_2, rb) \<Rightarrow>
      let queryID = to64 queryID_1 queryID_2 in
      case get_uint rb of (magicNumber, rb) \<Rightarrow>
      (if bw_errorFlag rb then (-1, queryType, queryID, rb)
       else if magicNumber \<noteq> magic then (-1, queryType, queryID, rb)
       else (0, queryType, queryID, rb)))"

definition id_bytes :: "u32 \<Rightarrow> 'a Packet_scheme \<Rightarrow> u8 list" where
  "id_bytes magic pk = net_uint (req_id_1 pk) @ net_uint (req_id_2 pk) @ net_uint magic"

definition rendv_bytes :: "'a RendvHeaderPacket_scheme \<Rightarrow> u8 list" where
  "rendv_bytes pk = net_uint (rendv_addr pk) @ net_ushort (rendv_port pk)"

lemma length_header [simp]:
  "length (id_bytes magic pk) = 12" "length (rendv_bytes rpk) = 6"
  by (simp_all add: id_bytes_def rendv_bytes_def)

lemma writes_id: "rp_ok p \<Longrightarrow> writes p (write_id magic pk p) (id_bytes magic pk)"
  unfolding write_id_def id_bytes_def append_assoc [symmetric]
  by (intro writes_step [where f = "append_uint _"] writes_appends)

lemma writes_rendv: "rp_ok p \<Longrightarrow> writes p (write_rendv pk p) (rendv_bytes pk)"
  unfolding write_rendv_def rendv_bytes_def
  by (intro writes_step [where f = "append_ushort _"] writes_appends)

text \<open>The end of every \<^verbatim>\<open>createRealPacket\<close>.\<close>

definition packet_done :: "RealPacket \<Rightarrow> int \<times> RealPacket" where
  "packet_done p = (if \<not> rp_complete p then -1 else 0, p)"

subsection \<open>The contract of a packet class\<close>

locale packet_writer =
  fixes create :: "'a \<Rightarrow> RealPacket \<Rightarrow> int \<times> RealPacket"
    and bytes :: "'a \<Rightarrow> u8 list"
    and sendable :: "'a \<Rightarrow> bool"
  assumes create_writes: "sendable a \<Longrightarrow> rp_ok p \<Longrightarrow> writes p (snd (create a p)) (bytes a)"
    and create_ret: "sendable a \<Longrightarrow> rp_ok p \<Longrightarrow>
      fst (create a p) = (if rp_complete (snd (create a p)) then 0 else -1)"
begin

lemma create_ok: "sendable a \<Longrightarrow> rp_ok p \<Longrightarrow> rp_ok (snd (create a p))"
  using create_writes writes_ok by blast

lemma create_payload:
  assumes "sendable a" "rp_ok p" "fst (create a p) = 0"
  shows "getPayLoad (snd (create a p)) = getPayLoad p @ bytes a"
  using create_writes [OF assms(1,2)] create_ret [OF assms(1,2)] assms(3)
  by (auto simp: writes_def split: if_splits)

lemma create_fits:
  assumes "sendable a" "rp_ok p" "rp_complete p"
  shows "fst (create a p) = 0 \<longleftrightarrow>
    rp_size p + int (length (bytes a)) \<le> uint (rp_maxPacketSize p)"
  using create_writes [OF assms(1,2)] create_ret [OF assms(1,2)] assms(3)
  by (auto simp: writes_def split: if_splits)

end

locale wire_codec = packet_writer create bytes sendable
  for create :: "'a \<Rightarrow> RealPacket \<Rightarrow> int \<times> RealPacket"
    and bytes :: "'a \<Rightarrow> u8 list"
    and sendable :: "'a \<Rightarrow> bool" +
  fixes parse :: "u8 list \<Rightarrow> 'a option \<times> BufferWrapper"
    and parsable :: "'a \<Rightarrow> bool"
  assumes sendable_parsable: "sendable a \<Longrightarrow> parsable a"
    and parse_bytes: "parsable a \<Longrightarrow> length (bytes a @ rest) < 1073741824 \<Longrightarrow>
      fst (parse (bytes a @ rest)) = Some a"
    and parse_safe: "length buf < 1073741824 \<Longrightarrow> bw_ok (snd (parse buf))"
begin

lemma roundtrip:
  assumes "sendable a" "rp_ok p" "rp_size p = 0" "fst (create a p) = 0"
  shows "fst (parse (getPayLoad (snd (create a p)))) = Some a"
proof -
  have pl: "getPayLoad (snd (create a p)) = bytes a"
    using create_payload [OF assms(1,2,4)] assms(3) by (simp add: getPayLoad_def)
  have "length (getPayLoad (snd (create a p))) < 1073741824"
    using create_ok [OF assms(1,2)] by (auto simp: getPayLoad_def rp_ok_def min_def)
  then show ?thesis
    using parse_bytes [of a "[]"] sendable_parsable [OF assms(1)] pl by simp
qed

text \<open>No encoding is a proper prefix of another.\<close>

lemma bytes_prefix_free:
  assumes "parsable a" "parsable b" "bytes a @ r = bytes b @ s"
    and "length (bytes a @ r) < 1073741824"
  shows "a = b \<and> r = s"
proof -
  have "a = b"
    using parse_bytes [of a r] parse_bytes [of b s] assms by simp
  with assms(3) show ?thesis by simp
qed

end

locale strict_codec = wire_codec +
  assumes parse_sound: "length buf < 1073741824 \<Longrightarrow> fst (parse buf) = Some a \<Longrightarrow>
      parsable a \<and> (\<exists>rest. buf = bytes a @ rest)"
begin

lemma parse_iff:
  assumes "length buf < 1073741824"
  shows "fst (parse buf) = Some a \<longleftrightarrow> parsable a \<and> (\<exists>rest. buf = bytes a @ rest)"
  using parse_sound [OF assms] parse_bytes assms by auto

lemma truncated_rejected:
  assumes "parsable a" "length (bytes a) < 1073741824" "bytes a = p @ q" "q \<noteq> []"
  shows "fst (parse p) = None"
proof (rule ccontr)
  assume "fst (parse p) \<noteq> None"
  then obtain b where b: "fst (parse p) = Some b" by blast
  have "length p < 1073741824" using assms by simp
  from parse_sound [OF this b] obtain r where "parsable b" "p = bytes b @ r" by blast
  with assms bytes_prefix_free [of a b "[]" "r @ q"] show False by auto
qed

end

end
