(* ===== verification/Packet_Entries.thy ===== *)
theory Packet_Entries
  imports Real_Packets
begin

text \<open>
  The node entries the packet bodies are lists of: what the body of each writing loop appends
  and what the body of each reading loop retrieves. \<open>entry_codec\<close> is their contract; from it come
  the facts about the whole loops.
\<close>

lemma unat_of_length [simp]:
  "n < 4294967296 \<Longrightarrow> unat (word_of_nat n :: u32) = n"
  by (simp add: unat_of_nat take_bit_eq_mod)

lemma ucast_u16_u32 [simp]: "ucast (ucast (x :: u16) :: u32) = x"
  by (rule bit_word_eqI) (simp add: bit_simps)

lemma read_entries_count:
  "read_entries f (unat (n :: u32)) b = (xs, b') \<Longrightarrow> length xs < 4294967296"
proof -
  assume "read_entries f (unat n) b = (xs, b')"
  then have "length xs \<le> unat n" by (rule length_read_entries)
  moreover have "unat n < 2 ^ LENGTH(32)" by (rule unsigned_less)
  ultimately show ?thesis by simp
qed

text \<open>One backward step of a \<open>writes\<close> goal, whatever the writer appended last.\<close>

lemmas writes_chain =
  writes_step [where f = "fold _ _"] writes_step [where f = "append_uint _"]
  writes_step [where f = "append_ushort _"] writes_step [where f = "append_char _"]
  writes_step [where f = "write_rendv _"] writes_step [where f = "write_id _ _"]
  writes_appends writes_id writes_rendv

locale entry_codec =
  fixes put :: "'e \<Rightarrow> RealPacket \<Rightarrow> RealPacket"
    and get :: "BufferWrapper \<Rightarrow> 'e \<times> BufferWrapper"
    and enc :: "'e \<Rightarrow> u8 list"
    and wf :: "'e \<Rightarrow> bool"
  assumes put_writes: "rp_ok p \<Longrightarrow> writes p (put e p) (enc e)"
    and get_rd: "wf e \<Longrightarrow> length pre + length (enc e) + length rest < 1073741824 \<Longrightarrow>
      get (rd pre (enc e @ rest)) = (e, rd (pre @ enc e) rest)"
    and get_reads: "bw_ok b \<Longrightarrow> get b = (e, b') \<Longrightarrow> reads b (enc e) b' \<and> wf e"
begin

lemma put_all: "rp_ok p \<Longrightarrow> writes p (fold put es p) (concat (map enc es))"
  using writes_fold [of put enc] put_writes by blast

lemma get_all:
  assumes "\<forall>e \<in> set es. wf e" "n = length es"
    and "length pre + length (concat (map enc es)) + length rest < 1073741824"
  shows "read_entries get n (rd pre (concat (map enc es) @ rest)) =
    (es, rd (pre @ concat (map enc es)) rest)"
  using assms(1,3) unfolding assms(2)
proof (induction es arbitrary: pre)
  case (Cons e es)
  have "get (rd pre (enc e @ concat (map enc es) @ rest)) =
      (e, rd (pre @ enc e) (concat (map enc es) @ rest))"
    using Cons.prems by (intro get_rd) simp_all
  moreover have "read_entries get (length es) (rd (pre @ enc e) (concat (map enc es) @ rest)) =
      (es, rd ((pre @ enc e) @ concat (map enc es)) rest)"
    using Cons.prems by (intro Cons.IH) simp_all
  ultimately show ?case by simp
qed simp

lemma get_all_reads:
  assumes "bw_ok b" "read_entries get n b = (es, b')"
  shows "reads b (concat (map enc es)) b' \<and> (\<forall>e \<in> set es. wf e) \<and>
    (\<not> bw_errorFlag b' \<longrightarrow> length es = n)"
  using assms
proof (induction n arbitrary: b es)
  case 0
  then show ?case by (simp add: reads_refl)
next
  case (Suc n)
  show ?case
  proof (cases "bw_errorFlag b")
    case True
    then show ?thesis using Suc.prems by (simp add: reads_error)
  next
    case False
    obtain x b1 where 1: "get b = (x, b1)" by fastforce
    obtain ys where 2: "read_entries get n b1 = (ys, b')" "es = x # ys"
      using Suc.prems False 1 by (auto split: prod.splits)
    have r: "reads b (enc x) b1" "wf x" using get_reads Suc.prems(1) 1 by blast+
    with Suc.IH [OF reads_ok [OF r(1)] 2(1)] show ?thesis
      using 2(2) reads_trans [OF r(1)] by auto
  qed
qed

lemma get_all_ok: "bw_ok b \<Longrightarrow> bw_ok (snd (read_entries get n b))"
  using get_all_reads reads_ok by (metis prod.collapse)

lemma get_all_bind:
  assumes "bw_ok b" "read_entries get n b = (es, b1)" "bw_ok b1 \<Longrightarrow> reads b1 ys b2"
  shows "reads b (concat (map enc es) @ ys) b2"
  using get_all_reads [OF assms(1,2)] reads_ok reads_trans assms(3) by blast

text \<open>A count and that many entries, the end of most packets.\<close>

lemma get_counted:
  assumes "bw_ok b" "get_uint b = (n, b1)" "read_entries get (unat n) b1 = (es, b2)"
  shows "reads b (net_uint (word_of_nat (length es)) @ concat (map enc es)) b2"
proof (cases "bw_errorFlag b2")
  case True
  then show ?thesis
    using reads_get_uint [OF assms(1,2)] get_all_reads [OF _ assms(3)] reads_ok reads_error
    by blast
next
  case False
  have r: "reads b (net_uint n) b1" using reads_get_uint [OF assms(1,2)] .
  from get_all_reads [OF reads_ok [OF r] assms(3)] False
  have "reads b1 (concat (map enc es)) b2" "length es = unat n" by simp_all
  with r show ?thesis using reads_trans by simp
qed

end

subsection \<open>An address and a port\<close>

definition put_NodeIdent :: "NodeIdent \<Rightarrow> RealPacket \<Rightarrow> RealPacket" where
  "put_NodeIdent tmp inPacket =
     append_ushort (htons (port tmp)) (append_uint (htonl (addr tmp)) inPacket)"

definition get_NodeIdent :: "BufferWrapper \<Rightarrow> NodeIdent \<times> BufferWrapper" where
  "get_NodeIdent rb =
     (case get_uint rb of (a, rb) \<Rightarrow>
      case get_ushort rb of (p, rb) \<Rightarrow> (\<lparr>addr = a, port = p\<rparr>, rb))"

definition enc_NodeIdent :: "NodeIdent \<Rightarrow> u8 list" where
  "enc_NodeIdent n = net_uint (addr n) @ net_ushort (port n)"

interpretation node_entry: entry_codec put_NodeIdent get_NodeIdent enc_NodeIdent "\<lambda>_. True"
proof
  show "rp_ok p \<Longrightarrow> writes p (put_NodeIdent e p) (enc_NodeIdent e)" for p e
    unfolding put_NodeIdent_def enc_NodeIdent_def
    by (intro writes_step [where f = "append_ushort _"] writes_appends)
  show "length pre + length (enc_NodeIdent e) + length rest < 1073741824 \<Longrightarrow>
      get_NodeIdent (rd pre (enc_NodeIdent e @ rest)) = (e, rd (pre @ enc_NodeIdent e) rest)"
    for pre e rest
    by (simp add: get_NodeIdent_def enc_NodeIdent_def wire_simps)
  show "bw_ok b \<Longrightarrow> get_NodeIdent b = (e, b') \<Longrightarrow> reads b (enc_NodeIdent e) b' \<and> True"
    for b e b'
    by (clarsimp simp: get_NodeIdent_def enc_NodeIdent_def split: prod.splits)
      ((rule reads_bind reads_last, assumption, assumption)+)
qed

subsection \<open>With a latency constraint\<close>

definition put_NodeIdentConst :: "NodeIdentConst \<Rightarrow> RealPacket \<Rightarrow> RealPacket" where
  "put_NodeIdentConst tmp inPacket =
     append_uint (htonl (latencyConstMS tmp))
       (append_ushort (htons (port tmp)) (append_uint (htonl (addr tmp)) inPacket))"

definition get_NodeIdentConst :: "BufferWrapper \<Rightarrow> NodeIdentConst \<times> BufferWrapper" where
  "get_NodeIdentConst rb =
     (case get_uint rb of (a, rb) \<Rightarrow>
      case get_ushort rb of (p, rb) \<Rightarrow>
      case get_uint rb of (l, rb) \<Rightarrow> (\<lparr>addr = a, port = p, latencyConstMS = l\<rparr>, rb))"

definition enc_NodeIdentConst :: "NodeIdentConst \<Rightarrow> u8 list" where
  "enc_NodeIdentConst n = net_uint (addr n) @ net_ushort (port n) @ net_uint (latencyConstMS n)"

interpretation const_entry:
  entry_codec put_NodeIdentConst get_NodeIdentConst enc_NodeIdentConst "\<lambda>_. True"
proof
  show "rp_ok p \<Longrightarrow> writes p (put_NodeIdentConst e p) (enc_NodeIdentConst e)" for p e
    unfolding put_NodeIdentConst_def enc_NodeIdentConst_def append_assoc [symmetric]
    by (intro writes_step [where f = "append_ushort _"] writes_step [where f = "append_uint _"]
      writes_appends)
  show "length pre + length (enc_NodeIdentConst e) + length rest < 1073741824 \<Longrightarrow>
      get_NodeIdentConst (rd pre (enc_NodeIdentConst e @ rest)) =
        (e, rd (pre @ enc_NodeIdentConst e) rest)" for pre e rest
    by (simp add: get_NodeIdentConst_def enc_NodeIdentConst_def wire_simps)
  show "bw_ok b \<Longrightarrow> get_NodeIdentConst b = (e, b') \<Longrightarrow>
      reads b (enc_NodeIdentConst e) b' \<and> True" for b e b'
    by (clarsimp simp: get_NodeIdentConst_def enc_NodeIdentConst_def split: prod.splits)
      ((rule reads_bind reads_last, assumption, assumption)+)
qed

subsection \<open>With a measured latency\<close>

definition put_NodeIdentLat :: "NodeIdentLat \<Rightarrow> RealPacket \<Rightarrow> RealPacket" where
  "put_NodeIdentLat tmp inPacket =
     append_uint (htonl (latencyUS tmp))
       (append_ushort (htons (port tmp)) (append_uint (htonl (addr tmp)) inPacket))"

definition get_NodeIdentLat :: "BufferWrapper \<Rightarrow> NodeIdentLat \<times> BufferWrapper" where
  "get_NodeIdentLat rb =
     (case get_uint rb of (a, rb) \<Rightarrow>
      case get_ushort rb of (p, rb) \<Rightarrow>
      case get_uint rb of (l, rb) \<Rightarrow> (\<lparr>addr = a, port = p, latencyUS = l\<rparr>, rb))"

definition enc_NodeIdentLat :: "NodeIdentLat \<Rightarrow> u8 list" where
  "enc_NodeIdentLat n = net_uint (addr n) @ net_ushort (port n) @ net_uint (latencyUS n)"

interpretation lat_entry:
  entry_codec put_NodeIdentLat get_NodeIdentLat enc_NodeIdentLat "\<lambda>_. True"
proof
  show "rp_ok p \<Longrightarrow> writes p (put_NodeIdentLat e p) (enc_NodeIdentLat e)" for p e
    unfolding put_NodeIdentLat_def enc_NodeIdentLat_def append_assoc [symmetric]
    by (intro writes_step [where f = "append_ushort _"] writes_step [where f = "append_uint _"]
      writes_appends)
  show "length pre + length (enc_NodeIdentLat e) + length rest < 1073741824 \<Longrightarrow>
      get_NodeIdentLat (rd pre (enc_NodeIdentLat e @ rest)) =
        (e, rd (pre @ enc_NodeIdentLat e) rest)" for pre e rest
    by (simp add: get_NodeIdentLat_def enc_NodeIdentLat_def wire_simps)
  show "bw_ok b \<Longrightarrow> get_NodeIdentLat b = (e, b') \<Longrightarrow>
      reads b (enc_NodeIdentLat e) b' \<and> True" for b e b'
    by (clarsimp simp: get_NodeIdentLat_def enc_NodeIdentLat_def split: prod.splits)
      ((rule reads_bind reads_last, assumption, assumption)+)
qed

subsection \<open>With a rendezvous node\<close>

text \<open>
  The struct keeps \<^verbatim>\<open>portRendv\<close> in 32 bits, the wire carries 16: the field is truncated by the
  writer, and an entry round-trips when its port fits.
\<close>

definition put_NodeIdentRendv :: "NodeIdentRendv \<Rightarrow> RealPacket \<Rightarrow> RealPacket" where
  "put_NodeIdentRendv tmp inPacket =
     append_ushort (htons (ucast (portRendv tmp)))
       (append_uint (htonl (addrRendv tmp))
         (append_ushort (htons (port tmp)) (append_uint (htonl (addr tmp)) inPacket)))"

definition get_NodeIdentRendv :: "BufferWrapper \<Rightarrow> NodeIdentRendv \<times> BufferWrapper" where
  "get_NodeIdentRendv rb =
     (case get_uint rb of (a, rb) \<Rightarrow>
      case get_ushort rb of (p, rb) \<Rightarrow>
      case get_uint rb of (rAddr, rb) \<Rightarrow>
      case get_ushort rb of (rPort, rb) \<Rightarrow>
      (\<lparr>addr = a, port = p, addrRendv = rAddr, portRendv = ucast rPort\<rparr>, rb))"

definition enc_NodeIdentRendv :: "NodeIdentRendv \<Rightarrow> u8 list" where
  "enc_NodeIdentRendv n = net_uint (addr n) @ net_ushort (port n) @
     net_uint (addrRendv n) @ net_ushort (ucast (portRendv n))"

definition rendv_port_ok :: "NodeIdentRendv \<Rightarrow> bool" where
  "rendv_port_ok n \<longleftrightarrow> (ucast (ucast (portRendv n) :: u16) :: u32) = portRendv n"

interpretation rendv_entry:
  entry_codec put_NodeIdentRendv get_NodeIdentRendv enc_NodeIdentRendv rendv_port_ok
proof
  show "rp_ok p \<Longrightarrow> writes p (put_NodeIdentRendv e p) (enc_NodeIdentRendv e)" for p e
    unfolding put_NodeIdentRendv_def enc_NodeIdentRendv_def append_assoc [symmetric]
    by (intro writes_step [where f = "append_ushort _"] writes_step [where f = "append_uint _"]
      writes_appends)
  show "rendv_port_ok e \<Longrightarrow>
      length pre + length (enc_NodeIdentRendv e) + length rest < 1073741824 \<Longrightarrow>
      get_NodeIdentRendv (rd pre (enc_NodeIdentRendv e @ rest)) =
        (e, rd (pre @ enc_NodeIdentRendv e) rest)" for pre e rest
    by (simp add: get_NodeIdentRendv_def enc_NodeIdentRendv_def rendv_port_ok_def wire_simps)
  show "bw_ok b \<Longrightarrow> get_NodeIdentRendv b = (e, b') \<Longrightarrow>
      reads b (enc_NodeIdentRendv e) b' \<and> rendv_port_ok e" for b e b'
    by (clarsimp simp: get_NodeIdentRendv_def enc_NodeIdentRendv_def rendv_port_ok_def
        split: prod.splits)
      ((rule reads_bind reads_last, assumption, assumption)+)
qed

lemma length_entries [simp]:
  "length (concat (map enc_NodeIdent xs)) = 6 * length xs"
  "length (concat (map enc_NodeIdentConst cs)) = 10 * length cs"
  "length (concat (map enc_NodeIdentLat ls)) = 10 * length ls"
  "length (concat (map enc_NodeIdentRendv rs)) = 12 * length rs"
proof -
  show "length (concat (map enc_NodeIdent xs)) = 6 * length xs"
    by (induction xs) (simp_all add: enc_NodeIdent_def)
  show "length (concat (map enc_NodeIdentConst cs)) = 10 * length cs"
    by (induction cs) (simp_all add: enc_NodeIdentConst_def)
  show "length (concat (map enc_NodeIdentLat ls)) = 10 * length ls"
    by (induction ls) (simp_all add: enc_NodeIdentLat_def)
  show "length (concat (map enc_NodeIdentRendv rs)) = 12 * length rs"
    by (induction rs) (simp_all add: enc_NodeIdentRendv_def)
qed

end
