(* ===== verification/Packet_Types.thy ===== *)
theory Packet_Types
  imports Packet_Entries
begin

text \<open>Marshal.h, lines 25-57: the type byte of every packet.\<close>

definition REQ_CONSTRAINT_N_TCP :: u8 where "REQ_CONSTRAINT_N_TCP = 1"
definition REQ_CLOSEST_N_TCP :: u8 where "REQ_CLOSEST_N_TCP = 2"
definition REQ_MEASURE_N_TCP :: u8 where "REQ_MEASURE_N_TCP = 3"
definition REQ_CLOSEST_N_MERID_PING :: u8 where "REQ_CLOSEST_N_MERID_PING = 4"
definition REQ_MEASURE_N_MERID_PING :: u8 where "REQ_MEASURE_N_MERID_PING = 5"
definition REQ_CLOSEST_N_DNS :: u8 where "REQ_CLOSEST_N_DNS = 6"
definition REQ_MEASURE_N_DNS :: u8 where "REQ_MEASURE_N_DNS = 7"
definition RET_RESPONSE :: u8 where "RET_RESPONSE = 9"
definition GOSSIP :: u8 where "GOSSIP = 10"
definition PUSH :: u8 where "PUSH = 11"
definition PULL :: u8 where "PULL = 12"
definition RET_PING_REQ :: u8 where "RET_PING_REQ = 13"
definition PING :: u8 where "PING = 14"
definition PONG :: u8 where "PONG = 15"
definition CREATE_RENDV :: u8 where "CREATE_RENDV = 16"
definition RET_RENDV :: u8 where "RET_RENDV = 17"
definition RET_ERROR :: u8 where "RET_ERROR = 18"
definition RET_INFO :: u8 where "RET_INFO = 19"
definition REQ_CONSTRAINT_N_DNS :: u8 where "REQ_CONSTRAINT_N_DNS = 20"
definition REQ_CONSTRAINT_N_PING :: u8 where "REQ_CONSTRAINT_N_PING = 21"
definition INFO_PACKET :: u8 where "INFO_PACKET = 22"
definition GOSSIP_PULL :: u8 where "GOSSIP_PULL = 23"
definition DSL_REQUEST :: u8 where "DSL_REQUEST = 24"
definition DSL_REPLY :: u8 where "DSL_REPLY = 25"
definition REQ_MEASURE_N_ICMP :: u8 where "REQ_MEASURE_N_ICMP = 26"
definition REQ_CLOSEST_N_ICMP :: u8 where "REQ_CLOSEST_N_ICMP = 27"
definition REQ_CONSTRAINT_N_ICMP :: u8 where "REQ_CONSTRAINT_N_ICMP = 28"

lemmas packet_type_defs =
  REQ_CONSTRAINT_N_TCP_def
  REQ_CLOSEST_N_TCP_def
  REQ_MEASURE_N_TCP_def
  REQ_CLOSEST_N_MERID_PING_def
  REQ_MEASURE_N_MERID_PING_def
  REQ_CLOSEST_N_DNS_def
  REQ_MEASURE_N_DNS_def
  RET_RESPONSE_def
  GOSSIP_def
  PUSH_def
  PULL_def
  RET_PING_REQ_def
  PING_def
  PONG_def
  CREATE_RENDV_def
  RET_RENDV_def
  RET_ERROR_def
  RET_INFO_def
  REQ_CONSTRAINT_N_DNS_def
  REQ_CONSTRAINT_N_PING_def
  INFO_PACKET_def
  GOSSIP_PULL_def
  DSL_REQUEST_def
  DSL_REPLY_def
  REQ_MEASURE_N_ICMP_def
  REQ_CLOSEST_N_ICMP_def
  REQ_CONSTRAINT_N_ICMP_def

end
