(* ===== verification/Requests.thy ===== *)
theory Requests
  imports Packet_Types
begin

text \<open>
  Marshal.h, lines 395-913: the three families of requests, plain measurement requests
  (\<open>ReqGeneric\<close>), latency-constraint requests (\<open>ReqConstraintGeneric\<close>) and closest-node requests
  (\<open>ReqClosestGeneric\<close>). A concrete request class differs from its family only in its type byte,
  which the C++ template and the virtual \<^verbatim>\<open>getPacketType\<close> pass down: here it is the argument
  \<open>ty\<close>. Every class is a strict codec: it parses exactly what it writes.
\<close>

subsection \<open>ReqGeneric\<close>

record ReqGeneric = RendvHeaderPacket +
  rg_targets :: "NodeIdent list"

definition newReqGeneric :: "u64 \<Rightarrow> u32 \<Rightarrow> u16 \<Rightarrow> ReqGeneric" where
  "newReqGeneric qid in_rendv_addr in_rendv_port =
     (case to32 qid of (a, b) \<Rightarrow>
       \<lparr>req_id_1 = a, req_id_2 = b, rendv_addr = in_rendv_addr, rendv_port = in_rendv_port,
        rg_targets = []\<rparr>)"

definition rg_addTarget :: "NodeIdent \<Rightarrow> ReqGeneric \<Rightarrow> ReqGeneric" where
  "rg_addTarget in_node r = r\<lparr>rg_targets := rg_targets r @ [in_node]\<rparr>"

definition ReqGeneric_parse :: "u8 \<Rightarrow> u32 \<Rightarrow> u8 list \<Rightarrow> ReqGeneric option \<times> BufferWrapper" where
  "ReqGeneric_parse ty magic buf =
     (let rb = newBufferWrapper buf (int (length buf)) in
      case retrieve_char rb of (queryType, rb) \<Rightarrow>
      if bw_errorFlag rb \<or> queryType \<noteq> ty then (None, rb) else
      case get_uint rb of (queryID_1, rb) \<Rightarrow>
      case get_uint rb of (queryID_2, rb) \<Rightarrow>
      let queryID = to64 queryID_1 queryID_2 in
      case get_uint rb of (magicNumber, rb) \<Rightarrow>
      case get_uint rb of (rendvAddr, rb) \<Rightarrow>
      case get_ushort rb of (rendvPort, rb) \<Rightarrow>
      if bw_errorFlag rb \<or> magicNumber \<noteq> magic then (None, rb) else
      let ret = newReqGeneric queryID rendvAddr rendvPort in
      case get_uint rb of (numEntry, rb) \<Rightarrow>
      case read_entries get_NodeIdent (unat numEntry) rb of (entries, rb) \<Rightarrow>
      let ret = fold rg_addTarget entries ret in
      if bw_errorFlag rb then (None, rb) else (Some ret, rb))"

definition ReqGeneric_createRealPacket :: "u8 \<Rightarrow> u32 \<Rightarrow> ReqGeneric \<Rightarrow> RealPacket
    \<Rightarrow> int \<times> RealPacket" where
  "ReqGeneric_createRealPacket ty magic r inPacket =
     (let num_targets = word_of_nat (length (rg_targets r)) :: u32 in
      if num_targets = 0 then (-1, inPacket) else
      let inPacket = append_char ty inPacket;
          inPacket = write_id magic r inPacket;
          inPacket = write_rendv r inPacket;
          inPacket = append_uint (htonl num_targets) inPacket;
          inPacket = fold put_NodeIdent (take (unat num_targets) (rg_targets r)) inPacket
      in packet_done inPacket)"

definition ReqGeneric_bytes :: "u8 \<Rightarrow> u32 \<Rightarrow> ReqGeneric \<Rightarrow> u8 list" where
  "ReqGeneric_bytes ty magic r =
     [ty] @ id_bytes magic r @ rendv_bytes r @ net_uint (word_of_nat (length (rg_targets r))) @
     concat (map enc_NodeIdent (rg_targets r))"

definition rg_parsable :: "ReqGeneric \<Rightarrow> bool" where
  "rg_parsable r \<longleftrightarrow> length (rg_targets r) < 4294967296"

definition rg_sendable :: "ReqGeneric \<Rightarrow> bool" where
  "rg_sendable r \<longleftrightarrow> rg_targets r \<noteq> [] \<and> length (rg_targets r) < 4294967296"

lemma fold_rg_addTarget: "fold rg_addTarget ns r = r\<lparr>rg_targets := rg_targets r @ ns\<rparr>"
  by (induction ns arbitrary: r) (simp_all add: rg_addTarget_def)

lemma of_length_zero:
  assumes "n < 4294967296"
  shows "(word_of_nat n :: u32) = 0 \<longleftrightarrow> n = 0"
  using assms by (simp add: word_unat_eq_iff)

interpretation req_generic: strict_codec
  "ReqGeneric_createRealPacket ty magic" "ReqGeneric_bytes ty magic" rg_sendable
  "ReqGeneric_parse ty magic" rg_parsable
  for ty magic
proof
  fix a p
  assume s: "rg_sendable a" and p: "rp_ok p"
  then have ne: "(word_of_nat (length (rg_targets a)) :: u32) \<noteq> 0"
    and n: "unat (word_of_nat (length (rg_targets a)) :: u32) = length (rg_targets a)"
    by (simp_all add: rg_sendable_def of_length_zero)
  show "fst (ReqGeneric_createRealPacket ty magic a p) =
      (if rp_complete (snd (ReqGeneric_createRealPacket ty magic a p)) then 0 else -1)"
    using ne by (simp add: ReqGeneric_createRealPacket_def packet_done_def Let_def)
  show "writes p (snd (ReqGeneric_createRealPacket ty magic a p)) (ReqGeneric_bytes ty magic a)"
    unfolding ReqGeneric_createRealPacket_def packet_done_def Let_def ReqGeneric_bytes_def
    using ne n p
    by (simp only: if_False snd_conv n take_all order_refl append_assoc [symmetric])
      (intro writes_chain node_entry.put_all)
next
  show "rg_sendable a \<Longrightarrow> rg_parsable a" for a
    by (simp add: rg_sendable_def rg_parsable_def)
next
  fix a rest
  assume "rg_parsable a" "length (ReqGeneric_bytes ty magic a @ rest) < 1073741824"
  then show "fst (ReqGeneric_parse ty magic (ReqGeneric_bytes ty magic a @ rest)) = Some a"
    unfolding ReqGeneric_parse_def ReqGeneric_bytes_def new_rd
    by (simp add: wire_simps Let_def
      id_bytes_def rendv_bytes_def newReqGeneric_def fold_rg_addTarget node_entry.get_all
      rg_parsable_def)
next
  fix buf :: "u8 list"
  assume "length buf < 1073741824"
  then have ok: "bw_ok (rd [] buf)" by simp
  show "bw_ok (snd (ReqGeneric_parse ty magic buf))"
    using ok unfolding ReqGeneric_parse_def new_rd
    by (simp add: split_beta Let_def wire_simps
      node_entry.get_all_ok del: if_split bw_ok_rd)
  fix a
  assume "fst (ReqGeneric_parse ty magic buf) = Some a"
  then show "rg_parsable a \<and> (\<exists>rest. buf = ReqGeneric_bytes ty magic a @ rest)"
    using ok unfolding ReqGeneric_parse_def new_rd
    by (clarsimp simp: Let_def fold_rg_addTarget newReqGeneric_def rg_parsable_def
        read_entries_count ReqGeneric_bytes_def id_bytes_def rendv_bytes_def
        split: prod.splits if_splits simp del: bw_ok_rd)
      (rule reads_soundI,
       ((rule node_entry.get_counted, assumption, assumption, assumption)
        | (rule reads_bind, assumption, assumption))+, assumption, simp)
qed

subsection \<open>ReqConstraintGeneric\<close>

record ReqConstraintGeneric = RendvHeaderPacket +
  rc_betaNum :: u16
  rc_betaDen :: u16
  rc_targets :: "NodeIdentConst list"

definition newReqConstraintGeneric :: "u64 \<Rightarrow> u16 \<Rightarrow> u16 \<Rightarrow> u32 \<Rightarrow> u16 \<Rightarrow> ReqConstraintGeneric" where
  "newReqConstraintGeneric qid in_beta_num in_beta_den in_rendv_addr in_rendv_port =
     (case to32 qid of (a, b) \<Rightarrow>
       \<lparr>req_id_1 = a, req_id_2 = b, rendv_addr = in_rendv_addr, rendv_port = in_rendv_port,
        rc_betaNum = in_beta_num, rc_betaDen = in_beta_den, rc_targets = []\<rparr>)"

definition rc_addTarget :: "NodeIdentConst \<Rightarrow> ReqConstraintGeneric \<Rightarrow> ReqConstraintGeneric" where
  "rc_addTarget in_node r = r\<lparr>rc_targets := rc_targets r @ [in_node]\<rparr>"

definition ReqConstraintGeneric_parse :: "u8 \<Rightarrow> u32 \<Rightarrow> u8 list
    \<Rightarrow> ReqConstraintGeneric option \<times> BufferWrapper" where
  "ReqConstraintGeneric_parse ty magic buf =
     (let rb = newBufferWrapper buf (int (length buf)) in
      case retrieve_char rb of (queryType, rb) \<Rightarrow>
      if bw_errorFlag rb \<or> queryType \<noteq> ty then (None, rb) else
      case get_uint rb of (queryID_1, rb) \<Rightarrow>
      case get_uint rb of (queryID_2, rb) \<Rightarrow>
      let queryID = to64 queryID_1 queryID_2 in
      case get_uint rb of (magicNumber, rb) \<Rightarrow>
      case get_uint rb of (rendvAddr, rb) \<Rightarrow>
      case get_ushort rb of (rendvPort, rb) \<Rightarrow>
      case get_ushort rb of (in_betaNum, rb) \<Rightarrow>
      case get_ushort rb of (in_betaDen, rb) \<Rightarrow>
      if bw_errorFlag rb \<or> magicNumber \<noteq> magic then (None, rb) else
      let ret = newReqConstraintGeneric queryID in_betaNum in_betaDen rendvAddr rendvPort in
      case get_uint rb of (numEntry, rb) \<Rightarrow>
      case read_entries get_NodeIdentConst (unat numEntry) rb of (entries, rb) \<Rightarrow>
      let ret = fold rc_addTarget entries ret in
      if bw_errorFlag rb then (None, rb) else (Some ret, rb))"

definition ReqConstraintGeneric_createRealPacket :: "u8 \<Rightarrow> u32 \<Rightarrow> ReqConstraintGeneric \<Rightarrow> RealPacket
    \<Rightarrow> int \<times> RealPacket" where
  "ReqConstraintGeneric_createRealPacket ty magic r inPacket =
     (let num_targets = word_of_nat (length (rc_targets r)) :: u32 in
      if num_targets = 0 then (-1, inPacket) else
      let inPacket = append_char ty inPacket;
          inPacket = write_id magic r inPacket;
          inPacket = write_rendv r inPacket;
          inPacket = append_ushort (htons (rc_betaNum r)) inPacket;
          inPacket = append_ushort (htons (rc_betaDen r)) inPacket;
          inPacket = append_uint (htonl num_targets) inPacket;
          inPacket = fold put_NodeIdentConst (take (unat num_targets) (rc_targets r)) inPacket
      in packet_done inPacket)"

definition ReqConstraintGeneric_bytes :: "u8 \<Rightarrow> u32 \<Rightarrow> ReqConstraintGeneric \<Rightarrow> u8 list" where
  "ReqConstraintGeneric_bytes ty magic r =
     [ty] @ id_bytes magic r @ rendv_bytes r @ net_ushort (rc_betaNum r) @
     net_ushort (rc_betaDen r) @ net_uint (word_of_nat (length (rc_targets r))) @
     concat (map enc_NodeIdentConst (rc_targets r))"

definition rc_parsable :: "ReqConstraintGeneric \<Rightarrow> bool" where
  "rc_parsable r \<longleftrightarrow> length (rc_targets r) < 4294967296"

definition rc_sendable :: "ReqConstraintGeneric \<Rightarrow> bool" where
  "rc_sendable r \<longleftrightarrow> rc_targets r \<noteq> [] \<and> length (rc_targets r) < 4294967296"

lemma fold_rc_addTarget: "fold rc_addTarget ns r = r\<lparr>rc_targets := rc_targets r @ ns\<rparr>"
  by (induction ns arbitrary: r) (simp_all add: rc_addTarget_def)

interpretation req_constraint: strict_codec
  "ReqConstraintGeneric_createRealPacket ty magic" "ReqConstraintGeneric_bytes ty magic"
  rc_sendable "ReqConstraintGeneric_parse ty magic" rc_parsable
  for ty magic
proof
  fix a p
  assume s: "rc_sendable a" and p: "rp_ok p"
  then have ne: "(word_of_nat (length (rc_targets a)) :: u32) \<noteq> 0"
    and n: "unat (word_of_nat (length (rc_targets a)) :: u32) = length (rc_targets a)"
    by (simp_all add: rc_sendable_def of_length_zero)
  show "fst (ReqConstraintGeneric_createRealPacket ty magic a p) =
      (if rp_complete (snd (ReqConstraintGeneric_createRealPacket ty magic a p)) then 0 else -1)"
    using ne by (simp add: ReqConstraintGeneric_createRealPacket_def packet_done_def Let_def)
  show "writes p (snd (ReqConstraintGeneric_createRealPacket ty magic a p))
      (ReqConstraintGeneric_bytes ty magic a)"
    unfolding ReqConstraintGeneric_createRealPacket_def packet_done_def Let_def
      ReqConstraintGeneric_bytes_def
    using ne n p
    by (simp only: if_False snd_conv n take_all order_refl append_assoc [symmetric])
      (intro writes_chain const_entry.put_all)
next
  show "rc_sendable a \<Longrightarrow> rc_parsable a" for a
    by (simp add: rc_sendable_def rc_parsable_def)
next
  fix a rest
  assume "rc_parsable a"
    "length (ReqConstraintGeneric_bytes ty magic a @ rest) < 1073741824"
  then show "fst (ReqConstraintGeneric_parse ty magic (ReqConstraintGeneric_bytes ty magic a @ rest))
      = Some a"
    unfolding ReqConstraintGeneric_parse_def ReqConstraintGeneric_bytes_def new_rd
    by (simp add: wire_simps Let_def id_bytes_def rendv_bytes_def
      newReqConstraintGeneric_def fold_rc_addTarget const_entry.get_all rc_parsable_def)
next
  fix buf :: "u8 list"
  assume "length buf < 1073741824"
  then have ok: "bw_ok (rd [] buf)" by simp
  show "bw_ok (snd (ReqConstraintGeneric_parse ty magic buf))"
    using ok unfolding ReqConstraintGeneric_parse_def new_rd
    by (simp add: split_beta Let_def wire_simps const_entry.get_all_ok del: bw_ok_rd)
  fix a
  assume "fst (ReqConstraintGeneric_parse ty magic buf) = Some a"
  then show "rc_parsable a \<and> (\<exists>rest. buf = ReqConstraintGeneric_bytes ty magic a @ rest)"
    using ok unfolding ReqConstraintGeneric_parse_def new_rd
    by (clarsimp simp: Let_def fold_rc_addTarget newReqConstraintGeneric_def rc_parsable_def
        read_entries_count ReqConstraintGeneric_bytes_def id_bytes_def rendv_bytes_def
        split: prod.splits if_splits simp del: bw_ok_rd)
      (rule reads_soundI,
       ((rule const_entry.get_counted, assumption, assumption, assumption)
        | (rule reads_bind, assumption, assumption))+, assumption, simp)
qed

subsection \<open>ReqClosestGeneric\<close>

record ReqClosestGeneric = RendvHeaderPacket +
  cl_betaNum :: u16
  cl_betaDen :: u16
  cl_targets :: "NodeIdent list"

definition newReqClosestGeneric :: "u64 \<Rightarrow> u16 \<Rightarrow> u16 \<Rightarrow> u32 \<Rightarrow> u16 \<Rightarrow> ReqClosestGeneric" where
  "newReqClosestGeneric qid in_beta_num in_beta_den in_rendv_addr in_rendv_port =
     (case to32 qid of (a, b) \<Rightarrow>
       \<lparr>req_id_1 = a, req_id_2 = b, rendv_addr = in_rendv_addr, rendv_port = in_rendv_port,
        cl_betaNum = in_beta_num, cl_betaDen = in_beta_den, cl_targets = []\<rparr>)"

definition cl_addTarget :: "NodeIdent \<Rightarrow> ReqClosestGeneric \<Rightarrow> ReqClosestGeneric" where
  "cl_addTarget in_node r = r\<lparr>cl_targets := cl_targets r @ [in_node]\<rparr>"

definition ReqClosestGeneric_parse :: "u8 \<Rightarrow> u32 \<Rightarrow> u8 list
    \<Rightarrow> ReqClosestGeneric option \<times> BufferWrapper" where
  "ReqClosestGeneric_parse ty magic buf =
     (let rb = newBufferWrapper buf (int (length buf)) in
      case retrieve_char rb of (queryType, rb) \<Rightarrow>
      if bw_errorFlag rb \<or> queryType \<noteq> ty then (None, rb) else
      case get_uint rb of (queryID_1, rb) \<Rightarrow>
      case get_uint rb of (queryID_2, rb) \<Rightarrow>
      let queryID = to64 queryID_1 queryID_2 in
      case get_uint rb of (magicNumber, rb) \<Rightarrow>
      case get_uint rb of (rendvAddr, rb) \<Rightarrow>
      case get_ushort rb of (rendvPort, rb) \<Rightarrow>
      case get_ushort rb of (in_betaNum, rb) \<Rightarrow>
      case get_ushort rb of (in_betaDen, rb) \<Rightarrow>
      if bw_errorFlag rb \<or> magicNumber \<noteq> magic then (None, rb) else
      let ret = newReqClosestGeneric queryID in_betaNum in_betaDen rendvAddr rendvPort in
      case get_uint rb of (numEntry, rb) \<Rightarrow>
      case read_entries get_NodeIdent (unat numEntry) rb of (entries, rb) \<Rightarrow>
      let ret = fold cl_addTarget entries ret in
      if bw_errorFlag rb then (None, rb) else (Some ret, rb))"

definition ReqClosestGeneric_createRealPacket :: "u8 \<Rightarrow> u32 \<Rightarrow> ReqClosestGeneric \<Rightarrow> RealPacket
    \<Rightarrow> int \<times> RealPacket" where
  "ReqClosestGeneric_createRealPacket ty magic r inPacket =
     (let num_targets = word_of_nat (length (cl_targets r)) :: u32 in
      if num_targets = 0 then (-1, inPacket) else
      let inPacket = append_char ty inPacket;
          inPacket = write_id magic r inPacket;
          inPacket = write_rendv r inPacket;
          inPacket = append_ushort (htons (cl_betaNum r)) inPacket;
          inPacket = append_ushort (htons (cl_betaDen r)) inPacket;
          inPacket = append_uint (htonl num_targets) inPacket;
          inPacket = fold put_NodeIdent (take (unat num_targets) (cl_targets r)) inPacket
      in packet_done inPacket)"

definition ReqClosestGeneric_bytes :: "u8 \<Rightarrow> u32 \<Rightarrow> ReqClosestGeneric \<Rightarrow> u8 list" where
  "ReqClosestGeneric_bytes ty magic r =
     [ty] @ id_bytes magic r @ rendv_bytes r @ net_ushort (cl_betaNum r) @
     net_ushort (cl_betaDen r) @ net_uint (word_of_nat (length (cl_targets r))) @
     concat (map enc_NodeIdent (cl_targets r))"

definition cl_parsable :: "ReqClosestGeneric \<Rightarrow> bool" where
  "cl_parsable r \<longleftrightarrow> length (cl_targets r) < 4294967296"

definition cl_sendable :: "ReqClosestGeneric \<Rightarrow> bool" where
  "cl_sendable r \<longleftrightarrow> cl_targets r \<noteq> [] \<and> length (cl_targets r) < 4294967296"

lemma fold_cl_addTarget: "fold cl_addTarget ns r = r\<lparr>cl_targets := cl_targets r @ ns\<rparr>"
  by (induction ns arbitrary: r) (simp_all add: cl_addTarget_def)

interpretation req_closest: strict_codec
  "ReqClosestGeneric_createRealPacket ty magic" "ReqClosestGeneric_bytes ty magic"
  cl_sendable "ReqClosestGeneric_parse ty magic" cl_parsable
  for ty magic
proof
  fix a p
  assume s: "cl_sendable a" and p: "rp_ok p"
  then have ne: "(word_of_nat (length (cl_targets a)) :: u32) \<noteq> 0"
    and n: "unat (word_of_nat (length (cl_targets a)) :: u32) = length (cl_targets a)"
    by (simp_all add: cl_sendable_def of_length_zero)
  show "fst (ReqClosestGeneric_createRealPacket ty magic a p) =
      (if rp_complete (snd (ReqClosestGeneric_createRealPacket ty magic a p)) then 0 else -1)"
    using ne by (simp add: ReqClosestGeneric_createRealPacket_def packet_done_def Let_def)
  show "writes p (snd (ReqClosestGeneric_createRealPacket ty magic a p))
      (ReqClosestGeneric_bytes ty magic a)"
    unfolding ReqClosestGeneric_createRealPacket_def packet_done_def Let_def
      ReqClosestGeneric_bytes_def
    using ne n p
    by (simp only: if_False snd_conv n take_all order_refl append_assoc [symmetric])
      (intro writes_chain node_entry.put_all)
next
  show "cl_sendable a \<Longrightarrow> cl_parsable a" for a
    by (simp add: cl_sendable_def cl_parsable_def)
next
  fix a rest
  assume "cl_parsable a"
    "length (ReqClosestGeneric_bytes ty magic a @ rest) < 1073741824"
  then show "fst (ReqClosestGeneric_parse ty magic (ReqClosestGeneric_bytes ty magic a @ rest))
      = Some a"
    unfolding ReqClosestGeneric_parse_def ReqClosestGeneric_bytes_def new_rd
    by (simp add: wire_simps Let_def id_bytes_def rendv_bytes_def
      newReqClosestGeneric_def fold_cl_addTarget node_entry.get_all cl_parsable_def)
next
  fix buf :: "u8 list"
  assume "length buf < 1073741824"
  then have ok: "bw_ok (rd [] buf)" by simp
  show "bw_ok (snd (ReqClosestGeneric_parse ty magic buf))"
    using ok unfolding ReqClosestGeneric_parse_def new_rd
    by (simp add: split_beta Let_def wire_simps node_entry.get_all_ok del: bw_ok_rd)
  fix a
  assume "fst (ReqClosestGeneric_parse ty magic buf) = Some a"
  then show "cl_parsable a \<and> (\<exists>rest. buf = ReqClosestGeneric_bytes ty magic a @ rest)"
    using ok unfolding ReqClosestGeneric_parse_def new_rd
    by (clarsimp simp: Let_def fold_cl_addTarget newReqClosestGeneric_def cl_parsable_def
        read_entries_count ReqClosestGeneric_bytes_def id_bytes_def rendv_bytes_def
        split: prod.splits if_splits simp del: bw_ok_rd)
      (rule reads_soundI,
       ((rule node_entry.get_counted, assumption, assumption, assumption)
        | (rule reads_bind, assumption, assumption))+, assumption, simp)
qed

subsection \<open>The concrete classes\<close>

text \<open>A concrete class is its family at the class's \<^verbatim>\<open>type()\<close>.\<close>

definition ReqMeasurePing_type :: u8 where "ReqMeasurePing_type = REQ_MEASURE_N_MERID_PING"
definition ReqMeasureTCP_type :: u8 where "ReqMeasureTCP_type = REQ_MEASURE_N_TCP"
definition ReqMeasureDNS_type :: u8 where "ReqMeasureDNS_type = REQ_MEASURE_N_DNS"
definition ReqMeasureICMP_type :: u8 where "ReqMeasureICMP_type = REQ_MEASURE_N_ICMP"
definition ReqConstraintTCP_type :: u8 where "ReqConstraintTCP_type = REQ_CONSTRAINT_N_TCP"
definition ReqConstraintDNS_type :: u8 where "ReqConstraintDNS_type = REQ_CONSTRAINT_N_DNS"
definition ReqConstraintPing_type :: u8 where "ReqConstraintPing_type = REQ_CONSTRAINT_N_PING"
definition ReqConstraintICMP_type :: u8 where "ReqConstraintICMP_type = REQ_CONSTRAINT_N_ICMP"
definition ReqClosestTCP_type :: u8 where "ReqClosestTCP_type = REQ_CLOSEST_N_TCP"
definition ReqClosestMeridPing_type :: u8 where "ReqClosestMeridPing_type = REQ_CLOSEST_N_MERID_PING"
definition ReqClosestDNS_type :: u8 where "ReqClosestDNS_type = REQ_CLOSEST_N_DNS"
definition ReqClosestICMP_type :: u8 where "ReqClosestICMP_type = REQ_CLOSEST_N_ICMP"

lemmas request_type_defs =
  ReqMeasurePing_type_def
  ReqMeasureTCP_type_def
  ReqMeasureDNS_type_def
  ReqMeasureICMP_type_def
  ReqConstraintTCP_type_def
  ReqConstraintDNS_type_def
  ReqConstraintPing_type_def
  ReqConstraintICMP_type_def
  ReqClosestTCP_type_def
  ReqClosestMeridPing_type_def
  ReqClosestDNS_type_def
  ReqClosestICMP_type_def

lemma request_types_distinct:
  "distinct [ReqMeasurePing_type,
     ReqMeasureTCP_type,
     ReqMeasureDNS_type,
     ReqMeasureICMP_type,
     ReqConstraintTCP_type,
     ReqConstraintDNS_type,
     ReqConstraintPing_type,
     ReqConstraintICMP_type,
     ReqClosestTCP_type,
     ReqClosestMeridPing_type,
     ReqClosestDNS_type,
     ReqClosestICMP_type]"
  by (simp add: request_type_defs packet_type_defs)

end
