(* ===== verification/Replies.thy ===== *)
theory Replies
  imports Requests
begin

text \<open>
  Marshal.h, lines 915-1201 and 1331-1515: the answers to requests (\<open>RetError\<close>, \<open>RetInfo\<close>,
  \<open>RetResponse\<close>, \<open>RetPing\<close>), the gossip packets and the packets that are a bare header. An
  answer whose address and port are both 0 stands for the node it came from, so \<open>RetInfo\<close> and
  \<open>RetResponse\<close> are parsed relative to the sender; \<open>RetResponse\<close> additionally collects its
  entries in an ordered map, so it returns them sorted and without duplicates.
\<close>

subsection \<open>Packets that are a bare header\<close>

definition newPacket :: "u64 \<Rightarrow> Packet" where
  "newPacket qid = (case to32 qid of (a, b) \<Rightarrow> \<lparr>req_id_1 = a, req_id_2 = b\<rparr>)"

definition header_create :: "u8 \<Rightarrow> u32 \<Rightarrow> Packet \<Rightarrow> RealPacket \<Rightarrow> int \<times> RealPacket" where
  "header_create ty magic pk inPacket =
     packet_done (write_id magic pk (append_char ty inPacket))"

definition header_bytes :: "u8 \<Rightarrow> u32 \<Rightarrow> Packet \<Rightarrow> u8 list" where
  "header_bytes ty magic pk = [ty] @ id_bytes magic pk"

interpretation header_only: packet_writer
  "header_create ty magic" "header_bytes ty magic" "\<lambda>_. True" for ty magic
proof
  show "rp_ok p \<Longrightarrow> writes p (snd (header_create ty magic a p)) (header_bytes ty magic a)" for a p
    unfolding header_create_def header_bytes_def packet_done_def snd_conv
    by (intro writes_chain)
qed (simp add: header_create_def packet_done_def)

text \<open>\<^verbatim>\<open>PingPacket\<close>, \<^verbatim>\<open>PongPacket\<close>, \<^verbatim>\<open>CreateRendv\<close>, \<^verbatim>\<open>RetRendv\<close> and the header of a DSL reply.\<close>

definition PingPacket_createRealPacket :: "u32 \<Rightarrow> Packet \<Rightarrow> RealPacket \<Rightarrow> int \<times> RealPacket" where
  "PingPacket_createRealPacket = header_create PING"

definition PongPacket_createRealPacket :: "u32 \<Rightarrow> Packet \<Rightarrow> RealPacket \<Rightarrow> int \<times> RealPacket" where
  "PongPacket_createRealPacket = header_create PONG"

definition CreateRendv_createRealPacket :: "u32 \<Rightarrow> Packet \<Rightarrow> RealPacket \<Rightarrow> int \<times> RealPacket" where
  "CreateRendv_createRealPacket = header_create CREATE_RENDV"

definition RetRendv_createRealPacket :: "u32 \<Rightarrow> Packet \<Rightarrow> RealPacket \<Rightarrow> int \<times> RealPacket" where
  "RetRendv_createRealPacket = header_create RET_RENDV"

definition DSLReplyPacket_createRealPacket :: "u32 \<Rightarrow> Packet \<Rightarrow> RealPacket \<Rightarrow> int \<times> RealPacket" where
  "DSLReplyPacket_createRealPacket = header_create DSL_REPLY"

text \<open>What the dispatcher reads of any of them.\<close>

lemma parseHeader_header:
  assumes "length (header_bytes ty magic pk @ rest) < 1073741824"
  shows "parseHeader magic (rd [] (header_bytes ty magic pk @ rest)) =
    (0, ty, retReqID pk, rd (header_bytes ty magic pk) rest)"
  using assms
  by (simp add: parseHeader_def header_bytes_def id_bytes_def wire_simps retReqID_def)

lemma parseHeader_safe: "bw_ok rb \<Longrightarrow> bw_ok (snd (snd (snd (parseHeader magic rb))))"
  by (simp add: parseHeader_def split_beta Let_def wire_simps)

lemma parseHeader_sound:
  assumes "length buf < 1073741824" "parseHeader magic (rd [] buf) = (0, ty, qid, rb)"
  shows "\<exists>pk rest. buf = header_bytes ty magic pk @ rest \<and> retReqID pk = qid"
proof -
  have ok: "bw_ok (rd [] buf)" using assms by simp
  obtain c b1 i1 b2 i2 b3 where
    1: "retrieve_char (rd [] buf) = (c, b1)" "get_uint b1 = (i1, b2)" "get_uint b2 = (i2, b3)"
    by fastforce
  with assms(2) have 2: "get_uint b3 = (magic, rb)" "\<not> bw_errorFlag rb" "c = ty"
      "qid = to64 i1 i2"
    by (auto simp: parseHeader_def Let_def split: prod.splits if_splits)
  have "reads (rd [] buf) (c # net_uint i1 @ net_uint i2 @ net_uint magic) rb"
    by (rule reads_bind, rule ok, rule 1, rule reads_bind, assumption, rule 1,
        rule reads_bind, assumption, rule 1, rule reads_last, assumption, rule 2)
  then obtain rest where "buf = (c # net_uint i1 @ net_uint i2 @ net_uint magic) @ rest"
    using 2(2) by (rule reads_rd)
  then have "buf = header_bytes ty magic \<lparr>req_id_1 = i1, req_id_2 = i2\<rparr> @ rest"
    using 2 by (simp add: header_bytes_def id_bytes_def)
  moreover have "retReqID \<lparr>req_id_1 = i1, req_id_2 = i2\<rparr> = qid"
    using 2 by (simp add: retReqID_def)
  ultimately show ?thesis by blast
qed

subsection \<open>RetError\<close>

definition RetError_parse :: "u32 \<Rightarrow> u8 list \<Rightarrow> Packet option \<times> BufferWrapper" where
  "RetError_parse magic buf =
     (let rb = newBufferWrapper buf (int (length buf)) in
      case retrieve_char rb of (queryType, rb) \<Rightarrow>
      if bw_errorFlag rb \<or> queryType \<noteq> RET_ERROR then (None, rb) else
      case get_uint rb of (queryID_1, rb) \<Rightarrow>
      case get_uint rb of (queryID_2, rb) \<Rightarrow>
      let queryID = to64 queryID_1 queryID_2 in
      case get_uint rb of (magicNumber, rb) \<Rightarrow>
      if bw_errorFlag rb \<or> magicNumber \<noteq> magic then (None, rb) else
      (Some (newPacket queryID), rb))"

definition RetError_createRealPacket :: "u32 \<Rightarrow> Packet \<Rightarrow> RealPacket \<Rightarrow> int \<times> RealPacket" where
  "RetError_createRealPacket = header_create RET_ERROR"

interpretation ret_error: strict_codec
  "RetError_createRealPacket magic" "header_bytes RET_ERROR magic" "\<lambda>_. True"
  "RetError_parse magic" "\<lambda>_. True" for magic
proof
  show "rp_ok p \<Longrightarrow>
      writes p (snd (RetError_createRealPacket magic a p)) (header_bytes RET_ERROR magic a)"
    for a p
    unfolding RetError_createRealPacket_def by (rule header_only.create_writes) simp_all
  show "rp_ok p \<Longrightarrow> fst (RetError_createRealPacket magic a p) =
      (if rp_complete (snd (RetError_createRealPacket magic a p)) then 0 else -1)" for a p
    unfolding RetError_createRealPacket_def by (rule header_only.create_ret) simp_all
  show "length (header_bytes RET_ERROR magic a @ rest) < 1073741824 \<Longrightarrow>
      fst (RetError_parse magic (header_bytes RET_ERROR magic a @ rest)) = Some a" for a rest
    unfolding RetError_parse_def header_bytes_def new_rd
    by (simp add: wire_simps Let_def id_bytes_def newPacket_def)
next
  fix buf :: "u8 list"
  assume "length buf < 1073741824"
  then have ok: "bw_ok (rd [] buf)" by simp
  show "bw_ok (snd (RetError_parse magic buf))"
    using ok unfolding RetError_parse_def new_rd
    by (simp add: split_beta Let_def wire_simps del: bw_ok_rd)
  fix a
  assume "fst (RetError_parse magic buf) = Some a"
  then show "True \<and> (\<exists>rest. buf = header_bytes RET_ERROR magic a @ rest)"
    using ok unfolding RetError_parse_def new_rd
    by (clarsimp simp: Let_def newPacket_def header_bytes_def id_bytes_def
        split: prod.splits if_splits simp del: bw_ok_rd)
      (rule reads_soundI, (rule reads_bind reads_last, assumption, assumption)+,
       assumption, simp)
qed simp

subsection \<open>RetInfo\<close>

record RetInfo = Packet +
  ri_addr :: u32
  ri_port :: u16

definition newRetInfo :: "u64 \<Rightarrow> u32 \<Rightarrow> u16 \<Rightarrow> RetInfo" where
  "newRetInfo qid in_addr in_port =
     (case to32 qid of (a, b) \<Rightarrow>
       \<lparr>req_id_1 = a, req_id_2 = b, ri_addr = in_addr, ri_port = in_port\<rparr>)"

definition getInfoNode :: "RetInfo \<Rightarrow> NodeIdent" where
  "getInfoNode r = \<lparr>addr = ri_addr r, port = ri_port r\<rparr>"

definition RetInfo_parse :: "u32 \<Rightarrow> NodeIdent \<Rightarrow> u8 list \<Rightarrow> RetInfo option \<times> BufferWrapper" where
  "RetInfo_parse magic in_remoteNode buf =
     (let rb = newBufferWrapper buf (int (length buf)) in
      case retrieve_char rb of (queryType, rb) \<Rightarrow>
      if bw_errorFlag rb \<or> queryType \<noteq> RET_INFO then (None, rb) else
      case get_uint rb of (queryID_1, rb) \<Rightarrow>
      case get_uint rb of (queryID_2, rb) \<Rightarrow>
      let queryID = to64 queryID_1 queryID_2 in
      case get_uint rb of (magicNumber, rb) \<Rightarrow>
      case get_uint rb of (in_addr, rb) \<Rightarrow>
      case get_ushort rb of (in_port, rb) \<Rightarrow>
      if bw_errorFlag rb \<or> magicNumber \<noteq> magic then (None, rb) else
      (if in_addr = 0 \<and> in_port = 0
       then (Some (newRetInfo queryID (addr in_remoteNode) (port in_remoteNode)), rb)
       else (Some (newRetInfo queryID in_addr in_port), rb)))"

definition RetInfo_createRealPacket :: "u32 \<Rightarrow> RetInfo \<Rightarrow> RealPacket \<Rightarrow> int \<times> RealPacket" where
  "RetInfo_createRealPacket magic r inPacket =
     (let inPacket = append_char RET_INFO inPacket;
          inPacket = write_id magic r inPacket;
          inPacket = append_uint (htonl (ri_addr r)) inPacket;
          inPacket = append_ushort (htons (ri_port r)) inPacket
      in packet_done inPacket)"

definition RetInfo_bytes :: "u32 \<Rightarrow> RetInfo \<Rightarrow> u8 list" where
  "RetInfo_bytes magic r =
     [RET_INFO] @ id_bytes magic r @ net_uint (ri_addr r) @ net_ushort (ri_port r)"

definition ri_named :: "RetInfo \<Rightarrow> bool" where
  "ri_named r \<longleftrightarrow> \<not> (ri_addr r = 0 \<and> ri_port r = 0)"

interpretation ret_info: wire_codec
  "RetInfo_createRealPacket magic" "RetInfo_bytes magic" ri_named
  "RetInfo_parse magic remote" ri_named for magic remote
proof
  show "rp_ok p \<Longrightarrow> writes p (snd (RetInfo_createRealPacket magic a p)) (RetInfo_bytes magic a)"
    for a p
    unfolding RetInfo_createRealPacket_def RetInfo_bytes_def packet_done_def Let_def snd_conv
      append_assoc [symmetric]
    by (intro writes_chain)
  show "fst (RetInfo_createRealPacket magic a p) =
      (if rp_complete (snd (RetInfo_createRealPacket magic a p)) then 0 else -1)" for a p
    by (simp add: RetInfo_createRealPacket_def packet_done_def Let_def)
  show "ri_named a \<Longrightarrow> length (RetInfo_bytes magic a @ rest) < 1073741824 \<Longrightarrow>
      fst (RetInfo_parse magic remote (RetInfo_bytes magic a @ rest)) = Some a" for a rest
    unfolding RetInfo_parse_def RetInfo_bytes_def new_rd
    by (auto simp: wire_simps Let_def id_bytes_def newRetInfo_def ri_named_def)
  show "length buf < 1073741824 \<Longrightarrow> bw_ok (snd (RetInfo_parse magic remote buf))"
    for buf :: "u8 list"
    unfolding RetInfo_parse_def new_rd
    by (simp add: split_beta Let_def wire_simps)
qed

text \<open>An answer that names nobody is about its sender.\<close>

lemma RetInfo_parse_anonymous:
  assumes "\<not> ri_named a" "length (RetInfo_bytes magic a @ rest) < 1073741824"
  shows "fst (RetInfo_parse magic remote (RetInfo_bytes magic a @ rest)) =
    Some (a\<lparr>ri_addr := addr remote, ri_port := port remote\<rparr>)"
  using assms unfolding RetInfo_parse_def RetInfo_bytes_def new_rd
  by (simp add: wire_simps Let_def id_bytes_def newRetInfo_def ri_named_def)

subsection \<open>RetResponse\<close>

record RetResponse = Packet +
  rr_addr :: u32
  rr_port :: u16
  rr_targets :: "NodeIdentLat list"

definition latEntry :: "NodeIdent \<times> u32 \<Rightarrow> NodeIdentLat" where
  "latEntry it = \<lparr>addr = addr (fst it), port = port (fst it), latencyUS = snd it\<rparr>"

definition newRetResponse :: "u64 \<Rightarrow> u32 \<Rightarrow> u16 \<Rightarrow> (NodeIdent, u32) smap \<Rightarrow> RetResponse" where
  "newRetResponse qid in_addr in_port in_targets =
     (case to32 qid of (a, b) \<Rightarrow>
       \<lparr>req_id_1 = a, req_id_2 = b, rr_addr = in_addr, rr_port = in_port,
        rr_targets = map latEntry in_targets\<rparr>)"

definition getResponse :: "RetResponse \<Rightarrow> NodeIdent" where
  "getResponse r = \<lparr>addr = rr_addr r, port = rr_port r\<rparr>"

definition latMap :: "NodeIdentLat list \<Rightarrow> (NodeIdent, u32) smap" where
  "latMap es = fold (\<lambda>e m. sm_upd (ident e) (latencyUS e) m) es []"

definition RetResponse_parse :: "u32 \<Rightarrow> NodeIdent \<Rightarrow> u8 list
    \<Rightarrow> RetResponse option \<times> BufferWrapper" where
  "RetResponse_parse magic in_remote buf =
     (let rb = newBufferWrapper buf (int (length buf)) in
      case retrieve_char rb of (queryType, rb) \<Rightarrow>
      if bw_errorFlag rb \<or> queryType \<noteq> RET_RESPONSE then (None, rb) else
      case get_uint rb of (queryID_1, rb) \<Rightarrow>
      case get_uint rb of (queryID_2, rb) \<Rightarrow>
      let queryID = to64 queryID_1 queryID_2 in
      case get_uint rb of (magicNumber, rb) \<Rightarrow>
      if bw_errorFlag rb \<or> magicNumber \<noteq> magic then (None, rb) else
      case get_uint rb of (closestAddr, rb) \<Rightarrow>
      case get_ushort rb of (closestPort, rb) \<Rightarrow>
      let closest = (if closestAddr = 0 \<and> closestPort = 0
                     then (addr in_remote, port in_remote) else (closestAddr, closestPort)) in
      case get_uint rb of (numEntry, rb) \<Rightarrow>
      case read_entries get_NodeIdentLat (unat numEntry) rb of (entries, rb) \<Rightarrow>
      let tmpMap = latMap entries in
      if bw_errorFlag rb then (None, rb)
      else (Some (newRetResponse queryID (fst closest) (snd closest) tmpMap), rb))"

definition RetResponse_createRealPacket :: "u32 \<Rightarrow> RetResponse \<Rightarrow> RealPacket
    \<Rightarrow> int \<times> RealPacket" where
  "RetResponse_createRealPacket magic r inPacket =
     (let inPacket = append_char RET_RESPONSE inPacket;
          inPacket = write_id magic r inPacket;
          inPacket = append_uint (htonl (rr_addr r)) inPacket;
          inPacket = append_ushort (htons (rr_port r)) inPacket;
          inPacket = append_uint (htonl (word_of_nat (length (rr_targets r)))) inPacket;
          inPacket = fold put_NodeIdentLat (rr_targets r) inPacket
      in packet_done inPacket)"

definition RetResponse_bytes :: "u32 \<Rightarrow> RetResponse \<Rightarrow> u8 list" where
  "RetResponse_bytes magic r =
     [RET_RESPONSE] @ id_bytes magic r @ net_uint (rr_addr r) @ net_ushort (rr_port r) @
     net_uint (word_of_nat (length (rr_targets r))) @
     concat (map enc_NodeIdentLat (rr_targets r))"

definition rr_parsable :: "RetResponse \<Rightarrow> bool" where
  "rr_parsable r \<longleftrightarrow> \<not> (rr_addr r = 0 \<and> rr_port r = 0) \<and> ks_ok ident (rr_targets r) \<and>
     length (rr_targets r) < 4294967296"

lemma sm_upd_last:
  assumes "\<forall>j \<in> set (sm_keys m). j < k"
  shows "sm_upd k v m = m @ [(k, v)]"
  using assms by (induction k v m rule: sm_upd.induct) auto

lemma latMap_snoc: "latMap (es @ [e]) = sm_upd (ident e) (latencyUS e) (latMap es)"
  by (simp add: latMap_def)

lemma latMap_sorted:
  assumes "ks_ok ident es"
  shows "latMap es = map (\<lambda>e. (ident e, latencyUS e)) es"
  using assms
proof (induction es rule: rev_induct)
  case (snoc e es)
  then have "ks_ok ident es" "\<forall>j \<in> set (map ident es). j < ident e"
    by (simp_all add: ks_ok_def sorted_wrt_append)
  with snoc.IH show ?case
    by (simp add: latMap_snoc sm_upd_last comp_def)
qed (simp add: latMap_def)

lemma ident_latEntry [simp]: "ident (latEntry e) = fst e"
  by (cases "fst e") (simp add: latEntry_def ident_def)

lemma map_latEntry [simp]: "map (latEntry \<circ> (\<lambda>e. (ident e, latencyUS e))) es = es"
  by (induction es) (simp_all add: latEntry_def)

lemma sm_ok_latMap: "sm_ok (latMap es)"
  by (induction es rule: rev_induct) (simp_all add: latMap_snoc, simp add: latMap_def)

interpretation ret_response: wire_codec
  "RetResponse_createRealPacket magic" "RetResponse_bytes magic" rr_parsable
  "RetResponse_parse magic remote" rr_parsable for magic remote
proof
  show "rp_ok p \<Longrightarrow>
      writes p (snd (RetResponse_createRealPacket magic a p)) (RetResponse_bytes magic a)"
    for a p
    unfolding RetResponse_createRealPacket_def RetResponse_bytes_def packet_done_def Let_def
      snd_conv append_assoc [symmetric]
    by (intro writes_chain lat_entry.put_all)
  show "fst (RetResponse_createRealPacket magic a p) =
      (if rp_complete (snd (RetResponse_createRealPacket magic a p)) then 0 else -1)" for a p
    by (simp add: RetResponse_createRealPacket_def packet_done_def Let_def)
  show "rr_parsable a \<Longrightarrow> length (RetResponse_bytes magic a @ rest) < 1073741824 \<Longrightarrow>
      fst (RetResponse_parse magic remote (RetResponse_bytes magic a @ rest)) = Some a"
    for a rest
    unfolding RetResponse_parse_def RetResponse_bytes_def new_rd
    by (auto simp: wire_simps Let_def id_bytes_def newRetResponse_def rr_parsable_def
      lat_entry.get_all latMap_sorted)
  show "length buf < 1073741824 \<Longrightarrow> bw_ok (snd (RetResponse_parse magic remote buf))"
    for buf :: "u8 list"
    unfolding RetResponse_parse_def new_rd
    by (simp add: split_beta Let_def wire_simps lat_entry.get_all_ok)
qed

text \<open>Whatever arrives, the parsed answer lists every node once, in order.\<close>

lemma RetResponse_parse_targets:
  assumes "fst (RetResponse_parse magic remote buf) = Some r"
  shows "ks_ok ident (rr_targets r)"
proof -
  obtain m where "rr_targets r = map latEntry m" "sm_ok m"
    using assms sm_ok_latMap
    by (auto simp: RetResponse_parse_def Let_def newRetResponse_def
      split: prod.splits if_splits)
  then show ?thesis by (simp add: ks_ok_def sm_ok_def comp_def)
qed

subsection \<open>RetPing\<close>

record RetPing = Packet +
  rp_nodes :: "NodeIdentLat list"

definition newRetPing :: "u64 \<Rightarrow> RetPing" where
  "newRetPing qid =
     (case to32 qid of (a, b) \<Rightarrow> \<lparr>req_id_1 = a, req_id_2 = b, rp_nodes = []\<rparr>)"

definition RetPing_addNode :: "NodeIdent \<Rightarrow> u32 \<Rightarrow> RetPing \<Rightarrow> RetPing" where
  "RetPing_addNode in_node in_latency_us r =
     r\<lparr>rp_nodes := rp_nodes r @ [latEntry (in_node, in_latency_us)]\<rparr>"

definition RetPing_parse :: "u32 \<Rightarrow> u8 list \<Rightarrow> RetPing option \<times> BufferWrapper" where
  "RetPing_parse magic buf =
     (let rb = newBufferWrapper buf (int (length buf)) in
      case retrieve_char rb of (queryType, rb) \<Rightarrow>
      if bw_errorFlag rb \<or> queryType \<noteq> RET_PING_REQ then (None, rb) else
      case get_uint rb of (queryID_1, rb) \<Rightarrow>
      case get_uint rb of (queryID_2, rb) \<Rightarrow>
      let queryID = to64 queryID_1 queryID_2 in
      case get_uint rb of (magicNumber, rb) \<Rightarrow>
      if bw_errorFlag rb \<or> magicNumber \<noteq> magic then (None, rb) else
      let ret = newRetPing queryID in
      case get_uint rb of (numEntry, rb) \<Rightarrow>
      case read_entries get_NodeIdentLat (unat numEntry) rb of (entries, rb) \<Rightarrow>
      let ret = fold (\<lambda>e. RetPing_addNode (ident e) (latencyUS e)) entries ret in
      if bw_errorFlag rb then (None, rb) else (Some ret, rb))"

definition RetPing_createRealPacket :: "u32 \<Rightarrow> RetPing \<Rightarrow> RealPacket \<Rightarrow> int \<times> RealPacket" where
  "RetPing_createRealPacket magic r inPacket =
     (let num_nodes = word_of_nat (length (rp_nodes r)) :: u32;
          inPacket = append_char RET_PING_REQ inPacket;
          inPacket = write_id magic r inPacket;
          inPacket = append_uint (htonl num_nodes) inPacket;
          inPacket = fold put_NodeIdentLat (take (unat num_nodes) (rp_nodes r)) inPacket
      in packet_done inPacket)"

definition RetPing_bytes :: "u32 \<Rightarrow> RetPing \<Rightarrow> u8 list" where
  "RetPing_bytes magic r =
     [RET_PING_REQ] @ id_bytes magic r @ net_uint (word_of_nat (length (rp_nodes r))) @
     concat (map enc_NodeIdentLat (rp_nodes r))"

definition rp_countable :: "RetPing \<Rightarrow> bool" where
  "rp_countable r \<longleftrightarrow> length (rp_nodes r) < 4294967296"

lemma fold_RetPing_addNode:
  "fold (\<lambda>e. RetPing_addNode (ident e) (latencyUS e)) es r =
     r\<lparr>rp_nodes := rp_nodes r @ es\<rparr>"
  by (induction es arbitrary: r) (simp_all add: RetPing_addNode_def latEntry_def)

interpretation ret_ping: strict_codec
  "RetPing_createRealPacket magic" "RetPing_bytes magic" rp_countable
  "RetPing_parse magic" rp_countable for magic
proof
  fix a p
  assume s: "rp_countable a" and p: "rp_ok p"
  then have n: "unat (word_of_nat (length (rp_nodes a)) :: u32) = length (rp_nodes a)"
    by (simp add: rp_countable_def)
  show "fst (RetPing_createRealPacket magic a p) =
      (if rp_complete (snd (RetPing_createRealPacket magic a p)) then 0 else -1)"
    by (simp add: RetPing_createRealPacket_def packet_done_def Let_def)
  show "writes p (snd (RetPing_createRealPacket magic a p)) (RetPing_bytes magic a)"
    unfolding RetPing_createRealPacket_def packet_done_def Let_def RetPing_bytes_def
    using p
    by (simp only: snd_conv n take_all order_refl append_assoc [symmetric])
      (intro writes_chain lat_entry.put_all)
next
  fix a rest
  assume "rp_countable a" "length (RetPing_bytes magic a @ rest) < 1073741824"
  then show "fst (RetPing_parse magic (RetPing_bytes magic a @ rest)) = Some a"
    unfolding RetPing_parse_def RetPing_bytes_def new_rd
    by (simp add: wire_simps Let_def id_bytes_def newRetPing_def fold_RetPing_addNode
      lat_entry.get_all rp_countable_def)
next
  fix buf :: "u8 list"
  assume "length buf < 1073741824"
  then have ok: "bw_ok (rd [] buf)" by simp
  show "bw_ok (snd (RetPing_parse magic buf))"
    using ok unfolding RetPing_parse_def new_rd
    by (simp add: split_beta Let_def wire_simps lat_entry.get_all_ok del: bw_ok_rd)
  fix a
  assume "fst (RetPing_parse magic buf) = Some a"
  then show "rp_countable a \<and> (\<exists>rest. buf = RetPing_bytes magic a @ rest)"
    using ok unfolding RetPing_parse_def new_rd
    by (clarsimp simp: Let_def fold_RetPing_addNode newRetPing_def rp_countable_def
        read_entries_count RetPing_bytes_def id_bytes_def
        split: prod.splits if_splits simp del: bw_ok_rd)
      (rule reads_soundI,
       ((rule lat_entry.get_counted, assumption, assumption, assumption)
        | (rule reads_bind, assumption, assumption))+, assumption, simp)
qed simp

subsection \<open>Gossip\<close>

record GossipPacketGeneric = RendvHeaderPacket +
  gp_targets :: "NodeIdentRendv list"

definition newGossipPacket :: "u64 \<Rightarrow> u32 \<Rightarrow> u16 \<Rightarrow> GossipPacketGeneric" where
  "newGossipPacket qid in_rendv_addr in_rendv_port =
     (case to32 qid of (a, b) \<Rightarrow>
       \<lparr>req_id_1 = a, req_id_2 = b, rendv_addr = in_rendv_addr, rendv_port = in_rendv_port,
        gp_targets = []\<rparr>)"

definition gp_addNode :: "u32 \<Rightarrow> u16 \<Rightarrow> u32 \<Rightarrow> u16 \<Rightarrow> GossipPacketGeneric
    \<Rightarrow> GossipPacketGeneric" where
  "gp_addNode a p rendv_a rendv_p r =
     r\<lparr>gp_targets := gp_targets r @
       [\<lparr>addr = a, port = p, addrRendv = rendv_a, portRendv = ucast rendv_p\<rparr>]\<rparr>"

definition GossipPacketGeneric_parse :: "u8 \<Rightarrow> u32 \<Rightarrow> u8 list
    \<Rightarrow> GossipPacketGeneric option \<times> BufferWrapper" where
  "GossipPacketGeneric_parse ty magic buf =
     (let rb = newBufferWrapper buf (int (length buf)) in
      case retrieve_char rb of (queryType, rb) \<Rightarrow>
      if bw_errorFlag rb \<or> queryType \<noteq> ty then (None, rb) else
      case get_uint rb of (queryID_1, rb) \<Rightarrow>
      case get_uint rb of (queryID_2, rb) \<Rightarrow>
      let queryID = to64 queryID_1 queryID_2 in
      case get_uint rb of (magicNumber, rb) \<Rightarrow>
      case get_uint rb of (outerRAddr, rb) \<Rightarrow>
      case get_ushort rb of (outerRPort, rb) \<Rightarrow>
      if bw_errorFlag rb \<or> magicNumber \<noteq> magic then (None, rb) else
      let ret = newGossipPacket queryID outerRAddr outerRPort in
      case get_uint rb of (numEntry, rb) \<Rightarrow>
      case read_entries get_NodeIdentRendv (unat numEntry) rb of (entries, rb) \<Rightarrow>
      let ret = fold (\<lambda>e. gp_addNode (addr e) (port e) (addrRendv e) (ucast (portRendv e)))
                  entries ret in
      if bw_errorFlag rb then (None, rb) else (Some ret, rb))"

definition GossipPacketGeneric_createRealPacket :: "u8 \<Rightarrow> u32 \<Rightarrow> GossipPacketGeneric
    \<Rightarrow> RealPacket \<Rightarrow> int \<times> RealPacket" where
  "GossipPacketGeneric_createRealPacket ty magic r inPacket =
     (let num_targets = word_of_nat (length (gp_targets r)) :: u32;
          inPacket = append_char ty inPacket;
          inPacket = write_id magic r inPacket;
          inPacket = write_rendv r inPacket;
          inPacket = append_uint (htonl num_targets) inPacket;
          inPacket = fold put_NodeIdentRendv (take (unat num_targets) (gp_targets r)) inPacket
      in packet_done inPacket)"

definition GossipPacketPush_type :: u8 where "GossipPacketPush_type = GOSSIP"
definition GossipPacketPull_type :: u8 where "GossipPacketPull_type = GOSSIP_PULL"

definition GossipPacketGeneric_bytes :: "u8 \<Rightarrow> u32 \<Rightarrow> GossipPacketGeneric \<Rightarrow> u8 list" where
  "GossipPacketGeneric_bytes ty magic r =
     [ty] @ id_bytes magic r @ rendv_bytes r @
     net_uint (word_of_nat (length (gp_targets r))) @
     concat (map enc_NodeIdentRendv (gp_targets r))"

definition gp_countable :: "GossipPacketGeneric \<Rightarrow> bool" where
  "gp_countable r \<longleftrightarrow> length (gp_targets r) < 4294967296 \<and>
     (\<forall>e \<in> set (gp_targets r). rendv_port_ok e)"

lemma fold_gp_addNode:
  assumes "\<forall>e \<in> set es. rendv_port_ok e"
  shows "fold (\<lambda>e. gp_addNode (addr e) (port e) (addrRendv e) (ucast (portRendv e))) es r =
     r\<lparr>gp_targets := gp_targets r @ es\<rparr>"
  using assms
  by (induction es arbitrary: r) (simp_all add: gp_addNode_def rendv_port_ok_def)

lemma get_gossip_ok: "get_NodeIdentRendv b = (e, b') \<Longrightarrow> rendv_port_ok e"
  by (auto simp: get_NodeIdentRendv_def rendv_port_ok_def split: prod.splits)

lemma read_gossip_ok:
  "read_entries get_NodeIdentRendv n b = (es, b') \<Longrightarrow> \<forall>e \<in> set es. rendv_port_ok e"
proof (induction n arbitrary: b es)
  case (Suc n)
  then show ?case
    by (auto split: prod.splits if_splits dest: get_gossip_ok)
qed simp

interpretation gossip: strict_codec
  "GossipPacketGeneric_createRealPacket ty magic" "GossipPacketGeneric_bytes ty magic"
  gp_countable "GossipPacketGeneric_parse ty magic" gp_countable for ty magic
proof
  fix a p
  assume s: "gp_countable a" and p: "rp_ok p"
  then have n: "unat (word_of_nat (length (gp_targets a)) :: u32) = length (gp_targets a)"
    by (simp add: gp_countable_def)
  show "fst (GossipPacketGeneric_createRealPacket ty magic a p) =
      (if rp_complete (snd (GossipPacketGeneric_createRealPacket ty magic a p)) then 0 else -1)"
    by (simp add: GossipPacketGeneric_createRealPacket_def packet_done_def Let_def)
  show "writes p (snd (GossipPacketGeneric_createRealPacket ty magic a p))
      (GossipPacketGeneric_bytes ty magic a)"
    unfolding GossipPacketGeneric_createRealPacket_def packet_done_def Let_def
      GossipPacketGeneric_bytes_def
    using p
    by (simp only: snd_conv n take_all order_refl append_assoc [symmetric])
      (intro writes_chain rendv_entry.put_all)
next
  fix a rest
  assume "gp_countable a" "length (GossipPacketGeneric_bytes ty magic a @ rest) < 1073741824"
  then show "fst (GossipPacketGeneric_parse ty magic
      (GossipPacketGeneric_bytes ty magic a @ rest)) = Some a"
    unfolding GossipPacketGeneric_parse_def GossipPacketGeneric_bytes_def new_rd
    by (simp add: wire_simps Let_def id_bytes_def rendv_bytes_def newGossipPacket_def
      fold_gp_addNode rendv_entry.get_all gp_countable_def)
next
  fix buf :: "u8 list"
  assume "length buf < 1073741824"
  then have ok: "bw_ok (rd [] buf)" by simp
  show "bw_ok (snd (GossipPacketGeneric_parse ty magic buf))"
    using ok unfolding GossipPacketGeneric_parse_def new_rd
    by (simp add: split_beta Let_def wire_simps rendv_entry.get_all_ok del: bw_ok_rd)
  fix a
  assume "fst (GossipPacketGeneric_parse ty magic buf) = Some a"
  then show "gp_countable a \<and> (\<exists>rest. buf = GossipPacketGeneric_bytes ty magic a @ rest)"
    using ok unfolding GossipPacketGeneric_parse_def new_rd
    by (clarsimp simp: Let_def newGossipPacket_def gp_countable_def read_gossip_ok
        fold_gp_addNode [OF read_gossip_ok]
        read_entries_count GossipPacketGeneric_bytes_def id_bytes_def rendv_bytes_def
        split: prod.splits if_splits simp del: bw_ok_rd)
      (rule reads_soundI,
       ((rule rendv_entry.get_counted, assumption, assumption, assumption)
        | (rule reads_bind, assumption, assumption))+, assumption, simp)
qed simp

end
