(* ===== verification/Ring_Numbers.thy ===== *)
theory Ring_Numbers
  imports Floats Replies
begin

text \<open>
  RingSet.h and RingSet.cpp: the concentric latency rings of a node. A ring has a primary list
  (a vector) and a secondary list (a deque, oldest first); \<open>nodeLatencyUS\<close> holds the last measured
  latency of every member and \<open>rendvMapping\<close> the rendezvous node of the members behind a firewall.
  The arrays of ten rings are functions of the ring number. An \<^verbatim>\<open>assert(false)\<close> of the code is the
  result \<open>None\<close>. \<open>rs_stale\<close> is no field of the class: it is set once the code has read a node through
  a reference to an element of a deque that it had erased, and never reset.
\<close>

definition MAX_NUM_RINGS :: int where "MAX_NUM_RINGS = 10"

record RingSet =
  primaryRing :: "int \<Rightarrow> NodeIdent list"
  secondaryRing :: "int \<Rightarrow> NodeIdent list"
  ringFrozen :: "int \<Rightarrow> bool"
  primarySize :: u32
  secondarySize :: u32
  exponentBase :: u32
  nodeLatencyUS :: "(NodeIdent, u32) smap"
  rendvMapping :: "(NodeIdent, NodeIdent) smap"
  rs_stale :: bool

definition newRingSet :: "u32 \<Rightarrow> u32 \<Rightarrow> u32 \<Rightarrow> RingSet" where
  "newRingSet prim_ring_size second_ring_size base =
     \<lparr>primaryRing = (\<lambda>_. []), secondaryRing = (\<lambda>_. []), ringFrozen = (\<lambda>_. False),
      primarySize = prim_ring_size, secondarySize = second_ring_size, exponentBase = base,
      nodeLatencyUS = [], rendvMapping = [], rs_stale = False\<rparr>"

definition getNumberOfRings :: "RingSet \<Rightarrow> int" where
  "getNumberOfRings rs = MAX_NUM_RINGS"

definition freezeRing :: "int \<Rightarrow> RingSet \<Rightarrow> int \<times> RingSet" where
  "freezeRing ringNum rs =
     (if ringNum < 0 \<or> ringNum \<ge> getNumberOfRings rs then (-1, rs)
      else (0, rs\<lparr>ringFrozen := (ringFrozen rs)(ringNum := True)\<rparr>))"

definition unfreezeRing :: "int \<Rightarrow> RingSet \<Rightarrow> int \<times> RingSet" where
  "unfreezeRing ringNum rs =
     (if ringNum < 0 \<or> ringNum \<ge> getNumberOfRings rs then (-1, rs)
      else (0, rs\<lparr>ringFrozen := (ringFrozen rs)(ringNum := False)\<rparr>))"

definition returnPrimaryRing :: "RingSet \<Rightarrow> int \<Rightarrow> NodeIdent list option" where
  "returnPrimaryRing rs ringNum =
     (if ringNum \<ge> MAX_NUM_RINGS then None else Some (primaryRing rs ringNum))"

definition returnSecondaryRing :: "RingSet \<Rightarrow> int \<Rightarrow> NodeIdent list option" where
  "returnSecondaryRing rs ringNum =
     (if ringNum \<ge> MAX_NUM_RINGS then None else Some (secondaryRing rs ringNum))"

definition isPrimRingFull :: "RingSet \<Rightarrow> int \<Rightarrow> bool" where
  "isPrimRingFull rs ringNum \<longleftrightarrow> length (primaryRing rs ringNum) = unat (primarySize rs)"

definition isSecondRingEmpty :: "RingSet \<Rightarrow> int \<Rightarrow> bool" where
  "isSecondRingEmpty rs ringNum \<longleftrightarrow> secondaryRing rs ringNum = []"

definition getNodeLatency :: "RingSet \<Rightarrow> NodeIdent \<Rightarrow> u32 option" where
  "getNodeLatency rs inNode = sm_find (nodeLatencyUS rs) inNode"

definition rendvLookup :: "RingSet \<Rightarrow> NodeIdent \<Rightarrow> NodeIdent option" where
  "rendvLookup rs remoteNode = sm_find (rendvMapping rs) remoteNode"

subsection \<open>Ring numbers\<close>

definition getRingNumber :: "fpu \<Rightarrow> RingSet \<Rightarrow> u32 \<Rightarrow> int" where
  "getRingNumber F rs latency =
     (let latencyMS = Fin (rnd F (of_int (uint latency) / 1000));
          ringNumber = d_to_int (d_ceil (d_div F (d_log F latencyMS)
            (d_log F (Fin (of_int (uint (exponentBase rs)))))))
      in if ringNumber \<ge> MAX_NUM_RINGS then MAX_NUM_RINGS - 1
         else if ringNumber < 0 then 0
         else ringNumber)"

lemma getRingNumber_range: "0 \<le> getRingNumber F rs l \<and> getRingNumber F rs l < MAX_NUM_RINGS"
  by (simp add: getRingNumber_def Let_def MAX_NUM_RINGS_def)

lemma getRingNumber_cong:
  "exponentBase rs' = exponentBase rs \<Longrightarrow> getRingNumber F rs' l = getRingNumber F rs l"
  by (simp add: getRingNumber_def)

text \<open>The reference: the first ring whose outer radius \<open>base ^ i\<close> ms reaches the latency.\<close>

definition ring_search :: "nat \<Rightarrow> nat \<Rightarrow> nat" where
  "ring_search base us = length (takeWhile (\<lambda>i. 1000 * base ^ i < us) [0..<9])"

lemma length_takeWhile_upt_le:
  assumes "i \<le> n" "\<And>j k. j \<le> k \<Longrightarrow> P k \<Longrightarrow> P j"
  shows "length (takeWhile P [0..<n]) \<le> i \<longleftrightarrow> i = n \<or> \<not> P i"
proof
  assume le: "length (takeWhile P [0..<n]) \<le> i"
  show "i = n \<or> \<not> P i"
  proof (rule ccontr)
    assume "\<not> (i = n \<or> \<not> P i)"
    then have "i < n" "P i" using assms(1) by auto
    then have "\<forall>x \<in> set [0..<Suc i]. P x"
      using assms(2) by (metis atLeastLessThan_iff less_Suc_eq_le set_upt)
    then have "takeWhile P ([0..<Suc i] @ [Suc i..<n]) = [0..<Suc i] @ takeWhile P [Suc i..<n]"
      by (intro takeWhile_append2) blast
    moreover have "[0..<Suc i] @ [Suc i..<n] = [0..<n]"
      using \<open>i < n\<close> by (metis Suc_leI le_add_diff_inverse upt_add_eq_append zero_le)
    ultimately show False using le by simp
  qed
next
  assume r: "i = n \<or> \<not> P i"
  show "length (takeWhile P [0..<n]) \<le> i"
  proof (cases "i = n")
    case True
    then show ?thesis by (metis diff_zero length_takeWhile_le length_upt)
  next
    case False
    then have "i < n" "\<not> P i" using r assms(1) by auto
    show ?thesis
    proof (rule ccontr)
      assume "\<not> ?thesis"
      then have "i < length (takeWhile P [0..<n])" by simp
      then have "P ([0..<n] ! i)" by (metis nth_mem set_takeWhileD takeWhile_nth)
      with \<open>i < n\<close> \<open>\<not> P i\<close> show False by simp
    qed
  qed
qed

lemma ring_search_le:
  assumes "1 \<le> base" "i \<le> 9"
  shows "ring_search base us \<le> i \<longleftrightarrow> i = 9 \<or> us \<le> 1000 * base ^ i"
proof -
  have "1000 * base ^ j < us" if "j \<le> k" "1000 * base ^ k < us" for j k
    using power_increasing [OF that(1), of base] assms(1) that(2) by simp
  then show ?thesis
    unfolding ring_search_def
    using length_takeWhile_upt_le [OF assms(2), of "\<lambda>i. 1000 * base ^ i < us"] by auto
qed

lemma ceil_log_le:
  assumes "2 \<le> b" "0 < x"
  shows "\<lceil>ln x / ln (real b)\<rceil> \<le> int i \<longleftrightarrow> x \<le> real b ^ i"
proof -
  have b: "1 < real b" using assms(1) by simp
  have "\<lceil>ln x / ln (real b)\<rceil> \<le> int i \<longleftrightarrow> ln x / ln (real b) \<le> real i"
    by (simp add: ceiling_le_iff)
  also have "\<dots> \<longleftrightarrow> ln x \<le> real i * ln (real b)"
    using b by (simp add: divide_le_eq)
  also have "\<dots> \<longleftrightarrow> ln x \<le> ln (real b ^ i)"
    using b by (simp add: ln_realpow)
  also have "\<dots> \<longleftrightarrow> x \<le> real b ^ i"
    using assms b by simp
  finally show ?thesis .
qed

text \<open>Without rounding, the ring number is the one of the reference.\<close>

lemma ceil_log_bounds:
  assumes "2 \<le> b" "0 < us" "us < 4294967296"
  shows "- 10 \<le> \<lceil>ln (real us / 1000) / ln (real b)\<rceil>"
    and "\<lceil>ln (real us / 1000) / ln (real b)\<rceil> \<le> 32"
proof -
  have p: "(2::real) ^ n \<le> real b ^ n" for n using assms(1) by (intro power_mono) auto
  have "real us / 1000 \<le> real b ^ 32" using p [of 32] assms(3) by simp
  then show "\<lceil>ln (real us / 1000) / ln (real b)\<rceil> \<le> 32"
    using ceil_log_le [OF assms(1), of "real us / 1000" 32] assms(2) by simp
  have "1000 / real us \<le> real b ^ 10"
    using p [of 10] assms(2) by (simp add: divide_le_eq) (smt (verit) mult_le_cancel_left1
      of_nat_1 of_nat_le_iff Suc_le_eq One_nat_def)
  then have "\<lceil>ln (1000 / real us) / ln (real b)\<rceil> \<le> 10"
    using ceil_log_le [OF assms(1), of "1000 / real us" 10] assms(2) by simp
  then have "ln (1000 / real us) / ln (real b) \<le> 10" by (simp add: ceiling_le_iff)
  moreover have "ln (real us / 1000) = - ln (1000 / real us)"
    using assms(2) by (simp add: ln_div)
  ultimately have "- 10 \<le> ln (real us / 1000) / ln (real b)" by simp
  then show "- 10 \<le> \<lceil>ln (real us / 1000) / ln (real b)\<rceil>"
    by (simp add: le_ceiling_iff)
qed

lemma getRingNumber_ideal:
  assumes "2 \<le> unat (exponentBase rs)"
  shows "getRingNumber ideal_fpu rs l = int (ring_search (unat (exponentBase rs)) (unat l))"
proof -
  define b us where "b = unat (exponentBase rs)" and "us = unat l"
  have b: "2 \<le> b" and ub: "uint (exponentBase rs) = int b" and ul: "uint l = int us"
    and us: "us < 4294967296"
    using assms unsigned_less [of l, where 'a = nat] by (simp_all add: b_def us_def)
  have lnb: "0 < ln (real b)" "0 < real b" using b by simp_all
  have small: "ring_search b us \<le> 9" using ring_search_le [of b 9] b by simp
  show ?thesis
  proof (cases "us = 0")
    case True
    then have "ring_search b us = 0" using ring_search_le [of b 0 us] b by simp
    then show ?thesis
      using True lnb unfolding b_def [symmetric] us_def [symmetric]
      by (simp add: getRingNumber_def ul ub INT_MIN_def MAX_NUM_RINGS_def)
  next
    case False
    define c where "c = \<lceil>ln (real us / 1000) / ln (real b)\<rceil>"
    define r where "r = (if c \<ge> 10 then 9 else if c < 0 then 0 else c)"
    have c: "- 10 \<le> c" "c \<le> 32"
      using ceil_log_bounds [OF b _ us] False by (simp_all add: c_def)
    have g: "getRingNumber ideal_fpu rs l = r"
      using False lnb c unfolding r_def getRingNumber_def
      by (simp add: ul ub MAX_NUM_RINGS_def d_to_int_ceil INT_MIN_def c_def Let_def
        del: d_ceil.simps d_to_int.simps)
    have r: "0 \<le> r" "r \<le> 9" by (auto simp: r_def)
    have key: "nat r \<le> i \<longleftrightarrow> ring_search b us \<le> i" if "i \<le> 9" for i
    proof -
      have "nat r \<le> i \<longleftrightarrow> i = 9 \<or> c \<le> int i" using that by (auto simp: r_def)
      also have "c \<le> int i \<longleftrightarrow> us \<le> 1000 * b ^ i"
      proof -
        have "c \<le> int i \<longleftrightarrow> real us / 1000 \<le> real b ^ i"
          unfolding c_def using False by (intro ceil_log_le b) simp
        also have "\<dots> \<longleftrightarrow> real us \<le> real (1000 * b ^ i)"
          by (simp add: divide_le_eq mult.commute)
        finally show ?thesis by (simp only: of_nat_le_iff)
      qed
      finally show ?thesis using ring_search_le [OF _ that, of b us] b by simp
    qed
    have "nat r = ring_search b us"
      using key [of "nat r"] key [of "ring_search b us"] r small by auto
    then show ?thesis using g r by (simp add: b_def us_def)
  qed
qed


lemma getRingNumber_power_law:
  assumes "2 \<le> unat (exponentBase rs)" "i \<le> 9"
  shows "getRingNumber ideal_fpu rs l \<le> int i \<longleftrightarrow>
    i = 9 \<or> unat l \<le> 1000 * unat (exponentBase rs) ^ i"
  using assms ring_search_le by (simp add: getRingNumber_ideal)

end
