(* ===== verification/Ring_Ops.thy ===== *)
theory Ring_Ops
  imports Ring_Numbers
begin

text \<open>
  RingSet.cpp: erasing and inserting nodes, the invariant of the ring set, and that every
  operation keeps it. A member is in exactly one ring, the one its stored latency belongs to;
  the secondary list of a ring is used only while the primary one is full.
\<close>

subsection \<open>Erasing\<close>

definition forget :: "NodeIdent \<Rightarrow> RingSet \<Rightarrow> RingSet" where
  "forget inNode rs =
     rs\<lparr>nodeLatencyUS := sm_erase inNode (nodeLatencyUS rs),
        rendvMapping := sm_erase inNode (rendvMapping rs)\<rparr>"

definition eraseNodeRing :: "NodeIdent \<Rightarrow> int \<Rightarrow> RingSet \<Rightarrow> int \<times> RingSet" where
  "eraseNodeRing inNode ring rs =
     (if ringFrozen rs ring then (0, rs)
      else if inNode \<in> set (primaryRing rs ring) then
        let rs = rs\<lparr>primaryRing :=
              (primaryRing rs)(ring := swap_remove inNode (primaryRing rs ring))\<rparr>;
            rs = (if secondaryRing rs ring \<noteq> [] then
              rs\<lparr>primaryRing :=
                    (primaryRing rs)(ring := primaryRing rs ring @ [hd (secondaryRing rs ring)]),
                 secondaryRing := (secondaryRing rs)(ring := tl (secondaryRing rs ring))\<rparr>
              else rs)
        in (0, forget inNode rs)
      else if inNode \<in> set (secondaryRing rs ring) then
        (0, forget inNode (rs\<lparr>secondaryRing :=
              (secondaryRing rs)(ring := remove1 inNode (secondaryRing rs ring))\<rparr>))
      else (-1, rs))"

definition eraseNode :: "fpu \<Rightarrow> NodeIdent \<Rightarrow> RingSet \<Rightarrow> (int \<times> RingSet) option" where
  "eraseNode F inNode rs =
     (case sm_find (nodeLatencyUS rs) inNode of
        None \<Rightarrow> Some (-1, rs)
      | Some l \<Rightarrow>
          let ringNumber = getRingNumber F rs l in
          case eraseNodeRing inNode ringNumber rs of (ret, rs) \<Rightarrow>
          if ret = -1 then None else Some (0, rs))"

subsection \<open>Inserting\<close>

text \<open>
  Making room: the code hands \<^verbatim>\<open>eraseNode\<close> a reference to the first element of the secondary list. When
  the ring is not frozen, that element is removed from the deque, by \<^verbatim>\<open>erase\<close> or by \<^verbatim>\<open>pop_front\<close>, before
  the two maps are searched for the node the reference stands for: the maps read an element that is
  no more. \<open>rs_stale\<close> records this; the value they read is taken to be the one the element had.
\<close>

definition evictFront :: "int \<Rightarrow> RingSet \<Rightarrow> RingSet option" where
  "evictFront ringNum rs =
     (case secondaryRing rs ringNum of
        [] \<Rightarrow> None
      | oldest # _ \<Rightarrow>
          case eraseNodeRing oldest ringNum rs of (ret, rs) \<Rightarrow>
          if ret = -1 then None
          else Some (if ringFrozen rs ringNum then rs else rs\<lparr>rs_stale := True\<rparr>))"

text \<open>The end of \<^verbatim>\<open>insertNode\<close>: pushing the node into its ring, perhaps evicting the oldest.\<close>

definition pushNode :: "NodeIdent \<Rightarrow> u32 \<Rightarrow> int \<Rightarrow> RingSet \<Rightarrow> (int \<times> RingSet) option" where
  "pushNode inNode latency ringNum rs =
     (let pushed =
        (if length (primaryRing rs ringNum) < unat (primarySize rs) then
           Some (rs\<lparr>primaryRing :=
             (primaryRing rs)(ringNum := primaryRing rs ringNum @ [inNode])\<rparr>)
         else
           let evicted =
             (if length (secondaryRing rs ringNum) \<ge> unat (secondarySize rs)
              then evictFront ringNum rs else Some rs)
           in map_option (\<lambda>rs. rs\<lparr>secondaryRing :=
                (secondaryRing rs)(ringNum := secondaryRing rs ringNum @ [inNode])\<rparr>) evicted)
      in map_option (\<lambda>rs. (0, rs\<lparr>nodeLatencyUS := sm_upd inNode latency (nodeLatencyUS rs)\<rparr>))
           pushed)"

definition storeRendv :: "NodeIdent \<Rightarrow> NodeIdent \<Rightarrow> RingSet \<Rightarrow> RingSet" where
  "storeRendv inNode rend rs =
     (if addr rend \<noteq> 0 \<and> port rend \<noteq> 0
      then rs\<lparr>rendvMapping := sm_upd inNode rend (rendvMapping rs)\<rparr> else rs)"

definition insertNodeRendv :: "fpu \<Rightarrow> NodeIdent \<Rightarrow> u32 \<Rightarrow> NodeIdent \<Rightarrow> RingSet
    \<Rightarrow> (int \<times> RingSet) option" where
  "insertNodeRendv F inNode latency rend rs =
     (let rs = storeRendv inNode rend rs;
          ringNum = getRingNumber F rs latency in
      if ringFrozen rs ringNum then Some (0, rs) else
      case sm_find (nodeLatencyUS rs) inNode of
        None \<Rightarrow> pushNode inNode latency ringNum rs
      | Some prev \<Rightarrow>
          let prevRingNum = getRingNumber F rs prev in
          if prevRingNum = ringNum
          then Some (0, rs\<lparr>nodeLatencyUS := sm_upd inNode latency (nodeLatencyUS rs)\<rparr>)
          else if ringFrozen rs prevRingNum then Some (0, rs)
          else case eraseNodeRing inNode prevRingNum rs of (ret, rs) \<Rightarrow>
            if ret = -1 then None else pushNode inNode latency ringNum rs)"

definition insertNode :: "fpu \<Rightarrow> NodeIdent \<Rightarrow> u32 \<Rightarrow> RingSet \<Rightarrow> (int \<times> RingSet) option" where
  "insertNode F inNode latency rs =
     (let rend = (case sm_find (rendvMapping rs) inNode of
          None \<Rightarrow> \<lparr>addr = 0, port = 0\<rparr> | Some r \<Rightarrow> r)
      in insertNodeRendv F inNode latency rend rs)"

subsection \<open>The invariant\<close>

abbreviation ring_index :: "int \<Rightarrow> bool" where
  "ring_index i \<equiv> 0 \<le> i \<and> i < MAX_NUM_RINGS"

definition members :: "RingSet \<Rightarrow> int \<Rightarrow> NodeIdent list" where
  "members rs i = primaryRing rs i @ secondaryRing rs i"

definition ring_ok :: "RingSet \<Rightarrow> int \<Rightarrow> bool" where
  "ring_ok rs i \<longleftrightarrow>
     length (primaryRing rs i) \<le> unat (primarySize rs) \<and>
     length (secondaryRing rs i) \<le> unat (secondarySize rs) \<and>
     (secondaryRing rs i \<noteq> [] \<longrightarrow> length (primaryRing rs i) = unat (primarySize rs)) \<and>
     distinct (members rs i)"

definition ring_wf :: "fpu \<Rightarrow> RingSet \<Rightarrow> bool" where
  "ring_wf F rs \<longleftrightarrow>
     0 < secondarySize rs \<and> sm_ok (nodeLatencyUS rs) \<and> sm_ok (rendvMapping rs) \<and>
     (\<forall>i. ring_index i \<longrightarrow> ring_ok rs i) \<and>
     (\<forall>i n. ring_index i \<longrightarrow>
        (n \<in> set (members rs i) \<longleftrightarrow>
         (\<exists>l. sm_find (nodeLatencyUS rs) n = Some l \<and> getRingNumber F rs l = i)))"

lemma ring_fields [simp]:
  "ring_wf F (rs\<lparr>rs_stale := b\<rparr>) = ring_wf F rs"
  "members (rs\<lparr>rs_stale := b\<rparr>) = members rs"
  "getRingNumber F (rs\<lparr>rs_stale := b\<rparr>) = getRingNumber F rs"
  by (simp_all add: ring_wf_def ring_ok_def members_def getRingNumber_def fun_eq_iff)

lemma ring_wf_new: "0 < s \<Longrightarrow> ring_wf F (newRingSet p s b)"
  by (simp add: ring_wf_def newRingSet_def ring_ok_def members_def)

lemma ring_wfD:
  assumes "ring_wf F rs"
  shows "ring_index i \<Longrightarrow> ring_ok rs i"
    and "sm_find (nodeLatencyUS rs) n = Some l \<Longrightarrow> n \<in> set (members rs (getRingNumber F rs l))"
    and "ring_index i \<Longrightarrow> n \<in> set (members rs i) \<Longrightarrow>
      \<exists>l. sm_find (nodeLatencyUS rs) n = Some l \<and> getRingNumber F rs l = i"
  using assms getRingNumber_range by (auto simp: ring_wf_def)

text \<open>The member a full ring gives up for a new one: the oldest of its secondary list.\<close>

definition victim :: "RingSet \<Rightarrow> int \<Rightarrow> NodeIdent option" where
  "victim rs i =
     (if length (primaryRing rs i) < unat (primarySize rs) \<or>
         length (secondaryRing rs i) < unat (secondarySize rs)
      then None else Some (hd (secondaryRing rs i)))"

text \<open>What the erasure does to the ring it works on, and that it leaves the rest alone.\<close>

lemma eraseNodeRing_frame:
  assumes "eraseNodeRing n i rs = (ret, rs')"
  shows "ringFrozen rs' = ringFrozen rs" "primarySize rs' = primarySize rs"
    "secondarySize rs' = secondarySize rs" "exponentBase rs' = exponentBase rs"
    "j \<noteq> i \<Longrightarrow> members rs' j = members rs j" "j \<noteq> i \<Longrightarrow> ring_ok rs' j = ring_ok rs j"
    "j \<noteq> i \<Longrightarrow> victim rs' j = victim rs j" "rs_stale rs' = rs_stale rs"
  using assms
  by (auto simp: eraseNodeRing_def forget_def members_def ring_ok_def victim_def Let_def
    split: if_splits)

lemma eraseNodeRing_member:
  assumes "\<not> ringFrozen rs i" "n \<in> set (members rs i)" "ring_ok rs i"
  obtains rs' where "eraseNodeRing n i rs = (0, rs')" "ring_ok rs' i"
    "set (members rs' i) = set (members rs i) - {n}"
    "length (members rs' i) = length (members rs i) - 1"
    "nodeLatencyUS rs' = sm_erase n (nodeLatencyUS rs)"
    "rendvMapping rs' = sm_erase n (rendvMapping rs)"
proof (cases "n \<in> set (primaryRing rs i)")
  case True
  have d: "distinct (primaryRing rs i)" "distinct (secondaryRing rs i)"
    "set (primaryRing rs i) \<inter> set (secondaryRing rs i) = {}"
    using assms(3) by (simp_all add: ring_ok_def members_def)
  have l: "length (swap_remove n (primaryRing rs i)) = length (primaryRing rs i) - 1"
    "0 < length (primaryRing rs i)"
    using True by (auto simp: length_swap_remove)
  define rs' where "rs' = snd (eraseNodeRing n i rs)"
  show ?thesis
  proof (cases "secondaryRing rs i")
    case Nil
    then show ?thesis
      using assms d l True
      by (intro that [of rs']) (auto simp: rs'_def eraseNodeRing_def forget_def members_def
        ring_ok_def Let_def)
  next
    case (Cons x xs)
    then show ?thesis
      using assms d l True
      by (intro that [of rs']) (auto simp: rs'_def eraseNodeRing_def forget_def members_def
        ring_ok_def Let_def)
  qed
next
  case False
  then have s: "n \<in> set (secondaryRing rs i)" using assms(2) by (simp add: members_def)
  then obtain k where k: "length (secondaryRing rs i) = Suc k"
    by (metis length_pos_if_in_set gr0_implies_Suc)
  define rs' where "rs' = snd (eraseNodeRing n i rs)"
  show ?thesis
    using assms False s k
    by (intro that [of rs']) (auto simp: rs'_def eraseNodeRing_def forget_def members_def
      ring_ok_def length_remove1 distinct_remove1 set_remove1_eq)
qed


lemma ring_wf_frame:
  assumes "ring_wf F rs" "secondarySize rs' = secondarySize rs" "exponentBase rs' = exponentBase rs"
    and "sm_ok (nodeLatencyUS rs')" "sm_ok (rendvMapping rs')"
    and "\<And>i. ring_index i \<Longrightarrow> ring_ok rs' i"
    and "\<And>i n. ring_index i \<Longrightarrow> n \<in> set (members rs' i) \<longleftrightarrow>
      (\<exists>l. sm_find (nodeLatencyUS rs') n = Some l \<and> getRingNumber F rs l = i)"
  shows "ring_wf F rs'"
  using assms getRingNumber_cong [of rs' rs F] by (simp add: ring_wf_def)

text \<open>\<open>shrinks n rs rs'\<close>: the member \<open>n\<close> and nothing else has gone.\<close>

definition shrinks :: "NodeIdent \<Rightarrow> RingSet \<Rightarrow> RingSet \<Rightarrow> bool" where
  "shrinks n rs rs' \<longleftrightarrow>
     ringFrozen rs' = ringFrozen rs \<and> primarySize rs' = primarySize rs \<and>
     secondarySize rs' = secondarySize rs \<and> exponentBase rs' = exponentBase rs \<and>
     nodeLatencyUS rs' = sm_erase n (nodeLatencyUS rs) \<and>
     rendvMapping rs' = sm_erase n (rendvMapping rs) \<and> rs_stale rs' = rs_stale rs"

lemma eraseNodeRing_wf:
  assumes wf: "ring_wf F rs" and n: "sm_find (nodeLatencyUS rs) n = Some l"
    and "\<not> ringFrozen rs (getRingNumber F rs l)"
  obtains rs' where "eraseNodeRing n (getRingNumber F rs l) rs = (0, rs')"
    "ring_wf F rs'" "shrinks n rs rs'"
    "\<And>j. j \<noteq> getRingNumber F rs l \<Longrightarrow> members rs' j = members rs j"
    "length (members rs' (getRingNumber F rs l)) = length (members rs (getRingNumber F rs l)) - 1"
proof -
  let ?i = "getRingNumber F rs l"
  have i: "ring_index ?i" by (rule getRingNumber_range)
  obtain rs' where e: "eraseNodeRing n ?i rs = (0, rs')" "ring_ok rs' ?i"
    "set (members rs' ?i) = set (members rs ?i) - {n}"
    "length (members rs' ?i) = length (members rs ?i) - 1"
    "nodeLatencyUS rs' = sm_erase n (nodeLatencyUS rs)"
    "rendvMapping rs' = sm_erase n (rendvMapping rs)"
    using eraseNodeRing_member [OF assms(3) ring_wfD(2) [OF wf n] ring_wfD(1) [OF wf i]] by blast
  note f = eraseNodeRing_frame [OF e(1)]
  have "ring_wf F rs'"
  proof (rule ring_wf_frame [OF wf])
    fix j assume j: "ring_index j"
    show "ring_ok rs' j" using e(2) f(6) ring_wfD(1) [OF wf j] by (cases "j = ?i") simp_all
    fix m
    have "m \<in> set (members rs' j) \<longleftrightarrow> m \<in> set (members rs j) \<and> m \<noteq> n"
      using e(3) f(5) [of j] n ring_wfD(3) [OF wf j, of n] by (cases "j = ?i") auto
    with wf j show "m \<in> set (members rs' j) \<longleftrightarrow>
        (\<exists>l. sm_find (nodeLatencyUS rs') m = Some l \<and> getRingNumber F rs l = j)"
      by (auto simp: ring_wf_def e(5))
  qed (use wf f e in \<open>simp_all add: ring_wf_def\<close>)
  moreover have "shrinks n rs rs'" using f e by (simp add: shrinks_def)
  ultimately show ?thesis using that e f(5) by blast
qed

text \<open>Putting a node that is in no ring at the end of a list with room.\<close>

lemma append_wf:
  assumes wf: "ring_wf F rs" and n: "sm_find (nodeLatencyUS rs) n = None"
    and i: "i = getRingNumber F rs l"
    and rs': "rs' = rs\<lparr>primaryRing := (primaryRing rs)(i := ps),
        secondaryRing := (secondaryRing rs)(i := ss),
        nodeLatencyUS := sm_upd n l (nodeLatencyUS rs)\<rparr>"
    and ps: "ps = primaryRing rs i @ [n] \<and> ss = secondaryRing rs i \<and>
          length (primaryRing rs i) < unat (primarySize rs) \<or>
        ps = primaryRing rs i \<and> ss = secondaryRing rs i @ [n] \<and>
          \<not> length (primaryRing rs i) < unat (primarySize rs) \<and>
          length (secondaryRing rs i) < unat (secondarySize rs)"
  shows "ring_wf F rs'"
proof (rule ring_wf_frame [OF wf])
  have r: "ring_index i" unfolding i by (rule getRingNumber_range)
  have fresh: "n \<notin> set (members rs j)" if "ring_index j" for j
    using ring_wfD(3) [OF wf that, of n] n by auto
  fix j assume j: "ring_index j"
  show "ring_ok rs' j"
    using ring_wfD(1) [OF wf j] fresh [OF j] ps
    by (cases "j = i") (auto simp: ring_ok_def rs' members_def)
  fix m
  have "m \<in> set (members rs' j) \<longleftrightarrow> m \<in> set (members rs j) \<or> m = n \<and> j = i"
    using ps by (cases "j = i") (auto simp: rs' members_def)
  with wf j n i r show "m \<in> set (members rs' j) \<longleftrightarrow>
      (\<exists>l. sm_find (nodeLatencyUS rs') m = Some l \<and> getRingNumber F rs l = j)"
    by (auto simp: ring_wf_def rs')
qed (use wf in \<open>simp_all add: ring_wf_def rs'\<close>)

lemma pushNode_wf:
  assumes wf: "ring_wf F rs" and n: "sm_find (nodeLatencyUS rs) n = None"
    and i: "i = getRingNumber F rs l" and nf: "\<not> ringFrozen rs i"
  obtains rs' where "pushNode n l i rs = Some (0, rs')" "ring_wf F rs'"
    "ringFrozen rs' = ringFrozen rs"
    "\<And>m. sm_find (nodeLatencyUS rs') m =
      (if m = n then Some l else if victim rs i = Some m then None
       else sm_find (nodeLatencyUS rs) m)"
    "\<And>m. sm_find (rendvMapping rs') m =
      (if victim rs i = Some m then None else sm_find (rendvMapping rs) m)"
    "rs_stale rs' \<longleftrightarrow> rs_stale rs \<or> victim rs i \<noteq> None"
proof -
  have r: "ring_index i" unfolding i by (rule getRingNumber_range)
  have sz: "0 < unat (secondarySize rs)"
    using wf by (simp add: ring_wf_def word_less_nat_alt)
  consider (primary) "length (primaryRing rs i) < unat (primarySize rs)"
    | (secondary) "\<not> length (primaryRing rs i) < unat (primarySize rs)"
        "length (secondaryRing rs i) < unat (secondarySize rs)"
    | (evict) "\<not> length (primaryRing rs i) < unat (primarySize rs)"
        "\<not> length (secondaryRing rs i) < unat (secondarySize rs)"
    by blast
  then show ?thesis
  proof cases
    case primary
    define rs' where "rs' = rs\<lparr>primaryRing := (primaryRing rs)(i := primaryRing rs i @ [n]),
      secondaryRing := (secondaryRing rs)(i := secondaryRing rs i),
      nodeLatencyUS := sm_upd n l (nodeLatencyUS rs)\<rparr>"
    have "ring_wf F rs'"
      by (rule append_wf [OF wf n i rs'_def]) (use primary in simp)
    then show ?thesis
      using primary by (intro that [of rs']) (simp_all add: pushNode_def rs'_def victim_def)
  next
    case secondary
    define rs' where "rs' = rs\<lparr>primaryRing := (primaryRing rs)(i := primaryRing rs i),
      secondaryRing := (secondaryRing rs)(i := secondaryRing rs i @ [n]),
      nodeLatencyUS := sm_upd n l (nodeLatencyUS rs)\<rparr>"
    have "ring_wf F rs'"
      by (rule append_wf [OF wf n i rs'_def]) (use secondary in simp)
    then show ?thesis
      using secondary by (intro that [of rs']) (simp_all add: pushNode_def rs'_def victim_def)
  next
    case evict
    then obtain v vs where s: "secondaryRing rs i = v # vs" using sz by (cases "secondaryRing rs i") auto
    then obtain lv where lv: "sm_find (nodeLatencyUS rs) v = Some lv" "getRingNumber F rs lv = i"
      using ring_wfD(3) [OF wf r, of v] by (auto simp: members_def)
    have vp: "v \<notin> set (primaryRing rs i)"
      using ring_wfD(1) [OF wf r] s by (simp add: ring_ok_def members_def)
    obtain q where q: "eraseNodeRing v i rs = (0, q)" "ring_wf F q" "shrinks v rs q"
      using eraseNodeRing_wf [OF wf lv(1)] nf lv(2) by metis
    have qr: "primaryRing q i = primaryRing rs i" "secondaryRing q i = vs"
      using q(1) nf vp s by (auto simp: eraseNodeRing_def forget_def)
    define q' where "q' = q\<lparr>rs_stale := True\<rparr>"
    have nq: "sm_find (nodeLatencyUS q') n = None" "i = getRingNumber F q' l" "ring_wf F q'"
      using q(2,3) n i getRingNumber_cong [of q rs] by (simp_all add: shrinks_def q'_def)
    define rs' where "rs' = q'\<lparr>primaryRing := (primaryRing q')(i := primaryRing q' i),
      secondaryRing := (secondaryRing q')(i := secondaryRing q' i @ [n]),
      nodeLatencyUS := sm_upd n l (nodeLatencyUS q')\<rparr>"
    have sl: "length (secondaryRing rs i) \<le> unat (secondarySize rs)"
      using ring_wfD(1) [OF wf r] by (simp add: ring_ok_def)
    have "ring_wf F rs'"
      by (rule append_wf [OF nq(3,1,2) rs'_def])
        (use evict qr s q(3) sl in \<open>simp add: shrinks_def q'_def\<close>)
    moreover have "rs' = q\<lparr>rs_stale := True,
      secondaryRing := (secondaryRing q)(i := secondaryRing q i @ [n]),
      nodeLatencyUS := sm_upd n l (nodeLatencyUS q)\<rparr>"
      by (simp add: rs'_def q'_def)
    ultimately show ?thesis
      using evict q s nf
      by (intro that [of rs']) (simp_all add: pushNode_def evictFront_def victim_def shrinks_def Let_def)
  qed
qed


subsection \<open>The public operations\<close>

text \<open>\<open>erase_contract F n rs r\<close>: what \<^verbatim>\<open>eraseNode\<close> promises for a member and for a stranger.\<close>

lemma eraseNode_wf:
  assumes wf: "ring_wf F rs"
  obtains ret rs' where "eraseNode F n rs = Some (ret, rs')" "ring_wf F rs'"
    "ret = (if sm_find (nodeLatencyUS rs) n = None then -1 else 0)"
    "\<And>m. sm_find (nodeLatencyUS rs') m =
      (if m = n \<and> (\<exists>l. sm_find (nodeLatencyUS rs) n = Some l \<and>
                      \<not> ringFrozen rs (getRingNumber F rs l))
       then None else sm_find (nodeLatencyUS rs) m)"
    "\<And>m. sm_find (rendvMapping rs') m =
      (if m = n \<and> (\<exists>l. sm_find (nodeLatencyUS rs) n = Some l \<and>
                      \<not> ringFrozen rs (getRingNumber F rs l))
       then None else sm_find (rendvMapping rs) m)"
    "rs_stale rs' = rs_stale rs"
proof (cases "sm_find (nodeLatencyUS rs) n")
  case None
  then show ?thesis using wf by (intro that [of "-1" rs]) (simp_all add: eraseNode_def)
next
  case (Some l)
  show ?thesis
  proof (cases "ringFrozen rs (getRingNumber F rs l)")
    case True
    then show ?thesis
      using wf Some by (intro that [of 0 rs]) (simp_all add: eraseNode_def eraseNodeRing_def)
  next
    case False
    obtain rs' where "eraseNodeRing n (getRingNumber F rs l) rs = (0, rs')" "ring_wf F rs'"
      "shrinks n rs rs'"
      using eraseNodeRing_wf [OF wf Some False] by blast
    then show ?thesis
      using Some False by (intro that [of 0 rs']) (simp_all add: eraseNode_def shrinks_def)
  qed
qed

text \<open>
  Whether an insertion is refused because of a frozen ring, and whom it evicts: the oldest
  member of the secondary list of a full target ring, unless the node is already in that ring.
\<close>

definition insert_blocked :: "fpu \<Rightarrow> RingSet \<Rightarrow> NodeIdent \<Rightarrow> u32 \<Rightarrow> bool" where
  "insert_blocked F rs n l \<longleftrightarrow> ringFrozen rs (getRingNumber F rs l) \<or>
     (\<exists>p. sm_find (nodeLatencyUS rs) n = Some p \<and>
          getRingNumber F rs p \<noteq> getRingNumber F rs l \<and>
          ringFrozen rs (getRingNumber F rs p))"

definition insert_victim :: "fpu \<Rightarrow> RingSet \<Rightarrow> NodeIdent \<Rightarrow> u32 \<Rightarrow> NodeIdent option" where
  "insert_victim F rs n l =
     (if insert_blocked F rs n l \<or> n \<in> set (members rs (getRingNumber F rs l)) then None
      else victim rs (getRingNumber F rs l))"

lemma storeRendv_sel [simp]:
  "primaryRing (storeRendv n r rs) = primaryRing rs"
  "secondaryRing (storeRendv n r rs) = secondaryRing rs"
  "ringFrozen (storeRendv n r rs) = ringFrozen rs"
  "primarySize (storeRendv n r rs) = primarySize rs"
  "secondarySize (storeRendv n r rs) = secondarySize rs"
  "exponentBase (storeRendv n r rs) = exponentBase rs"
  "rs_stale (storeRendv n r rs) = rs_stale rs"
  "nodeLatencyUS (storeRendv n r rs) = nodeLatencyUS rs"
  "members (storeRendv n r rs) = members rs"
  "ring_ok (storeRendv n r rs) = ring_ok rs"
  by (simp_all add: storeRendv_def members_def ring_ok_def fun_eq_iff)

lemma ring_wf_storeRendv [simp]: "ring_wf F rs \<Longrightarrow> ring_wf F (storeRendv n r rs)"
  by (rule ring_wf_frame [of F rs]) (simp_all add: ring_wf_def, simp add: storeRendv_def)

lemma getRingNumber_storeRendv [simp]:
  "getRingNumber F (storeRendv n r rs) = getRingNumber F rs"
  by (rule ext, rule getRingNumber_cong) simp

lemma update_latency_wf:
  assumes "ring_wf F rs" "sm_find (nodeLatencyUS rs) n = Some p"
    and "getRingNumber F rs p = getRingNumber F rs l"
  shows "ring_wf F (rs\<lparr>nodeLatencyUS := sm_upd n l (nodeLatencyUS rs)\<rparr>)"
proof (rule ring_wf_frame [OF assms(1)])
  fix i m assume "ring_index i"
  with assms show "m \<in> set (members (rs\<lparr>nodeLatencyUS := sm_upd n l (nodeLatencyUS rs)\<rparr>) i)
      \<longleftrightarrow> (\<exists>la. sm_find (nodeLatencyUS (rs\<lparr>nodeLatencyUS := sm_upd n l (nodeLatencyUS rs)\<rparr>)) m
              = Some la \<and> getRingNumber F rs la = i)"
    by (auto simp: ring_wf_def members_def)
qed (use assms(1) in \<open>simp_all add: ring_wf_def ring_ok_def members_def\<close>)

text \<open>The contract of \<^verbatim>\<open>insertNode\<close>: it never trips an assertion and keeps the invariant.\<close>

lemma insertNodeRendv_wf:
  assumes wf: "ring_wf F rs"
  obtains rs' where "insertNodeRendv F n l rend rs = Some (0, rs')" "ring_wf F rs'"
    "\<And>m. sm_find (nodeLatencyUS rs') m =
      (if insert_blocked F rs n l then sm_find (nodeLatencyUS rs) m
       else if m = n then Some l
       else if insert_victim F rs n l = Some m then None
       else sm_find (nodeLatencyUS rs) m)"
    "\<And>m. m \<noteq> n \<Longrightarrow> sm_find (rendvMapping rs') m =
      (if insert_victim F rs n l = Some m then None else sm_find (rendvMapping rs) m)"
    "rs_stale rs' \<longleftrightarrow> rs_stale rs \<or> insert_victim F rs n l \<noteq> None"
proof -
  define q where "q = storeRendv n rend rs"
  let ?i = "getRingNumber F rs l"
  have q: "ring_wf F q" "nodeLatencyUS q = nodeLatencyUS rs" "ringFrozen q = ringFrozen rs"
    "getRingNumber F q = getRingNumber F rs" "members q = members rs" "victim q = victim rs"
    "rs_stale q = rs_stale rs"
    using wf by (simp_all add: q_def victim_def fun_eq_iff)
  have qr: "m \<noteq> n \<Longrightarrow> sm_find (rendvMapping q) m = sm_find (rendvMapping rs) m" for m
    by (simp add: q_def storeRendv_def)
  note ins = insertNodeRendv_def Let_def q_def [symmetric]
  have stranger: "n \<notin> set (members rs ?i)" if "sm_find (nodeLatencyUS rs) n = None"
    using ring_wfD(3) [OF wf getRingNumber_range [of F rs l], of n] that by auto
  show ?thesis
  proof (cases "ringFrozen rs ?i")
    case True
    then show ?thesis
      using q qr by (intro that [of q]) (simp_all add: ins insert_blocked_def insert_victim_def)
  next
    case nf: False
    show ?thesis
    proof (cases "sm_find (nodeLatencyUS rs) n")
      case None
      have "sm_find (nodeLatencyUS q) n = None" "?i = getRingNumber F q l" "\<not> ringFrozen q ?i"
        using None nf q by simp_all
      note push = pushNode_wf [OF q(1) this]
      obtain rs' where "pushNode n l ?i q = Some (0, rs')" "ring_wf F rs'"
        "ringFrozen rs' = ringFrozen q"
        "\<And>m. sm_find (nodeLatencyUS rs') m =
          (if m = n then Some l else if victim q ?i = Some m then None
           else sm_find (nodeLatencyUS q) m)"
        "\<And>m. sm_find (rendvMapping rs') m =
          (if victim q ?i = Some m then None else sm_find (rendvMapping q) m)"
        "rs_stale rs' \<longleftrightarrow> rs_stale q \<or> victim q ?i \<noteq> None"
        by (rule push) (rule that; assumption)
      then show ?thesis
        using None nf q qr stranger
        by (intro that [of rs']) (simp_all add: ins insert_blocked_def insert_victim_def)
    next
      case (Some p)
      let ?j = "getRingNumber F rs p"
      show ?thesis
      proof (cases "?j = ?i")
        case True
        then have "n \<in> set (members rs ?i)" using ring_wfD(2) [OF wf Some] by simp
        then show ?thesis
          using Some True nf q qr update_latency_wf [OF q(1), of n p l]
          by (intro that [of "q\<lparr>nodeLatencyUS := sm_upd n l (nodeLatencyUS q)\<rparr>"])
            (simp_all add: ins insert_blocked_def insert_victim_def)
      next
        case ne: False
        show ?thesis
        proof (cases "ringFrozen rs ?j")
          case True
          then show ?thesis
            using Some ne nf q qr
            by (intro that [of q]) (simp_all add: ins insert_blocked_def insert_victim_def)
        next
          case False
          obtain r where r: "eraseNodeRing n ?j q = (0, r)" "ring_wf F r" "shrinks n q r"
            "members r ?i = members q ?i" 
            using eraseNodeRing_wf [OF q(1), of n p] Some False q ne by metis
          have rg: "getRingNumber F r = getRingNumber F rs"
            using r(3) q(4) getRingNumber_cong [of r q F] by (simp add: shrinks_def fun_eq_iff)
          have out: "n \<notin> set (members rs ?i)"
            using ring_wfD(3) [OF wf getRingNumber_range [of F rs l], of n] Some ne by auto
          have v: "victim r ?i = victim rs ?i"
            using eraseNodeRing_frame(7) [OF r(1), of ?i] ne q(6) by simp
          have "sm_find (nodeLatencyUS r) n = None" "?i = getRingNumber F r l" "\<not> ringFrozen r ?i"
            using nf r(3) rg q by (simp_all add: shrinks_def)
          note push = pushNode_wf [OF r(2) this]
          obtain rs' where "pushNode n l ?i r = Some (0, rs')" "ring_wf F rs'"
            "ringFrozen rs' = ringFrozen r"
            "\<And>m. sm_find (nodeLatencyUS rs') m =
              (if m = n then Some l else if victim r ?i = Some m then None
               else sm_find (nodeLatencyUS r) m)"
            "\<And>m. sm_find (rendvMapping rs') m =
              (if victim r ?i = Some m then None else sm_find (rendvMapping r) m)"
            "rs_stale rs' \<longleftrightarrow> rs_stale r \<or> victim r ?i \<noteq> None"
            by (rule push) (rule that; assumption)
          then show ?thesis
            using Some ne nf q qr r out v False
            by (intro that [of rs']) (simp_all add: ins insert_blocked_def insert_victim_def
              shrinks_def)
        qed
      qed
    qed
  qed
qed


text \<open>
  A node that changes rings loses the rendezvous node on file: the mapping is stored first and
  then goes with the erasure from the old ring.
\<close>

lemma pushNode_rendv:
  assumes "pushNode n l i rs = Some (0, rs')" "sm_find (rendvMapping rs) n = None"
  shows "sm_find (rendvMapping rs') n = None"
proof -
  have e: "sm_find (rendvMapping r) n = None"
    if "eraseNodeRing v i rs = (ret, r)" for v ret r
    using that assms(2) by (auto simp: eraseNodeRing_def forget_def Let_def split: if_splits)
  show ?thesis
    using assms by (auto simp: pushNode_def evictFront_def Let_def split: if_splits list.splits
      prod.splits dest!: e)
qed

lemma insertNodeRendv_moves:
  assumes wf: "ring_wf F rs" and p: "sm_find (nodeLatencyUS rs) n = Some p"
    and ne: "getRingNumber F rs p \<noteq> getRingNumber F rs l"
    and nb: "\<not> insert_blocked F rs n l"
    and ins: "insertNodeRendv F n l rend rs = Some (0, rs')"
  shows "rendvLookup rs' n = None"
proof -
  define q where "q = storeRendv n rend rs"
  have q: "ring_wf F q" "sm_find (nodeLatencyUS q) n = Some p"
    "getRingNumber F q = getRingNumber F rs" "ringFrozen q = ringFrozen rs"
    using wf p by (simp_all add: q_def)
  have nf: "\<not> ringFrozen q (getRingNumber F q p)" "\<not> ringFrozen rs (getRingNumber F rs l)"
    using nb p ne q by (auto simp: insert_blocked_def)
  obtain r where r: "eraseNodeRing n (getRingNumber F q p) q = (0, r)" "shrinks n q r"
    using eraseNodeRing_wf [OF q(1,2) nf(1)] by metis
  have "pushNode n l (getRingNumber F rs l) r = Some (0, rs')"
    using ins p ne nf r(1) q
    by (simp add: insertNodeRendv_def Let_def q_def [symmetric])
  moreover have "sm_find (rendvMapping r) n = None" using r(2) by (simp add: shrinks_def)
  ultimately show ?thesis using pushNode_rendv by (simp add: rendvLookup_def)
qed

end
