(* ===== verification/Ring_Queries.thy ===== *)
theory Ring_Queries
  imports Ring_Ops
begin

text \<open>
  RingSet.h: the operations that read the rings (\<^verbatim>\<open>membersDump\<close>, \<^verbatim>\<open>fillVector\<close>,
  \<^verbatim>\<open>getRandomNodes\<close>) and the two that rearrange one ring for the replacement manager
  (\<^verbatim>\<open>eligibleForReplacement\<close>, \<^verbatim>\<open>setRingMembers\<close>).
\<close>

subsection \<open>Eligibility and the swap\<close>

definition behindRendv :: "RingSet \<Rightarrow> NodeIdent \<Rightarrow> bool" where
  "behindRendv rs n \<longleftrightarrow> rendvLookup rs n \<noteq> None"

function nextDirect :: "('a \<Rightarrow> bool) \<Rightarrow> 'a list \<Rightarrow> nat \<Rightarrow> nat" where
  "nextDirect R sec j =
     (if j < length sec then if R (sec ! j) then nextDirect R sec (Suc j) else j else j)"
  by pat_completeness auto
termination by (relation "measure (\<lambda>(R, sec, j). length sec - j)") auto

declare nextDirect.simps [simp del]

definition swapStep :: "('a \<Rightarrow> bool) \<Rightarrow> nat \<Rightarrow> 'a list \<times> 'a list \<times> nat
    \<Rightarrow> 'a list \<times> 'a list \<times> nat" where
  "swapStep R i st =
     (case st of (prim, sec, j) \<Rightarrow>
       if R (prim ! i) then
         let j = nextDirect R sec j in
         if j < length sec then (prim[i := sec ! j], sec[j := prim ! i], Suc j)
         else (prim, sec, j)
       else (prim, sec, j))"

definition swapEligible :: "('a \<Rightarrow> bool) \<Rightarrow> 'a list \<Rightarrow> 'a list \<Rightarrow> 'a list \<times> 'a list" where
  "swapEligible R prim sec =
     (case fold (swapStep R) [0..<length prim] (prim, sec, 0) of (prim, sec, _) \<Rightarrow> (prim, sec))"

definition numEligible :: "RingSet \<Rightarrow> int \<Rightarrow> nat" where
  "numEligible rs ringNum =
     length (filter (\<lambda>n. \<not> behindRendv rs n) (primaryRing rs ringNum)) +
     length (filter (\<lambda>n. \<not> behindRendv rs n) (secondaryRing rs ringNum))"

definition eligibleForReplacement :: "int \<Rightarrow> RingSet \<Rightarrow> bool \<times> RingSet" where
  "eligibleForReplacement ringNum rs =
     (if ringFrozen rs ringNum then (False, rs)
      else if ringNum \<ge> MAX_NUM_RINGS then (False, rs)
      else if isPrimRingFull rs ringNum \<and> \<not> isSecondRingEmpty rs ringNum then
        if numEligible rs ringNum > unat (primarySize rs) then (True, rs)
        else if numEligible rs ringNum = unat (primarySize rs) then
          (case swapEligible (behindRendv rs) (primaryRing rs ringNum) (secondaryRing rs ringNum)
           of (prim, sec) \<Rightarrow>
             (False, rs\<lparr>primaryRing := (primaryRing rs)(ringNum := prim),
                        secondaryRing := (secondaryRing rs)(ringNum := sec)\<rparr>))
        else (False, rs)
      else (False, rs))"

lemma nextDirect_props:
  "j \<le> nextDirect R sec j"
  "\<forall>k. j \<le> k \<longrightarrow> k < nextDirect R sec j \<longrightarrow> R (sec ! k)"
  "nextDirect R sec j < length sec \<Longrightarrow> \<not> R (sec ! nextDirect R sec j)"
  "j \<le> length sec \<Longrightarrow> nextDirect R sec j \<le> length sec"
proof (induction R sec j rule: nextDirect.induct)
  case (1 R sec j)
  have e: "nextDirect R sec j = (if j < length sec then if R (sec ! j)
      then nextDirect R sec (Suc j) else j else j)"
    by (rule nextDirect.simps)
  { case 1 then show ?case using "1.IH"(1) e by (auto split: if_splits) }
  { case 2 then show ?case using "1.IH"(2) e
      by (auto split: if_splits) (metis Suc_leI le_neq_implies_less) }
  { case 3 then show ?case using "1.IH"(3) e by (auto split: if_splits) }
  { case 4 then show ?case using "1.IH"(4) e by (auto split: if_splits) }
qed

lemma mset_swap_between:
  assumes "i < length xs" "j < length ys"
  shows "mset (xs[i := ys ! j]) + mset (ys[j := xs ! i]) = mset xs + mset ys"
proof -
  obtain A where A: "mset xs = add_mset (xs ! i) A"
    using assms(1) by (metis nth_mem_mset mset_add)
  obtain B where B: "mset ys = add_mset (ys ! j) B"
    using assms(2) by (metis nth_mem_mset mset_add)
  show ?thesis using assms by (simp add: mset_update A B)
qed

lemma swapStep_mset:
  assumes "swapStep R i (prim, sec, j) = (prim', sec', j')" "i < length prim"
  shows "mset prim' + mset sec' = mset prim + mset sec"
    "length prim' = length prim" "length sec' = length sec"
  using assms mset_swap_between by (auto simp: swapStep_def Let_def split: if_splits)

text \<open>The state of the outer loop after \<open>i\<close> rounds.\<close>

definition swap_inv :: "('a \<Rightarrow> bool) \<Rightarrow> 'a list \<Rightarrow> 'a list \<Rightarrow> nat
    \<Rightarrow> 'a list \<times> 'a list \<times> nat \<Rightarrow> bool" where
  "swap_inv R prim0 sec0 i st \<longleftrightarrow>
     (case st of (prim, sec, j) \<Rightarrow>
       mset prim + mset sec = mset prim0 + mset sec0 \<and>
       length prim = length prim0 \<and> length sec = length sec0 \<and>
       (\<forall>k < i. \<not> R (prim ! k)) \<and> (\<forall>k < j. k < length sec \<longrightarrow> R (sec ! k)))"

lemma swap_inv_step:
  assumes inv: "swap_inv R prim0 sec0 i st" and i: "i < length prim0"
    and count: "length (filter (\<lambda>n. \<not> R n) prim0) + length (filter (\<lambda>n. \<not> R n) sec0)
      = length prim0"
  shows "swap_inv R prim0 sec0 (Suc i) (swapStep R i st)"
proof -
  obtain prim sec j where st: "st = (prim, sec, j)" by (cases st)
  have I: "mset prim + mset sec = mset prim0 + mset sec0" "length prim = length prim0"
    "length sec = length sec0" "\<And>k. k < i \<Longrightarrow> \<not> R (prim ! k)"
    "\<And>k. k < j \<Longrightarrow> k < length sec \<Longrightarrow> R (sec ! k)"
    using inv by (simp_all add: swap_inv_def st)
  show ?thesis
  proof (cases "R (prim ! i)")
    case False
    then show ?thesis
      using I by (auto simp: swap_inv_def swapStep_def st less_Suc_eq)
  next
    case True
    define j' where "j' = nextDirect R sec j"
    note p = nextDirect_props [where j = j and R = R and sec = sec, folded j'_def]
    have found: "j' < length sec"
    proof (rule ccontr)
      assume "\<not> ?thesis"
      then have "R (sec ! k)" if "k < length sec" for k
        using that I(5) p(2) by (metis leI less_le_trans)
      then have none: "filter (\<lambda>n. \<not> R n) sec = []"
        by (auto simp: filter_empty_conv in_set_conv_nth)
      have "length (filter (\<lambda>n. \<not> R n) prim) < length prim"
        using True i I(2) by (metis length_filter_less nth_mem)
      moreover have "size (filter_mset (\<lambda>n. \<not> R n) (mset prim + mset sec)) = length prim0"
        unfolding I(1) using count by (simp flip: mset_filter size_mset)
      ultimately show False
        using none I(2) by (simp flip: mset_filter)
    qed
    have "mset (prim[i := sec ! j']) + mset (sec[j' := prim ! i]) = mset prim + mset sec"
      using found i I(2) by (intro mset_swap_between) simp_all
    moreover have "\<not> R (prim[i := sec ! j'] ! k)" if "k < Suc i" for k
      using that I p(3) found i by (cases "k = i") auto
    moreover have "R (sec[j' := prim ! i] ! k)" if "k < Suc j'" "k < length sec" for k
    proof (cases "k = j'")
      case False
      then have "k < j'" using that by simp
      then have "R (sec ! k)" using that(2) I(5) p(2) by (cases "k < j") auto
      then show ?thesis using False by simp
    qed (use found True in simp)
    ultimately show ?thesis
      using I found True by (simp add: swap_inv_def swapStep_def st Let_def flip: j'_def)
  qed
qed

lemma swapEligible_spec:
  assumes count: "length (filter (\<lambda>n. \<not> R n) prim) + length (filter (\<lambda>n. \<not> R n) sec)
      = length prim"
    and "swapEligible R prim sec = (prim', sec')"
  shows "mset prim' + mset sec' = mset prim + mset sec" "length prim' = length prim"
    "length sec' = length sec" "\<forall>n \<in> set prim'. \<not> R n" "\<forall>n \<in> set sec'. R n"
proof -
  have "swap_inv R prim sec i (fold (swapStep R) [0..<i] (prim, sec, 0))"
    if "i \<le> length prim" for i
    using that
  proof (induction i)
    case (Suc i)
    then have "swap_inv R prim sec i (fold (swapStep R) [0..<i] (prim, sec, 0))" by simp
    from swap_inv_step [OF this _ count] Suc.prems show ?case by simp
  qed (simp add: swap_inv_def)
  from this [OF order_refl] have I: "mset prim' + mset sec' = mset prim + mset sec"
      "length prim' = length prim" "length sec' = length sec" "\<forall>k < length prim. \<not> R (prim' ! k)"
    using assms(2) by (auto simp: swap_inv_def swapEligible_def split: prod.splits)
  then show "mset prim' + mset sec' = mset prim + mset sec" "length prim' = length prim"
    "length sec' = length sec" by simp_all
  show e: "\<forall>n \<in> set prim'. \<not> R n" using I by (metis in_set_conv_nth)
  have "size (filter_mset (\<lambda>n. \<not> R n) (mset prim' + mset sec')) = length prim'"
    unfolding I(1) using count I(2) by (simp flip: mset_filter size_mset)
  moreover have "filter (\<lambda>n. \<not> R n) prim' = prim'" using e by (simp add: filter_id_conv)
  ultimately have "filter (\<lambda>n. \<not> R n) sec' = []" by (simp flip: mset_filter)
  then show "\<forall>n \<in> set sec'. R n" by (simp add: filter_empty_conv)
qed


text \<open>A rearrangement of one ring keeps the invariant.\<close>

lemma rearrange_wf:
  assumes wf: "ring_wf F rs" and r: "ring_index i"
    and perm: "set (ps @ ss) = set (members rs i)" "distinct (ps @ ss)"
    and sizes: "length ps \<le> unat (primarySize rs)" "length ss \<le> unat (secondarySize rs)"
      "ss \<noteq> [] \<Longrightarrow> length ps = unat (primarySize rs)"
  shows "ring_wf F (rs\<lparr>primaryRing := (primaryRing rs)(i := ps),
    secondaryRing := (secondaryRing rs)(i := ss)\<rparr>)" (is "ring_wf F ?q")
proof (rule ring_wf_frame [OF wf])
  fix j assume j: "ring_index j"
  show "ring_ok ?q j"
    using ring_wfD(1) [OF wf j] perm sizes
    by (cases "j = i") (auto simp: ring_ok_def members_def)
  fix n
  have "set (members ?q j) = set (members rs j)"
    using perm(1) by (cases "j = i") (auto simp: members_def)
  with wf j show "n \<in> set (members ?q j) \<longleftrightarrow>
      (\<exists>l. sm_find (nodeLatencyUS ?q) n = Some l \<and> getRingNumber F rs l = j)"
    by (simp add: ring_wf_def)
qed (use wf in \<open>simp_all add: ring_wf_def\<close>)

lemma eligibleForReplacement_wf:
  assumes wf: "ring_wf F rs" and r: "ring_index i"
    and e: "eligibleForReplacement i rs = (b, rs')"
  shows "ring_wf F rs'" "mset (members rs' i) = mset (members rs i)"
    "b \<longleftrightarrow> \<not> ringFrozen rs i \<and> isPrimRingFull rs i \<and> secondaryRing rs i \<noteq> [] \<and>
      numEligible rs i > unat (primarySize rs)"
proof -
  let ?swap = "\<not> ringFrozen rs i \<and> isPrimRingFull rs i \<and> secondaryRing rs i \<noteq> [] \<and>
      numEligible rs i = unat (primarySize rs)"
  show b: "b \<longleftrightarrow> \<not> ringFrozen rs i \<and> isPrimRingFull rs i \<and> secondaryRing rs i \<noteq> [] \<and>
      numEligible rs i > unat (primarySize rs)"
    using e r by (auto simp: eligibleForReplacement_def isSecondRingEmpty_def
      split: if_splits prod.splits)
  have "ring_wf F rs' \<and> mset (members rs' i) = mset (members rs i)"
  proof (cases ?swap)
    case False
    then have "rs' = rs"
      using e r by (auto simp: eligibleForReplacement_def isSecondRingEmpty_def
        split: if_splits prod.splits)
    then show ?thesis using wf by simp
  next
    case True
    obtain ps ss where s: "swapEligible (behindRendv rs) (primaryRing rs i) (secondaryRing rs i)
        = (ps, ss)" by fastforce
    have rs': "rs' = rs\<lparr>primaryRing := (primaryRing rs)(i := ps),
        secondaryRing := (secondaryRing rs)(i := ss)\<rparr>"
      using e r True s by (auto simp: eligibleForReplacement_def isSecondRingEmpty_def
        split: if_splits prod.splits)
    have "length (primaryRing rs i) = numEligible rs i"
      using True by (simp add: isPrimRingFull_def)
    note sp = swapEligible_spec [OF this [unfolded numEligible_def, symmetric] s]
    have m: "mset (ps @ ss) = mset (members rs i)" using sp(1) by (simp add: members_def)
    have ok: "ring_ok rs i" by (rule ring_wfD(1) [OF wf r])
    have "set (ps @ ss) = set (members rs i)" "distinct (ps @ ss)"
      using m ok mset_eq_setD mset_eq_imp_distinct_iff by (metis ring_ok_def)+
    then have "ring_wf F rs'"
      unfolding rs' using ok sp(2,3) True
      by (intro rearrange_wf [OF wf r]) (auto simp: ring_ok_def isPrimRingFull_def)
    then show ?thesis using m by (simp add: rs' members_def)
  qed
  then show "ring_wf F rs'" "mset (members rs' i) = mset (members rs i)" by simp_all
qed

lemma eligible_swap:
  assumes r: "ring_index i" and e: "eligibleForReplacement i rs = (b, rs')"
    and c: "\<not> ringFrozen rs i" "isPrimRingFull rs i" "secondaryRing rs i \<noteq> []"
      "numEligible rs i = unat (primarySize rs)"
  shows "\<forall>n \<in> set (primaryRing rs' i). \<not> behindRendv rs n"
    "\<forall>n \<in> set (secondaryRing rs' i). behindRendv rs n"
proof -
  obtain ps ss where s: "swapEligible (behindRendv rs) (primaryRing rs i) (secondaryRing rs i)
      = (ps, ss)" by fastforce
  have rs': "primaryRing rs' i = ps" "secondaryRing rs' i = ss"
    using e r c s by (auto simp: eligibleForReplacement_def isSecondRingEmpty_def
      split: if_splits prod.splits)
  have "length (primaryRing rs i) = numEligible rs i"
    using c by (simp add: isPrimRingFull_def)
  from swapEligible_spec(4,5) [OF this [unfolded numEligible_def, symmetric] s]
  show "\<forall>n \<in> set (primaryRing rs' i). \<not> behindRendv rs n"
    "\<forall>n \<in> set (secondaryRing rs' i). behindRendv rs n"
    by (simp_all add: rs')
qed

subsection \<open>setRingMembers\<close>

definition setRingMembers :: "int \<Rightarrow> NodeIdent list \<Rightarrow> NodeIdent list \<Rightarrow> RingSet
    \<Rightarrow> int \<times> RingSet" where
  "setRingMembers ringNum primRing secondRing rs =
     (if ringNum < 0 \<or> ringNum \<ge> getNumberOfRings rs then (-1, rs)
      else if length primRing > unat (primarySize rs) \<or>
              length secondRing > unat (secondarySize rs) then (-1, rs)
      else
        let tmpSet = fold insort_insert (primaryRing rs ringNum @ secondaryRing rs ringNum) [] in
        if length primRing + length secondRing \<noteq> length tmpSet then (-1, rs)
        else if \<not> list_all (\<lambda>n. n \<in> set tmpSet) primRing then (-1, rs)
        else if \<not> list_all (\<lambda>n. n \<in> set tmpSet) secondRing then (-1, rs)
        else (0, rs\<lparr>primaryRing := (primaryRing rs)(ringNum := primRing),
                    secondaryRing := (secondaryRing rs)(ringNum := secondRing)\<rparr>))"

lemma fold_insort_insert:
  "set (fold insort_insert xs ys) = set xs \<union> set ys"
  "distinct ys \<Longrightarrow> distinct (fold insort_insert xs ys)"
  by (induction xs arbitrary: ys) (simp_all add: set_insort_insert distinct_insort_insert)

lemma setRingMembers_iff:
  assumes "ring_index i" "ring_ok rs i" "distinct (ps @ ss)"
  shows "fst (setRingMembers i ps ss rs) = 0 \<longleftrightarrow>
    length ps \<le> unat (primarySize rs) \<and> length ss \<le> unat (secondarySize rs) \<and>
    set (ps @ ss) = set (members rs i)"
proof -
  let ?t = "fold insort_insert (primaryRing rs i @ secondaryRing rs i) []"
  have t: "set ?t = set (members rs i)" "distinct ?t"
    using fold_insort_insert(1) [of "members rs i" "[]"]
      fold_insort_insert(2) [of "[]" "members rs i"] by (simp_all add: members_def)
  then have l: "length ?t = card (set (members rs i))" using distinct_card by metis
  have "set (ps @ ss) = set (members rs i) \<longleftrightarrow>
      length ps + length ss = card (set (members rs i)) \<and> set (ps @ ss) \<subseteq> set (members rs i)"
    using distinct_card [OF assms(3)]
    by (metis List.finite_set card_subset_eq length_append set_eq_subset)
  then show ?thesis
    using assms(1) unfolding setRingMembers_def Let_def t l
    by (auto simp: getNumberOfRings_def list_all_iff)
qed

lemma setRingMembers_wf:
  assumes wf: "ring_wf F rs" and d: "distinct (ps @ ss)"
    and full: "ss \<noteq> [] \<Longrightarrow> length ps = unat (primarySize rs)"
    and s: "setRingMembers i ps ss rs = (ret, rs')"
  shows "ring_wf F rs'"
proof (cases "ret = 0")
  case False
  then have "rs' = rs" using s by (auto simp: setRingMembers_def Let_def split: if_splits)
  then show ?thesis using wf by simp
next
  case True
  then have r: "ring_index i" and rs': "rs' = rs\<lparr>primaryRing := (primaryRing rs)(i := ps),
      secondaryRing := (secondaryRing rs)(i := ss)\<rparr>"
    using s by (auto simp: setRingMembers_def Let_def getNumberOfRings_def split: if_splits)
  show ?thesis
    unfolding rs'
    using setRingMembers_iff [OF r ring_wfD(1) [OF wf r] d] s True d full
    by (intro rearrange_wf [OF wf r]) auto
qed

subsection \<open>Reading the rings\<close>

definition membersDump :: "int \<Rightarrow> RingSet \<Rightarrow> NodeIdent list \<Rightarrow> int \<times> NodeIdent list" where
  "membersDump ringNum rs ringMembers =
     (if ringNum \<ge> MAX_NUM_RINGS then (-1, ringMembers)
      else (0, fold insort_insert (secondaryRing rs ringNum)
                 (fold insort_insert (primaryRing rs ringNum) ringMembers)))"

definition toRendv :: "RingSet \<Rightarrow> NodeIdent \<Rightarrow> NodeIdentRendv" where
  "toRendv rs cur =
     (case rendvLookup rs cur of
        None \<Rightarrow> \<lparr>addr = addr cur, port = port cur, addrRendv = 0, portRendv = 0\<rparr>
      | Some r \<Rightarrow> \<lparr>addr = addr cur, port = port cur, addrRendv = addr r,
                    portRendv = ucast (port r)\<rparr>)"

text \<open>\<^verbatim>\<open>rand()\<close> is the sequence \<open>rnds\<close>; the second component counts the draws.\<close>

definition getRandomNodes :: "(nat \<Rightarrow> nat) \<Rightarrow> RingSet \<Rightarrow> NodeIdentRendv list \<times> nat
    \<Rightarrow> NodeIdentRendv list \<times> nat" where
  "getRandomNodes rnds rs st =
     fold (\<lambda>i (randNodes, k).
        if length (primaryRing rs i) > 0 then
          let cur = primaryRing rs i ! (rnds k mod length (primaryRing rs i))
          in (randNodes @ [toRendv rs cur], Suc k)
        else (randNodes, k)) [0, 1, 2, 3, 4, 5, 6, 7, 8, 9] st"

text \<open>
  A beta ratio outside the open unit interval is replaced by one half; a NaN is not, because it
  compares false with everything.
\<close>

definition legalBeta :: "double \<Rightarrow> double" where
  "legalBeta betaRatio =
     (if d_le betaRatio (Fin 0) \<or> d_le (Fin 1) betaRatio then Fin (1 / 2) else betaRatio)"

definition fillBounds :: "fpu \<Rightarrow> u32 \<Rightarrow> u32 \<Rightarrow> double \<Rightarrow> u32 \<times> u32" where
  "fillBounds F minAvgUS maxAvgUS betaRatio =
     (let betaRatio = legalBeta betaRatio;
          upperBound = d_to_uint (d_ceil
            (d_mul F (d_add F (Fin 1) betaRatio) (d_uint maxAvgUS)));
          lowerBound = d_to_uint (d_floor
            (d_mul F (d_add F (Fin 1) (d_neg betaRatio)) (d_uint minAvgUS)))
      in if lowerBound > upperBound then (0, UINT_MAX) else (lowerBound, upperBound))"

definition fillStep :: "RingSet \<Rightarrow> u32 \<Rightarrow> u32 \<Rightarrow> NodeIdent \<Rightarrow> NodeIdentRendv list option
    \<Rightarrow> NodeIdentRendv list option" where
  "fillStep rs lowerBound upperBound n acc =
     (case acc of None \<Rightarrow> None | Some ringMembers \<Rightarrow>
        (case getNodeLatency rs n of
           None \<Rightarrow> None
         | Some cur \<Rightarrow>
             if cur \<le> upperBound \<and> cur \<ge> lowerBound
             then Some (insort_insert_key ident (toRendv rs n) ringMembers)
             else Some ringMembers))"

definition fillVector :: "fpu \<Rightarrow> RingSet \<Rightarrow> u32 \<Rightarrow> u32 \<Rightarrow> double \<Rightarrow> NodeIdentRendv list
    \<Rightarrow> NodeIdentRendv list option" where
  "fillVector F rs minAvgUS maxAvgUS betaRatio ringMembers =
     (case fillBounds F minAvgUS maxAvgUS betaRatio of (lowerBound, upperBound) \<Rightarrow>
      fold (fillStep rs lowerBound upperBound)
        (concat (map (primaryRing rs)
           [getRingNumber F rs lowerBound..getRingNumber F rs upperBound]))
        (Some ringMembers))"


lemma ident_toRendv [simp]: "ident (toRendv rs n) = n"
  by (simp add: toRendv_def ident_def split: option.split)

lemma set_insort_insert_key_ident:
  "ident ` set (insort_insert_key ident x xs) = insert (ident x) (ident ` set xs)"
  by (auto simp: insort_insert_key_def set_insort_key)

text \<open>The invariant makes the assertion of \<^verbatim>\<open>fillVector\<close> unreachable.\<close>

lemma fill_fold:
  assumes "\<forall>n \<in> set ns. getNodeLatency rs n \<noteq> None" "ks_ok ident ms"
  shows "\<exists>out. fold (fillStep rs lo hi) ns (Some ms) = Some out \<and> ks_ok ident out \<and>
      ident ` set out = ident ` set ms \<union>
        {n \<in> set ns. \<exists>l. getNodeLatency rs n = Some l \<and> lo \<le> l \<and> l \<le> hi} \<and>
      set out \<subseteq> set ms \<union> toRendv rs ` set ns"
  using assms
proof (induction ns arbitrary: ms)
  case (Cons n ns)
  then obtain l where l: "getNodeLatency rs n = Some l" by fastforce
  define ms' where "ms' = (if l \<le> hi \<and> lo \<le> l
    then insort_insert_key ident (toRendv rs n) ms else ms)"
  have step: "fold (fillStep rs lo hi) (n # ns) (Some ms) = fold (fillStep rs lo hi) ns (Some ms')"
    by (simp add: fillStep_def l ms'_def)
  have "ks_ok ident ms'" using Cons.prems by (simp add: ms'_def)
  moreover have "\<forall>n \<in> set ns. getNodeLatency rs n \<noteq> None" using Cons.prems by simp
  ultimately obtain out where out: "fold (fillStep rs lo hi) ns (Some ms') = Some out"
    "ks_ok ident out" "ident ` set out = ident ` set ms' \<union>
        {n \<in> set ns. \<exists>l. getNodeLatency rs n = Some l \<and> lo \<le> l \<and> l \<le> hi}"
    "set out \<subseteq> set ms' \<union> toRendv rs ` set ns"
    using Cons.IH [of ms'] by blast
  have "ident ` set ms' = ident ` set ms \<union>
      {m. m = n \<and> (\<exists>l. getNodeLatency rs m = Some l \<and> lo \<le> l \<and> l \<le> hi)}"
    using l by (auto simp: ms'_def set_insort_insert_key_ident)
  then have "ident ` set out = ident ` set ms \<union>
        {m \<in> set (n # ns). \<exists>l. getNodeLatency rs m = Some l \<and> lo \<le> l \<and> l \<le> hi}"
    unfolding out(3) by auto
  moreover have "set ms' \<subseteq> set ms \<union> {toRendv rs n}"
    by (auto simp: ms'_def insort_insert_key_def set_insort_key)
  then have "set out \<subseteq> set ms \<union> toRendv rs ` set (n # ns)" using out(4) by auto
  ultimately show ?case unfolding step using out(1,2) by blast
qed simp

definition inWindow :: "RingSet \<Rightarrow> u32 \<Rightarrow> u32 \<Rightarrow> NodeIdent \<Rightarrow> bool" where
  "inWindow rs lo hi n \<longleftrightarrow> (\<exists>l. getNodeLatency rs n = Some l \<and> lo \<le> l \<and> l \<le> hi)"

lemma fillVector_range:
  assumes wf: "ring_wf F rs" and ok: "ks_ok ident ms"
    and b: "fillBounds F mn mx beta = (lo, hi)"
  obtains out where "fillVector F rs mn mx beta ms = Some out" "ks_ok ident out"
    "ident ` set out = ident ` set ms \<union>
       {n. \<exists>i. getRingNumber F rs lo \<le> i \<and> i \<le> getRingNumber F rs hi \<and>
             n \<in> set (primaryRing rs i) \<and> inWindow rs lo hi n}"
    "set out \<subseteq> set ms \<union> range (toRendv rs)"
proof -
  define ns where "ns = concat (map (primaryRing rs)
    [getRingNumber F rs lo..getRingNumber F rs hi])"
  have known: "\<forall>n \<in> set ns. getNodeLatency rs n \<noteq> None"
  proof
    fix n assume "n \<in> set ns"
    then obtain i where i: "getRingNumber F rs lo \<le> i" "i \<le> getRingNumber F rs hi"
      "n \<in> set (primaryRing rs i)" by (auto simp: ns_def)
    have "ring_index i"
      using i getRingNumber_range [of F rs lo] getRingNumber_range [of F rs hi] by linarith
    from ring_wfD(3) [OF wf this, of n] i(3) show "getNodeLatency rs n \<noteq> None"
      by (auto simp: members_def getNodeLatency_def)
  qed
  have set_ns: "set ns = {n. \<exists>i. getRingNumber F rs lo \<le> i \<and> i \<le> getRingNumber F rs hi \<and>
      n \<in> set (primaryRing rs i)}"
    by (auto simp: ns_def)
  from fill_fold [OF known ok, of lo hi] obtain out where
    "fillVector F rs mn mx beta ms = Some out" "ks_ok ident out"
    "ident ` set out = ident ` set ms \<union> {n \<in> set ns. inWindow rs lo hi n}"
    "set out \<subseteq> set ms \<union> toRendv rs ` set ns"
    unfolding fillVector_def b prod.case ns_def [symmetric] inWindow_def by blast
  then show ?thesis by (intro that [of out]) (auto simp: set_ns)
qed

lemma ring_search_mono:
  assumes "1 \<le> b" "us \<le> us'"
  shows "ring_search b us \<le> ring_search b us'"
proof -
  let ?i = "ring_search b us'"
  have le: "?i \<le> 9" using ring_search_le [OF assms(1), of 9] by simp
  have "?i = 9 \<or> us' \<le> 1000 * b ^ ?i" using ring_search_le [OF assms(1) le, of us'] by simp
  then have "?i = 9 \<or> us \<le> 1000 * b ^ ?i" using assms(2) by linarith
  then show ?thesis using ring_search_le [OF assms(1) le, of us] by simp
qed

lemma getRingNumber_mono:
  assumes "2 \<le> unat (exponentBase rs)" "l \<le> l'"
  shows "getRingNumber ideal_fpu rs l \<le> getRingNumber ideal_fpu rs l'"
  using assms ring_search_mono by (simp add: getRingNumber_ideal word_le_nat_alt)

lemma fillVector_ideal:
  assumes wf: "ring_wf ideal_fpu rs" and base: "2 \<le> unat (exponentBase rs)"
    and ok: "ks_ok ident ms" and b: "fillBounds ideal_fpu mn mx beta = (lo, hi)"
  obtains out where "fillVector ideal_fpu rs mn mx beta ms = Some out" "ks_ok ident out"
    "ident ` set out = ident ` set ms \<union>
       {n. \<exists>i. ring_index i \<and> n \<in> set (primaryRing rs i) \<and> inWindow rs lo hi n}"
proof -
  obtain out where out: "fillVector ideal_fpu rs mn mx beta ms = Some out" "ks_ok ident out"
    "ident ` set out = ident ` set ms \<union>
       {n. \<exists>i. getRingNumber ideal_fpu rs lo \<le> i \<and> i \<le> getRingNumber ideal_fpu rs hi \<and>
             n \<in> set (primaryRing rs i) \<and> inWindow rs lo hi n}"
    "set out \<subseteq> set ms \<union> range (toRendv rs)"
    by (rule fillVector_range [OF wf ok b]) (rule that; assumption)
  have key: "getRingNumber ideal_fpu rs lo \<le> i \<and> i \<le> getRingNumber ideal_fpu rs hi \<and>
      n \<in> set (primaryRing rs i) \<and> inWindow rs lo hi n \<longleftrightarrow>
    ring_index i \<and> n \<in> set (primaryRing rs i) \<and> inWindow rs lo hi n"
    (is "?L \<longleftrightarrow> ?R") for n i
  proof
    assume ?L
    then show ?R
      using getRingNumber_range [of ideal_fpu rs lo] getRingNumber_range [of ideal_fpu rs hi]
      by (auto intro: order_trans le_less_trans)
  next
    assume R: ?R
    then obtain l where l: "sm_find (nodeLatencyUS rs) n = Some l"
      "getRingNumber ideal_fpu rs l = i"
      using ring_wfD(3) [OF wf, of i n] by (auto simp: members_def)
    with R have "lo \<le> l" "l \<le> hi" by (simp_all add: inWindow_def getNodeLatency_def)
    then show ?L using R getRingNumber_mono [OF base] l(2) by blast
  qed
  show ?thesis by (rule that [OF out(1,2)]) (simp only: out(3) key)
qed


lemma getRandomNodes_spec:
  assumes "getRandomNodes rnds rs (ms, k) = (out, k')"
  obtains xs where "out = ms @ map (toRendv rs) xs" "k' = k + length xs" "length xs \<le> 10"
    "\<forall>n \<in> set xs. \<exists>i. ring_index i \<and> n \<in> set (primaryRing rs i)"
    "length xs = length (filter (\<lambda>i. primaryRing rs i \<noteq> []) [0, 1, 2, 3, 4, 5, 6, 7, 8, 9])"
proof -
  let ?f = "\<lambda>i (randNodes, k).
        if length (primaryRing rs i) > 0 then
          let cur = primaryRing rs i ! (rnds k mod length (primaryRing rs i))
          in (randNodes @ [toRendv rs cur], Suc k)
        else (randNodes, k)"
  have step: "\<exists>xs. fold ?f is (ms, k) = (ms @ map (toRendv rs) xs, k + length xs) \<and>
      (\<forall>n \<in> set xs. \<exists>i \<in> set is. n \<in> set (primaryRing rs i)) \<and>
      length xs = length (filter (\<lambda>i. primaryRing rs i \<noteq> []) is)" for "is" ms k
  proof (induction "is" arbitrary: ms k)
    case (Cons i "is")
    show ?case
    proof (cases "primaryRing rs i")
      case Nil
      then show ?thesis using Cons.IH [of ms k] by auto
    next
      case (Cons a as)
      define cur where "cur = primaryRing rs i ! (rnds k mod length (primaryRing rs i))"
      have cur: "cur \<in> set (primaryRing rs i)"
        unfolding cur_def using Cons by (intro nth_mem mod_less_divisor) simp
      obtain xs where xs: "fold ?f is (ms @ [toRendv rs cur], Suc k) =
          ((ms @ [toRendv rs cur]) @ map (toRendv rs) xs, Suc k + length xs)"
        "\<forall>n \<in> set xs. \<exists>i \<in> set is. n \<in> set (primaryRing rs i)"
        "length xs = length (filter (\<lambda>i. primaryRing rs i \<noteq> []) is)"
        using Cons.IH by blast
      then show ?thesis
        using Cons cur by (intro exI [of _ "cur # xs"]) (auto simp: cur_def Let_def)
    qed
  qed simp
  have idx: "i \<in> set [0, 1, 2, 3, 4, 5, 6, 7, 8, 9] \<Longrightarrow> ring_index i" for i :: int
    by (auto simp: MAX_NUM_RINGS_def)
  from step [of "[0, 1, 2, 3, 4, 5, 6, 7, 8, 9]" ms k] obtain xs where
    "out = ms @ map (toRendv rs) xs" "k' = k + length xs"
    "\<forall>n \<in> set xs. \<exists>i \<in> set [0, 1, 2, 3, 4, 5, 6, 7, 8, 9]. n \<in> set (primaryRing rs i)"
    and len: "length xs = length (filter (\<lambda>i. primaryRing rs i \<noteq> []) [0, 1, 2, 3, 4, 5, 6, 7, 8, 9])"
    using assms unfolding getRandomNodes_def by auto
  moreover have "length xs \<le> 10"
    unfolding len using length_filter_le [of _ "[0, 1, 2, 3, 4, 5, 6, 7, 8, 9 :: int]"] by fastforce
  ultimately show ?thesis using that idx by blast
qed

subsection \<open>Reachable ring sets\<close>

text \<open>
  Any sequence of the public operations. \<^verbatim>\<open>setRingMembers\<close> takes whatever two lists it is given; the
  flag of \<open>ringReach\<close> says whether all of them were \<open>tidy\<close>: no node twice, and a full primary list if
  there is a secondary one. The lists the replacement manager hands over are (\<open>Engine_Rings\<close>).
\<close>

definition tidy :: "RingSet \<Rightarrow> NodeIdent list \<Rightarrow> NodeIdent list \<Rightarrow> bool" where
  "tidy rs ps ss \<longleftrightarrow> distinct (ps @ ss) \<and> (ss \<noteq> [] \<longrightarrow> length ps = unat (primarySize rs))"

inductive ringReach :: "fpu \<Rightarrow> bool \<Rightarrow> RingSet \<Rightarrow> bool" for F where
  start: "0 < s \<Longrightarrow> ringReach F True (newRingSet p s b)"
| insert_rendv: "ringReach F t rs \<Longrightarrow> insertNodeRendv F n l r rs = Some (ret, rs') \<Longrightarrow>
    ringReach F t rs'"
| insert: "ringReach F t rs \<Longrightarrow> insertNode F n l rs = Some (ret, rs') \<Longrightarrow> ringReach F t rs'"
| erase: "ringReach F t rs \<Longrightarrow> eraseNode F n rs = Some (ret, rs') \<Longrightarrow> ringReach F t rs'"
| freeze: "ringReach F t rs \<Longrightarrow> freezeRing i rs = (ret, rs') \<Longrightarrow> ringReach F t rs'"
| unfreeze: "ringReach F t rs \<Longrightarrow> unfreezeRing i rs = (ret, rs') \<Longrightarrow> ringReach F t rs'"
| eligible: "ringReach F t rs \<Longrightarrow> ring_index i \<Longrightarrow> eligibleForReplacement i rs = (b, rs') \<Longrightarrow>
    ringReach F t rs'"
| rearrange: "ringReach F t rs \<Longrightarrow> setRingMembers i ps ss rs = (ret, rs') \<Longrightarrow>
    ringReach F (t \<and> tidy rs ps ss) rs'"

lemma frozen_wf: "ring_wf F rs \<Longrightarrow> ring_wf F (rs\<lparr>ringFrozen := fr\<rparr>)"
  by (rule ring_wf_frame [of F rs]) (auto simp: ring_wf_def ring_ok_def members_def)

lemma insertNodeRendv_keeps:
  "ring_wf F rs \<Longrightarrow> insertNodeRendv F n l rend rs = Some (ret, rs') \<Longrightarrow> ring_wf F rs'"
  using insertNodeRendv_wf [of F rs n l rend] by (metis Pair_inject option.inject)

lemma insertNode_keeps:
  "ring_wf F rs \<Longrightarrow> insertNode F n l rs = Some (ret, rs') \<Longrightarrow> ring_wf F rs'"
  by (simp add: insertNode_def Let_def insertNodeRendv_keeps)

lemma ringReach_wf: "ringReach F t rs \<Longrightarrow> t \<Longrightarrow> ring_wf F rs"
proof (induction rule: ringReach.induct)
  case (erase t rs n ret rs')
  then show ?case
    using eraseNode_wf [of F rs n] by (metis Pair_inject option.inject)
next
  case (freeze t rs i ret rs')
  then show ?case by (auto simp: freezeRing_def frozen_wf split: if_splits)
next
  case (unfreeze t rs i ret rs')
  then show ?case by (auto simp: unfreezeRing_def frozen_wf split: if_splits)
next
  case (rearrange t rs i ps ss ret rs')
  then show ?case using setRingMembers_wf [of F rs ps ss i ret rs'] by (simp add: tidy_def)
qed (blast intro: ring_wf_new insertNodeRendv_keeps insertNode_keeps eligibleForReplacement_wf)+

text \<open>The bounds on the lists do not depend on what \<^verbatim>\<open>setRingMembers\<close> is given.\<close>

definition ring_sizes :: "RingSet \<Rightarrow> bool" where
  "ring_sizes rs \<longleftrightarrow> (\<forall>i. ring_index i \<longrightarrow>
     length (primaryRing rs i) \<le> unat (primarySize rs) \<and>
     length (secondaryRing rs i) \<le> unat (secondarySize rs))"

lemma eraseNodeRing_sizes:
  assumes "eraseNodeRing n i rs = (ret, rs')" "ring_sizes rs"
  shows "ring_sizes rs'"
proof -
  have p: "0 < length (primaryRing rs i)" if "n \<in> set (primaryRing rs i)"
    using that by (rule length_pos_if_in_set)
  have m: "length (primaryRing rs' j) \<le> length (primaryRing rs j)"
    "length (secondaryRing rs' j) \<le> length (secondaryRing rs j)" for j
    using assms(1) p
    by (auto simp: eraseNodeRing_def forget_def Let_def length_swap_remove length_remove1
        split: if_splits)
  show ?thesis
    unfolding ring_sizes_def eraseNodeRing_frame(2,3) [OF assms(1)]
    using assms(2) [unfolded ring_sizes_def] m order_trans by blast
qed

text \<open>Removing the first element of a secondary list makes room in it.\<close>

lemma evictFront_sizes:
  assumes "evictFront i rs = Some rs'" "ring_sizes rs" "\<not> ringFrozen rs i"
  shows "ring_sizes rs'" "length (secondaryRing rs' i) < length (secondaryRing rs i)"
    "primarySize rs' = primarySize rs" "secondarySize rs' = secondarySize rs"
proof -
  obtain v vs where v: "secondaryRing rs i = v # vs"
    using assms(1) by (cases "secondaryRing rs i") (auto simp: evictFront_def)
  obtain ret q where q: "eraseNodeRing v i rs = (ret, q)" by fastforce
  note f = eraseNodeRing_frame [OF q]
  have rs': "rs' = q\<lparr>rs_stale := True\<rparr>"
    using assms(1,3) v q f(1) by (auto simp: evictFront_def split: if_splits)
  show "ring_sizes rs'" using eraseNodeRing_sizes [OF q assms(2)] by (simp add: rs' ring_sizes_def)
  show "primarySize rs' = primarySize rs" "secondarySize rs' = secondarySize rs"
    using f by (simp_all add: rs')
  show "length (secondaryRing rs' i) < length (secondaryRing rs i)"
    using q assms(3) v by (auto simp: rs' eraseNodeRing_def forget_def Let_def split: if_splits)
qed

lemma pushNode_sizes:
  assumes "pushNode n l i rs = Some (ret, rs')" "ring_sizes rs" "\<not> ringFrozen rs i"
  shows "ring_sizes rs'"
proof (cases "length (primaryRing rs i) \<ge> unat (primarySize rs) \<and>
    length (secondaryRing rs i) \<ge> unat (secondarySize rs)")
  case True
  then obtain q where q: "evictFront i rs = Some q" "rs' = q\<lparr>secondaryRing :=
      (secondaryRing q)(i := secondaryRing q i @ [n]),
      nodeLatencyUS := sm_upd n l (nodeLatencyUS q)\<rparr>"
    using assms(1) by (auto simp: pushNode_def Let_def split: if_splits)
  show ?thesis
    using evictFront_sizes [OF q(1) assms(2,3)] True assms(2)
    by (auto simp: q(2) ring_sizes_def)
qed (use assms in \<open>auto simp: pushNode_def ring_sizes_def Let_def split: if_splits\<close>)

lemma insertNodeRendv_sizes:
  assumes ins: "insertNodeRendv F n l rend rs = Some (ret, rs')" and s: "ring_sizes rs"
  shows "ring_sizes rs'"
proof -
  define q where "q = storeRendv n rend rs"
  let ?i = "getRingNumber F q l"
  have q: "ring_sizes q" using s by (simp add: q_def ring_sizes_def)
  have push: "pushNode n l ?i r = Some (ret, rs') \<Longrightarrow> ring_sizes r \<Longrightarrow> ringFrozen r = ringFrozen q \<Longrightarrow>
      \<not> ringFrozen q ?i \<Longrightarrow> ring_sizes rs'" for r
    using pushNode_sizes by simp
  show ?thesis
  proof (cases "ringFrozen q ?i")
    case True
    then show ?thesis using ins q by (simp add: insertNodeRendv_def Let_def q_def [symmetric])
  next
    case nf: False
    show ?thesis
    proof (cases "sm_find (nodeLatencyUS q) n")
      case None
      then show ?thesis
        using ins q nf push by (simp add: insertNodeRendv_def Let_def q_def [symmetric])
    next
      case (Some p)
      obtain c r where r: "eraseNodeRing n (getRingNumber F q p) q = (c, r)" by fastforce
      have "ring_sizes r" "ringFrozen r = ringFrozen q"
        using eraseNodeRing_sizes [OF r q] eraseNodeRing_frame(1) [OF r] by simp_all
      then show ?thesis
        using ins q nf push [of r] Some r
        by (auto simp: insertNodeRendv_def Let_def q_def [symmetric] ring_sizes_def split: if_splits)
    qed
  qed
qed

lemma swapEligible_length:
  "swapEligible R ps ss = (ps', ss') \<Longrightarrow> length ps' = length ps \<and> length ss' = length ss"
proof -
  have "fold (swapStep R) is (ps, ss, j) = (ps', ss', j') \<Longrightarrow>
      length ps' = length ps \<and> length ss' = length ss" for "is" ps ss j j'
  proof (induction "is" arbitrary: ps ss j)
    case (Cons i "is")
    obtain a b k where k: "swapStep R i (ps, ss, j) = (a, b, k)" by (rule prod_cases3)
    then have "length a = length ps" "length b = length ss"
      by (auto simp: swapStep_def Let_def split: if_splits)
    then show ?case using Cons k by fastforce
  qed simp
  then show "swapEligible R ps ss = (ps', ss') \<Longrightarrow> length ps' = length ps \<and> length ss' = length ss"
    by (auto simp: swapEligible_def split: prod.splits)
qed

lemma ringReach_sizes: "ringReach F t rs \<Longrightarrow> ring_sizes rs"
proof (induction rule: ringReach.induct)
  case (insert_rendv t rs n l r ret rs')
  then show ?case by (blast intro: insertNodeRendv_sizes)
next
  case (insert t rs n l ret rs')
  then show ?case by (auto simp: insertNode_def Let_def intro: insertNodeRendv_sizes)
next
  case (erase t rs n ret rs')
  then show ?case
    by (auto simp: eraseNode_def Let_def intro: eraseNodeRing_sizes split: option.splits prod.splits
        if_splits)
next
  case (eligible t rs i b rs')
  then show ?case
    by (auto simp: eligibleForReplacement_def ring_sizes_def dest!: swapEligible_length
        split: if_splits prod.splits)
next
  case (rearrange t rs i ps ss ret rs')
  then show ?case
    by (auto simp: setRingMembers_def ring_sizes_def Let_def split: if_splits)
qed (auto simp: ring_sizes_def newRingSet_def freezeRing_def unfreezeRing_def split: if_splits)

end
