(* ===== verification/Tunnel.thy ===== *)
theory Tunnel
  imports Replies
begin

text \<open>
  Marshal.h, lines 1204-1329: tunnelling through a rendezvous node. A node behind a firewall
  receives its packets over a TCP stream from its rendezvous node. The sender wraps the packet
  in a PUSH header naming the destination; the rendezvous node rewrites it into a PULL frame
  that names the sender and the length (\<open>PushPacket_parse\<close>); the receiver takes one frame off the
  front of its stream buffer and moves the rest down (\<open>PullPacket_parse\<close>).
\<close>

record PullPacket = Packet +
  pl_srcIP :: u32
  pl_srcPort :: u16
  pl_payLoadSize :: u32

record PushPacket = Packet +
  pu_destIP :: u32
  pu_destPort :: u16

definition newPullPacket :: "u64 \<Rightarrow> u32 \<Rightarrow> u16 \<Rightarrow> u32 \<Rightarrow> PullPacket" where
  "newPullPacket qid in_src_ip in_src_port in_payLoadSize =
     (case to32 qid of (a, b) \<Rightarrow>
       \<lparr>req_id_1 = a, req_id_2 = b, pl_srcIP = in_src_ip, pl_srcPort = in_src_port,
        pl_payLoadSize = in_payLoadSize\<rparr>)"

definition PullPacket_createRealPacket :: "u32 \<Rightarrow> PullPacket \<Rightarrow> RealPacket
    \<Rightarrow> int \<times> RealPacket" where
  "PullPacket_createRealPacket magic pk inPacket =
     (let inPacket = append_char PULL inPacket;
          inPacket = write_id magic pk inPacket;
          inPacket = append_uint (htonl (pl_srcIP pk)) inPacket;
          inPacket = append_ushort (htons (pl_srcPort pk)) inPacket;
          inPacket = append_uint (htonl (pl_payLoadSize pk)) inPacket
      in packet_done inPacket)"

text \<open>The result, the stream buffer after the call, and the source node.\<close>

definition PullPacket_parse :: "u32 \<Rightarrow> RealPacket \<Rightarrow> NodeIdent
    \<Rightarrow> RealPacket option \<times> RealPacket \<times> NodeIdent" where
  "PullPacket_parse magic inPacket srcNode =
     (let rb = newBufferWrapper (getPayLoad inPacket) (rp_size inPacket) in
      case retrieve_char rb of (queryType, rb) \<Rightarrow>
      if bw_errorFlag rb \<or> queryType \<noteq> PULL then (None, inPacket, srcNode) else
      case retrieve_uint rb of (_, rb) \<Rightarrow>
      case retrieve_uint rb of (_, rb) \<Rightarrow>
      case get_uint rb of (magicNumber, rb) \<Rightarrow>
      case get_uint rb of (in_srcIP, rb) \<Rightarrow>
      case get_ushort rb of (in_srcPort, rb) \<Rightarrow>
      case get_uint rb of (in_payLoadSize, rb) \<Rightarrow>
      if bw_errorFlag rb \<or> magicNumber \<noteq> magic then (None, inPacket, srcNode) else
      if remainBufSize rb < in_payLoadSize then (None, inPacket, srcNode) else
      let newPacket = newRealPacket \<lparr>addr = 0, port = 0\<rparr> in_payLoadSize;
          srcNode = \<lparr>addr = in_srcIP, port = in_srcPort\<rparr>;
          newPacket = newPacket\<lparr>rp_packet := mem_write (rp_packet newPacket) 0
            (take (unat in_payLoadSize) (drop (unat (returnPos rb)) (rp_packet inPacket)))\<rparr>;
          newPacket = setPayLoadSize (c_int (uint in_payLoadSize)) newPacket;
          frame = returnPos rb + in_payLoadSize;
          left = word_of_int (rp_size inPacket) - frame;
          inPacket = (if remainBufSize rb > in_payLoadSize
            then setPayLoadSize (c_int (uint left))
              (inPacket\<lparr>rp_packet := mem_write (rp_packet inPacket) 0
                 (take (unat left) (drop (unat frame) (rp_packet inPacket)))\<rparr>)
            else setPayLoadSize 0 inPacket)
      in (Some newPacket, inPacket, srcNode))"

definition newPushPacket :: "u64 \<Rightarrow> u32 \<Rightarrow> u16 \<Rightarrow> PushPacket" where
  "newPushPacket qid in_dest_ip in_dest_port =
     (case to32 qid of (a, b) \<Rightarrow>
       \<lparr>req_id_1 = a, req_id_2 = b, pu_destIP = in_dest_ip, pu_destPort = in_dest_port\<rparr>)"

definition PushPacket_createRealPacket :: "u32 \<Rightarrow> PushPacket \<Rightarrow> RealPacket
    \<Rightarrow> int \<times> RealPacket" where
  "PushPacket_createRealPacket magic pk inPacket =
     (let inPacket = append_char PUSH inPacket;
          inPacket = write_id magic pk inPacket;
          inPacket = append_uint (htonl (pu_destIP pk)) inPacket;
          inPacket = append_ushort (htons (pu_destPort pk)) inPacket
      in packet_done inPacket)"

definition PushPacket_parse :: "u32 \<Rightarrow> NodeIdent \<Rightarrow> u8 list
    \<Rightarrow> RealPacket option \<times> BufferWrapper" where
  "PushPacket_parse magic remoteNode buf =
     (let rb = newBufferWrapper buf (int (length buf)) in
      case retrieve_char rb of (queryType, rb) \<Rightarrow>
      if bw_errorFlag rb \<or> queryType \<noteq> PUSH then (None, rb) else
      case retrieve_uint rb of (_, rb) \<Rightarrow>
      case retrieve_uint rb of (_, rb) \<Rightarrow>
      case get_uint rb of (magicNumber, rb) \<Rightarrow>
      case get_uint rb of (in_destIP, rb) \<Rightarrow>
      case get_ushort rb of (in_destPort, rb) \<Rightarrow>
      if bw_errorFlag rb \<or> magicNumber \<noteq> magic then (None, rb) else
      let retPacket = newRealPacket \<lparr>addr = in_destIP, port = in_destPort\<rparr> MAX_UDP_PACKET_SIZE;
          tmpPull = newPullPacket 0 (addr remoteNode) (port remoteNode) (remainBufSize rb) in
      case PullPacket_createRealPacket magic tmpPull retPacket of (ret, retPacket) \<Rightarrow>
      if ret = -1 then (None, rb) else
      let retPacket = append_str (drop (unat (returnPos rb)) buf)
            (c_int (uint (remainBufSize rb))) retPacket in
      if \<not> rp_complete retPacket then (None, rb) else (Some retPacket, rb))"

definition PullPacket_bytes :: "u32 \<Rightarrow> PullPacket \<Rightarrow> u8 list" where
  "PullPacket_bytes magic pk =
     [PULL] @ id_bytes magic pk @ net_uint (pl_srcIP pk) @ net_ushort (pl_srcPort pk) @
     net_uint (pl_payLoadSize pk)"

definition PushPacket_bytes :: "u32 \<Rightarrow> PushPacket \<Rightarrow> u8 list" where
  "PushPacket_bytes magic pk =
     [PUSH] @ id_bytes magic pk @ net_uint (pu_destIP pk) @ net_ushort (pu_destPort pk)"

lemma length_tunnel_bytes [simp]:
  "length (PullPacket_bytes magic pk) = 23" "length (PushPacket_bytes magic qk) = 19"
  by (simp_all add: PullPacket_bytes_def PushPacket_bytes_def)

interpretation pull_writer: packet_writer
  "PullPacket_createRealPacket magic" "PullPacket_bytes magic" "\<lambda>_. True" for magic
proof
  show "rp_ok p \<Longrightarrow> writes p (snd (PullPacket_createRealPacket magic a p))
      (PullPacket_bytes magic a)" for a p
    unfolding PullPacket_createRealPacket_def PullPacket_bytes_def packet_done_def Let_def
      snd_conv append_assoc [symmetric]
    by (intro writes_chain)
qed (simp add: PullPacket_createRealPacket_def packet_done_def Let_def)

interpretation push_writer: packet_writer
  "PushPacket_createRealPacket magic" "PushPacket_bytes magic" "\<lambda>_. True" for magic
proof
  show "rp_ok p \<Longrightarrow> writes p (snd (PushPacket_createRealPacket magic a p))
      (PushPacket_bytes magic a)" for a p
    unfolding PushPacket_createRealPacket_def PushPacket_bytes_def packet_done_def Let_def
      snd_conv append_assoc [symmetric]
    by (intro writes_chain)
qed (simp add: PushPacket_createRealPacket_def packet_done_def Let_def)

subsection \<open>The rendezvous node rewrites PUSH into PULL\<close>

definition relay_frame :: "u32 \<Rightarrow> NodeIdent \<Rightarrow> u8 list \<Rightarrow> u8 list" where
  "relay_frame magic src body =
     PullPacket_bytes magic (newPullPacket 0 (addr src) (port src) (word_of_nat (length body)))
     @ body"

lemma uint_of_length [simp]:
  assumes "n < 4294967296"
  shows "uint (word_of_nat n :: u32) = int n"
proof -
  have "uint (word_of_nat n :: u32) = int (unat (word_of_nat n :: u32))" by simp
  then show ?thesis by (simp only: unat_of_length [OF assms])
qed

lemma skip_rd [wire_simps]:
  "length pre + 4 + length rest < 1073741824 \<Longrightarrow>
     retrieve_uint (rd pre (net_uint v @ rest)) = (htonl v, rd (pre @ net_uint v) rest)"
  by (simp add: net_uint_def retrieve_fixed_rd)

lemma remainBufSize_rd [simp]: "remainBufSize (rd pre rest) = word_of_nat (length rest)"
  by (simp add: remainBufSize_def rd_def)

lemma returnPos_rd [simp]: "returnPos (rd pre rest) = word_of_nat (length pre)"
  by (simp add: returnPos_def rd_def)


lemma append_str_max: "rp_maxPacketSize (append_str s n p) = rp_maxPacketSize p"
  by (simp add: append_str_def append_mem_def Let_def)

text \<open>
  A PUSH datagram with body \<open>body\<close> becomes the PULL frame of the sender, addressed to the node
  the header names, exactly when header and body fit into one datagram.
\<close>

lemma PushPacket_parse_relay:
  fixes pk body magic remote
  defines "buf \<equiv> PushPacket_bytes magic pk @ body"
  assumes "length buf < 1073741824"
  shows "fst (PushPacket_parse magic remote buf) = None \<longleftrightarrow> length body + 23 > 1400"
    and "fst (PushPacket_parse magic remote buf) = Some rp \<Longrightarrow>
      rp_ok rp \<and> getPayLoad rp = relay_frame magic remote body \<and>
      rp_dest rp = \<lparr>addr = pu_destIP pk, port = pu_destPort pk, addrRendv = 0, portRendv = 0\<rparr>"
proof -
  define pl where "pl = newPullPacket 0 (addr remote) (port remote) (word_of_nat (length body))"
  define new where
    "new = newRealPacket \<lparr>addr = pu_destIP pk, port = pu_destPort pk\<rparr> MAX_UDP_PACKET_SIZE"
  define q where "q = snd (PullPacket_createRealPacket magic pl new)"
  define r where "r = append_str body (int (length body)) q"
  have lb: "length body < 1073741805" using assms(2) by (simp add: buf_def)
  have new: "rp_ok new" "rp_complete new" "rp_size new = 0"
      "uint (rp_maxPacketSize new) = 1400" "getPayLoad new = []"
    unfolding new_def
    by (simp_all add: MAX_UDP_PACKET_SIZE_def newRealPacket_def newRealPacketRendv_def
      getPayLoad_def rp_ok_def)
  have w1: "writes new q (PullPacket_bytes magic pl)"
    unfolding q_def using new by (intro pull_writer.create_writes) simp_all
  then have w2: "writes new r (PullPacket_bytes magic pl @ body)"
    unfolding r_def using lb writes_ok writes_trans writes_append_str by force
  have ret: "PullPacket_createRealPacket magic pl new = (0, q)"
    unfolding q_def prod_eq_iff using pull_writer.create_fits [where a = pl and p = new and magic = magic] new by simp
  have parse: "fst (PushPacket_parse magic remote buf) =
      (if rp_complete r then Some r else None)"
    using assms(2) ret lb
    unfolding PushPacket_parse_def buf_def PushPacket_bytes_def new_rd
    by (simp add: wire_simps Let_def id_bytes_def r_def flip: pl_def new_def)
  show "fst (PushPacket_parse magic remote buf) = None \<longleftrightarrow> length body + 23 > 1400"
    using w2 new unfolding parse by (auto simp: writes_def)
  assume "fst (PushPacket_parse magic remote buf) = Some rp"
  then have "rp = r" "rp_complete r" using parse by (auto split: if_splits)
  with w2 new show "rp_ok rp \<and> getPayLoad rp = relay_frame magic remote body \<and>
      rp_dest rp = \<lparr>addr = pu_destIP pk, port = pu_destPort pk, addrRendv = 0, portRendv = 0\<rparr>"
    by (auto simp: writes_def relay_frame_def pl_def new_def newRealPacket_def
      newRealPacketRendv_def)
qed


subsection \<open>The receiver takes one frame off its stream\<close>

lemma getPayLoad_update:
  assumes "rp_ok p" "n \<le> length (getPayLoad p)" "rp_complete p"
  defines "q \<equiv> setPayLoadSize (int (length (getPayLoad p) - n))
    (p\<lparr>rp_packet := mem_write (rp_packet p) 0 (take (length (getPayLoad p) - n)
       (drop n (rp_packet p)))\<rparr>)"
  shows "getPayLoad q = drop n (getPayLoad p)" "rp_ok q" "rp_complete q"
    "rp_maxPacketSize q = rp_maxPacketSize p"
proof -
  define m where "m = nat (rp_size p)"
  have m: "rp_size p = int m" "m \<le> length (rp_packet p)"
    "int (length (rp_packet p)) = uint (rp_maxPacketSize p)" "length (rp_packet p) < 1073741824"
    using assms(1) by (auto simp: m_def rp_ok_def)
  have l: "length (getPayLoad p) = m" using m by (simp add: getPayLoad_def)
  have le: "\<not> (word_of_int (int (m - n)) :: u32) > rp_maxPacketSize p"
    using m by (simp add: not_less word_le_def)
  have q: "q = p\<lparr>rp_packet := mem_write (rp_packet p) 0 (take (m - n) (drop n (rp_packet p))),
      rp_size := int (m - n)\<rparr>"
    using assms(3) le unfolding q_def l setPayLoadSize_def by simp
  show "getPayLoad q = drop n (getPayLoad p)"
    using m assms(2) unfolding q l getPayLoad_def
    by (simp add: mem_write_def drop_take del: of_nat_diff)
  show "rp_ok q"
    using m assms(1,2) unfolding q l by (simp add: rp_ok_def mem_write_def)
  show "rp_complete q" "rp_maxPacketSize q = rp_maxPacketSize p"
    using assms(3) by (simp_all add: q)
qed

lemma PullPacket_parse_frame:
  assumes "rp_ok p" "rp_complete p"
    and pay: "getPayLoad p = PullPacket_bytes magic pl @ body @ tail"
    and size: "pl_payLoadSize pl = word_of_nat (length body)"
  obtains np p' where
    "PullPacket_parse magic p src = (Some np, p', \<lparr>addr = pl_srcIP pl, port = pl_srcPort pl\<rparr>)"
    "rp_ok np" "getPayLoad np = body"
    "rp_ok p'" "rp_complete p'" "getPayLoad p' = tail"
    "rp_maxPacketSize p' = rp_maxPacketSize p"
proof -
  define n m where "n = length body" and "m = 23 + length body + length tail"
  have lm: "length (getPayLoad p) = m" using pay by (simp add: m_def)
  have size_p: "rp_size p = int m" and max: "m < 1073741824"
    and block: "rp_packet p = (PullPacket_bytes magic pl @ body @ tail) @ drop m (rp_packet p)"
  proof -
    have "m = min (length (rp_packet p)) (nat (rp_size p))"
      using lm by (simp add: getPayLoad_def)
    then show s: "rp_size p = int m" and "m < 1073741824"
      using assms(1) by (auto simp: rp_ok_def min_def split: if_splits)
    then have "getPayLoad p = take m (rp_packet p)" by (simp add: getPayLoad_def)
    then show "rp_packet p = (PullPacket_bytes magic pl @ body @ tail) @ drop m (rp_packet p)"
      unfolding pay by (metis append_take_drop_id)
  qed
  have rd0: "newBufferWrapper (getPayLoad p) (rp_size p) = rd [] (getPayLoad p)"
    by (simp add: newBufferWrapper_def rd_def size_p lm)
  have body: "take n (drop 23 (rp_packet p)) = body"
    by (subst block) (simp add: n_def)
  have n: "n < 1073741824" "n \<le> m" "length tail < 1073741824"
    "n + length tail < 1073741801"
    using max by (simp_all add: n_def m_def)
  define np where "np = (newRealPacket \<lparr>addr = 0, port = 0\<rparr> (word_of_nat n))
    \<lparr>rp_packet := body, rp_size := int n\<rparr>"
  have np: "rp_ok np" "getPayLoad np = body"
    using n by (simp_all add: np_def rp_ok_def newRealPacket_def newRealPacketRendv_def
      getPayLoad_def n_def)
  have np_eq: "setPayLoadSize (int n) ((newRealPacket \<lparr>addr = 0, port = 0\<rparr> (word_of_nat n))
      \<lparr>rp_packet := mem_write (rp_packet (newRealPacket \<lparr>addr = 0, port = 0\<rparr> (word_of_nat n))) 0
         body\<rparr>) = np"
    using n by (simp add: np_def setPayLoadSize_def newRealPacket_def newRealPacketRendv_def
      mem_write_def n_def)
  define p' where "p' = setPayLoadSize (int (length tail))
    (if tail = [] then p else p\<lparr>rp_packet := mem_write (rp_packet p) 0
       (take (length tail) (drop (23 + n) (rp_packet p)))\<rparr>)"
  have up: "length tail = length (getPayLoad p) - (23 + n)" "23 + n \<le> length (getPayLoad p)"
    by (simp_all add: lm m_def n_def)
  have p': "getPayLoad p' = tail" "rp_ok p'" "rp_complete p'"
    "rp_maxPacketSize p' = rp_maxPacketSize p"
  proof -
    have "getPayLoad p' = tail \<and> rp_ok p' \<and> rp_complete p' \<and>
      rp_maxPacketSize p' = rp_maxPacketSize p"
    proof (cases "tail = []")
      case True
      then show ?thesis
        using assms(1,2) by (simp add: p'_def setPayLoadSize_def getPayLoad_def rp_ok_def)
    next
      case False
      then show ?thesis
        using getPayLoad_update [OF assms(1) up(2) assms(2)]
        unfolding p'_def up(1) by (simp add: pay n_def)
    qed
    then show "getPayLoad p' = tail" "rp_ok p'" "rp_complete p'"
      "rp_maxPacketSize p' = rp_maxPacketSize p" by simp_all
  qed
  have left: "word_of_nat m - (23 + word_of_nat n :: u32) = word_of_nat (length tail)"
    by (simp add: m_def n_def)
  have frame: "unat (23 + word_of_nat n :: u32) = 23 + n"
    using n unat_of_length [of "23 + n"] by simp
  have sum: "unat (word_of_nat n + word_of_nat (length tail) :: u32) = n + length tail"
    using n unat_of_length [of "n + length tail"] by simp
  have cmp: "\<not> (word_of_nat n + word_of_nat (length tail) :: u32) < word_of_nat n"
    "(word_of_nat n :: u32) < word_of_nat n + word_of_nat (length tail) \<longleftrightarrow> tail \<noteq> []"
    using n by (simp_all add: word_less_nat_alt sum)
  have "PullPacket_parse magic p src =
      (Some np, p', \<lparr>addr = pl_srcIP pl, port = pl_srcPort pl\<rparr>)"
    using n max unfolding PullPacket_parse_def rd0 unfolding pay PullPacket_bytes_def
    by (simp add: wire_simps Let_def id_bytes_def size size_p body left frame np_eq cmp p'_def
      flip: n_def)
  then show ?thesis using that np p' by blast
qed

subsection \<open>Whatever arrives\<close>

lemma PushPacket_parse_safe:
  "length buf < 1073741824 \<Longrightarrow> bw_ok (snd (PushPacket_parse magic remote buf))"
  unfolding PushPacket_parse_def new_rd by (simp add: wire_simps Let_def split_beta)

text \<open>A frame that is taken off lies inside the received bytes.\<close>

lemma PullPacket_parse_sound:
  assumes "rp_ok p" and parse: "PullPacket_parse magic p src = (Some np, p', s)"
  obtains pl body tail where "getPayLoad p = PullPacket_bytes magic pl @ body @ tail"
    "pl_payLoadSize pl = word_of_nat (length body)"
proof -
  have size: "rp_size p = int (length (getPayLoad p))" "length (getPayLoad p) < 1073741824"
    using assms(1) by (auto simp: rp_ok_def getPayLoad_def)
  then have rd0: "newBufferWrapper (getPayLoad p) (rp_size p) = rd [] (getPayLoad p)"
    by (simp add: newBufferWrapper_def rd_def)
  have ok: "bw_ok (rd [] (getPayLoad p))" using size(2) by simp
  obtain c b1 i1 b2 i2 b3 m b4 ip b5 po b6 n b7 where r:
    "retrieve_char (rd [] (getPayLoad p)) = (c, b1)" "retrieve_uint b1 = (i1, b2)"
    "retrieve_uint b2 = (i2, b3)" "get_uint b3 = (m, b4)" "get_uint b4 = (ip, b5)"
    "get_ushort b5 = (po, b6)" "get_uint b6 = (n, b7)"
    by (metis surj_pair)
  have t: "c = PULL" "m = magic" "\<not> bw_errorFlag b7" "\<not> remainBufSize b7 < n"
    using parse by (auto simp: PullPacket_parse_def rd0 r Let_def split: if_splits)
  define pl where "pl = \<lparr>req_id_1 = ntohl i1, req_id_2 = ntohl i2, pl_srcIP = ip, pl_srcPort = po,
    pl_payLoadSize = n\<rparr>"
  have "reads (rd [] (getPayLoad p)) (c # u32_bytes i1 @ u32_bytes i2 @ net_uint m @ net_uint ip @
      net_ushort po @ net_uint n) b7"
    by (rule reads_bind, rule ok, rule r, (rule reads_bind, assumption, rule r)+,
        rule reads_last, assumption, rule r)
  then have "reads (rd [] (getPayLoad p)) (PullPacket_bytes magic pl) b7"
    by (simp add: PullPacket_bytes_def pl_def id_bytes_def net_uint_ntohl t)
  from reads_rd [OF this t(3)] obtain rest where
    rest: "getPayLoad p = PullPacket_bytes magic pl @ rest" "b7 = rd (PullPacket_bytes magic pl) rest"
    by blast
  have "unat n \<le> length rest"
    using t(4) size(2) rest by (simp add: word_less_nat_alt unat_of_length)
  then show thesis
    by (intro that [of pl "take (unat n) rest" "drop (unat n) rest"]) (simp_all add: rest pl_def)
qed

lemma PullPacket_parse_inside:
  assumes "rp_ok p" "rp_complete p" "PullPacket_parse magic p src = (Some np, p', s)"
  shows "\<exists>head. length head = 23 \<and> getPayLoad p = head @ getPayLoad np @ getPayLoad p' \<and>
    rp_ok np \<and> rp_ok p'"
proof -
  obtain pl body tail where f: "getPayLoad p = PullPacket_bytes magic pl @ body @ tail"
    "pl_payLoadSize pl = word_of_nat (length body)"
    by (rule PullPacket_parse_sound [OF assms(1,3)])
  from PullPacket_parse_frame [OF assms(1,2) f, of src] assms(3)
  show ?thesis using f(1) by (metis (no_types, lifting) length_tunnel_bytes(1) option.inject prod.inject)
qed

end
