(* ===== verification/Timeout_Index.thy ===== *)
theory Timeout_Index
  imports Node_Types
begin

text \<open>
  The structure LatencyCache.cpp and QueryTable.cpp share: a map from timeouts to vectors of the
  things that time out then, kept in step with a map from the things to their timeouts. The
  locale \<open>timeout_index\<close> states what the two clients rely on, with \<open>indexed f m\<close> saying that
  \<open>m\<close> is the index of the assignment \<open>f\<close>; the model's index is its interpretation. Time itself
  (\<^verbatim>\<open>gettimeofday\<close>) is an argument of the operations that read it.
\<close>

definition MICRO_IN_SECOND :: int where "MICRO_IN_SECOND = 1000000"

definition normalizeTime :: "timeval \<Rightarrow> timeval" where
  "normalizeTime tv =
     (if tv_usec tv > MICRO_IN_SECOND then
        let extraSeconds = tv_usec tv div MICRO_IN_SECOND in
        tv\<lparr>tv_sec := tv_sec tv + extraSeconds,
           tv_usec := tv_usec tv - extraSeconds * MICRO_IN_SECOND\<rparr>
      else tv)"

text \<open>The \<^verbatim>\<open>timeradd\<close> macro of the C library.\<close>

definition timeradd :: "timeval \<Rightarrow> timeval \<Rightarrow> timeval" where
  "timeradd a b =
     (let s = tv_sec a + tv_sec b; u = tv_usec a + tv_usec b in
      if u \<ge> 1000000 then \<lparr>tv_sec = s + 1, tv_usec = u - 1000000\<rparr>
      else \<lparr>tv_sec = s, tv_usec = u\<rparr>)"

definition tv_normal :: "timeval \<Rightarrow> bool" where
  "tv_normal tv \<longleftrightarrow> 0 \<le> tv_usec tv \<and> tv_usec tv < MICRO_IN_SECOND"

definition tv_micros :: "timeval \<Rightarrow> int" where
  "tv_micros tv = tv_sec tv * MICRO_IN_SECOND + tv_usec tv"

lemma normalizeTime_micros: "tv_micros (normalizeTime tv) = tv_micros tv"
  by (simp add: normalizeTime_def tv_micros_def Let_def algebra_simps)

lemma normalizeTime_id [simp]: "tv_normal tv \<Longrightarrow> normalizeTime tv = tv"
  by (simp add: normalizeTime_def tv_normal_def)

lemma normalizeTime_normal:
  assumes "0 \<le> tv_usec tv" "tv_usec tv \<noteq> MICRO_IN_SECOND"
  shows "tv_normal (normalizeTime tv)"
proof (cases "tv_usec tv > MICRO_IN_SECOND")
  case True
  have "tv_usec tv - tv_usec tv div MICRO_IN_SECOND * MICRO_IN_SECOND = tv_usec tv mod MICRO_IN_SECOND"
    by (metis minus_div_mult_eq_mod)
  then show ?thesis
    using True by (simp add: normalizeTime_def tv_normal_def Let_def MICRO_IN_SECOND_def)
qed (use assms in \<open>simp add: normalizeTime_def tv_normal_def\<close>)

lemma timeradd_micros: "tv_micros (timeradd a b) = tv_micros a + tv_micros b"
  by (simp add: timeradd_def tv_micros_def Let_def MICRO_IN_SECOND_def)

lemma timeradd_normal: "tv_normal a \<Longrightarrow> tv_normal b \<Longrightarrow> tv_normal (timeradd a b)"
  by (simp add: timeradd_def tv_normal_def Let_def MICRO_IN_SECOND_def)

lemma tv_le_micros:
  assumes "tv_normal a" "tv_normal b"
  shows "a \<le> b \<longleftrightarrow> tv_micros a \<le> tv_micros b"
  using assms by (auto simp: le_timeval tv_normal_def tv_micros_def MICRO_IN_SECOND_def)

subsection \<open>The contract\<close>

locale timeout_index =
  fixes push :: "'t \<Rightarrow> 'a \<Rightarrow> 'm \<Rightarrow> 'm"
    and drop_at :: "'t \<Rightarrow> 'a \<Rightarrow> 'm \<Rightarrow> 'm option"
    and indexes :: "('a \<Rightarrow> 't option) \<Rightarrow> 'm \<Rightarrow> bool"
    and before :: "('t \<Rightarrow> bool) \<Rightarrow> 'm \<Rightarrow> 'a list"
  assumes push_indexes: "indexes f m \<Longrightarrow> f x = None \<Longrightarrow> indexes (f(x := Some t)) (push t x m)"
    and drop_indexes: "indexes f m \<Longrightarrow> f x = Some t \<Longrightarrow>
      \<exists>m'. drop_at t x m = Some m' \<and> indexes (f(x := None)) m'"
    and before_set: "indexes f m \<Longrightarrow> set (before P m) = {x. \<exists>t. f x = Some t \<and> P t}"
    and before_distinct: "indexes f m \<Longrightarrow> distinct (before P m)"
begin

lemma rearm:
  assumes "indexes f m" "f x = Some t"
  shows "\<exists>m'. drop_at t x m = Some m' \<and> indexes (f(x := Some t')) (push t' x m')"
proof -
  obtain m' where "drop_at t x m = Some m'" "indexes (f(x := None)) m'"
    using drop_indexes [OF assms] by blast
  then show ?thesis using push_indexes [of "f(x := None)" m' x t'] by auto
qed

lemma before_card: "indexes f m \<Longrightarrow> length (before P m) = card {x. \<exists>t. f x = Some t \<and> P t}"
  using distinct_card [OF before_distinct [of f m P]] before_set [of f m P] by simp

end

subsection \<open>The model's index\<close>

definition bucket_push :: "'t::linorder \<Rightarrow> 'a \<Rightarrow> ('t, 'a list) smap \<Rightarrow> ('t, 'a list) smap" where
  "bucket_push t x m =
     (case sm_find m t of
        Some xs \<Rightarrow> sm_upd t (xs @ [x]) m
      | None \<Rightarrow> sm_upd t [x] m)"

definition bucket_drop :: "'t::linorder \<Rightarrow> 'a \<Rightarrow> ('t, 'a list) smap
    \<Rightarrow> ('t, 'a list) smap option" where
  "bucket_drop t x m =
     (case sm_find m t of
        None \<Rightarrow> None
      | Some xs \<Rightarrow>
          let xs = swap_remove x xs in
          Some (if xs = [] then sm_erase t m else sm_upd t xs m))"

definition bucket_before :: "('t \<Rightarrow> bool) \<Rightarrow> ('t, 'a list) smap \<Rightarrow> 'a list" where
  "bucket_before P m = concat (map snd (filter (\<lambda>e. P (fst e)) m))"

definition indexed :: "('a \<Rightarrow> 't::linorder option) \<Rightarrow> ('t, 'a list) smap \<Rightarrow> bool" where
  "indexed f m \<longleftrightarrow> sm_ok m \<and>
     (\<forall>t xs. sm_find m t = Some xs \<longrightarrow> xs \<noteq> [] \<and> distinct xs) \<and>
     (\<forall>t x. f x = Some t \<longleftrightarrow> (\<exists>xs. sm_find m t = Some xs \<and> x \<in> set xs))"

lemma indexed_empty [simp]: "indexed (\<lambda>_. None) []"
  by (simp add: indexed_def)

lemma indexed_push:
  assumes "indexed f m" "f x = None"
  shows "indexed (f(x := Some t)) (bucket_push t x m)"
proof -
  have fresh: "x \<notin> set xs" if "sm_find m t' = Some xs" for t' xs
    using assms that by (metis indexed_def option.distinct(1))
  show ?thesis
    using assms by (auto simp: indexed_def bucket_push_def split: option.splits dest: fresh)
qed

lemma indexed_drop:
  assumes "indexed f m" "f x = Some t"
  shows "\<exists>m'. bucket_drop t x m = Some m' \<and> indexed (f(x := None)) m'"
proof -
  obtain xs where xs: "sm_find m t = Some xs" "x \<in> set xs" "distinct xs" "sm_ok m"
    using assms by (auto simp: indexed_def)
  define ys where "ys = swap_remove x xs"
  have ys: "set ys = set xs - {x}" "distinct ys" using xs by (simp_all add: ys_def)
  define m' where "m' = (if ys = [] then sm_erase t m else sm_upd t ys m)"
  have d: "bucket_drop t x m = Some m'"
    using xs by (simp add: bucket_drop_def m'_def ys_def Let_def)
  have find: "sm_find m' t' = (if t' = t then if ys = [] then None else Some ys else sm_find m t')"
    for t' by (simp add: m'_def)
  have "indexed (f(x := None)) m'"
    unfolding indexed_def
  proof (intro conjI allI impI)
    show "sm_ok m'" using xs(4) by (simp add: m'_def)
    fix t' zs
    show "sm_find m' t' = Some zs \<Longrightarrow> zs \<noteq> []" "sm_find m' t' = Some zs \<Longrightarrow> distinct zs"
      using assms(1) ys(2) unfolding find by (auto simp: indexed_def split: if_splits)
    fix y
    have f: "f y = Some t' \<longleftrightarrow> (\<exists>xs. sm_find m t' = Some xs \<and> y \<in> set xs)"
      using assms(1) by (simp add: indexed_def)
    show "(f(x := None)) y = Some t' \<longleftrightarrow> (\<exists>xs. sm_find m' t' = Some xs \<and> y \<in> set xs)"
    proof (cases "t' = t")
      case True
      have "y \<in> set ys \<longleftrightarrow> y \<noteq> x \<and> f y = Some t'"
        unfolding f using xs(1) ys(1) True by auto
      then show ?thesis using True by (auto simp: find)
    next
      case False
      then show ?thesis using f assms(2) by (auto simp: find)
    qed
  qed
  with d show ?thesis by blast
qed

lemma indexed_before_set:
  assumes "indexed f m"
  shows "set (bucket_before P m) = {x. \<exists>t. f x = Some t \<and> P t}"
proof -
  have e: "(t, xs) \<in> set m \<longleftrightarrow> sm_find m t = Some xs" for t xs
    using assms smap.find_entries [of m t xs] by (simp add: indexed_def)
  have "x \<in> set (bucket_before P m) \<longleftrightarrow> (\<exists>t xs. (t, xs) \<in> set m \<and> P t \<and> x \<in> set xs)" for x
    by (force simp: bucket_before_def)
  then show ?thesis using assms unfolding e indexed_def by blast
qed

lemma indexed_before_distinct:
  assumes "indexed f m"
  shows "distinct (bucket_before P m)"
proof -
  have e: "(t, xs) \<in> set m \<longleftrightarrow> sm_find m t = Some xs" for t xs
    using assms smap.find_entries [of m t xs] by (simp add: indexed_def)
  have d: "distinct (map fst m)" using assms sm_ok_distinct by (auto simp: indexed_def)
  have "distinct (concat (map snd m'))" if "set m' \<subseteq> set m" "distinct (map fst m')" for m'
    using that
  proof (induction m')
    case (Cons b m')
    obtain t xs where b: "b = (t, xs)" by (cases b)
    have bx: "sm_find m t = Some xs" using Cons.prems b e by auto
    then have "distinct xs" "\<forall>x \<in> set xs. f x = Some t" using assms by (auto simp: indexed_def)
    moreover have "f x = Some t' \<and> t' \<noteq> t" if "(t', ys) \<in> set m'" "x \<in> set ys" for x t' ys
    proof -
      have "sm_find m t' = Some ys" using that Cons.prems e by auto
      then show ?thesis using assms that Cons.prems(2) b by (force simp: indexed_def)
    qed
    ultimately have "set xs \<inter> set (concat (map snd m')) = {}" by fastforce
    then show ?case using Cons b \<open>distinct xs\<close> by simp
  qed simp
  moreover have "distinct (map fst (filter (\<lambda>e. P (fst e)) m))"
    using d by (simp add: distinct_map_filter)
  ultimately show ?thesis by (simp add: bucket_before_def)
qed

interpretation tindex: timeout_index bucket_push bucket_drop indexed bucket_before
  by unfold_locales (fact indexed_push indexed_drop indexed_before_set indexed_before_distinct)+

text \<open>The head of the index is a thing with the earliest timeout.\<close>

lemma indexed_first:
  assumes "indexed f ((t, xs) # m)" "f y = Some t'"
  shows "xs \<noteq> [] \<and> f (hd xs) = Some t \<and> t \<le> t'"
proof -
  have "sm_find ((t, xs) # m) t = Some xs" by simp
  then have "xs \<noteq> []" using assms(1) unfolding indexed_def by blast
  moreover have "f (hd xs) = Some t"
    using assms(1) calculation by (auto simp: indexed_def)
  moreover obtain ys where "sm_find ((t, xs) # m) t' = Some ys"
    using assms unfolding indexed_def by blast
  then have "t \<le> t'"
    using smap.first_entry_least [of "(t, xs) # m" t xs m t' ys] assms(1)
    by (simp add: indexed_def)
  ultimately show ?thesis by blast
qed

lemma indexed_nonempty: "indexed f m \<Longrightarrow> f x = Some t \<Longrightarrow> m \<noteq> []"
  by (auto simp: indexed_def)

end
