(* ===== verification/Latency_Cache.thy ===== *)
theory Latency_Cache
  imports Timeout_Index
begin

text \<open>
  LatencyCache.cpp: a bounded cache of latency measurements that expire after \<open>periodUS\<close>. The two
  maps of the class are \<open>latencyMap\<close> (node to timeout and latency) and \<open>timeoutMap\<close> (timeout to
  nodes), the first of which the second indexes. \<open>None\<close> is a failed assertion or a read through
  the end of a container.
\<close>

record LatencyCache =
  timeoutMap :: "(timeval, NodeIdent list) smap"
  latencyMap :: "(NodeIdent, timeval \<times> u32) smap"
  maxSize :: u32
  periodUS :: u32

definition newLatencyCache :: "u32 \<Rightarrow> u32 \<Rightarrow> LatencyCache" where
  "newLatencyCache in_maxSize in_periodUS =
     \<lparr>timeoutMap = [], latencyMap = [], maxSize = in_maxSize, periodUS = in_periodUS\<rparr>"

definition getLatency :: "timeval \<Rightarrow> NodeIdent \<Rightarrow> LatencyCache \<Rightarrow> u32 option" where
  "getLatency now inNode c =
     (case sm_find (latencyMap c) inNode of
        Some (s1, latency) \<Rightarrow>
          let curTime = normalizeTime now in
          if tv_sec s1 < tv_sec curTime \<or>
             (tv_sec s1 = tv_sec curTime \<and> tv_usec s1 \<le> tv_usec curTime)
          then None else Some latency
      | None \<Rightarrow> None)"

definition eraseEntry :: "NodeIdent \<Rightarrow> LatencyCache \<Rightarrow> (int \<times> LatencyCache) option" where
  "eraseEntry inNode c =
     (case sm_find (latencyMap c) inNode of
        Some (tv, _) \<Rightarrow>
          let c = c\<lparr>latencyMap := sm_erase inNode (latencyMap c)\<rparr> in
          map_option (\<lambda>tm. (0, c\<lparr>timeoutMap := tm\<rparr>)) (bucket_drop tv inNode (timeoutMap c))
      | None \<Rightarrow> Some (0, c))"

definition evictOldest :: "LatencyCache \<Rightarrow> LatencyCache option" where
  "evictOldest c =
     (if length (latencyMap c) \<ge> unat (maxSize c) then
        (case timeoutMap c of
           (_, tmp # _) # _ \<Rightarrow> map_option snd (eraseEntry tmp c)
         | _ \<Rightarrow> None)
      else Some c)"

definition nextTimeOut :: "timeval \<Rightarrow> LatencyCache \<Rightarrow> timeval" where
  "nextTimeOut now c =
     normalizeTime (timeradd now
       \<lparr>tv_sec = uint (periodUS c) div MICRO_IN_SECOND,
        tv_usec = uint (periodUS c) mod MICRO_IN_SECOND\<rparr>)"

definition insertMeasurement :: "timeval \<Rightarrow> NodeIdent \<Rightarrow> u32 \<Rightarrow> LatencyCache
    \<Rightarrow> (int \<times> LatencyCache) option" where
  "insertMeasurement now inNode latency c =
     (if maxSize c = 0 then Some (0, c) else
      case eraseEntry inNode c of None \<Rightarrow> None | Some (ret, c) \<Rightarrow>
      if ret = -1 then Some (-1, c) else
      map_option (\<lambda>c.
          let tv = nextTimeOut now c in
          (0, c\<lparr>timeoutMap := bucket_push tv inNode (timeoutMap c),
                latencyMap := sm_upd inNode (tv, latency) (latencyMap c)\<rparr>))
        (evictOldest c))"

text \<open>The destructor: erase every entry, then assert that both maps are empty.\<close>

definition eraseAll :: "NodeIdent list \<Rightarrow> LatencyCache \<Rightarrow> LatencyCache option" where
  "eraseAll allEntries c =
     fold (\<lambda>n acc. case acc of None \<Rightarrow> None | Some c \<Rightarrow> map_option snd (eraseEntry n c))
       allEntries (Some c)"

definition destroyCache :: "LatencyCache \<Rightarrow> unit option" where
  "destroyCache c =
     (case eraseAll (sm_keys (latencyMap c)) c of
        None \<Rightarrow> None
      | Some c \<Rightarrow> if timeoutMap c = [] \<and> latencyMap c = [] then Some () else None)"

subsection \<open>The invariant\<close>

definition timeoutOf :: "LatencyCache \<Rightarrow> NodeIdent \<Rightarrow> timeval option" where
  "timeoutOf c n = map_option fst (sm_find (latencyMap c) n)"

definition cache_wf :: "LatencyCache \<Rightarrow> bool" where
  "cache_wf c \<longleftrightarrow> sm_ok (latencyMap c) \<and> indexed (timeoutOf c) (timeoutMap c) \<and>
     length (latencyMap c) \<le> unat (maxSize c)"

lemma cache_wf_new: "cache_wf (newLatencyCache s p)"
proof -
  have "timeoutOf (newLatencyCache s p) = (\<lambda>_. None)"
    by (simp add: timeoutOf_def newLatencyCache_def fun_eq_iff)
  then show ?thesis by (simp add: cache_wf_def) (simp add: newLatencyCache_def)
qed

lemma eraseEntry_wf:
  assumes wf: "cache_wf c"
  obtains c' where "eraseEntry n c = Some (0, c')" "cache_wf c'"
    "latencyMap c' = sm_erase n (latencyMap c)" "maxSize c' = maxSize c" "periodUS c' = periodUS c"
proof (cases "sm_find (latencyMap c) n")
  case None
  have "sm_erase n (latencyMap c) = latencyMap c"
    using None by (auto simp: sm_erase_def filter_id_conv map_of_eq_None_iff)
  then show ?thesis using that [of c] None wf by (simp add: eraseEntry_def)
next
  case (Some p)
  obtain tv l where p: "p = (tv, l)" by fastforce
  have "timeoutOf c n = Some tv" using Some p by (simp add: timeoutOf_def)
  then obtain tm where tm: "bucket_drop tv n (timeoutMap c) = Some tm"
    "indexed ((timeoutOf c)(n := None)) tm"
    using tindex.drop_indexes wf by (metis cache_wf_def)
  define c' where "c' = c\<lparr>latencyMap := sm_erase n (latencyMap c), timeoutMap := tm\<rparr>"
  have "timeoutOf c' = (timeoutOf c)(n := None)"
    by (simp add: timeoutOf_def c'_def fun_eq_iff)
  moreover have "length (sm_erase n (latencyMap c)) \<le> length (latencyMap c)"
    by (simp add: sm_erase_def)
  ultimately have "cache_wf c'" using wf tm(2) by (simp add: cache_wf_def c'_def)
  then show ?thesis
    using that [of c'] Some p tm by (simp add: eraseEntry_def c'_def Let_def)
qed

text \<open>The eviction makes room and takes an entry that would have expired first.\<close>

lemma evictOldest_wf:
  assumes wf: "cache_wf c" and pos: "0 < maxSize c"
  obtains c' where "evictOldest c = Some c'" "cache_wf c'" "maxSize c' = maxSize c"
    "periodUS c' = periodUS c" "length (latencyMap c') < unat (maxSize c)"
    "latencyMap c' = latencyMap c \<and> length (latencyMap c) < unat (maxSize c) \<or>
     (\<exists>v tv. latencyMap c' = sm_erase v (latencyMap c) \<and> timeoutOf c v = Some tv \<and>
        (\<forall>m t. timeoutOf c m = Some t \<longrightarrow> tv \<le> t) \<and>
        length (latencyMap c) = unat (maxSize c))"
proof (cases "length (latencyMap c) < unat (maxSize c)")
  case True
  then show ?thesis using that [of c] wf by (simp add: evictOldest_def)
next
  case False
  have size: "length (latencyMap c) = unat (maxSize c)" "0 < unat (maxSize c)"
    using False wf pos by (simp_all add: cache_wf_def word_less_nat_alt)
  have I: "indexed (timeoutOf c) (timeoutMap c)" "sm_ok (latencyMap c)"
    using wf by (simp_all add: cache_wf_def)
  obtain n0 p0 rest where "latencyMap c = (n0, p0) # rest"
    using size by (cases "latencyMap c") auto
  then have "timeoutOf c n0 = Some (fst p0)" by (simp add: timeoutOf_def)
  then have "timeoutMap c \<noteq> []" by (rule indexed_nonempty [OF I(1)])
  then obtain tv xs tm where tm: "timeoutMap c = (tv, xs) # tm" by (metis neq_Nil_conv surj_pair)
  note first = indexed_first [OF I(1) [unfolded tm]]
  have xs: "xs \<noteq> []" "timeoutOf c (hd xs) = Some tv"
    using first [OF \<open>timeoutOf c n0 = Some (fst p0)\<close>] by simp_all
  then obtain v vs where v: "xs = v # vs" by (cases xs) auto
  have vt: "timeoutOf c v = Some tv" using xs v by simp
  obtain c' where c': "eraseEntry v c = Some (0, c')" "cache_wf c'"
    "latencyMap c' = sm_erase v (latencyMap c)" "maxSize c' = maxSize c" "periodUS c' = periodUS c"
    by (rule eraseEntry_wf [OF wf])
  have "sm_find (latencyMap c) v \<noteq> None" using vt by (auto simp: timeoutOf_def)
  then have "length (latencyMap c') = length (latencyMap c) - 1"
    unfolding c'(3) using smap.size_erase [OF I(2), of v] by auto
  then show ?thesis
    using that [of c'] c' size vt first tm v False by (auto simp: evictOldest_def)
qed

lemma insertMeasurement_wf:
  assumes wf: "cache_wf c" and pos: "0 < maxSize c"
  obtains c' where "insertMeasurement now n l c = Some (0, c')" "cache_wf c'"
    "maxSize c' = maxSize c" "periodUS c' = periodUS c"
    "sm_find (latencyMap c') n = Some (nextTimeOut now c, l)"
    "(\<forall>m. m \<noteq> n \<longrightarrow> sm_find (latencyMap c') m = sm_find (latencyMap c) m) \<or>
     (sm_find (latencyMap c) n = None \<and> length (latencyMap c) = unat (maxSize c) \<and>
      (\<exists>v tv. v \<noteq> n \<and> timeoutOf c v = Some tv \<and>
         (\<forall>m t. timeoutOf c m = Some t \<longrightarrow> tv \<le> t) \<and>
         (\<forall>m. m \<noteq> n \<longrightarrow> sm_find (latencyMap c') m =
            (if m = v then None else sm_find (latencyMap c) m))))"
proof -
  obtain c1 where c1: "eraseEntry n c = Some (0, c1)" "cache_wf c1"
    "latencyMap c1 = sm_erase n (latencyMap c)" "maxSize c1 = maxSize c" "periodUS c1 = periodUS c"
    by (rule eraseEntry_wf [OF wf])
  have pos1: "0 < maxSize c1" using pos c1 by simp
  obtain c2 where c2: "evictOldest c1 = Some c2" "cache_wf c2" "maxSize c2 = maxSize c1"
    "periodUS c2 = periodUS c1" "length (latencyMap c2) < unat (maxSize c1)"
    "latencyMap c2 = latencyMap c1 \<and> length (latencyMap c1) < unat (maxSize c1) \<or>
     (\<exists>v tv. latencyMap c2 = sm_erase v (latencyMap c1) \<and> timeoutOf c1 v = Some tv \<and>
        (\<forall>m t. timeoutOf c1 m = Some t \<longrightarrow> tv \<le> t) \<and>
        length (latencyMap c1) = unat (maxSize c1))"
    by (rule evictOldest_wf [OF c1(2) pos1]) (rule that; assumption)
  define tv where "tv = nextTimeOut now c"
  have tv: "nextTimeOut now c2 = tv" using c1 c2 by (simp add: nextTimeOut_def tv_def)
  define c' where "c' = c2\<lparr>timeoutMap := bucket_push tv n (timeoutMap c2),
    latencyMap := sm_upd n (tv, l) (latencyMap c2)\<rparr>"
  have none: "sm_find (latencyMap c2) n = None"
    using c2(6) c1(3) by auto
  have "timeoutOf c' = (timeoutOf c2)(n := Some tv)"
    by (simp add: timeoutOf_def c'_def fun_eq_iff)
  moreover have "indexed ((timeoutOf c2)(n := Some tv)) (bucket_push tv n (timeoutMap c2))"
    using c2(2) none by (intro tindex.push_indexes) (simp_all add: cache_wf_def timeoutOf_def)
  moreover have "length (sm_upd n (tv, l) (latencyMap c2)) \<le> unat (maxSize c2)"
    using smap.size_upd [of "latencyMap c2" n "(tv, l)"] c2 none by (simp add: cache_wf_def)
  ultimately have "cache_wf c'" using c2(2) by (simp add: cache_wf_def c'_def)
  moreover have "insertMeasurement now n l c = Some (0, c')"
    using pos c1(1) c2(1) tv by (simp add: insertMeasurement_def c'_def Let_def)
  moreover have "(\<forall>m. m \<noteq> n \<longrightarrow> sm_find (latencyMap c') m = sm_find (latencyMap c) m) \<or>
     (sm_find (latencyMap c) n = None \<and> length (latencyMap c) = unat (maxSize c) \<and>
      (\<exists>v tv. v \<noteq> n \<and> timeoutOf c v = Some tv \<and>
         (\<forall>m t. timeoutOf c m = Some t \<longrightarrow> tv \<le> t) \<and>
         (\<forall>m. m \<noteq> n \<longrightarrow> sm_find (latencyMap c') m =
            (if m = v then None else sm_find (latencyMap c) m))))"
    using c2(6)
  proof (elim disjE exE conjE)
    assume "latencyMap c2 = latencyMap c1"
    then show ?thesis by (simp add: c'_def c1(3))
  next
    fix v t assume v: "latencyMap c2 = sm_erase v (latencyMap c1)" "timeoutOf c1 v = Some t"
      "\<forall>m t'. timeoutOf c1 m = Some t' \<longrightarrow> t \<le> t'" "length (latencyMap c1) = unat (maxSize c1)"
    have absent: "sm_find (latencyMap c) n = None"
    proof (rule ccontr)
      assume p: "sm_find (latencyMap c) n \<noteq> None"
      then have "length (latencyMap c1) = length (latencyMap c) - 1" "latencyMap c \<noteq> []"
        unfolding c1(3) using smap.size_erase [of "latencyMap c" n] wf
        by (auto simp: cache_wf_def)
      then show False using v(4) c1(4) wf by (cases "latencyMap c") (simp_all add: cache_wf_def)
    qed
    then have "latencyMap c1 = latencyMap c"
      unfolding c1(3) by (auto simp: sm_erase_def filter_id_conv map_of_eq_None_iff)
    then have same: "timeoutOf c1 = timeoutOf c" by (simp add: timeoutOf_def fun_eq_iff)
    have "v \<noteq> n" using v(2) absent by (auto simp: same timeoutOf_def)
    moreover have "\<forall>m. m \<noteq> n \<longrightarrow> sm_find (latencyMap c') m =
        (if m = v then None else sm_find (latencyMap c) m)"
      using \<open>latencyMap c1 = latencyMap c\<close> by (simp add: c'_def v(1))
    ultimately show ?thesis
      using v absent \<open>latencyMap c1 = latencyMap c\<close> c1(4) unfolding same by metis
  qed
  ultimately show ?thesis
    using that [of c'] c1 c2 by (simp add: c'_def tv_def)
qed

lemma destroyCache_ok:
  assumes "cache_wf c"
  shows "destroyCache c = Some ()"
proof -
  have "\<exists>c'. eraseAll ns c = Some c' \<and> cache_wf c' \<and>
      latencyMap c' = filter (\<lambda>e. fst e \<notin> set ns) (latencyMap c)"
    if "cache_wf c" for ns c
    using that
  proof (induction ns arbitrary: c)
    case Nil
    then show ?case by (simp add: eraseAll_def)
  next
    case (Cons n ns)
    obtain c1 where c1: "eraseEntry n c = Some (0, c1)" "cache_wf c1"
      "latencyMap c1 = sm_erase n (latencyMap c)" "maxSize c1 = maxSize c" "periodUS c1 = periodUS c"
      by (rule eraseEntry_wf [OF Cons.prems])
    obtain c' where "eraseAll ns c1 = Some c'" "cache_wf c'"
      "latencyMap c' = filter (\<lambda>e. fst e \<notin> set ns) (latencyMap c1)"
      using Cons.IH [OF c1(2)] by blast
    moreover have "eraseAll (n # ns) c = eraseAll ns c1" by (simp add: eraseAll_def c1(1))
    moreover have "filter (\<lambda>e. fst e \<notin> set ns) (latencyMap c1) =
        filter (\<lambda>e. fst e \<notin> set (n # ns)) (latencyMap c)"
      by (simp add: c1(3) sm_erase_def conj_commute)
    ultimately show ?case by simp
  qed
  from this [OF assms, of "sm_keys (latencyMap c)"] obtain c' where
    c': "eraseAll (sm_keys (latencyMap c)) c = Some c'" "cache_wf c'" "latencyMap c' = []"
    by (auto simp: filter_empty_conv)
  have "timeoutMap c' = []"
  proof (rule ccontr)
    assume "timeoutMap c' \<noteq> []"
    then obtain t xs tm where tm: "timeoutMap c' = (t, xs) # tm" by (metis neq_Nil_conv surj_pair)
    then have "sm_find (timeoutMap c') t = Some xs" by simp
    then obtain x where "timeoutOf c' x = Some t"
      using c'(2) unfolding cache_wf_def indexed_def by (metis last_in_set)
    then show False by (simp add: timeoutOf_def c'(3))
  qed
  then show ?thesis by (simp add: destroyCache_def c')
qed


subsection \<open>Freshness\<close>

lemma nextTimeOut_micros:
  assumes "tv_normal now"
  shows "tv_normal (nextTimeOut now c)"
    "tv_micros (nextTimeOut now c) = tv_micros now + uint (periodUS c)"
proof -
  let ?o = "\<lparr>tv_sec = uint (periodUS c) div MICRO_IN_SECOND,
    tv_usec = uint (periodUS c) mod MICRO_IN_SECOND\<rparr>"
  have o: "tv_normal ?o" "tv_micros ?o = uint (periodUS c)"
    by (simp_all add: tv_normal_def tv_micros_def MICRO_IN_SECOND_def)
  then show "tv_normal (nextTimeOut now c)"
    using timeradd_normal [OF assms o(1)] by (simp add: nextTimeOut_def)
  show "tv_micros (nextTimeOut now c) = tv_micros now + uint (periodUS c)"
    unfolding nextTimeOut_def normalizeTime_micros timeradd_micros o(2) ..
qed

lemma getLatency_fresh:
  assumes "sm_find (latencyMap c) n = Some (tv, l)" "tv_normal tv" "tv_normal now"
  shows "getLatency now n c = (if tv_micros now < tv_micros tv then Some l else None)"
  using assms tv_le_micros [OF assms(2,3)]
  by (auto simp: getLatency_def Let_def le_timeval)

end
