(* ===== verification/Query_Table.thy ===== *)
theory Query_Table
  imports Timeout_Index
begin

text \<open>
  QueryTable.cpp: the table of running queries and their timeouts. The code keys it on
  \<^verbatim>\<open>Query*\<close> compared by query id (\<^verbatim>\<open>queryLT\<close>), so the model keys it on the id; what a query
  answers to \<^verbatim>\<open>timeOut()\<close> and \<^verbatim>\<open>isFinished()\<close> is an argument of the operations that ask.
  \<open>None\<close> is a failed assertion.
\<close>

record QueryTable =
  queryTimeoutMap :: "(u64, timeval) smap"
  timeoutQueryMap :: "(timeval, u64 list) smap"

definition newQueryTable :: QueryTable where
  "newQueryTable = \<lparr>queryTimeoutMap = [], timeoutQueryMap = []\<rparr>"

definition DEFAULT_TIME_OUT_S :: int where "DEFAULT_TIME_OUT_S = 5"

definition addTimeout :: "u64 \<Rightarrow> timeval \<Rightarrow> QueryTable \<Rightarrow> int \<times> QueryTable" where
  "addTimeout inQuery timeOut t =
     (let tv = normalizeTime timeOut in
      (0, t\<lparr>queryTimeoutMap := sm_upd inQuery tv (queryTimeoutMap t),
            timeoutQueryMap := bucket_push tv inQuery (timeoutQueryMap t)\<rparr>))"

definition retrieveOldTimeout :: "u64 \<Rightarrow> QueryTable \<Rightarrow> timeval option" where
  "retrieveOldTimeout inQuery t = sm_find (queryTimeoutMap t) inQuery"

definition removeOldTimeout :: "u64 \<Rightarrow> QueryTable \<Rightarrow> (int \<times> QueryTable) option" where
  "removeOldTimeout inQuery t =
     (case retrieveOldTimeout inQuery t of
        None \<Rightarrow> None
      | Some tv \<Rightarrow>
          let t = t\<lparr>queryTimeoutMap := sm_erase inQuery (queryTimeoutMap t)\<rparr> in
          (case sm_find (timeoutQueryMap t) tv of
             None \<Rightarrow> None
           | Some qs \<Rightarrow>
               if inQuery \<in> set qs then
                 map_option (\<lambda>m. (0, t\<lparr>timeoutQueryMap := m\<rparr>))
                   (bucket_drop tv inQuery (timeoutQueryMap t))
               else None))"

definition updateTimeout :: "u64 \<Rightarrow> bool \<Rightarrow> timeval \<Rightarrow> QueryTable \<Rightarrow> (int \<times> QueryTable) option" where
  "updateTimeout inQuery isFinished timeOut t =
     (case removeOldTimeout inQuery t of
        None \<Rightarrow> None
      | Some (_, t) \<Rightarrow>
          if isFinished then Some (0, t) else Some (0, snd (addTimeout inQuery timeOut t)))"

definition insertNewQuery :: "u64 \<Rightarrow> timeval \<Rightarrow> QueryTable \<Rightarrow> int \<times> QueryTable" where
  "insertNewQuery inQuery timeOut t =
     (if sm_find (queryTimeoutMap t) inQuery \<noteq> None then (-1, t)
      else addTimeout inQuery timeOut t)"

definition isQueryInTable :: "u64 \<Rightarrow> QueryTable \<Rightarrow> bool" where
  "isQueryInTable qid t \<longleftrightarrow> sm_find (queryTimeoutMap t) qid \<noteq> None"

definition nextTimeout :: "timeval \<Rightarrow> QueryTable \<Rightarrow> timeval" where
  "nextTimeout now t =
     (case timeoutQueryMap t of
        [] \<Rightarrow> now\<lparr>tv_sec := tv_sec now + DEFAULT_TIME_OUT_S\<rparr>
      | (tv, _) # _ \<Rightarrow> tv)"

text \<open>The first loop of \<^verbatim>\<open>handleTimeout\<close>: the queries whose time has come.\<close>

definition timedOut :: "timeval \<Rightarrow> QueryTable \<Rightarrow> u64 list" where
  "timedOut now t =
     (let curTime = normalizeTime now in
      bucket_before (\<lambda>s1. tv_sec s1 < tv_sec curTime \<or>
          (tv_sec s1 = tv_sec curTime \<and> tv_usec s1 \<le> tv_usec curTime)) (timeoutQueryMap t))"

subsection \<open>The invariant\<close>

definition table_wf :: "QueryTable \<Rightarrow> bool" where
  "table_wf t \<longleftrightarrow> sm_ok (queryTimeoutMap t) \<and>
     indexed (sm_find (queryTimeoutMap t)) (timeoutQueryMap t)"

lemma table_wf_new: "table_wf newQueryTable"
  using indexed_empty by (simp add: table_wf_def newQueryTable_def fun_eq_iff)

lemma addTimeout_wf:
  assumes "table_wf t" "sm_find (queryTimeoutMap t) q = None"
  shows "table_wf (snd (addTimeout q tv t))"
    "queryTimeoutMap (snd (addTimeout q tv t)) = sm_upd q (normalizeTime tv) (queryTimeoutMap t)"
proof -
  have "sm_find (sm_upd q (normalizeTime tv) (queryTimeoutMap t)) =
      (sm_find (queryTimeoutMap t))(q := Some (normalizeTime tv))"
    by (simp add: fun_eq_iff)
  then show "table_wf (snd (addTimeout q tv t))"
    using assms tindex.push_indexes [of "sm_find (queryTimeoutMap t)" "timeoutQueryMap t" q]
    by (simp add: table_wf_def addTimeout_def Let_def)
qed (simp add: addTimeout_def Let_def)

lemma removeOldTimeout_wf:
  assumes wf: "table_wf t" and q: "sm_find (queryTimeoutMap t) q = Some tv"
  obtains t' where "removeOldTimeout q t = Some (0, t')" "table_wf t'"
    "queryTimeoutMap t' = sm_erase q (queryTimeoutMap t)"
proof -
  have I: "indexed (sm_find (queryTimeoutMap t)) (timeoutQueryMap t)"
    using wf by (simp add: table_wf_def)
  then obtain qs where qs: "sm_find (timeoutQueryMap t) tv = Some qs" "q \<in> set qs"
    using q by (auto simp: indexed_def)
  obtain m where m: "bucket_drop tv q (timeoutQueryMap t) = Some m"
    "indexed ((sm_find (queryTimeoutMap t))(q := None)) m"
    using tindex.drop_indexes [OF I q] by blast
  define t' where "t' = t\<lparr>queryTimeoutMap := sm_erase q (queryTimeoutMap t), timeoutQueryMap := m\<rparr>"
  have "sm_find (sm_erase q (queryTimeoutMap t)) = (sm_find (queryTimeoutMap t))(q := None)"
    by (simp add: fun_eq_iff)
  then have "table_wf t'" using wf m(2) by (simp add: table_wf_def t'_def)
  then show ?thesis
    using that [of t'] q qs m(1)
    by (simp add: removeOldTimeout_def retrieveOldTimeout_def t'_def Let_def)
qed

lemma updateTimeout_wf:
  assumes wf: "table_wf t" and q: "isQueryInTable q t"
  obtains t' where "updateTimeout q fin tv t = Some (0, t')" "table_wf t'"
    "\<And>k. sm_find (queryTimeoutMap t') k =
      (if k = q then if fin then None else Some (normalizeTime tv)
       else sm_find (queryTimeoutMap t) k)"
proof -
  obtain old where "sm_find (queryTimeoutMap t) q = Some old"
    using q by (auto simp: isQueryInTable_def)
  then obtain t1 where t1: "removeOldTimeout q t = Some (0, t1)" "table_wf t1"
    "queryTimeoutMap t1 = sm_erase q (queryTimeoutMap t)"
    by (rule removeOldTimeout_wf [OF wf])
  have none: "sm_find (queryTimeoutMap t1) q = None" by (simp add: t1(3))
  note add = addTimeout_wf [OF t1(2) none, of tv]
  show ?thesis
  proof (cases fin)
    case True
    then show ?thesis using that [of t1] t1 by (simp add: updateTimeout_def)
  next
    case False
    then show ?thesis
      using that [of "snd (addTimeout q tv t1)"] t1 add by (simp add: updateTimeout_def)
  qed
qed

lemma insertNewQuery_wf:
  assumes "table_wf t"
  shows "table_wf (snd (insertNewQuery q tv t))"
    "fst (insertNewQuery q tv t) = (if isQueryInTable q t then -1 else 0)"
    "sm_find (queryTimeoutMap (snd (insertNewQuery q tv t))) k =
      (if k = q \<and> \<not> isQueryInTable q t then Some (normalizeTime tv)
       else sm_find (queryTimeoutMap t) k)"
  using assms addTimeout_wf [of t q tv]
  by (auto simp: insertNewQuery_def isQueryInTable_def addTimeout_def Let_def)

lemma timedOut_set:
  assumes "table_wf t"
  shows "set (timedOut now t) =
    {q. \<exists>tv. sm_find (queryTimeoutMap t) q = Some tv \<and> tv \<le> normalizeTime now}"
    and "distinct (timedOut now t)"
  using assms tindex.before_set [of "sm_find (queryTimeoutMap t)"] tindex.before_distinct
  by (auto simp: timedOut_def table_wf_def Let_def le_timeval)

lemma nextTimeout_least:
  assumes "table_wf t" "sm_find (queryTimeoutMap t) q = Some tv"
  shows "nextTimeout now t \<le> tv"
    and "\<exists>k. sm_find (queryTimeoutMap t) k = Some (nextTimeout now t)"
proof -
  have I: "indexed (sm_find (queryTimeoutMap t)) (timeoutQueryMap t)"
    using assms by (simp add: table_wf_def)
  obtain s xs m where m: "timeoutQueryMap t = (s, xs) # m"
    using indexed_nonempty [OF I assms(2)] by (metis neq_Nil_conv surj_pair)
  from indexed_first [OF I [unfolded m] assms(2)]
  show "nextTimeout now t \<le> tv" "\<exists>k. sm_find (queryTimeoutMap t) k = Some (nextTimeout now t)"
    by (auto simp: nextTimeout_def m)
qed

end
