(* ===== verification/Query_Objects.thy ===== *)
theory Query_Objects
  imports Ring_Queries Tunnel Latency_Cache Query_Table
begin

text \<open>
  Query.h: the query objects. Each class is a record with the fields of the class, the class
  hierarchy below the base class \<^verbatim>\<open>Query\<close> is the datatype \<open>query\<close>, and the virtual functions
  every class overrides trivially (\<^verbatim>\<open>timeOut\<close>, \<^verbatim>\<open>isFinished\<close>) are functions on it. The query id
  of an object is not stored: it is the key under which the process state holds the object.
  The four instances TCP, DNS, Meridian ping and ICMP of a generic class (the template argument
  or subclass) are a field of type \<open>probe_kind\<close>.
\<close>

definition MICRO_IN_MILLI :: u32 where "MICRO_IN_MILLI = 1000"
definition MAX_RTT_MS :: u32 where "MAX_RTT_MS = 5000"

datatype probe_kind = KindTCP | KindDNS | KindPing | KindICMP

record AddNodeQuery =
  an_remoteNode :: NodeIdentRendv
  an_finished :: bool
  an_startTime :: timeval
  an_timeoutTV :: timeval
  an_subscribers :: "u64 list"

record GossipQuery =
  gq_remoteNode :: NodeIdentRendv
  gq_finished :: bool
  gq_startTime :: timeval
  gq_timeoutTV :: timeval

datatype SchedObject = SchedGossip | SchedRingManage

record QueryScheduler =
  qs_schedObj :: SchedObject
  qs_timeoutTV :: timeval
  qs_initInterval_MS :: u32
  qs_numInitInterval :: u32
  qs_ssInterval_MS :: u32
  qs_finished :: bool

record RingManageQuery =
  rm_ringNum :: int
  rm_remoteNodes :: "NodeIdent list"
  rm_finished :: bool
  rm_startTime :: timeval
  rm_timeoutTV :: timeval
  rm_RetNodeMap :: "(NodeIdent, (NodeIdent, u32) smap) smap"

record ProbeQueryGeneric =
  pq_kind :: probe_kind
  pq_sockFD :: int
  pq_remoteNode :: NodeIdent
  pq_finished :: bool
  pq_startTime :: timeval
  pq_timeoutTV :: timeval
  pq_subscribers :: "u64 list"

record HandleReqGeneric =
  hr_kind :: probe_kind
  hr_srcNode :: NodeIdentRendv
  hr_finished :: bool
  hr_timeoutTV :: timeval
  hr_remoteNodes :: "NodeIdent list"
  hr_remoteLatencies :: "(NodeIdent, u32) smap"

record ReqProbeGeneric =
  rq_kind :: probe_kind
  rq_srcNode :: NodeIdentRendv
  rq_remoteNodes :: "NodeIdent list"
  rq_finished :: bool
  rq_timeoutTV :: timeval
  rq_subscribers :: "u64 list"

datatype HandleClosest_SM =
  HC_INIT | HC_WAIT_FOR_DIRECT_PING | HC_INDIRECT_PING | HC_WAIT_FOR_FIN

record HandleClosestGeneric =
  hc_kind :: probe_kind
  hc_betaNumer :: u16
  hc_betaDenom :: u16
  hc_averageLatUS :: u32
  hc_srcNode :: NodeIdentRendv
  hc_finished :: bool
  hc_selectedMember :: NodeIdent
  hc_timeoutTV :: timeval
  hc_remoteNodes :: "NodeIdent list"
  hc_ringMembers :: "NodeIdentRendv list"
  hc_remoteLatencies :: "(NodeIdent, u32) smap"
  hc_stateMachine :: HandleClosest_SM
  hc_ringLatencies :: "(NodeIdent, (NodeIdent, u32) smap) smap"

datatype HandleMultiConstraint_SM =
  HMC_INIT | HMC_WAIT_FOR_DIRECT_PING | HMC_INDIRECT_PING | HMC_WAIT_FOR_FIN

record HandleMCGeneric =
  mc_kind :: probe_kind
  mc_betaNumer :: u16
  mc_betaDenom :: u16
  mc_averageLatUS :: u32
  mc_srcNode :: NodeIdentRendv
  mc_finished :: bool
  mc_selectedMember :: NodeIdent
  mc_timeoutTV :: timeval
  mc_remoteNodes :: "NodeIdentConst list"
  mc_ringMembers :: "NodeIdentRendv list"
  mc_remoteLatencies :: "(NodeIdent, u32) smap"
  mc_stateMachine :: HandleMultiConstraint_SM
  mc_ringLatencies :: "(NodeIdent, (NodeIdent, u32) smap) smap"

datatype query =
    AddNodeQ AddNodeQuery
  | GossipQ GossipQuery
  | SchedulerQ QueryScheduler
  | RingManageQ RingManageQuery
  | ProbeQ ProbeQueryGeneric
  | HandleReqQ HandleReqGeneric
  | ReqProbeQ ReqProbeGeneric
  | HandleClosestQ HandleClosestGeneric
  | HandleMCQ HandleMCGeneric

fun timeOut :: "query \<Rightarrow> timeval" where
  "timeOut (AddNodeQ q) = an_timeoutTV q"
| "timeOut (GossipQ q) = gq_timeoutTV q"
| "timeOut (SchedulerQ q) = qs_timeoutTV q"
| "timeOut (RingManageQ q) = rm_timeoutTV q"
| "timeOut (ProbeQ q) = pq_timeoutTV q"
| "timeOut (HandleReqQ q) = hr_timeoutTV q"
| "timeOut (ReqProbeQ q) = rq_timeoutTV q"
| "timeOut (HandleClosestQ q) = hc_timeoutTV q"
| "timeOut (HandleMCQ q) = mc_timeoutTV q"

fun isFinished :: "query \<Rightarrow> bool" where
  "isFinished (AddNodeQ q) = an_finished q"
| "isFinished (GossipQ q) = gq_finished q"
| "isFinished (SchedulerQ q) = qs_finished q"
| "isFinished (RingManageQ q) = rm_finished q"
| "isFinished (ProbeQ q) = pq_finished q"
| "isFinished (HandleReqQ q) = hr_finished q"
| "isFinished (ReqProbeQ q) = rq_finished q"
| "isFinished (HandleClosestQ q) = hc_finished q"
| "isFinished (HandleMCQ q) = mc_finished q"

text \<open>The assignment \<^verbatim>\<open>finished = true\<close> (\<^verbatim>\<open>setFinished(true)\<close>) of whichever class.\<close>

fun finish :: "query \<Rightarrow> query" where
  "finish (AddNodeQ q) = AddNodeQ (q\<lparr>an_finished := True\<rparr>)"
| "finish (GossipQ q) = GossipQ (q\<lparr>gq_finished := True\<rparr>)"
| "finish (SchedulerQ q) = SchedulerQ (q\<lparr>qs_finished := True\<rparr>)"
| "finish (RingManageQ q) = RingManageQ (q\<lparr>rm_finished := True\<rparr>)"
| "finish (ProbeQ q) = ProbeQ (q\<lparr>pq_finished := True\<rparr>)"
| "finish (HandleReqQ q) = HandleReqQ (q\<lparr>hr_finished := True\<rparr>)"
| "finish (ReqProbeQ q) = ReqProbeQ (q\<lparr>rq_finished := True\<rparr>)"
| "finish (HandleClosestQ q) = HandleClosestQ (q\<lparr>hc_finished := True\<rparr>)"
| "finish (HandleMCQ q) = HandleMCQ (q\<lparr>mc_finished := True\<rparr>)"

text \<open>
  \<^verbatim>\<open>subscribeLatency\<close>: the three classes that report a measurement keep the list of the query
  ids to tell; the base class logs an error and does nothing.
\<close>

fun subscribeLatency :: "u64 \<Rightarrow> query \<Rightarrow> query" where
  "subscribeLatency in_qid (AddNodeQ q) =
     AddNodeQ (q\<lparr>an_subscribers := an_subscribers q @ [in_qid]\<rparr>)"
| "subscribeLatency in_qid (ProbeQ q) =
     ProbeQ (q\<lparr>pq_subscribers := pq_subscribers q @ [in_qid]\<rparr>)"
| "subscribeLatency in_qid (ReqProbeQ q) =
     ReqProbeQ (q\<lparr>rq_subscribers := rq_subscribers q @ [in_qid]\<rparr>)"
| "subscribeLatency in_qid q = q"

fun subscribers :: "query \<Rightarrow> u64 list" where
  "subscribers (AddNodeQ q) = an_subscribers q"
| "subscribers (ProbeQ q) = pq_subscribers q"
| "subscribers (ReqProbeQ q) = rq_subscribers q"
| "subscribers _ = []"

lemma isFinished_finish [simp]: "isFinished (finish q)"
  by (cases q) simp_all

lemma timeOut_finish [simp]: "timeOut (finish q) = timeOut q"
  by (cases q) simp_all

lemma subscribers_finish [simp]: "subscribers (finish q) = subscribers q"
  by (cases q) simp_all

lemma timeOut_subscribe [simp]: "timeOut (subscribeLatency s q) = timeOut q"
  by (cases q) simp_all

lemma set_subscribers_subscribe:
  "set (subscribers (subscribeLatency s q)) \<subseteq> insert s (set (subscribers q))"
  by (cases q) auto

end
