(* ===== verification/Process_State.thy ===== *)
theory Process_State
  imports Query_Objects "HOL-Library.Monad_Syntax"
begin

text \<open>
  MeridianProcess.h: the state of a node and the operations on it every query uses. The query
  objects live in \<open>g_queries\<close>, a store from query id to object; \<^verbatim>\<open>delete\<close> removes an object from
  it and an access through a pointer whose object is gone is the result \<open>None\<close>, as are a failed
  assertion and a read outside a buffer. So a theorem that an operation returns \<open>Some\<close> says that
  none of these happens.

  What the operating system answers is the parameter \<open>env\<close>: the clock readings, the values of
  \<^verbatim>\<open>rand()\<close>, the descriptors \<^verbatim>\<open>socket()\<close> returns, whether a call succeeds and whether a failed
  one set \<^verbatim>\<open>EAGAIN\<close>, each indexed by a counter of the state that the model advances with every
  call. \<open>g_datagrams\<close> is the trace of the datagrams handed to \<^verbatim>\<open>sendto\<close>; \<open>g_openFDs\<close> the
  descriptors opened and not closed.

  A descriptor set is an array of \<^verbatim>\<open>FD_SETSIZE\<close> bits. \<^verbatim>\<open>FD_SET\<close> or \<^verbatim>\<open>FD_CLR\<close> of any other descriptor, -1
  included, changes memory outside of it: \<open>g_fdFault\<close>, which is no field of the class, is set then and
  never reset. \<^verbatim>\<open>FD_ISSET\<close> of such a descriptor is the result \<open>None\<close>.
\<close>

record env =
  env_fpu :: fpu
  env_magic :: u32
  env_clock :: "nat \<Rightarrow> timeval"
  env_rand :: "nat \<Rightarrow> nat"
  env_socket :: "nat \<Rightarrow> int list \<Rightarrow> int"
  env_call :: "nat \<Rightarrow> bool"
  env_again :: "nat \<Rightarrow> bool"
  env_send :: "nat \<Rightarrow> int"
  env_volume :: "real list list \<Rightarrow> real"

record MeridianProcess =
  g_meridPort :: u16
  g_infoPort :: u16
  g_meridSock :: int
  g_infoSock :: int
  g_icmpSock :: int
  g_rendvFD :: int
  g_rendvListener :: int
  g_initGossipInterval_s :: u32
  g_numInitIntervalRemain :: u32
  g_ssGossipInterval_s :: u32
  g_replaceInterval_s :: u32
  g_readSet :: "int \<Rightarrow> bool"
  g_writeSet :: "int \<Rightarrow> bool"
  g_maxFD :: int
  g_rendvNode :: NodeIdent
  g_rings :: RingSet
  g_localAddr :: u32
  g_stopFD :: int
  g_hostname :: "u8 list"
  g_queryTable :: QueryTable
  g_queries :: "(u64, query) smap"
  g_tcpCache :: LatencyCache
  g_dnsCache :: LatencyCache
  g_pingCache :: LatencyCache
  g_icmpCache :: LatencyCache
  g_outPacketList :: "RealPacket list"
  g_icmpOutPacketList :: "RealPacket list"
  g_icmpSeq :: u16
  g_infoConnects :: "(int \<times> RealPacket) list"
  g_seedNodes :: "NodeIdentRendv list"
  g_tcpProbeConnections :: "(int, u64 \<times> NodeIdent) smap"
  g_dnsProbeConnections :: "(int, u64 \<times> NodeIdent) smap"
  g_rendvConnections :: "(NodeIdent, int) smap"
  g_rendvQueue :: "(int, RealPacket list) smap"
  g_rendvRecvPacket :: RealPacket
  g_openFDs :: "int list"
  g_datagrams :: "(NodeIdent \<times> u8 list) list"
  g_clockReads :: nat
  g_randDraws :: nat
  g_sysCalls :: nat
  g_fdFault :: bool

definition PROBE_CACHE_SIZE :: u32 where "PROBE_CACHE_SIZE = 1024"
definition PROBE_CACHE_TIMEOUT_US :: u32 where "PROBE_CACHE_TIMEOUT_US = 5 * 1000 * 1000"

definition MAX_INFO_CONNECTIONS :: nat where "MAX_INFO_CONNECTIONS = 16"

definition setGossipInterval :: "u32 \<Rightarrow> u32 \<Rightarrow> u32 \<Rightarrow> MeridianProcess \<Rightarrow> MeridianProcess" where
  "setGossipInterval initial_s initial_length steady_state_s p =
     p\<lparr>g_initGossipInterval_s := initial_s, g_numInitIntervalRemain := initial_length,
       g_ssGossipInterval_s := steady_state_s\<rparr>"

definition setReplaceInterval :: "u32 \<Rightarrow> MeridianProcess \<Rightarrow> MeridianProcess" where
  "setReplaceInterval seconds p = p\<lparr>g_replaceInterval_s := seconds\<rparr>"

definition setRendavousNode :: "u32 \<Rightarrow> u16 \<Rightarrow> MeridianProcess \<Rightarrow> MeridianProcess" where
  "setRendavousNode a n p = p\<lparr>g_rendvNode := \<lparr>addr = a, port = n\<rparr>\<rparr>"

definition addSeedNode :: "u32 \<Rightarrow> u16 \<Rightarrow> MeridianProcess \<Rightarrow> MeridianProcess" where
  "addSeedNode a n p = p\<lparr>g_seedNodes :=
     g_seedNodes p @ [\<lparr>addr = a, port = n, addrRendv = 0, portRendv = 0\<rparr>]\<rparr>"

text \<open>
  The constructor; the sockets are opened by \<^verbatim>\<open>start\<close>. The descriptor of the stop pipe is the
  caller's and open. \<^verbatim>\<open>g_icmpSeq\<close> is not initialised by the code; nothing depends on its value.
\<close>

definition newMeridianProcess :: "u16 \<Rightarrow> u16 \<Rightarrow> u32 \<Rightarrow> u32 \<Rightarrow> int \<Rightarrow> int \<Rightarrow> MeridianProcess" where
  "newMeridianProcess meridian_port info_port prim_size second_size ring_base stopFD =
     (let cache = newLatencyCache PROBE_CACHE_SIZE PROBE_CACHE_TIMEOUT_US in
      setReplaceInterval 300 (setGossipInterval 10 10 60 (setRendavousNode 0 0
      \<lparr>g_meridPort = meridian_port, g_infoPort = info_port, g_meridSock = -1, g_infoSock = -1,
       g_icmpSock = -1, g_rendvFD = -1, g_rendvListener = -1,
       g_initGossipInterval_s = 0, g_numInitIntervalRemain = 0, g_ssGossipInterval_s = 0,
       g_replaceInterval_s = 0, g_readSet = (\<lambda>_. False), g_writeSet = (\<lambda>_. False), g_maxFD = 0,
       g_rendvNode = \<lparr>addr = 0, port = 0\<rparr>,
       g_rings = newRingSet prim_size second_size (word_of_int ring_base),
       g_localAddr = 0, g_stopFD = stopFD, g_hostname = [],
       g_queryTable = newQueryTable, g_queries = [],
       g_tcpCache = cache, g_dnsCache = cache, g_pingCache = cache, g_icmpCache = cache,
       g_outPacketList = [], g_icmpOutPacketList = [], g_icmpSeq = 0,
       g_infoConnects = [], g_seedNodes = [],
       g_tcpProbeConnections = [], g_dnsProbeConnections = [],
       g_rendvConnections = [], g_rendvQueue = [],
       g_rendvRecvPacket = newRealPacket \<lparr>addr = 0, port = 0\<rparr> MAX_UDP_PACKET_SIZE,
       g_openFDs = [stopFD], g_datagrams = [], g_clockReads = 0, g_randDraws = 0,
       g_sysCalls = 0, g_fdFault = False\<rparr>)))"

subsection \<open>System calls\<close>

definition gettimeofday :: "env \<Rightarrow> MeridianProcess \<Rightarrow> timeval \<times> MeridianProcess" where
  "gettimeofday E p = (env_clock E (g_clockReads p), p\<lparr>g_clockReads := Suc (g_clockReads p)\<rparr>)"

definition c_rand :: "env \<Rightarrow> MeridianProcess \<Rightarrow> nat \<times> MeridianProcess" where
  "c_rand E p = (env_rand E (g_randDraws p), p\<lparr>g_randDraws := Suc (g_randDraws p)\<rparr>)"

definition sys_socket :: "env \<Rightarrow> MeridianProcess \<Rightarrow> int \<times> MeridianProcess" where
  "sys_socket E p =
     (let fd = env_socket E (g_sysCalls p) (g_openFDs p) in
      (fd, p\<lparr>g_sysCalls := Suc (g_sysCalls p),
             g_openFDs := (if fd = -1 then g_openFDs p else fd # g_openFDs p)\<rparr>))"

definition sys_call :: "env \<Rightarrow> MeridianProcess \<Rightarrow> bool \<times> MeridianProcess" where
  "sys_call E p = (env_call E (g_sysCalls p), p\<lparr>g_sysCalls := Suc (g_sysCalls p)\<rparr>)"

text \<open>\<^verbatim>\<open>send()\<close> on a stream socket: how many bytes it took, or -1.\<close>

definition sys_send :: "env \<Rightarrow> MeridianProcess \<Rightarrow> int \<times> MeridianProcess" where
  "sys_send E p = (env_send E (g_sysCalls p), p\<lparr>g_sysCalls := Suc (g_sysCalls p)\<rparr>)"

definition sys_close :: "int \<Rightarrow> MeridianProcess \<Rightarrow> MeridianProcess" where
  "sys_close fd p = p\<lparr>g_openFDs := removeAll fd (g_openFDs p)\<rparr>"

text \<open>The macros on descriptor sets.\<close>

definition FD_SETSIZE :: int where "FD_SETSIZE = 1024"

definition in_fd_set :: "int \<Rightarrow> bool" where
  "in_fd_set fd \<longleftrightarrow> 0 \<le> fd \<and> fd < FD_SETSIZE"

definition fd_check :: "int \<Rightarrow> MeridianProcess \<Rightarrow> MeridianProcess" where
  "fd_check fd p = (if in_fd_set fd then p else p\<lparr>g_fdFault := True\<rparr>)"

definition FD_ISSET :: "int \<Rightarrow> (int \<Rightarrow> bool) \<Rightarrow> bool option" where
  "FD_ISSET fd fds = (if in_fd_set fd then Some (fds fd) else None)"

lemma fd_check_in [simp]: "in_fd_set fd \<Longrightarrow> fd_check fd p = p"
  by (simp add: fd_check_def)

lemma FD_ISSET_in [simp]: "in_fd_set fd \<Longrightarrow> FD_ISSET fd fds = Some (fds fd)"
  by (simp add: FD_ISSET_def)

lemma FD_ISSET_out [simp]: "\<not> in_fd_set fd \<Longrightarrow> FD_ISSET fd fds = None"
  by (simp add: FD_ISSET_def)

text \<open>Where an index lies has no influence on the other fields.\<close>

lemma fd_check_sel [simp]:
  "g_meridPort (fd_check fd p) = g_meridPort p"
  "g_infoPort (fd_check fd p) = g_infoPort p"
  "g_meridSock (fd_check fd p) = g_meridSock p"
  "g_infoSock (fd_check fd p) = g_infoSock p"
  "g_icmpSock (fd_check fd p) = g_icmpSock p"
  "g_rendvFD (fd_check fd p) = g_rendvFD p"
  "g_rendvListener (fd_check fd p) = g_rendvListener p"
  "g_initGossipInterval_s (fd_check fd p) = g_initGossipInterval_s p"
  "g_numInitIntervalRemain (fd_check fd p) = g_numInitIntervalRemain p"
  "g_ssGossipInterval_s (fd_check fd p) = g_ssGossipInterval_s p"
  "g_replaceInterval_s (fd_check fd p) = g_replaceInterval_s p"
  "g_readSet (fd_check fd p) = g_readSet p"
  "g_writeSet (fd_check fd p) = g_writeSet p"
  "g_maxFD (fd_check fd p) = g_maxFD p"
  "g_rendvNode (fd_check fd p) = g_rendvNode p"
  "g_rings (fd_check fd p) = g_rings p"
  "g_localAddr (fd_check fd p) = g_localAddr p"
  "g_stopFD (fd_check fd p) = g_stopFD p"
  "g_hostname (fd_check fd p) = g_hostname p"
  "g_queryTable (fd_check fd p) = g_queryTable p"
  "g_queries (fd_check fd p) = g_queries p"
  "g_tcpCache (fd_check fd p) = g_tcpCache p"
  "g_dnsCache (fd_check fd p) = g_dnsCache p"
  "g_pingCache (fd_check fd p) = g_pingCache p"
  "g_icmpCache (fd_check fd p) = g_icmpCache p"
  "g_outPacketList (fd_check fd p) = g_outPacketList p"
  "g_icmpOutPacketList (fd_check fd p) = g_icmpOutPacketList p"
  "g_icmpSeq (fd_check fd p) = g_icmpSeq p"
  "g_infoConnects (fd_check fd p) = g_infoConnects p"
  "g_seedNodes (fd_check fd p) = g_seedNodes p"
  "g_tcpProbeConnections (fd_check fd p) = g_tcpProbeConnections p"
  "g_dnsProbeConnections (fd_check fd p) = g_dnsProbeConnections p"
  "g_rendvConnections (fd_check fd p) = g_rendvConnections p"
  "g_rendvQueue (fd_check fd p) = g_rendvQueue p"
  "g_rendvRecvPacket (fd_check fd p) = g_rendvRecvPacket p"
  "g_openFDs (fd_check fd p) = g_openFDs p"
  "g_datagrams (fd_check fd p) = g_datagrams p"
  "g_clockReads (fd_check fd p) = g_clockReads p"
  "g_randDraws (fd_check fd p) = g_randDraws p"
  "g_sysCalls (fd_check fd p) = g_sysCalls p"
  by (simp_all add: fd_check_def)

lemma not_in_fd_set [simp]: "\<not> in_fd_set (-1)"
  by (simp add: in_fd_set_def)

lemma in_fd_set_neq: "in_fd_set fd \<Longrightarrow> fd \<noteq> -1"
  by (simp add: in_fd_set_def)

definition set_write :: "int \<Rightarrow> MeridianProcess \<Rightarrow> MeridianProcess" where
  "set_write fd p = fd_check fd
     (p\<lparr>g_writeSet := (g_writeSet p)(fd := True), g_maxFD := max fd (g_maxFD p)\<rparr>)"

definition set_read :: "int \<Rightarrow> MeridianProcess \<Rightarrow> MeridianProcess" where
  "set_read fd p = fd_check fd
     (p\<lparr>g_readSet := (g_readSet p)(fd := True), g_maxFD := max fd (g_maxFD p)\<rparr>)"

definition clr_write :: "int \<Rightarrow> MeridianProcess \<Rightarrow> MeridianProcess" where
  "clr_write fd p = fd_check fd (p\<lparr>g_writeSet := (g_writeSet p)(fd := False)\<rparr>)"

definition clr_read :: "int \<Rightarrow> MeridianProcess \<Rightarrow> MeridianProcess" where
  "clr_read fd p = fd_check fd (p\<lparr>g_readSet := (g_readSet p)(fd := False)\<rparr>)"

subsection \<open>Timeouts and packets\<close>

text \<open>\<^verbatim>\<open>Query::computeTimeout\<close>.\<close>

definition computeTimeout :: "env \<Rightarrow> u32 \<Rightarrow> MeridianProcess \<Rightarrow> timeval \<times> MeridianProcess" where
  "computeTimeout E period p =
     (case gettimeofday E p of (curTime, p) \<Rightarrow>
       (timeradd curTime
          \<lparr>tv_sec = uint period div MICRO_IN_SECOND, tv_usec = uint period mod MICRO_IN_SECOND\<rparr>,
        p))"

text \<open>The latency the queries measure: microseconds since \<^verbatim>\<open>startTime\<close>, in an \<^verbatim>\<open>u_int\<close>.\<close>

definition elapsedUS :: "env \<Rightarrow> timeval \<Rightarrow> MeridianProcess \<Rightarrow> u32 \<times> MeridianProcess" where
  "elapsedUS E startTime p =
     (case gettimeofday E p of (curTime, p) \<Rightarrow>
       (word_of_int ((tv_sec curTime - tv_sec startTime) * MICRO_IN_SECOND
          + tv_usec curTime - tv_usec startTime), p))"

definition addOutPacket :: "RealPacket \<Rightarrow> MeridianProcess \<Rightarrow> int \<times> MeridianProcess" where
  "addOutPacket in_packet p =
     (0, set_write (g_meridSock p) (p\<lparr>g_outPacketList := g_outPacketList p @ [in_packet]\<rparr>))"

text \<open>
  The idiom \<^verbatim>\<open>RealPacket* inPacket = new RealPacket(dest); if (x.createRealPacket(*inPacket) ==
  -1) delete inPacket; else addOutPacket(inPacket)\<close>, with the return value of the creation.
\<close>

definition sendPacket :: "(RealPacket \<Rightarrow> int \<times> RealPacket) \<Rightarrow> NodeIdentRendv \<Rightarrow> MeridianProcess
    \<Rightarrow> int \<times> MeridianProcess" where
  "sendPacket create dest p =
     (case create (newRealPacketRendv dest MAX_UDP_PACKET_SIZE) of (ret, inPacket) \<Rightarrow>
       if ret = -1 then (-1, p) else (ret, snd (addOutPacket inPacket p)))"

text \<open>\<^verbatim>\<open>RealPacket(NodeIdent)\<close> is the same block with no rendezvous node.\<close>

definition noRendvDest :: "NodeIdent \<Rightarrow> NodeIdentRendv" where
  "noRendvDest n = \<lparr>addr = addr n, port = port n, addrRendv = 0, portRendv = 0\<rparr>"

lemma newRealPacket_noRendvDest: "newRealPacket n s = newRealPacketRendv (noRendvDest n) s"
  by (simp add: newRealPacket_def noRendvDest_def)

definition returnRendv :: "MeridianProcess \<Rightarrow> NodeIdent" where
  "returnRendv p = g_rendvNode p"

subsection \<open>The probe caches\<close>

definition cacheOf :: "probe_kind \<Rightarrow> MeridianProcess \<Rightarrow> LatencyCache" where
  "cacheOf k p = (case k of KindTCP \<Rightarrow> g_tcpCache p | KindDNS \<Rightarrow> g_dnsCache p
     | KindPing \<Rightarrow> g_pingCache p | KindICMP \<Rightarrow> g_icmpCache p)"

definition setCache :: "probe_kind \<Rightarrow> LatencyCache \<Rightarrow> MeridianProcess \<Rightarrow> MeridianProcess" where
  "setCache k c p = (case k of KindTCP \<Rightarrow> p\<lparr>g_tcpCache := c\<rparr> | KindDNS \<Rightarrow> p\<lparr>g_dnsCache := c\<rparr>
     | KindPing \<Rightarrow> p\<lparr>g_pingCache := c\<rparr> | KindICMP \<Rightarrow> p\<lparr>g_icmpCache := c\<rparr>)"

text \<open>ICMP has no ports: the node is stored under port 0.\<close>

definition cacheKey :: "probe_kind \<Rightarrow> NodeIdent \<Rightarrow> NodeIdent" where
  "cacheKey k n = (if k = KindICMP then \<lparr>addr = addr n, port = 0\<rparr> else n)"

definition cacheInsert :: "env \<Rightarrow> probe_kind \<Rightarrow> NodeIdent \<Rightarrow> u32 \<Rightarrow> MeridianProcess
    \<Rightarrow> (int \<times> MeridianProcess) option" where
  "cacheInsert E k inNode latency p =
     (case gettimeofday E p of (now, p) \<Rightarrow>
      case insertMeasurement now (cacheKey k inNode) latency (cacheOf k p) of
        None \<Rightarrow> None
      | Some (ret, c) \<Rightarrow> Some (ret, setCache k c p))"

text \<open>The clock is read only for a node that has an entry.\<close>

definition cacheGetLatency :: "env \<Rightarrow> probe_kind \<Rightarrow> NodeIdent \<Rightarrow> MeridianProcess
    \<Rightarrow> u32 option \<times> MeridianProcess" where
  "cacheGetLatency E k inNode p =
     (if sm_find (latencyMap (cacheOf k p)) (cacheKey k inNode) = None then (None, p)
      else case gettimeofday E p of (now, p) \<Rightarrow>
        (getLatency now (cacheKey k inNode) (cacheOf k p), p))"

subsection \<open>The store of query objects\<close>

definition deref :: "u64 \<Rightarrow> MeridianProcess \<Rightarrow> query option" where
  "deref qid p = sm_find (g_queries p) qid"

definition assignQ :: "u64 \<Rightarrow> query \<Rightarrow> MeridianProcess \<Rightarrow> MeridianProcess" where
  "assignQ qid q p = p\<lparr>g_queries := sm_upd qid q (g_queries p)\<rparr>"

definition modifyQ :: "u64 \<Rightarrow> (query \<Rightarrow> query) \<Rightarrow> MeridianProcess \<Rightarrow> MeridianProcess option" where
  "modifyQ qid f p = map_option (\<lambda>q. assignQ qid (f q) p) (deref qid p)"

definition deleteQ :: "u64 \<Rightarrow> MeridianProcess \<Rightarrow> MeridianProcess" where
  "deleteQ qid p = p\<lparr>g_queries := sm_erase qid (g_queries p)\<rparr>"

text \<open>
  \<^verbatim>\<open>QueryTable::insertNewQuery\<close> with the object: the caller deletes the object when the table
  refuses it, so the store holds it exactly when the table does.
\<close>

definition tableInsert :: "u64 \<Rightarrow> query \<Rightarrow> MeridianProcess \<Rightarrow> int \<times> MeridianProcess" where
  "tableInsert qid q p =
     (case insertNewQuery qid (timeOut q) (g_queryTable p) of (ret, t) \<Rightarrow>
       if ret = -1 then (-1, p) else (ret, assignQ qid q (p\<lparr>g_queryTable := t\<rparr>)))"

text \<open>\<^verbatim>\<open>QueryTable::updateTimeout\<close> with the object, which it deletes when it has finished.\<close>

definition tableUpdate :: "u64 \<Rightarrow> MeridianProcess \<Rightarrow> (int \<times> MeridianProcess) option" where
  "tableUpdate qid p =
     do { q \<leftarrow> deref qid p;
          (ret, t) \<leftarrow> updateTimeout qid (isFinished q) (timeOut q) (g_queryTable p);
          let p = p\<lparr>g_queryTable := t\<rparr>;
          Some (ret, if isFinished q then deleteQ qid p else p) }"

subsection \<open>New query ids\<close>

definition USHRT_MAX :: nat where "USHRT_MAX = 65535"

definition localQueryID :: "MeridianProcess \<Rightarrow> u16 \<Rightarrow> u64" where
  "localQueryID p randVal =
     (let secondParam = (push_bit 16 (ucast (g_meridPort p)) :: u32) OR ucast randVal
      in to64 (g_localAddr p) secondParam)"

function newQueryIDLoop :: "env \<Rightarrow> nat \<Rightarrow> MeridianProcess \<Rightarrow> u64 option \<times> MeridianProcess" where
  "newQueryIDLoop E i p =
     (if i < USHRT_MAX then
        case c_rand E p of (r, p) \<Rightarrow>
        let retVal = localQueryID p (word_of_nat (r mod USHRT_MAX)) in
        if \<not> isQueryInTable retVal (g_queryTable p) then (Some retVal, p)
        else newQueryIDLoop E (Suc i) p
      else (None, p))"
  by pat_completeness auto
termination by (relation "measure (\<lambda>(E, i, p). USHRT_MAX - i)") auto

declare newQueryIDLoop.simps [simp del]

definition getNewQueryID :: "env \<Rightarrow> MeridianProcess \<Rightarrow> u64 \<times> MeridianProcess" where
  "getNewQueryID E p =
     (case newQueryIDLoop E 0 p of
        (Some retVal, p) \<Rightarrow> (retVal, p)
      | (None, p) \<Rightarrow>
          (case c_rand E p of (a, p) \<Rightarrow>
           case c_rand E p of (b, p) \<Rightarrow> (to64 (word_of_nat a) (word_of_nat b), p)))"

end
