(* ===== verification/Probe_Sockets.thy ===== *)
theory Probe_Sockets
  imports Process_State
begin

text \<open>
  MeridianProcess.cpp: sending packets, the TCP and DNS connections of the probes and the ICMP
  echo packets. What a system call answers comes from \<open>env\<close>.
\<close>

subsection \<open>Sending\<close>

text \<open>
  \<^verbatim>\<open>performSend\<close>: a packet for a node behind a firewall is wrapped in a PUSH packet for the
  rendezvous node, which has no rendezvous node itself.
\<close>

definition wrapPush :: "u32 \<Rightarrow> RealPacket \<Rightarrow> RealPacket option" where
  "wrapPush magic in_packet =
     (let dest = rp_dest in_packet in
      if addrRendv dest \<noteq> 0 \<or> ucast (portRendv dest) \<noteq> (0 :: u16) then
        let pushPacket = newPushPacket 0 (addr dest) (port dest);
            rendvNode = \<lparr>addr = addrRendv dest, port = ucast (portRendv dest)\<rparr>
        in case PushPacket_createRealPacket magic pushPacket
                  (newRealPacket rendvNode MAX_UDP_PACKET_SIZE) of (ret, tmpPacket) \<Rightarrow>
           if ret = -1 then None else
           let tmpPacket = append_packet in_packet tmpPacket
           in if \<not> rp_complete tmpPacket then None else Some tmpPacket
      else Some in_packet)"

definition performSend :: "env \<Rightarrow> RealPacket \<Rightarrow> MeridianProcess \<Rightarrow> bool \<times> MeridianProcess" where
  "performSend E in_packet p =
     (case wrapPush (env_magic E) in_packet of
        None \<Rightarrow> (False, p)
      | Some q \<Rightarrow>
          (case sys_call E p of (ok, p) \<Rightarrow>
            (ok, if ok then p\<lparr>g_datagrams := g_datagrams p @ [(ident (rp_dest q), getPayLoad q)]\<rparr>
                 else p)))"

text \<open>
  \<^verbatim>\<open>writePending\<close>: send from the front of the queue until it is empty or the socket would block;
  a packet whose sending fails otherwise is dropped.
\<close>

fun writePendingLoop :: "env \<Rightarrow> RealPacket list \<Rightarrow> MeridianProcess
    \<Rightarrow> RealPacket list \<times> MeridianProcess" where
  "writePendingLoop E [] p = ([], clr_write (g_meridSock p) p)"
| "writePendingLoop E (firstPacket # rest) p =
     (case performSend E firstPacket p of (ok, p) \<Rightarrow>
      if \<not> ok \<and> env_again E (g_sysCalls p) then (firstPacket # rest, p)
      else writePendingLoop E rest p)"

definition writePending :: "env \<Rightarrow> MeridianProcess \<Rightarrow> MeridianProcess option" where
  "writePending E p =
     (if g_outPacketList p = [] then None
      else case writePendingLoop E (g_outPacketList p) p of (left, p) \<Rightarrow>
        Some (p\<lparr>g_outPacketList := left\<rparr>))"

subsection \<open>TCP and DNS connections\<close>

definition addTCPConnection :: "env \<Rightarrow> u64 \<Rightarrow> NodeIdent \<Rightarrow> MeridianProcess
    \<Rightarrow> (int \<times> MeridianProcess) option" where
  "addTCPConnection E in_qid in_remoteNode p =
     (case sys_socket E p of (newSock, p) \<Rightarrow>
      if newSock = -1 then Some (-1, p) else
      case sys_call E p of (nonBlock, p) \<Rightarrow>
      if \<not> nonBlock then Some (-1, sys_close newSock p) else
      case sys_call E p of (conn, p) \<Rightarrow>
      if \<not> conn then Some (-1, sys_close newSock p) else
      if sm_find (g_tcpProbeConnections p) newSock \<noteq> None then None else
      let p = p\<lparr>g_tcpProbeConnections :=
        sm_upd newSock (in_qid, in_remoteNode) (g_tcpProbeConnections p)\<rparr>
      in Some (newSock, set_write newSock p))"

text \<open>The query that \<^verbatim>\<open>res_mkquery\<close> builds is the resolver library's; its bytes are not modelled.\<close>

definition addDNSConnection :: "env \<Rightarrow> u64 \<Rightarrow> NodeIdent \<Rightarrow> MeridianProcess
    \<Rightarrow> (int \<times> MeridianProcess) option" where
  "addDNSConnection E in_qid in_remoteNode p =
     (case sys_socket E p of (newSock, p) \<Rightarrow>
      if newSock = -1 then Some (-1, p) else
      case sys_call E p of (nonBlock, p) \<Rightarrow>
      if \<not> nonBlock then Some (-1, sys_close newSock p) else
      case sys_call E p of (query, p) \<Rightarrow>
      if \<not> query then Some (-1, sys_close newSock p) else
      case sys_call E p of (sent, p) \<Rightarrow>
      if \<not> sent then Some (-1, sys_close newSock p) else
      if sm_find (g_dnsProbeConnections p) newSock \<noteq> None then None else
      let p = p\<lparr>g_dnsProbeConnections :=
        sm_upd newSock (in_qid, in_remoteNode) (g_dnsProbeConnections p)\<rparr>
      in Some (newSock, set_read newSock p))"

definition eraseTCPConnectionAt :: "int \<Rightarrow> MeridianProcess \<Rightarrow> int \<times> MeridianProcess" where
  "eraseTCPConnectionAt tmpSock p =
     (let p = p\<lparr>g_tcpProbeConnections := sm_erase tmpSock (g_tcpProbeConnections p)\<rparr>
      in (0, sys_close tmpSock (clr_write tmpSock p)))"

definition eraseDNSConnectionAt :: "int \<Rightarrow> MeridianProcess \<Rightarrow> int \<times> MeridianProcess" where
  "eraseDNSConnectionAt tmpSock p =
     (let p = p\<lparr>g_dnsProbeConnections := sm_erase tmpSock (g_dnsProbeConnections p)\<rparr>
      in (0, sys_close tmpSock (clr_read tmpSock p)))"

definition eraseTCPConnection :: "int \<Rightarrow> MeridianProcess \<Rightarrow> int \<times> MeridianProcess" where
  "eraseTCPConnection in_sock p =
     (if sm_find (g_tcpProbeConnections p) in_sock \<noteq> None then eraseTCPConnectionAt in_sock p
      else (0, p))"

definition eraseDNSConnection :: "int \<Rightarrow> MeridianProcess \<Rightarrow> int \<times> MeridianProcess" where
  "eraseDNSConnection in_sock p =
     (if sm_find (g_dnsProbeConnections p) in_sock \<noteq> None then eraseDNSConnectionAt in_sock p
      else (0, p))"

subsection \<open>ICMP echo\<close>

fun cksumWords :: "u8 list \<Rightarrow> int \<Rightarrow> int" where
  "cksumWords (a # b # w) s = cksumWords w (s + uint (bytes_u16 [a, b]))"
| "cksumWords [a] s = s + uint (htons (push_bit 8 (ucast a)))"
| "cksumWords [] s = s"

definition in_cksum :: "u8 list \<Rightarrow> u16 \<Rightarrow> u16" where
  "in_cksum ws csum =
     (let sum = cksumWords ws (uint csum);
          sum = sum div 65536 + sum mod 65536;
          sum = sum + sum div 65536
      in NOT (word_of_int sum))"

definition icmpIPHeader :: "u16 \<Rightarrow> u32 \<Rightarrow> u8 list" where
  "icmpIPHeader ipId daddr =
     [0x45, 0] @ net_ushort 36 @ u16_bytes ipId @ u16_bytes 0x40 @ [64, 1] @ u16_bytes 0 @
     u32_bytes 0 @ net_uint daddr"

definition icmpEcho :: "u16 \<Rightarrow> u16 \<Rightarrow> u16 \<Rightarrow> u64 \<Rightarrow> u8 list" where
  "icmpEcho checksum icmpPort icmpSeq in_qid =
     (case to32 in_qid of (qid_1, qid_2) \<Rightarrow>
       [8, 0] @ u16_bytes checksum @ net_ushort icmpPort @ net_ushort icmpSeq @
       net_uint qid_1 @ net_uint qid_2)"

definition addICMPOutPacket :: "RealPacket \<Rightarrow> MeridianProcess \<Rightarrow> int \<times> MeridianProcess" where
  "addICMPOutPacket in_packet p =
     (0, set_write (g_icmpSock p) (p\<lparr>g_icmpOutPacketList := g_icmpOutPacketList p @ [in_packet]\<rparr>))"

definition sendICMPProbe :: "env \<Rightarrow> u64 \<Rightarrow> u32 \<Rightarrow> MeridianProcess \<Rightarrow> int \<times> MeridianProcess" where
  "sendICMPProbe E in_qid in_remoteNode p =
     (let icmpPort = g_meridPort p;
          newPacket = setPayLoadSize 36 (newRealPacket \<lparr>addr = in_remoteNode, port = icmpPort\<rparr> 36)
      in case c_rand E p of (r, p) \<Rightarrow>
      let echo = icmpEcho 0 icmpPort (g_icmpSeq p) in_qid;
          echo = icmpEcho (in_cksum echo 0) icmpPort (g_icmpSeq p) in_qid;
          newPacket = newPacket\<lparr>rp_packet :=
            icmpIPHeader (word_of_nat r) in_remoteNode @ echo\<rparr>;
          p = p\<lparr>g_icmpSeq := g_icmpSeq p + 1\<rparr>
      in (0, snd (addICMPOutPacket newPacket p)))"

end
