(* ===== verification/Probe_Queries.thy ===== *)
theory Probe_Queries
  imports Probe_Sockets
begin

text \<open>
  Query.cpp, first part: the queries that measure one latency. \<open>ProbeQueryGeneric\<close> measures the
  latency from this node, \<open>ReqProbeGeneric\<close> asks another node to measure, \<open>HandleReqGeneric\<close>
  answers such a request, \<open>AddNodeQuery\<close> measures a node and puts it into the rings and
  \<open>GossipQuery\<close> starts one and then sends a gossip packet.

  A handler works on the object \<open>self\<close> in the store. The calls back into the query table
  (\<^verbatim>\<open>notifyQLatency\<close>) are the argument \<open>notify\<close>; the theory \<open>Query_Engine\<close> ties the knot.
\<close>

type_synonym notifier =
  "u64 \<Rightarrow> NodeIdentLat list \<Rightarrow> MeridianProcess \<Rightarrow> (int \<times> MeridianProcess) option"

fun notifyAll :: "notifier \<Rightarrow> u64 list \<Rightarrow> NodeIdentLat list \<Rightarrow> MeridianProcess
    \<Rightarrow> MeridianProcess option" where
  "notifyAll notify [] subVect p = Some p"
| "notifyAll notify (s # ss) subVect p =
     do { (_, p) \<leftarrow> notify s subVect p; notifyAll notify ss subVect p }"

definition nodeLat :: "'a NodeIdent_scheme \<Rightarrow> u32 \<Rightarrow> NodeIdentLat" where
  "nodeLat n l = \<lparr>addr = addr n, port = port n, latencyUS = l\<rparr>"

text \<open>\<^verbatim>\<open>inPacket[0]\<close>: reading the first byte of the datagram.\<close>

definition firstByte :: "u8 list \<Rightarrow> u8 option" where
  "firstByte buf = (case buf of [] \<Rightarrow> None | b # _ \<Rightarrow> Some b)"

subsection \<open>ReqProbeGeneric\<close>

definition this_ReqProbe :: "u64 \<Rightarrow> MeridianProcess \<Rightarrow> ReqProbeGeneric option" where
  "this_ReqProbe self p = (case deref self p of Some (ReqProbeQ q) \<Rightarrow> Some q | _ \<Rightarrow> None)"

definition measureType :: "probe_kind \<Rightarrow> u8" where
  "measureType k = (case k of KindTCP \<Rightarrow> ReqMeasureTCP_type | KindDNS \<Rightarrow> ReqMeasureDNS_type
     | KindPing \<Rightarrow> ReqMeasurePing_type | KindICMP \<Rightarrow> ReqMeasureICMP_type)"

definition newReqProbe :: "env \<Rightarrow> probe_kind \<Rightarrow> NodeIdentRendv \<Rightarrow> NodeIdent list
    \<Rightarrow> MeridianProcess \<Rightarrow> (u64 \<times> query) \<times> MeridianProcess" where
  "newReqProbe E k in_src_node in_remote p =
     (case getNewQueryID E p of (qid, p) \<Rightarrow>
      case computeTimeout E (2 * MAX_RTT_MS * MICRO_IN_MILLI) p of (tv, p) \<Rightarrow>
      ((qid, ReqProbeQ \<lparr>rq_kind = k, rq_srcNode = in_src_node,
          rq_remoteNodes = fold insort_insert in_remote [], rq_finished = False,
          rq_timeoutTV = tv, rq_subscribers = []\<rparr>), p))"

definition ReqProbe_init :: "env \<Rightarrow> u64 \<Rightarrow> MeridianProcess \<Rightarrow> (int \<times> MeridianProcess) option" where
  "ReqProbe_init E self p =
     do { q \<leftarrow> this_ReqProbe self p;
          let tmpRendvNode = returnRendv p;
          let packet = fold rg_addTarget (rq_remoteNodes q)
            (newReqGeneric self (addr tmpRendvNode) (port tmpRendvNode));
          Some (sendPacket
            (ReqGeneric_createRealPacket (measureType (rq_kind q)) (env_magic E) packet)
            (rq_srcNode q) p) }"

text \<open>\<^verbatim>\<open>insertNewQuery(new ReqProbe...)\<close>, then \<^verbatim>\<open>subscribeLatency\<close> and \<^verbatim>\<open>init\<close>, or \<^verbatim>\<open>delete\<close>.\<close>

definition startReqProbe :: "env \<Rightarrow> probe_kind \<Rightarrow> NodeIdentRendv \<Rightarrow> NodeIdent list \<Rightarrow> u64
    \<Rightarrow> MeridianProcess \<Rightarrow> MeridianProcess option" where
  "startReqProbe E k in_src_node in_remote subscriber p =
     (case newReqProbe E k in_src_node in_remote p of ((nid, q), p) \<Rightarrow>
      case tableInsert nid q p of (ret, p) \<Rightarrow>
      if ret = -1 then Some p else
      do { p \<leftarrow> modifyQ nid (subscribeLatency subscriber) p;
           (_, p) \<leftarrow> ReqProbe_init E nid p;
           Some p })"

definition ReqProbe_handleEvent :: "env \<Rightarrow> notifier \<Rightarrow> u64 \<Rightarrow> NodeIdent \<Rightarrow> u8 list
    \<Rightarrow> MeridianProcess \<Rightarrow> (int \<times> MeridianProcess) option" where
  "ReqProbe_handleEvent E notify self in_remote inPacket p =
     do { q \<leftarrow> this_ReqProbe self p;
          c \<leftarrow> firstByte inPacket;
          if c \<noteq> RET_PING_REQ then Some (-1, p)
          else if addr in_remote \<noteq> addr (rq_srcNode q) \<or> port in_remote \<noteq> port (rq_srcNode q)
          then Some (-1, p)
          else case fst (RetPing_parse (env_magic E) inPacket) of
            None \<Rightarrow> Some (-1, p)
          | Some ret \<Rightarrow>
              if length (rp_nodes ret) \<noteq> length (rq_remoteNodes q) then Some (-1, p)
              else do {
                p \<leftarrow> notifyAll notify (rq_subscribers q)
                  (nodeLat (rq_srcNode q) 0 # rp_nodes ret) p;
                p \<leftarrow> modifyQ self finish p;
                Some (0, p) } }"

definition ReqProbe_handleTimeout :: "env \<Rightarrow> u64 \<Rightarrow> MeridianProcess
    \<Rightarrow> (int \<times> MeridianProcess) option" where
  "ReqProbe_handleTimeout E self p =
     do { q \<leftarrow> this_ReqProbe self p;
          (_, rs) \<leftarrow> eraseNode (env_fpu E) (ident (rq_srcNode q)) (g_rings p);
          p \<leftarrow> modifyQ self finish (p\<lparr>g_rings := rs\<rparr>);
          Some (0, p) }"

subsection \<open>ProbeQueryGeneric\<close>

definition this_Probe :: "u64 \<Rightarrow> MeridianProcess \<Rightarrow> ProbeQueryGeneric option" where
  "this_Probe self p = (case deref self p of Some (ProbeQ q) \<Rightarrow> Some q | _ \<Rightarrow> None)"

definition newProbeQuery :: "env \<Rightarrow> probe_kind \<Rightarrow> NodeIdent \<Rightarrow> MeridianProcess
    \<Rightarrow> (u64 \<times> query) \<times> MeridianProcess" where
  "newProbeQuery E k in_remote p =
     (case getNewQueryID E p of (qid, p) \<Rightarrow>
      case computeTimeout E (MAX_RTT_MS * MICRO_IN_MILLI) p of (tv, p) \<Rightarrow>
      ((qid, ProbeQ \<lparr>pq_kind = k, pq_sockFD = -1, pq_remoteNode = in_remote,
          pq_finished = False, pq_startTime = \<lparr>tv_sec = 0, tv_usec = 0\<rparr>,
          pq_timeoutTV = tv, pq_subscribers = []\<rparr>), p))"

fun setStartTime :: "timeval \<Rightarrow> query \<Rightarrow> query" where
  "setStartTime tv (AddNodeQ q) = AddNodeQ (q\<lparr>an_startTime := tv\<rparr>)"
| "setStartTime tv (GossipQ q) = GossipQ (q\<lparr>gq_startTime := tv\<rparr>)"
| "setStartTime tv (RingManageQ q) = RingManageQ (q\<lparr>rm_startTime := tv\<rparr>)"
| "setStartTime tv (ProbeQ q) = ProbeQ (q\<lparr>pq_startTime := tv\<rparr>)"
| "setStartTime tv q = q"

fun setSockFD :: "int \<Rightarrow> query \<Rightarrow> query" where
  "setSockFD fd (ProbeQ q) = ProbeQ (q\<lparr>pq_sockFD := fd\<rparr>)"
| "setSockFD fd q = q"

text \<open>\<^verbatim>\<open>init\<close> of the four subclasses.\<close>

definition ProbeQueryTCP_init :: "env \<Rightarrow> u64 \<Rightarrow> MeridianProcess \<Rightarrow> (int \<times> MeridianProcess) option" where
  "ProbeQueryTCP_init E self p =
     (case gettimeofday E p of (now, p) \<Rightarrow>
      do { p \<leftarrow> modifyQ self (setStartTime now) p;
           q \<leftarrow> this_Probe self p;
           (fd, p) \<leftarrow> addTCPConnection E self (pq_remoteNode q) p;
           p \<leftarrow> modifyQ self (setSockFD fd) p;
           Some (0, p) })"

definition ProbeQueryDNS_init :: "env \<Rightarrow> u64 \<Rightarrow> MeridianProcess \<Rightarrow> (int \<times> MeridianProcess) option" where
  "ProbeQueryDNS_init E self p =
     (case gettimeofday E p of (now, p) \<Rightarrow>
      do { p \<leftarrow> modifyQ self (setStartTime now) p;
           q \<leftarrow> this_Probe self p;
           (fd, p) \<leftarrow> addDNSConnection E self (pq_remoteNode q) p;
           p \<leftarrow> modifyQ self (setSockFD fd) p;
           Some (0, p) })"

definition ProbeQueryPing_init :: "env \<Rightarrow> u64 \<Rightarrow> MeridianProcess \<Rightarrow> (int \<times> MeridianProcess) option" where
  "ProbeQueryPing_init E self p =
     (case gettimeofday E p of (now, p) \<Rightarrow>
      do { p \<leftarrow> modifyQ self (setStartTime now) p;
           q \<leftarrow> this_Probe self p;
           Some (sendPacket (PingPacket_createRealPacket (env_magic E) (newPacket self))
             (noRendvDest (pq_remoteNode q)) p) })"

definition ProbeQueryICMP_init :: "env \<Rightarrow> u64 \<Rightarrow> MeridianProcess \<Rightarrow> (int \<times> MeridianProcess) option" where
  "ProbeQueryICMP_init E self p =
     (case gettimeofday E p of (now, p) \<Rightarrow>
      do { p \<leftarrow> modifyQ self (setStartTime now) p;
           q \<leftarrow> this_Probe self p;
           Some (sendICMPProbe E self (addr (pq_remoteNode q)) p) })"

definition ProbeQuery_init :: "env \<Rightarrow> u64 \<Rightarrow> MeridianProcess \<Rightarrow> (int \<times> MeridianProcess) option" where
  "ProbeQuery_init E self p =
     do { q \<leftarrow> this_Probe self p;
          (case pq_kind q of KindTCP \<Rightarrow> ProbeQueryTCP_init | KindDNS \<Rightarrow> ProbeQueryDNS_init
           | KindPing \<Rightarrow> ProbeQueryPing_init | KindICMP \<Rightarrow> ProbeQueryICMP_init) E self p }"

definition startProbe :: "env \<Rightarrow> probe_kind \<Rightarrow> NodeIdent \<Rightarrow> u64 \<Rightarrow> MeridianProcess
    \<Rightarrow> MeridianProcess option" where
  "startProbe E k in_remote subscriber p =
     (case newProbeQuery E k in_remote p of ((nid, q), p) \<Rightarrow>
      case tableInsert nid q p of (ret, p) \<Rightarrow>
      if ret = -1 then Some p else
      do { p \<leftarrow> modifyQ nid (subscribeLatency subscriber) p;
           (_, p) \<leftarrow> ProbeQuery_init E nid p;
           Some p })"

definition ProbeQuery_handleTimeout :: "u64 \<Rightarrow> MeridianProcess \<Rightarrow> (int \<times> MeridianProcess) option" where
  "ProbeQuery_handleTimeout self p =
     do { q \<leftarrow> this_Probe self p;
          let tmpFD = pq_sockFD q;
          let p = (case pq_kind q of
              KindTCP \<Rightarrow> if tmpFD \<noteq> -1 then snd (eraseTCPConnection tmpFD p) else p
            | KindDNS \<Rightarrow> if tmpFD \<noteq> -1 then snd (eraseDNSConnection tmpFD p) else p
            | _ \<Rightarrow> p);
          p \<leftarrow> modifyQ self finish p;
          Some (0, p) }"

definition ProbeQuery_handleLatency :: "env \<Rightarrow> notifier \<Rightarrow> u64 \<Rightarrow> NodeIdentLat list
    \<Rightarrow> MeridianProcess \<Rightarrow> (int \<times> MeridianProcess) option" where
  "ProbeQuery_handleLatency E notify self in_remoteNodes p =
     do { q \<leftarrow> this_Probe self p;
          case in_remoteNodes of
            [in_remote] \<Rightarrow>
              if addr in_remote \<noteq> addr (pq_remoteNode q) then Some (-1, p)
              else case elapsedUS E (pq_startTime q) p of (realLatencyUS, p) \<Rightarrow>
                do { p \<leftarrow> notifyAll notify (pq_subscribers q)
                       [nodeLat (pq_remoteNode q) realLatencyUS] p;
                     (_, p) \<leftarrow> cacheInsert E (pq_kind q) (pq_remoteNode q) realLatencyUS p;
                     p \<leftarrow> modifyQ self finish p;
                     Some (0, p) }
          | _ \<Rightarrow> Some (-1, p) }"

definition ProbeQuery_handleEvent :: "env \<Rightarrow> notifier \<Rightarrow> u64 \<Rightarrow> NodeIdent \<Rightarrow> MeridianProcess
    \<Rightarrow> (int \<times> MeridianProcess) option" where
  "ProbeQuery_handleEvent E notify self in_remote p =
     ProbeQuery_handleLatency E notify self [nodeLat in_remote 0] p"

text \<open>
  The loop with which the three request handlers start: a target whose latency is in the cache
  is recorded, the others are probed. \<open>record_latency\<close> is the assignment
  \<^verbatim>\<open>remoteLatencies[node] = latency\<close>.
\<close>

fun record_latency :: "NodeIdent \<Rightarrow> u32 \<Rightarrow> query \<Rightarrow> query" where
  "record_latency n l (HandleReqQ q) =
     HandleReqQ (q\<lparr>hr_remoteLatencies := sm_upd n l (hr_remoteLatencies q)\<rparr>)"
| "record_latency n l (HandleClosestQ q) =
     HandleClosestQ (q\<lparr>hc_remoteLatencies := sm_upd n l (hc_remoteLatencies q)\<rparr>)"
| "record_latency n l (HandleMCQ q) =
     HandleMCQ (q\<lparr>mc_remoteLatencies := sm_upd n l (mc_remoteLatencies q)\<rparr>)"
| "record_latency n l q = q"

fun probeTargets :: "env \<Rightarrow> probe_kind \<Rightarrow> u64 \<Rightarrow> NodeIdent list \<Rightarrow> MeridianProcess
    \<Rightarrow> MeridianProcess option" where
  "probeTargets E k self [] p = Some p"
| "probeTargets E k self (curIdent # ns) p =
     (case cacheGetLatency E k curIdent p of (found, p) \<Rightarrow>
      do { p \<leftarrow> (case found of
               None \<Rightarrow> startProbe E k curIdent self p
             | Some curLatencyUS \<Rightarrow> modifyQ self (record_latency curIdent curLatencyUS) p);
           probeTargets E k self ns p })"

subsection \<open>HandleReqGeneric\<close>

definition this_HandleReq :: "u64 \<Rightarrow> MeridianProcess \<Rightarrow> HandleReqGeneric option" where
  "this_HandleReq self p = (case deref self p of Some (HandleReqQ q) \<Rightarrow> Some q | _ \<Rightarrow> None)"

text \<open>A target (0, 0) asks for a measurement of the requesting node itself.\<close>

definition newHandleReq :: "env \<Rightarrow> probe_kind \<Rightarrow> NodeIdentRendv \<Rightarrow> NodeIdent list
    \<Rightarrow> MeridianProcess \<Rightarrow> query \<times> MeridianProcess" where
  "newHandleReq E k in_srcNode in_remote p =
     (case computeTimeout E (MAX_RTT_MS * MICRO_IN_MILLI) p of (tv, p) \<Rightarrow>
      (HandleReqQ \<lparr>hr_kind = k, hr_srcNode = in_srcNode, hr_finished = False, hr_timeoutTV = tv,
         hr_remoteNodes = fold (\<lambda>n. insort_insert
             (if addr n = 0 \<and> port n = 0 then ident in_srcNode else n)) in_remote [],
         hr_remoteLatencies = []\<rparr>, p))"

definition HandleReq_sendReturnPacket :: "env \<Rightarrow> u64 \<Rightarrow> MeridianProcess
    \<Rightarrow> (int \<times> MeridianProcess) option" where
  "HandleReq_sendReturnPacket E self p =
     do { q \<leftarrow> this_HandleReq self p;
          let retPacket = fold (\<lambda>(n, l). RetPing_addNode n l) (hr_remoteLatencies q)
            (newRetPing self);
          Some (sendPacket (RetPing_createRealPacket (env_magic E) retPacket) (hr_srcNode q) p) }"

definition HandleReq_done :: "env \<Rightarrow> u64 \<Rightarrow> MeridianProcess \<Rightarrow> (int \<times> MeridianProcess) option" where
  "HandleReq_done E self p =
     do { p \<leftarrow> modifyQ self finish p; HandleReq_sendReturnPacket E self p }"

definition HandleReq_handleLatency :: "env \<Rightarrow> u64 \<Rightarrow> NodeIdentLat list \<Rightarrow> MeridianProcess
    \<Rightarrow> (int \<times> MeridianProcess) option" where
  "HandleReq_handleLatency E self in_remoteNodes p =
     do { q \<leftarrow> this_HandleReq self p;
          if length (hr_remoteLatencies q) = length (hr_remoteNodes q)
          then HandleReq_done E self p
          else case in_remoteNodes of
            [n] \<Rightarrow>
              (let in_remote = ident n in
               if in_remote \<notin> set (hr_remoteNodes q) then Some (-1, p)
               else if sm_find (hr_remoteLatencies q) in_remote \<noteq> None then Some (-1, p)
               else do {
                 p \<leftarrow> modifyQ self (record_latency in_remote (latencyUS n)) p;
                 q \<leftarrow> this_HandleReq self p;
                 if length (hr_remoteLatencies q) \<noteq> length (hr_remoteNodes q) then Some (0, p)
                 else HandleReq_done E self p })
          | _ \<Rightarrow> Some (-1, p) }"

definition HandleReq_handleTimeout :: "env \<Rightarrow> u64 \<Rightarrow> MeridianProcess
    \<Rightarrow> (int \<times> MeridianProcess) option" where
  "HandleReq_handleTimeout E self p = HandleReq_done E self p"

definition HandleReq_init :: "env \<Rightarrow> notifier \<Rightarrow> u64 \<Rightarrow> MeridianProcess
    \<Rightarrow> (int \<times> MeridianProcess) option" where
  "HandleReq_init E notify self p =
     do { q \<leftarrow> this_HandleReq self p;
          p \<leftarrow> probeTargets E (hr_kind q) self (hr_remoteNodes q) p;
          q \<leftarrow> this_HandleReq self p;
          if length (hr_remoteLatencies q) = length (hr_remoteNodes q)
          then do { (_, p) \<leftarrow> notify self [] p; Some (0, p) }
          else Some (0, p) }"

subsection \<open>AddNodeQuery\<close>

definition this_AddNode :: "u64 \<Rightarrow> MeridianProcess \<Rightarrow> AddNodeQuery option" where
  "this_AddNode self p = (case deref self p of Some (AddNodeQ q) \<Rightarrow> Some q | _ \<Rightarrow> None)"

definition newAddNode :: "env \<Rightarrow> NodeIdentRendv \<Rightarrow> MeridianProcess
    \<Rightarrow> (u64 \<times> query) \<times> MeridianProcess" where
  "newAddNode E in_remote p =
     (case getNewQueryID E p of (qid, p) \<Rightarrow>
      case computeTimeout E (MAX_RTT_MS * MICRO_IN_MILLI) p of (tv, p) \<Rightarrow>
      ((qid, AddNodeQ \<lparr>an_remoteNode = in_remote, an_finished = False,
          an_startTime = \<lparr>tv_sec = 0, tv_usec = 0\<rparr>, an_timeoutTV = tv, an_subscribers = []\<rparr>), p))"

text \<open>The common end of \<^verbatim>\<open>handleLatency\<close> and \<^verbatim>\<open>handleEvent\<close>, once the latency is known.\<close>

definition AddNode_measured :: "env \<Rightarrow> notifier \<Rightarrow> u64 \<Rightarrow> AddNodeQuery \<Rightarrow> u32 \<Rightarrow> MeridianProcess
    \<Rightarrow> (int \<times> MeridianProcess) option" where
  "AddNode_measured E notify self q latency p =
     (let remote = an_remoteNode q;
          rendvRemoteNode = \<lparr>addr = addrRendv remote, port = ucast (portRendv remote)\<rparr>
      in do {
        (_, rs) \<leftarrow> insertNodeRendv (env_fpu E) (ident remote) latency rendvRemoteNode (g_rings p);
        p \<leftarrow> notifyAll notify (an_subscribers q) [nodeLat remote latency] (p\<lparr>g_rings := rs\<rparr>);
        (_, p) \<leftarrow> cacheInsert E KindPing (ident remote) latency p;
        p \<leftarrow> modifyQ self finish p;
        Some (0, p) })"

definition AddNode_handleLatency :: "env \<Rightarrow> notifier \<Rightarrow> u64 \<Rightarrow> NodeIdentLat list
    \<Rightarrow> MeridianProcess \<Rightarrow> (int \<times> MeridianProcess) option" where
  "AddNode_handleLatency E notify self in_remoteNodes p =
     do { q \<leftarrow> this_AddNode self p;
          case in_remoteNodes of
            [src, tgt] \<Rightarrow>
              if addr src \<noteq> addr (an_remoteNode q) \<or> port src \<noteq> port (an_remoteNode q)
              then Some (-1, p)
              else AddNode_measured E notify self q (latencyUS tgt) p
          | _ \<Rightarrow> Some (-1, p) }"

definition AddNode_handleEvent :: "env \<Rightarrow> notifier \<Rightarrow> u64 \<Rightarrow> NodeIdent \<Rightarrow> u8 list
    \<Rightarrow> MeridianProcess \<Rightarrow> (int \<times> MeridianProcess) option" where
  "AddNode_handleEvent E notify self in_remote inPacket p =
     do { q \<leftarrow> this_AddNode self p;
          c \<leftarrow> firstByte inPacket;
          if c \<noteq> PONG then Some (-1, p)
          else if addr in_remote \<noteq> addr (an_remoteNode q) \<or>
                  port in_remote \<noteq> port (an_remoteNode q) then Some (-1, p)
          else case elapsedUS E (an_startTime q) p of (l, p) \<Rightarrow>
            AddNode_measured E notify self q l p }"

definition AddNode_handleTimeout :: "env \<Rightarrow> u64 \<Rightarrow> MeridianProcess
    \<Rightarrow> (int \<times> MeridianProcess) option" where
  "AddNode_handleTimeout E self p =
     do { q \<leftarrow> this_AddNode self p;
          (_, rs) \<leftarrow> eraseNode (env_fpu E) (ident (an_remoteNode q)) (g_rings p);
          p \<leftarrow> modifyQ self finish (p\<lparr>g_rings := rs\<rparr>);
          Some (0, p) }"

definition AddNode_init :: "env \<Rightarrow> u64 \<Rightarrow> MeridianProcess \<Rightarrow> (int \<times> MeridianProcess) option" where
  "AddNode_init E self p =
     (case gettimeofday E p of (now, p) \<Rightarrow>
      do { p \<leftarrow> modifyQ self (setStartTime now) p;
           q \<leftarrow> this_AddNode self p;
           let rendvInfo = returnRendv p;
           let remote = an_remoteNode q;
           if addrRendv remote = 0 \<and> portRendv remote = 0 then
             Some (sendPacket (PingPacket_createRealPacket (env_magic E) (newPacket self)) remote p)
           else if addr rendvInfo = 0 \<and> port rendvInfo = 0 then
             do { p \<leftarrow> startReqProbe E KindPing remote [\<lparr>addr = 0, port = 0\<rparr>] self p;
                  Some (0, p) }
           else Some (0, p) })"

subsection \<open>GossipQuery\<close>

definition this_Gossip :: "u64 \<Rightarrow> MeridianProcess \<Rightarrow> GossipQuery option" where
  "this_Gossip self p = (case deref self p of Some (GossipQ q) \<Rightarrow> Some q | _ \<Rightarrow> None)"

definition newGossip :: "env \<Rightarrow> NodeIdentRendv \<Rightarrow> MeridianProcess
    \<Rightarrow> (u64 \<times> query) \<times> MeridianProcess" where
  "newGossip E in_remote p =
     (case getNewQueryID E p of (qid, p) \<Rightarrow>
      case computeTimeout E (MAX_RTT_MS * MICRO_IN_MILLI) p of (tv, p) \<Rightarrow>
      ((qid, GossipQ \<lparr>gq_remoteNode = in_remote, gq_finished = False,
          gq_startTime = \<lparr>tv_sec = 0, tv_usec = 0\<rparr>, gq_timeoutTV = tv\<rparr>), p))"

definition Gossip_init :: "env \<Rightarrow> u64 \<Rightarrow> MeridianProcess \<Rightarrow> (int \<times> MeridianProcess) option" where
  "Gossip_init E self p =
     (case gettimeofday E p of (now, p) \<Rightarrow>
      do { p \<leftarrow> modifyQ self (setStartTime now) p;
           q \<leftarrow> this_Gossip self p;
           (case newAddNode E (gq_remoteNode q) p of ((nid, nq), p) \<Rightarrow>
            case tableInsert nid nq p of (ret, p) \<Rightarrow>
            if ret = -1 then Some (-1, p) else
            do { p \<leftarrow> modifyQ nid (subscribeLatency self) p;
                 (_, p) \<leftarrow> AddNode_init E nid p;
                 Some (0, p) }) })"

definition Gossip_handleTimeout :: "u64 \<Rightarrow> MeridianProcess \<Rightarrow> (int \<times> MeridianProcess) option" where
  "Gossip_handleTimeout self p = do { p \<leftarrow> modifyQ self finish p; Some (0, p) }"

definition fillGossipPacket :: "env \<Rightarrow> GossipPacketGeneric \<Rightarrow> NodeIdentRendv \<Rightarrow> MeridianProcess
    \<Rightarrow> GossipPacketGeneric \<times> MeridianProcess" where
  "fillGossipPacket E in_packet in_target p =
     (case getRandomNodes (env_rand E) (g_rings p) ([], g_randDraws p) of (randomNodes, k) \<Rightarrow>
       (fold (\<lambda>curR pk.
            if addr curR \<noteq> addr in_target \<or> port curR \<noteq> port in_target
            then gp_addNode (addr curR) (port curR) (addrRendv curR) (ucast (portRendv curR)) pk
            else pk) randomNodes in_packet,
        p\<lparr>g_randDraws := k\<rparr>))"

definition Gossip_handleLatency :: "env \<Rightarrow> u64 \<Rightarrow> NodeIdentLat list \<Rightarrow> MeridianProcess
    \<Rightarrow> (int \<times> MeridianProcess) option" where
  "Gossip_handleLatency E self in_remoteNodes p =
     do { q \<leftarrow> this_Gossip self p;
          case in_remoteNodes of
            [in_remote] \<Rightarrow>
              (let remote = gq_remoteNode q in
               if addr in_remote \<noteq> addr remote \<or> port in_remote \<noteq> port remote then Some (-1, p)
               else
                 let tmpRendvNode = returnRendv p;
                     gPacket = newGossipPacket self (addr tmpRendvNode) (port tmpRendvNode)
                 in case fillGossipPacket E gPacket remote p of (gPacket, p) \<Rightarrow>
                    let p = snd (sendPacket (GossipPacketGeneric_createRealPacket
                          GossipPacketPush_type (env_magic E) gPacket) remote p)
                    in do { p \<leftarrow> modifyQ self finish p; Some (0, p) })
          | _ \<Rightarrow> Some (-1, p) }"

end
