(* ===== verification/Closest_Query.thy ===== *)
theory Closest_Query
  imports Probe_Queries
begin

text \<open>
  Query.cpp: \<open>HandleClosestGeneric\<close>, the search for the member closest to a set of targets. It
  measures the targets itself (\<open>HC_WAIT_FOR_DIRECT_PING\<close>), asks the ring members whose latency is
  comparable to measure them (\<open>HC_INDIRECT_PING\<close>), and either answers or hands the query to the
  best member and relays its answer (\<open>HC_WAIT_FOR_FIN\<close>).
\<close>

subsection \<open>Shared with the multi-constraint search\<close>

fun startReqProbes :: "env \<Rightarrow> probe_kind \<Rightarrow> NodeIdentRendv list \<Rightarrow> NodeIdent list \<Rightarrow> u64
    \<Rightarrow> MeridianProcess \<Rightarrow> MeridianProcess option" where
  "startReqProbes E k [] remoteNodes self p = Some p"
| "startReqProbes E k (m # ms) remoteNodes self p =
     do { p \<leftarrow> startReqProbe E k m remoteNodes self p;
          startReqProbes E k ms remoteNodes self p }"

text \<open>The results of a ring member: every node must be a target; \<open>None\<close> rejects the answer.\<close>

fun collectLatencies :: "NodeIdent list \<Rightarrow> NodeIdentLat list \<Rightarrow> (NodeIdent, u32) smap
    \<Rightarrow> (NodeIdent, u32) smap option" where
  "collectLatencies targets [] m = Some m"
| "collectLatencies targets (n # ns) m =
     (if ident n \<notin> set targets then None
      else collectLatencies targets ns (sm_upd (ident n) (latencyUS n) m))"

definition betaRatioOf :: "fpu \<Rightarrow> u16 \<Rightarrow> u16 \<Rightarrow> double" where
  "betaRatioOf F betaNumer betaDenom =
     legalBeta (d_div F (Fin (of_int (uint betaNumer))) (Fin (of_int (uint betaDenom))))"

text \<open>\<^verbatim>\<open>(u_int) ceil(((2.0 * betaRatio) + 1.0) * (double) largestLatUS)\<close>.\<close>

definition probeTimeoutUS :: "fpu \<Rightarrow> double \<Rightarrow> u32 \<Rightarrow> u32" where
  "probeTimeoutUS F betaRatio largestLatUS =
     d_to_uint (d_ceil (d_mul F (d_add F (d_mul F (Fin 2) betaRatio) (Fin 1))
       (d_uint largestLatUS)))"

text \<open>The forwarding threshold: the own latency scaled by the beta ratio, rounded and clamped.\<close>

definition latencyThreshold :: "fpu \<Rightarrow> double \<Rightarrow> u32 \<Rightarrow> u32" where
  "latencyThreshold F betaRatio averageLatUS =
     clamp_uint (d_llround (d_mul F betaRatio (d_uint averageLatUS)))"

subsection \<open>The object\<close>

definition this_Closest :: "u64 \<Rightarrow> MeridianProcess \<Rightarrow> HandleClosestGeneric option" where
  "this_Closest self p = (case deref self p of Some (HandleClosestQ q) \<Rightarrow> Some q | _ \<Rightarrow> None)"

fun onClosest :: "(HandleClosestGeneric \<Rightarrow> HandleClosestGeneric) \<Rightarrow> query \<Rightarrow> query" where
  "onClosest f (HandleClosestQ q) = HandleClosestQ (f q)"
| "onClosest f q = q"

definition closestType :: "probe_kind \<Rightarrow> u8" where
  "closestType k = (case k of KindTCP \<Rightarrow> ReqClosestTCP_type | KindDNS \<Rightarrow> ReqClosestDNS_type
     | KindPing \<Rightarrow> ReqClosestMeridPing_type | KindICMP \<Rightarrow> ReqClosestICMP_type)"

definition newHandleClosest :: "env \<Rightarrow> probe_kind \<Rightarrow> u16 \<Rightarrow> u16 \<Rightarrow> NodeIdentRendv
    \<Rightarrow> NodeIdent list \<Rightarrow> MeridianProcess \<Rightarrow> query \<times> MeridianProcess" where
  "newHandleClosest E k in_betaNumer in_betaDenom in_srcNode in_remote p =
     (case computeTimeout E (MAX_RTT_MS * MICRO_IN_MILLI) p of (tv, p) \<Rightarrow>
      (HandleClosestQ \<lparr>hc_kind = k, hc_betaNumer = in_betaNumer, hc_betaDenom = in_betaDenom,
         hc_averageLatUS = 0, hc_srcNode = in_srcNode, hc_finished = False,
         hc_selectedMember = \<lparr>addr = 0, port = 0\<rparr>, hc_timeoutTV = tv,
         hc_remoteNodes = fold insort_insert in_remote [], hc_ringMembers = [],
         hc_remoteLatencies = [], hc_stateMachine = HC_INIT, hc_ringLatencies = []\<rparr>, p))"

definition Closest_send :: "env \<Rightarrow> (RealPacket \<Rightarrow> int \<times> RealPacket) \<Rightarrow> HandleClosestGeneric
    \<Rightarrow> MeridianProcess \<Rightarrow> MeridianProcess" where
  "Closest_send E create q p = snd (sendPacket create (hc_srcNode q) p)"

subsection \<open>Averages\<close>

definition totalLatency :: "fpu \<Rightarrow> (NodeIdent, u32) smap \<Rightarrow> double" where
  "totalLatency F inMap = fold (\<lambda>(n, v) totalValue. d_add F totalValue (d_uint v)) inMap (Fin 0)"

definition averageLatency :: "fpu \<Rightarrow> (NodeIdent, u32) smap \<Rightarrow> u32" where
  "averageLatency F inMap =
     clamp_uint (d_llround (d_div F (totalLatency F inMap) (Fin (of_nat (length inMap)))))"

definition getMaxAndMinAndAverage :: "fpu \<Rightarrow> (NodeIdent, u32) smap
    \<Rightarrow> (u32 \<times> u32 \<times> u32) option" where
  "getMaxAndMinAndAverage F inMap =
     (case inMap of
        [] \<Rightarrow> None
      | [(n, v)] \<Rightarrow> Some (v, v, v)
      | _ \<Rightarrow> Some (fold (\<lambda>(n, v) m. if v > m then v else m) inMap 0,
                  fold (\<lambda>(n, v) m. if v < m then v else m) inMap UINT_MAX,
                  averageLatency F inMap))"

definition getMaxAndAverage :: "fpu \<Rightarrow> (NodeIdent, u32) smap \<Rightarrow> (u32 \<times> u32) option" where
  "getMaxAndAverage F inMap =
     (case inMap of
        [] \<Rightarrow> None
      | [(n, v)] \<Rightarrow> Some (v, v)
      | _ \<Rightarrow> Some (fold (\<lambda>(n, v) m. if v > m then v else m) inMap 0, averageLatency F inMap))"

subsection \<open>The forwarding decision\<close>

text \<open>The ring member with the least average, the first one of several.\<close>

definition closestRingMember :: "fpu \<Rightarrow> (NodeIdent, (NodeIdent, u32) smap) smap
    \<Rightarrow> u32 \<times> NodeIdent" where
  "closestRingMember F ringLatencies =
     fold (\<lambda>(n, m) (lowestLatUS, closestMember).
         case getMaxAndAverage F m of
           None \<Rightarrow> (lowestLatUS, closestMember)
         | Some (_, curAvgLatency) \<Rightarrow>
             if curAvgLatency < lowestLatUS then (curAvgLatency, n)
             else (lowestLatUS, closestMember))
       ringLatencies (UINT_MAX, \<lparr>addr = 0, port = 0\<rparr>)"

definition Closest_handleForward :: "env \<Rightarrow> u64 \<Rightarrow> MeridianProcess
    \<Rightarrow> (int \<times> MeridianProcess) option" where
  "Closest_handleForward E self p =
     do { q \<leftarrow> this_Closest self p;
          let F = env_fpu E;
          let magic = env_magic E;
          let (lowestLatUS, closestMember) = closestRingMember F (hc_ringLatencies q);
          let betaRatio = betaRatioOf F (hc_betaNumer q) (hc_betaDenom q);
          let threshold = latencyThreshold F betaRatio (hc_averageLatUS q);
          if lowestLatUS = 0 \<or> lowestLatUS > threshold then
            do { retResp \<leftarrow>
                   (if lowestLatUS < hc_averageLatUS q then
                      do { m \<leftarrow> sm_find (hc_ringLatencies q) closestMember;
                           Some (newRetResponse self (addr closestMember) (port closestMember) m) }
                    else Some (newRetResponse self 0 0 (hc_remoteLatencies q)));
                 let p = Closest_send E (RetResponse_createRealPacket magic retResp) q p;
                 p \<leftarrow> modifyQ self finish p;
                 Some (0, p) }
          else
            (let tmpRendvNode = returnRendv p;
                 reqClosest = fold cl_addTarget (hc_remoteNodes q)
                   (newReqClosestGeneric self (hc_betaNumer q) (hc_betaDenom q)
                     (addr tmpRendvNode) (port tmpRendvNode));
                 tmpRendvOut = (case ks_find ident closestMember (hc_ringMembers q) of
                     None \<Rightarrow> noRendvDest closestMember | Some m \<Rightarrow> m)
             in case sendPacket (ReqClosestGeneric_createRealPacket
                       (closestType (hc_kind q)) magic reqClosest) tmpRendvOut p of (ret, p) \<Rightarrow>
                if ret = -1 then do { p \<leftarrow> modifyQ self finish p; Some (0, p) }
                else case computeTimeout E (MAX_RTT_MS * MICRO_IN_MILLI) p of (tv, p) \<Rightarrow>
                  do { p \<leftarrow> modifyQ self (onClosest (\<lambda>q. q\<lparr>hc_selectedMember := closestMember,
                         hc_timeoutTV := tv, hc_stateMachine := HC_WAIT_FOR_FIN\<rparr>)) p;
                       Some (0, p) }) }"

definition Closest_sendReqProbes :: "env \<Rightarrow> u64 \<Rightarrow> MeridianProcess
    \<Rightarrow> (int \<times> MeridianProcess) option" where
  "Closest_sendReqProbes E self p =
     do { q \<leftarrow> this_Closest self p;
          let F = env_fpu E;
          if hc_stateMachine q \<noteq> HC_WAIT_FOR_DIRECT_PING \<or>
             length (hc_remoteLatencies q) \<noteq> length (hc_remoteNodes q) then Some (-1, p)
          else case getMaxAndMinAndAverage F (hc_remoteLatencies q) of
            None \<Rightarrow> do { p \<leftarrow> modifyQ self finish p; Some (-1, p) }
          | Some (largestLatUS, smallestLatUS, averageLatUS) \<Rightarrow>
              (let betaRatio = betaRatioOf F (hc_betaNumer q) (hc_betaDenom q) in
               case computeTimeout E (probeTimeoutUS F betaRatio largestLatUS) p of (tv, p) \<Rightarrow>
               do { members \<leftarrow>
                      (if averageLatUS = 0 then Some []
                       else fillVector F (g_rings p) smallestLatUS largestLatUS betaRatio
                              (hc_ringMembers q));
                    p \<leftarrow> modifyQ self (onClosest (\<lambda>q. q\<lparr>hc_averageLatUS := averageLatUS,
                      hc_timeoutTV := tv, hc_stateMachine := HC_INDIRECT_PING,
                      hc_ringMembers := (if averageLatUS = 0 then hc_ringMembers q
                                         else members)\<rparr>)) p;
                    if averageLatUS = 0 \<or> members = [] then
                      (let retPacket = newRetResponse self 0 0 (hc_remoteLatencies q);
                           p = Closest_send E
                             (RetResponse_createRealPacket (env_magic E) retPacket) q p
                       in do { p \<leftarrow> modifyQ self finish p; Some (0, p) })
                    else
                      do { p \<leftarrow> startReqProbes E (hc_kind q) members (hc_remoteNodes q) self p;
                           Some (0, p) } }) }"

subsection \<open>Events\<close>

definition Closest_handleLatency :: "env \<Rightarrow> u64 \<Rightarrow> NodeIdentLat list \<Rightarrow> MeridianProcess
    \<Rightarrow> (int \<times> MeridianProcess) option" where
  "Closest_handleLatency E self in_remoteNodes p =
     do { q \<leftarrow> this_Closest self p;
          case hc_stateMachine q of
            HC_INIT \<Rightarrow> Some (0, p)
          | HC_WAIT_FOR_DIRECT_PING \<Rightarrow>
              if length (hc_remoteLatencies q) = length (hc_remoteNodes q)
              then Closest_sendReqProbes E self p
              else (case in_remoteNodes of
                [n] \<Rightarrow>
                  (let in_remote = ident n in
                   if in_remote \<notin> set (hc_remoteNodes q) then Some (-1, p)
                   else if sm_find (hc_remoteLatencies q) in_remote \<noteq> None then Some (-1, p)
                   else do {
                     p \<leftarrow> modifyQ self (record_latency in_remote (latencyUS n)) p;
                     q \<leftarrow> this_Closest self p;
                     if length (hc_remoteLatencies q) \<noteq> length (hc_remoteNodes q)
                     then Some (0, p)
                     else Closest_sendReqProbes E self p })
              | _ \<Rightarrow> Some (-1, p))
          | HC_INDIRECT_PING \<Rightarrow>
              (case in_remoteNodes of
                [] \<Rightarrow> Some (-1, p)
              | src # results \<Rightarrow>
                  let curNode = ident src in
                  if ks_find ident curNode (hc_ringMembers q) = None then Some (-1, p)
                  else if sm_find (hc_ringLatencies q) curNode \<noteq> None then Some (-1, p)
                  else (case collectLatencies (hc_remoteNodes q) results [] of
                      None \<Rightarrow> Some (-1, p)
                    | Some tmpIdentMap \<Rightarrow>
                        if length (hc_remoteNodes q) \<noteq> length tmpIdentMap then Some (-1, p)
                        else do {
                          p \<leftarrow> modifyQ self (onClosest (\<lambda>q. q\<lparr>hc_ringLatencies :=
                            sm_upd curNode tmpIdentMap (hc_ringLatencies q)\<rparr>)) p;
                          q \<leftarrow> this_Closest self p;
                          if length (hc_ringMembers q) \<noteq> length (hc_ringLatencies q)
                          then Some (0, p)
                          else Closest_handleForward E self p }))
          | HC_WAIT_FOR_FIN \<Rightarrow> Some (0, p) }"

definition Closest_handleTimeout :: "env \<Rightarrow> u64 \<Rightarrow> MeridianProcess
    \<Rightarrow> (int \<times> MeridianProcess) option" where
  "Closest_handleTimeout E self p =
     do { q \<leftarrow> this_Closest self p;
          let sendError = Closest_send E
            (RetError_createRealPacket (env_magic E) (newPacket self)) q;
          case hc_stateMachine q of
            HC_INIT \<Rightarrow> do { p \<leftarrow> modifyQ self finish p; Some (0, p) }
          | HC_WAIT_FOR_DIRECT_PING \<Rightarrow> do { p \<leftarrow> modifyQ self finish (sendError p); Some (0, p) }
          | HC_INDIRECT_PING \<Rightarrow> Closest_handleForward E self p
          | HC_WAIT_FOR_FIN \<Rightarrow> do { p \<leftarrow> modifyQ self finish (sendError p); Some (0, p) } }"

definition Closest_handleEvent :: "env \<Rightarrow> u64 \<Rightarrow> NodeIdent \<Rightarrow> u8 list \<Rightarrow> MeridianProcess
    \<Rightarrow> (int \<times> MeridianProcess) option" where
  "Closest_handleEvent E self in_remote inPacket p =
     do { q \<leftarrow> this_Closest self p;
          let magic = env_magic E;
          if hc_stateMachine q = HC_WAIT_FOR_FIN then
            (case parseHeader magic (newBufferWrapper inPacket (int (length inPacket))) of
              (ret, queryType, queryID, rb) \<Rightarrow>
             if ret = -1 then None
             else if queryType = closestType (hc_kind q) then
               Some (0, snd (sendPacket (RetResponse_createRealPacket magic
                 (newRetResponse self 0 0 (hc_remoteLatencies q))) (noRendvDest in_remote) p))
             else if addr in_remote = addr (hc_selectedMember q) \<and>
                     port in_remote = port (hc_selectedMember q) then
               (if queryType = RET_RESPONSE then
                  (case fst (RetResponse_parse magic in_remote inPacket) of
                     None \<Rightarrow> Some (-1, p)
                   | Some retResp \<Rightarrow>
                       do { p \<leftarrow> modifyQ self finish
                              (Closest_send E (RetResponse_createRealPacket magic retResp) q p);
                            Some (0, p) })
                else if queryType = RET_ERROR then
                  (case fst (RetError_parse magic inPacket) of
                     None \<Rightarrow> Some (-1, p)
                   | Some retErr \<Rightarrow>
                       do { p \<leftarrow> modifyQ self finish
                              (Closest_send E (RetError_createRealPacket magic retErr) q p);
                            Some (0, p) })
                else if queryType = RET_INFO then
                  (case fst (RetInfo_parse magic in_remote inPacket) of
                     None \<Rightarrow> Some (-1, p)
                   | Some curRetInfo \<Rightarrow>
                       Some (0, Closest_send E (RetInfo_createRealPacket magic curRetInfo) q p))
                else Some (0, p))
             else Some (0, p))
          else Some (0, p) }"

definition Closest_init :: "env \<Rightarrow> notifier \<Rightarrow> u64 \<Rightarrow> MeridianProcess
    \<Rightarrow> (int \<times> MeridianProcess) option" where
  "Closest_init E notify self p =
     do { q \<leftarrow> this_Closest self p;
          p \<leftarrow> probeTargets E (hc_kind q) self (hc_remoteNodes q) p;
          let p = Closest_send E (RetInfo_createRealPacket (env_magic E) (newRetInfo self 0 0)) q p;
          p \<leftarrow> modifyQ self (onClosest (\<lambda>q. q\<lparr>hc_stateMachine := HC_WAIT_FOR_DIRECT_PING\<rparr>)) p;
          q \<leftarrow> this_Closest self p;
          if length (hc_remoteLatencies q) = length (hc_remoteNodes q)
          then do { (_, p) \<leftarrow> notify self [] p; Some (0, p) }
          else Some (0, p) }"

end
