(* ===== verification/Constraint_Query.thy ===== *)
theory Constraint_Query
  imports Closest_Query
begin

text \<open>
  Query.cpp: \<open>HandleMCGeneric\<close>, the search for a member within a given latency of each of several
  targets. The protocol is that of \<open>HandleClosestGeneric\<close>; what differs is how a member is rated:
  by how far it exceeds the constraints.
\<close>

subsection \<open>The object\<close>

definition this_MC :: "u64 \<Rightarrow> MeridianProcess \<Rightarrow> HandleMCGeneric option" where
  "this_MC self p = (case deref self p of Some (HandleMCQ q) \<Rightarrow> Some q | _ \<Rightarrow> None)"

fun onMC :: "(HandleMCGeneric \<Rightarrow> HandleMCGeneric) \<Rightarrow> query \<Rightarrow> query" where
  "onMC f (HandleMCQ q) = HandleMCQ (f q)"
| "onMC f q = q"

definition constraintType :: "probe_kind \<Rightarrow> u8" where
  "constraintType k = (case k of KindTCP \<Rightarrow> ReqConstraintTCP_type
     | KindDNS \<Rightarrow> ReqConstraintDNS_type | KindPing \<Rightarrow> ReqConstraintPing_type
     | KindICMP \<Rightarrow> ReqConstraintICMP_type)"

text \<open>The set of targets is keyed on the node: a second constraint for a node is ignored.\<close>

definition newHandleMC :: "env \<Rightarrow> probe_kind \<Rightarrow> u16 \<Rightarrow> u16 \<Rightarrow> NodeIdentRendv
    \<Rightarrow> NodeIdentConst list \<Rightarrow> MeridianProcess \<Rightarrow> query \<times> MeridianProcess" where
  "newHandleMC E k in_betaNumer in_betaDenom in_srcNode in_remote p =
     (case computeTimeout E (MAX_RTT_MS * MICRO_IN_MILLI) p of (tv, p) \<Rightarrow>
      (HandleMCQ \<lparr>mc_kind = k, mc_betaNumer = in_betaNumer, mc_betaDenom = in_betaDenom,
         mc_averageLatUS = 0, mc_srcNode = in_srcNode, mc_finished = False,
         mc_selectedMember = \<lparr>addr = 0, port = 0\<rparr>, mc_timeoutTV = tv,
         mc_remoteNodes = fold (insort_insert_key ident) in_remote [], mc_ringMembers = [],
         mc_remoteLatencies = [], mc_stateMachine = HMC_INIT, mc_ringLatencies = []\<rparr>, p))"

definition MC_send :: "env \<Rightarrow> (RealPacket \<Rightarrow> int \<times> RealPacket) \<Rightarrow> HandleMCGeneric
    \<Rightarrow> MeridianProcess \<Rightarrow> MeridianProcess" where
  "MC_send E create q p = snd (sendPacket create (mc_srcNode q) p)"

subsection \<open>Rating a member\<close>

text \<open>
  \<^verbatim>\<open>getMaxSolution\<close>: the largest latency with its constraint subtracted (not below 0) or added.
  The \<^verbatim>\<open>long long\<close> arithmetic cannot overflow here: both operands are below \<open>2 ^ 42\<close>.
\<close>

fun maxSolution :: "bool \<Rightarrow> (NodeIdent, u32) smap \<Rightarrow> NodeIdentConst list \<Rightarrow> int \<Rightarrow> int option" where
  "maxSolution subtract inMap [] maxSol = Some maxSol"
| "maxSolution subtract inMap (it # its) maxSol =
     (case sm_find inMap (ident it) of
        None \<Rightarrow> None
      | Some l \<Rightarrow>
          let slack = uint (latencyConstMS it) * 1000;
              tmp = (if subtract then max 0 (uint l - slack) else uint l + slack)
          in maxSolution subtract inMap its (if tmp > maxSol then tmp else maxSol))"

definition getMaxSolution :: "HandleMCGeneric \<Rightarrow> (NodeIdent, u32) smap \<Rightarrow> bool \<Rightarrow> u32 option" where
  "getMaxSolution q inMap subtract =
     map_option clamp_uint (maxSolution subtract inMap (mc_remoteNodes q) 0)"

text \<open>A \<^verbatim>\<open>long long\<close> product wraps (the compiler's two's complement).\<close>

definition c_llong :: "int \<Rightarrow> int" where
  "c_llong x = (let y = x mod 18446744073709551616 in
     if y < 9223372036854775808 then y else y - 18446744073709551616)"

fun sumSquares :: "fpu \<Rightarrow> (NodeIdent, u32) smap \<Rightarrow> NodeIdentConst list \<Rightarrow> double \<Rightarrow> double option" where
  "sumSquares F inMap [] acc = Some acc"
| "sumSquares F inMap (it # its) acc =
     (case sm_find inMap (ident it) of
        None \<Rightarrow> None
      | Some l \<Rightarrow>
          let tmp = max 0 (uint l - uint (latencyConstMS it) * 1000)
          in sumSquares F inMap its
               (d_add F acc (Fin (rnd F (of_int (c_llong (tmp * tmp)))))))"

definition solution_uint :: "double \<Rightarrow> u32" where
  "solution_uint d =
     (if d_less (d_uint UINT_MAX) d then UINT_MAX
      else if d_less d (Fin 0) then 0 else d_to_uint d)"

definition getAvgSolution :: "fpu \<Rightarrow> HandleMCGeneric \<Rightarrow> (NodeIdent, u32) smap \<Rightarrow> u32 option" where
  "getAvgSolution F q inMap =
     map_option (\<lambda>acc. solution_uint
         (d_div F (d_sqrt F acc) (Fin (of_nat (length (mc_remoteNodes q))))))
       (sumSquares F inMap (mc_remoteNodes q) (Fin 0))"

subsection \<open>The forwarding decision\<close>

text \<open>The ring member with the least rating, the first one of several.\<close>

definition bestRingMember :: "fpu \<Rightarrow> HandleMCGeneric \<Rightarrow> u32 \<times> NodeIdent" where
  "bestRingMember F q =
     fold (\<lambda>(n, m) (lowestLatUS, closestMember).
         case getAvgSolution F q m of
           None \<Rightarrow> (lowestLatUS, closestMember)
         | Some curAvgLatency \<Rightarrow>
             if curAvgLatency < lowestLatUS then (curAvgLatency, n)
             else (lowestLatUS, closestMember))
       (mc_ringLatencies q) (UINT_MAX, \<lparr>addr = 0, port = 0\<rparr>)"

definition MC_handleForward :: "env \<Rightarrow> u64 \<Rightarrow> MeridianProcess
    \<Rightarrow> (int \<times> MeridianProcess) option" where
  "MC_handleForward E self p =
     do { q \<leftarrow> this_MC self p;
          let F = env_fpu E;
          let magic = env_magic E;
          let (lowestLatUS, closestMember) = bestRingMember F q;
          let betaRatio = betaRatioOf F (mc_betaNumer q) (mc_betaDenom q);
          let threshold = latencyThreshold F betaRatio (mc_averageLatUS q);
          if lowestLatUS = 0 \<or> lowestLatUS > threshold then
            do { retResp \<leftarrow>
                   (if lowestLatUS < mc_averageLatUS q then
                      do { m \<leftarrow> sm_find (mc_ringLatencies q) closestMember;
                           Some (newRetResponse self (addr closestMember) (port closestMember) m) }
                    else Some (newRetResponse self 0 0 (mc_remoteLatencies q)));
                 let p = MC_send E (RetResponse_createRealPacket magic retResp) q p;
                 p \<leftarrow> modifyQ self finish p;
                 Some (0, p) }
          else
            (let tmpRendvNode = returnRendv p;
                 reqMC = fold rc_addTarget (mc_remoteNodes q)
                   (newReqConstraintGeneric self (mc_betaNumer q) (mc_betaDenom q)
                     (addr tmpRendvNode) (port tmpRendvNode));
                 tmpRendvOut = (case ks_find ident closestMember (mc_ringMembers q) of
                     None \<Rightarrow> noRendvDest closestMember | Some m \<Rightarrow> m)
             in case sendPacket (ReqConstraintGeneric_createRealPacket
                       (constraintType (mc_kind q)) magic reqMC) tmpRendvOut p of (ret, p) \<Rightarrow>
                if ret = -1 then do { p \<leftarrow> modifyQ self finish p; Some (0, p) }
                else case computeTimeout E (MAX_RTT_MS * MICRO_IN_MILLI) p of (tv, p) \<Rightarrow>
                  do { p \<leftarrow> modifyQ self (onMC (\<lambda>q. q\<lparr>mc_selectedMember := closestMember,
                         mc_timeoutTV := tv, mc_stateMachine := HMC_WAIT_FOR_FIN\<rparr>)) p;
                       Some (0, p) }) }"

definition MC_sendReqProbes :: "env \<Rightarrow> u64 \<Rightarrow> MeridianProcess
    \<Rightarrow> (int \<times> MeridianProcess) option" where
  "MC_sendReqProbes E self p =
     do { q \<leftarrow> this_MC self p;
          let F = env_fpu E;
          if mc_stateMachine q \<noteq> HMC_WAIT_FOR_DIRECT_PING \<or>
             length (mc_remoteLatencies q) \<noteq> length (mc_remoteNodes q) then Some (-1, p)
          else case (getMaxSolution q (mc_remoteLatencies q) False,
                getMaxSolution q (mc_remoteLatencies q) True,
                getAvgSolution F q (mc_remoteLatencies q)) of
            (Some largestAddUS, Some largestSubUS, Some averageLatUS) \<Rightarrow>
              (let betaRatio = betaRatioOf F (mc_betaNumer q) (mc_betaDenom q) in
               case computeTimeout E (probeTimeoutUS F betaRatio largestAddUS) p of (tv, p) \<Rightarrow>
               do { members \<leftarrow>
                      (if averageLatUS = 0 then Some []
                       else fillVector F (g_rings p) largestSubUS largestAddUS betaRatio
                              (mc_ringMembers q));
                    p \<leftarrow> modifyQ self (onMC (\<lambda>q. q\<lparr>mc_averageLatUS := averageLatUS,
                      mc_timeoutTV := tv, mc_stateMachine := HMC_INDIRECT_PING,
                      mc_ringMembers := (if averageLatUS = 0 then mc_ringMembers q
                                         else members)\<rparr>)) p;
                    if averageLatUS = 0 \<or> members = [] then
                      (let retPacket = newRetResponse self 0 0 (mc_remoteLatencies q);
                           p = MC_send E
                             (RetResponse_createRealPacket (env_magic E) retPacket) q p
                       in do { p \<leftarrow> modifyQ self finish p; Some (0, p) })
                    else
                      do { p \<leftarrow> startReqProbes E (mc_kind q) members
                             (map ident (mc_remoteNodes q)) self p;
                           Some (0, p) } })
          | _ \<Rightarrow> do { p \<leftarrow> modifyQ self finish p; Some (-1, p) } }"

subsection \<open>Events\<close>

definition MC_handleLatency :: "env \<Rightarrow> u64 \<Rightarrow> NodeIdentLat list \<Rightarrow> MeridianProcess
    \<Rightarrow> (int \<times> MeridianProcess) option" where
  "MC_handleLatency E self in_remoteNodes p =
     do { q \<leftarrow> this_MC self p;
          case mc_stateMachine q of
            HMC_INIT \<Rightarrow> Some (0, p)
          | HMC_WAIT_FOR_DIRECT_PING \<Rightarrow>
              if length (mc_remoteLatencies q) = length (mc_remoteNodes q)
              then MC_sendReqProbes E self p
              else (case in_remoteNodes of
                [n] \<Rightarrow>
                  (let in_remote = ident n in
                   if ks_find ident in_remote (mc_remoteNodes q) = None then Some (-1, p)
                   else if sm_find (mc_remoteLatencies q) in_remote \<noteq> None then Some (-1, p)
                   else do {
                     p \<leftarrow> modifyQ self (record_latency in_remote (latencyUS n)) p;
                     q \<leftarrow> this_MC self p;
                     if length (mc_remoteLatencies q) \<noteq> length (mc_remoteNodes q)
                     then Some (0, p)
                     else MC_sendReqProbes E self p })
              | _ \<Rightarrow> Some (-1, p))
          | HMC_INDIRECT_PING \<Rightarrow>
              (case in_remoteNodes of
                [] \<Rightarrow> Some (-1, p)
              | src # results \<Rightarrow>
                  let curNode = ident src in
                  if ks_find ident curNode (mc_ringMembers q) = None then Some (-1, p)
                  else if sm_find (mc_ringLatencies q) curNode \<noteq> None then Some (-1, p)
                  else (case collectLatencies (map ident (mc_remoteNodes q)) results [] of
                      None \<Rightarrow> Some (-1, p)
                    | Some tmpIdentMap \<Rightarrow>
                        if length (mc_remoteNodes q) \<noteq> length tmpIdentMap then Some (-1, p)
                        else do {
                          p \<leftarrow> modifyQ self (onMC (\<lambda>q. q\<lparr>mc_ringLatencies :=
                            sm_upd curNode tmpIdentMap (mc_ringLatencies q)\<rparr>)) p;
                          q \<leftarrow> this_MC self p;
                          if length (mc_ringMembers q) \<noteq> length (mc_ringLatencies q)
                          then Some (0, p)
                          else MC_handleForward E self p }))
          | HMC_WAIT_FOR_FIN \<Rightarrow> Some (0, p) }"

definition MC_handleTimeout :: "env \<Rightarrow> u64 \<Rightarrow> MeridianProcess
    \<Rightarrow> (int \<times> MeridianProcess) option" where
  "MC_handleTimeout E self p =
     do { q \<leftarrow> this_MC self p;
          let sendError = MC_send E
            (RetError_createRealPacket (env_magic E) (newPacket self)) q;
          case mc_stateMachine q of
            HMC_INIT \<Rightarrow> do { p \<leftarrow> modifyQ self finish p; Some (0, p) }
          | HMC_WAIT_FOR_DIRECT_PING \<Rightarrow> do { p \<leftarrow> modifyQ self finish (sendError p); Some (0, p) }
          | HMC_INDIRECT_PING \<Rightarrow> MC_handleForward E self p
          | HMC_WAIT_FOR_FIN \<Rightarrow> do { p \<leftarrow> modifyQ self finish (sendError p); Some (0, p) } }"

definition MC_handleEvent :: "env \<Rightarrow> u64 \<Rightarrow> NodeIdent \<Rightarrow> u8 list \<Rightarrow> MeridianProcess
    \<Rightarrow> (int \<times> MeridianProcess) option" where
  "MC_handleEvent E self in_remote inPacket p =
     do { q \<leftarrow> this_MC self p;
          let magic = env_magic E;
          if mc_stateMachine q = HMC_WAIT_FOR_FIN then
            (case parseHeader magic (newBufferWrapper inPacket (int (length inPacket))) of
              (ret, queryType, queryID, rb) \<Rightarrow>
             if ret = -1 then None
             else if queryType = constraintType (mc_kind q) then
               Some (0, snd (sendPacket (RetResponse_createRealPacket magic
                 (newRetResponse self 0 0 (mc_remoteLatencies q))) (noRendvDest in_remote) p))
             else if addr in_remote = addr (mc_selectedMember q) \<and>
                     port in_remote = port (mc_selectedMember q) then
               (if queryType = RET_RESPONSE then
                  (case fst (RetResponse_parse magic in_remote inPacket) of
                     None \<Rightarrow> Some (-1, p)
                   | Some retResp \<Rightarrow>
                       do { p \<leftarrow> modifyQ self finish
                              (MC_send E (RetResponse_createRealPacket magic retResp) q p);
                            Some (0, p) })
                else if queryType = RET_ERROR then
                  (case fst (RetError_parse magic inPacket) of
                     None \<Rightarrow> Some (-1, p)
                   | Some retErr \<Rightarrow>
                       do { p \<leftarrow> modifyQ self finish
                              (MC_send E (RetError_createRealPacket magic retErr) q p);
                            Some (0, p) })
                else if queryType = RET_INFO then
                  (case fst (RetInfo_parse magic in_remote inPacket) of
                     None \<Rightarrow> Some (-1, p)
                   | Some curRetInfo \<Rightarrow>
                       Some (0, MC_send E (RetInfo_createRealPacket magic curRetInfo) q p))
                else Some (0, p))
             else Some (0, p))
          else Some (0, p) }"

definition MC_init :: "env \<Rightarrow> notifier \<Rightarrow> u64 \<Rightarrow> MeridianProcess
    \<Rightarrow> (int \<times> MeridianProcess) option" where
  "MC_init E notify self p =
     do { q \<leftarrow> this_MC self p;
          p \<leftarrow> probeTargets E (mc_kind q) self (map ident (mc_remoteNodes q)) p;
          let p = MC_send E (RetInfo_createRealPacket (env_magic E) (newRetInfo self 0 0)) q p;
          p \<leftarrow> modifyQ self (onMC (\<lambda>q. q\<lparr>mc_stateMachine := HMC_WAIT_FOR_DIRECT_PING\<rparr>)) p;
          q \<leftarrow> this_MC self p;
          if length (mc_remoteLatencies q) = length (mc_remoteNodes q)
          then do { (_, p) \<leftarrow> notify self [] p; Some (0, p) }
          else Some (0, p) }"

end
