(* ===== verification/Ring_Manage.thy ===== *)
theory Ring_Manage
  imports Probe_Queries
begin

text \<open>
  Query.cpp: \<open>RingManageQuery\<close>, which asks the members of a ring for their latencies to each other
  and keeps the primary members that span the largest volume. The volume of a latency matrix
  (Gram-Schmidt over BLAS, then the qhull library) is the parameter \<open>env_volume\<close>, applied to the
  part of the matrix in use.
\<close>

definition this_RingManage :: "u64 \<Rightarrow> MeridianProcess \<Rightarrow> RingManageQuery option" where
  "this_RingManage self p = (case deref self p of Some (RingManageQ q) \<Rightarrow> Some q | _ \<Rightarrow> None)"

fun onRingManage :: "(RingManageQuery \<Rightarrow> RingManageQuery) \<Rightarrow> query \<Rightarrow> query" where
  "onRingManage f (RingManageQ q) = RingManageQ (f q)"
| "onRingManage f q = q"

definition newRingManage :: "env \<Rightarrow> int \<Rightarrow> MeridianProcess \<Rightarrow> (u64 \<times> query) \<times> MeridianProcess" where
  "newRingManage E in_ringNum p =
     (case getNewQueryID E p of (qid, p) \<Rightarrow>
      case computeTimeout E (2 * MAX_RTT_MS * MICRO_IN_MILLI) p of (tv, p) \<Rightarrow>
      ((qid, RingManageQ \<lparr>rm_ringNum = in_ringNum, rm_remoteNodes = [], rm_finished = False,
          rm_startTime = \<lparr>tv_sec = 0, tv_usec = 0\<rparr>, rm_timeoutTV = tv,
          rm_RetNodeMap = []\<rparr>), p))"

text \<open>The request for one member: measure every other member that needs no rendezvous node.\<close>

definition ringRequest :: "env \<Rightarrow> u64 \<Rightarrow> NodeIdent list \<Rightarrow> NodeIdent \<Rightarrow> MeridianProcess
    \<Rightarrow> MeridianProcess" where
  "ringRequest E self remoteNodes outer p =
     (if rendvLookup (g_rings p) outer \<noteq> None then p
      else
        let tmpRendvNode = returnRendv p;
            req = fold (\<lambda>inner r.
                if (addr outer = addr inner \<and> port outer = port inner) \<or>
                   rendvLookup (g_rings p) inner \<noteq> None then r
                else rg_addTarget inner r)
              remoteNodes (newReqGeneric self (addr tmpRendvNode) (port tmpRendvNode))
        in snd (sendPacket (ReqGeneric_createRealPacket ReqMeasurePing_type (env_magic E) req)
             (noRendvDest outer) p))"

definition RingManage_init :: "env \<Rightarrow> u64 \<Rightarrow> MeridianProcess \<Rightarrow> (int \<times> MeridianProcess) option" where
  "RingManage_init E self p =
     (case gettimeofday E p of (now, p) \<Rightarrow>
      do { p \<leftarrow> modifyQ self (setStartTime now) p;
           q \<leftarrow> this_RingManage self p;
           let ringNum = rm_ringNum q;
           if ringNum < 0 \<or> ringNum \<ge> getNumberOfRings (g_rings p) then Some (-1, p)
           else
             (let remoteNodes = snd (membersDump ringNum (g_rings p) (rm_remoteNodes q));
                  rs = snd (freezeRing ringNum (g_rings p))
              in do { p \<leftarrow> modifyQ self (onRingManage (\<lambda>q. q\<lparr>rm_remoteNodes := remoteNodes\<rparr>))
                        (p\<lparr>g_rings := rs\<rparr>);
                      Some (0, fold (ringRequest E self remoteNodes) remoteNodes p) }) })"

subsection \<open>The latency matrix\<close>

text \<open>Row \<open>i\<close>: 0 on the diagonal, else the reported latency in milliseconds.\<close>

definition matrixRow :: "fpu \<Rightarrow> RingManageQuery \<Rightarrow> NodeIdent \<Rightarrow> real list option" where
  "matrixRow F q outer =
     those (map (\<lambda>inner.
         if outer = inner then Some 0
         else do { thisNodeMap \<leftarrow> sm_find (rm_RetNodeMap q) outer;
                   l \<leftarrow> sm_find thisNodeMap inner;
                   Some (rnd F (of_int (uint l) / 1000)) })
       (rm_remoteNodes q))"

definition createLatencyMatrix :: "fpu \<Rightarrow> RingManageQuery \<Rightarrow> real list list option" where
  "createLatencyMatrix F q = those (map (matrixRow F q) (rm_remoteNodes q))"

text \<open>Swapping columns \<open>k\<close> and \<open>j\<close> in the first \<open>n\<close> rows, and the first \<open>n\<close> entries of two rows.\<close>

definition swapColumn :: "nat \<Rightarrow> nat \<Rightarrow> nat \<Rightarrow> real list list \<Rightarrow> real list list" where
  "swapColumn n k j M =
     map (\<lambda>row. row[k := row ! j, j := row ! k]) (take n M) @ drop n M"

definition swapRow :: "nat \<Rightarrow> nat \<Rightarrow> nat \<Rightarrow> real list list \<Rightarrow> real list list" where
  "swapRow n k j M =
     (let x = M ! k; y = M ! j in
      if k = j then M
      else M[k := take n y @ drop n x, j := take n x @ drop n y])"

definition inUse :: "nat \<Rightarrow> real list list \<Rightarrow> real list list" where
  "inUse n M = map (take n) (take n M)"

text \<open>Moving row and column \<open>k\<close> out of the \<open>n\<close> in use, and back.\<close>

definition swapOut :: "nat \<Rightarrow> nat \<Rightarrow> real list list \<Rightarrow> real list list" where
  "swapOut n k M = swapRow (n - 1) k (n - 1) (swapColumn n k (n - 1) M)"

definition swapIn :: "nat \<Rightarrow> nat \<Rightarrow> real list list \<Rightarrow> real list list" where
  "swapIn n k M = swapColumn n k (n - 1) (swapRow (n - 1) k (n - 1) M)"

subsection \<open>Reducing a set of nodes\<close>

text \<open>
  One pass over the nodes: which one can be left out with the largest remaining volume. The
  state is the matrix, whether a node was found, the node and the two maxima.
\<close>

definition volumeStep :: "(real list list \<Rightarrow> real) \<Rightarrow> nat \<Rightarrow> NodeIdent list \<Rightarrow> nat
    \<Rightarrow> real list list \<times> bool \<times> NodeIdent \<times> real \<times> real
    \<Rightarrow> real list list \<times> bool \<times> NodeIdent \<times> real \<times> real" where
  "volumeStep vol n inVector k st =
     (case st of (M, found, node, maxHV, maxHyperVolume) \<Rightarrow>
       let M = swapOut n k M;
           hyperVolume = vol (inUse (n - 1) M);
           (found, node, maxHV) = (if hyperVolume \<ge> maxHV then (True, inVector ! k, hyperVolume)
                                   else (found, node, maxHV));
           maxHyperVolume = (if hyperVolume > maxHyperVolume then hyperVolume else maxHyperVolume)
       in (swapIn n k M, found, node, maxHV, maxHyperVolume))"

text \<open>The removal loop: \<open>n\<close> rows and columns are in use.\<close>

function removeLoop :: "NodeIdent \<Rightarrow> nat \<Rightarrow> nat \<times> NodeIdent list \<times> NodeIdent list \<times> real list list
    \<Rightarrow> nat \<times> NodeIdent list \<times> NodeIdent list \<times> real list list" where
  "removeLoop node k (n, inVector, deletedNodes, M) =
     (if k < length inVector then
        if addr (inVector ! k) = addr node \<and> port (inVector ! k) = port node then
          removeLoop node (Suc k)
            (n - 1, butlast (inVector[k := last inVector]), deletedNodes @ [inVector ! k],
             swapOut n k M)
        else removeLoop node (Suc k) (n, inVector, deletedNodes, M)
      else (n, inVector, deletedNodes, M))"
  by pat_completeness auto
termination by (relation "measure (\<lambda>(node, k, n, v, d, M). length v - k)") auto

declare removeLoop.simps [simp del]

fun reduceSetByN :: "(real list list \<Rightarrow> real) \<Rightarrow> nat
    \<Rightarrow> nat \<times> NodeIdent list \<times> NodeIdent list \<times> real list list
    \<Rightarrow> (NodeIdent list \<times> NodeIdent list) option" where
  "reduceSetByN vol 0 (n, inVector, deletedNodes, M) = Some (inVector, deletedNodes)"
| "reduceSetByN vol (Suc r) (n, inVector, deletedNodes, M) =
     (case fold (volumeStep vol n inVector) [0..<length inVector]
             (M, False, \<lparr>addr = 0, port = 0\<rparr>, 0, 0) of
        (M, found, node, _, _) \<Rightarrow>
          if \<not> found then None
          else reduceSetByN vol r (removeLoop node 0 (n, inVector, deletedNodes, M)))"

subsection \<open>Replacement\<close>

definition removeCandidateNode :: "NodeIdent \<Rightarrow> RingManageQuery \<Rightarrow> RingManageQuery" where
  "removeCandidateNode in_node q =
     q\<lparr>rm_RetNodeMap :=
         map (\<lambda>(n, m). (n, sm_erase in_node m)) (sm_erase in_node (rm_RetNodeMap q)),
       rm_remoteNodes := filter (\<lambda>n. n \<noteq> in_node) (rm_remoteNodes q)\<rparr>"

text \<open>The node with the fewest results among those that do not cover all others.\<close>

definition worstNode :: "RingManageQuery \<Rightarrow> NodeIdent" where
  "worstNode q =
     fst (fold (\<lambda>(n, m) (worst, worstNodeCount).
         if length m + 1 < length (rm_remoteNodes q) \<and> length m < worstNodeCount
         then (n, length m) else (worst, worstNodeCount))
       (rm_RetNodeMap q) (\<lparr>addr = 0, port = 0\<rparr>, unat UINT_MAX))"

text \<open>The loop that makes the matrix complete: \<open>None\<close> is a return, with its value.\<close>

datatype 'a loop_exit = Returned int | Broke 'a

function dropIncomplete :: "nat \<Rightarrow> RingManageQuery \<Rightarrow> NodeIdent list
    \<Rightarrow> RingManageQuery \<times> (NodeIdent list) loop_exit" where
  "dropIncomplete fullPrimRingSize q removedNodes =
     (if length (rm_remoteNodes q) \<le> fullPrimRingSize then (q, Returned 0)
      else
        let worst = worstNode q in
        if addr worst = 0 \<and> port worst = 0 then (q, Broke removedNodes)
        else
          let q' = removeCandidateNode worst q in
          if length (rm_remoteNodes q') + 1 \<noteq> length (rm_remoteNodes q) then (q', Returned (-1))
          else dropIncomplete fullPrimRingSize q' (removedNodes @ [worst]))"
  by pat_completeness auto
termination by (relation "measure (\<lambda>(n, q, r). length (rm_remoteNodes q))") auto

declare dropIncomplete.simps [simp del]

definition performReplacement :: "env \<Rightarrow> u64 \<Rightarrow> MeridianProcess
    \<Rightarrow> (int \<times> MeridianProcess) option" where
  "performReplacement E self p =
     do { q \<leftarrow> this_RingManage self p;
          if length (rm_remoteNodes q) \<noteq> length (rm_RetNodeMap q) then Some (-1, p)
          else
            (let fullPrimRingSize = unat (primarySize (g_rings p)) in
             case dropIncomplete fullPrimRingSize q [] of (q, exit) \<Rightarrow>
             do { p \<leftarrow> modifyQ self (onRingManage (\<lambda>_. q)) p;
                  case exit of
                    Returned r \<Rightarrow> Some (r, p)
                  | Broke removedNodes \<Rightarrow>
                      (case createLatencyMatrix (env_fpu E) q of
                         None \<Rightarrow> Some (0, p)
                       | Some matrix \<Rightarrow>
                           do { (newPrimNodes, removedNodes) \<leftarrow>
                                  reduceSetByN (env_volume E)
                                    (length (rm_remoteNodes q) - fullPrimRingSize)
                                    (length (rm_remoteNodes q), rm_remoteNodes q, removedNodes,
                                     matrix);
                                let rs = snd (setRingMembers (rm_ringNum q) newPrimNodes
                                  removedNodes (g_rings p));
                                Some (0, p\<lparr>g_rings := rs\<rparr>) }) }) }"

subsection \<open>Events\<close>

definition retLatencies :: "NodeIdent list \<Rightarrow> NodeIdentLat list \<Rightarrow> (NodeIdent, u32) smap" where
  "retLatencies remoteNodes retNodes =
     fold (\<lambda>n m. if ident n \<in> set remoteNodes then sm_upd (ident n) (latencyUS n) m else m)
       retNodes []"

definition RingManage_handleEvent :: "env \<Rightarrow> u64 \<Rightarrow> NodeIdent \<Rightarrow> u8 list \<Rightarrow> MeridianProcess
    \<Rightarrow> (int \<times> MeridianProcess) option" where
  "RingManage_handleEvent E self in_remote inPacket p =
     do { q \<leftarrow> this_RingManage self p;
          c \<leftarrow> firstByte inPacket;
          if c \<noteq> RET_PING_REQ then Some (-1, p)
          else if in_remote \<notin> set (rm_remoteNodes q) then Some (-1, p)
          else if sm_find (rm_RetNodeMap q) in_remote \<noteq> None then Some (-1, p)
          else case fst (RetPing_parse (env_magic E) inPacket) of
            None \<Rightarrow> Some (-1, p)
          | Some ret \<Rightarrow>
              do { p \<leftarrow> modifyQ self (onRingManage (\<lambda>q. q\<lparr>rm_RetNodeMap :=
                     sm_upd in_remote (retLatencies (rm_remoteNodes q) (rp_nodes ret))
                       (rm_RetNodeMap q)\<rparr>)) p;
                   q \<leftarrow> this_RingManage self p;
                   if length (rm_RetNodeMap q) = length (rm_remoteNodes q) then
                     do { let p = p\<lparr>g_rings := snd (unfreezeRing (rm_ringNum q) (g_rings p))\<rparr>;
                          (_, p) \<leftarrow> performReplacement E self p;
                          p \<leftarrow> modifyQ self finish p;
                          Some (0, p) }
                   else Some (0, p) } }"

definition badNodes :: "RingManageQuery \<Rightarrow> NodeIdent list" where
  "badNodes q = filter (\<lambda>n. sm_find (rm_RetNodeMap q) n = None) (rm_remoteNodes q)"

fun eraseNodes :: "fpu \<Rightarrow> NodeIdent list \<Rightarrow> RingSet \<Rightarrow> RingSet option" where
  "eraseNodes F [] rs = Some rs"
| "eraseNodes F (n # ns) rs = do { (_, rs) \<leftarrow> eraseNode F n rs; eraseNodes F ns rs }"

definition RingManage_handleTimeout :: "env \<Rightarrow> u64 \<Rightarrow> MeridianProcess
    \<Rightarrow> (int \<times> MeridianProcess) option" where
  "RingManage_handleTimeout E self p =
     do { q \<leftarrow> this_RingManage self p;
          let rs = snd (unfreezeRing (rm_ringNum q) (g_rings p));
          rs \<leftarrow> eraseNodes (env_fpu E) (badNodes q) rs;
          p \<leftarrow> modifyQ self (onRingManage (fold removeCandidateNode (badNodes q)))
            (p\<lparr>g_rings := rs\<rparr>);
          (_, p) \<leftarrow> performReplacement E self p;
          p \<leftarrow> modifyQ self finish p;
          Some (0, p) }"

end
