(* ===== verification/Query_Engine.thy ===== *)
theory Query_Engine
  imports Constraint_Query Ring_Manage
begin

text \<open>
  QueryTable.cpp with the query objects: delivering a packet, a latency or a timeout to a query.
  A delivery runs the virtual handler of the object and then refiles it under its new timeout,
  or deletes it when it has finished. A handler may deliver latencies to its subscribers, so
  \<open>deliver\<close> is a recursion over the subscriptions; it carries fuel, and \<open>notifyQLatency\<close> gives it
  one more than there are queries.
\<close>

subsection \<open>Virtual handlers\<close>

definition handleLatency :: "env \<Rightarrow> notifier \<Rightarrow> u64 \<Rightarrow> NodeIdentLat list \<Rightarrow> MeridianProcess
    \<Rightarrow> (int \<times> MeridianProcess) option" where
  "handleLatency E notify self lats p =
     (case deref self p of
        None \<Rightarrow> None
      | Some q \<Rightarrow>
          (case q of
             AddNodeQ _ \<Rightarrow> AddNode_handleLatency E notify self lats p
           | GossipQ _ \<Rightarrow> Gossip_handleLatency E self lats p
           | SchedulerQ _ \<Rightarrow> Some (0, p)
           | RingManageQ _ \<Rightarrow> Some (0, p)
           | ProbeQ _ \<Rightarrow> ProbeQuery_handleLatency E notify self lats p
           | HandleReqQ _ \<Rightarrow> HandleReq_handleLatency E self lats p
           | ReqProbeQ _ \<Rightarrow> Some (0, p)
           | HandleClosestQ _ \<Rightarrow> Closest_handleLatency E self lats p
           | HandleMCQ _ \<Rightarrow> MC_handleLatency E self lats p))"

fun deliver :: "env \<Rightarrow> nat \<Rightarrow> notifier" where
  "deliver E 0 qid lats p = None"
| "deliver E (Suc n) qid lats p =
     (if \<not> isQueryInTable qid (g_queryTable p) then Some (-1, p)
      else do { (_, p) \<leftarrow> handleLatency E (deliver E n) qid lats p; tableUpdate qid p })"

definition notifyQLatency :: "env \<Rightarrow> notifier" where
  "notifyQLatency E qid lats p = deliver E (Suc (length (g_queries p))) qid lats p"

definition handleEvent :: "env \<Rightarrow> u64 \<Rightarrow> NodeIdent \<Rightarrow> u8 list \<Rightarrow> MeridianProcess
    \<Rightarrow> (int \<times> MeridianProcess) option" where
  "handleEvent E self in_remote inPacket p =
     (case deref self p of
        None \<Rightarrow> None
      | Some q \<Rightarrow>
          (case q of
             AddNodeQ _ \<Rightarrow> AddNode_handleEvent E (notifyQLatency E) self in_remote inPacket p
           | GossipQ _ \<Rightarrow> Some (0, p)
           | SchedulerQ _ \<Rightarrow> Some (0, p)
           | RingManageQ _ \<Rightarrow> RingManage_handleEvent E self in_remote inPacket p
           | ProbeQ _ \<Rightarrow> ProbeQuery_handleEvent E (notifyQLatency E) self in_remote p
           | HandleReqQ _ \<Rightarrow> Some (0, p)
           | ReqProbeQ _ \<Rightarrow> ReqProbe_handleEvent E (notifyQLatency E) self in_remote inPacket p
           | HandleClosestQ _ \<Rightarrow> Closest_handleEvent E self in_remote inPacket p
           | HandleMCQ _ \<Rightarrow> MC_handleEvent E self in_remote inPacket p))"

definition notifyQPacket :: "env \<Rightarrow> u64 \<Rightarrow> NodeIdent \<Rightarrow> u8 list \<Rightarrow> MeridianProcess
    \<Rightarrow> (int \<times> MeridianProcess) option" where
  "notifyQPacket E qid remoteNode packet p =
     (if \<not> isQueryInTable qid (g_queryTable p) then Some (-1, p)
      else do { (_, p) \<leftarrow> handleEvent E qid remoteNode packet p; tableUpdate qid p })"

subsection \<open>Starting queries\<close>

text \<open>\<^verbatim>\<open>MeridianProcess::addNodeToRing\<close>: a recently measured node is not probed again.\<close>

definition addNodeToRing :: "env \<Rightarrow> NodeIdentRendv \<Rightarrow> MeridianProcess
    \<Rightarrow> (int \<times> MeridianProcess) option" where
  "addNodeToRing E in_remote p =
     (case cacheGetLatency E KindPing (ident in_remote) p of (found, p) \<Rightarrow>
      if found \<noteq> None then Some (0, p) else
      case newAddNode E in_remote p of ((nid, q), p) \<Rightarrow>
      case tableInsert nid q p of (ret, p) \<Rightarrow>
      if ret = -1 then Some (-1, p) else
      do { (_, p) \<leftarrow> AddNode_init E nid p; Some (0, p) })"

fun gossipWith :: "env \<Rightarrow> NodeIdentRendv list \<Rightarrow> MeridianProcess
    \<Rightarrow> (int \<times> MeridianProcess) option" where
  "gossipWith E [] p = Some (0, p)"
| "gossipWith E (n # ns) p =
     (case newGossip E n p of ((nid, q), p) \<Rightarrow>
      case tableInsert nid q p of (ret, p) \<Rightarrow>
      if ret = -1 then Some (-1, p) else
      do { (_, p) \<leftarrow> Gossip_init E nid p; gossipWith E ns p })"

definition performGossip :: "env \<Rightarrow> MeridianProcess \<Rightarrow> (int \<times> MeridianProcess) option" where
  "performGossip E p =
     (case getRandomNodes (env_rand E) (g_rings p) ([], g_randDraws p) of (randNodes, k) \<Rightarrow>
      gossipWith E randNodes (p\<lparr>g_randDraws := k\<rparr>))"

fun eligibleRings :: "int list \<Rightarrow> RingSet \<Rightarrow> int list \<times> RingSet" where
  "eligibleRings [] rs = ([], rs)"
| "eligibleRings (i # is) rs =
     (case eligibleForReplacement i rs of (eligible, rs) \<Rightarrow>
      case eligibleRings is rs of (js, rs) \<Rightarrow>
      (if eligible then i # js else js, rs))"

definition performRingManagement :: "env \<Rightarrow> MeridianProcess \<Rightarrow> (int \<times> MeridianProcess) option" where
  "performRingManagement E p =
     (case eligibleRings [0..getNumberOfRings (g_rings p) - 1] (g_rings p) of (rings, rs) \<Rightarrow>
      let p = p\<lparr>g_rings := rs\<rparr> in
      if rings = [] then Some (0, p) else
      case c_rand E p of (r, p) \<Rightarrow>
      case newRingManage E (rings ! (r mod length rings)) p of ((nid, q), p) \<Rightarrow>
      case tableInsert nid q p of (ret, p) \<Rightarrow>
      if ret = -1 then Some (-1, p) else
      do { (_, p) \<leftarrow> RingManage_init E nid p; Some (0, p) })"

subsection \<open>Schedulers\<close>

definition this_Scheduler :: "u64 \<Rightarrow> MeridianProcess \<Rightarrow> QueryScheduler option" where
  "this_Scheduler self p = (case deref self p of Some (SchedulerQ q) \<Rightarrow> Some q | _ \<Rightarrow> None)"

text \<open>\<^verbatim>\<open>computeSchedTimeout\<close>, on the object.\<close>

definition computeSchedTimeout :: "env \<Rightarrow> QueryScheduler \<Rightarrow> MeridianProcess
    \<Rightarrow> QueryScheduler \<times> MeridianProcess" where
  "computeSchedTimeout E q p =
     (if qs_numInitInterval q > 0 then
        case computeTimeout E (qs_initInterval_MS q * MICRO_IN_MILLI) p of (tv, p) \<Rightarrow>
          (q\<lparr>qs_timeoutTV := tv, qs_numInitInterval := qs_numInitInterval q - 1\<rparr>, p)
      else
        case computeTimeout E (qs_ssInterval_MS q * MICRO_IN_MILLI) p of (tv, p) \<Rightarrow>
          (q\<lparr>qs_timeoutTV := tv\<rparr>, p))"

definition newScheduler :: "env \<Rightarrow> u32 \<Rightarrow> u32 \<Rightarrow> u32 \<Rightarrow> SchedObject \<Rightarrow> MeridianProcess
    \<Rightarrow> (u64 \<times> query) \<times> MeridianProcess" where
  "newScheduler E in_initInterval_MS in_numInitInterval in_ssInterval_MS in_schedObj p =
     (case getNewQueryID E p of (qid, p) \<Rightarrow>
      case computeSchedTimeout E \<lparr>qs_schedObj = in_schedObj,
          qs_timeoutTV = \<lparr>tv_sec = 0, tv_usec = 0\<rparr>, qs_initInterval_MS = in_initInterval_MS,
          qs_numInitInterval = in_numInitInterval, qs_ssInterval_MS = in_ssInterval_MS,
          qs_finished = False\<rparr> p of (q, p) \<Rightarrow>
      ((qid, SchedulerQ q), p))"

definition runOnce :: "env \<Rightarrow> SchedObject \<Rightarrow> MeridianProcess \<Rightarrow> (int \<times> MeridianProcess) option" where
  "runOnce E obj p =
     (case obj of
        SchedGossip \<Rightarrow> do { (_, p) \<leftarrow> performGossip E p; Some (0, p) }
      | SchedRingManage \<Rightarrow> do { (_, p) \<leftarrow> performRingManagement E p; Some (0, p) })"

definition Scheduler_handleTimeout :: "env \<Rightarrow> u64 \<Rightarrow> MeridianProcess
    \<Rightarrow> (int \<times> MeridianProcess) option" where
  "Scheduler_handleTimeout E self p =
     do { q \<leftarrow> this_Scheduler self p;
          (_, p) \<leftarrow> runOnce E (qs_schedObj q) p;
          q \<leftarrow> this_Scheduler self p;
          (case computeSchedTimeout E q p of (q, p) \<Rightarrow>
            do { p \<leftarrow> modifyQ self (\<lambda>_. SchedulerQ q) p; Some (0, p) }) }"

definition removeScheduler :: "u64 \<Rightarrow> MeridianProcess \<Rightarrow> (int \<times> MeridianProcess) option" where
  "removeScheduler self p =
     do { p \<leftarrow> modifyQ self finish p; (_, p) \<leftarrow> tableUpdate self p; Some (0, p) }"

subsection \<open>Timeouts\<close>

definition handleQueryTimeout :: "env \<Rightarrow> u64 \<Rightarrow> MeridianProcess
    \<Rightarrow> (int \<times> MeridianProcess) option" where
  "handleQueryTimeout E self p =
     (case deref self p of
        None \<Rightarrow> None
      | Some q \<Rightarrow>
          (case q of
             AddNodeQ _ \<Rightarrow> AddNode_handleTimeout E self p
           | GossipQ _ \<Rightarrow> Gossip_handleTimeout self p
           | SchedulerQ _ \<Rightarrow> Scheduler_handleTimeout E self p
           | RingManageQ _ \<Rightarrow> RingManage_handleTimeout E self p
           | ProbeQ _ \<Rightarrow> ProbeQuery_handleTimeout self p
           | HandleReqQ _ \<Rightarrow> HandleReq_handleTimeout E self p
           | ReqProbeQ _ \<Rightarrow> ReqProbe_handleTimeout E self p
           | HandleClosestQ _ \<Rightarrow> Closest_handleTimeout E self p
           | HandleMCQ _ \<Rightarrow> MC_handleTimeout E self p))"

fun timeoutRound :: "env \<Rightarrow> u64 list \<Rightarrow> MeridianProcess \<Rightarrow> MeridianProcess option" where
  "timeoutRound E [] p = Some p"
| "timeoutRound E (curQuery # qs) p =
     do { (_, p) \<leftarrow> handleQueryTimeout E curQuery p;
          (_, p) \<leftarrow> tableUpdate curQuery p;
          timeoutRound E qs p }"

definition QueryTable_handleTimeout :: "env \<Rightarrow> MeridianProcess
    \<Rightarrow> (int \<times> MeridianProcess) option" where
  "QueryTable_handleTimeout E p =
     (case gettimeofday E p of (now, p) \<Rightarrow>
      do { p \<leftarrow> timeoutRound E (timedOut now (g_queryTable p)) p; Some (0, p) })"

end
