(* ===== verification/Meridian_Node.thy ===== *)
theory Meridian_Node
  imports Query_Engine
begin

text \<open>
  MeridianProcess.cpp: what a node does with a datagram, an ICMP reply and the sockets of its
  probes. Built with
  \<^verbatim>\<open>GOSSIP_PUSHPULL\<close> and \<^verbatim>\<open>PLANET_LAB_SUPPORT\<close> and without \<^verbatim>\<open>MERIDIAN_DSL\<close>: the two packet
  types of the query language are ignored like unknown ones.
\<close>

subsection \<open>Requests\<close>

definition requester :: "NodeIdent \<Rightarrow> u32 \<Rightarrow> u16 \<Rightarrow> NodeIdentRendv" where
  "requester remoteNode rendvAddr rendvPort =
     \<lparr>addr = addr remoteNode, port = port remoteNode, addrRendv = rendvAddr,
      portRendv = ucast rendvPort\<rparr>"

definition handleMeasureReq :: "env \<Rightarrow> probe_kind \<Rightarrow> NodeIdent \<Rightarrow> u8 list \<Rightarrow> MeridianProcess
    \<Rightarrow> (int \<times> MeridianProcess) option" where
  "handleMeasureReq E k remoteNode buf p =
     (case fst (ReqGeneric_parse (measureType k) (env_magic E) buf) of
        None \<Rightarrow> Some (0, p)
      | Some tmp \<Rightarrow>
          let rNodeRendv = requester remoteNode (rendv_addr tmp) (rendv_port tmp) in
          if rg_targets tmp = [] then
            Some (0, snd (sendPacket
              (RetPing_createRealPacket (env_magic E) (newRetPing (retReqID tmp))) rNodeRendv p))
          else
            (case newHandleReq E k rNodeRendv (rg_targets tmp) p of (reqQ, p) \<Rightarrow>
             case tableInsert (retReqID tmp) reqQ p of (ret, p) \<Rightarrow>
             if ret = -1 then Some (0, p) else
             do { (_, p) \<leftarrow> HandleReq_init E (notifyQLatency E) (retReqID tmp) p; Some (0, p) }))"

definition handleClosestReq :: "env \<Rightarrow> probe_kind \<Rightarrow> u64 \<Rightarrow> NodeIdent \<Rightarrow> u8 list
    \<Rightarrow> MeridianProcess \<Rightarrow> (int \<times> MeridianProcess) option" where
  "handleClosestReq E k queryID remoteNode buf p =
     (if isQueryInTable queryID (g_queryTable p) then
        do { (_, p) \<leftarrow> notifyQPacket E queryID remoteNode buf p; Some (0, p) }
      else
        (case fst (ReqClosestGeneric_parse (closestType k) (env_magic E) buf) of
           None \<Rightarrow> Some (0, p)
         | Some tmp \<Rightarrow>
             (case newHandleClosest E k (cl_betaNum tmp) (cl_betaDen tmp)
                     (requester remoteNode (rendv_addr tmp) (rendv_port tmp))
                     (cl_targets tmp) p of (newQuery, p) \<Rightarrow>
              case tableInsert queryID newQuery p of (ret, p) \<Rightarrow>
              if ret = -1 then Some (0, p) else
              do { (_, p) \<leftarrow> Closest_init E (notifyQLatency E) queryID p; Some (0, p) })))"

definition handleMCReq :: "env \<Rightarrow> probe_kind \<Rightarrow> u64 \<Rightarrow> NodeIdent \<Rightarrow> u8 list
    \<Rightarrow> MeridianProcess \<Rightarrow> (int \<times> MeridianProcess) option" where
  "handleMCReq E k queryID remoteNode buf p =
     (if isQueryInTable queryID (g_queryTable p) then
        do { (_, p) \<leftarrow> notifyQPacket E queryID remoteNode buf p; Some (0, p) }
      else
        (case fst (ReqConstraintGeneric_parse (constraintType k) (env_magic E) buf) of
           None \<Rightarrow> Some (0, p)
         | Some tmp \<Rightarrow>
             (case newHandleMC E k (rc_betaNum tmp) (rc_betaDen tmp)
                     (requester remoteNode (rendv_addr tmp) (rendv_port tmp))
                     (rc_targets tmp) p of (newQuery, p) \<Rightarrow>
              case tableInsert queryID newQuery p of (ret, p) \<Rightarrow>
              if ret = -1 then Some (0, p) else
              do { (_, p) \<leftarrow> MC_init E (notifyQLatency E) queryID p; Some (0, p) })))"

subsection \<open>Datagrams\<close>

text \<open>
  PUSH: queue the frame for the tunnel of its destination. The result of the parser is used
  without a test, so a frame it rejects is a null pointer access.
\<close>

definition handlePush :: "env \<Rightarrow> NodeIdent \<Rightarrow> u8 list \<Rightarrow> MeridianProcess
    \<Rightarrow> MeridianProcess option" where
  "handlePush E remoteNode buf p =
     (case fst (PushPacket_parse (env_magic E) remoteNode buf) of
        None \<Rightarrow> None
      | Some inPacket \<Rightarrow>
          let destIdent = ident (rp_dest inPacket) in
          (case sm_find (g_rendvConnections p) destIdent of
             None \<Rightarrow> Some p
           | Some fd \<Rightarrow>
               (case sm_find (g_rendvQueue p) fd of
                  None \<Rightarrow> Some (p\<lparr>g_rendvConnections :=
                    sm_erase destIdent (g_rendvConnections p)\<rparr>)
                | Some queue \<Rightarrow>
                    Some (set_write fd
                      (p\<lparr>g_rendvQueue := sm_upd fd (queue @ [inPacket]) (g_rendvQueue p)\<rparr>)))))"

fun addNodesToRing :: "env \<Rightarrow> NodeIdentRendv list \<Rightarrow> MeridianProcess
    \<Rightarrow> MeridianProcess option" where
  "addNodesToRing E [] p = Some p"
| "addNodesToRing E (n # ns) p =
     do { (_, p) \<leftarrow> addNodeToRing E n p; addNodesToRing E ns p }"

text \<open>GOSSIP and GOSSIP\_PULL; a push is answered with a pull.\<close>

definition handleGossip :: "env \<Rightarrow> u8 \<Rightarrow> NodeIdent \<Rightarrow> u8 list \<Rightarrow> MeridianProcess
    \<Rightarrow> MeridianProcess option" where
  "handleGossip E queryType remoteNode buf p =
     (case fst (GossipPacketGeneric_parse
             (if queryType = GOSSIP then GossipPacketPush_type else GossipPacketPull_type)
             (env_magic E) buf) of
        None \<Rightarrow> Some p
      | Some tmp \<Rightarrow>
          let remoteNodeRendv = requester remoteNode (rendv_addr tmp) (rendv_port tmp) in
          do { (_, p) \<leftarrow> addNodeToRing E remoteNodeRendv p;
               p \<leftarrow> addNodesToRing E (gp_targets tmp) p;
               if queryType = GOSSIP then
                 (case getNewQueryID E p of (qid, p) \<Rightarrow>
                  case fillGossipPacket E
                      (newGossipPacket qid (addr (g_rendvNode p)) (port (g_rendvNode p)))
                      remoteNodeRendv p of (gPacket, p) \<Rightarrow>
                  Some (snd (sendPacket (GossipPacketGeneric_createRealPacket
                      GossipPacketPull_type (env_magic E) gPacket) remoteNodeRendv p)))
               else Some p })"

definition notifying :: "env \<Rightarrow> u64 \<Rightarrow> NodeIdent \<Rightarrow> u8 list \<Rightarrow> MeridianProcess
    \<Rightarrow> MeridianProcess option" where
  "notifying E qid remoteNode buf p = map_option snd (notifyQPacket E qid remoteNode buf p)"

definition handleNewPacket :: "env \<Rightarrow> u8 list \<Rightarrow> NodeIdent \<Rightarrow> MeridianProcess
    \<Rightarrow> MeridianProcess option" where
  "handleNewPacket E buf remoteNode p =
     (case parseHeader (env_magic E) (newBufferWrapper buf (int (length buf))) of
        (ret, queryType, queryID, rb) \<Rightarrow>
      if ret = -1 then Some p
      else if queryType = PUSH then handlePush E remoteNode buf p
      else if queryType = PING then
        Some (snd (sendPacket (PongPacket_createRealPacket (env_magic E) (newPacket queryID))
          (noRendvDest remoteNode) p))
      else if queryType = GOSSIP \<or> queryType = GOSSIP_PULL then
        handleGossip E queryType remoteNode buf p
      else if queryType = REQ_CONSTRAINT_N_ICMP then
        map_option snd (handleMCReq E KindICMP queryID remoteNode buf p)
      else if queryType = REQ_CONSTRAINT_N_PING then
        map_option snd (handleMCReq E KindPing queryID remoteNode buf p)
      else if queryType = REQ_CONSTRAINT_N_DNS then
        map_option snd (handleMCReq E KindDNS queryID remoteNode buf p)
      else if queryType = REQ_CONSTRAINT_N_TCP then
        map_option snd (handleMCReq E KindTCP queryID remoteNode buf p)
      else if queryType = REQ_CLOSEST_N_ICMP then
        map_option snd (handleClosestReq E KindICMP queryID remoteNode buf p)
      else if queryType = REQ_CLOSEST_N_MERID_PING then
        map_option snd (handleClosestReq E KindPing queryID remoteNode buf p)
      else if queryType = REQ_CLOSEST_N_DNS then
        map_option snd (handleClosestReq E KindDNS queryID remoteNode buf p)
      else if queryType = REQ_CLOSEST_N_TCP then
        map_option snd (handleClosestReq E KindTCP queryID remoteNode buf p)
      else if queryType = RET_RESPONSE then notifying E queryID remoteNode buf p
      else if queryType = RET_INFO then notifying E queryID remoteNode buf p
      else if queryType = RET_ERROR then notifying E queryID remoteNode buf p
      else if queryType = PONG then notifying E queryID remoteNode buf p
      else if queryType = REQ_MEASURE_N_MERID_PING then
        map_option snd (handleMeasureReq E KindPing remoteNode buf p)
      else if queryType = REQ_MEASURE_N_TCP then
        map_option snd (handleMeasureReq E KindTCP remoteNode buf p)
      else if queryType = REQ_MEASURE_N_DNS then
        map_option snd (handleMeasureReq E KindDNS remoteNode buf p)
      else if queryType = REQ_MEASURE_N_ICMP then
        map_option snd (handleMeasureReq E KindICMP remoteNode buf p)
      else if queryType = RET_PING_REQ then notifying E queryID remoteNode buf p
      else Some p)"

text \<open>
  What \<^verbatim>\<open>recvfrom\<close> answered is the argument: nothing, or the sender and the bytes, cut at the size
  of the buffer.
\<close>

definition readPacket :: "env \<Rightarrow> (NodeIdent \<times> u8 list) option \<Rightarrow> MeridianProcess
    \<Rightarrow> (int \<times> MeridianProcess) option" where
  "readPacket E received p =
     (case received of
        None \<Rightarrow> Some (-1, p)
      | Some (remoteNode, buf) \<Rightarrow>
          map_option (Pair 0) (handleNewPacket E (take (unat MAX_UDP_PACKET_SIZE) buf) remoteNode p))"

subsection \<open>ICMP replies\<close>

definition ICMP_ECHOREPLY :: u8 where "ICMP_ECHOREPLY = 0"

definition MAX_ICMP_PACKET_SIZE :: nat where "MAX_ICMP_PACKET_SIZE = 1400"

definition echoQuery :: "u8 list \<Rightarrow> u64" where
  "echoQuery buf = to64 (ntohl (bytes_u32 (take 4 (drop 28 buf))))
     (ntohl (bytes_u32 (take 4 (drop 32 buf))))"

definition echoReply :: "u8 list \<Rightarrow> MeridianProcess \<Rightarrow> bool" where
  "echoReply buf p \<longleftrightarrow> length buf = 36 \<and> buf ! 9 = 1 \<and> buf ! 20 = ICMP_ECHOREPLY \<and>
     [buf ! 24, buf ! 25] = net_ushort (g_meridPort p)"

definition readICMPPacket :: "env \<Rightarrow> (u32 \<times> u8 list) option \<Rightarrow> MeridianProcess
    \<Rightarrow> (int \<times> MeridianProcess) option" where
  "readICMPPacket E received p =
     (case received of
        None \<Rightarrow> Some (-1, p)
      | Some (theirAddr, bytes) \<Rightarrow>
          let buf = take MAX_ICMP_PACKET_SIZE bytes in
          if \<not> echoReply buf p then Some (-1, p)
          else do { (_, p) \<leftarrow> notifyQPacket E (echoQuery buf) \<lparr>addr = theirAddr, port = 0\<rparr> buf p;
                    Some (0, p) })"

fun icmpWriteLoop :: "env \<Rightarrow> RealPacket list \<Rightarrow> MeridianProcess
    \<Rightarrow> RealPacket list \<times> MeridianProcess" where
  "icmpWriteLoop E [] p = ([], clr_write (g_icmpSock p) p)"
| "icmpWriteLoop E (firstPacket # rest) p =
     (case sys_call E p of (ok, p) \<Rightarrow>
      if \<not> ok \<and> env_again E (g_sysCalls p) then (firstPacket # rest, p)
      else icmpWriteLoop E rest
        (if ok then p\<lparr>g_datagrams := g_datagrams p @
            [(ident (rp_dest firstPacket), getPayLoad firstPacket)]\<rparr> else p))"

definition icmpWritePending :: "env \<Rightarrow> MeridianProcess \<Rightarrow> MeridianProcess option" where
  "icmpWritePending E p =
     (if g_icmpOutPacketList p = [] then None
      else case icmpWriteLoop E (g_icmpOutPacketList p) p of (left, p) \<Rightarrow>
        Some (p\<lparr>g_icmpOutPacketList := left\<rparr>))"

subsection \<open>Probe connections\<close>

text \<open>A writable TCP socket: the connection stands when the peer has a name.\<close>

fun tcpReady :: "env \<Rightarrow> (int \<Rightarrow> bool) \<Rightarrow> (int \<times> u64 \<times> NodeIdent) list \<Rightarrow> MeridianProcess
    \<Rightarrow> (int list \<times> MeridianProcess) option" where
  "tcpReady E curWriteSet [] p = Some ([], p)"
| "tcpReady E curWriteSet ((sock, qid, node) # con) p =
     do { ready \<leftarrow> FD_ISSET sock curWriteSet;
          if ready then
            (case sys_call E p of (peer, p) \<Rightarrow>
             do { (_, p) \<leftarrow> (if peer then notifyQLatency E qid [nodeLat node 0] p else Some (0, p));
                  (deleteVector, p) \<leftarrow> tcpReady E curWriteSet con p;
                  Some (sock # deleteVector, p) })
          else tcpReady E curWriteSet con p }"

definition handleTCPConnections :: "env \<Rightarrow> (int \<Rightarrow> bool) \<Rightarrow> MeridianProcess
    \<Rightarrow> MeridianProcess option" where
  "handleTCPConnections E curWriteSet p =
     do { (deleteVector, p) \<leftarrow> tcpReady E curWriteSet (g_tcpProbeConnections p) p;
          Some (fold (\<lambda>sock p. snd (eraseTCPConnectionAt sock p)) deleteVector p) }"

fun dnsReady :: "env \<Rightarrow> (int \<Rightarrow> bool) \<Rightarrow> (int \<times> u64 \<times> NodeIdent) list \<Rightarrow> MeridianProcess
    \<Rightarrow> (int list \<times> MeridianProcess) option" where
  "dnsReady E curReadSet [] p = Some ([], p)"
| "dnsReady E curReadSet ((sock, qid, node) # con) p =
     do { ready \<leftarrow> FD_ISSET sock curReadSet;
          if ready then
            do { (_, p) \<leftarrow> notifyQLatency E qid [nodeLat node 0] p;
                 (deleteVector, p) \<leftarrow> dnsReady E curReadSet con p;
                 Some (sock # deleteVector, p) }
          else dnsReady E curReadSet con p }"

definition handleDNSConnections :: "env \<Rightarrow> (int \<Rightarrow> bool) \<Rightarrow> MeridianProcess
    \<Rightarrow> MeridianProcess option" where
  "handleDNSConnections E curReadSet p =
     do { (deleteVector, p) \<leftarrow> dnsReady E curReadSet (g_dnsProbeConnections p) p;
          Some (fold (\<lambda>sock p. snd (eraseDNSConnectionAt sock p)) deleteVector p) }"

end
