(* ===== verification/Info_Packet.thy ===== *)
theory Info_Packet
  imports Ring_Queries Tunnel Timeout_Index
begin

text \<open>
  Marshal.cpp, lines 51-129: the packet that reports the primary rings of a node. The number of
  entries is known only after the loop, so the writer patches it into a dummy word; the reader
  collects the entries by ring number.
\<close>

text \<open>An entry on the wire: a ring number and a member with its latency.\<close>

type_synonym info_entry = "u32 \<times> NodeIdentLat"

definition put_info :: "info_entry \<Rightarrow> RealPacket \<Rightarrow> RealPacket" where
  "put_info e inPacket =
     append_uint (htonl (latencyUS (snd e)))
       (append_ushort (htons (port (snd e)))
         (append_uint (htonl (addr (snd e))) (append_uint (htonl (fst e)) inPacket)))"

definition get_info :: "BufferWrapper \<Rightarrow> info_entry \<times> BufferWrapper" where
  "get_info rb =
     (case get_uint rb of (in_ring, rb) \<Rightarrow>
      case get_uint rb of (a, rb) \<Rightarrow>
      case get_ushort rb of (p, rb) \<Rightarrow>
      case get_uint rb of (l, rb) \<Rightarrow>
      ((in_ring, \<lparr>addr = a, port = p, latencyUS = l\<rparr>), rb))"

definition enc_info :: "info_entry \<Rightarrow> u8 list" where
  "enc_info e = net_uint (fst e) @ enc_NodeIdentLat (snd e)"

interpretation info_entry: entry_codec put_info get_info enc_info "\<lambda>_. True"
proof
  show "rp_ok p \<Longrightarrow> writes p (put_info e p) (enc_info e)" for p e
    unfolding put_info_def enc_info_def enc_NodeIdentLat_def append_assoc [symmetric]
    by (intro writes_chain)
  show "length pre + length (enc_info e) + length rest < 1073741824 \<Longrightarrow>
      get_info (rd pre (enc_info e @ rest)) = (e, rd (pre @ enc_info e) rest)" for pre e rest
    by (cases e) (simp add: get_info_def enc_info_def enc_NodeIdentLat_def wire_simps)
  show "bw_ok b \<Longrightarrow> get_info b = (e, b') \<Longrightarrow> reads b (enc_info e) b' \<and> True" for b e b'
    by (clarsimp simp: get_info_def enc_info_def enc_NodeIdentLat_def split: prod.splits)
      ((rule reads_bind reads_last, assumption, assumption)+)
qed

lemma length_enc_info [simp]:
  "length (enc_info e) = 14" "length (concat (map enc_info es)) = 14 * length es"
proof -
  show l: "length (enc_info e) = 14" for e by (simp add: enc_info_def enc_NodeIdentLat_def)
  show "length (concat (map enc_info es)) = 14 * length es" by (induction es) (simp_all add: l)
qed

subsection \<open>The writer\<close>

definition infoStep :: "RingSet \<Rightarrow> int \<times> NodeIdent \<Rightarrow> u32 \<times> RealPacket \<Rightarrow> u32 \<times> RealPacket" where
  "infoStep rings it st =
     (case st of (numMembers, inPacket) \<Rightarrow>
        (case getNodeLatency rings (snd it) of
           None \<Rightarrow> (numMembers, inPacket)
         | Some latency \<Rightarrow>
             (numMembers + 1, put_info (word_of_int (fst it), latEntry (snd it, latency)) inPacket)))"

definition ringMembers :: "RingSet \<Rightarrow> (int \<times> NodeIdent) list" where
  "ringMembers rings =
     concat (map (\<lambda>i. map (Pair i) (primaryRing rings i)) [0..getNumberOfRings rings - 1])"

definition InfoPacket_createRealPacket :: "u32 \<Rightarrow> Packet \<Rightarrow> RingSet \<Rightarrow> RealPacket
    \<Rightarrow> int \<times> RealPacket" where
  "InfoPacket_createRealPacket magic pk rings inPacket =
     (let inPacket = append_char INFO_PACKET inPacket;
          inPacket = write_id magic pk inPacket;
          dummyPos = rp_size inPacket;
          inPacket = append_uint 0 inPacket;
          (numMembers, inPacket) = fold (infoStep rings) (ringMembers rings) (0, inPacket)
      in if \<not> rp_complete inPacket then (-1, inPacket)
         else (0, inPacket\<lparr>rp_packet :=
                mem_write (rp_packet inPacket) (nat dummyPos) (u32_bytes (htonl numMembers))\<rparr>))"

subsection \<open>The reader\<close>

text \<open>The loop runs \<open>numMembers\<close> times even after the reader has failed.\<close>

fun infoLoop :: "nat \<Rightarrow> BufferWrapper \<Rightarrow> (u32, NodeIdentLat list) smap
    \<Rightarrow> (u32, NodeIdentLat list) smap \<times> BufferWrapper" where
  "infoLoop 0 rb inMap = (inMap, rb)"
| "infoLoop (Suc n) rb inMap =
     (case get_info rb of ((in_ring, tmpNode), rb) \<Rightarrow>
        infoLoop n rb (bucket_push in_ring tmpNode inMap))"

definition InfoPacket_parse :: "u32 \<Rightarrow> u8 list \<Rightarrow> (u32, NodeIdentLat list) smap
    \<Rightarrow> int \<times> (u32, NodeIdentLat list) smap \<times> BufferWrapper" where
  "InfoPacket_parse magic buf inMap =
     (let rb = newBufferWrapper buf (int (length buf)) in
      if length inMap > 0 then (-1, inMap, rb) else
      case retrieve_char rb of (queryType, rb) \<Rightarrow>
      if bw_errorFlag rb \<or> queryType \<noteq> INFO_PACKET then (-1, inMap, rb) else
      case retrieve_uint rb of (_, rb) \<Rightarrow>
      case retrieve_uint rb of (_, rb) \<Rightarrow>
      case get_uint rb of (magicNumber, rb) \<Rightarrow>
      if bw_errorFlag rb \<or> magicNumber \<noteq> magic then (-1, inMap, rb) else
      case get_uint rb of (numMembers, rb) \<Rightarrow>
      case infoLoop (unat numMembers) rb inMap of (inMap, rb) \<Rightarrow>
      if bw_errorFlag rb then (-1, [], rb) else (0, inMap, rb))"

definition collect :: "info_entry list \<Rightarrow> (u32, NodeIdentLat list) smap" where
  "collect es = fold (\<lambda>e. bucket_push (fst e) (snd e)) es []"

lemma infoLoop_rd:
  assumes "length pre + length (concat (map enc_info es)) + length rest < 1073741824"
  shows "infoLoop (length es) (rd pre (concat (map enc_info es) @ rest)) m =
    (fold (\<lambda>e. bucket_push (fst e) (snd e)) es m, rd (pre @ concat (map enc_info es)) rest)"
  using assms
proof (induction es arbitrary: pre m)
  case (Cons e es)
  have "get_info (rd pre (enc_info e @ concat (map enc_info es) @ rest)) =
      (e, rd (pre @ enc_info e) (concat (map enc_info es) @ rest))"
    using Cons.prems by (intro info_entry.get_rd) simp_all
  then show ?case
    using Cons.IH [of "pre @ enc_info e" "bucket_push (fst e) (snd e) m"] Cons.prems
    by (simp add: case_prod_beta)
qed simp

lemma infoLoop_safe: "bw_ok rb \<Longrightarrow> bw_ok (snd (infoLoop n rb m))"
proof (induction n arbitrary: rb m)
  case (Suc n)
  obtain e rb1 where e: "get_info rb = (e, rb1)" by fastforce
  then have "bw_ok rb1" using info_entry.get_reads Suc.prems(1) reads_ok by blast
  then show ?case using Suc.IH e by (simp add: case_prod_beta)
qed simp

lemma InfoPacket_parse_safe:
  "length buf < 1073741824 \<Longrightarrow> bw_ok (snd (snd (InfoPacket_parse magic buf m)))"
  unfolding InfoPacket_parse_def new_rd
  by (simp add: wire_simps Let_def split_beta infoLoop_safe)

lemma sm_find_collect:
  "sm_find (fold (\<lambda>e. bucket_push (fst e) (snd e)) es m) k =
     (case sm_find m k of
        None \<Rightarrow> (case map snd (filter (\<lambda>e. fst e = k) es) of [] \<Rightarrow> None | xs \<Rightarrow> Some xs)
      | Some ys \<Rightarrow> Some (ys @ map snd (filter (\<lambda>e. fst e = k) es)))"
  by (induction es arbitrary: m) (auto simp: bucket_push_def split: option.splits list.splits)

subsection \<open>Report and collection\<close>

definition infoEntries :: "RingSet \<Rightarrow> info_entry list" where
  "infoEntries rings =
     map (\<lambda>it. (word_of_int (fst it), latEntry (snd it, the (getNodeLatency rings (snd it)))))
       (ringMembers rings)"

lemma length_infoEntries: "length (infoEntries rings) = length (ringMembers rings)"
  by (simp add: infoEntries_def)

lemma infoStep_fold:
  assumes "\<forall>it \<in> set its. getNodeLatency rings (snd it) \<noteq> None"
  shows "fold (infoStep rings) its (k, p) =
    (k + word_of_nat (length its),
     fold put_info (map (\<lambda>it. (word_of_int (fst it),
       latEntry (snd it, the (getNodeLatency rings (snd it))))) its) p)"
  using assms
proof (induction its arbitrary: k p)
  case (Cons it its)
  then obtain l where "getNodeLatency rings (snd it) = Some l" by fastforce
  then show ?case using Cons by (simp add: infoStep_def)
qed simp

lemma ringMembers_known:
  assumes "ring_wf F rings" "it \<in> set (ringMembers rings)"
  shows "getNodeLatency rings (snd it) \<noteq> None"
proof -
  obtain i n where "it = (i, n)" "ring_index i" "n \<in> set (primaryRing rings i)"
    using assms(2) by (auto simp: ringMembers_def getNumberOfRings_def)
  then show ?thesis
    using ring_wfD(3) [OF assms(1), of i n] by (auto simp: members_def getNodeLatency_def)
qed

lemma filter_pairs:
  "filter (\<lambda>e. fst e = k) (concat (map (\<lambda>i. map (Pair i) (f i)) is)) =
     concat (map (\<lambda>i. map (Pair i) (f i)) (filter (\<lambda>i. i = k) is))"
  by (induction "is") (auto simp: filter_empty_conv filter_id_conv)

definition InfoPacket_bytes :: "u32 \<Rightarrow> Packet \<Rightarrow> RingSet \<Rightarrow> u8 list" where
  "InfoPacket_bytes magic pk rings =
     [INFO_PACKET] @ id_bytes magic pk @ net_uint (word_of_nat (length (ringMembers rings))) @
     concat (map enc_info (infoEntries rings))"

lemma InfoPacket_parse_bytes:
  assumes "length (InfoPacket_bytes magic pk rings @ rest) < 1073741824"
  shows "fst (InfoPacket_parse magic (InfoPacket_bytes magic pk rings @ rest) []) = 0"
    "fst (snd (InfoPacket_parse magic (InfoPacket_bytes magic pk rings @ rest) [])) =
      collect (infoEntries rings)"
proof -
  have n: "length (ringMembers rings) = length (infoEntries rings)"
    by (simp add: infoEntries_def)
  have "InfoPacket_parse magic (InfoPacket_bytes magic pk rings @ rest) [] =
      (0, collect (infoEntries rings), rd (InfoPacket_bytes magic pk rings) rest)"
    using assms unfolding InfoPacket_parse_def InfoPacket_bytes_def new_rd n
    by (simp add: wire_simps Let_def id_bytes_def infoLoop_rd collect_def)
  then show "fst (InfoPacket_parse magic (InfoPacket_bytes magic pk rings @ rest) []) = 0"
    "fst (snd (InfoPacket_parse magic (InfoPacket_bytes magic pk rings @ rest) [])) =
      collect (infoEntries rings)" by simp_all
qed


lemma take_mem_write:
  assumes "off + length bs \<le> n" "n \<le> length xs"
  shows "take n (mem_write xs off bs) = mem_write (take n xs) off bs"
proof -
  have "n \<le> off \<Longrightarrow> n = off \<and> length bs = 0" using assms(1) by linarith
  then show ?thesis using assms by (auto simp: mem_write_def min_def drop_take)
qed

lemma mem_write_mid:
  "length b = length b' \<Longrightarrow> mem_write (a @ b @ c) (length a) b' = a @ b' @ c"
  by (simp add: mem_write_def)

lemma length_mem_write:
  "off + length bs \<le> length xs \<Longrightarrow> length (mem_write xs off bs) = length xs"
  by (simp add: mem_write_def)

lemma InfoPacket_create_bytes:
  assumes wf: "ring_wf F rings" and p: "rp_ok p" "rp_size p = 0" "rp_complete p"
    and c: "InfoPacket_createRealPacket magic pk rings p = (ret, q)"
  shows "rp_ok q" "ret = 0 \<longleftrightarrow>
      int (17 + 14 * length (ringMembers rings)) \<le> uint (rp_maxPacketSize p)"
    "ret = 0 \<Longrightarrow> getPayLoad q = InfoPacket_bytes magic pk rings"
proof -
  define hdr where "hdr = [INFO_PACKET] @ id_bytes magic pk"
  define es where "es = concat (map enc_info (infoEntries rings))"
  define p1 where "p1 = write_id magic pk (append_char INFO_PACKET p)"
  define p3 where "p3 = fold put_info (infoEntries rings) (append_uint 0 p1)"
  define k where "k = (word_of_nat (length (ringMembers rings)) :: u32)"
  have w1: "writes p p1 hdr"
    unfolding p1_def hdr_def using p(1) by (intro writes_chain)
  have w3: "writes p p3 (hdr @ u32_bytes 0 @ es)"
    unfolding p3_def es_def append_assoc [symmetric] using w1
    by (intro writes_chain info_entry.put_all) (simp_all add: writes_trans writes_step)
  have f: "fold (infoStep rings) (ringMembers rings) (0, append_uint 0 p1) = (k, p3)"
    using infoStep_fold [of "ringMembers rings" rings 0] ringMembers_known [OF wf]
    by (simp add: k_def p3_def infoEntries_def)
  have "(ret, q) = (if \<not> rp_complete p3 then (-1, p3) else
      (0, p3\<lparr>rp_packet := mem_write (rp_packet p3) (nat (rp_size p1)) (net_uint k)\<rparr>))"
    using c unfolding InfoPacket_createRealPacket_def Let_def p1_def [symmetric] f
    by (auto simp: net_uint_def)
  then have r: "ret = 0 \<longleftrightarrow> rp_complete p3" and q: "q = (if rp_complete p3
      then p3\<lparr>rp_packet := mem_write (rp_packet p3) (nat (rp_size p1)) (net_uint k)\<rparr> else p3)"
    by (auto split: if_splits)
  have len: "length hdr = 13" "length es = 14 * length (ringMembers rings)"
    by (simp_all add: hdr_def es_def length_infoEntries)
  show "ret = 0 \<longleftrightarrow> int (17 + 14 * length (ringMembers rings)) \<le> uint (rp_maxPacketSize p)"
    unfolding r using w3 p len by (auto simp: writes_def)
  have fin: "rp_ok q \<and> getPayLoad q = InfoPacket_bytes magic pk rings" if "rp_complete p3"
  proof -
    have s1: "rp_size p1 = 13" using w1 w3 that p len by (simp add: writes_def)
    have s3: "getPayLoad p3 = hdr @ u32_bytes 0 @ es"
    proof -
      have "getPayLoad p = []" using p(2) by (simp add: getPayLoad_def)
      then show ?thesis using w3 that by (simp add: writes_def)
    qed
    define n where "n = nat (rp_size p3)"
    have n: "17 \<le> n" "n \<le> length (rp_packet p3)"
      using w3 that p len by (auto simp: writes_def rp_ok_def n_def)
    have "getPayLoad q = mem_write (hdr @ u32_bytes 0 @ es) (length hdr) (net_uint k)"
      using take_mem_write [of 13 "net_uint k" n "rp_packet p3"] n s3 that s1 len
      by (simp add: q getPayLoad_def n_def)
    also have "\<dots> = hdr @ net_uint k @ es" by (rule mem_write_mid) simp
    finally have "getPayLoad q = InfoPacket_bytes magic pk rings"
      by (simp add: InfoPacket_bytes_def hdr_def es_def k_def)
    moreover have "rp_ok q"
      using writes_ok [OF w3] that n s1 by (simp add: q rp_ok_def length_mem_write)
    ultimately show ?thesis by blast
  qed
  show "rp_ok q" using fin q w3 by (cases "rp_complete p3") (simp_all add: writes_def)
  show "ret = 0 \<Longrightarrow> getPayLoad q = InfoPacket_bytes magic pk rings" using fin r by blast
qed

text \<open>What the collector finds under a ring number is the primary ring with its latencies.\<close>

definition primaryReport :: "RingSet \<Rightarrow> int \<Rightarrow> NodeIdentLat list" where
  "primaryReport rings i =
     map (\<lambda>n. latEntry (n, the (getNodeLatency rings n))) (primaryRing rings i)"

lemma collect_infoEntries:
  assumes "ring_index i"
  shows "sm_find (collect (infoEntries rings)) (word_of_int i) =
    (if primaryRing rings i = [] then None else Some (primaryReport rings i))"
proof -
  have inj: "(word_of_int j :: u32) = word_of_int i \<longleftrightarrow> j = i" if "ring_index j" for j
  proof -
    have "uint (word_of_int j :: u32) = j" "uint (word_of_int i :: u32) = i"
      using that assms by (simp_all add: uint_word_of_int take_bit_eq_mod MAX_NUM_RINGS_def)
    then show ?thesis by metis
  qed
  let ?e = "\<lambda>it. (word_of_int (fst it) :: u32, latEntry (snd it, the (getNodeLatency rings (snd it))))"
  have "filter (\<lambda>e. fst e = word_of_int i) (map ?e (ringMembers rings)) =
      map ?e (filter (\<lambda>it. fst it = i) (ringMembers rings))"
    unfolding filter_map comp_def fst_conv
    by (intro arg_cong [where f = "map _"] filter_cong refl inj)
      (auto simp: ringMembers_def getNumberOfRings_def)
  also have "filter (\<lambda>it. fst it = i) (ringMembers rings) = map (Pair i) (primaryRing rings i)"
  proof -
    have "filter (\<lambda>j. j = i) [0..MAX_NUM_RINGS - 1] = [i]"
    proof -
      have "i = 0 \<or> i = 1 \<or> i = 2 \<or> i = 3 \<or> i = 4 \<or> i = 5 \<or> i = 6 \<or> i = 7 \<or> i = 8 \<or> i = 9"
        using assms unfolding MAX_NUM_RINGS_def by presburger
      moreover have "[0..MAX_NUM_RINGS - 1] = [0, 1, 2, 3, 4, 5, 6, 7, 8, 9]"
        by (simp add: MAX_NUM_RINGS_def upto.simps)
      ultimately show ?thesis by (elim disjE) simp_all
    qed
    then show ?thesis
      by (simp add: ringMembers_def getNumberOfRings_def filter_pairs)
  qed
  finally have "filter (\<lambda>e. fst e = word_of_int i) (infoEntries rings) =
      map ?e (map (Pair i) (primaryRing rings i))"
    by (simp only: infoEntries_def)
  then show ?thesis
    unfolding collect_def sm_find_collect
    by (cases "primaryRing rings i") (simp_all add: primaryReport_def)
qed

end
