(* ===== verification/Info_Service.thy ===== *)
theory Info_Service
  imports Meridian_Node Info_Packet
begin

text \<open>
  The information service of a node (MeridianProcess.cpp, \<^verbatim>\<open>getInfoPacket\<close> and
  \<^verbatim>\<open>handleInfoConnections\<close>): a listener whose clients get the rings, as a web page or, when the
  first byte they send is an M, as an information packet. Text is written with \<^verbatim>\<open>snprintf\<close>, whose
  size argument is computed without a test, so a page that has outgrown its buffer is the result
  \<open>None\<close>.
\<close>

definition MAX_INFO_PACKET_SIZE :: u32 where "MAX_INFO_PACKET_SIZE = 65536"
definition DRAIN_BUFFER_SIZE :: nat where "DRAIN_BUFFER_SIZE = 65536"

subsection \<open>Formatted text\<close>

definition ascii :: "string \<Rightarrow> u8 list" where
  "ascii s = map of_char s"

definition newline :: "u8 list" where "newline = [10]"
definition crlf :: "u8 list" where "crlf = [13, 10]"

fun decimal :: "nat \<Rightarrow> u8 list" where
  "decimal n = (if n < 10 then [48 + word_of_nat n]
     else decimal (n div 10) @ [48 + word_of_nat (n mod 10)])"

declare decimal.simps [simp del]

text \<open>\<^verbatim>\<open>%d\<close> and \<^verbatim>\<open>inet_ntoa\<close>.\<close>

definition fmt_int :: "int \<Rightarrow> u8 list" where
  "fmt_int i = (if i < 0 then ascii ''-'' else []) @ decimal (nat \<bar>i\<bar>)"

definition inet_ntoa :: "u32 \<Rightarrow> u8 list" where
  "inet_ntoa a =
     (case map (decimal \<circ> unat) (net_uint a) of
        d # ds \<Rightarrow> d @ concat (map (\<lambda>d. ascii ''.'' @ d) ds)
      | [] \<Rightarrow> [])"

text \<open>\<^verbatim>\<open>%0.kf\<close>: the value rounded to \<open>k\<close> digits, ties to even.\<close>

definition round_even :: "real \<Rightarrow> int" where
  "round_even r =
     (let k = \<lfloor>r\<rfloor>; d = r - of_int k
      in if d < 1 / 2 \<or> (d = 1 / 2 \<and> even k) then k else k + 1)"

fun fmt_fixed :: "nat \<Rightarrow> double \<Rightarrow> u8 list" where
  "fmt_fixed k (Fin r) =
     (let n = nat (round_even (\<bar>r\<bar> * 10 ^ k)); f = decimal (n mod 10 ^ k)
      in (if r < 0 then ascii ''-'' else []) @ decimal (n div 10 ^ k) @ ascii ''.'' @
         replicate (k - length f) 48 @ f)"
| "fmt_fixed k PInf = ascii ''inf''"
| "fmt_fixed k NInf = ascii ''-inf''"
| "fmt_fixed k NaN = ascii ''nan''"

definition milliseconds :: "env \<Rightarrow> int \<Rightarrow> double" where
  "milliseconds E us = d_div (env_fpu E) (Fin (rnd (env_fpu E) (of_int us))) (Fin 1000)"

text \<open>
  \<^verbatim>\<open>pos += snprintf(buf + pos, packetSize - pos, ...)\<close>: the text and a zero, cut at the end of the
  buffer, while \<open>pos\<close> advances by the length of the whole text. Past the end of the buffer the
  size wraps around and nothing is checked any more.
\<close>

definition snprintf :: "int \<Rightarrow> u8 list \<Rightarrow> int \<times> u8 list \<Rightarrow> (int \<times> u8 list) option" where
  "snprintf packetSize str out =
     (case out of (pos, buf) \<Rightarrow>
       if pos > packetSize then None
       else let room = nat (packetSize - pos) in
         Some (pos + int (length str),
           if room = 0 then buf else mem_write buf (nat pos) (take (room - 1) str @ [0])))"

fun snprintfs :: "int \<Rightarrow> u8 list list \<Rightarrow> int \<times> u8 list \<Rightarrow> (int \<times> u8 list) option" where
  "snprintfs packetSize [] out = Some out"
| "snprintfs packetSize (str # strs) out =
     do { out \<leftarrow> snprintf packetSize str out; snprintfs packetSize strs out }"

subsection \<open>The page\<close>

definition pageHead :: "u8 list \<Rightarrow> u8 list list" where
  "pageHead hostname =
     [ascii ''HTTP/1.1 200 OK'' @ crlf,
      ascii ''Content-Type: text/html; charset=iso-8859-1'' @ crlf @ crlf,
      ascii ''<HTML>'' @ newline @ ascii ''<title>Meridian</title>'' @ newline @ ascii ''<body>'' @
        newline,
      ascii ''<H2>Meridian node: '' @ hostname @ ascii ''</H2>'' @ newline,
      ascii ''<HR SIZE=\"0\">'' @ newline,
      ascii ''<STRONG>Ring members of '' @ hostname @ ascii ''</STRONG>'' @ newline,
      ascii ''<TABLE cellspacing=\"3\" cellPadding=\"3\" width=\"100'' @ ascii ''%'' @
        ascii ''\" border=\"1\">'' @ newline @ ascii ''<TBODY>'' @ newline]"

definition ringTitle :: "int \<Rightarrow> u8 list" where
  "ringTitle i = ascii ''<TR><TD><STRONG>Nodes in ring '' @ fmt_int i @
     ascii ''</STRONG></TD><TD><STRONG>Latency</STRONG></TD></TR>'' @ newline"

definition memberRow :: "env \<Rightarrow> NodeIdent \<Rightarrow> u32 \<Rightarrow> u8 list" where
  "memberRow E n us =
     ascii ''<TR><TD>'' @ inet_ntoa (addr n) @ ascii ''</TD><TD>'' @
     fmt_fixed 3 (d_div (env_fpu E) (d_uint us) (Fin 1000)) @ ascii '' ms</TD></TR>'' @ newline"

fun memberRows :: "env \<Rightarrow> RingSet \<Rightarrow> NodeIdent list \<Rightarrow> u8 list list option" where
  "memberRows E rings [] = Some []"
| "memberRows E rings (n # ns) =
     do { us \<leftarrow> getNodeLatency rings n;
          rows \<leftarrow> memberRows E rings ns;
          Some (memberRow E n us # rows) }"

fun ringRows :: "env \<Rightarrow> RingSet \<Rightarrow> int list \<Rightarrow> u8 list list option" where
  "ringRows E rings [] = Some []"
| "ringRows E rings (i # is) =
     do { rows \<leftarrow> memberRows E rings (primaryRing rings i);
          rest \<leftarrow> ringRows E rings is;
          Some ((if primaryRing rings i = [] then [] else ringTitle i # rows) @ rest) }"

definition tableEnd :: "u8 list" where
  "tableEnd = ascii ''</TBODY>'' @ newline @ ascii ''</TABLE>'' @ newline"

definition pageEnd :: "env \<Rightarrow> timeval \<Rightarrow> timeval \<Rightarrow> u8 list list" where
  "pageEnd E tvStart tvEnd =
     [ascii ''<BR>Time to create this page is '' @
        fmt_fixed 2 (milliseconds E
          ((tv_sec tvEnd - tv_sec tvStart) * 1000000 + (tv_usec tvEnd - tv_usec tvStart))) @
        ascii '' ms'' @ newline,
      newline @ ascii ''</body>'' @ newline @ ascii ''</HTML>'']"

definition getInfoPacket :: "env \<Rightarrow> RealPacket \<Rightarrow> MeridianProcess
    \<Rightarrow> (RealPacket \<times> MeridianProcess) option" where
  "getInfoPacket E inPacket p =
     (let packetSize = uint (rp_maxPacketSize inPacket) in
      case gettimeofday E p of (tvStart, p) \<Rightarrow>
      do { rows \<leftarrow> ringRows E (g_rings p) [0..getNumberOfRings (g_rings p) - 1];
           out \<leftarrow> snprintfs packetSize (pageHead (g_hostname p) @ rows @ [tableEnd])
             (rp_size inPacket, rp_packet inPacket);
           (case gettimeofday E p of (tvEnd, p) \<Rightarrow>
            do { (pos, buf) \<leftarrow> snprintfs packetSize (pageEnd E tvStart tvEnd) out;
                 let inPacket = setPayLoadSize pos (inPacket\<lparr>rp_packet := buf\<rparr>);
                 if rp_complete inPacket then Some (inPacket, p) else None }) })"

subsection \<open>The connections\<close>

text \<open>
  One connection: what it reads is the argument (nothing is an error or the end of the stream).
  The results are the packet, whether the connection is to be closed, and the state.
\<close>

definition infoAnswer :: "env \<Rightarrow> int \<Rightarrow> u8 list \<Rightarrow> RealPacket \<Rightarrow> MeridianProcess
    \<Rightarrow> (RealPacket \<times> bool \<times> MeridianProcess) option" where
  "infoAnswer E fd received pk p =
     (case take DRAIN_BUFFER_SIZE received of
        [] \<Rightarrow> Some (pk, True, p)
      | c # _ \<Rightarrow>
          if c = of_char CHR ''M'' then
            (case InfoPacket_createRealPacket (env_magic E) (newPacket 0) (g_rings p) pk of
               (ret, pk) \<Rightarrow>
             if ret = -1 then Some (pk, True, p)
             else Some (pk, False, set_write fd (clr_read fd p)))
          else do { (pk, p) \<leftarrow> getInfoPacket E pk p;
                    Some (pk, False, set_write fd (clr_read fd p)) })"

definition infoSend :: "env \<Rightarrow> RealPacket \<Rightarrow> MeridianProcess \<Rightarrow> RealPacket \<times> bool \<times> MeridianProcess" where
  "infoSend E pk p =
     (case sys_send E p of (sendRet, p) \<Rightarrow>
      if sendRet = -1 \<or> sendRet = rp_size pk - rp_pos pk then (pk, True, p)
      else (incrPos sendRet pk, False, p))"

text \<open>The loop over the connections; the iterators to delete are the positions in the list.\<close>

fun infoServe :: "env \<Rightarrow> (int \<Rightarrow> bool) \<Rightarrow> (int \<Rightarrow> bool) \<Rightarrow> (int \<Rightarrow> u8 list) \<Rightarrow> nat
    \<Rightarrow> (int \<times> RealPacket) list \<Rightarrow> MeridianProcess
    \<Rightarrow> ((int \<times> RealPacket) list \<times> nat list \<times> MeridianProcess) option" where
  "infoServe E curReadSet curWriteSet received i [] p = Some ([], [], p)"
| "infoServe E curReadSet curWriteSet received i ((fd, pk) # con) p =
     do { readable \<leftarrow> FD_ISSET fd curReadSet;
          (pk, dead, p) \<leftarrow> (if readable then infoAnswer E fd (received fd) pk p
            else do { writable \<leftarrow> FD_ISSET fd curWriteSet;
                      if writable then Some (infoSend E pk p) else Some (pk, False, p) });
          (con, deleteVector, p) \<leftarrow>
            infoServe E curReadSet curWriteSet received (Suc i) con p;
          Some ((fd, pk) # con, (if dead then [i] else []) @ deleteVector, p) }"

text \<open>A new client; when there are too many the oldest connection is closed.\<close>

definition infoAccept :: "env \<Rightarrow> (int \<Rightarrow> bool) \<Rightarrow> NodeIdent \<Rightarrow> nat list \<Rightarrow> MeridianProcess
    \<Rightarrow> (nat list \<times> MeridianProcess) option" where
  "infoAccept E curReadSet remoteNode deleteVector p =
     do { ready \<leftarrow> FD_ISSET (g_infoSock p) curReadSet;
          if ready then
            (case sys_socket E p of (infoSock, p) \<Rightarrow>
             if infoSock = -1 then Some (deleteVector, p) else
             let p = p\<lparr>g_infoConnects := g_infoConnects p @
                     [(infoSock, newRealPacket remoteNode MAX_INFO_PACKET_SIZE)]\<rparr>
             in Some ((if length (g_infoConnects p) > MAX_INFO_CONNECTIONS + length deleteVector
                       then deleteVector @ [0] else deleteVector),
                      set_read infoSock p))
          else Some (deleteVector, p) }"

text \<open>The cleanup. Erasing an iterator twice is an error.\<close>

definition closeInfo :: "int \<Rightarrow> MeridianProcess \<Rightarrow> MeridianProcess" where
  "closeInfo fd p = sys_close fd (clr_write fd (clr_read fd p))"

definition infoErase :: "(int \<times> RealPacket) list \<Rightarrow> nat list \<Rightarrow> MeridianProcess
    \<Rightarrow> MeridianProcess option" where
  "infoErase con deleteVector p =
     (if distinct deleteVector then
        Some (fold (\<lambda>i p. closeInfo (fst (con ! i)) p) deleteVector
          (p\<lparr>g_infoConnects := nths con (- set deleteVector)\<rparr>))
      else None)"

definition handleInfoConnections :: "env \<Rightarrow> (int \<Rightarrow> bool) \<Rightarrow> (int \<Rightarrow> bool) \<Rightarrow> (int \<Rightarrow> u8 list)
    \<Rightarrow> NodeIdent \<Rightarrow> MeridianProcess \<Rightarrow> MeridianProcess option" where
  "handleInfoConnections E curReadSet curWriteSet received remoteNode p =
     (if g_infoSock p = -1 then Some p
      else do { (con, deleteVector, p) \<leftarrow>
                  infoServe E curReadSet curWriteSet received 0 (g_infoConnects p) p;
                (deleteVector, p) \<leftarrow> infoAccept E curReadSet remoteNode deleteVector
                  (p\<lparr>g_infoConnects := con\<rparr>);
                infoErase (g_infoConnects p) deleteVector p })"

end
