(* ===== verification/Node_Loop.thy ===== *)
theory Node_Loop
  imports Info_Service
begin

text \<open>
  The tunnels of a rendezvous node, opening the sockets, and the event loop of
  \<^verbatim>\<open>MeridianProcess::start\<close>. What \<^verbatim>\<open>select\<close> answers and what the sockets hold is the argument of
  an iteration; a loop that waits for the system has a fuel, and \<open>None\<close> when it is used up.
\<close>

subsection \<open>Tunnels\<close>

definition removeRendavousConnection :: "NodeIdent \<Rightarrow> MeridianProcess \<Rightarrow> MeridianProcess option" where
  "removeRendavousConnection node p =
     do { oldSock \<leftarrow> sm_find (g_rendvConnections p) node;
          let p = p\<lparr>g_rendvConnections := sm_erase node (g_rendvConnections p)\<rparr>;
          if sm_find (g_rendvQueue p) oldSock = None then None
          else Some (sys_close oldSock (clr_write oldSock
            (p\<lparr>g_rendvQueue := sm_erase oldSock (g_rendvQueue p)\<rparr>))) }"

text \<open>A new tunnel replaces the one the same node had.\<close>

definition acceptRendavous :: "env \<Rightarrow> NodeIdent \<Rightarrow> MeridianProcess \<Rightarrow> MeridianProcess option" where
  "acceptRendavous E remoteNode p =
     (case sys_socket E p of (newRendvSock, p) \<Rightarrow>
      if newRendvSock = -1 then Some p else
      do { p \<leftarrow> (if sm_find (g_rendvConnections p) remoteNode \<noteq> None
                 then removeRendavousConnection remoteNode p else Some p);
           Some (p\<lparr>g_rendvConnections := sm_upd remoteNode newRendvSock (g_rendvConnections p),
                   g_rendvQueue := sm_upd newRendvSock [] (g_rendvQueue p)\<rparr>) })"

text \<open>Writing to the tunnels that are ready; the nodes whose connection has gone are collected.\<close>

fun tunnelWrite :: "env \<Rightarrow> (int \<Rightarrow> bool) \<Rightarrow> (NodeIdent \<times> int) list \<Rightarrow> MeridianProcess
    \<Rightarrow> (NodeIdent list \<times> MeridianProcess) option" where
  "tunnelWrite E curWriteSet [] p = Some ([], p)"
| "tunnelWrite E curWriteSet ((node, sock) # con) p =
     do { ready \<leftarrow> FD_ISSET sock curWriteSet;
      if ready then
        (case sm_find (g_rendvQueue p) sock of
           None \<Rightarrow> None
         | Some [] \<Rightarrow> None
         | Some (curPacket # rest) \<Rightarrow>
             (case sys_send E p of (sendRet, p) \<Rightarrow>
              if sendRet = -1 \<or> sendRet = 0 then
                do { (dead, p) \<leftarrow> tunnelWrite E curWriteSet con p; Some (node # dead, p) }
              else if sendRet = rp_size curPacket - rp_pos curPacket then
                tunnelWrite E curWriteSet con
                  ((if rest = [] then clr_write sock else (\<lambda>p. p))
                    (p\<lparr>g_rendvQueue := sm_upd sock rest (g_rendvQueue p)\<rparr>))
              else tunnelWrite E curWriteSet con
                (p\<lparr>g_rendvQueue := sm_upd sock (incrPos sendRet curPacket # rest)
                  (g_rendvQueue p)\<rparr>)))
      else tunnelWrite E curWriteSet con p }"

fun removeDead :: "NodeIdent list \<Rightarrow> MeridianProcess \<Rightarrow> MeridianProcess option" where
  "removeDead [] p = Some p"
| "removeDead (n # ns) p = do { p \<leftarrow> removeRendavousConnection n p; removeDead ns p }"

definition writeTunnels :: "env \<Rightarrow> (int \<Rightarrow> bool) \<Rightarrow> MeridianProcess \<Rightarrow> MeridianProcess option" where
  "writeTunnels E curWriteSet p =
     do { (dead, p) \<leftarrow> tunnelWrite E curWriteSet (g_rendvConnections p) p; removeDead dead p }"

text \<open>
  The other end: bytes from the rendezvous node are appended to the stream buffer, as far as there
  is room, then one frame is taken off and handled. An empty read is a disconnection.
\<close>

definition tunnelReceive :: "env \<Rightarrow> u8 list \<Rightarrow> MeridianProcess \<Rightarrow> (int \<times> MeridianProcess) option" where
  "tunnelReceive E received p =
     (let buffer = g_rendvRecvPacket p;
          bytes = take (nat (uint (rp_maxPacketSize buffer) - rp_size buffer)) received in
      if bytes = [] then
        Some (-1, (sys_close (g_rendvFD p) (clr_read (g_rendvFD p) p))\<lparr>g_rendvFD := -1\<rparr>)
      else
        let buffer = buffer\<lparr>rp_packet :=
              mem_write (rp_packet buffer) (nat (rp_size buffer)) bytes\<rparr>;
            buffer = setPayLoadSize (rp_size buffer + int (length bytes)) buffer
        in case PullPacket_parse (env_magic E) buffer \<lparr>addr = 0, port = 0\<rparr> of
             (frame, buffer, srcNode) \<Rightarrow>
           let p = p\<lparr>g_rendvRecvPacket := buffer\<rparr> in
           (case frame of
              None \<Rightarrow> Some (0, p)
            | Some pk \<Rightarrow> do { p \<leftarrow> handleNewPacket E (getPayLoad pk) srcNode p; Some (0, p) }))"

text \<open>The listener of a node that is not behind a rendezvous node is tested whether it exists or not.\<close>

definition handleRendavous :: "env \<Rightarrow> (int \<Rightarrow> bool) \<Rightarrow> (int \<Rightarrow> bool) \<Rightarrow> u8 list \<Rightarrow> NodeIdent
    \<Rightarrow> MeridianProcess \<Rightarrow> (int \<times> MeridianProcess) option" where
  "handleRendavous E curReadSet curWriteSet received remoteNode p =
     (if g_rendvFD p \<noteq> -1 then
        do { ready \<leftarrow> FD_ISSET (g_rendvFD p) curReadSet;
             if ready then tunnelReceive E received p else Some (0, p) }
      else do { ready \<leftarrow> FD_ISSET (g_rendvListener p) curReadSet;
                p \<leftarrow> (if ready then acceptRendavous E remoteNode p else Some p);
                p \<leftarrow> writeTunnels E curWriteSet p;
                Some (0, p) })"

subsection \<open>Time\<close>

text \<open>\<^verbatim>\<open>timersub\<close> of the C library.\<close>

definition timersub :: "timeval \<Rightarrow> timeval \<Rightarrow> timeval" where
  "timersub a b =
     (let s = tv_sec a - tv_sec b; u = tv_usec a - tv_usec b in
      if u < 0 then \<lparr>tv_sec = s - 1, tv_usec = u + 1000000\<rparr> else \<lparr>tv_sec = s, tv_usec = u\<rparr>)"

definition timeoutLength :: "timeval \<Rightarrow> timeval \<Rightarrow> timeval option" where
  "timeoutLength curTime nextEventTime =
     (let curTime = normalizeTime curTime; nextEventTime = normalizeTime nextEventTime in
      if tv_sec curTime > tv_sec nextEventTime \<or>
         (tv_sec curTime = tv_sec nextEventTime \<and> tv_usec curTime \<ge> tv_usec nextEventTime)
      then None else Some (timersub nextEventTime curTime))"

definition evaluateTimeout :: "env \<Rightarrow> MeridianProcess \<Rightarrow> (int \<times> MeridianProcess) option" where
  "evaluateTimeout E p = QueryTable_handleTimeout E p"

subsection \<open>Opening the sockets\<close>

text \<open>A sequence of system calls of which each is made only when the one before succeeded.\<close>

fun sys_calls :: "env \<Rightarrow> nat \<Rightarrow> MeridianProcess \<Rightarrow> bool \<times> MeridianProcess" where
  "sys_calls E 0 p = (True, p)"
| "sys_calls E (Suc n) p =
     (case sys_call E p of (ok, p) \<Rightarrow> if ok then sys_calls E n p else (False, p))"

text \<open>Two options for sizes from 2 to the power of 16 downwards, until both are accepted.\<close>

fun increaseSockBuf :: "env \<Rightarrow> nat \<Rightarrow> MeridianProcess \<Rightarrow> MeridianProcess" where
  "increaseSockBuf E i p =
     (case sys_call E p of (retRCV, p) \<Rightarrow>
      case sys_call E p of (retSND, p) \<Rightarrow>
      if retRCV \<and> retSND then p else (case i of 0 \<Rightarrow> p | Suc i \<Rightarrow> increaseSockBuf E i p))"

text \<open>Two options, \<^verbatim>\<open>bind\<close>, \<^verbatim>\<open>listen\<close> and the non-blocking mode.\<close>

definition createTCPListener :: "env \<Rightarrow> MeridianProcess \<Rightarrow> int \<times> MeridianProcess" where
  "createTCPListener E p =
     (case sys_socket E p of (sock, p) \<Rightarrow>
      if sock = -1 then (-1, p) else
      case sys_calls E 5 p of (ok, p) \<Rightarrow>
      if ok then (sock, p) else (-1, sys_close sock p))"

text \<open>
  Waiting for the connection to the rendezvous node: \<^verbatim>\<open>select\<close> fails (-1), times out (0) or finds
  the socket writable.
\<close>

fun tunnelWait :: "env \<Rightarrow> nat \<Rightarrow> timeval \<Rightarrow> MeridianProcess \<Rightarrow> (bool \<times> MeridianProcess) option" where
  "tunnelWait E 0 maxTime p = None"
| "tunnelWait E (Suc n) maxTime p =
     (case gettimeofday E p of (curTime, p) \<Rightarrow>
      if timeoutLength curTime maxTime = None then Some (False, p) else
      case sys_send E p of (selectRet, p) \<Rightarrow>
      if selectRet = -1 then
        if env_again E (g_sysCalls p) then tunnelWait E n maxTime p else Some (False, p)
      else if selectRet = 0 then tunnelWait E n maxTime p
      else case sys_call E p of (peer, p) \<Rightarrow> Some (peer, p))"

definition createRendavousTunnel :: "env \<Rightarrow> nat \<Rightarrow> MeridianProcess
    \<Rightarrow> (int \<times> MeridianProcess) option" where
  "createRendavousTunnel E fuel p =
     (case sys_socket E p of (sock, p) \<Rightarrow>
      if sock = -1 then Some (-1, p) else
      case sys_calls E 5 p of (ok, p) \<Rightarrow>
      if \<not> ok then Some (-1, sys_close sock p) else
      case gettimeofday E (fd_check sock p) of (now, p) \<Rightarrow>
      do { (connected, p) \<leftarrow>
             tunnelWait E fuel (now\<lparr>tv_sec := tv_sec now + DEFAULT_TIME_OUT_S\<rparr>) p;
           Some (if connected then (sock, p) else (-1, sys_close sock p)) })"

definition createICMPSocket :: "env \<Rightarrow> MeridianProcess \<Rightarrow> int \<times> MeridianProcess" where
  "createICMPSocket E p =
     (case sys_socket E p of (sock, p) \<Rightarrow>
      let p = p\<lparr>g_icmpSock := sock\<rparr> in
      if sock = -1 then (-1, p) else
      case sys_calls E 4 p of (ok, p) \<Rightarrow>
      if ok then (0, p) else (-1, sys_close sock p))"

subsection \<open>Starting a node\<close>

text \<open>The result is \<open>Some r\<close> when \<^verbatim>\<open>start\<close> has returned \<open>r\<close>.\<close>

type_synonym run_state = "int option \<times> MeridianProcess"

definition openMeridSock :: "env \<Rightarrow> MeridianProcess \<Rightarrow> int \<times> MeridianProcess" where
  "openMeridSock E p =
     (case sys_socket E p of (sock, p) \<Rightarrow>
      let p = p\<lparr>g_meridSock := sock\<rparr> in
      if sock = -1 then (-1, p) else
      case sys_calls E 2 (increaseSockBuf E 16 p) of (ok, p) \<Rightarrow>
      if ok then (0, set_read (g_stopFD p) (set_read sock p)) else (-1, p))"

definition openInfoSock :: "env \<Rightarrow> MeridianProcess \<Rightarrow> int \<times> MeridianProcess" where
  "openInfoSock E p =
     (if g_infoPort p > 0 then
        (case createTCPListener E p of (sock, p) \<Rightarrow>
         let p = p\<lparr>g_infoSock := sock\<rparr> in
         if sock = -1 then (-1, p) else (0, set_read sock p))
      else (0, p))"

definition openRendavous :: "env \<Rightarrow> nat \<Rightarrow> MeridianProcess \<Rightarrow> (int \<times> MeridianProcess) option" where
  "openRendavous E fuel p =
     (if addr (g_rendvNode p) = 0 \<and> port (g_rendvNode p) = 0 then
        (case createTCPListener E p of (sock, p) \<Rightarrow>
         let p = p\<lparr>g_rendvListener := sock\<rparr> in
         Some (0, if sock = -1 then p else set_read sock p))
      else do { (sock, p) \<leftarrow> createRendavousTunnel E fuel p;
                let p = p\<lparr>g_rendvFD := sock\<rparr>;
                Some (if sock = -1 then (-1, p) else (0, set_read sock p)) })"

definition openICMP :: "env \<Rightarrow> MeridianProcess \<Rightarrow> int \<times> MeridianProcess" where
  "openICMP E p =
     (case createICMPSocket E p of (ret, p) \<Rightarrow>
      if ret = -1 then (-1, p) else (0, set_read (g_icmpSock p) p))"

fun addSeeds :: "env \<Rightarrow> NodeIdentRendv list \<Rightarrow> MeridianProcess \<Rightarrow> MeridianProcess option" where
  "addSeeds E [] p = Some p"
| "addSeeds E (n # ns) p =
     (if addr n \<noteq> g_localAddr p \<or> port n \<noteq> g_meridPort p then
        do { (_, p) \<leftarrow> addNodeToRing E n p; addSeeds E ns p }
      else addSeeds E ns p)"

text \<open>A scheduler the table refuses is deleted; its \<^verbatim>\<open>init\<close> does nothing.\<close>

definition addScheduler :: "env \<Rightarrow> u32 \<Rightarrow> u32 \<Rightarrow> u32 \<Rightarrow> SchedObject \<Rightarrow> MeridianProcess
    \<Rightarrow> MeridianProcess" where
  "addScheduler E in_initInterval_MS in_numInitInterval in_ssInterval_MS callBack p =
     (case newScheduler E in_initInterval_MS in_numInitInterval in_ssInterval_MS callBack p of
        ((qid, q), p) \<Rightarrow> snd (tableInsert qid q p))"

definition addSchedulers :: "env \<Rightarrow> MeridianProcess \<Rightarrow> MeridianProcess" where
  "addSchedulers E p =
     (let p = addScheduler E (g_initGossipInterval_s p * 1000) (g_numInitIntervalRemain p)
                (g_ssGossipInterval_s p * 1000) SchedGossip p
      in addScheduler E 0 0 (g_replaceInterval_s p * 1000) SchedRingManage p)"

text \<open>\<open>host\<close> is the name of this host and \<open>hostAddr\<close> what the resolver says about it.\<close>

definition startUp :: "env \<Rightarrow> nat \<Rightarrow> u8 list \<Rightarrow> u32 option \<Rightarrow> MeridianProcess
    \<Rightarrow> run_state option" where
  "startUp E fuel host hostAddr p =
     (case hostAddr of
        None \<Rightarrow> Some (Some (-1), p\<lparr>g_hostname := host\<rparr>)
      | Some localAddr \<Rightarrow>
          (case openMeridSock E (p\<lparr>g_hostname := host, g_localAddr := localAddr\<rparr>) of (ret, p) \<Rightarrow>
           if ret = -1 then Some (Some (-1), p) else
           case openInfoSock E p of (ret, p) \<Rightarrow>
           if ret = -1 then Some (Some (-1), p) else
           do { (ret, p) \<leftarrow> openRendavous E fuel p;
                if ret = -1 then Some (Some (-1), p) else
                (case openICMP E p of (ret, p) \<Rightarrow>
                 if ret = -1 then Some (Some (-1), p) else
                 do { p \<leftarrow> addSeeds E (g_seedNodes p) p;
                      Some (None, addSchedulers E (p\<lparr>g_seedNodes := []\<rparr>)) }) }))"

subsection \<open>The event loop\<close>

text \<open>What the sockets hold when \<^verbatim>\<open>select\<close> reports descriptors as ready.\<close>

record arrivals =
  arr_readable :: "int \<Rightarrow> bool"
  arr_writable :: "int \<Rightarrow> bool"
  arr_datagram :: "(NodeIdent \<times> u8 list) option"
  arr_echo :: "(u32 \<times> u8 list) option"
  arr_tunnel :: "u8 list"
  arr_tunnelPeer :: NodeIdent
  arr_info :: "int \<Rightarrow> u8 list"
  arr_infoPeer :: NodeIdent

datatype wakeup = Interrupted | SelectFailed | TimedOut | Ready arrivals

definition datagramStage :: "env \<Rightarrow> (int \<Rightarrow> bool) \<Rightarrow> (int \<Rightarrow> bool) \<Rightarrow> arrivals \<Rightarrow> MeridianProcess
    \<Rightarrow> MeridianProcess option" where
  "datagramStage E curReadSet curWriteSet A p =
     do { readable \<leftarrow> FD_ISSET (g_meridSock p) curReadSet;
          p \<leftarrow> (if readable then map_option snd (readPacket E (arr_datagram A) p) else Some p);
          writable \<leftarrow> FD_ISSET (g_meridSock p) curWriteSet;
          if writable then writePending E p else Some p }"

definition icmpStage :: "env \<Rightarrow> (int \<Rightarrow> bool) \<Rightarrow> (int \<Rightarrow> bool) \<Rightarrow> arrivals \<Rightarrow> MeridianProcess
    \<Rightarrow> MeridianProcess option" where
  "icmpStage E curReadSet curWriteSet A p =
     do { readable \<leftarrow> FD_ISSET (g_icmpSock p) curReadSet;
          p \<leftarrow> (if readable then map_option snd (readICMPPacket E (arr_echo A) p) else Some p);
          writable \<leftarrow> FD_ISSET (g_icmpSock p) curWriteSet;
          if writable then icmpWritePending E p else Some p }"

definition handleReady :: "env \<Rightarrow> arrivals \<Rightarrow> MeridianProcess \<Rightarrow> run_state option" where
  "handleReady E A p =
     (let curReadSet = (\<lambda>fd. arr_readable A fd \<and> g_readSet p fd);
          curWriteSet = (\<lambda>fd. arr_writable A fd \<and> g_writeSet p fd) in
      do { stop \<leftarrow> FD_ISSET (g_stopFD p) curReadSet;
      if stop then Some (Some 0, p)
      else do { p \<leftarrow> datagramStage E curReadSet curWriteSet A p;
                p \<leftarrow> icmpStage E curReadSet curWriteSet A p;
                (ret, p) \<leftarrow> handleRendavous E curReadSet curWriteSet (arr_tunnel A)
                  (arr_tunnelPeer A) p;
                if ret = -1 then Some (Some 0, p)
                else do { p \<leftarrow> handleInfoConnections E curReadSet curWriteSet (arr_info A)
                            (arr_infoPeer A) p;
                          p \<leftarrow> handleTCPConnections E curWriteSet p;
                          p \<leftarrow> handleDNSConnections E curReadSet p;
                          Some (None, p) } } })"

text \<open>
  One iteration. The next event of an empty table is a default period after the present, a clock
  reading of its own.
\<close>

definition iterateLoop :: "env \<Rightarrow> wakeup \<Rightarrow> MeridianProcess \<Rightarrow> run_state option" where
  "iterateLoop E w p =
     (case gettimeofday E p of (curTime, p) \<Rightarrow>
      case (if timeoutQueryMap (g_queryTable p) = [] then gettimeofday E p else (curTime, p)) of
        (now, p) \<Rightarrow>
      if timeoutLength curTime (nextTimeout now (g_queryTable p)) = None then
        do { (_, p) \<leftarrow> evaluateTimeout E p; Some (None, p) }
      else (case w of
          Interrupted \<Rightarrow> Some (None, p)
        | SelectFailed \<Rightarrow> Some (Some (-1), p)
        | TimedOut \<Rightarrow> do { (_, p) \<leftarrow> evaluateTimeout E p; Some (None, p) }
        | Ready A \<Rightarrow> handleReady E A p))"

fun runLoop :: "env \<Rightarrow> wakeup list \<Rightarrow> MeridianProcess \<Rightarrow> run_state option" where
  "runLoop E [] p = Some (None, p)"
| "runLoop E (w # ws) p =
     do { (ret, p) \<leftarrow> iterateLoop E w p;
          case ret of Some r \<Rightarrow> Some (Some r, p) | None \<Rightarrow> runLoop E ws p }"

end
