(* ===== verification/Engine_Logic.thy ===== *)
theory Engine_Logic
  imports Query_Engine
begin

text \<open>
  The logic in which the query engine is shown safe. A handler that returns \<open>None\<close> has failed an
  assertion, read outside a buffer or used a deleted object, so the statements are of the form
  \<open>wp (handler ...) Q\<close>: the handler returns, and \<open>Q\<close> holds of what it returns. \<open>proc_ok\<close> is the
  invariant of the process state and \<open>step\<close> what a piece of code run on behalf of the queries
  \<open>S\<close> may have done to it.
\<close>

named_theorems wp_simps \<open>weakest preconditions of the option-valued operations\<close>
named_theorems frame_simps \<open>what the primitive operations leave alone\<close>

subsection \<open>Weakest preconditions\<close>

definition wp :: "'a option \<Rightarrow> ('a \<Rightarrow> bool) \<Rightarrow> bool" where
  "wp m Q \<longleftrightarrow> (case m of None \<Rightarrow> False | Some x \<Rightarrow> Q x)"

lemma wp_basic [wp_simps]:
  "wp (Some x) Q \<longleftrightarrow> Q x"
  "wp None Q \<longleftrightarrow> False"
  "wp (Option.bind m f) Q \<longleftrightarrow> wp m (\<lambda>x. wp (f x) Q)"
  "wp (map_option g m) Q \<longleftrightarrow> wp m (\<lambda>x. Q (g x))"
  by (cases m; simp add: wp_def)+

lemma wp_conseq: "wp m P \<Longrightarrow> (\<And>x. P x \<Longrightarrow> Q x) \<Longrightarrow> wp m Q"
  by (cases m) (simp_all add: wp_def)

lemma wp_if: "(b \<Longrightarrow> wp m Q) \<Longrightarrow> (\<not> b \<Longrightarrow> wp n Q) \<Longrightarrow> wp (if b then m else n) Q"
  by simp

lemma wpE:
  assumes "wp m Q"
  obtains x where "m = Some x" "Q x"
  using assms by (cases m) (simp_all add: wp_def)

lemma wp_SomeI: "m = Some x \<Longrightarrow> Q x \<Longrightarrow> wp m Q"
  by (simp add: wp_def)

subsection \<open>Subscriptions\<close>

text \<open>Only these two classes pass a latency on to their subscribers.\<close>

fun forwards :: "query \<Rightarrow> bool" where
  "forwards (AddNodeQ q) = True"
| "forwards (ProbeQ q) = True"
| "forwards _ = False"

definition subs :: "MeridianProcess \<Rightarrow> (u64 \<times> u64) set" where
  "subs p = {(x, s). \<exists>q. deref x p = Some q \<and> s \<in> set (subscribers q)}"

definition fwd :: "MeridianProcess \<Rightarrow> u64 set" where
  "fwd p = {x. \<exists>q. deref x p = Some q \<and> forwards q}"

lemma forwards_finish [simp]: "forwards (finish q) = forwards q"
  by (cases q) simp_all

lemma forwards_subscribe [simp]: "forwards (subscribeLatency s q) = forwards q"
  by (cases q) simp_all

lemma isFinished_subscribe [simp]: "isFinished (subscribeLatency s q) = isFinished q"
  by (cases q) simp_all

text \<open>Everything an update of the object keeps as far as the subscriptions are concerned.\<close>

definition same_subs :: "query \<Rightarrow> query \<Rightarrow> bool" where
  "same_subs q q' \<longleftrightarrow> subscribers q' = subscribers q \<and> forwards q' = forwards q"

lemma same_subs_refl [simp]: "same_subs q q"
  by (simp add: same_subs_def)

lemma same_subs_finish [simp]: "same_subs q (finish q)"
  by (simp add: same_subs_def)

lemma same_subs_setters [simp]:
  "same_subs q (setStartTime tv q)" "same_subs q (setSockFD fd q)" "same_subs q (record_latency n l q)"
  by (cases q; simp add: same_subs_def)+

subsection \<open>Invariants of the objects\<close>

definition closest_ok :: "HandleClosestGeneric \<Rightarrow> bool" where
  "closest_ok q \<longleftrightarrow> distinct (hc_remoteNodes q) \<and>
     sm_ok (hc_remoteLatencies q) \<and> set (sm_keys (hc_remoteLatencies q)) \<subseteq> set (hc_remoteNodes q) \<and>
     ks_ok ident (hc_ringMembers q) \<and> sm_ok (hc_ringLatencies q) \<and>
     set (sm_keys (hc_ringLatencies q)) \<subseteq> ident ` set (hc_ringMembers q) \<and>
     (hc_stateMachine q \<in> {HC_INIT, HC_WAIT_FOR_DIRECT_PING} \<longrightarrow>
        hc_ringMembers q = [] \<and> hc_ringLatencies q = [])"

definition constraint_ok :: "HandleMCGeneric \<Rightarrow> bool" where
  "constraint_ok q \<longleftrightarrow> ks_ok ident (mc_remoteNodes q) \<and>
     sm_ok (mc_remoteLatencies q) \<and>
     set (sm_keys (mc_remoteLatencies q)) \<subseteq> ident ` set (mc_remoteNodes q) \<and>
     ks_ok ident (mc_ringMembers q) \<and> sm_ok (mc_ringLatencies q) \<and>
     set (sm_keys (mc_ringLatencies q)) \<subseteq> ident ` set (mc_ringMembers q) \<and>
     (mc_stateMachine q \<in> {HMC_INIT, HMC_WAIT_FOR_DIRECT_PING} \<longrightarrow>
        mc_ringMembers q = [] \<and> mc_ringLatencies q = [])"

definition request_ok :: "HandleReqGeneric \<Rightarrow> bool" where
  "request_ok q \<longleftrightarrow> distinct (hr_remoteNodes q) \<and> sm_ok (hr_remoteLatencies q) \<and>
     set (sm_keys (hr_remoteLatencies q)) \<subseteq> set (hr_remoteNodes q)"

fun query_ok :: "query \<Rightarrow> bool" where
  "query_ok (RingManageQ q) = distinct (rm_remoteNodes q)"
| "query_ok (HandleReqQ q) = request_ok q"
| "query_ok (HandleClosestQ q) = closest_ok q"
| "query_ok (HandleMCQ q) = constraint_ok q"
| "query_ok _ = True"

lemma query_ok_finish [simp]: "query_ok (finish q) = query_ok q"
  by (cases q) (simp_all add: request_ok_def closest_ok_def constraint_ok_def)

lemma query_ok_setters [simp]:
  "query_ok (setStartTime tv q) = query_ok q"
  "query_ok (setSockFD fd q) = query_ok q"
  "query_ok (subscribeLatency s q) = query_ok q"
  by (cases q; simp)+

text \<open>The targets a query measures itself.\<close>

fun targets :: "query \<Rightarrow> NodeIdent set" where
  "targets (HandleReqQ q) = set (hr_remoteNodes q)"
| "targets (HandleClosestQ q) = set (hc_remoteNodes q)"
| "targets (HandleMCQ q) = ident ` set (mc_remoteNodes q)"
| "targets _ = {}"

lemma sm_upd_dom: "fst ` set (sm_upd k v m) = insert k (fst ` set m)"
  using sm_upd_keys [of k v m] by simp

lemma query_ok_record: "query_ok q \<Longrightarrow> n \<in> targets q \<Longrightarrow> query_ok (record_latency n l q)"
  by (cases q) (simp_all add: request_ok_def closest_ok_def constraint_ok_def sm_upd_dom)

subsection \<open>The invariant of the process\<close>

definition caches_ok :: "MeridianProcess \<Rightarrow> bool" where
  "caches_ok p \<longleftrightarrow> (\<forall>k. cache_wf (cacheOf k p) \<and> 0 < maxSize (cacheOf k p))"

definition table_ok :: "MeridianProcess \<Rightarrow> bool" where
  "table_ok p \<longleftrightarrow> table_wf (g_queryTable p) \<and>
     (\<forall>x. isQueryInTable x (g_queryTable p) \<longleftrightarrow> deref x p \<noteq> None)"

definition objects_ok :: "MeridianProcess \<Rightarrow> bool" where
  "objects_ok p \<longleftrightarrow> (\<forall>x q. deref x p = Some q \<longrightarrow> query_ok q) \<and> acyclic (subs p)"

text \<open>
  The descriptors: their uses are disjoint, all are open, and the loop watches a socket for
  writing only while there is something to write to it or a connection is being established.
\<close>

definition tcpFDs :: "MeridianProcess \<Rightarrow> int set" where
  "tcpFDs p = set (sm_keys (g_tcpProbeConnections p))"

definition dnsFDs :: "MeridianProcess \<Rightarrow> int set" where
  "dnsFDs p = set (sm_keys (g_dnsProbeConnections p))"

definition rendvFDs :: "MeridianProcess \<Rightarrow> int set" where
  "rendvFDs p = snd ` set (g_rendvConnections p)"

definition infoFDs :: "MeridianProcess \<Rightarrow> int set" where
  "infoFDs p = fst ` set (g_infoConnects p)"

text \<open>The sockets of the node itself, and those of them that are open.\<close>

definition nodeFDs :: "MeridianProcess \<Rightarrow> int list" where
  "nodeFDs p = filter (\<lambda>fd. fd \<noteq> -1)
     [g_stopFD p, g_meridSock p, g_icmpSock p, g_infoSock p, g_rendvListener p, g_rendvFD p]"

definition ownFDs :: "MeridianProcess \<Rightarrow> int set" where
  "ownFDs p = set (nodeFDs p) \<union> infoFDs p"

definition pending :: "MeridianProcess \<Rightarrow> int \<Rightarrow> bool" where
  "pending p fd \<longleftrightarrow>
     (fd = g_meridSock p \<and> g_outPacketList p \<noteq> []) \<or>
     (fd = g_icmpSock p \<and> g_icmpOutPacketList p \<noteq> []) \<or>
     fd \<in> tcpFDs p \<or> fd \<in> infoFDs p \<or>
     (fd \<in> rendvFDs p \<and> (\<exists>m ms. sm_find (g_rendvQueue p) fd = Some (m # ms)))"

definition sockets_ok :: "MeridianProcess \<Rightarrow> bool" where
  "sockets_ok p \<longleftrightarrow>
     tcpFDs p \<inter> dnsFDs p = {} \<and> tcpFDs p \<inter> rendvFDs p = {} \<and> dnsFDs p \<inter> rendvFDs p = {} \<and>
     (tcpFDs p \<union> dnsFDs p \<union> rendvFDs p) \<inter> ownFDs p = {} \<and>
     tcpFDs p \<union> dnsFDs p \<union> rendvFDs p \<union> ownFDs p \<subseteq> set (g_openFDs p) \<and>
     distinct (nodeFDs p) \<and> set (nodeFDs p) \<inter> infoFDs p = {} \<and> -1 \<notin> set (g_openFDs p) \<and>
     (\<forall>fd \<in> set (g_openFDs p). in_fd_set fd) \<and> in_fd_set (g_stopFD p) \<and>
     distinct (map fst (g_infoConnects p)) \<and> length (g_infoConnects p) \<le> MAX_INFO_CONNECTIONS \<and>
     sm_ok (g_rendvConnections p) \<and> inj_on snd (set (g_rendvConnections p)) \<and>
     (\<forall>fd \<in> rendvFDs p. sm_find (g_rendvQueue p) fd \<noteq> None) \<and>
     (\<forall>fd. g_writeSet p fd \<longrightarrow> pending p fd)"

text \<open>
  Before \<^verbatim>\<open>start\<close> has opened the two sockets a node sends through they are -1, and queueing a packet for
  one of them would index the descriptor set with that.
\<close>

definition fds_ok :: "MeridianProcess \<Rightarrow> bool" where
  "fds_ok p \<longleftrightarrow> (g_meridSock p \<noteq> -1 \<and> g_icmpSock p \<noteq> -1 \<longrightarrow> \<not> g_fdFault p)"

definition proc_ok :: "env \<Rightarrow> MeridianProcess \<Rightarrow> bool" where
  "proc_ok E p \<longleftrightarrow> ring_wf (env_fpu E) (g_rings p) \<and> caches_ok p \<and> table_ok p \<and>
     objects_ok p \<and> sockets_ok p \<and> fds_ok p"

text \<open>
  What the proofs use of the system: a new descriptor is not one that is open and fits into a
  descriptor set (the limit of open files is at most \<^verbatim>\<open>FD_SETSIZE\<close>), and the volume of a simplex is not
  negative.
\<close>

definition env_ok :: "env \<Rightarrow> bool" where
  "env_ok E \<longleftrightarrow> (\<forall>k fds. env_socket E k fds = -1 \<or>
       env_socket E k fds \<notin> set fds \<and> in_fd_set (env_socket E k fds)) \<and>
     (\<forall>M. 0 \<le> env_volume E M)"

subsection \<open>Steps\<close>

text \<open>
  Code run for the queries \<open>S\<close>: the invariant holds again, and the objects of the other queries
  are what they were.
\<close>

definition weak_step :: "env \<Rightarrow> u64 set \<Rightarrow> MeridianProcess \<Rightarrow> MeridianProcess \<Rightarrow> bool" where
  "weak_step E S p p' \<longleftrightarrow> proc_ok E p' \<and>
     (\<forall>x. x \<notin> S \<longrightarrow> deref x p \<noteq> None \<longrightarrow> deref x p' = deref x p)"

text \<open>Only timeouts close connections; everything else leaves what is pending pending.\<close>

definition grows :: "MeridianProcess \<Rightarrow> MeridianProcess \<Rightarrow> bool" where
  "grows p p' \<longleftrightarrow> g_meridSock p' = g_meridSock p \<and> g_icmpSock p' = g_icmpSock p \<and>
     g_rendvFD p' = g_rendvFD p \<and> g_rendvListener p' = g_rendvListener p \<and>
     g_stopFD p' = g_stopFD p \<and> g_infoSock p' = g_infoSock p \<and> g_infoConnects p' = g_infoConnects p \<and>
     g_rendvConnections p' = g_rendvConnections p \<and> g_rendvQueue p' = g_rendvQueue p \<and>
     tcpFDs p \<subseteq> tcpFDs p' \<and> dnsFDs p \<subseteq> dnsFDs p' \<and> set (g_openFDs p) \<subseteq> set (g_openFDs p') \<and>
     (\<forall>fd. g_writeSet p fd \<longrightarrow> g_writeSet p' fd)"

text \<open>
  A delivery starts no query that forwards, opens no connection, and every new subscription is one
  for a query of \<open>S\<close>.
\<close>

definition calm :: "u64 set \<Rightarrow> MeridianProcess \<Rightarrow> MeridianProcess \<Rightarrow> bool" where
  "calm S p p' \<longleftrightarrow> subs p' \<subseteq> subs p \<union> UNIV \<times> S \<and> fwd p' \<subseteq> fwd p \<and>
     g_tcpProbeConnections p' = g_tcpProbeConnections p \<and>
     g_dnsProbeConnections p' = g_dnsProbeConnections p"

definition step :: "env \<Rightarrow> bool \<Rightarrow> u64 set \<Rightarrow> MeridianProcess \<Rightarrow> MeridianProcess \<Rightarrow> bool" where
  "step E c S p p' \<longleftrightarrow> weak_step E S p p' \<and> grows p p' \<and> (c \<longrightarrow> calm S p p')"

lemma weak_step_refl: "proc_ok E p \<Longrightarrow> weak_step E S p p"
  by (simp add: weak_step_def)

lemma weak_step_trans:
  assumes "weak_step E S p p'" "weak_step E S' p' p''" "S' \<subseteq> S"
  shows "weak_step E S p p''"
proof -
  have "deref x p'' = deref x p" if "x \<notin> S" "deref x p \<noteq> None" for x
    using assms that unfolding weak_step_def by (metis subsetD)
  then show ?thesis using assms by (simp add: weak_step_def)
qed

lemma grows_refl [simp]: "grows p p"
  by (simp add: grows_def)

lemma grows_trans: "grows p p' \<Longrightarrow> grows p' p'' \<Longrightarrow> grows p p''"
  unfolding grows_def by auto

lemma calm_refl [simp]: "calm S p p"
  by (simp add: calm_def)

lemma calm_trans: "calm S p p' \<Longrightarrow> calm S' p' p'' \<Longrightarrow> S' \<subseteq> S \<Longrightarrow> calm S p p''"
  unfolding calm_def by (intro conjI) (blast, blast, simp, simp)

lemma step_refl: "proc_ok E p \<Longrightarrow> step E c S p p"
  by (simp add: step_def weak_step_refl)

lemma step_trans: "step E c S p p' \<Longrightarrow> step E c' S' p' p'' \<Longrightarrow> (c \<Longrightarrow> c') \<Longrightarrow> S' \<subseteq> S \<Longrightarrow>
    step E c S p p''"
  unfolding step_def using weak_step_trans grows_trans calm_trans by blast

lemma step_mono: "step E c S p p' \<Longrightarrow> S \<subseteq> S' \<Longrightarrow> (c' \<Longrightarrow> c) \<Longrightarrow> step E c' S' p p'"
  unfolding step_def weak_step_def calm_def by (auto; blast)

lemma step_ok: "step E c S p p' \<Longrightarrow> proc_ok E p'"
  by (simp add: step_def weak_step_def)

lemma step_weak: "step E c S p p' \<Longrightarrow> weak_step E S p p'"
  by (simp add: step_def)

lemma step_frame: "step E c S p p' \<Longrightarrow> x \<notin> S \<Longrightarrow> deref x p = Some q \<Longrightarrow> deref x p' = Some q"
  by (simp add: step_def weak_step_def)

lemma step_fwd: "step E True S p p' \<Longrightarrow> fwd p' \<subseteq> fwd p"
  by (simp add: step_def calm_def)

end
