(* ===== verification/Engine_Frames.thy ===== *)
theory Engine_Frames
  imports Engine_Logic
begin

text \<open>
  What the primitive operations of the process do to the invariant and to the objects: the rules
  with which the handlers are executed symbolically. \<open>step\<close> and \<open>deref\<close> commute with everything
  that only advances a counter or queues a packet.
\<close>

lemmas state_defs = caches_ok_def table_ok_def objects_ok_def sockets_ok_def
  tcpFDs_def dnsFDs_def rendvFDs_def infoFDs_def nodeFDs_def ownFDs_def pending_def subs_def fwd_def deref_def

lemmas step_defs = step_def weak_step_def calm_def proc_ok_def

subsection \<open>Fields the invariant does not see\<close>

lemma cacheOf_fields [frame_simps]:
  "cacheOf k (p\<lparr>g_clockReads := n\<rparr>) = cacheOf k p"
  "cacheOf k (p\<lparr>g_randDraws := n\<rparr>) = cacheOf k p"
  "cacheOf k (p\<lparr>g_sysCalls := n\<rparr>) = cacheOf k p"
  "cacheOf k (p\<lparr>g_datagrams := d\<rparr>) = cacheOf k p"
  "cacheOf k (p\<lparr>g_icmpSeq := w\<rparr>) = cacheOf k p"
  "cacheOf k (p\<lparr>g_rings := rs\<rparr>) = cacheOf k p"
  "cacheOf k (p\<lparr>g_queries := qs\<rparr>) = cacheOf k p"
  "cacheOf k (p\<lparr>g_queryTable := t\<rparr>) = cacheOf k p"
  "cacheOf k (p\<lparr>g_outPacketList := ms\<rparr>) = cacheOf k p"
  "cacheOf k (p\<lparr>g_icmpOutPacketList := ms\<rparr>) = cacheOf k p"
  "cacheOf k (p\<lparr>g_writeSet := fds\<rparr>) = cacheOf k p"
  "cacheOf k (p\<lparr>g_readSet := fds\<rparr>) = cacheOf k p"
  "cacheOf k (p\<lparr>g_maxFD := m\<rparr>) = cacheOf k p"
  "cacheOf k (p\<lparr>g_fdFault := flt\<rparr>) = cacheOf k p"
  "cacheOf k (p\<lparr>g_openFDs := os\<rparr>) = cacheOf k p"
  "cacheOf k (p\<lparr>g_tcpProbeConnections := cs\<rparr>) = cacheOf k p"
  "cacheOf k (p\<lparr>g_dnsProbeConnections := cs\<rparr>) = cacheOf k p"
  "cacheOf k (p\<lparr>g_rendvConnections := rc\<rparr>) = cacheOf k p"
  "cacheOf k (p\<lparr>g_rendvQueue := rq\<rparr>) = cacheOf k p"
  "cacheOf k (p\<lparr>g_rendvFD := fd\<rparr>) = cacheOf k p"
  "cacheOf k (p\<lparr>g_rendvRecvPacket := b\<rparr>) = cacheOf k p"
  by (cases k; simp add: cacheOf_def)+

lemma caches_ok_fields [frame_simps]:
  "caches_ok (p\<lparr>g_clockReads := n\<rparr>) = caches_ok p"
  "caches_ok (p\<lparr>g_randDraws := n\<rparr>) = caches_ok p"
  "caches_ok (p\<lparr>g_sysCalls := n\<rparr>) = caches_ok p"
  "caches_ok (p\<lparr>g_datagrams := d\<rparr>) = caches_ok p"
  "caches_ok (p\<lparr>g_icmpSeq := w\<rparr>) = caches_ok p"
  "caches_ok (p\<lparr>g_rings := rs\<rparr>) = caches_ok p"
  "caches_ok (p\<lparr>g_queries := qs\<rparr>) = caches_ok p"
  "caches_ok (p\<lparr>g_queryTable := t\<rparr>) = caches_ok p"
  "caches_ok (p\<lparr>g_outPacketList := ms\<rparr>) = caches_ok p"
  "caches_ok (p\<lparr>g_icmpOutPacketList := ms\<rparr>) = caches_ok p"
  "caches_ok (p\<lparr>g_writeSet := fds\<rparr>) = caches_ok p"
  "caches_ok (p\<lparr>g_readSet := fds\<rparr>) = caches_ok p"
  "caches_ok (p\<lparr>g_maxFD := m\<rparr>) = caches_ok p"
  "caches_ok (p\<lparr>g_fdFault := flt\<rparr>) = caches_ok p"
  "caches_ok (p\<lparr>g_openFDs := os\<rparr>) = caches_ok p"
  "caches_ok (p\<lparr>g_tcpProbeConnections := cs\<rparr>) = caches_ok p"
  "caches_ok (p\<lparr>g_dnsProbeConnections := cs\<rparr>) = caches_ok p"
  "caches_ok (p\<lparr>g_rendvConnections := rc\<rparr>) = caches_ok p"
  "caches_ok (p\<lparr>g_rendvQueue := rq\<rparr>) = caches_ok p"
  "caches_ok (p\<lparr>g_rendvFD := fd\<rparr>) = caches_ok p"
  "caches_ok (p\<lparr>g_rendvRecvPacket := b\<rparr>) = caches_ok p"
  by (simp_all add: caches_ok_def cacheOf_fields)

lemma deref_fields [frame_simps]:
  "deref x (p\<lparr>g_clockReads := n\<rparr>) = deref x p"
  "deref x (p\<lparr>g_randDraws := n\<rparr>) = deref x p"
  "deref x (p\<lparr>g_sysCalls := n\<rparr>) = deref x p"
  "deref x (p\<lparr>g_datagrams := d\<rparr>) = deref x p"
  "deref x (p\<lparr>g_icmpSeq := w\<rparr>) = deref x p"
  "deref x (p\<lparr>g_rings := rs\<rparr>) = deref x p"
  "deref x (p\<lparr>g_queryTable := t\<rparr>) = deref x p"
  "deref x (p\<lparr>g_outPacketList := ms\<rparr>) = deref x p"
  "deref x (p\<lparr>g_icmpOutPacketList := ms\<rparr>) = deref x p"
  "deref x (p\<lparr>g_writeSet := fds\<rparr>) = deref x p"
  "deref x (p\<lparr>g_readSet := fds\<rparr>) = deref x p"
  "deref x (p\<lparr>g_maxFD := m\<rparr>) = deref x p"
  "deref x (p\<lparr>g_fdFault := flt\<rparr>) = deref x p"
  "deref x (p\<lparr>g_openFDs := os\<rparr>) = deref x p"
  "deref x (p\<lparr>g_tcpProbeConnections := cs\<rparr>) = deref x p"
  "deref x (p\<lparr>g_dnsProbeConnections := cs\<rparr>) = deref x p"
  "deref x (p\<lparr>g_rendvConnections := rc\<rparr>) = deref x p"
  "deref x (p\<lparr>g_rendvQueue := rq\<rparr>) = deref x p"
  "deref x (p\<lparr>g_rendvFD := fd\<rparr>) = deref x p"
  "deref x (p\<lparr>g_rendvRecvPacket := b\<rparr>) = deref x p"
  "deref x (p\<lparr>g_tcpCache := ch\<rparr>) = deref x p"
  "deref x (p\<lparr>g_dnsCache := ch\<rparr>) = deref x p"
  "deref x (p\<lparr>g_pingCache := ch\<rparr>) = deref x p"
  "deref x (p\<lparr>g_icmpCache := ch\<rparr>) = deref x p"
  by (simp_all add: deref_def)

lemma subs_fields [frame_simps]:
  "subs (p\<lparr>g_clockReads := n\<rparr>) = subs p"
  "subs (p\<lparr>g_randDraws := n\<rparr>) = subs p"
  "subs (p\<lparr>g_sysCalls := n\<rparr>) = subs p"
  "subs (p\<lparr>g_datagrams := d\<rparr>) = subs p"
  "subs (p\<lparr>g_icmpSeq := w\<rparr>) = subs p"
  "subs (p\<lparr>g_rings := rs\<rparr>) = subs p"
  "subs (p\<lparr>g_queryTable := t\<rparr>) = subs p"
  "subs (p\<lparr>g_outPacketList := ms\<rparr>) = subs p"
  "subs (p\<lparr>g_icmpOutPacketList := ms\<rparr>) = subs p"
  "subs (p\<lparr>g_writeSet := fds\<rparr>) = subs p"
  "subs (p\<lparr>g_readSet := fds\<rparr>) = subs p"
  "subs (p\<lparr>g_maxFD := m\<rparr>) = subs p"
  "subs (p\<lparr>g_fdFault := flt\<rparr>) = subs p"
  "subs (p\<lparr>g_openFDs := os\<rparr>) = subs p"
  "subs (p\<lparr>g_tcpProbeConnections := cs\<rparr>) = subs p"
  "subs (p\<lparr>g_dnsProbeConnections := cs\<rparr>) = subs p"
  "subs (p\<lparr>g_rendvConnections := rc\<rparr>) = subs p"
  "subs (p\<lparr>g_rendvQueue := rq\<rparr>) = subs p"
  "subs (p\<lparr>g_rendvFD := fd\<rparr>) = subs p"
  "subs (p\<lparr>g_rendvRecvPacket := b\<rparr>) = subs p"
  "subs (p\<lparr>g_tcpCache := ch\<rparr>) = subs p"
  "subs (p\<lparr>g_dnsCache := ch\<rparr>) = subs p"
  "subs (p\<lparr>g_pingCache := ch\<rparr>) = subs p"
  "subs (p\<lparr>g_icmpCache := ch\<rparr>) = subs p"
  "fwd (p\<lparr>g_clockReads := n\<rparr>) = fwd p"
  "fwd (p\<lparr>g_randDraws := n\<rparr>) = fwd p"
  "fwd (p\<lparr>g_sysCalls := n\<rparr>) = fwd p"
  "fwd (p\<lparr>g_datagrams := d\<rparr>) = fwd p"
  "fwd (p\<lparr>g_icmpSeq := w\<rparr>) = fwd p"
  "fwd (p\<lparr>g_rings := rs\<rparr>) = fwd p"
  "fwd (p\<lparr>g_queryTable := t\<rparr>) = fwd p"
  "fwd (p\<lparr>g_outPacketList := ms\<rparr>) = fwd p"
  "fwd (p\<lparr>g_icmpOutPacketList := ms\<rparr>) = fwd p"
  "fwd (p\<lparr>g_writeSet := fds\<rparr>) = fwd p"
  "fwd (p\<lparr>g_readSet := fds\<rparr>) = fwd p"
  "fwd (p\<lparr>g_maxFD := m\<rparr>) = fwd p"
  "fwd (p\<lparr>g_fdFault := flt\<rparr>) = fwd p"
  "fwd (p\<lparr>g_openFDs := os\<rparr>) = fwd p"
  "fwd (p\<lparr>g_tcpProbeConnections := cs\<rparr>) = fwd p"
  "fwd (p\<lparr>g_dnsProbeConnections := cs\<rparr>) = fwd p"
  "fwd (p\<lparr>g_rendvConnections := rc\<rparr>) = fwd p"
  "fwd (p\<lparr>g_rendvQueue := rq\<rparr>) = fwd p"
  "fwd (p\<lparr>g_rendvFD := fd\<rparr>) = fwd p"
  "fwd (p\<lparr>g_rendvRecvPacket := b\<rparr>) = fwd p"
  "fwd (p\<lparr>g_tcpCache := ch\<rparr>) = fwd p"
  "fwd (p\<lparr>g_dnsCache := ch\<rparr>) = fwd p"
  "fwd (p\<lparr>g_pingCache := ch\<rparr>) = fwd p"
  "fwd (p\<lparr>g_icmpCache := ch\<rparr>) = fwd p"
  "objects_ok (p\<lparr>g_clockReads := n\<rparr>) = objects_ok p"
  "objects_ok (p\<lparr>g_randDraws := n\<rparr>) = objects_ok p"
  "objects_ok (p\<lparr>g_sysCalls := n\<rparr>) = objects_ok p"
  "objects_ok (p\<lparr>g_datagrams := d\<rparr>) = objects_ok p"
  "objects_ok (p\<lparr>g_icmpSeq := w\<rparr>) = objects_ok p"
  "objects_ok (p\<lparr>g_rings := rs\<rparr>) = objects_ok p"
  "objects_ok (p\<lparr>g_queryTable := t\<rparr>) = objects_ok p"
  "objects_ok (p\<lparr>g_outPacketList := ms\<rparr>) = objects_ok p"
  "objects_ok (p\<lparr>g_icmpOutPacketList := ms\<rparr>) = objects_ok p"
  "objects_ok (p\<lparr>g_writeSet := fds\<rparr>) = objects_ok p"
  "objects_ok (p\<lparr>g_readSet := fds\<rparr>) = objects_ok p"
  "objects_ok (p\<lparr>g_maxFD := m\<rparr>) = objects_ok p"
  "objects_ok (p\<lparr>g_fdFault := flt\<rparr>) = objects_ok p"
  "objects_ok (p\<lparr>g_openFDs := os\<rparr>) = objects_ok p"
  "objects_ok (p\<lparr>g_tcpProbeConnections := cs\<rparr>) = objects_ok p"
  "objects_ok (p\<lparr>g_dnsProbeConnections := cs\<rparr>) = objects_ok p"
  "objects_ok (p\<lparr>g_rendvConnections := rc\<rparr>) = objects_ok p"
  "objects_ok (p\<lparr>g_rendvQueue := rq\<rparr>) = objects_ok p"
  "objects_ok (p\<lparr>g_rendvFD := fd\<rparr>) = objects_ok p"
  "objects_ok (p\<lparr>g_rendvRecvPacket := b\<rparr>) = objects_ok p"
  "objects_ok (p\<lparr>g_tcpCache := ch\<rparr>) = objects_ok p"
  "objects_ok (p\<lparr>g_dnsCache := ch\<rparr>) = objects_ok p"
  "objects_ok (p\<lparr>g_pingCache := ch\<rparr>) = objects_ok p"
  "objects_ok (p\<lparr>g_icmpCache := ch\<rparr>) = objects_ok p"
  by (simp_all add: subs_def fwd_def objects_ok_def deref_fields)

lemma table_ok_fields [frame_simps]:
  "table_ok (p\<lparr>g_clockReads := n\<rparr>) = table_ok p"
  "table_ok (p\<lparr>g_randDraws := n\<rparr>) = table_ok p"
  "table_ok (p\<lparr>g_sysCalls := n\<rparr>) = table_ok p"
  "table_ok (p\<lparr>g_datagrams := d\<rparr>) = table_ok p"
  "table_ok (p\<lparr>g_icmpSeq := w\<rparr>) = table_ok p"
  "table_ok (p\<lparr>g_rings := rs\<rparr>) = table_ok p"
  "table_ok (p\<lparr>g_outPacketList := ms\<rparr>) = table_ok p"
  "table_ok (p\<lparr>g_icmpOutPacketList := ms\<rparr>) = table_ok p"
  "table_ok (p\<lparr>g_writeSet := fds\<rparr>) = table_ok p"
  "table_ok (p\<lparr>g_readSet := fds\<rparr>) = table_ok p"
  "table_ok (p\<lparr>g_maxFD := m\<rparr>) = table_ok p"
  "table_ok (p\<lparr>g_fdFault := flt\<rparr>) = table_ok p"
  "table_ok (p\<lparr>g_openFDs := os\<rparr>) = table_ok p"
  "table_ok (p\<lparr>g_tcpProbeConnections := cs\<rparr>) = table_ok p"
  "table_ok (p\<lparr>g_dnsProbeConnections := cs\<rparr>) = table_ok p"
  "table_ok (p\<lparr>g_rendvConnections := rc\<rparr>) = table_ok p"
  "table_ok (p\<lparr>g_rendvQueue := rq\<rparr>) = table_ok p"
  "table_ok (p\<lparr>g_rendvFD := fd\<rparr>) = table_ok p"
  "table_ok (p\<lparr>g_rendvRecvPacket := b\<rparr>) = table_ok p"
  "table_ok (p\<lparr>g_tcpCache := ch\<rparr>) = table_ok p"
  "table_ok (p\<lparr>g_dnsCache := ch\<rparr>) = table_ok p"
  "table_ok (p\<lparr>g_pingCache := ch\<rparr>) = table_ok p"
  "table_ok (p\<lparr>g_icmpCache := ch\<rparr>) = table_ok p"
  by (simp_all add: table_ok_def deref_fields)

lemma FDs_fields [frame_simps]:
  "tcpFDs (p\<lparr>g_clockReads := n\<rparr>) = tcpFDs p"
  "tcpFDs (p\<lparr>g_randDraws := n\<rparr>) = tcpFDs p"
  "tcpFDs (p\<lparr>g_sysCalls := n\<rparr>) = tcpFDs p"
  "tcpFDs (p\<lparr>g_datagrams := d\<rparr>) = tcpFDs p"
  "tcpFDs (p\<lparr>g_icmpSeq := w\<rparr>) = tcpFDs p"
  "tcpFDs (p\<lparr>g_rings := rs\<rparr>) = tcpFDs p"
  "tcpFDs (p\<lparr>g_queries := qs\<rparr>) = tcpFDs p"
  "tcpFDs (p\<lparr>g_queryTable := t\<rparr>) = tcpFDs p"
  "tcpFDs (p\<lparr>g_outPacketList := ms\<rparr>) = tcpFDs p"
  "tcpFDs (p\<lparr>g_icmpOutPacketList := ms\<rparr>) = tcpFDs p"
  "tcpFDs (p\<lparr>g_writeSet := fds\<rparr>) = tcpFDs p"
  "tcpFDs (p\<lparr>g_readSet := fds\<rparr>) = tcpFDs p"
  "tcpFDs (p\<lparr>g_maxFD := m\<rparr>) = tcpFDs p"
  "tcpFDs (p\<lparr>g_fdFault := flt\<rparr>) = tcpFDs p"
  "tcpFDs (p\<lparr>g_openFDs := os\<rparr>) = tcpFDs p"
  "tcpFDs (p\<lparr>g_dnsProbeConnections := cs\<rparr>) = tcpFDs p"
  "tcpFDs (p\<lparr>g_rendvConnections := rc\<rparr>) = tcpFDs p"
  "tcpFDs (p\<lparr>g_rendvQueue := rq\<rparr>) = tcpFDs p"
  "tcpFDs (p\<lparr>g_rendvFD := fd\<rparr>) = tcpFDs p"
  "tcpFDs (p\<lparr>g_rendvRecvPacket := b\<rparr>) = tcpFDs p"
  "tcpFDs (p\<lparr>g_tcpCache := ch\<rparr>) = tcpFDs p"
  "tcpFDs (p\<lparr>g_dnsCache := ch\<rparr>) = tcpFDs p"
  "tcpFDs (p\<lparr>g_pingCache := ch\<rparr>) = tcpFDs p"
  "tcpFDs (p\<lparr>g_icmpCache := ch\<rparr>) = tcpFDs p"
  by (simp_all add: tcpFDs_def)

lemma FDs_fields' [frame_simps]:
  "dnsFDs (p\<lparr>g_clockReads := n\<rparr>) = dnsFDs p"
  "dnsFDs (p\<lparr>g_randDraws := n\<rparr>) = dnsFDs p"
  "dnsFDs (p\<lparr>g_sysCalls := n\<rparr>) = dnsFDs p"
  "dnsFDs (p\<lparr>g_datagrams := d\<rparr>) = dnsFDs p"
  "dnsFDs (p\<lparr>g_icmpSeq := w\<rparr>) = dnsFDs p"
  "dnsFDs (p\<lparr>g_rings := rs\<rparr>) = dnsFDs p"
  "dnsFDs (p\<lparr>g_queries := qs\<rparr>) = dnsFDs p"
  "dnsFDs (p\<lparr>g_queryTable := t\<rparr>) = dnsFDs p"
  "dnsFDs (p\<lparr>g_outPacketList := ms\<rparr>) = dnsFDs p"
  "dnsFDs (p\<lparr>g_icmpOutPacketList := ms\<rparr>) = dnsFDs p"
  "dnsFDs (p\<lparr>g_writeSet := fds\<rparr>) = dnsFDs p"
  "dnsFDs (p\<lparr>g_readSet := fds\<rparr>) = dnsFDs p"
  "dnsFDs (p\<lparr>g_maxFD := m\<rparr>) = dnsFDs p"
  "dnsFDs (p\<lparr>g_fdFault := flt\<rparr>) = dnsFDs p"
  "dnsFDs (p\<lparr>g_openFDs := os\<rparr>) = dnsFDs p"
  "dnsFDs (p\<lparr>g_tcpProbeConnections := cs\<rparr>) = dnsFDs p"
  "dnsFDs (p\<lparr>g_rendvConnections := rc\<rparr>) = dnsFDs p"
  "dnsFDs (p\<lparr>g_rendvQueue := rq\<rparr>) = dnsFDs p"
  "dnsFDs (p\<lparr>g_rendvFD := fd\<rparr>) = dnsFDs p"
  "dnsFDs (p\<lparr>g_rendvRecvPacket := b\<rparr>) = dnsFDs p"
  "dnsFDs (p\<lparr>g_tcpCache := ch\<rparr>) = dnsFDs p"
  "dnsFDs (p\<lparr>g_dnsCache := ch\<rparr>) = dnsFDs p"
  "dnsFDs (p\<lparr>g_pingCache := ch\<rparr>) = dnsFDs p"
  "dnsFDs (p\<lparr>g_icmpCache := ch\<rparr>) = dnsFDs p"
  by (simp_all add: dnsFDs_def)

lemma sockets_ok_fields [frame_simps]:
  "sockets_ok (p\<lparr>g_clockReads := n\<rparr>) = sockets_ok p"
  "sockets_ok (p\<lparr>g_randDraws := n\<rparr>) = sockets_ok p"
  "sockets_ok (p\<lparr>g_sysCalls := n\<rparr>) = sockets_ok p"
  "sockets_ok (p\<lparr>g_datagrams := d\<rparr>) = sockets_ok p"
  "sockets_ok (p\<lparr>g_icmpSeq := w\<rparr>) = sockets_ok p"
  "sockets_ok (p\<lparr>g_rings := rs\<rparr>) = sockets_ok p"
  "sockets_ok (p\<lparr>g_queries := qs\<rparr>) = sockets_ok p"
  "sockets_ok (p\<lparr>g_queryTable := t\<rparr>) = sockets_ok p"
  "sockets_ok (p\<lparr>g_readSet := fds\<rparr>) = sockets_ok p"
  "sockets_ok (p\<lparr>g_maxFD := m\<rparr>) = sockets_ok p"
  "sockets_ok (p\<lparr>g_fdFault := flt\<rparr>) = sockets_ok p"
  "sockets_ok (p\<lparr>g_rendvRecvPacket := b\<rparr>) = sockets_ok p"
  "sockets_ok (p\<lparr>g_tcpCache := ch\<rparr>) = sockets_ok p"
  "sockets_ok (p\<lparr>g_dnsCache := ch\<rparr>) = sockets_ok p"
  "sockets_ok (p\<lparr>g_pingCache := ch\<rparr>) = sockets_ok p"
  "sockets_ok (p\<lparr>g_icmpCache := ch\<rparr>) = sockets_ok p"
  by (simp_all add: sockets_ok_def pending_def tcpFDs_def dnsFDs_def rendvFDs_def infoFDs_def nodeFDs_def ownFDs_def)

lemma fds_ok_fields [simp]:
  "fds_ok (p\<lparr>g_clockReads := n\<rparr>) = fds_ok p"
  "fds_ok (p\<lparr>g_randDraws := n\<rparr>) = fds_ok p"
  "fds_ok (p\<lparr>g_sysCalls := n\<rparr>) = fds_ok p"
  "fds_ok (p\<lparr>g_datagrams := d\<rparr>) = fds_ok p"
  "fds_ok (p\<lparr>g_icmpSeq := w\<rparr>) = fds_ok p"
  "fds_ok (p\<lparr>g_rings := rs\<rparr>) = fds_ok p"
  "fds_ok (p\<lparr>g_queries := qs\<rparr>) = fds_ok p"
  "fds_ok (p\<lparr>g_queryTable := t\<rparr>) = fds_ok p"
  "fds_ok (p\<lparr>g_outPacketList := ms\<rparr>) = fds_ok p"
  "fds_ok (p\<lparr>g_icmpOutPacketList := ms\<rparr>) = fds_ok p"
  "fds_ok (p\<lparr>g_writeSet := fds\<rparr>) = fds_ok p"
  "fds_ok (p\<lparr>g_readSet := fds\<rparr>) = fds_ok p"
  "fds_ok (p\<lparr>g_maxFD := m\<rparr>) = fds_ok p"
  "fds_ok (p\<lparr>g_openFDs := os\<rparr>) = fds_ok p"
  "fds_ok (p\<lparr>g_tcpProbeConnections := cs\<rparr>) = fds_ok p"
  "fds_ok (p\<lparr>g_dnsProbeConnections := cs\<rparr>) = fds_ok p"
  "fds_ok (p\<lparr>g_rendvConnections := rc\<rparr>) = fds_ok p"
  "fds_ok (p\<lparr>g_rendvQueue := rq\<rparr>) = fds_ok p"
  "fds_ok (p\<lparr>g_rendvFD := fd\<rparr>) = fds_ok p"
  "fds_ok (p\<lparr>g_rendvListener := fd\<rparr>) = fds_ok p"
  "fds_ok (p\<lparr>g_rendvRecvPacket := rb\<rparr>) = fds_ok p"
  "fds_ok (p\<lparr>g_infoSock := fd\<rparr>) = fds_ok p"
  "fds_ok (p\<lparr>g_infoConnects := ic\<rparr>) = fds_ok p"
  "fds_ok (p\<lparr>g_tcpCache := ch\<rparr>) = fds_ok p"
  "fds_ok (p\<lparr>g_dnsCache := ch\<rparr>) = fds_ok p"
  "fds_ok (p\<lparr>g_pingCache := ch\<rparr>) = fds_ok p"
  "fds_ok (p\<lparr>g_icmpCache := ch\<rparr>) = fds_ok p"
  by (simp_all add: fds_ok_def)

lemma grows_fields [frame_simps]:
  "grows p0 (p\<lparr>g_clockReads := n\<rparr>) = grows p0 p"
  "grows p0 (p\<lparr>g_randDraws := n\<rparr>) = grows p0 p"
  "grows p0 (p\<lparr>g_sysCalls := n\<rparr>) = grows p0 p"
  "grows p0 (p\<lparr>g_datagrams := d\<rparr>) = grows p0 p"
  "grows p0 (p\<lparr>g_icmpSeq := w\<rparr>) = grows p0 p"
  "grows p0 (p\<lparr>g_rings := rs\<rparr>) = grows p0 p"
  "grows p0 (p\<lparr>g_queries := qs\<rparr>) = grows p0 p"
  "grows p0 (p\<lparr>g_queryTable := t\<rparr>) = grows p0 p"
  "grows p0 (p\<lparr>g_outPacketList := ms\<rparr>) = grows p0 p"
  "grows p0 (p\<lparr>g_icmpOutPacketList := ms\<rparr>) = grows p0 p"
  "grows p0 (p\<lparr>g_readSet := fds\<rparr>) = grows p0 p"
  "grows p0 (p\<lparr>g_maxFD := m\<rparr>) = grows p0 p"
  "grows p0 (p\<lparr>g_fdFault := flt\<rparr>) = grows p0 p"
  "grows p0 (p\<lparr>g_tcpCache := ch\<rparr>) = grows p0 p"
  "grows p0 (p\<lparr>g_dnsCache := ch\<rparr>) = grows p0 p"
  "grows p0 (p\<lparr>g_pingCache := ch\<rparr>) = grows p0 p"
  "grows p0 (p\<lparr>g_icmpCache := ch\<rparr>) = grows p0 p"
  "grows p0 p \<Longrightarrow> grows p0 (p\<lparr>g_outPacketList := ms, g_writeSet := (g_writeSet p)(fd := True)\<rparr>)"
  "grows p0 p \<Longrightarrow>
     grows p0 (p\<lparr>g_icmpOutPacketList := ms, g_writeSet := (g_writeSet p)(fd := True)\<rparr>)"
  by (simp_all add: grows_def tcpFDs_def dnsFDs_def)

text \<open>The counters: nothing sees them.\<close>

lemma step_counters [frame_simps]:
  "proc_ok E (p\<lparr>g_clockReads := n\<rparr>) = proc_ok E p"
  "proc_ok E (p\<lparr>g_randDraws := n\<rparr>) = proc_ok E p"
  "proc_ok E (p\<lparr>g_sysCalls := n\<rparr>) = proc_ok E p"
  "proc_ok E (p\<lparr>g_datagrams := d\<rparr>) = proc_ok E p"
  "proc_ok E (p\<lparr>g_icmpSeq := w\<rparr>) = proc_ok E p"
  "step E c S p0 (p\<lparr>g_clockReads := n\<rparr>) = step E c S p0 p"
  "step E c S p0 (p\<lparr>g_randDraws := n\<rparr>) = step E c S p0 p"
  "step E c S p0 (p\<lparr>g_sysCalls := n\<rparr>) = step E c S p0 p"
  "step E c S p0 (p\<lparr>g_datagrams := d\<rparr>) = step E c S p0 p"
  "step E c S p0 (p\<lparr>g_icmpSeq := w\<rparr>) = step E c S p0 p"
  by (simp_all add: step_defs frame_simps)

lemma FDs_more [frame_simps]:
  "rendvFDs (p\<lparr>g_outPacketList := ms\<rparr>) = rendvFDs p"
  "rendvFDs (p\<lparr>g_icmpOutPacketList := ms\<rparr>) = rendvFDs p"
  "rendvFDs (p\<lparr>g_writeSet := fds\<rparr>) = rendvFDs p"
  "ownFDs (p\<lparr>g_outPacketList := ms\<rparr>) = ownFDs p"
  "ownFDs (p\<lparr>g_icmpOutPacketList := ms\<rparr>) = ownFDs p"
  "ownFDs (p\<lparr>g_writeSet := fds\<rparr>) = ownFDs p"
  "infoFDs (p\<lparr>g_outPacketList := ms\<rparr>) = infoFDs p"
  "infoFDs (p\<lparr>g_icmpOutPacketList := ms\<rparr>) = infoFDs p"
  "infoFDs (p\<lparr>g_writeSet := fds\<rparr>) = infoFDs p"
  "nodeFDs (p\<lparr>g_outPacketList := ms\<rparr>) = nodeFDs p"
  "nodeFDs (p\<lparr>g_icmpOutPacketList := ms\<rparr>) = nodeFDs p"
  "nodeFDs (p\<lparr>g_writeSet := fds\<rparr>) = nodeFDs p"
  by (simp_all add: rendvFDs_def ownFDs_def infoFDs_def nodeFDs_def)

lemma step_rings:
  "step E c S p0 p \<Longrightarrow> ring_wf (env_fpu E) rs \<Longrightarrow> step E c S p0 (p\<lparr>g_rings := rs\<rparr>)"
  by (simp add: step_defs frame_simps)

lemma step_ring_wf: "step E c S p0 p \<Longrightarrow> ring_wf (env_fpu E) (g_rings p)"
  by (simp add: step_defs)

text \<open>
  Indexing a descriptor set: an open descriptor is inside, and the sockets a packet is queued for
  are open or were never opened.
\<close>

lemma open_in_fd_set: "sockets_ok p \<Longrightarrow> fd \<in> set (g_openFDs p) \<Longrightarrow> in_fd_set fd"
  by (simp add: sockets_ok_def)

lemma node_in_fd_set: "sockets_ok p \<Longrightarrow> fd \<in> set (nodeFDs p) \<Longrightarrow> in_fd_set fd"
  by (auto simp: sockets_ok_def ownFDs_def)

lemma main_in_fd_set:
  assumes "sockets_ok p"
  shows "\<not> in_fd_set (g_meridSock p) \<Longrightarrow> g_meridSock p = -1"
    "\<not> in_fd_set (g_icmpSock p) \<Longrightarrow> g_icmpSock p = -1"
proof -
  have "g_meridSock p \<noteq> -1 \<Longrightarrow> g_meridSock p \<in> set (nodeFDs p)"
    "g_icmpSock p \<noteq> -1 \<Longrightarrow> g_icmpSock p \<in> set (nodeFDs p)" by (simp_all add: nodeFDs_def)
  then show "\<not> in_fd_set (g_meridSock p) \<Longrightarrow> g_meridSock p = -1"
    "\<not> in_fd_set (g_icmpSock p) \<Longrightarrow> g_icmpSock p = -1"
    using node_in_fd_set [OF assms] by blast+
qed

lemma fd_check_frame [frame_simps]:
  "deref x (fd_check fd p) = deref x p" "cacheOf k (fd_check fd p) = cacheOf k p"
  "caches_ok (fd_check fd p) = caches_ok p" "table_ok (fd_check fd p) = table_ok p"
  "objects_ok (fd_check fd p) = objects_ok p" "sockets_ok (fd_check fd p) = sockets_ok p"
  by (simp_all add: fd_check_def frame_simps)

subsection \<open>Primitives\<close>

lemma gettimeofday_upd: "snd (gettimeofday E p) = p\<lparr>g_clockReads := Suc (g_clockReads p)\<rparr>"
  by (simp add: gettimeofday_def)

lemma c_rand_upd: "snd (c_rand E p) = p\<lparr>g_randDraws := Suc (g_randDraws p)\<rparr>"
  by (simp add: c_rand_def)

lemma sys_call_upd: "snd (sys_call E p) = p\<lparr>g_sysCalls := Suc (g_sysCalls p)\<rparr>"
  by (simp add: sys_call_def)

lemma computeTimeout_upd: "snd (computeTimeout E t p) = p\<lparr>g_clockReads := Suc (g_clockReads p)\<rparr>"
  by (simp add: computeTimeout_def gettimeofday_def)

lemma elapsedUS_upd: "snd (elapsedUS E t p) = p\<lparr>g_clockReads := Suc (g_clockReads p)\<rparr>"
  by (simp add: elapsedUS_def gettimeofday_def)

lemma cacheGetLatency_upd:
  "snd (cacheGetLatency E k n p) = p \<or>
   snd (cacheGetLatency E k n p) = p\<lparr>g_clockReads := Suc (g_clockReads p)\<rparr>"
  by (simp add: cacheGetLatency_def gettimeofday_def)

lemma newQueryIDLoop_upd: "\<exists>n. snd (newQueryIDLoop E i p) = p\<lparr>g_randDraws := n\<rparr>"
proof (induction E i p rule: newQueryIDLoop.induct)
  case (1 E i p)
  have e: "newQueryIDLoop E i p =
     (if i < USHRT_MAX then
        case c_rand E p of (r, p) \<Rightarrow>
        let retVal = localQueryID p (word_of_nat (r mod USHRT_MAX)) in
        if \<not> isQueryInTable retVal (g_queryTable p) then (Some retVal, p)
        else newQueryIDLoop E (Suc i) p
      else (None, p))"
    by (rule newQueryIDLoop.simps)
  show ?case
  proof (cases "i < USHRT_MAX")
    case False
    then have "newQueryIDLoop E i p = (None, p)" using e by simp
    moreover have "p = p\<lparr>g_randDraws := g_randDraws p\<rparr>" by simp
    ultimately show ?thesis by (metis snd_conv)
  next
    case True
    obtain r p1 where r: "c_rand E p = (r, p1)" by fastforce
    then have p1: "p1 = p\<lparr>g_randDraws := Suc (g_randDraws p)\<rparr>"
      using c_rand_upd [of E p] by simp
    show ?thesis
    proof (cases "isQueryInTable (localQueryID p1 (word_of_nat (r mod USHRT_MAX))) (g_queryTable p1)")
      case False
      then have "snd (newQueryIDLoop E i p) = p1" using e True r by (simp add: Let_def)
      then show ?thesis unfolding p1 by blast
    next
      case used: True
      then have "newQueryIDLoop E i p = newQueryIDLoop E (Suc i) p1"
        using e True r by (simp add: Let_def)
      moreover obtain n where "snd (newQueryIDLoop E (Suc i) p1) = p1\<lparr>g_randDraws := n\<rparr>"
        using "1.IH" [OF True r [symmetric] refl] used by blast
      ultimately show ?thesis unfolding p1 by auto
    qed
  qed
qed

lemma getNewQueryID_upd: "\<exists>n. snd (getNewQueryID E p) = p\<lparr>g_randDraws := n\<rparr>"
proof -
  obtain r p1 where r: "newQueryIDLoop E 0 p = (r, p1)" by fastforce
  then obtain n where "p1 = p\<lparr>g_randDraws := n\<rparr>" using newQueryIDLoop_upd [of E 0 p] by auto
  then show ?thesis
    using r by (cases r) (auto simp: getNewQueryID_def c_rand_def)
qed

lemma fillGossipPacket_upd: "\<exists>n. snd (fillGossipPacket E g t p) = p\<lparr>g_randDraws := n\<rparr>"
  by (auto simp: fillGossipPacket_def split: prod.split)

lemma sendPacket_upd:
  "snd (sendPacket f d p) = p \<or> (\<exists>m. snd (sendPacket f d p) = snd (addOutPacket m p))"
  by (auto simp: sendPacket_def split: prod.split)

lemma addOutPacket_deref [frame_simps]: "deref x (snd (addOutPacket m p)) = deref x p"
  by (simp add: addOutPacket_def set_write_def frame_simps)

text \<open>Queueing a packet makes its socket pending.\<close>

lemma sockets_ok_add:
  "sockets_ok p \<Longrightarrow> fd = g_meridSock p \<Longrightarrow>
     sockets_ok (p\<lparr>g_outPacketList := g_outPacketList p @ [m],
       g_writeSet := (g_writeSet p)(fd := True)\<rparr>)"
  "sockets_ok p \<Longrightarrow> fd = g_icmpSock p \<Longrightarrow>
     sockets_ok (p\<lparr>g_icmpOutPacketList := g_icmpOutPacketList p @ [m],
       g_writeSet := (g_writeSet p)(fd := True)\<rparr>)"
  unfolding sockets_ok_def frame_simps by (auto simp: pending_def frame_simps)

lemma step_addOutPacket:
  assumes "step E c S p0 p"
  shows "step E c S p0 (snd (addOutPacket m p))"
  using assms main_in_fd_set(1) [of p]
  by (auto simp: step_defs addOutPacket_def set_write_def fd_check_def fds_ok_def frame_simps
      sockets_ok_add)

lemma addOutPacket_rings [frame_simps]: "g_rings (snd (addOutPacket m p)) = g_rings p"
  by (simp add: addOutPacket_def set_write_def frame_simps)

lemma deref_prims [frame_simps]:
  "deref x (snd (gettimeofday E p)) = deref x p"
  "deref x (snd (c_rand E p)) = deref x p"
  "deref x (snd (sys_call E p)) = deref x p"
  "deref x (snd (computeTimeout E t p)) = deref x p"
  "deref x (snd (elapsedUS E tv p)) = deref x p"
  "deref x (snd (getNewQueryID E p)) = deref x p"
  "deref x (snd (cacheGetLatency E k n p)) = deref x p"
  "deref x (snd (fillGossipPacket E g d p)) = deref x p"
  "deref x (snd (sendPacket f d' p)) = deref x p"
  using getNewQueryID_upd [of E p] cacheGetLatency_upd [of E k n p] fillGossipPacket_upd [of E g d p]
    sendPacket_upd [of f d' p]
  by (auto simp: gettimeofday_upd c_rand_upd sys_call_upd computeTimeout_upd elapsedUS_upd
    frame_simps)

lemma rings_prims [frame_simps]:
  "g_rings (snd (gettimeofday E p)) = g_rings p"
  "g_rings (snd (c_rand E p)) = g_rings p"
  "g_rings (snd (computeTimeout E t p)) = g_rings p"
  "g_rings (snd (elapsedUS E tv p)) = g_rings p"
  "g_rings (snd (getNewQueryID E p)) = g_rings p"
  "g_rings (snd (cacheGetLatency E k n p)) = g_rings p"
  "g_rings (snd (fillGossipPacket E g d p)) = g_rings p"
  "g_rings (snd (sendPacket f d' p)) = g_rings p"
  using getNewQueryID_upd [of E p] cacheGetLatency_upd [of E k n p] fillGossipPacket_upd [of E g d p]
    sendPacket_upd [of f d' p]
  by (auto simp: gettimeofday_upd c_rand_upd computeTimeout_upd elapsedUS_upd frame_simps)

lemma step_prims [frame_simps]:
  "step E c S p0 (snd (gettimeofday E' p)) = step E c S p0 p"
  "step E c S p0 (snd (c_rand E' p)) = step E c S p0 p"
  "step E c S p0 (snd (sys_call E' p)) = step E c S p0 p"
  "step E c S p0 (snd (computeTimeout E' t p)) = step E c S p0 p"
  "step E c S p0 (snd (elapsedUS E' tv p)) = step E c S p0 p"
  "step E c S p0 (snd (getNewQueryID E' p)) = step E c S p0 p"
  "step E c S p0 (snd (cacheGetLatency E' k n p)) = step E c S p0 p"
  "step E c S p0 (snd (fillGossipPacket E' g d p)) = step E c S p0 p"
  using getNewQueryID_upd [of E' p] cacheGetLatency_upd [of E' k n p]
    fillGossipPacket_upd [of E' g d p]
  by (auto simp: gettimeofday_upd c_rand_upd sys_call_upd computeTimeout_upd elapsedUS_upd
    frame_simps)

lemma step_sendPacket: "step E c S p0 p \<Longrightarrow> step E c S p0 (snd (sendPacket f d p))"
  using sendPacket_upd [of f d p] step_addOutPacket by metis

end
