(* ===== verification/Engine_Objects.thy ===== *)
theory Engine_Objects
  imports Engine_Frames
begin

text \<open>
  The rules for the operations on the store of query objects, the table and the probe sockets.
\<close>

subsection \<open>Objects\<close>

lemma deref_assignQ [frame_simps]:
  "deref x (assignQ y q p) = (if x = y then Some q else deref x p)"
  by (simp add: deref_def assignQ_def)

lemma deref_deleteQ [frame_simps]:
  "deref x (deleteQ y p) = (if x = y then None else deref x p)"
  by (simp add: deref_def deleteQ_def)

lemma rings_assignQ [frame_simps]: "g_rings (assignQ y q p) = g_rings p"
  by (simp add: assignQ_def)

lemma wp_modifyQ [wp_simps]:
  "wp (modifyQ x f p) Q \<longleftrightarrow> (\<exists>q. deref x p = Some q \<and> Q (assignQ x (f q) p))"
  by (cases "deref x p") (simp_all add: modifyQ_def wp_simps)

lemma subs_assignQ:
  "subs (assignQ x q p) = {(y, s) \<in> subs p. y \<noteq> x} \<union> {x} \<times> set (subscribers q)"
  by (auto simp: subs_def deref_assignQ split: if_splits)

lemma fwd_assignQ:
  "fwd (assignQ x q p) = fwd p - {x} \<union> (if forwards q then {x} else {})"
  by (auto simp: fwd_def deref_assignQ split: if_splits)

lemma subs_same: "deref x p = Some q \<Longrightarrow> same_subs q q' \<Longrightarrow> subs (assignQ x q' p) = subs p"
  by (auto simp: subs_def deref_assignQ same_subs_def split: if_splits)

lemma fwd_same: "deref x p = Some q \<Longrightarrow> same_subs q q' \<Longrightarrow> fwd (assignQ x q' p) = fwd p"
  by (auto simp: fwd_def deref_assignQ same_subs_def split: if_splits)

lemma assignQ_frame [frame_simps]:
  "caches_ok (assignQ x q p) = caches_ok p" "sockets_ok (assignQ x q p) = sockets_ok p"
  "fds_ok (assignQ x q p) = fds_ok p"
  "grows p0 (assignQ x q p) = grows p0 p"
  "isQueryInTable y (g_queryTable (assignQ x q p)) =
     isQueryInTable y (g_queryTable p)"
  "g_queryTable (assignQ x q p) = g_queryTable p"
  "g_tcpProbeConnections (assignQ x q p) = g_tcpProbeConnections p"
  "g_dnsProbeConnections (assignQ x q p) = g_dnsProbeConnections p"
  by (simp_all add: assignQ_def frame_simps)

lemma table_ok_assignQ: "table_ok p \<Longrightarrow> deref x p \<noteq> None \<Longrightarrow> table_ok (assignQ x q p)"
  by (simp add: table_ok_def frame_simps)

lemma step_assignQ:
  assumes s: "step E c S p0 p" and x: "x \<in> S \<or> deref x p0 = None" and q: "deref x p = Some q"
    and same: "same_subs q q'" and ok: "query_ok q'"
  shows "step E c S p0 (assignQ x q' p)"
proof -
  have "objects_ok (assignQ x q' p)"
    using s ok unfolding objects_ok_def subs_same [OF q same]
    by (auto simp: step_defs objects_ok_def frame_simps)
  moreover have "table_ok (assignQ x q' p)"
    using s q by (intro table_ok_assignQ) (simp_all add: step_defs)
  ultimately show ?thesis
    using s x unfolding step_defs subs_same [OF q same] fwd_same [OF q same]
    by (auto simp: frame_simps)
qed

subsection \<open>The table\<close>

lemma tableInsert_cases:
  assumes "proc_ok E p"
  shows "tableInsert x q p = (if deref x p \<noteq> None then (-1, p)
    else (0, assignQ x q (p\<lparr>g_queryTable := snd (insertNewQuery x (timeOut q) (g_queryTable p))\<rparr>)))"
proof -
  have t: "table_wf (g_queryTable p)" "isQueryInTable x (g_queryTable p) \<longleftrightarrow> deref x p \<noteq> None"
    using assms by (simp_all add: proc_ok_def table_ok_def)
  show ?thesis
    using insertNewQuery_wf(2) [OF t(1), of x "timeOut q"] t(2)
    by (auto simp: tableInsert_def split: prod.split)
qed

lemma table_ok_insert:
  assumes "table_ok p"
  shows "table_ok (assignQ x q (p\<lparr>g_queryTable := snd (insertNewQuery x tv (g_queryTable p))\<rparr>))"
proof -
  have t: "table_wf (g_queryTable p)" "\<And>y. isQueryInTable y (g_queryTable p) \<longleftrightarrow> deref y p \<noteq> None"
    using assms by (simp_all add: table_ok_def)
  note i = insertNewQuery_wf [OF t(1)]
  show ?thesis
    unfolding table_ok_def
  proof (intro conjI allI)
    show "table_wf (g_queryTable (assignQ x q
        (p\<lparr>g_queryTable := snd (insertNewQuery x tv (g_queryTable p))\<rparr>)))"
      by (simp add: frame_simps i(1))
    fix y
    show "isQueryInTable y (g_queryTable (assignQ x q
        (p\<lparr>g_queryTable := snd (insertNewQuery x tv (g_queryTable p))\<rparr>))) \<longleftrightarrow>
      deref y (assignQ x q (p\<lparr>g_queryTable := snd (insertNewQuery x tv (g_queryTable p))\<rparr>)) \<noteq> None"
      using t(2) by (auto simp: frame_simps isQueryInTable_def i(3))
  qed
qed

definition anchored :: "u64 \<Rightarrow> MeridianProcess \<Rightarrow> bool" where
  "anchored s p \<longleftrightarrow> (\<forall>y. (s, y) \<in> (subs p)\<^sup>* \<longrightarrow> deref y p \<noteq> None)"

lemma anchored_leaf:
  assumes "deref s p = Some q" "subscribers q = []"
  shows "anchored s p"
proof -
  have "y = s" if "(s, y) \<in> (subs p)\<^sup>*" for y
    using that by (rule converse_rtranclE) (use assms in \<open>auto simp: subs_def\<close>)
  then show ?thesis using assms by (auto simp: anchored_def)
qed

text \<open>A new object, with nobody subscribed to it or one query.\<close>

lemma step_insert:
  assumes s: "step E c S p0 p" and new: "deref x p = None" and ok: "query_ok q"
    and sub: "set (subscribers q) \<subseteq> A" and A: "A = {} \<or> (A = {a} \<and> anchored a p)"
    and S: "c \<Longrightarrow> A \<subseteq> S"
    and c: "c \<Longrightarrow> \<not> forwards q"
  shows "step E c S p0 (assignQ x q (p\<lparr>g_queryTable := snd (insertNewQuery x tv (g_queryTable p))\<rparr>))"
    (is "step E c S p0 ?p")
proof -
  have pok: "proc_ok E p" using s by (simp add: step_defs)
  have sub_p: "subs ?p \<subseteq> subs p \<union> {x} \<times> A"
    using sub by (auto simp: subs_assignQ frame_simps)
  have "acyclic (subs p \<union> {x} \<times> A)"
  proof (cases "A = {}")
    case True
    then show ?thesis using pok by (simp add: proc_ok_def objects_ok_def)
  next
    case False
    then obtain a where a: "A = {a}" "anchored a p" using A by blast
    then have "(a, x) \<notin> (subs p)\<^sup>*" using new by (auto simp: anchored_def)
    then show ?thesis using pok a(1) by (simp add: proc_ok_def objects_ok_def acyclic_insert)
  qed
  then have acyc: "acyclic (subs ?p)" using sub_p by (rule acyclic_subset)
  have "objects_ok ?p"
    using pok ok acyc by (auto simp: proc_ok_def objects_ok_def frame_simps)
  moreover have "table_ok ?p"
    using pok by (intro table_ok_insert) (simp add: proc_ok_def)
  moreover have "subs ?p \<subseteq> subs p0 \<union> UNIV \<times> S" if c
    using that s sub_p S [OF that] by (auto simp: step_defs)
  moreover have "deref y ?p = deref y p0" if "y \<notin> S" "deref y p0 \<noteq> None" for y
    using s new that by (auto simp: step_defs frame_simps)
  moreover have "fwd ?p \<subseteq> fwd p0" if c
    using c [OF that] that s by (auto simp: fwd_assignQ frame_simps step_defs)
  ultimately show ?thesis
    using s by (auto simp: step_defs frame_simps assignQ_frame)
qed

lemma step_tableInsert:
  assumes s: "step E c S p0 p" and ok: "query_ok q" and sub: "subscribers q = []"
    and c: "c \<Longrightarrow> \<not> forwards q"
  shows "step E c S p0 (snd (tableInsert x q p))"
  using step_insert [OF s _ ok, of x "{}"] sub c step_ok [OF s] s
  by (simp add: tableInsert_cases)

lemma tableUpdate_wp:
  assumes s: "step E c S p0 p" and x: "x \<in> S \<or> deref x p0 = None" and q: "deref x p = Some q"
  shows "wp (tableUpdate x p) (\<lambda>(r, p'). step E c S p0 p' \<and>
    (\<forall>y. deref y p' = (if y = x \<and> isFinished q then None else deref y p)))"
proof -
  have pok: "proc_ok E p" by (rule step_ok [OF s])
  then have t: "table_wf (g_queryTable p)" "\<And>y. isQueryInTable y (g_queryTable p) \<longleftrightarrow> deref y p \<noteq> None"
    by (simp_all add: proc_ok_def table_ok_def)
  have inT: "isQueryInTable x (g_queryTable p)" using t(2) q by simp
  obtain t' where t': "updateTimeout x (isFinished q) (timeOut q) (g_queryTable p) = Some (0, t')"
    "table_wf t'" "\<And>k. sm_find (queryTimeoutMap t') k =
      (if k = x then if isFinished q then None else Some (normalizeTime (timeOut q))
       else sm_find (queryTimeoutMap (g_queryTable p)) k)"
    by (rule updateTimeout_wf [OF t(1) inT, of "isFinished q" "timeOut q"]) blast
  define p' where "p' = (if isFinished q then deleteQ x (p\<lparr>g_queryTable := t'\<rparr>)
    else p\<lparr>g_queryTable := t'\<rparr>)"
  have e: "tableUpdate x p = Some (0, p')"
    by (simp add: tableUpdate_def q t'(1) p'_def Let_def)
  have d: "deref y p' = (if y = x \<and> isFinished q then None else deref y p)" for y
    by (simp add: p'_def frame_simps)
  have "table_ok p'"
  proof -
    have "g_queryTable p' = t'" by (simp add: p'_def deleteQ_def)
    moreover have "isQueryInTable y t' \<longleftrightarrow> deref y p' \<noteq> None" for y
      using t(2) [of y] q unfolding isQueryInTable_def t'(3) d by auto
    ultimately show ?thesis using t'(2) by (simp add: table_ok_def)
  qed
  moreover have sub: "subs p' \<subseteq> subs p" and f: "fwd p' \<subseteq> fwd p"
    by (auto simp: subs_def fwd_def d split: if_splits)
  moreover have "objects_ok p'"
    using pok acyclic_subset [OF _ sub] by (auto simp: proc_ok_def objects_ok_def d split: if_splits)
  moreover have "caches_ok p' = caches_ok p" "sockets_ok p' = sockets_ok p"
    "fds_ok p' = fds_ok p" "g_rings p' = g_rings p" "grows p0 p' = grows p0 p"
    "g_tcpProbeConnections p' = g_tcpProbeConnections p"
    "g_dnsProbeConnections p' = g_dnsProbeConnections p"
    by (simp_all add: p'_def deleteQ_def frame_simps)
  moreover have "deref y p' = deref y p0" if "y \<notin> S" "deref y p0 \<noteq> None" for y
    using s x that by (auto simp: step_defs d)
  ultimately have "step E c S p0 p'"
    using s by (auto simp: step_defs)
  then show ?thesis by (simp add: e wp_simps d)
qed

subsection \<open>Caches\<close>

lemma cacheInsert_wp:
  assumes s: "step E c S p0 p"
  shows "wp (cacheInsert E k n l p) (\<lambda>(r, p'). step E c S p0 p' \<and>
    (\<forall>y. deref y p' = deref y p) \<and> g_rings p' = g_rings p)"
proof -
  obtain now p1 where g: "gettimeofday E p = (now, p1)" by fastforce
  then have p1: "p1 = p\<lparr>g_clockReads := Suc (g_clockReads p)\<rparr>"
    using gettimeofday_upd [of E p] by simp
  have s1: "step E c S p0 p1" using s by (simp add: p1 frame_simps)
  have "caches_ok p1" using s1 by (simp add: step_defs)
  then have c1: "cache_wf (cacheOf k p1)" "0 < maxSize (cacheOf k p1)"
    by (simp_all add: caches_ok_def)
  obtain c' where c': "insertMeasurement now (cacheKey k n) l (cacheOf k p1) = Some (0, c')"
    "cache_wf c'" "maxSize c' = maxSize (cacheOf k p1)"
    by (rule insertMeasurement_wf [OF c1, of now "cacheKey k n" l])
  have cs: "cacheOf j (setCache k c' p1) = (if j = k then c' else cacheOf j p1)" for j
    by (cases j; cases k) (simp_all add: cacheOf_def setCache_def)
  have "caches_ok (setCache k c' p1)"
    using \<open>caches_ok p1\<close> c' c1 by (simp add: caches_ok_def cs)
  then have "step E c S p0 (setCache k c' p1)"
    using s1 by (cases k) (simp_all add: step_defs setCache_def frame_simps)
  moreover have "deref y (setCache k c' p1) = deref y p" "g_rings (setCache k c' p1) = g_rings p" for y
    by (cases k; simp add: setCache_def frame_simps p1)+
  moreover have "cacheInsert E k n l p = Some (0, setCache k c' p1)"
    using c'(1) by (simp add: cacheInsert_def g)
  ultimately show ?thesis by (simp add: wp_simps)
qed

end
