(* ===== verification/Engine_Sockets.thy ===== *)
theory Engine_Sockets
  imports Engine_Objects
begin

text \<open>
  The rules for the sockets of the probes and for starting a probe or a request: a descriptor
  from \<^verbatim>\<open>socket()\<close> is not in any of the tables, so the assertions of the two add functions hold.
\<close>

lemma FDs_open [frame_simps]:
  "rendvFDs (p\<lparr>g_openFDs := os\<rparr>) = rendvFDs p" "ownFDs (p\<lparr>g_openFDs := os\<rparr>) = ownFDs p"
  "pending (p\<lparr>g_openFDs := os\<rparr>) = pending p"
  "rendvFDs (p\<lparr>g_sysCalls := k\<rparr>) = rendvFDs p" "ownFDs (p\<lparr>g_sysCalls := k\<rparr>) = ownFDs p"
  "infoFDs (p\<lparr>g_openFDs := os\<rparr>) = infoFDs p" "nodeFDs (p\<lparr>g_openFDs := os\<rparr>) = nodeFDs p"
  "infoFDs (p\<lparr>g_sysCalls := k\<rparr>) = infoFDs p" "nodeFDs (p\<lparr>g_sysCalls := k\<rparr>) = nodeFDs p"
  by (simp_all add: rendvFDs_def ownFDs_def infoFDs_def nodeFDs_def pending_def tcpFDs_def fun_eq_iff)

lemma sockets_ok_open:
  "sockets_ok p \<Longrightarrow> set (g_openFDs p) \<subseteq> set os \<Longrightarrow> \<forall>fd \<in> set os. in_fd_set fd \<Longrightarrow>
    sockets_ok (p\<lparr>g_openFDs := os\<rparr>)"
  unfolding sockets_ok_def frame_simps by auto

lemma sockets_ok_opened:
  assumes "sockets_ok p" "in_fd_set fd"
  shows "sockets_ok (p\<lparr>g_openFDs := fd # g_openFDs p, g_sysCalls := k\<rparr>)"
proof -
  have "\<forall>fd \<in> set (fd # g_openFDs p). in_fd_set fd" using assms by (simp add: sockets_ok_def)
  then have "sockets_ok (p\<lparr>g_openFDs := fd # g_openFDs p\<rparr>)"
    by (intro sockets_ok_open [OF assms(1)]) auto
  then show ?thesis by (simp add: frame_simps)
qed

definition unused :: "int \<Rightarrow> MeridianProcess \<Rightarrow> bool" where
  "unused fd p \<longleftrightarrow> fd \<notin> tcpFDs p \<and> fd \<notin> dnsFDs p \<and> fd \<notin> rendvFDs p \<and> fd \<notin> ownFDs p"

lemma closed_unused: "sockets_ok p \<Longrightarrow> fd \<notin> set (g_openFDs p) \<Longrightarrow> unused fd p"
  by (auto simp: sockets_ok_def unused_def)

lemma tcpFDs_add: "tcpFDs (p\<lparr>g_tcpProbeConnections := sm_upd fd v (g_tcpProbeConnections p)\<rparr>) =
    insert fd (tcpFDs p)"
  by (simp add: tcpFDs_def sm_upd_dom)

lemma dnsFDs_add: "dnsFDs (p\<lparr>g_dnsProbeConnections := sm_upd fd v (g_dnsProbeConnections p)\<rparr>) =
    insert fd (dnsFDs p)"
  by (simp add: dnsFDs_def sm_upd_dom)

lemma FDs_conns [frame_simps]:
  "rendvFDs (p\<lparr>g_tcpProbeConnections := cs\<rparr>) = rendvFDs p"
  "rendvFDs (p\<lparr>g_dnsProbeConnections := cs\<rparr>) = rendvFDs p"
  "ownFDs (p\<lparr>g_tcpProbeConnections := cs\<rparr>) = ownFDs p"
  "ownFDs (p\<lparr>g_dnsProbeConnections := cs\<rparr>) = ownFDs p"
  "infoFDs (p\<lparr>g_tcpProbeConnections := cs\<rparr>) = infoFDs p"
  "infoFDs (p\<lparr>g_dnsProbeConnections := cs\<rparr>) = infoFDs p"
  "nodeFDs (p\<lparr>g_tcpProbeConnections := cs\<rparr>) = nodeFDs p"
  "nodeFDs (p\<lparr>g_dnsProbeConnections := cs\<rparr>) = nodeFDs p"
  by (simp_all add: rendvFDs_def ownFDs_def infoFDs_def nodeFDs_def)

lemma sockets_ok_tcp:
  assumes "sockets_ok p" "fd \<in> set (g_openFDs p)" "unused fd p"
  shows "sockets_ok (p\<lparr>g_tcpProbeConnections := sm_upd fd v (g_tcpProbeConnections p),
    g_writeSet := (g_writeSet p)(fd := True)\<rparr>)"
  using assms unfolding sockets_ok_def unused_def pending_def
  by (auto simp: frame_simps tcpFDs_add)

lemma sockets_ok_dns:
  assumes "sockets_ok p" "fd \<in> set (g_openFDs p)" "unused fd p"
  shows "sockets_ok (p\<lparr>g_dnsProbeConnections := sm_upd fd v (g_dnsProbeConnections p)\<rparr>)"
  using assms unfolding sockets_ok_def unused_def pending_def
  by (auto simp: frame_simps dnsFDs_add)

lemma sys_socket_cases:
  assumes E: "env_ok E"
  obtains p1 where "sys_socket E p = (-1, p1)" "p1 = p\<lparr>g_sysCalls := Suc (g_sysCalls p)\<rparr>"
  | fd p1 where "sys_socket E p = (fd, p1)" "in_fd_set fd" "fd \<notin> set (g_openFDs p)"
      "p1 = p\<lparr>g_sysCalls := Suc (g_sysCalls p), g_openFDs := fd # g_openFDs p\<rparr>"
proof -
  let ?fd = "env_socket E (g_sysCalls p) (g_openFDs p)"
  have new: "?fd = -1 \<or> ?fd \<notin> set (g_openFDs p) \<and> in_fd_set ?fd" using E by (simp add: env_ok_def)
  show ?thesis
  proof (cases "?fd = -1")
    case True
    then have "sys_socket E p = (-1, p\<lparr>g_sysCalls := Suc (g_sysCalls p)\<rparr>)"
      by (simp add: sys_socket_def Let_def)
    then show ?thesis by (rule that(1)) (rule refl)
  next
    case False
    then have "sys_socket E p = (?fd, p\<lparr>g_sysCalls := Suc (g_sysCalls p),
        g_openFDs := ?fd # g_openFDs p\<rparr>)"
      by (simp add: sys_socket_def Let_def)
    then show ?thesis by (rule that(2)) (use new False in simp_all)
  qed
qed

text \<open>After a failure the descriptor is closed again: the state differs in a counter only.\<close>

lemma sys_close_fresh:
  "fd \<notin> set os \<Longrightarrow> sys_close fd (p\<lparr>g_openFDs := fd # os\<rparr>) = p\<lparr>g_openFDs := os\<rparr>"
  by (simp add: sys_close_def)

lemma step_tcp:
  assumes s: "step E False S p0 p" and fd: "fd \<notin> set (g_openFDs p)" "in_fd_set fd"
  shows "step E False S p0 (p\<lparr>g_openFDs := fd # g_openFDs p, g_sysCalls := k,
    g_tcpProbeConnections := sm_upd fd v (g_tcpProbeConnections p),
    g_writeSet := (g_writeSet p)(fd := True), g_maxFD := m\<rparr>)"
proof -
  let ?p = "p\<lparr>g_openFDs := fd # g_openFDs p, g_sysCalls := k\<rparr>"
  have so: "sockets_ok p" using s by (simp add: step_defs)
  have so1: "sockets_ok ?p"
    by (rule sockets_ok_opened [OF so fd(2)])
  have "unused fd p" by (rule closed_unused [OF so fd(1)])
  then have "unused fd ?p" by (simp add: unused_def frame_simps)
  from sockets_ok_tcp [OF so1 _ this, of v]
  have "sockets_ok (p\<lparr>g_openFDs := fd # g_openFDs p, g_sysCalls := k,
    g_tcpProbeConnections := sm_upd fd v (g_tcpProbeConnections p),
    g_writeSet := (g_writeSet p)(fd := True), g_maxFD := m\<rparr>)"
    by (simp add: frame_simps)
  moreover have "grows p0 (p\<lparr>g_openFDs := fd # g_openFDs p, g_sysCalls := k,
    g_tcpProbeConnections := sm_upd fd v (g_tcpProbeConnections p),
    g_writeSet := (g_writeSet p)(fd := True), g_maxFD := m\<rparr>)"
    using s by (auto simp: step_defs grows_def frame_simps tcpFDs_def sm_upd_dom)
  ultimately show ?thesis using s by (simp add: step_defs frame_simps)
qed

lemma step_dns:
  assumes s: "step E False S p0 p" and fd: "fd \<notin> set (g_openFDs p)" "in_fd_set fd"
  shows "step E False S p0 (p\<lparr>g_openFDs := fd # g_openFDs p, g_sysCalls := k,
    g_dnsProbeConnections := sm_upd fd v (g_dnsProbeConnections p),
    g_readSet := rs, g_maxFD := m\<rparr>)"
proof -
  let ?p = "p\<lparr>g_openFDs := fd # g_openFDs p, g_sysCalls := k\<rparr>"
  have so: "sockets_ok p" using s by (simp add: step_defs)
  have so1: "sockets_ok ?p"
    by (rule sockets_ok_opened [OF so fd(2)])
  have "unused fd p" by (rule closed_unused [OF so fd(1)])
  then have "unused fd ?p" by (simp add: unused_def frame_simps)
  from sockets_ok_dns [OF so1 _ this, of v]
  have "sockets_ok (p\<lparr>g_openFDs := fd # g_openFDs p, g_sysCalls := k,
    g_dnsProbeConnections := sm_upd fd v (g_dnsProbeConnections p),
    g_readSet := rs, g_maxFD := m\<rparr>)"
    by (simp add: frame_simps)
  moreover have "grows p0 (p\<lparr>g_openFDs := fd # g_openFDs p, g_sysCalls := k,
    g_dnsProbeConnections := sm_upd fd v (g_dnsProbeConnections p),
    g_readSet := rs, g_maxFD := m\<rparr>)"
    using s by (auto simp: step_defs grows_def frame_simps dnsFDs_def sm_upd_dom)
  ultimately show ?thesis using s by (simp add: step_defs frame_simps)
qed

text \<open>The postcondition the operations on sockets and caches share: no object changes.\<close>

definition quiet :: "env \<Rightarrow> bool \<Rightarrow> u64 set \<Rightarrow> MeridianProcess \<Rightarrow> MeridianProcess
    \<Rightarrow> MeridianProcess \<Rightarrow> bool" where
  "quiet E c S p0 p p' \<longleftrightarrow> step E c S p0 p' \<and> (\<forall>y. deref y p' = deref y p) \<and>
     g_rings p' = g_rings p"

lemma fresh_conn:
  assumes "sockets_ok p" "fd \<notin> set (g_openFDs p)"
  shows "sm_find (g_tcpProbeConnections p) fd = None" "sm_find (g_dnsProbeConnections p) fd = None"
  using closed_unused [OF assms] by (auto simp: unused_def tcpFDs_def dnsFDs_def map_of_eq_None_iff)

lemma addTCPConnection_wp:
  assumes E: "env_ok E" and s: "step E False S p0 p"
  shows "wp (addTCPConnection E x n p) (\<lambda>(fd, p'). quiet E False S p0 p p')"
proof (rule sys_socket_cases [OF E, of p])
  fix p1 assume "sys_socket E p = (-1, p1)" "p1 = p\<lparr>g_sysCalls := Suc (g_sysCalls p)\<rparr>"
  then show ?thesis using s by (simp add: addTCPConnection_def wp_simps quiet_def frame_simps)
next
  fix fd p1
  assume fd: "sys_socket E p = (fd, p1)" "in_fd_set fd" "fd \<notin> set (g_openFDs p)"
    "p1 = p\<lparr>g_sysCalls := Suc (g_sysCalls p), g_openFDs := fd # g_openFDs p\<rparr>"
  have so: "sockets_ok p" using s by (simp add: step_defs)
  show ?thesis
    using s step_tcp [OF s fd(3,2), where v = "(x, n)"] fresh_conn(1) [OF so fd(3)] fd(2,3)
      in_fd_set_neq [OF fd(2)]
    by (simp add: addTCPConnection_def fd(1,4) wp_simps quiet_def frame_simps sys_call_def
        sys_close_def set_write_def Let_def)
qed

lemma addDNSConnection_wp:
  assumes E: "env_ok E" and s: "step E False S p0 p"
  shows "wp (addDNSConnection E x n p) (\<lambda>(fd, p'). quiet E False S p0 p p')"
proof (rule sys_socket_cases [OF E, of p])
  fix p1 assume "sys_socket E p = (-1, p1)" "p1 = p\<lparr>g_sysCalls := Suc (g_sysCalls p)\<rparr>"
  then show ?thesis using s by (simp add: addDNSConnection_def wp_simps quiet_def frame_simps)
next
  fix fd p1
  assume fd: "sys_socket E p = (fd, p1)" "in_fd_set fd" "fd \<notin> set (g_openFDs p)"
    "p1 = p\<lparr>g_sysCalls := Suc (g_sysCalls p), g_openFDs := fd # g_openFDs p\<rparr>"
  have so: "sockets_ok p" using s by (simp add: step_defs)
  show ?thesis
    using s step_dns [OF s fd(3,2), where v = "(x, n)"] fresh_conn(2) [OF so fd(3)] fd(2,3)
      in_fd_set_neq [OF fd(2)]
    by (simp add: addDNSConnection_def fd(1,4) wp_simps quiet_def frame_simps sys_call_def
        sys_close_def set_read_def Let_def)
qed

lemma sendICMPProbe_wp:
  assumes s: "step E c S p0 p"
  shows "quiet E c S p0 p (snd (sendICMPProbe E' x a p))"
proof -
  obtain r p1 where r: "c_rand E' p = (r, p1)" by fastforce
  then have p1: "p1 = p\<lparr>g_randDraws := Suc (g_randDraws p)\<rparr>" using c_rand_upd [of E' p] by simp
  have add: "quiet E c S p0 q (snd (addICMPOutPacket m q))" if "step E c S p0 q" for q m
    using that main_in_fd_set(2) [of q] by (auto simp: quiet_def step_defs addICMPOutPacket_def set_write_def fd_check_def
        fds_ok_def frame_simps sockets_ok_add)
  have "step E c S p0 (p1\<lparr>g_icmpSeq := g_icmpSeq p1 + 1\<rparr>)" using s by (simp add: p1 frame_simps)
  from add [OF this] show ?thesis
    by (simp add: sendICMPProbe_def r Let_def quiet_def p1 frame_simps)
qed

end
