(* ===== verification/Engine_Probes.thy ===== *)
theory Engine_Probes
  imports Engine_Sockets
begin

text \<open>
  The handlers of the measuring queries (theory \<open>Probe_Queries\<close>): each returns, keeps the
  invariant and changes no object but its own and those it starts.
\<close>

lemma sm_upd_twice [simp]: "sm_upd k v (sm_upd k w m) = sm_upd k v m"
  by (induction k w m rule: sm_upd.induct) auto

lemma assignQ_twice [simp]: "assignQ x q (assignQ x q' p) = assignQ x q p"
  by (simp add: assignQ_def)

text \<open>The objects other than \<open>x\<close> that were there are there unchanged.\<close>

definition keeps_others :: "u64 \<Rightarrow> MeridianProcess \<Rightarrow> MeridianProcess \<Rightarrow> bool" where
  "keeps_others x p p' \<longleftrightarrow> (\<forall>y. y \<noteq> x \<longrightarrow> deref y p \<noteq> None \<longrightarrow> deref y p' = deref y p)"

definition keeps_all :: "MeridianProcess \<Rightarrow> MeridianProcess \<Rightarrow> bool" where
  "keeps_all p p' \<longleftrightarrow> (\<forall>y. deref y p \<noteq> None \<longrightarrow> deref y p' = deref y p)"

lemma keeps_allD: "keeps_all p p' \<Longrightarrow> deref y p = Some q \<Longrightarrow> deref y p' = Some q"
  by (simp add: keeps_all_def)

lemma keeps_all_refl [simp]: "keeps_all p p"
  by (simp add: keeps_all_def)

lemma keeps_all_trans: "keeps_all p p' \<Longrightarrow> keeps_all p' p'' \<Longrightarrow> keeps_all p p''"
  unfolding keeps_all_def by metis

subsection \<open>Constructors\<close>

text \<open>A constructor draws an id and reads the clock.\<close>

definition constructed :: "MeridianProcess \<Rightarrow> MeridianProcess \<Rightarrow> bool" where
  "constructed p p' \<longleftrightarrow> (\<exists>a b. p' = p\<lparr>g_randDraws := a, g_clockReads := b\<rparr>)"

lemma constructed_step:
  assumes "constructed p p'"
  shows "step E c S p0 p' = step E c S p0 p" "deref x p' = deref x p" "g_rings p' = g_rings p"
  using assms by (auto simp: constructed_def frame_simps)

lemma id_and_timeout:
  obtains qid p1 tv p2 where "getNewQueryID E p = (qid, p1)" "computeTimeout E t p1 = (tv, p2)"
    "constructed p p2"
proof -
  obtain qid p1 where q: "getNewQueryID E p = (qid, p1)" by fastforce
  obtain n where p1: "p1 = p\<lparr>g_randDraws := n\<rparr>" using getNewQueryID_upd [of E p] q by auto
  obtain tv p2 where t: "computeTimeout E t p1 = (tv, p2)" by fastforce
  have "p2 = p\<lparr>g_randDraws := n, g_clockReads := Suc (g_clockReads p1)\<rparr>"
    using computeTimeout_upd [of E t p1] t p1 by simp
  then have "constructed p p2" unfolding constructed_def by blast
  with q t that show ?thesis by blast
qed

lemma newReqProbe_form:
  obtains qid q p1 where "newReqProbe E k src ns p = ((qid, ReqProbeQ q), p1)"
    "rq_subscribers q = []" "constructed p p1"
  by (rule id_and_timeout [of E p "2 * MAX_RTT_MS * MICRO_IN_MILLI"])
     (auto simp: newReqProbe_def)

lemma newProbeQuery_form:
  obtains qid q p1 where "newProbeQuery E k n p = ((qid, ProbeQ q), p1)"
    "pq_subscribers q = []" "constructed p p1"
  by (rule id_and_timeout [of E p "MAX_RTT_MS * MICRO_IN_MILLI"])
     (auto simp: newProbeQuery_def)

lemma newAddNode_form:
  obtains qid q p1 where "newAddNode E n p = ((qid, AddNodeQ q), p1)"
    "an_subscribers q = []" "constructed p p1"
  by (rule id_and_timeout [of E p "MAX_RTT_MS * MICRO_IN_MILLI"])
     (auto simp: newAddNode_def)

lemma newGossip_form:
  obtains qid q p1 where "newGossip E n p = ((qid, GossipQ q), p1)" "constructed p p1"
  by (rule id_and_timeout [of E p "MAX_RTT_MS * MICRO_IN_MILLI"])
     (auto simp: newGossip_def)

subsection \<open>Starting a query for another one\<close>

text \<open>
  \<^verbatim>\<open>insertNewQuery\<close>, \<^verbatim>\<open>subscribeLatency\<close>, \<^verbatim>\<open>init\<close>: the common form of starting a query. The
  initialisation is only run on a new object.
\<close>

lemma start_wp:
  assumes s: "step E c S p0 p" and ok: "query_ok q" and none: "subscribers q = []"
    and c: "c \<Longrightarrow> \<not> forwards q" and S: "c \<Longrightarrow> a \<in> S" and anch: "anchored a p"
    and init: "\<And>p1. step E c S p0 p1 \<Longrightarrow> deref x p1 = Some (subscribeLatency a q) \<Longrightarrow>
      deref x p = None \<Longrightarrow> (\<forall>y. y \<noteq> x \<longrightarrow> deref y p1 = deref y p) \<Longrightarrow> wp (init p1) Q"
    and fail: "deref x p \<noteq> None \<Longrightarrow> wp (fails p) Q"
  shows "wp (case tableInsert x q p of (ret, p) \<Rightarrow> if ret = -1 then fails p
      else Option.bind (modifyQ x (subscribeLatency a) p) init) Q"
proof (cases "deref x p = None")
  case False
  then show ?thesis using fail by (simp add: tableInsert_cases [OF step_ok [OF s]])
next
  case True
  let ?p = "p\<lparr>g_queryTable := snd (insertNewQuery x (timeOut q) (g_queryTable p))\<rparr>"
  have e: "tableInsert x q p = (0, assignQ x q ?p)"
    using True by (simp add: tableInsert_cases [OF step_ok [OF s]])
  have "step E c S p0 (assignQ x (subscribeLatency a q) ?p)"
    using set_subscribers_subscribe [of a q] none c S anch ok
    by (intro step_insert [OF s True, of _ "{a}" a]) auto
  moreover have "deref x (assignQ x (subscribeLatency a q) ?p) = Some (subscribeLatency a q)"
    "\<forall>y. y \<noteq> x \<longrightarrow> deref y (assignQ x (subscribeLatency a q) ?p) = deref y p"
    by (simp_all add: frame_simps)
  ultimately have "wp (init (assignQ x (subscribeLatency a q) ?p)) Q" using init True by blast
  then show ?thesis by (simp add: e wp_simps frame_simps)
qed

subsection \<open>ReqProbe\<close>

lemma this_simps [wp_simps]:
  "deref x p = Some (ReqProbeQ rq) \<Longrightarrow> this_ReqProbe x p = Some rq"
  "deref x p = Some (ProbeQ pq) \<Longrightarrow> this_Probe x p = Some pq"
  "deref x p = Some (HandleReqQ hr) \<Longrightarrow> this_HandleReq x p = Some hr"
  "deref x p = Some (AddNodeQ an) \<Longrightarrow> this_AddNode x p = Some an"
  "deref x p = Some (GossipQ gq) \<Longrightarrow> this_Gossip x p = Some gq"
  by (simp_all add: this_ReqProbe_def this_Probe_def this_HandleReq_def this_AddNode_def
    this_Gossip_def)

lemma ReqProbe_init_wp:
  assumes "step E c S p0 p" "deref x p = Some (ReqProbeQ q)"
  shows "wp (ReqProbe_init E x p) (\<lambda>(r, p'). step E c S p0 p' \<and> (\<forall>y. deref y p' = deref y p))"
  using step_sendPacket [OF assms(1)]
  by (simp add: ReqProbe_init_def assms(2) wp_simps Let_def case_prod_beta frame_simps)

lemma startReqProbe_wp:
  assumes s: "step E c S p0 p" and a: "c \<Longrightarrow> a \<in> S" "anchored a p"
  shows "wp (startReqProbe E k src ns a p) (\<lambda>p'. step E c S p0 p' \<and> keeps_all p p')"
proof -
  obtain x q p1 where n: "newReqProbe E k src ns p = ((x, ReqProbeQ q), p1)"
    "rq_subscribers q = []" "constructed p p1" by (rule newReqProbe_form)
  have s1: "step E c S p0 p1" using s by (simp add: constructed_step [OF n(3)])
  have a1: "anchored a p1"
    using a(2) by (simp add: anchored_def subs_def constructed_step [OF n(3)])
  have "wp (case tableInsert x (ReqProbeQ q) p1 of (ret, p) \<Rightarrow> if ret = -1 then Some p
      else Option.bind (modifyQ x (subscribeLatency a) p)
        (\<lambda>p. Option.bind (ReqProbe_init E x p) (\<lambda>(_, p). Some p)))
    (\<lambda>p'. step E c S p0 p' \<and> keeps_all p p')"
  proof (rule start_wp [OF s1 _ _ _ a(1) a1])
    fix p2 assume p2: "step E c S p0 p2" "deref x p2 = Some (subscribeLatency a (ReqProbeQ q))"
      "deref x p1 = None" "\<forall>y. y \<noteq> x \<longrightarrow> deref y p2 = deref y p1"
    have q2: "deref x p2 = Some (ReqProbeQ (q\<lparr>rq_subscribers := rq_subscribers q @ [a]\<rparr>))"
      using p2(2) by simp
    have init: "wp (ReqProbe_init E x p2)
        (\<lambda>(r, p'). step E c S p0 p' \<and> (\<forall>y. deref y p' = deref y p2))"
      by (rule ReqProbe_init_wp [OF p2(1) q2])
    have keep: "keeps_all p p'" if "\<forall>y. deref y p' = deref y p2" for p'
      using that p2(3,4) unfolding keeps_all_def constructed_step [OF n(3)] by metis
    show "wp (Option.bind (ReqProbe_init E x p2) (\<lambda>(_, p). Some p))
        (\<lambda>p'. step E c S p0 p' \<and> keeps_all p p')"
      unfolding wp_simps by (rule wp_conseq [OF init]) (auto simp: wp_simps keep)
  qed (use s1 n in \<open>simp_all add: wp_simps keeps_all_def constructed_step [OF n(3)]\<close>)
  then show ?thesis by (simp add: startReqProbe_def n(1))
qed

text \<open>The notifier of a handler: it may be called with any query of a set closed under \<open>subs\<close>.\<close>

definition closed :: "u64 set \<Rightarrow> MeridianProcess \<Rightarrow> bool" where
  "closed R p \<longleftrightarrow> (\<forall>(x, s) \<in> subs p. x \<in> R \<longrightarrow> s \<in> R)"

definition notifier_ok :: "env \<Rightarrow> nat \<Rightarrow> notifier \<Rightarrow> bool" where
  "notifier_ok E n notify \<longleftrightarrow> (\<forall>R s lats p. proc_ok E p \<longrightarrow> closed R p \<longrightarrow> s \<in> R \<longrightarrow>
     card (R \<inter> fwd p) < n \<longrightarrow> wp (notify s lats p) (\<lambda>(r, p'). step E True R p p'))"

lemma closed_reach: "closed ((subs p)\<^sup>* `` A) p"
  by (auto simp: closed_def intro: rtrancl_into_rtrancl)

lemma reach_closed: "closed R p \<Longrightarrow> A \<subseteq> R \<Longrightarrow> (subs p)\<^sup>* `` A \<subseteq> R"
proof
  fix y assume R: "closed R p" "A \<subseteq> R" and "y \<in> (subs p)\<^sup>* `` A"
  then obtain x where x: "x \<in> R" "(x, y) \<in> (subs p)\<^sup>*" by auto
  from x(2,1) show "y \<in> R" by induction (use R(1) in \<open>auto simp: closed_def\<close>)
qed

lemma closed_step: "step E True R p p' \<Longrightarrow> closed R p \<Longrightarrow> closed R p'"
  by (auto simp: closed_def step_def calm_def)

lemma proc_ok_acyclic: "proc_ok E p \<Longrightarrow> acyclic (subs p)"
  by (simp add: proc_ok_def objects_ok_def)

text \<open>
  Telling all subscribers: the running query \<open>x\<close> is not among those a subscriber can reach, so it
  is still there afterwards; and every subscriber reaches fewer forwarding queries than \<open>x\<close>.
\<close>

lemma notifyAll_wp:
  assumes N: "notifier_ok E n notify" and "proc_ok E p" "deref x p = Some q"
    "set ss \<subseteq> set (subscribers q)" "closed R p" "x \<in> R"
    "if forwards q then card (R \<inter> fwd p) \<le> n else card (R \<inter> fwd p) < n"
  shows "wp (notifyAll notify ss lats p) (\<lambda>p'. step E True R p p' \<and> deref x p' = Some q)"
  using assms(2-)
proof (induction ss arbitrary: p)
  case Nil
  then show ?case by (simp add: wp_simps step_refl)
next
  case (Cons s ss)
  define R' where "R' = (subs p)\<^sup>* `` {s}"
  have edge: "(x, s) \<in> subs p" using Cons.prems by (auto simp: subs_def)
  have x: "x \<notin> R'"
    using proc_ok_acyclic [OF Cons.prems(1)] rtrancl_into_trancl2 [OF edge, of x]
    by (auto simp: R'_def acyclic_def)
  have "s \<in> R" using edge Cons.prems(4,5) by (auto simp: closed_def)
  then have R': "closed R' p" "s \<in> R'" "R' \<subseteq> R"
    using closed_reach reach_closed [OF Cons.prems(4), of "{s}"] by (simp_all add: R'_def)
  have card: "card (R' \<inter> fwd p) < n"
  proof (cases "forwards q")
    case True
    have "x \<in> R \<inter> fwd p" using True Cons.prems by (auto simp: fwd_def)
    moreover have "R' \<inter> fwd p \<subseteq> R \<inter> fwd p - {x}" using R' x by auto
    ultimately have "card (R' \<inter> fwd p) < card (R \<inter> fwd p)"
      by (intro psubset_card_mono) auto
    then show ?thesis using True Cons.prems by simp
  next
    case False
    have "card (R' \<inter> fwd p) \<le> card (R \<inter> fwd p)" using R' by (intro card_mono) auto
    then show ?thesis using False Cons.prems by simp
  qed
  have "wp (notify s lats p) (\<lambda>(r, p'). step E True R' p p')"
    using N Cons.prems(1) R'(1,2) card by (simp add: notifier_ok_def)
  then obtain r p1 where p1: "notify s lats p = Some (r, p1)" "step E True R' p p1"
    by (auto elim: wpE)
  have s1: "step E True R p p1" using step_mono [OF p1(2) R'(3)] by simp
  have d1: "deref x p1 = Some q" by (rule step_frame [OF p1(2) x Cons.prems(2)])
  have c1: "closed R p1" by (rule closed_step [OF s1 Cons.prems(4)])
  have "card (R \<inter> fwd p1) \<le> card (R \<inter> fwd p)"
    using step_fwd [OF s1] by (intro card_mono) auto
  then have "if forwards q then card (R \<inter> fwd p1) \<le> n else card (R \<inter> fwd p1) < n"
    using Cons.prems(6) by (auto split: if_splits)
  then have "wp (notifyAll notify ss lats p1) (\<lambda>p'. step E True R p1 p' \<and> deref x p' = Some q)"
    using Cons.IH [OF step_ok [OF s1] d1 _ c1 Cons.prems(5)] Cons.prems(3) by simp
  then have "wp (notifyAll notify ss lats p1) (\<lambda>p'. step E True R p p' \<and> deref x p' = Some q)"
    by (rule wp_conseq) (use step_trans [OF s1] in blast)
  then show ?case by (simp add: wp_simps p1(1))
qed

end
