(* ===== verification/Engine_Measure.thy ===== *)
theory Engine_Measure
  imports Engine_Probes
begin

text \<open>
  The handlers of the measuring queries (theory \<open>Probe_Queries\<close>) return, keep the invariant and
  change no object but their own and those they start.
\<close>

lemma step_dead: "step E c S p0 p \<Longrightarrow> deref x p = None \<Longrightarrow> x \<in> S \<or> deref x p0 = None"
  unfolding step_def weak_step_def by fastforce

lemma step_query_ok: "step E c S p0 p \<Longrightarrow> deref x p = Some q \<Longrightarrow> query_ok q"
  by (auto simp: step_defs objects_ok_def)

text \<open>A handler run for \<open>x\<close>, seen from the state \<open>p0\<close>.\<close>

definition runs :: "env \<Rightarrow> bool \<Rightarrow> u64 set \<Rightarrow> MeridianProcess \<Rightarrow> u64 \<Rightarrow> (int \<times> MeridianProcess) option
    \<Rightarrow> bool" where
  "runs E c S p0 x m \<longleftrightarrow> wp m (\<lambda>(r, p'). step E c S p0 p' \<and> deref x p' \<noteq> None)"

lemma runs_Some: "runs E c S p0 x (Some (r, p)) \<longleftrightarrow> step E c S p0 p \<and> deref x p \<noteq> None"
  by (simp add: runs_def wp_simps)

lemma runs_finish:
  assumes "step E c S p0 p" "x \<in> S \<or> deref x p0 = None" "deref x p = Some q"
  shows "runs E c S p0 x (Option.bind (modifyQ x finish p) (\<lambda>p. Some (r, p)))"
  using step_assignQ [OF assms same_subs_finish] step_query_ok [OF assms(1,3)]
  by (auto simp: runs_def wp_simps frame_simps assms(3))

subsection \<open>Probes\<close>

lemma ProbeQuery_init_wp:
  assumes E: "env_ok E" and s: "step E False S p0 p" and x: "x \<in> S \<or> deref x p0 = None"
    and q: "deref x p = Some (ProbeQ q)"
  shows "wp (ProbeQuery_init E x p) (\<lambda>(r, p'). step E False S p0 p' \<and>
    (\<forall>y. y \<noteq> x \<longrightarrow> deref y p' = deref y p) \<and> deref x p' \<noteq> None)" (is "wp _ ?Q")
proof -
  obtain now p1 where g: "gettimeofday E p = (now, p1)" by fastforce
  then have p1: "p1 = p\<lparr>g_clockReads := Suc (g_clockReads p)\<rparr>"
    using gettimeofday_upd [of E p] by simp
  define q2 where "q2 = q\<lparr>pq_startTime := now\<rparr>"
  define p2 where "p2 = assignQ x (ProbeQ q2) p1"
  have q1: "deref x p1 = Some (ProbeQ q)" by (simp add: p1 q frame_simps)
  have m: "modifyQ x (setStartTime now) p1 = Some p2"
    by (simp add: modifyQ_def q1 p2_def q2_def)
  have s2: "step E False S p0 p2"
    unfolding p2_def
    by (rule step_assignQ [OF _ x q1]) (use s in \<open>simp_all add: p1 q2_def same_subs_def frame_simps\<close>)
  have d2: "deref y p2 = (if y = x then Some (ProbeQ q2) else deref y p)" for y
    by (simp add: p2_def p1 frame_simps)
  then have t: "this_Probe x p2 = Some q2" by (simp add: this_Probe_def)
  have sock: "wp (Option.bind (modifyQ x (setSockFD fd) p') (\<lambda>p. Some (0, p))) ?Q"
    if "quiet E False S p0 p2 p'" for fd p'
  proof -
    have d: "deref x p' = Some (ProbeQ q2)" "\<And>y. deref y p' = deref y p2"
      using that d2 by (simp_all add: quiet_def)
    have "step E False S p0 (assignQ x (setSockFD fd (ProbeQ q2)) p')"
      by (rule step_assignQ [OF _ x d(1)]) (use that in \<open>simp_all add: quiet_def same_subs_def\<close>)
    then show ?thesis
      by (simp add: wp_simps d2 frame_simps d del: setSockFD.simps)
  qed
  have send: "?Q (r, p')" if "quiet E False S p0 p2 p'" for r p'
    using that d2 by (simp add: quiet_def)
  have "quiet E False S p0 p2 (snd (sendPacket f d p2))" for f d
    using step_sendPacket [OF s2] sendPacket_upd [of f d p2]
    by (auto simp: quiet_def frame_simps)
  then show ?thesis
    using wp_conseq [OF addTCPConnection_wp [OF E s2, of x "pq_remoteNode q2"]]
      wp_conseq [OF addDNSConnection_wp [OF E s2, of x "pq_remoteNode q2"]]
      sendICMPProbe_wp [OF s2, of E x "addr (pq_remoteNode q2)"] sock send
    by (cases "pq_kind q")
       (simp_all add: ProbeQuery_init_def this_Probe_def q wp_simps ProbeQueryTCP_init_def
        ProbeQueryDNS_init_def ProbeQueryPing_init_def ProbeQueryICMP_init_def g m t [unfolded this_Probe_def]
        case_prod_beta)
qed

lemma startProbe_wp:
  assumes E: "env_ok E" and s: "step E False S p0 p" and a: "anchored a p"
  shows "wp (startProbe E k n a p) (\<lambda>p'. step E False S p0 p' \<and> keeps_all p p')"
proof -
  obtain x q p1 where n: "newProbeQuery E k n p = ((x, ProbeQ q), p1)"
    "pq_subscribers q = []" "constructed p p1" by (rule newProbeQuery_form)
  have s1: "step E False S p0 p1" using s by (simp add: constructed_step [OF n(3)])
  have a1: "anchored a p1"
    using a by (simp add: anchored_def subs_def constructed_step [OF n(3)])
  have "wp (case tableInsert x (ProbeQ q) p1 of (ret, p) \<Rightarrow> if ret = -1 then Some p
      else Option.bind (modifyQ x (subscribeLatency a) p)
        (\<lambda>p. Option.bind (ProbeQuery_init E x p) (\<lambda>(_, p). Some p)))
    (\<lambda>p'. step E False S p0 p' \<and> keeps_all p p')"
  proof (rule start_wp [OF s1 _ _ _ _ a1])
    fix p2 assume p2: "step E False S p0 p2" "deref x p2 = Some (subscribeLatency a (ProbeQ q))"
      "deref x p1 = None" "\<forall>y. y \<noteq> x \<longrightarrow> deref y p2 = deref y p1"
    have q2: "deref x p2 = Some (ProbeQ (q\<lparr>pq_subscribers := pq_subscribers q @ [a]\<rparr>))"
      using p2(2) by simp
    have init: "wp (ProbeQuery_init E x p2) (\<lambda>(r, p'). step E False S p0 p' \<and>
        (\<forall>y. y \<noteq> x \<longrightarrow> deref y p' = deref y p2) \<and> deref x p' \<noteq> None)"
      by (rule ProbeQuery_init_wp [OF E p2(1) step_dead [OF s1 p2(3)] q2])
    have keep: "keeps_all p p'" if "\<forall>y. y \<noteq> x \<longrightarrow> deref y p' = deref y p2" for p'
      using that p2(3,4) unfolding keeps_all_def constructed_step [OF n(3)] by metis
    show "wp (Option.bind (ProbeQuery_init E x p2) (\<lambda>(_, p). Some p))
        (\<lambda>p'. step E False S p0 p' \<and> keeps_all p p')"
      unfolding wp_simps by (rule wp_conseq [OF init]) (auto simp: wp_simps keep)
  qed (use s1 n in \<open>simp_all add: wp_simps keeps_all_def constructed_step [OF n(3)]\<close>)
  then show ?thesis by (simp add: startProbe_def n(1))
qed

lemma ProbeQuery_handleLatency_wp:
  assumes N: "notifier_ok E n notify" and pok: "proc_ok E p" and q: "deref x p = Some (ProbeQ q)"
    and R: "closed R p" "x \<in> R" "card (R \<inter> fwd p) \<le> n"
  shows "runs E True R p x (ProbeQuery_handleLatency E notify x lats p)"
proof -
  have fail: "runs E True R p x (Some (-1, p))"
    using pok q by (simp add: runs_Some step_refl)
  show ?thesis
  proof (cases "\<exists>l. lats = [l] \<and> addr l = addr (pq_remoteNode q)")
    case False
    then show ?thesis
      using fail q by (auto simp: ProbeQuery_handleLatency_def this_Probe_def split: list.split)
  next
    case True
    then obtain l where l: "lats = [l]" "addr l = addr (pq_remoteNode q)" by blast
    obtain us p1 where us: "elapsedUS E (pq_startTime q) p = (us, p1)" by fastforce
    then have p1: "p1 = p\<lparr>g_clockReads := Suc (g_clockReads p)\<rparr>"
      using elapsedUS_upd [of E "pq_startTime q" p] by simp
    have s1: "step E True R p p1" using pok by (simp add: p1 frame_simps step_refl)
    have d1: "deref x p1 = Some (ProbeQ q)" by (simp add: p1 q frame_simps)
    have "fwd p1 = fwd p" "subs p1 = subs p" by (simp_all add: p1 frame_simps)
    then have R1: "closed R p1" "card (R \<inter> fwd p1) \<le> n" using R by (simp_all add: closed_def)
    have "wp (notifyAll notify (pq_subscribers q) [nodeLat (pq_remoteNode q) us] p1)
        (\<lambda>p'. step E True R p1 p' \<and> deref x p' = Some (ProbeQ q))"
      by (rule notifyAll_wp [OF N step_ok [OF s1] d1 _ R1(1) R(2)]) (use R1 in simp_all)
    then obtain p2 where p2: "notifyAll notify (pq_subscribers q) [nodeLat (pq_remoteNode q) us] p1
        = Some p2" "step E True R p1 p2" "deref x p2 = Some (ProbeQ q)"
      by (auto elim: wpE)
    have s2: "step E True R p p2" using step_trans [OF s1 p2(2)] by simp
    obtain r p3 where p3: "cacheInsert E (pq_kind q) (pq_remoteNode q) us p2 = Some (r, p3)"
      "step E True R p p3" "\<forall>y. deref y p3 = deref y p2"
      by (rule wpE [OF cacheInsert_wp [OF s2, of "pq_kind q" "pq_remoteNode q" us]]) auto
    have "runs E True R p x (Option.bind (modifyQ x finish p3) (\<lambda>p. Some (0, p)))"
      using R(2) p2(3) p3 by (intro runs_finish [OF p3(2)]) auto
    then show ?thesis
      using l by (simp add: ProbeQuery_handleLatency_def this_Probe_def q us p2(1) p3(1))
  qed
qed

lemma ReqProbe_handleEvent_wp:
  assumes N: "notifier_ok E n notify" and pok: "proc_ok E p" and q: "deref x p = Some (ReqProbeQ q)"
    and R: "closed R p" "x \<in> R" "card (R \<inter> fwd p) < n" and b: "buf \<noteq> []"
  shows "runs E True R p x (ReqProbe_handleEvent E notify x remote buf p)"
proof -
  have fail: "runs E True R p x (Some (-1, p))"
    using pok q by (simp add: runs_Some step_refl)
  have all: "runs E True R p x (Option.bind (notifyAll notify (rq_subscribers q) lats p)
      (\<lambda>p. Option.bind (modifyQ x finish p) (\<lambda>p. Some (0, p))))" for lats
  proof -
    have "wp (notifyAll notify (rq_subscribers q) lats p)
        (\<lambda>p'. step E True R p p' \<and> deref x p' = Some (ReqProbeQ q))"
      by (rule notifyAll_wp [OF N pok q _ R(1,2)]) (use R in simp_all)
    then obtain p2 where p2: "notifyAll notify (rq_subscribers q) lats p = Some p2"
        "step E True R p p2" "deref x p2 = Some (ReqProbeQ q)"
      by (auto elim: wpE)
    then show ?thesis using runs_finish [OF p2(2) _ p2(3), of 0] R(2) by simp
  qed
  obtain c cs where "buf = c # cs" using b by (cases buf) auto
  then show ?thesis
    using fail all by (simp add: ReqProbe_handleEvent_def this_ReqProbe_def q firstByte_def
        split: option.split)
qed

text \<open>Timeouts: a request also forgets the node that did not answer, a probe its socket.\<close>

lemma eraseNode_wp:
  assumes "step E c S p0 p"
  shows "wp (eraseNode (env_fpu E) n (g_rings p)) (\<lambda>(r, rs). step E c S p0 (p\<lparr>g_rings := rs\<rparr>))"
proof -
  obtain ret rs' where "eraseNode (env_fpu E) n (g_rings p) = Some (ret, rs')"
    "ring_wf (env_fpu E) rs'"
    by (rule eraseNode_wf [OF step_ring_wf [OF assms], of n])
  then show ?thesis using step_rings [OF assms] by (simp add: wp_simps)
qed

lemma ReqProbe_handleTimeout_wp:
  assumes "proc_ok E p" "deref x p = Some (ReqProbeQ q)"
  shows "runs E True {x} p x (ReqProbe_handleTimeout E x p)"
proof -
  have s: "step E True {x} p p" by (rule step_refl [OF assms(1)])
  obtain r rs where rs: "eraseNode (env_fpu E) (ident (rq_srcNode q)) (g_rings p) = Some (r, rs)"
    "step E True {x} p (p\<lparr>g_rings := rs\<rparr>)"
    by (rule wpE [OF eraseNode_wp [OF s, of "ident (rq_srcNode q)"]]) auto
  then show ?thesis
    using runs_finish [OF rs(2), of x _ 0] assms(2)
    by (simp add: ReqProbe_handleTimeout_def this_ReqProbe_def frame_simps)
qed

subsection \<open>Measuring a list of targets\<close>

text \<open>The query \<open>q\<close> with other latencies recorded.\<close>

definition recorded :: "query \<Rightarrow> query \<Rightarrow> bool" where
  "recorded q q' \<longleftrightarrow> (case q of
       HandleReqQ r \<Rightarrow> \<exists>m. q' = HandleReqQ (r\<lparr>hr_remoteLatencies := m\<rparr>)
     | HandleClosestQ r \<Rightarrow> \<exists>m. q' = HandleClosestQ (r\<lparr>hc_remoteLatencies := m\<rparr>)
     | HandleMCQ r \<Rightarrow> \<exists>m. q' = HandleMCQ (r\<lparr>mc_remoteLatencies := m\<rparr>)
     | _ \<Rightarrow> q' = q)"

lemma recorded_refl: "recorded q q"
proof -
  have "\<exists>m. r = r\<lparr>hr_remoteLatencies := m\<rparr>" for r
    by (rule exI [of _ "hr_remoteLatencies r"]) simp
  moreover have "\<exists>m. h = h\<lparr>hc_remoteLatencies := m\<rparr>" for h
    by (rule exI [of _ "hc_remoteLatencies h"]) simp
  moreover have "\<exists>m. k = k\<lparr>mc_remoteLatencies := m\<rparr>" for k
    by (rule exI [of _ "mc_remoteLatencies k"]) simp
  ultimately show ?thesis by (cases q) (simp_all add: recorded_def)
qed

lemma recorded_record: "recorded q (record_latency n l q)"
  by (cases q) (auto simp: recorded_def)

lemma recorded_trans: "recorded q q' \<Longrightarrow> recorded q' q'' \<Longrightarrow> recorded q q''"
  by (cases q) (auto simp: recorded_def)

lemma recorded_keeps:
  "recorded q q' \<Longrightarrow> targets q' = targets q \<and> subscribers q' = subscribers q"
  by (cases q) (auto simp: recorded_def)

lemma probeTargets_wp:
  assumes E: "env_ok E" and "step E False S p0 p" and a: "a \<in> S" and "deref a p = Some q"
    and "subscribers q = []" "set ns \<subseteq> targets q"
  shows "wp (probeTargets E k a ns p) (\<lambda>p'. step E False S p0 p' \<and>
    (\<exists>q'. deref a p' = Some q' \<and> recorded q q'))"
  using assms(2,4-)
proof (induction ns arbitrary: p q)
  case Nil
  then show ?case using recorded_refl by (auto simp: wp_simps)
next
  case (Cons n ns)
  obtain found p1 where f: "cacheGetLatency E k n p = (found, p1)" by fastforce
  have s1: "step E False S p0 p1" and d1: "deref y p1 = deref y p" for y
    using Cons.prems(1) step_prims(7) [of E False S p0 E k n p] deref_prims(7) [of y E k n p]
    by (simp_all add: f)
  have go: "wp (probeTargets E k a ns p2) (\<lambda>p'. step E False S p0 p' \<and>
      (\<exists>q'. deref a p' = Some q' \<and> recorded q q'))"
    if "step E False S p0 p2" "deref a p2 = Some q2" "recorded q q2" for p2 q2
  proof -
    have "subscribers q2 = []" "set ns \<subseteq> targets q2"
      using recorded_keeps [OF that(3)] Cons.prems(3,4) by simp_all
    from Cons.IH [OF that(1,2) this] show ?thesis
      by (rule wp_conseq) (use recorded_trans [OF that(3)] in blast)
  qed
  show ?case
  proof (cases found)
    case None
    have "anchored a p1" by (rule anchored_leaf [OF _ Cons.prems(3)]) (simp add: d1 Cons.prems)
    then have "wp (startProbe E k n a p1) (\<lambda>p'. step E False S p0 p' \<and> keeps_all p1 p')"
      by (rule startProbe_wp [OF E s1])
    then obtain p2 where p2: "startProbe E k n a p1 = Some p2" "step E False S p0 p2"
      "keeps_all p1 p2" by (auto elim: wpE)
    have "deref a p2 = Some q"
      by (rule keeps_allD [OF p2(3)]) (simp add: d1 Cons.prems)
    from go [OF p2(2) this recorded_refl] show ?thesis by (simp add: f None p2(1))
  next
    case (Some l)
    let ?p = "assignQ a (record_latency n l q) p1"
    have da: "deref a p1 = Some q" using Cons.prems by (simp add: d1)
    have "query_ok (record_latency n l q)"
      using query_ok_record step_query_ok [OF s1 da] Cons.prems(4) by simp
    then have "step E False S p0 ?p" using a by (intro step_assignQ [OF s1 _ da]) simp_all
    moreover have "deref a ?p = Some (record_latency n l q)" by (simp add: frame_simps)
    ultimately have "wp (probeTargets E k a ns ?p) (\<lambda>p'. step E False S p0 p' \<and>
      (\<exists>q'. deref a p' = Some q' \<and> recorded q q'))" using recorded_record by (rule go)
    then show ?thesis by (simp add: f Some modifyQ_def da)
  qed
qed

text \<open>A query without subscribers is a closed set by itself, so it can be told of itself.\<close>

lemma notify_self_wp:
  assumes N: "notifier_ok E n notify" and n: "0 < n" and s: "step E c S p0 p" and x: "x \<in> S"
    and q: "deref x p = Some q" "subscribers q = []" "\<not> forwards q"
  shows "wp (notify x lats p) (\<lambda>(r, p'). step E c S p0 p')"
proof -
  have "closed {x} p" using q by (auto simp: closed_def subs_def)
  moreover have "{x} \<inter> fwd p = {}" using q by (auto simp: fwd_def)
  ultimately have "wp (notify x lats p) (\<lambda>(r, p'). step E True {x} p p')"
    using N n step_ok [OF s] by (simp add: notifier_ok_def)
  then show ?thesis
    by (rule wp_conseq) (use step_trans [OF s] x in \<open>auto simp: step_def\<close>)
qed

subsection \<open>HandleReq\<close>

lemma HandleReq_done_wp:
  assumes s: "step E c S p0 p" "x \<in> S" and q: "deref x p = Some (HandleReqQ q)"
  shows "runs E c S p0 x (HandleReq_done E x p)"
proof -
  let ?p = "assignQ x (HandleReqQ (q\<lparr>hr_finished := True\<rparr>)) p"
  have "step E c S p0 ?p"
    using step_assignQ [OF s(1) _ q same_subs_finish] step_query_ok [OF s(1) q] s(2)
    by (simp add: request_ok_def)
  then show ?thesis
    using step_sendPacket [of E c S p0 ?p] q
    by (simp add: HandleReq_done_def HandleReq_sendReturnPacket_def wp_simps runs_def modifyQ_def
        this_HandleReq_def frame_simps case_prod_beta Let_def)
qed

lemma HandleReq_handleLatency_wp:
  assumes pok: "proc_ok E p" and q: "deref x p = Some (HandleReqQ q)" and x: "x \<in> S"
  shows "runs E True S p x (HandleReq_handleLatency E x lats p)"
proof -
  have s: "step E True S p p" by (rule step_refl [OF pok])
  have fail: "runs E True S p x (Some (-1, p))" using s q by (simp add: runs_Some)
  note all = HandleReq_done_wp [OF s x q]
  have rec: "runs E True S p x (Option.bind (modifyQ x (record_latency m l) p) (\<lambda>p.
      Option.bind (this_HandleReq x p) (\<lambda>q.
        if length (hr_remoteLatencies q) \<noteq> length (hr_remoteNodes q) then Some (0, p)
        else HandleReq_done E x p)))" if "m \<in> set (hr_remoteNodes q)" for m l
  proof -
    let ?p = "assignQ x (record_latency m l (HandleReqQ q)) p"
    have s2: "step E True S p ?p"
      using step_assignQ [OF s _ q same_subs_setters(3)] x that
        query_ok_record [OF step_query_ok [OF s q]] by (simp del: record_latency.simps)
    have "deref x ?p = Some (HandleReqQ (q\<lparr>hr_remoteLatencies := sm_upd m l (hr_remoteLatencies q)\<rparr>))"
      by (simp add: frame_simps)
    from HandleReq_done_wp [OF s2 x this] s2 this show ?thesis
      by (simp add: modifyQ_def q this_HandleReq_def runs_Some)
  qed
  show ?thesis
    using fail all rec
    by (auto simp: HandleReq_handleLatency_def this_HandleReq_def q Let_def split: list.split)
qed

lemma HandleReq_handleTimeout_wp:
  assumes "proc_ok E p" "deref x p = Some (HandleReqQ q)"
  shows "runs E True {x} p x (HandleReq_handleTimeout E x p)"
  unfolding HandleReq_handleTimeout_def
  by (rule HandleReq_done_wp [OF step_refl [OF assms(1)] _ assms(2)]) simp

lemma HandleReq_init_wp:
  assumes E: "env_ok E" and N: "notifier_ok E n notify" "0 < n"
    and s: "step E False S p0 p" "x \<in> S" and q: "deref x p = Some (HandleReqQ q)"
  shows "wp (HandleReq_init E notify x p) (\<lambda>(r, p'). step E False S p0 p')"
proof -
  obtain p1 q1 where p1: "probeTargets E (hr_kind q) x (hr_remoteNodes q) p = Some p1"
    "step E False S p0 p1" "deref x p1 = Some q1" "recorded (HandleReqQ q) q1"
    using probeTargets_wp [OF E s q, of "hr_remoteNodes q" "hr_kind q"] by (auto elim!: wpE)
  obtain m where m: "q1 = HandleReqQ (q\<lparr>hr_remoteLatencies := m\<rparr>)"
    using p1(4) by (auto simp: recorded_def)
  have "wp (notify x [] p1) (\<lambda>(r, p'). step E False S p0 p')"
    by (rule notify_self_wp [OF N p1(2) s(2) p1(3)]) (simp_all add: m)
  then show ?thesis
    using p1 by (auto simp: HandleReq_init_def this_HandleReq_def q m wp_simps intro: wp_conseq)
qed

subsection \<open>AddNode\<close>

lemma AddNode_measured_wp:
  assumes N: "notifier_ok E n notify" and s: "step E True R p0 p" and q: "deref x p = Some (AddNodeQ q)"
    and R: "closed R p" "x \<in> R" "card (R \<inter> fwd p) \<le> n"
  shows "runs E True R p0 x (AddNode_measured E notify x q l p)"
proof -
  let ?rd = "\<lparr>addr = addrRendv (an_remoteNode q), port = ucast (portRendv (an_remoteNode q))\<rparr>"
  obtain rs where rs: "insertNodeRendv (env_fpu E) (ident (an_remoteNode q)) l ?rd (g_rings p)
      = Some (0, rs)" "ring_wf (env_fpu E) rs"
    by (rule insertNodeRendv_wf [OF step_ring_wf [OF s]]) blast
  let ?p1 = "p\<lparr>g_rings := rs\<rparr>"
  have s1: "step E True R p0 ?p1" by (rule step_rings [OF s rs(2)])
  have d1: "deref x ?p1 = Some (AddNodeQ q)" by (simp add: frame_simps q)
  have R1: "closed R ?p1" "card (R \<inter> fwd ?p1) \<le> n" using R by (simp_all add: closed_def frame_simps)
  have "wp (notifyAll notify (an_subscribers q) [nodeLat (an_remoteNode q) l] ?p1)
      (\<lambda>p'. step E True R ?p1 p' \<and> deref x p' = Some (AddNodeQ q))"
    by (rule notifyAll_wp [OF N step_ok [OF s1] d1 _ R1(1) R(2)]) (use R1 in simp_all)
  then obtain p2 where p2: "notifyAll notify (an_subscribers q) [nodeLat (an_remoteNode q) l] ?p1
      = Some p2" "step E True R ?p1 p2" "deref x p2 = Some (AddNodeQ q)"
    by (auto elim: wpE)
  have s2: "step E True R p0 p2" using step_trans [OF s1 p2(2)] by simp
  obtain r p3 where p3: "cacheInsert E KindPing (ident (an_remoteNode q)) l p2 = Some (r, p3)"
    "step E True R p0 p3" "\<forall>y. deref y p3 = deref y p2"
    by (rule wpE [OF cacheInsert_wp [OF s2, of KindPing "ident (an_remoteNode q)" l]]) auto
  have "runs E True R p0 x (Option.bind (modifyQ x finish p3) (\<lambda>p. Some (0, p)))"
    using R(2) p2(3) p3 by (intro runs_finish [OF p3(2)]) auto
  then show ?thesis by (simp add: AddNode_measured_def Let_def rs(1) p2(1) p3(1))
qed

lemma AddNode_handleLatency_wp:
  assumes N: "notifier_ok E n notify" and pok: "proc_ok E p" and q: "deref x p = Some (AddNodeQ q)"
    and R: "closed R p" "x \<in> R" "card (R \<inter> fwd p) \<le> n"
  shows "runs E True R p x (AddNode_handleLatency E notify x lats p)"
proof -
  have s: "step E True R p p" by (rule step_refl [OF pok])
  have "runs E True R p x (Some (-1, p))" using s q by (simp add: runs_Some)
  then show ?thesis
    using AddNode_measured_wp [OF N s q R]
    by (auto simp: AddNode_handleLatency_def this_AddNode_def q split: list.split)
qed

lemma AddNode_handleEvent_wp:
  assumes N: "notifier_ok E n notify" and pok: "proc_ok E p" and q: "deref x p = Some (AddNodeQ q)"
    and R: "closed R p" "x \<in> R" "card (R \<inter> fwd p) \<le> n" and b: "buf \<noteq> []"
  shows "runs E True R p x (AddNode_handleEvent E notify x remote buf p)"
proof -
  have fail: "runs E True R p x (Some (-1, p))"
    using pok q by (simp add: runs_Some step_refl)
  obtain us p1 where us: "elapsedUS E (an_startTime q) p = (us, p1)" by fastforce
  then have p1: "p1 = p\<lparr>g_clockReads := Suc (g_clockReads p)\<rparr>"
    using elapsedUS_upd [of E "an_startTime q" p] by simp
  have s1: "step E True R p p1" using pok by (simp add: p1 frame_simps step_refl)
  have "runs E True R p x (AddNode_measured E notify x q us p1)"
    using R by (intro AddNode_measured_wp [OF N s1]) (simp_all add: p1 frame_simps q closed_def)
  moreover obtain c cs where "buf = c # cs" using b by (cases buf) auto
  ultimately show ?thesis
    using fail by (simp add: AddNode_handleEvent_def this_AddNode_def q firstByte_def us)
qed

lemma AddNode_handleTimeout_wp:
  assumes "proc_ok E p" "deref x p = Some (AddNodeQ q)"
  shows "runs E True {x} p x (AddNode_handleTimeout E x p)"
proof -
  have s: "step E True {x} p p" by (rule step_refl [OF assms(1)])
  obtain r rs where rs: "eraseNode (env_fpu E) (ident (an_remoteNode q)) (g_rings p) = Some (r, rs)"
    "step E True {x} p (p\<lparr>g_rings := rs\<rparr>)"
    by (rule wpE [OF eraseNode_wp [OF s, of "ident (an_remoteNode q)"]]) auto
  then show ?thesis
    using runs_finish [OF rs(2), of x _ 0] assms(2)
    by (simp add: AddNode_handleTimeout_def this_AddNode_def frame_simps)
qed

lemma AddNode_init_wp:
  assumes s: "step E c S p0 p" and x: "x \<in> S \<or> (\<not> c \<and> deref x p0 = None)" and anch: "anchored x p"
    and q: "deref x p = Some (AddNodeQ q)"
  shows "wp (AddNode_init E x p) (\<lambda>(r, p'). step E c S p0 p' \<and>
    (\<forall>y. y \<noteq> x \<longrightarrow> deref y p \<noteq> None \<longrightarrow> deref y p' = deref y p))" (is "wp _ ?Q")
proof -
  obtain now p1 where g: "gettimeofday E p = (now, p1)" by fastforce
  then have p1: "p1 = p\<lparr>g_clockReads := Suc (g_clockReads p)\<rparr>"
    using gettimeofday_upd [of E p] by simp
  define q2 where "q2 = q\<lparr>an_startTime := now\<rparr>"
  define p2 where "p2 = assignQ x (AddNodeQ q2) p1"
  have q1: "deref x p1 = Some (AddNodeQ q)" by (simp add: p1 q frame_simps)
  have s2: "step E c S p0 p2"
    unfolding p2_def
    by (rule step_assignQ [OF _ _ q1]) (use s x in \<open>auto simp: p1 same_subs_def frame_simps q2_def\<close>)
  have d2: "deref y p2 = (if y = x then Some (AddNodeQ q2) else deref y p)" for y
    by (simp add: p2_def p1 frame_simps)
  have sub: "subs p2 = subs p"
    using subs_same [OF q1, of "AddNodeQ q2"] by (simp add: same_subs_def p1 p2_def q2_def frame_simps)
  have "anchored x p2" unfolding anchored_def sub using anch by (auto simp: anchored_def d2)
  then have req: "wp (startReqProbe E KindPing src ns x p2)
      (\<lambda>p'. step E c S p0 p' \<and> keeps_all p2 p')" for src ns
    using x by (intro startReqProbe_wp [OF s2]) auto
  have "?Q (r, p')" if "step E c S p0 p'" "keeps_all p2 p'" for r p'
    using that d2 by (auto simp: keeps_all_def)
  then have "wp (Option.bind (startReqProbe E KindPing src ns x p2) (\<lambda>p. Some (0, p))) ?Q" for src ns
    unfolding wp_simps by (intro wp_conseq [OF req]) auto
  moreover have "?Q (r, p2)" "?Q (r, snd (sendPacket f d p2))" for r f d
    using s2 step_sendPacket [OF s2] by (simp_all add: d2 frame_simps)
  moreover have "modifyQ x (setStartTime now) p1 = Some p2"
    by (simp add: modifyQ_def q1 p2_def q2_def)
  ultimately show ?thesis
    by (simp add: AddNode_init_def g this_AddNode_def d2 wp_simps(1) Let_def case_prod_beta)
qed

subsection \<open>Gossip\<close>

lemma Gossip_init_wp:
  assumes s: "step E c S p0 p" and c: "\<not> c" and x: "x \<in> S \<or> deref x p0 = None"
    and q: "deref x p = Some (GossipQ q)"
  shows "wp (Gossip_init E x p) (\<lambda>(r, p'). step E c S p0 p')"
proof -
  obtain now p1 where g: "gettimeofday E p = (now, p1)" by fastforce
  then have p1: "p1 = p\<lparr>g_clockReads := Suc (g_clockReads p)\<rparr>"
    using gettimeofday_upd [of E p] by simp
  let ?q = "q\<lparr>gq_startTime := now\<rparr>"
  let ?p = "assignQ x (GossipQ ?q) p1"
  have q1: "deref x p1 = Some (GossipQ q)" by (simp add: p1 q frame_simps)
  have s2: "step E c S p0 ?p"
    by (rule step_assignQ [OF _ _ q1]) (use s x in \<open>simp_all add: p1 same_subs_def frame_simps\<close>)
  have d2: "deref x ?p = Some (GossipQ ?q)" by (simp add: frame_simps)
  obtain nid nq p3 where n: "newAddNode E (gq_remoteNode q) ?p = ((nid, AddNodeQ nq), p3)"
    "an_subscribers nq = []" "constructed ?p p3" by (rule newAddNode_form)
  note n3 = constructed_step [OF n(3)]
  have s3: "step E c S p0 p3" using s2 by (simp add: n3)
  have a3: "anchored x p3" by (rule anchored_leaf [of _ _ "GossipQ ?q"]) (simp_all add: n3 d2)
  have "wp (case tableInsert nid (AddNodeQ nq) p3 of (ret, p) \<Rightarrow> if ret = -1 then Some (-1, p)
      else Option.bind (modifyQ nid (subscribeLatency x) p)
        (\<lambda>p. Option.bind (AddNode_init E nid p) (\<lambda>(_, p). Some (0, p))))
    (\<lambda>(r, p'). step E c S p0 p')"
  proof (rule start_wp [OF s3 _ _ _ _ a3])
    fix p4 assume p4: "step E c S p0 p4" "deref nid p4 = Some (subscribeLatency x (AddNodeQ nq))"
      "deref nid p3 = None" "\<forall>y. y \<noteq> nid \<longrightarrow> deref y p4 = deref y p3"
    have q4: "deref nid p4 = Some (AddNodeQ (nq\<lparr>an_subscribers := an_subscribers nq @ [x]\<rparr>))"
      using p4(2) by simp
    have x4: "deref x p4 = Some (GossipQ ?q)" using p4(3,4) d2 by (metis n3(2) option.distinct(1))
    have "y = nid \<or> y = x" if "(nid, y) \<in> (subs p4)\<^sup>*" for y
      using that by induction (auto simp: subs_def q4 x4 n(2))
    then have anch: "anchored nid p4" using q4 x4 by (auto simp: anchored_def)
    have "wp (AddNode_init E nid p4) (\<lambda>(r, p'). step E c S p0 p' \<and>
      (\<forall>y. y \<noteq> nid \<longrightarrow> deref y p4 \<noteq> None \<longrightarrow> deref y p' = deref y p4))"
      using step_dead [OF s3 p4(3)] c by (intro AddNode_init_wp [OF p4(1) _ anch q4]) auto
    then show "wp (Option.bind (AddNode_init E nid p4) (\<lambda>(_, p). Some (0, p)))
        (\<lambda>(r, p'). step E c S p0 p')"
      unfolding wp_simps by (rule wp_conseq) (auto simp: wp_simps)
  qed (use s3 n c in \<open>simp_all add: wp_simps\<close>)
  then show ?thesis
    by (simp add: Gossip_init_def g modifyQ_def q1 this_Gossip_def frame_simps n(1))
qed

lemma Gossip_handleTimeout_wp:
  assumes "proc_ok E p" "deref x p = Some (GossipQ q)"
  shows "runs E True {x} p x (Gossip_handleTimeout x p)"
  unfolding Gossip_handleTimeout_def
  by (rule runs_finish [OF step_refl [OF assms(1)] _ assms(2)]) simp

lemma Gossip_handleLatency_wp:
  assumes pok: "proc_ok E p" and q: "deref x p = Some (GossipQ q)" and x: "x \<in> S"
  shows "runs E True S p x (Gossip_handleLatency E x lats p)"
proof -
  have s: "step E True S p p" by (rule step_refl [OF pok])
  have fail: "runs E True S p x (Some (-1, p))" using s q by (simp add: runs_Some)
  have go: "runs E True S p x (Option.bind (modifyQ x finish (snd (sendPacket f d
      (snd (fillGossipPacket E g t p))))) (\<lambda>p. Some (0, p)))" for f d g t
    using s q x by (intro runs_finish) (auto simp: frame_simps intro!: step_sendPacket)
  show ?thesis
    using fail go
    by (auto simp: Gossip_handleLatency_def this_Gossip_def q Let_def case_prod_beta split: list.split)
qed

lemma ProbeQuery_handleEvent_wp:
  assumes "notifier_ok E n notify" "proc_ok E p" "deref x p = Some (ProbeQ q)"
    "closed R p" "x \<in> R" "card (R \<inter> fwd p) \<le> n"
  shows "runs E True R p x (ProbeQuery_handleEvent E notify x remote p)"
  unfolding ProbeQuery_handleEvent_def by (rule ProbeQuery_handleLatency_wp [OF assms])

end
