(* ===== verification/Engine_Search.thy ===== *)
theory Engine_Search
  imports Engine_Measure
begin

text \<open>
  The handlers of the closest-node search (theory \<open>Closest_Query\<close>): they return, keep the
  invariant and change no object but their own and the requests they start.
\<close>

lemma startReqProbes_wp:
  assumes "step E c S p0 p" and a: "a \<in> S" and q: "deref a p = Some q" "subscribers q = []"
  shows "wp (startReqProbes E k ms ns a p) (\<lambda>p'. step E c S p0 p' \<and> deref a p' = Some q)"
  using assms(1,3)
proof (induction ms arbitrary: p)
  case (Cons m ms)
  have "anchored a p" by (rule anchored_leaf [OF Cons.prems(2) q(2)])
  then have "wp (startReqProbe E k m ns a p) (\<lambda>p'. step E c S p0 p' \<and> keeps_all p p')"
    using a by (intro startReqProbe_wp [OF Cons.prems(1)]) auto
  then obtain p1 where p1: "startReqProbe E k m ns a p = Some p1" "step E c S p0 p1"
    "keeps_all p p1" by (auto elim: wpE)
  show ?case
    using Cons.IH [OF p1(2) keeps_allD [OF p1(3) Cons.prems(2)]] by (simp add: p1(1))
qed (simp add: wp_simps)

text \<open>A search for the least rating ends at an entry, or at the value it started with.\<close>

lemma least_member:
  assumes "\<And>e acc. rate e acc = acc \<or> (\<exists>l. rate e acc = (l, fst e))"
  shows "fold rate es acc = acc \<or> snd (fold rate es acc) \<in> fst ` set es"
  using assms
proof (induction es arbitrary: acc)
  case (Cons e es)
  consider "rate e acc = acc" | l where "rate e acc = (l, fst e)" using Cons.prems by blast
  then show ?case
  proof cases
    case 1
    then show ?thesis using Cons.IH [OF Cons.prems, of acc] by auto
  next
    case 2
    then show ?thesis using Cons.IH [OF Cons.prems, of "(l, fst e)"] by auto
  qed
qed simp

lemma closestRingMember_known:
  assumes "fst (closestRingMember F L) < l"
  shows "sm_find L (snd (closestRingMember F L)) \<noteq> None"
proof -
  define rate where "rate = (\<lambda>(n :: NodeIdent, m) (lowestLatUS :: u32, closestMember).
         case getMaxAndAverage F m of
           None \<Rightarrow> (lowestLatUS, closestMember)
         | Some (_, curAvgLatency) \<Rightarrow>
             if curAvgLatency < lowestLatUS then (curAvgLatency, n)
             else (lowestLatUS, closestMember))"
  have e: "closestRingMember F L = fold rate L (UINT_MAX, \<lparr>addr = 0, port = 0\<rparr>)"
    by (simp add: closestRingMember_def rate_def)
  have "fold rate L (UINT_MAX, \<lparr>addr = 0, port = 0\<rparr>) \<noteq> (UINT_MAX, \<lparr>addr = 0, port = 0\<rparr>)"
    using assms leD [OF le_UINT_MAX [of l]] unfolding e by auto
  then have "snd (closestRingMember F L) \<in> fst ` set L"
    using least_member [of rate L "(UINT_MAX, \<lparr>addr = 0, port = 0\<rparr>)"] unfolding e
    by (auto simp: rate_def split: option.split prod.split)
  then show ?thesis by (simp add: map_of_eq_None_iff)
qed

lemma this_Closest [wp_simps]: "deref x p = Some (HandleClosestQ q) \<Longrightarrow> this_Closest x p = Some q"
  by (simp add: this_Closest_def)

lemma step_onClosest:
  assumes "step E c S p0 p" "x \<in> S" "deref x p = Some (HandleClosestQ q)" "closest_ok (f q)"
  shows "step E c S p0 (assignQ x (HandleClosestQ (f q)) p)"
  using assms by (intro step_assignQ [OF assms(1) _ assms(3)]) (simp_all add: same_subs_def)

lemma step_closest_ok: "step E c S p0 p \<Longrightarrow> deref x p = Some (HandleClosestQ q) \<Longrightarrow> closest_ok q"
  using step_query_ok by fastforce

lemma Closest_handleForward_wp:
  assumes s: "step E c S p0 p" "x \<in> S" and q: "deref x p = Some (HandleClosestQ q)"
    and st: "hc_stateMachine q = HC_INDIRECT_PING"
  shows "runs E c S p0 x (Closest_handleForward E x p)"
proof -
  obtain low mem where cm: "closestRingMember (env_fpu E) (hc_ringLatencies q) = (low, mem)"
    by fastforce
  have fin: "runs E c S p0 x (Option.bind (modifyQ x finish (snd (sendPacket f d p)))
      (\<lambda>p. Some (r, p)))" for f d r
    using s q by (intro runs_finish [OF step_sendPacket]) (auto simp: frame_simps)
  have known: "low < l \<Longrightarrow> \<exists>m. sm_find (hc_ringLatencies q) mem = Some m" for l
    using closestRingMember_known [of "env_fpu E" "hc_ringLatencies q" l] by (simp add: cm)
  have fwd: "runs E c S p0 x (Option.bind (modifyQ x (onClosest (\<lambda>q. q\<lparr>hc_selectedMember := mem,
      hc_timeoutTV := tv, hc_stateMachine := HC_WAIT_FOR_FIN\<rparr>)) (snd (computeTimeout E t
      (snd (sendPacket f d p))))) (\<lambda>p. Some (r, p)))" for tv t f d r
  proof -
    let ?p = "snd (computeTimeout E t (snd (sendPacket f d p)))"
    have "step E c S p0 ?p" "deref x ?p = Some (HandleClosestQ q)"
      using step_sendPacket [OF s(1)] q by (simp_all add: frame_simps)
    then show ?thesis
      using step_onClosest [OF _ s(2), of E c p0 ?p q "\<lambda>q. q\<lparr>hc_selectedMember := mem,
          hc_timeoutTV := tv, hc_stateMachine := HC_WAIT_FOR_FIN\<rparr>"] step_closest_ok [OF s(1) q]
      by (simp add: modifyQ_def runs_Some closest_ok_def frame_simps)
  qed
  show ?thesis
  proof (cases "low < hc_averageLatUS q")
    case True
    then obtain m where "sm_find (hc_ringLatencies q) mem = Some m" using known by blast
    then show ?thesis
      using True fin fwd
      by (simp add: Closest_handleForward_def this_Closest [OF q] cm Let_def case_prod_beta
          Closest_send_def)
  next
    case False
    then show ?thesis
      using fin fwd
      by (simp add: Closest_handleForward_def this_Closest [OF q] cm Let_def case_prod_beta
          Closest_send_def)
  qed
qed

lemma fillVector_wp:
  assumes "step E c S p0 p" "ks_ok ident ms"
  obtains out where "fillVector (env_fpu E) (g_rings p) mn mx beta ms = Some out" "ks_ok ident out"
proof -
  obtain lo hi where b: "fillBounds (env_fpu E) mn mx beta = (lo, hi)" by fastforce
  show ?thesis by (rule fillVector_range [OF step_ring_wf [OF assms(1)] assms(2) b]) (rule that)
qed

lemma Closest_sendReqProbes_wp:
  assumes s: "step E c S p0 p" "x \<in> S" and q: "deref x p = Some (HandleClosestQ q)"
  shows "runs E c S p0 x (Closest_sendReqProbes E x p)"
proof -
  have fail: "runs E c S p0 x (Some (-1, p))" using s q by (simp add: runs_Some)
  have ok: "closest_ok q" by (rule step_closest_ok [OF s(1) q])
  have fin: "runs E c S p0 x (Option.bind (modifyQ x finish p) (\<lambda>p. Some (-1, p)))"
    using s q by (intro runs_finish) auto
  { fix l u avg tv p1
    assume st: "hc_stateMachine q = HC_WAIT_FOR_DIRECT_PING"
      and ct: "computeTimeout E (probeTimeoutUS (env_fpu E)
        (betaRatioOf (env_fpu E) (hc_betaNumer q) (hc_betaDenom q)) l) p = (tv, p1)"
    let ?beta = "betaRatioOf (env_fpu E) (hc_betaNumer q) (hc_betaDenom q)"
    have p1: "step E c S p0 p1" "deref x p1 = Some (HandleClosestQ q)" "g_rings p1 = g_rings p"
      using s q step_prims(4) [of E c S p0 E] deref_prims(4) [of x E] rings_prims(3) [of E] ct
      by (metis snd_conv)+
    have ms: "hc_ringMembers q = []" "ks_ok ident (hc_ringMembers q)" "hc_ringLatencies q = []"
      using ok st by (simp_all add: closest_ok_def)
    obtain members where mem: "fillVector (env_fpu E) (g_rings p1) u l ?beta (hc_ringMembers q)
        = Some members" "ks_ok ident members"
      by (rule fillVector_wp [OF p1(1) ms(2)])
    define f :: "HandleClosestGeneric \<Rightarrow> HandleClosestGeneric"
      where "f = (\<lambda>q. q\<lparr>hc_averageLatUS := avg, hc_timeoutTV := tv,
      hc_stateMachine := HC_INDIRECT_PING,
      hc_ringMembers := (if avg = 0 then hc_ringMembers q else members)\<rparr>)"
    let ?p2 = "assignQ x (HandleClosestQ (f q)) p1"
    have "closest_ok (f q)" using ok mem(2) ms by (simp add: closest_ok_def f_def)
    then have s2: "step E c S p0 ?p2" by (rule step_onClosest [OF p1(1) s(2) p1(2)])
    have d2: "deref x ?p2 = Some (HandleClosestQ (f q))" by (simp add: frame_simps)
    have fin2: "runs E c S p0 x (Option.bind (modifyQ x finish (snd (sendPacket g d ?p2)))
        (\<lambda>p. Some (0, p)))" for g d
      using s(2) by (intro runs_finish [OF step_sendPacket [OF s2]]) (auto simp: frame_simps)
    have probes: "runs E c S p0 x (Option.bind (startReqProbes E (hc_kind q) members
        (hc_remoteNodes q) x ?p2) (\<lambda>p. Some (0, p)))"
      unfolding runs_def wp_simps
      by (rule wp_conseq [OF startReqProbes_wp [OF s2 s(2) d2]]) auto
    have "runs E c S p0 x (do { members \<leftarrow>
          (if avg = 0 then Some []
           else fillVector (env_fpu E) (g_rings p1) u l ?beta (hc_ringMembers q));
        p \<leftarrow> modifyQ x (onClosest (\<lambda>q. q\<lparr>hc_averageLatUS := avg,
          hc_timeoutTV := tv, hc_stateMachine := HC_INDIRECT_PING,
          hc_ringMembers := (if avg = 0 then hc_ringMembers q else members)\<rparr>)) p1;
        if avg = 0 \<or> members = [] then
          (let retPacket = newRetResponse x 0 0 (hc_remoteLatencies q);
               p = Closest_send E (RetResponse_createRealPacket (env_magic E) retPacket) q p
           in do { p \<leftarrow> modifyQ x finish p; Some (0, p) })
        else
          do { p \<leftarrow> startReqProbes E (hc_kind q) members (hc_remoteNodes q) x p;
               Some (0, p) } })"
    proof (cases "avg = 0")
      case True
      have "modifyQ x (onClosest (\<lambda>q. q\<lparr>hc_averageLatUS := avg,
          hc_timeoutTV := tv, hc_stateMachine := HC_INDIRECT_PING,
          hc_ringMembers := (if avg = 0 then hc_ringMembers q else [])\<rparr>)) p1 = Some ?p2"
        using True by (simp add: modifyQ_def p1(2) f_def)
      then show ?thesis using True fin2 by (simp add: Closest_send_def Let_def)
    next
      case False
      have "modifyQ x (onClosest (\<lambda>q. q\<lparr>hc_averageLatUS := avg,
          hc_timeoutTV := tv, hc_stateMachine := HC_INDIRECT_PING,
          hc_ringMembers := (if avg = 0 then hc_ringMembers q else members)\<rparr>)) p1 = Some ?p2"
        by (simp add: modifyQ_def p1(2) f_def)
      then show ?thesis using False fin2 probes mem(1) by (simp add: Closest_send_def Let_def)
    qed }
  then show ?thesis
    using fail fin
    by (auto simp: Closest_sendReqProbes_def this_Closest [OF q] Let_def
        split: option.split prod.split)
qed

lemma Closest_handleLatency_wp:
  assumes pok: "proc_ok E p" and q: "deref x p = Some (HandleClosestQ q)" and x: "x \<in> S"
  shows "runs E True S p x (Closest_handleLatency E x lats p)"
proof -
  have s: "step E True S p p" by (rule step_refl [OF pok])
  have ok: "closest_ok q" by (rule step_closest_ok [OF s q])
  have fail: "runs E True S p x (Some (r, p))" for r using s q by (simp add: runs_Some)
  have direct: "runs E True S p x (Option.bind (modifyQ x (record_latency m l) p) (\<lambda>p.
      Option.bind (this_Closest x p) (\<lambda>q.
        if length (hc_remoteLatencies q) \<noteq> length (hc_remoteNodes q) then Some (0, p)
        else Closest_sendReqProbes E x p)))" if "m \<in> set (hc_remoteNodes q)" for m l
  proof -
    let ?p = "assignQ x (record_latency m l (HandleClosestQ q)) p"
    have s2: "step E True S p ?p"
      using step_assignQ [OF s _ q same_subs_setters(3)] x that
        query_ok_record [OF step_query_ok [OF s q]] by (simp del: record_latency.simps)
    have "deref x ?p = Some (HandleClosestQ (q\<lparr>hc_remoteLatencies := sm_upd m l (hc_remoteLatencies q)\<rparr>))"
      by (simp add: frame_simps)
    from Closest_sendReqProbes_wp [OF s2 x this] s2 this show ?thesis
      by (simp add: modifyQ_def q this_Closest_def runs_Some)
  qed
  have indirect: "runs E True S p x (Option.bind (modifyQ x (onClosest (\<lambda>q. q\<lparr>hc_ringLatencies :=
        sm_upd n m (hc_ringLatencies q)\<rparr>)) p) (\<lambda>p.
      Option.bind (this_Closest x p) (\<lambda>q.
        if length (hc_ringMembers q) \<noteq> length (hc_ringLatencies q) then Some (0, p)
        else Closest_handleForward E x p)))"
    if st: "hc_stateMachine q = HC_INDIRECT_PING" and n: "ks_find ident n (hc_ringMembers q) \<noteq> None"
    for n m
  proof -
    let ?q = "q\<lparr>hc_ringLatencies := sm_upd n m (hc_ringLatencies q)\<rparr>"
    let ?p = "assignQ x (HandleClosestQ ?q) p"
    have "n \<in> ident ` set (hc_ringMembers q)"
      using n by (auto simp: ks_find_def find_None_iff)
    then have "closest_ok ?q" using ok st by (simp add: closest_ok_def sm_upd_dom)
    then have s2: "step E True S p ?p"
      using step_onClosest [OF s x q, of "\<lambda>q. q\<lparr>hc_ringLatencies := sm_upd n m (hc_ringLatencies q)\<rparr>"]
      by simp
    have d2: "deref x ?p = Some (HandleClosestQ ?q)" by (simp add: frame_simps)
    then show ?thesis
      using Closest_handleForward_wp [OF s2 x d2] s2 st
      by (simp add: modifyQ_def q this_Closest_def runs_Some)
  qed
  show ?thesis
    using fail direct indirect Closest_sendReqProbes_wp [OF s x q]
    by (auto simp: Closest_handleLatency_def this_Closest [OF q] Let_def
        split: HandleClosest_SM.split list.split option.split)
qed

lemma Closest_handleTimeout_wp:
  assumes pok: "proc_ok E p" and q: "deref x p = Some (HandleClosestQ q)"
  shows "runs E True {x} p x (Closest_handleTimeout E x p)"
proof -
  have s: "step E True {x} p p" by (rule step_refl [OF pok])
  have "runs E True {x} p x (Option.bind (modifyQ x finish p) (\<lambda>p. Some (0, p)))"
    using s q by (intro runs_finish) auto
  moreover have "runs E True {x} p x
      (Option.bind (modifyQ x finish (Closest_send E f q p)) (\<lambda>p. Some (0, p)))" for f
    unfolding Closest_send_def
    using s q by (intro runs_finish [OF step_sendPacket]) (auto simp: frame_simps)
  ultimately show ?thesis
    using Closest_handleForward_wp [OF s _ q]
    by (simp add: Closest_handleTimeout_def this_Closest [OF q] Let_def split: HandleClosest_SM.split)
qed

text \<open>A datagram that has a header, which the dispatcher has checked.\<close>

definition has_header :: "u32 \<Rightarrow> u8 list \<Rightarrow> bool" where
  "has_header magic buf \<longleftrightarrow> fst (parseHeader magic (newBufferWrapper buf (int (length buf)))) \<noteq> -1"

lemma Closest_handleEvent_wp:
  assumes pok: "proc_ok E p" and q: "deref x p = Some (HandleClosestQ q)" and x: "x \<in> S"
    and h: "hc_stateMachine q = HC_WAIT_FOR_FIN \<Longrightarrow> has_header (env_magic E) buf"
  shows "runs E True S p x (Closest_handleEvent E x remote buf p)"
proof -
  have s: "step E True S p p" by (rule step_refl [OF pok])
  have fail: "runs E True S p x (Some (r, p))" for r using s q by (simp add: runs_Some)
  have send: "runs E True S p x (Some (r, snd (sendPacket f d p)))" for r f d
    using step_sendPacket [OF s] q by (simp add: runs_Some frame_simps)
  have fin: "runs E True S p x
      (Option.bind (modifyQ x finish (snd (sendPacket f d p))) (\<lambda>p. Some (0, p)))" for f d
    using s q x by (intro runs_finish [OF step_sendPacket]) (auto simp: frame_simps)
  obtain ret ty qid rb where ph:
    "parseHeader (env_magic E) (newBufferWrapper buf (int (length buf))) = (ret, ty, qid, rb)"
    by (metis prod_cases4)
  have "hc_stateMachine q = HC_WAIT_FOR_FIN \<Longrightarrow> ret \<noteq> -1"
    using h by (simp add: has_header_def ph)
  then show ?thesis
    using fail send fin
    by (auto simp: Closest_handleEvent_def this_Closest [OF q] Let_def ph Closest_send_def
        split: option.split)
qed

lemma Closest_init_wp:
  assumes E: "env_ok E" and N: "notifier_ok E n notify" "0 < n"
    and s: "step E False S p0 p" "x \<in> S" and q: "deref x p = Some (HandleClosestQ q)"
    and st: "hc_stateMachine q = HC_INIT"
  shows "wp (Closest_init E notify x p) (\<lambda>(r, p'). step E False S p0 p')"
proof -
  obtain p1 q1 where p1: "probeTargets E (hc_kind q) x (hc_remoteNodes q) p = Some p1"
    "step E False S p0 p1" "deref x p1 = Some q1" "recorded (HandleClosestQ q) q1"
    using probeTargets_wp [OF E s q, of "hc_remoteNodes q" "hc_kind q"] by (auto elim!: wpE)
  obtain m where m: "q1 = HandleClosestQ (q\<lparr>hc_remoteLatencies := m\<rparr>)"
    using p1(4) by (auto simp: recorded_def)
  define p2 where "p2 = Closest_send E (RetInfo_createRealPacket (env_magic E) (newRetInfo x 0 0)) q p1"
  have s2: "step E False S p0 p2" using step_sendPacket [OF p1(2)] by (simp add: p2_def Closest_send_def)
  have d2: "deref x p2 = Some (HandleClosestQ (q\<lparr>hc_remoteLatencies := m\<rparr>))"
    using p1(3) by (simp add: p2_def Closest_send_def frame_simps m)
  define q3 where "q3 = q\<lparr>hc_remoteLatencies := m, hc_stateMachine := HC_WAIT_FOR_DIRECT_PING\<rparr>"
  let ?p3 = "assignQ x (HandleClosestQ q3) p2"
  have "closest_ok q3" using step_closest_ok [OF s2 d2] st by (simp add: closest_ok_def q3_def)
  then have s3: "step E False S p0 ?p3"
    using step_onClosest [OF s2 s(2) d2, of "\<lambda>q. q\<lparr>hc_stateMachine := HC_WAIT_FOR_DIRECT_PING\<rparr>"]
    by (simp add: q3_def)
  have d3: "deref x ?p3 = Some (HandleClosestQ q3)" by (simp add: frame_simps)
  have m3: "modifyQ x (onClosest (\<lambda>q. q\<lparr>hc_stateMachine := HC_WAIT_FOR_DIRECT_PING\<rparr>)) p2 = Some ?p3"
    by (simp add: modifyQ_def d2 q3_def)
  have "wp (notify x [] ?p3) (\<lambda>(r, p'). step E False S p0 p')"
    by (rule notify_self_wp [OF N s3 s(2) d3]) simp_all
  then have "wp (Option.bind (notify x [] ?p3) (\<lambda>(_, p). Some (0 :: int, p))) (\<lambda>(r, p'). step E False S p0 p')"
    unfolding wp_simps by (rule wp_conseq) (auto simp: wp_simps)
  then show ?thesis
    using s3
    by (simp add: Closest_init_def this_Closest [OF q] p1(1) Let_def p2_def [symmetric] m3
        this_Closest [OF d3] wp_simps(1) del: wp_simps(3))
qed

end
