(* ===== verification/Engine_Constraints.thy ===== *)
theory Engine_Constraints
  imports Engine_Search
begin

text \<open>
  The handlers of the multi-constraint search (theory \<open>Constraint_Query\<close>): they return, keep the
  invariant and change no object but their own and the requests they start.
\<close>

lemma bestRingMember_known:
  assumes "fst (bestRingMember F q) < l"
  shows "sm_find (mc_ringLatencies q) (snd (bestRingMember F q)) \<noteq> None"
proof -
  define rate where "rate = (\<lambda>(n :: NodeIdent, m) (lowestLatUS :: u32, closestMember).
         case getAvgSolution F q m of
           None \<Rightarrow> (lowestLatUS, closestMember)
         | Some curAvgLatency \<Rightarrow>
             if curAvgLatency < lowestLatUS then (curAvgLatency, n)
             else (lowestLatUS, closestMember))"
  have e: "bestRingMember F q = fold rate (mc_ringLatencies q) (UINT_MAX, \<lparr>addr = 0, port = 0\<rparr>)"
    by (simp add: bestRingMember_def rate_def)
  have "fold rate (mc_ringLatencies q) (UINT_MAX, \<lparr>addr = 0, port = 0\<rparr>)
      \<noteq> (UINT_MAX, \<lparr>addr = 0, port = 0\<rparr>)"
    using assms leD [OF le_UINT_MAX [of l]] unfolding e by auto
  then have "snd (bestRingMember F q) \<in> fst ` set (mc_ringLatencies q)"
    using least_member [of rate "mc_ringLatencies q" "(UINT_MAX, \<lparr>addr = 0, port = 0\<rparr>)"]
    unfolding e by (auto simp: rate_def split: option.split prod.split)
  then show ?thesis by (simp add: map_of_eq_None_iff)
qed

lemma this_MC [wp_simps]: "deref x p = Some (HandleMCQ q) \<Longrightarrow> this_MC x p = Some q"
  by (simp add: this_MC_def)

lemma step_onMC:
  assumes "step E c S p0 p" "x \<in> S" "deref x p = Some (HandleMCQ q)" "constraint_ok (f q)"
  shows "step E c S p0 (assignQ x (HandleMCQ (f q)) p)"
  using assms by (intro step_assignQ [OF assms(1) _ assms(3)]) (simp_all add: same_subs_def)

lemma step_constraint_ok: "step E c S p0 p \<Longrightarrow> deref x p = Some (HandleMCQ q) \<Longrightarrow> constraint_ok q"
  using step_query_ok by fastforce

lemma MC_handleForward_wp:
  assumes s: "step E c S p0 p" "x \<in> S" and q: "deref x p = Some (HandleMCQ q)"
    and st: "mc_stateMachine q = HMC_INDIRECT_PING"
  shows "runs E c S p0 x (MC_handleForward E x p)"
proof -
  obtain low mem where cm: "bestRingMember (env_fpu E) q = (low, mem)"
    by fastforce
  have fin: "runs E c S p0 x (Option.bind (modifyQ x finish (snd (sendPacket f d p)))
      (\<lambda>p. Some (r, p)))" for f d r
    using s q by (intro runs_finish [OF step_sendPacket]) (auto simp: frame_simps)
  have known: "low < l \<Longrightarrow> \<exists>m. sm_find (mc_ringLatencies q) mem = Some m" for l
    using bestRingMember_known [of "env_fpu E" q l] by (simp add: cm)
  have fwd: "runs E c S p0 x (Option.bind (modifyQ x (onMC (\<lambda>q. q\<lparr>mc_selectedMember := mem,
      mc_timeoutTV := tv, mc_stateMachine := HMC_WAIT_FOR_FIN\<rparr>)) (snd (computeTimeout E t
      (snd (sendPacket f d p))))) (\<lambda>p. Some (r, p)))" for tv t f d r
  proof -
    let ?p = "snd (computeTimeout E t (snd (sendPacket f d p)))"
    have "step E c S p0 ?p" "deref x ?p = Some (HandleMCQ q)"
      using step_sendPacket [OF s(1)] q by (simp_all add: frame_simps)
    then show ?thesis
      using step_onMC [OF _ s(2), of E c p0 ?p q "\<lambda>q. q\<lparr>mc_selectedMember := mem,
          mc_timeoutTV := tv, mc_stateMachine := HMC_WAIT_FOR_FIN\<rparr>"] step_constraint_ok [OF s(1) q]
      by (simp add: modifyQ_def runs_Some constraint_ok_def frame_simps)
  qed
  show ?thesis
  proof (cases "low < mc_averageLatUS q")
    case True
    then obtain m where "sm_find (mc_ringLatencies q) mem = Some m" using known by blast
    then show ?thesis
      using True fin fwd
      by (simp add: MC_handleForward_def this_MC [OF q] cm Let_def case_prod_beta
          MC_send_def)
  next
    case False
    then show ?thesis
      using fin fwd
      by (simp add: MC_handleForward_def this_MC [OF q] cm Let_def case_prod_beta
          MC_send_def)
  qed
qed

lemma MC_sendReqProbes_wp:
  assumes s: "step E c S p0 p" "x \<in> S" and q: "deref x p = Some (HandleMCQ q)"
  shows "runs E c S p0 x (MC_sendReqProbes E x p)"
proof -
  have fail: "runs E c S p0 x (Some (-1, p))" using s q by (simp add: runs_Some)
  have ok: "constraint_ok q" by (rule step_constraint_ok [OF s(1) q])
  have fin: "runs E c S p0 x (Option.bind (modifyQ x finish p) (\<lambda>p. Some (-1, p)))"
    using s q by (intro runs_finish) auto
  { fix l u avg tv p1
    assume st: "mc_stateMachine q = HMC_WAIT_FOR_DIRECT_PING"
      and ct: "computeTimeout E (probeTimeoutUS (env_fpu E)
        (betaRatioOf (env_fpu E) (mc_betaNumer q) (mc_betaDenom q)) l) p = (tv, p1)"
    let ?beta = "betaRatioOf (env_fpu E) (mc_betaNumer q) (mc_betaDenom q)"
    have p1: "step E c S p0 p1" "deref x p1 = Some (HandleMCQ q)" "g_rings p1 = g_rings p"
      using s q step_prims(4) [of E c S p0 E] deref_prims(4) [of x E] rings_prims(3) [of E] ct
      by (metis snd_conv)+
    have ms: "mc_ringMembers q = []" "ks_ok ident (mc_ringMembers q)" "mc_ringLatencies q = []"
      using ok st by (simp_all add: constraint_ok_def)
    obtain members where mem: "fillVector (env_fpu E) (g_rings p1) u l ?beta (mc_ringMembers q)
        = Some members" "ks_ok ident members"
      by (rule fillVector_wp [OF p1(1) ms(2)])
    define f :: "HandleMCGeneric \<Rightarrow> HandleMCGeneric"
      where "f = (\<lambda>q. q\<lparr>mc_averageLatUS := avg, mc_timeoutTV := tv,
      mc_stateMachine := HMC_INDIRECT_PING,
      mc_ringMembers := (if avg = 0 then mc_ringMembers q else members)\<rparr>)"
    let ?p2 = "assignQ x (HandleMCQ (f q)) p1"
    have "constraint_ok (f q)" using ok mem(2) ms by (simp add: constraint_ok_def f_def)
    then have s2: "step E c S p0 ?p2" by (rule step_onMC [OF p1(1) s(2) p1(2)])
    have d2: "deref x ?p2 = Some (HandleMCQ (f q))" by (simp add: frame_simps)
    have fin2: "runs E c S p0 x (Option.bind (modifyQ x finish (snd (sendPacket g d ?p2)))
        (\<lambda>p. Some (0, p)))" for g d
      using s(2) by (intro runs_finish [OF step_sendPacket [OF s2]]) (auto simp: frame_simps)
    have probes: "runs E c S p0 x (Option.bind (startReqProbes E (mc_kind q) members
        (map ident (mc_remoteNodes q)) x ?p2) (\<lambda>p. Some (0, p)))"
      unfolding runs_def wp_simps
      by (rule wp_conseq [OF startReqProbes_wp [OF s2 s(2) d2]]) auto
    have "runs E c S p0 x (do { members \<leftarrow>
          (if avg = 0 then Some []
           else fillVector (env_fpu E) (g_rings p1) u l ?beta (mc_ringMembers q));
        p \<leftarrow> modifyQ x (onMC (\<lambda>q. q\<lparr>mc_averageLatUS := avg,
          mc_timeoutTV := tv, mc_stateMachine := HMC_INDIRECT_PING,
          mc_ringMembers := (if avg = 0 then mc_ringMembers q else members)\<rparr>)) p1;
        if avg = 0 \<or> members = [] then
          (let retPacket = newRetResponse x 0 0 (mc_remoteLatencies q);
               p = MC_send E (RetResponse_createRealPacket (env_magic E) retPacket) q p
           in do { p \<leftarrow> modifyQ x finish p; Some (0, p) })
        else
          do { p \<leftarrow> startReqProbes E (mc_kind q) members
               (map ident (mc_remoteNodes q)) x p;
               Some (0, p) } })"
    proof (cases "avg = 0")
      case True
      have "modifyQ x (onMC (\<lambda>q. q\<lparr>mc_averageLatUS := avg,
          mc_timeoutTV := tv, mc_stateMachine := HMC_INDIRECT_PING,
          mc_ringMembers := (if avg = 0 then mc_ringMembers q else [])\<rparr>)) p1 = Some ?p2"
        using True by (simp add: modifyQ_def p1(2) f_def)
      then show ?thesis using True fin2 by (simp add: MC_send_def Let_def)
    next
      case False
      have "modifyQ x (onMC (\<lambda>q. q\<lparr>mc_averageLatUS := avg,
          mc_timeoutTV := tv, mc_stateMachine := HMC_INDIRECT_PING,
          mc_ringMembers := (if avg = 0 then mc_ringMembers q else members)\<rparr>)) p1 = Some ?p2"
        by (simp add: modifyQ_def p1(2) f_def)
      then show ?thesis using False fin2 probes mem(1) by (simp add: MC_send_def Let_def)
    qed }
  then show ?thesis
    using fail fin
    by (auto simp: MC_sendReqProbes_def this_MC [OF q] Let_def
        split: option.split prod.split)
qed

lemma MC_handleLatency_wp:
  assumes pok: "proc_ok E p" and q: "deref x p = Some (HandleMCQ q)" and x: "x \<in> S"
  shows "runs E True S p x (MC_handleLatency E x lats p)"
proof -
  have s: "step E True S p p" by (rule step_refl [OF pok])
  have ok: "constraint_ok q" by (rule step_constraint_ok [OF s q])
  have fail: "runs E True S p x (Some (r, p))" for r using s q by (simp add: runs_Some)
  have direct: "runs E True S p x (Option.bind (modifyQ x (record_latency m l) p) (\<lambda>p.
      Option.bind (this_MC x p) (\<lambda>q.
        if length (mc_remoteLatencies q) \<noteq> length (mc_remoteNodes q) then Some (0, p)
        else MC_sendReqProbes E x p)))" if "ks_find ident m (mc_remoteNodes q) \<noteq> None" for m l
  proof -
    let ?p = "assignQ x (record_latency m l (HandleMCQ q)) p"
    have "m \<in> ident ` set (mc_remoteNodes q)"
      using that by (auto simp: ks_find_def find_None_iff)
    have s2: "step E True S p ?p"
      using \<open>m \<in> ident ` set (mc_remoteNodes q)\<close> step_assignQ [OF s _ q same_subs_setters(3)] x
        query_ok_record [OF step_query_ok [OF s q]] by (simp del: record_latency.simps)
    have "deref x ?p = Some (HandleMCQ (q\<lparr>mc_remoteLatencies := sm_upd m l (mc_remoteLatencies q)\<rparr>))"
      by (simp add: frame_simps)
    from MC_sendReqProbes_wp [OF s2 x this] s2 this show ?thesis
      by (simp add: modifyQ_def q this_MC_def runs_Some)
  qed
  have indirect: "runs E True S p x (Option.bind (modifyQ x (onMC (\<lambda>q. q\<lparr>mc_ringLatencies :=
        sm_upd n m (mc_ringLatencies q)\<rparr>)) p) (\<lambda>p.
      Option.bind (this_MC x p) (\<lambda>q.
        if length (mc_ringMembers q) \<noteq> length (mc_ringLatencies q) then Some (0, p)
        else MC_handleForward E x p)))"
    if st: "mc_stateMachine q = HMC_INDIRECT_PING" and n: "ks_find ident n (mc_ringMembers q) \<noteq> None"
    for n m
  proof -
    let ?q = "q\<lparr>mc_ringLatencies := sm_upd n m (mc_ringLatencies q)\<rparr>"
    let ?p = "assignQ x (HandleMCQ ?q) p"
    have "n \<in> ident ` set (mc_ringMembers q)"
      using n by (auto simp: ks_find_def find_None_iff)
    then have "constraint_ok ?q" using ok st by (simp add: constraint_ok_def sm_upd_dom)
    then have s2: "step E True S p ?p"
      using step_onMC [OF s x q, of "\<lambda>q. q\<lparr>mc_ringLatencies := sm_upd n m (mc_ringLatencies q)\<rparr>"]
      by simp
    have d2: "deref x ?p = Some (HandleMCQ ?q)" by (simp add: frame_simps)
    then show ?thesis
      using MC_handleForward_wp [OF s2 x d2] s2 st
      by (simp add: modifyQ_def q this_MC_def runs_Some)
  qed
  show ?thesis
    using fail direct indirect MC_sendReqProbes_wp [OF s x q]
    by (auto simp: MC_handleLatency_def this_MC [OF q] Let_def
        split: HandleMultiConstraint_SM.split list.split option.split)
qed

lemma MC_handleTimeout_wp:
  assumes pok: "proc_ok E p" and q: "deref x p = Some (HandleMCQ q)"
  shows "runs E True {x} p x (MC_handleTimeout E x p)"
proof -
  have s: "step E True {x} p p" by (rule step_refl [OF pok])
  have "runs E True {x} p x (Option.bind (modifyQ x finish p) (\<lambda>p. Some (0, p)))"
    using s q by (intro runs_finish) auto
  moreover have "runs E True {x} p x
      (Option.bind (modifyQ x finish (MC_send E f q p)) (\<lambda>p. Some (0, p)))" for f
    unfolding MC_send_def
    using s q by (intro runs_finish [OF step_sendPacket]) (auto simp: frame_simps)
  ultimately show ?thesis
    using MC_handleForward_wp [OF s _ q]
    by (simp add: MC_handleTimeout_def this_MC [OF q] Let_def split: HandleMultiConstraint_SM.split)
qed

lemma MC_handleEvent_wp:
  assumes pok: "proc_ok E p" and q: "deref x p = Some (HandleMCQ q)" and x: "x \<in> S"
    and h: "mc_stateMachine q = HMC_WAIT_FOR_FIN \<Longrightarrow> has_header (env_magic E) buf"
  shows "runs E True S p x (MC_handleEvent E x remote buf p)"
proof -
  have s: "step E True S p p" by (rule step_refl [OF pok])
  have fail: "runs E True S p x (Some (r, p))" for r using s q by (simp add: runs_Some)
  have send: "runs E True S p x (Some (r, snd (sendPacket f d p)))" for r f d
    using step_sendPacket [OF s] q by (simp add: runs_Some frame_simps)
  have fin: "runs E True S p x
      (Option.bind (modifyQ x finish (snd (sendPacket f d p))) (\<lambda>p. Some (0, p)))" for f d
    using s q x by (intro runs_finish [OF step_sendPacket]) (auto simp: frame_simps)
  obtain ret ty qid rb where ph:
    "parseHeader (env_magic E) (newBufferWrapper buf (int (length buf))) = (ret, ty, qid, rb)"
    by (metis prod_cases4)
  have "mc_stateMachine q = HMC_WAIT_FOR_FIN \<Longrightarrow> ret \<noteq> -1"
    using h by (simp add: has_header_def ph)
  then show ?thesis
    using fail send fin
    by (auto simp: MC_handleEvent_def this_MC [OF q] Let_def ph MC_send_def
        split: option.split)
qed

lemma MC_init_wp:
  assumes E: "env_ok E" and N: "notifier_ok E n notify" "0 < n"
    and s: "step E False S p0 p" "x \<in> S" and q: "deref x p = Some (HandleMCQ q)"
    and st: "mc_stateMachine q = HMC_INIT"
  shows "wp (MC_init E notify x p) (\<lambda>(r, p'). step E False S p0 p')"
proof -
  obtain p1 q1 where p1: "probeTargets E (mc_kind q) x (map ident (mc_remoteNodes q)) p = Some p1"
    "step E False S p0 p1" "deref x p1 = Some q1" "recorded (HandleMCQ q) q1"
    using probeTargets_wp [OF E s q, of "map ident (mc_remoteNodes q)" "mc_kind q"] by (auto elim!: wpE)
  obtain m where m: "q1 = HandleMCQ (q\<lparr>mc_remoteLatencies := m\<rparr>)"
    using p1(4) by (auto simp: recorded_def)
  define p2 where "p2 = MC_send E (RetInfo_createRealPacket (env_magic E) (newRetInfo x 0 0)) q p1"
  have s2: "step E False S p0 p2" using step_sendPacket [OF p1(2)] by (simp add: p2_def MC_send_def)
  have d2: "deref x p2 = Some (HandleMCQ (q\<lparr>mc_remoteLatencies := m\<rparr>))"
    using p1(3) by (simp add: p2_def MC_send_def frame_simps m)
  define q3 where "q3 = q\<lparr>mc_remoteLatencies := m, mc_stateMachine := HMC_WAIT_FOR_DIRECT_PING\<rparr>"
  let ?p3 = "assignQ x (HandleMCQ q3) p2"
  have "constraint_ok q3" using step_constraint_ok [OF s2 d2] st by (simp add: constraint_ok_def q3_def)
  then have s3: "step E False S p0 ?p3"
    using step_onMC [OF s2 s(2) d2, of "\<lambda>q. q\<lparr>mc_stateMachine := HMC_WAIT_FOR_DIRECT_PING\<rparr>"]
    by (simp add: q3_def)
  have d3: "deref x ?p3 = Some (HandleMCQ q3)" by (simp add: frame_simps)
  have m3: "modifyQ x (onMC (\<lambda>q. q\<lparr>mc_stateMachine := HMC_WAIT_FOR_DIRECT_PING\<rparr>)) p2 = Some ?p3"
    by (simp add: modifyQ_def d2 q3_def)
  have "wp (notify x [] ?p3) (\<lambda>(r, p'). step E False S p0 p')"
    by (rule notify_self_wp [OF N s3 s(2) d3]) simp_all
  then have "wp (Option.bind (notify x [] ?p3) (\<lambda>(_, p). Some (0 :: int, p))) (\<lambda>(r, p'). step E False S p0 p')"
    unfolding wp_simps by (rule wp_conseq) (auto simp: wp_simps)
  then show ?thesis
    using s3
    by (simp add: MC_init_def this_MC [OF q] p1(1) Let_def p2_def [symmetric] m3
        this_MC [OF d3] wp_simps(1) del: wp_simps(3))
qed

end
