(* ===== verification/Engine_Rings.thy ===== *)
theory Engine_Rings
  imports Engine_Measure
begin

text \<open>
  The handlers of the ring management query (theory \<open>Ring_Manage\<close>). The replacement it computes
  is a rearrangement of its candidates with a full primary ring, so the rings stay well formed;
  a node to leave out is always found because no volume is negative.
\<close>

subsection \<open>Reducing a set of nodes\<close>

lemma volumeStep_cases:
  obtains (kept) M' mx' where
      "volumeStep vol n vs k (M, found, node, maxHV, mx) = (M', found, node, maxHV, mx')"
  | (new) M' maxHV' mx' where
      "volumeStep vol n vs k (M, found, node, maxHV, mx) = (M', True, vs ! k, maxHV', mx')"
proof (cases "vol (inUse (n - 1) (swapOut n k M)) \<ge> maxHV")
  case True
  then show ?thesis by (intro new) (simp add: volumeStep_def Let_def)
next
  case False
  then show ?thesis by (intro kept) (simp add: volumeStep_def Let_def)
qed

lemma volumeStep_first:
  assumes "\<And>M. 0 \<le> vol M"
  obtains M' maxHV' maxHyperVolume' where
    "volumeStep vol n vs k (M, found, node, 0, maxHyperVolume) = (M', True, vs ! k, maxHV', maxHyperVolume')"
  using assms by (auto simp: volumeStep_def Let_def)

lemma volumeStep_found:
  assumes "set ks \<subseteq> {..<length vs}" "node \<in> set vs"
  shows "\<exists>M' node' maxHV' mx'. fold (volumeStep vol n vs) ks (M, True, node, maxHV, mx) =
    (M', True, node', maxHV', mx') \<and> node' \<in> set vs"
  using assms
proof (induction ks arbitrary: M node maxHV mx)
  case (Cons k ks)
  show ?case
  proof (rule volumeStep_cases [where vol = vol and n = n and k = k and M = M and maxHV = maxHV
        and vs = vs and found = True and node = node and mx = mx])
    fix M' mx' assume "volumeStep vol n vs k (M, True, node, maxHV, mx) = (M', True, node, maxHV, mx')"
    then show ?thesis using Cons.IH [OF _ Cons.prems(2)] Cons.prems(1) by simp
  next
    fix M' hv mx' assume v: "volumeStep vol n vs k (M, True, node, maxHV, mx) =
      (M', True, vs ! k, hv, mx')"
    have "vs ! k \<in> set vs" using Cons.prems(1) by simp
    then show ?thesis using Cons.IH [of "vs ! k"] Cons.prems(1) v by simp
  qed
qed simp

lemma volumePass_finds:
  assumes vol: "\<And>M. 0 \<le> vol M" and ne: "vs \<noteq> []"
  shows "\<exists>M' node hv mx. fold (volumeStep vol n vs) [0..<length vs]
    (M, False, start, 0, 0) = (M', True, node, hv, mx) \<and> node \<in> set vs"
proof -
  have u: "[0..<length vs] = 0 # [Suc 0..<length vs]" using ne by (simp add: upt_conv_Cons)
  obtain M' hv mx where f: "volumeStep vol n vs 0 (M, False, start, 0, 0) = (M', True, vs ! 0, hv, mx)"
    by (rule volumeStep_first [OF vol])
  have "vs ! 0 \<in> set vs" "set [Suc 0..<length vs] \<subseteq> {..<length vs}" using ne by auto
  then show ?thesis
    using volumeStep_found [of "[Suc 0..<length vs]" vs "vs ! 0" vol n M' hv mx] unfolding u
    by (simp add: f)
qed

lemma removeLoop_absent:
  assumes "node \<notin> set (drop k vs)"
  shows "removeLoop node k (n, vs, ds, M) = (n, vs, ds, M)"
  using assms
proof (induction "length vs - k" arbitrary: k)
  case 0
  then show ?case by (simp add: removeLoop.simps)
next
  case (Suc d)
  then have k: "k < length vs" by simp
  then have "drop k vs = vs ! k # drop (Suc k) vs" by (simp add: Cons_nth_drop_Suc)
  then have n: "vs ! k \<noteq> node" "node \<notin> set (drop (Suc k) vs)" using Suc.prems by auto
  then have "\<not> (addr (vs ! k) = addr node \<and> port (vs ! k) = port node)"
    by (metis NodeIdent.equality old.unit.exhaust)
  then have "removeLoop node k (n, vs, ds, M) = removeLoop node (Suc k) (n, vs, ds, M)"
    using k by (subst removeLoop.simps) auto
  then show ?case using Suc.hyps n by simp
qed

lemma removeLoop_removes:
  assumes "node \<in> set (drop k vs)" "distinct vs"
  shows "\<exists>n' M'. removeLoop node k (n, vs, ds, M) =
    (n', swap_remove node vs, ds @ [node], M')"
  using assms
proof (induction "length vs - k" arbitrary: k)
  case 0
  then show ?case by simp
next
  case (Suc d)
  then have k: "k < length vs" by simp
  then have dr: "drop k vs = vs ! k # drop (Suc k) vs" by (simp add: Cons_nth_drop_Suc)
  show ?case
  proof (cases "vs ! k = node")
    case False
    then have "\<not> (addr (vs ! k) = addr node \<and> port (vs ! k) = port node)"
      by (metis NodeIdent.equality old.unit.exhaust)
    then have "removeLoop node k (n, vs, ds, M) = removeLoop node (Suc k) (n, vs, ds, M)"
      using k by (subst removeLoop.simps) auto
    moreover have "node \<in> set (drop (Suc k) vs)" using Suc.prems dr False by auto
    ultimately show ?thesis using Suc.hyps(1) [of "Suc k"] Suc.hyps(2) Suc.prems by simp
  next
    case True
    let ?vs = "butlast (vs[k := last vs])"
    have e: "removeLoop node k (n, vs, ds, M) =
        removeLoop node (Suc k) (n - 1, ?vs, ds @ [node], swapOut n k M)"
      using k True by (subst removeLoop.simps) simp
    have "find_index node vs = Some k"
    proof (rule find_index_memE [of node vs])
      show "node \<in> set vs" using True k by auto
      fix i assume "find_index node vs = Some i" "i < length vs" "vs ! i = node"
      then show ?thesis using True k nth_eq_iff_index_eq [OF Suc.prems(2)] by metis
    qed
    then have sr: "?vs = swap_remove node vs" by (simp add: swap_remove_def)
    have "node \<notin> set (drop (Suc k) ?vs)"
      using swap_remove_distinct(2) [OF Suc.prems(2), of node] set_drop_subset [of "Suc k" ?vs]
      unfolding sr by auto
    from removeLoop_absent [OF this] show ?thesis unfolding e sr by blast
  qed
qed

lemma reduceSetByN_result:
  assumes vol: "\<And>M. 0 \<le> vol M" and "distinct (vs @ ds)" "r \<le> length vs"
  obtains vs' ds' where "reduceSetByN vol r (n, vs, ds, M) = Some (vs', ds')"
    "distinct (vs' @ ds')" "set (vs' @ ds') = set (vs @ ds)" "length vs' = length vs - r"
  using assms(2-)
proof (induction r arbitrary: n vs ds M thesis)
  case 0
  then show ?case by (simp del: distinct_append set_append)
next
  case (Suc r)
  from Suc.prems have "vs \<noteq> []" by auto
  from volumePass_finds [where vol = vol, OF vol this, where n = n and M = M and start = "\<lparr>addr = 0, port = 0\<rparr>"]
  obtain M' node hv mx where
    f: "fold (volumeStep vol n vs) [0..<length vs] (M, False, \<lparr>addr = 0, port = 0\<rparr>, 0, 0) =
      (M', True, node, hv, mx)" "node \<in> set vs" by blast
  have d: "distinct vs" "node \<notin> set ds" using Suc.prems f(2) by auto
  from f(2) have "node \<in> set (drop 0 vs)" by simp
  from removeLoop_removes [OF this d(1)] obtain n' M'' where
    rl: "removeLoop node 0 (n, vs, ds, M') = (n', swap_remove node vs, ds @ [node], M'')" by blast
  have d': "distinct (swap_remove node vs @ (ds @ [node]))"
    using Suc.prems d by auto
  have l: "length (swap_remove node vs) = length vs - 1" by (rule length_swap_remove [OF f(2)])
  then have r: "r \<le> length (swap_remove node vs)" using Suc.prems by simp
  obtain vs' ds' where v: "reduceSetByN vol r (n', swap_remove node vs, ds @ [node], M'') = Some (vs', ds')"
    "distinct (vs' @ ds')" "set (vs' @ ds') = set (swap_remove node vs @ (ds @ [node]))"
    "length vs' = length (swap_remove node vs) - r"
    using Suc.IH [OF _ d' r] by blast
  have "set (swap_remove node vs @ (ds @ [node])) = set (vs @ ds)" using f(2) d by auto
  then show ?case using Suc.prems(1) [of vs' ds'] v l by (simp add: f(1) rl del: set_append)
qed

subsection \<open>Dropping incomplete nodes\<close>

lemma dropIncomplete_result:
  assumes "dropIncomplete full q removed = (q', exit)" "distinct (rm_remoteNodes q @ removed)"
  shows "distinct (rm_remoteNodes q') \<and> rm_ringNum q' = rm_ringNum q \<and>
    (\<forall>rem. exit = Broke rem \<longrightarrow> full < length (rm_remoteNodes q') \<and>
       distinct (rm_remoteNodes q' @ rem))"
  using assms
proof (induction full q removed rule: dropIncomplete.induct)
  case (1 full q removed)
  let ?w = "worstNode q" and ?q = "removeCandidateNode (worstNode q) q"
  have e: "dropIncomplete full q removed =
     (if length (rm_remoteNodes q) \<le> full then (q, Returned 0)
      else if addr ?w = 0 \<and> port ?w = 0 then (q, Broke removed)
      else if length (rm_remoteNodes ?q) + 1 \<noteq> length (rm_remoteNodes q) then (?q, Returned (-1))
      else dropIncomplete full ?q (removed @ [?w]))"
    by (subst dropIncomplete.simps) (simp add: Let_def)
  have r: "rm_remoteNodes ?q = filter (\<lambda>n. n \<noteq> ?w) (rm_remoteNodes q)"
    "rm_ringNum ?q = rm_ringNum q" by (simp_all add: removeCandidateNode_def)
  consider "length (rm_remoteNodes q) \<le> full" | "\<not> length (rm_remoteNodes q) \<le> full"
      "addr ?w = 0 \<and> port ?w = 0"
    | "\<not> length (rm_remoteNodes q) \<le> full" "\<not> (addr ?w = 0 \<and> port ?w = 0)"
      "length (rm_remoteNodes ?q) + 1 \<noteq> length (rm_remoteNodes q)"
    | "\<not> length (rm_remoteNodes q) \<le> full" "\<not> (addr ?w = 0 \<and> port ?w = 0)"
      "\<not> length (rm_remoteNodes ?q) + 1 \<noteq> length (rm_remoteNodes q)" by blast
  then show ?case
  proof cases
    case 4
    have "?w \<notin> set (rm_remoteNodes ?q)" by (simp add: r)
    moreover have "?w \<notin> set removed"
    proof
      assume "?w \<in> set removed"
      then have "?w \<notin> set (rm_remoteNodes q)" using 1(3) by auto
      then have "rm_remoteNodes ?q = rm_remoteNodes q" unfolding r by (simp add: filter_id_conv) metis
      then show False using 4(3) by simp
    qed
    ultimately have "distinct (rm_remoteNodes ?q @ (removed @ [?w]))"
      using 1(3) by (auto simp: r)
    then show ?thesis using 1(1) [OF 4(1) refl 4(2) refl 4(3)] 1(2) 4 e r(2) by simp
  qed (use 1(2,3) e r in auto)
qed

subsection \<open>Handlers\<close>

lemma this_RingManage: "deref x p = Some (RingManageQ q) \<Longrightarrow> this_RingManage x p = Some q"
  by (simp add: this_RingManage_def)

lemma step_onRingManage:
  assumes "step E c S p0 p" "x \<in> S \<or> deref x p0 = None" "deref x p = Some (RingManageQ q)"
    "distinct (rm_remoteNodes q')"
  shows "step E c S p0 (assignQ x (RingManageQ q') p)"
  using assms by (intro step_assignQ [OF assms(1-3)]) (simp_all add: same_subs_def)

lemma performReplacement_wp:
  assumes E: "env_ok E" and s: "step E c S p0 p" "x \<in> S" and q: "deref x p = Some (RingManageQ q)"
  shows "runs E c S p0 x (performReplacement E x p)"
proof -
  have dq: "distinct (rm_remoteNodes q)" using step_query_ok [OF s(1) q] by simp
  let ?full = "unat (primarySize (g_rings p))"
  obtain q' exit where di: "dropIncomplete ?full q [] = (q', exit)" by fastforce
  have d: "distinct (rm_remoteNodes q')"
    "\<And>rem. exit = Broke rem \<Longrightarrow> ?full < length (rm_remoteNodes q') \<and> distinct (rm_remoteNodes q' @ rem)"
    using dropIncomplete_result [OF di] dq by auto
  let ?p = "assignQ x (RingManageQ q') p"
  have s2: "step E c S p0 ?p" using step_onRingManage [OF s(1) _ q d(1)] s(2) by blast
  have d2: "deref x ?p = Some (RingManageQ q')" by (simp add: frame_simps)
  have ret: "runs E c S p0 x (Some (r, ?p))" for r using s2 d2 by (simp add: runs_Some)
  have fail: "runs E c S p0 x (Some (-1, p))" using s q by (simp add: runs_Some)
  have replace: "runs E c S p0 x (do { (newPrimNodes, removedNodes) \<leftarrow>
        reduceSetByN (env_volume E) (length (rm_remoteNodes q') - ?full)
          (length (rm_remoteNodes q'), rm_remoteNodes q', rem, M);
        let rs = snd (setRingMembers (rm_ringNum q') newPrimNodes removedNodes (g_rings ?p));
        Some (0, ?p\<lparr>g_rings := rs\<rparr>) })" if "exit = Broke rem" for rem M
  proof -
    note dd = d(2) [OF that]
    have vol: "\<And>M. 0 \<le> env_volume E M" using E by (simp add: env_ok_def)
    obtain vs ds where v: "reduceSetByN (env_volume E) (length (rm_remoteNodes q') - ?full)
          (length (rm_remoteNodes q'), rm_remoteNodes q', rem, M) = Some (vs, ds)"
      "distinct (vs @ ds)" "length vs = length (rm_remoteNodes q') - (length (rm_remoteNodes q') - ?full)"
      by (rule reduceSetByN_result [where vol = "env_volume E" and vs = "rm_remoteNodes q'" and ds = rem
            and r = "length (rm_remoteNodes q') - ?full" and n = "length (rm_remoteNodes q')" and M = M,
            OF vol]) (use dd in auto)
    obtain ret rs where rs: "setRingMembers (rm_ringNum q') vs ds (g_rings p) = (ret, rs)" by fastforce
    have "length vs = unat (primarySize (g_rings p))" using v(3) dd by simp
    then have "ring_wf (env_fpu E) rs"
      by (intro setRingMembers_wf [OF step_ring_wf [OF s(1)] v(2) _ rs])
    from step_rings [OF s2 this] show ?thesis
      by (simp add: v(1) rs runs_Some frame_simps)
  qed
  show ?thesis
    using fail ret replace
    by (auto simp: performReplacement_def this_RingManage [OF q] di modifyQ_def q Let_def
        split: loop_exit.split option.split)
qed

lemma unfreezeRing_wf: "ring_wf F rs \<Longrightarrow> ring_wf F (snd (unfreezeRing i rs))"
  by (simp add: unfreezeRing_def frozen_wf)

lemma freezeRing_wf: "ring_wf F rs \<Longrightarrow> ring_wf F (snd (freezeRing i rs))"
  by (simp add: freezeRing_def frozen_wf)

lemma finish_replacement:
  assumes E: "env_ok E" and s: "step E c S p0 p" "x \<in> S" and q: "deref x p = Some (RingManageQ q)"
  shows "runs E c S p0 x (do { (_, p) \<leftarrow> performReplacement E x p;
      p \<leftarrow> modifyQ x finish p; Some (0, p) })"
  using performReplacement_wp [OF E s q] runs_finish [of E c S p0 _ x _ 0] s(2)
  unfolding runs_def wp_basic(3) by (auto elim!: wpE simp: wp_basic)

lemma RingManage_handleEvent_wp:
  assumes E: "env_ok E" and pok: "proc_ok E p" and q: "deref x p = Some (RingManageQ q)"
    and x: "x \<in> S" and b: "buf \<noteq> []"
  shows "runs E True S p x (RingManage_handleEvent E x remote buf p)"
proof -
  have s: "step E True S p p" by (rule step_refl [OF pok])
  have fail: "runs E True S p x (Some (r, p))" for r using s q by (simp add: runs_Some)
  have go: "runs E True S p x (do { p \<leftarrow> modifyQ x (onRingManage (\<lambda>q. q\<lparr>rm_RetNodeMap := f q\<rparr>)) p;
         q \<leftarrow> this_RingManage x p;
         if length (rm_RetNodeMap q) = length (rm_remoteNodes q) then
           do { let p = p\<lparr>g_rings := snd (unfreezeRing (rm_ringNum q) (g_rings p))\<rparr>;
                (_, p) \<leftarrow> performReplacement E x p;
                p \<leftarrow> modifyQ x finish p;
                Some (0, p) }
         else Some (0, p) })" for f
  proof -
    let ?q = "q\<lparr>rm_RetNodeMap := f q\<rparr>"
    let ?p = "assignQ x (RingManageQ ?q) p"
    have s2: "step E True S p ?p"
      using step_onRingManage [OF s _ q, of ?q] x step_query_ok [OF s q] by simp
    have d2: "deref x ?p = Some (RingManageQ ?q)" by (simp add: frame_simps)
    let ?p3 = "?p\<lparr>g_rings := snd (unfreezeRing (rm_ringNum ?q) (g_rings ?p))\<rparr>"
    have s3: "step E True S p ?p3"
      by (rule step_rings [OF s2 unfreezeRing_wf [OF step_ring_wf [OF s2]]])
    have d3: "deref x ?p3 = Some (RingManageQ ?q)" by (simp add: frame_simps)
    show ?thesis
      using finish_replacement [OF E s3 x d3] s2 d2
      by (simp add: modifyQ_def q this_RingManage_def Let_def runs_Some)
  qed
  obtain ch cs where "buf = ch # cs" using b by (cases buf) auto
  then show ?thesis
    using fail go by (simp add: RingManage_handleEvent_def this_RingManage [OF q] firstByte_def
        split: option.split)
qed

lemma eraseNodes_wf:
  assumes "ring_wf F rs"
  obtains rs' where "eraseNodes F ns rs = Some rs'" "ring_wf F rs'"
  using assms
proof (induction ns arbitrary: rs thesis)
  case (Cons n ns)
  obtain ret rs1 where "eraseNode F n rs = Some (ret, rs1)" "ring_wf F rs1"
    by (rule eraseNode_wf [OF Cons.prems(2), of n])
  then show ?case using Cons.IH [of rs1] Cons.prems(1) by auto
qed simp

lemma fold_removeCandidate:
  "distinct (rm_remoteNodes q) \<Longrightarrow> distinct (rm_remoteNodes (fold removeCandidateNode ns q))"
  by (induction ns arbitrary: q) (simp_all add: removeCandidateNode_def)

lemma RingManage_handleTimeout_wp:
  assumes E: "env_ok E" and pok: "proc_ok E p" and q: "deref x p = Some (RingManageQ q)"
  shows "runs E True {x} p x (RingManage_handleTimeout E x p)"
proof -
  have s: "step E True {x} p p" by (rule step_refl [OF pok])
  obtain rs where rs: "eraseNodes (env_fpu E) (badNodes q)
      (snd (unfreezeRing (rm_ringNum q) (g_rings p))) = Some rs" "ring_wf (env_fpu E) rs"
    by (rule eraseNodes_wf [OF unfreezeRing_wf [OF step_ring_wf [OF s]]])
  let ?q = "fold removeCandidateNode (badNodes q) q"
  let ?p1 = "p\<lparr>g_rings := rs\<rparr>"
  let ?p = "assignQ x (RingManageQ ?q) ?p1"
  have s1: "step E True {x} p ?p1" by (rule step_rings [OF s rs(2)])
  have q1: "deref x ?p1 = Some (RingManageQ q)" by (simp add: frame_simps q)
  have "distinct (rm_remoteNodes ?q)" using fold_removeCandidate step_query_ok [OF s q] by simp
  then have s2: "step E True {x} p ?p" by (intro step_onRingManage [OF s1 _ q1]) simp_all
  have d2: "deref x ?p = Some (RingManageQ ?q)" by (simp add: frame_simps)
  show ?thesis
    using finish_replacement [OF E s2 _ d2]
    by (simp add: RingManage_handleTimeout_def this_RingManage [OF q] Let_def rs(1) modifyQ_def q1)
qed

lemma step_ringRequest: "step E c S p0 p \<Longrightarrow> step E c S p0 (ringRequest E' x ns n p)"
  by (simp add: ringRequest_def Let_def step_sendPacket)

lemma step_ringRequests: "step E c S p0 p \<Longrightarrow> step E c S p0 (fold (ringRequest E' x ns) ms p)"
  by (induction ms arbitrary: p) (simp_all add: step_ringRequest)

lemma membersDump_distinct: "distinct ns \<Longrightarrow> distinct (snd (membersDump i rs ns))"
  by (simp add: membersDump_def fold_insort_insert)

lemma RingManage_init_wp:
  assumes s: "step E c S p0 p" and x: "x \<in> S \<or> deref x p0 = None"
    and q: "deref x p = Some (RingManageQ q)"
  shows "wp (RingManage_init E x p) (\<lambda>(r, p'). step E c S p0 p')"
proof -
  obtain now p1 where g: "gettimeofday E p = (now, p1)" by fastforce
  then have p1: "p1 = p\<lparr>g_clockReads := Suc (g_clockReads p)\<rparr>"
    using gettimeofday_upd [of E p] by simp
  define q2 where "q2 = q\<lparr>rm_startTime := now\<rparr>"
  define p2 where "p2 = assignQ x (RingManageQ q2) p1"
  have q1: "deref x p1 = Some (RingManageQ q)" by (simp add: p1 q frame_simps)
  have m: "modifyQ x (setStartTime now) p1 = Some p2" by (simp add: modifyQ_def q1 p2_def q2_def)
  have s2: "step E c S p0 p2"
    unfolding p2_def using s step_query_ok [OF s q]
    by (intro step_onRingManage [OF _ x q1]) (simp_all add: p1 q2_def frame_simps)
  have d2: "deref x p2 = Some (RingManageQ q2)" by (simp add: p2_def frame_simps)
  let ?rs = "snd (freezeRing (rm_ringNum q2) (g_rings p2))"
  let ?ns = "snd (membersDump (rm_ringNum q2) (g_rings p2) (rm_remoteNodes q2))"
  let ?p3 = "p2\<lparr>g_rings := ?rs\<rparr>"
  have s3: "step E c S p0 ?p3" by (rule step_rings [OF s2 freezeRing_wf [OF step_ring_wf [OF s2]]])
  have q3: "deref x ?p3 = Some (RingManageQ q2)" by (simp add: frame_simps d2)
  have "distinct ?ns" using step_query_ok [OF s2 d2] by (intro membersDump_distinct) simp
  then have "step E c S p0 (assignQ x (RingManageQ (q2\<lparr>rm_remoteNodes := ?ns\<rparr>)) ?p3)"
    by (intro step_onRingManage [OF s3 x q3]) simp
  moreover have "modifyQ x (onRingManage (\<lambda>q. q\<lparr>rm_remoteNodes := ?ns\<rparr>)) ?p3 =
      Some (assignQ x (RingManageQ (q2\<lparr>rm_remoteNodes := ?ns\<rparr>)) ?p3)"
    by (simp add: modifyQ_def q3)
  ultimately show ?thesis
    using s2 step_ringRequests
    by (simp add: RingManage_init_def g m this_RingManage [OF d2] Let_def wp_simps(1))
qed

end
