(* ===== verification/Engine_Safety.thy ===== *)
theory Engine_Safety
  imports Engine_Constraints Engine_Rings
begin

text \<open>
  The engine as a whole: delivering a latency, a packet or a timeout to a query, and starting
  queries. The recursion of \<open>deliver\<close> always has enough fuel, because a delivery reaches every
  forwarding query at most once.
\<close>

subsection \<open>Latencies\<close>

lemma table_deref:
  "proc_ok E p \<Longrightarrow> isQueryInTable x (g_queryTable p) \<longleftrightarrow> (\<exists>q. deref x p = Some q)"
  by (simp add: proc_ok_def table_ok_def)

lemma handleLatency_wp:
  assumes N: "notifier_ok E n notify" and pok: "proc_ok E p" and q: "deref x p = Some q"
    and R: "closed R p" "x \<in> R" "card (R \<inter> fwd p) \<le> n"
  shows "runs E True R p x (handleLatency E notify x lats p)"
proof -
  have skip: "runs E True R p x (Some (0, p))" using pok q by (simp add: runs_Some step_refl)
  show ?thesis
    using skip AddNode_handleLatency_wp [OF N pok _ R] ProbeQuery_handleLatency_wp [OF N pok _ R]
      Gossip_handleLatency_wp [OF pok _ R(2)] HandleReq_handleLatency_wp [OF pok _ R(2)]
      Closest_handleLatency_wp [OF pok _ R(2)] MC_handleLatency_wp [OF pok _ R(2)] q
    by (cases q) (simp_all add: handleLatency_def)
qed

lemma runs_update:
  assumes "runs E c S p0 x m" "x \<in> S \<or> deref x p0 = None"
  shows "wp (Option.bind m (\<lambda>(_, p). tableUpdate x p)) (\<lambda>(r, p'). step E c S p0 p')"
proof -
  obtain r p1 q where m: "m = Some (r, p1)" "step E c S p0 p1" "deref x p1 = Some q"
    using assms(1) by (auto simp: runs_def elim!: wpE)
  show ?thesis
    unfolding m(1)
    by simp (rule wp_conseq [OF tableUpdate_wp [OF m(2) assms(2) m(3)]], auto)
qed

theorem deliver_ok: "notifier_ok E n (deliver E n)"
proof (induction n)
  case 0
  show ?case by (simp add: notifier_ok_def)
next
  case (Suc n)
  show ?case
    unfolding notifier_ok_def
  proof (intro allI impI)
    fix R s lats p
    assume p: "proc_ok E p" and R: "closed R p" "s \<in> R" "card (R \<inter> fwd p) < Suc n"
    show "wp (deliver E (Suc n) s lats p) (\<lambda>(r, p'). step E True R p p')"
    proof (cases "isQueryInTable s (g_queryTable p)")
      case False
      then show ?thesis using p by (simp add: wp_simps step_refl)
    next
      case True
      then obtain q where "deref s p = Some q" using table_deref [OF p] by blast
      then have "runs E True R p s (handleLatency E (deliver E n) s lats p)"
        using handleLatency_wp [OF Suc.IH p _ R(1,2)] R(3) by simp
      from runs_update [OF this] show ?thesis using True R(2) by simp
    qed
  qed
qed

lemma card_fwd: "card (R \<inter> fwd p) \<le> length (g_queries p)"
proof -
  have "R \<inter> fwd p \<subseteq> set (sm_keys (g_queries p))"
    by (auto simp: fwd_def deref_def image_iff dest!: map_of_SomeD) force
  then have "card (R \<inter> fwd p) \<le> card (set (sm_keys (g_queries p)))" by (intro card_mono) auto
  also have "\<dots> \<le> length (g_queries p)" using card_length [of "sm_keys (g_queries p)"] by simp
  finally show ?thesis .
qed

lemma notifyQLatency_ok: "notifier_ok E n (notifyQLatency E)"
  unfolding notifier_ok_def
proof (intro allI impI)
  fix R s lats p
  assume "proc_ok E p" "closed R p" "s \<in> R"
  moreover have "card (R \<inter> fwd p) < Suc (length (g_queries p))"
    using card_fwd [of R p] by simp
  ultimately show "wp (notifyQLatency E s lats p) (\<lambda>(r, p'). step E True R p p')"
    using deliver_ok [of E "Suc (length (g_queries p))"]
    by (simp add: notifier_ok_def notifyQLatency_def)
qed

lemma closed_UNIV [simp]: "closed UNIV p"
  by (simp add: closed_def)

lemma notifyQLatency_wp:
  assumes "proc_ok E p"
  shows "wp (notifyQLatency E s lats p) (\<lambda>(r, p'). step E True UNIV p p')"
  using notifyQLatency_ok [of E "Suc (card (fwd p))"] assms
  unfolding notifier_ok_def by (metis Int_UNIV_left UNIV_I closed_UNIV lessI)

subsection \<open>Packets\<close>

text \<open>
  A search query that waits for the member it handed the search to asserts that what it gets has
  a header; everything else tolerates any datagram with a first byte.
\<close>

definition packet_ok :: "env \<Rightarrow> u64 \<Rightarrow> u8 list \<Rightarrow> MeridianProcess \<Rightarrow> bool" where
  "packet_ok E x buf p \<longleftrightarrow> buf \<noteq> [] \<and> (case deref x p of
       Some (HandleClosestQ q) \<Rightarrow> hc_stateMachine q = HC_WAIT_FOR_FIN \<longrightarrow> has_header (env_magic E) buf
     | Some (HandleMCQ q) \<Rightarrow> mc_stateMachine q = HMC_WAIT_FOR_FIN \<longrightarrow> has_header (env_magic E) buf
     | _ \<Rightarrow> True)"

lemma handleEvent_wp:
  assumes E: "env_ok E" and pok: "proc_ok E p" and q: "deref x p = Some q"
    and b: "packet_ok E x buf p"
  shows "runs E True UNIV p x (handleEvent E x remote buf p)"
proof -
  have skip: "runs E True UNIV p x (Some (0, p))" using pok q by (simp add: runs_Some step_refl)
  have N: "notifier_ok E (Suc (card (fwd p))) (notifyQLatency E)" by (rule notifyQLatency_ok)
  have b0: "buf \<noteq> []" using b by (simp add: packet_ok_def)
  show ?thesis
    using skip AddNode_handleEvent_wp [OF N pok _ closed_UNIV UNIV_I _ b0]
      ProbeQuery_handleEvent_wp [OF N pok _ closed_UNIV UNIV_I]
      ReqProbe_handleEvent_wp [OF N pok _ closed_UNIV UNIV_I _ b0]
      RingManage_handleEvent_wp [OF E pok _ UNIV_I b0]
      Closest_handleEvent_wp [OF pok _ UNIV_I] MC_handleEvent_wp [OF pok _ UNIV_I] q b
    by (cases q) (simp_all add: handleEvent_def packet_ok_def)
qed

lemma notifyQPacket_wp:
  assumes E: "env_ok E" and pok: "proc_ok E p" and b: "packet_ok E x buf p"
  shows "wp (notifyQPacket E x remote buf p) (\<lambda>(r, p'). step E True UNIV p p')"
proof (cases "isQueryInTable x (g_queryTable p)")
  case False
  then show ?thesis using pok by (simp add: notifyQPacket_def wp_simps step_refl)
next
  case True
  then obtain q where "deref x p = Some q" using table_deref [OF pok] by blast
  from runs_update [OF handleEvent_wp [OF E pok this b]] show ?thesis
    using True by (simp add: notifyQPacket_def)
qed

subsection \<open>Starting queries\<close>

text \<open>A new object is either refused by the table or started, and then nothing points to it yet.\<close>

lemma insert_wp:
  assumes s: "step E c S p0 p" and ok: "query_ok q" and none: "subscribers q = []"
    and c: "c \<Longrightarrow> \<not> forwards q"
    and init: "\<And>p1. step E c S p0 p1 \<Longrightarrow> deref x p1 = Some q \<Longrightarrow> deref x p0 = None \<or> x \<in> S \<Longrightarrow>
      wp (init p1) Q"
    and fail: "wp (fails p) Q"
  shows "wp (case tableInsert x q p of (ret, p) \<Rightarrow> if ret = -1 then fails p else init p) Q"
proof (cases "deref x p = None")
  case False
  then show ?thesis using fail by (simp add: tableInsert_cases [OF step_ok [OF s]])
next
  case True
  let ?p = "assignQ x q (p\<lparr>g_queryTable := snd (insertNewQuery x (timeOut q) (g_queryTable p))\<rparr>)"
  have e: "tableInsert x q p = (0, ?p)"
    using True by (simp add: tableInsert_cases [OF step_ok [OF s]])
  have "step E c S p0 ?p" using step_tableInsert [OF s ok none c, of x] by (simp add: e)
  then show ?thesis using init [of ?p] step_dead [OF s True] by (auto simp: e frame_simps)
qed

lemma addNodeToRing_wp:
  assumes s: "step E False S p0 p"
  shows "wp (addNodeToRing E n p) (\<lambda>(r, p'). step E False S p0 p')"
proof -
  obtain found p1 where f: "cacheGetLatency E KindPing (ident n) p = (found, p1)" by fastforce
  then have s1: "step E False S p0 p1" using s step_prims(7) by (metis snd_conv)
  obtain x q p2 where n: "newAddNode E n p1 = ((x, AddNodeQ q), p2)" "an_subscribers q = []"
    "constructed p1 p2" by (rule newAddNode_form)
  have s2: "step E False S p0 p2" using s1 by (simp add: constructed_step [OF n(3)])
  have "wp (case tableInsert x (AddNodeQ q) p2 of (ret, p) \<Rightarrow> if ret = -1 then Some (-1 :: int, p) else
      (do { (_, p) \<leftarrow> AddNode_init E x p; Some (0 :: int, p) })) (\<lambda>(r, p'). step E False S p0 p')"
  proof (rule insert_wp [OF s2])
    fix p3 assume p3: "step E False S p0 p3" "deref x p3 = Some (AddNodeQ q)"
      "deref x p0 = None \<or> x \<in> S"
    have "anchored x p3" by (rule anchored_leaf [OF p3(2)]) (simp add: n(2))
    then have "wp (AddNode_init E x p3) (\<lambda>(r, p'). step E False S p0 p' \<and>
        (\<forall>y. y \<noteq> x \<longrightarrow> deref y p3 \<noteq> None \<longrightarrow> deref y p' = deref y p3))"
      using p3 by (intro AddNode_init_wp [OF p3(1)]) auto
    then show "wp (do { (_, p) \<leftarrow> AddNode_init E x p3; Some (0 :: int, p) })
        (\<lambda>(r, p'). step E False S p0 p')"
      unfolding wp_simps by (rule wp_conseq) (auto simp: wp_simps)
  qed (use s2 n(2) in \<open>simp_all add: wp_simps\<close>)
  then show ?thesis using s1 by (simp add: addNodeToRing_def f n(1) wp_simps(1))
qed

lemma gossipWith_wp:
  assumes "step E False S p0 p"
  shows "wp (gossipWith E ns p) (\<lambda>(r, p'). step E False S p0 p')"
  using assms
proof (induction ns arbitrary: p)
  case (Cons n ns)
  obtain x q p1 where n: "newGossip E n p = ((x, GossipQ q), p1)" "constructed p p1"
    by (rule newGossip_form)
  have s1: "step E False S p0 p1" using Cons.prems by (simp add: constructed_step [OF n(2)])
  have "wp (case tableInsert x (GossipQ q) p1 of (ret, p) \<Rightarrow> if ret = -1 then Some (-1 :: int, p) else
      (do { (_, p) \<leftarrow> Gossip_init E x p; gossipWith E ns p })) (\<lambda>(r, p'). step E False S p0 p')"
  proof (rule insert_wp [OF s1])
    fix p3 assume p3: "step E False S p0 p3" "deref x p3 = Some (GossipQ q)"
      "deref x p0 = None \<or> x \<in> S"
    have "wp (Gossip_init E x p3) (\<lambda>(r, p'). step E False S p0 p')"
      using p3(3) by (intro Gossip_init_wp [OF p3(1) _ _ p3(2)]) auto
    then show "wp (do { (_, p) \<leftarrow> Gossip_init E x p3; gossipWith E ns p })
        (\<lambda>(r, p'). step E False S p0 p')"
      unfolding wp_simps by (rule wp_conseq) (use Cons.IH in auto)
  qed (use s1 in \<open>simp_all add: wp_simps\<close>)
  then show ?case by (simp add: n(1))
qed (simp add: wp_simps)

lemma performGossip_wp:
  assumes "step E False S p0 p"
  shows "wp (performGossip E p) (\<lambda>(r, p'). step E False S p0 p')"
  using gossipWith_wp [of E S p0 "p\<lparr>g_randDraws := _\<rparr>"] assms
  by (auto simp: performGossip_def frame_simps split: prod.split)

lemma eligibleRings_wf:
  "ring_wf F rs \<Longrightarrow> \<forall>i \<in> set is. ring_index i \<Longrightarrow> ring_wf F (snd (eligibleRings is rs))"
proof (induction "is" arbitrary: rs)
  case (Cons i "is")
  obtain b rs' where e: "eligibleForReplacement i rs = (b, rs')" by fastforce
  then have "ring_wf F rs'"
    using eligibleForReplacement_wf [OF Cons.prems(1)] Cons.prems(2) by auto
  then show ?case using Cons by (simp add: e case_prod_beta)
qed simp

lemma performRingManagement_wp:
  assumes s: "step E False S p0 p"
  shows "wp (performRingManagement E p) (\<lambda>(r, p'). step E False S p0 p')"
proof -
  obtain rings rs where e: "eligibleRings [0..getNumberOfRings (g_rings p) - 1] (g_rings p)
      = (rings, rs)" by fastforce
  have "ring_wf (env_fpu E) rs"
    using eligibleRings_wf [OF step_ring_wf [OF s], of "[0..getNumberOfRings (g_rings p) - 1]"] e
    by (auto simp: getNumberOfRings_def)
  then have s1: "step E False S p0 (p\<lparr>g_rings := rs\<rparr>)" by (rule step_rings [OF s])
  show ?thesis
  proof (cases "rings = []")
    case True
    then show ?thesis using s1 by (simp add: performRingManagement_def e Let_def wp_simps)
  next
    case False
    obtain r p2 where r: "c_rand E (p\<lparr>g_rings := rs\<rparr>) = (r, p2)" by fastforce
    then have s2: "step E False S p0 p2" using s1 step_prims(2) by (metis snd_conv)
    obtain x tv p3 p4 where id: "getNewQueryID E p2 = (x, p3)"
      "computeTimeout E (2 * MAX_RTT_MS * MICRO_IN_MILLI) p3 = (tv, p4)" "constructed p2 p4"
      by (rule id_and_timeout [of E p2 "2 * MAX_RTT_MS * MICRO_IN_MILLI"])
    then obtain q where n: "newRingManage E (rings ! (r mod length rings)) p2 = ((x, RingManageQ q), p4)"
      "rm_remoteNodes q = []" by (simp add: newRingManage_def)
    have s4: "step E False S p0 p4" using s2 by (simp add: constructed_step [OF id(3)])
    have "wp (case tableInsert x (RingManageQ q) p4 of (ret, p) \<Rightarrow> if ret = -1 then Some (-1 :: int, p) else
        (do { (_, p) \<leftarrow> RingManage_init E x p; Some (0 :: int, p) })) (\<lambda>(r, p'). step E False S p0 p')"
    proof (rule insert_wp [OF s4])
      fix p5 assume p5: "step E False S p0 p5" "deref x p5 = Some (RingManageQ q)"
        "deref x p0 = None \<or> x \<in> S"
      then have "wp (RingManage_init E x p5) (\<lambda>(r, p'). step E False S p0 p')"
        by (intro RingManage_init_wp) auto
      then show "wp (do { (_, p) \<leftarrow> RingManage_init E x p5; Some (0 :: int, p) })
          (\<lambda>(r, p'). step E False S p0 p')"
        unfolding wp_simps by (rule wp_conseq) (auto simp: wp_simps)
    qed (use s4 n in \<open>simp_all add: wp_simps\<close>)
    then show ?thesis by (simp add: performRingManagement_def e Let_def False r n(1))
  qed
qed

end
