(* ===== verification/Engine_Timeouts.thy ===== *)
theory Engine_Timeouts
  imports Engine_Safety
begin

text \<open>
  Timeouts. They are the only handlers that close connections, and a round of timeouts runs the
  handlers of all expired queries from a list made before the first of them: no handler may
  delete another query, or the next one on the list would be used after it was freed.
\<close>

subsection \<open>Closing the connection of a probe\<close>

lemma sm_erase_dom: "fst ` set (sm_erase k m) = fst ` set m - {k}"
  by (auto simp: sm_erase_def)

lemma eraseTCP_fields:
  "tcpFDs (snd (eraseTCPConnectionAt fd p)) = tcpFDs p - {fd}"
  "dnsFDs (snd (eraseTCPConnectionAt fd p)) = dnsFDs p"
  "rendvFDs (snd (eraseTCPConnectionAt fd p)) = rendvFDs p"
  "ownFDs (snd (eraseTCPConnectionAt fd p)) = ownFDs p"
  "nodeFDs (snd (eraseTCPConnectionAt fd p)) = nodeFDs p"
  "infoFDs (snd (eraseTCPConnectionAt fd p)) = infoFDs p"
  "deref x (snd (eraseTCPConnectionAt fd p)) = deref x p"
  by (simp_all add: eraseTCPConnectionAt_def sys_close_def clr_write_def Let_def tcpFDs_def dnsFDs_def
      rendvFDs_def ownFDs_def nodeFDs_def infoFDs_def deref_def sm_erase_dom)

lemma eraseDNS_fields:
  "tcpFDs (snd (eraseDNSConnectionAt fd p)) = tcpFDs p"
  "dnsFDs (snd (eraseDNSConnectionAt fd p)) = dnsFDs p - {fd}"
  "rendvFDs (snd (eraseDNSConnectionAt fd p)) = rendvFDs p"
  "ownFDs (snd (eraseDNSConnectionAt fd p)) = ownFDs p"
  "nodeFDs (snd (eraseDNSConnectionAt fd p)) = nodeFDs p"
  "infoFDs (snd (eraseDNSConnectionAt fd p)) = infoFDs p"
  "deref x (snd (eraseDNSConnectionAt fd p)) = deref x p"
  by (simp_all add: eraseDNSConnectionAt_def sys_close_def clr_read_def Let_def tcpFDs_def dnsFDs_def
      rendvFDs_def ownFDs_def nodeFDs_def infoFDs_def deref_def sm_erase_dom)

lemma pending_eraseTCP:
  "pending p fd' \<Longrightarrow> fd' \<noteq> fd \<Longrightarrow> pending (snd (eraseTCPConnectionAt fd p)) fd'"
  unfolding pending_def eraseTCP_fields
  by (auto simp: eraseTCPConnectionAt_def sys_close_def clr_write_def Let_def)

lemma pending_eraseDNS:
  "pending p fd' \<Longrightarrow> pending (snd (eraseDNSConnectionAt fd p)) fd'"
  unfolding pending_def eraseDNS_fields
  by (auto simp: eraseDNSConnectionAt_def sys_close_def clr_read_def Let_def)

lemma eraseTCP_sockets_ok:
  assumes "sockets_ok p" "fd \<in> tcpFDs p"
  shows "sockets_ok (snd (eraseTCPConnectionAt fd p))"
proof -
  have sel: "g_openFDs (snd (eraseTCPConnectionAt fd p)) = removeAll fd (g_openFDs p)"
    "g_writeSet (snd (eraseTCPConnectionAt fd p)) = (g_writeSet p)(fd := False)"
    "g_meridSock (snd (eraseTCPConnectionAt fd p)) = g_meridSock p"
    "g_icmpSock (snd (eraseTCPConnectionAt fd p)) = g_icmpSock p"
    "g_infoConnects (snd (eraseTCPConnectionAt fd p)) = g_infoConnects p"
    "g_rendvConnections (snd (eraseTCPConnectionAt fd p)) = g_rendvConnections p"
    "g_rendvQueue (snd (eraseTCPConnectionAt fd p)) = g_rendvQueue p"
    "g_stopFD (snd (eraseTCPConnectionAt fd p)) = g_stopFD p"
    by (simp_all add: eraseTCPConnectionAt_def sys_close_def clr_write_def Let_def)
  have "\<forall>fd'. g_writeSet (snd (eraseTCPConnectionAt fd p)) fd' \<longrightarrow>
      pending (snd (eraseTCPConnectionAt fd p)) fd'"
    using assms(1) pending_eraseTCP unfolding sel by (auto simp: sockets_ok_def)
  then show ?thesis
    using assms unfolding sockets_ok_def eraseTCP_fields sel by auto
qed

lemma eraseDNS_sockets_ok:
  assumes "sockets_ok p" "fd \<in> dnsFDs p"
  shows "sockets_ok (snd (eraseDNSConnectionAt fd p))"
proof -
  have sel: "g_openFDs (snd (eraseDNSConnectionAt fd p)) = removeAll fd (g_openFDs p)"
    "g_writeSet (snd (eraseDNSConnectionAt fd p)) = g_writeSet p"
    "g_meridSock (snd (eraseDNSConnectionAt fd p)) = g_meridSock p"
    "g_icmpSock (snd (eraseDNSConnectionAt fd p)) = g_icmpSock p"
    "g_infoConnects (snd (eraseDNSConnectionAt fd p)) = g_infoConnects p"
    "g_rendvConnections (snd (eraseDNSConnectionAt fd p)) = g_rendvConnections p"
    "g_rendvQueue (snd (eraseDNSConnectionAt fd p)) = g_rendvQueue p"
    "g_stopFD (snd (eraseDNSConnectionAt fd p)) = g_stopFD p"
    by (simp_all add: eraseDNSConnectionAt_def sys_close_def clr_read_def Let_def)
  have "\<forall>fd'. g_writeSet (snd (eraseDNSConnectionAt fd p)) fd' \<longrightarrow>
      pending (snd (eraseDNSConnectionAt fd p)) fd'"
    using assms(1) pending_eraseDNS unfolding sel by (auto simp: sockets_ok_def)
  then show ?thesis
    using assms unfolding sockets_ok_def eraseDNS_fields sel by auto
qed

lemma eraseAt_proc_ok:
  assumes "proc_ok E p"
  shows "fd \<in> tcpFDs p \<Longrightarrow> proc_ok E (snd (eraseTCPConnectionAt fd p))"
    and "fd \<in> dnsFDs p \<Longrightarrow> proc_ok E (snd (eraseDNSConnectionAt fd p))"
proof -
  have p: "sockets_ok p" using assms by (simp add: proc_ok_def)
  note so = eraseTCP_sockets_ok [OF p] eraseDNS_sockets_ok [OF p]
  have r: "fd \<in> tcpFDs p \<union> dnsFDs p \<Longrightarrow> in_fd_set fd"
    using open_in_fd_set [OF p] p by (auto simp: sockets_ok_def)
  { assume "fd \<in> tcpFDs p"
    from so(1) [OF this] show "proc_ok E (snd (eraseTCPConnectionAt fd p))"
      using assms r \<open>fd \<in> tcpFDs p\<close>
      by (simp add: proc_ok_def eraseTCPConnectionAt_def sys_close_def clr_write_def Let_def frame_simps) }
  { assume "fd \<in> dnsFDs p"
    from so(2) [OF this] show "proc_ok E (snd (eraseDNSConnectionAt fd p))"
      using assms r \<open>fd \<in> dnsFDs p\<close>
      by (simp add: proc_ok_def eraseDNSConnectionAt_def sys_close_def clr_read_def Let_def frame_simps) }
qed

lemma erase_proc_ok:
  assumes "proc_ok E p"
  shows "proc_ok E (snd (eraseTCPConnection fd p))" "proc_ok E (snd (eraseDNSConnection fd p))"
    "deref x (snd (eraseTCPConnection fd p)) = deref x p"
    "deref x (snd (eraseDNSConnection fd p)) = deref x p"
  using assms eraseAt_proc_ok [OF assms, of fd]
  by (auto simp: eraseTCPConnection_def eraseDNSConnection_def tcpFDs_def dnsFDs_def
      map_of_eq_None_iff eraseTCP_fields eraseDNS_fields)

subsection \<open>Handlers\<close>

text \<open>The sockets of the node itself stay what they are.\<close>

definition kept :: "MeridianProcess \<Rightarrow> MeridianProcess \<Rightarrow> bool" where
  "kept p p' \<longleftrightarrow> g_meridSock p' = g_meridSock p \<and> g_icmpSock p' = g_icmpSock p \<and>
     g_rendvFD p' = g_rendvFD p \<and> g_rendvListener p' = g_rendvListener p"

lemma kept_refl [simp]: "kept p p"
  by (simp add: kept_def)

lemma kept_trans: "kept p p' \<Longrightarrow> kept p' p'' \<Longrightarrow> kept p p''"
  by (simp add: kept_def)

lemma step_kept: "step E c S p p' \<Longrightarrow> kept p p'"
  by (simp add: step_def grows_def kept_def)

lemma erase_kept: "kept p (snd (eraseTCPConnection fd p))" "kept p (snd (eraseDNSConnection fd p))"
  by (simp_all add: kept_def eraseTCPConnection_def eraseDNSConnection_def eraseTCPConnectionAt_def
      eraseDNSConnectionAt_def sys_close_def clr_write_def clr_read_def Let_def)

text \<open>A timeout handler of \<open>x\<close> returns with the other objects unchanged and \<open>x\<close> still there.\<close>

definition times_out :: "env \<Rightarrow> MeridianProcess \<Rightarrow> u64 \<Rightarrow> (int \<times> MeridianProcess) option \<Rightarrow> bool" where
  "times_out E p x m \<longleftrightarrow> wp m (\<lambda>(r, p'). weak_step E {x} p p' \<and> kept p p' \<and> deref x p' \<noteq> None)"

lemma runs_times_out: "runs E c {x} p x m \<Longrightarrow> times_out E p x m"
  unfolding runs_def times_out_def by (erule wp_conseq)
    (auto simp: step_weak step_kept split: prod.splits)

lemma ProbeQuery_handleTimeout_wp:
  assumes pok: "proc_ok E p" and q: "deref x p = Some (ProbeQ q)"
  shows "times_out E p x (ProbeQuery_handleTimeout x p)"
proof -
  define p1 where "p1 = (case pq_kind q of
      KindTCP \<Rightarrow> if pq_sockFD q \<noteq> -1 then snd (eraseTCPConnection (pq_sockFD q) p) else p
    | KindDNS \<Rightarrow> if pq_sockFD q \<noteq> -1 then snd (eraseDNSConnection (pq_sockFD q) p) else p
    | _ \<Rightarrow> p)"
  have p1: "proc_ok E p1" "deref y p1 = deref y p" for y
    using pok erase_proc_ok [OF pok] by (auto simp: p1_def split: probe_kind.split)
  have "runs E True {x} p1 x (Option.bind (modifyQ x finish p1) (\<lambda>p. Some (0, p)))"
    using step_refl [OF p1(1)] q by (intro runs_finish) (auto simp: p1(2))
  moreover have "kept p p1" using erase_kept by (auto simp: p1_def split: probe_kind.split)
  ultimately have "times_out E p x (Option.bind (modifyQ x finish p1) (\<lambda>p. Some (0, p)))"
    unfolding runs_def times_out_def
    by (elim wp_conseq) (auto simp: step_def grows_def kept_def weak_step_def p1(2))
  then show ?thesis
    by (simp add: ProbeQuery_handleTimeout_def this_Probe_def q p1_def [symmetric] Let_def)
qed

lemma runOnce_wp:
  assumes "step E False S p0 p"
  shows "wp (runOnce E obj p) (\<lambda>(r, p'). step E False S p0 p')"
  using performGossip_wp [OF assms] performRingManagement_wp [OF assms]
  by (cases obj) (auto simp: runOnce_def wp_simps elim!: wp_conseq)

lemma Scheduler_handleTimeout_wp:
  assumes pok: "proc_ok E p" and q: "deref x p = Some (SchedulerQ q)"
  shows "times_out E p x (Scheduler_handleTimeout E x p)"
proof -
  have "wp (runOnce E (qs_schedObj q) p) (\<lambda>(r, p'). step E False {} p p')"
    by (rule runOnce_wp [OF step_refl [OF pok]])
  then obtain r p1 where p1: "runOnce E (qs_schedObj q) p = Some (r, p1)" "step E False {} p p1"
    by (auto elim: wpE)
  have d1: "deref x p1 = Some (SchedulerQ q)" using step_frame [OF p1(2) _ q] by simp
  obtain q2 p2 where c: "computeSchedTimeout E q p1 = (q2, p2)" by fastforce
  have p2: "p2 = p1\<lparr>g_clockReads := Suc (g_clockReads p1)\<rparr>"
    using c by (auto simp: computeSchedTimeout_def computeTimeout_def gettimeofday_def
        split: if_splits prod.splits)
  have s2: "step E False {x} p p2" using step_mono [OF p1(2), of "{x}" False] by (simp add: p2 frame_simps)
  have d2: "deref x p2 = Some (SchedulerQ q)" by (simp add: p2 d1 frame_simps)
  have "step E False {x} p (assignQ x (SchedulerQ q2) p2)"
    by (rule step_assignQ [OF s2 _ d2]) (simp_all add: same_subs_def)
  then have "runs E False {x} p x (Scheduler_handleTimeout E x p)"
    by (simp add: Scheduler_handleTimeout_def this_Scheduler_def q p1(1) d1 c modifyQ_def d2
        runs_Some frame_simps)
  then show ?thesis by (rule runs_times_out)
qed

lemma handleQueryTimeout_wp:
  assumes E: "env_ok E" and pok: "proc_ok E p" and q: "deref x p = Some q"
  shows "times_out E p x (handleQueryTimeout E x p)"
  using runs_times_out [OF AddNode_handleTimeout_wp [OF pok]]
    runs_times_out [OF Gossip_handleTimeout_wp [OF pok]] Scheduler_handleTimeout_wp [OF pok]
    runs_times_out [OF RingManage_handleTimeout_wp [OF E pok]] ProbeQuery_handleTimeout_wp [OF pok]
    runs_times_out [OF HandleReq_handleTimeout_wp [OF pok]]
    runs_times_out [OF ReqProbe_handleTimeout_wp [OF pok]]
    runs_times_out [OF Closest_handleTimeout_wp [OF pok]]
    runs_times_out [OF MC_handleTimeout_wp [OF pok]] q
  by (cases q) (simp_all add: handleQueryTimeout_def)

lemma timeoutRound_wp:
  assumes E: "env_ok E" and "proc_ok E p" "distinct xs" "\<forall>x \<in> set xs. deref x p \<noteq> None"
  shows "wp (timeoutRound E xs p) (\<lambda>p'. proc_ok E p' \<and> kept p p')"
  using assms(2-)
proof (induction xs arbitrary: p)
  case (Cons x xs)
  obtain q where q: "deref x p = Some q" using Cons.prems(3) by auto
  obtain r p1 q1 where p1: "handleQueryTimeout E x p = Some (r, p1)" "weak_step E {x} p p1"
    "deref x p1 = Some q1" "kept p p1"
    using handleQueryTimeout_wp [OF E Cons.prems(1) q] by (auto simp: times_out_def elim!: wpE)
  have s1: "step E True {x} p1 p1" using p1(2) by (simp add: step_refl weak_step_def)
  obtain r2 p2 where p2: "tableUpdate x p1 = Some (r2, p2)" "step E True {x} p1 p2"
    by (rule wpE [OF tableUpdate_wp [OF s1 _ p1(3)]]) auto
  have "deref y p2 \<noteq> None" if "y \<in> set xs" for y
  proof -
    have y: "y \<notin> {x}" "deref y p \<noteq> None" using Cons.prems that by auto
    then have "deref y p1 = deref y p" using p1(2) unfolding weak_step_def by blast
    then show ?thesis using y step_frame [OF p2(2) y(1)] by fastforce
  qed
  then have "wp (timeoutRound E xs p2) (\<lambda>p'. proc_ok E p' \<and> kept p2 p')"
    using Cons.IH [OF step_ok [OF p2(2)]] Cons.prems(2) by simp
  then show ?case
    using kept_trans [OF p1(4) kept_trans [OF step_kept [OF p2(2)]]]
    by (auto simp: p1(1) p2(1) elim!: wp_conseq)
qed (simp add: wp_simps)

lemma QueryTable_handleTimeout_wp:
  assumes E: "env_ok E" and pok: "proc_ok E p"
  shows "wp (QueryTable_handleTimeout E p) (\<lambda>(r, p'). proc_ok E p' \<and> kept p p')"
proof -
  obtain now p1 where g: "gettimeofday E p = (now, p1)" by fastforce
  then have p1: "p1 = p\<lparr>g_clockReads := Suc (g_clockReads p)\<rparr>"
    using gettimeofday_upd [of E p] by simp
  have ok1: "proc_ok E p1" using pok by (simp add: p1 frame_simps)
  have t: "table_wf (g_queryTable p1)" using ok1 by (simp add: proc_ok_def table_ok_def)
  have "deref x p1 \<noteq> None" if "x \<in> set (timedOut now (g_queryTable p1))" for x
    using that timedOut_set(1) [OF t, of now] table_deref [OF ok1, of x]
    by (auto simp: isQueryInTable_def)
  then have "wp (timeoutRound E (timedOut now (g_queryTable p1)) p1) (\<lambda>p'. proc_ok E p' \<and> kept p1 p')"
    by (intro timeoutRound_wp [OF E ok1 timedOut_set(2) [OF t]]) blast
  moreover have "kept p p1" by (simp add: p1 kept_def)
  ultimately obtain p2 where p2: "timeoutRound E (timedOut now (g_queryTable p1)) p1 = Some p2"
    "proc_ok E p2" "kept p p2" using kept_trans by (auto elim!: wpE)
  show ?thesis by (simp add: QueryTable_handleTimeout_def g p2 wp_simps)
qed

end
