(* ===== verification/Node_Packets.thy ===== *)
theory Node_Packets
  imports Node_Loop Engine_Timeouts
begin

text \<open>
  Datagrams: whatever a packet makes the node do, it returns, the invariant holds again, and the
  sockets the loop watches stay open and watched. The only packet that breaks this is a PUSH frame
  the parser rejects.
\<close>

subsection \<open>What handling a packet may do to the sockets\<close>

text \<open>The descriptors in \<open>X\<close> may stop being watched for writing.\<close>

definition extends :: "int set \<Rightarrow> MeridianProcess \<Rightarrow> MeridianProcess \<Rightarrow> bool" where
  "extends X p p' \<longleftrightarrow> nodeFDs p' = nodeFDs p \<and> g_meridSock p' = g_meridSock p \<and>
     g_icmpSock p' = g_icmpSock p \<and> g_rendvFD p' = g_rendvFD p \<and>
     g_rendvListener p' = g_rendvListener p \<and> g_infoSock p' = g_infoSock p \<and>
     g_infoConnects p' = g_infoConnects p \<and>
     rendvFDs p' \<subseteq> rendvFDs p \<and> set (g_openFDs p) \<subseteq> set (g_openFDs p') \<and>
     (\<forall>fd. fd \<notin> X \<longrightarrow> g_writeSet p fd \<longrightarrow> g_writeSet p' fd)"

lemma extends_refl [simp]: "extends X p p"
  by (simp add: extends_def)

lemma extends_trans: "extends X p p' \<Longrightarrow> extends Y p' p'' \<Longrightarrow> extends (X \<union> Y) p p''"
  unfolding extends_def by auto

lemma extends_mono: "extends X p p' \<Longrightarrow> X \<subseteq> Y \<Longrightarrow> extends Y p p'"
  unfolding extends_def by (elim conjE, intro conjI) (assumption+, blast)

definition good :: "env \<Rightarrow> int set \<Rightarrow> MeridianProcess \<Rightarrow> MeridianProcess \<Rightarrow> bool" where
  "good E X p p' \<longleftrightarrow> proc_ok E p' \<and> extends X p p'"

lemma good_refl: "proc_ok E p \<Longrightarrow> good E X p p"
  by (simp add: good_def)

lemma good_ok: "good E X p p' \<Longrightarrow> proc_ok E p'"
  by (simp add: good_def)

lemma good_trans: "good E X p p' \<Longrightarrow> good E Y p' p'' \<Longrightarrow> X \<union> Y \<subseteq> Z \<Longrightarrow> good E Z p p''"
  unfolding good_def using extends_trans extends_mono by metis

lemma step_good: "step E c S p p' \<Longrightarrow> good E X p p'"
  by (auto simp: good_def step_def weak_step_def grows_def extends_def nodeFDs_def rendvFDs_def)

abbreviation runs_on :: "env \<Rightarrow> MeridianProcess \<Rightarrow> (int \<times> MeridianProcess) option \<Rightarrow> bool" where
  "runs_on E p m \<equiv> wp m (\<lambda>(r, p'). step E False UNIV p p')"

subsection \<open>Requests\<close>

lemma start_query_wp:
  assumes s: "step E False UNIV p0 p" and q: "query_ok q" "subscribers q = []"
    and init: "\<And>p1. step E False UNIV p0 p1 \<Longrightarrow> deref x p1 = Some q \<Longrightarrow> runs_on E p0 (init p1)"
  shows "runs_on E p0 (case tableInsert x q p of (ret, p) \<Rightarrow> if ret = -1 then Some (0, p)
     else do { (_, p) \<leftarrow> init p; Some (0 :: int, p) })"
proof (rule insert_wp [OF s q])
  fix p1 assume "step E False UNIV p0 p1" "deref x p1 = Some q"
  then show "runs_on E p0 (do { (_, p) \<leftarrow> init p1; Some (0 :: int, p) })"
    using init by (fastforce simp: wp_simps elim: wp_conseq)
qed (use s in \<open>simp_all add: wp_simps\<close>)

lemma insort_all:
  "ks_ok f xs \<Longrightarrow> ks_ok f (fold (\<lambda>n. insort_insert_key f (g n)) ns xs)"
  by (induction ns arbitrary: xs) simp_all

lemma distinct_insort_all:
  "distinct (fold (\<lambda>n. insort_insert (g n)) ns ([] :: NodeIdent list))"
  using insort_all [of "\<lambda>n. n" "[]" g ns] by (simp add: ks_ok_iff)

lemma step_computeTimeout:
  "step E c S p0 p \<Longrightarrow> computeTimeout E t p = (tv, p') \<Longrightarrow> step E c S p0 p'"
  using step_prims(4) by (metis snd_conv)

lemma handleMeasureReq_wp:
  assumes E: "env_ok E" and pok: "proc_ok E p"
  shows "runs_on E p (handleMeasureReq E k remote buf p)"
proof (cases "fst (ReqGeneric_parse (measureType k) (env_magic E) buf)")
  case None
  then show ?thesis using pok by (simp add: handleMeasureReq_def wp_simps step_refl)
next
  case (Some tmp)
  let ?src = "requester remote (rendv_addr tmp) (rendv_port tmp)"
  have s: "step E False UNIV p p" using pok by (rule step_refl)
  show ?thesis
  proof (cases "rg_targets tmp = []")
    case True
    then show ?thesis
      using Some step_sendPacket [OF s] by (simp add: handleMeasureReq_def Let_def wp_simps)
  next
    case False
    obtain tv p1 where c: "computeTimeout E (MAX_RTT_MS * MICRO_IN_MILLI) p = (tv, p1)" by fastforce
    note s1 = step_computeTimeout [OF s c]
    have new: "\<exists>q. newHandleReq E k ?src (rg_targets tmp) p = (HandleReqQ q, p1) \<and> request_ok q"
      by (simp add: newHandleReq_def c request_ok_def distinct_insort_all)
    then obtain q where q: "newHandleReq E k ?src (rg_targets tmp) p = (HandleReqQ q, p1)"
      "request_ok q" by blast
    have "runs_on E p (case tableInsert (retReqID tmp) (HandleReqQ q) p1 of (ret, p) \<Rightarrow>
        if ret = -1 then Some (0, p)
        else do { (_, p) \<leftarrow> HandleReq_init E (notifyQLatency E) (retReqID tmp) p; Some (0 :: int, p) })"
      using q(2) by (intro start_query_wp [OF s1] HandleReq_init_wp [OF E notifyQLatency_ok [of E 1]])
        simp_all
    then show ?thesis using Some False q(1) by (simp add: handleMeasureReq_def Let_def)
  qed
qed

lemma get_uint_failed: "bw_errorFlag b \<Longrightarrow> get_uint b = (ntohl 0, b)"
  by (simp add: get_uint_def retrieve_uint_def)

lemma has_header_nonempty: "has_header magic buf \<Longrightarrow> buf \<noteq> []"
proof (rule notI)
  assume h: "has_header magic buf" "buf = []"
  have "retrieve_char (rd [] []) = (0, (rd [] [])\<lparr>bw_errorFlag := True\<rparr>)"
    using retrieve_buf_short [of "[]" 1 "[]"] by (simp add: retrieve_char_def)
  with h show False
    by (simp add: has_header_def parseHeader_def new_rd [of "[]", simplified] get_uint_failed Let_def)
qed

lemma header_packet_ok: "has_header (env_magic E) buf \<Longrightarrow> packet_ok E x buf p"
  using has_header_nonempty by (auto simp: packet_ok_def split: option.split query.split)

lemma notify_wp:
  assumes E: "env_ok E" and pok: "proc_ok E p" and h: "has_header (env_magic E) buf"
  shows "runs_on E p (notifyQPacket E x remote buf p)"
  using notifyQPacket_wp [OF E pok header_packet_ok [OF h], of x remote]
  by (rule wp_conseq) (auto elim: step_mono)

lemma notify_again_wp:
  assumes "env_ok E" "proc_ok E p" "has_header (env_magic E) buf"
  shows "runs_on E p (do { (_, p) \<leftarrow> notifyQPacket E x remote buf p; Some (0 :: int, p) })"
  using notify_wp [OF assms, of x remote] unfolding wp_simps
  by (rule wp_conseq) (auto simp: wp_simps)

lemma handleClosestReq_wp:
  assumes E: "env_ok E" and pok: "proc_ok E p" and h: "has_header (env_magic E) buf"
  shows "runs_on E p (handleClosestReq E k qid remote buf p)"
proof (cases "isQueryInTable qid (g_queryTable p) \<or>
    fst (ReqClosestGeneric_parse (closestType k) (env_magic E) buf) = None")
  case True
  then show ?thesis using pok notify_again_wp [OF E pok h, of qid remote]
    by (auto simp: handleClosestReq_def wp_simps step_refl)
next
  case False
  then obtain tmp where tmp: "fst (ReqClosestGeneric_parse (closestType k) (env_magic E) buf) = Some tmp"
    by blast
  let ?src = "requester remote (rendv_addr tmp) (rendv_port tmp)"
  obtain tv p1 where c: "computeTimeout E (MAX_RTT_MS * MICRO_IN_MILLI) p = (tv, p1)" by fastforce
  note s1 = step_computeTimeout [OF step_refl [OF pok] c]
  have new: "\<exists>q. newHandleClosest E k (cl_betaNum tmp) (cl_betaDen tmp) ?src (cl_targets tmp) p =
      (HandleClosestQ q, p1) \<and> closest_ok q \<and> hc_stateMachine q = HC_INIT"
    using distinct_insort_all [of "\<lambda>n. n"] by (simp add: newHandleClosest_def c closest_ok_def)
  then obtain q where q: "newHandleClosest E k (cl_betaNum tmp) (cl_betaDen tmp) ?src
      (cl_targets tmp) p = (HandleClosestQ q, p1)" "closest_ok q" "hc_stateMachine q = HC_INIT"
    by blast
  have "runs_on E p (case tableInsert qid (HandleClosestQ q) p1 of (ret, p) \<Rightarrow>
      if ret = -1 then Some (0, p)
      else do { (_, p) \<leftarrow> Closest_init E (notifyQLatency E) qid p; Some (0 :: int, p) })"
    using q(2,3) by (intro start_query_wp [OF s1] Closest_init_wp [OF E notifyQLatency_ok [of E 1]])
      simp_all
  then show ?thesis using False tmp q(1) by (simp add: handleClosestReq_def)
qed

lemma handleMCReq_wp:
  assumes E: "env_ok E" and pok: "proc_ok E p" and h: "has_header (env_magic E) buf"
  shows "runs_on E p (handleMCReq E k qid remote buf p)"
proof (cases "isQueryInTable qid (g_queryTable p) \<or>
    fst (ReqConstraintGeneric_parse (constraintType k) (env_magic E) buf) = None")
  case True
  then show ?thesis using pok notify_again_wp [OF E pok h, of qid remote]
    by (auto simp: handleMCReq_def wp_simps step_refl)
next
  case False
  then obtain tmp where
    tmp: "fst (ReqConstraintGeneric_parse (constraintType k) (env_magic E) buf) = Some tmp" by blast
  let ?src = "requester remote (rendv_addr tmp) (rendv_port tmp)"
  obtain tv p1 where c: "computeTimeout E (MAX_RTT_MS * MICRO_IN_MILLI) p = (tv, p1)" by fastforce
  note s1 = step_computeTimeout [OF step_refl [OF pok] c]
  have new: "\<exists>q. newHandleMC E k (rc_betaNum tmp) (rc_betaDen tmp) ?src (rc_targets tmp) p =
      (HandleMCQ q, p1) \<and> constraint_ok q \<and> mc_stateMachine q = HMC_INIT"
    using insort_all [of ident "[]" "\<lambda>n. n"] by (simp add: newHandleMC_def c constraint_ok_def)
  then obtain q where q: "newHandleMC E k (rc_betaNum tmp) (rc_betaDen tmp) ?src
      (rc_targets tmp) p = (HandleMCQ q, p1)" "constraint_ok q" "mc_stateMachine q = HMC_INIT"
    by blast
  have "runs_on E p (case tableInsert qid (HandleMCQ q) p1 of (ret, p) \<Rightarrow>
      if ret = -1 then Some (0, p)
      else do { (_, p) \<leftarrow> MC_init E (notifyQLatency E) qid p; Some (0 :: int, p) })"
    using q(2,3) by (intro start_query_wp [OF s1] MC_init_wp [OF E notifyQLatency_ok [of E 1]])
      simp_all
  then show ?thesis using False tmp q(1) by (simp add: handleMCReq_def)
qed

subsection \<open>Gossip\<close>

lemma addNodesToRing_wp:
  assumes "step E False S p0 p"
  shows "wp (addNodesToRing E ns p) (step E False S p0)"
  using assms
proof (induction ns arbitrary: p)
  case (Cons n ns)
  have "wp (addNodeToRing E n p) (\<lambda>(r, p'). step E False S p0 p')"
    by (rule addNodeToRing_wp [OF Cons.prems])
  then show ?case using Cons.IH by (fastforce simp: wp_simps elim: wp_conseq)
qed (simp add: wp_simps)

lemma handleGossip_wp:
  assumes pok: "proc_ok E p"
  shows "wp (handleGossip E t remote buf p) (step E False UNIV p)"
proof (cases "fst (GossipPacketGeneric_parse (if t = GOSSIP then GossipPacketPush_type
    else GossipPacketPull_type) (env_magic E) buf)")
  case None
  then show ?thesis using pok by (simp add: handleGossip_def wp_simps step_refl)
next
  case (Some tmp)
  let ?n = "requester remote (rendv_addr tmp) (rendv_port tmp)"
  have answer: "step E False UNIV p (snd (sendPacket f d q))"
    if "step E False UNIV p q0" "getNewQueryID E q0 = (qid, q1)" "fillGossipPacket E g t q1 = (gp, q)"
    for f d q q0 q1 qid g t gp
    using step_sendPacket step_prims(6,8) that by (metis snd_conv)
  have add: "wp (addNodeToRing E ?n p) (\<lambda>(r, p'). step E False UNIV p p')"
    by (rule addNodeToRing_wp [OF step_refl [OF pok]])
  show ?thesis
    unfolding handleGossip_def Some option.case Let_def wp_simps
  proof (rule wp_conseq [OF add], clarify)
    fix r p1 assume s1: "step E False UNIV p p1"
    show "wp (do { p \<leftarrow> addNodesToRing E (gp_targets tmp) p1;
        if t = GOSSIP then (case getNewQueryID E p of (qid, p) \<Rightarrow>
          case fillGossipPacket E (newGossipPacket qid (addr (g_rendvNode p)) (port (g_rendvNode p)))
            ?n p of (gPacket, p) \<Rightarrow>
          Some (snd (sendPacket (GossipPacketGeneric_createRealPacket GossipPacketPull_type
            (env_magic E) gPacket) ?n p)))
        else Some p }) (step E False UNIV p)"
      unfolding wp_simps
      by (rule wp_conseq [OF addNodesToRing_wp [OF s1]])
        (auto simp: wp_simps split: prod.split intro: answer)
  qed
qed

subsection \<open>Frames for a tunnel\<close>

lemma queue_fields:
  "tcpFDs (p\<lparr>g_rendvQueue := q\<rparr>) = tcpFDs p" "dnsFDs (p\<lparr>g_rendvQueue := q\<rparr>) = dnsFDs p"
  "rendvFDs (p\<lparr>g_rendvQueue := q\<rparr>) = rendvFDs p" "ownFDs (p\<lparr>g_rendvQueue := q\<rparr>) = ownFDs p"
  "nodeFDs (p\<lparr>g_rendvQueue := q\<rparr>) = nodeFDs p" "infoFDs (p\<lparr>g_rendvQueue := q\<rparr>) = infoFDs p"
  by (simp_all add: tcpFDs_def dnsFDs_def rendvFDs_def ownFDs_def nodeFDs_def infoFDs_def)

lemma sockets_ok_queue:
  assumes "sockets_ok p" "fd \<in> rendvFDs p" "ms \<noteq> []"
  shows "sockets_ok (p\<lparr>g_rendvQueue := sm_upd fd ms (g_rendvQueue p),
    g_writeSet := (g_writeSet p)(fd := True)\<rparr>)"
proof -
  let ?p = "p\<lparr>g_rendvQueue := sm_upd fd ms (g_rendvQueue p),
    g_writeSet := (g_writeSet p)(fd := True)\<rparr>"
  have "pending ?p fd'" if "g_writeSet ?p fd'" for fd'
    using that assms by (cases "fd' = fd")
      (auto simp: pending_def queue_fields frame_simps sockets_ok_def sm_find_upd neq_Nil_conv)
  then show ?thesis
    using assms unfolding sockets_ok_def by (simp add: queue_fields frame_simps sm_find_upd)
qed

lemma rendv_queue:
  assumes "proc_ok E p" "sm_find (g_rendvConnections p) n = Some fd"
  shows "fd \<in> rendvFDs p" "\<exists>ms. sm_find (g_rendvQueue p) fd = Some ms"
proof -
  show "fd \<in> rendvFDs p"
    using assms(2) by (force simp: rendvFDs_def dest: map_of_SomeD)
  with assms(1) show "\<exists>ms. sm_find (g_rendvQueue p) fd = Some ms"
    by (auto simp: proc_ok_def sockets_ok_def)
qed

definition acceptable :: "env \<Rightarrow> NodeIdent \<Rightarrow> u8 list \<Rightarrow> bool" where
  "acceptable E remoteNode buf \<longleftrightarrow>
     (case parseHeader (env_magic E) (newBufferWrapper buf (int (length buf))) of
        (ret, queryType, _) \<Rightarrow> ret \<noteq> -1 \<and> queryType = PUSH \<longrightarrow>
          fst (PushPacket_parse (env_magic E) remoteNode buf) \<noteq> None)"

lemma handlePush_wp:
  assumes pok: "proc_ok E p" and a: "fst (PushPacket_parse (env_magic E) remote buf) = Some pk"
  shows "wp (handlePush E remote buf p) (good E {} p)"
proof (cases "sm_find (g_rendvConnections p) (ident (rp_dest pk))")
  case None
  then show ?thesis using pok by (simp add: handlePush_def a Let_def wp_simps good_refl)
next
  case (Some fd)
  obtain ms where ms: "sm_find (g_rendvQueue p) fd = Some ms" using rendv_queue [OF pok Some] by blast
  let ?p = "p\<lparr>g_rendvQueue := sm_upd fd (ms @ [pk]) (g_rendvQueue p),
    g_writeSet := (g_writeSet p)(fd := True), g_maxFD := max fd (g_maxFD p)\<rparr>"
  have so: "sockets_ok p" using pok by (simp add: proc_ok_def)
  have "in_fd_set fd"
    using so rendv_queue(1) [OF pok Some] by (auto simp: sockets_ok_def)
  moreover from sockets_ok_queue [OF so rendv_queue(1) [OF pok Some], of "ms @ [pk]"]
  have "good E {} p ?p"
    using pok by (auto simp: good_def proc_ok_def frame_simps extends_def nodeFDs_def rendvFDs_def)
  ultimately show ?thesis by (simp add: handlePush_def a Let_def Some ms wp_simps set_write_def)
qed

subsection \<open>Every packet\<close>

lemma runs_on_good: "runs_on E p m \<Longrightarrow> wp (map_option snd m) (good E {} p)"
  unfolding wp_simps by (erule wp_conseq) (auto intro: step_good)

theorem handleNewPacket_wp:
  assumes E: "env_ok E" and pok: "proc_ok E p" and a: "acceptable E remote buf"
  shows "wp (handleNewPacket E buf remote p) (good E {} p)"
proof -
  obtain ret t x rb where ph: "parseHeader (env_magic E) (newBufferWrapper buf (int (length buf)))
    = (ret, t, x, rb)" by (metis prod_cases4)
  have skip: "wp (Some p) (good E {} p)" using pok by (simp add: wp_simps good_refl)
  show ?thesis
  proof (cases "ret = -1")
    case True
    then show ?thesis using skip by (simp add: handleNewPacket_def ph)
  next
    case False
    then have h: "has_header (env_magic E) buf" by (simp add: has_header_def ph)
    have push: "wp (handlePush E remote buf p) (good E {} p)" if "t = PUSH"
      using a False that handlePush_wp [OF pok] by (auto simp: acceptable_def ph)
    have send: "wp (Some (snd (sendPacket f d p))) (good E {} p)" for f d
      using step_good [OF step_sendPacket [OF step_refl [OF pok]]] by (simp add: wp_simps)
    have gossip: "wp (handleGossip E t' remote buf p) (good E {} p)" for t'
      by (rule wp_conseq [OF handleGossip_wp [OF pok]]) (rule step_good)
    note reqs = runs_on_good [OF handleMeasureReq_wp [OF E pok]]
      runs_on_good [OF handleClosestReq_wp [OF E pok h]]
      runs_on_good [OF handleMCReq_wp [OF E pok h]] runs_on_good [OF notify_wp [OF E pok h]]
    show ?thesis
      unfolding handleNewPacket_def ph prod.case notifying_def
      by (intro wp_if skip push send gossip reqs)
  qed
qed

end
