(* ===== verification/Node_Sending.thy ===== *)
theory Node_Sending
  imports Node_Packets
begin

text \<open>
  The queues of the datagram and the ICMP socket: the loop calls a writer only while its queue is
  not empty, and a queue that has been emptied is not watched any more.
\<close>

subsection \<open>Reading\<close>

definition readable :: "env \<Rightarrow> (NodeIdent \<times> u8 list) option \<Rightarrow> bool" where
  "readable E received \<longleftrightarrow> (case received of None \<Rightarrow> True
     | Some (remoteNode, buf) \<Rightarrow> acceptable E remoteNode (take (unat MAX_UDP_PACKET_SIZE) buf))"

lemma readPacket_wp:
  assumes "env_ok E" "proc_ok E p" "readable E received"
  shows "wp (map_option snd (readPacket E received p)) (good E {} p)"
  using assms handleNewPacket_wp
  by (auto simp: readPacket_def readable_def wp_simps good_refl split: option.split)

definition echo_ok :: "env \<Rightarrow> (u32 \<times> u8 list) option \<Rightarrow> MeridianProcess \<Rightarrow> bool" where
  "echo_ok E received p \<longleftrightarrow> (case received of None \<Rightarrow> True
     | Some (theirAddr, bytes) \<Rightarrow>
         let buf = take MAX_ICMP_PACKET_SIZE bytes in
         echoReply buf p \<longrightarrow> packet_ok E (echoQuery buf) buf p)"

lemma readICMPPacket_wp:
  assumes E: "env_ok E" and pok: "proc_ok E p" and ok: "echo_ok E received p"
  shows "wp (map_option snd (readICMPPacket E received p)) (good E {} p)"
proof (cases "\<exists>a bs. received = Some (a, bs) \<and> echoReply (take MAX_ICMP_PACKET_SIZE bs) p")
  case False
  then show ?thesis using pok
    by (auto simp: readICMPPacket_def Let_def wp_simps good_refl split: option.split)
next
  case True
  then obtain a bs where r: "received = Some (a, bs)" "echoReply (take MAX_ICMP_PACKET_SIZE bs) p"
    by blast
  then have "packet_ok E (echoQuery (take MAX_ICMP_PACKET_SIZE bs)) (take MAX_ICMP_PACKET_SIZE bs) p"
    using ok by (simp add: echo_ok_def Let_def)
  from notifyQPacket_wp [OF E pok this, of "\<lparr>addr = a, port = 0\<rparr>"] show ?thesis
    using r by (auto simp: readICMPPacket_def Let_def wp_simps intro: step_good elim!: wp_conseq)
qed

subsection \<open>Writing\<close>

lemma own_pending:
  assumes "sockets_ok p" "g_writeSet p fd" "fd \<in> set (nodeFDs p)"
  shows "fd = g_meridSock p \<and> g_outPacketList p \<noteq> [] \<or> fd = g_icmpSock p \<and> g_icmpOutPacketList p \<noteq> []"
proof -
  have "pending p fd" using assms by (simp add: sockets_ok_def)
  moreover have "fd \<notin> tcpFDs p" "fd \<notin> rendvFDs p" "fd \<notin> infoFDs p"
    using assms by (auto simp: sockets_ok_def ownFDs_def)
  ultimately show ?thesis by (auto simp: pending_def)
qed

text \<open>The sockets \<^verbatim>\<open>start\<close> insists on are open; a running node has one for rendezvous traffic as well.\<close>

definition main_open :: "MeridianProcess \<Rightarrow> bool" where
  "main_open p \<longleftrightarrow> g_meridSock p \<noteq> -1 \<and> g_icmpSock p \<noteq> -1"

definition running :: "MeridianProcess \<Rightarrow> bool" where
  "running p \<longleftrightarrow> g_meridSock p \<noteq> -1 \<and> g_icmpSock p \<noteq> -1 \<and>
     (g_rendvFD p \<noteq> -1 \<or> g_rendvListener p \<noteq> -1)"

lemma running_main: "running p \<Longrightarrow> main_open p"
  by (simp add: running_def main_open_def)

lemma main_good: "main_open p \<Longrightarrow> good E X p p' \<Longrightarrow> main_open p'"
  by (simp add: main_open_def good_def extends_def)

lemma running_good: "running p \<Longrightarrow> good E X p p' \<Longrightarrow> running p'"
  by (simp add: running_def good_def extends_def)

lemma main_sockets:
  assumes "sockets_ok p" "main_open p"
  shows "g_meridSock p \<in> set (nodeFDs p)" "g_icmpSock p \<in> set (nodeFDs p)"
    "g_meridSock p \<noteq> g_icmpSock p" "in_fd_set (g_meridSock p)" "in_fd_set (g_icmpSock p)"
  using assms main_in_fd_set [OF assms(1)] by (auto simp: main_open_def sockets_ok_def nodeFDs_def split: if_splits)

lemma unwatched:
  assumes so: "sockets_ok p" and run: "main_open p"
  shows "sockets_ok (p\<lparr>g_writeSet := (g_writeSet p)(g_meridSock p := False), g_outPacketList := []\<rparr>)"
    and "sockets_ok (p\<lparr>g_writeSet := (g_writeSet p)(g_icmpSock p := False), g_icmpOutPacketList := []\<rparr>)"
    and "ms \<noteq> [] \<Longrightarrow> sockets_ok (p\<lparr>g_outPacketList := ms\<rparr>)"
    and "ms \<noteq> [] \<Longrightarrow> sockets_ok (p\<lparr>g_icmpOutPacketList := ms\<rparr>)"
  using so main_sockets [OF so run] unfolding sockets_ok_def frame_simps
  by (auto simp: pending_def frame_simps)

text \<open>System calls change the trace and the counters.\<close>

definition sent :: "MeridianProcess \<Rightarrow> MeridianProcess \<Rightarrow> bool" where
  "sent p p' \<longleftrightarrow> (\<exists>k d c. p' = p\<lparr>g_sysCalls := k, g_datagrams := d, g_clockReads := c\<rparr>)"

lemma sent_refl [simp]: "sent p p"
  unfolding sent_def
  by (intro exI [of _ "g_sysCalls p"] exI [of _ "g_datagrams p"] exI [of _ "g_clockReads p"]) simp

lemma sent_more [simp]:
  assumes "sent p p'"
  shows "sent p (p'\<lparr>g_sysCalls := k\<rparr>)" "sent p (p'\<lparr>g_datagrams := d\<rparr>)" "sent p (p'\<lparr>g_clockReads := c\<rparr>)"
proof -
  obtain k0 d0 c0 where p': "p' = p\<lparr>g_sysCalls := k0, g_datagrams := d0, g_clockReads := c0\<rparr>"
    using assms by (auto simp: sent_def)
  have "p'\<lparr>g_sysCalls := k\<rparr> = p\<lparr>g_sysCalls := k, g_datagrams := d0, g_clockReads := c0\<rparr>"
    "p'\<lparr>g_datagrams := d\<rparr> = p\<lparr>g_sysCalls := k0, g_datagrams := d, g_clockReads := c0\<rparr>"
    "p'\<lparr>g_clockReads := c\<rparr> = p\<lparr>g_sysCalls := k0, g_datagrams := d0, g_clockReads := c\<rparr>"
    by (simp_all add: p')
  then show "sent p (p'\<lparr>g_sysCalls := k\<rparr>)" "sent p (p'\<lparr>g_datagrams := d\<rparr>)"
    "sent p (p'\<lparr>g_clockReads := c\<rparr>)"
    unfolding sent_def by blast+
qed

lemma sent_trans: "sent p p' \<Longrightarrow> sent p' p'' \<Longrightarrow> sent p p''"
  unfolding sent_def by force

lemma sent_sockets:
  assumes "sent p p'"
  shows "g_meridSock p' = g_meridSock p" "g_icmpSock p' = g_icmpSock p"
  using assms by (auto simp: sent_def)

lemma sent_performSend: "sent p (snd (performSend E m p))"
  by (simp add: performSend_def sys_call_def Let_def split: option.split)

lemma writePendingLoop_form:
  "writePendingLoop E ms p = (left, p') \<Longrightarrow> \<exists>q. sent p q \<and> p' =
     (if left = [] then clr_write (g_meridSock p) q else q)"
proof (induction ms arbitrary: p)
  case Nil
  then show ?case by (intro exI [of _ p]) auto
next
  case (Cons m ms)
  obtain ok p1 where s: "performSend E m p = (ok, p1)" by fastforce
  then have p1: "sent p p1" using sent_performSend [of p E m] by simp
  show ?case
  proof (cases "\<not> ok \<and> env_again E (g_sysCalls p1)")
    case True
    then show ?thesis using Cons.prems s p1 by auto
  next
    case False
    then have "writePendingLoop E ms p1 = (left, p')"
      using Cons.prems s by (auto split: if_splits)
    from Cons.IH [OF this] show ?thesis
      unfolding sent_sockets [OF p1] using sent_trans [OF p1] by blast
  qed
qed

lemma icmpWriteLoop_form:
  "icmpWriteLoop E ms p = (left, p') \<Longrightarrow> \<exists>q. sent p q \<and> p' =
     (if left = [] then clr_write (g_icmpSock p) q else q)"
proof (induction ms arbitrary: p)
  case Nil
  then show ?case by (intro exI [of _ p]) auto
next
  case (Cons m ms)
  obtain ok p1 where s: "sys_call E p = (ok, p1)" by fastforce
  then have p1: "sent p p1" using sys_call_upd [of E p] by simp
  define p2 where "p2 = (if ok then p1\<lparr>g_datagrams := g_datagrams p1 @
    [(ident (rp_dest m), getPayLoad m)]\<rparr> else p1)"
  have p2: "sent p p2" using p1 by (simp add: p2_def)
  show ?case
  proof (cases "\<not> ok \<and> env_again E (g_sysCalls p1)")
    case True
    then show ?thesis using Cons.prems s p1 by auto
  next
    case False
    then have "icmpWriteLoop E ms p2 = (left, p')"
      using Cons.prems s by (auto simp: p2_def split: if_splits)
    from Cons.IH [OF this] show ?thesis
      unfolding sent_sockets [OF p2] using sent_trans [OF p2] by blast
  qed
qed

lemma sent_facts:
  assumes "sent p q"
  shows "sockets_ok p \<Longrightarrow> sockets_ok q" "main_open p \<Longrightarrow> main_open q" "proc_ok E p \<Longrightarrow> proc_ok E q"
    "extends X q p' = extends X p p'"
proof -
  obtain k d c where q: "q = p\<lparr>g_sysCalls := k, g_datagrams := d, g_clockReads := c\<rparr>"
    using assms by (auto simp: sent_def)
  show "sockets_ok p \<Longrightarrow> sockets_ok q" "main_open p \<Longrightarrow> main_open q" "proc_ok E p \<Longrightarrow> proc_ok E q"
    by (simp_all add: q frame_simps main_open_def)
  show "extends X q p' = extends X p p'" by (simp add: q extends_def nodeFDs_def rendvFDs_def)
qed

lemma writePending_wp:
  assumes pok: "proc_ok E p" and run: "main_open p" and w: "g_writeSet p (g_meridSock p)"
  shows "wp (writePending E p) (good E {g_meridSock p} p)"
proof -
  have so: "sockets_ok p" using pok by (simp add: proc_ok_def)
  obtain left p1 where l: "writePendingLoop E (g_outPacketList p) p = (left, p1)" by fastforce
  from writePendingLoop_form [OF l] obtain q where q: "sent p q"
    "p1 = (if left = [] then clr_write (g_meridSock p) q else q)" by blast
  have sq: "g_meridSock p = g_meridSock q" using sent_sockets [OF q(1)] by simp
  note fq = sent_facts [OF q(1)]
  have r: "in_fd_set (g_meridSock q)" "in_fd_set (g_icmpSock q)"
    using main_sockets(4,5) [OF fq(1) [OF so] fq(2) [OF run]] by simp_all
  have "sockets_ok (p1\<lparr>g_outPacketList := left\<rparr>)"
    using unwatched(1,3) [OF fq(1) [OF so] fq(2) [OF run]]
    by (cases left) (simp_all add: q(2) sq r clr_write_def)
  then have "proc_ok E (p1\<lparr>g_outPacketList := left\<rparr>)"
    using fq(3) [OF pok] by (auto simp: q(2) sq r clr_write_def proc_ok_def frame_simps)
  moreover have "extends {g_meridSock p} q (p1\<lparr>g_outPacketList := left\<rparr>)"
    by (auto simp: q(2) clr_write_def extends_def nodeFDs_def rendvFDs_def)
  ultimately have "good E {g_meridSock p} p (p1\<lparr>g_outPacketList := left\<rparr>)"
    using fq(4) by (auto simp: good_def)
  moreover have "g_outPacketList p \<noteq> []"
    using own_pending [OF so w] main_sockets [OF so run] by auto
  ultimately show ?thesis by (simp add: writePending_def l wp_simps)
qed

lemma icmpWritePending_wp:
  assumes pok: "proc_ok E p" and run: "main_open p" and w: "g_writeSet p (g_icmpSock p)"
  shows "wp (icmpWritePending E p) (good E {g_icmpSock p} p)"
proof -
  have so: "sockets_ok p" using pok by (simp add: proc_ok_def)
  obtain left p1 where l: "icmpWriteLoop E (g_icmpOutPacketList p) p = (left, p1)" by fastforce
  from icmpWriteLoop_form [OF l] obtain q where q: "sent p q"
    "p1 = (if left = [] then clr_write (g_icmpSock p) q else q)" by blast
  have sq: "g_icmpSock p = g_icmpSock q" using sent_sockets [OF q(1)] by simp
  note fq = sent_facts [OF q(1)]
  have r: "in_fd_set (g_meridSock q)" "in_fd_set (g_icmpSock q)"
    using main_sockets(4,5) [OF fq(1) [OF so] fq(2) [OF run]] by simp_all
  have "sockets_ok (p1\<lparr>g_icmpOutPacketList := left\<rparr>)"
    using unwatched(2,4) [OF fq(1) [OF so] fq(2) [OF run]]
    by (cases left) (simp_all add: q(2) sq r clr_write_def)
  then have "proc_ok E (p1\<lparr>g_icmpOutPacketList := left\<rparr>)"
    using fq(3) [OF pok] by (auto simp: q(2) sq r clr_write_def proc_ok_def frame_simps)
  moreover have "extends {g_icmpSock p} q (p1\<lparr>g_icmpOutPacketList := left\<rparr>)"
    by (auto simp: q(2) clr_write_def extends_def nodeFDs_def rendvFDs_def)
  ultimately have "good E {g_icmpSock p} p (p1\<lparr>g_icmpOutPacketList := left\<rparr>)"
    using fq(4) by (auto simp: good_def)
  moreover have "g_icmpOutPacketList p \<noteq> []"
    using own_pending [OF so w] main_sockets [OF so run] by auto
  ultimately show ?thesis by (simp add: icmpWritePending_def l wp_simps)
qed

end
