(* ===== verification/Node_Tunnels.thy ===== *)
theory Node_Tunnels
  imports Node_Sending
begin

text \<open>
  The tunnels: the assertions on the queues hold because every tunnel has a queue and is only
  watched while the queue is not empty, also across the tunnels an iteration opens and closes.
\<close>

subsection \<open>Closing and opening a tunnel\<close>

lemma conn_fields:
  "tcpFDs (p\<lparr>g_rendvConnections := c\<rparr>) = tcpFDs p" "dnsFDs (p\<lparr>g_rendvConnections := c\<rparr>) = dnsFDs p"
  "ownFDs (p\<lparr>g_rendvConnections := c\<rparr>) = ownFDs p" "nodeFDs (p\<lparr>g_rendvConnections := c\<rparr>) = nodeFDs p"
  "infoFDs (p\<lparr>g_rendvConnections := c\<rparr>) = infoFDs p"
  by (simp_all add: tcpFDs_def dnsFDs_def ownFDs_def nodeFDs_def infoFDs_def)

definition tunnels :: "(NodeIdent, int) smap \<Rightarrow> int set" where
  "tunnels c = snd ` set c"

lemma rendvFDs_conn: "rendvFDs (p\<lparr>g_rendvConnections := c\<rparr>) = tunnels c" "rendvFDs p = tunnels (g_rendvConnections p)"
  by (simp_all add: rendvFDs_def tunnels_def)

lemma tunnels_iff: "tunnels c = {fd. \<exists>n. (n, fd) \<in> set c}"
  by (force simp: tunnels_def)

lemma tunnels_erase:
  assumes "sm_ok c" "inj_on snd (set c)" "sm_find c n = Some fd"
  shows "tunnels (sm_erase n c) = tunnels c - {fd}" "inj_on snd (set (sm_erase n c))"
proof -
  have mem: "(n, fd) \<in> set c" using assms(3) by (rule map_of_SomeD)
  have u: "m = n" if "(m, fd) \<in> set c" for m
    using inj_onD [OF assms(2) _ that mem] by simp
  have v: "fd' = fd" if "(n, fd') \<in> set c" for fd'
    using assms(1,3) that by (metis map_of_is_SomeI option.inject sm_ok_distinct)
  show "tunnels (sm_erase n c) = tunnels c - {fd}"
    unfolding tunnels_iff set_eq_iff using u v by (auto simp: sm_erase_def)
  show "inj_on snd (set (sm_erase n c))"
    using assms(2) by (rule inj_on_subset) (auto simp: sm_erase_def)
qed

lemma sm_upd_new: "sm_find c n = None \<Longrightarrow> set (sm_upd n v c) = insert (n, v) (set c)"
  by (induction n v c rule: sm_upd.induct) (auto split: if_splits)

lemma sockets_ok_remove:
  assumes so: "sockets_ok p" and n: "sm_find (g_rendvConnections p) n = Some fd"
  shows "sockets_ok (p\<lparr>g_rendvConnections := sm_erase n (g_rendvConnections p),
    g_rendvQueue := sm_erase fd (g_rendvQueue p), g_writeSet := (g_writeSet p)(fd := False),
    g_openFDs := removeAll fd (g_openFDs p)\<rparr>)" (is "sockets_ok ?p")
proof -
  have c: "sm_ok (g_rendvConnections p)" "inj_on snd (set (g_rendvConnections p))"
    using so by (simp_all add: sockets_ok_def)
  note e = tunnels_erase [OF c n]
  have fd: "fd \<in> rendvFDs p" using map_of_SomeD [OF n] by (force simp: rendvFDs_def)
  have sets: "tcpFDs ?p = tcpFDs p" "dnsFDs ?p = dnsFDs p" "ownFDs ?p = ownFDs p"
    "nodeFDs ?p = nodeFDs p" "infoFDs ?p = infoFDs p" "rendvFDs ?p = rendvFDs p - {fd}"
    using e(1) by (simp_all add: tcpFDs_def dnsFDs_def ownFDs_def nodeFDs_def infoFDs_def
        rendvFDs_def tunnels_def)
  have "pending ?p fd'" if "g_writeSet p fd'" "fd' \<noteq> fd" for fd'
    using so that unfolding sockets_ok_def pending_def sets by auto
  then show ?thesis
    using so fd e(2) unfolding sockets_ok_def sets by auto
qed

lemma removeRendavousConnection_wp:
  assumes pok: "proc_ok E p" and n: "sm_find (g_rendvConnections p) n = Some fd"
  shows "\<exists>p'. removeRendavousConnection n p = Some p' \<and> proc_ok E p' \<and>
    p' = p\<lparr>g_rendvConnections := sm_erase n (g_rendvConnections p),
      g_rendvQueue := sm_erase fd (g_rendvQueue p), g_writeSet := (g_writeSet p)(fd := False),
      g_openFDs := removeAll fd (g_openFDs p)\<rparr>" (is "\<exists>p'. _ \<and> _ \<and> p' = ?p")
proof -
  have "sockets_ok ?p" using sockets_ok_remove [OF _ n] pok by (simp add: proc_ok_def)
  then have "proc_ok E ?p" using pok by (simp add: proc_ok_def frame_simps)
  moreover have "in_fd_set fd"
    using pok rendv_queue(1) [OF pok n] by (auto simp: proc_ok_def sockets_ok_def)
  ultimately show ?thesis
    using n rendv_queue(2) [OF pok n]
    by (auto simp: removeRendavousConnection_def clr_write_def sys_close_def Let_def)
qed

lemma sockets_ok_insert:
  assumes so: "sockets_ok p" and fd: "unused fd p" "fd \<in> set (g_openFDs p)"
    and n: "sm_find (g_rendvConnections p) n = None"
  shows "sockets_ok (p\<lparr>g_rendvConnections := sm_upd n fd (g_rendvConnections p),
    g_rendvQueue := sm_upd fd [] (g_rendvQueue p)\<rparr>)" (is "sockets_ok ?p")
proof -
  have sets: "tcpFDs ?p = tcpFDs p" "dnsFDs ?p = dnsFDs p" "ownFDs ?p = ownFDs p"
    "nodeFDs ?p = nodeFDs p" "infoFDs ?p = infoFDs p" "rendvFDs ?p = insert fd (rendvFDs p)"
    using sm_upd_new [OF n] by (simp_all add: tcpFDs_def dnsFDs_def ownFDs_def nodeFDs_def
        infoFDs_def rendvFDs_def)
  have i: "inj_on snd (set (sm_upd n fd (g_rendvConnections p)))"
    using so fd(1) sm_upd_new [OF n] by (auto simp: sockets_ok_def unused_def rendvFDs_def)
  have "pending ?p fd'" if w: "g_writeSet p fd'" for fd'
  proof -
    have "pending p fd'" using so w by (simp add: sockets_ok_def)
    then show ?thesis using fd(1) unfolding pending_def sets by (auto simp: unused_def)
  qed
  then show ?thesis
    using so fd i unfolding sockets_ok_def unused_def sets by auto
qed

lemma kept_running: "kept p p' \<Longrightarrow> running p \<Longrightarrow> running p'"
  by (simp add: kept_def running_def)

text \<open>A tunnel reported as writable is one that is watched.\<close>

definition watches :: "(int \<Rightarrow> bool) \<Rightarrow> MeridianProcess \<Rightarrow> bool" where
  "watches W p \<longleftrightarrow> (\<forall>fd \<in> rendvFDs p. W fd \<longrightarrow> g_writeSet p fd)"

lemma insert_tunnel:
  assumes pok: "proc_ok E p" and fd: "unused fd p" "fd \<in> set (g_openFDs p)"
    and n: "sm_find (g_rendvConnections p) n = None" and w: "watches W p" "\<not> W fd"
  shows "proc_ok E (p\<lparr>g_rendvConnections := sm_upd n fd (g_rendvConnections p),
      g_rendvQueue := sm_upd fd [] (g_rendvQueue p)\<rparr>)"
    "watches W (p\<lparr>g_rendvConnections := sm_upd n fd (g_rendvConnections p),
      g_rendvQueue := sm_upd fd [] (g_rendvQueue p)\<rparr>)"
  using sockets_ok_insert [OF _ fd n] pok w sm_upd_new [OF n]
  by (auto simp: proc_ok_def frame_simps watches_def rendvFDs_def)

lemma acceptRendavous_wp:
  assumes E: "env_ok E" and pok: "proc_ok E p" and w: "watches W p"
    and op: "\<forall>fd. W fd \<longrightarrow> fd \<in> set (g_openFDs p)"
  shows "wp (acceptRendavous E n p) (\<lambda>p'. proc_ok E p' \<and> kept p p' \<and> watches W p')"
proof (rule sys_socket_cases [OF E, of p])
  fix p1 assume "sys_socket E p = (-1, p1)" "p1 = p\<lparr>g_sysCalls := Suc (g_sysCalls p)\<rparr>"
  then show ?thesis using pok w
    by (simp add: acceptRendavous_def wp_simps frame_simps kept_def watches_def rendvFDs_def)
next
  fix fd p1
  assume fd: "sys_socket E p = (fd, p1)" "in_fd_set fd" "fd \<notin> set (g_openFDs p)"
    "p1 = p\<lparr>g_sysCalls := Suc (g_sysCalls p), g_openFDs := fd # g_openFDs p\<rparr>"
  have so: "sockets_ok p" using pok by (simp add: proc_ok_def)
  have n1: "fd \<noteq> -1" by (rule in_fd_set_neq [OF fd(2)])
  have swap: "p1 = p\<lparr>g_openFDs := fd # g_openFDs p, g_sysCalls := Suc (g_sysCalls p)\<rparr>"
    by (simp add: fd(4))
  have ok1: "proc_ok E p1"
    using pok sockets_ok_opened [OF so fd(2), of "Suc (g_sysCalls p)"]
    by (simp add: swap proc_ok_def frame_simps)
  have un: "unused fd p1" using closed_unused [OF so fd(3)] by (simp add: unused_def swap frame_simps)
  have w1: "watches W p1" "\<not> W fd" using w op fd(3) by (auto simp: watches_def swap rendvFDs_def)
  have k1: "kept p p1" by (simp add: kept_def swap)
  show ?thesis
  proof (cases "sm_find (g_rendvConnections p1) n")
    case None
    then show ?thesis
      using insert_tunnel [OF ok1 un _ None w1] k1 by (simp add: acceptRendavous_def fd(1) n1 swap wp_simps kept_def)
  next
    case (Some old)
    obtain p2 where p2: "removeRendavousConnection n p1 = Some p2" "proc_ok E p2"
      "p2 = p1\<lparr>g_rendvConnections := sm_erase n (g_rendvConnections p1),
        g_rendvQueue := sm_erase old (g_rendvQueue p1), g_writeSet := (g_writeSet p1)(old := False),
        g_openFDs := removeAll old (g_openFDs p1)\<rparr>"
      using removeRendavousConnection_wp [OF ok1 Some] by blast
    have c: "sm_ok (g_rendvConnections p1)" "inj_on snd (set (g_rendvConnections p1))"
      using ok1 by (simp_all add: proc_ok_def sockets_ok_def)
    note e = tunnels_erase [OF c Some]
    have "old \<in> rendvFDs p1" by (rule rendv_queue(1) [OF ok1 Some])
    then have ne: "old \<noteq> fd" using un by (auto simp: unused_def)
    have r2: "rendvFDs p2 = rendvFDs p1 - {old}"
      using e(1) by (simp add: p2(3) rendvFDs_def tunnels_def)
    have "unused fd p2"
      using un unfolding unused_def r2
      by (simp add: p2(3) tcpFDs_def dnsFDs_def ownFDs_def nodeFDs_def infoFDs_def)
    moreover have "fd \<in> set (g_openFDs p2)" using ne by (simp add: p2(3) swap)
    moreover have "sm_find (g_rendvConnections p2) n = None" by (simp add: p2(3))
    moreover have "watches W p2" using w1(1) unfolding watches_def r2 by (simp add: p2(3))
    ultimately have "proc_ok E (p2\<lparr>g_rendvConnections := sm_upd n fd (g_rendvConnections p2),
          g_rendvQueue := sm_upd fd [] (g_rendvQueue p2)\<rparr>)"
        "watches W (p2\<lparr>g_rendvConnections := sm_upd n fd (g_rendvConnections p2),
          g_rendvQueue := sm_upd fd [] (g_rendvQueue p2)\<rparr>)"
      using insert_tunnel [OF p2(2)] w1(2) by blast+
    moreover have "kept p p2" using k1 by (simp add: p2(3) kept_def)
    ultimately show ?thesis
      using Some by (simp add: acceptRendavous_def fd(1) n1 p2(1) wp_simps kept_def)
  qed
qed

subsection \<open>Writing\<close>

lemma sockets_ok_shift:
  assumes so: "sockets_ok p" and fd: "fd \<in> rendvFDs p"
  shows "sockets_ok (p\<lparr>g_rendvQueue := sm_upd fd (m # ms) (g_rendvQueue p)\<rparr>)"
    and "sockets_ok (p\<lparr>g_rendvQueue := sm_upd fd [] (g_rendvQueue p),
      g_writeSet := (g_writeSet p)(fd := False)\<rparr>)"
proof -
  let ?p = "p\<lparr>g_rendvQueue := sm_upd fd (m # ms) (g_rendvQueue p)\<rparr>"
  have "pending ?p fd'" if "g_writeSet p fd'" for fd'
    using that so unfolding sockets_ok_def pending_def queue_fields by auto
  then show "sockets_ok ?p" using so unfolding sockets_ok_def queue_fields by auto
  let ?q = "p\<lparr>g_rendvQueue := sm_upd fd [] (g_rendvQueue p),
      g_writeSet := (g_writeSet p)(fd := False)\<rparr>"
  have "pending ?q fd'" if "g_writeSet p fd'" "fd' \<noteq> fd" for fd'
    using that so unfolding sockets_ok_def pending_def by (auto simp: queue_fields frame_simps)
  then show "sockets_ok ?q"
    using so unfolding sockets_ok_def by (auto simp: queue_fields frame_simps)
qed

lemma nodeFDs_mem: "fd \<in> set (nodeFDs p) \<longleftrightarrow> fd \<noteq> -1 \<and> fd \<in>
    {g_stopFD p, g_meridSock p, g_icmpSock p, g_infoSock p, g_rendvListener p, g_rendvFD p}"
  by (auto simp: nodeFDs_def)

lemma tunnel_pending:
  assumes "sockets_ok p" "fd \<in> rendvFDs p" "g_writeSet p fd"
  shows "\<exists>m ms. sm_find (g_rendvQueue p) fd = Some (m # ms)"
proof -
  have "fd \<notin> ownFDs p" "fd \<notin> tcpFDs p" "fd \<in> set (g_openFDs p)" "-1 \<notin> set (g_openFDs p)"
    using assms by (auto simp: sockets_ok_def)
  then have "fd \<noteq> g_meridSock p" "fd \<noteq> g_icmpSock p" "fd \<notin> infoFDs p" "fd \<notin> tcpFDs p"
    by (auto simp: ownFDs_def nodeFDs_mem)
  then show ?thesis using assms by (auto simp: sockets_ok_def pending_def)
qed

text \<open>The tunnels of \<open>con\<close> are still to be visited.\<close>

definition to_visit :: "(int \<Rightarrow> bool) \<Rightarrow> (NodeIdent \<times> int) list \<Rightarrow> MeridianProcess \<Rightarrow> bool" where
  "to_visit W con p \<longleftrightarrow> distinct (map fst con) \<and> distinct (map snd con) \<and>
     (\<forall>fd \<in> snd ` set con. fd \<in> rendvFDs p \<and> (W fd \<longrightarrow> g_writeSet p fd))"

definition visited :: "env \<Rightarrow> (NodeIdent \<times> int) list \<Rightarrow> MeridianProcess \<Rightarrow> NodeIdent list
    \<Rightarrow> MeridianProcess \<Rightarrow> bool" where
  "visited E con p dead p' \<longleftrightarrow> proc_ok E p' \<and> kept p p' \<and>
     g_rendvConnections p' = g_rendvConnections p \<and> distinct dead \<and> set dead \<subseteq> fst ` set con"

lemma to_visit_Cons:
  "to_visit W ((n, fd) # con) p \<Longrightarrow> rendvFDs p' = rendvFDs p \<Longrightarrow>
     (\<forall>fd'. fd' \<noteq> fd \<longrightarrow> g_writeSet p fd' \<longrightarrow> g_writeSet p' fd') \<Longrightarrow> to_visit W con p'"
  unfolding to_visit_def by auto

lemma visited_Cons:
  "visited E con p1 dead p' \<Longrightarrow> kept p p1 \<Longrightarrow> g_rendvConnections p1 = g_rendvConnections p \<Longrightarrow>
     visited E ((n, fd) # con) p dead p'"
  "visited E con p1 dead p' \<Longrightarrow> kept p p1 \<Longrightarrow> g_rendvConnections p1 = g_rendvConnections p \<Longrightarrow>
     distinct (n # map fst con) \<Longrightarrow> visited E ((n, fd) # con) p (n # dead) p'"
  unfolding visited_def using kept_trans by auto

lemma tunnelWrite_wp:
  assumes "proc_ok E p" "to_visit W con p"
  shows "wp (tunnelWrite E W con p) (\<lambda>(dead, p'). visited E con p dead p')"
  using assms
proof (induction con arbitrary: p)
  case (Cons c con)
  obtain n fd where c: "c = (n, fd)" by fastforce
  note v = Cons.prems(2) [unfolded c]
  have ok: "sockets_ok p" using Cons.prems(1) by (simp add: proc_ok_def)
  have r: "in_fd_set fd" using ok v by (auto simp: sockets_ok_def to_visit_def)
  have next_step: "wp (tunnelWrite E W con p1) (\<lambda>(dead, p'). visited E (c # con) p dead p')"
    "wp (tunnelWrite E W con p1) (\<lambda>(dead, p'). visited E (c # con) p (n # dead) p')"
    if "proc_ok E p1" "rendvFDs p1 = rendvFDs p" "kept p p1"
      "g_rendvConnections p1 = g_rendvConnections p"
      "\<forall>fd'. fd' \<noteq> fd \<longrightarrow> g_writeSet p fd' \<longrightarrow> g_writeSet p1 fd'" for p1
  proof -
    have d: "distinct (n # map fst con)" using v by (simp add: to_visit_def)
    from Cons.IH [OF that(1) to_visit_Cons [OF v that(2,5)]]
    show "wp (tunnelWrite E W con p1) (\<lambda>(dead, p'). visited E (c # con) p dead p')"
      "wp (tunnelWrite E W con p1) (\<lambda>(dead, p'). visited E (c # con) p (n # dead) p')"
      using visited_Cons(1) [OF _ that(3,4)] visited_Cons(2) [OF _ that(3,4) d]
      unfolding c by (auto elim!: wp_conseq)
  qed
  show ?case
  proof (cases "W fd")
    case False
    then show ?thesis using next_step(1) [of p] Cons.prems(1) r by (simp add: c)
  next
    case True
    have fd: "fd \<in> rendvFDs p" "g_writeSet p fd" using v True by (auto simp: to_visit_def)
    obtain m ms where q: "sm_find (g_rendvQueue p) fd = Some (m # ms)"
      using tunnel_pending [OF ok fd] by blast
    define p1 where "p1 = p\<lparr>g_sysCalls := Suc (g_sysCalls p)\<rparr>"
    have ok1: "proc_ok E p1" "sockets_ok p1" using Cons.prems(1) ok by (simp_all add: p1_def frame_simps)
    have fd1: "fd \<in> rendvFDs p1" using fd by (simp add: p1_def rendvFDs_def)
    have send: "sys_send E p = (env_send E (g_sysCalls p), p1)" by (simp add: sys_send_def p1_def)
    have shift: "proc_ok E (p1\<lparr>g_rendvQueue := sm_upd fd (m' # ms') (g_rendvQueue p1)\<rparr>)"
      "proc_ok E (p1\<lparr>g_rendvQueue := sm_upd fd [] (g_rendvQueue p1),
        g_writeSet := (g_writeSet p1)(fd := False)\<rparr>)" for m' ms'
      using ok1(1) sockets_ok_shift [OF ok1(2) fd1] by (simp_all add: proc_ok_def frame_simps)
    have same: "wp (tunnelWrite E W con (p1\<lparr>g_rendvQueue := sm_upd fd (m' # ms') (g_rendvQueue p1)\<rparr>))
        (\<lambda>(dead, p'). visited E (c # con) p dead p')" for m' ms'
      by (rule next_step(1) [OF shift(1)]) (simp_all add: p1_def kept_def rendvFDs_def)
    have emptied: "wp (tunnelWrite E W con (p1\<lparr>g_rendvQueue := sm_upd fd [] (g_rendvQueue p1),
        g_writeSet := (g_writeSet p1)(fd := False)\<rparr>)) (\<lambda>(dead, p'). visited E (c # con) p dead p')"
      by (rule next_step(1) [OF shift(2)]) (simp_all add: p1_def kept_def rendvFDs_def)
    have gone: "wp (tunnelWrite E W con p1) (\<lambda>(dead, p'). visited E (c # con) p (n # dead) p')"
      by (rule next_step(2) [OF ok1(1)]) (simp_all add: p1_def kept_def rendvFDs_def)
    show ?thesis
      using gone same emptied by (cases ms) (auto simp: c True r q send wp_simps clr_write_def elim!: wp_conseq)
  qed
qed (simp add: visited_def wp_simps)

lemma removeDead_wp:
  assumes "proc_ok E p" "distinct ns" "\<forall>n \<in> set ns. sm_find (g_rendvConnections p) n \<noteq> None"
  shows "wp (removeDead ns p) (\<lambda>p'. proc_ok E p' \<and> kept p p')"
  using assms
proof (induction ns arbitrary: p)
  case (Cons n ns)
  obtain fd where n: "sm_find (g_rendvConnections p) n = Some fd" using Cons.prems(3) by auto
  obtain p1 where p1: "removeRendavousConnection n p = Some p1" "proc_ok E p1"
    "g_rendvConnections p1 = sm_erase n (g_rendvConnections p)" "kept p p1"
    using removeRendavousConnection_wp [OF Cons.prems(1) n] by (auto simp: kept_def)
  have "wp (removeDead ns p1) (\<lambda>p'. proc_ok E p' \<and> kept p1 p')"
    using Cons.prems p1 by (intro Cons.IH) auto
  then show ?case using p1(1,4) kept_trans by (auto elim!: wp_conseq)
qed (simp add: wp_simps)

lemma writeTunnels_wp:
  assumes pok: "proc_ok E p" and w: "watches W p"
  shows "wp (writeTunnels E W p) (\<lambda>p'. proc_ok E p' \<and> kept p p')"
proof -
  have c: "sm_ok (g_rendvConnections p)" "inj_on snd (set (g_rendvConnections p))"
    using pok by (simp_all add: proc_ok_def sockets_ok_def)
  have "distinct (g_rendvConnections p)" using sm_ok_distinct [OF c(1)] by (simp add: distinct_map)
  then have "to_visit W (g_rendvConnections p) p"
    using c w sm_ok_distinct [OF c(1)] by (simp add: to_visit_def watches_def rendvFDs_def distinct_map)
  from tunnelWrite_wp [OF pok this] obtain dead p1 where
    p1: "tunnelWrite E W (g_rendvConnections p) p = Some (dead, p1)"
    "visited E (g_rendvConnections p) p dead p1" by (auto elim!: wpE)
  have "wp (removeDead dead p1) (\<lambda>p'. proc_ok E p' \<and> kept p1 p')"
    using p1(2) by (intro removeDead_wp) (auto simp: visited_def map_of_eq_None_iff)
  then show ?thesis
    using p1 kept_trans by (auto simp: writeTunnels_def visited_def wp_simps elim!: wp_conseq)
qed

subsection \<open>The other end\<close>

text \<open>The frame on top of the stream, if there is one, carries a packet that can be handled.\<close>

definition received_frame :: "env \<Rightarrow> u8 list \<Rightarrow> MeridianProcess \<Rightarrow> RealPacket option \<times> NodeIdent" where
  "received_frame E received p =
     (let buffer = g_rendvRecvPacket p;
          bytes = take (nat (uint (rp_maxPacketSize buffer) - rp_size buffer)) received;
          buffer = buffer\<lparr>rp_packet :=
              mem_write (rp_packet buffer) (nat (rp_size buffer)) bytes\<rparr>;
          buffer = setPayLoadSize (rp_size buffer + int (length bytes)) buffer
      in case PullPacket_parse (env_magic E) buffer \<lparr>addr = 0, port = 0\<rparr> of
           (frame, buffer, srcNode) \<Rightarrow> (frame, srcNode))"

definition tunnel_ok :: "env \<Rightarrow> u8 list \<Rightarrow> MeridianProcess \<Rightarrow> bool" where
  "tunnel_ok E received p \<longleftrightarrow> (case received_frame E received p of
      (Some pk, srcNode) \<Rightarrow> acceptable E srcNode (getPayLoad pk) | (None, _) \<Rightarrow> True)"

lemma tunnelReceive_wp:
  assumes E: "env_ok E" and pok: "proc_ok E p" and ok: "tunnel_ok E received p"
    and r: "in_fd_set (g_rendvFD p)"
  shows "wp (tunnelReceive E received p) (\<lambda>(r, p'). (r \<noteq> -1 \<longrightarrow> proc_ok E p' \<and> kept p p') \<and>
    (r = -1 \<longrightarrow> g_fdFault p' = g_fdFault p))"
proof -
  have buf: "proc_ok E (p\<lparr>g_rendvRecvPacket := b\<rparr>)" for b
    using pok by (simp add: proc_ok_def frame_simps)
  have h: "wp (handleNewPacket E bytes src (p\<lparr>g_rendvRecvPacket := b\<rparr>)) (\<lambda>p'. proc_ok E p' \<and> kept p p')"
    if "acceptable E src bytes" for bytes src b
    using handleNewPacket_wp [OF E buf that, of b]
    by (rule wp_conseq) (auto simp: good_def extends_def kept_def)
  show ?thesis
    using ok buf h r
    by (auto simp: tunnelReceive_def tunnel_ok_def received_frame_def Let_def wp_simps kept_def
        clr_read_def sys_close_def split: prod.splits option.splits elim!: wp_conseq)
qed

lemma handleRendavous_wp:
  assumes E: "env_ok E" and pok: "proc_ok E p" and run: "running p" and w: "watches W p"
    and op: "\<forall>fd. W fd \<longrightarrow> fd \<in> set (g_openFDs p)"
    and ok: "g_rendvFD p \<noteq> -1 \<Longrightarrow> tunnel_ok E received p"
  shows "wp (handleRendavous E R W received n p) (\<lambda>(r, p').
    \<not> g_fdFault p' \<and> (r \<noteq> -1 \<longrightarrow> proc_ok E p' \<and> running p'))"
proof -
  have so: "sockets_ok p" using pok by (simp add: proc_ok_def)
  have r: "g_rendvFD p \<noteq> -1 \<Longrightarrow> in_fd_set (g_rendvFD p)"
    "g_rendvListener p \<noteq> -1 \<Longrightarrow> in_fd_set (g_rendvListener p)"
    by (auto intro!: node_in_fd_set [OF so] simp: nodeFDs_mem)
  have nf: "proc_ok E p1 \<Longrightarrow> running p1 \<Longrightarrow> \<not> g_fdFault p1" for p1
    by (simp add: proc_ok_def fds_ok_def running_def)
  show ?thesis
  proof (cases "g_rendvFD p = -1")
    case False
    then show ?thesis
      using tunnelReceive_wp [OF E pok ok [OF False] r(1) [OF False]] pok run kept_running nf
      by (auto simp: handleRendavous_def r wp_simps elim!: wp_conseq)
  next
    case True
    have l: "g_rendvListener p \<noteq> -1" using True run by (simp add: running_def)
    have acc: "wp (if R (g_rendvListener p) then acceptRendavous E n p else Some p)
        (\<lambda>p'. proc_ok E p' \<and> kept p p' \<and> watches W p')"
      using acceptRendavous_wp [OF E pok w op] pok w by (simp add: wp_simps)
    have "wp (writeTunnels E W p1) (\<lambda>p'. \<not> g_fdFault p' \<and> proc_ok E p' \<and> running p')"
      if "proc_ok E p1" "kept p p1" "watches W p1" for p1
      using writeTunnels_wp [OF that(1,3)] kept_running [OF _ run] kept_trans [OF that(2)] nf
      by (auto elim!: wp_conseq)
    then show ?thesis
      using True r(2) [OF l] acc
      by (auto simp: handleRendavous_def wp_simps elim!: wp_conseq)
  qed
qed

end
