(* ===== verification/Node_Info.thy ===== *)
theory Node_Info
  imports Node_Tunnels
begin

text \<open>
  The information service keeps the invariant: there are never more than the maximal number of
  connections, which is why the cleanup never erases one of them twice.
\<close>

subsection \<open>Serving\<close>

definition info_ok :: "env \<Rightarrow> (int \<Rightarrow> u8 list) \<Rightarrow> (int \<times> RealPacket) list \<Rightarrow> MeridianProcess \<Rightarrow> bool" where
  "info_ok E received con p \<longleftrightarrow> (\<forall>(fd, pk) \<in> set con.
     case take DRAIN_BUFFER_SIZE (received fd) of [] \<Rightarrow> True
     | c # _ \<Rightarrow> c = of_char CHR ''M'' \<or>
         (\<forall>k. getInfoPacket E pk (p\<lparr>g_clockReads := k\<rparr>) \<noteq> None))"

text \<open>What serving the connections leaves alone.\<close>

definition served :: "env \<Rightarrow> MeridianProcess \<Rightarrow> MeridianProcess \<Rightarrow> bool" where
  "served E p p' \<longleftrightarrow> proc_ok E p' \<and> kept p p' \<and> g_infoConnects p' = g_infoConnects p \<and>
     g_infoSock p' = g_infoSock p \<and> g_rings p' = g_rings p \<and> g_hostname p' = g_hostname p \<and>
     g_openFDs p' = g_openFDs p"

lemma served_refl: "proc_ok E p \<Longrightarrow> served E p p"
  by (simp add: served_def)

lemma served_trans: "served E p p' \<Longrightarrow> served E p' p'' \<Longrightarrow> served E p p''"
  unfolding served_def using kept_trans by auto

lemma served_counters:
  "proc_ok E p \<Longrightarrow> served E p (p\<lparr>g_clockReads := k\<rparr>)"
  "proc_ok E p \<Longrightarrow> served E p (p\<lparr>g_sysCalls := k\<rparr>)"
  by (simp_all add: served_def frame_simps kept_def)

lemma sockets_ok_info:
  "sockets_ok p \<Longrightarrow> fd \<in> infoFDs p \<Longrightarrow> sockets_ok (p\<lparr>g_writeSet := (g_writeSet p)(fd := True)\<rparr>)"
  unfolding sockets_ok_def frame_simps by (auto simp: pending_def frame_simps)

lemma served_switch:
  assumes pok: "proc_ok E p" and fd: "fd \<in> infoFDs p"
  shows "served E p (set_write fd (clr_read fd p))"
proof -
  have r: "in_fd_set fd" using pok fd by (auto simp: proc_ok_def sockets_ok_def ownFDs_def)
  have "sockets_ok (clr_read fd p)" "fd \<in> infoFDs (clr_read fd p)"
    using pok fd by (simp_all add: proc_ok_def clr_read_def frame_simps infoFDs_def)
  from sockets_ok_info [OF this] show ?thesis
    using pok r by (auto simp: served_def set_write_def clr_read_def proc_ok_def frame_simps kept_def)
qed

lemma gettimeofday_split: "gettimeofday E p = (env_clock E (g_clockReads p), p\<lparr>g_clockReads := Suc (g_clockReads p)\<rparr>)"
  by (simp add: gettimeofday_def)

lemma getInfoPacket_state:
  "getInfoPacket E pk p = Some (pk', p') \<Longrightarrow> p' = p\<lparr>g_clockReads := Suc (Suc (g_clockReads p))\<rparr>"
  by (auto simp: getInfoPacket_def gettimeofday_def Let_def Option.bind_eq_Some_conv
      split: prod.splits if_splits)

lemma getInfoPacket_cong:
  "g_rings q = g_rings p \<Longrightarrow> g_hostname q = g_hostname p \<Longrightarrow>
     getInfoPacket E pk (q\<lparr>g_clockReads := k\<rparr>) = None \<longleftrightarrow>
     getInfoPacket E pk (p\<lparr>g_clockReads := k\<rparr>) = None"
  by (simp add: getInfoPacket_def gettimeofday_def Let_def split: prod.splits bind_splits)

lemma infoAnswer_wp:
  assumes pok: "proc_ok E p" and fd: "fd \<in> infoFDs p" and ok: "info_ok E received [(fd, pk)] p"
  shows "wp (infoAnswer E fd (received fd) pk p) (\<lambda>(pk', dead, p'). served E p p')"
proof (cases "take DRAIN_BUFFER_SIZE (received fd)")
  case Nil
  show ?thesis
    unfolding infoAnswer_def Nil using pok by (simp add: wp_simps served_refl)
next
  case (Cons c cs)
  show ?thesis
  proof (cases "c = of_char CHR ''M''")
    case True
    then show ?thesis
      using Cons pok fd by (simp add: infoAnswer_def wp_simps served_refl served_switch split: prod.split)
  next
    case False
    then have "\<forall>k. getInfoPacket E pk (p\<lparr>g_clockReads := k\<rparr>) \<noteq> None"
      using ok Cons by (simp add: info_ok_def)
    then have "getInfoPacket E pk (p\<lparr>g_clockReads := g_clockReads p\<rparr>) \<noteq> None" by (rule spec)
    then obtain pk' p1 where g: "getInfoPacket E pk p = Some (pk', p1)" by auto
    have p1: "p1 = p\<lparr>g_clockReads := Suc (Suc (g_clockReads p))\<rparr>" by (rule getInfoPacket_state [OF g])
    have "served E p p1" using served_counters(1) [OF pok] by (simp add: p1)
    moreover have "served E p1 (set_write fd (clr_read fd p1))"
      using fd by (intro served_switch) (simp_all add: p1 pok frame_simps infoFDs_def)
    ultimately show ?thesis
      using Cons False by (simp add: infoAnswer_def g wp_simps served_trans)
  qed
qed

lemma infoSend_served: "proc_ok E p \<Longrightarrow> served E p (snd (snd (infoSend E pk p)))"
  using served_counters(2) by (simp add: infoSend_def sys_send_def)

lemma info_ok_served:
  "served E p p' \<Longrightarrow> info_ok E received con p \<Longrightarrow> info_ok E received con p'"
  using getInfoPacket_cong [of p' p E]
  by (fastforce simp: info_ok_def served_def split: list.splits)

lemma infoServe_wp:
  assumes "proc_ok E p" "fst ` set con \<subseteq> infoFDs p" "info_ok E received con p"
  shows "wp (infoServe E R W received i con p) (\<lambda>(con', dv, p'). served E p p' \<and>
    map fst con' = map fst con \<and> distinct dv \<and> set dv \<subseteq> {i ..< i + length con})"
  using assms
proof (induction con arbitrary: i p)
  case (Cons c con)
  obtain fd pk where c: "c = (fd, pk)" by fastforce
  have fd: "fd \<in> infoFDs p" and ok: "info_ok E received [(fd, pk)] p"
    using Cons.prems by (auto simp: c info_ok_def)
  have r: "in_fd_set fd"
    using fd Cons.prems(1) by (auto simp: proc_ok_def sockets_ok_def ownFDs_def)
  have one: "wp (if R fd then infoAnswer E fd (received fd) pk p
      else if W fd then Some (infoSend E pk p) else Some (pk, False, p))
    (\<lambda>(pk', dead, p'). served E p p')"
    using infoAnswer_wp [OF Cons.prems(1) fd ok] infoSend_served [OF Cons.prems(1), of pk]
      served_refl [OF Cons.prems(1)] by (simp add: wp_simps split_beta)
  have rest: "wp (infoServe E R W received (Suc i) con p1) (\<lambda>(con', dv, p'). served E p p' \<and>
      map fst con' = map fst con \<and> distinct dv \<and> set dv \<subseteq> {Suc i ..< Suc i + length con})"
    if s: "served E p p1" for p1
  proof -
    have "fst ` set con \<subseteq> infoFDs p1" "info_ok E received con p1"
      using Cons.prems(2,3) s info_ok_served [OF s, of received con]
      by (auto simp: c info_ok_def infoFDs_def served_def)
    then show ?thesis
      using Cons.IH [of p1 "Suc i"] s served_trans [OF s] by (auto simp: served_def elim!: wp_conseq)
  qed
  obtain pk' dead p1 where p1: "(if R fd then infoAnswer E fd (received fd) pk p
      else if W fd then Some (infoSend E pk p) else Some (pk, False, p)) = Some (pk', dead, p1)"
    "served E p p1" using one by (auto elim!: wpE)
  obtain con' dv p2 where p2: "infoServe E R W received (Suc i) con p1 = Some (con', dv, p2)"
    "served E p p2" "map fst con' = map fst con" "distinct dv" "set dv \<subseteq> {Suc i ..< Suc i + length con}"
    using rest [OF p1(2)] by (auto elim!: wpE)
  have "distinct ((if dead then [i] else []) @ dv)"
    "set ((if dead then [i] else []) @ dv) \<subseteq> {i ..< i + length ((fd, pk) # con)}"
    using p2(4,5) by fastforce+
  moreover have "infoServe E R W received i (c # con) p =
      Some ((fd, pk') # con', (if dead then [i] else []) @ dv, p2)"
    using p1(1) p2(1) r by (auto simp: c split: if_splits)
  ultimately show ?case using p2(2,3) by (simp add: c wp_simps del: infoServe.simps)
qed (simp add: wp_simps served_refl)

subsection \<open>Cleaning up\<close>

definition closeAll :: "int set \<Rightarrow> MeridianProcess \<Rightarrow> MeridianProcess" where
  "closeAll C p = p\<lparr>g_readSet := (\<lambda>fd. g_readSet p fd \<and> fd \<notin> C),
     g_writeSet := (\<lambda>fd. g_writeSet p fd \<and> fd \<notin> C),
     g_openFDs := filter (\<lambda>fd. fd \<notin> C) (g_openFDs p)\<rparr>"

lemma closeAll_insert: "in_fd_set fd \<Longrightarrow> closeInfo fd (closeAll C p) = closeAll (insert fd C) p"
  by (rule MeridianProcess.equality)
    (auto simp: closeInfo_def closeAll_def clr_read_def clr_write_def sys_close_def
      removeAll_filter_not_eq intro!: filter_cong ext split: if_splits)

lemma fold_closeInfo:
  "\<forall>i \<in> set is. in_fd_set (fst (con ! i)) \<Longrightarrow> fold (\<lambda>i p. closeInfo (fst (con ! i)) p) is (closeAll C p) =
     closeAll (C \<union> (\<lambda>i. fst (con ! i)) ` set is) p"
  by (induction "is" arbitrary: C) (simp_all add: closeAll_insert)

lemma infoErase_closeAll:
  "distinct dv \<Longrightarrow> \<forall>i \<in> set dv. in_fd_set (fst (con ! i)) \<Longrightarrow> infoErase con dv p = Some (closeAll ((\<lambda>i. fst (con ! i)) ` set dv)
     (p\<lparr>g_infoConnects := nths con (- set dv)\<rparr>))"
  using fold_closeInfo [of dv con "{}"] by (simp add: infoErase_def closeAll_def)

lemma info_sockets:
  assumes so: "sockets_ok p" and C: "C \<subseteq> infoFDs p"
    and L: "fst ` set L = (infoFDs p - C) \<union> N" "distinct (map fst L)"
      "length L \<le> MAX_INFO_CONNECTIONS"
    and N: "N \<inter> set (g_openFDs p) = {}" "\<forall>fd \<in> N. in_fd_set fd" "set os = (set (g_openFDs p) - C) \<union> N"
  shows "sockets_ok (p\<lparr>g_infoConnects := L, g_readSet := rs, g_maxFD := m, g_sysCalls := k,
    g_writeSet := (\<lambda>fd. g_writeSet p fd \<and> fd \<notin> C), g_openFDs := os\<rparr>)" (is "sockets_ok ?p")
proof -
  have sets: "tcpFDs ?p = tcpFDs p" "dnsFDs ?p = dnsFDs p" "rendvFDs ?p = rendvFDs p"
    "nodeFDs ?p = nodeFDs p" "infoFDs ?p = (infoFDs p - C) \<union> N"
    "ownFDs ?p = set (nodeFDs p) \<union> (infoFDs p - C) \<union> N"
    using L(1) by (auto simp: tcpFDs_def dnsFDs_def rendvFDs_def nodeFDs_def infoFDs_def ownFDs_def)
  have C': "C \<inter> (tcpFDs p \<union> dnsFDs p \<union> rendvFDs p \<union> set (nodeFDs p)) = {}"
    using so C by (auto simp: sockets_ok_def ownFDs_def)
  have N': "N \<inter> (tcpFDs p \<union> dnsFDs p \<union> rendvFDs p \<union> set (nodeFDs p) \<union> infoFDs p) = {}"
    using so N(1) by (auto simp: sockets_ok_def ownFDs_def)
  have "pending ?p fd" if "g_writeSet p fd" "fd \<notin> C" for fd
    using so that unfolding sockets_ok_def pending_def sets by auto
  then show ?thesis
    using so C' N' N L(2,3) unfolding sockets_ok_def sets ownFDs_def by auto
qed

text \<open>The connections that stay.\<close>

lemma nths_fst:
  assumes d: "distinct (map fst con)" and dv: "distinct dv" "set dv \<subseteq> {..<length con}"
  shows "fst ` set (nths con (- set dv)) = fst ` set con - (\<lambda>i. fst (con ! i)) ` set dv"
    "distinct (map fst (nths con (- set dv)))" "length (nths con (- set dv)) = length con - length dv"
proof -
  have inj: "i = j" if "i < length con" "j < length con" "fst (con ! i) = fst (con ! j)" for i j
    using that d by (metis distinct_conv_nth length_map nth_map)
  show "fst ` set (nths con (- set dv)) = fst ` set con - (\<lambda>i. fst (con ! i)) ` set dv"
  proof (rule set_eqI)
    fix x
    have "x \<in> fst ` set (nths con (- set dv)) \<longleftrightarrow> (\<exists>i < length con. i \<notin> set dv \<and> x = fst (con ! i))"
      unfolding set_nths by blast
    moreover have "x \<in> fst ` set con \<longleftrightarrow> (\<exists>i < length con. x = fst (con ! i))"
      unfolding set_conv_nth by blast
    ultimately show "x \<in> fst ` set (nths con (- set dv)) \<longleftrightarrow>
        x \<in> fst ` set con - (\<lambda>i. fst (con ! i)) ` set dv"
      using inj dv(2) by (auto simp: image_iff) blast+
  qed
  show "distinct (map fst (nths con (- set dv)))"
    using d by (metis distinct_nthsI nths_map)
  have "{i. i < length con \<and> i \<in> - set dv} = {..<length con} - set dv" by auto
  then show "length (nths con (- set dv)) = length con - length dv"
    using dv by (simp add: length_nths card_Diff_subset distinct_card)
qed

lemma erase_info:
  assumes so: "sockets_ok p" and dv: "distinct dv" "set dv \<subseteq> {..<length (g_infoConnects p)}"
  defines "C \<equiv> (\<lambda>i. fst (g_infoConnects p ! i)) ` set dv"
  shows "sockets_ok (p\<lparr>g_infoConnects := nths (g_infoConnects p) (- set dv), g_readSet := rs,
      g_maxFD := m, g_sysCalls := k, g_writeSet := (\<lambda>fd. g_writeSet p fd \<and> fd \<notin> C),
      g_openFDs := filter (\<lambda>fd. fd \<notin> C) (g_openFDs p)\<rparr>)"
    and "length (g_infoConnects p) < MAX_INFO_CONNECTIONS + length dv \<Longrightarrow>
      fd \<notin> set (g_openFDs p) \<Longrightarrow> in_fd_set fd \<Longrightarrow>
      sockets_ok (p\<lparr>g_infoConnects := nths (g_infoConnects p) (- set dv) @ [(fd, pk)], g_readSet := rs,
      g_maxFD := m, g_sysCalls := k, g_writeSet := (\<lambda>fd. g_writeSet p fd \<and> fd \<notin> C),
      g_openFDs := fd # filter (\<lambda>fd. fd \<notin> C) (g_openFDs p)\<rparr>)"
proof -
  have d: "distinct (map fst (g_infoConnects p))" "length (g_infoConnects p) \<le> MAX_INFO_CONNECTIONS"
    "infoFDs p \<subseteq> set (g_openFDs p)"
    using so by (auto simp: sockets_ok_def ownFDs_def)
  note n = nths_fst [OF d(1) dv, folded C_def]
  have C: "C \<subseteq> infoFDs p" using dv(2) by (auto simp: C_def infoFDs_def)
  show "sockets_ok (p\<lparr>g_infoConnects := nths (g_infoConnects p) (- set dv), g_readSet := rs,
      g_maxFD := m, g_sysCalls := k, g_writeSet := (\<lambda>fd. g_writeSet p fd \<and> fd \<notin> C),
      g_openFDs := filter (\<lambda>fd. fd \<notin> C) (g_openFDs p)\<rparr>)"
    by (rule info_sockets [OF so C, where N = "{}"]) (use n d(2) in \<open>auto simp: infoFDs_def\<close>)
  assume fd: "length (g_infoConnects p) < MAX_INFO_CONNECTIONS + length dv"
    "fd \<notin> set (g_openFDs p)" "in_fd_set fd"
  then have "fd \<notin> infoFDs p" using d(3) by blast
  then have "fst ` set (nths (g_infoConnects p) (- set dv) @ [(fd, pk)]) = (infoFDs p - C) \<union> {fd}"
    "distinct (map fst (nths (g_infoConnects p) (- set dv) @ [(fd, pk)]))"
    "length (nths (g_infoConnects p) (- set dv) @ [(fd, pk)]) \<le> MAX_INFO_CONNECTIONS"
    using n d(2) fd(1) by (auto simp: infoFDs_def MAX_INFO_CONNECTIONS_def)
  then show "sockets_ok (p\<lparr>g_infoConnects := nths (g_infoConnects p) (- set dv) @ [(fd, pk)], g_readSet := rs,
      g_maxFD := m, g_sysCalls := k, g_writeSet := (\<lambda>fd. g_writeSet p fd \<and> fd \<notin> C),
      g_openFDs := fd # filter (\<lambda>fd. fd \<notin> C) (g_openFDs p)\<rparr>)"
    by (rule info_sockets [OF so C]) (use fd(2,3) in auto)
qed

lemma proc_ok_sockets:
  assumes "sockets_ok q" "proc_ok E p" "g_rings q = g_rings p" "g_queryTable q = g_queryTable p"
    "g_queries q = g_queries p" "g_tcpCache q = g_tcpCache p" "g_dnsCache q = g_dnsCache p"
    "g_pingCache q = g_pingCache p" "g_icmpCache q = g_icmpCache p"
    "g_fdFault q \<longrightarrow> g_fdFault p \<and> g_meridSock q = g_meridSock p \<and> g_icmpSock q = g_icmpSock p"
  shows "proc_ok E q"
proof -
  have "deref x q = deref x p" for x using assms(5) by (simp add: deref_def)
  moreover have "cacheOf k q = cacheOf k p" for k
    using assms(6-9) by (simp add: cacheOf_def split: probe_kind.split)
  ultimately show ?thesis
    using assms(1-4,10)
    by (auto simp: proc_ok_def caches_ok_def table_ok_def objects_ok_def subs_def fds_ok_def)
qed

lemma served_connects:
  assumes "served E p0 p" "map fst con = map fst (g_infoConnects p0)"
  shows "sockets_ok (p\<lparr>g_infoConnects := con\<rparr>)" "proc_ok E (p\<lparr>g_infoConnects := con\<rparr>)"
proof -
  have e: "fst ` set con = infoFDs p" "length con = length (g_infoConnects p)"
    "map fst con = map fst (g_infoConnects p)"
    using assms map_eq_imp_length_eq [OF assms(2)]
    by (auto simp: served_def infoFDs_def simp flip: set_map)
  have so: "sockets_ok p" using assms(1) by (simp add: served_def proc_ok_def)
  let ?p = "p\<lparr>g_infoConnects := con\<rparr>"
  have sets: "tcpFDs ?p = tcpFDs p" "dnsFDs ?p = dnsFDs p" "rendvFDs ?p = rendvFDs p"
    "nodeFDs ?p = nodeFDs p" "infoFDs ?p = infoFDs p" "ownFDs ?p = ownFDs p" "pending ?p = pending p"
    using e(1) by (auto simp: tcpFDs_def dnsFDs_def rendvFDs_def nodeFDs_def infoFDs_def ownFDs_def
        pending_def fun_eq_iff)
  show "sockets_ok ?p" using so e(2,3) unfolding sockets_ok_def sets by simp
  then show "proc_ok E ?p"
    by (rule proc_ok_sockets [of _ E p]) (use assms(1) in \<open>simp_all add: served_def\<close>)
qed

lemma closeAll_erase: "closeAll C (p\<lparr>g_infoConnects := L\<rparr>) = p\<lparr>g_infoConnects := L,
    g_readSet := (\<lambda>fd. g_readSet p fd \<and> fd \<notin> C), g_maxFD := g_maxFD p, g_sysCalls := g_sysCalls p,
    g_writeSet := (\<lambda>fd. g_writeSet p fd \<and> fd \<notin> C),
    g_openFDs := filter (\<lambda>fd. fd \<notin> C) (g_openFDs p)\<rparr>"
  by (rule MeridianProcess.equality) (simp_all add: closeAll_def)

lemma closeAll_accept:
  assumes "fd \<notin> C" "in_fd_set fd"
  shows "closeAll C ((set_read fd (p\<lparr>g_sysCalls := k, g_openFDs := fd # g_openFDs p,
    g_infoConnects := con\<rparr>))\<lparr>g_infoConnects := L\<rparr>) = p\<lparr>g_infoConnects := L,
    g_readSet := (\<lambda>fd'. ((g_readSet p)(fd := True)) fd' \<and> fd' \<notin> C), g_maxFD := max fd (g_maxFD p),
    g_sysCalls := k, g_writeSet := (\<lambda>fd. g_writeSet p fd \<and> fd \<notin> C),
    g_openFDs := fd # filter (\<lambda>fd. fd \<notin> C) (g_openFDs p)\<rparr>"
  using assms by (intro MeridianProcess.equality) (simp_all add: closeAll_def set_read_def)

lemma erase_wp:
  assumes pok: "proc_ok E p" and run: "running p"
    and dv: "distinct dv" "set dv \<subseteq> {..<length (g_infoConnects p)}"
  shows "wp (infoErase (g_infoConnects p) dv p) (\<lambda>p'. proc_ok E p' \<and> running p')"
    and "length (g_infoConnects p) < MAX_INFO_CONNECTIONS + length dv \<Longrightarrow>
      fd \<notin> set (g_openFDs p) \<Longrightarrow> in_fd_set fd \<Longrightarrow>
      wp (infoErase (g_infoConnects p @ [(fd, pk)]) dv (set_read fd (p\<lparr>g_sysCalls := k,
        g_openFDs := fd # g_openFDs p, g_infoConnects := g_infoConnects p @ [(fd, pk)]\<rparr>)))
      (\<lambda>p'. proc_ok E p' \<and> running p')"
proof -
  let ?C = "(\<lambda>i. fst (g_infoConnects p ! i)) ` set dv"
  have so: "sockets_ok p" using pok by (simp add: proc_ok_def)
  note e = erase_info [OF so dv]
  have r: "\<forall>i \<in> set dv. in_fd_set (fst (g_infoConnects p ! i))"
  proof
    fix i assume "i \<in> set dv"
    then have "fst (g_infoConnects p ! i) \<in> infoFDs p" using dv(2) by (auto simp: infoFDs_def)
    then show "in_fd_set (fst (g_infoConnects p ! i))"
      using so by (auto simp: sockets_ok_def ownFDs_def)
  qed
  have "sockets_ok (closeAll ?C (p\<lparr>g_infoConnects := nths (g_infoConnects p) (- set dv)\<rparr>))"
    unfolding closeAll_erase by (rule e(1))
  then show "wp (infoErase (g_infoConnects p) dv p) (\<lambda>p'. proc_ok E p' \<and> running p')"
    unfolding infoErase_closeAll [OF dv(1) r] wp_simps
    using proc_ok_sockets [OF _ pok] run by (simp add: closeAll_def running_def)
  assume fd: "length (g_infoConnects p) < MAX_INFO_CONNECTIONS + length dv"
    "fd \<notin> set (g_openFDs p)" "in_fd_set fd"
  let ?con = "g_infoConnects p @ [(fd, pk)]"
  let ?p = "set_read fd (p\<lparr>g_sysCalls := k, g_openFDs := fd # g_openFDs p, g_infoConnects := ?con\<rparr>)"
  have C: "(\<lambda>i. fst (?con ! i)) ` set dv = ?C" using dv(2) by (intro image_cong) (auto simp: nth_append)
  have r': "\<forall>i \<in> set dv. in_fd_set (fst (?con ! i))"
    using r dv(2) by (auto simp: nth_append)
  have "?C \<subseteq> infoFDs p" using dv(2) by (auto simp: infoFDs_def)
  then have nC: "fd \<notin> ?C" using so fd(2) by (auto simp: sockets_ok_def ownFDs_def)
  have nth: "nths ?con (- set dv) = nths (g_infoConnects p) (- set dv) @ [(fd, pk)]"
    using dv(2) by (auto simp: nths_append)
  have "sockets_ok (closeAll ?C (?p\<lparr>g_infoConnects := nths ?con (- set dv)\<rparr>))"
    unfolding closeAll_accept [OF nC fd(3)] nth by (rule e(2) [OF fd])
  then show "wp (infoErase ?con dv ?p) (\<lambda>p'. proc_ok E p' \<and> running p')"
    unfolding infoErase_closeAll [OF dv(1) r'] wp_simps C
    using proc_ok_sockets [OF _ pok] run fd(3) by (simp add: closeAll_def running_def set_read_def)
qed

theorem handleInfoConnections_wp:
  assumes E: "env_ok E" and pok: "proc_ok E p" and run: "running p"
    and ok: "info_ok E received (g_infoConnects p) p"
  shows "wp (handleInfoConnections E R W received n p) (\<lambda>p'. proc_ok E p' \<and> running p')"
proof (cases "g_infoSock p = -1")
  case True
  then show ?thesis using pok run by (simp add: handleInfoConnections_def wp_simps)
next
  case False
  obtain con dv p1 where p1: "infoServe E R W received 0 (g_infoConnects p) p = Some (con, dv, p1)"
    "served E p p1" "map fst con = map fst (g_infoConnects p)" "distinct dv"
    "set dv \<subseteq> {..<length (g_infoConnects p)}"
    using infoServe_wp [OF pok _ ok, of R W 0] by (auto simp: infoFDs_def atLeast0LessThan elim!: wpE)
  have len: "length con = length (g_infoConnects p)" using map_eq_imp_length_eq [OF p1(3)] .
  define q where "q = p1\<lparr>g_infoConnects := con\<rparr>"
  have q: "proc_ok E q" "running q" "g_infoConnects q = con" "length con \<le> MAX_INFO_CONNECTIONS"
    using served_connects(2) [OF p1(2,3)] p1(2) kept_running [OF _ run] pok len
    by (simp_all add: q_def running_def served_def proc_ok_def sockets_ok_def)
  have dv: "set dv \<subseteq> {..<length (g_infoConnects q)}" using p1(5) len q(3) by simp
  have bump: "proc_ok E (q\<lparr>g_sysCalls := k\<rparr>)" "running (q\<lparr>g_sysCalls := k\<rparr>)" for k
    using q by (simp_all add: frame_simps running_def)
  have stay: "wp (infoErase con dv (q\<lparr>g_sysCalls := k\<rparr>)) (\<lambda>p'. proc_ok E p' \<and> running p')" for k
    using erase_wp(1) [OF bump p1(4)] dv q(3) by simp
  have stay0: "wp (infoErase con dv q) (\<lambda>p'. proc_ok E p' \<and> running p')"
    using erase_wp(1) [OF q(1,2) p1(4) dv] q(3) by simp
  have "g_infoSock q \<noteq> -1" using False p1(2) by (simp add: q_def served_def)
  then have r: "in_fd_set (g_infoSock q)"
    using q(1) by (intro node_in_fd_set [of q]) (simp_all add: proc_ok_def nodeFDs_mem)
  have "wp (do { (dv, p) \<leftarrow> infoAccept E R n dv q; infoErase (g_infoConnects p) dv p })
      (\<lambda>p'. proc_ok E p' \<and> running p')"
  proof (cases "R (g_infoSock q)")
    case False
    then show ?thesis using stay0 r by (simp add: infoAccept_def q(3))
  next
    case True
    show ?thesis
    proof (rule sys_socket_cases [OF E, of q])
      fix p2 assume "sys_socket E q = (-1, p2)" "p2 = q\<lparr>g_sysCalls := Suc (g_sysCalls q)\<rparr>"
      then show ?thesis using True stay q(3) r by (simp add: infoAccept_def)
    next
      fix fd p2
      assume fd: "sys_socket E q = (fd, p2)" "in_fd_set fd" "fd \<notin> set (g_openFDs q)"
        "p2 = q\<lparr>g_sysCalls := Suc (g_sysCalls q), g_openFDs := fd # g_openFDs q\<rparr>"
      define dv' where "dv' = (if Suc (length con) > MAX_INFO_CONNECTIONS + length dv
        then dv @ [0] else dv)"
      have "Suc (length con) > MAX_INFO_CONNECTIONS + length dv \<Longrightarrow> dv = [] \<and> 0 < length con"
        using q(4) by (cases dv; cases con) (simp_all add: MAX_INFO_CONNECTIONS_def)
      then have d: "distinct dv'" "set dv' \<subseteq> {..<length (g_infoConnects q)}"
        "length (g_infoConnects q) < MAX_INFO_CONNECTIONS + length dv'"
        using p1(4) dv q(3,4) by (auto simp: dv'_def)
      show ?thesis
        using True erase_wp(2) [OF q(1,2) d(1,2,3) fd(3,2)] in_fd_set_neq [OF fd(2)] r
        by (simp add: infoAccept_def fd(1,4) Let_def q(3) dv'_def set_read_def)
    qed
  qed
  then show ?thesis using False by (simp add: handleInfoConnections_def p1(1) q_def wp_simps)
qed

end
