(* ===== verification/Node_Safety.thy ===== *)
theory Node_Safety
  imports Node_Info
begin

text \<open>
  The event loop: an iteration, and so any number of them, returns with the invariant, provided the
  packets that arrive are not among the few the code does not tolerate.
\<close>

subsection \<open>The connections of the probes\<close>

definition erasable :: "env \<Rightarrow> int set \<Rightarrow> (MeridianProcess \<Rightarrow> int set) \<Rightarrow> MeridianProcess \<Rightarrow> bool" where
  "erasable E C fds p \<longleftrightarrow> proc_ok E p \<and> running p \<and>
     (\<forall>fd \<in> C. in_fd_set fd \<and> (fd \<in> fds p \<or> fd \<notin> set (g_openFDs p)))"

lemma eraseAt_again:
  assumes pok: "proc_ok E p" and fd: "fd \<notin> set (g_openFDs p)" "in_fd_set fd"
  shows "proc_ok E (snd (eraseTCPConnectionAt fd p))" "proc_ok E (snd (eraseDNSConnectionAt fd p))"
proof -
  have so: "sockets_ok p" using pok by (simp add: proc_ok_def)
  then have u: "fd \<notin> tcpFDs p" "fd \<notin> dnsFDs p" using fd by (auto simp: sockets_ok_def)
  have id: "sm_erase fd (g_tcpProbeConnections p) = g_tcpProbeConnections p"
    "sm_erase fd (g_dnsProbeConnections p) = g_dnsProbeConnections p"
    using u by (auto simp: sm_erase_def tcpFDs_def dnsFDs_def filter_id_conv)
  have w: "sockets_ok (p\<lparr>g_writeSet := (g_writeSet p)(fd := False)\<rparr>)"
    using so unfolding sockets_ok_def frame_simps by (auto simp: pending_def frame_simps)
  show "proc_ok E (snd (eraseTCPConnectionAt fd p))" "proc_ok E (snd (eraseDNSConnectionAt fd p))"
    using pok w fd so
    by (simp_all add: eraseTCPConnectionAt_def eraseDNSConnectionAt_def id sys_close_def clr_write_def
        clr_read_def Let_def proc_ok_def frame_simps removeAll_id)
qed

lemma eraseAt_open:
  "g_openFDs (snd (eraseTCPConnectionAt fd p)) = removeAll fd (g_openFDs p)"
  "g_openFDs (snd (eraseDNSConnectionAt fd p)) = removeAll fd (g_openFDs p)"
  "running (snd (eraseTCPConnectionAt fd p)) = running p"
  "running (snd (eraseDNSConnectionAt fd p)) = running p"
  by (simp_all add: eraseTCPConnectionAt_def eraseDNSConnectionAt_def sys_close_def clr_write_def
      clr_read_def Let_def running_def)

lemma erasable_TCP:
  assumes "erasable E C tcpFDs p" "fd \<in> C"
  shows "erasable E C tcpFDs (snd (eraseTCPConnectionAt fd p))"
  using assms eraseAt_proc_ok(1) [of E p fd] eraseAt_again(1) [of E p fd]
  by (auto simp: erasable_def eraseTCP_fields eraseAt_open)

lemma erasable_DNS:
  assumes "erasable E C dnsFDs p" "fd \<in> C"
  shows "erasable E C dnsFDs (snd (eraseDNSConnectionAt fd p))"
  using assms eraseAt_proc_ok(2) [of E p fd] eraseAt_again(2) [of E p fd]
  by (auto simp: erasable_def eraseDNS_fields eraseAt_open)

lemma fold_erasable:
  assumes "\<And>p fd. erasable E C fds p \<Longrightarrow> fd \<in> C \<Longrightarrow> erasable E C fds (snd (f fd p))"
    and "erasable E C fds p" "set dv \<subseteq> C"
  shows "erasable E C fds (fold (\<lambda>fd p. snd (f fd p)) dv p)"
  using assms(2,3) by (induction dv arbitrary: p) (simp_all add: assms(1))

text \<open>Notifying the probes opens and closes no connection.\<close>

definition notified :: "env \<Rightarrow> MeridianProcess \<Rightarrow> MeridianProcess \<Rightarrow> bool" where
  "notified E p p' \<longleftrightarrow> proc_ok E p' \<and> kept p p' \<and> tcpFDs p' = tcpFDs p \<and> dnsFDs p' = dnsFDs p"

lemma notified_trans: "notified E p p' \<Longrightarrow> notified E p' p'' \<Longrightarrow> notified E p p''"
  unfolding notified_def using kept_trans by auto

lemma notify_notified:
  assumes "proc_ok E p"
  shows "wp (notifyQLatency E x lats p) (\<lambda>(r, p'). notified E p p')"
  using notifyQLatency_wp [OF assms, of x lats]
  by (rule wp_conseq) (auto simp: notified_def step_def weak_step_def grows_def calm_def kept_def
      tcpFDs_def dnsFDs_def)

lemma notified_sysCalls: "proc_ok E p \<Longrightarrow> notified E p (p\<lparr>g_sysCalls := k\<rparr>)"
  by (simp add: notified_def kept_def frame_simps)

lemma probe_in_fd_set:
  assumes "proc_ok E p"
  shows "\<forall>fd \<in> tcpFDs p. in_fd_set fd" "\<forall>fd \<in> dnsFDs p. in_fd_set fd"
  using assms by (auto simp: proc_ok_def sockets_ok_def)

lemma tcpReady_wp:
  assumes "proc_ok E p" "\<forall>c \<in> set con. in_fd_set (fst c)"
  shows "wp (tcpReady E W con p) (\<lambda>(dv, p'). notified E p p' \<and> set dv \<subseteq> fst ` set con)"
  using assms
proof (induction con arbitrary: p)
  case (Cons c con)
  obtain sock x n where c: "c = (sock, x, n)" by (cases c) auto
  have r: "in_fd_set sock" using Cons.prems(2) by (simp add: c)
  have rest: "wp (tcpReady E W con p1) (\<lambda>(dv, p'). notified E p p' \<and> set dv \<subseteq> fst ` set con)"
    if "notified E p p1" for p1
    using Cons.IH [of p1] Cons.prems(2) that notified_trans [OF that] by (auto simp: notified_def elim!: wp_conseq)
  show ?case
  proof (cases "W sock")
    case False
    have "notified E p p" using Cons.prems by (simp add: notified_def)
    from rest [OF this] show ?thesis using False by (auto simp: c r elim!: wp_conseq)
  next
    case True
    let ?p = "p\<lparr>g_sysCalls := Suc (g_sysCalls p)\<rparr>"
    note p1 = notified_sysCalls [OF Cons.prems(1), of "Suc (g_sysCalls p)"]
    have ok1: "proc_ok E ?p" using p1 by (simp add: notified_def)
    have "wp (if env_call E (g_sysCalls p) then notifyQLatency E x [nodeLat n 0] ?p else Some (0, ?p))
        (\<lambda>(r, p'). notified E p p')"
      using notify_notified [OF ok1, of x "[nodeLat n 0]"] p1 notified_trans [OF p1]
      by (auto simp: wp_simps elim!: wp_conseq)
    then obtain r p2 where p2: "(if env_call E (g_sysCalls p) then notifyQLatency E x [nodeLat n 0] ?p
        else Some (0, ?p)) = Some (r, p2)" "notified E p p2" by (auto elim!: wpE)
    show ?thesis using rest [OF p2(2)] p2(1) True
      by (auto simp: c r sys_call_def wp_simps elim!: wp_conseq)
  qed
qed (simp add: wp_simps notified_def)

lemma dnsReady_wp:
  assumes "proc_ok E p" "\<forall>c \<in> set con. in_fd_set (fst c)"
  shows "wp (dnsReady E R con p) (\<lambda>(dv, p'). notified E p p' \<and> set dv \<subseteq> fst ` set con)"
  using assms
proof (induction con arbitrary: p)
  case (Cons c con)
  obtain sock x n where c: "c = (sock, x, n)" by (cases c) auto
  have r: "in_fd_set sock" using Cons.prems(2) by (simp add: c)
  have rest: "wp (dnsReady E R con p1) (\<lambda>(dv, p'). notified E p p' \<and> set dv \<subseteq> fst ` set con)"
    if "notified E p p1" for p1
    using Cons.IH [of p1] Cons.prems(2) that notified_trans [OF that] by (auto simp: notified_def elim!: wp_conseq)
  show ?case
  proof (cases "R sock")
    case False
    have "notified E p p" using Cons.prems by (simp add: notified_def)
    from rest [OF this] show ?thesis using False by (auto simp: c r elim!: wp_conseq)
  next
    case True
    obtain r p2 where p2: "notifyQLatency E x [nodeLat n 0] p = Some (r, p2)" "notified E p p2"
      using notify_notified [OF Cons.prems(1), of x "[nodeLat n 0]"] by (auto elim!: wpE)
    show ?thesis using rest [OF p2(2)] p2(1) True by (auto simp: c r wp_simps elim!: wp_conseq)
  qed
qed (simp add: wp_simps notified_def)

lemma handleTCPConnections_wp:
  assumes pok: "proc_ok E p" and run: "running p"
  shows "wp (handleTCPConnections E W p) (\<lambda>p'. proc_ok E p' \<and> running p')"
proof -
  obtain dv p1 where p1: "tcpReady E W (g_tcpProbeConnections p) p = Some (dv, p1)" "notified E p p1"
    "set dv \<subseteq> tcpFDs p" using tcpReady_wp [OF pok, of "g_tcpProbeConnections p" W] probe_in_fd_set(1) [OF pok]
    by (auto simp: tcpFDs_def elim!: wpE)
  have "erasable E (tcpFDs p) tcpFDs p1"
    using p1(2) kept_running [OF _ run] probe_in_fd_set [OF pok] by (simp add: erasable_def notified_def)
  from fold_erasable [of E "tcpFDs p" tcpFDs eraseTCPConnectionAt, OF erasable_TCP this p1(3)]
  show ?thesis by (simp add: handleTCPConnections_def p1(1) wp_simps erasable_def)
qed

lemma handleDNSConnections_wp:
  assumes pok: "proc_ok E p" and run: "running p"
  shows "wp (handleDNSConnections E R p) (\<lambda>p'. proc_ok E p' \<and> running p')"
proof -
  obtain dv p1 where p1: "dnsReady E R (g_dnsProbeConnections p) p = Some (dv, p1)" "notified E p p1"
    "set dv \<subseteq> dnsFDs p" using dnsReady_wp [OF pok, of "g_dnsProbeConnections p" R] probe_in_fd_set(2) [OF pok]
    by (auto simp: dnsFDs_def elim!: wpE)
  have "erasable E (dnsFDs p) dnsFDs p1"
    using p1(2) kept_running [OF _ run] probe_in_fd_set [OF pok] by (simp add: erasable_def notified_def)
  from fold_erasable [of E "dnsFDs p" dnsFDs eraseDNSConnectionAt, OF erasable_DNS this p1(3)]
  show ?thesis by (simp add: handleDNSConnections_def p1(1) wp_simps erasable_def)
qed

subsection \<open>An iteration\<close>

text \<open>
  What an iteration has to tolerate, at the state in which it gets there: no PUSH frame that does
  not parse, no echo reply to a search that waits for its result, and no web page that outgrows
  its buffer.
\<close>

definition tolerable :: "env \<Rightarrow> arrivals \<Rightarrow> MeridianProcess \<Rightarrow> bool" where
  "tolerable E A p \<longleftrightarrow>
     (let R = (\<lambda>fd. arr_readable A fd \<and> g_readSet p fd);
          W = (\<lambda>fd. arr_writable A fd \<and> g_writeSet p fd) in
      readable E (arr_datagram A) \<and>
      (\<forall>p1. datagramStage E R W A p = Some p1 \<longrightarrow> echo_ok E (arr_echo A) p1 \<and>
        (\<forall>p2. icmpStage E R W A p1 = Some p2 \<longrightarrow> tunnel_ok E (arr_tunnel A) p2 \<and>
          (\<forall>r p3. handleRendavous E R W (arr_tunnel A) (arr_tunnelPeer A) p2 = Some (r, p3) \<longrightarrow>
            info_ok E (arr_info A) (g_infoConnects p3) p3))))"

lemma watched_open:
  assumes "sockets_ok p" "running p" "g_writeSet p fd"
  shows "fd \<in> set (g_openFDs p)"
proof -
  have "pending p fd" using assms by (simp add: sockets_ok_def)
  then have "fd \<in> tcpFDs p \<union> rendvFDs p \<union> ownFDs p"
    using main_sockets [OF assms(1) running_main [OF assms(2)]] by (auto simp: pending_def ownFDs_def)
  then show ?thesis using assms(1) by (auto simp: sockets_ok_def)
qed

lemma datagramStage_wp:
  assumes E: "env_ok E" and pok: "proc_ok E p" and run: "main_open p"
    and W: "W (g_meridSock p) \<Longrightarrow> g_writeSet p (g_meridSock p)"
    and ok: "R (g_meridSock p) \<Longrightarrow> readable E (arr_datagram A)"
  shows "wp (datagramStage E R W A p) (good E {g_meridSock p} p)"
proof -
  have in_set: "in_fd_set (g_meridSock p)"
    using pok by (intro main_sockets(4) [OF _ run]) (simp add: proc_ok_def)
  have "wp (if R (g_meridSock p) then map_option snd (readPacket E (arr_datagram A) p) else Some p)
      (good E {} p)"
    using good_refl [OF pok] by (intro wp_if readPacket_wp [OF E pok ok]) (simp_all add: wp_simps)
  then obtain p1 where p1: "(if R (g_meridSock p) then map_option snd (readPacket E (arr_datagram A) p)
      else Some p) = Some p1" "good E {} p p1" by (rule wpE)
  have w: "wp (writePending E p1) (good E {g_meridSock p1} p1)" if "W (g_meridSock p1)"
    using p1(2) W that main_good [OF run p1(2)]
    by (intro writePending_wp) (auto simp: good_def extends_def)
  have e: "g_meridSock p1 = g_meridSock p" using p1(2) by (simp add: good_def extends_def)
  show ?thesis
    unfolding datagramStage_def FD_ISSET_in [OF in_set] bind.bind_lunit p1(1)
    using w p1(2) good_trans [OF p1(2)] good_trans [OF p1(2) good_refl] in_set
    by (auto simp: wp_simps e good_def intro: extends_mono elim!: wp_conseq)
qed

lemma icmpStage_wp:
  assumes E: "env_ok E" and pok: "proc_ok E p" and run: "main_open p"
    and W: "W (g_icmpSock p) \<Longrightarrow> g_writeSet p (g_icmpSock p)"
    and ok: "R (g_icmpSock p) \<Longrightarrow> echo_ok E (arr_echo A) p"
  shows "wp (icmpStage E R W A p) (good E {g_icmpSock p} p)"
proof -
  have in_set: "in_fd_set (g_icmpSock p)"
    using pok by (intro main_sockets(5) [OF _ run]) (simp add: proc_ok_def)
  have "wp (if R (g_icmpSock p) then map_option snd (readICMPPacket E (arr_echo A) p) else Some p)
      (good E {} p)"
    using good_refl [OF pok] by (intro wp_if readICMPPacket_wp [OF E pok ok]) (simp_all add: wp_simps)
  then obtain p1 where p1: "(if R (g_icmpSock p) then map_option snd (readICMPPacket E (arr_echo A) p)
      else Some p) = Some p1" "good E {} p p1" by (rule wpE)
  have w: "wp (icmpWritePending E p1) (good E {g_icmpSock p1} p1)" if "W (g_icmpSock p1)"
    using p1(2) W that main_good [OF run p1(2)]
    by (intro icmpWritePending_wp) (auto simp: good_def extends_def)
  have e: "g_icmpSock p1 = g_icmpSock p" using p1(2) by (simp add: good_def extends_def)
  show ?thesis
    unfolding icmpStage_def FD_ISSET_in [OF in_set] bind.bind_lunit p1(1)
    using w p1(2) good_trans [OF p1(2)] in_set
    by (auto simp: wp_simps e good_def intro: extends_mono elim!: wp_conseq)
qed

definition carries_on :: "env \<Rightarrow> run_state \<Rightarrow> bool" where
  "carries_on E st \<longleftrightarrow> \<not> g_fdFault (snd st) \<and>
     (fst st = None \<longrightarrow> proc_ok E (snd st) \<and> running (snd st))"

lemma no_fault: "proc_ok E p \<Longrightarrow> running p \<Longrightarrow> \<not> g_fdFault p"
  by (simp add: proc_ok_def fds_ok_def running_def)

lemma stages_watch:
  assumes pok: "proc_ok E p" and run: "running p"
    and g: "good E {g_meridSock p} p p1" "good E {g_icmpSock p1} p1 p2"
    and W: "\<And>fd. W fd \<Longrightarrow> g_writeSet p fd"
  shows "watches W p2" "\<forall>fd. W fd \<longrightarrow> fd \<in> set (g_openFDs p2)"
proof -
  have so: "sockets_ok p" using pok by (simp add: proc_ok_def)
  have e: "extends {g_meridSock p, g_icmpSock p} p p2"
    using g extends_trans [of "{g_meridSock p}" p p1 "{g_icmpSock p1}" p2]
    by (simp add: good_def extends_def insert_commute)
  show "\<forall>fd. W fd \<longrightarrow> fd \<in> set (g_openFDs p2)"
    using e watched_open [OF so run W] by (auto simp: extends_def)
  have "fd \<notin> {g_meridSock p, g_icmpSock p}" if "fd \<in> rendvFDs p" for fd
    using main_sockets [OF so running_main [OF run]] so that by (auto simp: sockets_ok_def ownFDs_def)
  then show "watches W p2"
    using e W unfolding watches_def extends_def by blast
qed

lemma handleReady_wp:
  assumes E: "env_ok E" and pok: "proc_ok E p" and run: "running p" and ok: "tolerable E A p"
  shows "wp (handleReady E A p) (carries_on E)"
proof -
  define R where "R = (\<lambda>fd. arr_readable A fd \<and> g_readSet p fd)"
  define W where "W = (\<lambda>fd. arr_writable A fd \<and> g_writeSet p fd)"
  note t = ok [unfolded tolerable_def Let_def, folded R_def W_def]
  have W: "W fd \<Longrightarrow> g_writeSet p fd" for fd by (simp add: W_def)
  obtain p1 where p1: "datagramStage E R W A p = Some p1" "good E {g_meridSock p} p p1"
    using datagramStage_wp [where A = A and R = R and W = W, OF E pok running_main [OF run] W] t by (auto elim!: wpE)
  have r1: "running p1" by (rule running_good [OF run p1(2)])
  have so: "sockets_ok p" using pok by (simp add: proc_ok_def)
  have "g_icmpSock p1 = g_icmpSock p" "g_icmpSock p \<noteq> g_meridSock p"
    using p1(2) main_sockets [OF so running_main [OF run]] by (auto simp: good_def extends_def)
  then have W1: "W (g_icmpSock p1) \<Longrightarrow> g_writeSet p1 (g_icmpSock p1)"
    using p1(2) W by (auto simp: good_def extends_def)
  have t1: "echo_ok E (arr_echo A) p1" using t p1(1) by blast
  obtain p2 where p2: "icmpStage E R W A p1 = Some p2" "good E {g_icmpSock p1} p1 p2"
    using icmpStage_wp [where W = W and R = R, OF E good_ok [OF p1(2)] running_main [OF r1] W1 t1] by (auto elim!: wpE)
  have t2: "tunnel_ok E (arr_tunnel A) p2" using t p1(1) p2(1) by blast
  have r2: "running p2" by (rule running_good [OF r1 p2(2)])
  obtain r p3 where p3: "handleRendavous E R W (arr_tunnel A) (arr_tunnelPeer A) p2 = Some (r, p3)"
    "r \<noteq> -1 \<Longrightarrow> proc_ok E p3 \<and> running p3" "\<not> g_fdFault p3"
    using handleRendavous_wp [where W = W and R = R and n = "arr_tunnelPeer A",
      OF E good_ok [OF p2(2)] r2 stages_watch [OF pok run p1(2) p2(2) W] t2] by (auto elim!: wpE)
  have rest: "wp (do { p \<leftarrow> handleInfoConnections E R W (arr_info A) (arr_infoPeer A) p3;
      p \<leftarrow> handleTCPConnections E W p; p \<leftarrow> handleDNSConnections E R p; Some (None, p) })
    (carries_on E)" if r: "r \<noteq> -1"
  proof -
    have "info_ok E (arr_info A) (g_infoConnects p3) p3" using t p1(1) p2(1) p3(1) by blast
    from handleInfoConnections_wp [OF E _ _ this, of R W "arr_infoPeer A"]
    obtain p4 where p4: "handleInfoConnections E R W (arr_info A) (arr_infoPeer A) p3 = Some p4"
      "proc_ok E p4" "running p4" using p3(2) [OF r] by (auto elim!: wpE)
    obtain p5 where p5: "handleTCPConnections E W p4 = Some p5" "proc_ok E p5" "running p5"
      using handleTCPConnections_wp [OF p4(2,3), of W] by (auto elim!: wpE)
    show ?thesis
      using handleDNSConnections_wp [OF p5(2,3), of R] no_fault
      by (auto simp: p4(1) p5(1) wp_simps carries_on_def elim!: wp_conseq)
  qed
  have stop: "in_fd_set (g_stopFD p)"
    using so by (simp add: sockets_ok_def)
  show ?thesis
    using rest no_fault [OF pok run] p3(3) stop
    unfolding handleReady_def Let_def R_def [symmetric] W_def [symmetric]
    by (auto simp: p1(1) p2(1) p3(1) wp_simps carries_on_def)
qed

definition wakeup_ok :: "env \<Rightarrow> wakeup \<Rightarrow> MeridianProcess \<Rightarrow> bool" where
  "wakeup_ok E w p \<longleftrightarrow> (case w of Ready A \<Rightarrow> (\<forall>k. tolerable E A (p\<lparr>g_clockReads := k\<rparr>)) | _ \<Rightarrow> True)"

lemma iterateLoop_wp:
  assumes E: "env_ok E" and pok: "proc_ok E p" and run: "running p" and ok: "wakeup_ok E w p"
  shows "wp (iterateLoop E w p) (carries_on E)"
proof -
  define p1 where "p1 = p\<lparr>g_clockReads := Suc (g_clockReads p)\<rparr>"
  obtain now p2 where p2: "(if timeoutQueryMap (g_queryTable p1) = [] then gettimeofday E p1
      else (env_clock E (g_clockReads p), p1)) = (now, p2)" by fastforce
  then have "\<exists>k. p2 = p\<lparr>g_clockReads := k\<rparr>" by (auto simp: p1_def gettimeofday_def split: if_splits)
  then obtain k where k: "p2 = p\<lparr>g_clockReads := k\<rparr>" by blast
  have ok2: "proc_ok E p2" "running p2" using pok run by (simp_all add: k frame_simps running_def)
  have timeout: "wp (do { (_, p) \<leftarrow> evaluateTimeout E p2; Some (None, p) }) (carries_on E)"
    using QueryTable_handleTimeout_wp [OF E ok2(1)] kept_running [OF _ ok2(2)] no_fault
    by (auto simp: evaluateTimeout_def wp_simps carries_on_def elim!: wp_conseq)
  have ready: "wp (handleReady E A p2) (carries_on E)" if "w = Ready A" for A
    using handleReady_wp [OF E ok2] ok that by (simp add: wakeup_ok_def k)
  show ?thesis
    using timeout ready ok2 no_fault [OF ok2]
    by (cases w) (simp_all add: iterateLoop_def gettimeofday_split [of E p] p1_def [symmetric] p2
        wp_simps carries_on_def)
qed

subsection \<open>Runs\<close>

text \<open>A sequence of wake-ups each of which is tolerable where the loop gets to it.\<close>

fun run_ok :: "env \<Rightarrow> wakeup list \<Rightarrow> MeridianProcess \<Rightarrow> bool" where
  "run_ok E [] p = True"
| "run_ok E (w # ws) p \<longleftrightarrow> wakeup_ok E w p \<and>
     (\<forall>p'. iterateLoop E w p = Some (None, p') \<longrightarrow> run_ok E ws p')"

lemma runLoop_wp:
  assumes E: "env_ok E" and "proc_ok E p" "running p" "run_ok E ws p"
  shows "wp (runLoop E ws p) (carries_on E)"
  using assms(2-)
proof (induction ws arbitrary: p)
  case Nil
  then show ?case using no_fault by (simp add: wp_simps carries_on_def)
next
  case (Cons w ws)
  obtain ret p1 where p1: "iterateLoop E w p = Some (ret, p1)" "carries_on E (ret, p1)"
    using iterateLoop_wp [OF E Cons.prems(1,2), of w] Cons.prems(3) by (auto elim!: wpE)
  show ?case
  proof (cases ret)
    case None
    then have "wp (runLoop E ws p1) (carries_on E)"
      using p1 Cons.prems(3) by (intro Cons.IH) (simp_all add: carries_on_def)
    then show ?thesis using p1(1) None by simp
  next
    case (Some r)
    then show ?thesis using p1 by (simp add: wp_simps carries_on_def)
  qed
qed

end
