(* ===== verification/Node_Start.thy ===== *)
theory Node_Start
  imports Node_Safety
begin

text \<open>
  Starting a node: the sockets are opened one after the other, the seeds are probed and the two
  schedulers inserted. A start that does not fail ends in a state that satisfies the invariant.
\<close>

subsection \<open>Opening sockets\<close>

text \<open>A descriptor has been opened since, and nothing else has happened.\<close>

definition opened :: "MeridianProcess \<Rightarrow> int \<Rightarrow> MeridianProcess \<Rightarrow> bool" where
  "opened p fd p' \<longleftrightarrow> in_fd_set fd \<and> fd \<notin> set (g_openFDs p) \<and>
     sent (p\<lparr>g_openFDs := fd # g_openFDs p\<rparr>) p'"

lemma opened_neq: "opened p fd p' \<Longrightarrow> fd \<noteq> -1"
  by (auto simp: opened_def)

lemma sent_fault: "sent p q \<Longrightarrow> g_fdFault q = g_fdFault p"
  by (auto simp: sent_def)

lemma opened_sent: "opened p fd p1 \<Longrightarrow> sent p1 p2 \<Longrightarrow> opened p fd p2"
  unfolding opened_def using sent_trans by blast

lemma opened_close:
  assumes "opened p fd p1"
  shows "sent p (sys_close fd p1)"
proof -
  obtain k d c where p1: "p1 = p\<lparr>g_openFDs := fd # g_openFDs p, g_sysCalls := k, g_datagrams := d,
      g_clockReads := c\<rparr>" and fd: "fd \<notin> set (g_openFDs p)"
    using assms by (auto simp: opened_def sent_def)
  have "sys_close fd p1 = p\<lparr>g_sysCalls := k, g_datagrams := d, g_clockReads := c\<rparr>"
    using fd by (intro MeridianProcess.equality) (simp_all add: sys_close_def p1)
  then show ?thesis by (auto simp: sent_def)
qed

lemma socket_opened:
  assumes E: "env_ok E"
  obtains p1 where "sys_socket E p = (-1, p1)" "sent p p1"
  | fd p1 where "sys_socket E p = (fd, p1)" "opened p fd p1"
proof (rule sys_socket_cases [OF E, of p])
  fix p1 assume "sys_socket E p = (-1, p1)" "p1 = p\<lparr>g_sysCalls := Suc (g_sysCalls p)\<rparr>"
  then show thesis using that(1) by simp
next
  fix fd p1 assume fd: "sys_socket E p = (fd, p1)" "in_fd_set fd" "fd \<notin> set (g_openFDs p)"
    "p1 = p\<lparr>g_sysCalls := Suc (g_sysCalls p), g_openFDs := fd # g_openFDs p\<rparr>"
  define q where "q = p\<lparr>g_openFDs := fd # g_openFDs p\<rparr>"
  have "p1 = q\<lparr>g_sysCalls := Suc (g_sysCalls p)\<rparr>"
    unfolding fd(4) q_def by (rule MeridianProcess.equality) simp_all
  then have "sent q p1" using sent_more(1) [OF sent_refl] by simp
  then show thesis using that(2) [OF fd(1)] fd(2,3) by (simp add: opened_def q_def)
qed

lemma sent_sys_call: "sent p (snd (sys_call E p))"
  by (simp add: sys_call_def)

lemma sent_sys_calls: "sent p (snd (sys_calls E n p))"
proof (induction n arbitrary: p)
  case (Suc n)
  obtain ok p1 where "sys_call E p = (ok, p1)" by fastforce
  with sent_sys_call [of p E] Suc [of p1] show ?case using sent_trans by auto
qed simp

declare increaseSockBuf.simps [simp del]

lemma sent_increaseSockBuf: "sent p (increaseSockBuf E i p)"
proof (induction i arbitrary: p)
  case 0
  show ?case by (subst increaseSockBuf.simps) (simp add: sys_call_def)
next
  case (Suc i)
  obtain a p1 where a: "sys_call E p = (a, p1)" by fastforce
  obtain b p2 where b: "sys_call E p1 = (b, p2)" by fastforce
  have "sent p p2" using sent_sys_call [of p E] sent_sys_call [of p1 E] sent_trans by (simp add: a b)
  then show ?case using Suc [of p2] sent_trans by (subst increaseSockBuf.simps) (auto simp: a b)
qed

lemma createTCPListener_cases:
  assumes E: "env_ok E"
  obtains p1 where "createTCPListener E p = (-1, p1)" "sent p p1"
  | fd p1 where "createTCPListener E p = (fd, p1)" "opened p fd p1"
proof (rule socket_opened [OF E, of p])
  fix p1 assume "sys_socket E p = (-1, p1)" "sent p p1"
  then show thesis using that(1) by (simp add: createTCPListener_def)
next
  fix fd p1 assume fd: "sys_socket E p = (fd, p1)" "opened p fd p1"
  obtain ok p2 where ok: "sys_calls E 5 p1 = (ok, p2)" by fastforce
  then have o2: "opened p fd p2" using opened_sent [OF fd(2)] sent_sys_calls [of p1 E 5] by simp
  have e: "createTCPListener E p = (if ok then (fd, p2) else (-1, sys_close fd p2))"
    using fd ok opened_neq [OF fd(2)] by (simp add: createTCPListener_def)
  show thesis using that(1) [of "sys_close fd p2"] that(2) [of fd p2] e o2 opened_close [OF o2]
    by (cases ok) auto
qed

subsection \<open>The tunnel of a node behind a firewall\<close>

text \<open>The clock passes the deadline within \<open>fuel\<close> readings.\<close>

definition patient :: "env \<Rightarrow> nat \<Rightarrow> bool" where
  "patient E fuel \<longleftrightarrow> (\<forall>n. \<exists>k < fuel. timeoutLength (env_clock E (n + k))
     ((env_clock E (n - 1))\<lparr>tv_sec := tv_sec (env_clock E (n - 1)) + DEFAULT_TIME_OUT_S\<rparr>) = None)"

lemma tunnelWait_returns:
  assumes "k < fuel" "timeoutLength (env_clock E (g_clockReads p + k)) maxTime = None"
  shows "\<exists>b p'. tunnelWait E fuel maxTime p = Some (b, p') \<and> sent p p'"
  using assms
proof (induction fuel arbitrary: k p)
  case (Suc fuel)
  define p1 where "p1 = p\<lparr>g_clockReads := Suc (g_clockReads p)\<rparr>"
  define p2 where "p2 = p1\<lparr>g_sysCalls := Suc (g_sysCalls p1)\<rparr>"
  have g: "gettimeofday E p = (env_clock E (g_clockReads p), p1)" by (simp add: gettimeofday_def p1_def)
  have sd: "sys_send E p1 = (env_send E (g_sysCalls p1), p2)" by (simp add: sys_send_def p2_def)
  have s: "sent p p1" "sent p p2" by (simp_all add: p1_def p2_def)
  obtain peer p3 where peer: "sys_call E p2 = (peer, p3)" by fastforce
  then have s3: "sent p p3" using s(2) sent_sys_call [of p2 E] sent_trans by auto
  show ?case
  proof (cases k)
    case 0
    then show ?thesis using Suc.prems(2) s(1) by (intro exI [of _ False] exI [of _ p1]) (simp add: g)
  next
    case (Suc j)
    have "\<exists>b p'. tunnelWait E fuel maxTime p2 = Some (b, p') \<and> sent p2 p'"
      using Suc.prems Suc by (intro Suc.IH [of j]) (simp_all add: p1_def p2_def)
    then have "\<exists>b p'. tunnelWait E fuel maxTime p2 = Some (b, p') \<and> sent p p'"
      using s(2) sent_trans by blast
    then show ?thesis using s s3 by (auto simp: g sd peer)
  qed
qed simp

lemma createRendavousTunnel_wp:
  assumes E: "env_ok E" and pa: "patient E fuel"
  shows "wp (createRendavousTunnel E fuel p) (\<lambda>(fd, p'). (fd = -1 \<longrightarrow> sent p p') \<and>
    (fd \<noteq> -1 \<longrightarrow> opened p fd p'))"
proof (rule socket_opened [OF E, of p])
  fix p1 assume "sys_socket E p = (-1, p1)" "sent p p1"
  then show ?thesis by (simp add: createRendavousTunnel_def wp_simps)
next
  fix fd p1 assume fd: "sys_socket E p = (fd, p1)" "opened p fd p1"
  then have ne: "fd \<noteq> -1" "in_fd_set fd" using opened_neq by (auto simp: opened_def)
  obtain ok p2 where ok: "sys_calls E 5 p1 = (ok, p2)" by fastforce
  then have o2: "opened p fd p2" using opened_sent [OF fd(2)] sent_sys_calls [of p1 E 5] by simp
  show ?thesis
  proof (cases ok)
    case False
    then show ?thesis using fd(1) ne ok opened_close [OF o2]
      by (simp add: createRendavousTunnel_def wp_simps)
  next
    case True
    define p3 where "p3 = p2\<lparr>g_clockReads := Suc (g_clockReads p2)\<rparr>"
    define now where "now = env_clock E (g_clockReads p2)"
    have g: "gettimeofday E p2 = (now, p3)" by (simp add: gettimeofday_def p3_def now_def)
    obtain k where "k < fuel" "timeoutLength (env_clock E (g_clockReads p3 + k))
        (now\<lparr>tv_sec := tv_sec now + DEFAULT_TIME_OUT_S\<rparr>) = None"
      using pa [unfolded patient_def, rule_format, of "g_clockReads p3"] by (auto simp: p3_def now_def)
    from tunnelWait_returns [OF this] obtain b p4 where
      w: "tunnelWait E fuel (now\<lparr>tv_sec := tv_sec now + DEFAULT_TIME_OUT_S\<rparr>) p3 = Some (b, p4)"
        "sent p3 p4" by blast
    have "sent p2 p3" by (simp add: p3_def)
    then have o4: "opened p fd p4" using opened_sent [OF o2] sent_trans w(2) by blast
    show ?thesis using True fd(1) ne ok g w(1) o4 opened_close [OF o4]
      by (simp add: createRendavousTunnel_def wp_simps)
  qed
qed

subsection \<open>The sockets of the node\<close>

text \<open>While a node starts nothing is to be written yet.\<close>

definition starting :: "env \<Rightarrow> MeridianProcess \<Rightarrow> bool" where
  "starting E p \<longleftrightarrow> proc_ok E p \<and> (\<forall>fd. \<not> g_writeSet p fd) \<and> \<not> g_fdFault p"

lemma starting_sent: "starting E p \<Longrightarrow> sent p q \<Longrightarrow> starting E q"
  using sent_facts(3) [of p q E] by (auto simp: starting_def sent_def)

lemma starting_read: "starting E p \<Longrightarrow> in_fd_set fd \<Longrightarrow> starting E (set_read fd p)"
  by (simp add: starting_def set_read_def proc_ok_def frame_simps)

lemma starting_stop: "starting E p \<Longrightarrow> in_fd_set (g_stopFD p)"
  by (simp add: starting_def proc_ok_def sockets_ok_def)

lemma sockets_own:
  assumes "sockets_ok p" "\<forall>x. \<not> g_writeSet p x" "fd \<notin> set (g_openFDs p)" "in_fd_set fd"
    "set (nodeFDs q) = insert fd (set (nodeFDs p))" "distinct (nodeFDs q)"
    "tcpFDs q = tcpFDs p" "dnsFDs q = dnsFDs p" "rendvFDs q = rendvFDs p" "infoFDs q = infoFDs p"
    "g_openFDs q = fd # g_openFDs p" "g_infoConnects q = g_infoConnects p"
    "g_rendvConnections q = g_rendvConnections p" "g_rendvQueue q = g_rendvQueue p"
    "g_writeSet q = g_writeSet p" "g_stopFD q = g_stopFD p"
  shows "sockets_ok q"
  using assms(1-4,6) unfolding sockets_ok_def ownFDs_def assms(5,7-16) by auto

lemma starting_own:
  assumes st: "starting E p" and fd: "fd \<notin> set (g_openFDs p)" "in_fd_set fd"
    and n: "set (nodeFDs q) = insert fd (set (nodeFDs p))" "distinct (nodeFDs q)"
    and q: "q = p\<lparr>g_openFDs := fd # g_openFDs p, g_meridSock := a, g_icmpSock := b, g_infoSock := c,
      g_rendvListener := d, g_rendvFD := e\<rparr>"
  shows "starting E q"
proof -
  have "sockets_ok q"
    using st by (intro sockets_own [OF _ _ fd n])
      (simp_all add: starting_def proc_ok_def q tcpFDs_def dnsFDs_def rendvFDs_def infoFDs_def)
  then have "proc_ok E q"
    using st by (intro proc_ok_sockets [of q E p]) (simp_all add: starting_def q)
  then show ?thesis using st by (simp add: starting_def q)
qed

lemma nodeFDs_open: "sockets_ok p \<Longrightarrow> set (nodeFDs p) \<subseteq> set (g_openFDs p) \<and> distinct (nodeFDs p)"
  by (simp add: sockets_ok_def ownFDs_def)

text \<open>The five descriptors, in the order of \<open>nodeFDs\<close>.\<close>

definition own :: "MeridianProcess \<Rightarrow> int list" where
  "own p = [g_meridSock p, g_icmpSock p, g_infoSock p, g_rendvListener p, g_rendvFD p]"

lemma nodeFDs_own: "nodeFDs p = filter (\<lambda>fd. fd \<noteq> -1) (g_stopFD p # own p)"
  unfolding nodeFDs_def own_def by (rule refl)

lemma fresh_own:
  assumes "g_stopFD q # own q = xs @ fd # ys" "g_stopFD p # own p = xs @ -1 # ys"
    and "fd \<notin> set (nodeFDs p)" "fd \<noteq> -1" "distinct (nodeFDs p)"
  shows "set (nodeFDs q) = insert fd (set (nodeFDs p))" "distinct (nodeFDs q)"
  using assms(3-5) unfolding nodeFDs_own assms(1,2) by auto

lemma own_socket:
  assumes st: "starting E p" and fd: "fd \<notin> set (g_openFDs p)" "in_fd_set fd"
  defines "p1 \<equiv> p\<lparr>g_openFDs := fd # g_openFDs p\<rparr>"
  shows "g_meridSock p = -1 \<Longrightarrow> starting E (p1\<lparr>g_meridSock := fd\<rparr>)"
    "g_icmpSock p = -1 \<Longrightarrow> starting E (p1\<lparr>g_icmpSock := fd\<rparr>)"
    "g_infoSock p = -1 \<Longrightarrow> starting E (p1\<lparr>g_infoSock := fd\<rparr>)"
    "g_rendvListener p = -1 \<Longrightarrow> starting E (p1\<lparr>g_rendvListener := fd\<rparr>)"
    "g_rendvFD p = -1 \<Longrightarrow> starting E (p1\<lparr>g_rendvFD := fd\<rparr>)"
proof -
  have o: "fd \<notin> set (nodeFDs p)" "distinct (nodeFDs p)"
    using st fd nodeFDs_open [of p] by (auto simp: starting_def proc_ok_def)
  have fresh: "starting E q" if "q = p\<lparr>g_openFDs := fd # g_openFDs p, g_meridSock := a,
      g_icmpSock := b, g_infoSock := c, g_rendvListener := d, g_rendvFD := e\<rparr>"
    "g_stopFD q # own q = xs @ fd # ys" "g_stopFD p # own p = xs @ -1 # ys" for q a b c d e xs ys
    by (rule starting_own [OF st fd fresh_own [OF that(2,3) o(1) in_fd_set_neq [OF fd(2)] o(2)] that(1)])
  show "g_meridSock p = -1 \<Longrightarrow> starting E (p1\<lparr>g_meridSock := fd\<rparr>)"
    by (rule fresh [where a = fd and b = "g_icmpSock p" and c = "g_infoSock p"
        and d = "g_rendvListener p" and e = "g_rendvFD p" and xs = "[g_stopFD p]"])
      (simp_all add: p1_def own_def)
  show "g_icmpSock p = -1 \<Longrightarrow> starting E (p1\<lparr>g_icmpSock := fd\<rparr>)"
    by (rule fresh [where a = "g_meridSock p" and b = fd and c = "g_infoSock p"
        and d = "g_rendvListener p" and e = "g_rendvFD p" and xs = "[g_stopFD p, g_meridSock p]"])
      (simp_all add: p1_def own_def)
  show "g_infoSock p = -1 \<Longrightarrow> starting E (p1\<lparr>g_infoSock := fd\<rparr>)"
    by (rule fresh [where a = "g_meridSock p" and b = "g_icmpSock p" and c = fd
        and d = "g_rendvListener p" and e = "g_rendvFD p"
        and xs = "[g_stopFD p, g_meridSock p, g_icmpSock p]"])
      (simp_all add: p1_def own_def)
  show "g_rendvListener p = -1 \<Longrightarrow> starting E (p1\<lparr>g_rendvListener := fd\<rparr>)"
    by (rule fresh [where a = "g_meridSock p" and b = "g_icmpSock p" and c = "g_infoSock p"
        and d = fd and e = "g_rendvFD p"
        and xs = "[g_stopFD p, g_meridSock p, g_icmpSock p, g_infoSock p]"])
      (simp_all add: p1_def own_def)
  show "g_rendvFD p = -1 \<Longrightarrow> starting E (p1\<lparr>g_rendvFD := fd\<rparr>)"
    by (rule fresh [where a = "g_meridSock p" and b = "g_icmpSock p" and c = "g_infoSock p"
        and d = "g_rendvListener p" and e = fd
        and xs = "[g_stopFD p, g_meridSock p, g_icmpSock p, g_infoSock p, g_rendvListener p]"])
      (simp_all add: p1_def own_def)
qed

lemma own_sent: "sent p q \<Longrightarrow> own q = own p \<and> g_rendvNode q = g_rendvNode p"
  by (auto simp: sent_def own_def)

lemma own_read [simp]: "own (set_read fd p) = own p" "g_rendvNode (set_read fd p) = g_rendvNode p"
  by (simp_all add: set_read_def own_def)

text \<open>An opened descriptor is stored in one of the fields.\<close>

lemma opened_own:
  assumes st: "starting E p" and fd: "opened p fd p1"
  shows "g_meridSock p = -1 \<Longrightarrow> starting E (p1\<lparr>g_meridSock := fd\<rparr>)"
    "g_icmpSock p = -1 \<Longrightarrow> starting E (p1\<lparr>g_icmpSock := fd\<rparr>)"
    "g_infoSock p = -1 \<Longrightarrow> starting E (p1\<lparr>g_infoSock := fd\<rparr>)"
    "g_rendvListener p = -1 \<Longrightarrow> starting E (p1\<lparr>g_rendvListener := fd\<rparr>)"
    "g_rendvFD p = -1 \<Longrightarrow> starting E (p1\<lparr>g_rendvFD := fd\<rparr>)"
    "own p1 = own p" "g_rendvNode p1 = g_rendvNode p" "fd \<noteq> -1" "in_fd_set fd"
proof -
  have f: "fd \<notin> set (g_openFDs p)" "in_fd_set fd" and se: "sent (p\<lparr>g_openFDs := fd # g_openFDs p\<rparr>) p1"
    using fd by (simp_all add: opened_def)
  note o = own_socket [OF st f]
  have m: "sent (p\<lparr>g_openFDs := fd # g_openFDs p, g_meridSock := fd\<rparr>) (p1\<lparr>g_meridSock := fd\<rparr>)"
    "sent (p\<lparr>g_openFDs := fd # g_openFDs p, g_icmpSock := fd\<rparr>) (p1\<lparr>g_icmpSock := fd\<rparr>)"
    "sent (p\<lparr>g_openFDs := fd # g_openFDs p, g_infoSock := fd\<rparr>) (p1\<lparr>g_infoSock := fd\<rparr>)"
    "sent (p\<lparr>g_openFDs := fd # g_openFDs p, g_rendvListener := fd\<rparr>) (p1\<lparr>g_rendvListener := fd\<rparr>)"
    "sent (p\<lparr>g_openFDs := fd # g_openFDs p, g_rendvFD := fd\<rparr>) (p1\<lparr>g_rendvFD := fd\<rparr>)"
    using se by (auto simp: sent_def) (rule exI, rule exI, rule exI, rule MeridianProcess.equality; simp)+
  show "g_meridSock p = -1 \<Longrightarrow> starting E (p1\<lparr>g_meridSock := fd\<rparr>)"
    "g_icmpSock p = -1 \<Longrightarrow> starting E (p1\<lparr>g_icmpSock := fd\<rparr>)"
    "g_infoSock p = -1 \<Longrightarrow> starting E (p1\<lparr>g_infoSock := fd\<rparr>)"
    "g_rendvListener p = -1 \<Longrightarrow> starting E (p1\<lparr>g_rendvListener := fd\<rparr>)"
    "g_rendvFD p = -1 \<Longrightarrow> starting E (p1\<lparr>g_rendvFD := fd\<rparr>)"
    using starting_sent [OF o(1) m(1)] starting_sent [OF o(2) m(2)] starting_sent [OF o(3) m(3)]
      starting_sent [OF o(4) m(4)] starting_sent [OF o(5) m(5)] by blast+
  show "own p1 = own p" "g_rendvNode p1 = g_rendvNode p" "fd \<noteq> -1" "in_fd_set fd"
    using own_sent [OF se] f in_fd_set_neq [OF f(2)] by (simp_all add: own_def)
qed

lemma openMeridSock_ok:
  assumes E: "env_ok E" and st: "starting E p" and n: "g_meridSock p = -1"
    and r: "openMeridSock E p = (ret, p')" "ret \<noteq> -1"
  shows "starting E p'" "g_meridSock p' \<noteq> -1" "tl (own p') = tl (own p)" "g_rendvNode p' = g_rendvNode p"
proof -
  obtain fd p1 where fd: "sys_socket E p = (fd, p1)" "opened p fd p1"
    using r by (rule_tac socket_opened [OF E, of p]) (auto simp: openMeridSock_def)
  define p2 where "p2 = p1\<lparr>g_meridSock := fd\<rparr>"
  note o = opened_own [OF st fd(2)]
  obtain ok p3 where ok: "sys_calls E 2 (increaseSockBuf E 16 p2) = (ok, p3)" by fastforce
  have s3: "sent p2 p3"
    using sent_trans [OF sent_increaseSockBuf sent_sys_calls, of p2 E 2 E 16] by (simp add: ok)
  have p': "p' = set_read (g_stopFD p3) (set_read fd p3)"
    using r ok o(8) by (auto simp: openMeridSock_def fd(1) p2_def Let_def split: if_splits)
  show "starting E p'"
    unfolding p'
    using starting_sent [OF o(1) [OF n, folded p2_def] s3] o(9) starting_stop [of E p3]
    by (intro starting_read)
  show "g_meridSock p' \<noteq> -1" "tl (own p') = tl (own p)" "g_rendvNode p' = g_rendvNode p"
    using own_sent [OF s3] o(6-8) by (simp_all add: p' p2_def own_def set_read_def)
qed

lemma openInfoSock_ok:
  assumes E: "env_ok E" and st: "starting E p" and n: "g_infoSock p = -1"
    and r: "openInfoSock E p = (ret, p')" "ret \<noteq> -1"
  shows "starting E p'" "g_meridSock p' = g_meridSock p" "g_icmpSock p' = g_icmpSock p"
    "g_rendvListener p' = g_rendvListener p" "g_rendvFD p' = g_rendvFD p" "g_rendvNode p' = g_rendvNode p"
proof -
  have "starting E p' \<and> g_meridSock p' = g_meridSock p \<and> g_icmpSock p' = g_icmpSock p \<and>
    g_rendvListener p' = g_rendvListener p \<and> g_rendvFD p' = g_rendvFD p \<and> g_rendvNode p' = g_rendvNode p"
  proof (cases "g_infoPort p > 0")
    case False
    then show ?thesis using r st by (simp add: openInfoSock_def)
  next
    case True
    obtain fd p1 where fd: "createTCPListener E p = (fd, p1)" "opened p fd p1"
      using r True by (rule_tac createTCPListener_cases [OF E, of p]) (auto simp: openInfoSock_def)
    note o = opened_own [OF st fd(2)]
    have "p' = set_read fd (p1\<lparr>g_infoSock := fd\<rparr>)"
      using r True o(8) by (auto simp: openInfoSock_def fd(1) Let_def split: if_splits)
    then show ?thesis
      using starting_read [OF o(3) [OF n] o(9)] o(6,7) o(9) by (simp add: own_def set_read_def)
  qed
  then show "starting E p'" "g_meridSock p' = g_meridSock p" "g_icmpSock p' = g_icmpSock p"
    "g_rendvListener p' = g_rendvListener p" "g_rendvFD p' = g_rendvFD p"
    "g_rendvNode p' = g_rendvNode p" by blast+
qed

lemma openRendavous_wp:
  assumes E: "env_ok E" and pa: "patient E fuel" and st: "starting E p"
    and n: "g_rendvListener p = -1" "g_rendvFD p = -1"
  shows "wp (openRendavous E fuel p) (\<lambda>(ret, p'). (ret = -1 \<longrightarrow> \<not> g_fdFault p') \<and>
    (ret \<noteq> -1 \<longrightarrow> starting E p' \<and>
    g_meridSock p' = g_meridSock p \<and> g_icmpSock p' = g_icmpSock p \<and>
    (g_rendvFD p' = -1 \<longrightarrow> g_rendvNode p = \<lparr>addr = 0, port = 0\<rparr>)))"
proof (cases "addr (g_rendvNode p) = 0 \<and> port (g_rendvNode p) = 0")
  case True
  then have node: "g_rendvNode p = \<lparr>addr = 0, port = 0\<rparr>" by simp
  show ?thesis
  proof (rule createTCPListener_cases [OF E, of p])
    fix p1 assume c: "createTCPListener E p = (-1, p1)" "sent p p1"
    have "p1\<lparr>g_rendvListener := -1\<rparr> = p1"
      using own_sent [OF c(2)] n by (intro MeridianProcess.equality) (simp_all add: own_def)
    then show ?thesis
      using c starting_sent [OF st c(2)] own_sent [OF c(2)] node
      by (simp add: openRendavous_def wp_simps own_def)
  next
    fix fd p1 assume c: "createTCPListener E p = (fd, p1)" "opened p fd p1"
    note o = opened_own [OF st c(2)]
    show ?thesis
      using c(1) starting_read [OF o(4) [OF n(1)] o(9)] o(6-9) node
      by (simp add: openRendavous_def wp_simps own_def set_read_def)
  qed
next
  case False
  have t: "wp (createRendavousTunnel E fuel p) (\<lambda>(fd, p'). (fd = -1 \<longrightarrow> sent p p') \<and>
    (fd \<noteq> -1 \<longrightarrow> opened p fd p'))" by (rule createRendavousTunnel_wp [OF E pa])
  obtain fd p1 where c: "createRendavousTunnel E fuel p = Some (fd, p1)"
    and s: "fd = -1 \<Longrightarrow> sent p p1" and o: "fd \<noteq> -1 \<Longrightarrow> opened p fd p1"
    using t by (auto elim!: wpE)
  show ?thesis
  proof (cases "fd = -1")
    case True
    then show ?thesis
      using c False sent_fault [OF s [OF True]] st
      by (auto simp: openRendavous_def wp_simps Let_def starting_def)
  next
    case fd: False
    note o = opened_own [OF st o [OF fd]]
    show ?thesis
      using c False fd starting_read [OF o(5) [OF n(2)] o(9)] o(6,8,9)
      by (auto simp: openRendavous_def wp_simps Let_def own_def set_read_def)
  qed
qed

lemma openICMP_ok:
  assumes E: "env_ok E" and st: "starting E p" and n: "g_icmpSock p = -1"
    and r: "openICMP E p = (ret, p')" "ret \<noteq> -1"
  shows "starting E p'" "g_icmpSock p' \<noteq> -1" "g_meridSock p' = g_meridSock p"
    "g_rendvListener p' = g_rendvListener p" "g_rendvFD p' = g_rendvFD p"
proof -
  obtain fd p1 where fd: "sys_socket E p = (fd, p1)" "opened p fd p1"
    using r by (rule_tac socket_opened [OF E, of p]) (auto simp: openICMP_def createICMPSocket_def)
  define p2 where "p2 = p1\<lparr>g_icmpSock := fd\<rparr>"
  note o = opened_own [OF st fd(2)]
  obtain ok p3 where ok: "sys_calls E 4 p2 = (ok, p3)" by fastforce
  have s3: "sent p2 p3" using sent_sys_calls [of p2 E 4] by (simp add: ok)
  have p': "p' = set_read (g_icmpSock p3) p3"
    using r ok o(8) by (auto simp: openICMP_def createICMPSocket_def fd(1) p2_def Let_def split: if_splits)
  show "starting E p'"
    unfolding p'
    using starting_sent [OF o(2) [OF n, folded p2_def] s3] o(9) sent_sockets(2) [OF s3]
    by (intro starting_read) (simp_all add: p2_def)
  show "g_icmpSock p' \<noteq> -1" "g_meridSock p' = g_meridSock p"
    "g_rendvListener p' = g_rendvListener p" "g_rendvFD p' = g_rendvFD p"
    using own_sent [OF s3] o(6,8) by (simp_all add: p' p2_def own_def set_read_def)
qed

text \<open>An attempt that fails indexes no descriptor set.\<close>

lemma opened_fault: "opened p fd q \<Longrightarrow> g_fdFault q = g_fdFault p"
  using sent_fault by (fastforce simp: opened_def)

lemma failed_faults:
  assumes E: "env_ok E"
  shows "openMeridSock E p = (-1, p') \<Longrightarrow> g_fdFault p' = g_fdFault p"
    and "openInfoSock E p = (-1, p') \<Longrightarrow> g_fdFault p' = g_fdFault p"
    and "openICMP E p = (-1, p') \<Longrightarrow> g_fdFault p' = g_fdFault p"
proof -
  obtain fd p1 where fd: "sys_socket E p = (fd, p1)" by fastforce
  then have f1: "g_fdFault p1 = g_fdFault p" by (auto simp: sys_socket_def Let_def)
  define q where "q = increaseSockBuf E 16 (p1\<lparr>g_meridSock := fd\<rparr>)"
  obtain ok p2 where ok: "sys_calls E 2 q = (ok, p2)" by fastforce
  have "g_fdFault p2 = g_fdFault q" using sent_fault [OF sent_sys_calls, of E 2 q] by (simp add: ok)
  moreover have "g_fdFault q = g_fdFault p1"
    using sent_fault [OF sent_increaseSockBuf, of E 16 "p1\<lparr>g_meridSock := fd\<rparr>"] by (simp add: q_def)
  ultimately show "openMeridSock E p = (-1, p') \<Longrightarrow> g_fdFault p' = g_fdFault p"
    using f1 ok by (auto simp: openMeridSock_def fd Let_def q_def [symmetric] split: if_splits)
  define r where "r = p1\<lparr>g_icmpSock := fd\<rparr>"
  obtain ok' p3 where ok': "sys_calls E 4 r = (ok', p3)" by fastforce
  have "g_fdFault p3 = g_fdFault r" using sent_fault [OF sent_sys_calls, of E 4 r] by (simp add: ok')
  moreover have "g_fdFault r = g_fdFault p1" by (simp add: r_def)
  ultimately show "openICMP E p = (-1, p') \<Longrightarrow> g_fdFault p' = g_fdFault p"
    using f1 ok' by (auto simp: openICMP_def createICMPSocket_def sys_close_def fd Let_def
        r_def [symmetric] split: if_splits)
  show "openInfoSock E p = (-1, p') \<Longrightarrow> g_fdFault p' = g_fdFault p"
    by (rule createTCPListener_cases [OF E, of p])
      (auto simp: openInfoSock_def Let_def sent_fault opened_fault dest: opened_neq split: if_splits)
qed

subsection \<open>Seeds and schedulers\<close>

lemma addSeeds_wp:
  assumes "step E False UNIV p0 p"
  shows "wp (addSeeds E ns p) (step E False UNIV p0)"
  using assms
proof (induction ns arbitrary: p)
  case (Cons n ns)
  have "wp (addNodeToRing E n p) (\<lambda>(r, p'). step E False UNIV p0 p')"
    by (rule addNodeToRing_wp [OF Cons.prems])
  then show ?case using Cons by (auto simp: wp_simps elim!: wp_conseq)
qed (simp add: wp_simps)

lemma addScheduler_step:
  assumes s: "step E False UNIV p0 p"
  shows "step E False UNIV p0 (addScheduler E a b c f p)"
proof -
  obtain qid p1 where id: "getNewQueryID E p = (qid, p1)" by fastforce
  then have s1: "step E False UNIV p0 p1" using s step_prims(6) by (metis snd_conv)
  obtain q p2 where c: "computeSchedTimeout E \<lparr>qs_schedObj = f,
      qs_timeoutTV = \<lparr>tv_sec = 0, tv_usec = 0\<rparr>, qs_initInterval_MS = a,
      qs_numInitInterval = b, qs_ssInterval_MS = c, qs_finished = False\<rparr> p1 = (q, p2)" by fastforce
  then have n: "newScheduler E a b c f p = ((qid, SchedulerQ q), p2)"
    by (simp add: newScheduler_def id)
  have "p2 = p1\<lparr>g_clockReads := Suc (g_clockReads p1)\<rparr>"
    using c by (auto simp: computeSchedTimeout_def computeTimeout_def gettimeofday_def
        split: if_splits prod.splits)
  then have s2: "step E False UNIV p0 p2" using s1 by (simp add: frame_simps)
  have "step E False UNIV p0 (snd (tableInsert qid (SchedulerQ q) p2))"
    by (rule step_tableInsert [OF s2]) simp_all
  then show ?thesis by (simp add: addScheduler_def n)
qed

lemma addSchedulers_step: "step E False UNIV p0 p \<Longrightarrow> step E False UNIV p0 (addSchedulers E p)"
  by (simp add: addSchedulers_def Let_def addScheduler_step)

text \<open>A node that has started runs, unless it is its own rendezvous node and has no listener.\<close>

definition started :: "env \<Rightarrow> run_state \<Rightarrow> bool" where
  "started E st \<longleftrightarrow> \<not> g_fdFault (snd st) \<and> (fst st = None \<longrightarrow> proc_ok E (snd st) \<and> g_meridSock (snd st) \<noteq> -1 \<and>
     g_icmpSock (snd st) \<noteq> -1 \<and> (running (snd st) \<or> g_rendvListener (snd st) = -1))"

lemma startUp_wp:
  assumes E: "env_ok E" and pa: "patient E fuel" and st: "starting E p"
    and n: "own p = [-1, -1, -1, -1, -1]"
  shows "wp (startUp E fuel host hostAddr p) (started E)"
proof (cases hostAddr)
  case None
  then show ?thesis using st by (simp add: startUp_def wp_simps started_def starting_def)
next
  case (Some a)
  define p0 where "p0 = p\<lparr>g_hostname := host, g_localAddr := a\<rparr>"
  have "sockets_ok p0"
    using st unfolding starting_def proc_ok_def sockets_ok_def
    by (simp add: p0_def tcpFDs_def dnsFDs_def rendvFDs_def ownFDs_def nodeFDs_def infoFDs_def)
  then have st0: "starting E p0"
    using st by (auto simp: starting_def p0_def intro: proc_ok_sockets)
  have n0: "own p0 = [-1, -1, -1, -1, -1]" using n by (simp add: p0_def own_def)
  have stop: "wp (Some (Some (-1), q)) (started E)" if "\<not> g_fdFault q" for q
    using that by (simp add: wp_simps started_def)
  obtain r1 p1 where m: "openMeridSock E p0 = (r1, p1)" by fastforce
  obtain r2 p2 where i: "openInfoSock E p1 = (r2, p2)" by fastforce
  show ?thesis
  proof (cases "r1 = -1 \<or> r2 = -1")
    case True
    have "g_fdFault p1 = g_fdFault p0" if "r1 = -1" using failed_faults(1) [OF E, of p0] m that by simp
    moreover have "\<not> g_fdFault p1" if "r1 \<noteq> -1"
      using openMeridSock_ok(1) [OF E st0 _ m that] n0 by (simp add: own_def starting_def)
    moreover have "g_fdFault p2 = g_fdFault p1" if "r2 = -1"
      using failed_faults(2) [OF E, of p1] i that by simp
    ultimately show ?thesis
      using Some m i stop [of p1] stop [of p2] True st0
      by (cases "r1 = -1") (auto simp: startUp_def p0_def [symmetric] starting_def)
  next
    case False
    have n1: "g_meridSock p0 = -1" "g_infoSock p1 = -1" "g_icmpSock p1 = -1"
        "g_rendvListener p1 = -1" "g_rendvFD p1 = -1"
      using openMeridSock_ok(3) [OF E st0 _ m] n0 False by (simp_all add: own_def)
    note ok1 = openMeridSock_ok [OF E st0 n1(1) m]
    note ok2 = openInfoSock_ok [OF E ok1(1) n1(2) i]
    have st2: "starting E p2" "g_meridSock p2 \<noteq> -1" "g_icmpSock p2 = -1"
        "g_rendvListener p2 = -1" "g_rendvFD p2 = -1"
      using False ok1 ok2 n1 by auto
    obtain r3 p3 where r: "openRendavous E fuel p2 = Some (r3, p3)" "r3 = -1 \<longrightarrow> \<not> g_fdFault p3" "r3 \<noteq> -1 \<longrightarrow> starting E p3 \<and>
        g_meridSock p3 = g_meridSock p2 \<and> g_icmpSock p3 = g_icmpSock p2"
      using openRendavous_wp [OF E pa st2(1,4,5)] by (auto elim!: wpE)
    obtain r4 p4 where c: "openICMP E p3 = (r4, p4)" by fastforce
    show ?thesis
    proof (cases "r3 = -1 \<or> r4 = -1")
      case True
      have "g_fdFault p4 = g_fdFault p3" if "r4 = -1"
        using failed_faults(3) [OF E, of p3] c that by simp
      moreover have "\<not> g_fdFault p3" using r(2,3) by (auto simp: starting_def)
      ultimately show ?thesis using Some m i r(1) c False stop [of p3] stop [of p4] True
        by (cases "r3 = -1") (auto simp: startUp_def p0_def [symmetric] wp_simps)
    next
      case more: False
      have st4: "starting E p4" "g_icmpSock p4 \<noteq> -1" "g_meridSock p4 \<noteq> -1"
        using openICMP_ok [OF E _ _ c] r(3) more st2 by auto
      have "step E False UNIV p4 p4" using st4(1) by (simp add: starting_def step_refl)
      then obtain p5 where p5: "addSeeds E (g_seedNodes p4) p4 = Some p5" "step E False UNIV p4 p5"
        using addSeeds_wp by (blast elim: wpE)
      define p6 where "p6 = p5\<lparr>g_seedNodes := []\<rparr>"
      have "sockets_ok p6"
        using step_ok [OF p5(2)] unfolding proc_ok_def sockets_ok_def
        by (simp add: p6_def tcpFDs_def dnsFDs_def rendvFDs_def ownFDs_def nodeFDs_def infoFDs_def pending_def)
      then have "proc_ok E p6" by (rule proc_ok_sockets [OF _ step_ok [OF p5(2)]]) (simp_all add: p6_def)
      then have s7: "step E False UNIV p6 (addSchedulers E p6)"
        by (intro addSchedulers_step step_refl)
      have "kept p4 p6" using step_kept [OF p5(2)] by (simp add: p6_def kept_def)
      then have k: "kept p4 (addSchedulers E p6)" using kept_trans step_kept [OF s7] by blast
      have "started E (None, addSchedulers E p6)"
        using step_ok [OF s7] k st4(2,3)
        by (auto simp: started_def running_def kept_def proc_ok_def fds_ok_def)
      then show ?thesis
        using Some m i r(1) c False more p5(1)
        by (simp add: startUp_def p0_def [symmetric] wp_simps p6_def)
    qed
  qed
qed

end
