(* ===== verification/Witness_States.thy ===== *)
theory Witness_States
  imports Info_Packet Latency_Cache Query_Table
begin

text \<open>
  Concrete states at which the witnesses apply the properties: three nodes, a ring set whose
  ring 0 is full and holds one node behind a rendezvous node, a full cache and a query table.
\<close>

definition nodeA :: NodeIdent where "nodeA = \<lparr>addr = 1, port = 10\<rparr>"
definition nodeB :: NodeIdent where "nodeB = \<lparr>addr = 2, port = 20\<rparr>"
definition nodeC :: NodeIdent where "nodeC = \<lparr>addr = 3, port = 30\<rparr>"
definition noRendv :: NodeIdent where "noRendv = \<lparr>addr = 0, port = 0\<rparr>"

lemma node_distinct [simp]:
  "nodeA \<noteq> nodeB" "nodeB \<noteq> nodeA" "nodeA \<noteq> nodeC" "nodeC \<noteq> nodeA" "nodeB \<noteq> nodeC"
  "nodeC \<noteq> nodeB" "nodeA < nodeB" "nodeB < nodeC"
  by (simp_all add: nodeA_def nodeB_def nodeC_def less_NodeIdent ltNodeIdent_def)

lemma ring_search_2: "ring_search 2 500 = 0" "ring_search 2 1500 = 1" "ring_search 2 5000 = 3"
  by code_simp+

definition exRings :: RingSet where
  "exRings = (newRingSet 1 1 2)
     \<lparr>primaryRing := (\<lambda>i. if i = 0 then [nodeA] else []),
      secondaryRing := (\<lambda>i. if i = 0 then [nodeB] else []),
      nodeLatencyUS := [(nodeA, 500), (nodeB, 500)], rendvMapping := [(nodeA, nodeC)]\<rparr>"

lemma exRings_sel [simp]:
  "primaryRing exRings i = (if i = 0 then [nodeA] else [])"
  "secondaryRing exRings i = (if i = 0 then [nodeB] else [])"
  "ringFrozen exRings i = False" "primarySize exRings = 1" "secondarySize exRings = 1"
  "exponentBase exRings = 2" "nodeLatencyUS exRings = [(nodeA, 500), (nodeB, 500)]"
  "rendvMapping exRings = [(nodeA, nodeC)]"
  by (simp_all add: exRings_def newRingSet_def)

lemma exRings_number [simp]:
  "getRingNumber ideal_fpu exRings 500 = 0" "getRingNumber ideal_fpu exRings 5000 = 3"
  "getRingNumber ideal_fpu exRings 1500 = 1"
  by (simp_all add: getRingNumber_ideal ring_search_2)

lemma exRings_wf: "ring_wf ideal_fpu exRings"
  unfolding ring_wf_def ring_ok_def members_def by (auto simp: sm_ok_def)


text \<open>A cache for two measurements that is full, and a table with two running queries.\<close>

definition exCache :: LatencyCache where
  "exCache =
     \<lparr>timeoutMap = [(\<lparr>tv_sec = 90, tv_usec = 0\<rparr>, [nodeA]), (\<lparr>tv_sec = 95, tv_usec = 0\<rparr>, [nodeB])],
      latencyMap = [(nodeA, \<lparr>tv_sec = 90, tv_usec = 0\<rparr>, 500),
                    (nodeB, \<lparr>tv_sec = 95, tv_usec = 0\<rparr>, 700)],
      maxSize = 2, periodUS = 1500000\<rparr>"

lemma exCache_sel [simp]:
  "timeoutMap exCache =
     [(\<lparr>tv_sec = 90, tv_usec = 0\<rparr>, [nodeA]), (\<lparr>tv_sec = 95, tv_usec = 0\<rparr>, [nodeB])]"
  "latencyMap exCache = [(nodeA, \<lparr>tv_sec = 90, tv_usec = 0\<rparr>, 500),
     (nodeB, \<lparr>tv_sec = 95, tv_usec = 0\<rparr>, 700)]"
  "maxSize exCache = 2" "periodUS exCache = 1500000"
  by (simp_all add: exCache_def)

lemma exCache_wf: "cache_wf exCache"
  by (auto simp: cache_wf_def sm_ok_def indexed_def timeoutOf_def less_timeval timevalLT_def
    split: if_splits)

definition exTable :: QueryTable where
  "exTable =
     \<lparr>queryTimeoutMap = [(3, \<lparr>tv_sec = 90, tv_usec = 0\<rparr>), (8, \<lparr>tv_sec = 95, tv_usec = 0\<rparr>)],
      timeoutQueryMap = [(\<lparr>tv_sec = 90, tv_usec = 0\<rparr>, [3]), (\<lparr>tv_sec = 95, tv_usec = 0\<rparr>, [8])]\<rparr>"

lemma exTable_sel [simp]:
  "queryTimeoutMap exTable = [(3, \<lparr>tv_sec = 90, tv_usec = 0\<rparr>), (8, \<lparr>tv_sec = 95, tv_usec = 0\<rparr>)]"
  "timeoutQueryMap exTable =
     [(\<lparr>tv_sec = 90, tv_usec = 0\<rparr>, [3]), (\<lparr>tv_sec = 95, tv_usec = 0\<rparr>, [8])]"
  by (simp_all add: exTable_def)

lemma exTable_wf: "table_wf exTable"
  by (auto simp: table_wf_def sm_ok_def indexed_def less_timeval timevalLT_def split: if_splits)

end
