(* ===== verification/Node_Runs.thy ===== *)
theory Node_Runs
  imports Node_Start Witness_States
begin

text \<open>
  Whole runs: a node from its constructor through \<^verbatim>\<open>start\<close> and the event loop, which inputs end
  it, and what stays in its query table.
\<close>

subsection \<open>The constructor and the configuration\<close>

text \<open>The calls made between the constructor and \<^verbatim>\<open>start\<close>: seeds, rendezvous node, intervals.\<close>

definition configure :: "(u32 \<times> u16) list \<Rightarrow> u32 \<times> u16 \<Rightarrow> u32 \<times> u32 \<times> u32 \<Rightarrow> u32
    \<Rightarrow> MeridianProcess \<Rightarrow> MeridianProcess" where
  "configure seeds rendv gossip replace p =
     (case gossip of (initial, len, steady) \<Rightarrow>
      setReplaceInterval replace (setGossipInterval initial len steady
        (setRendavousNode (fst rendv) (snd rendv) (fold (\<lambda>(a, n). addSeedNode a n) seeds p))))"

lemma seeds_eq: "\<exists>ns. fold (\<lambda>(a, n). addSeedNode a n) seeds p = p\<lparr>g_seedNodes := ns\<rparr>"
proof (induction seeds arbitrary: p)
  case Nil
  have "p = p\<lparr>g_seedNodes := g_seedNodes p\<rparr>" by simp
  then show ?case unfolding fold.simps id_apply by blast
next
  case (Cons s seeds)
  obtain a n where s: "s = (a, n)" by fastforce
  obtain ns where "fold (\<lambda>(a, n). addSeedNode a n) seeds (addSeedNode a n p)
      = (addSeedNode a n p)\<lparr>g_seedNodes := ns\<rparr>" using Cons by blast
  moreover have "(addSeedNode a n p)\<lparr>g_seedNodes := ns\<rparr> = p\<lparr>g_seedNodes := ns\<rparr>"
    by (simp add: addSeedNode_def)
  ultimately show ?case by (simp add: s) blast
qed

lemma new_sel:
  fixes p i :: u16 and prim second :: u32 and base stopFD :: int
  defines "n \<equiv> newMeridianProcess p i prim second base stopFD"
  shows "g_rings n = newRingSet prim second (word_of_int base)" "g_queries n = []"
    "g_queryTable n = newQueryTable" "g_openFDs n = [stopFD]" "g_writeSet n = (\<lambda>_. False)"
    "cacheOf k n = newLatencyCache PROBE_CACHE_SIZE PROBE_CACHE_TIMEOUT_US"
    "g_tcpProbeConnections n = []" "g_dnsProbeConnections n = []" "g_rendvConnections n = []"
    "g_infoConnects n = []" "g_stopFD n = stopFD" "own n = [-1, -1, -1, -1, -1]"
    "nodeFDs n = (if stopFD = -1 then [] else [stopFD])" "g_seedNodes n = []"
    "\<not> g_fdFault n"
  by (cases k; simp add: n_def newMeridianProcess_def Let_def cacheOf_def setReplaceInterval_def
      setGossipInterval_def setRendavousNode_def own_def nodeFDs_def)+

lemma new_starting:
  assumes "0 < second" "in_fd_set stopFD"
  shows "starting E (newMeridianProcess p i prim second base stopFD)"
proof -
  let ?p = "newMeridianProcess p i prim second base stopFD"
  have d: "deref x ?p = None" for x by (simp add: deref_def new_sel)
  have "caches_ok ?p"
    by (simp add: caches_ok_def new_sel cache_wf_new)
      (simp add: newLatencyCache_def PROBE_CACHE_SIZE_def)
  moreover have "objects_ok ?p" by (simp add: objects_ok_def d subs_def acyclic_def)
  moreover have "table_ok ?p"
    using table_wf_new by (simp add: table_ok_def d isQueryInTable_def new_sel newQueryTable_def)
  moreover have "ring_wf (env_fpu E) (g_rings ?p)"
    using assms(1) by (simp add: new_sel ring_wf_new)
  moreover have "sockets_ok ?p"
    using assms(2) in_fd_set_neq [OF assms(2)] by (simp add: sockets_ok_def new_sel tcpFDs_def dnsFDs_def rendvFDs_def
        ownFDs_def infoFDs_def sm_ok_def)
  ultimately show ?thesis by (simp add: starting_def proc_ok_def fds_ok_def new_sel)
qed

lemma configure_eq:
  "\<exists>ns a b c d n. configure seeds r g i p = p\<lparr>g_seedNodes := ns, g_rendvNode := n,
     g_initGossipInterval_s := a, g_numInitIntervalRemain := b, g_ssGossipInterval_s := c,
     g_replaceInterval_s := d\<rparr>"
proof -
  obtain ns where n: "fold (\<lambda>(a, n). addSeedNode a n) seeds p = p\<lparr>g_seedNodes := ns\<rparr>"
    using seeds_eq by blast
  obtain a b c where g: "g = (a, b, c)" by (rule prod_cases3)
  show ?thesis
    by (simp add: configure_def n g setReplaceInterval_def setGossipInterval_def
        setRendavousNode_def) blast
qed

lemma configure_starting:
  assumes "starting E p"
  shows "starting E (configure seeds r g i p)" "own (configure seeds r g i p) = own p"
proof -
  obtain ns a b c d n where e: "configure seeds r g i p = p\<lparr>g_seedNodes := ns, g_rendvNode := n,
     g_initGossipInterval_s := a, g_numInitIntervalRemain := b, g_ssGossipInterval_s := c,
     g_replaceInterval_s := d\<rparr>" using configure_eq by blast
  let ?q = "configure seeds r g i p"
  have "sockets_ok ?q"
    using assms unfolding starting_def proc_ok_def sockets_ok_def
    by (simp add: e tcpFDs_def dnsFDs_def rendvFDs_def ownFDs_def nodeFDs_def infoFDs_def)
  then have "proc_ok E ?q"
    by (rule proc_ok_sockets [of _ E p]) (use assms in \<open>simp_all add: e starting_def\<close>)
  then show "starting E ?q" using assms by (simp add: starting_def e)
  show "own ?q = own p" by (simp add: e own_def)
qed

subsection \<open>Loops that keep an invariant\<close>

text \<open>
  The contract of a loop body: where the invariant holds and the input is one it tolerates, it
  returns, and the loop is over or the invariant holds again.
\<close>

locale event_loop =
  fixes inv :: "'s \<Rightarrow> bool"
    and tolerates :: "'w \<Rightarrow> 's \<Rightarrow> bool"
    and iterate :: "'w \<Rightarrow> 's \<Rightarrow> ('r option \<times> 's) option"
  assumes body: "inv s \<Longrightarrow> tolerates w s \<Longrightarrow>
    \<exists>r s'. iterate w s = Some (r, s') \<and> (r = None \<longrightarrow> inv s')"
begin

inductive reaches :: "'s \<Rightarrow> 's \<Rightarrow> bool" where
  here: "reaches s s"
| more: "reaches s s' \<Longrightarrow> tolerates w s' \<Longrightarrow> iterate w s' = Some (None, s'') \<Longrightarrow> reaches s s''"

lemma reaches_inv: "reaches s s' \<Longrightarrow> inv s \<Longrightarrow> inv s'"
proof (induction rule: reaches.induct)
  case (more s s' w s'')
  then show ?case using body [of s' w] by auto
qed

lemma never_stuck: "reaches s s' \<Longrightarrow> inv s \<Longrightarrow> tolerates w s' \<Longrightarrow> iterate w s' \<noteq> None"
  using body reaches_inv by fastforce

end

definition healthy :: "env \<Rightarrow> MeridianProcess \<Rightarrow> bool" where
  "healthy E p \<longleftrightarrow> env_ok E \<and> proc_ok E p \<and> running p"

interpretation node_loop: event_loop "healthy E" "wakeup_ok E" "iterateLoop E" for E
proof
  fix p w
  assume "healthy E p" "wakeup_ok E w p"
  then show "\<exists>r s'. iterateLoop E w p = Some (r, s') \<and> (r = None \<longrightarrow> healthy E s')"
    using iterateLoop_wp [of E p w] by (auto simp: healthy_def carries_on_def elim!: wpE)
qed

lemma node_runs:
  assumes E: "env_ok E" "patient E fuel" and p: "starting E p" "own p = [-1, -1, -1, -1, -1]"
  obtains ret p' where "startUp E fuel host hostAddr p = Some (ret, p')" "\<not> g_fdFault p'"
    "ret = None \<Longrightarrow> g_rendvListener p' \<noteq> -1 \<or> g_rendvFD p' \<noteq> -1 \<Longrightarrow> healthy E p'"
  using startUp_wp [OF E p, of host hostAddr] E(1)
  by (auto simp: started_def healthy_def running_def elim!: wpE)

subsection \<open>What ends a node\<close>

lemma handleNewPacket_None_iff:
  assumes "env_ok E" "proc_ok E p"
  shows "handleNewPacket E buf remote p = None \<longleftrightarrow> \<not> acceptable E remote buf"
proof
  show "handleNewPacket E buf remote p = None \<Longrightarrow> \<not> acceptable E remote buf"
    using handleNewPacket_wp [OF assms, of remote buf] by (auto simp: wp_simps)
  obtain ret ty x rb where h: "parseHeader (env_magic E) (newBufferWrapper buf (int (length buf)))
      = (ret, ty, x, rb)" by (rule prod_cases4)
  show "\<not> acceptable E remote buf \<Longrightarrow> handleNewPacket E buf remote p = None"
    by (simp add: acceptable_def handleNewPacket_def handlePush_def h)
qed

lemma handleEvent_no_header:
  assumes "\<not> has_header (env_magic E) buf"
  shows "deref x p = Some (HandleClosestQ q) \<Longrightarrow> hc_stateMachine q = HC_WAIT_FOR_FIN \<Longrightarrow>
      handleEvent E x remote buf p = None"
    and "deref x p = Some (HandleMCQ m) \<Longrightarrow> mc_stateMachine m = HMC_WAIT_FOR_FIN \<Longrightarrow>
      handleEvent E x remote buf p = None"
proof -
  obtain ret ty y rb where h: "parseHeader (env_magic E) (newBufferWrapper buf (int (length buf)))
      = (ret, ty, y, rb)" by (rule prod_cases4)
  then have "ret = -1" using assms by (simp add: has_header_def)
  then show "deref x p = Some (HandleClosestQ q) \<Longrightarrow> hc_stateMachine q = HC_WAIT_FOR_FIN \<Longrightarrow>
      handleEvent E x remote buf p = None"
    "deref x p = Some (HandleMCQ m) \<Longrightarrow> mc_stateMachine m = HMC_WAIT_FOR_FIN \<Longrightarrow>
      handleEvent E x remote buf p = None"
    by (simp_all add: handleEvent_def Closest_handleEvent_def MC_handleEvent_def this_Closest
        this_MC h)
qed

lemma readICMPPacket_None_iff:
  assumes E: "env_ok E" and pok: "proc_ok E p"
  shows "readICMPPacket E received p = None \<longleftrightarrow> \<not> echo_ok E received p"
proof
  show "readICMPPacket E received p = None \<Longrightarrow> \<not> echo_ok E received p"
    using readICMPPacket_wp [OF E pok, of received] by (auto simp: wp_simps)
  assume "\<not> echo_ok E received p"
  then obtain a bs where r: "received = Some (a, bs)"
    and e: "echoReply (take MAX_ICMP_PACKET_SIZE bs) p"
    and b: "\<not> packet_ok E (echoQuery (take MAX_ICMP_PACKET_SIZE bs)) (take MAX_ICMP_PACKET_SIZE bs) p"
    by (auto simp: echo_ok_def Let_def split: option.splits prod.splits)
  define buf where "buf = take MAX_ICMP_PACKET_SIZE bs"
  have "buf \<noteq> []" using e by (auto simp: echoReply_def buf_def)
  then have "handleEvent E (echoQuery buf) \<lparr>addr = a, port = 0\<rparr> buf p = None \<and>
      deref (echoQuery buf) p \<noteq> None"
    using b handleEvent_no_header [of E buf "echoQuery buf" p]
    by (auto simp: packet_ok_def buf_def [symmetric] split: option.splits query.splits)
  then show "readICMPPacket E received p = None"
    using e table_deref [OF pok, of "echoQuery buf"]
    by (simp add: readICMPPacket_def r Let_def notifyQPacket_def buf_def [symmetric])
qed

text \<open>
  Without a listener and without a rendezvous node of its own, a node survives no wake-up but the
  one that stops it.
\<close>

lemma stage_sockets:
  assumes "writePending E q = Some p1"
  shows "g_icmpSock p1 = g_icmpSock q"
proof -
  obtain left r where l: "writePendingLoop E (g_outPacketList q) q = (left, r)" by fastforce
  from writePendingLoop_form [OF l] obtain s where "sent q s"
    "r = (if left = [] then clr_write (g_meridSock q) s else s)" by blast
  then show ?thesis
    using assms sent_sockets(2) [of q s]
    by (auto simp: writePending_def l clr_write_def split: if_splits)
qed

lemma handleReady_no_listener:
  assumes E: "env_ok E" and pok: "proc_ok E p" and n: "g_rendvFD p = -1" "g_rendvListener p = -1"
  shows "handleReady E A p =
    (if arr_readable A (g_stopFD p) \<and> g_readSet p (g_stopFD p) then Some (Some 0, p) else None)"
proof -
  define R where "R = (\<lambda>fd. arr_readable A fd \<and> g_readSet p fd)"
  define W where "W = (\<lambda>fd. arr_writable A fd \<and> g_writeSet p fd)"
  have W: "W fd \<Longrightarrow> g_writeSet p fd" for fd by (simp add: W_def)
  have so: "sockets_ok p" using pok by (simp add: proc_ok_def)
  then have stop: "in_fd_set (g_stopFD p)" by (simp add: sockets_ok_def)
  have "handleRendavous E R W bytes peer p2 = None"
    if d: "datagramStage E R W A p = Some p1" and i: "icmpStage E R W A p1 = Some p2"
    for p1 p2 bytes peer
  proof -
    have m: "in_fd_set (g_meridSock p)"
      using d by (cases "in_fd_set (g_meridSock p)") (simp_all add: datagramStage_def)
    have readable: "readable E (arr_datagram A)" if "R (g_meridSock p)"
      using d m that handleNewPacket_None_iff [OF E pok, symmetric]
      by (auto simp: datagramStage_def readPacket_def readable_def Option.bind_eq_Some_conv
          simp flip: not_None_eq split: option.splits) (metis option.distinct(1))
    obtain q where q: "(if R (g_meridSock p) then map_option snd (readPacket E (arr_datagram A) p)
        else Some p) = Some q"
      "(if W (g_meridSock q) then in_fd_set (g_meridSock q) \<and> writePending E q = Some p1 else p1 = q)"
      using d m by (auto simp: datagramStage_def FD_ISSET_def Option.bind_eq_Some_conv split: if_splits)
    have "good E {} p q"
      using q(1) readPacket_wp [OF E pok readable] good_refl [OF pok]
      by (auto simp: wp_simps wp_def split: if_splits option.splits)
    then have "g_icmpSock p1 = g_icmpSock p"
      using q(2) stage_sockets by (auto simp: good_def extends_def split: if_splits)
    moreover have "in_fd_set (g_icmpSock p1)"
      using i by (cases "in_fd_set (g_icmpSock p1)") (simp_all add: icmpStage_def)
    ultimately have main: "main_open p" using m in_fd_set_neq by (simp add: main_open_def)
    have g1: "good E {g_meridSock p} p p1"
      using datagramStage_wp [where A = A and R = R and W = W, OF E pok main W readable] d
      by (auto elim!: wpE)
    have W1: "W (g_icmpSock p1) \<Longrightarrow> g_writeSet p1 (g_icmpSock p1)"
      using g1 W main_sockets(3) [OF so main] by (auto simp: good_def extends_def)
    have echo: "echo_ok E (arr_echo A) p1" if "R (g_icmpSock p1)"
      using i that \<open>in_fd_set (g_icmpSock p1)\<close> readICMPPacket_None_iff [OF E good_ok [OF g1]]
      by (auto simp: icmpStage_def Option.bind_eq_Some_conv) (metis option.distinct(1))
    have "good E {g_icmpSock p1} p1 p2"
      using icmpStage_wp [where W = W and R = R, OF E good_ok [OF g1] main_good [OF main g1] W1 echo] i
      by (auto elim!: wpE)
    then have "g_rendvFD p2 = -1" "g_rendvListener p2 = -1"
      using g1 n by (simp_all add: good_def extends_def)
    then show ?thesis by (simp add: handleRendavous_def)
  qed
  then have none: "do { p \<leftarrow> datagramStage E R W A p; p \<leftarrow> icmpStage E R W A p;
      (ret, p) \<leftarrow> handleRendavous E R W bytes peer p; f ret p } = None" for bytes peer f
    by (cases "datagramStage E R W A p") (auto split: Option.bind_splits)
  show ?thesis
    using none stop unfolding handleReady_def Let_def R_def [symmetric] W_def [symmetric]
    by (simp add: R_def [THEN fun_cong]) (intro impI none)
qed

subsection \<open>Schedulers\<close>

text \<open>A scheduler after a run at the clock's reading \<open>k\<close>: one initial interval less, if any is left.\<close>

definition rearmed :: "env \<Rightarrow> nat \<Rightarrow> QueryScheduler \<Rightarrow> QueryScheduler" where
  "rearmed E k q =
     (let first = 0 < qs_numInitInterval q;
          period = (if first then qs_initInterval_MS q else qs_ssInterval_MS q) * MICRO_IN_MILLI
      in q\<lparr>qs_timeoutTV := timeradd (env_clock E k)
             \<lparr>tv_sec = uint period div MICRO_IN_SECOND, tv_usec = uint period mod MICRO_IN_SECOND\<rparr>,
           qs_numInitInterval := qs_numInitInterval q - (if first then 1 else 0)\<rparr>)"

lemma computeSchedTimeout_rearms:
  "computeSchedTimeout E q p = (rearmed E (g_clockReads p) q, p\<lparr>g_clockReads := Suc (g_clockReads p)\<rparr>)"
  by (simp add: computeSchedTimeout_def computeTimeout_def gettimeofday_def rearmed_def Let_def)

lemma rearmed_sel [simp]:
  "qs_finished (rearmed E k q) = qs_finished q" "qs_schedObj (rearmed E k q) = qs_schedObj q"
  by (simp_all add: rearmed_def Let_def)

lemma scheduler_timeout:
  assumes pok: "proc_ok E p" and q: "deref x p = Some (SchedulerQ q)"
    and h: "handleQueryTimeout E x p = Some (r, p')"
  shows "\<exists>k. deref x p' = Some (SchedulerQ (rearmed E k q))"
proof -
  have "wp (runOnce E (qs_schedObj q) p) (\<lambda>(r, p'). step E False {} p p')"
    by (rule runOnce_wp [OF step_refl [OF pok]])
  then obtain r p1 where p1: "runOnce E (qs_schedObj q) p = Some (r, p1)" "step E False {} p p1"
    by (auto elim: wpE)
  have d1: "deref x p1 = Some (SchedulerQ q)" using step_frame [OF p1(2) _ q] by simp
  then show ?thesis
    using h by (auto simp: handleQueryTimeout_def q Scheduler_handleTimeout_def this_Scheduler_def
        p1(1) computeSchedTimeout_rearms modifyQ_def frame_simps)
qed

text \<open>One query of a round: only its own object changes, and a scheduler stays.\<close>

lemma timeout_turn:
  assumes E: "env_ok E" and pok: "proc_ok E p" and q: "deref x p = Some q"
  obtains r p1 r2 p2 where "handleQueryTimeout E x p = Some (r, p1)"
    "tableUpdate x p1 = Some (r2, p2)" "proc_ok E p2"
    "\<And>y. y \<noteq> x \<Longrightarrow> deref y p \<noteq> None \<Longrightarrow> deref y p2 = deref y p"
    "\<And>s. q = SchedulerQ s \<Longrightarrow> \<not> qs_finished s \<Longrightarrow>
       \<exists>k. deref x p2 = Some (SchedulerQ (rearmed E k s))"
proof -
  obtain r p1 q1 where p1: "handleQueryTimeout E x p = Some (r, p1)" "weak_step E {x} p p1"
    "deref x p1 = Some q1"
    using handleQueryTimeout_wp [OF E pok q] by (auto simp: times_out_def elim!: wpE)
  have s1: "step E True {x} p1 p1" using p1(2) by (simp add: step_refl weak_step_def)
  obtain r2 p2 where p2: "tableUpdate x p1 = Some (r2, p2)" "step E True {x} p1 p2"
    "\<And>y. deref y p2 = (if y = x \<and> isFinished q1 then None else deref y p1)"
    by (rule wpE [OF tableUpdate_wp [OF s1 _ p1(3)]]) auto
  have "\<exists>k. deref x p2 = Some (SchedulerQ (rearmed E k s))" if "q = SchedulerQ s" "\<not> qs_finished s" for s
    using scheduler_timeout [OF pok _ p1(1), of s] that q p1(3) p2(3) [of x] by auto
  moreover have "deref y p2 = deref y p" if "y \<noteq> x" "deref y p \<noteq> None" for y
    using that p1(2) p2(3) [of y] by (simp add: weak_step_def)
  ultimately show thesis using that p1(1) p2(1) step_ok [OF p2(2)] by blast
qed

lemma timeoutRound_schedulers:
  assumes E: "env_ok E" and "proc_ok E p" "distinct xs" "\<forall>x \<in> set xs. deref x p \<noteq> None"
    and "deref y p = Some (SchedulerQ q)" "\<not> qs_finished q"
  shows "\<exists>p'. timeoutRound E xs p = Some p' \<and> proc_ok E p' \<and>
    (if y \<in> set xs then \<exists>k. deref y p' = Some (SchedulerQ (rearmed E k q))
     else deref y p' = Some (SchedulerQ q))"
  using assms(2-)
proof (induction xs arbitrary: p q)
  case (Cons x xs)
  obtain qx where qx: "deref x p = Some qx" using Cons.prems(3) by auto
  obtain r p1 r2 p2 where p: "handleQueryTimeout E x p = Some (r, p1)"
      "tableUpdate x p1 = Some (r2, p2)" "proc_ok E p2"
      "\<And>y. y \<noteq> x \<Longrightarrow> deref y p \<noteq> None \<Longrightarrow> deref y p2 = deref y p"
      "\<And>s. qx = SchedulerQ s \<Longrightarrow> \<not> qs_finished s \<Longrightarrow>
        \<exists>k. deref x p2 = Some (SchedulerQ (rearmed E k s))"
    using timeout_turn [OF E Cons.prems(1) qx] by metis
  have d: "\<forall>z \<in> set xs. deref z p2 \<noteq> None"
    using Cons.prems(2,3) p(4) by (metis distinct.simps(2) list.set_intros(2))
  have run: "timeoutRound E (x # xs) p = timeoutRound E xs p2" by (simp add: p(1,2))
  show ?case
  proof (cases "y = x")
    case True
    then obtain k where k: "deref y p2 = Some (SchedulerQ (rearmed E k q))"
      using p(5) [of q] qx Cons.prems(4,5) by auto
    have "y \<notin> set xs" using Cons.prems(2) True by simp
    then show ?thesis
      using Cons.IH [OF p(3) _ d k] Cons.prems(2,5) True unfolding run by auto
  next
    case False
    then have "deref y p2 = Some (SchedulerQ q)" using p(4) [of y] Cons.prems(4) by simp
    then show ?thesis using Cons.IH [OF p(3) _ d] Cons.prems(2,5) False unfolding run by auto
  qed
qed simp

lemma timeout_round_schedulers:
  assumes E: "env_ok E" and pok: "proc_ok E p"
    and y: "deref y p = Some (SchedulerQ q)" "\<not> qs_finished q"
  shows "\<exists>p'. QueryTable_handleTimeout E p = Some (0, p') \<and> proc_ok E p' \<and>
    (if y \<in> set (timedOut (env_clock E (g_clockReads p)) (g_queryTable p))
     then \<exists>k. deref y p' = Some (SchedulerQ (rearmed E k q))
     else deref y p' = Some (SchedulerQ q))"
proof -
  define p1 where "p1 = p\<lparr>g_clockReads := Suc (g_clockReads p)\<rparr>"
  let ?due = "timedOut (env_clock E (g_clockReads p)) (g_queryTable p)"
  have ok1: "proc_ok E p1" using pok by (simp add: p1_def frame_simps)
  have t: "table_wf (g_queryTable p)" using pok by (simp add: proc_ok_def table_ok_def)
  have due: "\<forall>x \<in> set ?due. deref x p1 \<noteq> None"
  proof
    fix x assume "x \<in> set ?due"
    then have "isQueryInTable x (g_queryTable p)"
      using timedOut_set(1) [OF t] by (auto simp: isQueryInTable_def)
    then show "deref x p1 \<noteq> None" using table_deref [OF pok] by (simp add: p1_def frame_simps)
  qed
  have y1: "deref y p1 = Some (SchedulerQ q)" using y(1) by (simp add: p1_def frame_simps)
  have tab: "g_queryTable p1 = g_queryTable p" by (simp add: p1_def)
  from timeoutRound_schedulers [OF E ok1 timedOut_set(2) [OF t] due y1 y(2)]
  show ?thesis
    by (auto simp: QueryTable_handleTimeout_def gettimeofday_def p1_def [symmetric] tab
        split: if_splits)
qed

end
