(* ===== verification/Node_Delivery.thy ===== *)
theory Node_Delivery
  imports Node_Runs
begin

text \<open>
  What goes through a node from end to end: a datagram that is wrapped for a rendezvous node,
  relayed by it and reassembled from the pieces in which the tunnel delivers it; a latency that is
  passed on along the subscriptions; the information page.
\<close>

subsection \<open>A frame arriving in pieces\<close>

lemma rp_ok_payload:
  assumes "rp_ok p"
  shows "rp_size p = int (length (getPayLoad p))" "length (getPayLoad p) < 1073741824"
proof -
  have "nat (rp_size p) \<le> length (rp_packet p)" using assms by (simp add: rp_ok_def nat_le_iff)
  then have "length (getPayLoad p) = nat (rp_size p)" by (simp add: getPayLoad_def)
  then show "rp_size p = int (length (getPayLoad p))" "length (getPayLoad p) < 1073741824"
    using assms by (simp_all add: rp_ok_def nat_less_iff)
qed

lemma PullPacket_parse_partial:
  assumes p: "rp_ok p" and pay: "getPayLoad p @ rest = relay_frame magic remote body"
    and rest: "rest \<noteq> []" and len: "length body < 1073741801"
  shows "PullPacket_parse magic p src = (None, p, src)"
proof -
  let ?pl = "newPullPacket 0 (addr remote) (port remote) (word_of_nat (length body))"
  note lp = rp_ok_payload [OF p]
  have rd0: "newBufferWrapper (getPayLoad p) (rp_size p) = rd [] (getPayLoad p)"
    using lp(1) by (simp add: newBufferWrapper_def rd_def)
  have f: "getPayLoad p @ rest = PullPacket_bytes magic ?pl @ body"
    using pay by (simp add: relay_frame_def)
  show ?thesis
  proof (cases "length (getPayLoad p) < 23")
    case False
    define part where "part = drop 23 (getPayLoad p)"
    have "take 23 (getPayLoad p) = PullPacket_bytes magic ?pl"
      using False arg_cong [OF f, of "take 23"] by simp
    then have g: "getPayLoad p = PullPacket_bytes magic ?pl @ part"
      unfolding part_def by (metis append_take_drop_id)
    then have b: "part @ rest = body" using f by simp
    have lb: "length body = length part + length rest" using b by (metis length_append)
    have l: "length part < length body" "length part < 1073741801"
      using len rest unfolding lb by simp_all
    have sz: "pl_payLoadSize ?pl = word_of_nat (length body)"
      by (simp add: newPullPacket_def split: prod.split)
    have lt: "(word_of_nat (length part) :: u32) < word_of_nat (length body)"
      using l len by (simp add: word_less_nat_alt unat_of_length)
    show ?thesis
      unfolding PullPacket_parse_def rd0 unfolding g PullPacket_bytes_def
      using l lt by (simp add: wire_simps Let_def id_bytes_def sz)
  next
    case short: True
    obtain c b1 where b1: "retrieve_char (rd [] (getPayLoad p)) = (c, b1)" by fastforce
    obtain v2 b2 where b2: "retrieve_uint b1 = (v2, b2)" by fastforce
    obtain v3 b3 where b3: "retrieve_uint b2 = (v3, b3)" by fastforce
    obtain v4 b4 where b4: "get_uint b3 = (v4, b4)" by fastforce
    obtain v5 b5 where b5: "get_uint b4 = (v5, b5)" by fastforce
    obtain v6 b6 where b6: "get_ushort b5 = (v6, b6)" by fastforce
    obtain v7 b7 where b7: "get_uint b6 = (v7, b7)" by fastforce
    have "bw_ok (rd [] (getPayLoad p))" using lp by simp
    then have "reads (rd [] (getPayLoad p)) (c # u32_bytes v2 @ u32_bytes v3 @ net_uint v4 @
        net_uint v5 @ net_ushort v6 @ net_uint v7) b7"
      by (rule reads_bind(1) [OF _ b1], intro reads_bind(4) [OF _ b2] reads_bind(4) [OF _ b3]
        reads_bind(2) [OF _ b4] reads_bind(2) [OF _ b5] reads_bind(3) [OF _ b6]
        reads_get_uint [OF _ b7])
    then have "bw_errorFlag b7"
      using short reads_rd by (fastforce simp: reads_def rd_def)
    then show ?thesis
      by (simp add: PullPacket_parse_def rd0 Let_def b1 b2 b3 b4 b5 b6 b7)
  qed
qed

text \<open>What one read leaves in the stream buffer, if there is room for it.\<close>

definition filled :: "u8 list \<Rightarrow> RealPacket \<Rightarrow> RealPacket" where
  "filled bytes b = setPayLoadSize (rp_size b + int (length bytes))
     (b\<lparr>rp_packet := mem_write (rp_packet b) (nat (rp_size b)) bytes\<rparr>)"

lemma filled_facts:
  assumes b: "rp_ok b" "rp_complete b"
    and room: "rp_size b + int (length bytes) \<le> uint (rp_maxPacketSize b)"
  shows "rp_ok (filled bytes b)" "rp_complete (filled bytes b)"
    "getPayLoad (filled bytes b) = getPayLoad b @ bytes"
    "rp_size (filled bytes b) = rp_size b + int (length bytes)"
    "rp_maxPacketSize (filled bytes b) = rp_maxPacketSize b"
proof -
  define n where "n = nat (rp_size b)"
  have n: "rp_size b = int n" "n \<le> length (rp_packet b)" using b(1) by (auto simp: n_def rp_ok_def)
  have le: "\<not> (word_of_int (int n + int (length bytes)) :: u32) > rp_maxPacketSize b"
    using room b(1) n unfolding word_less_def uint_word_of_int take_bit_eq_mod
    by (simp add: rp_ok_def)
  have e: "filled bytes b = b\<lparr>rp_packet := mem_write (rp_packet b) n bytes,
      rp_size := int n + int (length bytes)\<rparr>"
    using b(2) le unfolding filled_def setPayLoadSize_def n(1) by simp
  show "rp_ok (filled bytes b)"
    using b(1) room n by (simp add: e rp_ok_def mem_write_def)
  show "getPayLoad (filled bytes b) = getPayLoad b @ bytes"
    using n by (simp add: e getPayLoad_def mem_write_def nat_add_distrib)
  show "rp_complete (filled bytes b)" "rp_size (filled bytes b) = rp_size b + int (length bytes)"
    "rp_maxPacketSize (filled bytes b) = rp_maxPacketSize b"
    using b(2) n by (simp_all add: e)
qed

lemma tunnelReceive_filled:
  assumes "rp_size (g_rendvRecvPacket p) + int (length bytes) \<le>
      uint (rp_maxPacketSize (g_rendvRecvPacket p))" "bytes \<noteq> []"
  shows "tunnelReceive E bytes p =
    (case PullPacket_parse (env_magic E) (filled bytes (g_rendvRecvPacket p)) \<lparr>addr = 0, port = 0\<rparr> of
       (frame, buffer, srcNode) \<Rightarrow>
         (case frame of None \<Rightarrow> Some (0, p\<lparr>g_rendvRecvPacket := buffer\<rparr>)
          | Some pk \<Rightarrow> do { p \<leftarrow> handleNewPacket E (getPayLoad pk) srcNode
              (p\<lparr>g_rendvRecvPacket := buffer\<rparr>); Some (0, p) }))"
proof -
  have e: "take (nat (uint (rp_maxPacketSize (g_rendvRecvPacket p)) - rp_size (g_rendvRecvPacket p))) bytes
      = bytes" using assms(1) by simp
  show ?thesis
    using assms(2) unfolding tunnelReceive_def Let_def e filled_def by simp
qed

text \<open>A node that reads the pieces \<open>cs\<close> from its tunnel, one in each iteration.\<close>

fun receive_pieces :: "env \<Rightarrow> u8 list list \<Rightarrow> MeridianProcess \<Rightarrow> (int \<times> MeridianProcess) option" where
  "receive_pieces E [] p = Some (0, p)"
| "receive_pieces E (c # cs) p =
     do { (r, p) \<leftarrow> tunnelReceive E c p;
          if r = -1 then Some (-1, p) else receive_pieces E cs p }"

lemma receive_frame:
  assumes "cs \<noteq> []" "[] \<notin> set cs"
    and "rp_ok (g_rendvRecvPacket p)" "rp_complete (g_rendvRecvPacket p)"
    and "getPayLoad (g_rendvRecvPacket p) @ concat cs = relay_frame (env_magic E) src body"
    and "23 + int (length body) \<le> uint (rp_maxPacketSize (g_rendvRecvPacket p))"
  shows "\<exists>b'. rp_ok b' \<and> rp_complete b' \<and> getPayLoad b' = [] \<and>
    rp_maxPacketSize b' = rp_maxPacketSize (g_rendvRecvPacket p) \<and>
    receive_pieces E cs p = do { p \<leftarrow> handleNewPacket E body (ident src) (p\<lparr>g_rendvRecvPacket := b'\<rparr>);
      Some (0, p) }"
  using assms
proof (induction cs arbitrary: p)
  case (Cons c cs)
  let ?pl = "newPullPacket 0 (addr src) (port src) (word_of_nat (length body))"
  let ?b = "filled c (g_rendvRecvPacket p)"
  have c: "c \<noteq> []" using Cons.prems(2) by auto
  have pay: "getPayLoad (g_rendvRecvPacket p) @ c @ concat cs = relay_frame (env_magic E) src body"
    using Cons.prems(5) by simp
  have "length (getPayLoad (g_rendvRecvPacket p)) + length c + length (concat cs)
      = 23 + length body"
    using arg_cong [OF pay, of length] by (simp add: relay_frame_def)
  moreover have sz: "rp_size (g_rendvRecvPacket p) = int (length (getPayLoad (g_rendvRecvPacket p)))"
    by (rule rp_ok_payload [OF Cons.prems(3)])
  ultimately have room: "rp_size (g_rendvRecvPacket p) + int (length c) \<le>
      uint (rp_maxPacketSize (g_rendvRecvPacket p))" using Cons.prems(6) by linarith
  note b = filled_facts [OF Cons.prems(3,4) room]
  have len: "length body < 1073741801"
    using Cons.prems(3,6) by (simp add: rp_ok_def)
  note t = tunnelReceive_filled [OF room c, of E]
  show ?case
  proof (cases "cs = []")
    case True
    then have g: "getPayLoad ?b = PullPacket_bytes (env_magic E) ?pl @ body @ []"
      using b(3) pay by (simp add: relay_frame_def)
    have sz: "pl_payLoadSize ?pl = word_of_nat (length body)" "pl_srcIP ?pl = addr src"
      "pl_srcPort ?pl = port src" by (simp_all add: newPullPacket_def split: prod.split)
    obtain np b' where np: "PullPacket_parse (env_magic E) ?b \<lparr>addr = 0, port = 0\<rparr>
        = (Some np, b', \<lparr>addr = pl_srcIP ?pl, port = pl_srcPort ?pl\<rparr>)" "getPayLoad np = body"
      "rp_ok b'" "rp_complete b'" "getPayLoad b' = []" "rp_maxPacketSize b' = rp_maxPacketSize ?b"
      by (rule PullPacket_parse_frame [OF b(1,2) g sz(1)]) blast
    have "\<lparr>addr = pl_srcIP ?pl, port = pl_srcPort ?pl\<rparr> = ident src"
      by (simp only: sz ident_def)
    then have "receive_pieces E (c # cs) p = do { p \<leftarrow> handleNewPacket E body (ident src)
        (p\<lparr>g_rendvRecvPacket := b'\<rparr>); Some (0, p) }"
      using True by (cases "handleNewPacket E body (ident src) (p\<lparr>g_rendvRecvPacket := b'\<rparr>)")
        (simp_all add: t np(1,2))
    then show ?thesis using np(3-6) b(5) by auto
  next
    case False
    then have ne: "concat cs \<noteq> []" using Cons.prems(2) by (cases cs) auto
    have "PullPacket_parse (env_magic E) ?b \<lparr>addr = 0, port = 0\<rparr> = (None, ?b, \<lparr>addr = 0, port = 0\<rparr>)"
      using b(1,3) pay by (intro PullPacket_parse_partial [OF _ _ ne len]) simp_all
    then have step: "receive_pieces E (c # cs) p =
        receive_pieces E cs (p\<lparr>g_rendvRecvPacket := ?b\<rparr>)" by (simp add: t)
    have "getPayLoad ?b @ concat cs = relay_frame (env_magic E) src body" using b(3) pay by simp
    then show ?thesis
      using Cons.IH [of "p\<lparr>g_rendvRecvPacket := ?b\<rparr>"] b False Cons.prems(2,6)
      unfolding step by simp
  qed
qed simp

subsection \<open>Sending through a rendezvous node\<close>

lemma wrapPush_bytes:
  assumes pk: "rp_ok pk" and w: "wrapPush magic pk = Some w"
    and r: "addrRendv (rp_dest pk) \<noteq> 0 \<or> ucast (portRendv (rp_dest pk)) \<noteq> (0 :: u16)"
  shows "getPayLoad w = PushPacket_bytes magic (newPushPacket 0 (addr (rp_dest pk)) (port (rp_dest pk)))
      @ getPayLoad pk"
    "ident (rp_dest w) = \<lparr>addr = addrRendv (rp_dest pk), port = ucast (portRendv (rp_dest pk))\<rparr>"
    "length (getPayLoad pk) + 19 \<le> 1400"
proof -
  let ?ph = "newPushPacket 0 (addr (rp_dest pk)) (port (rp_dest pk))"
  define new where "new = newRealPacket \<lparr>addr = addrRendv (rp_dest pk),
      port = ucast (portRendv (rp_dest pk))\<rparr> MAX_UDP_PACKET_SIZE"
  define q where "q = snd (PushPacket_createRealPacket magic ?ph new)"
  have new: "rp_ok new" "getPayLoad new = []" "rp_size new = 0" "uint (rp_maxPacketSize new) = 1400"
    unfolding new_def by (simp_all add: MAX_UDP_PACKET_SIZE_def newRealPacket_def
        newRealPacketRendv_def getPayLoad_def rp_ok_def)
  have e: "w = append_packet pk q" "rp_complete w"
    using w r by (auto simp: wrapPush_def Let_def q_def new_def split: prod.splits if_splits)
  have w1: "writes new q (PushPacket_bytes magic ?ph)"
    unfolding q_def by (rule push_writer.create_writes) (simp_all add: new)
  note l = rp_ok_payload [OF pk]
  have "append_packet pk q = append_str (getPayLoad pk) (rp_size pk) q"
    by (simp add: append_packet_def append_str_def getPayLoad_def)
  then have "writes q w (getPayLoad pk)"
    using writes_append_str [OF writes_ok [OF w1] l] by (simp add: e(1))
  then have w2: "writes new w (PushPacket_bytes magic ?ph @ getPayLoad pk)"
    by (rule writes_trans [OF w1])
  then show "getPayLoad w = PushPacket_bytes magic ?ph @ getPayLoad pk"
    "length (getPayLoad pk) + 19 \<le> 1400"
    using e(2) new by (simp_all add: writes_def)
  show "ident (rp_dest w) = \<lparr>addr = addrRendv (rp_dest pk), port = ucast (portRendv (rp_dest pk))\<rparr>"
    using w2 by (simp add: writes_def new_def newRealPacket_def newRealPacketRendv_def ident_def)
qed

lemma wrapPush_fits:
  assumes pk: "rp_ok pk" and len: "length (getPayLoad pk) + 19 \<le> 1400"
    and r: "addrRendv (rp_dest pk) \<noteq> 0 \<or> ucast (portRendv (rp_dest pk)) \<noteq> (0 :: u16)"
  obtains w where "wrapPush magic pk = Some w"
proof -
  let ?ph = "newPushPacket 0 (addr (rp_dest pk)) (port (rp_dest pk))"
  define new where "new = newRealPacket \<lparr>addr = addrRendv (rp_dest pk),
      port = ucast (portRendv (rp_dest pk))\<rparr> MAX_UDP_PACKET_SIZE"
  have new: "rp_ok new" "rp_complete new" "rp_size new = 0" "uint (rp_maxPacketSize new) = 1400"
    unfolding new_def by (simp_all add: MAX_UDP_PACKET_SIZE_def newRealPacket_def
        newRealPacketRendv_def rp_ok_def)
  obtain ret q where q: "PushPacket_createRealPacket magic ?ph new = (ret, q)" by fastforce
  have "ret = 0" using push_writer.create_fits [OF TrueI new(1,2), of magic ?ph] new by (simp add: q)
  moreover have w1: "writes new q (PushPacket_bytes magic ?ph)"
    using push_writer.create_writes [OF TrueI new(1), of magic ?ph] by (simp add: q)
  note l = rp_ok_payload [OF pk]
  have e: "append_packet pk q = append_str (getPayLoad pk) (rp_size pk) q"
    by (simp add: append_packet_def append_str_def getPayLoad_def)
  have "writes q (append_packet pk q) (getPayLoad pk)"
    unfolding e by (rule writes_append_str [OF writes_ok [OF w1] l])
  from writes_trans [OF w1 this] have "rp_complete (append_packet pk q)"
    using new len by (simp add: writes_def)
  ultimately show thesis using that r q by (simp add: wrapPush_def Let_def new_def [symmetric])
qed

lemma relayed_delivery:
  assumes pk: "rp_ok pk" "wrapPush (env_magic E) pk = Some w"
    and rendv: "addrRendv (rp_dest pk) \<noteq> 0 \<or> ucast (portRendv (rp_dest pk)) \<noteq> (0 :: u16)"
    and r: "fst (PushPacket_parse (env_magic E) sender (getPayLoad w)) = Some r"
    and cs: "cs \<noteq> []" "[] \<notin> set cs" "concat cs = getPayLoad r"
    and buffer: "rp_ok (g_rendvRecvPacket p)" "rp_complete (g_rendvRecvPacket p)"
      "getPayLoad (g_rendvRecvPacket p) = []" "rp_maxPacketSize (g_rendvRecvPacket p) = MAX_UDP_PACKET_SIZE"
  shows "ident (rp_dest r) = ident (rp_dest pk) \<and>
    (\<exists>b'. rp_ok b' \<and> rp_complete b' \<and> getPayLoad b' = [] \<and>
      rp_maxPacketSize b' = MAX_UDP_PACKET_SIZE \<and>
      receive_pieces E cs p = do { p \<leftarrow> handleNewPacket E (getPayLoad pk) (ident sender)
        (p\<lparr>g_rendvRecvPacket := b'\<rparr>); Some (0, p) })"
proof -
  let ?ph = "newPushPacket 0 (addr (rp_dest pk)) (port (rp_dest pk))"
  note w = wrapPush_bytes [OF pk rendv]
  have len: "length (PushPacket_bytes (env_magic E) ?ph @ getPayLoad pk) < 1073741824"
    using w(3) by simp
  have ph: "pu_destIP ?ph = addr (rp_dest pk)" "pu_destPort ?ph = port (rp_dest pk)"
    by (simp_all add: newPushPacket_def split: prod.split)
  note relay = PushPacket_parse_relay [OF len, of sender, folded w(1)]
  have fits: "23 + int (length (getPayLoad pk)) \<le> uint (rp_maxPacketSize (g_rendvRecvPacket p))"
    using relay(1) r by (simp add: buffer(4) MAX_UDP_PACKET_SIZE_def)
  have "getPayLoad (g_rendvRecvPacket p) @ concat cs = relay_frame (env_magic E) sender (getPayLoad pk)"
    using relay(2) [OF r] cs(3) buffer(3) by simp
  then show ?thesis
    using receive_frame [OF cs(1,2) buffer(1,2) _ fits] relay(2) [OF r] ph buffer(4)
    by (simp add: ident_def)
qed

subsection \<open>The fuel of a delivery\<close>

text \<open>More fuel only turns a missing result into a result.\<close>

definition refined :: "'a option \<Rightarrow> 'a option \<Rightarrow> bool" where
  "refined m m' \<longleftrightarrow> (\<forall>r. m = Some r \<longrightarrow> m' = Some r)"

lemma refined_refl [simp, intro]: "refined m m"
  by (simp add: refined_def)

lemma refined_bind:
  "refined m m' \<Longrightarrow> (\<And>x. refined (f x) (f' x)) \<Longrightarrow> refined (Option.bind m f) (Option.bind m' f')"
  by (cases m) (auto simp: refined_def)

definition refines_notifier :: "notifier \<Rightarrow> notifier \<Rightarrow> bool" where
  "refines_notifier n n' \<longleftrightarrow> (\<forall>s lats p. refined (n s lats p) (n' s lats p))"

lemma notifyAll_mono:
  assumes "refines_notifier n n'"
  shows "refined (notifyAll n ss v p) (notifyAll n' ss v p)"
proof (induction ss arbitrary: p)
  case (Cons s ss)
  then show ?case
    unfolding notifyAll.simps
    by (intro refined_bind) (use assms in \<open>auto simp: refines_notifier_def split: prod.split\<close>)
qed simp

lemma handleLatency_mono:
  assumes n: "refines_notifier n n'"
  shows "refined (handleLatency E n self lats p) (handleLatency E n' self lats p)"
proof -
  have added: "refined (AddNode_measured E n self q l p) (AddNode_measured E n' self q l p)" for q l
    unfolding AddNode_measured_def Let_def
    by (intro refined_bind) (auto intro!: refined_bind notifyAll_mono [OF n] split: prod.split)
  have probed: "refined (ProbeQuery_handleLatency E n self lats p) (ProbeQuery_handleLatency E n' self lats p)"
    unfolding ProbeQuery_handleLatency_def
    by (intro refined_bind)
      (auto intro!: refined_bind notifyAll_mono [OF n] split: list.split prod.split)
  show ?thesis
    using probed unfolding handleLatency_def AddNode_handleLatency_def
    by (auto intro!: refined_bind added split: option.split query.split list.split)
qed

lemma deliver_Suc: "refines_notifier (deliver E n) (deliver E (Suc n))"
proof (induction n)
  case 0
  show ?case by (simp add: refines_notifier_def refined_def)
next
  case (Suc n)
  have "refined (deliver E (Suc n) s lats p) (deliver E (Suc (Suc n)) s lats p)" for s lats p
    using handleLatency_mono [OF Suc, of E s lats p]
    unfolding deliver.simps(2) [of E n s lats p] deliver.simps(2) [of E "Suc n" s lats p]
    by (cases "isQueryInTable s (g_queryTable p)") (simp_all del: deliver.simps add: refined_bind)
  then show ?case by (simp add: refines_notifier_def del: deliver.simps)
qed

lemma deliver_mono: "n \<le> m \<Longrightarrow> refines_notifier (deliver E n) (deliver E m)"
proof (induction rule: dec_induct)
  case (step k)
  then show ?case using deliver_Suc [of E k] by (simp add: refines_notifier_def refined_def)
qed (simp add: refines_notifier_def)

lemma deliver_fuel:
  assumes "proc_ok E p" "length (g_queries p) < n"
  shows "deliver E n s lats p = notifyQLatency E s lats p \<and> deliver E n s lats p \<noteq> None"
proof -
  obtain r where r: "notifyQLatency E s lats p = Some r"
    using notifyQLatency_wp [OF assms(1), of s lats] by (auto elim!: wpE)
  then have "deliver E n s lats p = Some r"
    using deliver_mono [of "Suc (length (g_queries p))" n E] assms(2)
    unfolding refines_notifier_def refined_def notifyQLatency_def by (metis Suc_leI)
  then show ?thesis using r by simp
qed

subsection \<open>The size of the page\<close>

definition page :: "env \<Rightarrow> MeridianProcess \<Rightarrow> u8 list list \<Rightarrow> u8 list list" where
  "page E p rows = pageHead (g_hostname p) @ rows @ [tableEnd] @
     pageEnd E (env_clock E (g_clockReads p)) (env_clock E (Suc (g_clockReads p)))"

lemma snprintfs_append: "snprintfs n (xs @ ys) out = do { out \<leftarrow> snprintfs n xs out; snprintfs n ys out }"
proof (induction xs arbitrary: out)
  case (Cons a xs)
  then show ?case by (cases "snprintf n a out") simp_all
qed simp

lemma snprintfs_fits:
  assumes "int k + int (length (concat strs)) \<le> int m" "length buf = m" "k \<le> m"
  shows "\<exists>buf'. snprintfs (int m) strs (int k, buf) = Some (int (k + length (concat strs)), buf') \<and>
    length buf' = m \<and> take k buf' = take k buf \<and>
    (concat strs \<noteq> [] \<longrightarrow> take (length (concat strs)) (drop k buf') =
      (if k + length (concat strs) < m then concat strs else butlast (concat strs) @ [0]))"
  using assms
proof (induction strs arbitrary: k buf)
  case (Cons str strs)
  define buf1 where "buf1 = (if m - k = 0 then buf
    else mem_write buf k (take (m - k - 1) str @ [0]))"
  have l: "k + length str \<le> m" "int (k + length str) + int (length (concat strs)) \<le> int m"
    using Cons.prems(1) by simp_all
  have b1: "length buf1 = m" "take k buf1 = take k buf"
    "k + length str < m \<Longrightarrow> take (length str) (drop k buf1) = str"
    using Cons.prems(2,3) l(1) by (auto simp: buf1_def mem_write_def)
  have b2: "take (length str) (drop k buf1) = butlast str @ [0]"
    if "str \<noteq> []" "k + length str = m"
  proof -
    have "buf1 = take k buf @ butlast str @ [0]"
      using that Cons.prems(2) by (auto simp: buf1_def mem_write_def butlast_conv_take)
    moreover have "length str = Suc (length (butlast str))" using that(1) by (cases str) simp_all
    ultimately show ?thesis using that(2) Cons.prems(2) by simp
  qed
  have run: "snprintfs (int m) (str # strs) (int k, buf)
      = snprintfs (int m) strs (int (k + length str), buf1)"
    using Cons.prems(3) by (simp add: snprintf_def Let_def buf1_def nat_diff_distrib)
  obtain buf' where b': "snprintfs (int m) strs (int (k + length str), buf1)
      = Some (int (k + length str + length (concat strs)), buf')" "length buf' = m"
    "take (k + length str) buf' = take (k + length str) buf1"
    "concat strs \<noteq> [] \<Longrightarrow> take (length (concat strs)) (drop (k + length str) buf') =
      (if k + length str + length (concat strs) < m then concat strs
       else butlast (concat strs) @ [0])"
    using Cons.IH [OF l(2) b1(1) l(1)] by auto
  have "take k buf' = take k buf"
    using arg_cong [OF b'(3), of "take k"] b1(2) by simp
  moreover have "take (length (concat (str # strs))) (drop k buf') =
      (if k + length (concat (str # strs)) < m then concat (str # strs)
       else butlast (concat (str # strs)) @ [0])" if "concat (str # strs) \<noteq> []"
  proof -
    have first: "take (length str) (drop k buf') = take (length str) (drop k buf1)"
      using arg_cong [OF b'(3), of "drop k"] by (simp add: drop_take)
    show ?thesis
    proof (cases "concat strs = []")
      case True
      then have "concat (str # strs) = str" "str \<noteq> []" using that by (simp_all del: concat_eq_Nil_conv)
      then show ?thesis using first b1(3) b2 l(1)
        by (cases "k + length str < m") (simp_all del: concat.simps concat_eq_Nil_conv)
    next
      case False
      then have "k + length str < m" using l(2) by (cases "concat strs") auto
      then have "take (length str) (drop k buf') = str"
        using first b1(3) by simp
      moreover have "butlast (str @ concat strs) = str @ butlast (concat strs)"
        using False by (simp add: butlast_append del: concat_eq_Nil_conv)
      ultimately show ?thesis using b'(4) [OF False] by (simp add: take_add add.commute)
    qed
  qed
  ultimately show ?case using b'(1,2) unfolding run by auto
qed simp

lemma snprintfs_pos:
  "snprintfs n strs (k, buf) = Some (k', buf') \<Longrightarrow> k' = k + int (length (concat strs))"
  by (induction strs arbitrary: k buf)
    (fastforce simp: snprintf_def Let_def split: if_splits Option.bind_splits)+

lemma snprintfs_last:
  assumes "snprintfs n (xs @ [y]) out = Some (k', buf')"
  shows "k' \<le> n + int (length y)"
  using assms by (cases out) (auto simp: snprintfs_append snprintf_def Let_def
      split: if_splits Option.bind_splits)

lemma memberRows_total:
  "\<forall>n \<in> set ns. getNodeLatency rs n \<noteq> None \<Longrightarrow> \<exists>rows. memberRows E rs ns = Some rows"
  by (induction ns) auto

lemma ringRows_total:
  assumes "ring_wf F rs" "\<forall>i \<in> set is. ring_index i"
  shows "\<exists>rows. ringRows E rs is = Some rows"
  using assms(2)
proof (induction "is")
  case (Cons i "is")
  have "\<forall>n \<in> set (primaryRing rs i). getNodeLatency rs n \<noteq> None"
  proof
    fix n assume "n \<in> set (primaryRing rs i)"
    then have "n \<in> set (members rs i)" by (simp add: members_def)
    then show "getNodeLatency rs n \<noteq> None"
      using ring_wfD(3) [OF assms(1), of i n] Cons.prems by (auto simp: getNodeLatency_def)
  qed
  then obtain rows where "memberRows E rs (primaryRing rs i) = Some rows"
    using memberRows_total by blast
  then show ?case using Cons by auto
qed simp

lemma getInfoPacket_size:
  assumes pok: "proc_ok E p" and pk: "rp_ok pk" "rp_complete pk"
  obtains rows where "ringRows E (g_rings p) [0..getNumberOfRings (g_rings p) - 1] = Some rows"
    "getInfoPacket E pk p \<noteq> None \<longleftrightarrow>
       rp_size pk + int (length (concat (page E p rows))) \<le> uint (rp_maxPacketSize pk)"
    "rp_size pk + int (length (concat (page E p rows))) \<le> uint (rp_maxPacketSize pk) \<Longrightarrow>
       \<exists>pk' p'. getInfoPacket E pk p = Some (pk', p') \<and> getPayLoad pk' = getPayLoad pk @
         (if rp_size pk + int (length (concat (page E p rows))) < uint (rp_maxPacketSize pk)
          then concat (page E p rows) else butlast (concat (page E p rows)) @ [0])"
proof -
  have "ring_wf (env_fpu E) (g_rings p)" using pok by (simp add: proc_ok_def)
  then obtain rows where rows: "ringRows E (g_rings p) [0..getNumberOfRings (g_rings p) - 1] = Some rows"
    using ringRows_total [of "env_fpu E" "g_rings p" "[0..getNumberOfRings (g_rings p) - 1]" E]
    by (auto simp: getNumberOfRings_def)
  define m where "m = length (rp_packet pk)"
  define k where "k = length (getPayLoad pk)"
  have m: "uint (rp_maxPacketSize pk) = int m" "m < 1073741824"
    using pk(1) by (simp_all add: m_def rp_ok_def)
  moreover have "rp_size pk = int k" unfolding k_def by (rule rp_ok_payload(1) [OF pk(1)])
  moreover have "k \<le> m" by (simp add: k_def m_def getPayLoad_def)
  moreover have "take k (rp_packet pk) = getPayLoad pk"
    by (simp add: k_def getPayLoad_def min_def)
  ultimately have m: "uint (rp_maxPacketSize pk) = int m" "m < 1073741824" "rp_size pk = int k"
    "k \<le> m" "take k (rp_packet pk) = getPayLoad pk" by blast+
  let ?text = "concat (page E p rows)"
  define run where "run = snprintfs (int m) (page E p rows) (int k, rp_packet pk)"
  have get: "getInfoPacket E pk p = do { (pos, buf) \<leftarrow> run;
      let pk = setPayLoadSize pos (pk\<lparr>rp_packet := buf\<rparr>);
      if rp_complete pk then Some (pk, p\<lparr>g_clockReads := Suc (Suc (g_clockReads p))\<rparr>) else None }"
    using rows by (simp add: getInfoPacket_def gettimeofday_def Let_def m run_def page_def
        snprintfs_append [of "int m" "_ @ _" "pageEnd _ _ _", simplified append_assoc]
        snprintfs_append split: Option.bind_splits)
  have too_long: "getInfoPacket E pk p = None" if "\<not> int k + int (length ?text) \<le> int m"
  proof (cases run)
    case (Some out)
    obtain pos buf where out: "run = Some (pos, buf)" using Some by (cases out) auto
    have pos: "pos = int k + int (length ?text)"
      using snprintfs_pos out unfolding run_def by blast
    have "pos \<le> int m + 16"
    proof -
      obtain xs where "page E p rows = xs @ [newline @ ascii ''</body>'' @ newline @ ascii ''</HTML>'']"
        by (simp add: page_def pageEnd_def)
      then show ?thesis using out snprintfs_last [of "int m" xs] unfolding run_def
        by (fastforce simp: newline_def ascii_def)
    qed
    moreover have "0 \<le> pos" by (simp add: pos)
    ultimately have "uint (word_of_int pos :: u32) = pos"
      using m(2) by (simp add: uint_word_of_int take_bit_eq_mod)
    then have "(word_of_int pos :: u32) > rp_maxPacketSize pk"
      using that pos m(1) by (simp add: word_less_def)
    then show ?thesis using pk(2) by (simp add: get out setPayLoadSize_def)
  qed (simp add: get)
  have nonempty: "?text \<noteq> []" by (simp add: page_def pageHead_def ascii_def)
  have fits: "\<exists>pk' p'. getInfoPacket E pk p = Some (pk', p') \<and>
      getPayLoad pk' = getPayLoad pk @
        (if int k + int (length ?text) < int m then ?text else butlast ?text @ [0])"
    if le: "int k + int (length ?text) \<le> int m"
  proof -
    obtain buf where buf: "run = Some (int (k + length ?text), buf)" "length buf = m"
      "take k buf = take k (rp_packet pk)"
      "take (length ?text) (drop k buf) =
        (if k + length ?text < m then ?text else butlast ?text @ [0])"
      using snprintfs_fits [OF le _ m(4), of "rp_packet pk"] nonempty unfolding run_def m_def by auto
    have "uint (word_of_int (int (k + length ?text)) :: u32) = int (k + length ?text)"
      using le m(2) by (simp add: uint_word_of_int take_bit_eq_mod del: of_nat_add)
    then have "\<not> (word_of_int (int (k + length ?text)) :: u32) > rp_maxPacketSize pk"
      using le m(1) by (simp add: word_less_def)
    then have "getInfoPacket E pk p = Some (pk\<lparr>rp_packet := buf, rp_size := int (k + length ?text)\<rparr>,
        p\<lparr>g_clockReads := Suc (Suc (g_clockReads p))\<rparr>)"
      using pk(2) by (simp add: get buf(1) setPayLoadSize_def del: of_nat_add)
    moreover have "take (k + length ?text) buf = getPayLoad pk @
        (if int k + int (length ?text) < int m then ?text else butlast ?text @ [0])"
      using buf(3,4) m(5) by (simp add: take_add flip: of_nat_add)
    ultimately show ?thesis by (simp add: getPayLoad_def nat_add_distrib)
  qed
  have "getInfoPacket E pk p \<noteq> None \<longleftrightarrow> int k + int (length ?text) \<le> int m"
    by (cases "int k + int (length ?text) \<le> int m") (use fits in force, simp add: too_long)
  then show thesis using that [OF rows] fits unfolding m(1,3) by blast
qed

end
