(* ===== verification/Witness_Node.thy ===== *)
theory Witness_Node
  imports Node_Delivery
begin

text \<open>
  A system and two nodes at which the witnesses apply the properties of whole runs: every call
  succeeds and the clock advances by a second with every reading; the first node has a scheduler,
  the second a closest node search that waits for the end of a search it handed on.
\<close>

definition exFpu :: fpu where "exFpu = \<lparr>rnd = (\<lambda>x. x), lg = (\<lambda>_. 0)\<rparr>"

definition exEnv :: env where
  "exEnv = \<lparr>env_fpu = exFpu, env_magic = 77, env_clock = (\<lambda>n. \<lparr>tv_sec = int n, tv_usec = 0\<rparr>),
     env_rand = (\<lambda>_. 0), env_socket = (\<lambda>_ fds. if fold max fds 0 < 1023 then fold max fds 0 + 1 else -1), env_call = (\<lambda>_. True),
     env_again = (\<lambda>_. False), env_send = (\<lambda>_. 1), env_volume = (\<lambda>_. 0)\<rparr>"

lemma fold_max_above: "(x :: int) \<in> set xs \<or> x \<le> a \<Longrightarrow> x \<le> fold max xs a"
proof (induction xs arbitrary: a)
  case (Cons y xs)
  from Cons.prems have "x \<in> set xs \<or> x \<le> max y a" by auto
  then show ?case unfolding fold_simps(2) by (rule Cons.IH)
qed simp

lemma exEnv_sel [simp]:
  "env_fpu exEnv = exFpu" "env_magic exEnv = 77"
  "env_clock exEnv n = \<lparr>tv_sec = int n, tv_usec = 0\<rparr>"
  "env_socket exEnv k fds = (if fold max fds 0 < 1023 then fold max fds 0 + 1 else -1)"
  "env_volume exEnv M = 0" "env_call exEnv k" "\<not> env_again exEnv k" "env_send exEnv k = 1"
  by (simp_all add: exEnv_def)

lemma exEnv_ok: "env_ok exEnv"
proof -
  have "fold max fds 0 + 1 \<notin> set fds" for fds :: "int list"
    using fold_max_above [of "fold max fds 0 + 1" fds 0] by auto
  moreover have "0 \<le> fold max fds 0" for fds :: "int list" by (intro fold_max_above) simp
  ultimately show ?thesis by (simp add: env_ok_def in_fd_set_def FD_SETSIZE_def)
qed

lemma exEnv_patient: "patient exEnv 100"
  unfolding patient_def
proof
  fix n
  show "\<exists>k < 100. timeoutLength (env_clock exEnv (n + k)) ((env_clock exEnv (n - 1))
    \<lparr>tv_sec := tv_sec (env_clock exEnv (n - 1)) + DEFAULT_TIME_OUT_S\<rparr>) = None"
    by (rule exI [of _ 99], cases n) (simp_all add: timeoutLength_def normalizeTime_def Let_def
        DEFAULT_TIME_OUT_S_def)
qed

definition exNew :: MeridianProcess where
  "exNew = newMeridianProcess 80 0 4 2 2 3"

lemma exNew_ok: "proc_ok exEnv exNew"
  using new_starting [of 2 3 exEnv 80 0 4 2]
  by (simp add: exNew_def starting_def in_fd_set_def FD_SETSIZE_def)

definition exSched :: QueryScheduler where
  "exSched = \<lparr>qs_schedObj = SchedGossip, qs_timeoutTV = \<lparr>tv_sec = 20, tv_usec = 0\<rparr>,
     qs_initInterval_MS = 10000, qs_numInitInterval = 1, qs_ssInterval_MS = 60000,
     qs_finished = False\<rparr>"

definition exNode :: MeridianProcess where
  "exNode = snd (tableInsert 7 (SchedulerQ exSched) exNew)"

lemma exNew_empty [simp]: "deref x exNew = None" "g_queryTable exNew = newQueryTable"
  "g_queries exNew = []" by (simp_all add: exNew_def new_sel deref_def)

lemma insert_exNew: "snd (tableInsert x q exNew) =
    assignQ x q (exNew\<lparr>g_queryTable := snd (insertNewQuery x (timeOut q) newQueryTable)\<rparr>)"
  by (simp add: tableInsert_cases [OF exNew_ok])

lemma exNode_ok: "proc_ok exEnv exNode"
  unfolding exNode_def
  by (rule step_ok [OF step_tableInsert [OF step_refl [OF exNew_ok, of False UNIV]]]) simp_all

lemma exNode_sched: "deref 7 exNode = Some (SchedulerQ exSched)"
  "sm_find (queryTimeoutMap (g_queryTable exNode)) 7 = Some \<lparr>tv_sec = 20, tv_usec = 0\<rparr>"
proof -
  show "deref 7 exNode = Some (SchedulerQ exSched)"
    by (simp add: exNode_def insert_exNew frame_simps)
  have none: "\<not> isQueryInTable 7 newQueryTable" by (simp add: isQueryInTable_def newQueryTable_def)
  have "sm_find (queryTimeoutMap (snd (insertNewQuery 7 (timeOut (SchedulerQ exSched)) newQueryTable))) 7
      = Some (normalizeTime (timeOut (SchedulerQ exSched)))"
    using none by (simp add: insertNewQuery_wf(3) [OF table_wf_new])
  then show "sm_find (queryTimeoutMap (g_queryTable exNode)) 7 = Some \<lparr>tv_sec = 20, tv_usec = 0\<rparr>"
    unfolding exNode_def insert_exNew
    by (simp add: assignQ_def) (simp add: exSched_def normalizeTime_def MICRO_IN_SECOND_def)
qed

definition exSearch :: HandleClosestGeneric where
  "exSearch = \<lparr>hc_kind = KindPing, hc_betaNumer = 1, hc_betaDenom = 2, hc_averageLatUS = 0,
     hc_srcNode = \<lparr>addr = 1, port = 10, addrRendv = 0, portRendv = 0\<rparr>, hc_finished = False,
     hc_selectedMember = nodeB, hc_timeoutTV = \<lparr>tv_sec = 50, tv_usec = 0\<rparr>, hc_remoteNodes = [],
     hc_ringMembers = [], hc_remoteLatencies = [], hc_stateMachine = HC_WAIT_FOR_FIN,
     hc_ringLatencies = []\<rparr>"

definition exWaiting :: MeridianProcess where
  "exWaiting = snd (tableInsert 9 (HandleClosestQ exSearch) exNew)"

lemma exWaiting_ok: "proc_ok exEnv exWaiting"
  unfolding exWaiting_def
  by (rule step_ok [OF step_tableInsert [OF step_refl [OF exNew_ok, of False UNIV]]])
    (simp_all add: exSearch_def closest_ok_def sm_ok_def)

lemma exWaiting_search: "deref 9 exWaiting = Some (HandleClosestQ exSearch)"
  "g_queries exWaiting = [(9, HandleClosestQ exSearch)]" "g_meridPort exWaiting = 80"
proof -
  show "deref 9 exWaiting = Some (HandleClosestQ exSearch)"
    by (simp add: exWaiting_def insert_exNew frame_simps)
  show "g_queries exWaiting = [(9, HandleClosestQ exSearch)]"
    by (simp add: exWaiting_def insert_exNew assignQ_def)
  have "g_meridPort exNew = 80"
    by (simp add: exNew_def newMeridianProcess_def Let_def setReplaceInterval_def
        setGossipInterval_def setRendavousNode_def)
  then show "g_meridPort exWaiting = 80" by (simp add: exWaiting_def insert_exNew assignQ_def)
qed

text \<open>With every call succeeding, a node starts.\<close>

lemma exEnv_calls [simp]: "sys_calls exEnv n p = (True, p\<lparr>g_sysCalls := g_sysCalls p + n\<rparr>)"
  by (induction n arbitrary: p) (simp_all add: sys_call_def)

lemma exEnv_buffer [simp]: "increaseSockBuf exEnv i p = p\<lparr>g_sysCalls := Suc (Suc (g_sysCalls p))\<rparr>"
  by (subst increaseSockBuf.simps) (simp add: sys_call_def)

lemma addScheduler_listener:
  "g_rendvListener (addScheduler E a b c f p) = g_rendvListener p"
  "g_rendvFD (addScheduler E a b c f p) = g_rendvFD p"
proof -
  obtain qid p1 where i: "getNewQueryID E p = (qid, p1)" by fastforce
  then have "g_rendvListener p1 = g_rendvListener p" "g_rendvFD p1 = g_rendvFD p"
    using getNewQueryID_upd [of E p] by auto
  then show "g_rendvListener (addScheduler E a b c f p) = g_rendvListener p"
    "g_rendvFD (addScheduler E a b c f p) = g_rendvFD p"
    by (auto simp: addScheduler_def newScheduler_def i computeSchedTimeout_rearms tableInsert_def
        assignQ_def split: prod.splits)
qed

lemma exEnv_opens:
  "openMeridSock exEnv p = (0, set_read (g_stopFD p) (set_read (fold max (g_openFDs p) 0 + 1)
     (p\<lparr>g_openFDs := (fold max (g_openFDs p) 0 + 1) # g_openFDs p,
        g_meridSock := fold max (g_openFDs p) 0 + 1,
        g_sysCalls := Suc (Suc (Suc (Suc (Suc (g_sysCalls p)))))\<rparr>)))"
  if "0 \<le> fold max (g_openFDs p) 0" "fold max (g_openFDs p) 0 < 1023" for p
  using that by (simp add: openMeridSock_def sys_socket_def Let_def)

lemma exEnv_listens:
  "createTCPListener exEnv p = (fold max (g_openFDs p) 0 + 1,
     p\<lparr>g_sysCalls := g_sysCalls p + 6, g_openFDs := (fold max (g_openFDs p) 0 + 1) # g_openFDs p\<rparr>)"
  if "0 \<le> fold max (g_openFDs p) 0" "fold max (g_openFDs p) 0 < 1023" for p
  using that by (simp add: createTCPListener_def sys_socket_def Let_def)

lemma exEnv_starts:
  assumes "g_openFDs p = [3]" "g_rendvNode p = \<lparr>addr = 0, port = 0\<rparr>" "g_seedNodes p = []"
  shows "\<exists>p'. startUp exEnv fuel host (Some a) p = Some (None, p') \<and> g_rendvListener p' \<noteq> -1"
proof -
  define p1 where "p1 = snd (openMeridSock exEnv (p\<lparr>g_hostname := host, g_localAddr := a\<rparr>))"
  have p1: "openMeridSock exEnv (p\<lparr>g_hostname := host, g_localAddr := a\<rparr>) = (0, p1)"
    "g_openFDs p1 = [4, 3]" "g_rendvNode p1 = \<lparr>addr = 0, port = 0\<rparr>" "g_seedNodes p1 = []"
    using assms by (simp_all add: p1_def exEnv_opens set_read_def)
  define p2 where "p2 = snd (openInfoSock exEnv p1)"
  have p2: "openInfoSock exEnv p1 = (0, p2)" "g_openFDs p2 = (if g_infoPort p1 > 0 then [5, 4, 3] else [4, 3])"
    "g_rendvNode p2 = \<lparr>addr = 0, port = 0\<rparr>" "g_seedNodes p2 = []"
    using p1 by (simp_all add: p2_def openInfoSock_def exEnv_listens set_read_def Let_def)
  obtain fd p3 where p3: "openRendavous exEnv fuel p2 = Some (0, p3)" "g_rendvListener p3 = fd"
    "0 < fd" "fd < 9" "g_openFDs p3 = fd # g_openFDs p2" "g_seedNodes p3 = []"
    using p2 by (auto simp: openRendavous_def exEnv_listens set_read_def Let_def)
  then have f: "0 \<le> fold max (g_openFDs p3) 0" "fold max (g_openFDs p3) 0 < 1023"
    using p2(2) by (auto intro: fold_max_above)
  obtain p4 where p4: "openICMP exEnv p3 = (0, p4)" "g_rendvListener p4 = fd" "g_seedNodes p4 = []"
    using p3 f by (auto simp: openICMP_def createICMPSocket_def sys_socket_def Let_def set_read_def)
  have "g_rendvListener (addSchedulers exEnv (p4\<lparr>g_seedNodes := []\<rparr>)) = fd"
    by (simp add: addSchedulers_def addScheduler_listener Let_def p4)
  then show ?thesis using p1(1) p2(1) p3(1,3) p4 by (simp add: startUp_def)
qed

text \<open>A system on which the socket for the listener cannot be had: the node starts without it.\<close>

definition exDeaf :: env where
  "exDeaf = exEnv\<lparr>env_socket := (\<lambda>k fds. if k = 5 then -1 else env_socket exEnv k fds)\<rparr>"

lemma exDeaf_ok: "env_ok exDeaf" "patient exDeaf 100"
  using exEnv_ok exEnv_patient by (simp_all add: env_ok_def patient_def exDeaf_def)

lemma exDeaf_calls: "sys_calls exDeaf n p = (True, p\<lparr>g_sysCalls := g_sysCalls p + n\<rparr>)"
  "increaseSockBuf exDeaf i p = p\<lparr>g_sysCalls := Suc (Suc (g_sysCalls p))\<rparr>"
  by (induction n arbitrary: p) (simp_all add: sys_call_def exDeaf_def increaseSockBuf.simps)

lemma exDeaf_socket: "env_socket exDeaf k fds =
    (if k = 5 then -1 else if fold max fds 0 < 1023 then fold max fds 0 + 1 else -1)"
  by (simp add: exDeaf_def)

lemma exDeaf_starts:
  obtains p where "startUp exDeaf 100 [104] (Some 5) exNew = Some (None, p)" "proc_ok exDeaf p"
    "g_rendvListener p = -1" "g_rendvFD p = -1"
proof -
  have new: "g_openFDs exNew = [3]" "g_sysCalls exNew = 0" "g_infoPort exNew = 0"
    "g_rendvNode exNew = \<lparr>addr = 0, port = 0\<rparr>" "g_seedNodes exNew = []" "g_rendvFD exNew = -1"
    by (simp_all add: exNew_def newMeridianProcess_def Let_def setReplaceInterval_def
        setGossipInterval_def setRendavousNode_def)
  define p1 where "p1 = snd (openMeridSock exDeaf (exNew\<lparr>g_hostname := [104], g_localAddr := 5\<rparr>))"
  have p1: "openMeridSock exDeaf (exNew\<lparr>g_hostname := [104], g_localAddr := 5\<rparr>) = (0, p1)"
    "g_openFDs p1 = [4, 3]" "g_sysCalls p1 = 5" "g_infoPort p1 = 0" "g_rendvFD p1 = -1"
    "g_rendvNode p1 = \<lparr>addr = 0, port = 0\<rparr>" "g_seedNodes p1 = []"
    using new by (simp_all add: p1_def openMeridSock_def sys_socket_def exDeaf_calls exDeaf_socket
        Let_def set_read_def)
  define p2 where "p2 = p1\<lparr>g_sysCalls := 6, g_rendvListener := -1\<rparr>"
  have i: "openInfoSock exDeaf p1 = (0, p1)" using p1 by (simp add: openInfoSock_def)
  have r: "openRendavous exDeaf 100 p1 = Some (0, p2)"
    using p1 by (simp add: openRendavous_def createTCPListener_def sys_socket_def Let_def p2_def
        exDeaf_socket)
  obtain p3 where p3: "openICMP exDeaf p2 = (0, p3)" "g_rendvListener p3 = -1" "g_rendvFD p3 = -1"
    "g_seedNodes p3 = []"
    using p1 by (simp add: openICMP_def createICMPSocket_def sys_socket_def Let_def exDeaf_calls
        exDeaf_socket set_read_def p2_def)
  have start: "startUp exDeaf 100 [104] (Some 5) exNew =
      Some (None, addSchedulers exDeaf (p3\<lparr>g_seedNodes := []\<rparr>))"
    using p1(1) i r p3 by (simp add: startUp_def)
  have "starting exDeaf exNew" "own exNew = [-1, -1, -1, -1, -1]"
    using new_starting [of 2 3 exDeaf 80 0 4 2] new_sel(12) [of 80 0 4 2 2 3]
    by (simp_all add: exNew_def in_fd_set_def FD_SETSIZE_def)
  from startUp_wp [OF exDeaf_ok this, of "[104]" "Some 5"]
  have "proc_ok exDeaf (addSchedulers exDeaf (p3\<lparr>g_seedNodes := []\<rparr>))"
    by (simp add: start wp_simps started_def)
  then show thesis
    by (rule that [OF start]) (simp_all add: addSchedulers_def addScheduler_listener Let_def p3)
qed

text \<open>A packet for a node behind a rendezvous node, and the stream buffer of the other node.\<close>

definition exBehind :: RealPacket where
  "exBehind = append_char 42 (newRealPacketRendv
     \<lparr>addr = 3, port = 30, addrRendv = 1, portRendv = 10\<rparr> MAX_UDP_PACKET_SIZE)"

lemma exBehind_facts: "rp_ok exBehind"
  "addrRendv (rp_dest exBehind) \<noteq> 0 \<or> ucast (portRendv (rp_dest exBehind)) \<noteq> (0 :: u16)"
  "getPayLoad exBehind = [42]"
proof -
  define new where
    "new = newRealPacketRendv \<lparr>addr = 3, port = 30, addrRendv = 1, portRendv = 10\<rparr> MAX_UDP_PACKET_SIZE"
  have new: "rp_ok new" "rp_complete new" "getPayLoad new = []" "rp_size new = 0"
    "uint (rp_maxPacketSize new) = 1400" "addrRendv (rp_dest new) = 1"
    by (simp_all add: new_def newRealPacketRendv_def MAX_UDP_PACKET_SIZE_def rp_ok_def getPayLoad_def)
  have "writes new exBehind [42]"
    unfolding exBehind_def new_def [symmetric] by (rule writes_appends(3) [OF new(1)])
  then show "rp_ok exBehind" "getPayLoad exBehind = [42]"
    "addrRendv (rp_dest exBehind) \<noteq> 0 \<or> ucast (portRendv (rp_dest exBehind)) \<noteq> (0 :: u16)"
    using new by (auto simp: writes_def)
qed

lemma exBehind_relayed:
  obtains w r where "wrapPush 77 exBehind = Some w"
    "fst (PushPacket_parse 77 nodeA (getPayLoad w)) = Some r" "getPayLoad r \<noteq> []"
proof -
  obtain w where w: "wrapPush 77 exBehind = Some w"
    by (rule wrapPush_fits [OF exBehind_facts(1) _ exBehind_facts(2)]) (simp add: exBehind_facts)
  note b = wrapPush_bytes(1) [OF exBehind_facts(1) w exBehind_facts(2)]
  have len: "length (PushPacket_bytes 77 (newPushPacket 0 (addr (rp_dest exBehind))
      (port (rp_dest exBehind))) @ getPayLoad exBehind) < 1073741824" by (simp add: exBehind_facts)
  note relay = PushPacket_parse_relay [OF len, of nodeA, folded b]
  have "fst (PushPacket_parse 77 nodeA (getPayLoad w)) \<noteq> None"
    using relay(1) by (simp add: exBehind_facts)
  then obtain r where r: "fst (PushPacket_parse 77 nodeA (getPayLoad w)) = Some r" by blast
  have "getPayLoad r \<noteq> []" using relay(2) [OF r] by (simp add: relay_frame_def PullPacket_bytes_def)
  then show thesis by (rule that [OF w r])
qed

lemma exNode_buffer: "rp_ok (g_rendvRecvPacket exNode)" "rp_complete (g_rendvRecvPacket exNode)"
  "getPayLoad (g_rendvRecvPacket exNode) = []"
  "rp_maxPacketSize (g_rendvRecvPacket exNode) = MAX_UDP_PACKET_SIZE"
proof -
  have "g_rendvRecvPacket exNode = newRealPacket \<lparr>addr = 0, port = 0\<rparr> MAX_UDP_PACKET_SIZE"
    unfolding exNode_def insert_exNew assignQ_def
    by (simp add: exNew_def newMeridianProcess_def Let_def setReplaceInterval_def
        setGossipInterval_def setRendavousNode_def)
  then show "rp_ok (g_rendvRecvPacket exNode)" "rp_complete (g_rendvRecvPacket exNode)"
    "getPayLoad (g_rendvRecvPacket exNode) = []"
    "rp_maxPacketSize (g_rendvRecvPacket exNode) = MAX_UDP_PACKET_SIZE"
    by (simp_all add: newRealPacket_def newRealPacketRendv_def MAX_UDP_PACKET_SIZE_def rp_ok_def
        getPayLoad_def)
qed

end
