(* ===== verification/Lang_State.thy ===== *)
theory Lang_State
  imports Node_Types "HOL-Library.List_Lexorder"
begin

text \<open>
  MQLState.h and MQLState.cpp: the state of an interpreter of the query language. Syntax trees and
  values are nodes on the C heap, owned by the variable table that was current when they were
  created and freed with it. The model keeps the heap as a map from addresses to nodes from which
  \<^verbatim>\<open>free\<close> removes an address for good, so that a use after free shows. A node is a tagged union; the
  constructor of \<open>ASTNode\<close> is the tag with the members that belong to it. The strings, vectors and
  maps of a node are never shared between nodes and stand in the node itself. A run ends with a
  value and a state, or with the \<open>fault\<close> at which the C++ program would leave its defined behaviour.
\<close>

type_synonym str = "u8 list"

definition str_of :: "string \<Rightarrow> str" where
  "str_of s = map of_char s"

lemma str_of_simps [simp]: "str_of [] = []" "str_of (c # s) = of_char c # str_of s"
  by (simp_all add: str_of_def)

subsection \<open>Types and nodes\<close>

text \<open>The type tags. A tag read from a packet is any 32-bit number.\<close>

datatype ASTType = EMPTY_TYPE | INT_TYPE | DOUBLE_TYPE | NEW_VAR_TYPE | REF_VAR_TYPE | STRING_TYPE
  | AST_TYPE | SEP_TYPE | FUNC_REF_TYPE | PRINT_TYPE | UNARY_TYPE | BIN_TYPE | IF_TYPE
  | NEW_VAR_ASSIGN_TYPE | LOOP_TYPE | BREAK_TYPE | CONTINUE_TYPE | CONTEXT_TYPE | FUNC_DECLARE_TYPE
  | FUNC_CALL_TYPE | VOID_TYPE | RETURN_TYPE | DEF_ADT_TYPE | ADT_TYPE | VAR_ADT_TYPE
  | REF_VAR_ADT_TYPE | ASSIGN_ADT_TYPE | ARRAY_TYPE | REF_VAR_ARRAY_TYPE | RPC_TYPE
  | NATIVE_FUNC_TYPE | FOR_LOOP_TYPE | PRINTLN_TYPE | Other_type u32

definition asttypes :: "ASTType list" where
  "asttypes = [EMPTY_TYPE, INT_TYPE, DOUBLE_TYPE, NEW_VAR_TYPE, REF_VAR_TYPE, STRING_TYPE,
     AST_TYPE, SEP_TYPE, FUNC_REF_TYPE, PRINT_TYPE, UNARY_TYPE, BIN_TYPE, IF_TYPE,
     NEW_VAR_ASSIGN_TYPE, LOOP_TYPE, BREAK_TYPE, CONTINUE_TYPE, CONTEXT_TYPE, FUNC_DECLARE_TYPE,
     FUNC_CALL_TYPE, VOID_TYPE, RETURN_TYPE, DEF_ADT_TYPE, ADT_TYPE, VAR_ADT_TYPE,
     REF_VAR_ADT_TYPE, ASSIGN_ADT_TYPE, ARRAY_TYPE, REF_VAR_ARRAY_TYPE, RPC_TYPE,
     NATIVE_FUNC_TYPE, FOR_LOOP_TYPE, PRINTLN_TYPE]"

definition type_of_code :: "u32 \<Rightarrow> ASTType" where
  "type_of_code w = (if unat w < 33 then asttypes ! unat w else Other_type w)"

definition type_code :: "ASTType \<Rightarrow> u32" where
  "type_code t = (case t of Other_type w \<Rightarrow> w
     | _ \<Rightarrow> (case find_index t asttypes of Some i \<Rightarrow> of_nat i | None \<Rightarrow> 0))"

text \<open>Operators and native functions; the code numbers them by characters and grammar tokens.\<close>

datatype OpCode = Op_plus | Op_minus | Op_times | Op_div | Op_mod | Op_bitand | Op_bitor | Op_bitxor
  | LEFT_OP | RIGHT_OP | AND_OP | OR_OP | Op_lt | Op_gt | LE_OP | GE_OP | EQ_OP | NE_OP | Op_not
  | Other_op int

datatype NativeFunc = ROUND | CEIL | FLOOR | SIN | COS | TAN | ASIN | ACOS | ATAN | LOG_OP | EXP
  | POW | DBL | ARRAY_SIZE | DNS_LOOKUP | DNS_ADDR | PUSH_BACK | POP_BACK | GET_SELF | RING_GT
  | RING_GE | RING_LT | RING_LE | GET_DISTANCE_TCP | GET_DISTANCE_DNS | GET_DISTANCE_PING
  | GET_DISTANCE_ICMP | ARRAY_INTERSECT | ARRAY_MAX_OFFSET | ARRAY_MIN_OFFSET | ARRAY_AVG
  | ARRAY_MAX | ARRAY_MIN | ARRAY_UNION | Other_native int

text \<open>A member of a union: never written, a null pointer, or a value.\<close>

datatype 'a member = Unset | Null | Val 'a

record var_val =
  v_type :: ASTType
  v_name :: str
  v_array_type :: "ASTType member"
  v_adt_name :: "str member"
  v_array_size :: "nat member"

record func_val =
  f_type :: ASTType
  f_type_name :: "str member"
  f_name :: "str member"
  f_formal_param :: nat
  f_actual_param :: "nat member"
  f_node :: nat
  f_array_type :: ASTType

datatype ASTNode =
    EmptyN | IntN u32 | DoubleN u64 | StringN str
  | NewVarN var_val
  | NewVarAssignN var_val nat
  | RefVarN str
  | RefVarAdtN nat str
  | RefVarArrayN nat nat
  | AstN nat nat
  | SepN "nat list"
  | FuncDeclareN func_val
  | FuncCallN func_val
  | FuncRefN str nat
  | PrintN nat | PrintlnN nat
  | UnaryN OpCode nat
  | BinN OpCode nat nat
  | AssignAdtN nat nat
  | IfN nat nat nat
  | LoopN nat nat
  | ForLoopN nat nat nat nat
  | BreakN | ContinueN
  | ContextN nat
  | ReturnN nat
  | VoidN
  | DefAdtN str nat
  | AdtN str nat
  | VarAdtN str "(str, nat) smap"
  | ArrayN ASTType "str member" "nat list" "nat member"
  | RpcN nat str nat
  | NativeFuncN NativeFunc "nat member" "nat member" "nat member"

fun node_type :: "ASTNode \<Rightarrow> ASTType" where
  "node_type EmptyN = EMPTY_TYPE"
| "node_type (IntN _) = INT_TYPE"
| "node_type (DoubleN _) = DOUBLE_TYPE"
| "node_type (StringN _) = STRING_TYPE"
| "node_type (NewVarN _) = NEW_VAR_TYPE"
| "node_type (NewVarAssignN _ _) = NEW_VAR_ASSIGN_TYPE"
| "node_type (RefVarN _) = REF_VAR_TYPE"
| "node_type (RefVarAdtN _ _) = REF_VAR_ADT_TYPE"
| "node_type (RefVarArrayN _ _) = REF_VAR_ARRAY_TYPE"
| "node_type (AstN _ _) = AST_TYPE"
| "node_type (SepN _) = SEP_TYPE"
| "node_type (FuncDeclareN _) = FUNC_DECLARE_TYPE"
| "node_type (FuncCallN _) = FUNC_CALL_TYPE"
| "node_type (FuncRefN _ _) = FUNC_REF_TYPE"
| "node_type (PrintN _) = PRINT_TYPE"
| "node_type (PrintlnN _) = PRINTLN_TYPE"
| "node_type (UnaryN _ _) = UNARY_TYPE"
| "node_type (BinN _ _ _) = BIN_TYPE"
| "node_type (AssignAdtN _ _) = ASSIGN_ADT_TYPE"
| "node_type (IfN _ _ _) = IF_TYPE"
| "node_type (LoopN _ _) = LOOP_TYPE"
| "node_type (ForLoopN _ _ _ _) = FOR_LOOP_TYPE"
| "node_type BreakN = BREAK_TYPE"
| "node_type ContinueN = CONTINUE_TYPE"
| "node_type (ContextN _) = CONTEXT_TYPE"
| "node_type (ReturnN _) = RETURN_TYPE"
| "node_type VoidN = VOID_TYPE"
| "node_type (DefAdtN _ _) = DEF_ADT_TYPE"
| "node_type (AdtN _ _) = ADT_TYPE"
| "node_type (VarAdtN _ _) = VAR_ADT_TYPE"
| "node_type (ArrayN _ _ _ _) = ARRAY_TYPE"
| "node_type (RpcN _ _ _) = RPC_TYPE"
| "node_type (NativeFuncN _ _ _ _) = NATIVE_FUNC_TYPE"

text \<open>The members of a node that has a given tag.\<close>

definition int_of :: "ASTNode \<Rightarrow> u32 option" where
  "int_of n = (case n of IntN i \<Rightarrow> Some i | _ \<Rightarrow> None)"

definition double_of :: "ASTNode \<Rightarrow> u64 option" where
  "double_of n = (case n of DoubleN d \<Rightarrow> Some d | _ \<Rightarrow> None)"

definition string_of :: "ASTNode \<Rightarrow> str option" where
  "string_of n = (case n of StringN s \<Rightarrow> Some s | _ \<Rightarrow> None)"

definition decl_of :: "ASTNode \<Rightarrow> var_val option" where
  "decl_of n = (case n of NewVarN d \<Rightarrow> Some d | _ \<Rightarrow> None)"

definition sep_of :: "ASTNode \<Rightarrow> nat list option" where
  "sep_of n = (case n of SepN xs \<Rightarrow> Some xs | _ \<Rightarrow> None)"

definition func_of :: "ASTNode \<Rightarrow> func_val option" where
  "func_of n = (case n of FuncCallN f \<Rightarrow> Some f | _ \<Rightarrow> None)"

definition adt_of :: "ASTNode \<Rightarrow> (str \<times> nat) option" where
  "adt_of n = (case n of AdtN s p \<Rightarrow> Some (s, p) | _ \<Rightarrow> None)"

definition struct_of :: "ASTNode \<Rightarrow> (str \<times> (str, nat) smap) option" where
  "struct_of n = (case n of VarAdtN s m \<Rightarrow> Some (s, m) | _ \<Rightarrow> None)"

definition array_of :: "ASTNode \<Rightarrow> (ASTType \<times> str member \<times> nat list \<times> nat member) option" where
  "array_of n = (case n of ArrayN ty nm vec tb \<Rightarrow> Some (ty, nm, vec, tb) | _ \<Rightarrow> None)"

lemma int_of_Some: "int_of n = Some i \<longleftrightarrow> n = IntN i"
  by (cases n) (auto simp: int_of_def)

lemma double_of_Some: "double_of n = Some d \<longleftrightarrow> n = DoubleN d"
  by (cases n) (auto simp: double_of_def)

lemma string_of_Some: "string_of n = Some s \<longleftrightarrow> n = StringN s"
  by (cases n) (auto simp: string_of_def)

lemma decl_of_Some: "decl_of n = Some d \<longleftrightarrow> n = NewVarN d"
  by (cases n) (auto simp: decl_of_def)

lemma sep_of_Some: "sep_of n = Some xs \<longleftrightarrow> n = SepN xs"
  by (cases n) (auto simp: sep_of_def)

lemma func_of_Some: "func_of n = Some f \<longleftrightarrow> n = FuncCallN f"
  by (cases n) (auto simp: func_of_def)

lemma adt_of_Some: "adt_of n = Some sp \<longleftrightarrow> n = AdtN (fst sp) (snd sp)"
  by (cases n) (auto simp: adt_of_def)

lemma struct_of_Some: "struct_of n = Some sm \<longleftrightarrow> n = VarAdtN (fst sm) (snd sm)"
  by (cases n) (auto simp: struct_of_def)

lemma array_of_Some: "array_of n = Some (ty, nm, vec, tb) \<longleftrightarrow> n = ArrayN ty nm vec tb"
  by (cases n) (auto simp: array_of_def)

lemmas members_Some = int_of_Some double_of_Some string_of_Some decl_of_Some sep_of_Some func_of_Some
  adt_of_Some struct_of_Some array_of_Some

lemma members_at [simp]:
  "int_of (IntN i) = Some i" "double_of (DoubleN d) = Some d" "string_of (StringN s) = Some s"
  "decl_of (NewVarN v) = Some v" "sep_of (SepN xs) = Some xs" "func_of (FuncCallN f) = Some f"
  "adt_of (AdtN s p) = Some (s, p)" "struct_of (VarAdtN s m) = Some (s, m)"
  "array_of (ArrayN ty nm vec tb) = Some (ty, nm, vec, tb)"
  by (simp_all add: members_Some)

lemma members_None [simp]:
  "int_of n = None \<longleftrightarrow> node_type n \<noteq> INT_TYPE" "double_of n = None \<longleftrightarrow> node_type n \<noteq> DOUBLE_TYPE"
  "string_of n = None \<longleftrightarrow> node_type n \<noteq> STRING_TYPE" "decl_of n = None \<longleftrightarrow> node_type n \<noteq> NEW_VAR_TYPE"
  "sep_of n = None \<longleftrightarrow> node_type n \<noteq> SEP_TYPE" "func_of n = None \<longleftrightarrow> node_type n \<noteq> FUNC_CALL_TYPE"
  "adt_of n = None \<longleftrightarrow> node_type n \<noteq> ADT_TYPE" "struct_of n = None \<longleftrightarrow> node_type n \<noteq> VAR_ADT_TYPE"
  "array_of n = None \<longleftrightarrow> node_type n \<noteq> ARRAY_TYPE"
  by (cases n; simp add: int_of_def double_of_def string_of_def decl_of_def sep_of_def func_of_def
    adt_of_def struct_of_def array_of_def)+

subsection \<open>The state of an interpreter\<close>

record VarTable =
  v_map :: "(str, nat) smap"
  v_stack_ast :: "nat list"
  prev_var_table :: "nat option"

datatype PSState = PS_DONE | PS_READY | PS_RUNNING | PS_BLOCKED

record ParserInputBuffer =
  pib_buf :: "u8 list option"
  pib_size :: u32
  pib_counter :: u32

text \<open>
  What the main thread of the node does while an interpreter is suspended: it grants it a time slice,
  it delivers the packet that answers a remote call, or it delivers the latencies from each of some
  nodes to others.
\<close>

datatype wake = Schedule | Reply "u8 list" | Distances "(NodeIdentRendv \<times> u32 list) list"

text \<open>
  \<open>heap\<close> and \<open>tables\<close> are what has been allocated and not freed; \<open>next_node\<close> and \<open>next_table\<close> give
  addresses that were never used. \<open>None\<close> in the heap's range stands for a node whose memory has been
  allocated but not written. \<open>switches\<close> counts how often the interpreter has been suspended.
\<close>

record ParserState =
  heap :: "nat \<Rightarrow> ASTNode option option"
  next_node :: nat
  tables :: "nat \<Rightarrow> VarTable option"
  next_table :: nat
  var_table :: "nat list"
  ASTAllocationCount :: int
  empty_node :: nat
  break_node :: nat
  continue_node :: nat
  start_node :: nat
  param_node :: nat
  query_return :: nat
  rpc_recv :: nat
  func_string :: str
  evalCount :: int
  ps_state :: PSState
  context_stack :: bool
  input_buffer :: ParserInputBuffer
  switches :: nat

text \<open>
  Faults: a freed node or table is used, memory is used that was never written or is null, a union is
  read through the member of another type, a signed counter overflows or a division traps, the
  interpreter is never resumed, the C stack overflows, or the loop bound of the model is reached.
\<close>

datatype fault = Dangling | Uninit | Bad_member | Overflow | Suspended | Deep | Long

type_synonym 'a lang = "ParserState \<Rightarrow> fault + 'a \<times> ParserState"

subsection \<open>Sequencing\<close>

definition ret :: "'a \<Rightarrow> 'a lang" where
  "ret x = (\<lambda>ps. Inr (x, ps))"

definition stop :: "fault \<Rightarrow> 'a lang" where
  "stop f = (\<lambda>ps. Inl f)"

definition andThen :: "'a lang \<Rightarrow> ('a \<Rightarrow> 'b lang) \<Rightarrow> 'b lang" where
  "andThen m k = (\<lambda>ps. case m ps of Inl f \<Rightarrow> Inl f | Inr (x, ps') \<Rightarrow> k x ps')"

definition gets :: "(ParserState \<Rightarrow> 'a) \<Rightarrow> 'a lang" where
  "gets f = (\<lambda>ps. Inr (f ps, ps))"

definition modify :: "(ParserState \<Rightarrow> ParserState) \<Rightarrow> unit lang" where
  "modify f = (\<lambda>ps. Inr ((), f ps))"

text \<open>A loop over a vector whose body answers 0, or -1 to leave the function with -1.\<close>

primrec forEach :: "('a \<Rightarrow> int lang) \<Rightarrow> 'a list \<Rightarrow> int lang" where
  "forEach f [] = ret 0"
| "forEach f (x # xs) = andThen (f x) (\<lambda>r. if r = - 1 then ret (- 1) else forEach f xs)"

text \<open>A loop that evaluates every entry into a new vector.\<close>

primrec mapEach :: "('a \<Rightarrow> 'b lang) \<Rightarrow> 'a list \<Rightarrow> 'b list lang" where
  "mapEach f [] = ret []"
| "mapEach f (x # xs) = andThen (f x) (\<lambda>y. andThen (mapEach f xs) (\<lambda>ys. ret (y # ys)))"

named_theorems lang_simps \<open>executing the operations of the interpreter\<close>

lemma ret_run [lang_simps]: "ret x ps = Inr (x, ps)"
  and stop_run [lang_simps]: "stop f ps = Inl f"
  and gets_run [lang_simps]: "gets g ps = Inr (g ps, ps)"
  and modify_run [lang_simps]: "modify h ps = Inr ((), h ps)"
  and andThen_run [lang_simps]:
    "andThen m k ps = (case m ps of Inl f \<Rightarrow> Inl f | Inr (x, ps') \<Rightarrow> k x ps')"
  by (simp_all add: ret_def stop_def gets_def modify_def andThen_def)

lemma andThen_Inr:
  "andThen m k ps = Inr r \<longleftrightarrow> (\<exists>x ps'. m ps = Inr (x, ps') \<and> k x ps' = Inr r)"
  by (auto simp: andThen_def split: sum.splits prod.splits)

lemma andThen_ret [simp]: "andThen (ret x) k = k x"
  by (simp add: andThen_def ret_def)

lemma andThen_assoc: "andThen (andThen m k) l = andThen m (\<lambda>x. andThen (k x) l)"
  by (rule ext) (simp add: andThen_def split: sum.split prod.split)

subsection \<open>Memory\<close>

definition readN :: "nat \<Rightarrow> ASTNode lang" where
  "readN a = (\<lambda>ps. case heap ps a of None \<Rightarrow> Inl Dangling | Some None \<Rightarrow> Inl Uninit
     | Some (Some n) \<Rightarrow> Inr (n, ps))"

definition writeN :: "nat \<Rightarrow> ASTNode \<Rightarrow> unit lang" where
  "writeN a n = (\<lambda>ps. case heap ps a of None \<Rightarrow> Inl Dangling
     | Some _ \<Rightarrow> Inr ((), ps\<lparr>heap := (heap ps)(a := Some (Some n))\<rparr>))"

definition tableAt :: "nat \<Rightarrow> VarTable lang" where
  "tableAt t = (\<lambda>ps. case tables ps t of None \<Rightarrow> Inl Dangling | Some vt \<Rightarrow> Inr (vt, ps))"

definition setTable :: "nat \<Rightarrow> VarTable \<Rightarrow> unit lang" where
  "setTable t vt = modify (\<lambda>ps. ps\<lparr>tables := (tables ps)(t := Some vt)\<rparr>)"

definition value_of :: "'a member \<Rightarrow> 'a lang" where
  "value_of m = (case m of Val x \<Rightarrow> ret x | _ \<Rightarrow> stop Uninit)"

definition need :: "'a option \<Rightarrow> 'a lang" where
  "need m = (case m of Some x \<Rightarrow> ret x | None \<Rightarrow> stop Bad_member)"

text \<open>Reading one member of a node, which must have the tag the member belongs to.\<close>

definition readAs :: "(ASTNode \<Rightarrow> 'a option) \<Rightarrow> nat \<Rightarrow> 'a lang" where
  "readAs f a = andThen (readN a) (\<lambda>n. need (f n))"

definition MAX_AST_PER_STACK :: int where
  "MAX_AST_PER_STACK = 100000"

text \<open>\<^verbatim>\<open>new_ast\<close> counts the allocation also when it refuses it.\<close>

definition new_ast :: "nat option lang" where
  "new_ast = (\<lambda>ps.
     if ASTAllocationCount ps = 2147483647 then Inl Overflow
     else let ps1 = ps\<lparr>ASTAllocationCount := ASTAllocationCount ps + 1\<rparr> in
       if ASTAllocationCount ps1 > MAX_AST_PER_STACK then Inr (None, ps1)
       else Inr (Some (next_node ps1),
         ps1\<lparr>heap := (heap ps1)(next_node ps1 := Some None), next_node := Suc (next_node ps1)\<rparr>))"

definition delete_ast :: "nat \<Rightarrow> unit lang" where
  "delete_ast a = (\<lambda>ps. case heap ps a of None \<Rightarrow> Inl Dangling
     | Some _ \<Rightarrow> Inr ((), ps\<lparr>ASTAllocationCount := ASTAllocationCount ps - 1,
         heap := (heap ps)(a := None)\<rparr>))"

subsection \<open>Variable tables\<close>

definition new_stack_ast :: "nat \<Rightarrow> nat option lang" where
  "new_stack_ast t = andThen new_ast (\<lambda>r. case r of None \<Rightarrow> ret None
     | Some a \<Rightarrow> andThen (tableAt t) (\<lambda>vt.
         andThen (setTable t (vt\<lparr>v_stack_ast := v_stack_ast vt @ [a]\<rparr>)) (\<lambda>_. ret (Some a))))"

primrec delete_asts :: "nat list \<Rightarrow> unit lang" where
  "delete_asts [] = ret ()"
| "delete_asts (a # as) = andThen (delete_ast a) (\<lambda>_. delete_asts as)"

definition remove_AST_context :: "nat \<Rightarrow> unit lang" where
  "remove_AST_context t = andThen (tableAt t) (\<lambda>vt.
     andThen (delete_asts (v_stack_ast vt)) (\<lambda>_. setTable t (vt\<lparr>v_stack_ast := []\<rparr>)))"

definition remove_var_map_context :: "nat \<Rightarrow> unit lang" where
  "remove_var_map_context t = andThen (tableAt t) (\<lambda>vt. setTable t (vt\<lparr>v_map := []\<rparr>))"

definition delete_VarTable :: "nat \<Rightarrow> unit lang" where
  "delete_VarTable t = andThen (remove_var_map_context t) (\<lambda>_.
     andThen (remove_AST_context t) (\<lambda>_. modify (\<lambda>ps. ps\<lparr>tables := (tables ps)(t := None)\<rparr>)))"

definition local_lookup :: "nat \<Rightarrow> str \<Rightarrow> nat option lang" where
  "local_lookup t s = andThen (tableAt t) (\<lambda>vt. ret (sm_find (v_map vt) s))"

definition local_exists :: "nat \<Rightarrow> str \<Rightarrow> bool lang" where
  "local_exists t s = andThen (local_lookup t s) (\<lambda>r. ret (r \<noteq> None))"

text \<open>The chain of previous tables: each is older than the one before it.\<close>

primrec lookup_from :: "nat \<Rightarrow> nat \<Rightarrow> str \<Rightarrow> nat option lang" where
  "lookup_from 0 t s = stop Deep"
| "lookup_from (Suc k) t s = andThen (local_lookup t s) (\<lambda>r. case r of Some a \<Rightarrow> ret (Some a)
     | None \<Rightarrow> andThen (tableAt t) (\<lambda>vt. case prev_var_table vt of None \<Rightarrow> ret None
         | Some p \<Rightarrow> lookup_from k p s))"

definition lookup :: "nat \<Rightarrow> str \<Rightarrow> nat option lang" where
  "lookup t s = andThen (gets next_table) (\<lambda>k. lookup_from k t s)"

definition insert_var :: "nat \<Rightarrow> str \<Rightarrow> nat \<Rightarrow> int lang" where
  "insert_var t s a = andThen (local_exists t s) (\<lambda>ex. if ex then ret (- 1)
     else andThen (tableAt t) (\<lambda>vt.
       andThen (setTable t (vt\<lparr>v_map := sm_upd s a (v_map vt)\<rparr>)) (\<lambda>_. ret 0)))"

definition local_remove :: "nat \<Rightarrow> str \<Rightarrow> int lang" where
  "local_remove t s = andThen (tableAt t) (\<lambda>vt.
     andThen (setTable t (vt\<lparr>v_map := sm_erase s (v_map vt)\<rparr>)) (\<lambda>_. ret 0))"

subsection \<open>ParserState\<close>

definition get_var_table :: "nat lang" where
  "get_var_table = (\<lambda>ps. if var_table ps = [] then Inl Uninit else Inr (last (var_table ps), ps))"

definition empty_token :: "nat lang" where "empty_token = gets empty_node"
definition break_token :: "nat lang" where "break_token = gets break_node"
definition continue_token :: "nat lang" where "continue_token = gets continue_node"

definition return_string :: str where
  "return_string = str_of ''$RETURN_VALUE$''"

definition push_table :: "nat option \<Rightarrow> unit lang" where
  "push_table prev = modify (\<lambda>ps. ps\<lparr>
     tables := (tables ps)(next_table ps :=
       Some \<lparr>v_map = [], v_stack_ast = [], prev_var_table = prev\<rparr>),
     var_table := var_table ps @ [next_table ps], next_table := Suc (next_table ps)\<rparr>)"

definition new_var_table :: "(int \<times> nat member) lang" where
  "new_var_table = andThen (gets var_table) (\<lambda>vts.
     if vts = [] then andThen (push_table None) (\<lambda>_. ret (0, Null))
     else andThen (push_table (Some (hd vts))) (\<lambda>_. ret (0, Val (last vts))))"

definition new_context :: "int lang" where
  "new_context = andThen (gets var_table) (\<lambda>vts.
     if vts = [] then ret (- 1)
     else andThen (push_table (Some (last vts))) (\<lambda>_. ret 0))"

definition remove_var_table :: "int lang" where
  "remove_var_table = andThen (gets var_table) (\<lambda>vts.
     if vts = [] then ret (- 1)
     else andThen (modify (\<lambda>ps. ps\<lparr>var_table := butlast vts\<rparr>)) (\<lambda>_.
       andThen (delete_VarTable (last vts)) (\<lambda>_. ret 0)))"

definition remove_context :: "int lang" where
  "remove_context = remove_var_table"

definition set_parser_state :: "PSState \<Rightarrow> unit lang" where
  "set_parser_state s = modify (\<lambda>ps. ps\<lparr>ps_state := s\<rparr>)"

definition set_param :: "nat \<Rightarrow> unit lang" where
  "set_param a = modify (\<lambda>ps. ps\<lparr>param_node := a\<rparr>)"

definition set_func_string :: "str \<Rightarrow> unit lang" where
  "set_func_string s = modify (\<lambda>ps. ps\<lparr>func_string := s\<rparr>)"

definition set_start :: "nat \<Rightarrow> unit lang" where
  "set_start a = modify (\<lambda>ps. ps\<lparr>start_node := a\<rparr>)"

definition setQueryReturn :: "nat \<Rightarrow> unit lang" where
  "setQueryReturn a = modify (\<lambda>ps. ps\<lparr>query_return := a\<rparr>)"

definition setRPCRecv :: "nat \<Rightarrow> unit lang" where
  "setRPCRecv a = modify (\<lambda>ps. ps\<lparr>rpc_recv := a\<rparr>)"

definition allocateEvalCount :: "int \<Rightarrow> unit lang" where
  "allocateEvalCount n = modify (\<lambda>ps. ps\<lparr>evalCount := n\<rparr>)"

definition decrementEvalCount :: "unit lang" where
  "decrementEvalCount = modify (\<lambda>ps. ps\<lparr>evalCount := evalCount ps - 1\<rparr>)"

definition save_context :: "int lang" where
  "save_context = (\<lambda>ps. if context_stack ps then Inr (- 1, ps)
     else Inr (0, ps\<lparr>context_stack := True\<rparr>))"

subsection \<open>The program text\<close>

definition newInputBuffer :: ParserInputBuffer where
  "newInputBuffer = \<lparr>pib_buf = None, pib_size = 0, pib_counter = 0\<rparr>"

definition create_buffer :: "u32 \<Rightarrow> ParserInputBuffer \<Rightarrow> int \<times> ParserInputBuffer" where
  "create_buffer n b = (case pib_buf b of Some _ \<Rightarrow> (- 1, b)
     | None \<Rightarrow> (0, b\<lparr>pib_buf := Some (replicate (unat n) 0), pib_size := n\<rparr>))"

definition delete_buffer :: "ParserInputBuffer \<Rightarrow> int \<times> ParserInputBuffer" where
  "delete_buffer b = (case pib_buf b of None \<Rightarrow> (- 1, b)
     | Some _ \<Rightarrow> (0, b\<lparr>pib_buf := None, pib_size := 0, pib_counter := 0\<rparr>))"

text \<open>The lexer asks for at most \<open>n\<close> characters and gets those from the counter on.\<close>

definition get_buf :: "u32 \<Rightarrow> ParserInputBuffer \<Rightarrow> u8 list \<times> ParserInputBuffer" where
  "get_buf n b = (let rest = drop (unat (pib_counter b)) (case pib_buf b of None \<Rightarrow> [] | Some cs \<Rightarrow> cs)
     in if n > pib_size b - pib_counter b
        then (take (unat (pib_size b - pib_counter b)) rest, b\<lparr>pib_counter := pib_size b\<rparr>)
        else (take (unat n) rest, b\<lparr>pib_counter := pib_counter b + n\<rparr>))"

end
