(* ===== verification/Lang_Numbers.thy ===== *)
theory Lang_Numbers
  imports Lang_State Complex_Main "HOL-Library.Signed_Division"
begin

text \<open>
  The numbers of the query language (MeridianDSL.cpp, lines 42-93). An \<^verbatim>\<open>int\<close> is a 32-bit word read
  in two's complement, on which sums, differences, products and shifts behave as the x86
  instructions do; division traps where the instruction traps. A \<^verbatim>\<open>double\<close> is its 64-bit IEEE
  pattern. Comparisons and conversions are computed from the pattern; the rounding operations and
  the functions of the mathematical library are the parameter \<open>dsl_env\<close>, which also bounds the C
  stack and the number of iterations of a loop, and holds the operations that leave the interpreter:
  suspending it, remote calls, and the native functions of Query.cpp.
\<close>

subsection \<open>Doubles\<close>

definition dbl_neg :: "u64 \<Rightarrow> bool" where
  "dbl_neg d \<longleftrightarrow> bit d 63"

definition dbl_mag :: "u64 \<Rightarrow> nat" where
  "dbl_mag d = unat (take_bit 63 d)"

definition dbl_nan :: "u64 \<Rightarrow> bool" where
  "dbl_nan d \<longleftrightarrow> dbl_mag d > 0x7FF0000000000000"

definition dbl_finite :: "u64 \<Rightarrow> bool" where
  "dbl_finite d \<longleftrightarrow> dbl_mag d < 0x7FF0000000000000"

definition dbl_inf :: u64 where "dbl_inf = 0x7FF0000000000000"
definition dbl_minus_inf :: u64 where "dbl_minus_inf = 0xFFF0000000000000"

text \<open>Patterns without their sign bit are ordered like the magnitudes they stand for.\<close>

definition dbl_key :: "u64 \<Rightarrow> int" where
  "dbl_key d = (if dbl_neg d then - int (dbl_mag d) else int (dbl_mag d))"

definition dbl_eq :: "u64 \<Rightarrow> u64 \<Rightarrow> bool" where
  "dbl_eq a b \<longleftrightarrow> \<not> dbl_nan a \<and> \<not> dbl_nan b \<and> dbl_key a = dbl_key b"

definition dbl_lt :: "u64 \<Rightarrow> u64 \<Rightarrow> bool" where
  "dbl_lt a b \<longleftrightarrow> \<not> dbl_nan a \<and> \<not> dbl_nan b \<and> dbl_key a < dbl_key b"

definition dbl_le :: "u64 \<Rightarrow> u64 \<Rightarrow> bool" where
  "dbl_le a b \<longleftrightarrow> \<not> dbl_nan a \<and> \<not> dbl_nan b \<and> dbl_key a \<le> dbl_key b"

definition dbl_true :: "u64 \<Rightarrow> bool" where
  "dbl_true d \<longleftrightarrow> dbl_mag d \<noteq> 0"

text \<open>The value of a finite pattern, exactly.\<close>

definition dbl_value :: "u64 \<Rightarrow> rat" where
  "dbl_value d =
     (let e = dbl_mag d div 4503599627370496; f = dbl_mag d mod 4503599627370496;
          m = (if e = 0 then of_nat f * 2 / 2 ^ 1075
               else of_nat (4503599627370496 + f) * 2 ^ e / 2 ^ 1075)
      in if dbl_neg d then - m else m)"

text \<open>\<^verbatim>\<open>(int) ceil(d)\<close> and \<^verbatim>\<open>(int) floor(d)\<close>; what does not fit becomes the smallest \<^verbatim>\<open>int\<close>.\<close>

definition fit_int :: "int \<Rightarrow> u32" where
  "fit_int k = (if - 2147483648 \<le> k \<and> k < 2147483648 then word_of_int k else 0x80000000)"

definition dbl_ceil_int :: "u64 \<Rightarrow> u32" where
  "dbl_ceil_int d = (if dbl_finite d then fit_int \<lceil>dbl_value d\<rceil> else 0x80000000)"

definition dbl_floor_int :: "u64 \<Rightarrow> u32" where
  "dbl_floor_int d = (if dbl_finite d then fit_int \<lfloor>dbl_value d\<rfloor> else 0x80000000)"

text \<open>\<^verbatim>\<open>lrint\<close>: to nearest, ties to even; its \<^verbatim>\<open>long\<close> result is then cut to an \<^verbatim>\<open>int\<close>.\<close>

definition nearest_even :: "rat \<Rightarrow> int" where
  "nearest_even q = (let k = \<lfloor>q\<rfloor>; r = q - of_int k in
     if r < 1 / 2 then k else if r > 1 / 2 then k + 1 else if even k then k else k + 1)"

definition dbl_lrint :: "u64 \<Rightarrow> u32" where
  "dbl_lrint d = (if dbl_finite d \<and> - 9223372036854775808 \<le> nearest_even (dbl_value d)
       \<and> nearest_even (dbl_value d) < 9223372036854775808
     then word_of_int (nearest_even (dbl_value d)) else 0)"

text \<open>\<^verbatim>\<open>(double) i\<close>, exact for the integers the code converts.\<close>

fun log2_nat :: "nat \<Rightarrow> nat" where
  "log2_nat n = (if n < 2 then 0 else Suc (log2_nat (n div 2)))"

declare log2_nat.simps [simp del]

definition dbl_of_int :: "int \<Rightarrow> u64" where
  "dbl_of_int i = (if i = 0 then 0
     else let n = nat \<bar>i\<bar>; k = log2_nat n;
              m = (1023 + k) * 4503599627370496 + (n * 2 ^ (52 - k) - 4503599627370496)
          in of_nat m + (if i < 0 then 0x8000000000000000 else 0))"

record dsl_env =
  e_add :: "u64 \<Rightarrow> u64 \<Rightarrow> u64"
  e_sub :: "u64 \<Rightarrow> u64 \<Rightarrow> u64"
  e_mul :: "u64 \<Rightarrow> u64 \<Rightarrow> u64"
  e_div :: "u64 \<Rightarrow> u64 \<Rightarrow> u64"
  e_fmod :: "u64 \<Rightarrow> u64 \<Rightarrow> u64"
  e_pow :: "u64 \<Rightarrow> u64 \<Rightarrow> u64"
  e_libm :: "NativeFunc \<Rightarrow> u64 \<Rightarrow> u64"
  e_stack :: nat
  e_loops :: nat
  e_yield :: "unit lang"
  e_rpc :: "NodeIdentRendv \<Rightarrow> str \<Rightarrow> nat \<Rightarrow> nat lang"
  e_native :: "(nat \<Rightarrow> nat lang) \<Rightarrow> ASTNode \<Rightarrow> nat lang"

subsection \<open>The operators\<close>

text \<open>The template \<^verbatim>\<open>opr\<close> at \<^verbatim>\<open>int\<close> (\<open>None\<close>: the division traps) and at \<^verbatim>\<open>double\<close>.\<close>

definition opr_int :: "OpCode \<Rightarrow> u32 \<Rightarrow> u32 \<Rightarrow> u32 option" where
  "opr_int op a b = (case op of
       Op_times \<Rightarrow> Some (a * b)
     | Op_plus \<Rightarrow> Some (a + b)
     | Op_minus \<Rightarrow> Some (a - b)
     | Op_div \<Rightarrow> if b = 0 \<or> (a = 0x80000000 \<and> b = - 1) then None
                 else Some (word_of_int (sint a sdiv sint b))
     | _ \<Rightarrow> Some 0)"

definition opr_double :: "dsl_env \<Rightarrow> OpCode \<Rightarrow> u64 \<Rightarrow> u64 \<Rightarrow> u64" where
  "opr_double E op a b = (case op of
       Op_times \<Rightarrow> e_mul E a b
     | Op_plus \<Rightarrow> e_add E a b
     | Op_minus \<Rightarrow> e_sub E a b
     | Op_div \<Rightarrow> e_div E a b
     | _ \<Rightarrow> 0)"

definition int_mod :: "u32 \<Rightarrow> u32 \<Rightarrow> u32 option" where
  "int_mod a b = (if b = 0 \<or> (a = 0x80000000 \<and> b = - 1) then None
     else Some (word_of_int (sint a smod sint b)))"

definition opr_int_ret_int :: "OpCode \<Rightarrow> u32 \<Rightarrow> u32 \<Rightarrow> bool" where
  "opr_int_ret_int op a b = (case op of
       AND_OP \<Rightarrow> a \<noteq> 0 \<and> b \<noteq> 0
     | OR_OP \<Rightarrow> a \<noteq> 0 \<or> b \<noteq> 0
     | Op_lt \<Rightarrow> sint a < sint b
     | Op_gt \<Rightarrow> sint a > sint b
     | LE_OP \<Rightarrow> sint a \<le> sint b
     | GE_OP \<Rightarrow> sint a \<ge> sint b
     | EQ_OP \<Rightarrow> a = b
     | NE_OP \<Rightarrow> a \<noteq> b
     | _ \<Rightarrow> False)"

definition opr_int_ret_double :: "OpCode \<Rightarrow> u64 \<Rightarrow> u64 \<Rightarrow> bool" where
  "opr_int_ret_double op a b = (case op of
       AND_OP \<Rightarrow> dbl_true a \<and> dbl_true b
     | OR_OP \<Rightarrow> dbl_true a \<or> dbl_true b
     | Op_lt \<Rightarrow> dbl_lt a b
     | Op_gt \<Rightarrow> dbl_lt b a
     | LE_OP \<Rightarrow> dbl_le a b
     | GE_OP \<Rightarrow> dbl_le b a
     | EQ_OP \<Rightarrow> dbl_eq a b
     | NE_OP \<Rightarrow> \<not> dbl_eq a b
     | _ \<Rightarrow> False)"

definition opr_int_only :: "OpCode \<Rightarrow> u32 \<Rightarrow> u32 \<Rightarrow> u32" where
  "opr_int_only op a b = (case op of
       Op_bitor \<Rightarrow> or a b
     | Op_bitand \<Rightarrow> and a b
     | Op_bitxor \<Rightarrow> xor a b
     | LEFT_OP \<Rightarrow> push_bit (unat (take_bit 5 b)) a
     | RIGHT_OP \<Rightarrow> signed_drop_bit (unat (take_bit 5 b)) a
     | _ \<Rightarrow> 0)"

end
