(* ===== verification/Lang_Vars.thy ===== *)
theory Lang_Vars
  imports Lang_Numbers
begin

text \<open>
  MQLState.cpp, lines 160-433: creating and assigning variables, and the wrappers of MeridianDSL.cpp
  around them. A variable of a basic type is one node, a struct is a node with a map from its field
  names to nodes, an array is a node with a vector of nodes that belong to the table in which the
  array was created. The first argument of the recursive functions is the room on the C stack.
\<close>

subsection \<open>Creating\<close>

definition create_basic_type :: "nat \<Rightarrow> ASTType \<Rightarrow> nat option lang" where
  "create_basic_type t in_type = andThen (new_stack_ast t) (\<lambda>r. case r of None \<Rightarrow> ret None
     | Some a \<Rightarrow> (case in_type of
         INT_TYPE \<Rightarrow> andThen (writeN a (IntN 0)) (\<lambda>_. ret (Some a))
       | DOUBLE_TYPE \<Rightarrow> andThen (writeN a (DoubleN 0)) (\<lambda>_. ret (Some a))
       | STRING_TYPE \<Rightarrow> andThen (writeN a (StringN [])) (\<lambda>_. ret (Some a))
       | VOID_TYPE \<Rightarrow> andThen (writeN a VoidN) (\<lambda>_. ret None)
       | _ \<Rightarrow> ret None))"

text \<open>Looking up a struct definition: its name and its list of fields.\<close>

definition find_adt :: "nat \<Rightarrow> str \<Rightarrow> (str \<times> nat) option lang" where
  "find_adt t s = andThen (lookup t s) (\<lambda>r. case r of None \<Rightarrow> ret None
     | Some d \<Rightarrow> andThen (readN d) (\<lambda>n. ret (adt_of n)))"

definition field_decl :: "nat \<Rightarrow> var_val lang" where
  "field_decl = readAs decl_of"

text \<open>The literal size of an array field (\<open>None\<close>: not a literal).\<close>

definition field_size :: "var_val \<Rightarrow> int option lang" where
  "field_size d = (if v_type d = ARRAY_TYPE
     then andThen (value_of (v_array_size d)) (\<lambda>sz. andThen (readN sz) (\<lambda>n.
       ret (map_option sint (int_of n))))
     else ret (Some 0))"

definition set_field :: "nat \<Rightarrow> str \<Rightarrow> nat \<Rightarrow> unit lang" where
  "set_field a s b = andThen (readAs struct_of a) (\<lambda>(tn, m).
     writeN a (VarAdtN tn (sm_upd s b m)))"

definition push_back :: "nat \<Rightarrow> nat \<Rightarrow> unit lang" where
  "push_back a b = andThen (readAs array_of a) (\<lambda>(ty, nm, vec, tb).
     writeN a (ArrayN ty nm (vec @ [b]) tb))"

definition create_field ::
  "(ASTType \<Rightarrow> str member \<Rightarrow> ASTType member \<Rightarrow> int \<Rightarrow> nat option lang) \<Rightarrow> nat \<Rightarrow> nat \<Rightarrow> int lang" where
  "create_field rec a f = andThen (field_decl f) (\<lambda>d. andThen (field_size d) (\<lambda>sz. case sz of
       None \<Rightarrow> ret (- 1)
     | Some n \<Rightarrow> andThen (rec (v_type d) (v_adt_name d) (v_array_type d) n) (\<lambda>r. case r of
           None \<Rightarrow> ret (- 1)
         | Some b \<Rightarrow> andThen (set_field a (v_name d) b) (\<lambda>_. ret 0))))"

definition create_struct ::
  "(ASTType \<Rightarrow> str member \<Rightarrow> ASTType member \<Rightarrow> int \<Rightarrow> nat option lang) \<Rightarrow> nat \<Rightarrow> str member
     \<Rightarrow> nat option lang" where
  "create_struct rec t adt_name = (case adt_name of Null \<Rightarrow> ret None | Unset \<Rightarrow> stop Uninit
     | Val s \<Rightarrow> andThen (find_adt t s) (\<lambda>r. case r of None \<Rightarrow> ret None
       | Some (tn, p) \<Rightarrow> andThen (readN p) (\<lambda>n. case sep_of n of
           None \<Rightarrow> ret None
         | Some fs \<Rightarrow> andThen (new_stack_ast t) (\<lambda>r. case r of None \<Rightarrow> ret None
             | Some a \<Rightarrow> andThen (writeN a (VarAdtN tn [])) (\<lambda>_.
                 andThen (forEach (create_field rec a) fs) (\<lambda>r.
                   ret (if r = - 1 then None else Some a)))))))"

primrec create_entries :: "nat option lang \<Rightarrow> nat \<Rightarrow> nat \<Rightarrow> int lang" where
  "create_entries mk a 0 = ret 0"
| "create_entries mk a (Suc i) = andThen mk (\<lambda>r. case r of None \<Rightarrow> ret (- 1)
     | Some b \<Rightarrow> andThen (push_back a b) (\<lambda>_. create_entries mk a i))"

definition create_array ::
  "(ASTType \<Rightarrow> str member \<Rightarrow> ASTType member \<Rightarrow> int \<Rightarrow> nat option lang) \<Rightarrow> nat \<Rightarrow> str member
     \<Rightarrow> ASTType member \<Rightarrow> int \<Rightarrow> nat option lang" where
  "create_array rec t adt_name array_type array_size =
     (if array_size < 0 then ret None
      else andThen (value_of array_type) (\<lambda>ty.
        andThen (if ty = ADT_TYPE
           then andThen (value_of adt_name) (\<lambda>s. andThen (find_adt t s) (\<lambda>r.
             ret (map_option (\<lambda>(tn, p). Val tn) r)))
           else ret (Some Null)) (\<lambda>real_adt_name. case real_adt_name of
          None \<Rightarrow> ret None
        | Some nm \<Rightarrow> andThen (new_stack_ast t) (\<lambda>r. case r of None \<Rightarrow> ret None
          | Some a \<Rightarrow> andThen (writeN a (ArrayN ty nm [] (Val t))) (\<lambda>_.
              andThen (create_entries (rec ty adt_name (Val EMPTY_TYPE) 0) a (nat array_size)) (\<lambda>r.
                ret (if r = - 1 then None else Some a)))))))"

primrec ASTCreate :: "nat \<Rightarrow> nat \<Rightarrow> ASTType \<Rightarrow> str member \<Rightarrow> ASTType member \<Rightarrow> int
    \<Rightarrow> nat option lang" where
  "ASTCreate 0 t in_type adt_name array_type array_size = stop Deep"
| "ASTCreate (Suc k) t in_type adt_name array_type array_size =
     (if in_type = ADT_TYPE then create_struct (ASTCreate k t) t adt_name
      else if in_type = ARRAY_TYPE
      then create_array (ASTCreate k t) t adt_name array_type array_size
      else create_basic_type t in_type)"

subsection \<open>Assigning\<close>

definition updateBasicType :: "nat \<Rightarrow> nat \<Rightarrow> int lang" where
  "updateBasicType a b = andThen (readN a) (\<lambda>na. andThen (readN b) (\<lambda>nb.
     if node_type na \<noteq> node_type nb then ret (- 1)
     else if node_type nb \<in> {INT_TYPE, DOUBLE_TYPE, STRING_TYPE}
     then andThen (writeN a nb) (\<lambda>_. ret 0)
     else ret (- 1)))"

text \<open>
  The definition a struct value is assigned by. The type of the symbol found is not checked, so any
  other symbol of that name is read as if it were a definition.
\<close>

definition struct_fields :: "nat \<Rightarrow> str \<Rightarrow> nat list option lang" where
  "struct_fields t s = andThen (lookup t s) (\<lambda>r. case r of None \<Rightarrow> ret None
     | Some d \<Rightarrow> andThen (readAs adt_of d) (\<lambda>(tn, p).
         andThen (readN p) (\<lambda>np. ret (sep_of np))))"

definition get_field :: "nat \<Rightarrow> str \<Rightarrow> nat option lang" where
  "get_field a s = andThen (readAs struct_of a) (\<lambda>(tn, m). ret (sm_find m s))"

text \<open>\<open>struct = {e, ...}\<close>: the entries are assigned to the fields in the order of the definition.\<close>

definition assign_listed :: "(nat \<Rightarrow> nat \<Rightarrow> int lang) \<Rightarrow> nat \<Rightarrow> nat \<times> nat \<Rightarrow> int lang" where
  "assign_listed rec a = (\<lambda>(f, b). andThen (field_decl f) (\<lambda>d.
     andThen (get_field a (v_name d)) (\<lambda>r. case r of None \<Rightarrow> ret (- 1) | Some x \<Rightarrow> rec x b)))"

definition update_struct_list :: "(nat \<Rightarrow> nat \<Rightarrow> int lang) \<Rightarrow> nat \<Rightarrow> nat \<Rightarrow> nat \<Rightarrow> int lang" where
  "update_struct_list rec t a b = andThen (readAs struct_of a) (\<lambda>(tn, m).
     andThen (struct_fields t tn) (\<lambda>r. case r of None \<Rightarrow> ret (- 1)
       | Some fs \<Rightarrow> andThen (readAs sep_of b) (\<lambda>params.
           if length fs \<noteq> length params then ret (- 1)
           else forEach (assign_listed rec a) (zip fs params))))"

text \<open>An array is emptied and filled with copies; \<open>create\<close> makes an entry in the array's table.\<close>

definition clear_vector :: "nat \<Rightarrow> unit lang" where
  "clear_vector a = andThen (readAs array_of a) (\<lambda>(ty, nm, vec, tb). writeN a (ArrayN ty nm [] tb))"

definition new_entry :: "nat \<Rightarrow> nat \<Rightarrow> nat option lang" where
  "new_entry k a = andThen (readAs array_of a) (\<lambda>(ty, nm, vec, tb).
     andThen (value_of tb) (\<lambda>t. ASTCreate k t ty nm (Val EMPTY_TYPE) 0))"

definition append_copy :: "nat \<Rightarrow> (nat \<Rightarrow> nat \<Rightarrow> int lang) \<Rightarrow> nat \<Rightarrow> nat \<Rightarrow> int lang" where
  "append_copy k rec a b = andThen (new_entry k a) (\<lambda>r. case r of None \<Rightarrow> ret (- 1)
     | Some e \<Rightarrow> andThen (rec e b) (\<lambda>r. if r = - 1 then ret (- 1)
         else andThen (push_back a e) (\<lambda>_. ret 0)))"

text \<open>
  The source vector is read after the target was emptied, which may be the same one; the loop itself
  only writes to the target and to entries made by it.
\<close>

definition vector_of :: "nat \<Rightarrow> nat list lang" where
  "vector_of a = andThen (readN a) (\<lambda>n. case array_of n of Some (ty, nm, vec, tb) \<Rightarrow> ret vec
     | None \<Rightarrow> need (sep_of n))"

definition refill :: "nat \<Rightarrow> (nat \<Rightarrow> nat \<Rightarrow> int lang) \<Rightarrow> nat \<Rightarrow> nat \<Rightarrow> int lang" where
  "refill k rec a b = andThen (clear_vector a) (\<lambda>_. andThen (vector_of b) (\<lambda>vec.
     forEach (append_copy k rec a) vec))"

definition update_array :: "nat \<Rightarrow> (nat \<Rightarrow> nat \<Rightarrow> int lang) \<Rightarrow> nat \<Rightarrow> nat \<Rightarrow> int lang" where
  "update_array k rec a b = andThen (readAs array_of a) (\<lambda>(ty, nm, vec, tb).
     andThen (readAs array_of b) (\<lambda>(ty', nm', vec', tb').
       if ty \<noteq> ty' then ret (- 1)
       else if ty = ADT_TYPE
       then andThen (value_of nm) (\<lambda>s. andThen (value_of nm') (\<lambda>s'.
         if s \<noteq> s' then ret (- 1) else refill k rec a b))
       else refill k rec a b))"

definition assign_field :: "(nat \<Rightarrow> nat \<Rightarrow> int lang) \<Rightarrow> nat \<Rightarrow> nat \<Rightarrow> nat \<Rightarrow> int lang" where
  "assign_field rec a b f = andThen (field_decl f) (\<lambda>d. andThen (get_field a (v_name d)) (\<lambda>x.
     andThen (get_field b (v_name d)) (\<lambda>y. case x of None \<Rightarrow> ret (- 1)
       | Some x' \<Rightarrow> (case y of None \<Rightarrow> ret (- 1) | Some y' \<Rightarrow> rec x' y'))))"

definition update_struct :: "(nat \<Rightarrow> nat \<Rightarrow> int lang) \<Rightarrow> nat \<Rightarrow> nat \<Rightarrow> nat \<Rightarrow> int lang" where
  "update_struct rec t a b = andThen (readAs struct_of a) (\<lambda>(tn, m).
     andThen (readAs struct_of b) (\<lambda>(tn', m').
       if tn \<noteq> tn' then ret (- 1)
       else andThen (struct_fields t tn) (\<lambda>r. case r of None \<Rightarrow> ret (- 1)
         | Some fs \<Rightarrow> forEach (assign_field rec a b) fs)))"

primrec updateADT :: "nat \<Rightarrow> nat \<Rightarrow> nat \<Rightarrow> nat \<Rightarrow> int lang" where
  "updateADT 0 t a b = stop Deep"
| "updateADT (Suc k) t a b = andThen (readN a) (\<lambda>na. andThen (readN b) (\<lambda>nb.
     if node_type na = VAR_ADT_TYPE \<and> node_type nb = SEP_TYPE
     then update_struct_list (updateADT k t) t a b
     else if node_type na = ARRAY_TYPE \<and> node_type nb = SEP_TYPE
     then refill k (updateADT k t) a b
     else if node_type nb \<noteq> node_type na then ret (- 1)
     else if node_type na \<in> {INT_TYPE, DOUBLE_TYPE, STRING_TYPE} then updateBasicType a b
     else if node_type na = ARRAY_TYPE then update_array k (updateADT k t) a b
     else if node_type na = VAR_ADT_TYPE then update_struct (updateADT k t) t a b
     else ret (- 1)))"

definition update_var :: "nat \<Rightarrow> nat \<Rightarrow> str \<Rightarrow> nat \<Rightarrow> int lang" where
  "update_var k t s b = andThen (lookup t s) (\<lambda>r. case r of None \<Rightarrow> ret (- 1)
     | Some a \<Rightarrow> updateADT k t a b)"

subsection \<open>The wrappers of the interpreter\<close>

definition ASTCreate_ps :: "dsl_env \<Rightarrow> ASTType \<Rightarrow> str member \<Rightarrow> ASTType member \<Rightarrow> int \<Rightarrow> nat lang" where
  "ASTCreate_ps E in_type adt_name array_type array_size = andThen get_var_table (\<lambda>t.
     andThen (ASTCreate (e_stack E) t in_type adt_name array_type array_size) (\<lambda>r. case r of
         None \<Rightarrow> empty_token | Some a \<Rightarrow> ret a))"

definition updateADT_ps :: "dsl_env \<Rightarrow> nat \<Rightarrow> nat \<Rightarrow> int lang" where
  "updateADT_ps E a b = andThen get_var_table (\<lambda>t. updateADT (e_stack E) t a b)"

definition is_empty :: "nat \<Rightarrow> bool lang" where
  "is_empty a = andThen (readN a) (\<lambda>n. ret (node_type n = EMPTY_TYPE))"

definition create_and_copy :: "dsl_env \<Rightarrow> ASTType \<Rightarrow> str member \<Rightarrow> nat \<Rightarrow> nat lang" where
  "create_and_copy E in_type adt_name a =
     andThen (ASTCreate_ps E in_type adt_name (Val VOID_TYPE) 0) (\<lambda>c.
       andThen (is_empty c) (\<lambda>e. if e then empty_token
         else andThen (updateADT_ps E c a) (\<lambda>r. if r = - 1 then empty_token else ret c)))"

definition ADTCreateAndCopy :: "dsl_env \<Rightarrow> nat \<Rightarrow> nat lang" where
  "ADTCreateAndCopy E a = andThen (readN a) (\<lambda>n.
     if node_type n \<in> {INT_TYPE, DOUBLE_TYPE, STRING_TYPE}
     then create_and_copy E (node_type n) Null a
     else case struct_of n of Some (tn, m) \<Rightarrow> create_and_copy E ADT_TYPE (Val tn) a
       | None \<Rightarrow> empty_token)"

definition variable_create :: "dsl_env \<Rightarrow> ASTType \<Rightarrow> str member \<Rightarrow> ASTType member \<Rightarrow> int \<Rightarrow> str
    \<Rightarrow> bool \<Rightarrow> nat lang" where
  "variable_create E in_type adt_name array_type array_size s overwrite =
     andThen (ASTCreate_ps E in_type adt_name array_type array_size) (\<lambda>a.
       andThen (is_empty a) (\<lambda>e. if e then empty_token
         else andThen get_var_table (\<lambda>t.
           andThen (if overwrite then local_remove t s else ret 0) (\<lambda>_.
             andThen (insert_var t s a) (\<lambda>r. if r = - 1 then empty_token else ret a)))))"

definition variable_assign :: "dsl_env \<Rightarrow> str \<Rightarrow> nat \<Rightarrow> nat lang" where
  "variable_assign E s b = andThen get_var_table (\<lambda>t.
     andThen (update_var (e_stack E) t s b) (\<lambda>r. if r = - 1 then empty_token
       else andThen (lookup t s) (\<lambda>r. case r of None \<Rightarrow> empty_token | Some a \<Rightarrow> ret a)))"

definition assign_param :: "dsl_env \<Rightarrow> nat \<times> nat \<Rightarrow> int lang" where
  "assign_param E = (\<lambda>(f, b). andThen (readN f) (\<lambda>n. case decl_of n of
       None \<Rightarrow> ret (- 1)
     | Some d \<Rightarrow> andThen (variable_create E (v_type d) (v_adt_name d) (v_array_type d) 0
           (v_name d) False) (\<lambda>c. andThen (is_empty c) (\<lambda>e. if e then ret (- 1)
         else andThen (variable_assign E (v_name d) b) (\<lambda>c.
           andThen (is_empty c) (\<lambda>e. ret (if e then - 1 else 0)))))))"

definition param_list_assign :: "dsl_env \<Rightarrow> nat \<Rightarrow> nat list \<Rightarrow> int lang" where
  "param_list_assign E formal actual = andThen (readN formal) (\<lambda>n.
     if node_type n = EMPTY_TYPE then ret 0
     else andThen (need (sep_of n)) (\<lambda>fs.
       if length fs \<noteq> length actual then ret (- 1)
       else forEach (assign_param E) (zip fs actual)))"

end
