(* ===== verification/Lang_Make.thy ===== *)
theory Lang_Make
  imports Lang_Vars
begin

text \<open>
  MeridianDSL.cpp, lines 426-905: the functions with which the parser and the interpreter make
  nodes. Each allocates in the current table and answers the empty node when that is refused; the
  members a function does not write stay \<open>Unset\<close>.
\<close>

definition mk_node :: "ASTNode \<Rightarrow> nat lang" where
  "mk_node n = andThen get_var_table (\<lambda>t. andThen (new_stack_ast t) (\<lambda>r. case r of
       None \<Rightarrow> empty_token
     | Some a \<Rightarrow> andThen (writeN a n) (\<lambda>_. ret a)))"

definition mk_empty :: "nat lang" where "mk_empty = mk_node EmptyN"

definition mk_adt :: "str \<Rightarrow> nat \<Rightarrow> nat lang" where
  "mk_adt adt_name param_list = mk_node (DefAdtN adt_name param_list)"

definition mk_continue :: "nat lang" where "mk_continue = mk_node ContinueN"
definition mk_break :: "nat lang" where "mk_break = mk_node BreakN"

definition mk_node_list :: "nat \<Rightarrow> nat \<Rightarrow> nat lang" where
  "mk_node_list a b = mk_node (AstN a b)"

definition mk_sep_list :: "nat \<Rightarrow> nat lang" where
  "mk_sep_list a = mk_node (SepN [a])"

definition mk_sep_list_vector :: "nat list \<Rightarrow> nat lang" where
  "mk_sep_list_vector as = mk_node (SepN as)"

definition mk_return :: "nat \<Rightarrow> nat lang" where "mk_return a = mk_node (ReturnN a)"
definition mk_context :: "nat \<Rightarrow> nat lang" where "mk_context a = mk_node (ContextN a)"

definition plain_var :: "ASTType \<Rightarrow> str \<Rightarrow> var_val" where
  "plain_var ty s = \<lparr>v_type = ty, v_name = s, v_array_type = Unset, v_adt_name = Unset,
     v_array_size = Unset\<rparr>"

definition mk_new_var :: "ASTType \<Rightarrow> str \<Rightarrow> nat lang" where
  "mk_new_var in_type a = mk_node (NewVarN (plain_var in_type a))"

definition array_var :: "ASTType \<Rightarrow> str \<Rightarrow> nat \<Rightarrow> var_val" where
  "array_var ty s n = (plain_var ARRAY_TYPE s)\<lparr>v_array_type := Val ty, v_array_size := Val n\<rparr>"

definition mk_new_var_array :: "ASTType \<Rightarrow> str \<Rightarrow> nat \<Rightarrow> nat lang" where
  "mk_new_var_array in_type a n = mk_node (NewVarN (array_var in_type a n))"

definition mk_new_adt_var_array :: "str \<Rightarrow> str \<Rightarrow> nat \<Rightarrow> nat lang" where
  "mk_new_adt_var_array adt_name a n =
     mk_node (NewVarN ((array_var ADT_TYPE a n)\<lparr>v_adt_name := Val adt_name\<rparr>))"

definition mk_new_adt_var :: "str \<Rightarrow> str \<Rightarrow> nat lang" where
  "mk_new_adt_var adt_name a =
     mk_node (NewVarN ((plain_var ADT_TYPE a)\<lparr>v_adt_name := Val adt_name\<rparr>))"

definition mk_new_adt_var_assign :: "str \<Rightarrow> str \<Rightarrow> nat \<Rightarrow> nat lang" where
  "mk_new_adt_var_assign adt_name a b =
     mk_node (NewVarAssignN ((plain_var ADT_TYPE a)\<lparr>v_adt_name := Val adt_name\<rparr>) b)"

definition mk_new_var_assign :: "ASTType \<Rightarrow> str \<Rightarrow> nat \<Rightarrow> nat lang" where
  "mk_new_var_assign in_type a b = mk_node (NewVarAssignN (plain_var in_type a) b)"

definition mk_new_var_array_assign :: "ASTType \<Rightarrow> str \<Rightarrow> nat \<Rightarrow> nat \<Rightarrow> nat lang" where
  "mk_new_var_array_assign in_type a b n = mk_node (NewVarAssignN (array_var in_type a n) b)"

definition mk_new_adt_var_array_assign :: "str \<Rightarrow> str \<Rightarrow> nat \<Rightarrow> nat \<Rightarrow> nat lang" where
  "mk_new_adt_var_array_assign adt_name a b n =
     mk_node (NewVarAssignN ((array_var ADT_TYPE a n)\<lparr>v_adt_name := Val adt_name\<rparr>) b)"

definition mk_ref_var :: "str \<Rightarrow> nat lang" where "mk_ref_var a = mk_node (RefVarN a)"

definition mk_ref_adt_var :: "nat \<Rightarrow> str \<Rightarrow> nat lang" where
  "mk_ref_adt_var a b = mk_node (RefVarAdtN a b)"

definition mk_ref_array_var :: "nat \<Rightarrow> nat \<Rightarrow> nat lang" where
  "mk_ref_array_var a b = mk_node (RefVarArrayN a b)"

definition mk_int :: "u32 \<Rightarrow> nat lang" where "mk_int a = mk_node (IntN a)"
definition mk_double :: "u64 \<Rightarrow> nat lang" where "mk_double a = mk_node (DoubleN a)"

definition mk_native_func_0 :: "NativeFunc \<Rightarrow> nat lang" where
  "mk_native_func_0 f = mk_node (NativeFuncN f Unset Unset Unset)"

definition mk_native_func_1 :: "NativeFunc \<Rightarrow> nat \<Rightarrow> nat lang" where
  "mk_native_func_1 f a = mk_node (NativeFuncN f (Val a) Unset Unset)"

definition mk_native_func_2 :: "NativeFunc \<Rightarrow> nat \<Rightarrow> nat \<Rightarrow> nat lang" where
  "mk_native_func_2 f a b = mk_node (NativeFuncN f (Val a) (Val b) Unset)"

definition mk_native_func_3 :: "NativeFunc \<Rightarrow> nat \<Rightarrow> nat \<Rightarrow> nat \<Rightarrow> nat lang" where
  "mk_native_func_3 f a b c = mk_node (NativeFuncN f (Val a) (Val b) (Val c))"

definition mk_string :: "str \<Rightarrow> nat lang" where "mk_string a = mk_node (StringN a)"
definition mk_print :: "nat \<Rightarrow> nat lang" where "mk_print a = mk_node (PrintN a)"
definition mk_println :: "nat \<Rightarrow> nat lang" where "mk_println a = mk_node (PrintlnN a)"

definition mk_function_declare :: "ASTType \<Rightarrow> str member \<Rightarrow> ASTType \<Rightarrow> str \<Rightarrow> nat \<Rightarrow> nat \<Rightarrow> nat lang" where
  "mk_function_declare in_type in_type_name in_array_type func_name param_list statements_node =
     mk_node (FuncDeclareN \<lparr>f_type = in_type, f_type_name = in_type_name, f_name = Val func_name,
       f_formal_param = param_list, f_actual_param = Unset, f_node = statements_node,
       f_array_type = in_array_type\<rparr>)"

definition mk_function_call :: "ASTType \<Rightarrow> str member \<Rightarrow> ASTType \<Rightarrow> nat \<Rightarrow> nat \<Rightarrow> nat \<Rightarrow> nat lang" where
  "mk_function_call in_type in_type_name in_array_type formal_param_list actual_param_list
       statements_node =
     mk_node (FuncCallN \<lparr>f_type = in_type, f_type_name = in_type_name, f_name = Unset,
       f_formal_param = formal_param_list, f_actual_param = Val actual_param_list,
       f_node = statements_node, f_array_type = in_array_type\<rparr>)"

definition mk_function_ref :: "str \<Rightarrow> nat \<Rightarrow> nat lang" where
  "mk_function_ref func_name a = mk_node (FuncRefN func_name a)"

definition mk_unary :: "OpCode \<Rightarrow> nat \<Rightarrow> nat lang" where "mk_unary op a = mk_node (UnaryN op a)"

definition mk_arith :: "OpCode \<Rightarrow> nat \<Rightarrow> nat \<Rightarrow> nat lang" where
  "mk_arith op a b = mk_node (BinN op a b)"

definition mk_adt_assign :: "nat \<Rightarrow> nat \<Rightarrow> nat lang" where
  "mk_adt_assign a b = mk_node (AssignAdtN a b)"

definition mk_selection :: "nat \<Rightarrow> nat \<Rightarrow> nat \<Rightarrow> nat lang" where
  "mk_selection e a b = mk_node (IfN e a b)"

definition mk_loop :: "nat \<Rightarrow> nat \<Rightarrow> nat lang" where "mk_loop e a = mk_node (LoopN e a)"

definition mk_for_loop :: "nat \<Rightarrow> nat \<Rightarrow> nat \<Rightarrow> nat \<Rightarrow> nat lang" where
  "mk_for_loop a b c d = mk_node (ForLoopN a b c d)"

definition mk_rpc :: "nat \<Rightarrow> str \<Rightarrow> nat \<Rightarrow> nat lang" where
  "mk_rpc dest func_name paramAST = mk_node (RpcN dest func_name paramAST)"

text \<open>Appending to a list the parser is building.\<close>

definition sep_push :: "nat \<Rightarrow> nat \<Rightarrow> unit lang" where
  "sep_push a b = andThen (readAs sep_of a) (\<lambda>vec. writeN a (SepN (vec @ [b])))"

text \<open>
  The constructor of \<^verbatim>\<open>ParserState\<close>. The empty node answers for itself while it is being made.
\<close>

definition blank_state :: ParserState where
  "blank_state = \<lparr>heap = Map.empty, next_node = 0, tables = Map.empty, next_table = 0,
     var_table = [], ASTAllocationCount = 0, empty_node = 0, break_node = 0, continue_node = 0,
     start_node = 0, param_node = 0, query_return = 0, rpc_recv = 0, func_string = [],
     evalCount = 0, ps_state = PS_READY, context_stack = False, input_buffer = newInputBuffer,
     switches = 0\<rparr>"

definition init_state :: "unit lang" where
  "init_state = andThen new_var_table (\<lambda>_. andThen mk_empty (\<lambda>e.
     andThen (modify (\<lambda>ps. ps\<lparr>empty_node := e, start_node := e, query_return := e,
       rpc_recv := e, param_node := e\<rparr>)) (\<lambda>_. andThen mk_break (\<lambda>b.
         andThen mk_continue (\<lambda>c. modify (\<lambda>ps. ps\<lparr>break_node := b, continue_node := c\<rparr>))))))"

definition newParserState :: ParserState where
  "newParserState = (case init_state blank_state of Inr (_, ps) \<Rightarrow> ps | Inl _ \<Rightarrow> blank_state)"

text \<open>The destructor frees every table.\<close>

primrec destroy_tables :: "nat \<Rightarrow> unit lang" where
  "destroy_tables 0 = ret ()"
| "destroy_tables (Suc k) = andThen remove_var_table (\<lambda>r. if r = - 1 then ret () else destroy_tables k)"

definition destroyParserState :: "unit lang" where
  "destroyParserState = andThen (gets var_table) (\<lambda>vts. andThen (destroy_tables (Suc (length vts))) (\<lambda>_.
     modify (\<lambda>ps. ps\<lparr>context_stack := False\<rparr>)))"

end
