(* ===== verification/Lang_Wire.thy ===== *)
theory Lang_Wire
  imports Lang_Make Tunnel
begin

text \<open>
  MeridianDSL.cpp, lines 907-1148, 95-135 and 1260-1306, and the two packets of Marshal.h, lines
  1474-1583: values on the wire. A value is its type tag followed by its contents; vectors, maps and
  strings carry their length. A program travels compressed, with the name of the function to call
  and its parameters. The compression library is the pair of parameters \<open>compress\<close>, \<open>uncompress\<close>.
\<close>

subsection \<open>Writing\<close>

text \<open>\<^verbatim>\<open>xdr_double\<close>: the pattern, most significant byte first.\<close>

definition dbl_bytes :: "u64 \<Rightarrow> u8 list" where
  "dbl_bytes d = net_uint (fst (to32 d)) @ net_uint (snd (to32 d))"

fun bytes_dbl :: "u8 list \<Rightarrow> u64" where
  "bytes_dbl bs = to64 (ntohl (bytes_u32 (take 4 bs))) (ntohl (bytes_u32 (drop 4 bs)))"

definition append_string :: "str \<Rightarrow> RealPacket \<Rightarrow> RealPacket" where
  "append_string s p = append_str s (c_int (int (length s)))
     (append_uint (htonl (of_nat (length s))) p)"

primrec marshal_nodes :: "(nat \<Rightarrow> RealPacket \<Rightarrow> (int \<times> RealPacket) lang) \<Rightarrow> nat list \<Rightarrow> RealPacket
    \<Rightarrow> (int \<times> RealPacket) lang" where
  "marshal_nodes f [] p = ret (0, p)"
| "marshal_nodes f (a # as) p = andThen (f a p) (\<lambda>(r, p).
     if r = - 1 then ret (- 1, p) else marshal_nodes f as p)"

definition marshal_entry :: "(nat \<Rightarrow> RealPacket \<Rightarrow> (int \<times> RealPacket) lang) \<Rightarrow> str \<times> nat
    \<Rightarrow> RealPacket \<Rightarrow> (int \<times> RealPacket) lang" where
  "marshal_entry f = (\<lambda>(s, a) p. f a (append_string s p))"

primrec marshal_fields :: "(nat \<Rightarrow> RealPacket \<Rightarrow> (int \<times> RealPacket) lang) \<Rightarrow> (str \<times> nat) list
    \<Rightarrow> RealPacket \<Rightarrow> (int \<times> RealPacket) lang" where
  "marshal_fields f [] p = ret (0, p)"
| "marshal_fields f (e # es) p = andThen (marshal_entry f e p) (\<lambda>(r, p).
     if r = - 1 then ret (- 1, p) else marshal_fields f es p)"

definition marshal_array :: "(nat \<Rightarrow> RealPacket \<Rightarrow> (int \<times> RealPacket) lang) \<Rightarrow> ASTType
    \<Rightarrow> str member \<Rightarrow> nat list \<Rightarrow> RealPacket \<Rightarrow> (int \<times> RealPacket) lang" where
  "marshal_array f ty nm vec p = (let p = append_int (sint (htonl (type_code ty))) p in
     andThen (if ty = ADT_TYPE then andThen (value_of nm) (\<lambda>s. ret (append_string s p))
       else ret (append_uint (htonl 0) p)) (\<lambda>p.
         marshal_nodes f vec (append_uint (htonl (of_nat (length vec))) p)))"

definition marshal_contents :: "(nat \<Rightarrow> RealPacket \<Rightarrow> (int \<times> RealPacket) lang) \<Rightarrow> ASTNode
    \<Rightarrow> RealPacket \<Rightarrow> (int \<times> RealPacket) lang" where
  "marshal_contents f n p = (case n of
       EmptyN \<Rightarrow> ret (0, p)
     | IntN i \<Rightarrow> ret (0, append_int (sint (htonl i)) p)
     | DoubleN d \<Rightarrow> ret (0, append_str (dbl_bytes d) 8 p)
     | StringN s \<Rightarrow> ret (0, append_string s p)
     | ArrayN ty nm vec tb \<Rightarrow> marshal_array f ty nm vec p
     | VarAdtN tn m \<Rightarrow> marshal_fields f m
         (append_uint (htonl (of_nat (length m))) (append_string tn p))
     | SepN vec \<Rightarrow> marshal_nodes f vec (append_uint (htonl (of_nat (length vec))) p)
     | _ \<Rightarrow> ret (- 1, p))"

primrec marshal_ast :: "nat \<Rightarrow> nat \<Rightarrow> RealPacket \<Rightarrow> (int \<times> RealPacket) lang" where
  "marshal_ast 0 a p = stop Deep"
| "marshal_ast (Suc k) a p = andThen (readN a) (\<lambda>n.
     andThen (marshal_contents (marshal_ast k) n
         (append_int (sint (htonl (type_code (node_type n)))) p)) (\<lambda>(r, p).
       ret (if r = - 1 \<or> \<not> rp_complete p then - 1 else 0, p)))"

subsection \<open>Reading\<close>

definition get_type :: "BufferWrapper \<Rightarrow> ASTType \<times> BufferWrapper" where
  "get_type b = (case retrieve_int b of (v, b') \<Rightarrow> (type_of_code (ntohl (word_of_int v)), b'))"

text \<open>A length and that many bytes; \<open>None\<close> when an error has occurred.\<close>

definition get_string :: "BufferWrapper \<Rightarrow> str option \<times> BufferWrapper" where
  "get_string b = (case get_uint b of (n, b') \<Rightarrow>
     case retrieve_buf (sint n) b' of (bs, b'') \<Rightarrow> (if bw_errorFlag b'' then None else bs, b''))"

primrec unmarshal_nodes :: "(BufferWrapper \<Rightarrow> (nat \<times> BufferWrapper) lang) \<Rightarrow> nat \<Rightarrow> BufferWrapper
    \<Rightarrow> (nat list option \<times> BufferWrapper) lang" where
  "unmarshal_nodes f 0 b = ret (Some [], b)"
| "unmarshal_nodes f (Suc i) b = andThen (f b) (\<lambda>(a, b). andThen (is_empty a) (\<lambda>e.
     if e then ret (None, b)
     else andThen (unmarshal_nodes f i b) (\<lambda>(r, b). ret (map_option ((#) a) r, b))))"

primrec unmarshal_fields :: "(BufferWrapper \<Rightarrow> (nat \<times> BufferWrapper) lang) \<Rightarrow> nat
    \<Rightarrow> (str, nat) smap \<Rightarrow> BufferWrapper \<Rightarrow> ((str, nat) smap option \<times> BufferWrapper) lang" where
  "unmarshal_fields f 0 m b = ret (Some m, b)"
| "unmarshal_fields f (Suc i) m b = (case get_string b of
       (None, b) \<Rightarrow> ret (None, b)
     | (Some s, b) \<Rightarrow> andThen (f b) (\<lambda>(a, b). andThen (is_empty a) (\<lambda>e.
         if e then ret (None, b) else unmarshal_fields f i (sm_upd s a m) b)))"

text \<open>
  The contents of a node of the given type; \<open>None\<close> when the empty node is returned instead. An array
  of another element type than a struct comes without a name, and none comes with a table.
\<close>

definition unmarshal_array :: "(BufferWrapper \<Rightarrow> (nat \<times> BufferWrapper) lang) \<Rightarrow> BufferWrapper
    \<Rightarrow> (ASTNode option \<times> BufferWrapper) lang" where
  "unmarshal_array f b = (case get_type b of (ty, b) \<Rightarrow>
     case get_uint b of (n, b') \<Rightarrow>
     case (if n > 0 then get_string b else (Some [], b')) of
       (None, b) \<Rightarrow> ret (None, b)
     | (Some s, b) \<Rightarrow> (case get_uint b of (k, b) \<Rightarrow>
         andThen (unmarshal_nodes f (unat k) b) (\<lambda>(r, b).
           ret (map_option (\<lambda>vec. ArrayN ty (if n > 0 then Val s else Unset) vec Unset) r, b))))"

definition unmarshal_struct :: "(BufferWrapper \<Rightarrow> (nat \<times> BufferWrapper) lang) \<Rightarrow> BufferWrapper
    \<Rightarrow> (ASTNode option \<times> BufferWrapper) lang" where
  "unmarshal_struct f b = (case get_string b of
       (None, b) \<Rightarrow> ret (None, b)
     | (Some s, b) \<Rightarrow> (case get_uint b of (k, b) \<Rightarrow>
         andThen (unmarshal_fields f (unat k) [] b) (\<lambda>(r, b). ret (map_option (VarAdtN s) r, b))))"

definition unmarshal_list :: "(BufferWrapper \<Rightarrow> (nat \<times> BufferWrapper) lang) \<Rightarrow> BufferWrapper
    \<Rightarrow> (ASTNode option \<times> BufferWrapper) lang" where
  "unmarshal_list f b = (case get_uint b of (k, b) \<Rightarrow>
     andThen (unmarshal_nodes f (unat k) b) (\<lambda>(r, b). ret (map_option SepN r, b)))"

definition unmarshal_double :: "BufferWrapper \<Rightarrow> ASTNode option \<times> BufferWrapper" where
  "unmarshal_double b = (case retrieve_buf 8 b of
       (Some bs, b) \<Rightarrow> (Some (DoubleN (bytes_dbl bs)), b)
     | (None, b) \<Rightarrow> (None, b))"

definition unmarshal_int :: "BufferWrapper \<Rightarrow> ASTNode option \<times> BufferWrapper" where
  "unmarshal_int b = (case retrieve_int b of (v, b) \<Rightarrow> (Some (IntN (ntohl (word_of_int v))), b))"

definition unmarshal_contents :: "(BufferWrapper \<Rightarrow> (nat \<times> BufferWrapper) lang) \<Rightarrow> ASTType
    \<Rightarrow> BufferWrapper \<Rightarrow> (ASTNode option \<times> BufferWrapper) lang" where
  "unmarshal_contents f ty b = (case ty of
       EMPTY_TYPE \<Rightarrow> ret (Some EmptyN, b)
     | INT_TYPE \<Rightarrow> ret (unmarshal_int b)
     | DOUBLE_TYPE \<Rightarrow> ret (unmarshal_double b)
     | STRING_TYPE \<Rightarrow> ret (case get_string b of (s, b) \<Rightarrow> (map_option StringN s, b))
     | ARRAY_TYPE \<Rightarrow> unmarshal_array f b
     | VAR_ADT_TYPE \<Rightarrow> unmarshal_struct f b
     | SEP_TYPE \<Rightarrow> unmarshal_list f b
     | _ \<Rightarrow> ret (None, b))"

primrec unmarshal_ast :: "nat \<Rightarrow> BufferWrapper \<Rightarrow> (nat \<times> BufferWrapper) lang" where
  "unmarshal_ast 0 b = stop Deep"
| "unmarshal_ast (Suc k) b = andThen get_var_table (\<lambda>t. andThen (new_stack_ast t) (\<lambda>r. case r of
       None \<Rightarrow> andThen empty_token (\<lambda>e. ret (e, b))
     | Some a \<Rightarrow> (case get_type b of (ty, b) \<Rightarrow>
         andThen (unmarshal_contents (unmarshal_ast k) ty b) (\<lambda>(r, b). case r of
             None \<Rightarrow> andThen empty_token (\<lambda>e. ret (e, b))
           | Some n \<Rightarrow> if bw_errorFlag b then andThen empty_token (\<lambda>e. ret (e, b))
               else andThen (writeN a n) (\<lambda>_. ret (a, b))))))"

subsection \<open>Programs\<close>

definition marshal_packet :: "(u8 list \<Rightarrow> u8 list option) \<Rightarrow> nat \<Rightarrow> str \<Rightarrow> nat \<Rightarrow> RealPacket
    \<Rightarrow> (int \<times> RealPacket) lang" where
  "marshal_packet compress k func_name paramAST p = andThen (gets input_buffer) (\<lambda>ib.
     case compress (take (unat (pib_size ib)) (case pib_buf ib of None \<Rightarrow> [] | Some cs \<Rightarrow> cs)) of
       None \<Rightarrow> ret (- 1, p)
     | Some z \<Rightarrow>
         (let p = append_uint (htonl (pib_size ib)) p;
              p = append_uint (htonl (of_nat (length z))) p;
              p = append_str z (c_int (int (length z))) p;
              p = append_string func_name p
          in if \<not> rp_complete p then ret (- 1, p)
             else andThen (marshal_ast k paramAST p) (\<lambda>(r, p). ret (if r = - 1 then - 1 else 0, p))))"

definition MAX_PROGRAM_SIZE :: u32 where "MAX_PROGRAM_SIZE = 10000"

text \<open>
  The function name is taken for a C string: it goes on to the first zero byte of the packet.
\<close>

definition c_string :: "u8 list \<Rightarrow> str lang" where
  "c_string bs = (if 0 \<in> set bs then ret (takeWhile (\<lambda>c. c \<noteq> 0) bs) else stop Uninit)"

definition store_program :: "u8 list \<Rightarrow> int lang" where
  "store_program cs = andThen (gets input_buffer) (\<lambda>ib. case create_buffer (of_nat (length cs)) ib of
     (r, ib') \<Rightarrow> if r = - 1 then ret (- 1)
       else andThen (modify (\<lambda>ps. ps\<lparr>input_buffer := ib'\<lparr>pib_buf := Some cs\<rparr>\<rparr>)) (\<lambda>_. ret 0))"

definition unmarshal_packet :: "(u8 list \<Rightarrow> u32 \<Rightarrow> u8 list option) \<Rightarrow> nat \<Rightarrow> BufferWrapper
    \<Rightarrow> (int \<times> BufferWrapper) lang" where
  "unmarshal_packet uncompress k b = (case get_uint b of (prog_size, b) \<Rightarrow>
     if prog_size > MAX_PROGRAM_SIZE then ret (- 1, b)
     else (case get_string b of
         (None, b) \<Rightarrow> ret (- 1, b)
       | (Some z, b) \<Rightarrow> (case get_uint b of (string_size, b0) \<Rightarrow>
           case retrieve_buf (sint string_size) b0 of (name, b) \<Rightarrow>
           if bw_errorFlag b then ret (- 1, b)
           else andThen (c_string (drop (nat (bw_counter b0)) (bw_buf b0))) (\<lambda>func_name.
             andThen (set_func_string func_name) (\<lambda>_.
             andThen (unmarshal_ast k b) (\<lambda>(a, b). andThen (set_param a) (\<lambda>_.
               case uncompress z prog_size of
                 None \<Rightarrow> ret (- 1, b)
               | Some cs \<Rightarrow> andThen (store_program cs) (\<lambda>r. ret (r, b)))))))))"

subsection \<open>The packets\<close>

definition DSLReplyPacket_createRealPacket :: "u32 \<Rightarrow> Packet \<Rightarrow> RealPacket \<Rightarrow> int \<times> RealPacket" where
  "DSLReplyPacket_createRealPacket magic pk p = packet_done (write_id magic pk (append_char DSL_REPLY p))"

definition DSLReplyPacket_parse :: "u32 \<Rightarrow> nat \<Rightarrow> u8 list \<Rightarrow> (Packet \<times> nat) option lang" where
  "DSLReplyPacket_parse magic k buf = (case retrieve_char (newBufferWrapper buf (int (length buf))) of
     (queryType, rb) \<Rightarrow>
       if bw_errorFlag rb \<or> queryType \<noteq> DSL_REPLY then ret None
       else case get_uint rb of (queryID_1, rb) \<Rightarrow>
         case get_uint rb of (queryID_2, rb) \<Rightarrow>
         case get_uint rb of (magicNumber, rb) \<Rightarrow>
         if bw_errorFlag rb \<or> magicNumber \<noteq> magic then ret None
         else andThen (unmarshal_ast k rb) (\<lambda>(a, rb).
           ret (Some (\<lparr>req_id_1 = queryID_1, req_id_2 = queryID_2\<rparr>, a))))"

record DSLRequestPacket = RendvHeaderPacket +
  ms_remain :: u16
  dsl_ttl :: u16

definition DSLRequestPacket_createRealPacket ::
  "u32 \<Rightarrow> DSLRequestPacket \<Rightarrow> RealPacket \<Rightarrow> int \<times> RealPacket" where
  "DSLRequestPacket_createRealPacket magic pk p =
     packet_done (append_ushort (htons (dsl_ttl pk)) (append_ushort (htons (ms_remain pk))
       (write_rendv pk (write_id magic pk (append_char DSL_REQUEST p)))))"

definition DSLRequestPacket_parse :: "u32 \<Rightarrow> (u8 list \<Rightarrow> u32 \<Rightarrow> u8 list option) \<Rightarrow> nat \<Rightarrow> u8 list
    \<Rightarrow> DSLRequestPacket option lang" where
  "DSLRequestPacket_parse magic uncompress k buf =
    (case retrieve_char (newBufferWrapper buf (int (length buf))) of (queryType, rb) \<Rightarrow>
       if bw_errorFlag rb \<or> queryType \<noteq> DSL_REQUEST then ret None
       else case get_uint rb of (queryID_1, rb) \<Rightarrow>
         case get_uint rb of (queryID_2, rb) \<Rightarrow>
         case get_uint rb of (magicNumber, rb) \<Rightarrow>
         case get_uint rb of (rendvAddr, rb) \<Rightarrow>
         case get_ushort rb of (rendvPort, rb) \<Rightarrow>
         case get_ushort rb of (cur_remain, rb) \<Rightarrow>
         case get_ushort rb of (cur_ttl, rb) \<Rightarrow>
         if bw_errorFlag rb \<or> magicNumber \<noteq> magic then ret None
         else andThen (unmarshal_packet uncompress k rb) (\<lambda>(r, rb).
           if r = - 1 \<or> bw_errorFlag rb then ret None
           else ret (Some \<lparr>req_id_1 = queryID_1, req_id_2 = queryID_2, rendv_addr = rendvAddr,
             rendv_port = rendvPort, ms_remain = cur_remain, dsl_ttl = cur_ttl\<rparr>)))"

end
