(* ===== verification/Lang_Ops.thy ===== *)
theory Lang_Ops
  imports Lang_Wire
begin

text \<open>
  MeridianDSL.cpp, lines 137-217, 268-328, 1150-1258 and 1947-2085: arithmetic and comparison of
  values, the searches in arrays, sets kept in arrays, and the structs that stand for nodes and
  measurements.
\<close>

subsection \<open>Arithmetic\<close>

definition of_bool_node :: "bool \<Rightarrow> ASTNode" where
  "of_bool_node c = IntN (if c then 1 else 0)"

definition trapping :: "u32 option \<Rightarrow> ASTNode option lang" where
  "trapping r = (case r of None \<Rightarrow> stop Overflow | Some v \<Rightarrow> ret (Some (IntN v)))"

text \<open>The result for two operands of the same type; \<open>None\<close> stands for the empty node.\<close>

definition arith_int :: "OpCode \<Rightarrow> u32 \<Rightarrow> u32 \<Rightarrow> ASTNode option lang" where
  "arith_int op x y =
     (if op = Op_mod then trapping (int_mod x y)
      else if op \<in> {Op_bitand, Op_bitxor, Op_bitor, LEFT_OP, RIGHT_OP}
      then ret (Some (IntN (opr_int_only op x y)))
      else if op \<in> {AND_OP, OR_OP, Op_lt, Op_gt, LE_OP, GE_OP, EQ_OP, NE_OP}
      then ret (Some (of_bool_node (opr_int_ret_int op x y)))
      else trapping (opr_int op x y))"

definition arith_double :: "dsl_env \<Rightarrow> OpCode \<Rightarrow> u64 \<Rightarrow> u64 \<Rightarrow> ASTNode option lang" where
  "arith_double E op x y =
     (if op = Op_mod then ret (Some (DoubleN (e_fmod E x y)))
      else if op \<in> {Op_bitand, Op_bitxor, Op_bitor, LEFT_OP, RIGHT_OP} then ret None
      else if op \<in> {AND_OP, OR_OP, Op_lt, Op_gt, LE_OP, GE_OP, EQ_OP, NE_OP}
      then ret (Some (of_bool_node (opr_int_ret_double op x y)))
      else ret (Some (DoubleN (opr_double E op x y))))"

definition arith_result :: "dsl_env \<Rightarrow> OpCode \<Rightarrow> ASTNode \<Rightarrow> ASTNode \<Rightarrow> ASTNode option lang" where
  "arith_result E op na nb =
     (if node_type na \<noteq> INT_TYPE \<and> node_type nb \<noteq> DOUBLE_TYPE then ret None
      else if node_type na \<noteq> node_type nb then ret None
      else case int_of na of
          Some x \<Rightarrow> andThen (need (int_of nb)) (arith_int op x)
        | None \<Rightarrow> andThen (need (double_of na)) (\<lambda>x. andThen (need (double_of nb)) (arith_double E op x)))"

definition arith_operation :: "dsl_env \<Rightarrow> OpCode \<Rightarrow> nat \<Rightarrow> nat \<Rightarrow> nat lang" where
  "arith_operation E op a b = andThen get_var_table (\<lambda>t. andThen (new_stack_ast t) (\<lambda>r. case r of
       None \<Rightarrow> empty_token
     | Some c \<Rightarrow> andThen (readN a) (\<lambda>na. andThen (readN b) (\<lambda>nb.
         andThen (arith_result E op na nb) (\<lambda>v. case v of
             None \<Rightarrow> empty_token
           | Some n \<Rightarrow> andThen (writeN c n) (\<lambda>_. ret c))))))"

subsection \<open>Comparison\<close>

primrec allEach :: "('a \<Rightarrow> bool lang) \<Rightarrow> 'a list \<Rightarrow> bool lang" where
  "allEach f [] = ret True"
| "allEach f (x # xs) = andThen (f x) (\<lambda>r. if r then allEach f xs else ret False)"

definition equal_names :: "str member \<Rightarrow> str member \<Rightarrow> bool lang" where
  "equal_names s s' = andThen (value_of s) (\<lambda>x. andThen (value_of s') (\<lambda>y. ret (x = y)))"

definition equal_arrays :: "(nat \<Rightarrow> nat \<Rightarrow> bool lang) \<Rightarrow> nat \<Rightarrow> nat \<Rightarrow> bool lang" where
  "equal_arrays rec a b = andThen (readAs array_of a) (\<lambda>(ty, nm, vec, tb).
     andThen (readAs array_of b) (\<lambda>(ty', nm', vec', tb').
       if ty \<noteq> ty' then ret False
       else andThen (if ty = ADT_TYPE then equal_names nm nm' else ret True) (\<lambda>e.
         if \<not> e \<or> length vec \<noteq> length vec' then ret False
         else allEach (\<lambda>(x, y). rec x y) (zip vec vec'))))"

definition equal_field :: "(nat \<Rightarrow> nat \<Rightarrow> bool lang) \<Rightarrow> (str, nat) smap \<Rightarrow> str \<times> nat \<Rightarrow> bool lang" where
  "equal_field rec m = (\<lambda>(s, x). case sm_find m s of None \<Rightarrow> ret False | Some y \<Rightarrow> rec x y)"

definition equal_structs :: "(nat \<Rightarrow> nat \<Rightarrow> bool lang) \<Rightarrow> nat \<Rightarrow> nat \<Rightarrow> bool lang" where
  "equal_structs rec a b = andThen (readAs struct_of a) (\<lambda>(tn, m).
     andThen (readAs struct_of b) (\<lambda>(tn', m').
       if tn \<noteq> tn' \<or> length m \<noteq> length m' then ret False
       else allEach (equal_field rec m') m))"

definition equal_basic :: "ASTNode \<Rightarrow> ASTNode \<Rightarrow> bool" where
  "equal_basic na nb = (case double_of na of
       Some x \<Rightarrow> (case double_of nb of Some y \<Rightarrow> dbl_eq x y | None \<Rightarrow> False)
     | None \<Rightarrow> node_type na \<in> {INT_TYPE, STRING_TYPE} \<and> na = nb)"

primrec ADTEqual :: "nat \<Rightarrow> nat \<Rightarrow> nat \<Rightarrow> bool lang" where
  "ADTEqual 0 a b = stop Deep"
| "ADTEqual (Suc k) a b = andThen (readN a) (\<lambda>na. andThen (readN b) (\<lambda>nb.
     if node_type na \<noteq> node_type nb then ret False
     else if node_type na = ARRAY_TYPE then equal_arrays (ADTEqual k) a b
     else if node_type na = VAR_ADT_TYPE then equal_structs (ADTEqual k) a b
     else ret (equal_basic na nb)))"

subsection \<open>Arrays\<close>

text \<open>The offset of the first entry no other one is better than; \<open>None\<close> for an ill-formed array.\<close>

primrec scan_best :: "(ASTNode \<Rightarrow> 'v option) \<Rightarrow> ('v \<Rightarrow> 'v \<Rightarrow> bool) \<Rightarrow> 'v \<Rightarrow> int \<Rightarrow> int \<Rightarrow> nat list
    \<Rightarrow> int option lang" where
  "scan_best get better best off i [] = ret (Some off)"
| "scan_best get better best off i (a # as) = andThen (readN a) (\<lambda>n. case get n of
       None \<Rightarrow> ret None
     | Some v \<Rightarrow> if better v best then scan_best get better v i (i + 1) as
         else scan_best get better best off (i + 1) as)"

definition arrayLargestOffset :: "ASTType \<Rightarrow> nat list \<Rightarrow> int option lang" where
  "arrayLargestOffset ty vec =
     (if ty = INT_TYPE \<or> ty = DOUBLE_TYPE
      then if vec = [] then ret (Some (- 1))
        else if ty = INT_TYPE
        then scan_best int_of (\<lambda>v best. sint v > sint best) 0x80000000 0 0 vec
        else scan_best double_of (\<lambda>v best. dbl_lt best v) dbl_minus_inf 0 0 vec
      else ret None)"

definition arraySmallestOffset :: "ASTType \<Rightarrow> nat list \<Rightarrow> int option lang" where
  "arraySmallestOffset ty vec =
     (if ty = INT_TYPE \<or> ty = DOUBLE_TYPE
      then if vec = [] then ret (Some (- 1))
        else if ty = INT_TYPE
        then scan_best int_of (\<lambda>v best. sint v < sint best) 0x7FFFFFFF 0 0 vec
        else scan_best double_of (\<lambda>v best. dbl_lt v best) dbl_inf 0 0 vec
      else ret None)"

primrec existsEach :: "('a \<Rightarrow> bool lang) \<Rightarrow> 'a list \<Rightarrow> bool lang" where
  "existsEach f [] = ret False"
| "existsEach f (x # xs) = andThen (f x) (\<lambda>r. if r then ret True else existsEach f xs)"

definition uniqueAdd :: "dsl_env \<Rightarrow> nat \<Rightarrow> nat \<Rightarrow> int lang" where
  "uniqueAdd E r in_node = andThen (readAs array_of r) (\<lambda>(ty, nm, vec, tb).
     andThen (existsEach (ADTEqual (e_stack E) in_node) vec) (\<lambda>found. if found then ret 0
       else andThen (ADTCreateAndCopy E in_node) (\<lambda>c. andThen (is_empty c) (\<lambda>e.
         if e then ret (- 1) else andThen (push_back r c) (\<lambda>_. ret 0)))))"

definition uniqueAdd_all :: "dsl_env \<Rightarrow> nat \<Rightarrow> nat list \<Rightarrow> int lang" where
  "uniqueAdd_all E r in_vect = forEach (uniqueAdd E r) in_vect"

subsection \<open>Nodes and measurements\<close>

definition node_name :: str where "node_name = str_of ''Node''"
definition measurement_name :: str where "measurement_name = str_of ''Measurement''"
definition addr_field :: str where "addr_field = str_of ''addr''"
definition port_field :: str where "port_field = str_of ''port''"
definition rendvAddr_field :: str where "rendvAddr_field = str_of ''rendvAddr''"
definition rendvPort_field :: str where "rendvPort_field = str_of ''rendvPort''"
definition distance_field :: str where "distance_field = str_of ''distance''"

definition fillNodeIdentField :: "str \<Rightarrow> (str, nat) smap \<Rightarrow> u32 option lang" where
  "fillNodeIdentField s m = (case sm_find m s of None \<Rightarrow> ret None
     | Some a \<Rightarrow> andThen (readN a) (\<lambda>n. ret (int_of n)))"

text \<open>\<^verbatim>\<open>createNodeIdent(ASTNode*, NodeIdentRendv*)\<close>: the identifier a struct stands for.\<close>

definition identOfNode :: "nat \<Rightarrow> NodeIdentRendv option lang" where
  "identOfNode a = andThen (readN a) (\<lambda>n. case struct_of n of None \<Rightarrow> ret None
     | Some (tn, m) \<Rightarrow> if tn \<noteq> node_name then ret None
         else andThen (fillNodeIdentField addr_field m) (\<lambda>x. case x of None \<Rightarrow> ret None
       | Some va \<Rightarrow> andThen (fillNodeIdentField port_field m) (\<lambda>x. case x of None \<Rightarrow> ret None
       | Some vp \<Rightarrow> andThen (fillNodeIdentField rendvAddr_field m) (\<lambda>x. case x of None \<Rightarrow> ret None
       | Some ra \<Rightarrow> andThen (fillNodeIdentField rendvPort_field m) (\<lambda>x. case x of None \<Rightarrow> ret None
       | Some rp \<Rightarrow> ret (Some \<lparr>addr = va, port = ucast vp, addrRendv = ra,
           portRendv = ucast (ucast rp :: u16)\<rparr>))))))"

definition ident_value :: "NodeIdentRendv \<Rightarrow> str \<Rightarrow> u32 option" where
  "ident_value i s =
     (if s = addr_field then Some (addr i)
      else if s = port_field then Some (ucast (port i))
      else if s = rendvAddr_field then Some (addrRendv i)
      else if s = rendvPort_field then Some (ucast (portRendv i))
      else None)"

definition fill_ident_field :: "NodeIdentRendv \<Rightarrow> nat \<Rightarrow> nat \<Rightarrow> int lang" where
  "fill_ident_field i a f = andThen (field_decl f) (\<lambda>d. andThen (get_field a (v_name d)) (\<lambda>r. case r of
       None \<Rightarrow> ret (- 1)
     | Some x \<Rightarrow> andThen (readN x) (\<lambda>n. if node_type n \<noteq> INT_TYPE then ret (- 1)
         else case ident_value i (v_name d) of None \<Rightarrow> ret (- 1)
           | Some v \<Rightarrow> andThen (writeN x (IntN v)) (\<lambda>_. ret 0))))"

text \<open>A new struct of the given name, filled field by field.\<close>

definition create_filled :: "dsl_env \<Rightarrow> str \<Rightarrow> (nat \<Rightarrow> nat \<Rightarrow> int lang) \<Rightarrow> nat lang" where
  "create_filled E s fill = andThen get_var_table (\<lambda>t. andThen (find_adt t s) (\<lambda>r. case r of
       None \<Rightarrow> empty_token
     | Some (tn, p) \<Rightarrow> andThen (ASTCreate_ps E ADT_TYPE (Val s) (Val VOID_TYPE) 0) (\<lambda>a.
         andThen (is_empty a) (\<lambda>e. if e then empty_token
           else andThen (readAs sep_of p) (\<lambda>fs. andThen (forEach (fill a) fs) (\<lambda>r.
             if r = - 1 then empty_token else ret a))))))"

definition createNodeIdent :: "dsl_env \<Rightarrow> NodeIdentRendv \<Rightarrow> nat lang" where
  "createNodeIdent E i = create_filled E node_name (fill_ident_field i)"

definition push_latency :: "dsl_env \<Rightarrow> nat \<Rightarrow> u32 \<Rightarrow> int lang" where
  "push_latency E x lat = andThen (ASTCreate_ps E DOUBLE_TYPE Null (Val VOID_TYPE) 0) (\<lambda>c.
     andThen (is_empty c) (\<lambda>e. if e then ret (- 1)
       else andThen (writeN c (DoubleN (e_div E (dbl_of_int (uint lat)) (dbl_of_int 1000)))) (\<lambda>_.
         andThen (push_back x c) (\<lambda>_. ret 0))))"

definition fill_measurement_field ::
  "dsl_env \<Rightarrow> NodeIdentRendv \<Rightarrow> u32 list \<Rightarrow> nat \<Rightarrow> nat \<Rightarrow> int lang" where
  "fill_measurement_field E i lats a f = andThen (field_decl f) (\<lambda>d.
     andThen (get_field a (v_name d)) (\<lambda>r. case r of None \<Rightarrow> ret (- 1)
     | Some x \<Rightarrow> andThen (readN x) (\<lambda>n.
         if node_type n = INT_TYPE
         then (case ident_value i (v_name d) of None \<Rightarrow> ret (- 1)
           | Some v \<Rightarrow> andThen (writeN x (IntN v)) (\<lambda>_. ret 0))
         else (case array_of n of
             Some (ty, nm, vec, tb) \<Rightarrow> if ty \<noteq> DOUBLE_TYPE then ret (- 1)
               else if v_name d = distance_field then forEach (push_latency E x) lats
               else ret 0
           | None \<Rightarrow> ret (- 1)))))"

definition createNodeIdentLat :: "dsl_env \<Rightarrow> NodeIdentRendv \<Rightarrow> u32 list \<Rightarrow> nat lang" where
  "createNodeIdentLat E i lats = create_filled E measurement_name (fill_measurement_field E i lats)"

end
