(* ===== verification/Lang_Native.thy ===== *)
theory Lang_Native
  imports Lang_Ops
begin

text \<open>
  MeridianDSL.cpp, lines 1308-1880: the native functions. \<open>ev\<close> is the evaluation of an argument. The
  functions that need the rings or the network are defined in Query.cpp and reached through
  \<open>e_native\<close>.
\<close>

definition arg :: "(nat \<Rightarrow> nat lang) \<Rightarrow> nat member \<Rightarrow> nat lang" where
  "arg ev p = andThen (value_of p) ev"

text \<open>Functions of one argument that must have a given type; otherwise the empty node.\<close>

definition with_member :: "(ASTNode \<Rightarrow> 'a option) \<Rightarrow> nat \<Rightarrow> ('a \<Rightarrow> nat lang) \<Rightarrow> nat lang" where
  "with_member get a k = andThen (readN a) (\<lambda>n. case get n of None \<Rightarrow> empty_token | Some x \<Rightarrow> k x)"

definition native_to_int :: "(u64 \<Rightarrow> u32) \<Rightarrow> (nat \<Rightarrow> nat lang) \<Rightarrow> nat member \<Rightarrow> nat lang" where
  "native_to_int f ev p = andThen (arg ev p) (\<lambda>a. with_member double_of a (\<lambda>d. mk_int (f d)))"

definition native_libm :: "dsl_env \<Rightarrow> NativeFunc \<Rightarrow> (nat \<Rightarrow> nat lang) \<Rightarrow> nat member \<Rightarrow> nat lang" where
  "native_libm E f ev p = andThen (arg ev p) (\<lambda>a. with_member double_of a (\<lambda>d. mk_double (e_libm E f d)))"

definition native_pow :: "dsl_env \<Rightarrow> (nat \<Rightarrow> nat lang) \<Rightarrow> nat member \<Rightarrow> nat member \<Rightarrow> nat lang" where
  "native_pow E ev p1 p2 = andThen (arg ev p1) (\<lambda>a. andThen (arg ev p2) (\<lambda>b.
     with_member double_of a (\<lambda>x. with_member double_of b (\<lambda>y. mk_double (e_pow E x y)))))"

definition native_dbl :: "(nat \<Rightarrow> nat lang) \<Rightarrow> nat member \<Rightarrow> nat lang" where
  "native_dbl ev p = andThen (arg ev p) (\<lambda>a. with_member int_of a (\<lambda>i. mk_double (dbl_of_int (sint i))))"

definition native_array_size :: "(nat \<Rightarrow> nat lang) \<Rightarrow> nat member \<Rightarrow> nat lang" where
  "native_array_size ev p = andThen (arg ev p) (\<lambda>a. with_member array_of a (\<lambda>(ty, nm, vec, tb).
     mk_int (of_nat (length vec))))"

text \<open>\<^verbatim>\<open>inet_ntoa\<close> of an address: four decimal numbers.\<close>

fun decimal_digits :: "nat \<Rightarrow> str" where
  "decimal_digits n = (if n < 10 then [of_nat (48 + n)] else decimal_digits (n div 10) @ [of_nat (48 + n mod 10)])"

declare decimal_digits.simps [simp del]

definition dotted :: "u32 \<Rightarrow> str" where
  "dotted i = (let part = \<lambda>k. decimal_digits (unat (take_bit 8 (drop_bit k i)))
     in part 24 @ [46] @ part 16 @ [46] @ part 8 @ [46] @ part 0)"

definition native_dns_addr :: "(nat \<Rightarrow> nat lang) \<Rightarrow> nat member \<Rightarrow> nat lang" where
  "native_dns_addr ev p = andThen (arg ev p) (\<lambda>a. with_member int_of a (\<lambda>i. mk_string (dotted i)))"

subsection \<open>Arrays as stacks\<close>

text \<open>
  What \<^verbatim>\<open>adt_val.adt_type_name\<close> gives for any node: the type is not checked. In a string node the
  same place holds the string; elsewhere there is no pointer to a string.
\<close>

definition type_name_of :: "ASTNode \<Rightarrow> str lang" where
  "type_name_of n = (case struct_of n of Some (tn, m) \<Rightarrow> ret tn
     | None \<Rightarrow> (case string_of n of Some s \<Rightarrow> ret s
       | None \<Rightarrow> (case adt_of n of Some (tn, p) \<Rightarrow> ret tn | None \<Rightarrow> stop Bad_member)))"

definition push_matches :: "ASTType \<Rightarrow> str member \<Rightarrow> ASTNode \<Rightarrow> bool lang" where
  "push_matches ty nm n = (if ty = ADT_TYPE
     then andThen (value_of nm) (\<lambda>s. andThen (type_name_of n) (\<lambda>s'. ret (s = s')))
     else ret (ty = node_type n))"

definition native_push_back :: "dsl_env \<Rightarrow> (nat \<Rightarrow> nat lang) \<Rightarrow> nat member \<Rightarrow> nat member \<Rightarrow> nat lang" where
  "native_push_back E ev p1 p2 = andThen (arg ev p1) (\<lambda>a. andThen (arg ev p2) (\<lambda>b.
     with_member array_of a (\<lambda>(ty, nm, vec, tb). andThen (readN b) (\<lambda>n.
       andThen (push_matches ty nm n) (\<lambda>ok. if \<not> ok then empty_token
         else andThen (new_entry (e_stack E) a) (\<lambda>r. case r of None \<Rightarrow> empty_token
           | Some c \<Rightarrow> andThen (updateADT_ps E c b) (\<lambda>r. if r = - 1 then empty_token
               else andThen (push_back a c) (\<lambda>_. empty_token))))))))"

definition native_pop_back :: "(nat \<Rightarrow> nat lang) \<Rightarrow> nat member \<Rightarrow> nat lang" where
  "native_pop_back ev p = andThen (arg ev p) (\<lambda>a. with_member array_of a (\<lambda>(ty, nm, vec, tb).
     andThen (if vec = [] then ret () else writeN a (ArrayN ty nm (butlast vec) tb)) (\<lambda>_. empty_token)))"

subsection \<open>Arrays as sets\<close>

definition same_arrays :: "nat \<Rightarrow> nat \<Rightarrow> bool lang" where
  "same_arrays a b = andThen (readN a) (\<lambda>na. andThen (readN b) (\<lambda>nb. case array_of na of
       None \<Rightarrow> ret False
     | Some (ty, nm, vec, tb) \<Rightarrow> (case array_of nb of
         None \<Rightarrow> ret False
       | Some (ty', nm', vec', tb') \<Rightarrow> if ty = ADT_TYPE then equal_names nm nm' else ret True)))"

definition new_like :: "dsl_env \<Rightarrow> nat \<Rightarrow> nat lang" where
  "new_like E a = andThen (readAs array_of a) (\<lambda>(ty, nm, vec, tb).
     ASTCreate_ps E ARRAY_TYPE nm (Val ty) 0)"

definition intersect_step :: "dsl_env \<Rightarrow> nat \<Rightarrow> nat list \<Rightarrow> nat \<Rightarrow> int lang" where
  "intersect_step E r vect_2 x = andThen (existsEach (ADTEqual (e_stack E) x) vect_2) (\<lambda>found.
     if found then uniqueAdd E r x else ret 0)"

definition native_intersect :: "dsl_env \<Rightarrow> (nat \<Rightarrow> nat lang) \<Rightarrow> nat member \<Rightarrow> nat member \<Rightarrow> nat lang" where
  "native_intersect E ev p1 p2 = andThen (arg ev p1) (\<lambda>a. andThen (arg ev p2) (\<lambda>b.
     andThen (same_arrays a b) (\<lambda>ok. if \<not> ok then empty_token
       else andThen (new_like E a) (\<lambda>r. andThen (is_empty r) (\<lambda>e. if e then empty_token
         else andThen (vector_of a) (\<lambda>vect_1. andThen (vector_of b) (\<lambda>vect_2.
           andThen (forEach (intersect_step E r vect_2) vect_1) (\<lambda>x.
             if x = - 1 then empty_token else ret r))))))))"

definition native_union :: "dsl_env \<Rightarrow> (nat \<Rightarrow> nat lang) \<Rightarrow> nat member \<Rightarrow> nat member \<Rightarrow> nat lang" where
  "native_union E ev p1 p2 = andThen (arg ev p1) (\<lambda>a. andThen (arg ev p2) (\<lambda>b.
     andThen (same_arrays a b) (\<lambda>ok. if \<not> ok then empty_token
       else andThen (new_like E a) (\<lambda>r. andThen (is_empty r) (\<lambda>e. if e then empty_token
         else andThen (vector_of a) (\<lambda>vect_1. andThen (uniqueAdd_all E r vect_1) (\<lambda>x.
           if x = - 1 then empty_token
           else andThen (vector_of b) (\<lambda>vect_2. andThen (uniqueAdd_all E r vect_2) (\<lambda>x.
             if x = - 1 then empty_token else ret r)))))))))"

subsection \<open>Statistics\<close>

definition native_offset :: "(ASTType \<Rightarrow> nat list \<Rightarrow> int option lang) \<Rightarrow> (nat \<Rightarrow> nat lang)
    \<Rightarrow> nat member \<Rightarrow> nat lang" where
  "native_offset search ev p = andThen (arg ev p) (\<lambda>a. with_member array_of a (\<lambda>(ty, nm, vec, tb).
     andThen (search ty vec) (\<lambda>r. case r of None \<Rightarrow> empty_token | Some i \<Rightarrow> mk_int (word_of_int i))))"

text \<open>The best entry, or the neutral one of an empty array.\<close>

definition native_best :: "(ASTType \<Rightarrow> nat list \<Rightarrow> int option lang) \<Rightarrow> u32 \<Rightarrow> u64 \<Rightarrow> (nat \<Rightarrow> nat lang)
    \<Rightarrow> nat member \<Rightarrow> nat lang" where
  "native_best search i0 d0 ev p = andThen (arg ev p) (\<lambda>a.
     with_member array_of a (\<lambda>(ty, nm, vec, tb). andThen (search ty vec) (\<lambda>r. case r of
         None \<Rightarrow> empty_token
       | Some i \<Rightarrow> if i \<ge> int (length vec) then empty_token
           else if ty = INT_TYPE
           then (if i = - 1 then mk_int i0
             else andThen (readAs int_of (vec ! nat i)) mk_int)
           else if ty = DOUBLE_TYPE
           then (if i = - 1 then mk_double d0
             else andThen (readAs double_of (vec ! nat i)) mk_double)
           else empty_token)))"

primrec sum_entries :: "dsl_env \<Rightarrow> (ASTNode \<Rightarrow> u64 option) \<Rightarrow> u64 \<Rightarrow> nat list \<Rightarrow> u64 option lang" where
  "sum_entries E get s [] = ret (Some s)"
| "sum_entries E get s (a # as) = andThen (readN a) (\<lambda>n. case get n of None \<Rightarrow> ret None
     | Some d \<Rightarrow> sum_entries E get (e_add E s d) as)"

definition native_avg :: "dsl_env \<Rightarrow> (nat \<Rightarrow> nat lang) \<Rightarrow> nat member \<Rightarrow> nat lang" where
  "native_avg E ev p = andThen (arg ev p) (\<lambda>a. with_member array_of a (\<lambda>(ty, nm, vec, tb).
     if vec = [] then mk_double 0
     else if ty = INT_TYPE \<or> ty = DOUBLE_TYPE
     then andThen (sum_entries E (if ty = INT_TYPE then (\<lambda>n. map_option (\<lambda>i. dbl_of_int (sint i)) (int_of n))
         else double_of) 0 vec) (\<lambda>r. case r of None \<Rightarrow> empty_token
       | Some s \<Rightarrow> mk_double (e_div E s (dbl_of_int (int (length vec)))))
     else empty_token))"

subsection \<open>The dispatcher\<close>

definition evalNativeFunctions :: "dsl_env \<Rightarrow> (nat \<Rightarrow> nat lang) \<Rightarrow> NativeFunc \<Rightarrow> nat member
    \<Rightarrow> nat member \<Rightarrow> nat member \<Rightarrow> nat lang" where
  "evalNativeFunctions E ev f p1 p2 p3 = (case f of
       ROUND \<Rightarrow> native_to_int dbl_lrint ev p1
     | CEIL \<Rightarrow> native_to_int dbl_ceil_int ev p1
     | FLOOR \<Rightarrow> native_to_int dbl_floor_int ev p1
     | SIN \<Rightarrow> native_libm E SIN ev p1
     | COS \<Rightarrow> native_libm E COS ev p1
     | TAN \<Rightarrow> native_libm E TAN ev p1
     | ASIN \<Rightarrow> native_libm E ASIN ev p1
     | ACOS \<Rightarrow> native_libm E ACOS ev p1
     | ATAN \<Rightarrow> native_libm E ATAN ev p1
     | LOG_OP \<Rightarrow> native_libm E LOG_OP ev p1
     | EXP \<Rightarrow> native_libm E EXP ev p1
     | POW \<Rightarrow> native_pow E ev p1 p2
     | DBL \<Rightarrow> native_dbl ev p1
     | ARRAY_SIZE \<Rightarrow> native_array_size ev p1
     | DNS_ADDR \<Rightarrow> native_dns_addr ev p1
     | PUSH_BACK \<Rightarrow> native_push_back E ev p1 p2
     | POP_BACK \<Rightarrow> native_pop_back ev p1
     | ARRAY_INTERSECT \<Rightarrow> native_intersect E ev p1 p2
     | ARRAY_MAX_OFFSET \<Rightarrow> native_offset arrayLargestOffset ev p1
     | ARRAY_MIN_OFFSET \<Rightarrow> native_offset arraySmallestOffset ev p1
     | ARRAY_AVG \<Rightarrow> native_avg E ev p1
     | ARRAY_MAX \<Rightarrow> native_best arrayLargestOffset 0x80000000 dbl_minus_inf ev p1
     | ARRAY_MIN \<Rightarrow> native_best arraySmallestOffset 0x7FFFFFFF dbl_inf ev p1
     | ARRAY_UNION \<Rightarrow> native_union E ev p1 p2
     | Other_native i \<Rightarrow> empty_token
     | _ \<Rightarrow> e_native E ev (NativeFuncN f p1 p2 p3))"

end
