(* ===== verification/Lang_Eval.thy ===== *)
theory Lang_Eval
  imports Lang_Native
begin

text \<open>
  MeridianDSL.cpp, lines 1882-1945 and 2087-2650: the evaluation of a syntax tree. One definition per
  kind of node takes the evaluation \<open>ev\<close> of the parts, which is one level deeper; \<open>eval_ast\<close> ties
  them together. Its number is how many nested evaluations are still allowed, so the test of
  \<^verbatim>\<open>recurse_count\<close> against \<^verbatim>\<open>MAX_RECURSE_COUNT\<close> is the case 0. What is printed is not modelled.
\<close>

definition MAX_RECURSE_COUNT :: nat where "MAX_RECURSE_COUNT = 1000"

definition is_jump :: "ASTNode \<Rightarrow> bool" where
  "is_jump n \<longleftrightarrow> node_type n \<in> {BREAK_TYPE, CONTINUE_TYPE, RETURN_TYPE}"

text \<open>A statement passes a jump on and is the empty node otherwise.\<close>

definition pass_jump :: "nat \<Rightarrow> nat lang" where
  "pass_jump a = andThen (readN a) (\<lambda>n. if is_jump n then ret a else empty_token)"

subsection \<open>Variables\<close>

definition declared_size :: "(nat \<Rightarrow> nat lang) \<Rightarrow> var_val \<Rightarrow> int option lang" where
  "declared_size ev d = (if v_type d = ARRAY_TYPE
     then andThen (arg ev (v_array_size d)) (\<lambda>s. andThen (readN s) (\<lambda>n. ret (map_option sint (int_of n))))
     else ret (Some 0))"

definition eval_new_var :: "dsl_env \<Rightarrow> (nat \<Rightarrow> nat lang) \<Rightarrow> var_val \<Rightarrow> nat lang" where
  "eval_new_var E ev d = andThen (declared_size ev d) (\<lambda>sz. case sz of None \<Rightarrow> empty_token
     | Some n \<Rightarrow> variable_create E (v_type d) (v_adt_name d) (v_array_type d) n (v_name d) False)"

definition initial_value :: "(nat \<Rightarrow> nat lang) \<Rightarrow> nat \<Rightarrow> nat lang" where
  "initial_value ev b = andThen (readN b) (\<lambda>n. case sep_of n of
       Some es \<Rightarrow> andThen (mapEach ev es) mk_sep_list_vector
     | None \<Rightarrow> ev b)"

definition eval_new_var_assign :: "dsl_env \<Rightarrow> (nat \<Rightarrow> nat lang) \<Rightarrow> var_val \<Rightarrow> nat \<Rightarrow> nat lang" where
  "eval_new_var_assign E ev d b = andThen (initial_value ev b) (\<lambda>v. andThen (is_empty v) (\<lambda>e.
     if e then ret v
     else andThen (variable_create E (v_type d) (v_adt_name d) (v_array_type d) 0 (v_name d) False) (\<lambda>c.
       andThen (updateADT_ps E c v) (\<lambda>r. if r = - 1 then empty_token else ret c))))"

definition eval_ref_var :: "str \<Rightarrow> nat lang" where
  "eval_ref_var s = andThen get_var_table (\<lambda>t. andThen (lookup t s) (\<lambda>r. case r of
       None \<Rightarrow> empty_token | Some a \<Rightarrow> ret a))"

definition eval_ref_array :: "(nat \<Rightarrow> nat lang) \<Rightarrow> nat \<Rightarrow> nat \<Rightarrow> nat lang" where
  "eval_ref_array ev name_ast access_ast = andThen (ev access_ast) (\<lambda>i. andThen (ev name_ast) (\<lambda>a.
     with_member array_of a (\<lambda>(ty, nm, vec, tb). with_member int_of i (\<lambda>k.
       if sint k < 0 \<or> int (length vec) \<le> sint k then empty_token else ret (vec ! nat (sint k))))))"

definition eval_ref_adt :: "(nat \<Rightarrow> nat lang) \<Rightarrow> nat \<Rightarrow> str \<Rightarrow> nat lang" where
  "eval_ref_adt ev name_ast s = andThen (ev name_ast) (\<lambda>a. with_member struct_of a (\<lambda>(tn, m).
     case sm_find m s of None \<Rightarrow> empty_token | Some x \<Rightarrow> ret x))"

definition eval_assign :: "dsl_env \<Rightarrow> (nat \<Rightarrow> nat lang) \<Rightarrow> nat \<Rightarrow> nat \<Rightarrow> nat lang" where
  "eval_assign E ev l r = andThen (ev r) (\<lambda>b. andThen (ev l) (\<lambda>a. andThen (is_empty b) (\<lambda>e.
     if e then ret b else andThen (is_empty a) (\<lambda>e. if e then ret a
       else andThen (updateADT_ps E a b) (\<lambda>x. if x = - 1 then empty_token else ret a)))))"

subsection \<open>Operators\<close>

definition eval_print :: "(nat \<Rightarrow> nat lang) \<Rightarrow> nat \<Rightarrow> nat lang" where
  "eval_print ev u = andThen (ev u) (\<lambda>a. andThen (readN a) (\<lambda>n.
     if node_type n = EMPTY_TYPE then ret a
     else if node_type n \<in> {INT_TYPE, DOUBLE_TYPE, STRING_TYPE} then ret a else empty_token))"

text \<open>The operand itself is overwritten, be it a literal of the program or a variable.\<close>

definition unary_result :: "dsl_env \<Rightarrow> OpCode \<Rightarrow> ASTNode \<Rightarrow> ASTNode option" where
  "unary_result E op n =
     (if op = Op_minus
      then (case int_of n of Some i \<Rightarrow> Some (IntN (- 1 * i))
        | None \<Rightarrow> map_option (\<lambda>d. DoubleN (e_mul E (dbl_of_int (- 1)) d)) (double_of n))
      else if op = Op_not then map_option (\<lambda>i. IntN (if i = 0 then 1 else 0)) (int_of n)
      else None)"

definition eval_unary :: "dsl_env \<Rightarrow> (nat \<Rightarrow> nat lang) \<Rightarrow> OpCode \<Rightarrow> nat \<Rightarrow> nat lang" where
  "eval_unary E ev op u = andThen (ev u) (\<lambda>a. andThen (readN a) (\<lambda>n.
     if node_type n = EMPTY_TYPE then ret a
     else case unary_result E op n of None \<Rightarrow> empty_token
       | Some n' \<Rightarrow> andThen (writeN a n') (\<lambda>_. ret a)))"

definition eval_bin :: "dsl_env \<Rightarrow> (nat \<Rightarrow> nat lang) \<Rightarrow> OpCode \<Rightarrow> nat \<Rightarrow> nat \<Rightarrow> nat lang" where
  "eval_bin E ev op l r = andThen (ev r) (\<lambda>b. andThen (ev l) (\<lambda>a. andThen (is_empty b) (\<lambda>e.
     if e then ret b else andThen (is_empty a) (\<lambda>e. if e then ret a
       else arith_operation E op a b))))"

subsection \<open>Statements\<close>

definition eval_seq :: "(nat \<Rightarrow> nat lang) \<Rightarrow> nat \<Rightarrow> nat \<Rightarrow> nat lang" where
  "eval_seq ev l r = andThen (ev r) (\<lambda>x. andThen (readN x) (\<lambda>n.
     if is_jump n then ret x else andThen (ev l) pass_jump))"

definition eval_context :: "(nat \<Rightarrow> nat lang) \<Rightarrow> nat \<Rightarrow> nat lang" where
  "eval_context ev u = andThen new_context (\<lambda>r. if r = - 1 then empty_token
     else andThen (ev u) (\<lambda>x. andThen remove_context (\<lambda>r. if r = - 1 then empty_token
       else pass_jump x)))"

definition eval_if :: "(nat \<Rightarrow> nat lang) \<Rightarrow> nat \<Rightarrow> nat \<Rightarrow> nat \<Rightarrow> nat lang" where
  "eval_if ev c l r = andThen (ev c) (\<lambda>e. with_member int_of e (\<lambda>i.
     andThen (ev (if i \<noteq> 0 then l else r)) pass_jump))"

primrec run_loop :: "nat \<Rightarrow> nat lang \<Rightarrow> nat lang \<Rightarrow> unit lang \<Rightarrow> nat \<Rightarrow> nat lang" where
  "run_loop 0 cond body next e = stop Long"
| "run_loop (Suc k) cond body next e = with_member int_of e (\<lambda>i. if i = 0 then empty_token
     else andThen body (\<lambda>x. andThen (readN x) (\<lambda>n.
       if node_type n = RETURN_TYPE then ret x
       else if node_type n = BREAK_TYPE then empty_token
       else andThen next (\<lambda>_. andThen cond (run_loop k cond body next)))))"

definition eval_loop :: "dsl_env \<Rightarrow> (nat \<Rightarrow> nat lang) \<Rightarrow> nat \<Rightarrow> nat \<Rightarrow> nat lang" where
  "eval_loop E ev c body = andThen (ev c) (run_loop (e_loops E) (ev c) (ev body) (ret ()))"

definition eval_for_loop :: "dsl_env \<Rightarrow> (nat \<Rightarrow> nat lang) \<Rightarrow> nat \<Rightarrow> nat \<Rightarrow> nat \<Rightarrow> nat \<Rightarrow> nat lang" where
  "eval_for_loop E ev n1 n2 n3 n4 = andThen (ev n1) (\<lambda>_. andThen (ev n2)
     (run_loop (e_loops E) (ev n2) (ev n4) (andThen (ev n3) (\<lambda>_. ret ()))))"

subsection \<open>Functions and structs\<close>

definition eval_func_declare :: "func_val \<Rightarrow> nat lang" where
  "eval_func_declare f = andThen empty_token (\<lambda>e.
     andThen (mk_function_call (f_type f) (f_type_name f) (f_array_type f) (f_formal_param f) e (f_node f)) (\<lambda>c.
       andThen get_var_table (\<lambda>t. andThen (value_of (f_name f)) (\<lambda>s.
         andThen (insert_var t s c) (\<lambda>_. empty_token)))))"

text \<open>
  The parameters are stored in whatever the name stands for. In the nodes a variable or a struct
  definition consists of, the place lies behind the members in use.
\<close>

definition set_actual_param :: "nat \<Rightarrow> nat \<Rightarrow> unit lang" where
  "set_actual_param c p = andThen (readN c) (\<lambda>n. case func_of n of
       Some f \<Rightarrow> writeN c (FuncCallN (f\<lparr>f_actual_param := Val p\<rparr>))
     | None \<Rightarrow> if node_type n \<in> {INT_TYPE, DOUBLE_TYPE, STRING_TYPE, VAR_ADT_TYPE, ARRAY_TYPE, ADT_TYPE}
         then ret () else stop Bad_member)"

definition eval_func_ref :: "(nat \<Rightarrow> nat lang) \<Rightarrow> str \<Rightarrow> nat \<Rightarrow> nat lang" where
  "eval_func_ref ev s p = andThen get_var_table (\<lambda>t. andThen (lookup t s) (\<lambda>r. case r of
       None \<Rightarrow> empty_token
     | Some c \<Rightarrow> andThen (set_actual_param c p) (\<lambda>_. ev c)))"

text \<open>The node for the result of a call, in the scope of the caller.\<close>

definition make_result :: "dsl_env \<Rightarrow> func_val \<Rightarrow> nat option lang" where
  "make_result E f = (if f_type f = VOID_TYPE then ret None
     else andThen (ASTCreate_ps E (f_type f) (f_type_name f) (Val (f_array_type f)) 0) (\<lambda>a. ret (Some a)))"

definition eval_actuals :: "(nat \<Rightarrow> nat lang) \<Rightarrow> func_val \<Rightarrow> nat list lang" where
  "eval_actuals ev f = andThen (value_of (f_actual_param f)) (\<lambda>p. andThen (readN p) (\<lambda>n. case sep_of n of
       Some es \<Rightarrow> mapEach ev es | None \<Rightarrow> ret []))"

text \<open>The body, in its own scope; afterwards its result is copied out.\<close>

definition run_body :: "dsl_env \<Rightarrow> (nat \<Rightarrow> nat lang) \<Rightarrow> func_val \<Rightarrow> nat option \<Rightarrow> nat \<Rightarrow> nat list \<Rightarrow> nat lang" where
  "run_body E ev f tmp old actual =
     andThen (case tmp of None \<Rightarrow> ret None
       | Some _ \<Rightarrow> andThen (variable_create E (f_type f) (f_type_name f) (Val (f_array_type f)) 0
           return_string False) (\<lambda>a. ret (Some a))) (\<lambda>returnNode.
     andThen (param_list_assign E (f_formal_param f) actual) (\<lambda>r.
     andThen (if r = - 1 then empty_token else ev (f_node f)) (\<lambda>x.
     andThen (case (tmp, returnNode) of (Some a, Some b) \<Rightarrow> updateADT (e_stack E) old a b | _ \<Rightarrow> ret 0)
       (\<lambda>_. ret x))))"

definition eval_func_call :: "dsl_env \<Rightarrow> (nat \<Rightarrow> nat lang) \<Rightarrow> func_val \<Rightarrow> nat lang" where
  "eval_func_call E ev f = andThen (make_result E f) (\<lambda>tmp. andThen (eval_actuals ev f) (\<lambda>actual.
     andThen new_var_table (\<lambda>(r, old). if r = - 1 \<or> old = Null then empty_token
       else andThen (value_of old) (\<lambda>old.
       andThen (run_body E ev f tmp old actual) (\<lambda>x.
       andThen remove_var_table (\<lambda>r. if r = - 1 then empty_token
         else andThen (readN x) (\<lambda>n.
           if node_type n = CONTINUE_TYPE \<or> node_type n = BREAK_TYPE then empty_token
           else case tmp of Some a \<Rightarrow> ret a | None \<Rightarrow> empty_token)))))))"

definition eval_return :: "dsl_env \<Rightarrow> (nat \<Rightarrow> nat lang) \<Rightarrow> nat \<Rightarrow> nat \<Rightarrow> nat lang" where
  "eval_return E ev a u = andThen (ev u) (\<lambda>x. andThen (is_empty x) (\<lambda>e.
     if e then ret a else andThen (variable_assign E return_string x) (\<lambda>_. ret a)))"

definition eval_def_adt :: "nat \<Rightarrow> str \<Rightarrow> nat \<Rightarrow> nat lang" where
  "eval_def_adt a s p = andThen (writeN a (AdtN s p)) (\<lambda>_. andThen get_var_table (\<lambda>t.
     andThen (insert_var t s a) (\<lambda>_. empty_token)))"

subsection \<open>Remote calls\<close>

definition dest_field :: "(str, nat) smap \<Rightarrow> str \<Rightarrow> u32 lang" where
  "dest_field m s = (case sm_find m s of None \<Rightarrow> stop Uninit | Some x \<Rightarrow> readAs int_of x)"

definition eval_rpc :: "dsl_env \<Rightarrow> (nat \<Rightarrow> nat lang) \<Rightarrow> nat \<Rightarrow> str \<Rightarrow> nat \<Rightarrow> nat lang" where
  "eval_rpc E ev dest s param = andThen (ev dest) (\<lambda>d. with_member struct_of d (\<lambda>(tn, m).
     if tn \<noteq> node_name then empty_token
     else andThen (dest_field m addr_field) (\<lambda>a. andThen (dest_field m port_field) (\<lambda>p.
       andThen (dest_field m rendvAddr_field) (\<lambda>ra. andThen (dest_field m rendvPort_field) (\<lambda>rp.
       andThen (readN param) (\<lambda>n.
       andThen (case sep_of n of Some es \<Rightarrow> mapEach ev es | None \<Rightarrow> ret []) (\<lambda>actual.
       andThen (if actual = [] then empty_token else mk_sep_list_vector actual) (\<lambda>sep_node.
         e_rpc E \<lparr>addr = a, port = ucast p, addrRendv = ra, portRendv = rp\<rparr> s sep_node)))))))))"

subsection \<open>The evaluator\<close>

primrec await :: "dsl_env \<Rightarrow> nat \<Rightarrow> unit lang" where
  "await E 0 = stop Long"
| "await E (Suc k) = andThen (gets evalCount) (\<lambda>c. if c = 0
     then andThen (set_parser_state PS_READY) (\<lambda>_. andThen (e_yield E) (\<lambda>_. await E k)) else ret ())"

definition use_instruction :: "dsl_env \<Rightarrow> unit lang" where
  "use_instruction E = andThen (gets evalCount) (\<lambda>c. if c = - 1 then ret ()
     else andThen (await E (e_loops E)) (\<lambda>_. decrementEvalCount))"

definition eval_node :: "dsl_env \<Rightarrow> (nat \<Rightarrow> nat lang) \<Rightarrow> nat \<Rightarrow> ASTNode \<Rightarrow> nat lang" where
  "eval_node E ev a n = (case n of
       EmptyN \<Rightarrow> empty_token
     | IntN _ \<Rightarrow> ret a
     | DoubleN _ \<Rightarrow> ret a
     | VoidN \<Rightarrow> ret a
     | VarAdtN _ _ \<Rightarrow> ret a
     | ArrayN _ _ _ _ \<Rightarrow> ret a
     | StringN _ \<Rightarrow> ret a
     | NewVarN d \<Rightarrow> eval_new_var E ev d
     | NewVarAssignN d b \<Rightarrow> eval_new_var_assign E ev d b
     | RefVarN s \<Rightarrow> eval_ref_var s
     | RefVarArrayN x i \<Rightarrow> eval_ref_array ev x i
     | RefVarAdtN x s \<Rightarrow> eval_ref_adt ev x s
     | SepN _ \<Rightarrow> empty_token
     | AstN l r \<Rightarrow> eval_seq ev l r
     | ContextN u \<Rightarrow> eval_context ev u
     | PrintN u \<Rightarrow> eval_print ev u
     | PrintlnN u \<Rightarrow> eval_print ev u
     | UnaryN op u \<Rightarrow> eval_unary E ev op u
     | BinN op l r \<Rightarrow> eval_bin E ev op l r
     | AssignAdtN l r \<Rightarrow> eval_assign E ev l r
     | RpcN d s p \<Rightarrow> eval_rpc E ev d s p
     | IfN c l r \<Rightarrow> eval_if ev c l r
     | LoopN c b \<Rightarrow> eval_loop E ev c b
     | ForLoopN n1 n2 n3 n4 \<Rightarrow> eval_for_loop E ev n1 n2 n3 n4
     | BreakN \<Rightarrow> ret a
     | ContinueN \<Rightarrow> ret a
     | FuncDeclareN f \<Rightarrow> eval_func_declare f
     | FuncRefN s p \<Rightarrow> eval_func_ref ev s p
     | FuncCallN f \<Rightarrow> eval_func_call E ev f
     | ReturnN u \<Rightarrow> eval_return E ev a u
     | DefAdtN s p \<Rightarrow> eval_def_adt a s p
     | AdtN _ _ \<Rightarrow> empty_token
     | NativeFuncN f p1 p2 p3 \<Rightarrow> evalNativeFunctions E ev f p1 p2 p3)"

primrec eval_ast :: "dsl_env \<Rightarrow> nat \<Rightarrow> nat \<Rightarrow> nat lang" where
  "eval_ast E 0 a = empty_token"
| "eval_ast E (Suc d) a = andThen (use_instruction E) (\<lambda>_. andThen (set_parser_state PS_RUNNING) (\<lambda>_.
     andThen (readN a) (eval_node E (eval_ast E d) a)))"

definition eval_top :: "dsl_env \<Rightarrow> nat \<Rightarrow> nat lang" where
  "eval_top E = eval_ast E (Suc MAX_RECURSE_COUNT)"

subsection \<open>Running a program\<close>

primrec sep_of_vars :: "nat \<Rightarrow> nat lang list \<Rightarrow> unit lang" where
  "sep_of_vars a [] = ret ()"
| "sep_of_vars a (m # ms) = andThen m (\<lambda>v. andThen (sep_push a v) (\<lambda>_. sep_of_vars a ms))"

definition ident_fields :: "nat lang list" where
  "ident_fields = map (mk_new_var INT_TYPE) [port_field, rendvAddr_field, rendvPort_field]"

definition addGlobalStruct :: "dsl_env \<Rightarrow> str \<Rightarrow> nat lang list \<Rightarrow> unit lang" where
  "addGlobalStruct E s more_fields = andThen (mk_new_var INT_TYPE addr_field) (\<lambda>v.
     andThen (mk_sep_list v) (\<lambda>fs. andThen (sep_of_vars fs (ident_fields @ more_fields)) (\<lambda>_.
       andThen (mk_adt s fs) (\<lambda>a. andThen (eval_top E a) (\<lambda>_. ret ())))))"

definition addGlobalModule :: "dsl_env \<Rightarrow> unit lang" where
  "addGlobalModule E = andThen (addGlobalStruct E node_name []) (\<lambda>_.
     addGlobalStruct E measurement_name
       [andThen (mk_int 0) (mk_new_var_array DOUBLE_TYPE distance_field)])"

definition jmp_eval :: "dsl_env \<Rightarrow> unit lang" where
  "jmp_eval E = andThen (allocateEvalCount (- 1)) (\<lambda>_. andThen (addGlobalModule E) (\<lambda>_.
     andThen (gets start_node) (\<lambda>s. andThen (eval_top E s) (\<lambda>_.
     andThen get_var_table (\<lambda>t. andThen (gets func_string) (\<lambda>f. andThen (lookup t f) (\<lambda>r.
     andThen (case r of None \<Rightarrow> ret ()
       | Some main_node \<Rightarrow> andThen (gets param_node) (\<lambda>p.
           andThen (set_actual_param main_node p) (\<lambda>_.
           andThen (allocateEvalCount 10000) (\<lambda>_.
           andThen (eval_top E main_node) setQueryReturn)))) (\<lambda>_.
       set_parser_state PS_DONE))))))))"

end
