(* ===== verification/Lang_Logic.thy ===== *)
theory Lang_Logic
  imports Lang_Eval
begin

text \<open>
  The logic in which the interpreter is shown memory safe. \<open>lang_ok\<close> is the invariant: every node
  belongs to exactly one live table, and points only to nodes of the same or an outer scope, so that
  leaving a scope frees nothing anybody still refers to. \<open>ext\<close> relates the states before and after
  an operation: the scopes are the same, no node is gone and none has changed its type.
  \<open>runs m Q ps\<close>: run from \<open>ps\<close>, \<open>m\<close> does not touch freed memory, and if it ends, it keeps the
  invariant, extends the state and satisfies \<open>Q\<close>.
\<close>

subsection \<open>The invariant\<close>

definition owner :: "ParserState \<Rightarrow> nat \<Rightarrow> nat \<Rightarrow> bool" where
  "owner ps a t \<longleftrightarrow> (\<exists>vt. tables ps t = Some vt \<and> a \<in> set (v_stack_ast vt))"

definition live :: "ParserState \<Rightarrow> nat \<Rightarrow> bool" where
  "live ps a \<longleftrightarrow> (\<exists>t. owner ps a t)"

definition inside :: "ParserState \<Rightarrow> nat \<Rightarrow> nat \<Rightarrow> bool" where
  "inside ps t a \<longleftrightarrow> (\<exists>t' \<le> t. owner ps a t')"

definition scope0 :: "ParserState \<Rightarrow> nat" where "scope0 ps = hd (var_table ps)"
definition scope :: "ParserState \<Rightarrow> nat" where "scope ps = last (var_table ps)"

definition refs :: "ASTNode \<Rightarrow> nat set" where
  "refs n = (case n of
       NewVarN d \<Rightarrow> set_member (v_array_size d)
     | NewVarAssignN d b \<Rightarrow> {b} \<union> set_member (v_array_size d)
     | RefVarAdtN a s \<Rightarrow> {a}
     | RefVarArrayN a b \<Rightarrow> {a, b}
     | AstN a b \<Rightarrow> {a, b}
     | SepN vec \<Rightarrow> set vec
     | FuncDeclareN f \<Rightarrow> {f_formal_param f, f_node f}
     | FuncCallN f \<Rightarrow> {f_formal_param f, f_node f} \<union> set_member (f_actual_param f)
     | FuncRefN s a \<Rightarrow> {a}
     | PrintN a \<Rightarrow> {a}
     | PrintlnN a \<Rightarrow> {a}
     | UnaryN op a \<Rightarrow> {a}
     | BinN op a b \<Rightarrow> {a, b}
     | AssignAdtN a b \<Rightarrow> {a, b}
     | IfN a b c \<Rightarrow> {a, b, c}
     | LoopN a b \<Rightarrow> {a, b}
     | ForLoopN a b c d \<Rightarrow> {a, b, c, d}
     | ContextN a \<Rightarrow> {a}
     | ReturnN a \<Rightarrow> {a}
     | DefAdtN s p \<Rightarrow> {p}
     | AdtN s p \<Rightarrow> {p}
     | VarAdtN s m \<Rightarrow> snd ` set m
     | ArrayN ty nm vec tb \<Rightarrow> set vec
     | RpcN a s b \<Rightarrow> {a, b}
     | NativeFuncN f p1 p2 p3 \<Rightarrow> set_member p1 \<union> set_member p2 \<union> set_member p3
     | _ \<Rightarrow> {})"

text \<open>Statements end in the empty node or a jump; jumps and calls stand in the program itself.\<close>

definition block_types :: "ASTType set" where
  "block_types = {EMPTY_TYPE, AST_TYPE, CONTEXT_TYPE, IF_TYPE, LOOP_TYPE, FOR_LOOP_TYPE}"

definition code_types :: "ASTType set" where
  "code_types = {RETURN_TYPE, BREAK_TYPE, CONTINUE_TYPE, FUNC_REF_TYPE}"

definition block :: "ParserState \<Rightarrow> nat \<Rightarrow> bool" where
  "block ps a \<longleftrightarrow> (\<exists>n. heap ps a = Some (Some n) \<and> node_type n \<in> block_types)"

definition bodies :: "ASTNode \<Rightarrow> nat set" where
  "bodies n = (case n of ContextN u \<Rightarrow> {u} | FuncCallN f \<Rightarrow> {f_node f} | FuncDeclareN f \<Rightarrow> {f_node f}
     | _ \<Rightarrow> {})"

definition home :: "ASTNode \<Rightarrow> nat set" where
  "home n = (case n of ArrayN ty nm vec tb \<Rightarrow> set_member tb | _ \<Rightarrow> {})"

text \<open>The entries of a struct or an array belong to the same table as the node itself.\<close>

definition parts :: "ASTNode \<Rightarrow> nat set" where
  "parts n = (case n of VarAdtN s m \<Rightarrow> snd ` set m | ArrayN ty nm vec tb \<Rightarrow> set vec | _ \<Rightarrow> {})"

definition node_ok :: "ParserState \<Rightarrow> nat \<Rightarrow> ASTNode \<Rightarrow> bool" where
  "node_ok ps t n \<longleftrightarrow> (\<forall>c \<in> refs n. inside ps t c) \<and> home n \<subseteq> {t} \<and>
     (node_type n \<in> code_types \<longrightarrow> t = scope0 ps) \<and> (\<forall>u \<in> bodies n. block ps u) \<and>
     (\<forall>c \<in> parts n. owner ps c t)"

definition vt_ok :: "ParserState \<Rightarrow> nat \<Rightarrow> VarTable \<Rightarrow> bool" where
  "vt_ok ps t vt \<longleftrightarrow> distinct (v_stack_ast vt) \<and>
     (\<forall>p. prev_var_table vt = Some p \<longrightarrow> p < t \<and> p \<in> set (var_table ps)) \<and>
     (\<forall>e \<in> set (v_map vt). inside ps t (snd e))"

definition scopes_ok :: "ParserState \<Rightarrow> bool" where
  "scopes_ok ps \<longleftrightarrow> var_table ps \<noteq> [] \<and> sorted_wrt (<) (var_table ps) \<and>
     (\<forall>t. tables ps t \<noteq> None \<longleftrightarrow> t \<in> set (var_table ps)) \<and>
     (\<forall>t \<in> set (var_table ps). t < next_table ps)"

definition memory_ok :: "ParserState \<Rightarrow> bool" where
  "memory_ok ps \<longleftrightarrow> (\<forall>a. heap ps a \<noteq> None \<longleftrightarrow> live ps a) \<and>
     (\<forall>a t t'. owner ps a t \<longrightarrow> owner ps a t' \<longrightarrow> t = t') \<and>
     (\<forall>a. heap ps a \<noteq> None \<longrightarrow> a < next_node ps) \<and>
     int (card (dom (heap ps))) \<le> ASTAllocationCount ps \<and>
     int (card (dom (heap ps))) \<le> MAX_AST_PER_STACK"

definition lang_ok :: "ParserState \<Rightarrow> bool" where
  "lang_ok ps \<longleftrightarrow> scopes_ok ps \<and> memory_ok ps \<and>
     (\<forall>t vt. tables ps t = Some vt \<longrightarrow> vt_ok ps t vt) \<and>
     (\<forall>a n t. heap ps a = Some (Some n) \<longrightarrow> owner ps a t \<longrightarrow> node_ok ps t n) \<and>
     heap ps (empty_node ps) = Some (Some EmptyN) \<and>
     (\<forall>a \<in> {empty_node ps, param_node ps, start_node ps}. owner ps a (scope0 ps))"

subsection \<open>Extension\<close>

definition same_kind :: "ASTNode \<Rightarrow> ASTNode \<Rightarrow> bool" where
  "same_kind n n' \<longleftrightarrow> node_type n' = node_type n \<or>
     (node_type n = DEF_ADT_TYPE \<and> node_type n' = ADT_TYPE)"

definition ext :: "ParserState \<Rightarrow> ParserState \<Rightarrow> bool" where
  "ext ps ps' \<longleftrightarrow> var_table ps' = var_table ps \<and> next_node ps \<le> next_node ps' \<and>
     next_table ps \<le> next_table ps' \<and>
     (\<forall>a t. owner ps a t \<longrightarrow> owner ps' a t) \<and>
     (\<forall>a n. heap ps a = Some (Some n) \<longrightarrow> (\<exists>n'. heap ps' a = Some (Some n') \<and> same_kind n n')) \<and>
     empty_node ps' = empty_node ps \<and> param_node ps' = param_node ps \<and>
     start_node ps' = start_node ps"

lemma same_kind_refl [simp]: "same_kind n n"
  by (simp add: same_kind_def)

lemma same_kind_trans: "same_kind a b \<Longrightarrow> same_kind b c \<Longrightarrow> same_kind a c"
  by (auto simp: same_kind_def)

lemma ext_refl [simp]: "ext ps ps"
  by (auto simp: ext_def)

lemma ext_trans:
  assumes "ext a b" "ext b c"
  shows "ext a c"
proof -
  have "\<exists>n'. heap c x = Some (Some n') \<and> same_kind n n'" if "heap a x = Some (Some n)" for x n
    using assms that unfolding ext_def by (meson same_kind_trans)
  then show ?thesis using assms unfolding ext_def by auto
qed

lemma ext_sel:
  assumes "ext ps ps'"
  shows "var_table ps' = var_table ps" "scope0 ps' = scope0 ps" "scope ps' = scope ps"
    "empty_node ps' = empty_node ps" "param_node ps' = param_node ps" "start_node ps' = start_node ps"
  using assms by (simp_all add: ext_def scope0_def scope_def)

lemma ext_owner: "ext ps ps' \<Longrightarrow> owner ps a t \<Longrightarrow> owner ps' a t"
  by (simp add: ext_def)

lemma ext_under: "ext ps ps' \<Longrightarrow> inside ps t a \<Longrightarrow> inside ps' t a"
  by (auto simp: inside_def ext_def)

lemma ext_live: "ext ps ps' \<Longrightarrow> live ps a \<Longrightarrow> live ps' a"
  by (auto simp: live_def ext_def)

lemma ext_heap: "ext ps ps' \<Longrightarrow> heap ps a = Some (Some n) \<Longrightarrow>
    \<exists>n'. heap ps' a = Some (Some n') \<and> same_kind n n'"
  by (simp add: ext_def)

lemma ext_block: "ext ps ps' \<Longrightarrow> block ps a \<Longrightarrow> block ps' a"
  unfolding block_def by (force dest: ext_heap simp: same_kind_def block_types_def)

lemma ext_node_ok: "ext ps ps' \<Longrightarrow> node_ok ps t n \<Longrightarrow> node_ok ps' t n"
  by (auto simp: node_ok_def ext_sel intro: ext_under ext_block ext_owner)

lemma ext_vt_ok: "ext ps ps' \<Longrightarrow> vt_ok ps t vt \<Longrightarrow> vt_ok ps' t vt"
  by (auto simp: vt_ok_def ext_sel intro: ext_under)

lemmas ext_intros = ext_owner ext_under ext_live ext_block ext_node_ok

subsection \<open>Facts about well-formed states\<close>

lemma lang_okD:
  assumes "lang_ok ps"
  shows "scopes_ok ps" "memory_ok ps" "heap ps (empty_node ps) = Some (Some EmptyN)"
    "owner ps (empty_node ps) (scope0 ps)" "owner ps (param_node ps) (scope0 ps)"
    "owner ps (start_node ps) (scope0 ps)"
    "tables ps t = Some vt \<Longrightarrow> vt_ok ps t vt"
    "heap ps a = Some (Some n) \<Longrightarrow> owner ps a u \<Longrightarrow> node_ok ps u n"
  using assms unfolding lang_ok_def by auto

lemma owner_live: "owner ps a t \<Longrightarrow> live ps a"
  by (auto simp: live_def)

lemma under_live: "inside ps t a \<Longrightarrow> live ps a"
  by (auto simp: inside_def live_def)

lemma owner_under: "owner ps a t \<Longrightarrow> t \<le> t' \<Longrightarrow> inside ps t' a"
  by (auto simp: inside_def)

lemma live_heap: "lang_ok ps \<Longrightarrow> live ps a \<longleftrightarrow> heap ps a \<noteq> None"
  by (simp add: lang_ok_def memory_ok_def)

lemma owner_unique: "lang_ok ps \<Longrightarrow> owner ps a t \<Longrightarrow> owner ps a t' \<Longrightarrow> t = t'"
  unfolding lang_ok_def memory_ok_def by blast

lemma owner_scope:
  assumes "lang_ok ps" "owner ps a t"
  shows "t \<in> set (var_table ps)"
  using assms by (auto simp: owner_def lang_ok_def scopes_ok_def)

lemma sorted_wrt_last: "sorted_wrt (<) xs \<Longrightarrow> x \<in> set xs \<Longrightarrow> x \<le> last (xs :: nat list)"
  by (induction xs) (auto simp: less_imp_le)

lemma sorted_wrt_hd: "sorted_wrt (<) xs \<Longrightarrow> x \<in> set xs \<Longrightarrow> hd xs \<le> (x :: nat)"
  by (cases xs) auto

lemma scope_ge: "lang_ok ps \<Longrightarrow> t \<in> set (var_table ps) \<Longrightarrow> t \<le> scope ps"
  by (simp add: lang_ok_def scopes_ok_def scope_def sorted_wrt_last)

lemma scope0_le: "lang_ok ps \<Longrightarrow> t \<in> set (var_table ps) \<Longrightarrow> scope0 ps \<le> t"
  by (simp add: lang_ok_def scopes_ok_def scope0_def sorted_wrt_hd)

lemma scope_in: "lang_ok ps \<Longrightarrow> scope ps \<in> set (var_table ps)"
  and scope0_in: "lang_ok ps \<Longrightarrow> scope0 ps \<in> set (var_table ps)"
  by (simp_all add: lang_ok_def scopes_ok_def scope_def scope0_def)

lemma live_under: "lang_ok ps \<Longrightarrow> live ps a \<Longrightarrow> inside ps (scope ps) a"
  unfolding live_def inside_def using owner_scope scope_ge by blast

lemma global_under: "lang_ok ps \<Longrightarrow> owner ps a (scope0 ps) \<Longrightarrow> t \<in> set (var_table ps) \<Longrightarrow> inside ps t a"
  by (auto intro: owner_under scope0_le)

lemma table_of: "lang_ok ps \<Longrightarrow> t \<in> set (var_table ps) \<Longrightarrow> \<exists>vt. tables ps t = Some vt"
  by (auto simp: lang_ok_def scopes_ok_def)

lemma node_at_ok:
  assumes "lang_ok ps" "heap ps a = Some (Some n)"
  obtains t where "owner ps a t" "node_ok ps t n"
proof -
  have "live ps a" using assms by (simp add: live_heap)
  then obtain t where "owner ps a t" by (auto simp: live_def)
  with assms that show thesis by (blast dest: lang_okD(8))
qed

lemma refs_live:
  assumes "lang_ok ps" "heap ps a = Some (Some n)" "c \<in> refs n"
  shows "live ps c"
  using node_at_ok [OF assms(1,2)] assms(3) by (metis node_ok_def under_live)

subsection \<open>Running an operation\<close>

definition runs :: "'a lang \<Rightarrow> ('a \<Rightarrow> ParserState \<Rightarrow> bool) \<Rightarrow> ParserState \<Rightarrow> bool" where
  "runs m Q ps \<longleftrightarrow> (case m ps of Inl f \<Rightarrow> f \<noteq> Dangling
     | Inr (x, ps') \<Rightarrow> lang_ok ps' \<and> ext ps ps' \<and> Q x ps')"

lemma good_bind:
  assumes "runs m Q ps"
    and "\<And>x ps'. lang_ok ps' \<Longrightarrow> ext ps ps' \<Longrightarrow> Q x ps' \<Longrightarrow> runs (k x) R ps'"
  shows "runs (andThen m k) R ps"
proof (cases "m ps")
  case (Inl f)
  then show ?thesis using assms(1) by (simp add: runs_def andThen_def)
next
  case (Inr r)
  obtain x ps' where r: "r = (x, ps')" by fastforce
  have ok: "lang_ok ps'" "ext ps ps'" "Q x ps'" using assms(1) Inr r by (simp_all add: runs_def)
  then have "runs (k x) R ps'" by (rule assms(2))
  then show ?thesis
    using Inr r ok(2) by (auto simp: runs_def andThen_def split: sum.splits intro: ext_trans)
qed

lemma good_conseq: "runs m Q ps \<Longrightarrow> (\<And>x ps'. lang_ok ps' \<Longrightarrow> ext ps ps' \<Longrightarrow> Q x ps' \<Longrightarrow> R x ps') \<Longrightarrow> runs m R ps"
  by (auto simp: runs_def split: sum.splits)

lemma good_ret: "lang_ok ps \<Longrightarrow> Q x ps \<Longrightarrow> runs (ret x) Q ps"
  by (simp add: runs_def ret_def)

lemma good_stop: "f \<noteq> Dangling \<Longrightarrow> runs (stop f) Q ps"
  by (simp add: runs_def stop_def)

lemma good_gets: "lang_ok ps \<Longrightarrow> runs (gets g) (\<lambda>x ps'. x = g ps \<and> ps' = ps) ps"
  by (simp add: runs_def gets_def)

lemma good_readN: "lang_ok ps \<Longrightarrow> live ps a \<Longrightarrow> runs (readN a) (\<lambda>n ps'. ps' = ps \<and> heap ps a = Some (Some n)) ps"
  by (auto simp: runs_def readN_def live_heap split: option.split)

lemma good_need: "lang_ok ps \<Longrightarrow> runs (need m) (\<lambda>x ps'. ps' = ps \<and> m = Some x) ps"
  by (auto simp: runs_def need_def ret_def stop_def split: option.split)

lemma good_value_of: "lang_ok ps \<Longrightarrow> runs (value_of m) (\<lambda>x ps'. ps' = ps \<and> m = Val x) ps"
  by (auto simp: runs_def value_of_def ret_def stop_def split: member.split)

lemma good_empty_token: "lang_ok ps \<Longrightarrow> runs empty_token (\<lambda>x ps'. ps' = ps \<and> x = empty_node ps) ps"
  by (simp add: runs_def empty_token_def gets_def)

lemma good_get_var_table: "lang_ok ps \<Longrightarrow> runs get_var_table (\<lambda>x ps'. ps' = ps \<and> x = scope ps) ps"
  by (auto simp: runs_def get_var_table_def scope_def)

lemma good_tableAt:
  assumes "lang_ok ps" "t \<in> set (var_table ps)"
  shows "runs (tableAt t) (\<lambda>vt ps'. ps' = ps \<and> tables ps t = Some vt) ps"
  using table_of [OF assms] assms(1) by (auto simp: runs_def tableAt_def)

lemma good_readAs:
  assumes "lang_ok ps" "live ps a"
  shows "runs (readAs f a) (\<lambda>x ps'. ps' = ps \<and> (\<exists>n. heap ps a = Some (Some n) \<and> f n = Some x)) ps"
  unfolding readAs_def using assms
  by (auto intro!: good_bind [OF good_readN] intro: good_conseq [OF good_need])

subsection \<open>Changing the state\<close>

text \<open>A change of the fields the invariant does not speak of.\<close>

lemma lang_ok_cong:
  assumes "heap ps' = heap ps" "next_node ps' = next_node ps" "tables ps' = tables ps"
    "next_table ps' = next_table ps" "var_table ps' = var_table ps"
    "ASTAllocationCount ps' = ASTAllocationCount ps" "empty_node ps' = empty_node ps"
    "param_node ps' = param_node ps" "start_node ps' = start_node ps"
  shows "lang_ok ps' = lang_ok ps" "ext ps ps'"
proof -
  have o: "owner ps' = owner ps" by (intro ext) (simp add: owner_def assms)
  have b: "block ps' = block ps" by (intro ext) (simp add: block_def assms)
  have u: "inside ps' = inside ps" by (intro ext) (simp add: inside_def o)
  have n: "node_ok ps' = node_ok ps" by (intro ext) (simp add: node_ok_def u b o scope0_def assms)
  have t: "vt_ok ps' = vt_ok ps" by (intro ext) (simp add: vt_ok_def u assms)
  show "lang_ok ps' = lang_ok ps"
    by (simp add: lang_ok_def scopes_ok_def memory_ok_def live_def scope0_def o n t assms)
  show "ext ps ps'" by (simp add: ext_def o assms)
qed

lemma good_modify:
  assumes "lang_ok ps" "heap (g ps) = heap ps" "next_node (g ps) = next_node ps"
    "tables (g ps) = tables ps" "next_table (g ps) = next_table ps" "var_table (g ps) = var_table ps"
    "ASTAllocationCount (g ps) = ASTAllocationCount ps" "empty_node (g ps) = empty_node ps"
    "param_node (g ps) = param_node ps" "start_node (g ps) = start_node ps"
  shows "runs (modify g) (\<lambda>_ ps'. ps' = g ps) ps"
  using lang_ok_cong [OF assms(2-)] assms(1) by (simp add: runs_def modify_def)

lemma write_ok:
  assumes "lang_ok ps" "owner ps a t" "node_ok ps t n"
    and "\<And>m. heap ps a = Some (Some m) \<Longrightarrow> same_kind m n"
  defines "ps' \<equiv> ps\<lparr>heap := (heap ps)(a := Some (Some n))\<rparr>"
  shows "lang_ok ps' \<and> ext ps ps'"
proof -
  have o: "owner ps' = owner ps" by (intro HOL.ext) (simp add: owner_def ps'_def)
  have e: "ext ps ps'" using assms(4) unfolding ext_def o by (auto simp: ps'_def)
  have live: "heap ps a \<noteq> None" using assms(1,2) owner_live live_heap by blast
  then have dom: "dom (heap ps') = dom (heap ps)" by (auto simp: ps'_def)
  have h: "heap ps' x = None \<longleftrightarrow> heap ps x = None" for x using live by (auto simp: ps'_def)
  have emp: "a \<noteq> empty_node ps \<or> n = EmptyN"
  proof (cases "a = empty_node ps")
    case True
    then have "same_kind EmptyN n" using assms(1,4) by (simp add: lang_ok_def)
    then show ?thesis by (cases n) (simp_all add: same_kind_def)
  qed simp
  have "node_ok ps' u m" if "heap ps' b = Some (Some m)" "owner ps' b u" for b u m
  proof (cases "b = a")
    case True
    then have "m = n" "u = t"
      using that assms(1,2) owner_unique o by (auto simp: ps'_def)
    then show ?thesis using ext_node_ok [OF e] assms(3) by simp
  next
    case False
    then show ?thesis
      using that ext_node_ok [OF e] lang_okD(8) [OF assms(1)] o by (simp add: ps'_def)
  qed
  moreover have "vt_ok ps' u vt" if "tables ps' u = Some vt" for u vt
    using that ext_vt_ok [OF e] lang_okD(7) [OF assms(1)] by (simp add: ps'_def)
  moreover have "scopes_ok ps'" using assms(1) by (simp add: lang_ok_def scopes_ok_def ps'_def)
  moreover have "memory_ok ps'"
    using lang_okD(2) [OF assms(1)] by (simp add: memory_ok_def dom h live_def o) (simp add: ps'_def)
  ultimately show ?thesis
    using assms(1) emp e unfolding lang_ok_def o
    by (auto simp: ps'_def scope0_def)
qed

lemma good_writeN:
  assumes "lang_ok ps" "owner ps a t" "node_ok ps t n"
    and "\<And>m. heap ps a = Some (Some m) \<Longrightarrow> same_kind m n"
  shows "runs (writeN a n) (\<lambda>_ ps'. heap ps' a = Some (Some n)) ps"
proof -
  have "heap ps a \<noteq> None" using assms(1,2) owner_live live_heap by blast
  then show ?thesis
    using write_ok [OF assms] by (auto simp: runs_def writeN_def split: option.split)
qed

end
