(* ===== verification/Lang_Memory.thy ===== *)
theory Lang_Memory
  imports Lang_Logic
begin

text \<open>
  The operations of MQLState in the logic: allocation, the symbol tables, and entering and leaving a
  scope. Leaving frees the nodes of the innermost table only, and nothing else points to them.
\<close>

lemma under_mono: "inside ps t a \<Longrightarrow> t \<le> t' \<Longrightarrow> inside ps t' a"
  unfolding inside_def using order_trans by blast

subsection \<open>Allocating\<close>

lemma alloc_ok:
  assumes "lang_ok ps" "tables ps t = Some vt" "ASTAllocationCount ps + 1 \<le> MAX_AST_PER_STACK"
  defines "a \<equiv> next_node ps"
  defines "ps' \<equiv> ps\<lparr>ASTAllocationCount := ASTAllocationCount ps + 1, heap := (heap ps)(a := Some None),
     next_node := Suc a, tables := (tables ps)(t := Some (vt\<lparr>v_stack_ast := v_stack_ast vt @ [a]\<rparr>))\<rparr>"
  shows "lang_ok ps'" "ext ps ps'" "owner ps' a t"
proof -
  have "\<forall>b. heap ps b \<noteq> None \<longrightarrow> b < next_node ps"
    using lang_okD(2) [OF assms(1)] by (simp add: memory_ok_def)
  then have no: "heap ps a = None" unfolding a_def by blast
  then have no_live: "\<not> live ps a" using live_heap [OF assms(1)] by simp
  have o: "owner ps' b u \<longleftrightarrow> owner ps b u \<or> (b = a \<and> u = t)" for b u
    using assms(2) by (auto simp: owner_def ps'_def)
  show own: "owner ps' a t" by (simp add: o)
  have not_own: "\<not> owner ps a u" for u using no_live by (auto simp: live_def)
  show e: "ext ps ps'"
    using no by (auto simp: ext_def o) (auto simp: ps'_def a_def)
  have dom: "dom (heap ps') = Set.insert a (dom (heap ps))" by (auto simp: ps'_def)
  have "finite (dom (heap ps))"
    by (rule finite_subset [of _ "{..< next_node ps}"])
      (use assms(1) in \<open>auto simp: lang_ok_def memory_ok_def\<close>)
  then have card: "card (dom (heap ps')) = Suc (card (dom (heap ps)))"
    unfolding dom using no by (simp add: domIff)
  have "memory_ok ps'"
    using lang_okD(2) [OF assms(1)] assms(3) not_own
    unfolding memory_ok_def card live_def o
    by (auto simp: ps'_def a_def less_Suc_eq)
  moreover have "scopes_ok ps'"
    using lang_okD(1) [OF assms(1)] assms(2) unfolding scopes_ok_def by (auto simp: ps'_def)
  moreover have "vt_ok ps' u wt" if "tables ps' u = Some wt" for u wt
  proof (cases "u = t")
    case True
    have "a \<notin> set (v_stack_ast vt)" using not_own [of t] assms(2) by (simp add: owner_def)
    moreover have "vt_ok ps' t vt"
      using lang_okD(7) [OF assms(1,2)] ext_vt_ok [OF e] by simp
    ultimately show ?thesis using that True by (auto simp: ps'_def vt_ok_def)
  next
    case False
    then show ?thesis
      using that lang_okD(7) [OF assms(1), of u wt] ext_vt_ok [OF e] by (simp add: ps'_def)
  qed
  moreover have "node_ok ps' u n" if "heap ps' b = Some (Some n)" "owner ps' b u" for b u n
  proof -
    from that(1) have "b \<noteq> a" "heap ps b = Some (Some n)" by (auto simp: ps'_def split: if_splits)
    with that(2) have "node_ok ps u n" using lang_okD(8) [OF assms(1)] by (simp add: o)
    then show ?thesis by (rule ext_node_ok [OF e])
  qed
  moreover have "heap ps' (empty_node ps') = Some (Some EmptyN)"
    using lang_okD(3) [OF assms(1)] no by (auto simp: ps'_def)
  moreover have "owner ps' b (scope0 ps')" if "owner ps b (scope0 ps)" for b
    using that by (simp add: o scope0_def) (simp add: ps'_def)
  ultimately show "lang_ok ps'"
    using lang_okD(4,5,6) [OF assms(1)] unfolding lang_ok_def by (auto simp: ps'_def)
qed

lemma count_ok:
  assumes "lang_ok ps"
  shows "lang_ok (ps\<lparr>ASTAllocationCount := ASTAllocationCount ps + 1\<rparr>)"
    "ext ps (ps\<lparr>ASTAllocationCount := ASTAllocationCount ps + 1\<rparr>)"
proof -
  let ?p = "ps\<lparr>ASTAllocationCount := ASTAllocationCount ps + 1\<rparr>"
  have o: "owner ?p = owner ps" by (intro HOL.ext) (simp add: owner_def)
  show e: "ext ps ?p" by (simp add: ext_def o)
  have n: "node_ok ps t n \<Longrightarrow> node_ok ?p t n" "vt_ok ps t vt \<Longrightarrow> vt_ok ?p t vt" for t n vt
    using e by (auto intro: ext_node_ok ext_vt_ok)
  have "memory_ok ?p" using lang_okD(2) [OF assms] by (simp add: memory_ok_def live_def o)
  then show "lang_ok ?p"
    using assms n unfolding lang_ok_def o by (simp add: scopes_ok_def scope0_def)
qed

lemma good_new_stack_ast:
  assumes "lang_ok ps" "t \<in> set (var_table ps)"
  shows "runs (new_stack_ast t) (\<lambda>r ps'. \<forall>a. r = Some a \<longrightarrow> owner ps' a t \<and> heap ps' a = Some None) ps"
proof -
  obtain vt where vt: "tables ps t = Some vt" using table_of [OF assms] by blast
  show ?thesis
    using count_ok [OF assms(1)] alloc_ok [OF assms(1) vt] vt
    by (simp add: runs_def new_stack_ast_def new_ast_def andThen_def Let_def tableAt_def setTable_def
        modify_def ret_def)
qed

subsection \<open>Symbols\<close>

lemma symbols_ok:
  assumes "lang_ok ps" "tables ps t = Some vt" "\<forall>e \<in> set m. inside ps t (snd e)"
  defines "ps' \<equiv> ps\<lparr>tables := (tables ps)(t := Some (vt\<lparr>v_map := m\<rparr>))\<rparr>"
  shows "lang_ok ps'" "ext ps ps'"
proof -
  have o: "owner ps' = owner ps"
    using assms(2) by (intro HOL.ext) (auto simp: owner_def ps'_def)
  show e: "ext ps ps'" unfolding ext_def o by (simp add: ps'_def)
  have "vt_ok ps' u wt" if "tables ps' u = Some wt" for u wt
  proof (cases "u = t")
    case True
    have "\<forall>e \<in> set m. inside ps' t (snd e)" using assms(3) ext_under [OF e] by blast
    moreover have "vt_ok ps' t vt" by (rule ext_vt_ok [OF e lang_okD(7) [OF assms(1,2)]])
    moreover have "wt = vt\<lparr>v_map := m\<rparr>" "var_table ps' = var_table ps"
      using that True by (simp_all add: ps'_def)
    ultimately show ?thesis using True by (simp add: vt_ok_def)
  next
    case False
    then show ?thesis
      using that ext_vt_ok [OF e] lang_okD(7) [OF assms(1)] by (simp add: ps'_def)
  qed
  moreover have "node_ok ps' u n" if "heap ps' b = Some (Some n)" "owner ps' b u" for b u n
    using that ext_node_ok [OF e] lang_okD(8) [OF assms(1)] unfolding o by (simp add: ps'_def)
  moreover have "memory_ok ps'"
    using lang_okD(2) [OF assms(1)] by (simp add: memory_ok_def live_def o) (simp add: ps'_def)
  moreover have "scopes_ok ps'"
    using lang_okD(1) [OF assms(1)] assms(2) unfolding scopes_ok_def by (auto simp: ps'_def)
  ultimately show "lang_ok ps'"
    using lang_okD(3-6) [OF assms(1)] unfolding lang_ok_def o by (simp add: ps'_def scope0_def)
qed

lemma good_local_lookup:
  assumes "lang_ok ps" "t \<in> set (var_table ps)"
  shows "runs (local_lookup t s) (\<lambda>r ps'. ps' = ps \<and> (\<forall>a. r = Some a \<longrightarrow> inside ps t a)) ps"
  unfolding local_lookup_def
proof (rule good_bind [OF good_tableAt [OF assms]])
  fix vt ps' assume "lang_ok ps'" "ps' = ps \<and> tables ps t = Some vt"
  then show "runs (ret (sm_find (v_map vt) s)) (\<lambda>r ps'. ps' = ps \<and> (\<forall>a. r = Some a \<longrightarrow> inside ps t a)) ps'"
    using lang_okD(7) [OF assms(1), of t vt]
    by (intro good_ret) (auto simp: vt_ok_def dest!: map_of_SomeD)
qed

lemma good_lookup_from:
  assumes "lang_ok ps" "t \<in> set (var_table ps)"
  shows "runs (lookup_from k t s) (\<lambda>r ps'. ps' = ps \<and> (\<forall>a. r = Some a \<longrightarrow> inside ps t a)) ps"
  using assms(2)
proof (induction k arbitrary: t)
  case 0
  then show ?case by (simp add: good_stop)
next
  case (Suc k)
  show ?case unfolding lookup_from.simps
  proof (rule good_bind [OF good_local_lookup [OF assms(1) Suc.prems]])
    fix r ps' assume r: "lang_ok ps'" "ps' = ps \<and> (\<forall>a. r = Some a \<longrightarrow> inside ps t a)"
    show "runs (case r of None \<Rightarrow> andThen (tableAt t) (\<lambda>vt. case prev_var_table vt of None \<Rightarrow> ret None
          | Some p \<Rightarrow> lookup_from k p s) | Some a \<Rightarrow> ret (Some a))
        (\<lambda>r ps'. ps' = ps \<and> (\<forall>a. r = Some a \<longrightarrow> inside ps t a)) ps'"
    proof (cases r)
      case None
      have "runs (case prev_var_table vt of None \<Rightarrow> ret None | Some p \<Rightarrow> lookup_from k p s)
          (\<lambda>r ps'. ps' = ps \<and> (\<forall>a. r = Some a \<longrightarrow> inside ps t a)) ps" if "tables ps t = Some vt" for vt
      proof (cases "prev_var_table vt")
        case (Some p)
        have p: "p < t" "p \<in> set (var_table ps)"
          using lang_okD(7) [OF assms(1) that] Some by (auto simp: vt_ok_def)
        show ?thesis unfolding Some option.case
          by (rule good_conseq [OF Suc.IH [OF p(2)]])
            (use p(1) in \<open>auto intro: under_mono\<close>)
      qed (use assms(1) in \<open>simp add: good_ret\<close>)
      then show ?thesis
        using None r good_tableAt [OF assms(1) Suc.prems] by (auto intro!: good_bind)
    qed (use r in \<open>simp add: good_ret\<close>)
  qed
qed

lemma good_lookup:
  assumes "lang_ok ps" "t \<in> set (var_table ps)"
  shows "runs (lookup t s) (\<lambda>r ps'. ps' = ps \<and> (\<forall>a. r = Some a \<longrightarrow> inside ps t a)) ps"
  unfolding lookup_def
  by (rule good_bind [OF good_gets [OF assms(1)]]) (use good_lookup_from [OF assms] in simp)

lemma sm_upd_snd: "e \<in> set (sm_upd k v m) \<Longrightarrow> e = (k, v) \<or> e \<in> set m"
  by (induction k v m rule: sm_upd.induct) (auto split: if_splits)

lemma good_setMap:
  assumes "lang_ok ps" "tables ps t = Some vt" "\<forall>e \<in> set m. inside ps t (snd e)"
  shows "runs (setTable t (vt\<lparr>v_map := m\<rparr>)) (\<lambda>_ _. True) ps"
  using symbols_ok [OF assms] by (simp add: runs_def setTable_def modify_def)

lemma good_insert_var:
  assumes "lang_ok ps" "t \<in> set (var_table ps)" "inside ps t a"
  shows "runs (insert_var t s a) (\<lambda>_ _. True) ps"
proof -
  have ex: "runs (local_exists t s) (\<lambda>_ ps'. ps' = ps) ps"
    unfolding local_exists_def
    by (rule good_bind [OF good_local_lookup [OF assms(1,2)]]) (simp add: good_ret)
  have "\<forall>e \<in> set (sm_upd s a (v_map vt)). inside ps t (snd e)" if "tables ps t = Some vt" for vt
    using lang_okD(7) [OF assms(1) that] assms(3) by (auto simp: vt_ok_def dest!: sm_upd_snd)
  then have "runs (andThen (tableAt t) (\<lambda>vt. andThen (setTable t (vt\<lparr>v_map := sm_upd s a (v_map vt)\<rparr>))
      (\<lambda>_. ret 0))) (\<lambda>_ _. True) ps"
    by (auto intro!: good_bind [OF good_tableAt [OF assms(1,2)]] good_bind [OF good_setMap [OF assms(1)]]
        good_ret)
  then show ?thesis
    unfolding insert_var_def by (auto intro!: good_bind [OF ex] good_ret)
qed

lemma good_local_remove:
  assumes "lang_ok ps" "t \<in> set (var_table ps)"
  shows "runs (local_remove t s) (\<lambda>_ _. True) ps"
proof -
  have "\<forall>e \<in> set (sm_erase s (v_map vt)). inside ps t (snd e)" if "tables ps t = Some vt" for vt
    using lang_okD(7) [OF assms(1) that] by (auto simp: vt_ok_def sm_erase_def)
  then show ?thesis
    unfolding local_remove_def
    by (auto intro!: good_bind [OF good_tableAt [OF assms]] good_bind [OF good_setMap [OF assms(1)]] good_ret)
qed

subsection \<open>Scopes\<close>

definition entered :: "nat \<Rightarrow> ParserState \<Rightarrow> ParserState" where
  "entered p ps = ps\<lparr>tables := (tables ps)(next_table ps :=
       Some \<lparr>v_map = [], v_stack_ast = [], prev_var_table = Some p\<rparr>),
     var_table := var_table ps @ [next_table ps], next_table := Suc (next_table ps)\<rparr>"

lemma entered_sel [simp]:
  "heap (entered p ps) = heap ps" "next_node (entered p ps) = next_node ps"
  "var_table (entered p ps) = var_table ps @ [next_table ps]"
  "next_table (entered p ps) = Suc (next_table ps)"
  "empty_node (entered p ps) = empty_node ps" "param_node (entered p ps) = param_node ps"
  "start_node (entered p ps) = start_node ps"
  "ASTAllocationCount (entered p ps) = ASTAllocationCount ps"
  by (simp_all add: entered_def)

lemma entered_ok:
  assumes "lang_ok ps" "p \<in> set (var_table ps)"
  shows "lang_ok (entered p ps)" "owner (entered p ps) = owner ps" "scope0 (entered p ps) = scope0 ps"
    "scope (entered p ps) = next_table ps"
proof -
  let ?q = "entered p ps"
  have new: "next_table ps \<notin> set (var_table ps)" "tables ps (next_table ps) = None"
    "\<forall>t \<in> set (var_table ps). t < next_table ps" "var_table ps \<noteq> []"
    using lang_okD(1) [OF assms(1)] unfolding scopes_ok_def by (auto simp: less_irrefl)
  show o: "owner ?q = owner ps"
    using new(2) by (intro HOL.ext) (auto simp: owner_def entered_def)
  show s0: "scope0 ?q = scope0 ps" using new(4) by (simp add: scope0_def)
  show "scope ?q = next_table ps" by (simp add: scope_def)
  have u: "inside ?q = inside ps" by (intro HOL.ext) (simp add: inside_def o)
  have b: "block ?q = block ps" by (intro HOL.ext) (simp add: block_def)
  have n: "node_ok ?q = node_ok ps" by (intro HOL.ext) (simp add: node_ok_def u b o s0)
  have t: "vt_ok ps t vt \<Longrightarrow> vt_ok ?q t vt" for t vt by (auto simp: vt_ok_def u)
  have "vt_ok ?q t vt" if "tables ?q t = Some vt" for t vt
  proof (cases "t = next_table ps")
    case True
    then show ?thesis using that assms(2) new(3) by (auto simp: vt_ok_def) (auto simp: entered_def)
  next
    case False
    then have "tables ps t = Some vt" using that by (simp add: entered_def)
    then show ?thesis using t lang_okD(7) [OF assms(1)] by blast
  qed
  moreover have "scopes_ok ?q"
    using lang_okD(1) [OF assms(1)] new unfolding scopes_ok_def
    by (auto simp: sorted_wrt_append entered_def less_Suc_eq)
  moreover have "memory_ok ?q" using lang_okD(2) [OF assms(1)] by (simp add: memory_ok_def live_def o)
  ultimately show "lang_ok ?q"
    using assms(1) unfolding lang_ok_def by (simp add: n o s0)
qed

lemma delete_asts_run:
  assumes "\<forall>a \<in> set as. heap ps a \<noteq> None" "distinct as"
  shows "delete_asts as ps = Inr ((), ps\<lparr>ASTAllocationCount := ASTAllocationCount ps - int (length as),
     heap := heap ps |` (- set as)\<rparr>)"
  using assms
proof (induction as arbitrary: ps)
  case (Cons a as)
  let ?p = "ps\<lparr>ASTAllocationCount := ASTAllocationCount ps - 1, heap := (heap ps)(a := None)\<rparr>"
  have d: "delete_ast a ps = Inr ((), ?p)"
    using Cons.prems(1) by (auto simp: delete_ast_def split: option.split)
  have "delete_asts as ?p = Inr ((), ?p\<lparr>ASTAllocationCount := ASTAllocationCount ?p - int (length as),
     heap := heap ?p |` (- set as)\<rparr>)"
    by (rule Cons.IH) (use Cons.prems in auto)
  moreover have "(heap ps)(a := None) |` (- set as) = heap ps |` (- set (a # as))"
    by (auto simp: restrict_map_def)
  ultimately show ?case using d by (simp add: andThen_def)
qed (simp add: ret_def restrict_map_def)

text \<open>The state after leaving the innermost scope.\<close>

definition left_of :: "VarTable \<Rightarrow> ParserState \<Rightarrow> ParserState" where
  "left_of vt ps = ps\<lparr>var_table := butlast (var_table ps), tables := (tables ps)(scope ps := None),
     ASTAllocationCount := ASTAllocationCount ps - int (length (v_stack_ast vt)),
     heap := heap ps |` (- set (v_stack_ast vt))\<rparr>"

lemma remove_var_table_run:
  assumes "lang_ok ps" "tables ps (scope ps) = Some vt"
  shows "remove_var_table ps = Inr (0, left_of vt ps)"
proof -
  have "\<forall>a \<in> set (v_stack_ast vt). heap ps a \<noteq> None"
    using assms live_heap owner_live unfolding owner_def by blast
  moreover have "distinct (v_stack_ast vt)" using lang_okD(7) [OF assms] by (simp add: vt_ok_def)
  moreover have "var_table ps \<noteq> []" using lang_okD(1) [OF assms(1)] by (simp add: scopes_ok_def)
  ultimately show ?thesis
    using assms(2) unfolding scope_def left_of_def
    by (simp add: remove_var_table_def delete_VarTable_def remove_var_map_context_def
        remove_AST_context_def andThen_def gets_def modify_def tableAt_def setTable_def ret_def
        delete_asts_run)
qed

lemma left_ok:
  assumes "lang_ok ps" "tables ps (scope ps) = Some vt" "scope0 ps \<noteq> scope ps"
  shows "lang_ok (left_of vt ps)"
    "\<And>a t. owner (left_of vt ps) a t \<longleftrightarrow> owner ps a t \<and> t \<noteq> scope ps"
    "\<And>a. heap (left_of vt ps) a = (if owner ps a (scope ps) then None else heap ps a)"
    "scope0 (left_of vt ps) = scope0 ps"
proof -
  let ?q = "left_of vt ps"
  have vts: "var_table ps \<noteq> []" "butlast (var_table ps) \<noteq> []"
    "var_table ps = butlast (var_table ps) @ [scope ps]"
    using lang_okD(1) [OF assms(1)] assms(3) unfolding scopes_ok_def scope_def scope0_def
    by (auto simp: hd_Nil_eq_last) (metis append_butlast_last_id append_Nil list.sel(1))
  define vts' where "vts' = butlast (var_table ps)"
  have sc: "sorted_wrt (<) vts'" "\<forall>t \<in> set vts'. t < scope ps" "set (var_table ps) = Set.insert (scope ps) (set vts')"
    using lang_okD(1) [OF assms(1)] vts(3) unfolding scopes_ok_def vts'_def
    by (metis sorted_wrt_append, metis sorted_wrt_append list.set_intros(1), metis Un_insert_right
        list.simps(15) set_append empty_set sup_bot.right_neutral)
  have vq: "var_table ?q = vts'" by (simp add: left_of_def vts'_def)
  show o: "owner ?q a t \<longleftrightarrow> owner ps a t \<and> t \<noteq> scope ps" for a t
    by (auto simp: owner_def left_of_def)
  show h: "heap ?q a = (if owner ps a (scope ps) then None else heap ps a)" for a
    using assms(2) by (auto simp: owner_def left_of_def restrict_map_def)
  show s0: "scope0 ?q = scope0 ps"
    using vts unfolding scope0_def vq vts'_def by (metis hd_append2)
  have u: "inside ?q t a" if "inside ps t a" "t \<in> set vts'" for t a
    using that sc(2) by (force simp: inside_def o)
  have s0in: "scope0 ps \<in> set vts'" using vts unfolding scope0_def vts'_def by (metis hd_append2 hd_in_set)
  have b: "block ?q u" if bl: "block ps u" and un: "inside ps t u" and tv: "t \<in> set vts'" for u t
  proof -
    obtain t' where t': "owner ps u t'" "t' \<le> t" using un by (auto simp: inside_def)
    then have "t' \<noteq> scope ps" using tv sc(2) by auto
    then have "\<not> owner ps u (scope ps)" using t'(1) owner_unique [OF assms(1)] by metis
    then show ?thesis using bl by (simp add: block_def h)
  qed
  have n: "node_ok ?q t m" if "node_ok ps t m" "t \<in> set vts'" for t m
  proof -
    have "bodies m \<subseteq> refs m" by (auto simp: bodies_def refs_def split: ASTNode.splits)
    moreover have "t \<noteq> scope ps" using that(2) sc(2) by auto
    ultimately show ?thesis using that u b unfolding node_ok_def s0 o by blast
  qed
  have "vt_ok ?q t wt" if "tables ?q t = Some wt" for t wt
  proof -
    from that have t: "t \<noteq> scope ps" "tables ps t = Some wt" by (auto simp: left_of_def split: if_splits)
    then have "t \<in> set vts'" "t < scope ps"
      using lang_okD(1) [OF assms(1)] sc unfolding scopes_ok_def by auto
    moreover from this have "p \<in> set vts'" if "p < t" "p \<in> set (var_table ps)" for p
      using that sc(3) by auto
    ultimately show ?thesis
      using lang_okD(7) [OF assms(1) t(2)] u unfolding vt_ok_def vq by blast
  qed
  moreover have "node_ok ?q t m" if "heap ?q a = Some (Some m)" "owner ?q a t" for a t m
  proof -
    have a: "owner ps a t" "t \<noteq> scope ps" "heap ps a = Some (Some m)"
      using that unfolding h o by (auto split: if_splits)
    then have "t \<in> set vts'" using owner_scope [OF assms(1)] sc(3) by blast
    then show ?thesis using n lang_okD(8) [OF assms(1) a(3,1)] by blast
  qed
  moreover have "scopes_ok ?q"
    using lang_okD(1) [OF assms(1)] sc vts(2) unfolding scopes_ok_def vq
    by (auto simp: left_of_def vts'_def)
  moreover have "memory_ok ?q"
  proof -
    have fin: "finite (dom (heap ps))"
      by (rule finite_subset [of _ "{..< next_node ps}"])
        (use assms(1) in \<open>auto simp: lang_ok_def memory_ok_def\<close>)
    have sub: "set (v_stack_ast vt) \<subseteq> dom (heap ps)"
      using assms live_heap owner_live unfolding owner_def by blast
    have "dom (heap ?q) = dom (heap ps) - set (v_stack_ast vt)"
      by (auto simp: left_of_def restrict_map_def split: if_splits)
    then have "card (dom (heap ?q)) = card (dom (heap ps)) - card (set (v_stack_ast vt))"
      using fin sub by (simp add: card_Diff_subset finite_subset)
    moreover have "card (set (v_stack_ast vt)) = length (v_stack_ast vt)"
      using lang_okD(7) [OF assms(1,2)] by (simp add: vt_ok_def distinct_card)
    moreover have "card (set (v_stack_ast vt)) \<le> card (dom (heap ps))" by (rule card_mono [OF fin sub])
    ultimately have "int (card (dom (heap ?q))) = int (card (dom (heap ps))) - int (length (v_stack_ast vt))"
      by simp
    moreover have "heap ?q a \<noteq> None \<longleftrightarrow> live ?q a" for a
      using live_heap [OF assms(1), of a] owner_unique [OF assms(1), of a]
      unfolding h live_def o by auto
    moreover have "a < next_node ?q" if "heap ?q a \<noteq> None" for a
      using that lang_okD(2) [OF assms(1)] unfolding h memory_ok_def by (auto simp: left_of_def split: if_splits)
    moreover have "ASTAllocationCount ?q = ASTAllocationCount ps - int (length (v_stack_ast vt))"
      by (simp add: left_of_def)
    ultimately show ?thesis
      using lang_okD(2) [OF assms(1)] unfolding memory_ok_def o by auto
  qed
  moreover have "owner ?q a (scope0 ?q) \<longleftrightarrow> owner ps a (scope0 ps)" for a
    unfolding o s0 using assms(3) by simp
  moreover have "heap ?q (empty_node ps) = Some (Some EmptyN)"
    using lang_okD(3,4) [OF assms(1)] assms(3) owner_unique [OF assms(1)] unfolding h by metis
  ultimately show "lang_ok ?q"
    using lang_okD(4-6) [OF assms(1)] unfolding lang_ok_def by (simp add: left_of_def)
qed

text \<open>
  A body that runs well in a new scope can be followed by leaving that scope: the state extends the
  one before entering, and the nodes of the outer scopes are untouched.
\<close>

lemma good_scoped:
  assumes ok: "lang_ok ps" and p: "p \<in> set (var_table ps)"
    and body: "runs m Q (entered p ps)"
    and after: "\<And>x ps2 ps3. lang_ok ps2 \<Longrightarrow> ext (entered p ps) ps2 \<Longrightarrow> Q x ps2 \<Longrightarrow>
      lang_ok ps3 \<Longrightarrow> ext ps ps3 \<Longrightarrow> (\<forall>a t. t \<in> set (var_table ps) \<longrightarrow> owner ps2 a t \<longrightarrow> owner ps3 a t) \<Longrightarrow>
      runs (k x) R ps3"
  shows "case m (entered p ps) of Inl f \<Rightarrow> f \<noteq> Dangling
    | Inr (x, ps2) \<Rightarrow> \<exists>ps3. remove_var_table ps2 = Inr (0, ps3) \<and> lang_ok ps3 \<and> ext ps ps3 \<and> runs (k x) R ps3"
proof (cases "m (entered p ps)")
  case (Inl f)
  then show ?thesis using body by (simp add: runs_def)
next
  case (Inr r)
  obtain x ps2 where r: "r = (x, ps2)" by fastforce
  let ?q = "entered p ps"
  have 2: "lang_ok ps2" "ext ?q ps2" "Q x ps2" using body Inr r by (simp_all add: runs_def)
  note q = entered_ok [OF ok p]
  have v2: "var_table ps2 = var_table ps @ [next_table ps]" using ext_sel(1) [OF 2(2)] by simp
  have sc: "scope ps2 = next_table ps" "scope0 ps2 = scope0 ps"
    using ext_sel(2,3) [OF 2(2)] q by simp_all
  have old: "\<forall>t \<in> set (var_table ps). t < next_table ps"
    using lang_okD(1) [OF ok] by (simp add: scopes_ok_def)
  then have ne: "scope0 ps2 \<noteq> scope ps2" using sc scope0_in [OF ok] by auto
  obtain vt where vt: "tables ps2 (scope ps2) = Some vt"
    using table_of [OF 2(1) scope_in [OF 2(1)]] by blast
  define ps3 where "ps3 = left_of vt ps2"
  note l = left_ok [OF 2(1) vt ne, folded ps3_def]
  have own: "owner ps3 a t" if "owner ps2 a t" "t \<in> set (var_table ps)" for a t
    using that l(2) old sc by auto
  have "ext ps ps3"
  proof -
    have "\<exists>n'. heap ps3 a = Some (Some n') \<and> same_kind n n'" if a: "heap ps a = Some (Some n)" for a n
    proof -
      obtain t where t: "owner ps a t" using node_at_ok [OF ok a] by blast
      then have t2: "owner ps2 a t" using ext_owner [OF 2(2)] q(2) by simp
      have "t < next_table ps" using old owner_scope [OF ok t] by blast
      then have "t \<noteq> scope ps2" using sc(1) by simp
      then have "\<not> owner ps2 a (scope ps2)" using owner_unique [OF 2(1) t2] by metis
      then show ?thesis using ext_heap [OF 2(2)] a l(3) by simp
    qed
    moreover have "var_table ps3 = var_table ps" by (simp add: ps3_def left_of_def v2)
    moreover have "owner ps3 a t" if "owner ps a t" for a t
      using own ext_owner [OF 2(2)] q(2) owner_scope [OF ok that] that by simp
    ultimately show ?thesis
      using 2(2) by (simp add: ext_def) (simp add: ps3_def left_of_def)
  qed
  then have "runs (k x) R ps3" using after [OF 2 l(1)] own by blast
  then show ?thesis
    using Inr r remove_var_table_run [OF 2(1) vt] l(1) \<open>ext ps ps3\<close> by (auto simp: ps3_def)
qed

end
