(* ===== verification/Lang_Create.thy ===== *)
theory Lang_Create
  imports Lang_Memory
begin

text \<open>
  Creating and assigning variables (Lang_Vars, Lang_Make) in the logic: whatever is created belongs
  to the table it is created in, and an assignment writes only to nodes the target consists of.
\<close>

named_theorems good_intros \<open>rules for operations, followed by others and at the end\<close>

lemmas good_basic = good_readN good_readAs good_need good_value_of good_empty_token
  good_get_var_table good_gets good_lookup good_new_stack_ast

lemmas [good_intros] = good_basic [THEN good_bind] good_basic [THEN good_conseq] good_ret good_stop

lemma andThen_if: "andThen (if c then m else m') k = (if c then andThen m k else andThen m' k)"
  by simp

lemma andThen_option:
  "andThen (case r of None \<Rightarrow> m | Some x \<Rightarrow> m' x) k =
     (case r of None \<Rightarrow> andThen m k | Some x \<Rightarrow> andThen (m' x) k)"
  by (simp split: option.split)

lemma andThen_pair: "andThen (case p of (x, y) \<Rightarrow> m x y) k = (case p of (x, y) \<Rightarrow> andThen (m x y) k)"
  by (simp split: prod.split)

lemmas good_flat = andThen_assoc andThen_if andThen_option andThen_pair

subsection \<open>Loops over vectors\<close>

lemma good_forEach:
  assumes "lang_ok ps"
    and "\<And>x ps'. x \<in> set xs \<Longrightarrow> lang_ok ps' \<Longrightarrow> ext ps ps' \<Longrightarrow> runs (f x) (\<lambda>_ _. True) ps'"
  shows "runs (forEach f xs) (\<lambda>_ _. True) ps"
  using assms
proof (induction xs arbitrary: ps)
  case (Cons x xs)
  have "runs (f x) (\<lambda>_ _. True) ps" using Cons.prems by simp
  then show ?case unfolding forEach.simps
    by (rule good_bind) (use Cons in \<open>auto intro!: good_ret Cons.IH intro: ext_trans\<close>)
qed (simp add: good_ret)

lemma good_mapEach:
  assumes "lang_ok ps"
    and "\<And>x ps'. x \<in> set xs \<Longrightarrow> lang_ok ps' \<Longrightarrow> ext ps ps' \<Longrightarrow> runs (f x) (\<lambda>a ps'. live ps' a) ps'"
  shows "runs (mapEach f xs) (\<lambda>as ps'. \<forall>a \<in> set as. live ps' a) ps"
  using assms
proof (induction xs arbitrary: ps)
  case (Cons x xs)
  have f: "runs (f x) (\<lambda>a ps'. live ps' a) ps" using Cons.prems by simp
  have rest: "runs (mapEach f xs) (\<lambda>as ps'. \<forall>a \<in> set as. live ps' a) ps'"
    if "lang_ok ps'" "ext ps ps'" for ps'
    using that Cons.prems(2) by (auto intro!: Cons.IH intro: ext_trans)
  show ?case unfolding mapEach.simps
    by (rule good_bind [OF f], rule good_bind [OF rest], assumption+)
      (auto intro!: good_ret intro: ext_live)
qed (simp add: good_ret)

lemma good_True: "runs m Q ps \<Longrightarrow> runs m (\<lambda>_ _. True) ps"
  by (rule good_conseq) auto

subsection \<open>Nodes\<close>

text \<open>A value that belongs to the current scope, or the empty node that stands for a failure.\<close>

definition made :: "ParserState \<Rightarrow> nat \<Rightarrow> bool" where
  "made ps a \<longleftrightarrow> owner ps a (scope ps) \<or> a = empty_node ps"

lemma made_live: "lang_ok ps \<Longrightarrow> made ps a \<Longrightarrow> live ps a"
  using lang_okD(4) by (auto simp: made_def intro: owner_live)

lemma ext_made: "ext ps ps' \<Longrightarrow> made ps a \<Longrightarrow> made ps' a"
  by (auto simp: made_def ext_sel intro: ext_owner)

lemma empty_live [simp]: "lang_ok ps \<Longrightarrow> live ps (empty_node ps)"
  using lang_okD(4) owner_live by blast

lemma made_empty [simp]: "made ps (empty_node ps)"
  by (simp add: made_def)

lemma node_ok_leaf [simp]:
  "node_ok ps t EmptyN" "node_ok ps t (IntN i)" "node_ok ps t (DoubleN d)" "node_ok ps t (StringN s)"
  "node_ok ps t VoidN" "node_ok ps t (VarAdtN s [])" "node_ok ps t (RefVarN s)"
  by (simp_all add: node_ok_def refs_def home_def bodies_def parts_def code_types_def)

lemma node_ok_values:
  "node_ok ps t (VarAdtN s m) \<longleftrightarrow> (\<forall>e \<in> set m. owner ps (snd e) t)"
  "node_ok ps t (ArrayN ty nm vec tb) \<longleftrightarrow> (\<forall>c \<in> set vec. owner ps c t) \<and> set_member tb \<subseteq> {t}"
  "node_ok ps t (SepN vec) \<longleftrightarrow> (\<forall>c \<in> set vec. inside ps t c)"
  by (auto simp: node_ok_def refs_def home_def bodies_def parts_def code_types_def intro: owner_under)

lemma good_mk_node:
  assumes "lang_ok ps" "node_ok ps (scope ps) n"
  shows "runs (mk_node n) (\<lambda>a ps'. made ps' a) ps"
proof -
  have w: "runs (writeN a n) (\<lambda>_ ps'. True) ps'"
    if "lang_ok ps'" "ext ps ps'" "owner ps' a (scope ps)" "heap ps' a = Some None" for a ps'
    using that assms(2) by (intro good_True [OF good_writeN]) (auto intro: ext_node_ok)
  show ?thesis
    unfolding mk_node_def made_def
    by (auto intro!: good_intros w [THEN good_bind] split: option.split
        simp: scope_in ext_sel assms) (blast intro: ext_owner)
qed


lemmas good_basic2 = good_mk_node good_writeN

lemmas [good_intros] = good_basic2 [THEN good_bind] good_basic2 [THEN good_conseq]

subsection \<open>Creating\<close>

definition good_create :: "(ASTType \<Rightarrow> str member \<Rightarrow> ASTType member \<Rightarrow> int \<Rightarrow> nat option lang) \<Rightarrow> nat \<Rightarrow> bool" where
  "good_create rec t \<longleftrightarrow> (\<forall>ty nm aty n ps. lang_ok ps \<longrightarrow> t \<in> set (var_table ps) \<longrightarrow>
     runs (rec ty nm aty n) (\<lambda>r ps'. \<forall>a. r = Some a \<longrightarrow> owner ps' a t) ps)"

lemma good_createD: "good_create rec t \<Longrightarrow> lang_ok ps \<Longrightarrow> t \<in> set (var_table ps) \<Longrightarrow>
    runs (rec ty nm aty n) (\<lambda>r ps'. \<forall>a. r = Some a \<longrightarrow> owner ps' a t) ps"
  by (simp add: good_create_def)

lemma good_create_basic:
  assumes "lang_ok ps" "t \<in> set (var_table ps)"
  shows "runs (create_basic_type t ty) (\<lambda>r ps'. \<forall>a. r = Some a \<longrightarrow> owner ps' a t) ps"
  unfolding create_basic_type_def
  by (auto intro!: good_intros split: option.split ASTType.split simp: assms)
    (blast intro: ext_owner)+

lemma good_find_adt:
  assumes "lang_ok ps" "t \<in> set (var_table ps)"
  shows "runs (find_adt t s) (\<lambda>r ps'. ps' = ps \<and> (\<forall>tn p. r = Some (tn, p) \<longrightarrow> live ps p)) ps"
proof -
  have "live ps p" if "heap ps d = Some (Some n)" "adt_of n = Some (tn, p)" for d n tn p
    using refs_live [OF assms(1) that(1)] that(2) by (auto simp: refs_def adt_of_Some)
  then show ?thesis
    unfolding find_adt_def
    by (auto intro!: good_intros split: option.split simp: assms) (blast intro: under_live)+
qed

lemma good_field_decl:
  assumes "lang_ok ps" "live ps f"
  shows "runs (field_decl f) (\<lambda>d ps'. ps' = ps \<and> (\<forall>sz. v_array_size d = Val sz \<longrightarrow> live ps sz)) ps"
  unfolding field_decl_def
  by (rule good_conseq [OF good_readAs [OF assms]])
    (use refs_live [OF assms(1)] in \<open>fastforce simp: decl_of_Some refs_def\<close>)

lemma good_field_size:
  assumes "lang_ok ps" "\<forall>sz. v_array_size d = Val sz \<longrightarrow> live ps sz"
  shows "runs (field_size d) (\<lambda>_ ps'. ps' = ps) ps"
  unfolding field_size_def by (auto intro!: good_intros simp: assms)

lemmas good_basic3 = good_find_adt good_field_decl good_field_size

lemmas [good_intros] = good_basic3 [THEN good_bind] good_basic3 [THEN good_conseq]

lemma good_set_field:
  assumes "lang_ok ps" "owner ps a t" "owner ps b t"
  shows "runs (set_field a s b) (\<lambda>_ _. True) ps"
proof -
  have "node_ok ps t (VarAdtN tn (sm_upd s b m))" if "heap ps a = Some (Some (VarAdtN tn m))" for tn m
    using lang_okD(8) [OF assms(1) that assms(2)] assms(3)
    by (auto simp: node_ok_values dest!: sm_upd_snd)
  then show ?thesis
    unfolding set_field_def using assms(1,2)
    by (auto intro!: good_intros owner_live simp: struct_of_Some same_kind_def)
qed

lemma good_push_back:
  assumes "lang_ok ps" "owner ps a t" "owner ps b t"
  shows "runs (push_back a b) (\<lambda>_ _. True) ps"
proof -
  have "node_ok ps t (ArrayN ty nm (vec @ [b]) tb)" if "heap ps a = Some (Some (ArrayN ty nm vec tb))"
    for ty nm vec tb
    using lang_okD(8) [OF assms(1) that assms(2)] assms(3) by (auto simp: node_ok_values)
  then show ?thesis
    unfolding push_back_def using assms(1,2)
    by (auto intro!: good_intros owner_live simp: array_of_Some same_kind_def)
qed

lemmas good_basic4 = good_set_field good_push_back

lemmas [good_intros] = good_basic4 [THEN good_bind] good_basic4 [THEN good_conseq]

lemmas lang_live = ext_intros ext_made owner_live under_live made_live

lemma good_create_field:
  assumes "good_create rec t" "lang_ok ps" "t \<in> set (var_table ps)" "owner ps a t" "live ps f"
  shows "runs (create_field rec a f) (\<lambda>_ _. True) ps"
  unfolding create_field_def
  by (auto intro!: good_intros good_createD [OF assms(1), THEN good_bind] split: option.split
      simp: assms ext_sel) (blast intro: lang_live assms)+

lemma sep_live:
  assumes "lang_ok ps" "heap ps p = Some (Some n)" "sep_of n = Some fs" "f \<in> set fs"
  shows "live ps f"
  using refs_live [OF assms(1,2)] assms(3,4) by (auto simp: sep_of_Some refs_def)

lemma good_create_struct:
  assumes "good_create rec t" "lang_ok ps" "t \<in> set (var_table ps)"
  shows "runs (create_struct rec t nm) (\<lambda>r ps'. \<forall>a. r = Some a \<longrightarrow> owner ps' a t) ps"
proof -
  have loop: "runs (andThen (forEach (create_field rec a) fs) (\<lambda>r. ret (if r = - 1 then None else Some a)))
      (\<lambda>r ps'. \<forall>a. r = Some a \<longrightarrow> owner ps' a t) ps'"
    if "lang_ok ps'" "ext ps ps'" "owner ps' a t" "\<forall>f \<in> set fs. live ps' f" for a fs ps'
  proof (rule good_bind [OF good_forEach [OF that(1)]])
    fix f qs assume q: "f \<in> set fs" "lang_ok qs" "ext ps' qs"
    have "t \<in> set (var_table qs)" using q(3) that(2) assms(3) by (simp add: ext_sel)
    then show "runs (create_field rec a f) (\<lambda>_ _. True) qs"
      using q that by (intro good_create_field [OF assms(1)]) (blast intro: lang_live)+
  next
    fix r qs assume "lang_ok qs" "ext ps' qs"
    then show "runs (ret (if r = - 1 then None else Some a)) (\<lambda>r ps'. \<forall>a. r = Some a \<longrightarrow> owner ps' a t) qs"
      using that(3) by (auto intro!: good_ret intro: ext_owner)
  qed
  show ?thesis unfolding create_struct_def
    by (auto intro!: good_intros loop split: option.split member.split simp: assms)
      (blast intro: ext_trans | blast intro: ext_intros sep_live [OF assms(2)])+
qed

lemma good_create_entries:
  assumes mk: "\<And>qs. lang_ok qs \<Longrightarrow> ext ps qs \<Longrightarrow> runs mk (\<lambda>r qs'. \<forall>b. r = Some b \<longrightarrow> owner qs' b t) qs"
    and "lang_ok ps" "owner ps a t"
  shows "runs (create_entries mk a n) (\<lambda>_ _. True) ps"
  using assms
proof (induction n arbitrary: ps)
  case (Suc n)
  have rest: "runs (create_entries mk a n) (\<lambda>_ _. True) qs" if "lang_ok qs" "ext ps qs" for qs
    by (rule Suc.IH) (use that Suc.prems in \<open>blast intro: ext_trans ext_owner\<close>)+
  show ?case unfolding create_entries.simps
    by (rule good_bind [OF Suc.prems(1) [OF Suc.prems(2) ext_refl]])
      (use Suc.prems in \<open>auto intro!: good_ret good_bind [OF good_push_back] rest
        split: option.split intro: ext_trans ext_owner\<close>)
qed (simp add: good_ret)

lemma good_create_array:
  assumes "good_create rec t" "lang_ok ps" "t \<in> set (var_table ps)"
  shows "runs (create_array rec t nm aty n) (\<lambda>r ps'. \<forall>a. r = Some a \<longrightarrow> owner ps' a t) ps"
proof -
  have loop: "runs (andThen (create_entries (rec ty nm' (Val EMPTY_TYPE) 0) a k)
        (\<lambda>r. ret (if r = - 1 then None else Some a))) (\<lambda>r ps'. \<forall>a. r = Some a \<longrightarrow> owner ps' a t) ps'"
    if "lang_ok ps'" "ext ps ps'" "owner ps' a t" for ps' a ty nm' k
  proof (rule good_bind [OF good_create_entries [OF _ that(1,3)]])
    fix qs assume q: "lang_ok qs" "ext ps' qs"
    then show "runs (rec ty nm' (Val EMPTY_TYPE) 0) (\<lambda>r qs'. \<forall>b. r = Some b \<longrightarrow> owner qs' b t) qs"
      using that(2) assms(3) by (intro good_createD [OF assms(1)]) (simp_all add: ext_sel)
  next
    fix r qs assume "lang_ok qs" "ext ps' qs"
    then show "runs (ret (if r = - 1 then None else Some a)) (\<lambda>r ps'. \<forall>a. r = Some a \<longrightarrow> owner ps' a t) qs"
      using that(3) by (auto intro!: good_ret intro: ext_owner)
  qed
  show ?thesis unfolding create_array_def
    by (auto intro!: good_intros loop split: option.split simp: assms andThen_if andThen_assoc node_ok_values)
      (blast intro: ext_trans | blast intro: ext_intros)+
qed

lemma good_ASTCreate_at: "good_create (ASTCreate k t) t"
proof (induction k)
  case 0
  then show ?case by (simp add: good_create_def good_stop)
next
  case (Suc k)
  show ?case
    unfolding good_create_def
    by (auto intro: good_create_struct [OF Suc.IH] good_create_array [OF Suc.IH] good_create_basic)
qed

lemmas good_ASTCreate = good_createD [OF good_ASTCreate_at]

subsection \<open>Assigning\<close>

lemma good_write_live:
  assumes "lang_ok ps" "live ps a" "\<And>t. owner ps a t \<Longrightarrow> node_ok ps t n"
    and "\<And>m. heap ps a = Some (Some m) \<Longrightarrow> same_kind m n"
  shows "runs (writeN a n) (\<lambda>_ ps'. heap ps' a = Some (Some n)) ps"
proof -
  obtain t where "owner ps a t" using assms(2) by (auto simp: live_def)
  then show ?thesis using assms by (intro good_writeN) auto
qed

definition good_assign :: "(nat \<Rightarrow> nat \<Rightarrow> int lang) \<Rightarrow> nat list \<Rightarrow> bool" where
  "good_assign rec vts \<longleftrightarrow> (\<forall>a b ps. lang_ok ps \<longrightarrow> var_table ps = vts \<longrightarrow> live ps a \<longrightarrow> live ps b \<longrightarrow>
     runs (rec a b) (\<lambda>_ _. True) ps)"

lemma good_assignD: "good_assign rec vts \<Longrightarrow> lang_ok ps \<Longrightarrow> var_table ps = vts \<Longrightarrow> live ps a \<Longrightarrow>
    live ps b \<Longrightarrow> runs (rec a b) (\<lambda>_ _. True) ps"
  by (simp add: good_assign_def)

lemma node_ok_basic:
  assumes "node_type n \<in> {INT_TYPE, DOUBLE_TYPE, STRING_TYPE}"
  shows "node_ok ps t n"
  using assms by (cases n) auto

lemma good_updateBasicType:
  assumes "lang_ok ps" "live ps a" "live ps b"
  shows "runs (updateBasicType a b) (\<lambda>_ _. True) ps"
proof -
  have "runs (writeN a n) (\<lambda>_ _. True) ps" if "node_type n \<in> {INT_TYPE, DOUBLE_TYPE, STRING_TYPE}"
    "heap ps a = Some (Some m)" "node_type m = node_type n" for m n
    using that by (intro good_True [OF good_write_live] assms node_ok_basic) (auto simp: same_kind_def)
  note w = this [THEN good_bind]
  show ?thesis unfolding updateBasicType_def
    by (auto intro!: good_readN [THEN good_bind] good_ret w simp: assms)
qed

lemma good_struct_fields:
  assumes "lang_ok ps" "t \<in> set (var_table ps)"
  shows "runs (struct_fields t s) (\<lambda>r ps'. ps' = ps \<and> (\<forall>fs. r = Some fs \<longrightarrow> (\<forall>f \<in> set fs. live ps f))) ps"
proof -
  have "live ps p" if "heap ps d = Some (Some n)" "adt_of n = Some (tn, p)" for d n tn p
    using refs_live [OF assms(1) that(1)] that(2) by (auto simp: refs_def adt_of_Some)
  then show ?thesis
    unfolding struct_fields_def
    by (auto intro!: good_intros split: option.split simp: assms)
      (blast intro: under_live sep_live [OF assms(1)])+
qed

lemma struct_live:
  assumes "lang_ok ps" "heap ps a = Some (Some n)" "struct_of n = Some (tn, m)" "sm_find m s = Some x"
  shows "live ps x"
  using refs_live [OF assms(1,2), of x] assms(3,4) by (force simp: struct_of_Some refs_def dest: map_of_SomeD)

lemma good_get_field:
  assumes "lang_ok ps" "live ps a"
  shows "runs (get_field a s) (\<lambda>r ps'. ps' = ps \<and> (\<forall>x. r = Some x \<longrightarrow> live ps x)) ps"
  unfolding get_field_def
  by (auto intro!: good_intros simp: assms) (blast intro: struct_live [OF assms(1)])

lemmas good_basic5 = good_struct_fields good_get_field good_updateBasicType

lemmas [good_intros] = good_basic5 [THEN good_bind] good_basic5 [THEN good_conseq]

lemma array_ok:
  assumes "lang_ok ps" "heap ps a = Some (Some n)" "array_of n = Some (ty, nm, vec, tb)" "owner ps a t"
  shows "node_ok ps t (ArrayN ty nm vec tb)"
  using lang_okD(8) [OF assms(1,2,4)] assms(3) by (simp add: array_of_Some)

lemma array_live:
  assumes "lang_ok ps" "heap ps a = Some (Some n)" "array_of n = Some (ty, nm, vec, tb)" "c \<in> set vec"
  shows "live ps c"
  using refs_live [OF assms(1,2)] assms(3,4) by (auto simp: array_of_Some refs_def)

lemma live_owner: "live ps a \<Longrightarrow> (\<And>t. owner ps a t \<Longrightarrow> thesis) \<Longrightarrow> thesis"
  by (auto simp: live_def)

text \<open>Any change of the entries of an array to others of its table.\<close>

lemma good_write_array:
  assumes "lang_ok ps" "heap ps a = Some (Some (ArrayN ty nm vec tb))" "set vec' \<subseteq> set vec"
  shows "runs (writeN a (ArrayN ty nm vec' tb)) (\<lambda>_ _. True) ps"
proof -
  obtain t where t: "owner ps a t" "node_ok ps t (ArrayN ty nm vec tb)" by (rule node_at_ok [OF assms(1,2)])
  then have "node_ok ps t (ArrayN ty nm vec' tb)" using assms(3) by (auto simp: node_ok_values)
  then show ?thesis
    by (intro good_True [OF good_writeN [OF assms(1) t(1)]]) (use assms(2) in \<open>auto simp: same_kind_def\<close>)
qed

lemma good_clear_vector:
  assumes "lang_ok ps" "live ps a"
  shows "runs (clear_vector a) (\<lambda>_ _. True) ps"
  unfolding clear_vector_def
  by (auto intro!: good_readAs [THEN good_bind] good_write_array simp: assms array_of_Some)

lemma good_vector_of:
  assumes "lang_ok ps" "live ps a"
  shows "runs (vector_of a) (\<lambda>vec ps'. ps' = ps \<and> (\<forall>c \<in> set vec. live ps c)) ps"
  unfolding vector_of_def
  by (auto intro!: good_intros split: option.split simp: assms)
    (blast intro: array_live [OF assms(1)] sep_live [OF assms(1)])+

lemma good_new_entry:
  assumes "lang_ok ps" "owner ps a t"
  shows "runs (new_entry k a) (\<lambda>r ps'. \<forall>e. r = Some e \<longrightarrow> owner ps' e t) ps"
proof -
  have "t' = t" if "heap ps a = Some (Some n)" "array_of n = Some (ty, nm, vec, Val t')" for n ty nm vec t'
    using array_ok [OF assms(1) that assms(2)] by (auto simp: node_ok_values)
  then have runs: "runs (ASTCreate k t' ty nm (Val EMPTY_TYPE) 0) (\<lambda>r ps'. \<forall>e. r = Some e \<longrightarrow> owner ps' e t) ps"
    if "heap ps a = Some (Some n)" "array_of n = Some (ty, nm, vec, Val t')" for n ty nm vec t'
    using that good_ASTCreate [OF assms(1) owner_scope [OF assms]] by blast
  show ?thesis unfolding new_entry_def
    by (auto intro!: good_readAs [THEN good_bind] good_value_of [THEN good_bind] runs
        simp: assms(1) owner_live [OF assms(2)])
qed

lemmas good_basic6 = good_clear_vector good_vector_of good_new_entry

lemmas [good_intros] = good_basic6 [THEN good_bind] good_basic6 [THEN good_conseq]

lemma good_append_copy:
  assumes "good_assign rec (var_table ps)" "lang_ok ps" "live ps a" "live ps b"
  shows "runs (append_copy k rec a b) (\<lambda>_ _. True) ps"
proof -
  obtain t where t: "owner ps a t" using live_owner [OF assms(3)] by blast
  show ?thesis unfolding append_copy_def
    by (auto intro!: good_new_entry [OF assms(2) t, THEN good_bind] good_ret
        good_assignD [OF assms(1), THEN good_bind] good_push_back [of _ _ t, THEN good_bind]
        split: option.split simp: ext_sel)
      (blast intro: lang_live assms t)+
qed

lemma good_refill:
  assumes "good_assign rec (var_table ps)" "lang_ok ps" "live ps a" "live ps b"
  shows "runs (refill k rec a b) (\<lambda>_ _. True) ps"
proof -
  have loop: "runs (forEach (append_copy k rec a) vec) (\<lambda>_ _. True) qs"
    if "lang_ok qs" "ext ps qs" "\<forall>c \<in> set vec. live qs c" for vec qs
  proof (rule good_forEach [OF that(1)])
    fix c rs assume c: "c \<in> set vec" "lang_ok rs" "ext qs rs"
    have "var_table rs = var_table ps" using c(3) that(2) by (simp add: ext_sel)
    then show "runs (append_copy k rec a c) (\<lambda>_ _. True) rs"
      using c that assms by (intro good_append_copy) (auto intro: ext_live)
  qed
  show ?thesis unfolding refill_def
    by (auto intro!: good_intros loop simp: assms) (blast intro: ext_trans | blast intro: ext_live assms)+
qed

lemma good_assign_list:
  assumes rec: "good_assign rec (var_table ps)" and "lang_ok ps"
    and "\<And>x qs. x \<in> set xs \<Longrightarrow> good_assign rec (var_table qs) \<Longrightarrow> lang_ok qs \<Longrightarrow> ext ps qs \<Longrightarrow>
      runs (f x) (\<lambda>_ _. True) qs"
  shows "runs (forEach f xs) (\<lambda>_ _. True) ps"
  by (rule good_forEach [OF assms(2)]) (use assms in \<open>simp add: ext_sel\<close>)

lemma good_assign_listed:
  assumes "good_assign rec (var_table ps)" "lang_ok ps" "live ps a" "live ps f" "live ps b"
  shows "runs (assign_listed rec a (f, b)) (\<lambda>_ _. True) ps"
  unfolding assign_listed_def
  by (auto intro!: good_intros good_assignD [OF assms(1)] split: option.split simp: assms)

lemma good_assign_field:
  assumes "good_assign rec (var_table ps)" "lang_ok ps" "live ps a" "live ps b" "live ps f"
  shows "runs (assign_field rec a b f) (\<lambda>_ _. True) ps"
  unfolding assign_field_def
  by (auto intro!: good_intros good_assignD [OF assms(1)] split: option.split simp: assms)

lemma good_update_struct_list:
  assumes rec: "good_assign rec (var_table ps)" and "lang_ok ps" "t \<in> set (var_table ps)" "live ps a" "live ps b"
  shows "runs (update_struct_list rec t a b) (\<lambda>_ _. True) ps"
proof -
  have loop: "runs (forEach (assign_listed rec a) (zip fs es)) (\<lambda>_ _. True) ps"
    if "\<forall>f \<in> set fs. live ps f" "\<forall>e \<in> set es. live ps e" for fs es
  proof (rule good_assign_list [OF rec assms(2)])
    fix x qs assume x: "x \<in> set (zip fs es)" "good_assign rec (var_table qs)" "lang_ok qs" "ext ps qs"
    obtain f e where "x = (f, e)" "f \<in> set fs" "e \<in> set es" using x(1) by (metis in_set_zipE surj_pair)
    then show "runs (assign_listed rec a x) (\<lambda>_ _. True) qs"
      using that x assms(4) by (auto intro!: good_assign_listed intro: ext_live)
  qed
  show ?thesis unfolding update_struct_list_def
    by (auto intro!: good_readAs [THEN good_bind] good_struct_fields [THEN good_bind] good_ret loop
        split: option.split simp: assms) (blast intro: sep_live [OF assms(2)])
qed

lemma good_update_struct:
  assumes rec: "good_assign rec (var_table ps)" and "lang_ok ps" "t \<in> set (var_table ps)" "live ps a" "live ps b"
  shows "runs (update_struct rec t a b) (\<lambda>_ _. True) ps"
proof -
  have loop: "runs (forEach (assign_field rec a b) fs) (\<lambda>_ _. True) ps" if "\<forall>f \<in> set fs. live ps f" for fs
    by (rule good_assign_list [OF rec assms(2)], rule good_assign_field)
      (use that assms(4,5) in \<open>auto intro: ext_live\<close>)
  show ?thesis unfolding update_struct_def
    by (auto intro!: good_readAs [THEN good_bind] good_struct_fields [THEN good_bind] good_ret loop
        split: option.split simp: assms)
qed

lemma good_update_array:
  assumes rec: "good_assign rec (var_table ps)" and "lang_ok ps" "live ps a" "live ps b"
  shows "runs (update_array k rec a b) (\<lambda>_ _. True) ps"
  unfolding update_array_def
  by (auto intro!: good_readAs [THEN good_bind] good_value_of [THEN good_bind] good_ret good_refill simp: assms)

lemma good_updateADT_at: "t \<in> set vts \<Longrightarrow> good_assign (updateADT k t) vts"
proof (induction k)
  case 0
  then show ?case by (simp add: good_assign_def good_stop)
next
  case (Suc k)
  show ?case
    unfolding good_assign_def
    using Suc by (auto intro!: good_readN [THEN good_bind] good_ret good_update_struct_list good_refill
        good_update_struct good_update_array good_updateBasicType)
qed

lemma good_updateADT:
  assumes "lang_ok ps" "t \<in> set (var_table ps)" "live ps a" "live ps b"
  shows "runs (updateADT k t a b) (\<lambda>_ _. True) ps"
  using good_assignD [OF good_updateADT_at [OF assms(2)]] assms by blast

end
