(* ===== verification/Lang_Values.thy ===== *)
theory Lang_Values
  imports Lang_Create
begin

text \<open>
  The operations on values (Lang_Vars, Lang_Ops, Lang_Native) in the logic. What they make belongs
  to the current scope (\<open>made\<close>), what they answer is alive.
\<close>

subsection \<open>The wrappers\<close>

lemma good_is_empty:
  assumes "lang_ok ps" "live ps a"
  shows "runs (is_empty a) (\<lambda>_ ps'. ps' = ps) ps"
  unfolding is_empty_def by (auto intro!: good_readN [THEN good_bind] good_ret simp: assms)

lemma good_ASTCreate_ps:
  assumes "lang_ok ps"
  shows "runs (ASTCreate_ps E ty nm aty n) (\<lambda>a ps'. made ps' a) ps"
  unfolding ASTCreate_ps_def
  by (auto intro!: good_get_var_table [THEN good_bind] good_ASTCreate [THEN good_bind] good_ret
      good_empty_token [THEN good_conseq] split: option.split simp: assms scope_in made_def ext_sel)

lemma good_updateADT_ps:
  assumes "lang_ok ps" "live ps a" "live ps b"
  shows "runs (updateADT_ps E a b) (\<lambda>_ _. True) ps"
  unfolding updateADT_ps_def
  by (auto intro!: good_get_var_table [THEN good_bind] good_updateADT simp: assms scope_in)

lemma good_empty_made: "lang_ok ps \<Longrightarrow> runs empty_token (\<lambda>a ps'. made ps' a) ps"
  by (rule good_conseq [OF good_empty_token]) auto

lemma good_empty_live: "lang_ok ps \<Longrightarrow> runs empty_token (\<lambda>a ps'. live ps' a) ps"
  by (rule good_conseq [OF good_empty_token]) auto

lemma good_made_live: "runs m (\<lambda>a ps'. made ps' a) ps \<Longrightarrow> runs m (\<lambda>a ps'. live ps' a) ps"
  by (erule good_conseq) (rule made_live)

lemmas good_ops1 = good_is_empty good_ASTCreate_ps good_updateADT_ps

lemmas [good_intros] = good_ops1 [THEN good_bind] good_ops1 [THEN good_conseq]

lemma good_create_and_copy:
  assumes "lang_ok ps" "live ps a"
  shows "runs (create_and_copy E ty nm a) (\<lambda>c ps'. made ps' c) ps"
  unfolding create_and_copy_def
  by (auto intro!: good_intros simp: assms) (blast intro: lang_live assms)+

lemma good_ADTCreateAndCopy:
  assumes "lang_ok ps" "live ps a"
  shows "runs (ADTCreateAndCopy E a) (\<lambda>c ps'. made ps' c) ps"
  unfolding ADTCreateAndCopy_def
  by (auto intro!: good_readN [THEN good_bind] good_create_and_copy good_empty_made
      split: option.split simp: assms)

lemma good_insert_made:
  assumes "lang_ok ps" "made ps a"
  shows "runs (insert_var (scope ps) s a) (\<lambda>_ _. True) ps"
  using assms by (intro good_insert_var scope_in live_under made_live)

lemma good_variable_create:
  assumes "lang_ok ps"
  shows "runs (variable_create E ty nm aty n s overwrite) (\<lambda>a ps'. made ps' a) ps"
proof -
  have ins: "runs (andThen (insert_var (scope qs) s a) (\<lambda>r. if r = - 1 then empty_token else ret a))
      (\<lambda>a ps'. made ps' a) rs" if "lang_ok rs" "ext qs rs" "made rs a" for qs rs a
  proof -
    have "scope qs = scope rs" using that(2) by (simp add: ext_sel)
    then show ?thesis
      using that by (auto intro!: good_bind [OF good_insert_made] good_empty_made good_ret intro: ext_made)
  qed
  show ?thesis unfolding variable_create_def
    by (auto intro!: good_intros good_local_remove [THEN good_bind] ins simp: assms good_flat scope_in)
      (blast intro: lang_live)+
qed

lemma good_update_var:
  assumes "lang_ok ps" "live ps b"
  shows "runs (update_var k (scope ps) s b) (\<lambda>_ _. True) ps"
  unfolding update_var_def
  by (auto intro!: good_lookup [THEN good_bind] good_updateADT good_ret split: option.split
      simp: assms scope_in) (blast intro: under_live)

lemma good_variable_assign:
  assumes "lang_ok ps" "live ps b"
  shows "runs (variable_assign E s b) (\<lambda>a ps'. live ps' a) ps"
  unfolding variable_assign_def
  by (auto intro!: good_get_var_table [THEN good_bind] good_update_var [THEN good_bind]
      good_empty_live good_lookup [THEN good_bind] good_ret split: option.split
      simp: assms scope_in ext_sel) (auto simp: ext_sel dest: scope_in intro: under_live)

lemmas good_ops2 = good_create_and_copy good_ADTCreateAndCopy good_variable_create good_variable_assign

lemmas [good_intros] = good_ops2 [THEN good_bind] good_ops2 [THEN good_conseq]

lemma good_assign_param:
  assumes "lang_ok ps" "live ps f" "live ps b"
  shows "runs (assign_param E (f, b)) (\<lambda>_ _. True) ps"
  unfolding assign_param_def
  by (auto intro!: good_intros split: option.split simp: assms) (blast intro: lang_live assms)+

lemma good_param_list_assign:
  assumes "lang_ok ps" "live ps formal" "\<forall>b \<in> set actual. live ps b"
  shows "runs (param_list_assign E formal actual) (\<lambda>_ _. True) ps"
proof -
  have loop: "runs (forEach (assign_param E) (zip fs actual)) (\<lambda>_ _. True) ps"
    if "\<forall>f \<in> set fs. live ps f" for fs
  proof (rule good_forEach [OF assms(1)])
    fix x qs assume x: "x \<in> set (zip fs actual)" "lang_ok qs" "ext ps qs"
    obtain f b where "x = (f, b)" "f \<in> set fs" "b \<in> set actual" using x(1) by (metis in_set_zipE surj_pair)
    then show "runs (assign_param E x) (\<lambda>_ _. True) qs"
      using that x assms(3) by (auto intro!: good_assign_param intro: ext_live)
  qed
  show ?thesis unfolding param_list_assign_def
    by (auto intro!: good_readN [THEN good_bind] good_need [THEN good_bind] good_ret loop simp: assms(1,2))
      (blast intro: sep_live [OF assms(1)])
qed

subsection \<open>Arithmetic and comparison\<close>

definition number_at :: "ParserState \<Rightarrow> ASTNode option \<Rightarrow> ParserState \<Rightarrow> bool" where
  "number_at ps v ps' \<longleftrightarrow> ps' = ps \<and> (\<forall>n. v = Some n \<longrightarrow> node_type n \<in> {INT_TYPE, DOUBLE_TYPE, STRING_TYPE})"

lemma number_at_simps [simp]: "number_at ps None ps" "number_at ps (Some (IntN i)) ps"
  "number_at ps (Some (DoubleN d)) ps" "number_at ps (Some (of_bool_node c)) ps"
  by (simp_all add: number_at_def of_bool_node_def)

lemma good_trapping: "lang_ok ps \<Longrightarrow> runs (trapping r) (number_at ps) ps"
  unfolding trapping_def by (auto intro!: good_ret good_stop split: option.split)

lemma good_arith_int: "lang_ok ps \<Longrightarrow> runs (arith_int op x y) (number_at ps) ps"
  unfolding arith_int_def by (simp add: good_trapping good_ret)

lemma good_arith_double: "lang_ok ps \<Longrightarrow> runs (arith_double E op x y) (number_at ps) ps"
  unfolding arith_double_def by (simp add: good_ret)

lemma good_arith_result: "lang_ok ps \<Longrightarrow> runs (arith_result E op na nb) (number_at ps) ps"
  unfolding arith_result_def
  by (auto intro!: good_ret good_need [THEN good_bind] good_arith_int good_arith_double simp del: members_None
      split: option.split)

lemma good_arith_operation:
  assumes "lang_ok ps" "live ps a" "live ps b"
  shows "runs (arith_operation E op a b) (\<lambda>c ps'. made ps' c) ps"
  unfolding arith_operation_def
  by (auto intro!: good_get_var_table [THEN good_bind] good_new_stack_ast [THEN good_bind]
      good_readN [THEN good_bind] good_arith_result [THEN good_bind] good_empty_made
      good_writeN [THEN good_bind] good_ret node_ok_basic split: option.split
      simp: assms scope_in number_at_def)
    (auto simp: made_def ext_sel intro: ext_live assms ext_owner)

lemma good_allEach:
  assumes "lang_ok ps" "\<And>x. x \<in> set xs \<Longrightarrow> runs (f x) (\<lambda>_ ps'. ps' = ps) ps"
  shows "runs (allEach f xs) (\<lambda>_ ps'. ps' = ps) ps"
  using assms(2) by (induction xs) (auto intro!: good_ret good_bind [of "f _"] assms(1))

lemma good_existsEach:
  assumes "lang_ok ps" "\<And>x. x \<in> set xs \<Longrightarrow> runs (f x) (\<lambda>_ ps'. ps' = ps) ps"
  shows "runs (existsEach f xs) (\<lambda>_ ps'. ps' = ps) ps"
  using assms(2) by (induction xs) (auto intro!: good_ret good_bind [of "f _"] assms(1))

lemma good_equal_names:
  assumes "lang_ok ps"
  shows "runs (equal_names s s') (\<lambda>_ ps'. ps' = ps) ps"
  unfolding equal_names_def by (auto intro!: good_value_of [THEN good_bind] good_ret simp: assms)

lemma good_ADTEqual:
  assumes "lang_ok ps" "live ps a" "live ps b"
  shows "runs (ADTEqual k a b) (\<lambda>_ ps'. ps' = ps) ps"
  using assms(2,3)
proof (induction k arbitrary: a b)
  case 0
  then show ?case by (simp add: good_stop)
next
  case (Suc k)
  have zip: "runs (allEach (\<lambda>(x, y). ADTEqual k x y) (zip vec vec')) (\<lambda>_ ps'. ps' = ps) ps"
    if "\<forall>c \<in> set vec. live ps c" "\<forall>c \<in> set vec'. live ps c" for vec vec'
  proof (rule good_allEach [OF assms(1)])
    fix e assume e: "e \<in> set (zip vec vec')"
    obtain x y where "e = (x, y)" "x \<in> set vec" "y \<in> set vec'" using e by (metis in_set_zipE surj_pair)
    then show "runs (case e of (x, y) \<Rightarrow> ADTEqual k x y) (\<lambda>_ ps'. ps' = ps) ps"
      using that Suc.IH by simp
  qed
  have field: "runs (allEach (equal_field (ADTEqual k) m') m) (\<lambda>_ ps'. ps' = ps) ps"
    if "\<forall>e \<in> set m. live ps (snd e)" "\<forall>s x. sm_find m' s = Some x \<longrightarrow> live ps x" for m m'
    by (rule good_allEach [OF assms(1)])
      (use that Suc.IH in \<open>auto simp: equal_field_def split: option.split intro!: good_ret assms(1)\<close>)
  have arrays: "runs (equal_arrays (ADTEqual k) a b) (\<lambda>_ ps'. ps' = ps) ps"
    unfolding equal_arrays_def
    by (auto intro!: good_readAs [THEN good_bind] good_equal_names [THEN good_bind] good_ret zip
        simp: assms(1) Suc.prems good_flat) (blast intro: array_live [OF assms(1)])+
  have "live ps (snd e)" if "heap ps c = Some (Some n)" "struct_of n = Some (tn, m)" "e \<in> set m" for c n tn m e
    using refs_live [OF assms(1) that(1)] that(2,3) by (auto simp: struct_of_Some refs_def)
  then have structs: "runs (equal_structs (ADTEqual k) a b) (\<lambda>_ ps'. ps' = ps) ps"
    unfolding equal_structs_def
    by (auto intro!: good_readAs [THEN good_bind] good_ret field simp: assms(1) Suc.prems)
      (blast intro: struct_live [OF assms(1)])
  show ?case
    using arrays structs by (auto intro!: good_readN [THEN good_bind] good_ret simp: assms(1) Suc.prems)
qed

definition offset_at :: "ParserState \<Rightarrow> int option \<Rightarrow> ParserState \<Rightarrow> bool" where
  "offset_at ps r ps' \<longleftrightarrow> ps' = ps \<and> (\<forall>i. r = Some i \<longrightarrow> i = - 1 \<or> 0 \<le> i)"

lemma offset_at_simps [simp]: "offset_at ps None ps" "offset_at ps (Some (- 1)) ps"
  "0 \<le> i \<Longrightarrow> offset_at ps (Some i) ps"
  by (simp_all add: offset_at_def)

lemma good_scan_best:
  assumes "lang_ok ps" "\<forall>a \<in> set as. live ps a" "0 \<le> off" "0 \<le> i"
  shows "runs (scan_best get better best off i as) (offset_at ps) ps"
  using assms(2-)
  by (induction as arbitrary: best off i)
    (auto intro!: good_ret good_readN [THEN good_bind] split: option.split simp: assms(1))

lemma good_offsets:
  assumes "lang_ok ps" "\<forall>a \<in> set vec. live ps a"
  shows "runs (arrayLargestOffset ty vec) (offset_at ps) ps"
    "runs (arraySmallestOffset ty vec) (offset_at ps) ps"
  unfolding arrayLargestOffset_def arraySmallestOffset_def
  by (simp_all add: good_ret assms(1) good_scan_best [OF assms])

lemma good_uniqueAdd:
  assumes "lang_ok ps" "owner ps r (scope ps)" "live ps x"
  shows "runs (uniqueAdd E r x) (\<lambda>_ _. True) ps"
proof -
  have found: "runs (existsEach (ADTEqual (e_stack E) x) vec) (\<lambda>_ ps'. ps' = ps) ps"
    if "\<forall>c \<in> set vec. live ps c" for vec
    by (rule good_existsEach [OF assms(1)]) (use that assms in \<open>auto intro: good_ADTEqual\<close>)
  have push: "runs (andThen (is_empty c) (\<lambda>e. if e then ret (- 1 :: int) else andThen (push_back r c) (\<lambda>_. ret 0)))
      (\<lambda>_ _. True) qs" if "lang_ok qs" "ext ps qs" "made qs c" for c qs
  proof -
    have "owner qs r (scope qs)" using that(2) assms(2) by (auto simp: ext_sel intro: ext_owner)
    then have "runs (push_back r c) (\<lambda>_ _. True) qs" if "c \<noteq> empty_node qs"
      using \<open>lang_ok qs\<close> \<open>made qs c\<close> that by (intro good_push_back) (auto simp: made_def)
    then have push: "runs (andThen (push_back r c) (\<lambda>_. ret (0 :: int))) (\<lambda>_ _. True) qs" if "c \<noteq> empty_node qs"
      by (rule good_bind) (use that in \<open>auto intro!: good_ret\<close>)
    have ne: "c \<noteq> empty_node qs" if "heap qs c = Some (Some n)" "node_type n \<noteq> EMPTY_TYPE" for n
      using lang_okD(3) [OF \<open>lang_ok qs\<close>] that by auto
    show ?thesis
      using that(1) made_live [OF that(1,3)]
      by (auto simp: is_empty_def andThen_assoc intro!: good_readN [THEN good_bind] good_ret)
        (rule push [OF ne])
  qed
  show ?thesis unfolding uniqueAdd_def
    by (auto intro!: good_readAs [THEN good_bind] found [THEN good_bind] good_ret push
        good_ADTCreateAndCopy [THEN good_bind] simp: assms owner_live [OF assms(2)])
      (blast intro: array_live [OF assms(1)])
qed

lemma good_uniqueAdd_each:
  assumes "lang_ok ps" "owner ps r (scope ps)" "\<forall>x \<in> set xs. live ps x"
    and "\<And>x qs. lang_ok qs \<Longrightarrow> ext ps qs \<Longrightarrow> owner qs r (scope qs) \<Longrightarrow> live qs x \<Longrightarrow> runs (f x) (\<lambda>_ _. True) qs"
  shows "runs (forEach f xs) (\<lambda>_ _. True) ps"
  by (rule good_forEach [OF assms(1)], rule assms(4))
    (use assms(2,3) in \<open>auto simp: ext_sel intro: ext_live ext_owner\<close>)

lemmas good_ops3 = good_arith_operation good_offsets good_equal_names

lemmas [good_intros] = good_ops3 [THEN good_bind] good_ops3 [THEN good_conseq]

subsection \<open>Native functions\<close>

lemma good_mk_leaf:
  assumes "lang_ok ps"
  shows "runs (mk_int i) (\<lambda>a ps'. live ps' a) ps" "runs (mk_double d) (\<lambda>a ps'. live ps' a) ps"
    "runs (mk_string s) (\<lambda>a ps'. live ps' a) ps"
  unfolding mk_int_def mk_double_def mk_string_def
  by (rule good_made_live [OF good_mk_node [OF assms]], simp)+

text \<open>An evaluation that is safe on every node.\<close>

definition good_eval :: "(nat \<Rightarrow> nat lang) \<Rightarrow> bool" where
  "good_eval ev \<longleftrightarrow> (\<forall>a ps. lang_ok ps \<longrightarrow> live ps a \<longrightarrow> runs (ev a) (\<lambda>x ps'. live ps' x) ps)"

lemma good_evalD: "good_eval ev \<Longrightarrow> lang_ok ps \<Longrightarrow> live ps a \<Longrightarrow> runs (ev a) (\<lambda>x ps'. live ps' x) ps"
  by (simp add: good_eval_def)

definition live_member :: "ParserState \<Rightarrow> nat member \<Rightarrow> bool" where
  "live_member ps p \<longleftrightarrow> (\<forall>a \<in> set_member p. live ps a)"

lemma ext_live_member: "ext ps ps' \<Longrightarrow> live_member ps p \<Longrightarrow> live_member ps' p"
  by (auto simp: live_member_def intro: ext_live)

lemma good_arg:
  assumes "good_eval ev" "lang_ok ps" "live_member ps p"
  shows "runs (arg ev p) (\<lambda>x ps'. live ps' x) ps"
  unfolding arg_def
  by (auto intro!: good_value_of [THEN good_bind] good_evalD [OF assms(1)] simp: assms)
    (use assms(3) in \<open>auto simp: live_member_def\<close>)

lemma good_with_member:
  assumes "lang_ok ps" "live ps a"
    and "\<And>n x. heap ps a = Some (Some n) \<Longrightarrow> get n = Some x \<Longrightarrow> runs (k x) (\<lambda>x ps'. live ps' x) ps"
  shows "runs (with_member get a k) (\<lambda>x ps'. live ps' x) ps"
  unfolding with_member_def
  by (auto intro!: good_readN [THEN good_bind] good_empty_live assms split: option.split)

lemmas good_native = good_arg [THEN good_bind] good_with_member good_mk_leaf good_empty_live

lemma good_native_simple:
  assumes "good_eval ev" "lang_ok ps" "live_member ps p"
  shows "runs (native_to_int f ev p) (\<lambda>x ps'. live ps' x) ps"
    "runs (native_libm E fn ev p) (\<lambda>x ps'. live ps' x) ps"
    "runs (native_dbl ev p) (\<lambda>x ps'. live ps' x) ps"
    "runs (native_array_size ev p) (\<lambda>x ps'. live ps' x) ps"
    "runs (native_dns_addr ev p) (\<lambda>x ps'. live ps' x) ps"
  unfolding native_to_int_def native_libm_def native_dbl_def native_array_size_def native_dns_addr_def
  by (auto intro!: good_native assms)

lemma good_native_pow:
  assumes "good_eval ev" "lang_ok ps" "live_member ps p1" "live_member ps p2"
  shows "runs (native_pow E ev p1 p2) (\<lambda>x ps'. live ps' x) ps"
  unfolding native_pow_def
  by (auto intro!: good_native assms) (blast intro: ext_live ext_live_member assms)+

lemma good_type_name_of: "lang_ok ps \<Longrightarrow> runs (type_name_of n) (\<lambda>_ ps'. ps' = ps) ps"
  unfolding type_name_of_def by (auto intro!: good_ret good_stop split: option.split)

lemma good_push_matches: "lang_ok ps \<Longrightarrow> runs (push_matches ty nm n) (\<lambda>_ ps'. ps' = ps) ps"
  unfolding push_matches_def
  by (auto intro!: good_value_of [THEN good_bind] good_type_name_of [THEN good_bind] good_ret)

lemma good_native_push_back:
  assumes "good_eval ev" "lang_ok ps" "live_member ps p1" "live_member ps p2"
  shows "runs (native_push_back E ev p1 p2) (\<lambda>x ps'. live ps' x) ps"
proof -
  have new: "runs (andThen (new_entry k a) (\<lambda>r. case r of None \<Rightarrow> empty_token
      | Some c \<Rightarrow> andThen (updateADT_ps E c b) (\<lambda>r. if r = - 1 then empty_token
          else andThen (push_back a c) (\<lambda>_. empty_token)))) (\<lambda>x ps'. live ps' x) qs"
    if q: "lang_ok qs" "live qs a" "live qs b" for k a b qs
  proof -
    obtain t where t: "owner qs a t" using live_owner [OF q(2)] by blast
    show ?thesis
      by (auto intro!: good_new_entry [OF q(1) t, THEN good_bind] good_empty_live
          good_updateADT_ps [THEN good_bind] good_push_back [of _ _ t, THEN good_bind] split: option.split)
        (blast intro: lang_live q t)+
  qed
  show ?thesis unfolding native_push_back_def
    by (auto intro!: good_native good_readN [THEN good_bind] good_push_matches [THEN good_bind] new assms)
      (blast intro: ext_live ext_live_member assms)+
qed

lemma good_native_pop_back:
  assumes "good_eval ev" "lang_ok ps" "live_member ps p"
  shows "runs (native_pop_back ev p) (\<lambda>x ps'. live ps' x) ps"
  unfolding native_pop_back_def
  by (auto intro!: good_native good_ret good_write_array [THEN good_bind] assms
      simp: array_of_Some dest: in_set_butlastD)

definition good_search :: "(ASTType \<Rightarrow> nat list \<Rightarrow> int option lang) \<Rightarrow> bool" where
  "good_search search \<longleftrightarrow> (\<forall>ty vec ps. lang_ok ps \<longrightarrow> (\<forall>a \<in> set vec. live ps a) \<longrightarrow>
     runs (search ty vec) (offset_at ps) ps)"

lemma good_searches: "good_search arrayLargestOffset" "good_search arraySmallestOffset"
  by (simp_all add: good_search_def good_offsets)

lemma good_searchD: "good_search search \<Longrightarrow> lang_ok ps \<Longrightarrow> \<forall>a \<in> set vec. live ps a \<Longrightarrow>
    runs (search ty vec) (offset_at ps) ps"
  by (simp add: good_search_def)

lemma good_native_offset:
  assumes "good_eval ev" "lang_ok ps" "live_member ps p" "good_search search"
  shows "runs (native_offset search ev p) (\<lambda>x ps'. live ps' x) ps"
  unfolding native_offset_def
  by (auto intro!: good_native assms good_searchD [OF assms(4), THEN good_bind] split: option.split)
    (blast intro: array_live)

lemma good_native_best:
  assumes "good_eval ev" "lang_ok ps" "live_member ps p" "good_search search"
  shows "runs (native_best search i0 d0 ev p) (\<lambda>x ps'. live ps' x) ps"
proof -
  have best: "runs (andThen (search ty vec) (\<lambda>r. case r of None \<Rightarrow> empty_token
       | Some i \<Rightarrow> if i \<ge> int (length vec) then empty_token
           else if ty = INT_TYPE
           then (if i = - 1 then mk_int i0 else andThen (readAs int_of (vec ! nat i)) mk_int)
           else if ty = DOUBLE_TYPE
           then (if i = - 1 then mk_double d0 else andThen (readAs double_of (vec ! nat i)) mk_double)
           else empty_token)) (\<lambda>x ps'. live ps' x) qs"
    if "lang_ok qs" "\<forall>a \<in> set vec. live qs a" for qs ty vec
    by (rule good_bind [OF good_searchD [OF assms(4) that]])
      (use that in \<open>auto simp: offset_at_def intro!: good_empty_live good_mk_leaf good_readAs [THEN good_bind]
        split: option.split\<close>)
  show ?thesis unfolding native_best_def
    by (auto intro!: good_native assms best) (blast intro: array_live)
qed

lemma good_sum_entries:
  assumes "lang_ok ps" "\<forall>a \<in> set as. live ps a"
  shows "runs (sum_entries E get s as) (\<lambda>_ ps'. ps' = ps) ps"
  using assms(2)
  by (induction as arbitrary: s)
    (auto intro!: good_ret good_readN [THEN good_bind] split: option.split simp: assms(1))

lemma good_native_avg:
  assumes "good_eval ev" "lang_ok ps" "live_member ps p"
  shows "runs (native_avg E ev p) (\<lambda>x ps'. live ps' x) ps"
  unfolding native_avg_def
  by (auto intro!: good_native assms good_sum_entries [THEN good_bind] split: option.split)
    (blast intro: array_live)+

end
