(* ===== verification/Lang_Safety.thy ===== *)
theory Lang_Safety
  imports Lang_Values
begin

text \<open>
  The evaluator in the logic. A node is \<open>global\<close> when it belongs to the outermost table, which is
  never left: the program text is, and so is what a statement answers (the empty node or a jump), so
  it outlives the scope it was computed in. The locale \<open>interpreter\<close> states what the operations that
  leave the interpreter promise, and shows that every evaluation is safe.
\<close>

definition global :: "ParserState \<Rightarrow> nat \<Rightarrow> bool" where
  "global ps a \<longleftrightarrow> owner ps a (scope0 ps)"

lemma ext_global: "ext ps ps' \<Longrightarrow> global ps a \<Longrightarrow> global ps' a"
  by (auto simp: global_def ext_sel intro: ext_owner)

lemma global_live: "global ps a \<Longrightarrow> live ps a"
  by (auto simp: global_def intro: owner_live)

lemma global_empty [simp]: "lang_ok ps \<Longrightarrow> global ps (empty_node ps)"
  by (simp add: global_def lang_okD(4))

text \<open>The program's own nodes point to nodes of the program.\<close>

lemma code_global:
  assumes "lang_ok ps" "heap ps a = Some (Some n)" "node_type n \<in> code_types"
  shows "global ps a" "c \<in> refs n \<Longrightarrow> global ps c"
proof -
  obtain t where t: "owner ps a t" "node_ok ps t n" by (rule node_at_ok [OF assms(1,2)])
  then show "global ps a" using assms(3) by (simp add: global_def node_ok_def)
  assume "c \<in> refs n"
  then obtain t' where "owner ps c t'" "t' \<le> scope0 ps"
    using t assms(3) by (auto simp: node_ok_def inside_def)
  then show "global ps c"
    using owner_scope [OF assms(1)] scope0_le [OF assms(1)] by (metis global_def order_antisym)
qed

lemma jump_global: "lang_ok ps \<Longrightarrow> heap ps a = Some (Some n) \<Longrightarrow> is_jump n \<Longrightarrow> global ps a"
  by (rule code_global(1)) (auto simp: is_jump_def code_types_def)

lemma good_empty_global: "lang_ok ps \<Longrightarrow> runs empty_token (\<lambda>a ps'. global ps' a) ps"
  by (rule good_conseq [OF good_empty_token]) auto

lemma good_pass_jump:
  assumes "lang_ok ps" "live ps a"
  shows "runs (pass_jump a) (\<lambda>x ps'. global ps' x) ps"
  unfolding pass_jump_def
  by (auto intro!: good_readN [THEN good_bind] good_ret good_empty_global assms)
    (rule jump_global [OF assms(1)])

lemma good_member_global:
  assumes "lang_ok ps" "live ps a" "\<And>x. runs (k x) (\<lambda>x ps'. global ps' x) ps"
  shows "runs (with_member get a k) (\<lambda>x ps'. global ps' x) ps"
  unfolding with_member_def
  by (auto intro!: good_readN [THEN good_bind] good_empty_global assms split: option.split)

lemma good_global_live: "runs m (\<lambda>x ps'. global ps' x) ps \<Longrightarrow> runs m (\<lambda>x ps'. live ps' x) ps"
  by (erule good_conseq) (rule global_live)

subsection \<open>Arrays as sets\<close>

lemma good_same_arrays:
  assumes "lang_ok ps" "live ps a" "live ps b"
  shows "runs (same_arrays a b) (\<lambda>_ ps'. ps' = ps) ps"
  unfolding same_arrays_def
  by (auto intro!: good_readN [THEN good_bind] good_equal_names good_ret assms split: option.split)

lemma good_new_like:
  assumes "lang_ok ps" "live ps a"
  shows "runs (new_like E a) (\<lambda>r ps'. made ps' r) ps"
  unfolding new_like_def by (auto intro!: good_readAs [THEN good_bind] good_ASTCreate_ps assms)

lemma good_intersect_step:
  assumes "lang_ok ps" "owner ps r (scope ps)" "live ps x" "\<forall>c \<in> set vec. live ps c"
  shows "runs (intersect_step E r vec x) (\<lambda>_ _. True) ps"
proof -
  have "runs (existsEach (ADTEqual (e_stack E) x) vec) (\<lambda>_ ps'. ps' = ps) ps"
    by (rule good_existsEach [OF assms(1)]) (use assms in \<open>auto intro: good_ADTEqual\<close>)
  then show ?thesis unfolding intersect_step_def
    by (rule good_bind) (auto intro!: good_uniqueAdd good_ret assms)
qed

lemma made_owner: "lang_ok ps \<Longrightarrow> made ps r \<Longrightarrow> heap ps r = Some (Some n) \<Longrightarrow> node_type n \<noteq> EMPTY_TYPE \<Longrightarrow>
    owner ps r (scope ps)"
  using lang_okD(3) by (fastforce simp: made_def)

text \<open>What is made of a new array and the two argument arrays.\<close>

lemma good_with_new:
  assumes "lang_ok ps" "live ps a"
    and "\<And>r qs. lang_ok qs \<Longrightarrow> ext ps qs \<Longrightarrow> owner qs r (scope qs) \<Longrightarrow> runs (k r) (\<lambda>x ps'. live ps' x) qs"
  shows "runs (andThen (new_like E a) (\<lambda>r. andThen (is_empty r) (\<lambda>e. if e then empty_token else k r)))
    (\<lambda>x ps'. live ps' x) ps"
  unfolding is_empty_def andThen_assoc
  by (auto intro!: good_new_like [THEN good_bind] good_readN [THEN good_bind] good_empty_live assms(1,2)
      dest: made_live) (blast intro: assms(3) made_owner)

lemma good_native_intersect:
  assumes "good_eval ev" "lang_ok ps" "live_member ps p1" "live_member ps p2"
  shows "runs (native_intersect E ev p1 p2) (\<lambda>x ps'. live ps' x) ps"
proof -
  have fill: "runs (andThen (forEach (intersect_step E r vect_2) vect_1)
      (\<lambda>x. if x = - 1 then empty_token else ret r)) (\<lambda>x ps'. live ps' x) qs"
    if q: "lang_ok qs" "owner qs r (scope qs)" "\<forall>c \<in> set vect_1. live qs c" "\<forall>c \<in> set vect_2. live qs c"
    for r vect_1 vect_2 qs
  proof (rule good_bind [OF good_forEach [OF q(1)]])
    fix c rs assume c: "c \<in> set vect_1" "lang_ok rs" "ext qs rs"
    then show "runs (intersect_step E r vect_2 c) (\<lambda>_ _. True) rs"
      using q by (intro good_intersect_step) (auto simp: ext_sel intro: ext_owner ext_live)
  next
    fix x rs assume "lang_ok rs" "ext qs rs"
    then show "runs (if x = - 1 then empty_token else ret r) (\<lambda>x ps'. live ps' x) rs"
      using q(2) by (auto intro!: good_empty_live good_ret intro: owner_live ext_live)
  qed
  show ?thesis unfolding native_intersect_def
    by (auto intro!: good_arg [THEN good_bind] good_same_arrays [THEN good_bind] good_empty_live
        good_with_new good_vector_of [THEN good_bind] fill assms)
      (blast intro: ext_live_member ext_live assms)+
qed

lemma good_native_union:
  assumes "good_eval ev" "lang_ok ps" "live_member ps p1" "live_member ps p2"
  shows "runs (native_union E ev p1 p2) (\<lambda>x ps'. live ps' x) ps"
proof -
  have add: "runs (uniqueAdd_all E r vec) (\<lambda>_ _. True) qs"
    if "lang_ok qs" "owner qs r (scope qs)" "\<forall>c \<in> set vec. live qs c" for r vec qs
    unfolding uniqueAdd_all_def by (rule good_uniqueAdd_each [OF that]) (rule good_uniqueAdd)
  have then_: "runs (andThen (uniqueAdd_all E r vec) (\<lambda>x. if x = - 1 then empty_token else k))
      (\<lambda>x ps'. live ps' x) qs"
    if q: "lang_ok qs" "owner qs r (scope qs)" "\<forall>c \<in> set vec. live qs c"
      and k: "\<And>rs. lang_ok rs \<Longrightarrow> ext qs rs \<Longrightarrow> runs k (\<lambda>x ps'. live ps' x) rs" for r vec qs k
    by (rule good_bind [OF add [OF q]]) (auto intro: good_empty_live k)
  have fill: "runs (andThen (vector_of a) (\<lambda>vect_1. andThen (uniqueAdd_all E r vect_1) (\<lambda>x.
        if x = - 1 then empty_token
        else andThen (vector_of b) (\<lambda>vect_2. andThen (uniqueAdd_all E r vect_2) (\<lambda>x.
          if x = - 1 then empty_token else ret r))))) (\<lambda>x ps'. live ps' x) qs"
    if q: "lang_ok qs" "owner qs r (scope qs)" "live qs a" "live qs b" for a b r qs
  proof (rule good_bind [OF good_vector_of [OF q(1,3)]], rule then_; clarify?)
    fix rs vect_1 assume r: "lang_ok rs" "ext qs rs"
    have o: "owner rs r (scope rs)" "live rs b" using q r by (auto simp: ext_sel intro: ext_owner ext_live)
    show "runs (andThen (vector_of b) (\<lambda>vect_2. andThen (uniqueAdd_all E r vect_2) (\<lambda>x.
          if x = - 1 then empty_token else ret r))) (\<lambda>x ps'. live ps' x) rs"
      by (rule good_bind [OF good_vector_of [OF r(1) o(2)]], rule then_)
        (use o(1) in \<open>auto intro!: good_ret intro: ext_live owner_live\<close>)
  qed (use q in auto)
  show ?thesis unfolding native_union_def
    by (auto intro!: good_arg [THEN good_bind] good_same_arrays [THEN good_bind] good_empty_live
        good_with_new fill assms)
      (blast intro: ext_live_member ext_live assms)+
qed

subsection \<open>Scopes\<close>

lemma enter_run:
  assumes "lang_ok ps"
  shows "new_context ps = Inr (0, entered (scope ps) ps)"
    "new_var_table ps = Inr ((0, Val (scope ps)), entered (scope0 ps) ps)"
  using lang_okD(1) [OF assms]
  by (simp_all add: new_context_def new_var_table_def push_table_def entered_def scopes_ok_def
      scope_def scope0_def andThen_def gets_def modify_def ret_def)

text \<open>A body in a scope of its own, then the rest outside of it.\<close>

lemma good_in_scope:
  assumes ok: "lang_ok ps" and enter: "en ps = Inr (v, entered p ps)" and p: "p \<in> set (var_table ps)"
    and c: "c v = andThen m (\<lambda>x. andThen remove_var_table (\<lambda>r. K r x))"
    and body: "runs m Q (entered p ps)"
    and after: "\<And>x ps2 ps3. lang_ok ps2 \<Longrightarrow> ext (entered p ps) ps2 \<Longrightarrow> Q x ps2 \<Longrightarrow>
      lang_ok ps3 \<Longrightarrow> ext ps ps3 \<Longrightarrow> (\<forall>a t. t \<in> set (var_table ps) \<longrightarrow> owner ps2 a t \<longrightarrow> owner ps3 a t) \<Longrightarrow>
      runs (K 0 x) R ps3"
  shows "runs (andThen en c) R ps"
proof (cases "m (entered p ps)")
  case (Inl f)
  then have "andThen en c ps = Inl f" using enter c by (simp add: andThen_def)
  moreover have "f \<noteq> Dangling" using body Inl by (simp add: runs_def)
  ultimately show ?thesis by (simp add: runs_def)
next
  case (Inr r)
  obtain x ps2 where r: "r = (x, ps2)" by fastforce
  have "case m (entered p ps) of Inl f \<Rightarrow> f \<noteq> Dangling
    | Inr (x, ps2) \<Rightarrow> \<exists>ps3. remove_var_table ps2 = Inr (0, ps3) \<and> lang_ok ps3 \<and> ext ps ps3 \<and> runs (K 0 x) R ps3"
    by (rule good_scoped [OF ok p body, where k = "K 0" and R = R]) (rule after)
  then obtain ps3 where 3: "remove_var_table ps2 = Inr (0, ps3)" "ext ps ps3" "runs (K 0 x) R ps3"
    unfolding Inr r sum.case prod.case by blast
  then have run: "andThen en c ps = K 0 x ps3" using enter c Inr r by (simp add: andThen_def)
  show ?thesis
    using 3(2,3) unfolding runs_def run by (cases "K 0 x ps3") (auto intro: ext_trans)
qed

lemma scope0_global: "lang_ok ps \<Longrightarrow> p \<in> set (var_table ps) \<Longrightarrow> ext (entered p ps) ps2 \<Longrightarrow>
    \<forall>a t. t \<in> set (var_table ps) \<longrightarrow> owner ps2 a t \<longrightarrow> owner ps3 a t \<Longrightarrow> ext ps ps3 \<Longrightarrow>
    global ps2 x \<Longrightarrow> global ps3 x"
  using entered_ok(3) scope0_in by (auto simp: global_def ext_sel)

text \<open>An evaluation that is safe, and answers a global node where the node is a statement.\<close>

definition safe_eval :: "(nat \<Rightarrow> nat lang) \<Rightarrow> bool" where
  "safe_eval ev \<longleftrightarrow> (\<forall>a ps. lang_ok ps \<longrightarrow> live ps a \<longrightarrow>
     runs (ev a) (\<lambda>x ps'. live ps' x \<and> (block ps a \<longrightarrow> global ps' x)) ps)"

lemma safe_evalD:
  assumes "safe_eval ev" "lang_ok ps" "live ps a"
  shows "runs (ev a) (\<lambda>x ps'. live ps' x) ps" "block ps a \<Longrightarrow> runs (ev a) (\<lambda>x ps'. global ps' x) ps"
proof -
  have "runs (ev a) (\<lambda>x ps'. live ps' x \<and> (block ps a \<longrightarrow> global ps' x)) ps"
    using assms by (simp add: safe_eval_def)
  then show "runs (ev a) (\<lambda>x ps'. live ps' x) ps" "block ps a \<Longrightarrow> runs (ev a) (\<lambda>x ps'. global ps' x) ps"
    by (rule good_conseq; simp)+
qed

lemma safe_good_eval: "safe_eval ev \<Longrightarrow> good_eval ev"
  by (simp add: good_eval_def safe_evalD)

subsection \<open>Expressions and assignments\<close>

lemma good_declared_size:
  assumes "good_eval ev" "lang_ok ps" "live_member ps (v_array_size d)"
  shows "runs (declared_size ev d) (\<lambda>_ _. True) ps"
  unfolding declared_size_def
  by (auto intro!: good_arg [THEN good_bind] good_readN [THEN good_bind] good_ret assms)

lemma good_eval_new_var:
  assumes "good_eval ev" "lang_ok ps" "live_member ps (v_array_size d)"
  shows "runs (eval_new_var E ev d) (\<lambda>x ps'. live ps' x) ps"
  unfolding eval_new_var_def
  by (auto intro!: good_declared_size [THEN good_bind] good_empty_live good_variable_create [THEN good_made_live] assms
      split: option.split)

lemma good_mk_sep_list_vector:
  assumes "lang_ok ps" "\<forall>a \<in> set as. live ps a"
  shows "runs (mk_sep_list_vector as) (\<lambda>x ps'. live ps' x) ps"
  unfolding mk_sep_list_vector_def
  by (rule good_made_live [OF good_mk_node [OF assms(1)]])
    (use assms live_under in \<open>auto simp: node_ok_values\<close>)

lemma good_eval_all:
  assumes "good_eval ev" "lang_ok ps" "\<forall>a \<in> set es. live ps a"
  shows "runs (mapEach ev es) (\<lambda>as ps'. \<forall>a \<in> set as. live ps' a) ps"
  by (rule good_mapEach [OF assms(2)]) (use assms(3) in \<open>auto intro: good_evalD [OF assms(1)] ext_live\<close>)

lemma good_initial_value:
  assumes "good_eval ev" "lang_ok ps" "live ps b"
  shows "runs (initial_value ev b) (\<lambda>x ps'. live ps' x) ps"
  unfolding initial_value_def
  by (auto intro!: good_readN [THEN good_bind] good_eval_all [THEN good_bind] good_mk_sep_list_vector
      good_evalD [OF assms(1)] assms split: option.split)
    (blast intro: sep_live [OF assms(2)])

lemma good_eval_new_var_assign:
  assumes "good_eval ev" "lang_ok ps" "live ps b"
  shows "runs (eval_new_var_assign E ev d b) (\<lambda>x ps'. live ps' x) ps"
  unfolding eval_new_var_assign_def
  by (auto intro!: good_initial_value [THEN good_bind] good_is_empty [THEN good_bind] good_ret good_empty_live
      good_variable_create [THEN good_bind] good_updateADT_ps [THEN good_bind] assms)
    (blast intro: lang_live)+

lemma good_eval_ref_var:
  assumes "lang_ok ps"
  shows "runs (eval_ref_var s) (\<lambda>x ps'. live ps' x) ps"
  unfolding eval_ref_var_def
  by (auto intro!: good_get_var_table [THEN good_bind] good_lookup [THEN good_bind] good_empty_live good_ret
      scope_in assms split: option.split) (blast intro: under_live)

lemma good_eval_ref_array:
  assumes "good_eval ev" "lang_ok ps" "live ps x" "live ps i"
  shows "runs (eval_ref_array ev x i) (\<lambda>x ps'. live ps' x) ps"
  unfolding eval_ref_array_def
  by (auto intro!: good_evalD [OF assms(1), THEN good_bind] good_with_member good_empty_live good_ret assms)
    (auto intro: ext_live assms array_live)

lemma good_eval_ref_adt:
  assumes "good_eval ev" "lang_ok ps" "live ps x"
  shows "runs (eval_ref_adt ev x s) (\<lambda>x ps'. live ps' x) ps"
  unfolding eval_ref_adt_def
  by (auto intro!: good_evalD [OF assms(1), THEN good_bind] good_with_member good_empty_live good_ret assms
      split: option.split) (auto intro: struct_live)

lemma good_eval_two:
  assumes "good_eval ev" "lang_ok ps" "live ps l" "live ps r"
    and "\<And>a b qs. lang_ok qs \<Longrightarrow> ext ps qs \<Longrightarrow> live qs a \<Longrightarrow> live qs b \<Longrightarrow> runs (k a b) (\<lambda>x ps'. live ps' x) qs"
  shows "runs (andThen (ev r) (\<lambda>b. andThen (ev l) (\<lambda>a. k a b))) (\<lambda>x ps'. live ps' x) ps"
  by (auto intro!: good_evalD [OF assms(1), THEN good_bind] assms)
    (blast intro: ext_live ext_trans assms)+

lemma good_eval_assign:
  assumes "good_eval ev" "lang_ok ps" "live ps l" "live ps r"
  shows "runs (eval_assign E ev l r) (\<lambda>x ps'. live ps' x) ps"
  unfolding eval_assign_def
  by (rule good_eval_two [OF assms])
    (auto intro!: good_is_empty [THEN good_bind] good_ret good_updateADT_ps [THEN good_bind] good_empty_live,
      blast intro: ext_live)

lemma good_eval_bin:
  assumes "good_eval ev" "lang_ok ps" "live ps l" "live ps r"
  shows "runs (eval_bin E ev op l r) (\<lambda>x ps'. live ps' x) ps"
  unfolding eval_bin_def
  by (rule good_eval_two [OF assms])
    (auto intro!: good_is_empty [THEN good_bind] good_ret good_arith_operation [THEN good_made_live])

lemma good_eval_print:
  assumes "good_eval ev" "lang_ok ps" "live ps u"
  shows "runs (eval_print ev u) (\<lambda>x ps'. live ps' x) ps"
  unfolding eval_print_def
  by (auto intro!: good_evalD [OF assms(1), THEN good_bind] good_readN [THEN good_bind] good_ret
      good_empty_live assms)

lemma unary_type:
  assumes "unary_result E op n = Some n'"
  shows "node_type n' = node_type n" "node_type n' \<in> {INT_TYPE, DOUBLE_TYPE, STRING_TYPE}"
  using assms
  by (auto simp: unary_result_def int_of_Some double_of_Some split: if_splits option.splits)

lemma good_eval_unary:
  assumes "good_eval ev" "lang_ok ps" "live ps u"
  shows "runs (eval_unary E ev op u) (\<lambda>x ps'. live ps' x) ps"
proof -
  have w: "runs (andThen (writeN a n') (\<lambda>_. ret a)) (\<lambda>x ps'. live ps' x) qs"
    if q: "lang_ok qs" "live qs a" "heap qs a = Some (Some n)" "unary_result E op n = Some n'" for a n n' qs
    by (rule good_bind [OF good_write_live [OF q(1,2) node_ok_basic [OF unary_type(2) [OF q(4)]]]])
      (use q unary_type in \<open>auto simp: same_kind_def intro!: good_ret intro: ext_live\<close>)
  show ?thesis unfolding eval_unary_def
    by (auto intro!: good_evalD [OF assms(1), THEN good_bind] good_readN [THEN good_bind] good_ret w
        good_empty_live assms split: option.split)
qed

end
