(* ===== verification/Lang_Interpreter.thy ===== *)
theory Lang_Interpreter
  imports Lang_Safety
begin

text \<open>
  Statements, calls and the evaluator in the logic. The locale \<open>interpreter\<close> states what the
  evaluator relies on where it leaves the interpreter: suspending it, a remote call and the native
  functions of the node keep the invariant and answer a live node. Then every evaluation does, at any
  nesting depth.
\<close>

subsection \<open>Statements\<close>

lemma good_eval_seq:
  assumes "safe_eval ev" "lang_ok ps" "live ps l" "live ps r"
  shows "runs (eval_seq ev l r) (\<lambda>x ps'. global ps' x) ps"
  unfolding eval_seq_def
  by (auto intro!: safe_evalD(1) [OF assms(1), THEN good_bind] good_readN [THEN good_bind] good_ret
      good_pass_jump assms) (blast intro: jump_global ext_live assms)+

lemma good_eval_if:
  assumes "safe_eval ev" "lang_ok ps" "live ps c" "live ps l" "live ps r"
  shows "runs (eval_if ev c l r) (\<lambda>x ps'. global ps' x) ps"
  unfolding eval_if_def
  by (auto intro!: safe_evalD(1) [OF assms(1), THEN good_bind] good_member_global good_pass_jump assms)
    (blast intro: ext_live assms)+

lemma good_eval_context:
  assumes "safe_eval ev" "lang_ok ps" "live ps u" "block ps u"
  shows "runs (eval_context ev u) (\<lambda>x ps'. global ps' x) ps"
  unfolding eval_context_def remove_context_def
proof (rule good_in_scope [where en = new_context and ps = ps and p = "scope ps" and v = 0,
      OF assms(2) enter_run(1) [OF assms(2)] scope_in [OF assms(2)]])
  let ?K = "\<lambda>(r :: int) x. if r = - 1 then empty_token else pass_jump x"
  show "(if (0 :: int) = - 1 then empty_token else andThen (ev u) (\<lambda>x. andThen remove_var_table (\<lambda>r. ?K r x)))
      = andThen (ev u) (\<lambda>x. andThen remove_var_table (\<lambda>r. ?K r x))" by simp
  note e = entered_ok [OF assms(2) scope_in [OF assms(2)]]
  show "runs (ev u) (\<lambda>x ps'. global ps' x) (entered (scope ps) ps)"
    using assms(3,4) by (intro safe_evalD(2) [OF assms(1) e(1)]) (simp_all add: live_def block_def e(2))
  fix x ps2 ps3
  assume "ext (entered (scope ps) ps) ps2" "global ps2 x" "lang_ok ps3" "ext ps ps3"
    "\<forall>a t. t \<in> set (var_table ps) \<longrightarrow> owner ps2 a t \<longrightarrow> owner ps3 a t"
  then have "global ps3 x" using scope0_global [OF assms(2) scope_in [OF assms(2)]] by blast
  then show "runs (?K 0 x) (\<lambda>x ps'. global ps' x) ps3"
    using good_pass_jump [OF \<open>lang_ok ps3\<close>] by (simp add: global_live)
qed

lemma good_run_loop:
  assumes body: "\<And>qs. lang_ok qs \<Longrightarrow> ext ps qs \<Longrightarrow> runs body (\<lambda>x ps'. live ps' x) qs"
    and cond: "\<And>qs. lang_ok qs \<Longrightarrow> ext ps qs \<Longrightarrow> runs cond (\<lambda>x ps'. live ps' x) qs"
    and "next": "\<And>qs. lang_ok qs \<Longrightarrow> ext ps qs \<Longrightarrow> runs next (\<lambda>_ _. True) qs"
    and "lang_ok ps" "live ps e"
  shows "runs (run_loop k cond body next e) (\<lambda>x ps'. global ps' x) ps"
  using assms
proof (induction k arbitrary: ps e)
  case (Suc k)
  have rest: "runs (andThen next (\<lambda>_. andThen cond (run_loop k cond body next))) (\<lambda>x ps'. global ps' x) qs"
    if q: "lang_ok qs" "ext ps qs" for qs
  proof (rule good_bind [OF Suc.prems(3) [OF q]], rule good_bind [OF Suc.prems(2)])
    fix u rs assume r: "lang_ok rs" "ext qs rs"
    then show "lang_ok rs" "ext ps rs" using q by (blast intro: ext_trans)+
    fix e' ss assume s: "lang_ok ss" "ext rs ss" "live ss e'"
    have "ext ps ss" using q r s by (blast intro: ext_trans)
    then show "runs (run_loop k cond body next e') (\<lambda>x ps'. global ps' x) ss"
      using Suc.prems(1-3) s by (intro Suc.IH) (blast intro: ext_trans)+
  qed
  show ?case unfolding run_loop.simps
    by (auto intro!: good_member_global Suc.prems(1) [THEN good_bind] good_readN [THEN good_bind] good_ret
        good_empty_global rest Suc.prems(4,5))
      (auto intro: code_global(1) simp: code_types_def)
qed (simp add: good_stop)

lemma good_eval_loop:
  assumes "safe_eval ev" "lang_ok ps" "live ps c" "live ps body"
  shows "runs (eval_loop E ev c body) (\<lambda>x ps'. global ps' x) ps"
  unfolding eval_loop_def
  by (rule good_bind [OF safe_evalD(1) [OF assms(1-3)]], rule good_run_loop)
    (auto intro!: safe_evalD(1) [OF assms(1)] good_ret intro: ext_trans ext_live assms(3,4))

lemma good_eval_for_loop:
  assumes "safe_eval ev" "lang_ok ps" "live ps n1" "live ps n2" "live ps n3" "live ps n4"
  shows "runs (eval_for_loop E ev n1 n2 n3 n4) (\<lambda>x ps'. global ps' x) ps"
  unfolding eval_for_loop_def
proof (rule good_bind [OF safe_evalD(1) [OF assms(1-3)]], rule good_bind [OF safe_evalD(1) [OF assms(1)]])
  fix x qs y rs assume q: "lang_ok qs" "ext ps qs"
  then show "lang_ok qs" "live qs n2" using assms(4) by (auto intro: ext_live)
  assume r: "lang_ok rs" "ext qs rs" "live rs y"
  then have ext: "ext ps rs" using q(2) by (blast intro: ext_trans)
  then have "live rs n2" "live rs n3" "live rs n4" using assms(4-6) by (blast intro: ext_live)+
  then show "runs (run_loop (e_loops E) (ev n2) (ev n4) (andThen (ev n3) (\<lambda>_. ret ())) y)
      (\<lambda>x ps'. global ps' x) rs"
    by (intro good_run_loop r(1,3) safe_evalD(1) [OF assms(1)] good_bind [OF safe_evalD(1) [OF assms(1)]] good_ret)
      (blast intro: ext_live)+
qed

subsection \<open>Functions and structs\<close>

lemma good_insert_live:
  assumes "lang_ok ps" "live ps a"
  shows "runs (insert_var (scope ps) s a) (\<lambda>_ _. True) ps"
  using assms by (intro good_insert_var scope_in live_under)

lemma good_eval_func_declare:
  assumes "lang_ok ps" "live ps (f_formal_param f)" "live ps (f_node f)" "block ps (f_node f)"
  shows "runs (eval_func_declare f) (\<lambda>x ps'. live ps' x) ps"
proof -
  have mk: "runs (mk_function_call ty nm aty (f_formal_param f) (empty_node ps) (f_node f))
      (\<lambda>a ps'. made ps' a) ps" for ty nm aty
    unfolding mk_function_call_def
    by (rule good_mk_node [OF assms(1)])
      (use assms live_under in \<open>auto simp: node_ok_def refs_def home_def bodies_def parts_def code_types_def\<close>)
  show ?thesis unfolding eval_func_declare_def
    by (auto intro!: good_empty_token [THEN good_bind] mk [THEN good_bind] good_get_var_table [THEN good_bind]
        good_value_of [THEN good_bind] good_insert_live [THEN good_bind] good_empty_live assms(1) made_live)
qed

lemma good_set_actual_param:
  assumes "lang_ok ps" "live ps c" "global ps p"
  shows "runs (set_actual_param c p) (\<lambda>_ _. True) ps"
proof -
  have w: "runs (writeN c (FuncCallN (f\<lparr>f_actual_param := Val p\<rparr>))) (\<lambda>_ _. True) ps"
    if h: "heap ps c = Some (Some (FuncCallN f))" for f
  proof -
    obtain t where t: "owner ps c t" "node_ok ps t (FuncCallN f)" by (rule node_at_ok [OF assms(1) h])
    have "inside ps t p"
      using assms(3) owner_scope [OF assms(1) t(1)] by (auto simp: global_def intro: global_under [OF assms(1)])
    with t(2) have "node_ok ps t (FuncCallN (f\<lparr>f_actual_param := Val p\<rparr>))"
      by (auto simp: node_ok_def refs_def home_def bodies_def parts_def code_types_def)
    then show ?thesis
      by (intro good_True [OF good_writeN [OF assms(1) t(1)]]) (use h in \<open>auto simp: same_kind_def\<close>)
  qed
  show ?thesis unfolding set_actual_param_def
    by (auto intro!: good_readN [THEN good_bind] good_ret good_stop w assms(1,2) simp: func_of_Some
        split: option.split)
qed

lemma good_eval_func_ref:
  assumes "good_eval ev" "lang_ok ps" "global ps p"
  shows "runs (eval_func_ref ev s p) (\<lambda>x ps'. live ps' x) ps"
  unfolding eval_func_ref_def
  by (auto intro!: good_get_var_table [THEN good_bind] good_lookup [THEN good_bind] good_empty_live
      good_set_actual_param [THEN good_bind] good_evalD [OF assms(1)] scope_in assms(2,3) split: option.split)
    (blast intro: under_live ext_live)+

lemma good_make_result:
  assumes "lang_ok ps"
  shows "runs (make_result E f) (\<lambda>r ps'. \<forall>a. r = Some a \<longrightarrow> live ps' a) ps"
  unfolding make_result_def
  by (auto intro!: good_ret good_ASTCreate_ps [THEN good_bind] assms made_live)

lemma good_eval_actuals:
  assumes "good_eval ev" "lang_ok ps" "live_member ps (f_actual_param f)"
  shows "runs (eval_actuals ev f) (\<lambda>as ps'. \<forall>a \<in> set as. live ps' a) ps"
  unfolding eval_actuals_def
  by (auto intro!: good_value_of [THEN good_bind] good_readN [THEN good_bind] good_eval_all good_ret assms(1,2)
      split: option.split)
    (use assms(3) sep_live [OF assms(2)] in \<open>auto simp: live_member_def\<close>)

lemma good_run_body:
  assumes "safe_eval ev" "lang_ok ps" "t \<in> set (var_table ps)" "\<forall>a. tmp = Some a \<longrightarrow> live ps a"
    "live ps (f_formal_param f)" "live ps (f_node f)" "block ps (f_node f)" "\<forall>a \<in> set actual. live ps a"
  shows "runs (run_body E ev f tmp t actual) (\<lambda>x ps'. global ps' x) ps"
proof -
  have result: "runs (case tmp of None \<Rightarrow> ret None
       | Some _ \<Rightarrow> andThen (variable_create E (f_type f) (f_type_name f) (Val (f_array_type f)) 0
           return_string False) (\<lambda>a. ret (Some a))) (\<lambda>r ps'. \<forall>a. r = Some a \<longrightarrow> live ps' a) ps"
    by (auto intro!: good_ret good_variable_create [THEN good_bind] assms(2) made_live split: option.split)
  have run: "runs (if r = - 1 then empty_token else ev (f_node f)) (\<lambda>x ps'. global ps' x) qs"
    if "lang_ok qs" "ext ps qs" for r :: int and qs
    using that assms(6,7) by (auto intro!: good_empty_global safe_evalD(2) [OF assms(1)] intro: ext_live ext_block)
  have copy: "runs (andThen (case (tmp, returnNode) of (Some a, Some b) \<Rightarrow> updateADT (e_stack E) t a b | _ \<Rightarrow> ret 0)
      (\<lambda>_. ret x)) (\<lambda>x ps'. global ps' x) qs"
    if q: "lang_ok qs" "ext ps qs" "\<forall>b. returnNode = Some b \<longrightarrow> live qs b" "global qs x" for returnNode x qs
  proof (rule good_bind)
    show "runs (case (tmp, returnNode) of (Some a, Some b) \<Rightarrow> updateADT (e_stack E) t a b | _ \<Rightarrow> ret 0)
        (\<lambda>_ _. True) qs"
      using q assms(3,4) by (auto intro!: good_updateADT good_ret split: option.split simp: ext_sel intro: ext_live)
    fix y rs assume "lang_ok rs" "ext qs rs"
    then show "runs (ret x) (\<lambda>x ps'. global ps' x) rs"
      using q(4) by (auto intro!: good_ret) (rule ext_global)
  qed
  show ?thesis unfolding run_body_def
  proof (rule good_bind [OF result])
    fix r qs assume q: "lang_ok qs" "ext ps qs" "\<forall>b. r = Some b \<longrightarrow> live qs b"
    show "runs (andThen (param_list_assign E (f_formal_param f) actual) (\<lambda>ra.
        andThen (if ra = - 1 then empty_token else ev (f_node f)) (\<lambda>x.
        andThen (case (tmp, r) of (Some a, Some b) \<Rightarrow> updateADT (e_stack E) t a b | _ \<Rightarrow> ret 0)
          (\<lambda>_. ret x)))) (\<lambda>x ps'. global ps' x) qs"
    proof (rule good_bind [OF good_param_list_assign])
      show "lang_ok qs" "live qs (f_formal_param f)" "\<forall>b \<in> set actual. live qs b"
        using q assms(5,8) by (auto intro: ext_live)
      fix ra :: int and rs assume r: "lang_ok rs" "ext qs rs"
      then have e: "ext ps rs" using q(2) by (blast intro: ext_trans)
      show "runs (andThen (if ra = - 1 then empty_token else ev (f_node f)) (\<lambda>x.
          andThen (case (tmp, r) of (Some a, Some b) \<Rightarrow> updateADT (e_stack E) t a b | _ \<Rightarrow> ret 0)
            (\<lambda>_. ret x))) (\<lambda>x ps'. global ps' x) rs"
        by (rule good_bind [OF run [OF r(1) e]], rule copy)
          (use q r in \<open>auto intro: ext_trans [OF e] ext_live\<close>)
    qed
  qed
qed

lemma good_eval_func_call:
  assumes "safe_eval ev" "lang_ok ps" "live ps (f_formal_param f)" "live ps (f_node f)" "block ps (f_node f)"
    "live_member ps (f_actual_param f)"
  shows "runs (eval_func_call E ev f) (\<lambda>x ps'. live ps' x) ps"
proof -
  have call: "runs (andThen new_var_table (\<lambda>(r, old). if r = - 1 \<or> old = Null then empty_token
       else andThen (value_of old) (\<lambda>old. andThen (run_body E ev f tmp old actual) (\<lambda>x.
         andThen remove_var_table (\<lambda>r. if r = - 1 then empty_token
           else andThen (readN x) (\<lambda>n.
             if node_type n = CONTINUE_TYPE \<or> node_type n = BREAK_TYPE then empty_token
             else case tmp of Some a \<Rightarrow> ret a | None \<Rightarrow> empty_token)))))) (\<lambda>x ps'. live ps' x) qs"
    if q: "lang_ok qs" "ext ps qs" "\<forall>a. tmp = Some a \<longrightarrow> live qs a" "\<forall>a \<in> set actual. live qs a"
    for tmp actual qs
  proof (rule good_in_scope [where en = new_var_table and ps = qs and p = "scope0 qs" and v = "(0, Val (scope qs))",
        OF q(1) enter_run(2) [OF q(1)] scope0_in [OF q(1)]])
    let ?K = "\<lambda>(r :: int) x. if r = - 1 then empty_token else andThen (readN x) (\<lambda>n.
        if node_type n = CONTINUE_TYPE \<or> node_type n = BREAK_TYPE then empty_token
        else case tmp of Some a \<Rightarrow> ret a | None \<Rightarrow> empty_token)"
    let ?m = "run_body E ev f tmp (scope qs) actual"
    show "(case (0 :: int, Val (scope qs)) of (r, old) \<Rightarrow> if r = - 1 \<or> old = Null then empty_token
       else andThen (value_of old) (\<lambda>old. andThen (run_body E ev f tmp old actual) (\<lambda>x.
         andThen remove_var_table (\<lambda>r. ?K r x)))) = andThen ?m (\<lambda>x. andThen remove_var_table (\<lambda>r. ?K r x))"
      by (simp add: value_of_def)
    note e = entered_ok [OF q(1) scope0_in [OF q(1)]]
    have o: "live (entered (scope0 qs) qs) a = live qs a" for a by (simp add: live_def e(2))
    show "runs ?m (\<lambda>x ps'. global ps' x) (entered (scope0 qs) qs)"
      using assms(3-5) q scope_in [OF q(1)]
      by (intro good_run_body [OF assms(1) e(1)]) (auto simp: o block_def intro: ext_live ext_block [unfolded block_def])
    fix x ps2 ps3
    assume a: "ext (entered (scope0 qs) qs) ps2" "global ps2 x" "lang_ok ps3" "ext qs ps3"
      "\<forall>a t. t \<in> set (var_table qs) \<longrightarrow> owner ps2 a t \<longrightarrow> owner ps3 a t"
    then have "live ps3 x" using scope0_global [OF q(1) scope0_in [OF q(1)]] global_live by blast
    then show "runs (?K 0 x) (\<lambda>x ps'. live ps' x) ps3"
      using a(3,4) q(3)
      by (auto intro!: good_readN [THEN good_bind] good_empty_live good_ret split: option.split intro: ext_live)
  qed
  show ?thesis unfolding eval_func_call_def
  proof (rule good_bind [OF good_make_result [OF assms(2)]], rule good_bind [OF good_eval_actuals])
    fix tmp qs assume q: "lang_ok qs" "ext ps qs" "\<forall>a. tmp = Some a \<longrightarrow> live qs a"
    show "good_eval ev" "lang_ok qs" "live_member qs (f_actual_param f)"
      using assms(6) q by (auto intro: safe_good_eval [OF assms(1)] ext_live_member)
    fix actual rs assume r: "lang_ok rs" "ext qs rs" "\<forall>a \<in> set actual. live rs a"
    show "runs (andThen new_var_table (\<lambda>(r, old). if r = - 1 \<or> old = Null then empty_token
       else andThen (value_of old) (\<lambda>old. andThen (run_body E ev f tmp old actual) (\<lambda>x.
         andThen remove_var_table (\<lambda>r. if r = - 1 then empty_token
           else andThen (readN x) (\<lambda>n.
             if node_type n = CONTINUE_TYPE \<or> node_type n = BREAK_TYPE then empty_token
             else case tmp of Some a \<Rightarrow> ret a | None \<Rightarrow> empty_token)))))) (\<lambda>x ps'. live ps' x) rs"
      by (rule call) (use q r in \<open>auto intro: ext_live ext_trans\<close>)
  qed
qed

lemma good_eval_return:
  assumes "good_eval ev" "lang_ok ps" "live ps a" "live ps u"
  shows "runs (eval_return E ev a u) (\<lambda>x ps'. live ps' x) ps"
  unfolding eval_return_def
  by (auto intro!: good_evalD [OF assms(1), THEN good_bind] good_is_empty [THEN good_bind] good_ret
      good_variable_assign [THEN good_bind] assms(2,4)) (blast intro: ext_live assms(3))+

lemma good_eval_def_adt:
  assumes "lang_ok ps" "heap ps a = Some (Some (DefAdtN s p))"
  shows "runs (eval_def_adt a s p) (\<lambda>x ps'. live ps' x) ps"
proof -
  obtain t where t: "owner ps a t" "node_ok ps t (DefAdtN s p)" by (rule node_at_ok [OF assms])
  have "node_ok ps t (AdtN s p)"
    using t(2) by (auto simp: node_ok_def refs_def home_def bodies_def parts_def code_types_def)
  from good_writeN [OF assms(1) t(1) this]
  have w: "runs (writeN a (AdtN s p)) (\<lambda>_ _. True) ps"
    using assms(2) by (intro good_True) (auto simp: same_kind_def)
  show ?thesis unfolding eval_def_adt_def
    by (auto intro!: w [THEN good_bind] good_get_var_table [THEN good_bind] good_insert_live [THEN good_bind]
        good_empty_live) (blast intro: ext_live owner_live t(1))
qed

subsection \<open>The operations that leave the interpreter\<close>

definition safe_yield :: "unit lang \<Rightarrow> bool" where
  "safe_yield m \<longleftrightarrow> (\<forall>ps. lang_ok ps \<longrightarrow> runs m (\<lambda>_ _. True) ps)"

definition safe_rpc :: "(NodeIdentRendv \<Rightarrow> str \<Rightarrow> nat \<Rightarrow> nat lang) \<Rightarrow> bool" where
  "safe_rpc f \<longleftrightarrow> (\<forall>i s p ps. lang_ok ps \<longrightarrow> live ps p \<longrightarrow> runs (f i s p) (\<lambda>x ps'. live ps' x) ps)"

definition safe_native :: "((nat \<Rightarrow> nat lang) \<Rightarrow> ASTNode \<Rightarrow> nat lang) \<Rightarrow> bool" where
  "safe_native f \<longleftrightarrow> (\<forall>ev fn p1 p2 p3 ps. good_eval ev \<longrightarrow> lang_ok ps \<longrightarrow> live_member ps p1 \<longrightarrow>
     live_member ps p2 \<longrightarrow> live_member ps p3 \<longrightarrow>
     runs (f ev (NativeFuncN fn p1 p2 p3)) (\<lambda>x ps'. live ps' x) ps)"

locale interpreter =
  fixes E :: dsl_env
  assumes yield_safe: "safe_yield (e_yield E)"
    and rpc_safe: "safe_rpc (e_rpc E)"
    and native_safe: "safe_native (e_native E)"
begin

lemma good_set_state: "lang_ok ps \<Longrightarrow> runs (set_parser_state s) (\<lambda>_ _. True) ps"
  unfolding set_parser_state_def by (rule good_True [OF good_modify]) auto

lemma good_await:
  assumes "lang_ok ps"
  shows "runs (await E k) (\<lambda>_ _. True) ps"
  using assms
proof (induction k arbitrary: ps)
  case (Suc k)
  have y: "runs (e_yield E) (\<lambda>_ _. True) qs" if "lang_ok qs" for qs
    using yield_safe that by (simp add: safe_yield_def)
  show ?case unfolding await.simps
    by (auto intro!: good_gets [THEN good_bind] good_set_state [THEN good_bind] y [THEN good_bind] Suc.IH
        good_ret Suc.prems)
qed (simp add: good_stop)

lemma good_use_instruction:
  assumes "lang_ok ps"
  shows "runs (use_instruction E) (\<lambda>_ _. True) ps"
proof -
  have d: "runs decrementEvalCount (\<lambda>_ _. True) qs" if "lang_ok qs" for qs
    unfolding decrementEvalCount_def using that by (intro good_True [OF good_modify]) auto
  show ?thesis unfolding use_instruction_def
    by (auto intro!: good_gets [THEN good_bind] good_ret good_await [THEN good_bind] d assms)
qed

lemma good_dest_field:
  assumes "lang_ok ps" "\<forall>x. sm_find m s = Some x \<longrightarrow> live ps x"
  shows "runs (dest_field m s) (\<lambda>_ ps'. ps' = ps) ps"
  unfolding dest_field_def
  by (auto intro!: good_stop good_readAs [THEN good_conseq] assms(1) split: option.split)
    (use assms(2) in blast)

lemma good_eval_rpc:
  assumes "good_eval ev" "lang_ok ps" "live ps d" "live ps p"
  shows "runs (eval_rpc E ev d s p) (\<lambda>x ps'. live ps' x) ps"
proof -
  have call: "runs (e_rpc E i s q) (\<lambda>x ps'. live ps' x) qs" if "lang_ok qs" "live qs q" for i q qs
    using rpc_safe that by (simp add: safe_rpc_def)
  have tail: "runs (andThen (readN p) (\<lambda>n.
       andThen (case sep_of n of Some es \<Rightarrow> mapEach ev es | None \<Rightarrow> ret []) (\<lambda>actual.
       andThen (if actual = [] then empty_token else mk_sep_list_vector actual) (e_rpc E i s))))
      (\<lambda>x ps'. live ps' x) qs" if q: "lang_ok qs" "live qs p" for i qs
  proof (rule good_bind [OF good_readN [OF q]])
    fix n rs assume r: "lang_ok rs" "rs = qs \<and> heap qs p = Some (Some n)"
    have "runs (case sep_of n of Some es \<Rightarrow> mapEach ev es | None \<Rightarrow> ret [])
        (\<lambda>as ps'. \<forall>a \<in> set as. live ps' a) rs"
      using r sep_live [OF q(1)] by (auto intro!: good_eval_all [OF assms(1)] good_ret split: option.split)
    then show "runs (andThen (case sep_of n of Some es \<Rightarrow> mapEach ev es | None \<Rightarrow> ret []) (\<lambda>actual.
       andThen (if actual = [] then empty_token else mk_sep_list_vector actual) (e_rpc E i s)))
       (\<lambda>x ps'. live ps' x) rs"
    proof (rule good_bind)
      fix as ss assume "lang_ok ss" "\<forall>a \<in> set as. live ss a"
      then have "runs (if as = [] then empty_token else mk_sep_list_vector as) (\<lambda>x ps'. live ps' x) ss"
        by (simp add: good_empty_live good_mk_sep_list_vector)
      then show "runs (andThen (if as = [] then empty_token else mk_sep_list_vector as) (e_rpc E i s))
          (\<lambda>x ps'. live ps' x) ss"
        by (rule good_bind) (rule call)
    qed
  qed
  show ?thesis unfolding eval_rpc_def
    by (auto intro!: good_evalD [OF assms(1), THEN good_bind] good_with_member good_empty_live
        good_dest_field [THEN good_bind] tail assms(2,3))
      (blast intro: ext_live assms(4) struct_live)+
qed

lemma good_evalNative:
  assumes "good_eval ev" "lang_ok ps" "live_member ps p1" "live_member ps p2" "live_member ps p3"
  shows "runs (evalNativeFunctions E ev f p1 p2 p3) (\<lambda>x ps'. live ps' x) ps"
proof -
  have e: "runs (e_native E ev (NativeFuncN g p1 p2 p3)) (\<lambda>x ps'. live ps' x) ps" for g
    using native_safe assms by (simp add: safe_native_def)
  show ?thesis
    by (cases f) (simp_all add: evalNativeFunctions_def good_native_simple good_native_pow
        good_native_push_back good_native_pop_back good_native_intersect good_native_union good_native_offset
        good_native_best good_native_avg good_searches good_empty_live assms e)
qed

text \<open>What is known of the parts of a node that is being evaluated.\<close>

lemma node_parts:
  assumes "lang_ok ps" "heap ps a = Some (Some n)"
  shows "\<forall>c \<in> refs n. live ps c" "\<forall>u \<in> bodies n. block ps u" "live ps a"
proof -
  obtain t where t: "owner ps a t" "node_ok ps t n" by (rule node_at_ok [OF assms])
  then show "\<forall>c \<in> refs n. live ps c" "\<forall>u \<in> bodies n. block ps u" "live ps a"
    by (auto simp: node_ok_def intro: under_live owner_live)
qed

lemma good_eval_node:
  assumes ev: "safe_eval ev" and ok: "lang_ok ps" and n: "heap ps a = Some (Some n)"
  shows "runs (eval_node E ev a n) (\<lambda>x ps'. live ps' x) ps"
    "node_type n \<in> block_types \<Longrightarrow> runs (eval_node E ev a n) (\<lambda>x ps'. global ps' x) ps"
proof -
  note p = node_parts [OF ok n] and e = safe_good_eval [OF ev]
  have b: "runs (eval_node E ev a n) (\<lambda>x ps'. global ps' x) ps" if "node_type n \<in> block_types"
    using that p
    by (cases n) (simp_all add: block_types_def eval_node_def refs_def bodies_def good_empty_global ok
        good_eval_seq [OF ev] good_eval_context [OF ev] good_eval_if [OF ev] good_eval_loop [OF ev]
        good_eval_for_loop [OF ev])
  then show "node_type n \<in> block_types \<Longrightarrow> runs (eval_node E ev a n) (\<lambda>x ps'. global ps' x) ps" .
  have code: "node_type n \<in> code_types \<Longrightarrow> c \<in> refs n \<Longrightarrow> global ps c" for c
    by (rule code_global(2) [OF ok n])
  show "runs (eval_node E ev a n) (\<lambda>x ps'. live ps' x) ps"
  proof (cases "node_type n \<in> block_types")
    case True
    then show ?thesis by (rule good_global_live [OF b])
  next
    case False
    then show ?thesis
      using p n code
      by (cases n) (simp_all add: block_types_def code_types_def eval_node_def refs_def bodies_def live_member_def
        good_empty_live good_ret ok good_eval_new_var [OF e] good_eval_new_var_assign [OF e] good_eval_ref_var
        good_eval_ref_array [OF e] good_eval_ref_adt [OF e] good_eval_print [OF e] good_eval_unary [OF e]
        good_eval_bin [OF e] good_eval_assign [OF e] good_eval_rpc [OF e] good_eval_func_declare
        good_eval_func_ref [OF e] good_eval_func_call [OF ev] good_eval_return [OF e] good_eval_def_adt
        good_evalNative [OF e])
  qed
qed

lemma safe_eval_ast: "safe_eval (eval_ast E d)"
proof (induction d)
  case 0
  have "runs empty_token (\<lambda>x ps'. live ps' x \<and> (block ps a \<longrightarrow> global ps' x)) ps" if "lang_ok ps" for ps a
    using that by (intro good_conseq [OF good_empty_token]) auto
  then show ?case by (simp add: safe_eval_def)
next
  case (Suc d)
  have node: "runs (eval_node E (eval_ast E d) a n) (\<lambda>x ps'. live ps' x \<and> (block ps a \<longrightarrow> global ps' x)) qs"
    if q: "lang_ok qs" "ext ps qs" "heap qs a = Some (Some n)" for ps qs a n
  proof (cases "block ps a")
    case True
    have "node_type n \<in> block_types" using ext_block [OF q(2) True] q(3) by (simp add: block_def)
    from good_eval_node(2) [OF Suc.IH q(1,3) this] show ?thesis
      by (rule good_conseq) (auto intro: global_live)
  next
    case False
    then show ?thesis by (auto intro: good_conseq [OF good_eval_node(1) [OF Suc.IH q(1,3)]])
  qed
  have "runs (eval_ast E (Suc d) a) (\<lambda>x ps'. live ps' x \<and> (block ps a \<longrightarrow> global ps' x)) ps"
    if a: "lang_ok ps" "live ps a" for ps a
    unfolding eval_ast.simps
    by (auto intro!: good_use_instruction [THEN good_bind] good_set_state [THEN good_bind]
        good_readN [THEN good_bind] node a) (blast intro: ext_live ext_trans a)+
  then show ?case by (simp add: safe_eval_def)
qed

lemmas good_eval_ast = safe_evalD [OF safe_eval_ast]

end

end
