(* ===== verification/Lang_Handlers.thy ===== *)
theory Lang_Handlers
  imports Lang_Eval Ring_Numbers
begin

text \<open>
  Query.cpp, lines 2144-2449 and 2683-2857: what a node gives the interpreters it runs. An
  interpreter is suspended when its time slice is used up, while it waits for the answer to a remote
  call, and while latencies are measured; \<open>n_yield\<close>, \<open>n_rpc\<close> and \<open>n_dist\<close> say, for the state it is
  suspended in and the request it has made, what the main thread then does. The node itself (its
  rings, its clock, its query table) is seen through the other fields of \<open>node_env\<close>.
\<close>

record dist_request =
  dr_kind :: NativeFunc
  dr_src :: "NodeIdentRendv list"
  dr_dest :: "NodeIdentRendv list"

record node_env =
  n_mp :: bool
  n_query :: bool
  n_queryTimeout :: timeval
  n_queryTTL :: u16
  n_clock :: "ParserState \<Rightarrow> timeval"
  n_queryID :: "ParserState \<Rightarrow> u64"
  n_room :: "ParserState \<Rightarrow> bool"
  n_rendv :: NodeIdent
  n_rings :: "ParserState \<Rightarrow> RingSet"
  n_fpu :: fpu
  n_magic :: u32
  n_compress :: "u8 list \<Rightarrow> u8 list option"
  n_yield :: "ParserState \<Rightarrow> wake list"
  n_rpc :: "RealPacket option \<Rightarrow> ParserState \<Rightarrow> wake list"
  n_dist :: "dist_request \<Rightarrow> ParserState \<Rightarrow> wake list"

subsection \<open>The main thread\<close>

definition INSTRUCTIONS_PER_IT :: int where "INSTRUCTIONS_PER_IT = 10000"

text \<open>\<^verbatim>\<open>DSLRecvQuery::handleEvent\<close>: the answer is decoded into the interpreter's current scope.\<close>

definition handle_reply :: "dsl_env \<Rightarrow> node_env \<Rightarrow> u8 list \<Rightarrow> int lang" where
  "handle_reply E N inPacket = andThen (DSLReplyPacket_parse (n_magic N) (e_stack E) inPacket) (\<lambda>r. case r of
       None \<Rightarrow> ret (- 1)
     | Some (pk, retNode) \<Rightarrow> andThen (setRPCRecv retNode) (\<lambda>_.
         andThen (set_parser_state PS_READY) (\<lambda>_. ret 0)))"

definition push_measurement :: "dsl_env \<Rightarrow> nat \<Rightarrow> NodeIdentRendv \<times> u32 list \<Rightarrow> int lang" where
  "push_measurement E r = (\<lambda>(src, row). andThen (createNodeIdentLat E src row) (\<lambda>c.
     andThen (is_empty c) (\<lambda>e. if e then ret (- 1) else andThen (push_back r c) (\<lambda>_. ret 0))))"

text \<open>\<^verbatim>\<open>HandleGetDistanceGeneric::returnResults\<close>; without memory the interpreter is not resumed.\<close>

definition handle_distances :: "dsl_env \<Rightarrow> (NodeIdentRendv \<times> u32 list) list \<Rightarrow> int lang" where
  "handle_distances E rows = andThen (ASTCreate_ps E ARRAY_TYPE (Val measurement_name) (Val ADT_TYPE) 0) (\<lambda>r.
     andThen (is_empty r) (\<lambda>e. if e
       then andThen empty_token (\<lambda>t. andThen (setQueryReturn t) (\<lambda>_. ret (- 1)))
       else andThen (forEach (push_measurement E r) rows) (\<lambda>x. if x = - 1
         then andThen empty_token (\<lambda>t. andThen (setQueryReturn t) (\<lambda>_. ret (- 1)))
         else andThen (setQueryReturn r) (\<lambda>_. andThen (set_parser_state PS_READY) (\<lambda>_. ret 0)))))"

text \<open>A blocked interpreter is passed over, another one gets its slice and goes on.\<close>

primrec main_thread :: "dsl_env \<Rightarrow> node_env \<Rightarrow> wake list \<Rightarrow> unit lang" where
  "main_thread E N [] = stop Suspended"
| "main_thread E N (w # ws) = (case w of
       Schedule \<Rightarrow> andThen (gets ps_state) (\<lambda>s. if s = PS_BLOCKED then main_thread E N ws
         else allocateEvalCount INSTRUCTIONS_PER_IT)
     | Reply inPacket \<Rightarrow> andThen (handle_reply E N inPacket) (\<lambda>_. main_thread E N ws)
     | Distances rows \<Rightarrow> andThen (handle_distances E rows) (\<lambda>_. main_thread E N ws))"

definition swap_out :: "dsl_env \<Rightarrow> node_env \<Rightarrow> (ParserState \<Rightarrow> wake list) \<Rightarrow> unit lang" where
  "swap_out E N wakes = andThen (gets wakes) (\<lambda>ws.
     andThen (modify (\<lambda>ps. ps\<lparr>switches := Suc (switches ps)\<rparr>)) (\<lambda>_. main_thread E N ws))"

text \<open>
  The end of a time slice in \<^verbatim>\<open>DSLRecvQuery::handleLatency\<close>: whether the query is finished, and the
  reply. An interpreter that is still marked as running has left through the handler of a
  floating-point exception.
\<close>

definition DSLRecvQuery_result :: "dsl_env \<Rightarrow> node_env \<Rightarrow> u64 \<Rightarrow> NodeIdentRendv \<Rightarrow> (bool \<times> RealPacket option) lang" where
  "DSLRecvQuery_result E N ret_qid srcNode = andThen (gets ps_state) (\<lambda>s. case s of
       PS_RUNNING \<Rightarrow> ret (True, None)
     | PS_DONE \<Rightarrow> (case DSLReplyPacket_createRealPacket (n_magic N)
           \<lparr>req_id_1 = fst (to32 ret_qid), req_id_2 = snd (to32 ret_qid)\<rparr>
           (newRealPacketRendv srcNode MAX_UDP_PACKET_SIZE) of (r, p) \<Rightarrow>
         if r = - 1 then ret (True, None)
         else andThen (gets query_return) (\<lambda>q. andThen (marshal_ast (e_stack E) q p) (\<lambda>(r, p).
           ret (True, if r = - 1 then None else Some p))))
     | PS_READY \<Rightarrow> ret (False, None)
     | PS_BLOCKED \<Rightarrow> ret (False, None))"

subsection \<open>Remote calls\<close>

definition MIN_TIMEOUT_MS :: int where "MIN_TIMEOUT_MS = 10"

text \<open>\<^verbatim>\<open>DSLReqQuery::init\<close>: the request packet, unless the call is too late or cannot be encoded.\<close>

definition DSLReqQuery_init :: "dsl_env \<Rightarrow> node_env \<Rightarrow> NodeIdentRendv \<Rightarrow> str \<Rightarrow> nat \<Rightarrow> RealPacket option lang" where
  "DSLReqQuery_init E N dest func_name param = andThen (gets (n_clock N)) (\<lambda>now.
     let left_us = (tv_sec (n_queryTimeout N) - tv_sec now) * 1000000 +
           (tv_usec (n_queryTimeout N) - tv_usec now)
     in if left_us div 1000 \<ge> 65536 \<or> left_us < MIN_TIMEOUT_MS * 1000 \<or> n_queryTTL N = 0 then ret None
        else andThen (gets (n_queryID N)) (\<lambda>qid.
          let pk = \<lparr>req_id_1 = fst (to32 qid), req_id_2 = snd (to32 qid), rendv_addr = addr (n_rendv N),
                rendv_port = port (n_rendv N), ms_remain = word_of_int (left_us div 1000),
                dsl_ttl = n_queryTTL N - 1\<rparr>
          in case DSLRequestPacket_createRealPacket (n_magic N) pk (newRealPacketRendv dest MAX_UDP_PACKET_SIZE) of
              (r, p) \<Rightarrow> if r = - 1 then ret None
                else andThen (marshal_packet (n_compress N) (e_stack E) func_name param p) (\<lambda>(r, p).
                  ret (if r = - 1 then None else Some p))))"

text \<open>The interpreter is blocked also when no request has been sent.\<close>

definition handleRPC :: "dsl_env \<Rightarrow> node_env \<Rightarrow> NodeIdentRendv \<Rightarrow> str \<Rightarrow> nat \<Rightarrow> nat lang" where
  "handleRPC E N dest func_name paramAST =
     (if \<not> n_mp N \<or> \<not> n_query N then empty_token
      else andThen (gets (n_room N)) (\<lambda>room. if \<not> room then empty_token
        else andThen (DSLReqQuery_init E N dest func_name paramAST) (\<lambda>sent.
          andThen (set_parser_state PS_BLOCKED) (\<lambda>_.
            andThen (swap_out E N (n_rpc N sent)) (\<lambda>_. gets rpc_recv)))))"

subsection \<open>The rings\<close>

definition handleGetSelf :: "dsl_env \<Rightarrow> node_env \<Rightarrow> nat lang" where
  "handleGetSelf E N = (if \<not> n_mp N then empty_token
     else createNodeIdent E \<lparr>addr = 0, port = 0, addrRendv = addr (n_rendv N), portRendv = ucast (port (n_rendv N))\<rparr>)"

definition ring_ident :: "RingSet \<Rightarrow> NodeIdent \<Rightarrow> NodeIdentRendv" where
  "ring_ident rs n = (case rendvLookup rs n of
       None \<Rightarrow> \<lparr>addr = addr n, port = port n, addrRendv = 0, portRendv = 0\<rparr>
     | Some r \<Rightarrow> \<lparr>addr = addr n, port = port n, addrRendv = addr r, portRendv = ucast (port r)\<rparr>)"

text \<open>\<^verbatim>\<open>(u_int) floor(d)\<close> and \<^verbatim>\<open>(u_int) ceil(d)\<close>, through a 64-bit integer.\<close>

definition u32_of_rounded :: "(rat \<Rightarrow> int) \<Rightarrow> u64 \<Rightarrow> u32" where
  "u32_of_rounded f d = (if dbl_finite d \<and> - 9223372036854775808 \<le> f (dbl_value d)
       \<and> f (dbl_value d) < 9223372036854775808
     then word_of_int (f (dbl_value d)) else 0)"

definition latency_ms :: "dsl_env \<Rightarrow> u32 \<Rightarrow> u64" where
  "latency_ms E us = e_div E (dbl_of_int (uint us)) (dbl_of_int 1000)"

text \<open>The members of one ring whose latency satisfies \<open>ok\<close>, and those of whole rings.\<close>

definition ring_matching :: "RingSet \<Rightarrow> (u32 \<Rightarrow> bool) \<Rightarrow> NodeIdent list \<Rightarrow> NodeIdentRendv list" where
  "ring_matching rs ok ns = map (ring_ident rs)
     (filter (\<lambda>n. case getNodeLatency rs n of None \<Rightarrow> False | Some us \<Rightarrow> ok us) ns)"

definition ring_whole :: "RingSet \<Rightarrow> int list \<Rightarrow> NodeIdentRendv list option" where
  "ring_whole rs js = (if \<exists>j \<in> set js. returnPrimaryRing rs j = None then None
     else Some (map (ring_ident rs) (concat (map (\<lambda>j. the (returnPrimaryRing rs j)) js))))"

definition ring_above :: "dsl_env \<Rightarrow> fpu \<Rightarrow> RingSet \<Rightarrow> bool \<Rightarrow> u64 \<Rightarrow> NodeIdentRendv list option" where
  "ring_above E F rs equal d =
     (let ringNum = getRingNumber F rs (u32_of_rounded floor (e_mul E d (dbl_of_int 1000)));
          ok = (\<lambda>us. if equal then dbl_le d (latency_ms E us) else dbl_lt d (latency_ms E us))
      in case returnPrimaryRing rs ringNum of None \<Rightarrow> None
         | Some ns \<Rightarrow> map_option ((@) (ring_matching rs ok ns))
             (ring_whole rs [ringNum + 1 .. getNumberOfRings rs - 1]))"

definition ring_below :: "dsl_env \<Rightarrow> fpu \<Rightarrow> RingSet \<Rightarrow> bool \<Rightarrow> u64 \<Rightarrow> NodeIdentRendv list option" where
  "ring_below E F rs equal d =
     (let ringNum = getRingNumber F rs (u32_of_rounded ceiling (e_mul E d (dbl_of_int 1000)));
          ok = (\<lambda>us. if equal then dbl_le (latency_ms E us) d else dbl_lt (latency_ms E us) d)
      in case returnPrimaryRing rs ringNum of None \<Rightarrow> None
         | Some ns \<Rightarrow> map_option ((@) (ring_matching rs ok ns)) (ring_whole rs [0 .. ringNum - 1]))"

definition push_node :: "dsl_env \<Rightarrow> nat \<Rightarrow> NodeIdentRendv \<Rightarrow> int lang" where
  "push_node E r i = andThen (createNodeIdent E i) (\<lambda>c. andThen (is_empty c) (\<lambda>e.
     if e then ret (- 1) else andThen (push_back r c) (\<lambda>_. ret 0)))"

text \<open>The rings are read without a test that the interpreter runs on a node.\<close>

definition ring_query :: "dsl_env \<Rightarrow> node_env \<Rightarrow> (nat \<Rightarrow> nat lang)
    \<Rightarrow> (RingSet \<Rightarrow> u64 \<Rightarrow> NodeIdentRendv list option) \<Rightarrow> nat member \<Rightarrow> nat lang" where
  "ring_query E N ev sel p = andThen (arg ev p) (\<lambda>a. with_member double_of a (\<lambda>d.
     if \<not> n_mp N then stop Uninit
     else andThen (gets (n_rings N)) (\<lambda>rs. case sel rs d of None \<Rightarrow> stop Uninit
       | Some outMembers \<Rightarrow>
           andThen (ASTCreate_ps E ARRAY_TYPE (Val node_name) (Val ADT_TYPE) 0) (\<lambda>r.
             andThen (is_empty r) (\<lambda>e. if e then empty_token
               else andThen (forEach (push_node E r) outMembers) (\<lambda>x.
                 if x = - 1 then empty_token else ret r))))))"

definition handleRingGTE :: "dsl_env \<Rightarrow> node_env \<Rightarrow> (nat \<Rightarrow> nat lang) \<Rightarrow> nat member \<Rightarrow> bool \<Rightarrow> nat lang" where
  "handleRingGTE E N ev p equal = ring_query E N ev (\<lambda>rs. ring_above E (n_fpu N) rs equal) p"

definition handleRingLTE :: "dsl_env \<Rightarrow> node_env \<Rightarrow> (nat \<Rightarrow> nat lang) \<Rightarrow> nat member \<Rightarrow> bool \<Rightarrow> nat lang" where
  "handleRingLTE E N ev p equal = ring_query E N ev (\<lambda>rs. ring_below E (n_fpu N) rs equal) p"

subsection \<open>Measuring distances\<close>

definition is_node_array :: "nat \<Rightarrow> bool lang" where
  "is_node_array a = andThen (readN a) (\<lambda>n. case array_of n of None \<Rightarrow> ret False
     | Some (ty, nm, vec, tb) \<Rightarrow> if ty \<noteq> ADT_TYPE then ret False
         else andThen (value_of nm) (\<lambda>s. ret (s = node_name)))"

primrec read_idents :: "nat list \<Rightarrow> NodeIdentRendv list option lang" where
  "read_idents [] = ret (Some [])"
| "read_idents (a # as) = andThen (identOfNode a) (\<lambda>r. case r of None \<Rightarrow> ret None
     | Some i \<Rightarrow> andThen (read_idents as) (\<lambda>rs. ret (map_option ((#) i) rs)))"

text \<open>
  \<^verbatim>\<open>handleGetDistGeneric\<close>. The sources are this node when no array of them is given; then the single
  measurement is taken out of the array of results.
\<close>

definition source_array :: "(nat \<Rightarrow> nat lang) \<Rightarrow> nat \<Rightarrow> (nat option) option lang" where
  "source_array ev p1 = andThen (is_empty p1) (\<lambda>e. if e then ret (Some None)
     else andThen (ev p1) (\<lambda>a. andThen (is_node_array a) (\<lambda>ok. ret (if ok then Some (Some a) else None))))"

definition source_idents :: "node_env \<Rightarrow> nat option \<Rightarrow> NodeIdentRendv list option lang" where
  "source_idents N srcs = (case srcs of
       None \<Rightarrow> ret (Some [\<lparr>addr = 0, port = 0, addrRendv = addr (n_rendv N),
         portRendv = ucast (port (n_rendv N))\<rparr>])
     | Some a \<Rightarrow> andThen (vector_of a) read_idents)"

definition take_result :: "bool \<Rightarrow> nat lang" where
  "take_result single = andThen (gets query_return) (\<lambda>q. if \<not> single then ret q
     else andThen (readN q) (\<lambda>n. case array_of n of
         Some (ty, nm, vec, tb) \<Rightarrow> ret (if length vec = 1 then hd vec else q)
       | None \<Rightarrow> ret q))"

text \<open>A measurement without sources is answered at once, before the interpreter is marked as blocked.\<close>

definition measure_distances :: "dsl_env \<Rightarrow> node_env \<Rightarrow> NativeFunc \<Rightarrow> nat option \<Rightarrow> nat \<Rightarrow> nat lang" where
  "measure_distances E N kind srcs dests =
     andThen (source_idents N srcs) (\<lambda>r. case r of None \<Rightarrow> empty_token
     | Some srcNodes \<Rightarrow> andThen (andThen (vector_of dests) read_idents) (\<lambda>r. case r of None \<Rightarrow> empty_token
       | Some destNodes \<Rightarrow> andThen (gets (n_room N)) (\<lambda>room. if \<not> room then empty_token
           else andThen (if srcNodes = [] then handle_distances E [] else ret 0) (\<lambda>_.
             andThen (set_parser_state PS_BLOCKED) (\<lambda>_.
               andThen (swap_out E N (n_dist N \<lparr>dr_kind = kind, dr_src = srcNodes, dr_dest = destNodes\<rparr>)) (\<lambda>_.
                 take_result (srcs = None)))))))"

definition handleGetDistGeneric :: "dsl_env \<Rightarrow> node_env \<Rightarrow> (nat \<Rightarrow> nat lang) \<Rightarrow> NativeFunc
    \<Rightarrow> nat member \<Rightarrow> nat member \<Rightarrow> nat member \<Rightarrow> nat lang" where
  "handleGetDistGeneric E N ev kind p1 p2 p3 =
     (if \<not> n_mp N \<or> \<not> n_query N then empty_token
      else andThen (value_of p1) (\<lambda>p1. andThen (source_array ev p1) (\<lambda>srcs. case srcs of
          None \<Rightarrow> empty_token
        | Some srcs \<Rightarrow> andThen (arg ev p2) (\<lambda>dests. andThen (is_node_array dests) (\<lambda>ok.
            if \<not> ok then empty_token
            else andThen (arg ev p3) (\<lambda>c. with_member int_of c (\<lambda>_.
              measure_distances E N kind srcs dests)))))))"

subsection \<open>The interpreter of a node\<close>

definition handleNative :: "dsl_env \<Rightarrow> node_env \<Rightarrow> (nat \<Rightarrow> nat lang) \<Rightarrow> ASTNode \<Rightarrow> nat lang" where
  "handleNative E N ev n = (case n of
       NativeFuncN f p1 p2 p3 \<Rightarrow> (case f of
           GET_SELF \<Rightarrow> handleGetSelf E N
         | RING_GT \<Rightarrow> handleRingGTE E N ev p1 False
         | RING_GE \<Rightarrow> handleRingGTE E N ev p1 True
         | RING_LT \<Rightarrow> handleRingLTE E N ev p1 False
         | RING_LE \<Rightarrow> handleRingLTE E N ev p1 True
         | GET_DISTANCE_TCP \<Rightarrow> handleGetDistGeneric E N ev f p1 p2 p3
         | GET_DISTANCE_DNS \<Rightarrow> handleGetDistGeneric E N ev f p1 p2 p3
         | GET_DISTANCE_PING \<Rightarrow> handleGetDistGeneric E N ev f p1 p2 p3
         | GET_DISTANCE_ICMP \<Rightarrow> handleGetDistGeneric E N ev f p1 p2 p3
         | _ \<Rightarrow> empty_token)
     | _ \<Rightarrow> empty_token)"

definition node_dsl :: "dsl_env \<Rightarrow> node_env \<Rightarrow> dsl_env" where
  "node_dsl E N = E\<lparr>e_yield := swap_out E N (n_yield N), e_rpc := handleRPC E N,
     e_native := handleNative E N\<rparr>"

end
