(* ===== verification/Lang_Quiet.thy ===== *)
theory Lang_Quiet
  imports Lang_Handlers
begin

text \<open>
  Operations that only allocate, create and write values leave alone what the main thread hands to an
  interpreter: the answer to a remote call, the result of a measurement, and the scheduling state;
  and they bring no freed node back.
\<close>

definition keeps :: "ParserState \<Rightarrow> ParserState \<Rightarrow> bool" where
  "keeps ps ps' \<longleftrightarrow> rpc_recv ps' = rpc_recv ps \<and> query_return ps' = query_return ps \<and>
     ps_state ps' = ps_state ps \<and> next_node ps \<le> next_node ps' \<and>
     (\<forall>a < next_node ps. heap ps a = None \<longrightarrow> heap ps' a = None)"

lemma keeps_trans: "keeps a b \<Longrightarrow> keeps b c \<Longrightarrow> keeps a c"
  by (auto simp: keeps_def)

definition calm :: "'a lang \<Rightarrow> bool" where
  "calm m \<longleftrightarrow> (\<forall>ps x ps'. m ps = Inr (x, ps') \<longrightarrow> keeps ps ps')"

lemma quietD: "calm m \<Longrightarrow> m ps = Inr (x, ps') \<Longrightarrow> keeps ps ps'"
  by (simp add: calm_def)

named_theorems quiet_intros \<open>operations that leave the handed-over fields alone\<close>

lemma quiet_bind [quiet_intros]: "calm m \<Longrightarrow> (\<And>x. calm (k x)) \<Longrightarrow> calm (andThen m k)"
  unfolding calm_def andThen_Inr by (blast intro: keeps_trans)

lemma quiet_basic [quiet_intros]: "calm (ret x)" "calm (stop f)" "calm (gets g)" "calm (readN a)"
  "calm (writeN a n)" "calm (tableAt t)" "calm (need m)" "calm (value_of u)" "calm get_var_table"
  "calm empty_token" "calm (setTable t vt)" "calm new_ast"
  by (auto simp: calm_def keeps_def ret_def stop_def gets_def readN_def writeN_def tableAt_def need_def
      value_of_def get_var_table_def empty_token_def setTable_def modify_def new_ast_def Let_def
      split: option.splits member.splits if_splits)

lemma quiet_if [quiet_intros]: "calm m \<Longrightarrow> calm m' \<Longrightarrow> calm (if c then m else m')"
  by simp

lemma quiet_option [quiet_intros]: "calm m \<Longrightarrow> (\<And>x. calm (k x)) \<Longrightarrow> calm (case r of None \<Rightarrow> m | Some x \<Rightarrow> k x)"
  by (simp split: option.split)

lemma quiet_member [quiet_intros]: "calm m \<Longrightarrow> calm m' \<Longrightarrow> (\<And>x. calm (k x)) \<Longrightarrow>
    calm (case r of Unset \<Rightarrow> m | Null \<Rightarrow> m' | Val x \<Rightarrow> k x)"
  by (simp split: member.split)

lemma quiet_pair [quiet_intros]: "(\<And>x y. calm (k x y)) \<Longrightarrow> calm (case p of (x, y) \<Rightarrow> k x y)"
  by (simp split: prod.split)

lemma quiet_forEach: "(\<And>x. calm (f x)) \<Longrightarrow> calm (forEach f xs)"
  by (induction xs) (auto intro: quiet_intros)

lemmas [quiet_intros] = quiet_forEach

lemma quiet_ops [quiet_intros]: "calm (readAs f a)" "calm (new_stack_ast t)" "calm (local_lookup t s)"
  "calm (field_decl a)" "calm (is_empty a)" "calm (get_field a s)" "calm (push_back a b)"
  "calm (set_field a s b)"
  unfolding set_field_def readAs_def new_stack_ast_def local_lookup_def field_decl_def is_empty_def get_field_def push_back_def
  by (intro quiet_intros)+

lemma quiet_lookup [quiet_intros]: "calm (lookup t s)"
proof -
  have "calm (lookup_from k t s)" for k
    by (induction k arbitrary: t) (auto intro!: quiet_intros split: option.split)
  then show ?thesis unfolding lookup_def by (intro quiet_intros)
qed

lemma quiet_create: "calm (ASTCreate k t ty nm aty n)"
proof (induction k arbitrary: ty nm aty n)
  case (Suc k)
  have entries: "calm (create_entries m a i)" if "calm m" for m a i
    by (induction i) (auto intro!: quiet_intros that split: option.split)
  have field: "calm (create_field (ASTCreate k t) a f)" for a f
    unfolding create_field_def field_size_def by (intro quiet_intros Suc.IH)
  have struct: "calm (create_struct (ASTCreate k t) t nm)"
    unfolding create_struct_def find_adt_def by (intro quiet_intros field)
  have array: "calm (create_array (ASTCreate k t) t nm aty n)"
    unfolding create_array_def find_adt_def by (intro quiet_intros entries Suc.IH)
  have basic: "calm (create_basic_type t ty)"
    unfolding create_basic_type_def by (auto intro!: quiet_intros split: option.split ASTType.split)
  show ?case using struct array basic by simp
qed (simp add: quiet_basic)

lemma quiet_ASTCreate_ps [quiet_intros]: "calm (ASTCreate_ps E ty nm aty n)"
  unfolding ASTCreate_ps_def by (intro quiet_intros quiet_create)

lemma quiet_createNodeIdentLat [quiet_intros]: "calm (createNodeIdentLat E i lats)"
proof -
  have latency: "calm (push_latency E x lat)" for x lat
    unfolding push_latency_def by (intro quiet_intros)
  have field: "calm (fill_measurement_field E i lats a f)" for a f
    unfolding fill_measurement_field_def by (intro quiet_intros latency)
  show ?thesis
    unfolding createNodeIdentLat_def create_filled_def find_adt_def by (intro quiet_intros field)
qed

lemma quiet_unmarshal [quiet_intros]: "calm (unmarshal_ast k b)"
proof (induction k arbitrary: b)
  case (Suc k)
  have nodes: "calm (unmarshal_nodes (unmarshal_ast k) n b)" for n b
    by (induction n arbitrary: b) (auto intro!: quiet_intros Suc.IH)
  have fields: "calm (unmarshal_fields (unmarshal_ast k) n m b)" for n m b
    by (induction n arbitrary: b m)
      (auto intro!: quiet_intros Suc.IH split: prod.split option.split)
  have "calm (unmarshal_contents (unmarshal_ast k) ty b)" for ty b
    unfolding unmarshal_contents_def unmarshal_array_def unmarshal_struct_def unmarshal_list_def
    by (auto intro!: quiet_intros nodes fields split: ASTType.split prod.split option.split)
  then show ?case
    unfolding unmarshal_ast.simps by (intro quiet_intros)
qed (simp add: quiet_basic)

lemma quiet_parse_reply: "calm (DSLReplyPacket_parse magic k buf)"
  unfolding DSLReplyPacket_parse_def by (intro quiet_intros)

lemma quiet_push_measurement: "calm (push_measurement E r p)"
  unfolding push_measurement_def by (intro quiet_intros)

end

