(* ===== verification/Lang_Decode.thy ===== *)
theory Lang_Decode
  imports Lang_Interpreter Lang_Quiet
begin

text \<open>
  What a node makes for an interpreter, in the logic: values decoded from a packet, and the structs
  that stand for nodes and measurements. All of it belongs to the current scope.
\<close>

subsection \<open>Decoding values\<close>

definition frame :: "ParserState \<Rightarrow> ParserState \<Rightarrow> bool" where
  "frame ps ps' \<longleftrightarrow> (\<forall>c. heap ps c \<noteq> None \<longrightarrow> heap ps' c = heap ps c)"

lemma frame_refl [simp]: "frame ps ps"
  by (simp add: frame_def)

lemma frame_trans: "frame a b \<Longrightarrow> frame b c \<Longrightarrow> frame a c"
  by (simp add: frame_def)

text \<open>A decoder makes a node in the current scope and leaves the older ones as they are.\<close>

definition good_decode :: "(BufferWrapper \<Rightarrow> (nat \<times> BufferWrapper) lang) \<Rightarrow> bool" where
  "good_decode f \<longleftrightarrow> (\<forall>b ps. lang_ok ps \<longrightarrow> runs (f b) (\<lambda>r ps'. made ps' (fst r) \<and> frame ps ps') ps)"

lemma good_decodeD: "good_decode f \<Longrightarrow> lang_ok ps \<Longrightarrow> runs (f b) (\<lambda>r ps'. made ps' (fst r) \<and> frame ps ps') ps"
  by (simp add: good_decode_def)

lemma good_decode_one:
  assumes "good_decode f" "lang_ok ps"
    and "\<And>a b qs. lang_ok qs \<Longrightarrow> ext ps qs \<Longrightarrow> frame ps qs \<Longrightarrow> owner qs a (scope qs) \<Longrightarrow> runs (k a b) Q qs"
    and "\<And>a b qs. lang_ok qs \<Longrightarrow> ext ps qs \<Longrightarrow> frame ps qs \<Longrightarrow> runs (l b) Q qs"
  shows "runs (andThen (f b) (\<lambda>(a, b). andThen (is_empty a) (\<lambda>e. if e then l b else k a b))) Q ps"
  unfolding is_empty_def andThen_assoc
  by (rule good_bind [OF good_decodeD [OF assms(1,2)]])
    (auto intro!: good_readN [THEN good_bind] assms(3,4) dest: made_live intro: made_owner)

lemma good_unmarshal_nodes:
  assumes "good_decode f" "lang_ok ps"
  shows "runs (unmarshal_nodes f n b) (\<lambda>r ps'. frame ps ps' \<and>
    (\<forall>vec. fst r = Some vec \<longrightarrow> (\<forall>c \<in> set vec. owner ps' c (scope ps')))) ps"
  using assms(2)
proof (induction n arbitrary: ps b)
  case (Suc n)
  show ?case unfolding unmarshal_nodes.simps
  proof (rule good_decode_one [OF assms(1) Suc.prems])
    fix a b qs assume q: "lang_ok qs" "ext ps qs" "frame ps qs" "owner qs a (scope qs)"
    show "runs (andThen (unmarshal_nodes f n b) (\<lambda>(r, b). ret (map_option ((#) a) r, b)))
        (\<lambda>r ps'. frame ps ps' \<and> (\<forall>vec. fst r = Some vec \<longrightarrow> (\<forall>c \<in> set vec. owner ps' c (scope ps')))) qs"
      by (rule good_bind [OF Suc.IH [OF q(1)]])
        (use q in \<open>auto intro!: good_ret intro: frame_trans simp: ext_sel\<close>, blast intro: ext_owner)
  qed (auto intro!: good_ret)
qed (simp add: good_ret)

lemma good_unmarshal_fields:
  assumes "good_decode f" "lang_ok ps" "\<forall>e \<in> set m. owner ps (snd e) (scope ps)"
  shows "runs (unmarshal_fields f n m b) (\<lambda>r ps'. frame ps ps' \<and>
    (\<forall>m. fst r = Some m \<longrightarrow> (\<forall>e \<in> set m. owner ps' (snd e) (scope ps')))) ps"
  using assms(2,3)
proof (induction n arbitrary: ps b m)
  case (Suc n)
  show ?case
  proof (cases "get_string b")
    case (Pair s b')
    show ?thesis
    proof (cases s)
      case None
      then show ?thesis using Pair Suc.prems by (simp add: good_ret)
    next
      case (Some s')
      have "runs (andThen (f b') (\<lambda>(a, b). andThen (is_empty a) (\<lambda>e.
         if e then ret (None, b) else unmarshal_fields f n (sm_upd s' a m) b)))
         (\<lambda>r ps'. frame ps ps' \<and> (\<forall>m. fst r = Some m \<longrightarrow> (\<forall>e \<in> set m. owner ps' (snd e) (scope ps')))) ps"
      proof (rule good_decode_one [OF assms(1) Suc.prems(1)])
        fix a b qs assume q: "lang_ok qs" "ext ps qs" "frame ps qs" "owner qs a (scope qs)"
        have own: "\<forall>e \<in> set (sm_upd s' a m). owner qs (snd e) (scope qs)"
          using q(2,4) Suc.prems(2) by (auto dest!: sm_upd_snd simp: ext_sel intro: ext_owner)
        show "runs (unmarshal_fields f n (sm_upd s' a m) b)
          (\<lambda>r ps'. frame ps ps' \<and> (\<forall>m. fst r = Some m \<longrightarrow> (\<forall>e \<in> set m. owner ps' (snd e) (scope ps')))) qs"
          by (rule good_conseq [OF Suc.IH [OF q(1) own]]) (use q(3) in \<open>auto intro: frame_trans\<close>)
      qed (auto intro!: good_ret)
      then show ?thesis using Pair Some by simp
    qed
  qed
qed (simp add: good_ret)

definition content_ok :: "ParserState \<Rightarrow> ASTNode option \<Rightarrow> bool" where
  "content_ok ps n \<longleftrightarrow> (\<forall>m. n = Some m \<longrightarrow> node_ok ps (scope ps) m)"

lemma content_ok_simps [simp]: "content_ok ps None" "content_ok ps (Some EmptyN)"
  "content_ok ps (Some (IntN i))" "content_ok ps (Some (DoubleN d))" "content_ok ps (Some (StringN s))"
  by (simp_all add: content_ok_def)

lemma good_unmarshal_array:
  assumes "good_decode f" "lang_ok ps"
  shows "runs (unmarshal_array f b) (\<lambda>r ps'. frame ps ps' \<and> content_ok ps' (fst r)) ps"
  unfolding unmarshal_array_def
  by (auto intro!: good_ret good_unmarshal_nodes [OF assms(1), THEN good_bind] assms(2)
      simp: content_ok_def node_ok_values split: prod.split option.split)

lemma good_unmarshal_struct:
  assumes "good_decode f" "lang_ok ps"
  shows "runs (unmarshal_struct f b) (\<lambda>r ps'. frame ps ps' \<and> content_ok ps' (fst r)) ps"
  unfolding unmarshal_struct_def
  by (auto intro!: good_ret good_unmarshal_fields [OF assms(1), THEN good_bind] assms(2)
      simp: content_ok_def node_ok_values split: prod.split option.split)

lemma good_unmarshal_list:
  assumes "good_decode f" "lang_ok ps"
  shows "runs (unmarshal_list f b) (\<lambda>r ps'. frame ps ps' \<and> content_ok ps' (fst r)) ps"
  unfolding unmarshal_list_def
  by (auto intro!: good_ret good_unmarshal_nodes [OF assms(1), THEN good_bind] assms(2)
      simp: content_ok_def node_ok_values split: prod.split option.split) (blast intro: owner_under)

lemma good_unmarshal_contents:
  assumes "good_decode f" "lang_ok ps"
  shows "runs (unmarshal_contents f ty b) (\<lambda>r ps'. frame ps ps' \<and> content_ok ps' (fst r)) ps"
  unfolding unmarshal_contents_def
  using good_unmarshal_array [OF assms] good_unmarshal_struct [OF assms] good_unmarshal_list [OF assms] assms(2)
  by (auto intro!: good_ret simp: unmarshal_int_def unmarshal_double_def content_ok_def
      split: ASTType.split prod.split option.split)

lemma good_alloc:
  assumes "lang_ok ps"
  shows "runs (new_stack_ast (scope ps)) (\<lambda>r ps'. frame ps ps' \<and> (\<forall>a. r = Some a \<longrightarrow>
    owner ps' a (scope ps) \<and> heap ps' a = Some None \<and> heap ps a = None)) ps"
proof -
  obtain vt where vt: "tables ps (scope ps) = Some vt" using table_of [OF assms scope_in [OF assms]] by blast
  have "heap ps (next_node ps) = None"
    using lang_okD(2) [OF assms] unfolding memory_ok_def by blast
  then show ?thesis
    using good_new_stack_ast [OF assms scope_in [OF assms]] vt
    by (auto simp: runs_def new_stack_ast_def new_ast_def andThen_def Let_def tableAt_def setTable_def
        modify_def ret_def frame_def split: if_splits)
qed

lemma good_unmarshal_ast: "good_decode (unmarshal_ast k)"
proof (induction k)
  case 0
  then show ?case by (simp add: good_decode_def good_stop)
next
  case (Suc k)
  have "runs (unmarshal_ast (Suc k) b) (\<lambda>r ps'. made ps' (fst r) \<and> frame ps ps') ps" if ok: "lang_ok ps" for b ps
  proof -
    have empty: "runs (andThen empty_token (\<lambda>e. ret (e, b))) (\<lambda>r ps'. made ps' (fst r) \<and> frame ps ps') qs"
      if "lang_ok qs" "frame ps qs" for b qs
      using that by (auto intro!: good_empty_token [THEN good_bind] good_ret)
    have fill: "runs (andThen (unmarshal_contents (unmarshal_ast k) ty b) (\<lambda>(r, b). case r of
             None \<Rightarrow> andThen empty_token (\<lambda>e. ret (e, b))
           | Some n \<Rightarrow> if bw_errorFlag b then andThen empty_token (\<lambda>e. ret (e, b))
               else andThen (writeN a n) (\<lambda>_. ret (a, b))))
         (\<lambda>r ps'. made ps' (fst r) \<and> frame ps ps') qs"
      if q: "lang_ok qs" "ext ps qs" "frame ps qs" "owner qs a (scope ps)" "heap qs a = Some None" "heap ps a = None"
      for ty b a qs
    proof (rule good_bind [OF good_unmarshal_contents [OF Suc.IH q(1)]])
      fix r :: "ASTNode option \<times> BufferWrapper" and rs
      assume r: "lang_ok rs" "ext qs rs" "frame qs rs \<and> content_ok rs (fst r)"
      have f: "frame ps rs" using q(3) r(3) by (blast intro: frame_trans)
      have o: "owner rs a (scope rs)" "heap rs a = Some None"
        using q r by (auto simp: ext_sel frame_def intro: ext_owner)
      have w: "runs (andThen (writeN a n) (\<lambda>_. ret (a, b))) (\<lambda>r ps'. made ps' (fst r) \<and> frame ps ps') rs"
        if "node_ok rs (scope rs) n" for n b
      proof -
        have "writeN a n rs = Inr ((), rs\<lparr>heap := (heap rs)(a := Some (Some n))\<rparr>)"
          using o(2) by (simp add: writeN_def)
        moreover have "frame ps (rs\<lparr>heap := (heap rs)(a := Some (Some n))\<rparr>)"
          using f q(6) by (auto simp: frame_def)
        moreover have "lang_ok (rs\<lparr>heap := (heap rs)(a := Some (Some n))\<rparr>) \<and>
            ext rs (rs\<lparr>heap := (heap rs)(a := Some (Some n))\<rparr>)"
          using o by (intro write_ok [OF r(1) o(1) that]) simp
        ultimately show ?thesis
          using o(1) by (auto simp: runs_def andThen_def ret_def made_def ext_sel intro: ext_owner)
      qed
      obtain n b' where nb: "r = (n, b')" by fastforce
      show "runs (case r of (r, b) \<Rightarrow> (case r of
             None \<Rightarrow> andThen empty_token (\<lambda>e. ret (e, b))
           | Some n \<Rightarrow> if bw_errorFlag b then andThen empty_token (\<lambda>e. ret (e, b))
               else andThen (writeN a n) (\<lambda>_. ret (a, b)))) (\<lambda>r ps'. made ps' (fst r) \<and> frame ps ps') rs"
        using nb r(1,3) f w empty [OF r(1) f] by (auto simp: content_ok_def split: option.split)
    qed
    show ?thesis unfolding unmarshal_ast.simps
      by (auto intro!: good_get_var_table [THEN good_bind] good_alloc [THEN good_bind] ok empty fill
          split: option.split prod.split)
  qed
  then show ?case by (simp add: good_decode_def)
qed

subsection \<open>Nodes and measurements\<close>

lemma good_fillNodeIdentField:
  assumes "lang_ok ps" "\<forall>s x. sm_find m s = Some x \<longrightarrow> live ps x"
  shows "runs (fillNodeIdentField s m) (\<lambda>_ ps'. ps' = ps) ps"
  unfolding fillNodeIdentField_def
  by (auto intro!: good_ret good_readN [THEN good_bind] assms(1) split: option.split) (use assms(2) in blast)

lemma good_identOfNode:
  assumes "lang_ok ps" "live ps a"
  shows "runs (identOfNode a) (\<lambda>_ ps'. ps' = ps) ps"
proof -
  have "runs (case struct_of n of None \<Rightarrow> ret None
     | Some (tn, m) \<Rightarrow> if tn \<noteq> node_name then ret None
         else andThen (fillNodeIdentField addr_field m) (\<lambda>x. case x of None \<Rightarrow> ret None
       | Some va \<Rightarrow> andThen (fillNodeIdentField port_field m) (\<lambda>x. case x of None \<Rightarrow> ret None
       | Some vp \<Rightarrow> andThen (fillNodeIdentField rendvAddr_field m) (\<lambda>x. case x of None \<Rightarrow> ret None
       | Some ra \<Rightarrow> andThen (fillNodeIdentField rendvPort_field m) (\<lambda>x. case x of None \<Rightarrow> ret None
       | Some rp \<Rightarrow> ret (Some \<lparr>addr = va, port = ucast vp, addrRendv = ra,
           portRendv = ucast (ucast rp :: u16)\<rparr>)))))) (\<lambda>_ ps'. ps' = ps) ps"
    if "heap ps a = Some (Some n)" for n
    using struct_live [OF assms(1) that]
    by (auto intro!: good_ret good_fillNodeIdentField [THEN good_bind] assms(1) split: option.split)
  then show ?thesis unfolding identOfNode_def
    by (auto intro!: good_readN [THEN good_bind] assms)
qed

lemma good_get_part:
  assumes "lang_ok ps" "owner ps a t"
  shows "runs (get_field a s) (\<lambda>r ps'. ps' = ps \<and> (\<forall>x. r = Some x \<longrightarrow> owner ps x t)) ps"
proof -
  have "owner ps x t" if "heap ps a = Some (Some n)" "struct_of n = Some (tn, m)" "sm_find m s = Some x" for n tn m x
    using lang_okD(8) [OF assms(1) that(1) assms(2)] that(2,3)
    by (force simp: struct_of_Some node_ok_values dest: map_of_SomeD)
  then show ?thesis unfolding get_field_def
    by (auto intro!: good_readAs [THEN good_bind] good_ret assms(1) owner_live [OF assms(2)])
qed

lemma good_write_int:
  assumes "lang_ok ps" "live ps x" "heap ps x = Some (Some n)" "node_type n = INT_TYPE"
  shows "runs (writeN x (IntN v)) (\<lambda>_ _. True) ps"
  by (rule good_True [OF good_write_live [OF assms(1,2)]]) (use assms in \<open>auto simp: same_kind_def\<close>)

lemma good_fill_ident_field:
  assumes "lang_ok ps" "owner ps a t" "live ps f"
  shows "runs (fill_ident_field i a f) (\<lambda>_ _. True) ps"
  unfolding fill_ident_field_def
  by (auto intro!: good_field_decl [THEN good_bind] good_get_part [OF _ assms(2), THEN good_bind]
      good_readN [THEN good_bind] good_ret good_write_int [THEN good_bind] assms(1,3) owner_live split: option.split)

lemma good_ASTCreate_double:
  assumes "lang_ok ps"
  shows "runs (ASTCreate_ps E DOUBLE_TYPE nm aty n) (\<lambda>c ps'. c = empty_node ps' \<or>
    owner ps' c (scope ps') \<and> heap ps' c = Some (Some (DoubleN 0))) ps"
proof -
  have "runs (ASTCreate k (scope ps) DOUBLE_TYPE nm aty n)
      (\<lambda>r ps'. \<forall>a. r = Some a \<longrightarrow> owner ps' a (scope ps) \<and> heap ps' a = Some (Some (DoubleN 0))) ps" for k
    by (cases k) (auto simp: create_basic_type_def scope_in assms intro!: good_stop good_ret
        good_new_stack_ast [THEN good_bind] good_writeN [THEN good_bind] split: option.split, (blast intro: ext_owner)+)
  note c = this [THEN good_bind]
  show ?thesis unfolding ASTCreate_ps_def
    by (auto intro!: good_get_var_table [THEN good_bind] c good_ret good_empty_token [THEN good_conseq]
        split: option.split simp: assms ext_sel)
qed

lemma good_push_latency:
  assumes "lang_ok ps" "owner ps x (scope ps)"
  shows "runs (push_latency E x lat) (\<lambda>_ _. True) ps"
proof -
  have push: "runs (andThen (writeN c (DoubleN d)) (\<lambda>_. andThen (push_back x c) (\<lambda>_. ret (0 :: int))))
      (\<lambda>_ _. True) qs"
    if q: "lang_ok qs" "ext ps qs" "owner qs c (scope qs)" "heap qs c = Some (Some (DoubleN 0))" for c d qs
  proof -
    have o: "owner qs x (scope qs)" using q(2) assms(2) by (auto simp: ext_sel intro: ext_owner)
    have "runs (writeN c (DoubleN d)) (\<lambda>_ _. True) qs"
      using q(4) by (intro good_True [OF good_writeN [OF q(1,3)]]) (auto simp: same_kind_def)
    then show ?thesis
    proof (rule good_bind)
      fix u rs assume "lang_ok rs" "ext qs rs"
      then have "runs (push_back x c) (\<lambda>_ _. True) rs" using o q(3) by (blast intro: good_push_back ext_owner)
      then show "runs (andThen (push_back x c) (\<lambda>_. ret (0 :: int))) (\<lambda>_ _. True) rs"
        by (rule good_bind) (simp add: good_ret)
    qed
  qed
  show ?thesis unfolding push_latency_def is_empty_def andThen_assoc
  proof (rule good_bind [OF good_ASTCreate_double [OF assms(1)]])
    fix c qs
    assume q: "lang_ok qs" "ext ps qs" "c = empty_node qs \<or> owner qs c (scope qs) \<and> heap qs c = Some (Some (DoubleN 0))"
    then have l: "live qs c" using lang_okD(4) owner_live by blast
    have "node_type n = EMPTY_TYPE" if "c = empty_node qs" "heap qs c = Some (Some n)" for n
      using that lang_okD(3) [OF q(1)] by simp
    then show "runs (andThen (readN c) (\<lambda>n. andThen (ret (node_type n = EMPTY_TYPE)) (\<lambda>e. if e then ret (- 1 :: int)
       else andThen (writeN c (DoubleN (e_div E (dbl_of_int (uint lat)) (dbl_of_int 1000)))) (\<lambda>_.
         andThen (push_back x c) (\<lambda>_. ret 0))))) (\<lambda>_ _. True) qs"
      using q by (auto intro!: good_readN [THEN good_bind] good_ret push l)
  qed
qed

lemma good_fill_measurement_field:
  assumes "lang_ok ps" "owner ps a (scope ps)" "live ps f"
  shows "runs (fill_measurement_field E i lats a f) (\<lambda>_ _. True) ps"
proof -
  have lats: "runs (forEach (push_latency E x) ls) (\<lambda>_ _. True) ps" if "owner ps x (scope ps)" for x ls
    by (rule good_forEach [OF assms(1)], rule good_push_latency)
      (use that in \<open>auto simp: ext_sel intro: ext_owner\<close>)
  show ?thesis unfolding fill_measurement_field_def
    by (auto intro!: good_field_decl [THEN good_bind] good_get_part [OF _ assms(2), THEN good_bind]
        good_readN [THEN good_bind] good_ret good_write_int [THEN good_bind] lats assms(1,3) owner_live
        split: option.split simp: array_of_Some)
qed

lemma good_create_filled:
  assumes "lang_ok ps"
    and fill: "\<And>a f qs. lang_ok qs \<Longrightarrow> owner qs a (scope qs) \<Longrightarrow> live qs f \<Longrightarrow> runs (fill a f) (\<lambda>_ _. True) qs"
  shows "runs (create_filled E s fill) (\<lambda>c ps'. made ps' c) ps"
proof -
  have tail: "runs (andThen (readAs sep_of p) (\<lambda>fs. andThen (forEach (fill a) fs) (\<lambda>r.
             if r = - 1 then empty_token else ret a))) (\<lambda>c ps'. made ps' c) qs"
    if q: "lang_ok qs" "owner qs a (scope qs)" "live qs p" for a p qs
  proof (rule good_bind [OF good_readAs [OF q(1,3)]])
    fix fs rs assume r: "lang_ok rs" "rs = qs \<and> (\<exists>n. heap qs p = Some (Some n) \<and> sep_of n = Some fs)"
    have "runs (forEach (fill a) fs) (\<lambda>_ _. True) qs"
      by (rule good_forEach [OF q(1)], rule fill)
        (use q r sep_live [OF q(1)] in \<open>auto simp: ext_sel intro: ext_owner ext_live\<close>)
    then have "runs (andThen (forEach (fill a) fs) (\<lambda>r. if r = - 1 then empty_token else ret a))
        (\<lambda>c ps'. made ps' c) qs"
      by (rule good_bind) (use q(2) in \<open>auto intro!: good_empty_made good_ret intro: ext_made simp: made_def [of qs]\<close>)
    then show "runs (andThen (forEach (fill a) fs) (\<lambda>r. if r = - 1 then empty_token else ret a))
        (\<lambda>c ps'. made ps' c) rs" using r(2) by simp
  qed
  show ?thesis unfolding create_filled_def is_empty_def andThen_assoc
    by (auto intro!: good_get_var_table [THEN good_bind] good_find_adt [THEN good_bind] good_empty_made
        good_ASTCreate_ps [THEN good_bind] good_readN [THEN good_bind] tail assms(1) scope_in
        split: option.split) (blast intro: ext_live made_owner | blast intro: made_live)+
qed

lemma good_createNodeIdent: "lang_ok ps \<Longrightarrow> runs (createNodeIdent E i) (\<lambda>c ps'. made ps' c) ps"
  unfolding createNodeIdent_def by (rule good_create_filled) (auto intro: good_fill_ident_field)

lemma good_createNodeIdentLat: "lang_ok ps \<Longrightarrow> runs (createNodeIdentLat E i lats) (\<lambda>c ps'. made ps' c) ps"
  unfolding createNodeIdentLat_def by (rule good_create_filled) (auto intro: good_fill_measurement_field)

subsection \<open>Packets\<close>

definition reply_header :: "u32 \<Rightarrow> u8 list \<Rightarrow> bool" where
  "reply_header magic buf \<longleftrightarrow> (case retrieve_char (newBufferWrapper buf (int (length buf))) of
     (queryType, rb) \<Rightarrow> \<not> bw_errorFlag rb \<and> queryType = DSL_REPLY \<and>
       (case get_uint rb of (queryID_1, rb) \<Rightarrow> case get_uint rb of (queryID_2, rb) \<Rightarrow>
        case get_uint rb of (magicNumber, rb) \<Rightarrow> \<not> bw_errorFlag rb \<and> magicNumber = magic))"

lemma good_parse_reply:
  assumes "lang_ok ps"
  shows "runs (DSLReplyPacket_parse magic k buf) (\<lambda>r ps'.
    (r \<noteq> None \<longleftrightarrow> reply_header magic buf) \<and> (\<forall>pk a. r = Some (pk, a) \<longrightarrow> live ps' a)) ps"
proof -
  have u: "runs (andThen (unmarshal_ast k rb) (\<lambda>(a, rb). ret (Some (pk, a))))
      (\<lambda>r ps'. r \<noteq> None \<and> (\<forall>pk a. r = Some (pk, a) \<longrightarrow> live ps' a)) ps" for rb and pk :: Packet
    by (rule good_bind [OF good_decodeD [OF good_unmarshal_ast assms]])
      (auto intro!: good_ret dest: made_live)
  show ?thesis
    unfolding DSLReplyPacket_parse_def reply_header_def
    by (auto intro!: good_ret assms good_conseq [OF u] split: prod.split)
qed

lemma good_marshal_ast: "lang_ok ps \<Longrightarrow> live ps a \<Longrightarrow> runs (marshal_ast k a p) (\<lambda>_ ps'. ps' = ps) ps"
proof (induction k arbitrary: a p)
  case 0
  then show ?case by (simp add: good_stop)
next
  case (Suc k)
  note ok = Suc.prems(1)
  have nodes: "runs (marshal_nodes (marshal_ast k) as p) (\<lambda>_ ps'. ps' = ps) ps" if "\<forall>c \<in> set as. live ps c" for as p
    using that by (induction as arbitrary: p) (auto intro!: good_ret ok good_bind [OF Suc.IH [OF ok]])
  have fields: "runs (marshal_fields (marshal_ast k) es p) (\<lambda>_ ps'. ps' = ps) ps"
    if "\<forall>e \<in> set es. live ps (snd e)" for es p
    using that by (induction es arbitrary: p) (auto intro!: good_ret ok good_bind [OF Suc.IH [OF ok]] simp: marshal_entry_def)
  have contents: "runs (marshal_contents (marshal_ast k) n p) (\<lambda>_ ps'. ps' = ps) ps"
    if "\<forall>c \<in> refs n. live ps c" for n p
    using that
    by (cases n) (auto simp: marshal_contents_def refs_def marshal_array_def Let_def good_flat ok
        intro!: good_ret good_value_of [THEN good_bind] nodes fields)
  show ?case unfolding marshal_ast.simps
    by (rule good_bind [OF good_readN [OF Suc.prems]])
      (auto intro!: good_bind [OF contents] good_ret refs_live [OF ok])
qed

lemma good_marshal_packet:
  assumes "lang_ok ps" "live ps a"
  shows "runs (marshal_packet compress k s a p) (\<lambda>_ ps'. ps' = ps) ps"
  unfolding marshal_packet_def Let_def
  by (auto intro!: good_gets [THEN good_bind] good_ret good_marshal_ast [THEN good_bind] assms split: option.split)

end
