(* ===== verification/Lang_Node.thy ===== *)
theory Lang_Node
  imports Lang_Decode
begin

text \<open>
  The interpreters of a node (Lang_Handlers) in the logic. What the main thread does while an
  interpreter is suspended keeps the invariant whatever it is. A remote call answers the node last
  stored in \<open>rpc_recv\<close>, a measurement the one in \<open>query_return\<close>; each is alive when the interpreter
  is resumed, provided it was not resumed by an answer to something else: \<open>orderly\<close>. With an orderly
  main thread the operations of the node satisfy the laws of the locale \<open>interpreter\<close>.
\<close>

subsection \<open>The main thread\<close>

text \<open>
  What the two result fields hold when the interpreter is resumed: \<open>results_live R Q ps\<close> says that the
  last answer is alive if \<open>R\<close>, and that the last measurement is alive if \<open>Q\<close>.
\<close>

definition results_live :: "bool \<Rightarrow> bool \<Rightarrow> ParserState \<Rightarrow> bool" where
  "results_live R Q ps \<longleftrightarrow> (R \<longrightarrow> live ps (rpc_recv ps)) \<and> (Q \<longrightarrow> live ps (query_return ps))"

lemma good_quiet: "runs m Q ps \<Longrightarrow> calm m \<Longrightarrow> runs m (\<lambda>x ps'. Q x ps' \<and> keeps ps ps') ps"
  by (auto simp: runs_def calm_def split: sum.splits)

lemma good_set_rpc: "lang_ok ps \<Longrightarrow> runs (setRPCRecv a) (\<lambda>_ ps'. ps' = ps\<lparr>rpc_recv := a\<rparr>) ps"
  and good_set_query: "lang_ok ps \<Longrightarrow> runs (setQueryReturn a) (\<lambda>_ ps'. ps' = ps\<lparr>query_return := a\<rparr>) ps"
  and good_set_state: "lang_ok ps \<Longrightarrow> runs (set_parser_state s) (\<lambda>_ ps'. ps' = ps\<lparr>ps_state := s\<rparr>) ps"
  and good_set_count: "lang_ok ps \<Longrightarrow> runs (allocateEvalCount n) (\<lambda>_ ps'. ps' = ps\<lparr>evalCount := n\<rparr>) ps"
  unfolding setRPCRecv_def setQueryReturn_def set_parser_state_def allocateEvalCount_def
  by (rule good_modify; simp)+

lemma live_upd [simp]: "live (ps\<lparr>rpc_recv := a\<rparr>) = live ps" "live (ps\<lparr>query_return := a\<rparr>) = live ps"
  "live (ps\<lparr>ps_state := s\<rparr>) = live ps" "live (ps\<lparr>evalCount := n\<rparr>) = live ps" "live (ps\<lparr>switches := i\<rparr>) = live ps"
  by (intro HOL.ext; simp add: live_def owner_def)+

lemma good_handle_reply:
  assumes "lang_ok ps"
  shows "runs (handle_reply E N bs) (\<lambda>_ ps'. query_return ps' = query_return ps \<and>
    (if reply_header (n_magic N) bs then live ps' (rpc_recv ps') \<and> ps_state ps' = PS_READY
     else rpc_recv ps' = rpc_recv ps \<and> ps_state ps' = ps_state ps)) ps"
  unfolding handle_reply_def
  by (rule good_bind [OF good_quiet [OF good_parse_reply [OF assms] quiet_parse_reply]])
    (auto intro!: good_ret good_set_rpc [THEN good_bind] good_set_state [THEN good_bind]
      split: option.split simp: keeps_def)

lemma good_handle_distances:
  assumes "lang_ok ps"
  shows "runs (handle_distances E rows) (\<lambda>_ ps'. rpc_recv ps' = rpc_recv ps \<and> live ps' (query_return ps')) ps"
proof -
  have fail: "runs (andThen empty_token (\<lambda>t. andThen (setQueryReturn t) (\<lambda>_. ret (- 1 :: int))))
      (\<lambda>_ ps'. rpc_recv ps' = rpc_recv ps \<and> live ps' (query_return ps')) qs"
    if "lang_ok qs" "rpc_recv qs = rpc_recv ps" for qs
    using that by (auto intro!: good_empty_token [THEN good_bind] good_set_query [THEN good_bind] good_ret)
  have push: "runs (push_measurement E r p) (\<lambda>_ _. True) qs" if q: "lang_ok qs" "owner qs r (scope qs)" for r p qs
  proof (cases p)
    case (Pair src row)
    have "runs (push_back r c) (\<lambda>_ _. True) rs"
      if "lang_ok rs" "ext qs rs" "made rs c" "heap rs c = Some (Some n)" "node_type n \<noteq> EMPTY_TYPE" for c n rs
      using made_owner [OF that(1,3-5)] q(2) that(2)
      by (intro good_push_back [OF that(1)]) (auto simp: ext_sel intro: ext_owner)
    note pb = this [THEN good_bind]
    show ?thesis unfolding push_measurement_def Pair prod.case is_empty_def andThen_assoc
      by (auto intro!: good_createNodeIdentLat [THEN good_bind] good_readN [THEN good_bind] good_ret q(1))
        (blast intro: made_live | rule pb; (assumption | simp add: good_ret))+
  qed
  have loop: "runs (forEach (push_measurement E r) rows) (\<lambda>_ qs'. keeps qs qs') qs"
    if q: "lang_ok qs" "owner qs r (scope qs)" for r qs
  proof -
    have "runs (forEach (push_measurement E r) rows) (\<lambda>_ _. True) qs"
      by (rule good_forEach [OF q(1)], rule push) (use q in \<open>auto simp: ext_sel intro: ext_owner\<close>)
    from good_quiet [OF this quiet_forEach [OF quiet_push_measurement]] show ?thesis by simp
  qed
  have fill: "runs (andThen (forEach (push_measurement E r) rows) (\<lambda>x. if x = - 1
         then andThen empty_token (\<lambda>t. andThen (setQueryReturn t) (\<lambda>_. ret (- 1 :: int)))
         else andThen (setQueryReturn r) (\<lambda>_. andThen (set_parser_state PS_READY) (\<lambda>_. ret 0))))
      (\<lambda>_ ps'. rpc_recv ps' = rpc_recv ps \<and> live ps' (query_return ps')) qs"
    if q: "lang_ok qs" "owner qs r (scope qs)" "rpc_recv qs = rpc_recv ps" for r qs
    by (rule good_bind [OF loop [OF q(1,2)]])
      (use q in \<open>auto intro!: fail good_set_query [THEN good_bind] good_set_state [THEN good_bind] good_ret
        simp: keeps_def, auto intro: ext_live owner_live\<close>)
  show ?thesis unfolding handle_distances_def is_empty_def andThen_assoc
    by (rule good_bind [OF good_quiet [OF good_ASTCreate_ps [OF assms] quiet_ASTCreate_ps]])
      (auto intro!: good_readN [THEN good_bind] fail fill simp: keeps_def intro: made_live made_owner)
qed

lemma good_main_thread:
  assumes "lang_ok ps" "results_live R Q ps"
  shows "runs (main_thread E N ws) (\<lambda>_ ps'. results_live R Q ps') ps"
  using assms
proof (induction ws arbitrary: ps)
  case (Cons w ws)
  note rest = Cons.IH and p = Cons.prems
  show ?case
  proof (cases w)
    case Schedule
    then show ?thesis using p rest
      by (auto intro!: good_gets [THEN good_bind] good_set_count [THEN good_conseq] simp: results_live_def)
  next
    case (Reply bs)
    have "runs (handle_reply E N bs) (\<lambda>_ ps'. results_live R Q ps') ps"
      by (rule good_conseq [OF good_handle_reply [OF p(1)]])
        (use p(2) in \<open>auto simp: results_live_def split: if_splits intro: ext_live\<close>)
    then show ?thesis using Reply rest by (auto intro: good_bind)
  next
    case (Distances rows)
    have "runs (handle_distances E rows) (\<lambda>_ ps'. results_live R Q ps') ps"
      by (rule good_conseq [OF good_handle_distances [OF p(1)]])
        (use p(2) in \<open>auto simp: results_live_def intro: ext_live\<close>)
    then show ?thesis using Distances rest by (auto intro: good_bind)
  qed
qed (simp add: good_stop)

text \<open>
  A blocked interpreter that is resumed has got what it waits for: an answer for a remote call,
  latencies for a measurement; nothing else has been delivered before that.
\<close>

fun awaits_reply :: "u32 \<Rightarrow> wake list \<Rightarrow> bool" where
  "awaits_reply magic [] = True"
| "awaits_reply magic (Schedule # ws) = awaits_reply magic ws"
| "awaits_reply magic (Reply bs # ws) = (reply_header magic bs \<or> awaits_reply magic ws)"
| "awaits_reply magic (Distances rows # ws) = False"

fun awaits_distances :: "u32 \<Rightarrow> wake list \<Rightarrow> bool" where
  "awaits_distances magic [] = True"
| "awaits_distances magic (Schedule # ws) = awaits_distances magic ws"
| "awaits_distances magic (Reply bs # ws) = (\<not> reply_header magic bs \<and> awaits_distances magic ws)"
| "awaits_distances magic (Distances rows # ws) = True"

definition orderly :: "node_env \<Rightarrow> bool" where
  "orderly N \<longleftrightarrow> (\<forall>sent ps. awaits_reply (n_magic N) (n_rpc N sent ps)) \<and>
     (\<forall>q ps. awaits_distances (n_magic N) (n_dist N q ps))"

lemma good_await_reply:
  assumes "lang_ok ps" "ps_state ps = PS_BLOCKED" "awaits_reply (n_magic N) ws"
  shows "runs (main_thread E N ws) (\<lambda>_ ps'. live ps' (rpc_recv ps')) ps"
  using assms
proof (induction ws arbitrary: ps)
  case (Cons w ws)
  show ?case
  proof (cases w)
    case Schedule
    then show ?thesis using Cons by (auto intro!: good_gets [THEN good_bind])
  next
    case (Reply bs)
    have later: "runs (main_thread E N ws) (\<lambda>_ ps'. live ps' (rpc_recv ps')) qs"
      if "lang_ok qs" "if reply_header (n_magic N) bs then live qs (rpc_recv qs) \<and> ps_state qs = PS_READY
        else rpc_recv qs = rpc_recv ps \<and> ps_state qs = ps_state ps" for qs
    proof (cases "reply_header (n_magic N) bs")
      case True
      have "runs (main_thread E N ws) (\<lambda>_ ps'. results_live True False ps') qs"
        using that True by (intro good_main_thread) (auto simp: results_live_def)
      then show ?thesis by (simp add: results_live_def)
    next
      case False
      then show ?thesis using Cons Reply that by auto
    qed
    show ?thesis unfolding Reply main_thread.simps wake.case
      by (rule good_bind [OF good_handle_reply [OF Cons.prems(1)]]) (use later in blast)
  qed (use Cons.prems in simp)
qed (simp add: good_stop)

lemma good_await_distances:
  assumes "lang_ok ps" "ps_state ps = PS_BLOCKED" "awaits_distances (n_magic N) ws"
  shows "runs (main_thread E N ws) (\<lambda>_ ps'. live ps' (query_return ps')) ps"
  using assms
proof (induction ws arbitrary: ps)
  case (Cons w ws)
  show ?case
  proof (cases w)
    case Schedule
    then show ?thesis using Cons by (auto intro!: good_gets [THEN good_bind])
  next
    case (Reply bs)
    then have h: "\<not> reply_header (n_magic N) bs" "awaits_distances (n_magic N) ws" using Cons.prems by simp_all
    show ?thesis unfolding Reply main_thread.simps wake.case
      by (rule good_bind [OF good_handle_reply [OF Cons.prems(1)]])
        (use Cons h in auto)
  next
    case (Distances rows)
    have "runs (main_thread E N ws) (\<lambda>_ ps'. live ps' (query_return ps')) qs"
      if "lang_ok qs" "live qs (query_return qs)" for qs
    proof -
      have "runs (main_thread E N ws) (\<lambda>_ ps'. results_live False True ps') qs"
        using that by (intro good_main_thread) (auto simp: results_live_def)
      then show ?thesis by (simp add: results_live_def)
    qed
    then show ?thesis unfolding Distances main_thread.simps wake.case
      by (auto intro: good_bind [OF good_handle_distances [OF Cons.prems(1)]])
  qed
qed (simp add: good_stop)

lemma good_swap_out:
  assumes "lang_ok ps"
    and "\<And>qs. lang_ok qs \<Longrightarrow> ps_state qs = ps_state ps \<Longrightarrow> runs (main_thread E N (wakes ps)) P qs"
  shows "runs (swap_out E N wakes) P ps"
proof -
  have m: "runs (modify (\<lambda>ps. ps\<lparr>switches := Suc (switches ps)\<rparr>)) (\<lambda>_ ps'. ps' = ps\<lparr>switches := Suc (switches ps)\<rparr>) ps"
    by (rule good_modify [OF assms(1)]) simp_all
  show ?thesis unfolding swap_out_def
    by (rule good_bind [OF good_gets [OF assms(1)]]) (auto intro!: good_bind [OF m] assms(2))
qed

subsection \<open>The laws of the interpreter\<close>

lemma good_req_init:
  assumes "lang_ok ps" "live ps a"
  shows "runs (DSLReqQuery_init E N dest s a) (\<lambda>_ ps'. ps' = ps) ps"
  unfolding DSLReqQuery_init_def Let_def
  by (auto intro!: good_gets [THEN good_bind] good_ret good_marshal_packet [THEN good_bind] assms
      split: prod.split)

lemma node_yield_safe: "safe_yield (swap_out E N wakes)"
proof -
  have "runs (main_thread E N ws) (\<lambda>_ _. True) ps" if "lang_ok ps" for ws ps
    using good_True [OF good_main_thread [OF that, of False False]] by (simp add: results_live_def)
  then show ?thesis unfolding safe_yield_def by (auto intro: good_swap_out)
qed

lemma node_rpc_safe:
  assumes "orderly N"
  shows "safe_rpc (handleRPC E N)"
proof -
  have wait: "runs (andThen (set_parser_state PS_BLOCKED) (\<lambda>_. andThen (swap_out E N (n_rpc N sent)) (\<lambda>_. gets rpc_recv)))
      (\<lambda>x ps'. live ps' x) ps" if "lang_ok ps" for sent ps
  proof (rule good_bind [OF good_set_state [OF that]])
    fix u qs assume q: "lang_ok qs" "qs = ps\<lparr>ps_state := PS_BLOCKED\<rparr>"
    have "runs (swap_out E N (n_rpc N sent)) (\<lambda>_ ps'. live ps' (rpc_recv ps')) qs"
      using assms q by (intro good_swap_out good_await_reply) (auto simp: orderly_def)
    then show "runs (andThen (swap_out E N (n_rpc N sent)) (\<lambda>_. gets rpc_recv)) (\<lambda>x ps'. live ps' x) qs"
      by (rule good_bind) (auto intro: good_conseq [OF good_gets])
  qed
  show ?thesis unfolding safe_rpc_def handleRPC_def
    by (auto intro!: good_empty_live good_gets [THEN good_bind] good_req_init [THEN good_bind] wait)
qed

lemma good_push_node:
  assumes "lang_ok ps" "owner ps r (scope ps)"
  shows "runs (push_node E r i) (\<lambda>_ _. True) ps"
proof -
  have push: "runs (andThen (push_back r c) (\<lambda>_. ret (0 :: int))) (\<lambda>_ _. True) qs"
    if "lang_ok qs" "ext ps qs" "owner qs c (scope qs)" for c qs
    by (rule good_bind [OF good_push_back [OF that(1) _ that(3)]])
      (use that(2) assms(2) in \<open>auto simp: ext_sel intro: ext_owner good_ret\<close>)
  show ?thesis unfolding push_node_def is_empty_def andThen_assoc
    by (rule good_bind [OF good_createNodeIdent [OF assms(1)]])
      (auto intro!: good_readN [THEN good_bind] good_ret push intro: made_live made_owner)
qed

lemma good_ring_query:
  assumes "good_eval ev" "lang_ok ps" "live_member ps p"
  shows "runs (ring_query E N ev sel p) (\<lambda>x ps'. live ps' x) ps"
proof -
  have fill: "runs (andThen (forEach (push_node E r) ns) (\<lambda>x. if x = - 1 then empty_token else ret r))
      (\<lambda>x ps'. live ps' x) qs" if q: "lang_ok qs" "owner qs r (scope qs)" for r ns qs
  proof (rule good_bind [OF good_forEach [OF q(1)]])
    fix i rs assume "lang_ok rs" "ext qs rs"
    then show "runs (push_node E r i) (\<lambda>_ _. True) rs"
      using q by (intro good_push_node) (auto simp: ext_sel intro: ext_owner)
  next
    fix x rs assume "lang_ok rs" "ext qs rs"
    then show "runs (if x = - 1 then empty_token else ret r) (\<lambda>x ps'. live ps' x) rs"
      using q(2) by (auto intro!: good_empty_live good_ret intro: owner_live ext_live)
  qed
  show ?thesis unfolding ring_query_def is_empty_def andThen_assoc
    by (auto intro!: good_arg [THEN good_bind] good_with_member good_stop good_gets [THEN good_bind]
        good_ASTCreate_ps [THEN good_bind] good_readN [THEN good_bind] good_empty_live fill assms
        split: option.split) (blast intro: made_live made_owner)+
qed

lemma good_is_node_array:
  assumes "lang_ok ps" "live ps a"
  shows "runs (is_node_array a) (\<lambda>_ ps'. ps' = ps) ps"
  unfolding is_node_array_def
  by (auto intro!: good_readN [THEN good_bind] good_value_of [THEN good_bind] good_ret assms split: option.split)

lemma good_read_idents:
  assumes "lang_ok ps" "\<forall>a \<in> set as. live ps a"
  shows "runs (read_idents as) (\<lambda>_ ps'. ps' = ps) ps"
  using assms(2)
proof (induction as)
  case (Cons a as)
  have "runs (read_idents as) (\<lambda>_ ps'. ps' = ps) ps" using Cons by simp
  note rest = this [THEN good_bind]
  show ?case unfolding read_idents.simps
    by (rule good_bind [OF good_identOfNode [OF assms(1)]])
      (use Cons.prems in \<open>auto intro!: good_ret rest split: option.split simp: assms(1)\<close>)
qed (simp add: good_ret assms(1))

lemma good_array_idents:
  assumes "lang_ok ps" "live ps a"
  shows "runs (andThen (vector_of a) read_idents) (\<lambda>_ ps'. ps' = ps) ps"
  by (rule good_bind [OF good_vector_of [OF assms]]) (auto intro: good_read_idents)

lemma good_source_array:
  assumes "good_eval ev" "lang_ok ps" "live ps p"
  shows "runs (source_array ev p) (\<lambda>r ps'. \<forall>a. r = Some (Some a) \<longrightarrow> live ps' a) ps"
  unfolding source_array_def
  by (auto intro!: good_is_empty [THEN good_bind] good_evalD [OF assms(1), THEN good_bind]
      good_is_node_array [THEN good_bind] good_ret assms(2,3) split: if_splits)

lemma good_source_idents:
  assumes "lang_ok ps" "\<forall>a. srcs = Some a \<longrightarrow> live ps a"
  shows "runs (source_idents N srcs) (\<lambda>_ ps'. ps' = ps) ps"
  unfolding source_idents_def
  by (auto intro!: good_ret good_array_idents assms split: option.split) (use assms(2) in simp)

lemma good_take_result:
  assumes "lang_ok ps" "live ps (query_return ps)"
  shows "runs (take_result single) (\<lambda>x ps'. live ps' x) ps"
proof -
  have "live ps (hd vec)" if "heap ps a = Some (Some n)" "array_of n = Some (ty, nm, vec, tb)" "length vec = 1"
    for a n ty nm vec tb
    using array_live [OF assms(1) that(1,2)] that(3) by (cases vec) auto
  then show ?thesis unfolding take_result_def
    by (auto intro!: good_gets [THEN good_bind] good_readN [THEN good_bind] good_ret assms split: option.split)
qed

lemma good_measure_distances:
  assumes "orderly N" "lang_ok ps" "\<forall>a. srcs = Some a \<longrightarrow> live ps a" "live ps dests"
  shows "runs (measure_distances E N kind srcs dests) (\<lambda>x ps'. live ps' x) ps"
proof -
  have wait: "runs (andThen (set_parser_state PS_BLOCKED) (\<lambda>_. andThen (swap_out E N (n_dist N q)) (\<lambda>_.
      take_result single))) (\<lambda>x ps'. live ps' x) ps" if "lang_ok ps" for q single ps
  proof (rule good_bind [OF good_set_state [OF that]])
    fix u qs assume q: "lang_ok qs" "qs = ps\<lparr>ps_state := PS_BLOCKED\<rparr>"
    have "runs (swap_out E N (n_dist N q)) (\<lambda>_ ps'. live ps' (query_return ps')) qs"
      using assms(1) q by (intro good_swap_out good_await_distances) (auto simp: orderly_def)
    then show "runs (andThen (swap_out E N (n_dist N q)) (\<lambda>_. take_result single)) (\<lambda>x ps'. live ps' x) qs"
      by (rule good_bind) (auto intro: good_take_result)
  qed
  note now = good_True [OF good_handle_distances [OF assms(2)]]
  show ?thesis unfolding measure_distances_def
    by (auto intro!: good_source_idents [THEN good_bind] good_array_idents [THEN good_bind] good_empty_live
        good_gets [THEN good_bind] good_bind [OF now] wait assms(2,4) split: option.split) (use assms(3) in simp)
qed

lemma good_handleGetDist:
  assumes "orderly N" "good_eval ev" "lang_ok ps" "live_member ps p1" "live_member ps p2" "live_member ps p3"
  shows "runs (handleGetDistGeneric E N ev kind p1 p2 p3) (\<lambda>x ps'. live ps' x) ps"
  unfolding handleGetDistGeneric_def
  by (auto intro!: good_empty_live good_value_of [THEN good_bind] good_source_array [OF assms(2), THEN good_bind]
      good_arg [OF assms(2), THEN good_bind] good_is_node_array [THEN good_bind] good_with_member
      good_measure_distances assms(1,3) split: option.split)
    (use assms(4-6) in \<open>auto simp: live_member_def\<close>, (blast intro: ext_live)+)

lemma node_native_safe:
  assumes "orderly N"
  shows "safe_native (handleNative E N)"
proof -
  have self: "runs (handleGetSelf E N) (\<lambda>x ps'. live ps' x) ps" if "lang_ok ps" for ps
    unfolding handleGetSelf_def
    using that by (simp add: good_empty_live good_made_live [OF good_createNodeIdent])
  show ?thesis unfolding safe_native_def
  proof (intro allI impI)
    fix ev fn p1 p2 p3 ps
    assume a: "good_eval ev" "lang_ok ps" "live_member ps p1" "live_member ps p2" "live_member ps p3"
    show "runs (handleNative E N ev (NativeFuncN fn p1 p2 p3)) (\<lambda>x ps'. live ps' x) ps"
      by (cases fn) (simp_all add: handleNative_def handleRingGTE_def handleRingLTE_def self good_ring_query
        good_handleGetDist good_empty_live assms a)
  qed
qed

text \<open>
  A measurement without sources has its result before the interpreter is marked as blocked, and is
  not resumed when it only gets time slices afterwards.
\<close>

lemma blocked_main_thread:
  "ps_state ps = PS_BLOCKED \<Longrightarrow> set ws \<subseteq> {Schedule} \<Longrightarrow> main_thread E N ws ps = Inl Suspended"
  by (induction ws) (auto simp: lang_simps)

lemma measurement_without_sources_hangs:
  assumes "vector_of a ps = Inr ([], ps)" "andThen (vector_of dests) read_idents ps = Inr (Some ds, ps)"
    and "n_room N ps" "\<forall>q ps. set (n_dist N q ps) \<subseteq> {Schedule}"
  shows "\<exists>f. measure_distances E N kind (Some a) dests ps = Inl f"
proof -
  have sources: "source_idents N (Some a) ps = Inr (Some [], ps)"
    by (simp add: source_idents_def lang_simps assms(1))
  have "swap_out E N (n_dist N q) qs = Inl Suspended" if "ps_state qs = PS_BLOCKED" for q qs
    using blocked_main_thread [of "qs\<lparr>switches := Suc (switches qs)\<rparr>" "n_dist N q qs" E N] that assms(4)
    by (simp add: swap_out_def lang_simps)
  then show ?thesis using assms(2,3)
    by (simp add: measure_distances_def sources andThen_run [of "source_idents N (Some a)"]
        andThen_run [of "andThen (vector_of dests) read_idents"] gets_run modify_run set_parser_state_def
        andThen_run [of "gets (n_room N)"] andThen_run [of "handle_distances E []"]
        andThen_run [of "swap_out E N q" for q] andThen_run [of "modify h" for h] split: sum.split)
qed

lemma node_interpreter: "orderly N \<Longrightarrow> interpreter (node_dsl E N)"
  by (simp add: interpreter_def node_dsl_def node_yield_safe node_rpc_safe node_native_safe)

end
