(* ===== verification/Lang_Alone.thy ===== *)
theory Lang_Alone
  imports Lang_Decode
begin

text \<open>
  DSLStandAlone.cpp: the interpreter outside of a node. It runs one program after the other in time
  slices, it has no rings and cannot measure, but it can call the nodes, waiting for the answer on a
  socket of its own. The network and the resolver are the parameters \<open>a_exchange\<close> (\<open>None\<close> when the
  socket cannot be made or sending or receiving fails) and \<open>a_hosts\<close>. The laws of the locale
  \<open>interpreter\<close> hold for it without any assumption.
\<close>

record alone_env =
  a_magic :: u32
  a_compress :: "u8 list \<Rightarrow> u8 list option"
  a_exchange :: "RealPacket \<Rightarrow> ParserState \<Rightarrow> u8 list option"
  a_hosts :: "str \<Rightarrow> u32 option"

definition alone_yield :: "unit lang" where
  "alone_yield = andThen (modify (\<lambda>ps. ps\<lparr>switches := Suc (switches ps)\<rparr>)) (\<lambda>_. allocateEvalCount 10000)"

definition alone_lookup :: "alone_env \<Rightarrow> (nat \<Rightarrow> nat lang) \<Rightarrow> nat member \<Rightarrow> nat lang" where
  "alone_lookup A ev p = andThen (arg ev p) (\<lambda>a. with_member string_of a (\<lambda>s.
     case a_hosts A (takeWhile (\<lambda>c. c \<noteq> 0) s) of None \<Rightarrow> empty_token | Some h \<Rightarrow> mk_int h))"

text \<open>A request for a node behind a firewall is wrapped for its rendezvous node.\<close>

definition wrap_push :: "u32 \<Rightarrow> RealPacket \<Rightarrow> RealPacket option" where
  "wrap_push magic p =
     (let d = rp_dest p
      in if addrRendv d = 0 \<and> portRendv d = 0 then Some p
         else case PushPacket_createRealPacket magic (newPushPacket 0 (addr d) (port d))
             (newRealPacket \<lparr>addr = addrRendv d, port = ucast (portRendv d)\<rparr> MAX_UDP_PACKET_SIZE) of
           (r, q) \<Rightarrow> if r = - 1 then None
             else (let w = append_packet p q in if rp_complete w then Some w else None))"

text \<open>An answer that cannot be parsed leaves the result a null pointer.\<close>

definition alone_rpc :: "dsl_env \<Rightarrow> alone_env \<Rightarrow> NodeIdentRendv \<Rightarrow> str \<Rightarrow> nat \<Rightarrow> nat lang" where
  "alone_rpc E A dest func_name paramAST =
     (let pk = \<lparr>req_id_1 = fst (to32 1234), req_id_2 = snd (to32 1234), rendv_addr = 0, rendv_port = 0,
            ms_remain = 10000, dsl_ttl = 500\<rparr>
      in case DSLRequestPacket_createRealPacket (a_magic A) pk (newRealPacketRendv dest MAX_UDP_PACKET_SIZE) of
        (r, p) \<Rightarrow> if r = - 1 then empty_token
          else andThen (marshal_packet (a_compress A) (e_stack E) func_name paramAST p) (\<lambda>(r, p).
            if r = - 1 then empty_token
            else case wrap_push (a_magic A) p of None \<Rightarrow> empty_token
              | Some w \<Rightarrow> andThen (gets (a_exchange A w)) (\<lambda>got. case got of None \<Rightarrow> empty_token
                  | Some buf \<Rightarrow> andThen (DSLReplyPacket_parse (a_magic A) (e_stack E) buf) (\<lambda>r. case r of
                      None \<Rightarrow> stop Uninit | Some (rp, retNode) \<Rightarrow> ret retNode))))"

definition alone_native :: "alone_env \<Rightarrow> (nat \<Rightarrow> nat lang) \<Rightarrow> ASTNode \<Rightarrow> nat lang" where
  "alone_native A ev n = (case n of
       NativeFuncN f p1 p2 p3 \<Rightarrow> if f = DNS_LOOKUP then alone_lookup A ev p1 else empty_token
     | _ \<Rightarrow> empty_token)"

definition alone_dsl :: "dsl_env \<Rightarrow> alone_env \<Rightarrow> dsl_env" where
  "alone_dsl E A = E\<lparr>e_yield := alone_yield, e_rpc := alone_rpc E A, e_native := alone_native A\<rparr>"

subsection \<open>The laws of the interpreter\<close>

lemma alone_yield_safe: "safe_yield alone_yield"
proof -
  have m: "runs (modify (\<lambda>ps. ps\<lparr>switches := Suc (switches ps)\<rparr>)) (\<lambda>_ _. True) ps" if "lang_ok ps" for ps
    by (rule good_True [OF good_modify [OF that]]) simp_all
  have c: "runs (allocateEvalCount n) (\<lambda>_ _. True) ps" if "lang_ok ps" for ps n
    unfolding allocateEvalCount_def by (rule good_True [OF good_modify [OF that]]) simp_all
  show ?thesis unfolding safe_yield_def alone_yield_def by (auto intro!: good_bind [OF m] c)
qed

lemma alone_rpc_safe: "safe_rpc (alone_rpc E A)"
proof -
  have answer: "runs (andThen (DSLReplyPacket_parse magic k buf) (\<lambda>r. case r of
      None \<Rightarrow> stop Uninit | Some (rp, retNode) \<Rightarrow> ret retNode)) (\<lambda>x ps'. live ps' x) ps"
    if "lang_ok ps" for magic k buf ps
    by (rule good_bind [OF good_parse_reply [OF that]]) (auto intro!: good_stop good_ret split: option.split)
  show ?thesis
    unfolding safe_rpc_def alone_rpc_def Let_def
    by (auto intro!: good_empty_live good_gets [THEN good_bind] good_marshal_packet [THEN good_bind] answer
        split: prod.split option.split)
qed

lemma alone_native_safe: "safe_native (alone_native A)"
proof -
  have "runs (alone_lookup A ev p) (\<lambda>x ps'. live ps' x) ps"
    if "good_eval ev" "lang_ok ps" "live_member ps p" for ev p ps
    unfolding alone_lookup_def
    by (auto intro!: good_arg [THEN good_bind] good_with_member good_empty_live good_mk_leaf that split: option.split)
  then show ?thesis
    unfolding safe_native_def alone_native_def by (auto intro: good_empty_live)
qed

interpretation alone: interpreter "alone_dsl E A" for E A
  by unfold_locales (simp_all add: alone_dsl_def alone_yield_safe alone_rpc_safe alone_native_safe)

end
