(* ===== verification/Lang_Programs.thy ===== *)
theory Lang_Programs
  imports Lang_Node Lang_Alone
begin

text \<open>
  Whole programs in the logic. \<open>built\<close> are the states the parser can bring an interpreter to: from
  the constructor on, it makes nodes out of nodes it has, appends to lists it has made, stores the
  program, the parameters and the name of the function to call. Such a state satisfies the invariant,
  and running the program keeps it.
\<close>

subsection \<open>The state before parsing\<close>

text \<open>The first nodes are made while there is no empty node yet.\<close>

definition initialState :: ParserState where
  "initialState = blank_state\<lparr>
     heap := [0 \<mapsto> Some EmptyN, 1 \<mapsto> Some BreakN, 2 \<mapsto> Some ContinueN], next_node := 3,
     tables := [0 \<mapsto> \<lparr>v_map = [], v_stack_ast = [0, 1, 2], prev_var_table = None\<rparr>], next_table := 1,
     var_table := [0], ASTAllocationCount := 3, break_node := 1, continue_node := 2\<rparr>"

lemma newParserState_eq: "newParserState = initialState"
  by (simp add: newParserState_def initialState_def init_state_def blank_state_def new_var_table_def
      push_table_def mk_empty_def mk_break_def mk_continue_def mk_node_def new_stack_ast_def new_ast_def
      get_var_table_def tableAt_def setTable_def writeN_def andThen_def gets_def modify_def ret_def
      MAX_AST_PER_STACK_def numeral_eq_Suc)

lemma init_owner: "owner initialState a t \<longleftrightarrow> t = 0 \<and> a \<in> {0, 1, 2}"
  by (auto simp: owner_def initialState_def)

lemma init_dom: "dom (heap initialState) = {0, 1, 2}"
  by (auto simp: initialState_def blank_state_def)

lemma init_heap: "heap initialState a = Some (Some n) \<Longrightarrow> n \<in> {EmptyN, BreakN, ContinueN}"
  by (auto simp: initialState_def blank_state_def split: if_splits)

lemma init_tables: "tables initialState t = Some vt \<longleftrightarrow>
    t = 0 \<and> vt = \<lparr>v_map = [], v_stack_ast = [0, 1, 2], prev_var_table = None\<rparr>"
  by (auto simp: initialState_def blank_state_def)

lemma init_sel: "next_node initialState = 3" "next_table initialState = 1" "var_table initialState = [0]"
  "ASTAllocationCount initialState = 3" "empty_node initialState = 0" "param_node initialState = 0"
  "start_node initialState = 0" "scope0 initialState = 0"
  by (simp_all add: initialState_def blank_state_def scope0_def)

lemma newParserState_ok: "lang_ok newParserState"
proof -
  let ?i = initialState
  have "tables ?i t = None \<longleftrightarrow> t \<noteq> 0" for t
    by (simp add: initialState_def blank_state_def)
  then have "scopes_ok ?i"
    by (simp add: scopes_ok_def init_sel)
  moreover have "memory_ok ?i"
    unfolding memory_ok_def init_dom init_sel domIff [symmetric]
    by (simp add: init_owner live_def MAX_AST_PER_STACK_def)
  moreover have "vt_ok ?i t vt" if "tables ?i t = Some vt" for t vt
    using that by (auto simp: init_tables vt_ok_def)
  moreover have "node_ok ?i t n" if "heap ?i a = Some (Some n)" "owner ?i a t" for a n t
    using init_heap [OF that(1)] that(2)
    by (auto simp: node_ok_def refs_def home_def bodies_def parts_def init_owner init_sel)
  moreover have "heap ?i (empty_node ?i) = Some (Some EmptyN)"
    by (simp add: initialState_def blank_state_def)
  ultimately show ?thesis
    unfolding newParserState_eq lang_ok_def by (auto simp: init_owner init_sel)
qed

subsection \<open>The states the parser can reach\<close>

text \<open>
  What an action of the grammar may make a node of: nodes it has, and a list of statements where a
  body belongs. The nodes only the interpreter makes (values of structs and arrays) are left out.
\<close>

definition parsed :: "ParserState \<Rightarrow> ASTNode \<Rightarrow> bool" where
  "parsed ps n \<longleftrightarrow> (\<forall>c \<in> refs n. live ps c) \<and> (\<forall>u \<in> bodies n. block ps u) \<and>
     node_type n \<notin> {VAR_ADT_TYPE, ARRAY_TYPE}"

inductive built :: "ParserState \<Rightarrow> bool" where
  built_new: "built newParserState"
| built_node: "built ps \<Longrightarrow> parsed ps n \<Longrightarrow> mk_node n ps = Inr (a, ps') \<Longrightarrow> built ps'"
| built_list: "built ps \<Longrightarrow> live ps a \<Longrightarrow> live ps b \<Longrightarrow> sep_push a b ps = Inr ((), ps') \<Longrightarrow> built ps'"
| built_value: "built ps \<Longrightarrow> unmarshal_ast k b ps = Inr (r, ps') \<Longrightarrow> built ps'"
| built_start: "built ps \<Longrightarrow> live ps a \<Longrightarrow> set_start a ps = Inr ((), ps') \<Longrightarrow> built ps'"
| built_param: "built ps \<Longrightarrow> live ps a \<Longrightarrow> set_param a ps = Inr ((), ps') \<Longrightarrow> built ps'"
| built_name: "built ps \<Longrightarrow> set_func_string s ps = Inr ((), ps') \<Longrightarrow> built ps'"
| built_program: "built ps \<Longrightarrow> store_program cs ps = Inr (r, ps') \<Longrightarrow> built ps'"

text \<open>All of it belongs to the one table the constructor made.\<close>

definition one_scope :: "ParserState \<Rightarrow> bool" where
  "one_scope ps \<longleftrightarrow> lang_ok ps \<and> var_table ps = [0]"

lemma one_scope_owner: "one_scope ps \<Longrightarrow> live ps a \<Longrightarrow> owner ps a 0"
  unfolding one_scope_def live_def using owner_scope by fastforce

lemma one_scope_sel: "one_scope ps \<Longrightarrow> scope ps = 0" "one_scope ps \<Longrightarrow> scope0 ps = 0"
  by (simp_all add: one_scope_def scope_def scope0_def)

lemma parsed_ok:
  assumes "one_scope ps" "parsed ps n"
  shows "node_ok ps (scope ps) n"
proof -
  have "inside ps 0 c" if "c \<in> refs n" for c
    using assms that by (auto simp: parsed_def inside_def intro: one_scope_owner)
  moreover have "home n = {}" "parts n = {}"
    using assms(2) by (cases n; simp add: parsed_def home_def parts_def)+
  ultimately show ?thesis
    using assms by (simp add: node_ok_def one_scope_sel parsed_def)
qed

lemma good_one_scope: "runs m Q ps \<Longrightarrow> one_scope ps \<Longrightarrow> m ps = Inr (x, ps') \<Longrightarrow> one_scope ps'"
  by (auto simp: runs_def one_scope_def ext_def)

lemma good_sep_push:
  assumes ok: "lang_ok ps" and a: "made ps a" and b: "live ps b"
  shows "runs (sep_push a b) (\<lambda>_ _. True) ps"
proof -
  have w: "runs (writeN a (SepN (vec @ [b]))) (\<lambda>_ _. True) ps" if h: "heap ps a = Some (Some (SepN vec))" for vec
  proof -
    have o: "owner ps a (scope ps)" using a h lang_okD(3) [OF ok] by (auto simp: made_def)
    have "node_ok ps (scope ps) (SepN vec)" using lang_okD(8) [OF ok h o] .
    then have n: "node_ok ps (scope ps) (SepN (vec @ [b]))"
      using live_under [OF ok b] by (auto simp: node_ok_values)
    show ?thesis by (rule good_True [OF good_writeN [OF ok o n]]) (simp add: h same_kind_def)
  qed
  show ?thesis unfolding sep_push_def
    by (rule good_bind [OF good_readAs [OF ok made_live [OF ok a]]]) (auto intro: w simp: members_Some)
qed

text \<open>Changing which nodes the program and its parameters are.\<close>

lemma point_ok:
  assumes "one_scope ps" "live ps (start_node ps')" "live ps (param_node ps')"
    "heap ps' = heap ps" "next_node ps' = next_node ps" "tables ps' = tables ps"
    "next_table ps' = next_table ps" "var_table ps' = var_table ps"
    "ASTAllocationCount ps' = ASTAllocationCount ps" "empty_node ps' = empty_node ps"
  shows "one_scope ps'"
proof -
  have o: "owner ps' = owner ps" by (intro HOL.ext) (simp add: owner_def assms)
  have b: "block ps' = block ps" by (intro HOL.ext) (simp add: block_def assms)
  have u: "inside ps' = inside ps" by (intro HOL.ext) (simp add: inside_def o)
  have n: "node_ok ps' = node_ok ps" by (intro HOL.ext) (simp add: node_ok_def u b o scope0_def assms)
  have t: "vt_ok ps' = vt_ok ps" by (intro HOL.ext) (simp add: vt_ok_def u assms)
  have "owner ps (start_node ps') 0" "owner ps (param_node ps') 0"
    by (rule one_scope_owner [OF assms(1)], rule assms)+
  moreover have v: "var_table ps = [0]" using assms(1) by (simp add: one_scope_def)
  ultimately show ?thesis
    using assms(1)
    by (simp add: one_scope_def lang_ok_def scopes_ok_def memory_ok_def live_def scope0_def o n t v assms(2-))
qed

lemma points_live: "one_scope ps \<Longrightarrow> live ps (start_node ps)" "one_scope ps \<Longrightarrow> live ps (param_node ps)"
  unfolding one_scope_def using lang_okD(5,6) owner_live by blast+

lemma built_one_scope: "built ps \<Longrightarrow> one_scope ps"
proof (induction rule: built.induct)
  case built_new
  then show ?case using newParserState_ok by (simp add: one_scope_def newParserState_eq init_sel)
next
  case (built_node ps n a ps')
  then have "lang_ok ps" by (simp add: one_scope_def)
  from good_mk_node [OF this parsed_ok [OF built_node.IH built_node.hyps(2)]] show ?case
    using built_node by (blast intro: good_one_scope)
next
  case (built_list ps a b ps')
  then have "lang_ok ps" "made ps a"
    using one_scope_owner by (simp_all add: made_def one_scope_sel one_scope_def)
  from good_sep_push [OF this built_list.hyps(3)] show ?case
    using built_list by (blast intro: good_one_scope)
next
  case (built_value ps k b r ps')
  then have "lang_ok ps" by (simp add: one_scope_def)
  from good_decodeD [OF good_unmarshal_ast this] show ?case
    using built_value by (blast intro: good_one_scope)
next
  case (built_start ps a ps')
  then show ?case using point_ok [of ps "ps\<lparr>start_node := a\<rparr>"]
    by (auto simp: set_start_def modify_def points_live)
next
  case (built_param ps a ps')
  then show ?case using point_ok [of ps "ps\<lparr>param_node := a\<rparr>"]
    by (auto simp: set_param_def modify_def points_live)
next
  case (built_name ps s ps')
  have "one_scope (ps\<lparr>func_string := s\<rparr>)" if "one_scope ps"
    using that lang_ok_cong(1) [of "ps\<lparr>func_string := s\<rparr>" ps] by (simp add: one_scope_def)
  with built_name show ?case by (auto simp: set_func_string_def modify_def)
next
  case (built_program ps cs r ps')
  have "one_scope (ps\<lparr>input_buffer := b\<rparr>)" if "one_scope ps" for b
    using that lang_ok_cong(1) [of "ps\<lparr>input_buffer := b\<rparr>" ps] by (simp add: one_scope_def)
  with built_program show ?case
    by (auto simp: store_program_def gets_def andThen_def modify_def ret_def split: prod.splits if_splits)
qed

lemma built_ok: "built ps \<Longrightarrow> lang_ok ps"
  using built_one_scope by (simp add: one_scope_def)

subsection \<open>Running a program\<close>

context interpreter
begin

lemma good_eval_top:
  assumes "lang_ok ps" "live ps a"
  shows "runs (eval_top E a) (\<lambda>x ps'. live ps' x) ps"
  unfolding eval_top_def by (rule good_eval_ast(1) [OF assms])

lemma good_new_field: "lang_ok ps \<Longrightarrow> runs (mk_new_var ty s) (\<lambda>a ps'. made ps' a) ps"
  unfolding mk_new_var_def plain_var_def
  by (rule good_mk_node)
    (simp_all add: node_ok_def refs_def home_def bodies_def parts_def code_types_def)

lemma good_distance_field:
  assumes "lang_ok ps"
  shows "runs (andThen (mk_int 0) (mk_new_var_array DOUBLE_TYPE distance_field)) (\<lambda>a ps'. made ps' a) ps"
proof (rule good_bind [OF good_mk_leaf(1) [OF assms]])
  fix a ps' assume "lang_ok ps'" "live ps' a"
  then show "runs (mk_new_var_array DOUBLE_TYPE distance_field a) (\<lambda>a ps'. made ps' a) ps'"
    unfolding mk_new_var_array_def array_var_def plain_var_def
    by (intro good_mk_node) (auto simp: node_ok_def refs_def home_def bodies_def parts_def code_types_def
        intro: live_under)
qed

lemma good_sep_of_vars:
  assumes "lang_ok ps" "made ps a"
    and "\<And>m ps'. m \<in> set ms \<Longrightarrow> lang_ok ps' \<Longrightarrow> runs m (\<lambda>v ps'. made ps' v) ps'"
  shows "runs (sep_of_vars a ms) (\<lambda>_ _. True) ps"
  using assms
proof (induction ms arbitrary: ps)
  case (Cons m ms)
  have rest: "runs (andThen (sep_push a v) (\<lambda>_. sep_of_vars a ms)) (\<lambda>_ _. True) ps'"
    if p: "lang_ok ps'" "ext ps ps'" "made ps' v" for v ps'
  proof (rule good_bind [OF good_sep_push [OF p(1) ext_made [OF p(2) Cons.prems(2)] made_live [OF p(1,3)]]])
    fix ps'' assume "lang_ok ps''" "ext ps' ps''"
    then show "runs (sep_of_vars a ms) (\<lambda>_ _. True) ps''"
      using Cons.IH Cons.prems(3) ext_made [OF _ ext_made [OF p(2) Cons.prems(2)]] by simp
  qed
  have "runs m (\<lambda>v ps'. made ps' v) ps" using Cons.prems by simp
  then show ?case unfolding sep_of_vars.simps by (rule good_bind) (rule rest)
qed (simp add: good_ret)

lemma good_addGlobalStruct:
  assumes ok: "lang_ok ps" and m: "\<And>m ps'. m \<in> set ms \<Longrightarrow> lang_ok ps' \<Longrightarrow> runs m (\<lambda>v ps'. made ps' v) ps'"
  shows "runs (addGlobalStruct E s ms) (\<lambda>_ _. True) ps"
proof -
  have list: "runs (mk_sep_list v) (\<lambda>a ps'. made ps' a) qs" if "lang_ok qs" "made qs v" for v qs
    unfolding mk_sep_list_def using that made_live live_under
    by (intro good_mk_node) (auto simp: node_ok_values)
  have vars: "runs (sep_of_vars a (ident_fields @ ms)) (\<lambda>_ _. True) qs" if "lang_ok qs" "made qs a" for a qs
    using that m by (intro good_sep_of_vars) (auto simp: ident_fields_def intro: good_new_field)
  have adt: "runs (mk_adt s a) (\<lambda>a ps'. live ps' a) qs" if "lang_ok qs" "made qs a" for a qs
    unfolding mk_adt_def using that made_live live_under
    by (intro good_made_live [OF good_mk_node])
      (auto simp: node_ok_def refs_def home_def bodies_def parts_def code_types_def)
  have ev: "runs (andThen (eval_top E a) (\<lambda>_. ret ())) (\<lambda>_ _. True) qs" if "lang_ok qs" "live qs a" for a qs
    by (rule good_bind [OF good_eval_top [OF that]]) (simp add: good_ret)
  show ?thesis unfolding addGlobalStruct_def
  proof (rule good_bind [OF good_new_field [OF ok]])
    fix v p1 assume 1: "lang_ok p1" "made p1 v"
    show "runs (andThen (mk_sep_list v) (\<lambda>fs. andThen (sep_of_vars fs (ident_fields @ ms)) (\<lambda>_.
       andThen (mk_adt s fs) (\<lambda>a. andThen (eval_top E a) (\<lambda>_. ret ()))))) (\<lambda>_ _. True) p1"
    proof (rule good_bind [OF list [OF 1]])
      fix a p2 assume 2: "lang_ok p2" "made p2 a"
      show "runs (andThen (sep_of_vars a (ident_fields @ ms)) (\<lambda>_.
         andThen (mk_adt s a) (\<lambda>a. andThen (eval_top E a) (\<lambda>_. ret ())))) (\<lambda>_ _. True) p2"
      proof (rule good_bind [OF vars [OF 2]])
        fix p3 assume 3: "lang_ok p3" "ext p2 p3"
        show "runs (andThen (mk_adt s a) (\<lambda>a. andThen (eval_top E a) (\<lambda>_. ret ()))) (\<lambda>_ _. True) p3"
          by (rule good_bind [OF adt [OF 3(1) ext_made [OF 3(2) 2(2)]]]) (rule ev)
      qed
    qed
  qed
qed

lemma good_addGlobalModule:
  assumes "lang_ok ps"
  shows "runs (addGlobalModule E) (\<lambda>_ _. True) ps"
  unfolding addGlobalModule_def
  by (rule good_bind [OF good_addGlobalStruct [OF assms]])
    (auto intro!: good_addGlobalStruct intro: good_distance_field)

lemma good_jmp_eval:
  assumes ok: "lang_ok ps"
  shows "runs (jmp_eval E) (\<lambda>_ _. True) ps"
proof -
  have m: "runs (modify g) (\<lambda>_ _. True) qs" if "lang_ok qs" "g = (\<lambda>ps. ps\<lparr>evalCount := n\<rparr>) \<or>
      g = (\<lambda>ps. ps\<lparr>query_return := a\<rparr>)" for g n a qs
    using that by (intro good_True [OF good_modify]) auto
  have count: "runs (allocateEvalCount n) (\<lambda>_ _. True) qs" if "lang_ok qs" for n qs
    unfolding allocateEvalCount_def using m that by blast
  have result: "runs (setQueryReturn a) (\<lambda>_ _. True) qs" if "lang_ok qs" for a qs
    unfolding setQueryReturn_def using m that by blast
  have main: "runs (andThen (gets param_node) (\<lambda>p. andThen (set_actual_param c p) (\<lambda>_.
      andThen (allocateEvalCount 10000) (\<lambda>_. andThen (eval_top E c) setQueryReturn)))) (\<lambda>_ _. True) qs"
    if q: "lang_ok qs" "live qs c" for c qs
    by (auto intro!: good_gets [THEN good_bind] good_set_actual_param [THEN good_bind] count [THEN good_bind]
        good_eval_top [THEN good_bind] result q lang_okD(5) simp: global_def)
      (blast intro: ext_live ext_trans q)
  have last: "runs (andThen (case r of None \<Rightarrow> ret () | Some c \<Rightarrow> andThen (gets param_node) (\<lambda>p.
      andThen (set_actual_param c p) (\<lambda>_. andThen (allocateEvalCount 10000) (\<lambda>_.
        andThen (eval_top E c) setQueryReturn)))) (\<lambda>_. set_parser_state PS_DONE)) (\<lambda>_ _. True) qs"
    if q: "lang_ok qs" "\<forall>c. r = Some c \<longrightarrow> live qs c" for r qs
  proof -
    have "runs (case r of None \<Rightarrow> ret () | Some c \<Rightarrow> andThen (gets param_node) (\<lambda>p.
      andThen (set_actual_param c p) (\<lambda>_. andThen (allocateEvalCount 10000) (\<lambda>_.
        andThen (eval_top E c) setQueryReturn)))) (\<lambda>_ _. True) qs"
      using main [OF q(1)] q by (auto intro: good_ret split: option.split)
    then show ?thesis by (rule good_bind) (rule good_set_state)
  qed
  have find: "runs (lookup t s) (\<lambda>r ps'. ps' = qs \<and> (\<forall>c. r = Some c \<longrightarrow> live qs c)) qs"
    if "lang_ok qs" "t = scope qs" for t s qs
    by (rule good_conseq [OF good_lookup]) (auto simp: that scope_in intro: under_live)
  have tail: "runs (andThen get_var_table (\<lambda>t. andThen (gets func_string) (\<lambda>f. andThen (lookup t f) (\<lambda>r.
     andThen (case r of None \<Rightarrow> ret () | Some c \<Rightarrow> andThen (gets param_node) (\<lambda>p.
      andThen (set_actual_param c p) (\<lambda>_. andThen (allocateEvalCount 10000) (\<lambda>_.
        andThen (eval_top E c) setQueryReturn)))) (\<lambda>_. set_parser_state PS_DONE))))) (\<lambda>_ _. True) qs"
    if q: "lang_ok qs" for qs
    by (auto intro!: good_get_var_table [THEN good_bind] good_gets [THEN good_bind] find [THEN good_bind] last q)
  have start: "live qs (start_node qs)" if "lang_ok qs" for qs
    using lang_okD(6) [OF that] by (rule owner_live)
  show ?thesis unfolding jmp_eval_def
    by (auto intro!: count [THEN good_bind] good_addGlobalModule [THEN good_bind] good_gets [THEN good_bind]
        good_eval_top [THEN good_bind] tail start ok)
qed

end

end
