(* ===== verification/Value_Encoding.thy ===== *)
theory Value_Encoding
  imports Lang_Programs
begin

text \<open>
  Values that travel between interpreters, and what \<^verbatim>\<open>marshal_ast\<close> writes for them. A value is a
  tree of type \<open>val\<close>; \<open>stores ps a v\<close> says that
  the nodes from \<open>a\<close> on represent it.
\<close>

subsection \<open>Values\<close>

datatype val = IntV u32 | DoubleV u64 | StringV str | ListV "val list" | ArrayV ASTType str "val list"
  | StructV str "(str \<times> val) list"

definition array_name :: "ASTType \<Rightarrow> str \<Rightarrow> str member \<Rightarrow> bool" where
  "array_name ty s nm \<longleftrightarrow> (if ty = ADT_TYPE then nm = Val s else s = [])"

inductive stores :: "ParserState \<Rightarrow> nat \<Rightarrow> val \<Rightarrow> bool" for ps where
  stores_int: "heap ps a = Some (Some (IntN i)) \<Longrightarrow> stores ps a (IntV i)"
| stores_double: "heap ps a = Some (Some (DoubleN d)) \<Longrightarrow> stores ps a (DoubleV d)"
| stores_string: "heap ps a = Some (Some (StringN s)) \<Longrightarrow> stores ps a (StringV s)"
| stores_list: "heap ps a = Some (Some (SepN as)) \<Longrightarrow> list_all2 (stores ps) as vs \<Longrightarrow> stores ps a (ListV vs)"
| stores_array: "heap ps a = Some (Some (ArrayN ty nm as tb)) \<Longrightarrow> array_name ty s nm \<Longrightarrow>
    list_all2 (stores ps) as vs \<Longrightarrow> stores ps a (ArrayV ty s vs)"
| stores_struct: "heap ps a = Some (Some (VarAdtN tn m)) \<Longrightarrow>
    list_all2 (\<lambda>e f. fst e = fst f \<and> stores ps (snd e) (snd f)) m fs \<Longrightarrow> stores ps a (StructV tn fs)"
monos list_all2_mono

inductive_simps stores_simps: "stores ps a (IntV i)" "stores ps a (DoubleV d)" "stores ps a (StringV s)"
  "stores ps a (ListV vs)" "stores ps a (ArrayV ty s vs)" "stores ps a (StructV tn fs)"

lemma stores_mono:
  assumes "stores ps a v" "\<And>c n. heap ps c = Some (Some n) \<Longrightarrow> heap ps' c = Some (Some n)"
  shows "stores ps' a v"
  using assms(1)
proof (induction rule: stores.induct)
  case (stores_list a as vs)
  then show ?case by (auto intro!: stores.stores_list assms(2) elim: list_all2_mono)
next
  case (stores_array a ty nm as tb s vs)
  then show ?case by (auto intro!: stores.stores_array assms(2) elim: list_all2_mono)
next
  case (stores_struct a tn m fs)
  then show ?case by (auto intro!: stores.stores_struct assms(2) elim: list_all2_mono)
qed (auto intro: stores.intros assms(2))

text \<open>Values that can be sent: what every value of the interpreter satisfies, and an array of structs has a name.\<close>

fun sendable :: "val \<Rightarrow> bool" where
  "sendable (IntV i) = True"
| "sendable (DoubleV d) = True"
| "sendable (StringV s) = (length s < 1073741824)"
| "sendable (ListV vs) = (length vs < 1073741824 \<and> (\<forall>v \<in> set vs. sendable v))"
| "sendable (ArrayV ty s vs) = (type_of_code (type_code ty) = ty \<and> (ty = ADT_TYPE \<longleftrightarrow> s \<noteq> []) \<and>
     length s < 1073741824 \<and> length vs < 1073741824 \<and> (\<forall>v \<in> set vs. sendable v))"
| "sendable (StructV tn fs) = (length tn < 1073741824 \<and> length fs < 1073741824 \<and> sm_ok fs \<and>
     (\<forall>f \<in> set fs. length (fst f) < 1073741824 \<and> sendable (snd f)))"

definition string_bytes :: "str \<Rightarrow> u8 list" where
  "string_bytes s = net_uint (of_nat (length s)) @ s"

fun encode :: "val \<Rightarrow> u8 list" where
  "encode (IntV i) = net_uint (type_code INT_TYPE) @ net_uint i"
| "encode (DoubleV d) = net_uint (type_code DOUBLE_TYPE) @ dbl_bytes d"
| "encode (StringV s) = net_uint (type_code STRING_TYPE) @ string_bytes s"
| "encode (ListV vs) = net_uint (type_code SEP_TYPE) @ net_uint (of_nat (length vs)) @ concat (map encode vs)"
| "encode (ArrayV ty s vs) = net_uint (type_code ARRAY_TYPE) @ net_uint (type_code ty) @ string_bytes s @
     net_uint (of_nat (length vs)) @ concat (map encode vs)"
| "encode (StructV tn fs) = net_uint (type_code VAR_ADT_TYPE) @ string_bytes tn @
     net_uint (of_nat (length fs)) @ concat (map (\<lambda>f. string_bytes (fst f) @ encode (snd f)) fs)"

text \<open>How many nodes a value takes, and how deep it is nested.\<close>

fun nodes :: "val \<Rightarrow> nat" where
  "nodes (ListV vs) = Suc (sum_list (map nodes vs))"
| "nodes (ArrayV ty s vs) = Suc (sum_list (map nodes vs))"
| "nodes (StructV tn fs) = Suc (sum_list (map (\<lambda>f. nodes (snd f)) fs))"
| "nodes _ = 1"

fun depth :: "val \<Rightarrow> nat" where
  "depth (ListV vs) = Suc (Max (insert 0 (depth ` set vs)))"
| "depth (ArrayV ty s vs) = Suc (Max (insert 0 (depth ` set vs)))"
| "depth (StructV tn fs) = Suc (Max (insert 0 ((\<lambda>f. depth (snd f)) ` set fs)))"
| "depth _ = 1"

lemma depth_list: "v \<in> set vs \<Longrightarrow> depth v \<le> Max (insert 0 (depth ` set vs))"
  "f \<in> set fs \<Longrightarrow> depth (snd f) \<le> Max (insert 0 ((\<lambda>f. depth (snd f)) ` set fs))"
  by (auto intro: Max_ge)

subsection \<open>Writing\<close>

lemma writes_short: "writes p q as \<Longrightarrow> \<not> rp_complete q \<Longrightarrow> writes p q (as @ bs)"
  by (auto simp: writes_def)

lemma append_int_word: "append_int (sint w) p = append_uint w p"
  by (simp add: append_int_def append_uint_def)

lemma writes_string:
  assumes "rp_ok p" "length s < 1073741824"
  shows "writes p (append_string s p) (string_bytes s)"
proof -
  have "c_int (int (length s)) = int (length s)" using assms(2) by simp
  then show ?thesis
    unfolding append_string_def string_bytes_def
    using writes_trans [OF writes_appends(4) [OF assms(1)] writes_append_str [OF writes_ok [OF writes_appends(4) [OF assms(1)]] refl assms(2)]]
    by simp
qed

text \<open>What an operation that writes promises: the bytes, or a packet that is not complete any more.\<close>

definition puts :: "(RealPacket \<Rightarrow> (int \<times> RealPacket) lang) \<Rightarrow> ParserState \<Rightarrow> u8 list \<Rightarrow> bool" where
  "puts f ps bs \<longleftrightarrow> (\<forall>p. rp_ok p \<longrightarrow>
     (\<exists>r p'. f p ps = Inr ((r, p'), ps) \<and> writes p p' bs \<and> (rp_complete p' \<longrightarrow> r = 0)))"

lemma puts_step:
  assumes "puts g ps bs" "puts h ps cs"
  shows "puts (\<lambda>p. andThen (g p) (\<lambda>(r, p). if r = - 1 then ret (- 1, p) else h p)) ps (bs @ cs)"
  unfolding puts_def
proof (intro allI impI)
  fix p assume "rp_ok p"
  then obtain r q where q: "g p ps = Inr ((r, q), ps)" "writes p q bs" "rp_complete q \<longrightarrow> r = 0"
    using assms(1) by (auto simp: puts_def)
  show "\<exists>r p'. andThen (g p) (\<lambda>(r, p). if r = - 1 then ret (- 1, p) else h p) ps = Inr ((r, p'), ps) \<and>
      writes p p' (bs @ cs) \<and> (rp_complete p' \<longrightarrow> r = 0)"
  proof (cases "r = - 1")
    case True
    then show ?thesis using q writes_short [OF q(2)] by (auto simp: lang_simps)
  next
    case False
    obtain r' q' where "h q ps = Inr ((r', q'), ps)" "writes q q' cs" "rp_complete q' \<longrightarrow> r' = 0"
      using assms(2) writes_ok [OF q(2)] by (auto simp: puts_def)
    then show ?thesis using False q writes_trans [OF q(2)] by (auto simp: lang_simps)
  qed
qed

lemma puts_nothing: "puts (\<lambda>p. ret (0, p)) ps []"
  by (auto simp: puts_def ret_def writes_Nil)

lemma puts_nodes: "list_all2 (\<lambda>a bs. puts (f a) ps bs) as bss \<Longrightarrow> puts (marshal_nodes f as) ps (concat bss)"
proof (induction rule: list_all2_induct)
  case (Cons a as bs bss)
  from puts_step [OF Cons(1) Cons.IH] show ?case by (simp add: puts_def)
qed (simp add: puts_nothing)

lemma puts_fields:
  "list_all2 (\<lambda>e bs. puts (marshal_entry f e) ps bs) es bss \<Longrightarrow> puts (marshal_fields f es) ps (concat bss)"
proof (induction rule: list_all2_induct)
  case (Cons e es bs bss)
  from puts_step [OF Cons(1) Cons.IH] show ?case by (simp add: puts_def)
qed (simp add: puts_nothing)

text \<open>Something that is appended without a test, before and at the end.\<close>

lemma puts_after:
  assumes "\<And>p. rp_ok p \<Longrightarrow> writes p (g p) bs" "puts h ps cs"
  shows "puts (\<lambda>p. h (g p)) ps (bs @ cs)"
  unfolding puts_def
proof (intro allI impI)
  fix p assume p: "rp_ok p"
  note w = assms(1) [OF p]
  obtain r q where "h (g p) ps = Inr ((r, q), ps)" "writes (g p) q cs" "rp_complete q \<longrightarrow> r = 0"
    using assms(2) writes_ok [OF w] by (auto simp: puts_def)
  then show "\<exists>r p'. h (g p) ps = Inr ((r, p'), ps) \<and> writes p p' (bs @ cs) \<and> (rp_complete p' \<longrightarrow> r = 0)"
    using writes_trans [OF w] by blast
qed

lemma puts_last: "(\<And>p. rp_ok p \<Longrightarrow> writes p (g p) bs) \<Longrightarrow> puts (\<lambda>p. ret (0, g p)) ps bs"
  by (auto simp: puts_def ret_def)

lemma writes_code: "rp_ok p \<Longrightarrow> writes p (append_int (sint (htonl w)) p) (net_uint w)"
  unfolding append_int_word by (rule writes_appends(4))

lemma puts_type:
  assumes "heap ps a = Some (Some n)" "puts (marshal_contents (marshal_ast k) n) ps bs"
  shows "puts (marshal_ast (Suc k) a) ps (net_uint (type_code (node_type n)) @ bs)"
  unfolding puts_def
proof (intro allI impI)
  fix p assume p: "rp_ok p"
  let ?q = "append_int (sint (htonl (type_code (node_type n)))) p"
  note w = writes_code [OF p, of "type_code (node_type n)"]
  obtain r q where q: "marshal_contents (marshal_ast k) n ?q ps = Inr ((r, q), ps)" "writes ?q q bs"
    "rp_complete q \<longrightarrow> r = 0"
    using assms(2) writes_ok [OF w] by (auto simp: puts_def)
  then have "marshal_ast (Suc k) a p ps = Inr ((if r = - 1 \<or> \<not> rp_complete q then - 1 else 0, q), ps)"
    using assms(1) by (simp add: lang_simps readN_def)
  then show "\<exists>r p'. marshal_ast (Suc k) a p ps = Inr ((r, p'), ps) \<and>
      writes p p' (net_uint (type_code (node_type n)) @ bs) \<and> (rp_complete p' \<longrightarrow> r = 0)"
    using q writes_trans [OF w q(2)] by auto
qed

lemma puts_values:
  assumes "list_all2 (stores ps) as vs"
    and "\<And>v a. v \<in> set vs \<Longrightarrow> stores ps a v \<Longrightarrow> puts (f a) ps (encode v)"
  shows "puts (\<lambda>p. marshal_nodes f as (append_uint (htonl (of_nat (length as))) p)) ps
    (net_uint (of_nat (length vs)) @ concat (map encode vs))"
proof -
  have "list_all2 (\<lambda>a bs. puts (f a) ps bs) as (map encode vs)"
    unfolding list.rel_map using assms(1) by (rule list.rel_mono_strong) (use assms(2) in blast)
  from puts_after [OF writes_appends(4) puts_nodes [OF this]] show ?thesis
    using list_all2_lengthD [OF assms(1)] by simp
qed

lemma puts_array:
  assumes "array_name ty s nm" "length s < 1073741824"
    and "puts (\<lambda>p. marshal_nodes f as (append_uint (htonl (of_nat (length as))) p)) ps bs"
  shows "puts (marshal_array f ty nm as) ps (net_uint (type_code ty) @ string_bytes s @ bs)"
proof -
  let ?g = "\<lambda>p. if ty = ADT_TYPE then append_string s p else append_uint (htonl 0) p"
  have g: "writes p (?g p) (string_bytes s)" if "rp_ok p" for p
    using assms(1,2) writes_string [OF that] writes_appends(4) [OF that, of 0]
    by (auto simp: array_name_def string_bytes_def)
  have "marshal_array f ty nm as = (\<lambda>p. (\<lambda>p. (\<lambda>p. marshal_nodes f as (append_uint (htonl (of_nat (length as))) p)) (?g p))
      (append_int (sint (htonl (type_code ty))) p))"
    using assms(1) by (auto simp: marshal_array_def Let_def array_name_def value_of_def fun_eq_iff)
  then show ?thesis
    using puts_after [OF writes_code puts_after [OF g assms(3)]] by simp
qed

lemma puts_struct:
  assumes "list_all2 (\<lambda>e f. fst e = fst f \<and> stores ps (snd e) (snd f)) m fs" "length tn < 1073741824"
    and "\<And>e a. e \<in> set fs \<Longrightarrow> length (fst e) < 1073741824 \<and> (stores ps a (snd e) \<longrightarrow> puts (f a) ps (encode (snd e)))"
  shows "puts (\<lambda>p. marshal_fields f m (append_uint (htonl (of_nat (length m))) (append_string tn p))) ps
    (string_bytes tn @ net_uint (of_nat (length fs)) @ concat (map (\<lambda>e. string_bytes (fst e) @ encode (snd e)) fs))"
proof -
  have entry: "puts (marshal_entry f (s, a)) ps (string_bytes s @ bs)"
    if q: "length s < 1073741824" "puts (f a) ps bs" for s a bs
    using puts_after [OF writes_string [OF _ q(1)] q(2)] by (simp add: marshal_entry_def)
  have "list_all2 (\<lambda>e bs. puts (marshal_entry f e) ps bs) m (map (\<lambda>e. string_bytes (fst e) @ encode (snd e)) fs)"
    unfolding list.rel_map using assms(1)
  proof (rule list.rel_mono_strong)
    fix e x assume "x \<in> set fs" "fst e = fst x \<and> stores ps (snd e) (snd x)"
    then show "puts (marshal_entry f e) ps (string_bytes (fst x) @ encode (snd x))"
      using assms(3) [of x "snd e"] entry [of "fst e" "snd e"] by (cases e) simp
  qed
  from puts_after [OF writes_string [OF _ assms(2)] puts_after [OF writes_appends(4) puts_fields [OF this]]]
  show ?thesis using list_all2_lengthD [OF assms(1)] by simp
qed

lemma contents_eq:
  "marshal_contents f (IntN i) = (\<lambda>p. ret (0, append_int (sint (htonl i)) p))"
  "marshal_contents f (DoubleN d) = (\<lambda>p. ret (0, append_str (dbl_bytes d) 8 p))"
  "marshal_contents f (StringN s) = (\<lambda>p. ret (0, append_string s p))"
  "marshal_contents f (SepN as) = (\<lambda>p. marshal_nodes f as (append_uint (htonl (of_nat (length as))) p))"
  "marshal_contents f (ArrayN ty nm as tb) = marshal_array f ty nm as"
  "marshal_contents f (VarAdtN tn m) =
     (\<lambda>p. marshal_fields f m (append_uint (htonl (of_nat (length m))) (append_string tn p)))"
  by (simp_all add: marshal_contents_def fun_eq_iff)

lemmas puts_kinds = puts_type [where n = "IntN i" for i] puts_type [where n = "DoubleN d" for d]
  puts_type [where n = "StringN s" for s] puts_type [where n = "SepN as" for as]
  puts_type [where n = "ArrayN ty nm as tb" for ty nm as tb] puts_type [where n = "VarAdtN tn m" for tn m]

lemmas puts_node = puts_kinds [unfolded contents_eq node_type.simps]

lemma puts_value:
  assumes "stores ps a v" "sendable v" "depth v \<le> k"
  shows "puts (marshal_ast k a) ps (encode v)"
  using assms
proof (induction v arbitrary: a k rule: val.induct)
  case (IntV i)
  then obtain j where k: "k = Suc j" by (cases k) auto
  have "puts (\<lambda>p. ret (0, append_int (sint (htonl i)) p)) ps (net_uint i)"
    by (rule puts_last) (rule writes_code)
  from puts_node(1) [OF _ this] show ?case using IntV k by (simp add: stores_simps del: marshal_ast.simps)
next
  case (DoubleV d)
  then obtain j where k: "k = Suc j" by (cases k) auto
  have "puts (\<lambda>p. ret (0, append_str (dbl_bytes d) 8 p)) ps (dbl_bytes d)"
    by (rule puts_last, rule writes_append_str) (simp_all add: dbl_bytes_def)
  from puts_node(2) [OF _ this] show ?case using DoubleV k by (simp add: stores_simps del: marshal_ast.simps)
next
  case (StringV s)
  then obtain j where k: "k = Suc j" by (cases k) auto
  have "puts (\<lambda>p. ret (0, append_string s p)) ps (string_bytes s)"
    using StringV.prems(2) by (intro puts_last writes_string) auto
  from puts_node(3) [OF _ this] show ?case using StringV k by (simp add: stores_simps del: marshal_ast.simps)
next
  case (ListV vs)
  then obtain j where k: "k = Suc j" by (cases k) auto
  from ListV.prems(1) obtain as where as: "heap ps a = Some (Some (SepN as))" "list_all2 (stores ps) as vs"
    by (auto simp: stores_simps)
  have "depth v \<le> j" if "v \<in> set vs" for v using that depth_list(1) [OF that] ListV.prems(3) k by simp
  then have "puts (\<lambda>p. marshal_nodes (marshal_ast j) as (append_uint (htonl (of_nat (length as))) p)) ps
      (net_uint (of_nat (length vs)) @ concat (map encode vs))"
    using ListV by (intro puts_values [OF as(2)]) auto
  from puts_node(4) [OF as(1) this] show ?case using k by (simp del: marshal_ast.simps)
next
  case (ArrayV ty s vs)
  then obtain j where k: "k = Suc j" by (cases k) auto
  from ArrayV.prems(1) obtain nm as tb where as: "heap ps a = Some (Some (ArrayN ty nm as tb))"
    "array_name ty s nm" "list_all2 (stores ps) as vs"
    by (auto simp: stores_simps)
  have "depth v \<le> j" if "v \<in> set vs" for v using that depth_list(1) [OF that] ArrayV.prems(3) k by simp
  then have "puts (\<lambda>p. marshal_nodes (marshal_ast j) as (append_uint (htonl (of_nat (length as))) p)) ps
      (net_uint (of_nat (length vs)) @ concat (map encode vs))"
    using ArrayV by (intro puts_values [OF as(3)]) auto
  from puts_node(5) [OF as(1) puts_array [OF as(2) _ this]] show ?case
    using k ArrayV.prems(2) by (simp del: marshal_ast.simps)
next
  case (StructV tn fs)
  then obtain j where k: "k = Suc j" by (cases k) auto
  from StructV.prems(1) obtain m where m: "heap ps a = Some (Some (VarAdtN tn m))"
    "list_all2 (\<lambda>e f. fst e = fst f \<and> stores ps (snd e) (snd f)) m fs"
    by (auto simp: stores_simps)
  have d: "depth (snd e) \<le> j" if "e \<in> set fs" for e using that depth_list(2) [OF that] StructV.prems(3) k by simp
  have "length (fst e) < 1073741824 \<and> (stores ps a (snd e) \<longrightarrow> puts (marshal_ast j a) ps (encode (snd e)))"
    if e: "e \<in> set fs" for e a
  proof -
    have "snd e \<in> Basic_BNFs.snds e" by (cases e) simp
    then show ?thesis using StructV.IH [OF e _ _ _ d [OF e]] StructV.prems(2) e by auto
  qed
  from puts_node(6) [OF m(1) puts_struct [OF m(2) _ this]] show ?case
    using k StructV.prems(2) by (simp del: marshal_ast.simps)
qed

end
