(* ===== verification/Remote_Values.thy ===== *)
theory Remote_Values
  imports Value_Encoding
begin

text \<open>
  What \<^verbatim>\<open>marshal_ast\<close> writes is read back by \<^verbatim>\<open>unmarshal_ast\<close> as a copy of the value, in the memory of
  the interpreter that receives it; so the results of remote calls survive the network.
\<close>

subsection \<open>Reading\<close>

lemma sint_32: "- 2147483648 \<le> sint (x :: u32)" "sint (x :: u32) < 2147483648"
  using sint_greater_eq [of x] sint_less [of x] by simp_all

lemma sint_of_int_32: "- 2147483648 \<le> k \<Longrightarrow> k < 2147483648 \<Longrightarrow> sint (word_of_int k :: u32) = k"
  by (simp add: sint_sbintrunc' signed_take_bit_int_eq_self)

lemma get_type_rd:
  assumes "length pre + 4 + length rest < 1073741824"
  shows "get_type (rd pre (net_uint w @ rest)) = (type_of_code w, rd (pre @ net_uint w) rest)"
  using retrieve_fixed_rd(4) [OF assms, of "htonl w"] by (simp add: get_type_def net_uint_def)

lemma get_string_rd:
  assumes "length pre + length (string_bytes s) + length rest < 1073741824"
  shows "get_string (rd pre (string_bytes s @ rest)) = (Some s, rd (pre @ string_bytes s) rest)"
proof -
  have l: "length pre + 4 + length (s @ rest) < 1073741824" "length (pre @ net_uint (of_nat (length s))) + length s + length rest < 1073741824"
    using assms by (simp_all add: string_bytes_def)
  have "sint (of_nat (length s) :: u32) = int (length s)"
    using l(1) sint_of_int_32 [of "int (length s)"] by simp
  then show ?thesis
    using get_rd(2) [OF l(1), of "of_nat (length s)"] retrieve_buf_rd [OF l(2)]
    by (simp add: get_string_def string_bytes_def)
qed

lemma unmarshal_int_rd:
  "length pre + 4 + length rest < 1073741824 \<Longrightarrow>
     unmarshal_int (rd pre (net_uint i @ rest)) = (Some (IntN i), rd (pre @ net_uint i) rest)"
  using retrieve_fixed_rd(4) [of pre rest "htonl i"] by (simp add: unmarshal_int_def net_uint_def)

lemma length_dbl [simp]: "length (dbl_bytes d) = 8"
  by (simp add: dbl_bytes_def)

lemma unmarshal_double_rd:
  assumes "length pre + 8 + length rest < 1073741824"
  shows "unmarshal_double (rd pre (dbl_bytes d @ rest)) = (Some (DoubleN d), rd (pre @ dbl_bytes d) rest)"
proof -
  have "bytes_dbl (dbl_bytes d) = d"
    using to64_to32 [of d "fst (to32 d)" "snd (to32 d)"] by (simp add: dbl_bytes_def net_uint_def)
  then show ?thesis using retrieve_buf_rd [of pre "dbl_bytes d" rest] assms by (simp add: unmarshal_double_def)
qed

text \<open>\<open>ps\<close> has room for \<open>n\<close> more nodes.\<close>

definition room :: "ParserState \<Rightarrow> nat \<Rightarrow> bool" where
  "room ps n \<longleftrightarrow> ASTAllocationCount ps + int n \<le> MAX_AST_PER_STACK"

lemma new_stack_ast_room:
  assumes "lang_ok ps" "room ps (Suc n)"
  obtains a ps' where "new_stack_ast (scope ps) ps = Inr (Some a, ps')" "lang_ok ps'" "heap ps a = None"
    "heap ps' a = Some None" "frame ps ps'" "ASTAllocationCount ps' = ASTAllocationCount ps + 1" "room ps' n"
proof -
  obtain vt where vt: "tables ps (scope ps) = Some vt" using table_of [OF assms(1) scope_in [OF assms(1)]] by blast
  have r: "ASTAllocationCount ps + 1 \<le> MAX_AST_PER_STACK" using assms(2) by (simp add: room_def)
  note ok = alloc_ok [OF assms(1) vt r]
  let ?p = "ps\<lparr>ASTAllocationCount := ASTAllocationCount ps + 1, heap := (heap ps)(next_node ps := Some None),
     next_node := Suc (next_node ps),
     tables := (tables ps)(scope ps := Some (vt\<lparr>v_stack_ast := v_stack_ast vt @ [next_node ps]\<rparr>))\<rparr>"
  have fresh: "heap ps (next_node ps) = None"
    using lang_okD(2) [OF assms(1)] unfolding memory_ok_def by (metis less_irrefl)
  have "new_stack_ast (scope ps) ps = Inr (Some (next_node ps), ?p)"
    using r vt by (simp add: new_stack_ast_def new_ast_def tableAt_def setTable_def lang_simps MAX_AST_PER_STACK_def)
  moreover have "frame ps ?p" using fresh by (auto simp: frame_def)
  ultimately show thesis using that ok(1) fresh assms(2) by (simp add: room_def)
qed

text \<open>
  \<open>gets_value k v\<close>: with room for it, the decoder reads the encoding of \<open>v\<close> and nothing else, and leaves
  a copy of \<open>v\<close>. The invariant and the frame come from the safety of the decoder.
\<close>

definition gets_value :: "nat \<Rightarrow> val \<Rightarrow> bool" where
  "gets_value k v \<longleftrightarrow> (\<forall>ps pre rest. lang_ok ps \<longrightarrow> room ps (nodes v) \<longrightarrow>
     length pre + length (encode v) + length rest < 1073741824 \<longrightarrow>
     (\<exists>a ps'. unmarshal_ast k (rd pre (encode v @ rest)) ps = Inr ((a, rd (pre @ encode v) rest), ps') \<and>
       stores ps' a v \<and> ASTAllocationCount ps' = ASTAllocationCount ps + int (nodes v)))"

lemma runs_Inr: "runs m Q ps \<Longrightarrow> m ps = Inr (x, ps') \<Longrightarrow> lang_ok ps' \<and> ext ps ps' \<and> Q x ps'"
  by (simp add: runs_def)

lemma decoded:
  assumes "lang_ok ps" "unmarshal_ast k b ps = Inr ((a, b'), ps')"
  shows "lang_ok ps'" "frame ps ps'" "ext ps ps'"
  using runs_Inr [OF good_decodeD [OF good_unmarshal_ast assms(1)] assms(2)] by auto

lemma gets_valueD:
  assumes "gets_value k v" "lang_ok ps" "room ps (nodes v + m)"
    "length pre + length (encode v) + length rest < 1073741824"
  obtains a ps' where "unmarshal_ast k (rd pre (encode v @ rest)) ps = Inr ((a, rd (pre @ encode v) rest), ps')"
    "stores ps' a v" "lang_ok ps'" "frame ps ps'" "room ps' m"
    "ASTAllocationCount ps' = ASTAllocationCount ps + int (nodes v)"
proof -
  have "room ps (nodes v)" using assms(3) by (simp add: room_def)
  then obtain a ps' where r: "unmarshal_ast k (rd pre (encode v @ rest)) ps = Inr ((a, rd (pre @ encode v) rest), ps')"
    "stores ps' a v" "ASTAllocationCount ps' = ASTAllocationCount ps + int (nodes v)"
    using assms(1,2,4) unfolding gets_value_def by blast
  show thesis using that [OF r(1,2) decoded(1,2) [OF assms(2) r(1)] _ r(3)] r(3) assms(3) by (simp add: room_def)
qed

lemma stores_frame: "stores ps a v \<Longrightarrow> frame ps ps' \<Longrightarrow> stores ps' a v"
  by (erule stores_mono) (auto simp: frame_def)

lemma stores_not_empty: "stores ps a v \<Longrightarrow> is_empty a ps = Inr (False, ps)"
  by (cases v) (auto simp: stores_simps is_empty_def lang_simps readN_def)

lemma gets_nodes:
  assumes "lang_ok ps" "\<forall>v \<in> set vs. gets_value k v" "room ps (sum_list (map nodes vs))"
    "length pre + length (concat (map encode vs)) + length rest < 1073741824"
  shows "\<exists>as ps'. unmarshal_nodes (unmarshal_ast k) (length vs) (rd pre (concat (map encode vs) @ rest)) ps =
      Inr ((Some as, rd (pre @ concat (map encode vs)) rest), ps') \<and> list_all2 (stores ps') as vs \<and> frame ps ps' \<and>
      ASTAllocationCount ps' = ASTAllocationCount ps + int (sum_list (map nodes vs))"
  using assms
proof (induction vs arbitrary: ps pre)
  case Nil
  then show ?case by (simp add: ret_def)
next
  case (Cons v vs)
  let ?rest = "concat (map encode vs) @ rest"
  have g: "gets_value k v" "room ps (nodes v + sum_list (map nodes vs))"
    "length pre + length (encode v) + length ?rest < 1073741824" using Cons.prems by simp_all
  obtain a p1 where a: "unmarshal_ast k (rd pre (encode v @ ?rest)) ps = Inr ((a, rd (pre @ encode v) ?rest), p1)"
    "stores p1 a v" "lang_ok p1" "frame ps p1" "room p1 (sum_list (map nodes vs))"
    "ASTAllocationCount p1 = ASTAllocationCount ps + int (nodes v)"
    by (rule gets_valueD [OF g(1) Cons.prems(1) g(2,3)])
  have l: "length (pre @ encode v) + length (concat (map encode vs)) + length rest < 1073741824"
    using Cons.prems(4) by simp
  have gs: "\<forall>v \<in> set vs. gets_value k v" using Cons.prems(2) by simp
  obtain as p2 where as: "unmarshal_nodes (unmarshal_ast k) (length vs) (rd (pre @ encode v) ?rest) p1 =
      Inr ((Some as, rd ((pre @ encode v) @ concat (map encode vs)) rest), p2)" "list_all2 (stores p2) as vs" "frame p1 p2"
      "ASTAllocationCount p2 = ASTAllocationCount p1 + int (sum_list (map nodes vs))"
    using Cons.IH [OF a(3) gs a(5) l] by blast
  show ?case
    using a as stores_frame [OF a(2) as(3)] frame_trans [OF a(4) as(3)]
    by (auto simp: lang_simps stores_not_empty)
qed

lemma sm_upd_append: "\<forall>e \<in> set m. fst e < k \<Longrightarrow> sm_upd k v m = m @ [(k, v)]"
  by (induction k v m rule: sm_upd.induct) auto

lemma gets_fields:
  assumes "lang_ok ps" "\<forall>f \<in> set fs. gets_value k (snd f)" "room ps (sum_list (map (\<lambda>f. nodes (snd f)) fs))"
    "sm_ok fs" "\<forall>e \<in> set m. \<forall>f \<in> set fs. fst e < fst f"
    "length pre + length (concat (map (\<lambda>f. string_bytes (fst f) @ encode (snd f)) fs)) + length rest < 1073741824"
  shows "\<exists>m' ps'. unmarshal_fields (unmarshal_ast k) (length fs) m
      (rd pre (concat (map (\<lambda>f. string_bytes (fst f) @ encode (snd f)) fs) @ rest)) ps =
      Inr ((Some (m @ m'), rd (pre @ concat (map (\<lambda>f. string_bytes (fst f) @ encode (snd f)) fs)) rest), ps') \<and>
      list_all2 (\<lambda>e f. fst e = fst f \<and> stores ps' (snd e) (snd f)) m' fs \<and> frame ps ps' \<and>
      ASTAllocationCount ps' = ASTAllocationCount ps + int (sum_list (map (\<lambda>f. nodes (snd f)) fs))"
  using assms
proof (induction fs arbitrary: ps pre m)
  case Nil
  then show ?case by (simp add: ret_def)
next
  case (Cons f fs)
  obtain s v where f: "f = (s, v)" by (cases f)
  let ?tail = "concat (map (\<lambda>f. string_bytes (fst f) @ encode (snd f)) fs)"
  let ?rest = "?tail @ rest"
  have b: "length pre + length (string_bytes s) + length (encode v @ ?rest) < 1073741824"
    "length (pre @ string_bytes s) + length (encode v) + length ?rest < 1073741824"
    using Cons.prems(6) f by simp_all
  have g: "gets_value k v" "room ps (nodes v + sum_list (map (\<lambda>f. nodes (snd f)) fs))" using Cons.prems(2,3) f by simp_all
  obtain a p1 where a: "unmarshal_ast k (rd (pre @ string_bytes s) (encode v @ ?rest)) ps =
      Inr ((a, rd ((pre @ string_bytes s) @ encode v) ?rest), p1)"
    "stores p1 a v" "lang_ok p1" "frame ps p1" "room p1 (sum_list (map (\<lambda>f. nodes (snd f)) fs))"
    "ASTAllocationCount p1 = ASTAllocationCount ps + int (nodes v)"
    by (rule gets_valueD [OF g(1) Cons.prems(1) g(2) b(2)])
  have up: "sm_upd s a m = m @ [(s, a)]" using Cons.prems(5) f by (intro sm_upd_append) auto
  have keys: "\<forall>e \<in> set (m @ [(s, a)]). \<forall>f \<in> set fs. fst e < fst f" "sm_ok fs"
    using Cons.prems(4,5) f by (auto simp: sm_ok_def)
  have l: "length ((pre @ string_bytes s) @ encode v) + length ?tail + length rest < 1073741824"
    using Cons.prems(6) f by simp
  have gs: "\<forall>f \<in> set fs. gets_value k (snd f)" using Cons.prems(2) by simp
  obtain m' p2 where m: "unmarshal_fields (unmarshal_ast k) (length fs) (m @ [(s, a)])
      (rd ((pre @ string_bytes s) @ encode v) ?rest) p1 =
      Inr ((Some ((m @ [(s, a)]) @ m'), rd (((pre @ string_bytes s) @ encode v) @ ?tail) rest), p2)"
    "list_all2 (\<lambda>e f. fst e = fst f \<and> stores p2 (snd e) (snd f)) m' fs" "frame p1 p2"
    "ASTAllocationCount p2 = ASTAllocationCount p1 + int (sum_list (map (\<lambda>f. nodes (snd f)) fs))"
    using Cons.IH [OF a(3) gs a(5) keys(2,1) l] by blast
  have "get_string (rd pre (string_bytes s @ encode v @ ?rest)) = (Some s, rd (pre @ string_bytes s) (encode v @ ?rest))"
    by (rule get_string_rd [OF b(1)])
  then show ?case
    using a m stores_frame [OF a(2) m(3)] frame_trans [OF a(4) m(3)] up f
    by (intro exI [of _ "(s, a) # m'"] exI [of _ p2]) (auto simp: lang_simps stores_not_empty)
qed

lemma type_codes: "type_of_code (type_code INT_TYPE) = INT_TYPE" "type_of_code (type_code DOUBLE_TYPE) = DOUBLE_TYPE"
  "type_of_code (type_code STRING_TYPE) = STRING_TYPE" "type_of_code (type_code SEP_TYPE) = SEP_TYPE"
  "type_of_code (type_code ARRAY_TYPE) = ARRAY_TYPE" "type_of_code (type_code VAR_ADT_TYPE) = VAR_ADT_TYPE"
  by (simp_all add: type_of_code_def type_code_def asttypes_def)

text \<open>The contents of a node, and the node around them.\<close>

definition gets_contents :: "nat \<Rightarrow> ASTType \<Rightarrow> u8 list \<Rightarrow> nat \<Rightarrow> val \<Rightarrow> bool" where
  "gets_contents k ty bs n v \<longleftrightarrow> (\<forall>ps pre rest. lang_ok ps \<longrightarrow> room ps n \<longrightarrow>
     length pre + length bs + length rest < 1073741824 \<longrightarrow>
     (\<exists>nd ps'. unmarshal_contents (unmarshal_ast k) ty (rd pre (bs @ rest)) ps = Inr ((Some nd, rd (pre @ bs) rest), ps') \<and>
       ASTAllocationCount ps' = ASTAllocationCount ps + int n \<and>
       (\<forall>ps3 a. (\<forall>c m. heap ps' c = Some (Some m) \<longrightarrow> heap ps3 c = Some (Some m)) \<longrightarrow>
          heap ps3 a = Some (Some nd) \<longrightarrow> stores ps3 a v)))"

lemma gets_node:
  assumes c: "gets_contents k ty bs n v" and ty: "type_of_code (type_code ty) = ty"
    and enc: "encode v = net_uint (type_code ty) @ bs" and n: "nodes v = Suc n"
  shows "gets_value (Suc k) v"
  unfolding gets_value_def
proof (intro allI impI)
  fix ps and pre rest :: "u8 list"
  assume ok: "lang_ok ps" and room: "room ps (nodes v)" and len: "length pre + length (encode v) + length rest < 1073741824"
  obtain a p1 where a: "new_stack_ast (scope ps) ps = Inr (Some a, p1)" "lang_ok p1" "heap p1 a = Some None"
    "ASTAllocationCount p1 = ASTAllocationCount ps + 1" "room p1 n"
    using new_stack_ast_room [OF ok room [unfolded n]] by blast
  have l: "length pre + 4 + length (bs @ rest) < 1073741824"
    "length (pre @ net_uint (type_code ty)) + length bs + length rest < 1073741824" using len enc by simp_all
  have t: "get_type (rd pre (net_uint (type_code ty) @ bs @ rest)) = (ty, rd (pre @ net_uint (type_code ty)) (bs @ rest))"
    using get_type_rd [OF l(1)] ty by simp
  obtain nd p2 where nd: "unmarshal_contents (unmarshal_ast k) ty (rd (pre @ net_uint (type_code ty)) (bs @ rest)) p1 =
      Inr ((Some nd, rd ((pre @ net_uint (type_code ty)) @ bs) rest), p2)"
    "ASTAllocationCount p2 = ASTAllocationCount p1 + int n"
    "\<forall>ps3 a. (\<forall>c m. heap p2 c = Some (Some m) \<longrightarrow> heap ps3 c = Some (Some m)) \<longrightarrow>
       heap ps3 a = Some (Some nd) \<longrightarrow> stores ps3 a v"
    using c a(2,5) l(2) unfolding gets_contents_def by blast
  have "frame p1 p2"
    using runs_Inr [OF good_unmarshal_contents [OF good_unmarshal_ast a(2)] nd(1)] by blast
  then have h: "heap p2 a = Some None" using a(3) by (simp add: frame_def)
  let ?p3 = "p2\<lparr>heap := (heap p2)(a := Some (Some nd))\<rparr>"
  have "var_table ps \<noteq> []" using ok by (simp add: lang_ok_def scopes_ok_def)
  then have "unmarshal_ast (Suc k) (rd pre (encode v @ rest)) ps = Inr ((a, rd (pre @ encode v) rest), ?p3)"
    using a(1) t nd(1) h by (simp add: enc lang_simps get_var_table_def scope_def writeN_def)
  moreover have "stores ?p3 a v" using nd(3) h by auto
  ultimately show "\<exists>a ps'. unmarshal_ast (Suc k) (rd pre (encode v @ rest)) ps = Inr ((a, rd (pre @ encode v) rest), ps') \<and>
       stores ps' a v \<and> ASTAllocationCount ps' = ASTAllocationCount ps + int (nodes v)"
    using a(4) nd(2) n by auto
qed

lemma contents_basic:
  "gets_contents k INT_TYPE (net_uint i) 0 (IntV i)"
  "gets_contents k DOUBLE_TYPE (dbl_bytes d) 0 (DoubleV d)"
  "gets_contents k STRING_TYPE (string_bytes s) 0 (StringV s)"
  unfolding gets_contents_def
  by (auto simp: unmarshal_contents_def unmarshal_int_rd unmarshal_double_rd get_string_rd ret_def stores_simps)

lemma of_nat_32: "n < 1073741824 \<Longrightarrow> unat (of_nat n :: u32) = n"
  by (simp add: unat_of_nat)

lemma stores_all_mono:
  assumes "list_all2 (stores ps) as vs" "\<And>c m. heap ps c = Some (Some m) \<Longrightarrow> heap ps' c = Some (Some m)"
  shows "list_all2 (stores ps') as vs"
  using assms(1) by (rule list.rel_mono_strong) (blast intro: stores_mono assms(2))

text \<open>A count and that many nodes.\<close>

lemma gets_counted:
  assumes "lang_ok ps" "\<forall>v \<in> set vs. gets_value k v" "length vs < 1073741824" "room ps (sum_list (map nodes vs))"
    "length pre + length (net_uint (of_nat (length vs)) @ concat (map encode vs)) + length rest < 1073741824"
  obtains as ps' where "get_uint (rd pre (net_uint (of_nat (length vs)) @ concat (map encode vs) @ rest)) =
      (of_nat (length vs), rd (pre @ net_uint (of_nat (length vs))) (concat (map encode vs) @ rest))"
    "unmarshal_nodes (unmarshal_ast k) (unat (of_nat (length vs) :: u32))
       (rd (pre @ net_uint (of_nat (length vs))) (concat (map encode vs) @ rest)) ps =
     Inr ((Some as, rd (pre @ net_uint (of_nat (length vs)) @ concat (map encode vs)) rest), ps')"
    "list_all2 (stores ps') as vs" "ASTAllocationCount ps' = ASTAllocationCount ps + int (sum_list (map nodes vs))"
proof -
  have l: "length pre + 4 + length (concat (map encode vs) @ rest) < 1073741824"
    "length (pre @ net_uint (of_nat (length vs))) + length (concat (map encode vs)) + length rest < 1073741824"
    using assms(5) by simp_all
  from gets_nodes [OF assms(1,2,4) l(2)] show thesis
    using that get_rd(2) [OF l(1), of "of_nat (length vs)"] by (auto simp: of_nat_32 [OF assms(3)])
qed

lemma contents_list:
  assumes "\<forall>v \<in> set vs. gets_value k v" "length vs < 1073741824"
  shows "gets_contents k SEP_TYPE (net_uint (of_nat (length vs)) @ concat (map encode vs)) (sum_list (map nodes vs)) (ListV vs)"
  unfolding gets_contents_def
proof (intro allI impI)
  fix ps and pre rest :: "u8 list"
  assume q: "lang_ok ps" "room ps (sum_list (map nodes vs))"
    "length pre + length (net_uint (of_nat (length vs)) @ concat (map encode vs)) + length rest < 1073741824"
  from gets_counted [OF q(1) assms q(2,3)] obtain as ps' where
    "get_uint (rd pre (net_uint (of_nat (length vs)) @ concat (map encode vs) @ rest)) =
      (of_nat (length vs), rd (pre @ net_uint (of_nat (length vs))) (concat (map encode vs) @ rest))"
    "unmarshal_nodes (unmarshal_ast k) (unat (of_nat (length vs) :: u32))
       (rd (pre @ net_uint (of_nat (length vs))) (concat (map encode vs) @ rest)) ps =
     Inr ((Some as, rd (pre @ net_uint (of_nat (length vs)) @ concat (map encode vs)) rest), ps')"
    "list_all2 (stores ps') as vs" "ASTAllocationCount ps' = ASTAllocationCount ps + int (sum_list (map nodes vs))" .
  then show "\<exists>nd ps'. unmarshal_contents (unmarshal_ast k) SEP_TYPE
        (rd pre ((net_uint (of_nat (length vs)) @ concat (map encode vs)) @ rest)) ps =
      Inr ((Some nd, rd (pre @ net_uint (of_nat (length vs)) @ concat (map encode vs)) rest), ps') \<and>
    ASTAllocationCount ps' = ASTAllocationCount ps + int (sum_list (map nodes vs)) \<and>
    (\<forall>ps3 a. (\<forall>c m. heap ps' c = Some (Some m) \<longrightarrow> heap ps3 c = Some (Some m)) \<longrightarrow>
       heap ps3 a = Some (Some nd) \<longrightarrow> stores ps3 a (ListV vs))"
    by (intro exI [of _ "SepN as"] exI [of _ ps'])
      (auto simp: unmarshal_contents_def unmarshal_list_def lang_simps stores_simps elim: stores_all_mono)
qed

text \<open>The name of an array: a string, of length zero if there is none.\<close>

lemma get_name:
  assumes "length pre + length (string_bytes s) + length rest < 1073741824"
  shows "\<exists>b. get_uint (rd pre (string_bytes s @ rest)) = (of_nat (length s), b) \<and>
    (if (of_nat (length s) :: u32) > 0 then get_string (rd pre (string_bytes s @ rest)) else (Some [], b)) =
      (Some s, rd (pre @ string_bytes s) rest) \<and> ((of_nat (length s) :: u32) > 0 \<longleftrightarrow> s \<noteq> [])"
proof -
  have l: "length pre + 4 + length (s @ rest) < 1073741824" using assms by (simp add: string_bytes_def)
  have z: "(of_nat (length s) :: u32) > 0 \<longleftrightarrow> s \<noteq> []"
    using l of_nat_32 [of "length s"] by (auto simp: word_greater_zero_iff unat_eq_zero [symmetric])
  show ?thesis
    using get_rd(2) [OF l, of "of_nat (length s)"] get_string_rd [OF assms] z
    by (auto simp: string_bytes_def)
qed

lemma contents_array:
  assumes "\<forall>v \<in> set vs. gets_value k v" "sendable (ArrayV ty s vs)"
  shows "gets_contents k ARRAY_TYPE (net_uint (type_code ty) @ string_bytes s @ net_uint (of_nat (length vs)) @
    concat (map encode vs)) (sum_list (map nodes vs)) (ArrayV ty s vs)"
  unfolding gets_contents_def
proof (intro allI impI)
  fix ps and pre rest :: "u8 list"
  let ?c = "net_uint (of_nat (length vs)) @ concat (map encode vs)"
  assume q: "lang_ok ps" "room ps (sum_list (map nodes vs))"
    "length pre + length (net_uint (type_code ty) @ string_bytes s @ ?c) + length rest < 1073741824"
  have l: "length pre + 4 + length (string_bytes s @ ?c @ rest) < 1073741824"
    "length (pre @ net_uint (type_code ty)) + length (string_bytes s) + length (?c @ rest) < 1073741824"
    "length ((pre @ net_uint (type_code ty)) @ string_bytes s) + length ?c + length rest < 1073741824"
    using q(3) by simp_all
  have t: "get_type (rd pre (net_uint (type_code ty) @ string_bytes s @ ?c @ rest)) =
      (ty, rd (pre @ net_uint (type_code ty)) (string_bytes s @ ?c @ rest))"
    using get_type_rd [OF l(1)] assms(2) by simp
  have vs: "length vs < 1073741824" using assms(2) by simp
  obtain b where b: "get_uint (rd (pre @ net_uint (type_code ty)) (string_bytes s @ ?c @ rest)) = (of_nat (length s), b)"
    "(if (of_nat (length s) :: u32) > 0 then get_string (rd (pre @ net_uint (type_code ty)) (string_bytes s @ ?c @ rest))
      else (Some [], b)) = (Some s, rd ((pre @ net_uint (type_code ty)) @ string_bytes s) (?c @ rest))"
    "(of_nat (length s) :: u32) > 0 \<longleftrightarrow> s \<noteq> []"
    using get_name [OF l(2)] by blast
  from gets_counted [OF q(1) assms(1) vs q(2) l(3)] obtain as ps' where n:
    "get_uint (rd ((pre @ net_uint (type_code ty)) @ string_bytes s) (net_uint (of_nat (length vs)) @ concat (map encode vs) @ rest)) =
      (of_nat (length vs), rd (((pre @ net_uint (type_code ty)) @ string_bytes s) @ net_uint (of_nat (length vs)))
         (concat (map encode vs) @ rest))"
    "unmarshal_nodes (unmarshal_ast k) (unat (of_nat (length vs) :: u32))
       (rd (((pre @ net_uint (type_code ty)) @ string_bytes s) @ net_uint (of_nat (length vs))) (concat (map encode vs) @ rest)) ps =
     Inr ((Some as, rd (((pre @ net_uint (type_code ty)) @ string_bytes s) @ net_uint (of_nat (length vs)) @
       concat (map encode vs)) rest), ps')"
    "list_all2 (stores ps') as vs" "ASTAllocationCount ps' = ASTAllocationCount ps + int (sum_list (map nodes vs))" .
  let ?n = "ArrayN ty (if (of_nat (length s) :: u32) > 0 then Val s else Unset) as Unset"
  have "unmarshal_contents (unmarshal_ast k) ARRAY_TYPE
        (rd pre ((net_uint (type_code ty) @ string_bytes s @ ?c) @ rest)) ps =
      Inr ((Some ?n, rd (pre @ net_uint (type_code ty) @ string_bytes s @ ?c) rest), ps')"
    using t b n(1,2)
    by (cases "s = []") (simp_all add: unmarshal_contents_def unmarshal_array_def lang_simps)
  moreover have "array_name ty s (if (of_nat (length s) :: u32) > 0 then Val s else Unset)"
    unfolding b(3) using assms(2) by (auto simp: array_name_def)
  ultimately show "\<exists>nd ps'. unmarshal_contents (unmarshal_ast k) ARRAY_TYPE
        (rd pre ((net_uint (type_code ty) @ string_bytes s @ ?c) @ rest)) ps =
      Inr ((Some nd, rd (pre @ net_uint (type_code ty) @ string_bytes s @ ?c) rest), ps') \<and>
    ASTAllocationCount ps' = ASTAllocationCount ps + int (sum_list (map nodes vs)) \<and>
    (\<forall>ps3 a. (\<forall>c m. heap ps' c = Some (Some m) \<longrightarrow> heap ps3 c = Some (Some m)) \<longrightarrow>
       heap ps3 a = Some (Some nd) \<longrightarrow> stores ps3 a (ArrayV ty s vs))"
    using n(3,4) by (intro exI [of _ ?n] exI [of _ ps']) (auto simp: stores_simps elim: stores_all_mono)
qed

lemma contents_struct:
  assumes "\<forall>f \<in> set fs. gets_value k (snd f)" "sendable (StructV tn fs)"
  shows "gets_contents k VAR_ADT_TYPE (string_bytes tn @ net_uint (of_nat (length fs)) @
    concat (map (\<lambda>f. string_bytes (fst f) @ encode (snd f)) fs)) (sum_list (map (\<lambda>f. nodes (snd f)) fs)) (StructV tn fs)"
  unfolding gets_contents_def
proof (intro allI impI)
  fix ps and pre rest :: "u8 list"
  let ?c = "concat (map (\<lambda>f. string_bytes (fst f) @ encode (snd f)) fs)" and ?n = "net_uint (of_nat (length fs))"
  assume q: "lang_ok ps" "room ps (sum_list (map (\<lambda>f. nodes (snd f)) fs))"
    "length pre + length (string_bytes tn @ ?n @ ?c) + length rest < 1073741824"
  have l: "length pre + length (string_bytes tn) + length (?n @ ?c @ rest) < 1073741824"
    "length (pre @ string_bytes tn) + 4 + length (?c @ rest) < 1073741824"
    "length ((pre @ string_bytes tn) @ ?n) + length ?c + length rest < 1073741824"
    using q(3) by simp_all
  have fs: "sm_ok fs" "length fs < 1073741824" using assms(2) by simp_all
  obtain m ps' where m: "unmarshal_fields (unmarshal_ast k) (length fs) [] (rd ((pre @ string_bytes tn) @ ?n) (?c @ rest)) ps =
      Inr ((Some m, rd (((pre @ string_bytes tn) @ ?n) @ ?c) rest), ps')"
    "list_all2 (\<lambda>e f. fst e = fst f \<and> stores ps' (snd e) (snd f)) m fs"
    "ASTAllocationCount ps' = ASTAllocationCount ps + int (sum_list (map (\<lambda>f. nodes (snd f)) fs))"
    using gets_fields [OF q(1) assms(1) q(2) fs(1) _ l(3), of "[]"] by auto
  have run: "unmarshal_contents (unmarshal_ast k) VAR_ADT_TYPE (rd pre ((string_bytes tn @ ?n @ ?c) @ rest)) ps =
      Inr ((Some (VarAdtN tn m), rd (pre @ string_bytes tn @ ?n @ ?c) rest), ps')"
    using get_string_rd [OF l(1)] get_rd(2) [OF l(2), of "of_nat (length fs)"] m(1)
    by (simp add: unmarshal_contents_def unmarshal_struct_def lang_simps of_nat_32 [OF fs(2)])
  have "list_all2 (\<lambda>e f. fst e = fst f \<and> stores ps3 (snd e) (snd f)) m fs"
    if "\<forall>c m. heap ps' c = Some (Some m) \<longrightarrow> heap ps3 c = Some (Some m)" for ps3
    using m(2) by (rule list.rel_mono_strong) (use that in \<open>blast intro: stores_mono\<close>)
  then show "\<exists>nd ps'. unmarshal_contents (unmarshal_ast k) VAR_ADT_TYPE
        (rd pre ((string_bytes tn @ ?n @ ?c) @ rest)) ps =
      Inr ((Some nd, rd (pre @ string_bytes tn @ ?n @ ?c) rest), ps') \<and>
    ASTAllocationCount ps' = ASTAllocationCount ps + int (sum_list (map (\<lambda>f. nodes (snd f)) fs)) \<and>
    (\<forall>ps3 a. (\<forall>c m. heap ps' c = Some (Some m) \<longrightarrow> heap ps3 c = Some (Some m)) \<longrightarrow>
       heap ps3 a = Some (Some nd) \<longrightarrow> stores ps3 a (StructV tn fs))"
    using run m(3) by (intro exI [of _ "VarAdtN tn m"] exI [of _ ps']) (auto simp: stores_simps)
qed

lemma gets_any: "sendable v \<Longrightarrow> depth v \<le> k \<Longrightarrow> gets_value k v"
proof (induction v arbitrary: k rule: val.induct)
  case (IntV i)
  then obtain j where k: "k = Suc j" by (cases k) auto
  show ?case unfolding k by (rule gets_node [OF contents_basic(1) type_codes(1)]) simp_all
next
  case (DoubleV d)
  then obtain j where k: "k = Suc j" by (cases k) auto
  show ?case unfolding k by (rule gets_node [OF contents_basic(2) type_codes(2)]) simp_all
next
  case (StringV s)
  then obtain j where k: "k = Suc j" by (cases k) auto
  show ?case unfolding k by (rule gets_node [OF contents_basic(3) type_codes(3)]) simp_all
next
  case (ListV vs)
  then obtain j where k: "k = Suc j" by (cases k) auto
  have "depth v \<le> j" if "v \<in> set vs" for v using that depth_list(1) [OF that] ListV.prems(2) k by simp
  then have "\<forall>v \<in> set vs. gets_value j v" using ListV by auto
  from gets_node [OF contents_list [OF this] type_codes(4)] show ?case
    using ListV.prems(1) k by simp
next
  case (ArrayV ty s vs)
  then obtain j where k: "k = Suc j" by (cases k) auto
  have "depth v \<le> j" if "v \<in> set vs" for v using that depth_list(1) [OF that] ArrayV.prems(2) k by simp
  then have "\<forall>v \<in> set vs. gets_value j v" using ArrayV by auto
  from gets_node [OF contents_array [OF this ArrayV.prems(1)] type_codes(5)] show ?case using k by simp
next
  case (StructV tn fs)
  then obtain j where k: "k = Suc j" by (cases k) auto
  have d: "depth (snd e) \<le> j" if "e \<in> set fs" for e using that depth_list(2) [OF that] StructV.prems(2) k by simp
  have "\<forall>e \<in> set fs. gets_value j (snd e)"
  proof
    fix e assume e: "e \<in> set fs"
    have "snd e \<in> Basic_BNFs.snds e" by (cases e) simp
    then show "gets_value j (snd e)" using StructV.IH [OF e _ _ d [OF e]] StructV.prems(1) e by auto
  qed
  from gets_node [OF contents_struct [OF this StructV.prems(1)] type_codes(6)] show ?case using k by simp
qed

subsection \<open>The reply to a remote call\<close>

lemma marshal_ret: "marshal_ast k a p ps = Inr ((r, q), ps') \<Longrightarrow> r = 0 \<Longrightarrow> rp_complete q"
  by (cases k) (auto simp: lang_simps split: sum.splits prod.splits if_splits)

lemma writes_reply:
  assumes "rp_ok p"
  shows "writes p (snd (DSLReplyPacket_createRealPacket magic pk p)) (DSL_REPLY # id_bytes magic pk)"
  using writes_trans [OF writes_appends(3) [OF assms] writes_id [OF writes_ok [OF writes_appends(3) [OF assms]]]]
  by (simp add: DSLReplyPacket_createRealPacket_def packet_done_def)

lemma parse_reply:
  assumes "sendable v" "depth v \<le> k" "lang_ok qs" "room qs (nodes v)" "length (encode v) < 1073741811"
  shows "\<exists>b qs'. DSLReplyPacket_parse magic k (DSL_REPLY # id_bytes magic pk @ encode v) qs = Inr (Some (pk, b), qs') \<and>
    stores qs' b v \<and> lang_ok qs' \<and> frame qs qs'"
proof -
  let ?h = "DSL_REPLY # id_bytes magic pk"
  have r: "room qs (nodes v + 0)" "length ?h + length (encode v) + length [] < 1073741824" using assms(4,5) by simp_all
  obtain b qs' where b: "unmarshal_ast k (rd ?h (encode v @ [])) qs = Inr ((b, rd (?h @ encode v) []), qs')"
    "stores qs' b v" "lang_ok qs'" "frame qs qs'"
    by (rule gets_valueD [OF gets_any [OF assms(1,2)] assms(3) r])
  have "DSLReplyPacket_parse magic k (DSL_REPLY # id_bytes magic pk @ encode v) qs = Inr (Some (pk, b), qs')"
    using b(1) assms(5)
    unfolding DSLReplyPacket_parse_def new_rd
    by (simp add: id_bytes_def wire_simps lang_simps)
  then show ?thesis using b by blast
qed

text \<open>
  C5. The result of a remote call survives the network: whatever integers, floating-point numbers,
  strings, lists, arrays and structs the node it was computed on sends, the reply is written exactly
  when it fits into the packet, and the interpreter that called decodes a copy of the same value into
  its own memory, without touching what it already has there.
\<close>

theorem values_survive_remote_calls:
  assumes "stores ps a v" "sendable v" "depth v \<le> k" "lang_ok qs" "room qs (nodes v)"
    and "rp_ok p" "rp_size p = 0" "rp_complete p"
  shows "\<exists>r q. marshal_ast k a (snd (DSLReplyPacket_createRealPacket magic pk p)) ps = Inr ((r, q), ps) \<and>
    (r = 0 \<longleftrightarrow> int (13 + length (encode v)) \<le> uint (rp_maxPacketSize p)) \<and>
    (r = 0 \<longrightarrow> (\<exists>b qs'. DSLReplyPacket_parse magic k (getPayLoad q) qs = Inr (Some (pk, b), qs') \<and>
       stores qs' b v \<and> lang_ok qs' \<and> frame qs qs'))"
proof -
  let ?p = "snd (DSLReplyPacket_createRealPacket magic pk p)"
  note w = writes_reply [OF assms(6), of magic pk]
  obtain r q where q: "marshal_ast k a ?p ps = Inr ((r, q), ps)" "writes ?p q (encode v)" "rp_complete q \<longrightarrow> r = 0"
    using puts_value [OF assms(1-3)] writes_ok [OF w] unfolding puts_def by blast
  have c: "r = 0 \<longleftrightarrow> rp_complete q" using q(3) marshal_ret [OF q(1)] by blast
  note all = writes_trans [OF w q(2)]
  have fits: "rp_complete q \<longleftrightarrow> int (13 + length (encode v)) \<le> uint (rp_maxPacketSize p)"
    using all assms(7,8) by (simp add: writes_def)
  have "\<exists>b qs'. DSLReplyPacket_parse magic k (getPayLoad q) qs = Inr (Some (pk, b), qs') \<and>
       stores qs' b v \<and> lang_ok qs' \<and> frame qs qs'" if complete: "rp_complete q"
  proof -
    have "getPayLoad p = []" using assms(7) by (simp add: getPayLoad_def)
    then have "getPayLoad q = DSL_REPLY # id_bytes magic pk @ encode v"
      using all complete by (simp add: writes_def)
    moreover have "length (encode v) < 1073741811"
      using fits complete assms(6) by (simp add: rp_ok_def)
    ultimately show ?thesis using parse_reply [OF assms(2-5)] by simp
  qed
  then show ?thesis using q(1) c fits by blast
qed

definition example_values :: ParserState where
  "example_values = newParserState\<lparr>heap := [3 \<mapsto> Some (IntN 5), 4 \<mapsto> Some (VarAdtN [110] [([120], 3)])]\<rparr>"

theorem values_survive_remote_calls_witness:
  "\<exists>q b qs'. marshal_ast 9 4 (snd (DSLReplyPacket_createRealPacket 77 \<lparr>req_id_1 = 1, req_id_2 = 2\<rparr>
        (newRealPacket \<lparr>addr = 1, port = 2\<rparr> 1400))) example_values = Inr ((0, q), example_values) \<and>
     DSLReplyPacket_parse 77 9 (getPayLoad q) newParserState = Inr (Some (\<lparr>req_id_1 = 1, req_id_2 = 2\<rparr>, b), qs') \<and>
     stores qs' b (StructV [110] [([120], IntV 5)])"
proof -
  let ?v = "StructV [110] [([120], IntV 5)]" and ?p = "newRealPacket \<lparr>addr = 1, port = 2\<rparr> 1400"
  have v: "stores example_values 4 ?v" by (simp add: stores_simps example_values_def)
  have s: "sendable ?v" "depth ?v \<le> 9" by (simp_all add: sm_ok_def)
  have r: "room newParserState (nodes ?v)" by (simp add: room_def newParserState_eq init_sel MAX_AST_PER_STACK_def)
  have p: "rp_ok ?p" by simp
  have p': "rp_size ?p = 0" "rp_complete ?p" by (simp_all add: newRealPacket_def newRealPacketRendv_def)
  have "int (13 + length (encode ?v)) \<le> uint (rp_maxPacketSize ?p)"
    by (simp add: string_bytes_def newRealPacket_def newRealPacketRendv_def)
  with values_survive_remote_calls [OF v s newParserState_ok r p p', of 77 "\<lparr>req_id_1 = 1, req_id_2 = 2\<rparr>"]
  show ?thesis by blast
qed

end
