(* ===== verification/Lang_Claims.thy ===== *)
theory Lang_Claims
  imports Remote_Values
begin

text \<open>
  The properties of the query language: interpreters are memory safe on a node and outside of one,
  what evaluation keeps, how names are found, and where a program or the network can make the
  interpreter fail or compute something unexpected.
\<close>

subsection \<open>Memory safety\<close>

lemma good_outcome:
  assumes "runs m Q ps"
  shows "m ps \<noteq> Inl Dangling" "m ps = Inr (x, ps') \<Longrightarrow> lang_ok ps' \<and> ext ps ps' \<and> Q x ps'"
  using assms by (auto simp: runs_def split: sum.splits)

text \<open>A node that answers every remote call with one byte, and lets others measure nothing.\<close>

definition deaf_node :: node_env where
  "deaf_node = \<lparr>n_mp = True, n_query = True, n_queryTimeout = \<lparr>tv_sec = 10, tv_usec = 0\<rparr>, n_queryTTL = 5,
     n_clock = (\<lambda>_. \<lparr>tv_sec = 5, tv_usec = 0\<rparr>), n_queryID = (\<lambda>_. 7), n_room = (\<lambda>_. True),
     n_rendv = \<lparr>addr = 0, port = 0\<rparr>, n_rings = (\<lambda>_. newRingSet 4 2 2), n_fpu = ideal_fpu, n_magic = 99,
     n_compress = Some, n_yield = (\<lambda>_. [Schedule]), n_rpc = (\<lambda>_ _. [Schedule, Reply [1], Schedule]),
     n_dist = (\<lambda>_ _. [Reply [1], Distances [], Schedule])\<rparr>"

lemma deaf_node_orderly: "orderly deaf_node"
proof -
  have "\<not> reply_header 99 [1]"
    by (simp add: reply_header_def retrieve_char_def newBufferWrapper_def retrieve_buf_def DSL_REPLY_def)
  then show ?thesis by (simp add: orderly_def deaf_node_def)
qed

text \<open>The program \<^verbatim>\<open>int main() { int x = 5; return x; }\<close>, node by node as the parser makes it.\<close>

definition program_nodes :: "ASTNode list" where
  "program_nodes = [IntN 5, NewVarAssignN (plain_var INT_TYPE [120]) 3, RefVarN [120], ReturnN 5, AstN 6 4,
     ContextN 7, FuncDeclareN \<lparr>f_type = INT_TYPE, f_type_name = Null, f_name = Val (str_of ''main''),
       f_formal_param = 0, f_actual_param = Unset, f_node = 8, f_array_type = EMPTY_TYPE\<rparr>, AstN 0 9]"

definition written :: "nat \<Rightarrow> ParserState" where
  "written k = initialState\<lparr>heap := (\<lambda>a. if a < 3 then heap initialState a
       else if a < 3 + k then Some (Some (program_nodes ! (a - 3))) else None), next_node := 3 + k,
     tables := [0 \<mapsto> \<lparr>v_map = [], v_stack_ast = [0..<3 + k], prev_var_table = None\<rparr>],
     ASTAllocationCount := 3 + int k\<rparr>"

definition main_program :: ParserState where
  "main_program = (written 8)\<lparr>start_node := 10, func_string := str_of ''main''\<rparr>"

lemma written_0: "written 0 = newParserState"
  by (auto simp: written_def newParserState_eq initialState_def blank_state_def upt_rec numeral_eq_Suc)

lemma written_live: "live (written k) a \<longleftrightarrow> a < 3 + k"
  by (auto simp: live_def owner_def written_def)

lemma written_block: "block (written k) a \<longleftrightarrow> a = 0 \<or> 3 \<le> a \<and> a < 3 + k \<and>
    node_type (program_nodes ! (a - 3)) \<in> block_types"
  by (auto simp: block_def block_types_def written_def initialState_def blank_state_def)

lemma written_step: "k < 99997 \<Longrightarrow> mk_node (program_nodes ! k) (written k) = Inr (3 + k, written (Suc k))"
proof -
  have "[0..<4 + k] = [0..<3 + k] @ [3 + k]" using upt_Suc_append [of 0 "3 + k"] by simp
  then show "k < 99997 \<Longrightarrow> mk_node (program_nodes ! k) (written k) = Inr (3 + k, written (Suc k))"
    by (auto simp: mk_node_def get_var_table_def new_stack_ast_def new_ast_def tableAt_def setTable_def writeN_def
        lang_simps MAX_AST_PER_STACK_def written_def initialState_def blank_state_def less_Suc_eq)
qed

lemma program_parsed: "k < 8 \<Longrightarrow> parsed (written k) (program_nodes ! k)"
proof -
  assume "k < 8"
  then have "k = 0 \<or> k = 1 \<or> k = 2 \<or> k = 3 \<or> k = 4 \<or> k = 5 \<or> k = 6 \<or> k = 7" by arith
  then show ?thesis
    by (elim disjE) (simp_all add: program_nodes_def parsed_def refs_def bodies_def written_live written_block
        plain_var_def block_types_def)
qed

lemma main_program_built: "built main_program"
proof -
  have "k \<le> 8 \<Longrightarrow> built (written k)" for k
  proof (induction k)
    case (Suc k)
    then show ?case by (intro built_node [OF _ program_parsed written_step]) auto
  qed (simp add: written_0 built_new)
  then have w: "built (written 8)" by simp
  have "live (written 8) 10" by (simp add: written_live)
  then have "built ((written 8)\<lparr>start_node := 10\<rparr>)"
    by (rule built_start [OF w]) (simp only: set_start_def modify_def)
  then show ?thesis
    by (rule built_name) (simp only: main_program_def set_func_string_def modify_def)
qed

text \<open>
  C1. A node runs any program the parser can build without touching a node or a table that has been
  freed, whatever its network, its clock and its rings do, as long as a suspended interpreter is
  resumed by what it waits for; when the program ends, the interpreter is in a well-formed state
  again, in the scope it started in.
\<close>

theorem node_programs_are_memory_safe:
  assumes "orderly N" "built ps"
  shows "jmp_eval (node_dsl E N) ps \<noteq> Inl Dangling \<and>
    (\<forall>ps'. jmp_eval (node_dsl E N) ps = Inr ((), ps') \<longrightarrow> lang_ok ps' \<and> var_table ps' = var_table ps)"
proof -
  have "runs (jmp_eval (node_dsl E N)) (\<lambda>_ _. True) ps"
    by (rule interpreter.good_jmp_eval [OF node_interpreter [OF assms(1)] built_ok [OF assms(2)]])
  from good_outcome [OF this] show ?thesis by (auto simp: ext_def)
qed

theorem node_programs_are_memory_safe_witness:
  "orderly deaf_node \<and> built main_program \<and>
   (\<forall>E. jmp_eval (node_dsl E deaf_node) main_program \<noteq> Inl Dangling)"
  using node_programs_are_memory_safe [OF deaf_node_orderly main_program_built] deaf_node_orderly
    main_program_built by blast

text \<open>
  C13. Outside of a node the same holds with no assumption about the network or the resolver, and from
  every well-formed state.
\<close>

theorem stand_alone_is_memory_safe:
  assumes "lang_ok ps"
  shows "jmp_eval (alone_dsl E A) ps \<noteq> Inl Dangling \<and>
    (\<forall>ps'. jmp_eval (alone_dsl E A) ps = Inr ((), ps') \<longrightarrow> lang_ok ps' \<and> var_table ps' = var_table ps)"
  using good_outcome [OF alone.good_jmp_eval [OF assms, of E A]] by (auto simp: ext_def)

theorem stand_alone_is_memory_safe_witness:
  "lang_ok newParserState \<and> (\<forall>E A. jmp_eval (alone_dsl E A) newParserState \<noteq> Inl Dangling)"
  using stand_alone_is_memory_safe [OF newParserState_ok] newParserState_ok by blast

text \<open>
  C14. Every state the parser and the request packet can bring an interpreter to satisfies the
  invariant: each node is owned by the one table there is, and refers only to nodes that are alive.
\<close>

theorem built_states_are_well_formed:
  assumes "built ps"
  shows "lang_ok ps \<and> (\<forall>a n c. heap ps a = Some (Some n) \<longrightarrow> c \<in> refs n \<longrightarrow> live ps c) \<and>
    (\<forall>a. live ps a \<longrightarrow> owner ps a (scope0 ps))"
  using built_ok [OF assms] refs_live [OF built_ok [OF assms]] one_scope_owner [OF built_one_scope [OF assms]]
    one_scope_sel(2) [OF built_one_scope [OF assms]] by auto

theorem built_states_are_well_formed_witness:
  "\<exists>ps a. mk_ref_var [120] newParserState = Inr (a, ps) \<and> lang_ok ps"
proof -
  have "parsed newParserState (RefVarN [120])" by (simp add: parsed_def refs_def bodies_def)
  moreover obtain a ps where r: "mk_node (RefVarN [120]) newParserState = Inr (a, ps)"
    by (simp add: newParserState_eq initialState_def blank_state_def mk_node_def new_stack_ast_def new_ast_def
        get_var_table_def tableAt_def setTable_def writeN_def andThen_def modify_def ret_def
        MAX_AST_PER_STACK_def)
  ultimately have "built ps" by (rule built_node [OF built_new])
  from built_states_are_well_formed [OF this] show ?thesis using r by (auto simp: mk_ref_var_def)
qed

subsection \<open>What evaluation keeps\<close>

lemma host_interpreter:
  "E' = alone_dsl E A \<or> orderly N \<and> E' = node_dsl E N \<Longrightarrow> interpreter E'"
  using node_interpreter alone.interpreter_axioms by blast

text \<open>
  C11. Evaluation keeps the types of nodes, outside of a node (\<open>alone_dsl\<close>) always and on a node
  (\<open>node_dsl\<close>) if its main thread is orderly, that is, resumes a blocked interpreter only with what it
  waits for: a node of the program that exists before exists afterwards, with the tag it had, except
  that the definition of a struct becomes the struct type it declares. The result is a node that is
  alive. Without an orderly main thread it need not be (C36).
\<close>

theorem evaluation_keeps_types:
  assumes "E' = alone_dsl E A \<or> orderly N \<and> E' = node_dsl E N"
    and "lang_ok ps" "live ps a" "eval_ast E' d a ps = Inr (x, ps')"
    and "heap ps b = Some (Some n)"
  shows "live ps' x \<and> (\<exists>n'. heap ps' b = Some (Some n') \<and>
    (node_type n' = node_type n \<or> node_type n = DEF_ADT_TYPE \<and> node_type n' = ADT_TYPE))"
proof -
  have "runs (eval_ast E' d a) (\<lambda>x ps'. live ps' x) ps"
    by (rule interpreter.good_eval_ast(1) [OF host_interpreter [OF assms(1)] assms(2,3)])
  from good_outcome(2) [OF this assms(4)] have "ext ps ps'" "live ps' x" by blast+
  then show ?thesis using ext_heap [OF _ assms(5)] by (auto simp: same_kind_def)
qed

text \<open>An interpreter before parsing that may run without being interrupted.\<close>

definition free_state :: ParserState where
  "free_state = newParserState\<lparr>evalCount := - 1\<rparr>"

lemma free_state_ok: "lang_ok free_state"
  using newParserState_ok lang_ok_cong(1) [of free_state newParserState] by (simp add: free_state_def)

lemma free_state_sel: "evalCount free_state = - 1" "empty_node free_state = 0"
  "heap free_state = [0 \<mapsto> Some EmptyN, 1 \<mapsto> Some BreakN, 2 \<mapsto> Some ContinueN]" "var_table free_state = [0]"
  by (simp_all add: free_state_def newParserState_eq initialState_def blank_state_def)

lemma free_state_live: "live free_state 0" "live free_state 1" "live free_state 2"
  by (simp_all add: live_heap [OF free_state_ok] free_state_sel)

lemma eval_break: "eval_ast E 1 1 free_state = Inr (1, free_state\<lparr>ps_state := PS_RUNNING\<rparr>)"
  by (simp add: use_instruction_def set_parser_state_def lang_simps readN_def free_state_sel eval_node_def)

theorem evaluation_keeps_types_witness:
  "orderly deaf_node \<and> lang_ok free_state \<and> (\<forall>E. \<exists>ps'.
     eval_ast (node_dsl E deaf_node) 1 1 free_state = Inr (1, ps') \<and> heap ps' 2 = Some (Some ContinueN))"
proof -
  have "heap free_state 2 = Some (Some ContinueN)" by (simp add: free_state_sel)
  from evaluation_keeps_types [OF disjI2, OF conjI [OF deaf_node_orderly refl] free_state_ok
      free_state_live(2) eval_break this]
  have "\<exists>n'. heap (free_state\<lparr>ps_state := PS_RUNNING\<rparr>) 2 = Some (Some n') \<and> node_type n' = CONTINUE_TYPE"
    by auto
  then show ?thesis using deaf_node_orderly free_state_ok eval_break by (fastforce simp: free_state_sel)
qed

text \<open>
  C12. However long a program runs, an interpreter holds at most 100000 nodes, the scopes after an
  evaluation are those before it, and every node is owned by exactly one of them. This holds of the
  stand-alone interpreter and of those of a node with an orderly main thread.
\<close>

theorem memory_is_bounded:
  assumes "E' = alone_dsl E A \<or> orderly N \<and> E' = node_dsl E N"
    and "lang_ok ps" "live ps a" "eval_ast E' d a ps = Inr (x, ps')"
  shows "finite (dom (heap ps')) \<and> card (dom (heap ps')) \<le> 100000 \<and> var_table ps' = var_table ps \<and>
    (\<forall>b. heap ps' b \<noteq> None \<longrightarrow> (\<exists>!t. owner ps' b t) \<and> (\<forall>t. owner ps' b t \<longrightarrow> t \<in> set (var_table ps)))"
proof -
  have "runs (eval_ast E' d a) (\<lambda>x ps'. live ps' x) ps"
    by (rule interpreter.good_eval_ast(1) [OF host_interpreter [OF assms(1)] assms(2,3)])
  from good_outcome(2) [OF this assms(4)]
  have ok: "lang_ok ps'" "ext ps ps'" by blast+
  have "dom (heap ps') \<subseteq> {..< next_node ps'}" using lang_okD(2) [OF ok(1)] by (auto simp: memory_ok_def)
  then have "finite (dom (heap ps'))" by (rule finite_subset) simp
  moreover have "int (card (dom (heap ps'))) \<le> 100000"
    using lang_okD(2) [OF ok(1)] by (simp add: memory_ok_def MAX_AST_PER_STACK_def)
  moreover have "\<exists>!t. owner ps' b t" if "heap ps' b \<noteq> None" for b
    using that live_heap [OF ok(1)] owner_unique [OF ok(1)] unfolding live_def by metis
  moreover have "t \<in> set (var_table ps)" if "owner ps' b t" for b t
    using owner_scope [OF ok(1) that] ok(2) by (simp add: ext_def)
  ultimately show ?thesis using ok(2) by (simp add: ext_def)
qed

theorem memory_is_bounded_witness:
  "orderly deaf_node \<and> (\<forall>E. \<exists>ps'. eval_ast (node_dsl E deaf_node) 1 1 free_state = Inr (1, ps') \<and>
    card (dom (heap ps')) \<le> 100000)"
  using memory_is_bounded [OF disjI2, OF conjI [OF deaf_node_orderly refl] free_state_ok
      free_state_live(2) eval_break] eval_break deaf_node_orderly by blast

subsection \<open>Where a program or the network goes wrong\<close>

text \<open>
  C36. An answer to an earlier remote call that arrives while a measurement is under way makes the
  interpreter runnable. If the result of the last measurement has been freed meanwhile, the
  interpreter goes on with that freed node: taking the measurement out of it is a use after free.
\<close>

theorem late_reply_leaves_a_freed_result:
  assumes "DSLReplyPacket_parse (n_magic N) (e_stack E) bs ps = Inr (Some (pk, a), qs)"
    and "query_return ps < next_node ps" "heap ps (query_return ps) = None"
  shows "\<exists>rs. main_thread E N (Reply bs # Schedule # ws) ps = Inr ((), rs) \<and>
    take_result False rs = Inr (query_return ps, rs) \<and> heap rs (query_return ps) = None \<and>
    take_result True rs = Inl Dangling"
proof -
  have k: "keeps ps qs" by (rule quietD [OF quiet_parse_reply assms(1)])
  define rs where "rs = qs\<lparr>rpc_recv := a, ps_state := PS_READY, evalCount := INSTRUCTIONS_PER_IT\<rparr>"
  have "main_thread E N (Reply bs # Schedule # ws) ps = Inr ((), rs)"
    by (simp add: handle_reply_def setRPCRecv_def set_parser_state_def allocateEvalCount_def lang_simps assms(1) rs_def)
  moreover have "query_return rs = query_return ps" "heap rs (query_return ps) = None"
    using k assms(2,3) by (simp_all add: keeps_def rs_def)
  ultimately show ?thesis by (auto simp: take_result_def lang_simps readN_def)
qed

definition stale_state :: ParserState where
  "stale_state = free_state\<lparr>next_node := 4, query_return := 3, ps_state := PS_BLOCKED\<rparr>"

definition empty_reply :: "u8 list" where
  "empty_reply = DSL_REPLY # net_uint 1 @ net_uint 2 @ net_uint 99 @ net_uint 0"

lemma parse_empty_reply: "\<exists>pk qs. DSLReplyPacket_parse 99 1 empty_reply stale_state = Inr (Some (pk, 4), qs)"
proof -
  have t: "get_type (rd pre (net_uint 0)) = (EMPTY_TYPE, rd (pre @ net_uint 0) [])" if "length pre < 100" for pre
    using retrieve_fixed_rd(4) [of pre "[]" "htonl 0"] that
    by (simp add: get_type_def net_uint_def type_of_code_def asttypes_def)
  have n: "newBufferWrapper empty_reply (int (length empty_reply)) = rd [] empty_reply" by (rule new_rd)
  show ?thesis unfolding DSLReplyPacket_parse_def n
    by (simp add: empty_reply_def wire_simps t unmarshal_contents_def
        get_var_table_def new_stack_ast_def new_ast_def tableAt_def setTable_def writeN_def lang_simps
        MAX_AST_PER_STACK_def stale_state_def free_state_def newParserState_eq initialState_def blank_state_def)
qed

theorem late_reply_leaves_a_freed_result_witness:
  "\<forall>E. \<exists>rs. main_thread (E\<lparr>e_stack := 1\<rparr>) deaf_node [Reply empty_reply, Schedule] stale_state = Inr ((), rs) \<and>
    take_result True rs = Inl Dangling"
proof
  fix E :: dsl_env
  obtain pk qs where p: "DSLReplyPacket_parse (n_magic deaf_node) (e_stack (E\<lparr>e_stack := 1\<rparr>)) empty_reply stale_state =
      Inr (Some (pk, 4), qs)"
    using parse_empty_reply by (auto simp: deaf_node_def)
  have "query_return stale_state < next_node stale_state" "heap stale_state (query_return stale_state) = None"
    by (simp_all add: stale_state_def free_state_sel)
  from late_reply_leaves_a_freed_result [OF p this, of "[]"]
  show "\<exists>rs. main_thread (E\<lparr>e_stack := 1\<rparr>) deaf_node [Reply empty_reply, Schedule] stale_state = Inr ((), rs) \<and>
    take_result True rs = Inl Dangling" by blast
qed




text \<open>C37. Assigning an array to itself empties it.\<close>

theorem self_assignment_empties_an_array:
  assumes "heap ps a = Some (Some (ArrayN ty nm vec tb))" "ty = ADT_TYPE \<longrightarrow> (\<exists>s. nm = Val s)"
  shows "updateADT (Suc k) t a a ps = Inr (0, ps\<lparr>heap := (heap ps)(a \<mapsto> Some (ArrayN ty nm [] tb))\<rparr>)"
  using assms
  by (auto simp: update_array_def refill_def clear_vector_def vector_of_def readAs_def need_def lang_simps readN_def
      writeN_def value_of_def)

theorem self_assignment_empties_an_array_witness:
  "updateADT 1 0 4 4 (free_state\<lparr>heap := [3 \<mapsto> Some (IntN 5), 4 \<mapsto> Some (ArrayN INT_TYPE Null [3] (Val 0))]\<rparr>) =
    Inr (0, free_state\<lparr>heap := [3 \<mapsto> Some (IntN 5), 4 \<mapsto> Some (ArrayN INT_TYPE Null [] (Val 0))]\<rparr>)"
  using self_assignment_empties_an_array [where k = 0 and t = 0 and a = 4 and
      ps = "free_state\<lparr>heap := [3 \<mapsto> Some (IntN 5), 4 \<mapsto> Some (ArrayN INT_TYPE Null [3] (Val 0))]\<rparr>"]
  by simp

lemma int_div_bounds:
  fixes a b :: int
  assumes "- 2147483648 \<le> a" "a < 2147483648" "b \<noteq> 0" "\<not> (a = - 2147483648 \<and> b = - 1)"
  shows "- 2147483648 \<le> a sdiv b \<and> a sdiv b < 2147483648"
proof -
  have r: "- \<bar>a\<bar> \<le> a sdiv b" "a sdiv b \<le> \<bar>a\<bar>" using sdiv_int_range [of a b] by auto
  show ?thesis
  proof (cases "a = - 2147483648")
    case True
    then have "b \<noteq> - 1" using assms(4) by simp
    then have "a sdiv b \<noteq> - a" using int_sdiv_negated_is_minus1 [of a b] True by simp
    then show ?thesis using r True by simp
  next
    case False
    then show ?thesis using r assms(1,2) by linarith
  qed
qed

lemma sint_eq_iff: "sint x = sint y \<longleftrightarrow> x = (y :: u32)"
  by (metis of_int_sint scast_id)

text \<open>
  C39. Division and remainder trap exactly for the divisor zero and for the smallest number divided by
  minus one; otherwise they are the truncated quotient and the remainder that goes with it.
\<close>

theorem division_truncates_or_traps:
  "if y = 0 \<or> (sint x = - 2147483648 \<and> sint y = - 1)
   then arith_int Op_div x y ps = Inl Overflow \<and> arith_int Op_mod x y ps = Inl Overflow
   else \<exists>q r. arith_int Op_div x y ps = Inr (Some (IntN q), ps) \<and> arith_int Op_mod x y ps = Inr (Some (IntN r), ps) \<and>
     sint q = sint x sdiv sint y \<and> sint r = sint x smod sint y \<and> sint x = sint q * sint y + sint r"
proof -
  have c: "y = 0 \<or> (x = 0x80000000 \<and> y = - 1) \<longleftrightarrow> y = 0 \<or> (sint x = - 2147483648 \<and> sint y = - 1)"
    using sint_eq_iff [of x "0x80000000"] sint_eq_iff [of y "- 1"] by simp
  show ?thesis
  proof (cases "y = 0 \<or> (sint x = - 2147483648 \<and> sint y = - 1)")
    case True
    then show ?thesis unfolding c [symmetric]
      by (auto simp: arith_int_def trapping_def int_mod_def opr_int_def lang_simps)
  next
    case False
    then have "\<not> (y = 0 \<or> (x = 0x80000000 \<and> y = - 1))" unfolding c .
    then have "arith_int Op_div x y ps = Inr (Some (IntN (word_of_int (sint x sdiv sint y))), ps)"
      "arith_int Op_mod x y ps = Inr (Some (IntN (word_of_int (sint x smod sint y))), ps)"
      by (auto simp: arith_int_def trapping_def int_mod_def opr_int_def lang_simps)
    moreover have y: "sint y \<noteq> 0" using False sint_eq_iff [of y 0] by simp
    have "sint (word_of_int (sint x sdiv sint y) :: u32) = sint x sdiv sint y"
      using int_div_bounds [OF sint_32 [of x] y] False by (simp add: sint_of_int_32)
    moreover have "sint (word_of_int (sint x smod sint y) :: u32) = sint x smod sint y"
      using smod_int_range [of "sint y" "sint x"] y sint_32 [of y] by (intro sint_of_int_32) auto
    ultimately show ?thesis using False sdiv_mult_smod_eq [of "sint x" "sint y"] by simp
  qed
qed

subsection \<open>Names\<close>

text \<open>The specification: a table adds its own variables to those of the table it was opened in.\<close>

definition own_vars :: "ParserState \<Rightarrow> nat \<Rightarrow> str \<Rightarrow> nat option" where
  "own_vars ps t = (case tables ps t of None \<Rightarrow> Map.empty | Some vt \<Rightarrow> sm_find (v_map vt))"

definition outer :: "ParserState \<Rightarrow> nat \<Rightarrow> nat option" where
  "outer ps t = (case tables ps t of None \<Rightarrow> None | Some vt \<Rightarrow> prev_var_table vt)"

function visible :: "ParserState \<Rightarrow> nat \<Rightarrow> str \<Rightarrow> nat option" where
  "visible ps t = (case outer ps t of
       Some p \<Rightarrow> if p < t then visible ps p ++ own_vars ps t else own_vars ps t
     | None \<Rightarrow> own_vars ps t)"
  by pat_completeness auto
termination by (relation "measure snd") auto

declare visible.simps [simp del]

lemma visible_cong: "(\<And>u. u \<le> t \<Longrightarrow> tables ps' u = tables ps u) \<Longrightarrow> visible ps' t = visible ps t"
proof (induction t rule: less_induct)
  case (less t)
  have "outer ps' t = outer ps t" "own_vars ps' t = own_vars ps t"
    using less.prems by (simp_all add: outer_def own_vars_def)
  then show ?case unfolding visible.simps [of _ t] using less by (simp split: option.split)
qed

lemma lookup_from_visible:
  assumes "lang_ok ps" "t \<in> set (var_table ps)" "t < k"
  shows "lookup_from k t s ps = Inr (visible ps t s, ps)"
  using assms(2,3)
proof (induction k arbitrary: t)
  case (Suc k)
  obtain vt where vt: "tables ps t = Some vt" using table_of [OF assms(1) Suc.prems(1)] by blast
  have p: "p < t \<and> p \<in> set (var_table ps)" if "prev_var_table vt = Some p" for p
    using lang_okD(7) [OF assms(1) vt] that by (simp add: vt_ok_def)
  show ?case
    using Suc p vt unfolding visible.simps [of ps t]
    by (auto simp: local_lookup_def lang_simps tableAt_def own_vars_def outer_def map_add_def split: option.split)
qed simp

lemma lookup_visible: "lang_ok ps \<Longrightarrow> t \<in> set (var_table ps) \<Longrightarrow> lookup t s ps = Inr (visible ps t s, ps)"
  by (auto simp: lookup_def lang_simps lang_ok_def scopes_ok_def intro!: lookup_from_visible)

text \<open>
  C7. Looking up a name is looking it up in nested environments: a declaration adds the name to the
  current scope unless the scope itself has it, a block starts with the names of the block around it,
  and a function with the global ones.
\<close>

theorem lookup_refines_environments:
  assumes "lang_ok ps" "t \<in> set (var_table ps)"
  shows "lookup t s ps = Inr (visible ps t s, ps) \<and>
    (\<exists>ps'. insert_var t s a ps = Inr (if own_vars ps t s = None then 0 else - 1, ps') \<and>
      visible ps' t = (if own_vars ps t s = None then (visible ps t)(s \<mapsto> a) else visible ps t)) \<and>
    (\<exists>ps'. new_context ps = Inr (0, ps') \<and> visible ps' (scope ps') = visible ps (scope ps)) \<and>
    (\<exists>ps'. new_var_table ps = Inr ((0, Val (scope ps)), ps') \<and> visible ps' (scope ps') = visible ps (scope0 ps))"
proof -
  obtain vt where vt: "tables ps t = Some vt" using table_of [OF assms] by blast
  have prev: "p < t" if "prev_var_table vt = Some p" for p
    using lang_okD(7) [OF assms(1) vt] that by (simp add: vt_ok_def)
  have ins: "\<exists>ps'. insert_var t s a ps = Inr (if own_vars ps t s = None then 0 else - 1, ps') \<and>
      visible ps' t = (if own_vars ps t s = None then (visible ps t)(s \<mapsto> a) else visible ps t)"
  proof (cases "own_vars ps t s")
    case None
    let ?q = "ps\<lparr>tables := (tables ps)(t \<mapsto> vt\<lparr>v_map := sm_upd s a (v_map vt)\<rparr>)\<rparr>"
    have r: "insert_var t s a ps = Inr (0, ?q)"
      using None vt by (simp add: insert_var_def local_exists_def local_lookup_def tableAt_def lang_simps own_vars_def setTable_def)
    have "visible ?q p = visible ps p" if "p < t" for p using that by (intro visible_cong) auto
    moreover have "own_vars ?q t = (own_vars ps t)(s \<mapsto> a)" using vt by (auto simp: own_vars_def sm_find_upd)
    moreover have "outer ?q t = outer ps t" using vt by (simp add: outer_def)
    ultimately have "visible ?q t = (visible ps t)(s \<mapsto> a)"
      unfolding visible.simps [of _ t] by (auto split: option.split)
    then show ?thesis using r None by simp
  next
    case (Some b)
    then show ?thesis
      using vt by (simp add: insert_var_def local_exists_def local_lookup_def tableAt_def lang_simps own_vars_def)
  qed
  have below: "u < next_table ps" if "u \<in> set (var_table ps)" for u
    using assms(1) that by (simp add: lang_ok_def scopes_ok_def)
  have push: "visible (entered p ps) (scope (entered p ps)) = visible ps p" if "p \<in> set (var_table ps)" for p
  proof -
    have "visible (entered p ps) p = visible ps p" using below [OF that] by (intro visible_cong) (simp add: entered_def)
    then show ?thesis
      unfolding entered_ok(4) [OF assms(1) that] visible.simps [of _ "next_table ps"]
      using below [OF that] by (simp add: outer_def own_vars_def entered_def)
  qed
  have ne: "var_table ps \<noteq> []" using assms(2) by auto
  have "new_context ps = Inr (0, entered (scope ps) ps)"
    "new_var_table ps = Inr ((0, Val (scope ps)), entered (scope0 ps) ps)"
    using ne by (simp_all add: new_context_def new_var_table_def push_table_def lang_simps entered_def scope_def scope0_def)
  then show ?thesis
    using lookup_visible [OF assms] ins push [OF scope_in [OF assms(1)]] push [OF scope0_in [OF assms(1)]] by blast
qed

theorem lookup_refines_environments_witness:
  "\<forall>s. lookup 0 s newParserState = Inr (visible newParserState 0 s, newParserState)"
  using lookup_refines_environments [OF newParserState_ok] by (simp add: newParserState_eq init_sel)

subsection \<open>Searching arrays\<close>

text \<open>The scan keeps the best so far, or finds the first of the entries nothing is better than.\<close>

lemma scan_best_spec:
  fixes key :: "'v \<Rightarrow> int"
  assumes get: "\<And>v. get (node v) = Some v"
    and better: "\<And>v w. usable v \<Longrightarrow> usable w \<Longrightarrow> better v w \<longleftrightarrow> key w < key v" and "usable b"
    and "\<forall>j < length vec. heap ps (vec ! j) = Some (Some (node (xs j))) \<and> usable (xs j)"
  shows "\<exists>off'. scan_best get better b off i vec ps = Inr (Some off', ps) \<and>
    (if \<forall>j < length vec. key (xs j) \<le> key b then off' = off
     else \<exists>j < length vec. off' = i + int j \<and> key b < key (xs j) \<and>
       (\<forall>l < length vec. key (xs l) \<le> key (xs j)) \<and> (\<forall>l < j. key (xs l) < key (xs j)))"
  using assms(3,4)
proof (induction vec arbitrary: b off i xs)
  case (Cons a vec)
  have a: "heap ps a = Some (Some (node (xs 0)))" "usable (xs 0)"
    using Cons.prems(2) by (metis length_greater_0_conv list.discI nth_Cons_0)+
  have rest: "\<forall>j < length vec. heap ps (vec ! j) = Some (Some (node (xs (Suc j)))) \<and> usable (xs (Suc j))"
    using Cons.prems(2) by (metis Suc_less_eq length_Cons nth_Cons_Suc)
  let ?b = "if key b < key (xs 0) then xs 0 else b" and ?off = "if key b < key (xs 0) then i else off"
  have "usable ?b" using Cons.prems(1) a(2) by simp
  from Cons.IH [OF this rest, of ?off "i + 1"]
  obtain off' where off': "scan_best get better ?b ?off (i + 1) vec ps = Inr (Some off', ps)"
    and best: "if \<forall>j < length vec. key (xs (Suc j)) \<le> key ?b then off' = ?off
     else \<exists>j < length vec. off' = i + 1 + int j \<and> key ?b < key (xs (Suc j)) \<and>
       (\<forall>l < length vec. key (xs (Suc l)) \<le> key (xs (Suc j))) \<and> (\<forall>l < j. key (xs (Suc l)) < key (xs (Suc j)))"
    by blast
  have run: "scan_best get better b off i (a # vec) ps = Inr (Some off', ps)"
    using off' a better [OF a(2) Cons.prems(1)] by (auto simp: lang_simps readN_def get)
  show ?case
  proof (cases "\<forall>j < length vec. key (xs (Suc j)) \<le> key ?b")
    case True
    then have o: "off' = ?off" using best by simp
    show ?thesis
    proof (cases "key b < key (xs 0)")
      case True
      have "key (xs l) \<le> key (xs 0)" if "l < Suc (length vec)" for l
        using \<open>\<forall>j < length vec. key (xs (Suc j)) \<le> key ?b\<close> True that by (cases l) auto
      then show ?thesis using run o True by (intro exI [of _ off'] conjI) auto
    next
      case False
      have "key (xs l) \<le> key b" if "l < Suc (length vec)" for l
        using \<open>\<forall>j < length vec. key (xs (Suc j)) \<le> key ?b\<close> False that by (cases l) auto
      then show ?thesis using run o False by (intro exI [of _ off'] conjI) auto
    qed
  next
    case False
    then obtain j where j: "j < length vec" "off' = i + 1 + int j" "key ?b < key (xs (Suc j))"
      "\<forall>l < length vec. key (xs (Suc l)) \<le> key (xs (Suc j))" "\<forall>l < j. key (xs (Suc l)) < key (xs (Suc j))"
      using best unfolding if_not_P [OF False] by blast
    have b: "key b < key (xs (Suc j))" "key (xs 0) < key (xs (Suc j))" using j(3) by (auto split: if_splits)
    have "key (xs l) \<le> key (xs (Suc j))" if "l < Suc (length vec)" for l
      using j(4) b(2) that by (cases l) auto
    moreover have "key (xs l) < key (xs (Suc j))" if "l < Suc j" for l
      using j(5) b(2) that by (cases l) auto
    ultimately have "\<exists>j < length (a # vec). off' = i + int j \<and> key b < key (xs j) \<and>
       (\<forall>l < length (a # vec). key (xs l) \<le> key (xs j)) \<and> (\<forall>l < j. key (xs l) < key (xs j))"
      using j(1,2) b(1) by (intro exI [of _ "Suc j"]) auto
    then show ?thesis using run b(1) j(1) by (intro exI [of _ off']) (auto simp: not_le)
  qed
qed (simp add: lang_simps)

text \<open>Started with something nothing is worse than, the scan finds the first of the best entries.\<close>

lemma scan_finds_first:
  fixes key :: "'v \<Rightarrow> int"
  assumes "\<And>v. get (node v) = Some v"
    and "\<And>v w. usable v \<Longrightarrow> usable w \<Longrightarrow> better v w \<longleftrightarrow> key w < key v"
    and "usable b" "\<And>v. usable v \<Longrightarrow> key b \<le> key v" "vec \<noteq> []"
    and v: "\<forall>j < length vec. heap ps (vec ! j) = Some (Some (node (xs j))) \<and> usable (xs j)"
  shows "\<exists>i < length vec. scan_best get better b 0 0 vec ps = Inr (Some (int i), ps) \<and>
    (\<forall>l < length vec. key (xs l) \<le> key (xs i)) \<and> (\<forall>l < i. key (xs l) < key (xs i))"
proof -
  obtain off where o: "scan_best get better b 0 0 vec ps = Inr (Some off, ps)"
    "if \<forall>j < length vec. key (xs j) \<le> key b then off = 0
     else \<exists>j < length vec. off = 0 + int j \<and> key b < key (xs j) \<and>
     (\<forall>l < length vec. key (xs l) \<le> key (xs j)) \<and> (\<forall>l < j. key (xs l) < key (xs j))"
    using scan_best_spec [where get = get and node = node and better = better and key = key and
        usable = usable, OF assms(1,2,3) v] by blast
  show ?thesis
  proof (cases "\<forall>j < length vec. key (xs j) \<le> key b")
    case True
    moreover have "key b \<le> key (xs 0)" using assms(4,5) v by auto
    ultimately have "\<forall>l < length vec. key (xs l) \<le> key (xs 0)" using order_trans by blast
    moreover have "off = 0" using o(2) True by simp
    ultimately show ?thesis using o(1) assms(5) by (intro exI [of _ 0]) simp
  next
    case False
    then obtain j where "j < length vec" "off = int j"
      "\<forall>l < length vec. key (xs l) \<le> key (xs j)" "\<forall>l < j. key (xs l) < key (xs j)"
      using o(2) unfolding if_not_P [OF False] by auto
    then show ?thesis using o(1) by blast
  qed
qed

lemma dbl_ends: "\<not> dbl_nan dbl_inf" "\<not> dbl_nan dbl_minus_inf"
  "\<not> dbl_nan d \<Longrightarrow> dbl_key dbl_minus_inf \<le> dbl_key d \<and> dbl_key d \<le> dbl_key dbl_inf"
proof -
  have m: "dbl_mag dbl_inf = 0x7FF0000000000000" "dbl_mag dbl_minus_inf = 0x7FF0000000000000"
    "\<not> dbl_neg dbl_inf" "dbl_neg dbl_minus_inf"
    by (simp_all add: dbl_mag_def dbl_neg_def dbl_inf_def dbl_minus_inf_def take_bit_eq_mod unat_mod bit_iff_odd)
  then show "\<not> dbl_nan dbl_inf" "\<not> dbl_nan dbl_minus_inf"
    "\<not> dbl_nan d \<Longrightarrow> dbl_key dbl_minus_inf \<le> dbl_key d \<and> dbl_key d \<le> dbl_key dbl_inf"
    by (auto simp: dbl_nan_def dbl_key_def)
qed

text \<open>
  C31. The searches for the largest and the smallest number of an array find the first of the largest
  and the first of the smallest entries, in arrays of integers and in arrays of doubles, infinities
  included, none of which is a NaN.
\<close>

theorem array_searches_find_the_first_best:
  assumes "vec \<noteq> []"
  shows "((\<forall>j < length vec. heap ps (vec ! j) = Some (Some (IntN (xs j)))) \<longrightarrow>
     (\<exists>i < length vec. arrayLargestOffset INT_TYPE vec ps = Inr (Some (int i), ps) \<and>
        (\<forall>l < length vec. sint (xs l) \<le> sint (xs i)) \<and> (\<forall>l < i. sint (xs l) < sint (xs i))) \<and>
     (\<exists>i < length vec. arraySmallestOffset INT_TYPE vec ps = Inr (Some (int i), ps) \<and>
        (\<forall>l < length vec. sint (xs i) \<le> sint (xs l)) \<and> (\<forall>l < i. sint (xs i) < sint (xs l)))) \<and>
    ((\<forall>j < length vec. heap ps (vec ! j) = Some (Some (DoubleN (ds j))) \<and> \<not> dbl_nan (ds j)) \<longrightarrow>
     (\<exists>i < length vec. arrayLargestOffset DOUBLE_TYPE vec ps = Inr (Some (int i), ps) \<and>
        (\<forall>l < length vec. dbl_le (ds l) (ds i)) \<and> (\<forall>l < i. dbl_lt (ds l) (ds i))) \<and>
     (\<exists>i < length vec. arraySmallestOffset DOUBLE_TYPE vec ps = Inr (Some (int i), ps) \<and>
        (\<forall>l < length vec. dbl_le (ds i) (ds l)) \<and> (\<forall>l < i. dbl_lt (ds i) (ds l))))"
proof (intro conjI impI)
  assume v: "\<forall>j < length vec. heap ps (vec ! j) = Some (Some (IntN (xs j)))"
  have ends: "- 2147483648 \<le> sint v" "sint v \<le> 2147483647" for v :: u32
    using sint_32 [of v] by auto
  have "\<exists>i < length vec. scan_best int_of (\<lambda>v best. sint v > sint best) 0x80000000 0 0 vec ps = Inr (Some (int i), ps) \<and>
      (\<forall>l < length vec. sint (xs l) \<le> sint (xs i)) \<and> (\<forall>l < i. sint (xs l) < sint (xs i))"
    by (rule scan_finds_first [where node = IntN and usable = "\<lambda>_. True"])
      (use assms v ends in \<open>simp_all add: members_Some\<close>)
  then show "\<exists>i < length vec. arrayLargestOffset INT_TYPE vec ps = Inr (Some (int i), ps) \<and>
      (\<forall>l < length vec. sint (xs l) \<le> sint (xs i)) \<and> (\<forall>l < i. sint (xs l) < sint (xs i))"
    using assms by (simp add: arrayLargestOffset_def)
  have "\<exists>i < length vec. scan_best int_of (\<lambda>v best. sint v < sint best) 0x7FFFFFFF 0 0 vec ps = Inr (Some (int i), ps) \<and>
      (\<forall>l < length vec. - sint (xs l) \<le> - sint (xs i)) \<and> (\<forall>l < i. - sint (xs l) < - sint (xs i))"
    by (rule scan_finds_first [where node = IntN and usable = "\<lambda>_. True"])
      (use assms v ends in \<open>simp_all add: members_Some\<close>)
  then show "\<exists>i < length vec. arraySmallestOffset INT_TYPE vec ps = Inr (Some (int i), ps) \<and>
      (\<forall>l < length vec. sint (xs i) \<le> sint (xs l)) \<and> (\<forall>l < i. sint (xs i) < sint (xs l))"
    using assms by (simp add: arraySmallestOffset_def)
next
  assume v: "\<forall>j < length vec. heap ps (vec ! j) = Some (Some (DoubleN (ds j))) \<and> \<not> dbl_nan (ds j)"
  have "\<exists>i < length vec. scan_best double_of (\<lambda>v best. dbl_lt best v) dbl_minus_inf 0 0 vec ps = Inr (Some (int i), ps) \<and>
      (\<forall>l < length vec. dbl_key (ds l) \<le> dbl_key (ds i)) \<and> (\<forall>l < i. dbl_key (ds l) < dbl_key (ds i))"
    by (rule scan_finds_first [where node = DoubleN and usable = "\<lambda>d. \<not> dbl_nan d"])
      (use assms v dbl_ends in \<open>simp_all add: members_Some dbl_lt_def\<close>)
  then obtain i where "i < length vec" "scan_best double_of (\<lambda>v best. dbl_lt best v) dbl_minus_inf 0 0 vec ps = Inr (Some (int i), ps)"
    "\<forall>l < length vec. dbl_key (ds l) \<le> dbl_key (ds i)" "\<forall>l < i. dbl_key (ds l) < dbl_key (ds i)" by blast
  then show "\<exists>i < length vec. arrayLargestOffset DOUBLE_TYPE vec ps = Inr (Some (int i), ps) \<and>
      (\<forall>l < length vec. dbl_le (ds l) (ds i)) \<and> (\<forall>l < i. dbl_lt (ds l) (ds i))"
    using assms v by (intro exI [of _ i]) (simp add: arrayLargestOffset_def dbl_le_def dbl_lt_def)
  have "\<exists>i < length vec. scan_best double_of (\<lambda>v best. dbl_lt v best) dbl_inf 0 0 vec ps = Inr (Some (int i), ps) \<and>
      (\<forall>l < length vec. - dbl_key (ds l) \<le> - dbl_key (ds i)) \<and> (\<forall>l < i. - dbl_key (ds l) < - dbl_key (ds i))"
    by (rule scan_finds_first [where node = DoubleN and usable = "\<lambda>d. \<not> dbl_nan d"])
      (use assms v dbl_ends in \<open>simp_all add: members_Some dbl_lt_def\<close>)
  then obtain k where "k < length vec" "scan_best double_of (\<lambda>v best. dbl_lt v best) dbl_inf 0 0 vec ps = Inr (Some (int k), ps)"
    "\<forall>l < length vec. - dbl_key (ds l) \<le> - dbl_key (ds k)" "\<forall>l < k. - dbl_key (ds l) < - dbl_key (ds k)" by blast
  then show "\<exists>i < length vec. arraySmallestOffset DOUBLE_TYPE vec ps = Inr (Some (int i), ps) \<and>
      (\<forall>l < length vec. dbl_le (ds i) (ds l)) \<and> (\<forall>l < i. dbl_lt (ds i) (ds l))"
    using assms v by (intro exI [of _ k]) (simp add: arraySmallestOffset_def dbl_le_def dbl_lt_def [abs_def])
qed

text \<open>Two arrays: 5, -1, 5 and the doubles 1.0, -infinity.\<close>

definition array_state :: ParserState where
  "array_state = free_state\<lparr>heap := [3 \<mapsto> Some (IntN 5), 4 \<mapsto> Some (IntN (- 1)),
     5 \<mapsto> Some (DoubleN 0x3FF0000000000000), 6 \<mapsto> Some (DoubleN dbl_minus_inf)]\<rparr>"

theorem array_searches_find_the_first_best_witness:
  "(\<exists>i < 3. arrayLargestOffset INT_TYPE [3, 4, 3] array_state = Inr (Some (int i), array_state)) \<and>
   (\<exists>i < 2. arraySmallestOffset DOUBLE_TYPE [5, 6] array_state = Inr (Some (int i), array_state))"
proof
  let ?vs = "\<lambda>j. if j = 1 then - 1 else 5 :: u32"
  have "\<forall>j < length [3, 4, 3 :: nat]. heap array_state ([3, 4, 3] ! j) = Some (Some (IntN (?vs j)))"
    by (auto simp: less_Suc_eq numeral_3_eq_3 array_state_def)
  from array_searches_find_the_first_best [OF list.simps(3), THEN conjunct1, THEN mp, OF this, THEN conjunct1]
  have "\<exists>i < length [3, 4, 3 :: nat]. arrayLargestOffset INT_TYPE [3, 4, 3] array_state = Inr (Some (int i), array_state)"
    by blast
  then show "\<exists>i < 3. arrayLargestOffset INT_TYPE [3, 4, 3] array_state = Inr (Some (int i), array_state)"
    by (simp add: numeral_3_eq_3)
  let ?ds = "\<lambda>j. if j = 0 then 0x3FF0000000000000 else dbl_minus_inf"
  have "\<not> dbl_nan 0x3FF0000000000000" by (simp add: dbl_nan_def dbl_mag_def take_bit_eq_mod)
  then have "\<forall>j < length [5, 6 :: nat]. heap array_state ([5, 6] ! j) = Some (Some (DoubleN (?ds j))) \<and> \<not> dbl_nan (?ds j)"
    using dbl_ends(2) by (auto simp: less_Suc_eq numeral_2_eq_2 array_state_def)
  from array_searches_find_the_first_best [OF list.simps(3), THEN conjunct2, THEN mp, OF this, THEN conjunct2]
  have "\<exists>i < length [5, 6 :: nat]. arraySmallestOffset DOUBLE_TYPE [5, 6] array_state = Inr (Some (int i), array_state)"
    by blast
  then show "\<exists>i < 2. arraySmallestOffset DOUBLE_TYPE [5, 6] array_state = Inr (Some (int i), array_state)"
    by (simp add: numeral_2_eq_2)
qed

subsection \<open>Numbers\<close>

lemma log2_bounds: "0 < n \<Longrightarrow> 2 ^ log2_nat n \<le> n \<and> n < 2 * 2 ^ log2_nat n"
proof (induction n rule: log2_nat.induct)
  case (1 n)
  show ?case
  proof (cases "n < 2")
    case True
    then show ?thesis using 1 by (simp add: log2_nat.simps [of n])
  next
    case False
    then have "2 ^ log2_nat (n div 2) \<le> n div 2 \<and> n div 2 < 2 * 2 ^ log2_nat (n div 2)" using 1 by simp
    moreover have "log2_nat n = Suc (log2_nat (n div 2))" using False by (simp add: log2_nat.simps [of n])
    ultimately show ?thesis by simp linarith
  qed
qed

text \<open>The fraction and the exponent of an integer below \<open>2 ^ 53\<close>.\<close>

lemma dbl_of_int_parts:
  assumes "0 < n" "n < 9007199254740992"
  defines "k \<equiv> log2_nat n"
  defines "f \<equiv> n * 2 ^ (52 - k) - 4503599627370496"
  shows "k \<le> 52" "f < 4503599627370496" "4503599627370496 + f = n * 2 ^ (52 - k)"
    "(1023 + k) * 4503599627370496 + f < 9223372036854775808"
proof -
  have b: "2 ^ k \<le> n" "n < 2 * 2 ^ k" using log2_bounds [OF assms(1)] by (simp_all add: k_def)
  show k: "k \<le> 52"
  proof (rule ccontr)
    assume "\<not> k \<le> 52"
    then have "(2 :: nat) ^ 53 \<le> 2 ^ k" by (intro power_increasing) auto
    then show False using b(1) assms(2) by simp
  qed
  have p: "(2 :: nat) ^ k * 2 ^ (52 - k) = 4503599627370496"
    using k by (simp flip: power_add)
  have "2 ^ k * 2 ^ (52 - k) \<le> n * 2 ^ (52 - k)" using b(1) by simp
  then show sum: "4503599627370496 + f = n * 2 ^ (52 - k)" using p by (simp add: f_def)
  have "n * 2 ^ (52 - k) < 2 * 2 ^ k * 2 ^ (52 - k)" by (rule mult_strict_right_mono [OF b(2)]) simp
  then have "n * 2 ^ (52 - k) < 2 * (2 ^ k * 2 ^ (52 - k))" by (simp only: mult.assoc)
  then show f: "f < 4503599627370496" unfolding p using sum by linarith
  have "(1023 + k) * 4503599627370496 \<le> 1075 * 4503599627370496" using k by simp
  then show "(1023 + k) * 4503599627370496 + f < 9223372036854775808" using f by linarith
qed

lemma word_bit_nat: "bit (w :: u64) 63 \<longleftrightarrow> odd (unat w div 9223372036854775808)"
proof -
  have "bit (unat w) 63 \<longleftrightarrow> bit w 63" by (simp add: bit_unsigned_iff)
  then show ?thesis unfolding bit_iff_odd [of "unat w"] by simp
qed

lemma sign_bit_parts:
  assumes "m < 9223372036854775808"
  shows "dbl_mag (of_nat m + (if c then 0x8000000000000000 else 0)) = m"
    "dbl_neg (of_nat m + (if c then 0x8000000000000000 else 0)) = c"
proof -
  let ?w = "of_nat m + (if c then 0x8000000000000000 else 0) :: u64"
  have w: "?w = of_nat (m + (if c then 9223372036854775808 else 0))" by simp
  have u: "unat ?w = m + (if c then 9223372036854775808 else 0)"
    unfolding w unat_of_nat using assms by simp
  have "unat (take_bit 63 ?w) = unat ?w mod 9223372036854775808"
    unfolding unsigned_take_bit_eq take_bit_nat_def by simp
  then show "dbl_mag ?w = m" unfolding u using assms by (simp add: dbl_mag_def)
  have "bit ?w 63 \<longleftrightarrow> odd (unat ?w div 9223372036854775808)" by (rule word_bit_nat)
  then show "dbl_neg ?w = c" unfolding u using assms by (simp add: dbl_neg_def)
qed

lemma dbl_value_of_int:
  assumes "\<bar>i\<bar> < 9007199254740992"
  shows "dbl_finite (dbl_of_int i) \<and> dbl_value (dbl_of_int i) = of_int i"
proof (cases "i = 0")
  case True
  then show ?thesis by (simp add: dbl_of_int_def dbl_finite_def dbl_mag_def dbl_value_def dbl_neg_def Let_def)
next
  case False
  define n k f where "n = nat \<bar>i\<bar>" and "k = log2_nat n" and "f = n * 2 ^ (52 - k) - 4503599627370496"
  have n: "0 < n" "n < 9007199254740992" using False assms by (auto simp: n_def)
  note parts = dbl_of_int_parts [OF n, folded k_def, folded f_def]
  let ?m = "(1023 + k) * 4503599627370496 + f"
  have d: "dbl_of_int i = of_nat ?m + (if i < 0 then 0x8000000000000000 else 0)"
    using False by (simp add: dbl_of_int_def Let_def n_def k_def f_def)
  note sign = sign_bit_parts [OF parts(4), of "i < 0", folded d]
  have e: "?m div 4503599627370496 = 1023 + k" using parts(2) by simp
  have e': "?m mod 4503599627370496 = f" unfolding mod_mult_self3 using parts(2) by simp
  have fin: "dbl_finite (dbl_of_int i)" unfolding dbl_finite_def sign(1) using parts(1,2) by simp
  have "(of_nat (n * 2 ^ (52 - k)) * 2 ^ (1023 + k) :: rat) = of_nat n * (2 ^ (52 - k) * 2 ^ (1023 + k))"
    by simp
  also have "(2 :: rat) ^ (52 - k) * 2 ^ (1023 + k) = 2 ^ 1075"
    using parts(1) by (simp flip: power_add)
  finally have v: "(of_nat (4503599627370496 + f) * 2 ^ (1023 + k) / 2 ^ 1075 :: rat) = of_nat n"
    unfolding parts(3) by simp
  have "dbl_value (dbl_of_int i) = (if i < 0 then - of_nat n else of_nat n)"
    unfolding dbl_value_def sign e e' Let_def using v by simp
  also have "\<dots> = of_int i" using False by (simp add: n_def)
  finally show ?thesis using fin by simp
qed

lemma nearest_even_int [simp]: "nearest_even (of_int i) = i"
  by (simp add: nearest_even_def)

text \<open>A whole number that is converted to floating point and rounded is the same number again.\<close>

theorem conversion_roundtrip: "dbl_lrint (dbl_of_int (sint i)) = i"
proof -
  have "\<bar>sint i\<bar> < 9007199254740992" using sint_32 [of i] by auto
  note d = dbl_value_of_int [OF this]
  then have "nearest_even (dbl_value (dbl_of_int (sint i))) = sint i" by (simp only: nearest_even_int)
  then show ?thesis using d sint_32 [of i] by (simp add: dbl_lrint_def)
qed

end
