(* ===== verification/Lang_Schedule.thy ===== *)
theory Lang_Schedule
  imports Remote_Values
begin

text \<open>
  MeridianProcess.cpp, lines 730-788 and 1133-1174, with \<^verbatim>\<open>addPS\<close> of MeridianProcess.h: how a node takes
  programs in and shares its time among the interpreters. Their queries wait in \<open>g_psList\<close>; a wake-up
  whose trigger socket is writable visits up to five of them. What an interpreter does in its time
  sl is the parameter \<open>sl\<close>: the state it comes back in, and whether it has been put into the
  list meanwhile, by the number of slices granted before. \<open>psLog\<close> records the slices; the program has
  no such field.
\<close>

subsection \<open>State\<close>

record dsl_query =
  dq_ps :: ParserState
  dq_ret_qid :: u64
  dq_src :: NodeIdentRendv
  dq_timeout :: u16
  dq_ttl :: u16

datatype table_entry = Interp dsl_query | Other_query

record scheduler =
  g_psList :: "u64 list"
  psTable :: "u64 \<Rightarrow> table_entry option"
  g_dummyWrite :: bool
  g_max_ttl :: u16
  psLog :: "u64 list"

type_synonym slices = "u64 \<Rightarrow> nat \<Rightarrow> ParserState \<times> bool"

definition DEFAULT_MAX_TTL :: u16 where "DEFAULT_MAX_TTL = 500"

definition newScheduler :: scheduler where
  "newScheduler = \<lparr>g_psList = [], psTable = Map.empty, g_dummyWrite = False, g_max_ttl = DEFAULT_MAX_TTL,
     psLog = []\<rparr>"

definition addPS :: "u64 \<Rightarrow> scheduler \<Rightarrow> scheduler" where
  "addPS in_id s = s\<lparr>g_psList := g_psList s @ [in_id], g_dummyWrite := True\<rparr>"

subsection \<open>Programs that arrive\<close>

text \<open>
  The branch \<^verbatim>\<open>DSL_REQUEST\<close> of the dispatcher. \<open>yyparse\<close> is the generated parser, \<open>newQID\<close> the id of the
  new query; \<open>None\<close> is a packet that makes the decoder leave its defined behaviour.
\<close>

definition dsl_request :: "u32 \<Rightarrow> (u8 list \<Rightarrow> u32 \<Rightarrow> u8 list option) \<Rightarrow> nat \<Rightarrow> (ParserState \<Rightarrow> int \<times> ParserState)
    \<Rightarrow> u64 \<Rightarrow> NodeIdent \<Rightarrow> u8 list \<Rightarrow> scheduler \<Rightarrow> scheduler option" where
  "dsl_request magic uncompress k yyparse newQID remoteNode buf s =
     (case DSLRequestPacket_parse magic uncompress k buf newParserState of
        Inl f \<Rightarrow> None
      | Inr (None, new_state) \<Rightarrow> Some s
      | Inr (Some inPacket, new_state) \<Rightarrow>
          if dsl_ttl inPacket > g_max_ttl s then Some s
          else case yyparse new_state of (r, new_state) \<Rightarrow> if r = - 1 then Some s
            else case save_context new_state of
                Inl f \<Rightarrow> None
              | Inr (r, new_state) \<Rightarrow> if r = - 1 \<or> psTable s newQID \<noteq> None then Some s
                  else Some (addPS newQID (s\<lparr>psTable := (psTable s)(newQID \<mapsto> Interp
                    \<lparr>dq_ps = new_state, dq_ret_qid = to64 (req_id_1 inPacket) (req_id_2 inPacket),
                     dq_src = \<lparr>addr = addr remoteNode, port = port remoteNode,
                       addrRendv = rendv_addr inPacket, portRendv = ucast (rendv_port inPacket)\<rparr>,
                     dq_timeout = ms_remain inPacket, dq_ttl = dsl_ttl inPacket\<rparr>)\<rparr>)))"

text \<open>An answer or latencies arrive: the interpreter, with its new state, is ready again.\<close>

definition resume :: "u64 \<Rightarrow> ParserState \<Rightarrow> scheduler \<Rightarrow> scheduler" where
  "resume in_id ps s = (case psTable s in_id of
       Some (Interp q) \<Rightarrow> addPS in_id
         (s\<lparr>psTable := (psTable s)(in_id \<mapsto> Interp (q\<lparr>dq_ps := ps\<lparr>ps_state := PS_READY\<rparr>\<rparr>))\<rparr>)
     | _ \<Rightarrow> s)"

subsection \<open>Time slices\<close>

text \<open>
  \<^verbatim>\<open>notifyQLatency\<close> of an interpreter: it runs, and its query leaves the table when the interpreter is
  done or has been stopped by an exception.
\<close>

definition run_slice :: "slices \<Rightarrow> u64 \<Rightarrow> scheduler \<Rightarrow> scheduler" where
  "run_slice sl curQueryID s = (case psTable s curQueryID of
       Some (Interp q) \<Rightarrow> (case sl curQueryID (length (psLog s)) of (ps, added) \<Rightarrow>
         let s1 = (if added then addPS curQueryID s else s)
         in s1\<lparr>psLog := psLog s @ [curQueryID], psTable := (psTable s)(curQueryID :=
              if ps_state ps \<in> {PS_RUNNING, PS_DONE} then None else Some (Interp (q\<lparr>dq_ps := ps\<rparr>)))\<rparr>)
     | _ \<Rightarrow> s)"

definition visit :: "slices \<Rightarrow> u64 \<Rightarrow> scheduler \<Rightarrow> scheduler" where
  "visit sl curQueryID s = (case psTable s curQueryID of
       None \<Rightarrow> s
     | Some Other_query \<Rightarrow> s
     | Some (Interp thisQ) \<Rightarrow> if ps_state (dq_ps thisQ) = PS_BLOCKED then s
         else let s1 = run_slice sl curQueryID s
           in if psTable s1 curQueryID \<noteq> None then s1\<lparr>g_psList := g_psList s1 @ [curQueryID]\<rparr> else s1)"

definition MAX_THREADS_PER_ITERATION :: nat where "MAX_THREADS_PER_ITERATION = 5"

text \<open>
  The loop runs over the list while it grows; what it has visited is erased afterwards. The first
  argument is the number of iterations left, \<open>i\<close> the position of the iterator.
\<close>

primrec ps_loop :: "slices \<Rightarrow> nat \<Rightarrow> nat \<Rightarrow> scheduler \<Rightarrow> nat \<times> scheduler" where
  "ps_loop sl 0 i s = (i, s)"
| "ps_loop sl (Suc k) i s = (if length (g_psList s) \<le> i then (i, s)
     else ps_loop sl k (Suc i) (visit sl (g_psList s ! i) s))"

definition schedule :: "slices \<Rightarrow> scheduler \<Rightarrow> scheduler" where
  "schedule sl s = (if \<not> g_dummyWrite s then s
     else case ps_loop sl MAX_THREADS_PER_ITERATION 0 s of (n, s1) \<Rightarrow>
       let s2 = s1\<lparr>g_psList := drop n (g_psList s1)\<rparr>
       in if g_psList s2 = [] then s2\<lparr>g_dummyWrite := False\<rparr> else s2)"

subsection \<open>The list is a queue\<close>

text \<open>
  The reference: a turn takes the first of the queue off, visits it, and leaves it to the visit to put
  it back at the end.
\<close>

definition turn :: "slices \<Rightarrow> scheduler \<Rightarrow> scheduler" where
  "turn sl s = (if g_psList s = [] then s
     else let s1 = visit sl (hd (g_psList s)) s in s1\<lparr>g_psList := tl (g_psList s1)\<rparr>)"

definition set_trigger :: "scheduler \<Rightarrow> scheduler" where
  "set_trigger s = (if g_psList s = [] then s\<lparr>g_dummyWrite := False\<rparr> else s)"

text \<open>A visit appends to the list, and does the same whatever the list was.\<close>

lemma visit_list:
  "\<exists>ys. g_psList (visit sl i s) = g_psList s @ ys \<and>
    (\<forall>xs. visit sl i (s\<lparr>g_psList := xs\<rparr>) = (visit sl i s)\<lparr>g_psList := xs @ ys\<rparr>)"
proof (cases "psTable s i")
  case None
  then show ?thesis by (simp add: visit_def)
next
  case (Some e)
  then show ?thesis
    by (cases e; cases "sl i (length (psLog s))") (auto simp: visit_def run_slice_def addPS_def Let_def)
qed

lemma turns_empty: "g_psList s = [] \<Longrightarrow> (turn sl ^^ n) s = s"
  by (induction n) (simp_all add: turn_def)

lemma ps_loop_turns:
  assumes "i \<le> length (g_psList s)"
  shows "case ps_loop sl k i s of (n, s1) \<Rightarrow>
    s1\<lparr>g_psList := drop n (g_psList s1)\<rparr> = (turn sl ^^ k) (s\<lparr>g_psList := drop i (g_psList s)\<rparr>)"
  using assms
proof (induction k arbitrary: i s)
  case (Suc k)
  show ?case
  proof (cases "length (g_psList s) \<le> i")
    case True
    then show ?thesis by (simp add: turns_empty del: funpow.simps)
  next
    case False
    let ?id = "g_psList s ! i"
    obtain ys where ys: "g_psList (visit sl ?id s) = g_psList s @ ys"
      "\<And>xs. visit sl ?id (s\<lparr>g_psList := xs\<rparr>) = (visit sl ?id s)\<lparr>g_psList := xs @ ys\<rparr>"
      using visit_list [of sl ?id s] by blast
    have d: "drop i (g_psList s) = ?id # drop (Suc i) (g_psList s)"
      using False by (simp add: Cons_nth_drop_Suc)
    have "turn sl (s\<lparr>g_psList := drop i (g_psList s)\<rparr>) =
        (visit sl ?id s)\<lparr>g_psList := drop (Suc i) (g_psList (visit sl ?id s))\<rparr>"
      using False by (simp add: turn_def d ys Let_def)
    moreover have "Suc i \<le> length (g_psList (visit sl ?id s))" using False ys(1) by simp
    ultimately show ?thesis
      using False Suc.IH [of "Suc i" "visit sl ?id s"] by (simp add: funpow_swap1)
  qed
qed simp

lemma schedule_turns:
  "schedule sl s = (if g_dummyWrite s then set_trigger ((turn sl ^^ 5) s) else s)"
proof -
  obtain n s1 where l: "ps_loop sl MAX_THREADS_PER_ITERATION 0 s = (n, s1)" by fastforce
  have "schedule sl s = (if g_dummyWrite s then set_trigger (s1\<lparr>g_psList := drop n (g_psList s1)\<rparr>) else s)"
    by (simp add: schedule_def set_trigger_def Let_def l)
  moreover have "s1\<lparr>g_psList := drop n (g_psList s1)\<rparr> = (turn sl ^^ 5) s"
    using ps_loop_turns [where i = 0 and s = s and sl = sl and k = 5] l
    by (simp add: MAX_THREADS_PER_ITERATION_def)
  ultimately show ?thesis by simp
qed

subsection \<open>Nobody is forgotten\<close>

definition ready :: "scheduler \<Rightarrow> u64 \<Rightarrow> bool" where
  "ready s i \<longleftrightarrow> (\<exists>q. psTable s i = Some (Interp q) \<and> ps_state (dq_ps q) \<noteq> PS_BLOCKED)"

text \<open>Every interpreter that could run is in the list, and the trigger is on while the list is not empty.\<close>

definition listed :: "scheduler \<Rightarrow> bool" where
  "listed s \<longleftrightarrow> (\<forall>i. ready s i \<longrightarrow> i \<in> set (g_psList s)) \<and> (g_psList s \<noteq> [] \<longrightarrow> g_dummyWrite s)"

lemma visit_ready:
  "ready (visit sl i s) j \<Longrightarrow> j \<noteq> i \<Longrightarrow> ready s j"
  "ready (visit sl i s) i \<Longrightarrow> last (g_psList (visit sl i s)) = i \<and> length (g_psList s) < length (g_psList (visit sl i s))"
  "g_dummyWrite s \<Longrightarrow> g_dummyWrite (visit sl i s)"
  by (auto simp: visit_def run_slice_def ready_def addPS_def Let_def
      split: option.splits table_entry.splits prod.splits if_splits)

lemma turn_listed:
  assumes "listed s" "g_dummyWrite s"
  shows "(\<forall>i. ready (turn sl s) i \<longrightarrow> i \<in> set (g_psList (turn sl s))) \<and> g_dummyWrite (turn sl s)"
proof (cases "g_psList s")
  case Nil
  then show ?thesis using assms by (simp add: turn_def listed_def)
next
  case (Cons x xs)
  obtain ys where ys: "g_psList (visit sl x s) = (x # xs) @ ys"
    using visit_list [of sl x s] Cons by auto
  have t: "turn sl s = (visit sl x s)\<lparr>g_psList := xs @ ys\<rparr>" by (simp add: turn_def Cons ys Let_def)
  have "i \<in> set (xs @ ys)" if "ready (turn sl s) i" for i
  proof -
    have r: "ready (visit sl x s) i" using that by (simp add: t ready_def)
    show ?thesis
    proof (cases "i = x")
      case True
      then have "last (x # xs @ ys) = x" "ys \<noteq> []" using visit_ready(2) [of sl x s] r ys Cons by auto
      then show ?thesis using True by (metis Un_iff last.simps last_appendR last_in_set set_append append_is_Nil_conv)
    next
      case False
      then have "i \<in> set (x # xs)" using visit_ready(1) [OF r] assms(1) Cons by (metis listed_def)
      then show ?thesis using False by simp
    qed
  qed
  then show ?thesis using visit_ready(3) [OF assms(2)] by (simp add: t)
qed

lemma ready_upd [simp]: "ready (s\<lparr>g_dummyWrite := b\<rparr>) = ready s" "ready (s\<lparr>g_psList := xs\<rparr>) = ready s"
  by (simp_all add: ready_def fun_eq_iff)

lemma turns_listed:
  assumes "listed s" "g_dummyWrite s"
  shows "listed ((turn sl ^^ k) s) \<and> g_dummyWrite ((turn sl ^^ k) s)"
  using assms by (induction k) (simp_all add: turn_listed listed_def [of "turn sl _"])

lemma schedule_listed: "listed s \<Longrightarrow> listed (schedule sl s)"
  using turns_listed [where s = s and sl = sl and k = 5] by (auto simp: schedule_turns set_trigger_def listed_def)

text \<open>
  The states the node can bring the scheduler to: by wake-ups, programs that arrive, answers, queries
  that start and queries that end.
\<close>

inductive reached :: "scheduler \<Rightarrow> bool" where
  reached_new: "reached newScheduler"
| reached_round: "reached s \<Longrightarrow> reached (schedule sl s)"
| reached_request: "reached s \<Longrightarrow> dsl_request magic uncompress k yyparse i n buf s = Some s' \<Longrightarrow> reached s'"
| reached_answer: "reached s \<Longrightarrow> reached (resume i ps s)"
| reached_start: "reached s \<Longrightarrow> psTable s i = None \<Longrightarrow> reached (s\<lparr>psTable := (psTable s)(i \<mapsto> Other_query)\<rparr>)"
| reached_end: "reached s \<Longrightarrow> reached (s\<lparr>psTable := (psTable s)(i := None)\<rparr>)"
| reached_ttl: "reached s \<Longrightarrow> reached (s\<lparr>g_max_ttl := n\<rparr>)"

lemma request_cases:
  assumes "dsl_request magic uncompress k yyparse i n buf s = Some s'"
  shows "s' = s \<or> (\<exists>q. psTable s i = None \<and> s' = addPS i (s\<lparr>psTable := (psTable s)(i \<mapsto> Interp q)\<rparr>))"
  using assms unfolding dsl_request_def
  by (auto split: sum.splits prod.splits option.splits if_splits)

lemma reached_listed: "reached s \<Longrightarrow> listed s"
proof (induction rule: reached.induct)
  case reached_new
  then show ?case by (simp add: listed_def ready_def newScheduler_def)
next
  case (reached_round s sl)
  then show ?case by (simp add: schedule_listed)
next
  case (reached_request s magic uncompress k yyparse i n buf s')
  from request_cases [OF reached_request.hyps(2)] reached_request.IH show ?case
    by (auto simp: listed_def ready_def addPS_def split: if_splits)
next
  case (reached_answer s i ps)
  then show ?case
    by (auto simp: resume_def listed_def ready_def addPS_def split: option.splits table_entry.splits if_splits)
qed (auto simp: listed_def ready_def split: if_splits)

subsection \<open>Everybody gets a turn\<close>

definition slices_after :: "scheduler \<Rightarrow> scheduler \<Rightarrow> u64 list" where
  "slices_after s s' = drop (length (psLog s)) (psLog s')"

lemma visit_log: "psLog (visit sl i s) = psLog s @ (if ready s i then [i] else [])"
  by (auto simp: visit_def run_slice_def ready_def addPS_def Let_def split: option.split table_entry.split prod.split)

lemma turn_log: "psLog (turn sl s) = psLog s @ (if g_psList s \<noteq> [] \<and> ready s (hd (g_psList s)) then [hd (g_psList s)] else [])"
  by (simp add: turn_def visit_log Let_def)

lemma turns_log: "\<exists>zs. psLog ((turn sl ^^ k) s) = psLog s @ zs"
  by (induction k) (auto simp: turn_log)

lemma visit_keeps_ready: "ready s j \<Longrightarrow> j \<noteq> i \<Longrightarrow> ready (visit sl i s) j"
  by (auto simp: visit_def run_slice_def ready_def addPS_def Let_def split: option.split table_entry.split prod.split)

lemma turn_moves_up:
  assumes "p < length (g_psList s)" "ready s (g_psList s ! p)" "hd (g_psList s) \<noteq> g_psList s ! p"
  shows "p - 1 < length (g_psList (turn sl s)) \<and> g_psList (turn sl s) ! (p - 1) = g_psList s ! p \<and>
    ready (turn sl s) (g_psList s ! p) \<and> 0 < p"
proof -
  obtain x xs where l: "g_psList s = x # xs" using assms(1) by (cases "g_psList s") auto
  obtain ys where ys: "g_psList (visit sl x s) = (x # xs) @ ys"
    using visit_list [of sl x s] l by auto
  have t: "turn sl s = (visit sl x s)\<lparr>g_psList := xs @ ys\<rparr>" by (simp add: turn_def l ys Let_def)
  have p: "0 < p" using assms(3) l by (cases p) auto
  then show ?thesis using assms visit_keeps_ready [OF assms(2)] l t by (cases p) (auto simp: nth_append)
qed

lemma turns_reach:
  assumes "p < length (g_psList s)" "ready s (g_psList s ! p)"
  shows "g_psList s ! p \<in> set (slices_after s ((turn sl ^^ Suc p) s))"
  using assms
proof (induction p arbitrary: s)
  case 0
  then show ?case by (auto simp: slices_after_def turn_log hd_conv_nth)
next
  case (Suc p)
  let ?i = "g_psList s ! Suc p"
  obtain zs where zs: "psLog ((turn sl ^^ Suc p) (turn sl s)) = psLog (turn sl s) @ zs" using turns_log by blast
  have split: "(turn sl ^^ Suc (Suc p)) s = (turn sl ^^ Suc p) (turn sl s)" by (simp add: funpow_swap1)
  show ?case
  proof (cases "hd (g_psList s) = ?i")
    case True
    then have "psLog (turn sl s) = psLog s @ [?i]" using Suc.prems by (auto simp: turn_log)
    then show ?thesis unfolding slices_after_def split zs by simp
  next
    case False
    from turn_moves_up [OF Suc.prems False, of sl] have m: "p < length (g_psList (turn sl s))"
      "g_psList (turn sl s) ! p = ?i" "ready (turn sl s) ?i" by simp_all
    from Suc.IH [OF m(1)] m(2,3) have "?i \<in> set (slices_after (turn sl s) ((turn sl ^^ Suc p) (turn sl s)))" by simp
    then have "?i \<in> set zs" unfolding slices_after_def zs by simp
    then show ?thesis unfolding slices_after_def split zs by (simp add: turn_log)
  qed
qed

text \<open>Rounds and turns do the same but for the trigger.\<close>

definition same_queue :: "scheduler \<Rightarrow> scheduler \<Rightarrow> bool" where
  "same_queue s t \<longleftrightarrow> g_psList s = g_psList t \<and> psTable s = psTable t \<and> psLog s = psLog t"

lemma turn_same: "same_queue s t \<Longrightarrow> same_queue (turn sl s) (turn sl t)"
  by (auto simp: same_queue_def turn_def visit_def run_slice_def addPS_def Let_def
      split: option.split table_entry.split prod.split)

lemma turns_same: "same_queue s t \<Longrightarrow> same_queue ((turn sl ^^ k) s) ((turn sl ^^ k) t)"
  by (induction k) (simp_all add: turn_same)

lemma schedule_same: "listed s \<Longrightarrow> same_queue (schedule sl s) ((turn sl ^^ 5) s)"
proof (cases "g_dummyWrite s")
  case True
  then show ?thesis by (simp add: schedule_turns set_trigger_def same_queue_def)
next
  case False
  moreover assume "listed s"
  ultimately have "g_psList s = []" by (auto simp: listed_def)
  then show ?thesis by (simp add: schedule_turns False same_queue_def turns_empty)
qed

lemma rounds_same: "listed s \<Longrightarrow> listed ((schedule sl ^^ m) s) \<and> same_queue ((schedule sl ^^ m) s) ((turn sl ^^ (m * 5)) s)"
proof (induction m)
  case (Suc m)
  then have IH: "listed ((schedule sl ^^ m) s)" "same_queue ((schedule sl ^^ m) s) ((turn sl ^^ (m * 5)) s)" by simp_all
  have "same_queue ((turn sl ^^ 5) ((schedule sl ^^ m) s)) ((turn sl ^^ (5 + m * 5)) s)"
    unfolding funpow_add comp_apply by (rule turns_same [OF IH(2)])
  then show ?case using schedule_same [OF IH(1), where sl = sl] schedule_listed [OF IH(1)]
    by (simp add: same_queue_def)
qed (simp add: same_queue_def)

text \<open>A request with an empty program, for a function without a name, and a parser that accepts everything.\<close>

definition empty_request :: "u8 list" where
  "empty_request = DSL_REQUEST # net_uint 1 @ net_uint 2 @ net_uint 99 @ net_uint 0 @ net_ushort 0 @
     net_ushort 100 @ net_ushort 5 @ net_uint 0 @ string_bytes [] @ string_bytes [] @ net_uint 0"

definition one_program :: "scheduler option" where
  "one_program = dsl_request 99 (\<lambda>z n. Some z) 1 (\<lambda>ps. (0, ps)) 7 \<lparr>addr = 1, port = 2\<rparr> empty_request newScheduler"

lemma parse_empty_request:
  "\<exists>ps. DSLRequestPacket_parse 99 (\<lambda>z n. Some z) 1 empty_request newParserState = Inr (Some \<lparr>req_id_1 = 1,
     req_id_2 = 2, rendv_addr = 0, rendv_port = 0, ms_remain = 100, dsl_ttl = 5\<rparr>, ps) \<and>
     ps_state ps = PS_READY \<and> \<not> context_stack ps"
proof -
  have n: "newBufferWrapper empty_request (int (length empty_request)) = rd [] empty_request" by (rule new_rd)
  have s: "get_string (rd pre (net_uint 0 @ rest)) = (Some [], rd (pre @ net_uint 0) rest)"
    if "length pre + length rest < 100" for pre rest
    using get_string_rd [of pre "[]" rest] that by (simp add: string_bytes_def)
  have b: "retrieve_buf 0 (rd pre rest) = (Some [], rd pre rest)" if "length pre + length rest < 100" for pre rest
    using retrieve_buf_rd [of pre "[]" rest] that by simp
  have t: "get_type (rd pre (net_uint 0)) = (EMPTY_TYPE, rd (pre @ net_uint 0) [])" if "length pre < 100" for pre
    using retrieve_fixed_rd(4) [of pre "[]" "htonl 0"] that
    by (simp add: get_type_def net_uint_def type_of_code_def asttypes_def)
  have d: "drop (nat (bw_counter (rd pre rest))) (bw_buf (rd pre rest)) = rest" for pre rest
    by (simp add: rd_def)
  have z: "net_uint 0 = [0, 0, 0, 0]" by code_simp
  then have c: "c_string (net_uint 0) = ret []" by (simp add: c_string_def)
  show ?thesis unfolding DSLRequestPacket_parse_def n
    by (simp add: empty_request_def wire_simps t s b c d string_bytes_def unmarshal_packet_def unmarshal_contents_def
        MAX_PROGRAM_SIZE_def set_func_string_def set_param_def store_program_def create_buffer_def lang_simps
        get_var_table_def new_stack_ast_def new_ast_def tableAt_def setTable_def writeN_def
        MAX_AST_PER_STACK_def newParserState_eq initialState_def blank_state_def newInputBuffer_def)
qed

lemma one_program_ready: "\<exists>s. one_program = Some s \<and> reached s \<and> ready s 7 \<and> g_psList s = [7]"
proof -
  obtain ps where ps: "DSLRequestPacket_parse 99 (\<lambda>z n. Some z) 1 empty_request newParserState = Inr (Some \<lparr>req_id_1 = 1,
     req_id_2 = 2, rendv_addr = 0, rendv_port = 0, ms_remain = 100, dsl_ttl = 5\<rparr>, ps)"
    "ps_state ps = PS_READY" "\<not> context_stack ps"
    using parse_empty_request by blast
  then obtain s where s: "one_program = Some s" "ready s 7" "g_psList s = [7]"
    by (auto simp: one_program_def dsl_request_def newScheduler_def DEFAULT_MAX_TTL_def save_context_def
        addPS_def ready_def)
  from reached_request [OF reached_new s(1) [unfolded one_program_def]] s show ?thesis by blast
qed

text \<open>
  C16. A wake-up is five turns of a round-robin queue, although the loop walks over the list while it
  grows and erases afterwards what it has visited; the trigger is turned off when the queue is empty.
\<close>

theorem a_wake_up_is_five_turns:
  "schedule sl s = (if g_dummyWrite s then set_trigger ((turn sl ^^ 5) s) else s)"
  by (rule schedule_turns)

text \<open>
  C15. However programs arrive, are answered, run and end, every interpreter that could run is in the
  list of the scheduler, and the trigger that makes the node serve the list is on.
\<close>

theorem ready_interpreters_are_listed:
  assumes "reached s" "ready s i"
  shows "i \<in> set (g_psList s) \<and> g_dummyWrite s"
  using reached_listed [OF assms(1)] assms(2) by (fastforce simp: listed_def)

theorem ready_interpreters_are_listed_witness:
  "\<exists>s. one_program = Some s \<and> reached s \<and> ready s 7 \<and> 7 \<in> set (g_psList s) \<and> g_dummyWrite s"
  using one_program_ready ready_interpreters_are_listed by blast

text \<open>
  C9. No interpreter starves: one that is ready gets a time slice within a fifth of the length of the
  list plus one wake-ups, whatever the others do in theirs.
\<close>

theorem ready_interpreters_get_their_turn:
  assumes "reached s" "ready s i"
  shows "\<exists>m \<le> length (g_psList s) div 5 + 1. i \<in> set (slices_after s ((schedule sl ^^ m) s))"
proof -
  have l: "listed s" by (rule reached_listed [OF assms(1)])
  then have "i \<in> set (g_psList s)" using assms(2) by (simp add: listed_def)
  then obtain p where p: "p < length (g_psList s)" "g_psList s ! p = i" by (auto simp: in_set_conv_nth)
  define m where "m = Suc (p div 5)"
  have "Suc p \<le> m * 5" unfolding m_def by presburger
  then have n: "(turn sl ^^ (m * 5)) s = (turn sl ^^ (m * 5 - Suc p)) ((turn sl ^^ Suc p) s)"
    by (metis comp_apply funpow_add le_add_diff_inverse2)
  have "i \<in> set (slices_after s ((turn sl ^^ Suc p) s))" using turns_reach [where p = p and s = s and sl = sl] p assms(2) by simp
  moreover obtain zs where "psLog ((turn sl ^^ (m * 5)) s) = psLog ((turn sl ^^ Suc p) s) @ zs"
    unfolding n using turns_log by blast
  ultimately have "i \<in> set (slices_after s ((turn sl ^^ (m * 5)) s))"
    by (auto simp: slices_after_def simp del: funpow.simps)
  then have "i \<in> set (slices_after s ((schedule sl ^^ m) s))"
    using rounds_same [OF l, where sl = sl and m = m] by (simp add: slices_after_def same_queue_def)
  moreover have "m \<le> length (g_psList s) div 5 + 1"
    using p(1) by (simp add: m_def div_le_mono)
  ultimately show ?thesis by blast
qed

theorem ready_interpreters_get_their_turn_witness:
  "\<exists>s. one_program = Some s \<and> reached s \<and> ready s 7 \<and>
     (\<forall>sl. \<exists>m \<le> 1. 7 \<in> set (slices_after s ((schedule sl ^^ m) s)))"
proof -
  obtain s where s: "one_program = Some s" "reached s" "ready s 7" "g_psList s = [7]"
    using one_program_ready by blast
  from ready_interpreters_get_their_turn [OF s(2,3)] s show ?thesis by (intro exI [of _ s]) simp
qed

end
