(* ===== verification/Distance_Queries.thy ===== *)
theory Distance_Queries
  imports Node_Types
begin

text \<open>
  Query.cpp, lines 2474-2719: the two queries behind the distance functions of the query language.
  \<open>ProbeSelf\<close> collects the latencies from this node to some others; \<open>GetDistance\<close> collects what each
  source node reports into a matrix with one row per source and one column per destination. A report
  names its source in its first entry; this node is the address 0, port 0. The model keeps what the
  queries store; sending the requests is the business of the query engine.
\<close>

subsection \<open>Latencies from this node\<close>

record ProbeSelf =
  ps_remoteNodes :: "NodeIdent list"
  ps_remoteLatencies :: "(NodeIdent, u32) smap"
  ps_finished :: bool

definition newProbeSelf :: "NodeIdent list \<Rightarrow> ProbeSelf" where
  "newProbeSelf in_remote = \<lparr>ps_remoteNodes = sort (remdups in_remote), ps_remoteLatencies = [], ps_finished = False\<rparr>"

definition lat_entry :: "NodeIdent \<Rightarrow> u32 \<Rightarrow> NodeIdentLat" where
  "lat_entry n us = \<lparr>addr = addr n, port = port n, latencyUS = us\<rparr>"

text \<open>The report for the subscribers; the query is finished with it.\<close>

definition ProbeSelf_returnResults :: "ProbeSelf \<Rightarrow> NodeIdentLat list \<times> ProbeSelf" where
  "ProbeSelf_returnResults q =
     (lat_entry \<lparr>addr = 0, port = 0\<rparr> 0 # map (\<lambda>(n, us). lat_entry n us) (ps_remoteLatencies q),
      q\<lparr>ps_finished := True\<rparr>)"

definition ProbeSelf_handleLatency ::
  "NodeIdentLat list \<Rightarrow> ProbeSelf \<Rightarrow> int \<times> NodeIdentLat list option \<times> ProbeSelf" where
  "ProbeSelf_handleLatency ls q =
     (if length (ps_remoteLatencies q) = length (ps_remoteNodes q)
      then (case ProbeSelf_returnResults q of (out, q) \<Rightarrow> (0, Some out, q))
      else (case ls of
          [l] \<Rightarrow> (if ident l \<notin> set (ps_remoteNodes q) then (- 1, None, q)
            else if sm_find (ps_remoteLatencies q) (ident l) \<noteq> None then (- 1, None, q)
            else let q = q\<lparr>ps_remoteLatencies := sm_upd (ident l) (latencyUS l) (ps_remoteLatencies q)\<rparr>
              in if length (ps_remoteLatencies q) \<noteq> length (ps_remoteNodes q) then (0, None, q)
                 else (case ProbeSelf_returnResults q of (out, q) \<Rightarrow> (0, Some out, q)))
        | _ \<Rightarrow> (- 1, None, q)))"

definition ProbeSelf_handleTimeout :: "ProbeSelf \<Rightarrow> ProbeSelf" where
  "ProbeSelf_handleTimeout q = q\<lparr>ps_finished := True\<rparr>"

subsection \<open>Latencies between other nodes\<close>

record GetDistance =
  gd_srcNodes :: "NodeIdentRendv list"
  gd_destNodesVect :: "NodeIdent list"
  gd_latencyMatrixUS :: "u32 list"
  gd_receivedRow :: "nat list"
  gd_finished :: bool

definition newGetDistance :: "NodeIdentRendv list \<Rightarrow> NodeIdentRendv list \<Rightarrow> GetDistance" where
  "newGetDistance in_src in_remote = \<lparr>gd_srcNodes = in_src, gd_destNodesVect = map ident in_remote,
     gd_latencyMatrixUS = replicate (length in_src * length in_remote) UINT_MAX, gd_receivedRow = [],
     gd_finished = False\<rparr>"

text \<open>What is passed to the interpreter: every source with its row.\<close>

definition GetDistance_results :: "GetDistance \<Rightarrow> (NodeIdentRendv \<times> u32 list) list" where
  "GetDistance_results q = map (\<lambda>i. (gd_srcNodes q ! i,
     take (length (gd_destNodesVect q)) (drop (i * length (gd_destNodesVect q)) (gd_latencyMatrixUS q))))
     [0..<length (gd_srcNodes q)]"

definition GetDistance_returnResults :: "GetDistance \<Rightarrow> (NodeIdentRendv \<times> u32 list) list \<times> GetDistance" where
  "GetDistance_returnResults q = (GetDistance_results q, q\<lparr>gd_finished := True\<rparr>)"

text \<open>One entry of a report goes to every column of its destination.\<close>

definition store_latency :: "nat \<Rightarrow> GetDistance \<Rightarrow> NodeIdentLat \<Rightarrow> GetDistance" where
  "store_latency i q l = foldl (\<lambda>q k. if gd_destNodesVect q ! k = ident l
       then q\<lparr>gd_latencyMatrixUS := (gd_latencyMatrixUS q)[i * length (gd_destNodesVect q) + k := latencyUS l]\<rparr>
       else q) q [0..<length (gd_destNodesVect q)]"

definition store_row :: "NodeIdentLat list \<Rightarrow> GetDistance \<Rightarrow> nat \<Rightarrow> GetDistance" where
  "store_row ls q i = (if ident (gd_srcNodes q ! i) \<noteq> ident (hd ls) \<or> i \<in> set (gd_receivedRow q) then q
     else foldl (store_latency i) (q\<lparr>gd_receivedRow := i # gd_receivedRow q\<rparr>) (tl ls))"

definition GetDistance_handleLatency ::
  "NodeIdentLat list \<Rightarrow> GetDistance \<Rightarrow> int \<times> (NodeIdentRendv \<times> u32 list) list option \<times> GetDistance" where
  "GetDistance_handleLatency ls q =
     (if length (gd_receivedRow q) = length (gd_srcNodes q)
      then (case GetDistance_returnResults q of (out, q) \<Rightarrow> (0, Some out, q))
      else if ls = [] then (- 1, None, q)
      else let q = foldl (store_row ls) q [0..<length (gd_srcNodes q)]
        in if length (gd_receivedRow q) = length (gd_srcNodes q)
           then (case GetDistance_returnResults q of (out, q) \<Rightarrow> (0, Some out, q))
           else (0, None, q))"

text \<open>
  \<^verbatim>\<open>init\<close>: the queries that are started, each with its source (\<open>None\<close>: a \<open>ProbeSelf\<close> of this node) and
  the destinations; without a source the query notifies itself and answers at once.
\<close>

definition GetDistance_init :: "GetDistance \<Rightarrow> (NodeIdentRendv option \<times> NodeIdent list) list \<times>
    (NodeIdentRendv \<times> u32 list) list option \<times> GetDistance" where
  "GetDistance_init q =
     (if gd_srcNodes q = [] then ([], snd (GetDistance_handleLatency [] q))
      else (map (\<lambda>s. (if addr s = 0 \<and> port s = 0 then None else Some s, sort (remdups (gd_destNodesVect q))))
              (gd_srcNodes q), None, q))"

definition GetDistance_handleTimeout :: "GetDistance \<Rightarrow> (NodeIdentRendv \<times> u32 list) list \<times> GetDistance" where
  "GetDistance_handleTimeout q = GetDistance_returnResults q"

subsection \<open>What the matrix holds\<close>

definition entry :: "GetDistance \<Rightarrow> nat \<Rightarrow> nat \<Rightarrow> u32" where
  "entry q i k = gd_latencyMatrixUS q ! (i * length (gd_destNodesVect q) + k)"

definition matrix_ok :: "GetDistance \<Rightarrow> bool" where
  "matrix_ok q \<longleftrightarrow> length (gd_latencyMatrixUS q) = length (gd_srcNodes q) * length (gd_destNodesVect q)"

text \<open>The reference: the last latency a report has for a destination.\<close>

definition reported :: "NodeIdentLat list \<Rightarrow> u32 \<Rightarrow> NodeIdent \<Rightarrow> u32" where
  "reported ls x d = foldl (\<lambda>x l. if d = ident l then latencyUS l else x) x ls"

lemma index_eq:
  assumes "k < m" "k' < (m :: nat)"
  shows "i * m + k = i' * m + k' \<longleftrightarrow> i = i' \<and> k = k'"
proof
  assume e: "i * m + k = i' * m + k'"
  have "i = (i * m + k) div m" "i' = (i' * m + k') div m" using assms by simp_all
  then show "i = i' \<and> k = k'" using e by simp
qed simp

lemma index_less: "i < n \<Longrightarrow> k < m \<Longrightarrow> i * m + k < n * (m :: nat)"
proof -
  assume "i < n" "k < m"
  then have "i * m + k < Suc i * m" "Suc i * m \<le> n * m" by simp_all (metis Suc_leI mult_le_mono1 mult_Suc)
  then show ?thesis by linarith
qed

lemma store_latency_fold:
  fixes l :: NodeIdentLat
  assumes "matrix_ok q" "i < length (gd_srcNodes q)" "K \<le> length (gd_destNodesVect q)"
  defines "q' \<equiv> foldl (\<lambda>q k. if gd_destNodesVect q ! k = ident l
       then q\<lparr>gd_latencyMatrixUS := (gd_latencyMatrixUS q)[i * length (gd_destNodesVect q) + k := latencyUS l]\<rparr>
       else q) q [0..<K]"
  shows "gd_srcNodes q' = gd_srcNodes q \<and> gd_destNodesVect q' = gd_destNodesVect q \<and>
    gd_receivedRow q' = gd_receivedRow q \<and> gd_finished q' = gd_finished q \<and> matrix_ok q' \<and>
    (\<forall>i' k. k < length (gd_destNodesVect q) \<longrightarrow> entry q' i' k =
       (if i' = i \<and> k < K \<and> gd_destNodesVect q ! k = ident l then latencyUS l else entry q i' k))"
  using assms(3) unfolding q'_def
proof (induction K)
  case (Suc K)
  let ?f = "\<lambda>q k. if gd_destNodesVect q ! k = ident l
       then q\<lparr>gd_latencyMatrixUS := (gd_latencyMatrixUS q)[i * length (gd_destNodesVect q) + k := latencyUS l]\<rparr>
       else q"
  define p where "p = foldl ?f q [0..<K]"
  have IH: "gd_srcNodes p = gd_srcNodes q" "gd_destNodesVect p = gd_destNodesVect q"
    "gd_receivedRow p = gd_receivedRow q" "gd_finished p = gd_finished q" "matrix_ok p"
    "\<And>i' k. k < length (gd_destNodesVect q) \<Longrightarrow> entry p i' k =
       (if i' = i \<and> k < K \<and> gd_destNodesVect q ! k = ident l then latencyUS l else entry q i' k)"
    using Suc unfolding p_def by simp_all
  have K: "K < length (gd_destNodesVect q)" using Suc.prems by simp
  have fold: "foldl ?f q [0..<Suc K] = ?f p K" by (simp add: p_def)
  have "i * length (gd_destNodesVect p) + K < length (gd_latencyMatrixUS p)"
    using IH(1,2,5) K assms(2) index_less unfolding matrix_ok_def by simp
  then have "entry (?f p K) i' k =
      (if i' = i \<and> k < Suc K \<and> gd_destNodesVect q ! k = ident l then latencyUS l else entry q i' k)"
    if "k < length (gd_destNodesVect q)" for i' k
    using IH(6) [OF that, of i'] index_eq [OF that K, of i' i] IH(2)
    by (auto simp: entry_def nth_list_update less_Suc_eq)
  then show ?case unfolding fold using IH by (auto simp: matrix_ok_def)
qed (use assms(1) in simp)

lemma store_latency_effect:
  assumes "matrix_ok q" "i < length (gd_srcNodes q)"
  shows "gd_srcNodes (store_latency i q l) = gd_srcNodes q"
    "gd_destNodesVect (store_latency i q l) = gd_destNodesVect q"
    "gd_receivedRow (store_latency i q l) = gd_receivedRow q" "matrix_ok (store_latency i q l)"
    "k < length (gd_destNodesVect q) \<Longrightarrow> entry (store_latency i q l) i' k =
       (if i' = i \<and> gd_destNodesVect q ! k = ident l then latencyUS l else entry q i' k)"
  using store_latency_fold [OF assms order.refl, of l] unfolding store_latency_def by auto

lemma store_latencies_effect:
  fixes ls :: "NodeIdentLat list"
  assumes "matrix_ok q" "i < length (gd_srcNodes q)"
  defines "q' \<equiv> foldl (store_latency i) q ls"
  shows "gd_srcNodes q' = gd_srcNodes q \<and> gd_destNodesVect q' = gd_destNodesVect q \<and>
    gd_receivedRow q' = gd_receivedRow q \<and> matrix_ok q' \<and>
    (\<forall>i' k. k < length (gd_destNodesVect q) \<longrightarrow> entry q' i' k =
       (if i' = i then reported ls (entry q i k) (gd_destNodesVect q ! k) else entry q i' k))"
  using assms(1,2) unfolding q'_def
proof (induction ls arbitrary: q)
  case (Cons l ls)
  note s = store_latency_effect [OF Cons.prems, where l = l]
  show ?case
    using Cons.IH [of "store_latency i q l"] s Cons.prems(2) by (auto simp: reported_def)
qed (simp add: reported_def)

text \<open>The state after some reports, by the first report of every source.\<close>

definition from_source :: "NodeIdentRendv \<Rightarrow> NodeIdentLat list \<Rightarrow> bool" where
  "from_source s ls \<longleftrightarrow> ls \<noteq> [] \<and> ident (hd ls) = ident s"

definition row_after :: "NodeIdentLat list list \<Rightarrow> NodeIdentRendv \<Rightarrow> NodeIdent \<Rightarrow> u32" where
  "row_after reports s d = (case List.find (from_source s) reports of None \<Rightarrow> UINT_MAX
     | Some ls \<Rightarrow> reported (tl ls) UINT_MAX d)"

definition heard :: "NodeIdentLat list list \<Rightarrow> NodeIdentRendv \<Rightarrow> bool" where
  "heard reports s \<longleftrightarrow> (\<exists>ls \<in> set reports. from_source s ls)"

definition holds :: "NodeIdentRendv list \<Rightarrow> NodeIdent list \<Rightarrow> (nat \<Rightarrow> NodeIdentLat list list) \<Rightarrow> GetDistance \<Rightarrow> bool" where
  "holds srcs dests reports q \<longleftrightarrow> gd_srcNodes q = srcs \<and> gd_destNodesVect q = dests \<and> matrix_ok q \<and>
     distinct (gd_receivedRow q) \<and>
     set (gd_receivedRow q) = {i. i < length srcs \<and> heard (reports i) (srcs ! i)} \<and>
     (\<forall>i < length srcs. \<forall>k < length dests. entry q i k = row_after (reports i) (srcs ! i) (dests ! k))"

lemma find_append: "List.find P (xs @ ys) = (case List.find P xs of None \<Rightarrow> List.find P ys | Some x \<Rightarrow> Some x)"
  by (induction xs) auto

lemma heard_find: "heard reports s \<longleftrightarrow> List.find (from_source s) reports \<noteq> None"
  by (auto simp: heard_def find_None_iff)

lemma row_after_snoc: "row_after (reports @ [ls]) s d =
    (if heard reports s \<or> \<not> from_source s ls then row_after reports s d else reported (tl ls) UINT_MAX d)"
  using heard_find [of reports s] by (auto simp: row_after_def find_append split: option.split)

lemma heard_snoc: "heard (reports @ [ls]) s \<longleftrightarrow> heard reports s \<or> from_source s ls"
  by (auto simp: heard_def)

lemma store_row_holds:
  assumes "holds srcs dests reports q" "i < length srcs" "ls \<noteq> []"
  shows "holds srcs dests (reports(i := reports i @ [ls])) (store_row ls q i)"
proof (cases "ident (srcs ! i) \<noteq> ident (hd ls) \<or> i \<in> set (gd_receivedRow q)")
  case True
  then have "heard (reports i) (srcs ! i) \<or> \<not> from_source (srcs ! i) ls"
    using assms by (auto simp: holds_def from_source_def)
  then show ?thesis
    using True assms(1,2) by (auto simp: store_row_def holds_def row_after_snoc heard_snoc)
next
  case False
  let ?p = "q\<lparr>gd_receivedRow := i # gd_receivedRow q\<rparr>"
  have new: "from_source (srcs ! i) ls" "\<not> heard (reports i) (srcs ! i)"
    using False assms by (auto simp: holds_def from_source_def)
  have p: "matrix_ok ?p" "i < length (gd_srcNodes ?p)" using assms by (auto simp: holds_def matrix_ok_def)
  have "List.find (from_source (srcs ! i)) (reports i) = None" using new(2) by (simp add: heard_find)
  then have old: "entry ?p i k = UINT_MAX" if "k < length dests" for k
  proof -
    have "entry ?p i k = entry q i k" by (simp add: entry_def)
    then show ?thesis
      using that assms(1,2) \<open>List.find (from_source (srcs ! i)) (reports i) = None\<close>
      by (simp add: holds_def row_after_def)
  qed
  have "store_row ls q i = foldl (store_latency i) ?p (tl ls)"
    using False assms(1) unfolding store_row_def holds_def by auto
  then show ?thesis
    using store_latencies_effect [OF p, of "tl ls"] old new assms(1,2) False
    by (auto simp: holds_def row_after_snoc heard_snoc) (auto simp: entry_def)
qed

lemma store_rows_hold:
  assumes "holds srcs dests (\<lambda>_. reports) q" "ls \<noteq> []" "n \<le> length srcs"
  shows "holds srcs dests (\<lambda>i. if i < n then reports @ [ls] else reports) (foldl (store_row ls) q [0..<n])"
  using assms(3)
proof (induction n)
  case (Suc n)
  then have "holds srcs dests (\<lambda>i. if i < n then reports @ [ls] else reports) (foldl (store_row ls) q [0..<n])"
    by simp
  from store_row_holds [OF this, of n ls] Suc.prems assms(2)
  have "holds srcs dests ((\<lambda>i. if i < n then reports @ [ls] else reports)(n := reports @ [ls]))
      (store_row ls (foldl (store_row ls) q [0..<n]) n)" by simp
  moreover have "(\<lambda>i. if i < n then reports @ [ls] else reports)(n := reports @ [ls]) =
      (\<lambda>i. if i < Suc n then reports @ [ls] else reports)" by auto
  ultimately show ?case by simp
qed (use assms in simp)

lemma holds_cong:
  assumes "holds srcs dests reports q" "\<And>i. i < length srcs \<Longrightarrow> reports' i = reports i"
  shows "holds srcs dests reports' q"
  using assms by (auto simp: holds_def)

text \<open>All sources have reported.\<close>

definition complete :: "NodeIdentRendv list \<Rightarrow> NodeIdentLat list list \<Rightarrow> bool" where
  "complete srcs reports \<longleftrightarrow> (\<forall>s \<in> set srcs. heard reports s)"

lemma received_all:
  assumes "holds srcs dests (\<lambda>_. reports) q"
  shows "length (gd_receivedRow q) = length srcs \<longleftrightarrow> complete srcs reports"
proof -
  have len: "length (gd_receivedRow q) = card {i. i < length srcs \<and> heard reports (srcs ! i)}"
  proof -
    have "distinct (gd_receivedRow q)"
      "set (gd_receivedRow q) = {i. i < length srcs \<and> heard reports (srcs ! i)}"
      using assms unfolding holds_def by blast+
    then show ?thesis by (metis distinct_card)
  qed
  let ?S = "{i. i < length srcs \<and> heard reports (srcs ! i)}"
  have sub: "?S \<subseteq> {..<length srcs}" by auto
  have "?S = {..<length srcs}" if "card ?S = length srcs"
    using card_subset_eq [OF finite_lessThan sub] that by simp
  then have "card ?S = length srcs \<longleftrightarrow> ?S = {..<length srcs}"
    by (metis card_lessThan)
  moreover have "?S = {..<length srcs} \<longleftrightarrow> (\<forall>i < length srcs. heard reports (srcs ! i))"
    unfolding set_eq_iff mem_Collect_eq lessThan_iff by metis
  ultimately show ?thesis unfolding len complete_def all_set_conv_all_nth by simp
qed

lemma results_of:
  assumes "holds srcs dests (\<lambda>_. reports) q"
  shows "GetDistance_results q = map (\<lambda>s. (s, map (row_after reports s) dests)) srcs"
proof (rule nth_equalityI)
  show len: "length (GetDistance_results q) = length (map (\<lambda>s. (s, map (row_after reports s) dests)) srcs)"
    using assms by (simp add: GetDistance_results_def holds_def)
  fix i assume "i < length (GetDistance_results q)"
  then have i: "i < length srcs" using len by simp
  have h: "gd_srcNodes q = srcs" "gd_destNodesVect q = dests"
    "length (gd_latencyMatrixUS q) = length srcs * length dests"
    "\<forall>k < length dests. gd_latencyMatrixUS q ! (i * length dests + k) = row_after reports (srcs ! i) (dests ! k)"
    using assms i by (auto simp: holds_def matrix_ok_def entry_def)
  have "Suc i * length dests \<le> length srcs * length dests" using i by (metis Suc_leI mult_le_mono1)
  then have "take (length dests) (drop (i * length dests) (gd_latencyMatrixUS q)) = map (row_after reports (srcs ! i)) dests"
  proof (intro nth_equalityI)
    fix k assume "k < length (take (length dests) (drop (i * length dests) (gd_latencyMatrixUS q)))"
    then have "k < length dests" "i * length dests \<le> length (gd_latencyMatrixUS q)"
      using h(3) i \<open>Suc i * length dests \<le> length srcs * length dests\<close> by auto
    then show "take (length dests) (drop (i * length dests) (gd_latencyMatrixUS q)) ! k =
        map (row_after reports (srcs ! i)) dests ! k"
      using h(4) by simp
  qed (use h(3) in simp)
  then show "GetDistance_results q ! i = map (\<lambda>s. (s, map (row_after reports s) dests)) srcs ! i"
    using i h by (simp add: GetDistance_results_def)
qed

lemma new_holds: "holds srcs (map ident dests) (\<lambda>_. []) (newGetDistance srcs dests)"
  by (auto simp: holds_def newGetDistance_def matrix_ok_def heard_def row_after_def entry_def index_less)

lemma report_holds:
  assumes "holds srcs dests (\<lambda>_. reports) q"
  shows "holds srcs dests (\<lambda>_. reports @ [ls]) (snd (snd (GetDistance_handleLatency ls q)))"
    "fst (snd (GetDistance_handleLatency ls q)) = (if complete srcs (reports @ [ls])
       then Some (map (\<lambda>s. (s, map (row_after (reports @ [ls]) s) dests)) srcs) else None)"
proof -
  have fin: "holds srcs dests r (q\<lparr>gd_finished := True\<rparr>) \<longleftrightarrow> holds srcs dests r q" for q r
    by (simp add: holds_def matrix_ok_def entry_def)
  have src: "gd_srcNodes q = srcs" using assms by (simp add: holds_def)
  have all: "holds srcs dests (\<lambda>_. reports @ [ls]) q \<and> complete srcs (reports @ [ls])" if all: "complete srcs reports"
  proof -
    have "heard reports (srcs ! i)" if "i < length srcs" for i
      using all that by (simp add: complete_def)
    then show ?thesis
      using assms all unfolding holds_def by (simp add: row_after_snoc heard_snoc complete_def cong: conj_cong)
  qed
  have none: "holds srcs dests (\<lambda>_. reports @ [ls]) q \<and> (complete srcs (reports @ [ls]) \<longleftrightarrow> complete srcs reports)"
    if "ls = []"
    using that assms by (auto simp: holds_def complete_def row_after_snoc heard_snoc from_source_def)
  define p where "p = foldl (store_row ls) q [0..<length srcs]"
  have some: "holds srcs dests (\<lambda>_. reports @ [ls]) p" if "ls \<noteq> []"
    unfolding p_def by (rule holds_cong [OF store_rows_hold [OF assms that order.refl]]) simp
  have srcp: "gd_srcNodes p = srcs" if "ls \<noteq> []" using some [OF that] by (simp add: holds_def)
  note r = results_of [of srcs dests "reports @ [ls]"]
  show "holds srcs dests (\<lambda>_. reports @ [ls]) (snd (snd (GetDistance_handleLatency ls q)))"
    using all none some received_all [OF assms]
    by (auto simp: GetDistance_handleLatency_def GetDistance_returnResults_def src Let_def fin p_def [symmetric])
  show "fst (snd (GetDistance_handleLatency ls q)) = (if complete srcs (reports @ [ls])
       then Some (map (\<lambda>s. (s, map (row_after (reports @ [ls]) s) dests)) srcs) else None)"
    using all none some srcp received_all [OF assms] received_all [OF some] r
    by (auto simp: GetDistance_handleLatency_def GetDistance_returnResults_def src Let_def fin p_def [symmetric])
qed

text \<open>The query after a sequence of reports, with what it answered to the last of them.\<close>

definition after_reports :: "NodeIdentRendv list \<Rightarrow> NodeIdentRendv list \<Rightarrow> NodeIdentLat list list \<Rightarrow> GetDistance" where
  "after_reports srcs dests reports =
     foldl (\<lambda>q ls. snd (snd (GetDistance_handleLatency ls q))) (newGetDistance srcs dests) reports"

lemma after_reports_hold: "holds srcs (map ident dests) (\<lambda>_. reports) (after_reports srcs dests reports)"
  by (induction reports rule: rev_induct) (simp_all add: after_reports_def new_holds report_holds(1))

text \<open>
  C8. Whatever reports arrive, in whatever order and however often, the measurement is answered by
  the first report of the last source that was missing, with one row per source; every entry is what
  the first report of that source says about the destination, or the largest number if it says
  nothing. A timeout answers with the rows there are.
\<close>

theorem distances_are_first_reports:
  "fst (snd (GetDistance_handleLatency ls (after_reports srcs dests reports))) =
     (if complete srcs (reports @ [ls])
      then Some (map (\<lambda>s. (s, map (row_after (reports @ [ls]) s) (map ident dests))) srcs) else None) \<and>
   fst (GetDistance_handleTimeout (after_reports srcs dests reports)) =
     map (\<lambda>s. (s, map (row_after reports s) (map ident dests))) srcs"
  using report_holds(2) [OF after_reports_hold] results_of [OF after_reports_hold]
  by (simp add: GetDistance_handleTimeout_def GetDistance_returnResults_def)

end
