(* ===== verification/Spec2Isabelle.thy ===== *)
theory Spec2Isabelle
  imports Witness_Node Lang_Claims Lang_Schedule Distance_Queries
begin

text \<open>
  A model of libMeridian, a C++ library for network-position queries (closest node, latency
  constraints) over an overlay of nodes that keep each other in concentric latency rings, and the
  theorems that make it correct.

  The program. A node (\<^verbatim>\<open>MeridianProcess\<close>) is one \<^verbatim>\<open>select\<close> loop over a datagram socket, an ICMP
  socket, the TCP and DNS sockets of its probes, the connections of an information service and,
  for nodes behind a firewall, the tunnels of a rendezvous node. A datagram is parsed by the packet
  classes (\<^verbatim>\<open>Marshal.h\<close>) and starts or feeds a query object (\<^verbatim>\<open>Query.h\<close>, \<^verbatim>\<open>Query.cpp\<close>) of the query table
  (\<^verbatim>\<open>QueryTable.cpp\<close>). Queries measure latencies, pass them to their subscribers, read and fill the
  ring set (\<^verbatim>\<open>RingSet.cpp\<close>) and the latency caches (\<^verbatim>\<open>LatencyCache.cpp\<close>) and answer with packets that
  wait in the output queues of the node. A node built for it also runs programs of a small query
  language, sent to it by other nodes (\<^verbatim>\<open>MQLState.cpp\<close>, \<^verbatim>\<open>MeridianDSL.cpp\<close>).

  The theories, bottom up.
  \<^item> Foundations: \<open>Merid_Prelude\<close> (machine types, generic lemmas), \<open>Std_Containers\<close> (\<^verbatim>\<open>std::map\<close> and
    \<^verbatim>\<open>std::set\<close> as sorted lists, the contract \<open>std_map\<close>), \<open>Floats\<close> (doubles with a rounding function).
  \<^item> \<^verbatim>\<open>Marshal.h\<close> and \<^verbatim>\<open>Marshal.cpp\<close>: \<open>Node_Types\<close> (identifiers and their orders), \<open>Wire_Buffers\<close> (byte
    order, \<^verbatim>\<open>BufferWrapper\<close>), \<open>Real_Packets\<close> (\<^verbatim>\<open>RealPacket\<close>, request ids, headers), \<open>Packet_Types\<close>,
    \<open>Packet_Entries\<close>, \<open>Requests\<close>, \<open>Replies\<close>, \<open>Tunnel\<close> (PUSH and PULL frames), \<open>Info_Packet\<close>.
  \<^item> The data structures: \<open>Ring_Numbers\<close>, \<open>Ring_Ops\<close> and \<open>Ring_Queries\<close> (\<^verbatim>\<open>RingSet\<close>), \<open>Timeout_Index\<close>
    (what the next two share), \<open>Latency_Cache\<close>, \<open>Query_Table\<close>.
  \<^item> The queries: \<open>Query_Objects\<close> (the classes as records), \<open>Process_State\<close> (the state of the
    node and the operations queries use), \<open>Probe_Sockets\<close>, \<open>Probe_Queries\<close>, \<open>Closest_Query\<close>,
    \<open>Constraint_Query\<close>, \<open>Ring_Manage\<close> and \<open>Query_Engine\<close> (the virtual dispatch and the delivery of
    packets, latencies and timeouts).
  \<^item> The node (\<^verbatim>\<open>MeridianProcess.cpp\<close>): \<open>Meridian_Node\<close> (packet dispatch, ICMP), \<open>Info_Service\<close>,
    \<open>Node_Loop\<close> (tunnels, start-up, the loop).
  \<^item> The query language: \<open>Lang_State\<close> (\<^verbatim>\<open>MQLState.h\<close>: the heap of nodes, variable tables, the state of an
    interpreter), \<open>Lang_Numbers\<close>, \<open>Lang_Vars\<close> (\<^verbatim>\<open>MQLState.cpp\<close>), \<open>Lang_Make\<close>, \<open>Lang_Wire\<close>, \<open>Lang_Ops\<close>,
    \<open>Lang_Native\<close>, \<open>Lang_Eval\<close> (\<^verbatim>\<open>MeridianDSL.cpp\<close>: making nodes, marshalling, values, native functions,
    the evaluator), \<open>Lang_Handlers\<close> (\<^verbatim>\<open>Query.cpp\<close>: what a node gives its interpreters), \<open>Lang_Schedule\<close>
    (\<^verbatim>\<open>MeridianProcess.cpp\<close>: how a node takes programs in and shares its time among them), \<open>Lang_Alone\<close>
    (\<^verbatim>\<open>DSLStandAlone.cpp\<close>: the interpreter outside of a node), \<open>Distance_Queries\<close> (\<^verbatim>\<open>Query.cpp\<close>: the queries
    behind the distance functions).
  \<^item> Proofs about the queries: \<open>Engine_Logic\<close> (the invariant and the rules of execution),
    \<open>Engine_Frames\<close>, \<open>Engine_Objects\<close>, \<open>Engine_Sockets\<close> (primitive operations), \<open>Engine_Probes\<close>,
    \<open>Engine_Measure\<close>, \<open>Engine_Search\<close>, \<open>Engine_Constraints\<close>, \<open>Engine_Rings\<close> (the handlers of each
    class), \<open>Engine_Safety\<close>, \<open>Engine_Timeouts\<close> (the engine as a whole).
  \<^item> Proofs about the node: \<open>Node_Packets\<close>, \<open>Node_Sending\<close>, \<open>Node_Tunnels\<close>, \<open>Node_Info\<close>,
    \<open>Node_Safety\<close> (one iteration), \<open>Node_Start\<close>, \<open>Node_Runs\<close> (whole runs), \<open>Node_Delivery\<close> (end to end
    delivery). \<open>Witness_States\<close>, \<open>Witness_Node\<close> and \<open>Lang_Claims\<close> hold the concrete states of the witnesses.

  Conventions. A state is a record with the fields of the class and an operation takes it and
  returns it updated; an \<^verbatim>\<open>int\<close> result (0, -1) stays an \<^verbatim>\<open>int\<close>. \<open>None\<close> is a run the code does not
  survive: a failed assertion, an access to a deleted object or outside a container, a null pointer,
  or fuel that has run out. Unsigned and fixed-width integers are words, so arithmetic wraps as in
  C. Three kinds of undefined behaviour are not \<open>None\<close> but recorded in a flag of the state, because the
  code runs on: a read outside a packet buffer (\<open>bw_oob\<close>), setting or clearing a descriptor that is
  negative or at least \<^verbatim>\<open>FD_SETSIZE\<close> in a descriptor set (\<open>g_fdFault\<close>; testing one with \<^verbatim>\<open>FD_ISSET\<close> is
  \<open>None\<close>, as what it answers is unknown), and the use of the reference to the front of the secondary list
  that \<^verbatim>\<open>RingSet::eraseNode\<close> gets from \<^verbatim>\<open>insertNode\<close> after the element is erased (\<open>rs_stale\<close>; the
  run goes on with the value the element had). Query objects live in a store from ids
  to objects from which \<^verbatim>\<open>delete\<close> removes them. The build modelled has \<^verbatim>\<open>GOSSIP_PUSHPULL\<close> and \<^verbatim>\<open>PLANET_LAB_SUPPORT\<close> on; the node itself is
  modelled with \<^verbatim>\<open>MERIDIAN_DSL\<close> off, and the branches under it on their own in \<open>Lang_Schedule\<close>.

  Parameters. The record \<open>env\<close> holds what the system answers: the clock, \<^verbatim>\<open>rand\<close>, the results of socket
  calls, what \<^verbatim>\<open>select\<close> reports and what arrives, the rounding of the floating-point unit, and the
  volume of a latency matrix (BLAS and qhull). The hypotheses on it are \<open>env_ok\<close> (the descriptor of a
  new socket is -1 or one that is not open and is smaller than \<^verbatim>\<open>FD_SETSIZE\<close>, a volume is not
  negative), \<open>patient\<close> (a blocking tunnel connection is answered after finitely many
  retries) and \<open>run_ok\<close> (no packet of the run is one of those C32 and C33 exhibit). The code does not
  check descriptors against \<^verbatim>\<open>FD_SETSIZE\<close>: that they fit is a hypothesis on the system, not a result.

  Bounds and fuel. \<open>deliver\<close> carries fuel for the chain of subscriptions; the engine gives it the
  number of query objects plus one, and \<open>deliveries_return\<close> shows that this is always enough, because
  a delivery reaches every object at most once. \<open>tunnelWait\<close> carries fuel for the retries, enough by
  \<open>patient\<close>. Every other loop is a structural recursion or a \<open>fold\<close>. In the
  query language the number given to \<open>eval_ast\<close> is the recursion limit of the code; \<open>e_stack\<close> and
  \<open>e_loops\<close> of \<open>dsl_env\<close> bound the C stack and the iterations of a loop, and running out of them is a
  fault of its own (\<open>Deep\<close>, \<open>Long\<close>), so no theorem takes it for a result; \<open>lookup\<close> goes through at most
  as many tables as were ever made, which is always enough (\<open>lookup_refines_environments\<close>).

  What the lemmas show. Ring set: well-formedness under all operations with tidy arrangements, the sizes
  under all, what each operation does to the two maps and when it uses the dead reference, the
  logarithm formula against its radius specification, completeness of the two window queries (in exact
  arithmetic), and the two ways in which rendezvous nodes and members get lost. Cache and query
  table: eviction, expiry, refiling, timeout rounds, on the contract of \<open>Timeout_Index\<close>. Packets:
  every parser inverts its writer, accepts nothing but encodings (contracts \<open>entry_codec\<close> and
  \<open>packet_codec\<close>, for the classes the theorems name) and stays inside the datagram; the one reader that
  can be led outside is exhibited. Engine
  and node: no handler, timeout round, packet or loop iteration fails (contract \<open>event_loop\<close>),
  from start-up on, except on the inputs that are characterised exactly; schedulers are always
  re-armed; relaying through a rendezvous node refines direct delivery.

  Query language: \<open>Lang_Logic\<close> states the invariant of the memory (every node is owned by one live scope
  and refers only to nodes of that scope or an outer one) and the judgement \<open>runs\<close>; \<open>Lang_Memory\<close>,
  \<open>Lang_Create\<close>, \<open>Lang_Values\<close>, \<open>Lang_Safety\<close> and \<open>Lang_Interpreter\<close> prove it of every operation and of the
  evaluator, inside the locale \<open>interpreter\<close>, whose laws (suspending, remote calls and the native
  functions of the host keep the invariant) \<open>Lang_Node\<close> and \<open>Lang_Alone\<close> discharge for the two hosts, with
  \<open>Lang_Quiet\<close> and \<open>Lang_Decode\<close>; on a node the law needs an \<open>orderly\<close> main thread, one that resumes a
  blocked interpreter only with what it waits for. \<open>Lang_Programs\<close> covers parsing and whole programs,
  \<open>Value_Encoding\<close> and \<open>Remote_Values\<close> the values sent between nodes, \<open>Lang_Claims\<close> the properties,
  among them the inputs on which the interpreter goes wrong. \<open>Lang_Schedule\<close> shows that the list of
  interpreters is a round-robin queue in which no ready interpreter is lost or starves.

  Not modelled: the volume computation and the Gram-Schmidt step (\<^verbatim>\<open>GramSchmidtOpt.cpp\<close>, linear algebra
  of BLAS and qhull), the command-line programs and demonstrations, logging, \<^verbatim>\<open>SearchQuery\<close> (whose
  methods all assert false) and destructors that only free memory; of the
  query language, the lexer and the grammar (flex and bison generate the parser; the states it can
  reach are \<open>built\<close>), what is printed, the main loop of \<^verbatim>\<open>DSLStandAlone.cpp\<close>. An
  interpreter sees its host as the lists of events (\<open>wake\<close>) while it is suspended, and the scheduler of
  the host (\<open>Lang_Schedule\<close>) sees an interpreter as the states it comes back in (\<open>slices\<close>). zlib, the rounding floating-point operations and the mathematical
  library are parameters.
\<close>

section \<open>The latency rings\<close>



text \<open>
  C21. An insertion returns 0 and keeps the ring set well formed. Unless a frozen ring blocks it,
  the node is afterwards known with the new latency, the oldest secondary member of a full target
  ring is forgotten, its rendezvous node included, when room had to be made, and nothing else is
  known differently. This takes the erasure of the evicted node to go on with the value the erased
  list element had: the code reads it through a reference to the dead element, on exactly the
  insertions that evict somebody (\<open>rs_stale\<close>).
\<close>

theorem insertNode_updates_latencies:
  assumes "ring_wf F rs"
  shows "\<exists>rs'. insertNodeRendv F n l rend rs = Some (0, rs') \<and> ring_wf F rs' \<and>
    (\<forall>m. getNodeLatency rs' m =
      (if insert_blocked F rs n l then getNodeLatency rs m
       else if m = n then Some l
       else if insert_victim F rs n l = Some m then None
       else getNodeLatency rs m)) \<and>
    (\<forall>m. m \<noteq> n \<longrightarrow> rendvLookup rs' m =
      (if insert_victim F rs n l = Some m then None else rendvLookup rs m)) \<and>
    (rs_stale rs' \<longleftrightarrow> rs_stale rs \<or> insert_victim F rs n l \<noteq> None)"
  unfolding getNodeLatency_def rendvLookup_def
  by (rule insertNodeRendv_wf [OF assms, of n l rend]) blast

theorem insertNode_updates_latencies_witness:
  "\<exists>rs'. insertNodeRendv ideal_fpu nodeC 500 noRendv exRings = Some (0, rs') \<and>
     getNodeLatency rs' nodeC = Some 500 \<and> getNodeLatency rs' nodeB = None \<and>
     getNodeLatency rs' nodeA = Some 500 \<and> rendvLookup rs' nodeA = Some nodeC \<and> rs_stale rs'"
proof -
  have v: "\<not> insert_blocked ideal_fpu exRings nodeC 500"
    "insert_victim ideal_fpu exRings nodeC 500 = Some nodeB"
    by (simp_all add: insert_blocked_def insert_victim_def victim_def members_def)
  obtain rs' where r: "insertNodeRendv ideal_fpu nodeC 500 noRendv exRings = Some (0, rs')"
    "\<And>m. getNodeLatency rs' m = (if m = nodeC then Some 500 else if nodeB = m then None
       else getNodeLatency exRings m)"
    "\<And>m. m \<noteq> nodeC \<Longrightarrow> rendvLookup rs' m = (if nodeB = m then None else rendvLookup exRings m)"
    "rs_stale rs'"
    using insertNode_updates_latencies [OF exRings_wf, of nodeC 500 noRendv] v by auto
  show ?thesis
    using r(2) [of nodeA] r(2) [of nodeB] r(2) [of nodeC] r(3) [of nodeA]
    by (intro exI [of _ rs']) (simp add: r(1,4) getNodeLatency_def rendvLookup_def)
qed

text \<open>
  C22. Erasing a node returns -1 exactly for a node that is not a member; a member of a ring that
  is not frozen is forgotten by both maps, the latencies and the rendezvous nodes, everything else
  in them is left alone, the invariant is kept and no dead reference is used.
\<close>

theorem eraseNode_forgets:
  assumes "ring_wf F rs"
  shows "\<exists>ret rs'. eraseNode F n rs = Some (ret, rs') \<and> ring_wf F rs' \<and>
    ret = (if getNodeLatency rs n = None then -1 else 0) \<and>
    (\<forall>m. getNodeLatency rs' m =
      (if m = n \<and> (\<exists>l. getNodeLatency rs n = Some l \<and>
                       \<not> ringFrozen rs (getRingNumber F rs l))
       then None else getNodeLatency rs m)) \<and>
    (\<forall>m. rendvLookup rs' m =
      (if m = n \<and> (\<exists>l. getNodeLatency rs n = Some l \<and>
                       \<not> ringFrozen rs (getRingNumber F rs l))
       then None else rendvLookup rs m)) \<and>
    rs_stale rs' = rs_stale rs"
  unfolding getNodeLatency_def rendvLookup_def
  by (rule eraseNode_wf [OF assms, of n]) blast

theorem eraseNode_forgets_witness:
  "\<exists>rs'. eraseNode ideal_fpu nodeA exRings = Some (0, rs') \<and> ring_wf ideal_fpu rs' \<and>
     getNodeLatency rs' nodeA = None \<and> getNodeLatency rs' nodeB = Some 500 \<and>
     rendvLookup exRings nodeA = Some nodeC \<and> rendvLookup rs' nodeA = None"
  using eraseNode_forgets [OF exRings_wf, of nodeA] by (auto simp: getNodeLatency_def rendvLookup_def)

text \<open>
  C20. The ring number computed with logarithms is the index of the first ring whose outer radius,
  \<open>base ^ i\<close> milliseconds, reaches the latency, capped at the last of the ten rings.
\<close>

theorem getRingNumber_first_radius:
  assumes "2 \<le> unat (exponentBase rs)" "i \<le> 9"
  shows "getRingNumber ideal_fpu rs l \<le> int i \<longleftrightarrow>
    i = 9 \<or> unat l \<le> 1000 * unat (exponentBase rs) ^ i"
  by (rule getRingNumber_power_law [OF assms])

theorem getRingNumber_first_radius_witness:
  "getRingNumber ideal_fpu exRings 8000 \<le> 3 \<and> \<not> getRingNumber ideal_fpu exRings 8001 \<le> 3"
  using getRingNumber_first_radius [of exRings 3 8000]
    getRingNumber_first_radius [of exRings 3 8001] by simp

text \<open>
  A member that moves to another ring loses its rendezvous node, although \<^verbatim>\<open>insertNode\<close> without
  a rendezvous argument is documented to preserve the existing mapping.
\<close>

theorem insertNode_drops_rendezvous:
  assumes "ring_wf F rs" "getNodeLatency rs n = Some p"
    and "getRingNumber F rs p \<noteq> getRingNumber F rs l" "\<not> insert_blocked F rs n l"
  shows "\<exists>rs'. insertNode F n l rs = Some (0, rs') \<and> rendvLookup rs' n = None"
proof -
  let ?r = "case sm_find (rendvMapping rs) n of None \<Rightarrow> \<lparr>addr = 0, port = 0\<rparr> | Some r \<Rightarrow> r"
  obtain rs' where "insertNodeRendv F n l ?r rs = Some (0, rs')"
    using insertNodeRendv_wf [OF assms(1), of n l ?r] by metis
  then show ?thesis
    using insertNodeRendv_moves [OF assms(1) _ assms(3,4)] assms(2)
    by (auto simp: insertNode_def getNodeLatency_def Let_def)
qed

theorem insertNode_drops_rendezvous_witness:
  "rendvLookup exRings nodeA = Some nodeC \<and>
   (\<exists>rs'. insertNode ideal_fpu nodeA 5000 exRings = Some (0, rs') \<and> rendvLookup rs' nodeA = None)"
proof
  show "rendvLookup exRings nodeA = Some nodeC" by (simp add: rendvLookup_def)
  show "\<exists>rs'. insertNode ideal_fpu nodeA 5000 exRings = Some (0, rs') \<and> rendvLookup rs' nodeA = None"
    by (rule insertNode_drops_rendezvous [OF exRings_wf, of nodeA 500])
      (simp_all add: getNodeLatency_def insert_blocked_def)
qed

text \<open>
  C23. The check for a replacement round only ever permutes the ring it looks at and keeps the
  invariant; it asks for a round exactly when more members without a rendezvous node are at hand
  than the primary list takes, and when there are exactly as many it moves all of them, and no
  one else, into the primary list.
\<close>

theorem eligibleForReplacement_permutes:
  assumes "ring_wf F rs" "ring_index i" "eligibleForReplacement i rs = (b, rs')"
  shows "ring_wf F rs' \<and> mset (members rs' i) = mset (members rs i) \<and>
    (b \<longleftrightarrow> \<not> ringFrozen rs i \<and> isPrimRingFull rs i \<and> secondaryRing rs i \<noteq> [] \<and>
       unat (primarySize rs) < numEligible rs i) \<and>
    (\<not> ringFrozen rs i \<and> isPrimRingFull rs i \<and> secondaryRing rs i \<noteq> [] \<and>
       numEligible rs i = unat (primarySize rs) \<longrightarrow>
     (\<forall>n \<in> set (primaryRing rs' i). \<not> behindRendv rs n) \<and>
     (\<forall>n \<in> set (secondaryRing rs' i). behindRendv rs n))"
  using eligibleForReplacement_wf [OF assms] eligible_swap [OF assms(2,3)] by blast

theorem eligibleForReplacement_permutes_witness:
  "\<not> fst (eligibleForReplacement 0 exRings) \<and>
   filter (behindRendv exRings) (primaryRing (snd (eligibleForReplacement 0 exRings)) 0) = []"
proof -
  have "ring_index 0" by (simp add: MAX_NUM_RINGS_def)
  moreover have "numEligible exRings 0 = 1" "isPrimRingFull exRings 0"
    by (simp_all add: numEligible_def behindRendv_def rendvLookup_def isPrimRingFull_def)
  ultimately show ?thesis
    using eligibleForReplacement_permutes [OF exRings_wf _ prod.collapse [symmetric], of 0]
    by (simp add: filter_empty_conv)
qed

text \<open>
  Handing a ring a new arrangement without repetitions, with a full primary list if there is
  a secondary one, keeps the invariant, and it is accepted exactly when it fits and names the
  members of the ring.
\<close>

theorem setRingMembers_accepts_permutations:
  assumes "ring_wf F rs" "ring_index i" "distinct (ps @ ss)"
    and "ss \<noteq> [] \<Longrightarrow> length ps = unat (primarySize rs)"
    and "setRingMembers i ps ss rs = (code, rs')"
  shows "ring_wf F rs' \<and> (code = 0 \<longleftrightarrow> length ps \<le> unat (primarySize rs) \<and>
    length ss \<le> unat (secondarySize rs) \<and> set (ps @ ss) = set (members rs i))"
  using setRingMembers_wf [OF assms(1,3,4,5)]
    setRingMembers_iff [OF assms(2) ring_wfD(1) [OF assms(1,2)] assms(3)] assms(5)
  by simp

theorem setRingMembers_accepts_permutations_witness:
  "fst (setRingMembers 0 [nodeB] [nodeA] exRings) = 0 \<and>
   ring_wf ideal_fpu (snd (setRingMembers 0 [nodeB] [nodeA] exRings))"
  using setRingMembers_accepts_permutations
    [OF exRings_wf _ _ _ prod.collapse [symmetric], of 0 "[nodeB]" "[nodeA]"]
  by (auto simp: MAX_NUM_RINGS_def members_def)

text \<open>
  \<^verbatim>\<open>setRingMembers\<close> checks the number of nodes and that each is a member, not that they are
  different: an arrangement that names one node twice is accepted, drops the other one from the
  ring and leaves its latency on file.
\<close>

theorem setRingMembers_accepts_duplicates:
  "\<exists>rs rs'. ring_wf ideal_fpu rs \<and> setRingMembers 0 [nodeA] [nodeA] rs = (0, rs') \<and>
     nodeB \<in> set (members rs 0) \<and> nodeB \<notin> set (members rs' 0) \<and>
     getNodeLatency rs' nodeB \<noteq> None \<and> \<not> ring_wf ideal_fpu rs'"
proof -
  define rs' where "rs' = snd (setRingMembers 0 [nodeA] [nodeA] exRings)"
  have s: "setRingMembers 0 [nodeA] [nodeA] exRings = (0, rs')"
    unfolding rs'_def
    by (simp add: setRingMembers_def getNumberOfRings_def MAX_NUM_RINGS_def insort_insert_key_def)
  have r: "primaryRing rs' 0 = [nodeA]" "secondaryRing rs' 0 = [nodeA]"
    "nodeLatencyUS rs' = [(nodeA, 500), (nodeB, 500)]"
    unfolding rs'_def
    by (simp_all add: setRingMembers_def getNumberOfRings_def MAX_NUM_RINGS_def
      insort_insert_key_def)
  then have "\<not> ring_ok rs' 0" by (simp add: ring_ok_def members_def)
  then have "\<not> ring_wf ideal_fpu rs'" by (auto simp: ring_wf_def MAX_NUM_RINGS_def)
  with s r exRings_wf show ?thesis
    by (intro exI [of _ exRings] exI [of _ rs']) (simp add: members_def getNodeLatency_def)
qed

text \<open>
  C24. In exact arithmetic and with an exponent base of at least 2, a latency query of the rings finds
  exactly the primary members whose latency lies between the bounds the code derives from the
  averages and the beta ratio: looking only into the rings between the two bounds misses nobody, and
  the assertion in the loop cannot fail.
\<close>

theorem fillVector_complete:
  assumes "ring_wf ideal_fpu rs" "2 \<le> unat (exponentBase rs)"
    and "fillBounds ideal_fpu mn mx beta = (lo, hi)"
  shows "\<exists>out. fillVector ideal_fpu rs mn mx beta [] = Some out \<and> ks_ok ident out \<and>
    ident ` set out =
      {n. \<exists>i. ring_index i \<and> n \<in> set (primaryRing rs i) \<and> inWindow rs lo hi n}"
  by (rule fillVector_ideal [OF assms(1,2) ks_ok_Nil assms(3)]) auto

theorem fillVector_complete_witness:
  "\<exists>out. fillVector ideal_fpu exRings 400 600 (Fin (1 / 2)) [] = Some out \<and> nodeA \<in> ident ` set out"
proof -
  have b: "fillBounds ideal_fpu 400 600 (Fin (1 / 2)) = (200, 900)"
    by (simp add: fillBounds_def legalBeta_def d_uint_def Let_def r_to_uint_def)
  have "ring_index 0 \<and> nodeA \<in> set (primaryRing exRings 0) \<and> inWindow exRings 200 900 nodeA"
    by (simp add: MAX_NUM_RINGS_def inWindow_def getNodeLatency_def)
  moreover obtain out where "fillVector ideal_fpu exRings 400 600 (Fin (1 / 2)) [] = Some out"
    "ident ` set out =
      {n. \<exists>i. ring_index i \<and> n \<in> set (primaryRing exRings i) \<and> inWindow exRings 200 900 n}"
    using fillVector_complete [OF exRings_wf _ b] by auto
  ultimately show ?thesis by blast
qed

text \<open>
  The gossip sample has one node for every non-empty primary ring, at most ten, all primary
  members and each with its rendezvous node; one random number is drawn per node.
\<close>

theorem getRandomNodes_samples:
  "\<exists>xs. getRandomNodes rnds rs ([], 0) = (map (toRendv rs) xs, length xs) \<and> length xs \<le> 10 \<and>
     set xs \<subseteq> {n. \<exists>i. ring_index i \<and> n \<in> set (primaryRing rs i)} \<and>
     length xs = length (filter (\<lambda>i. primaryRing rs i \<noteq> []) [0, 1, 2, 3, 4, 5, 6, 7, 8, 9])"
proof -
  obtain out k' where g: "getRandomNodes rnds rs ([], 0) = (out, k')" by fastforce
  obtain xs where xs: "out = [] @ map (toRendv rs) xs" "k' = 0 + length xs" "length xs \<le> 10"
    "\<forall>n \<in> set xs. \<exists>i. ring_index i \<and> n \<in> set (primaryRing rs i)"
    "length xs = length (filter (\<lambda>i. primaryRing rs i \<noteq> []) [0, 1, 2, 3, 4, 5, 6, 7, 8, 9])"
    by (rule getRandomNodes_spec [OF g])
  have "(out, k') = (map (toRendv rs) xs, length xs)" by (simp only: xs(1,2) append_Nil add_0)
  moreover have "set xs \<subseteq> {n. \<exists>i. ring_index i \<and> n \<in> set (primaryRing rs i)}"
    using xs(4) by blast
  ultimately show ?thesis unfolding g using xs(3,5) by blast
qed

section \<open>The latency cache\<close>

text \<open>
  C17. Recording a measurement never fails an assertion and keeps the cache well formed (in
  particular within its size). The node is on file with its timeout and latency; another entry is
  dropped only when the node is new to a full cache, and then it is one that would have been the
  first to expire.
\<close>

theorem insertMeasurement_evicts_oldest:
  assumes "cache_wf c" "0 < maxSize c"
  shows "\<exists>c'. insertMeasurement now n l c = Some (0, c') \<and> cache_wf c' \<and>
    sm_find (latencyMap c') n = Some (nextTimeOut now c, l) \<and>
    ((\<forall>m. m \<noteq> n \<longrightarrow> sm_find (latencyMap c') m = sm_find (latencyMap c) m) \<or>
     (sm_find (latencyMap c) n = None \<and> length (latencyMap c) = unat (maxSize c) \<and>
      (\<exists>v tv. v \<noteq> n \<and> timeoutOf c v = Some tv \<and>
         (\<forall>m t. timeoutOf c m = Some t \<longrightarrow> tv \<le> t) \<and>
         (\<forall>m. m \<noteq> n \<longrightarrow> sm_find (latencyMap c') m =
            (if m = v then None else sm_find (latencyMap c) m)))))"
  by (rule insertMeasurement_wf [OF assms, of now n l]) blast

theorem insertMeasurement_evicts_oldest_witness:
  "\<exists>c'. insertMeasurement \<lparr>tv_sec = 100, tv_usec = 700000\<rparr> nodeC 900 exCache = Some (0, c') \<and>
     cache_wf c' \<and>
     sm_find (latencyMap c') nodeC = Some (\<lparr>tv_sec = 102, tv_usec = 200000\<rparr>, 900)"
proof -
  have nt: "nextTimeOut \<lparr>tv_sec = 100, tv_usec = 700000\<rparr> exCache =
      \<lparr>tv_sec = 102, tv_usec = 200000\<rparr>"
    by (simp add: nextTimeOut_def timeradd_def normalizeTime_def MICRO_IN_SECOND_def Let_def)
  have "0 < maxSize exCache" by (simp add: word_less_nat_alt)
  from insertMeasurement_evicts_oldest [OF exCache_wf this, of
      "\<lparr>tv_sec = 100, tv_usec = 700000\<rparr>" nodeC 900]
  show ?thesis unfolding nt by (elim exE conjE) (intro exI conjI)
qed

text \<open>
  A measurement is served until \<open>periodUS\<close> microseconds after it was recorded, and not from
  then on.
\<close>

theorem getLatency_until_timeout:
  assumes "cache_wf c" "0 < maxSize c" "tv_normal now" "tv_normal later"
  shows "\<exists>c'. insertMeasurement now n l c = Some (0, c') \<and>
    getLatency later n c' =
      (if tv_micros later < tv_micros now + uint (periodUS c) then Some l else None)"
proof -
  obtain c' where c': "insertMeasurement now n l c = Some (0, c')"
    "sm_find (latencyMap c') n = Some (nextTimeOut now c, l)"
    using insertMeasurement_wf [OF assms(1,2), of now n l] by metis
  then show ?thesis
    using getLatency_fresh [OF c'(2) nextTimeOut_micros(1) [OF assms(3)] assms(4)]
      nextTimeOut_micros(2) [OF assms(3)] by auto
qed

theorem getLatency_until_timeout_witness:
  "\<exists>c'. insertMeasurement \<lparr>tv_sec = 100, tv_usec = 0\<rparr> nodeC 900 exCache = Some (0, c') \<and>
     getLatency \<lparr>tv_sec = 101, tv_usec = 499999\<rparr> nodeC c' = Some 900"
  using getLatency_until_timeout [OF exCache_wf, of "\<lparr>tv_sec = 100, tv_usec = 0\<rparr>"
    "\<lparr>tv_sec = 101, tv_usec = 499999\<rparr>" nodeC 900]
  by (simp add: word_less_nat_alt tv_normal_def tv_micros_def MICRO_IN_SECOND_def)

text \<open>The destructor erases every entry: its two assertions hold.\<close>

theorem destroyCache_empties:
  assumes "cache_wf c"
  shows "destroyCache c = Some ()"
  by (rule destroyCache_ok [OF assms])

theorem destroyCache_empties_witness: "destroyCache exCache = Some ()"
  by (rule destroyCache_empties [OF exCache_wf])

section \<open>The query table\<close>

text \<open>
  C18. After a query has handled an event, the table drops it if it is finished and files it under
  its new timeout otherwise; the two maps stay in step, no assertion fails and no other query is
  touched.
\<close>

theorem updateTimeout_refiles:
  assumes "table_wf t" "isQueryInTable q t"
  shows "\<exists>t'. updateTimeout q finished tv t = Some (0, t') \<and> table_wf t' \<and>
    (\<forall>k. sm_find (queryTimeoutMap t') k =
      (if k = q then if finished then None else Some (normalizeTime tv)
       else sm_find (queryTimeoutMap t) k))"
  by (rule updateTimeout_wf [OF assms, of finished tv]) blast

theorem updateTimeout_refiles_witness:
  "\<exists>t'. updateTimeout 3 False \<lparr>tv_sec = 99, tv_usec = 1500000\<rparr> exTable = Some (0, t') \<and>
     table_wf t' \<and> sm_find (queryTimeoutMap t') 3 = Some \<lparr>tv_sec = 100, tv_usec = 500000\<rparr>"
proof -
  have "isQueryInTable 3 exTable" by (simp add: isQueryInTable_def)
  moreover have "normalizeTime \<lparr>tv_sec = 99, tv_usec = 1500000\<rparr> = \<lparr>tv_sec = 100, tv_usec = 500000\<rparr>"
    by (simp add: normalizeTime_def MICRO_IN_SECOND_def Let_def)
  ultimately show ?thesis
    using updateTimeout_refiles [OF exTable_wf, of 3 False "\<lparr>tv_sec = 99, tv_usec = 1500000\<rparr>"] by auto
qed

text \<open>
  A new query is refused exactly when its id is taken, and is otherwise filed under its
  timeout; the table stays well formed.
\<close>

theorem insertNewQuery_unique_ids:
  assumes "table_wf t"
  shows "table_wf (snd (insertNewQuery q tv t)) \<and>
    fst (insertNewQuery q tv t) = (if isQueryInTable q t then -1 else 0) \<and>
    (\<forall>k. sm_find (queryTimeoutMap (snd (insertNewQuery q tv t))) k =
      (if k = q \<and> \<not> isQueryInTable q t then Some (normalizeTime tv)
       else sm_find (queryTimeoutMap t) k))"
  using insertNewQuery_wf [OF assms] by blast

theorem insertNewQuery_unique_ids_witness:
  "fst (insertNewQuery 3 \<lparr>tv_sec = 99, tv_usec = 0\<rparr> exTable) = -1 \<and>
   fst (insertNewQuery 4 \<lparr>tv_sec = 99, tv_usec = 0\<rparr> exTable) = 0"
  using insertNewQuery_unique_ids [OF exTable_wf, of 3 "\<lparr>tv_sec = 99, tv_usec = 0\<rparr>"]
    insertNewQuery_unique_ids [OF exTable_wf, of 4 "\<lparr>tv_sec = 99, tv_usec = 0\<rparr>"]
  by (simp add: isQueryInTable_def)

text \<open>
  C19. The queries collected for a timeout round are exactly those whose timeout is not after the
  present, each once; and the time the event loop sleeps until is the earliest timeout on file.
\<close>

theorem timeout_round_is_exact:
  assumes "table_wf t"
  shows "set (timedOut now t) =
      {q. \<exists>tv. sm_find (queryTimeoutMap t) q = Some tv \<and> tv \<le> normalizeTime now} \<and>
    distinct (timedOut now t) \<and>
    (\<forall>q tv. sm_find (queryTimeoutMap t) q = Some tv \<longrightarrow> nextTimeout now t \<le> tv \<and>
      (\<exists>k. sm_find (queryTimeoutMap t) k = Some (nextTimeout now t)))"
  using timedOut_set [OF assms] nextTimeout_least [OF assms] by blast

theorem timeout_round_is_exact_witness:
  "set (timedOut \<lparr>tv_sec = 93, tv_usec = 0\<rparr> exTable) = {3} \<and>
   nextTimeout \<lparr>tv_sec = 93, tv_usec = 0\<rparr> exTable \<le> \<lparr>tv_sec = 95, tv_usec = 0\<rparr>"
proof -
  let ?now = "\<lparr>tv_sec = 93, tv_usec = 0\<rparr>"
  have n: "normalizeTime ?now = ?now"
    by (simp add: normalizeTime_def MICRO_IN_SECOND_def)
  note exact = timeout_round_is_exact [OF exTable_wf, of ?now, unfolded n]
  have "set (timedOut ?now exTable) =
      {q. \<exists>tv. sm_find (queryTimeoutMap exTable) q = Some tv \<and> tv \<le> ?now}"
    by (rule conjunct1 [OF exact])
  also have "\<dots> = {3}" by (auto simp: le_timeval split: if_splits)
  finally have "set (timedOut ?now exTable) = {3}" .
  moreover have "sm_find (queryTimeoutMap exTable) 8 = Some \<lparr>tv_sec = 95, tv_usec = 0\<rparr>" by simp
  then have "nextTimeout ?now exTable \<le> \<lparr>tv_sec = 95, tv_usec = 0\<rparr>" using exact by blast
  ultimately show ?thesis by blast
qed

text \<open>
  Normalising a time keeps the instant and yields a microsecond part below one second,
  except for a part of exactly one second, which is left as it is.
\<close>

theorem normalizeTime_off_by_one:
  assumes "0 \<le> tv_usec tv"
  shows "tv_micros (normalizeTime tv) = tv_micros tv \<and>
    (tv_normal (normalizeTime tv) \<longleftrightarrow> tv_usec tv \<noteq> MICRO_IN_SECOND)"
  using normalizeTime_micros normalizeTime_normal [OF assms]
  by (auto simp: normalizeTime_def tv_normal_def)

theorem normalizeTime_off_by_one_witness:
  "\<not> tv_normal (normalizeTime \<lparr>tv_sec = 4, tv_usec = 1000000\<rparr>) \<and>
   tv_normal (normalizeTime \<lparr>tv_sec = 4, tv_usec = 1000001\<rparr>)"
  using normalizeTime_off_by_one [of "\<lparr>tv_sec = 4, tv_usec = 1000000\<rparr>"]
    normalizeTime_off_by_one [of "\<lparr>tv_sec = 4, tv_usec = 1000001\<rparr>"]
  by (simp add: MICRO_IN_SECOND_def)

section \<open>The packets\<close>

text \<open>A fresh datagram to write into.\<close>

abbreviation datagram :: RealPacket where
  "datagram \<equiv> newRealPacket nodeC MAX_UDP_PACKET_SIZE"

lemma datagram_facts:
  "rp_ok datagram" "rp_size datagram = 0" "rp_complete datagram"
  "uint (rp_maxPacketSize datagram) = 1400" "getPayLoad datagram = []"
  by (simp_all add: MAX_UDP_PACKET_SIZE_def newRealPacket_def newRealPacketRendv_def rp_ok_def
    getPayLoad_def)

text \<open>
  C27. Writing a measurement request into an empty packet succeeds exactly when its encoding fits,
  and what was written parses back to the same object. The request is sent with at least one target.
\<close>

theorem request_roundtrip:
  assumes "rg_sendable r" "rp_ok p" "rp_size p = 0" "rp_complete p"
  shows "(fst (ReqGeneric_createRealPacket ty magic r p) = 0 \<longleftrightarrow>
      int (23 + 6 * length (rg_targets r)) \<le> uint (rp_maxPacketSize p)) \<and>
    (fst (ReqGeneric_createRealPacket ty magic r p) = 0 \<longrightarrow>
      fst (ReqGeneric_parse ty magic (getPayLoad (snd (ReqGeneric_createRealPacket ty magic r p)))) = Some r)"
proof -
  have "length (ReqGeneric_bytes ty magic r) = 23 + 6 * length (rg_targets r)" by (simp add: ReqGeneric_bytes_def)
  then show ?thesis
    using req_generic.create_fits [OF assms(1,2,4)] req_generic.roundtrip [OF assms(1-3)] assms(3) by simp
qed

theorem request_roundtrip_witness:
  "fst (ReqGeneric_parse ReqMeasureTCP_type 77 (getPayLoad (snd (ReqGeneric_createRealPacket ReqMeasureTCP_type 77
       \<lparr>req_id_1 = 1, req_id_2 = 2, rendv_addr = 3, rendv_port = 4, rg_targets = [nodeA, nodeB]\<rparr> datagram)))) =
   Some \<lparr>req_id_1 = 1, req_id_2 = 2, rendv_addr = 3, rendv_port = 4, rg_targets = [nodeA, nodeB]\<rparr>"
  using request_roundtrip [where r = "\<lparr>req_id_1 = 1, req_id_2 = 2, rendv_addr = 3, rendv_port = 4, rg_targets = [nodeA, nodeB]\<rparr>"
      and p = datagram and ty = "ReqMeasureTCP_type" and magic = 77]
  by (simp add: datagram_facts rg_sendable_def)

text \<open>
  Writing a latency constraint request into an empty packet succeeds exactly when its encoding fits,
  and what was written parses back to the same object. 
\<close>

theorem constraint_roundtrip:
  assumes "rc_sendable r" "rp_ok p" "rp_size p = 0" "rp_complete p"
  shows "(fst (ReqConstraintGeneric_createRealPacket ty magic r p) = 0 \<longleftrightarrow>
      int (27 + 10 * length (rc_targets r)) \<le> uint (rp_maxPacketSize p)) \<and>
    (fst (ReqConstraintGeneric_createRealPacket ty magic r p) = 0 \<longrightarrow>
      fst (ReqConstraintGeneric_parse ty magic (getPayLoad (snd (ReqConstraintGeneric_createRealPacket ty magic r p)))) = Some r)"
proof -
  have "length (ReqConstraintGeneric_bytes ty magic r) = 27 + 10 * length (rc_targets r)" by (simp add: ReqConstraintGeneric_bytes_def)
  then show ?thesis
    using req_constraint.create_fits [OF assms(1,2,4)] req_constraint.roundtrip [OF assms(1-3)] assms(3) by simp
qed

theorem constraint_roundtrip_witness:
  "fst (ReqConstraintGeneric_parse ReqConstraintTCP_type 77 (getPayLoad (snd (ReqConstraintGeneric_createRealPacket ReqConstraintTCP_type 77
       \<lparr>req_id_1 = 1, req_id_2 = 2, rendv_addr = 3, rendv_port = 4, rc_betaNum = 1, rc_betaDen = 2, rc_targets = [\<lparr>addr = 9, port = 80, latencyConstMS = 50\<rparr>]\<rparr> datagram)))) =
   Some \<lparr>req_id_1 = 1, req_id_2 = 2, rendv_addr = 3, rendv_port = 4, rc_betaNum = 1, rc_betaDen = 2, rc_targets = [\<lparr>addr = 9, port = 80, latencyConstMS = 50\<rparr>]\<rparr>"
  using constraint_roundtrip [where r = "\<lparr>req_id_1 = 1, req_id_2 = 2, rendv_addr = 3, rendv_port = 4, rc_betaNum = 1, rc_betaDen = 2, rc_targets = [\<lparr>addr = 9, port = 80, latencyConstMS = 50\<rparr>]\<rparr>"
      and p = datagram and ty = "ReqConstraintTCP_type" and magic = 77]
  by (simp add: datagram_facts rc_sendable_def)

text \<open>
  Writing a closest node request into an empty packet succeeds exactly when its encoding fits,
  and what was written parses back to the same object. 
\<close>

theorem closest_roundtrip:
  assumes "cl_sendable r" "rp_ok p" "rp_size p = 0" "rp_complete p"
  shows "(fst (ReqClosestGeneric_createRealPacket ty magic r p) = 0 \<longleftrightarrow>
      int (27 + 6 * length (cl_targets r)) \<le> uint (rp_maxPacketSize p)) \<and>
    (fst (ReqClosestGeneric_createRealPacket ty magic r p) = 0 \<longrightarrow>
      fst (ReqClosestGeneric_parse ty magic (getPayLoad (snd (ReqClosestGeneric_createRealPacket ty magic r p)))) = Some r)"
proof -
  have "length (ReqClosestGeneric_bytes ty magic r) = 27 + 6 * length (cl_targets r)" by (simp add: ReqClosestGeneric_bytes_def)
  then show ?thesis
    using req_closest.create_fits [OF assms(1,2,4)] req_closest.roundtrip [OF assms(1-3)] assms(3) by simp
qed

theorem closest_roundtrip_witness:
  "fst (ReqClosestGeneric_parse ReqClosestDNS_type 77 (getPayLoad (snd (ReqClosestGeneric_createRealPacket ReqClosestDNS_type 77
       \<lparr>req_id_1 = 1, req_id_2 = 2, rendv_addr = 3, rendv_port = 4, cl_betaNum = 1, cl_betaDen = 2, cl_targets = [nodeA, nodeB]\<rparr> datagram)))) =
   Some \<lparr>req_id_1 = 1, req_id_2 = 2, rendv_addr = 3, rendv_port = 4, cl_betaNum = 1, cl_betaDen = 2, cl_targets = [nodeA, nodeB]\<rparr>"
  using closest_roundtrip [where r = "\<lparr>req_id_1 = 1, req_id_2 = 2, rendv_addr = 3, rendv_port = 4, cl_betaNum = 1, cl_betaDen = 2, cl_targets = [nodeA, nodeB]\<rparr>"
      and p = datagram and ty = "ReqClosestDNS_type" and magic = 77]
  by (simp add: datagram_facts cl_sendable_def)

text \<open>
  Writing a gossip packet into an empty packet succeeds exactly when its encoding fits,
  and what was written parses back to the same object. Every rendezvous port of the packet has to fit into 16 bits.
\<close>

theorem gossip_roundtrip:
  assumes "gp_countable r" "rp_ok p" "rp_size p = 0" "rp_complete p"
  shows "(fst (GossipPacketGeneric_createRealPacket ty magic r p) = 0 \<longleftrightarrow>
      int (23 + 12 * length (gp_targets r)) \<le> uint (rp_maxPacketSize p)) \<and>
    (fst (GossipPacketGeneric_createRealPacket ty magic r p) = 0 \<longrightarrow>
      fst (GossipPacketGeneric_parse ty magic (getPayLoad (snd (GossipPacketGeneric_createRealPacket ty magic r p)))) = Some r)"
proof -
  have "length (GossipPacketGeneric_bytes ty magic r) = 23 + 12 * length (gp_targets r)" by (simp add: GossipPacketGeneric_bytes_def)
  then show ?thesis
    using gossip.create_fits [OF assms(1,2,4)] gossip.roundtrip [OF assms(1-3)] assms(3) by simp
qed

theorem gossip_roundtrip_witness:
  "fst (GossipPacketGeneric_parse GossipPacketPush_type 77 (getPayLoad (snd (GossipPacketGeneric_createRealPacket GossipPacketPush_type 77
       \<lparr>req_id_1 = 1, req_id_2 = 2, rendv_addr = 0, rendv_port = 0, gp_targets = [\<lparr>addr = 9, port = 80, addrRendv = 5, portRendv = 6\<rparr>]\<rparr> datagram)))) =
   Some \<lparr>req_id_1 = 1, req_id_2 = 2, rendv_addr = 0, rendv_port = 0, gp_targets = [\<lparr>addr = 9, port = 80, addrRendv = 5, portRendv = 6\<rparr>]\<rparr>"
  using gossip_roundtrip [where r = "\<lparr>req_id_1 = 1, req_id_2 = 2, rendv_addr = 0, rendv_port = 0, gp_targets = [\<lparr>addr = 9, port = 80, addrRendv = 5, portRendv = 6\<rparr>]\<rparr>"
      and p = datagram and ty = "GossipPacketPush_type" and magic = 77]
  by (simp add: datagram_facts gp_countable_def rendv_port_ok_def)

text \<open>
  Writing a measurement answer into an empty packet succeeds exactly when its encoding fits,
  and what was written parses back to the same object. 
\<close>

theorem ret_ping_roundtrip:
  assumes "rp_countable r" "rp_ok p" "rp_size p = 0" "rp_complete p"
  shows "(fst (RetPing_createRealPacket magic r p) = 0 \<longleftrightarrow>
      int (17 + 10 * length (rp_nodes r)) \<le> uint (rp_maxPacketSize p)) \<and>
    (fst (RetPing_createRealPacket magic r p) = 0 \<longrightarrow>
      fst (RetPing_parse magic (getPayLoad (snd (RetPing_createRealPacket magic r p)))) = Some r)"
proof -
  have "length (RetPing_bytes magic r) = 17 + 10 * length (rp_nodes r)" by (simp add: RetPing_bytes_def)
  then show ?thesis
    using ret_ping.create_fits [OF assms(1,2,4)] ret_ping.roundtrip [OF assms(1-3)] assms(3) by simp
qed

theorem ret_ping_roundtrip_witness:
  "fst (RetPing_parse 77 (getPayLoad (snd (RetPing_createRealPacket 77
       \<lparr>req_id_1 = 1, req_id_2 = 2, rp_nodes = [\<lparr>addr = 9, port = 80, latencyUS = 1500\<rparr>]\<rparr> datagram)))) =
   Some \<lparr>req_id_1 = 1, req_id_2 = 2, rp_nodes = [\<lparr>addr = 9, port = 80, latencyUS = 1500\<rparr>]\<rparr>"
  using ret_ping_roundtrip [where r = "\<lparr>req_id_1 = 1, req_id_2 = 2, rp_nodes = [\<lparr>addr = 9, port = 80, latencyUS = 1500\<rparr>]\<rparr>"
      and p = datagram and magic = 77]
  by (simp add: datagram_facts rp_countable_def)

text \<open>
  Writing the answer to a query into an empty packet succeeds exactly when its encoding fits,
  and what was written parses back to the same object. The answer names a node and lists its targets in order and without repetition, which is how the constructor builds it.
\<close>

theorem ret_response_roundtrip:
  assumes "rr_parsable r" "rp_ok p" "rp_size p = 0" "rp_complete p"
  shows "(fst (RetResponse_createRealPacket magic r p) = 0 \<longleftrightarrow>
      int (23 + 10 * length (rr_targets r)) \<le> uint (rp_maxPacketSize p)) \<and>
    (fst (RetResponse_createRealPacket magic r p) = 0 \<longrightarrow>
      fst (RetResponse_parse magic remote (getPayLoad (snd (RetResponse_createRealPacket magic r p)))) = Some r)"
proof -
  have "length (RetResponse_bytes magic r) = 23 + 10 * length (rr_targets r)" by (simp add: RetResponse_bytes_def)
  then show ?thesis
    using ret_response.create_fits [OF assms(1,2,4)] ret_response.roundtrip [OF assms(1-3)] assms(3) by simp
qed

theorem ret_response_roundtrip_witness:
  "fst (RetResponse_parse 77 nodeB (getPayLoad (snd (RetResponse_createRealPacket 77
       \<lparr>req_id_1 = 1, req_id_2 = 2, rr_addr = 5, rr_port = 6, rr_targets = [\<lparr>addr = 9, port = 80, latencyUS = 1500\<rparr>]\<rparr> datagram)))) =
   Some \<lparr>req_id_1 = 1, req_id_2 = 2, rr_addr = 5, rr_port = 6, rr_targets = [\<lparr>addr = 9, port = 80, latencyUS = 1500\<rparr>]\<rparr>"
  using ret_response_roundtrip [where r = "\<lparr>req_id_1 = 1, req_id_2 = 2, rr_addr = 5, rr_port = 6, rr_targets = [\<lparr>addr = 9, port = 80, latencyUS = 1500\<rparr>]\<rparr>"
      and p = datagram and magic = 77 and remote = nodeB]
  by (simp add: datagram_facts rr_parsable_def ks_ok_def)

text \<open>
  Writing an information answer into an empty packet succeeds exactly when its encoding fits,
  and what was written parses back to the same object. The answer names a node.
\<close>

theorem ret_info_roundtrip:
  assumes "ri_named r" "rp_ok p" "rp_size p = 0" "rp_complete p"
  shows "(fst (RetInfo_createRealPacket magic r p) = 0 \<longleftrightarrow>
      int (19) \<le> uint (rp_maxPacketSize p)) \<and>
    (fst (RetInfo_createRealPacket magic r p) = 0 \<longrightarrow>
      fst (RetInfo_parse magic remote (getPayLoad (snd (RetInfo_createRealPacket magic r p)))) = Some r)"
proof -
  have "length (RetInfo_bytes magic r) = 19" by (simp add: RetInfo_bytes_def)
  then show ?thesis
    using ret_info.create_fits [OF assms(1,2,4)] ret_info.roundtrip [OF assms(1-3)] assms(3) by simp
qed

theorem ret_info_roundtrip_witness:
  "fst (RetInfo_parse 77 nodeB (getPayLoad (snd (RetInfo_createRealPacket 77
       \<lparr>req_id_1 = 1, req_id_2 = 2, ri_addr = 5, ri_port = 6\<rparr> datagram)))) =
   Some \<lparr>req_id_1 = 1, req_id_2 = 2, ri_addr = 5, ri_port = 6\<rparr>"
  using ret_info_roundtrip [where r = "\<lparr>req_id_1 = 1, req_id_2 = 2, ri_addr = 5, ri_port = 6\<rparr>"
      and p = datagram and magic = 77 and remote = nodeB]
  by (simp add: datagram_facts ri_named_def)

text \<open>
  C28. The six parsers of plain requests, constraint requests, closest-node requests, gossip, ping
  answers and errors (\<^verbatim>\<open>ReqGeneric\<close>, \<^verbatim>\<open>ReqConstraintGeneric\<close>, \<^verbatim>\<open>ReqClosestGeneric\<close>,
  \<^verbatim>\<open>GossipPacketGeneric\<close>, \<^verbatim>\<open>RetPing\<close>, \<^verbatim>\<open>RetError\<close>) accept a datagram exactly when it starts with the
  encoding of the object they return: nothing truncated, nothing of another type and nothing with
  another magic number is accepted. (\<^verbatim>\<open>RetResponse\<close> is not one of them: it merges repeated nodes.)
\<close>

theorem parsers_accept_encodings_only:
  assumes "length buf < 1073741824"
  shows "(fst (ReqGeneric_parse ty magic buf) = Some rg \<longleftrightarrow>
      rg_parsable rg \<and> (\<exists>rest. buf = ReqGeneric_bytes ty magic rg @ rest)) \<and>
    (fst (ReqConstraintGeneric_parse ty magic buf) = Some rc \<longleftrightarrow>
      rc_parsable rc \<and> (\<exists>rest. buf = ReqConstraintGeneric_bytes ty magic rc @ rest)) \<and>
    (fst (ReqClosestGeneric_parse ty magic buf) = Some cl \<longleftrightarrow>
      cl_parsable cl \<and> (\<exists>rest. buf = ReqClosestGeneric_bytes ty magic cl @ rest)) \<and>
    (fst (GossipPacketGeneric_parse ty magic buf) = Some gp \<longleftrightarrow>
      gp_countable gp \<and> (\<exists>rest. buf = GossipPacketGeneric_bytes ty magic gp @ rest)) \<and>
    (fst (RetPing_parse magic buf) = Some rp \<longleftrightarrow>
      rp_countable rp \<and> (\<exists>rest. buf = RetPing_bytes magic rp @ rest)) \<and>
    (fst (RetError_parse magic buf) = Some pk \<longleftrightarrow>
      (\<exists>rest. buf = header_bytes RET_ERROR magic pk @ rest))"
  using req_generic.parse_iff [OF assms] req_constraint.parse_iff [OF assms]
    req_closest.parse_iff [OF assms] gossip.parse_iff [OF assms] ret_ping.parse_iff [OF assms]
    ret_error.parse_iff [OF assms]
  by simp

theorem parsers_accept_encodings_only_witness:
  "fst (RetError_parse 77 (header_bytes RET_ERROR 77 \<lparr>req_id_1 = 1, req_id_2 = 2\<rparr> @ [0])) =
   Some \<lparr>req_id_1 = 1, req_id_2 = 2\<rparr>"
proof -
  let ?buf = "header_bytes RET_ERROR 77 \<lparr>req_id_1 = 1, req_id_2 = 2\<rparr> @ [0 :: u8]"
  have "length ?buf < 1073741824" by (simp add: header_bytes_def)
  from parsers_accept_encodings_only [OF this, of 0 77 undefined undefined undefined undefined
      undefined "\<lparr>req_id_1 = 1, req_id_2 = 2\<rparr>"]
  show ?thesis by blast
qed

text \<open>
  C29. Whatever bytes arrive, the eight parsers of requests, gossip, answers and errors, the parsers of
  the ring report and of PUSH frames and the dispatcher's header parser do not read outside the
  datagram, and a PULL frame that is taken off the front of a stream buffer lies, its body included,
  inside the bytes received, the rest staying in the buffer. (The packets of the query language are not
  covered; \<^verbatim>\<open>unmarshal_packet\<close> takes a name for a C string and can read on.)
\<close>

theorem parsers_stay_inside_the_datagram:
  assumes "length buf < 1073741824" "rp_ok p" "rp_complete p"
  shows "bw_ok (snd (ReqGeneric_parse ty magic buf)) \<and>
    bw_ok (snd (ReqConstraintGeneric_parse ty magic buf)) \<and>
    bw_ok (snd (ReqClosestGeneric_parse ty magic buf)) \<and>
    bw_ok (snd (GossipPacketGeneric_parse ty magic buf)) \<and>
    bw_ok (snd (RetPing_parse magic buf)) \<and>
    bw_ok (snd (RetError_parse magic buf)) \<and>
    bw_ok (snd (RetInfo_parse magic remote buf)) \<and>
    bw_ok (snd (RetResponse_parse magic remote buf)) \<and>
    bw_ok (snd (snd (InfoPacket_parse magic buf []))) \<and>
    bw_ok (snd (PushPacket_parse magic remote buf)) \<and>
    bw_ok (snd (snd (snd (parseHeader magic (newBufferWrapper buf (int (length buf))))))) \<and>
    (\<forall>frame p' source. PullPacket_parse magic p src = (Some frame, p', source) \<longrightarrow>
      (\<exists>head. length head = 23 \<and> getPayLoad p = head @ getPayLoad frame @ getPayLoad p' \<and>
        rp_ok frame \<and> rp_ok p'))"
proof -
  have "bw_ok (snd (snd (snd (parseHeader magic (rd [] buf)))))"
    using assms(1) by (intro parseHeader_safe) simp
  then have header: "bw_ok (snd (snd (snd (parseHeader magic
      (newBufferWrapper buf (int (length buf)))))))"
    unfolding new_rd .
  show ?thesis
    by (intro conjI allI impI header req_generic.parse_safe req_constraint.parse_safe
        req_closest.parse_safe gossip.parse_safe ret_ping.parse_safe ret_error.parse_safe
        ret_info.parse_safe ret_response.parse_safe InfoPacket_parse_safe PushPacket_parse_safe
        PullPacket_parse_inside [OF assms(2,3)] assms(1))
qed

theorem parsers_stay_inside_the_datagram_witness:
  "\<not> bw_oob (snd (PushPacket_parse 77 nodeA [PUSH, 255, 255])) \<and>
   \<not> bw_oob (snd (ReqGeneric_parse ReqMeasureTCP_type 77 [PUSH, 255, 255]))"
  using parsers_stay_inside_the_datagram [of "[PUSH, 255, 255]" datagram ReqMeasureTCP_type 77 nodeA]
    datagram_facts
  by (simp add: bw_ok_def)

text \<open>
  C40. \<^verbatim>\<open>retrieve_buf\<close> adds the requested length to its position before it compares with the
  buffer size. On a reader of a buffer of any size an \<^verbatim>\<open>int\<close> can express, a request is served from
  outside the buffer exactly when that sum exceeds the largest \<^verbatim>\<open>int\<close>; such a request is never refused,
  and it leaves a negative position behind.
\<close>

theorem retrieve_buf_overflow:
  assumes "\<not> bw_errorFlag b" "\<not> bw_oob b" "0 \<le> bw_counter b" "bw_counter b \<le> bw_bufSize b"
    and "bw_bufSize b = int (length (bw_buf b))" "bw_bufSize b \<le> 2147483647"
    and "0 \<le> n" "n \<le> 2147483647"
  shows "(bw_oob (snd (retrieve_buf n b)) \<longleftrightarrow> 2147483647 < bw_counter b + n) \<and>
    (2147483647 < bw_counter b + n \<longrightarrow>
      fst (retrieve_buf n b) \<noteq> None \<and> bw_counter (snd (retrieve_buf n b)) < 0)"
proof (cases "2147483647 < bw_counter b + n")
  case True
  then have "c_int (bw_counter b + n) < 0" using assms by (simp add: c_int_def)
  then show ?thesis using assms True by (simp add: retrieve_buf_def)
next
  case False
  then have "c_int (bw_counter b + n) = bw_counter b + n" using assms by simp
  then show ?thesis using assms False by (simp add: retrieve_buf_def)
qed

theorem retrieve_buf_overflow_witness:
  "bw_oob (snd (retrieve_buf 2147483647 (rd [1] [2, 3]))) \<and>
   \<not> bw_oob (snd (retrieve_buf 2147483646 (rd [1] [2, 3])))"
  using retrieve_buf_overflow [of "rd [1] [2, 3]" 2147483647]
    retrieve_buf_overflow [of "rd [1] [2, 3]" 2147483646]
  by (simp add: rd_def)

text \<open>
  C30. Every append leaves the packet within its block, whether or not it fits, and so does setting
  the size: writing never overflows the allocation. After each of them the packet is complete exactly
  when it was before and the bytes fitted, and then it carries exactly these bytes behind what it had
  (\<open>writes\<close>), so a packet that lost something is always marked incomplete.
\<close>

theorem appends_stay_inside_the_block:
  assumes "rp_ok p" "0 \<le> n" "n < 1073741824" "n \<le> int (length s)" "rp_ok q"
  shows "writes p (append_char c p) [c] \<and> writes p (append_ushort h p) (u16_bytes h) \<and>
    writes p (append_uint w p) (u32_bytes w) \<and>
    writes p (append_int i p) (u32_bytes (word_of_int i)) \<and>
    writes p (append_str s n p) (take (nat n) s) \<and> writes p (append_packet q p) (getPayLoad q) \<and>
    rp_ok (append_char c p) \<and> rp_ok (append_ushort h p) \<and> rp_ok (append_uint w p) \<and>
    rp_ok (append_int i p) \<and> rp_ok (append_str s n p) \<and> rp_ok (append_packet q p) \<and>
    rp_ok (setPayLoadSize n p) \<and>
    (rp_complete (setPayLoadSize n p) \<longleftrightarrow> rp_complete p \<and> n \<le> uint (rp_maxPacketSize p))"
proof -
  have mem: "writes p (append_mem bs p) bs" if "length bs < 1073741824" for bs
    by (rule writes_append_mem [OF assms(1) that])
  have str: "writes p (append_str s n p) (take (nat n) s)"
    if "0 \<le> n" "n < 1073741824" for s and n :: int
    using mem [of "take (nat n) s"] writes_Nil [OF assms(1)] that
    by (auto simp: append_str_def writes_def)
  have q: "0 \<le> rp_size q" "rp_size q < 1073741824" using assms(5) by (auto simp: rp_ok_def)
  have w: "writes p (append_char c p) [c]" "writes p (append_ushort h p) (u16_bytes h)"
    "writes p (append_uint w p) (u32_bytes w)"
    "writes p (append_int i p) (u32_bytes (word_of_int i))"
    "writes p (append_str s n p) (take (nat n) s)" "writes p (append_packet q p) (getPayLoad q)"
    using writes_appends(1-3) [OF assms(1)] mem [of "u32_bytes (word_of_int i)"]
      str [OF assms(2,3)] str [OF q, of "rp_packet q"]
    by (simp_all add: append_int_def append_packet_def getPayLoad_def)
  have "rp_complete (setPayLoadSize n p) \<longleftrightarrow> rp_complete p \<and> n \<le> uint (rp_maxPacketSize p)"
  proof -
    have "uint (word_of_int n :: u32) = n"
      using assms(2,3) by (simp add: unsigned_of_int take_bit_int_eq_self)
    then show ?thesis using assms(2) by (auto simp: setPayLoadSize_def word_less_def)
  qed
  then show ?thesis using w w [THEN writes_ok] rp_ok_setPayLoadSize [OF assms(1), of n] assms(3) by simp
qed

theorem appends_stay_inside_the_block_witness:
  "rp_ok (append_str (replicate 2000 7) 2000 datagram) \<and>
   \<not> rp_complete (append_str (replicate 2000 7) 2000 datagram) \<and>
   getPayLoad (append_uint 5 datagram) = u32_bytes 5"
  using appends_stay_inside_the_block [OF datagram_facts(1), of 2000 "replicate 2000 7" datagram
      0 0 5 0] datagram_facts
  by (simp add: writes_def)

text \<open>
  C26. A rendezvous node turns a PUSH datagram into the PULL frame of its sender with the same
  body, addressed to the node the header names, exactly when the frame fits into a datagram;
  otherwise it returns no packet.
\<close>

theorem PushPacket_relays:
  assumes "length (PushPacket_bytes magic pk @ body) < 1073741824"
  shows "(fst (PushPacket_parse magic remote (PushPacket_bytes magic pk @ body)) = None \<longleftrightarrow>
      length body + 23 > 1400) \<and>
    (\<forall>rp. fst (PushPacket_parse magic remote (PushPacket_bytes magic pk @ body)) = Some rp \<longrightarrow>
      getPayLoad rp = relay_frame magic remote body \<and>
      addr (rp_dest rp) = pu_destIP pk \<and> port (rp_dest rp) = pu_destPort pk)"
  using PushPacket_parse_relay [OF assms, of remote] by auto

theorem PushPacket_relays_witness:
  "fst (PushPacket_parse 77 nodeA (PushPacket_bytes 77 (newPushPacket 0 9 80) @ [1, 2, 3])) \<noteq> None"
  using PushPacket_relays [of 77 "newPushPacket 0 9 80" "[1, 2, 3]" nodeA] by simp

text \<open>
  The receiver of a PULL stream takes exactly one frame off the front: it gets the body, the
  node that sent it, and a stream buffer that holds what followed the frame. Together with C29,
  a packet goes through the tunnel unchanged.
\<close>

theorem PullPacket_takes_one_frame:
  assumes "rp_ok p" "rp_complete p" "getPayLoad p = relay_frame magic remote body @ tail"
  shows "\<exists>np p'. PullPacket_parse magic p src = (Some np, p', ident remote) \<and>
    getPayLoad np = body \<and> getPayLoad p' = tail \<and> rp_ok np \<and> rp_ok p' \<and> rp_complete p'"
proof -
  let ?pl = "newPullPacket 0 (addr remote) (port remote) (word_of_nat (length body))"
  have "getPayLoad p = PullPacket_bytes magic ?pl @ body @ tail"
    using assms(3) by (simp add: relay_frame_def)
  moreover have "pl_payLoadSize ?pl = word_of_nat (length body)" "pl_srcIP ?pl = addr remote"
    "pl_srcPort ?pl = port remote"
    by (simp_all add: newPullPacket_def split: prod.split)
  ultimately show ?thesis
    using PullPacket_parse_frame [OF assms(1,2), of magic ?pl body tail src]
    by (metis ident_def)
qed

theorem PullPacket_takes_one_frame_witness:
  "\<exists>np p'. PullPacket_parse 77 (append_str (relay_frame 77 nodeA [1, 2, 3] @ [9]) 27 datagram) nodeB
      = (Some np, p', nodeA) \<and> getPayLoad np = [1, 2, 3] \<and> getPayLoad p' = [9]"
proof -
  let ?s = "relay_frame 77 nodeA [1, 2, 3] @ [9]"
  have "writes datagram (append_str ?s 27 datagram) ?s"
    by (rule writes_append_str) (simp_all add: datagram_facts relay_frame_def)
  then have "rp_ok (append_str ?s 27 datagram)" "rp_complete (append_str ?s 27 datagram)"
    "getPayLoad (append_str ?s 27 datagram) = ?s"
    using datagram_facts by (simp_all add: writes_def relay_frame_def)
  from PullPacket_takes_one_frame [OF this, of nodeB] show ?thesis by auto
qed

text \<open>
  C25. A report of the primary rings, if it fits into the packet, parses to a map that holds, for
  every non-empty primary ring, its members with their latencies in ring order.
\<close>

theorem InfoPacket_reports_rings:
  assumes "ring_wf F rings" "rp_ok p" "rp_size p = 0" "rp_complete p" "ring_index i"
    and "InfoPacket_createRealPacket magic pk rings p = (0, q)"
  shows "\<exists>m rb. InfoPacket_parse magic (getPayLoad q) [] = (0, m, rb) \<and>
    sm_find m (word_of_int i) =
      (if primaryRing rings i = [] then None else Some (primaryReport rings i))"
proof -
  note c = InfoPacket_create_bytes [OF assms(1-4,6)]
  have pay: "getPayLoad q = InfoPacket_bytes magic pk rings @ []" using c(3) by simp
  have "length (getPayLoad q) < 1073741824"
    using c(1) by (auto simp: getPayLoad_def rp_ok_def min_def)
  then have "length (InfoPacket_bytes magic pk rings @ []) < 1073741824" using pay by simp
  note parse = InfoPacket_parse_bytes [OF this]
  show ?thesis
    unfolding pay using parse collect_infoEntries [OF assms(5), of rings]
    by (metis prod.collapse)
qed

theorem InfoPacket_reports_rings_witness:
  "\<exists>m rb. InfoPacket_parse 77 (getPayLoad (snd (InfoPacket_createRealPacket 77
       \<lparr>req_id_1 = 1, req_id_2 = 2\<rparr> exRings datagram))) [] = (0, m, rb) \<and>
     sm_find m 0 = Some [\<lparr>addr = 1, port = 10, latencyUS = 500\<rparr>]"
proof -
  let ?c = "InfoPacket_createRealPacket 77 \<lparr>req_id_1 = 1, req_id_2 = 2\<rparr> exRings datagram"
  have i: "ring_index 0" by (simp add: MAX_NUM_RINGS_def)
  have "[0..MAX_NUM_RINGS - 1] = [0, 1, 2, 3, 4, 5, 6, 7, 8, 9]"
    by (simp add: MAX_NUM_RINGS_def upto.simps)
  then have "length (ringMembers exRings) = 1"
    by (simp add: ringMembers_def getNumberOfRings_def)
  then have "fst ?c = 0"
    using InfoPacket_create_bytes(2) [OF exRings_wf datagram_facts(1-3) prod.collapse [symmetric]]
      datagram_facts by simp
  then have "?c = (0, snd ?c)" by (simp add: prod_eq_iff)
  from InfoPacket_reports_rings [OF exRings_wf datagram_facts(1-3) i this] show ?thesis
    by (simp add: primaryReport_def latEntry_def getNodeLatency_def nodeA_def)
qed

text \<open>The two halves of a request id on the wire and its 64-bit form determine each other.\<close>

theorem request_ids_roundtrip:
  "to32 (to64 a b) = (a, b) \<and> (case to32 v of (x, y) \<Rightarrow> to64 x y) = v"
  by (simp split: prod.split)

section \<open>The running node\<close>



text \<open>
  C6. A timeout round always returns, and it never ends a scheduler: an unfinished one is still
  in its place afterwards, and if it was due it is armed again for a reading of the clock plus its
  initial interval, of which one fewer remains, or plus its steady interval.
\<close>

theorem schedulers_go_on:
  assumes "env_ok E" "proc_ok E p" "deref y p = Some (SchedulerQ q)" "\<not> qs_finished q"
  shows "\<exists>p'. QueryTable_handleTimeout E p = Some (0, p') \<and> proc_ok E p' \<and>
    isQueryInTable y (g_queryTable p') \<and>
    (if y \<in> set (timedOut (env_clock E (g_clockReads p)) (g_queryTable p))
     then \<exists>k. deref y p' = Some (SchedulerQ (rearmed E k q))
     else deref y p' = Some (SchedulerQ q))"
  using timeout_round_schedulers [OF assms] table_deref by (force split: if_splits)

theorem schedulers_go_on_witness:
  "\<exists>p' k. QueryTable_handleTimeout exEnv (exNode\<lparr>g_clockReads := 30\<rparr>) = Some (0, p') \<and>
     deref 7 p' = Some (SchedulerQ (rearmed exEnv k exSched))"
proof -
  let ?p = "exNode\<lparr>g_clockReads := 30\<rparr>"
  have ok: "proc_ok exEnv ?p" "deref 7 ?p = Some (SchedulerQ exSched)" "\<not> qs_finished exSched"
    using exNode_ok exNode_sched(1) by (simp_all add: frame_simps exSched_def)
  have "table_wf (g_queryTable exNode)" using exNode_ok by (simp add: proc_ok_def table_ok_def)
  then have "7 \<in> set (timedOut (env_clock exEnv (g_clockReads ?p)) (g_queryTable ?p))"
    using exNode_sched(2) by (simp add: timedOut_set(1) le_timeval normalizeTime_def)
  then show ?thesis using schedulers_go_on [OF exEnv_ok ok] by auto
qed

text \<open>
  C10. Passing a latency on along the subscriptions always returns, although a handler may deliver
  to further queries: the subscriptions have no cycle, so a depth of one more than the number of
  query objects is enough, and every larger bound gives the same result.
\<close>

theorem deliveries_return:
  assumes "proc_ok E p" "length (g_queries p) < n"
  shows "deliver E n qid lats p = notifyQLatency E qid lats p \<and> deliver E n qid lats p \<noteq> None"
  by (rule deliver_fuel [OF assms])

theorem deliveries_return_witness:
  "deliver exEnv 7 9 [] exWaiting = notifyQLatency exEnv 9 [] exWaiting"
proof -
  have "length (g_queries exWaiting) < 7" by (simp add: exWaiting_search)
  from deliveries_return [OF exWaiting_ok this] show ?thesis by blast
qed

text \<open>
  C32. A datagram makes the dispatcher fail exactly when its header says PUSH and \<^verbatim>\<open>parse\<close> finds no
  packet in it: the result of \<^verbatim>\<open>parse\<close> is used without a test. After every other datagram all
  invariants of the node hold again, and no descriptor outside a descriptor set has been used. The
  dead reference of an eviction, when a measured node pushes another one out of its ring (C21), is the
  one error this does not exclude.
\<close>

theorem dispatcher_fails_on_bad_push:
  assumes "env_ok E" "proc_ok E p"
  shows "(handleNewPacket E buf remoteNode p = None \<longleftrightarrow>
    fst (parseHeader (env_magic E) (newBufferWrapper buf (int (length buf)))) \<noteq> -1 \<and>
    fst (snd (parseHeader (env_magic E) (newBufferWrapper buf (int (length buf))))) = PUSH \<and>
    fst (PushPacket_parse (env_magic E) remoteNode buf) = None) \<and>
    (\<forall>p'. handleNewPacket E buf remoteNode p = Some p' \<longrightarrow>
      proc_ok E p' \<and> (running p \<longrightarrow> running p' \<and> \<not> g_fdFault p'))"
proof
  note iff = handleNewPacket_None_iff [OF assms, of buf remoteNode]
  show "handleNewPacket E buf remoteNode p = None \<longleftrightarrow>
    fst (parseHeader (env_magic E) (newBufferWrapper buf (int (length buf)))) \<noteq> -1 \<and>
    fst (snd (parseHeader (env_magic E) (newBufferWrapper buf (int (length buf))))) = PUSH \<and>
    fst (PushPacket_parse (env_magic E) remoteNode buf) = None"
    unfolding iff acceptable_def by (simp split: prod.split)
  show "\<forall>p'. handleNewPacket E buf remoteNode p = Some p' \<longrightarrow>
      proc_ok E p' \<and> (running p \<longrightarrow> running p' \<and> \<not> g_fdFault p')"
  proof (intro allI impI)
    fix p'
    assume h: "handleNewPacket E buf remoteNode p = Some p'"
    then have "acceptable E remoteNode buf" using iff by auto
    from handleNewPacket_wp [OF assms this] have g: "good E {} p p'" by (simp add: h wp_simps)
    then have "proc_ok E p'" by (simp add: good_def)
    moreover have "running p'" if "running p" using that g by (simp add: running_def good_def extends_def)
    ultimately show "proc_ok E p' \<and> (running p \<longrightarrow> running p' \<and> \<not> g_fdFault p')"
      using no_fault by blast
  qed
qed

theorem dispatcher_fails_on_bad_push_witness:
  "handleNewPacket exEnv ([PUSH, 0, 0, 0, 0, 0, 0, 0, 0] @ net_uint 77) nodeA exNode = None"
proof -
  let ?buf = "[PUSH, 0, 0, 0, 0, 0, 0, 0, 0] @ net_uint 77"
  have "fst (parseHeader 77 (newBufferWrapper ?buf (int (length ?buf)))) \<noteq> -1"
    "fst (snd (parseHeader 77 (newBufferWrapper ?buf (int (length ?buf))))) = PUSH"
    "fst (PushPacket_parse 77 nodeA ?buf) = None" by code_simp+
  then show ?thesis using dispatcher_fails_on_bad_push [OF exEnv_ok exNode_ok, of ?buf nodeA] exEnv_sel(2) by simp
qed

text \<open>
  C33. An echo reply makes the node fail exactly when it carries the id of a search that waits for
  the node it handed the search to, and the bytes of the IP packet do not happen to have a Meridian
  header: the handler asserts one, although the bytes come from any sender of ICMP packets.
\<close>

theorem echo_replies_can_fail:
  assumes "env_ok E" "proc_ok E p"
  shows "readICMPPacket E (Some (theirAddr, bytes)) p = None \<longleftrightarrow>
    (let buf = take MAX_ICMP_PACKET_SIZE bytes in
     echoReply buf p \<and> \<not> has_header (env_magic E) buf \<and>
     ((\<exists>q. deref (echoQuery buf) p = Some (HandleClosestQ q) \<and> hc_stateMachine q = HC_WAIT_FOR_FIN) \<or>
      (\<exists>q. deref (echoQuery buf) p = Some (HandleMCQ q) \<and> mc_stateMachine q = HMC_WAIT_FOR_FIN)))"
proof -
  define buf where "buf = take MAX_ICMP_PACKET_SIZE bytes"
  have "echoReply buf p \<Longrightarrow> buf \<noteq> []" by (auto simp: echoReply_def)
  then show ?thesis
    unfolding readICMPPacket_None_iff [OF assms] echo_ok_def packet_ok_def Let_def option.case
      prod.case buf_def [symmetric]
    by (cases "deref (echoQuery buf) p") (auto split: query.splits)
qed

theorem echo_replies_can_fail_witness:
  "readICMPPacket exEnv (Some (1, replicate 9 0 @ [1] @ replicate 10 0 @ [0, 0, 0, 0, 0, 80, 0, 0] @
     net_uint 0 @ net_uint 9)) exWaiting = None"
proof -
  let ?buf = "replicate 9 0 @ [1] @ replicate 10 0 @ [0, 0, 0, 0, 0, 80, 0, 0] @ net_uint 0 @ net_uint 9
    :: u8 list"
  have buf: "take MAX_ICMP_PACKET_SIZE ?buf = ?buf" "length ?buf = 36" "?buf ! 9 = 1"
    "?buf ! 20 = ICMP_ECHOREPLY" "[?buf ! 24, ?buf ! 25] = net_ushort 80" "\<not> has_header 77 ?buf"
    "echoQuery ?buf = 9"
    by code_simp+
  then have "echoReply ?buf exWaiting" by (simp only: echoReply_def exWaiting_search)
  moreover have "hc_stateMachine exSearch = HC_WAIT_FOR_FIN" by (simp add: exSearch_def)
  ultimately show ?thesis
    using echo_replies_can_fail [OF exEnv_ok exWaiting_ok, of 1 ?buf] exWaiting_search(1) buf(1,6,7)
    unfolding Let_def buf(1) exEnv_sel(2) by simp
qed

text \<open>
  C34. The information page is produced exactly when the whole text fits into the packet. When a byte
  is left for the terminating zero the packet gets the text of the page; when the text fits exactly,
  \<^verbatim>\<open>snprintf\<close> puts the zero in the place of its last byte. A page that does not fit fails an
  assertion or is written past the end of the buffer.
\<close>

theorem info_page_fits:
  assumes "proc_ok E p" "rp_ok pk" "rp_complete pk"
  shows "\<exists>rows. ringRows E (g_rings p) [0..getNumberOfRings (g_rings p) - 1] = Some rows \<and>
    (getInfoPacket E pk p \<noteq> None \<longleftrightarrow>
       rp_size pk + int (length (concat (page E p rows))) \<le> uint (rp_maxPacketSize pk)) \<and>
    (rp_size pk + int (length (concat (page E p rows))) \<le> uint (rp_maxPacketSize pk) \<longrightarrow>
       (\<exists>pk' p'. getInfoPacket E pk p = Some (pk', p') \<and> getPayLoad pk' = getPayLoad pk @
         (if rp_size pk + int (length (concat (page E p rows))) < uint (rp_maxPacketSize pk)
          then concat (page E p rows) else butlast (concat (page E p rows)) @ [0])))"
  by (rule getInfoPacket_size [OF assms]) blast

theorem info_page_fits_witness: "getInfoPacket exEnv (newRealPacket nodeA 10) exNode = None"
proof -
  have "rp_ok (newRealPacket nodeA 10)" "rp_complete (newRealPacket nodeA 10)"
    "rp_size (newRealPacket nodeA 10) = 0" "rp_maxPacketSize (newRealPacket nodeA 10) = 10"
    by (simp_all add: newRealPacket_def newRealPacketRendv_def rp_ok_def)
  moreover have "\<not> length (concat (page exEnv exNode rows)) \<le> 10" for rows
    by (simp add: page_def pageHead_def ascii_def)
  ultimately show ?thesis
    using info_page_fits [OF exNode_ok, of "newRealPacket nodeA 10"]
    by (cases "getInfoPacket exEnv (newRealPacket nodeA 10) exNode") auto
qed

text \<open>
  C4. Sending through a rendezvous node refines direct delivery. A packet for a node behind a
  rendezvous node is wrapped, relayed, and cut into arbitrary pieces by the stream connection; the
  node at its end handles exactly the original payload, once, as a datagram of the original
  sender, and its stream buffer is empty again.
\<close>

theorem relaying_refines_direct_delivery:
  assumes "rp_ok pk" "wrapPush (env_magic E) pk = Some w"
    and "addrRendv (rp_dest pk) \<noteq> 0 \<or> ucast (portRendv (rp_dest pk)) \<noteq> (0 :: u16)"
    and "fst (PushPacket_parse (env_magic E) sender (getPayLoad w)) = Some r"
    and "cs \<noteq> []" "[] \<notin> set cs" "concat cs = getPayLoad r"
    and "rp_ok (g_rendvRecvPacket p)" "rp_complete (g_rendvRecvPacket p)"
      "getPayLoad (g_rendvRecvPacket p) = []" "rp_maxPacketSize (g_rendvRecvPacket p) = MAX_UDP_PACKET_SIZE"
  shows "ident (rp_dest r) = ident (rp_dest pk) \<and>
    (\<exists>b'. rp_ok b' \<and> rp_complete b' \<and> getPayLoad b' = [] \<and>
      rp_maxPacketSize b' = MAX_UDP_PACKET_SIZE \<and>
      receive_pieces E cs p = do { p \<leftarrow> handleNewPacket E (getPayLoad pk) (ident sender)
        (p\<lparr>g_rendvRecvPacket := b'\<rparr>); Some (0, p) })"
  by (rule relayed_delivery [OF assms])

theorem relaying_refines_direct_delivery_witness:
  "\<exists>w r b'. wrapPush 77 exBehind = Some w \<and>
     fst (PushPacket_parse 77 nodeA (getPayLoad w)) = Some r \<and>
     receive_pieces exEnv (map (\<lambda>c. [c]) (getPayLoad r)) exNode =
       do { p \<leftarrow> handleNewPacket exEnv (getPayLoad exBehind) nodeA
              (exNode\<lparr>g_rendvRecvPacket := b'\<rparr>); Some (0, p) }"
proof -
  obtain w r where w: "wrapPush 77 exBehind = Some w"
    "fst (PushPacket_parse 77 nodeA (getPayLoad w)) = Some r" "getPayLoad r \<noteq> []"
    by (rule exBehind_relayed)
  have cs: "map (\<lambda>c. [c]) (getPayLoad r) \<noteq> []" "[] \<notin> set (map (\<lambda>c. [c]) (getPayLoad r))"
    "concat (map (\<lambda>c. [c]) (getPayLoad r)) = getPayLoad r"
    using w(3) by (auto simp: concat_map_singleton)
  from relaying_refines_direct_delivery [of exBehind exEnv, OF _ _ _ _ cs exNode_buffer]
  show ?thesis using w exBehind_facts by auto
qed

text \<open>
  C35. A node that is not behind a rendezvous node goes on with its start-up when the listener for
  such nodes cannot be created. A node with neither a listener nor a tunnel, in any state that
  satisfies the invariants, then indexes the descriptor set with -1 the first time \<^verbatim>\<open>select\<close> reports
  anything, unless the descriptor that stops the loop is ready.
\<close>

theorem start_without_listener_is_fatal:
  assumes "env_ok E" "proc_ok E p" "g_rendvFD p = -1" "g_rendvListener p = -1"
  shows "(handleReady E A p = None \<longleftrightarrow> \<not> (arr_readable A (g_stopFD p) \<and> g_readSet p (g_stopFD p))) \<and>
    (addr (g_rendvNode q) = 0 \<and> port (g_rendvNode q) = 0 \<and> createTCPListener E q = (-1, q') \<longrightarrow>
      openRendavous E fuel q = Some (0, q'\<lparr>g_rendvListener := -1\<rparr>))"
  using handleReady_no_listener [OF assms, of A] by (simp add: openRendavous_def)

theorem start_without_listener_is_fatal_witness:
  "\<exists>p. startUp exDeaf 100 [104] (Some 5) exNew = Some (None, p) \<and>
     handleReady exDeaf \<lparr>arr_readable = (\<lambda>fd. fd \<noteq> g_stopFD p), arr_writable = (\<lambda>_. True),
       arr_datagram = None, arr_echo = None, arr_tunnel = [], arr_tunnelPeer = nodeA,
       arr_info = (\<lambda>_. []), arr_infoPeer = nodeA\<rparr> p = None"
  by (rule exDeaf_starts) (simp add: start_without_listener_is_fatal [OF exDeaf_ok(1)])

end
